(* ===== verification/Prelude.thy ===== *)
theory Prelude imports Main begin

text \<open>
  Shared vocabulary of the development.

  \<^item> \<open>time\<close> and \<open>duration\<close>: Go's \<^verbatim>\<open>time.Time\<close> and \<^verbatim>\<open>time.Duration\<close>, as integers counting from the
    Unix epoch. \<^verbatim>\<open>Before\<close>, \<^verbatim>\<open>After\<close> and \<^verbatim>\<open>Equal\<close> are \<open><\<close>, \<open>>\<close> and \<open>=\<close>.
  \<^item> \<open>outcome\<close>: what a Go function that returns \<^verbatim>\<open>(T, error)\<close> and may panic can do. A nil pointer
    dereference and an explicit \<^verbatim>\<open>panic\<close> are both \<open>Panic\<close>.
  \<^item> \<open>bind_oc\<close>: the early-return discipline \<^verbatim>\<open>if err != nil { return err }\<close>.
\<close>

type_synonym time = int
type_synonym duration = int

datatype ('e, 'a) outcome = Ok 'a | Err 'e | Panic

fun bind_oc :: "('e, 'a) outcome \<Rightarrow> ('a \<Rightarrow> ('e, 'b) outcome) \<Rightarrow> ('e, 'b) outcome" where
  "bind_oc (Ok x) f = f x"
| "bind_oc (Err e) f = Err e"
| "bind_oc Panic f = Panic"

text \<open>Dereferencing a pointer: nil panics.\<close>

fun deref :: "'a option \<Rightarrow> ('e, 'a) outcome" where
  "deref None = Panic"
| "deref (Some x) = Ok x"

fun is_ok :: "('e, 'a) outcome \<Rightarrow> bool" where
  "is_ok (Ok _) = True"
| "is_ok _ = False"

section \<open>Laws of outcomes\<close>

lemma bind_oc_Ok_conv [simp]:
  "(bind_oc m f = Ok y) = (\<exists>x. m = Ok x \<and> f x = Ok y)"
  by (cases m) auto

lemma bind_oc_Err_conv:
  "(bind_oc m f = Err e) = (m = Err e \<or> (\<exists>x. m = Ok x \<and> f x = Err e))"
  by (cases m) auto

lemma bind_oc_Panic_conv:
  "(bind_oc m f = Panic) = (m = Panic \<or> (\<exists>x. m = Ok x \<and> f x = Panic))"
  by (cases m) auto

lemma bind_oc_assoc: "bind_oc (bind_oc m f) g = bind_oc m (\<lambda>x. bind_oc (f x) g)"
  by (cases m) auto

lemma deref_Ok_conv [simp]: "(deref p = Ok x) = (p = Some x)"
  by (cases p) auto

lemma deref_not_Err [simp]: "deref p \<noteq> Err e"
  by (cases p) auto

lemma deref_Panic_conv [simp]: "(deref p = Panic) = (p = None)"
  by (cases p) auto

lemma is_ok_conv: "is_ok m = (\<exists>x. m = Ok x)"
  by (cases m) auto

lemma is_okD: "is_ok m \<Longrightarrow> \<exists>x. m = Ok x"
  by (cases m) auto

section \<open>Optional values\<close>

text \<open>A list with the value an optional pointer holds, if any.\<close>

definition opt_list :: "'a option \<Rightarrow> 'a list" where
  "opt_list p = (case p of None \<Rightarrow> [] | Some x \<Rightarrow> [x])"

lemma set_opt_list [simp]: "set (opt_list p) = set_option p"
  by (cases p) (auto simp: opt_list_def)

lemma opt_list_simps [simp]: "opt_list None = []" "opt_list (Some x) = [x]"
  by (simp_all add: opt_list_def)

section \<open>Searching sorted lists\<close>

lemma find_None_conv: "(List.find P xs = None) = (\<forall>x \<in> set xs. \<not> P x)"
  by (induction xs) auto

lemma find_Some_in: "List.find P xs = Some x \<Longrightarrow> x \<in> set xs \<and> P x"
  by (induction xs) (auto split: if_splits)

lemma find_sorted_least:
  fixes xs :: "'a::linorder list"
  assumes "sorted xs" and "List.find P xs = Some x" and "y \<in> set xs" and "P y"
  shows "x \<le> y"
  using assms by (induction xs) (auto split: if_splits)

end
