(* ===== verification/AccountStatus.thy ===== *)
theory AccountStatus imports Prelude begin

text \<open>
  The account status of a user, \<^verbatim>\<open>pkg/lib/authn/user/account_status.go\<close>: the status columns
  of \<^verbatim>\<open>_auth_user\<close>, the classification of a status at a reference time, and the operations that
  move an account from one status to another. Pointers are options; a nil dereference and the
  explicit panics of the code are \<open>Panic\<close>.
\<close>

section \<open>Data\<close>

datatype account_status_type =
    TypeNormal | TypeDisabled | TypeDisabledTemporarily | TypeDeactivated
  | TypeScheduledDeletionDisabled | TypeScheduledDeletionDeactivated
  | TypeScheduledAnonymizationDisabled | TypeAnonymized | TypeOutsideValidPeriod

text \<open>The causes attached to \<^verbatim>\<open>InvalidAccountStatusTransition\<close> by the timestamp checks.\<close>

datatype timestamp_cause =
    AccountValidFromShouldBeBeforeAccountValidUntil
  | TemporarilyDisabledPeriodMissingUntilTimestamp
  | TemporarilyDisabledPeriodMissingFromTimestamp
  | TemporarilyDisabledFromShouldBeBeforeTemporarilyDisabledUntil
  | AccountValidFromShouldBeBeforeTemporarilyDisabledFrom
  | TemporarilyDisabledUntilShouldBeBeforeAccountValidUntil

datatype status_error =
    DisabledUser "string option"
  | ErrAnonymizedUser
  | ScheduledDeletionByAdminErr time
  | ScheduledDeletionByEndUserErr time
  | ScheduledAnonymizationByAdminErr time
  | ErrUserOutsideValidPeriod
  | InvalidTimestamps timestamp_cause
  | InvalidTransition account_status_type account_status_type
  | OtherError

datatype account_status_variant =
    VariantNormal
  | VariantDisabledIndefinitely "string option"
  | VariantDisabledTemporarily "string option" time time
  | VariantScheduledDeletionByAdmin time
  | VariantScheduledDeletionByEndUser time
  | VariantScheduledAnonymizationByAdmin time

fun getAccountStatusType :: "account_status_variant \<Rightarrow> account_status_type" where
  "getAccountStatusType VariantNormal = TypeNormal"
| "getAccountStatusType (VariantDisabledIndefinitely r) = TypeDisabled"
| "getAccountStatusType (VariantDisabledTemporarily r f u) = TypeDisabledTemporarily"
| "getAccountStatusType (VariantScheduledDeletionByAdmin t) = TypeScheduledDeletionDisabled"
| "getAccountStatusType (VariantScheduledDeletionByEndUser t) = TypeScheduledDeletionDeactivated"
| "getAccountStatusType (VariantScheduledAnonymizationByAdmin t) = TypeScheduledAnonymizationDisabled"

fun variant_check :: "account_status_variant \<Rightarrow> status_error option" where
  "variant_check VariantNormal = None"
| "variant_check (VariantDisabledIndefinitely r) = Some (DisabledUser r)"
| "variant_check (VariantDisabledTemporarily r f u) = Some (DisabledUser r)"
| "variant_check (VariantScheduledDeletionByAdmin t) = Some (ScheduledDeletionByAdminErr t)"
| "variant_check (VariantScheduledDeletionByEndUser t) = Some (ScheduledDeletionByEndUserErr t)"
| "variant_check (VariantScheduledAnonymizationByAdmin t) = Some (ScheduledAnonymizationByAdminErr t)"

record account_status =
  isDisabled :: bool
  accountStatusStaleFrom :: "time option"
  isIndefinitelyDisabled :: "bool option"
  isDeactivated :: "bool option"
  disableReason :: "string option"
  temporarilyDisabledFrom :: "time option"
  temporarilyDisabledUntil :: "time option"
  accountValidFrom :: "time option"
  accountValidUntil :: "time option"
  deleteAt :: "time option"
  deleteReason :: "string option"
  anonymizeAt :: "time option"
  anonymizedAt :: "time option"
  isAnonymized :: "bool option"

record account_status_ref =
  accountStatus :: account_status
  refTime :: time

section \<open>Classification at the reference time\<close>

definition IsAnonymized :: "account_status_ref \<Rightarrow> (status_error, bool) outcome" where
  "IsAnonymized s = deref (isAnonymized (accountStatus s))"

definition IsDeactivated :: "account_status_ref \<Rightarrow> (status_error, bool) outcome" where
  "IsDeactivated s = deref (isDeactivated (accountStatus s))"

definition isOutsideValidPeriod :: "account_status_ref \<Rightarrow> bool" where
  "isOutsideValidPeriod s =
     ((case accountValidFrom (accountStatus s) of None \<Rightarrow> False | Some f \<Rightarrow> refTime s < f) \<or>
      (case accountValidUntil (accountStatus s) of None \<Rightarrow> False
       | Some u \<Rightarrow> refTime s = u \<or> refTime s > u))"

definition variant :: "account_status_ref \<Rightarrow> (status_error, account_status_variant) outcome" where
  "variant s = (let a = accountStatus s in
     bind_oc (deref (isIndefinitelyDisabled a)) (\<lambda>indefinitely.
     if \<not> indefinitely then
       (case (temporarilyDisabledFrom a, temporarilyDisabledUntil a) of
          (Some f, Some u) \<Rightarrow>
            if (refTime s = f \<or> refTime s > f) \<and> refTime s < u
            then Ok (VariantDisabledTemporarily (disableReason a) f u)
            else Ok VariantNormal
        | _ \<Rightarrow> Ok VariantNormal)
     else (case deleteAt a of
       Some d \<Rightarrow> bind_oc (deref (isDeactivated a)) (\<lambda>deactivated.
         if deactivated then Ok (VariantScheduledDeletionByEndUser d)
         else Ok (VariantScheduledDeletionByAdmin d))
     | None \<Rightarrow> (case anonymizeAt a of
         Some t \<Rightarrow> Ok (VariantScheduledAnonymizationByAdmin t)
       | None \<Rightarrow> bind_oc (deref (isDeactivated a)) (\<lambda>deactivated.
           if deactivated then Panic
           else Ok (VariantDisabledIndefinitely (disableReason a)))))))"

text \<open>\<^verbatim>\<open>Check\<close> returns an error value or nil, here \<open>Some e\<close> or \<open>None\<close>, unless it panics.\<close>

definition Check :: "account_status_ref \<Rightarrow> (status_error, status_error option) outcome" where
  "Check s = bind_oc (IsAnonymized s) (\<lambda>anonymized.
     if anonymized then Ok (Some ErrAnonymizedUser)
     else if isOutsideValidPeriod s then Ok (Some ErrUserOutsideValidPeriod)
     else bind_oc (variant s) (\<lambda>v. Ok (variant_check v)))"

definition IsDisabled :: "account_status_ref \<Rightarrow> (status_error, bool) outcome" where
  "IsDisabled s = bind_oc (Check s) (\<lambda>e. Ok (e \<noteq> None))"

definition getMostAppropriateType ::
    "account_status_ref \<Rightarrow> (status_error, account_status_type) outcome" where
  "getMostAppropriateType s = bind_oc (IsAnonymized s) (\<lambda>anonymized.
     if anonymized then Ok TypeAnonymized
     else bind_oc (variant s) (\<lambda>v.
       if getAccountStatusType v \<noteq> TypeNormal then Ok (getAccountStatusType v)
       else if isOutsideValidPeriod s then Ok TypeOutsideValidPeriod
       else Ok TypeNormal))"

fun IsAccountStatusError :: "status_error \<Rightarrow> bool" where
  "IsAccountStatusError (DisabledUser r) = True"
| "IsAccountStatusError ErrAnonymizedUser = True"
| "IsAccountStatusError (ScheduledDeletionByAdminErr t) = True"
| "IsAccountStatusError (ScheduledDeletionByEndUserErr t) = True"
| "IsAccountStatusError (ScheduledAnonymizationByAdminErr t) = True"
| "IsAccountStatusError ErrUserOutsideValidPeriod = True"
| "IsAccountStatusError _ = False"

section \<open>Normalization\<close>

definition deriveAccountStatusStaleFrom :: "account_status_ref \<Rightarrow> time option" where
  "deriveAccountStatusStaleFrom s = (let a = accountStatus s;
     times = opt_list (accountValidFrom a) @ opt_list (accountValidUntil a)
       @ opt_list (temporarilyDisabledFrom a) @ opt_list (temporarilyDisabledUntil a)
     in List.find (\<lambda>t. t > refTime s) (sort times))"

text \<open>The first block of \<^verbatim>\<open>normalizeOnChange\<close>: a temporarily disabled period in the past is dropped.\<close>

definition dropPastPeriod :: "account_status_ref \<Rightarrow> account_status_ref" where
  "dropPastPeriod s = (let a = accountStatus s in
     case (temporarilyDisabledFrom a, temporarilyDisabledUntil a) of
       (Some f, Some u) \<Rightarrow>
         if refTime s > f \<and> refTime s > u
         then s\<lparr>accountStatus := a\<lparr>temporarilyDisabledFrom := None, temporarilyDisabledUntil := None\<rparr>\<rparr>
         else s
     | _ \<Rightarrow> s)"

definition normalizeOnChange ::
    "account_status_ref \<Rightarrow> (status_error, account_status_ref) outcome" where
  "normalizeOnChange s0 = (let s = dropPastPeriod s0 in
     bind_oc (IsDisabled s) (\<lambda>disabled.
       let s' = s\<lparr>accountStatus := (accountStatus s)\<lparr>isDisabled := disabled\<rparr>\<rparr> in
       Ok (s'\<lparr>accountStatus := (accountStatus s')\<lparr>accountStatusStaleFrom :=
            deriveAccountStatusStaleFrom s'\<rparr>\<rparr>)))"

definition normalizeOnRead ::
    "account_status_ref \<Rightarrow> (status_error, account_status_ref) outcome" where
  "normalizeOnRead s = (let a = accountStatus s in
     bind_oc (case isIndefinitelyDisabled a of
         Some b \<Rightarrow> Ok a
       | None \<Rightarrow>
           if accountValidFrom a = None \<and> accountValidUntil a = None
              \<and> temporarilyDisabledFrom a = None \<and> temporarilyDisabledUntil a = None
           then Ok (a\<lparr>isIndefinitelyDisabled := Some (isDisabled a)\<rparr>)
           else Panic) (\<lambda>a1.
     let a2 = (case isDeactivated a1 of None \<Rightarrow> a1\<lparr>isDeactivated := Some False\<rparr> | Some _ \<Rightarrow> a1);
         a3 = (case isAnonymized a2 of None \<Rightarrow> a2\<lparr>isAnonymized := Some False\<rparr> | Some _ \<Rightarrow> a2)
     in normalizeOnChange (s\<lparr>accountStatus := a3\<rparr>)))"

definition WithRefTime ::
    "account_status \<Rightarrow> time \<Rightarrow> (status_error, account_status_ref) outcome" where
  "WithRefTime a t = normalizeOnRead \<lparr>accountStatus = a, refTime = t\<rparr>"

definition checkAllTimestampsAreValid :: "account_status_ref \<Rightarrow> status_error option" where
  "checkAllTimestampsAreValid s = (let a = accountStatus s in
     if (case (accountValidFrom a, accountValidUntil a) of
           (Some f, Some u) \<Rightarrow> \<not> f < u | _ \<Rightarrow> False)
     then Some (InvalidTimestamps AccountValidFromShouldBeBeforeAccountValidUntil)
     else if temporarilyDisabledFrom a \<noteq> None \<and> temporarilyDisabledUntil a = None
     then Some (InvalidTimestamps TemporarilyDisabledPeriodMissingUntilTimestamp)
     else if temporarilyDisabledUntil a \<noteq> None \<and> temporarilyDisabledFrom a = None
     then Some (InvalidTimestamps TemporarilyDisabledPeriodMissingFromTimestamp)
     else (case (temporarilyDisabledFrom a, temporarilyDisabledUntil a) of
       (Some df, Some du) \<Rightarrow>
         if \<not> df < du
         then Some (InvalidTimestamps TemporarilyDisabledFromShouldBeBeforeTemporarilyDisabledUntil)
         else if (case accountValidFrom a of Some f \<Rightarrow> \<not> f < df | None \<Rightarrow> False)
         then Some (InvalidTimestamps AccountValidFromShouldBeBeforeTemporarilyDisabledFrom)
         else if (case accountValidUntil a of Some u \<Rightarrow> \<not> du < u | None \<Rightarrow> False)
         then Some (InvalidTimestamps TemporarilyDisabledUntilShouldBeBeforeAccountValidUntil)
         else None
     | _ \<Rightarrow> None))"

section \<open>Operations\<close>

text \<open>
  Every operation builds a target, normalizes it, checks its timestamps, and then decides from
  the status it starts in whether the transition is allowed. \<open>validated\<close> is the timestamp
  check with its early return, \<open>rejectAnonymized\<close> the anonymized guard, and \<open>conclude\<close>
  the final \<^verbatim>\<open>switch\<close> over the original type with its transition error.
\<close>

definition validated ::
    "account_status_ref \<Rightarrow> (status_error, 'a) outcome \<Rightarrow> (status_error, 'a) outcome" where
  "validated target k =
     (case checkAllTimestampsAreValid target of Some e \<Rightarrow> Err e | None \<Rightarrow> k)"

definition makeTransitionError ::
    "account_status_type \<Rightarrow> account_status_type \<Rightarrow> status_error" where
  "makeTransitionError fromType targetType = InvalidTransition fromType targetType"

definition rejectAnonymized ::
    "account_status_ref \<Rightarrow> account_status_ref \<Rightarrow> (status_error, 'a) outcome
     \<Rightarrow> (status_error, 'a) outcome" where
  "rejectAnonymized s target k = bind_oc (IsAnonymized s) (\<lambda>anonymized.
     if anonymized then bind_oc (variant target) (\<lambda>v.
       Err (makeTransitionError TypeAnonymized (getAccountStatusType v)))
     else k)"

definition conclude ::
    "account_status_ref \<Rightarrow> account_status_type list \<Rightarrow> account_status_ref
     \<Rightarrow> (status_error, account_status_ref) outcome" where
  "conclude s allowed target = bind_oc (variant s) (\<lambda>v.
     if getAccountStatusType v \<in> set allowed then Ok target
     else bind_oc (getMostAppropriateType s) (\<lambda>from. bind_oc (variant target) (\<lambda>t.
       Err (makeTransitionError from (getAccountStatusType t)))))"

definition Reenable :: "account_status_ref \<Rightarrow> (status_error, account_status_ref) outcome" where
  "Reenable s = bind_oc (normalizeOnChange (s\<lparr>accountStatus := (accountStatus s)
       \<lparr>isIndefinitelyDisabled := Some False, isDeactivated := Some False, disableReason := None,
        temporarilyDisabledFrom := None, temporarilyDisabledUntil := None,
        deleteAt := None, deleteReason := None, anonymizeAt := None\<rparr>\<rparr>)) (\<lambda>target.
     validated target (rejectAnonymized s target
       (conclude s [TypeDisabled, TypeDisabledTemporarily] target)))"

definition DisableIndefinitely ::
    "string option \<Rightarrow> account_status_ref \<Rightarrow> (status_error, account_status_ref) outcome" where
  "DisableIndefinitely reason s = bind_oc (normalizeOnChange (s\<lparr>accountStatus := (accountStatus s)
       \<lparr>isIndefinitelyDisabled := Some True, isDeactivated := Some False, disableReason := reason,
        temporarilyDisabledFrom := None, temporarilyDisabledUntil := None,
        deleteAt := None, deleteReason := None, anonymizeAt := None\<rparr>\<rparr>)) (\<lambda>target.
     validated target (rejectAnonymized s target
       (conclude s [TypeNormal, TypeDisabledTemporarily] target)))"

definition DisableTemporarily ::
    "time option \<Rightarrow> time option \<Rightarrow> string option \<Rightarrow> account_status_ref
     \<Rightarrow> (status_error, account_status_ref) outcome" where
  "DisableTemporarily from until reason s = bind_oc (normalizeOnChange (s\<lparr>accountStatus := (accountStatus s)
       \<lparr>isIndefinitelyDisabled := Some False, isDeactivated := Some False, disableReason := reason,
        temporarilyDisabledFrom := from, temporarilyDisabledUntil := until,
        deleteAt := None, deleteReason := None, anonymizeAt := None\<rparr>\<rparr>)) (\<lambda>target.
     validated target (rejectAnonymized s target
       (conclude s [TypeNormal, TypeDisabled, TypeDisabledTemporarily] target)))"

text \<open>The valid-period setters share their ending: any type may be left, only anonymized is refused.\<close>

definition concludeValidPeriod ::
    "account_status_ref \<Rightarrow> account_status_ref \<Rightarrow> (status_error, account_status_ref) outcome" where
  "concludeValidPeriod s target = validated target (bind_oc (IsAnonymized s) (\<lambda>anonymized.
     if anonymized then bind_oc (getMostAppropriateType target) (\<lambda>t.
       Err (makeTransitionError TypeAnonymized t))
     else Ok target))"

definition SetAccountValidFrom ::
    "time option \<Rightarrow> account_status_ref \<Rightarrow> (status_error, account_status_ref) outcome" where
  "SetAccountValidFrom t s =
     bind_oc (normalizeOnChange (s\<lparr>accountStatus := (accountStatus s)\<lparr>accountValidFrom := t\<rparr>\<rparr>))
       (concludeValidPeriod s)"

definition SetAccountValidUntil ::
    "time option \<Rightarrow> account_status_ref \<Rightarrow> (status_error, account_status_ref) outcome" where
  "SetAccountValidUntil t s =
     bind_oc (normalizeOnChange (s\<lparr>accountStatus := (accountStatus s)\<lparr>accountValidUntil := t\<rparr>\<rparr>))
       (concludeValidPeriod s)"

definition SetAccountValidPeriod ::
    "time option \<Rightarrow> time option \<Rightarrow> account_status_ref
     \<Rightarrow> (status_error, account_status_ref) outcome" where
  "SetAccountValidPeriod from until s =
     bind_oc (normalizeOnChange (s\<lparr>accountStatus := (accountStatus s)
       \<lparr>accountValidFrom := from, accountValidUntil := until\<rparr>\<rparr>))
       (concludeValidPeriod s)"

definition ScheduleDeletionByEndUser ::
    "time \<Rightarrow> string \<Rightarrow> account_status_ref \<Rightarrow> (status_error, account_status_ref) outcome" where
  "ScheduleDeletionByEndUser at reason s = bind_oc (normalizeOnChange (s\<lparr>accountStatus := (accountStatus s)
       \<lparr>isIndefinitelyDisabled := Some True, isDeactivated := Some True, disableReason := None,
        temporarilyDisabledFrom := None, temporarilyDisabledUntil := None,
        deleteAt := Some at, deleteReason := Some reason, anonymizeAt := None\<rparr>\<rparr>)) (\<lambda>target.
     validated target (rejectAnonymized s target (conclude s [TypeNormal] target)))"

definition ScheduleDeletionByAdmin ::
    "time \<Rightarrow> string \<Rightarrow> account_status_ref \<Rightarrow> (status_error, account_status_ref) outcome" where
  "ScheduleDeletionByAdmin at reason s = bind_oc (normalizeOnChange (s\<lparr>accountStatus := (accountStatus s)
       \<lparr>isIndefinitelyDisabled := Some True, isDeactivated := Some False, disableReason := None,
        temporarilyDisabledFrom := None, temporarilyDisabledUntil := None,
        deleteAt := Some at, deleteReason := Some reason, anonymizeAt := None\<rparr>\<rparr>)) (\<lambda>target.
     validated target (bind_oc (variant s) (\<lambda>v.
       if getAccountStatusType v
            \<in> {TypeScheduledDeletionDisabled, TypeScheduledDeletionDeactivated}
       then bind_oc (getMostAppropriateType s) (\<lambda>from. bind_oc (variant target) (\<lambda>t.
              Err (makeTransitionError from (getAccountStatusType t))))
       else Ok target)))"

definition UnscheduleDeletionByAdmin ::
    "account_status_ref \<Rightarrow> (status_error, account_status_ref) outcome" where
  "UnscheduleDeletionByAdmin s = bind_oc (deref (isAnonymized (accountStatus s))) (\<lambda>anonymized.
     bind_oc (normalizeOnChange (s\<lparr>accountStatus := (accountStatus s)
       \<lparr>isIndefinitelyDisabled := Some anonymized, isDeactivated := Some False, disableReason := None,
        temporarilyDisabledFrom := None, temporarilyDisabledUntil := None,
        deleteAt := None, deleteReason := None, anonymizeAt := None\<rparr>\<rparr>)) (\<lambda>target.
     validated target
       (if anonymized \<and> deleteAt (accountStatus s) = None
        then Err (makeTransitionError TypeAnonymized TypeAnonymized)
        else conclude s [TypeScheduledDeletionDisabled, TypeScheduledDeletionDeactivated] target)))"

definition Anonymize :: "account_status_ref \<Rightarrow> (status_error, account_status_ref) outcome" where
  "Anonymize s = bind_oc (normalizeOnChange (s\<lparr>accountStatus := (accountStatus s)
       \<lparr>isIndefinitelyDisabled := Some True, isDeactivated := Some False, disableReason := None,
        temporarilyDisabledFrom := None, temporarilyDisabledUntil := None,
        anonymizeAt := None, isAnonymized := Some True, anonymizedAt := Some (refTime s)\<rparr>\<rparr>)) (\<lambda>target.
     validated target (bind_oc (IsAnonymized s) (\<lambda>anonymized.
       if anonymized then bind_oc (IsAnonymized target) (\<lambda>targetAnonymized.
         if targetAnonymized then Err (makeTransitionError TypeAnonymized TypeAnonymized)
         else bind_oc (variant target) (\<lambda>v.
           Err (makeTransitionError TypeAnonymized (getAccountStatusType v))))
       else conclude s [TypeNormal, TypeDisabled, TypeDisabledTemporarily,
              TypeScheduledDeletionDisabled, TypeScheduledDeletionDeactivated,
              TypeScheduledAnonymizationDisabled] target)))"

definition ScheduleAnonymizationByAdmin ::
    "time \<Rightarrow> account_status_ref \<Rightarrow> (status_error, account_status_ref) outcome" where
  "ScheduleAnonymizationByAdmin at s = bind_oc (normalizeOnChange (s\<lparr>accountStatus := (accountStatus s)
       \<lparr>isIndefinitelyDisabled := Some True, isDeactivated := Some False, disableReason := None,
        temporarilyDisabledFrom := None, temporarilyDisabledUntil := None,
        deleteAt := None, deleteReason := None, anonymizeAt := Some at\<rparr>\<rparr>)) (\<lambda>target.
     validated target (rejectAnonymized s target
       (conclude s [TypeNormal, TypeDisabled, TypeDisabledTemporarily,
          TypeScheduledDeletionDisabled, TypeScheduledDeletionDeactivated] target)))"

definition UnscheduleAnonymizationByAdmin ::
    "account_status_ref \<Rightarrow> (status_error, account_status_ref) outcome" where
  "UnscheduleAnonymizationByAdmin s = bind_oc (normalizeOnChange (s\<lparr>accountStatus := (accountStatus s)
       \<lparr>isIndefinitelyDisabled := Some False, isDeactivated := Some False, disableReason := None,
        temporarilyDisabledFrom := None, temporarilyDisabledUntil := None,
        deleteAt := None, deleteReason := None, anonymizeAt := None\<rparr>\<rparr>)) (\<lambda>target.
     validated target (rejectAnonymized s target
       (conclude s [TypeScheduledAnonymizationDisabled] target)))"

text \<open>
  The operations as data, so that a history of an account is a list of them. \<open>account_step\<close>
  is what every caller does (the coordinator, \<^verbatim>\<open>RawCommands.Anonymize\<close>): read the stored columns
  at the current time, apply one operation, store the columns of the result.
\<close>

datatype account_op =
    OpReenable | OpDisableIndefinitely "string option"
  | OpDisableTemporarily "time option" "time option" "string option"
  | OpSetValidFrom "time option" | OpSetValidUntil "time option"
  | OpSetValidPeriod "time option" "time option"
  | OpScheduleDeletionByEndUser time string | OpScheduleDeletionByAdmin time string
  | OpUnscheduleDeletion | OpAnonymize | OpScheduleAnonymization time | OpUnscheduleAnonymization

fun apply_account_op ::
    "account_op \<Rightarrow> account_status_ref \<Rightarrow> (status_error, account_status_ref) outcome" where
  "apply_account_op OpReenable s = Reenable s"
| "apply_account_op (OpDisableIndefinitely r) s = DisableIndefinitely r s"
| "apply_account_op (OpDisableTemporarily f u r) s = DisableTemporarily f u r s"
| "apply_account_op (OpSetValidFrom t) s = SetAccountValidFrom t s"
| "apply_account_op (OpSetValidUntil t) s = SetAccountValidUntil t s"
| "apply_account_op (OpSetValidPeriod f u) s = SetAccountValidPeriod f u s"
| "apply_account_op (OpScheduleDeletionByEndUser t r) s = ScheduleDeletionByEndUser t r s"
| "apply_account_op (OpScheduleDeletionByAdmin t r) s = ScheduleDeletionByAdmin t r s"
| "apply_account_op OpUnscheduleDeletion s = UnscheduleDeletionByAdmin s"
| "apply_account_op OpAnonymize s = Anonymize s"
| "apply_account_op (OpScheduleAnonymization t) s = ScheduleAnonymizationByAdmin t s"
| "apply_account_op OpUnscheduleAnonymization s = UnscheduleAnonymizationByAdmin s"

definition account_step ::
    "time \<Rightarrow> account_op \<Rightarrow> account_status \<Rightarrow> (status_error, account_status) outcome" where
  "account_step now op a = bind_oc (WithRefTime a now) (\<lambda>s.
     bind_oc (apply_account_op op s) (\<lambda>t. Ok (accountStatus t)))"

text \<open>The columns of a user made by \<^verbatim>\<open>RawCommands.New\<close>.\<close>

definition new_account :: account_status where
  "new_account = \<lparr>isDisabled = False, accountStatusStaleFrom = None,
     isIndefinitelyDisabled = Some False, isDeactivated = Some False, disableReason = None,
     temporarilyDisabledFrom = None, temporarilyDisabledUntil = None,
     accountValidFrom = None, accountValidUntil = None, deleteAt = None, deleteReason = None,
     anonymizeAt = None, anonymizedAt = None, isAnonymized = Some False\<rparr>"

inductive account_reachable :: "account_status \<Rightarrow> bool" where
  created: "account_reachable new_account"
| stepped: "account_reachable a \<Longrightarrow> account_step now op a = Ok b \<Longrightarrow> account_reachable b"

section \<open>Well-formed columns\<close>

definition status_shape :: "account_status \<Rightarrow> bool" where
  "status_shape a \<longleftrightarrow>
     isIndefinitelyDisabled a \<noteq> None \<and> isDeactivated a \<noteq> None \<and> isAnonymized a \<noteq> None \<and>
     (isDeactivated a = Some True \<longrightarrow> isIndefinitelyDisabled a = Some True \<and> deleteAt a \<noteq> None) \<and>
     (isIndefinitelyDisabled a = Some False \<longrightarrow> deleteAt a = None \<and> anonymizeAt a = None) \<and>
     (isIndefinitelyDisabled a = Some True \<longrightarrow>
        temporarilyDisabledFrom a = None \<and> temporarilyDisabledUntil a = None) \<and>
     (isAnonymized a = Some True \<longrightarrow>
        isIndefinitelyDisabled a = Some True \<and> anonymizedAt a \<noteq> None \<and> anonymizeAt a = None) \<and>
     (deleteAt a = None \<or> anonymizeAt a = None)"

text \<open>
  \<^verbatim>\<open>account_valid_from < temporarily_disabled_from < temporarily_disabled_until < account_valid_until\<close>,
  each comparison where both ends are set; the temporary period is set or unset together.
\<close>

definition timestamps_ordered :: "account_status \<Rightarrow> bool" where
  "timestamps_ordered a \<longleftrightarrow>
     (temporarilyDisabledFrom a = None) = (temporarilyDisabledUntil a = None) \<and>
     sorted_wrt (<) (opt_list (accountValidFrom a) @ opt_list (temporarilyDisabledFrom a)
       @ opt_list (temporarilyDisabledUntil a) @ opt_list (accountValidUntil a))"

definition status_wf :: "account_status \<Rightarrow> bool" where
  "status_wf a \<longleftrightarrow> status_shape a \<and> timestamps_ordered a"

definition ref_wf :: "account_status_ref \<Rightarrow> bool" where
  "ref_wf s = status_wf (accountStatus s)"

text \<open>What the classification needs in order not to panic.\<close>

definition flags_ok :: "account_status_ref \<Rightarrow> bool" where
  "flags_ok s \<longleftrightarrow> (let a = accountStatus s in
     isIndefinitelyDisabled a \<noteq> None \<and> isDeactivated a \<noteq> None \<and> isAnonymized a \<noteq> None \<and>
     (isDeactivated a = Some True \<longrightarrow> isIndefinitelyDisabled a = Some False \<or> deleteAt a \<noteq> None \<or> anonymizeAt a \<noteq> None))"

lemma ref_wf_flags: "ref_wf s \<Longrightarrow> flags_ok s"
  by (auto simp: ref_wf_def status_wf_def status_shape_def flags_ok_def Let_def)

lemma checkAllTimestampsAreValid_spec:
  "checkAllTimestampsAreValid s = None \<longleftrightarrow> timestamps_ordered (accountStatus s)"
  by (cases "accountValidFrom (accountStatus s)"; cases "accountValidUntil (accountStatus s)";
      cases "temporarilyDisabledFrom (accountStatus s)"; cases "temporarilyDisabledUntil (accountStatus s)")
    (auto simp: checkAllTimestampsAreValid_def timestamps_ordered_def Let_def)

lemma variant_ok: "flags_ok s \<Longrightarrow> is_ok (variant s)"
  by (cases "isIndefinitelyDisabled (accountStatus s)"; cases "isDeactivated (accountStatus s)")
    (auto simp: flags_ok_def variant_def Let_def split: option.split)

lemma IsAnonymized_ok: "flags_ok s \<Longrightarrow> is_ok (IsAnonymized s)"
  by (auto simp: flags_ok_def IsAnonymized_def Let_def)

lemma Check_ok: "flags_ok s \<Longrightarrow> is_ok (Check s)"
  using is_okD [OF variant_ok, of s] is_okD [OF IsAnonymized_ok, of s] by (auto simp: Check_def)

lemma IsDisabled_ok: "flags_ok s \<Longrightarrow> is_ok (IsDisabled s)"
  using is_okD [OF Check_ok, of s] by (auto simp: IsDisabled_def)

lemma getMostAppropriateType_ok: "flags_ok s \<Longrightarrow> is_ok (getMostAppropriateType s)"
  using is_okD [OF variant_ok, of s] is_okD [OF IsAnonymized_ok, of s]
  by (auto simp: getMostAppropriateType_def)

lemma dropPastPeriod_cases:
  "dropPastPeriod s = s \<or> dropPastPeriod s = s\<lparr>accountStatus := (accountStatus s)
     \<lparr>temporarilyDisabledFrom := None, temporarilyDisabledUntil := None\<rparr>\<rparr>"
  by (auto simp: dropPastPeriod_def Let_def split: option.splits)

lemma dropPastPeriod_flags [simp]: "flags_ok (dropPastPeriod s) = flags_ok s"
  using dropPastPeriod_cases [of s] by (auto simp: flags_ok_def Let_def)

lemma dropPastPeriod_refTime [simp]: "refTime (dropPastPeriod s) = refTime s"
  using dropPastPeriod_cases [of s] by auto

text \<open>A period in the past does not decide anything, so dropping it keeps the verdict.\<close>

lemma IsAnonymized_dropPastPeriod [simp]: "IsAnonymized (dropPastPeriod s) = IsAnonymized s"
  using dropPastPeriod_cases [of s] by (auto simp: IsAnonymized_def)

lemma isOutsideValidPeriod_dropPastPeriod [simp]:
  "isOutsideValidPeriod (dropPastPeriod s) = isOutsideValidPeriod s"
  using dropPastPeriod_cases [of s] by (auto simp: isOutsideValidPeriod_def split: option.splits)

lemma variant_dropPastPeriod [simp]: "variant (dropPastPeriod s) = variant s"
  by (auto simp: dropPastPeriod_def variant_def Let_def cong: if_cong split: option.splits)

lemma IsDisabled_dropPastPeriod [simp]: "IsDisabled (dropPastPeriod s) = IsDisabled s"
  by (simp add: IsDisabled_def Check_def cong: if_cong)

lemma normalize_shape:
  "normalizeOnChange s = Ok t \<longleftrightarrow> (\<exists>d. IsDisabled s = Ok d \<and>
     t = (dropPastPeriod s)\<lparr>accountStatus := (accountStatus (dropPastPeriod s))\<lparr>isDisabled := d,
        accountStatusStaleFrom := deriveAccountStatusStaleFrom (dropPastPeriod s)\<rparr>\<rparr>)"
  by (auto simp: normalizeOnChange_def Let_def deriveAccountStatusStaleFrom_def)

lemma normalize_ok: "flags_ok s \<Longrightarrow> is_ok (normalizeOnChange s)"
  using is_okD [OF IsDisabled_ok, of "dropPastPeriod s"] by (auto simp: normalizeOnChange_def Let_def)

section \<open>The cached verdict\<close>

text \<open>The stored verdict and the stale time do not enter the classification.\<close>

lemma variant_ignores_cache [simp]:
  "variant (s\<lparr>accountStatus := a\<lparr>isDisabled := d, accountStatusStaleFrom := x\<rparr>\<rparr>)
     = variant (s\<lparr>accountStatus := a\<rparr>)"
  by (simp add: variant_def cong: if_cong option.case_cong)

lemma outside_ignores_cache [simp]:
  "isOutsideValidPeriod (s\<lparr>accountStatus := a\<lparr>isDisabled := d, accountStatusStaleFrom := x\<rparr>\<rparr>)
     = isOutsideValidPeriod (s\<lparr>accountStatus := a\<rparr>)"
  by (simp add: isOutsideValidPeriod_def cong: option.case_cong)

lemma classification_ignores_cache [simp]:
  "IsDisabled (s\<lparr>accountStatus := a\<lparr>isDisabled := d, accountStatusStaleFrom := x\<rparr>\<rparr>)
     = IsDisabled (s\<lparr>accountStatus := a\<rparr>)"
  by (simp add: IsDisabled_def Check_def IsAnonymized_def cong: if_cong)

definition boundaries :: "account_status \<Rightarrow> time set" where
  "boundaries a = set_option (accountValidFrom a) \<union> set_option (accountValidUntil a)
     \<union> set_option (temporarilyDisabledFrom a) \<union> set_option (temporarilyDisabledUntil a)"

text \<open>The verdict only depends on which boundaries lie in the future.\<close>

lemma variant_same_side:
  assumes "\<And>b. b \<in> boundaries a \<Longrightarrow> (t0 < b) = (t < b)"
  shows "variant \<lparr>accountStatus = a, refTime = t\<rparr> = variant \<lparr>accountStatus = a, refTime = t0\<rparr>"
proof (cases "temporarilyDisabledFrom a = None \<or> temporarilyDisabledUntil a = None")
  case True
  then show ?thesis by (auto simp: variant_def Let_def split: option.splits)
next
  case False
  then obtain f u where fu: "temporarilyDisabledFrom a = Some f" "temporarilyDisabledUntil a = Some u"
    by auto
  with assms have "(t0 < f) = (t < f)" "(t0 < u) = (t < u)" by (auto simp: boundaries_def)
  then have "(t = f \<or> f < t) = (t0 = f \<or> f < t0)" "(t < u) = (t0 < u)" by auto
  with fu show ?thesis by (simp add: variant_def cong: if_cong)
qed

lemma outside_same_side:
  assumes "\<And>b. b \<in> boundaries a \<Longrightarrow> (t0 < b) = (t < b)"
  shows "isOutsideValidPeriod \<lparr>accountStatus = a, refTime = t\<rparr>
       = isOutsideValidPeriod \<lparr>accountStatus = a, refTime = t0\<rparr>"
proof -
  have "(t0 < b) = (t < b) \<and> (t0 = b \<or> t0 > b) = (t = b \<or> t > b)" if "b \<in> boundaries a" for b
    using assms [OF that] by auto
  then show ?thesis
    by (auto simp: isOutsideValidPeriod_def boundaries_def split: option.splits)
qed

lemma IsDisabled_same_side:
  assumes "\<And>b. b \<in> boundaries a \<Longrightarrow> (t0 < b) = (t < b)"
  shows "IsDisabled \<lparr>accountStatus = a, refTime = t\<rparr> = IsDisabled \<lparr>accountStatus = a, refTime = t0\<rparr>"
  using variant_same_side [OF assms] outside_same_side [OF assms]
  by (simp add: IsDisabled_def Check_def IsAnonymized_def cong: if_cong)

lemma stale_from_least:
  assumes "deriveAccountStatusStaleFrom s = Some st" "b \<in> boundaries (accountStatus s)" "refTime s < b"
  shows "st \<le> b"
proof (rule find_sorted_least)
  let ?ts = "opt_list (accountValidFrom (accountStatus s)) @ opt_list (accountValidUntil (accountStatus s))
    @ opt_list (temporarilyDisabledFrom (accountStatus s)) @ opt_list (temporarilyDisabledUntil (accountStatus s))"
  show "sorted (sort ?ts)" by simp
  show "List.find (\<lambda>t. t > refTime s) (sort ?ts) = Some st"
    using assms(1) by (simp add: deriveAccountStatusStaleFrom_def Let_def)
  show "b \<in> set (sort ?ts)" using assms(2) by (auto simp: boundaries_def)
  show "refTime s < b" by (rule assms(3))
qed

lemma stale_from_none:
  assumes "deriveAccountStatusStaleFrom s = None" "b \<in> boundaries (accountStatus s)"
  shows "b \<le> refTime s"
  using assms by (auto simp: deriveAccountStatusStaleFrom_def Let_def find_None_conv boundaries_def not_less)

lemma stale_from_same_side:
  assumes "refTime s \<le> t" "\<And>st. deriveAccountStatusStaleFrom s = Some st \<Longrightarrow> t < st"
    and "b \<in> boundaries (accountStatus s)"
  shows "(refTime s < b) = (t < b)"
proof (cases "deriveAccountStatusStaleFrom s")
  case None
  with stale_from_none [OF None assms(3)] assms(1) show ?thesis by simp
next
  case (Some st)
  with stale_from_least [OF Some assms(3)] assms(1,2) show ?thesis by fastforce
qed

lemma normalized_cache_sound:
  assumes "normalizeOnChange s = Ok t" "refTime t \<le> now"
    and "\<And>st. accountStatusStaleFrom (accountStatus t) = Some st \<Longrightarrow> now < st"
  shows "IsDisabled \<lparr>accountStatus = accountStatus t, refTime = now\<rparr> = Ok (isDisabled (accountStatus t))"
proof -
  let ?u = "dropPastPeriod s"
  from assms(1) obtain d where d: "IsDisabled ?u = Ok d" and t: "t = ?u\<lparr>accountStatus :=
      (accountStatus ?u)\<lparr>isDisabled := d, accountStatusStaleFrom := deriveAccountStatusStaleFrom ?u\<rparr>\<rparr>"
    by (auto simp: normalize_shape)
  have "IsDisabled \<lparr>accountStatus = accountStatus ?u, refTime = now\<rparr>
      = IsDisabled \<lparr>accountStatus = accountStatus ?u, refTime = refTime ?u\<rparr>"
    using assms(2,3) by (intro IsDisabled_same_side stale_from_same_side) (simp_all add: t)
  moreover have "\<lparr>accountStatus = accountStatus ?u, refTime = refTime ?u\<rparr> = ?u" by simp
  ultimately show ?thesis
    using d classification_ignores_cache [where s = "\<lparr>accountStatus = accountStatus ?u, refTime = now\<rparr>"
        and a = "accountStatus ?u" and d = d and x = "deriveAccountStatusStaleFrom ?u"]
    by (simp add: t del: dropPastPeriod_refTime)
qed

section \<open>The transition table\<close>

text \<open>
  The specification of the operations: the columns each one asks for, and the status types it
  may start from (the table that \<^verbatim>\<open>account_status_test.go\<close> checks and
  \<^verbatim>\<open>docs/specs/user-model.md\<close> describes).
\<close>

fun requested :: "account_op \<Rightarrow> account_status_ref \<Rightarrow> account_status" where
  "requested OpReenable s = (accountStatus s)\<lparr>isIndefinitelyDisabled := Some False,
     isDeactivated := Some False, disableReason := None, temporarilyDisabledFrom := None,
     temporarilyDisabledUntil := None, deleteAt := None, deleteReason := None, anonymizeAt := None\<rparr>"
| "requested (OpDisableIndefinitely r) s = (accountStatus s)\<lparr>isIndefinitelyDisabled := Some True,
     isDeactivated := Some False, disableReason := r, temporarilyDisabledFrom := None,
     temporarilyDisabledUntil := None, deleteAt := None, deleteReason := None, anonymizeAt := None\<rparr>"
| "requested (OpDisableTemporarily f u r) s = (accountStatus s)\<lparr>isIndefinitelyDisabled := Some False,
     isDeactivated := Some False, disableReason := r, temporarilyDisabledFrom := f,
     temporarilyDisabledUntil := u, deleteAt := None, deleteReason := None, anonymizeAt := None\<rparr>"
| "requested (OpSetValidFrom t) s = (accountStatus s)\<lparr>accountValidFrom := t\<rparr>"
| "requested (OpSetValidUntil t) s = (accountStatus s)\<lparr>accountValidUntil := t\<rparr>"
| "requested (OpSetValidPeriod f u) s = (accountStatus s)\<lparr>accountValidFrom := f, accountValidUntil := u\<rparr>"
| "requested (OpScheduleDeletionByEndUser t r) s = (accountStatus s)\<lparr>isIndefinitelyDisabled := Some True,
     isDeactivated := Some True, disableReason := None, temporarilyDisabledFrom := None,
     temporarilyDisabledUntil := None, deleteAt := Some t, deleteReason := Some r, anonymizeAt := None\<rparr>"
| "requested (OpScheduleDeletionByAdmin t r) s = (accountStatus s)\<lparr>isIndefinitelyDisabled := Some True,
     isDeactivated := Some False, disableReason := None, temporarilyDisabledFrom := None,
     temporarilyDisabledUntil := None, deleteAt := Some t, deleteReason := Some r, anonymizeAt := None\<rparr>"
| "requested OpUnscheduleDeletion s = (accountStatus s)\<lparr>isIndefinitelyDisabled := isAnonymized (accountStatus s),
     isDeactivated := Some False, disableReason := None, temporarilyDisabledFrom := None,
     temporarilyDisabledUntil := None, deleteAt := None, deleteReason := None, anonymizeAt := None\<rparr>"
| "requested OpAnonymize s = (accountStatus s)\<lparr>isIndefinitelyDisabled := Some True,
     isDeactivated := Some False, disableReason := None, temporarilyDisabledFrom := None,
     temporarilyDisabledUntil := None, anonymizeAt := None, isAnonymized := Some True,
     anonymizedAt := Some (refTime s)\<rparr>"
| "requested (OpScheduleAnonymization t) s = (accountStatus s)\<lparr>isIndefinitelyDisabled := Some True,
     isDeactivated := Some False, disableReason := None, temporarilyDisabledFrom := None,
     temporarilyDisabledUntil := None, deleteAt := None, deleteReason := None, anonymizeAt := Some t\<rparr>"
| "requested OpUnscheduleAnonymization s = (accountStatus s)\<lparr>isIndefinitelyDisabled := Some False,
     isDeactivated := Some False, disableReason := None, temporarilyDisabledFrom := None,
     temporarilyDisabledUntil := None, deleteAt := None, deleteReason := None, anonymizeAt := None\<rparr>"

fun permitted_types :: "account_op \<Rightarrow> account_status_type set" where
  "permitted_types OpReenable = {TypeDisabled, TypeDisabledTemporarily}"
| "permitted_types (OpDisableIndefinitely r) = {TypeNormal, TypeDisabledTemporarily}"
| "permitted_types (OpDisableTemporarily f u r) = {TypeNormal, TypeDisabled, TypeDisabledTemporarily}"
| "permitted_types (OpScheduleDeletionByEndUser t r) = {TypeNormal}"
| "permitted_types (OpScheduleDeletionByAdmin t r) =
     - {TypeScheduledDeletionDisabled, TypeScheduledDeletionDeactivated}"
| "permitted_types OpUnscheduleDeletion = {TypeScheduledDeletionDisabled, TypeScheduledDeletionDeactivated}"
| "permitted_types OpUnscheduleAnonymization = {TypeScheduledAnonymizationDisabled}"
| "permitted_types (OpScheduleAnonymization t) = - {TypeScheduledAnonymizationDisabled}"
| "permitted_types _ = UNIV"

fun permitted_when_anonymized :: "account_op \<Rightarrow> bool" where
  "permitted_when_anonymized (OpScheduleDeletionByAdmin t r) = True"
| "permitted_when_anonymized OpUnscheduleDeletion = True"
| "permitted_when_anonymized _ = False"

definition permitted :: "account_op \<Rightarrow> account_status_ref \<Rightarrow> bool" where
  "permitted op s \<longleftrightarrow>
     (isAnonymized (accountStatus s) = Some True \<longrightarrow> permitted_when_anonymized op) \<and>
     (\<exists>v. variant s = Ok v \<and> getAccountStatusType v \<in> permitted_types op)"

lemma getAccountStatusType_range [simp]:
  "getAccountStatusType v \<noteq> TypeDeactivated" "getAccountStatusType v \<noteq> TypeAnonymized"
  "getAccountStatusType v \<noteq> TypeOutsideValidPeriod"
  by (cases v; simp)+

lemma getAccountStatusType_cases:
  "getAccountStatusType v \<in> {TypeNormal, TypeDisabled, TypeDisabledTemporarily,
     TypeScheduledDeletionDisabled, TypeScheduledDeletionDeactivated, TypeScheduledAnonymizationDisabled}"
  by (cases v) simp_all

lemma conclude_Ok_conv:
  "conclude s allowed target = Ok t \<longleftrightarrow>
     t = target \<and> (\<exists>v. variant s = Ok v \<and> getAccountStatusType v \<in> set allowed)"
  by (auto simp: conclude_def split: if_splits)

lemma validated_Ok_conv:
  "validated target k = Ok t \<longleftrightarrow> checkAllTimestampsAreValid target = None \<and> k = Ok t"
  by (auto simp: validated_def split: option.splits)

lemma rejectAnonymized_Ok_conv:
  "rejectAnonymized s target k = Ok t \<longleftrightarrow> isAnonymized (accountStatus s) = Some False \<and> k = Ok t"
  by (auto simp: rejectAnonymized_def IsAnonymized_def)

lemma concludeValidPeriod_Ok_conv:
  "concludeValidPeriod s target = Ok t \<longleftrightarrow>
     t = target \<and> checkAllTimestampsAreValid target = None \<and> isAnonymized (accountStatus s) = Some False"
  by (auto simp: concludeValidPeriod_def validated_Ok_conv IsAnonymized_def split: if_splits)

lemmas op_Ok_convs = conclude_Ok_conv validated_Ok_conv rejectAnonymized_Ok_conv concludeValidPeriod_Ok_conv

lemmas op_defs = Reenable_def DisableIndefinitely_def DisableTemporarily_def SetAccountValidFrom_def
  SetAccountValidUntil_def SetAccountValidPeriod_def ScheduleDeletionByEndUser_def
  ScheduleDeletionByAdmin_def UnscheduleDeletionByAdmin_def Anonymize_def
  ScheduleAnonymizationByAdmin_def UnscheduleAnonymizationByAdmin_def

text \<open>An anonymized account whose deletion is not scheduled has a type no unscheduling accepts.\<close>

lemma variant_deletion_scheduled:
  "variant s = Ok v \<Longrightarrow>
   getAccountStatusType v \<in> {TypeScheduledDeletionDisabled, TypeScheduledDeletionDeactivated} \<Longrightarrow>
   deleteAt (accountStatus s) \<noteq> None"
  by (auto simp: variant_def Let_def split: option.splits if_splits)

lemma apply_account_op_Ok_conv:
  assumes "flags_ok s"
  shows "apply_account_op op s = Ok t \<longleftrightarrow>
    normalizeOnChange (s\<lparr>accountStatus := requested op s\<rparr>) = Ok t \<and>
    checkAllTimestampsAreValid t = None \<and> permitted op s"
proof -
  obtain v where v: "variant s = Ok v" using is_okD [OF variant_ok [OF assms]] ..
  obtain b where b: "isAnonymized (accountStatus s) = Some b"
    using assms by (auto simp: flags_ok_def Let_def)
  note vt = getAccountStatusType_cases [of v] and vd = variant_deletion_scheduled [OF v]
  show ?thesis
  proof (cases op)
    case OpAnonymize
    with v b vt show ?thesis
      by (cases b) (auto simp: op_defs op_Ok_convs permitted_def IsAnonymized_def)
  next
    case OpUnscheduleDeletion
    with v b vt vd show ?thesis
      by (cases b) (auto simp: op_defs op_Ok_convs permitted_def)
  qed (use v b vt in \<open>auto simp: op_defs op_Ok_convs permitted_def split: if_splits\<close>)
qed

section \<open>Preservation\<close>

lemma status_shape_cache [simp]:
  "status_shape (a\<lparr>isDisabled := d, accountStatusStaleFrom := x\<rparr>) = status_shape a"
  by (simp add: status_shape_def)

lemma timestamps_ordered_cache [simp]:
  "timestamps_ordered (a\<lparr>isDisabled := d, accountStatusStaleFrom := x\<rparr>) = timestamps_ordered a"
  by (simp add: timestamps_ordered_def)

lemma dropPastPeriod_shape:
  "status_shape (accountStatus s) \<Longrightarrow> status_shape (accountStatus (dropPastPeriod s))"
  using dropPastPeriod_cases [of s] by (auto simp: status_shape_def)

lemma dropPastPeriod_ordered:
  "timestamps_ordered (accountStatus s) \<Longrightarrow> timestamps_ordered (accountStatus (dropPastPeriod s))"
  using dropPastPeriod_cases [of s]
  by (auto simp: timestamps_ordered_def sorted_wrt_append)

lemma normalize_result:
  assumes "normalizeOnChange s = Ok t"
  shows "refTime t = refTime s" "status_shape (accountStatus t) = status_shape (accountStatus (dropPastPeriod s))"
    "timestamps_ordered (accountStatus t) = timestamps_ordered (accountStatus (dropPastPeriod s))"
    "isAnonymized (accountStatus t) = isAnonymized (accountStatus s)"
    "variant t = variant s" "isOutsideValidPeriod t = isOutsideValidPeriod s"
proof -
  show "refTime t = refTime s" "status_shape (accountStatus t) = status_shape (accountStatus (dropPastPeriod s))"
    "timestamps_ordered (accountStatus t) = timestamps_ordered (accountStatus (dropPastPeriod s))"
    using assms by (auto simp: normalize_shape)
  show "isAnonymized (accountStatus t) = isAnonymized (accountStatus s)"
    using assms dropPastPeriod_cases [of s] by (auto simp: normalize_shape)
  show "variant t = variant s" "isOutsideValidPeriod t = isOutsideValidPeriod s"
    using assms by (auto simp: normalize_shape)
qed

text \<open>What an operation asks for keeps the shape, from every state it may start in.\<close>

lemma anonymized_indefinite:
  "status_shape a \<Longrightarrow> isAnonymized a = Some True \<Longrightarrow> isIndefinitelyDisabled a = Some True"
  by (auto simp: status_shape_def)

lemma variant_temporary_type:
  "variant s = Ok v \<Longrightarrow> isIndefinitelyDisabled (accountStatus s) = Some True \<Longrightarrow>
   getAccountStatusType v \<notin> {TypeNormal, TypeDisabledTemporarily}"
  by (auto simp: variant_def Let_def split: option.splits if_splits)

lemma requested_shape:
  assumes "status_shape (accountStatus s)" "permitted op s"
  shows "status_shape (requested op s)"
  using assms by (cases op) (auto simp: status_shape_def permitted_def)

lemma apply_account_op_wf:
  assumes "ref_wf s" "apply_account_op op s = Ok t"
  shows "ref_wf t \<and> refTime t = refTime s"
proof -
  from assms have n: "normalizeOnChange (s\<lparr>accountStatus := requested op s\<rparr>) = Ok t"
    and c: "checkAllTimestampsAreValid t = None" and p: "permitted op s"
    by (simp_all add: apply_account_op_Ok_conv ref_wf_flags)
  from assms(1) have "status_shape (accountStatus s)" by (simp add: ref_wf_def status_wf_def)
  from requested_shape [OF this p] have "status_shape (accountStatus t)"
    unfolding normalize_result(2) [OF n] by (intro dropPastPeriod_shape) simp
  then show ?thesis
    using c normalize_result(1) [OF n] by (simp add: ref_wf_def status_wf_def checkAllTimestampsAreValid_spec)
qed

lemma WithRefTime_wf_conv:
  assumes "status_wf a"
  shows "WithRefTime a now = normalizeOnChange \<lparr>accountStatus = a, refTime = now\<rparr>"
  using assms
  by (auto simp: WithRefTime_def normalizeOnRead_def status_wf_def status_shape_def)

lemma WithRefTime_wf:
  assumes "status_wf a" obtains s where "WithRefTime a now = Ok s" "ref_wf s" "refTime s = now"
    "isAnonymized (accountStatus s) = isAnonymized a"
proof -
  let ?r = "\<lparr>accountStatus = a, refTime = now\<rparr>"
  from assms have "ref_wf ?r" by (simp add: ref_wf_def)
  then obtain s where n: "normalizeOnChange ?r = Ok s"
    using is_okD [OF normalize_ok [OF ref_wf_flags]] by blast
  with assms have "ref_wf s"
    using normalize_result [OF n] dropPastPeriod_shape [of ?r] dropPastPeriod_ordered [of ?r]
    by (simp add: ref_wf_def status_wf_def)
  with n assms normalize_result [OF n] show ?thesis by (intro that [of s]) (simp_all add: WithRefTime_wf_conv)
qed

lemma account_step_Ok_conv:
  assumes "status_wf a"
  shows "account_step now op a = Ok b \<longleftrightarrow> (\<exists>s t. WithRefTime a now = Ok s \<and> ref_wf s \<and> refTime s = now \<and>
     isAnonymized (accountStatus s) = isAnonymized a \<and>
     apply_account_op op s = Ok t \<and> ref_wf t \<and> refTime t = now \<and> b = accountStatus t)"
proof -
  obtain s where s: "WithRefTime a now = Ok s" "ref_wf s" "refTime s = now"
    "isAnonymized (accountStatus s) = isAnonymized a" by (rule WithRefTime_wf [OF assms])
  then show ?thesis using apply_account_op_wf [OF s(2), of op] by (auto simp: account_step_def)
qed

lemma account_step_wf:
  assumes "status_wf a" "account_step now op a = Ok b" shows "status_wf b"
  using assms(2) by (auto simp: account_step_Ok_conv [OF assms(1)] ref_wf_def)

lemma reachable_wf: "account_reachable a \<Longrightarrow> status_wf a"
proof (induction rule: account_reachable.induct)
  case created
  show ?case by (simp add: new_account_def status_wf_def status_shape_def timestamps_ordered_def)
next
  case stepped
  then show ?case by (blast intro: account_step_wf)
qed

section \<open>No operation panics\<close>

lemma flags_ok_requested:
  "flags_ok s \<Longrightarrow> (deleteAt (accountStatus s) \<noteq> None \<or> anonymizeAt (accountStatus s) \<noteq> None \<or> isDeactivated (accountStatus s) \<noteq> Some True)
   \<Longrightarrow> flags_ok (s\<lparr>accountStatus := requested op s\<rparr>)"
  by (cases op) (auto simp: flags_ok_def Let_def)

lemma validated_not_Panic: "k \<noteq> Panic \<Longrightarrow> validated t k \<noteq> Panic"
  by (auto simp: validated_def split: option.splits)

lemma conclude_not_Panic:
  "flags_ok s \<Longrightarrow> flags_ok t \<Longrightarrow> conclude s ts t \<noteq> Panic"
  using is_okD [OF variant_ok, of s] is_okD [OF variant_ok, of t]
    is_okD [OF getMostAppropriateType_ok, of s]
  by (auto simp: conclude_def split: if_splits)

lemma rejectAnonymized_not_Panic:
  "flags_ok s \<Longrightarrow> flags_ok t \<Longrightarrow> k \<noteq> Panic \<Longrightarrow> rejectAnonymized s t k \<noteq> Panic"
  using is_okD [OF variant_ok, of t] is_okD [OF IsAnonymized_ok, of s]
  by (auto simp: rejectAnonymized_def split: if_splits)

lemma concludeValidPeriod_not_Panic:
  "flags_ok s \<Longrightarrow> flags_ok t \<Longrightarrow> concludeValidPeriod s t \<noteq> Panic"
  using is_okD [OF getMostAppropriateType_ok, of t] is_okD [OF IsAnonymized_ok, of s]
  by (auto simp: concludeValidPeriod_def intro!: validated_not_Panic split: if_splits)

lemmas op_not_Panics = validated_not_Panic conclude_not_Panic rejectAnonymized_not_Panic
  concludeValidPeriod_not_Panic

lemma flags_ok_cache [simp]:
  "flags_ok (s\<lparr>accountStatus := a\<lparr>isDisabled := d, accountStatusStaleFrom := x\<rparr>\<rparr>)
     = flags_ok (s\<lparr>accountStatus := a\<rparr>)"
  by (simp add: flags_ok_def)

lemma normalize_flags: "normalizeOnChange s = Ok t \<Longrightarrow> flags_ok t = flags_ok s"
  by (auto simp: normalize_shape)

lemma apply_account_op_not_Panic:
  assumes "ref_wf s" shows "apply_account_op op s \<noteq> Panic"
proof -
  let ?r = "s\<lparr>accountStatus := requested op s\<rparr>"
  have fs: "flags_ok s" by (rule ref_wf_flags [OF assms])
  have "deleteAt (accountStatus s) \<noteq> None \<or> isDeactivated (accountStatus s) \<noteq> Some True"
    using assms by (auto simp: ref_wf_def status_wf_def status_shape_def)
  then have "flags_ok ?r" using flags_ok_requested [OF fs] by blast
  then obtain t where n: "normalizeOnChange ?r = Ok t" and ft: "flags_ok t"
    using is_okD [OF normalize_ok] normalize_flags by blast
  obtain v w where "variant s = Ok v" "variant t = Ok w"
    using is_okD [OF variant_ok] fs ft by blast
  moreover obtain b c where "IsAnonymized s = Ok b" "IsAnonymized t = Ok c"
    using is_okD [OF IsAnonymized_ok] fs ft by blast
  moreover obtain m where "getMostAppropriateType s = Ok m"
    using is_okD [OF getMostAppropriateType_ok] fs by blast
  moreover from this have "isAnonymized (accountStatus s) = Some b" if "IsAnonymized s = Ok b" for b
    using that by (simp add: IsAnonymized_def)
  ultimately show ?thesis
    using n fs ft by (cases op) (simp_all add: op_defs op_not_Panics)
qed

section \<open>Properties\<close>

text \<open>Every account that exists, however it got there, has well-formed columns, and neither
  reading it nor applying any operation to it at any time runs into one of the panics.\<close>

theorem account_operations_never_panic:
  assumes "account_reachable a"
  shows "status_wf a \<and> WithRefTime a now \<noteq> Panic \<and> account_step now op a \<noteq> Panic"
proof -
  have wf: "status_wf a" by (rule reachable_wf [OF assms])
  obtain s where s: "WithRefTime a now = Ok s" "ref_wf s" by (rule WithRefTime_wf [OF wf])
  then have "account_step now op a \<noteq> Panic"
    using apply_account_op_not_Panic [OF s(2), of op] by (auto simp: account_step_def bind_oc_Panic_conv)
  with wf s(1) show ?thesis by simp
qed

lemma account_step_example:
  "account_step 50 (OpDisableTemporarily (Some 100) (Some 200) (Some ''abuse'')) new_account
   = Ok (new_account\<lparr>disableReason := Some ''abuse'', temporarilyDisabledFrom := Some 100,
       temporarilyDisabledUntil := Some 200, accountStatusStaleFrom := Some 100\<rparr>)"
  by code_simp

lemma new_account_verdict: "isDisabled new_account = False"
  by (simp add: new_account_def)

theorem account_operations_never_panic_witness:
  "account_reachable new_account \<and> account_step 7 OpAnonymize new_account \<noteq> Panic"
  using account_operations_never_panic [OF account_reachable.created, of 7 OpAnonymize]
    account_reachable.created by simp

text \<open>C17: the stored \<^verbatim>\<open>is_disabled\<close> is accurate until \<^verbatim>\<open>account_status_stale_from\<close>: after any
  operation, at any later time before the stale time (or at any later time when it is null), the
  full classification gives the stored verdict.\<close>

theorem cached_is_disabled_accurate:
  assumes "account_reachable a" and "account_step now op a = Ok b" and "now \<le> t"
    and "case accountStatusStaleFrom b of None \<Rightarrow> True | Some stale \<Rightarrow> t < stale"
  shows "IsDisabled \<lparr>accountStatus = b, refTime = t\<rparr> = Ok (isDisabled b)"
proof -
  from assms(2) obtain s u where u: "apply_account_op op s = Ok u" "ref_wf s" "refTime u = now"
      "b = accountStatus u"
    by (auto simp: account_step_Ok_conv [OF reachable_wf [OF assms(1)]])
  then have n: "normalizeOnChange (s\<lparr>accountStatus := requested op s\<rparr>) = Ok u"
    by (simp add: apply_account_op_Ok_conv ref_wf_flags)
  show ?thesis
    unfolding u(4) by (rule normalized_cache_sound [OF n]) (use assms(3,4) u in auto)
qed

theorem cached_is_disabled_accurate_witness:
  "\<exists>b. account_step 50 (OpDisableTemporarily (Some 100) (Some 200) (Some ''abuse'')) new_account = Ok b
     \<and> accountStatusStaleFrom b = Some 100
     \<and> IsDisabled \<lparr>accountStatus = b, refTime = 99\<rparr> = Ok False"
  using cached_is_disabled_accurate [OF account_reachable.created account_step_example, of 99]
  by (simp add: account_step_example new_account_verdict)



text \<open>Anonymization cannot be undone: no operation on an anonymized account clears the flag, and
  an anonymized account is disabled at every time.\<close>

theorem anonymization_permanent:
  assumes "account_reachable a" "isAnonymized a = Some True" "account_step now op a = Ok b"
  shows "isAnonymized b = Some True \<and> IsDisabled \<lparr>accountStatus = b, refTime = t\<rparr> = Ok True"
proof -
  from assms(3) obtain s u where u: "apply_account_op op s = Ok u" "ref_wf s" "b = accountStatus u"
      "isAnonymized (accountStatus s) = Some True"
    by (auto simp: account_step_Ok_conv [OF reachable_wf [OF assms(1)]] assms(2))
  then have n: "normalizeOnChange (s\<lparr>accountStatus := requested op s\<rparr>) = Ok u"
    by (simp add: apply_account_op_Ok_conv ref_wf_flags)
  have "isAnonymized b = isAnonymized (requested op s)"
    using normalize_result(4) [OF n] by (simp add: u(3))
  also have "\<dots> = Some True" using u(4) by (cases op) simp_all
  finally show ?thesis by (simp add: IsDisabled_def Check_def IsAnonymized_def)
qed

lemma anonymized_reachable:
  "account_reachable (new_account\<lparr>isDisabled := True, isIndefinitelyDisabled := Some True,
     anonymizedAt := Some 7, isAnonymized := Some True\<rparr>)"
proof (rule account_reachable.stepped [OF account_reachable.created])
  show "account_step 7 OpAnonymize new_account = Ok (new_account\<lparr>isDisabled := True,
    isIndefinitelyDisabled := Some True, anonymizedAt := Some 7, isAnonymized := Some True\<rparr>)"
    by code_simp
qed

theorem anonymization_permanent_witness:
  "\<exists>b. account_step 9 (OpScheduleDeletionByAdmin 30 ''gdpr'') (new_account\<lparr>isDisabled := True,
      isIndefinitelyDisabled := Some True, anonymizedAt := Some 7, isAnonymized := Some True\<rparr>) = Ok b
    \<and> isAnonymized b = Some True"
proof -
  let ?a = "new_account\<lparr>isDisabled := True, isIndefinitelyDisabled := Some True,
     anonymizedAt := Some 7, isAnonymized := Some True\<rparr>"
  have s: "account_step 9 (OpScheduleDeletionByAdmin 30 ''gdpr'') ?a
     = Ok (?a\<lparr>deleteAt := Some 30, deleteReason := Some ''gdpr''\<rparr>)"
    by code_simp
  show ?thesis
    using anonymization_permanent [OF anonymized_reachable _ s] s by simp
qed

text \<open>\<^verbatim>\<open>IsAccountStatusError\<close> is in sync with \<^verbatim>\<open>Check\<close>: it recognises exactly the errors that
  some account gets from \<^verbatim>\<open>Check\<close>.\<close>

theorem account_status_errors_in_sync:
  "IsAccountStatusError e \<longleftrightarrow> (\<exists>s. Check s = Ok (Some e))"
proof
  assume "\<exists>s. Check s = Ok (Some e)"
  then obtain s where c: "Check s = Ok (Some e)" ..
  have "IsAccountStatusError e'" if "variant_check v = Some e'" for v e'
    using that by (cases v) auto
  with c show "IsAccountStatusError e" by (auto simp: Check_def split: if_splits)
next
  assume e: "IsAccountStatusError e"
  let ?at = "\<lambda>a. \<lparr>accountStatus = a, refTime = 0\<rparr>"
  let ?off = "new_account\<lparr>isIndefinitelyDisabled := Some True\<rparr>"
  have "Check (?at (?off\<lparr>disableReason := r\<rparr>)) = Ok (Some (DisabledUser r))"
    "Check (?at (new_account\<lparr>isAnonymized := Some True\<rparr>)) = Ok (Some ErrAnonymizedUser)"
    "Check (?at (?off\<lparr>deleteAt := Some t\<rparr>)) = Ok (Some (ScheduledDeletionByAdminErr t))"
    "Check (?at (?off\<lparr>deleteAt := Some t, isDeactivated := Some True\<rparr>)) = Ok (Some (ScheduledDeletionByEndUserErr t))"
    "Check (?at (?off\<lparr>anonymizeAt := Some t\<rparr>)) = Ok (Some (ScheduledAnonymizationByAdminErr t))"
    "Check (?at (new_account\<lparr>accountValidUntil := Some 0\<rparr>)) = Ok (Some ErrUserOutsideValidPeriod)" for r t
    by (simp_all add: Check_def IsAnonymized_def isOutsideValidPeriod_def variant_def new_account_def)
  then show "\<exists>s. Check s = Ok (Some e)" using e by (cases e) (simp_all, blast+)
qed

end
