(* ===== verification/Gcra.thy ===== *)
theory Gcra imports Prelude Complex_Main begin

text \<open>
  The rate limiter's token bucket, \<^verbatim>\<open>pkg/lib/ratelimit/gcra.go\<close>: the Lua script Redis runs for
  every reservation, and the Go function around it.

  Times are integers in milliseconds as in the script. The weight \<^verbatim>\<open>n\<close> is a rational (Lua and Go
  numbers are doubles; the products the script forms are taken exactly). \<open>tat\<close> is what
  \<^verbatim>\<open>GET rate_limit_key\<close> returns: \<open>None\<close> when the key is missing or does not hold a string, the two
  cases the script treats alike.
\<close>

section \<open>The script\<close>

text \<open>The values the script computes before it decides.\<close>

record gcra_vars =
  v_emission_interval :: int
  v_increment :: int
  v_new_tat :: int
  v_allow_at :: int

definition gcra_compute :: "int \<Rightarrow> int \<Rightarrow> rat \<Rightarrow> time \<Rightarrow> int option \<Rightarrow> gcra_vars" where
  "gcra_compute period burst n now_timestamp got = (let
     emission_interval = period div burst;
     tolerance = burst;
     tat = (case got of None \<Rightarrow> now_timestamp | Some t \<Rightarrow> t);
     increment = \<lceil>of_int emission_interval * n\<rceil>;
     new_tat = max tat now_timestamp + increment;
     dvt = emission_interval * tolerance
   in \<lparr>v_emission_interval = emission_interval, v_increment = increment,
       v_new_tat = new_tat, v_allow_at = new_tat - dvt\<rparr>)"

text \<open>
  What the script does: \<open>g_write\<close> is the pair of arguments of \<^verbatim>\<open>SET\<close> (the new value) and
  \<^verbatim>\<open>EXPIREAT\<close> (the deadline passed to it), when it writes; \<open>g_time_to_act\<close> is the number the
  script returns, truncated by Redis to an integer.
\<close>

record gcra_reply =
  g_conforming :: bool
  g_time_to_act :: int
  g_write :: "(int \<times> int) option"

text \<open>Redis converts a Lua number reply to an integer by truncation towards zero.\<close>

definition lua_reply :: "rat \<Rightarrow> int" where
  "lua_reply x = (if x < 0 then \<lceil>x\<rceil> else \<lfloor>x\<rfloor>)"

definition gcra_script :: "int \<Rightarrow> int \<Rightarrow> rat \<Rightarrow> time \<Rightarrow> int option \<Rightarrow> gcra_reply" where
  "gcra_script period burst n now_timestamp got = (let
     v = gcra_compute period burst n now_timestamp got;
     allow_at = v_allow_at v
   in if now_timestamp \<ge> allow_at
      then \<lparr>g_conforming = True,
            g_time_to_act = lua_reply (of_int allow_at + max 1 n * of_int (v_emission_interval v)),
            g_write = Some (v_new_tat v, v_new_tat v)\<rparr>
      else \<lparr>g_conforming = False, g_time_to_act = lua_reply (of_int allow_at), g_write = None\<rparr>)"

text \<open>The Go side: the period is passed in milliseconds (\<^verbatim>\<open>period.Milliseconds()\<close> truncates).\<close>

definition Milliseconds :: "duration \<Rightarrow> int" where
  "Milliseconds d = sgn d * (\<bar>d\<bar> div 1000000)"

record gcraResult =
  IsConforming :: bool
  TimeToAct :: time

definition gcra :: "duration \<Rightarrow> int \<Rightarrow> rat \<Rightarrow> time \<Rightarrow> int option \<Rightarrow> gcraResult \<times> (int \<times> int) option" where
  "gcra period burst n now got =
     (let r = gcra_script (Milliseconds period) burst n now got
      in (\<lparr>IsConforming = g_conforming r, TimeToAct = g_time_to_act r\<rparr>, g_write r))"

section \<open>One call\<close>

definition emission :: "int \<Rightarrow> int \<Rightarrow> int" where
  "emission period burst = period div burst"

definition cost :: "int \<Rightarrow> int \<Rightarrow> rat \<Rightarrow> int" where
  "cost period burst n = \<lceil>of_int (emission period burst) * n\<rceil>"

definition capacity :: "int \<Rightarrow> int \<Rightarrow> int" where
  "capacity period burst = emission period burst * burst"

definition level :: "time \<Rightarrow> int option \<Rightarrow> int" where
  "level now got = (case got of None \<Rightarrow> now | Some t \<Rightarrow> max t now)"

lemma level_simps [simp]: "level now None = now" "level now (Some t) = max t now"
  by (simp_all add: level_def)

lemma level_ge: "now \<le> level now got"
  by (cases got) simp_all

text \<open>The script in these terms: it admits a request iff the level after it fits the capacity.\<close>

lemma gcra_script_eq:
  "gcra_script p b n now got =
    (if level now got + cost p b n \<le> now + capacity p b
     then \<lparr>g_conforming = True,
        g_time_to_act = lua_reply (of_int (level now got + cost p b n - capacity p b)
          + max 1 n * of_int (emission p b)),
        g_write = Some (level now got + cost p b n, level now got + cost p b n)\<rparr>
     else \<lparr>g_conforming = False, g_time_to_act = level now got + cost p b n - capacity p b,
        g_write = None\<rparr>)"
proof -
  have "lua_reply (of_int k) = k" for k by (simp add: lua_reply_def)
  moreover have "max (case got of None \<Rightarrow> now | Some t \<Rightarrow> t) now = level now got"
    by (cases got) simp_all
  ultimately show ?thesis
    by (simp add: gcra_script_def gcra_compute_def Let_def cost_def emission_def capacity_def
        algebra_simps del: of_int_add of_int_diff)
qed

lemma gcra_conforming_conv:
  "g_conforming (gcra_script p b n now got) \<longleftrightarrow> level now got + cost p b n \<le> now + capacity p b"
  by (simp add: gcra_script_eq)

lemma gcra_write_conv:
  "g_write (gcra_script p b n now got) =
     (if level now got + cost p b n \<le> now + capacity p b
      then Some (level now got + cost p b n, level now got + cost p b n) else None)"
  by (simp add: gcra_script_eq)

lemma gcra_rejected_time:
  "\<not> g_conforming (gcra_script p b n now got) \<Longrightarrow>
   g_time_to_act (gcra_script p b n now got) = level now got + cost p b n - capacity p b"
  by (simp add: gcra_script_eq split: if_splits)

lemma emission_nonneg: "0 \<le> p \<Longrightarrow> 0 < b \<Longrightarrow> 0 \<le> emission p b"
  by (simp add: emission_def pos_imp_zdiv_nonneg_iff)

lemma cost_le_capacity:
  assumes "0 \<le> p" "0 < b" "n \<le> of_int b" shows "cost p b n \<le> capacity p b"
proof -
  have "(of_int (emission p b) :: rat) * n \<le> of_int (emission p b) * of_int b"
    using assms emission_nonneg [OF assms(1,2)] by (intro mult_left_mono) simp_all
  also have "\<dots> = of_int (capacity p b)" by (simp add: capacity_def)
  finally show ?thesis by (simp add: cost_def ceiling_le_iff)
qed

lemma cost_nonneg:
  assumes "0 \<le> p" "0 < b" "0 \<le> n" shows "0 \<le> cost p b n"
proof -
  have "(0::rat) \<le> of_int (emission p b) * n"
    using assms emission_nonneg [OF assms(1,2)] by simp
  then have "(of_int 0 :: rat) \<le> of_int \<lceil>of_int (emission p b) * n\<rceil>"
    using le_of_int_ceiling [of "of_int (emission p b) * n"] by linarith
  then show ?thesis unfolding cost_def by (simp only: of_int_le_iff)
qed

lemma cost_of_int: "cost p b (of_int k) = emission p b * k"
  by (simp add: cost_def flip: of_int_mult)

section \<open>Runs on one bucket\<close>

text \<open>The value of the key after a call, when it does not expire in between.\<close>

definition next_tat :: "int option \<Rightarrow> gcra_reply \<Rightarrow> int option" where
  "next_tat got r = (case g_write r of None \<Rightarrow> got | Some (v, e) \<Rightarrow> Some v)"

text \<open>A run of calls \<open>(now, n)\<close>: the costs of the admitted ones, in order, and the final key.\<close>

fun gcra_run :: "int \<Rightarrow> int \<Rightarrow> int option \<Rightarrow> (time \<times> rat) list \<Rightarrow> (time \<times> int) list \<times> int option" where
  "gcra_run p b got [] = ([], got)"
| "gcra_run p b got ((now, n) # calls) = (let
     r = gcra_script p b n now got;
     (admitted, final) = gcra_run p b (next_tat got r) calls
   in ((if g_conforming r then (now, cost p b n) # admitted else admitted), final))"

lemma gcra_run_Cons:
  "gcra_run p b got ((now, n) # calls) =
    (let l = level now got + cost p b n in
     if l \<le> now + capacity p b
     then ((now, cost p b n) # fst (gcra_run p b (Some l) calls), snd (gcra_run p b (Some l) calls))
     else gcra_run p b got calls)"
  by (simp add: gcra_conforming_conv gcra_write_conv next_tat_def Let_def case_prod_beta)

declare gcra_run.simps(2) [simp del]

lemma gcra_run_append:
  "gcra_run p b got (xs @ ys) =
    (let (a1, g1) = gcra_run p b got xs; (a2, g2) = gcra_run p b g1 ys in (a1 @ a2, g2))"
proof (induction xs arbitrary: got)
  case Nil
  then show ?case by simp
next
  case (Cons x xs)
  then show ?case by (cases x) (simp add: gcra_run_Cons Let_def case_prod_beta)
qed

text \<open>
  Every admitted call raises the level by at least its cost, and leaves it within the capacity:
  so the costs admitted since the level was \<open>t0\<close> are bounded by the time passed plus the capacity.
\<close>

lemma gcra_run_bound:
  assumes "fst (gcra_run p b (Some tat) calls) = adm" "adm \<noteq> []"
  shows "tat + sum_list (map snd adm) \<le> fst (last adm) + capacity p b"
  using assms
proof (induction calls arbitrary: tat adm)
  case Nil
  then show ?case by simp
next
  case (Cons c calls)
  obtain now n where c: "c = (now, n)" by (cases c)
  let ?l = "max tat now + cost p b n"
  show ?case
  proof (cases "?l \<le> now + capacity p b")
    case True
    let ?rest = "fst (gcra_run p b (Some ?l) calls)"
    from True Cons.prems c have adm: "adm = (now, cost p b n) # ?rest"
      by (simp add: gcra_run_Cons Let_def)
    show ?thesis
    proof (cases "?rest = []")
      case True
      with adm \<open>?l \<le> now + capacity p b\<close> show ?thesis by simp
    next
      case False
      from Cons.IH [OF refl False] adm False show ?thesis by simp
    qed
  next
    case False
    with Cons.prems c have "fst (gcra_run p b (Some tat) calls) = adm"
      by (simp add: gcra_run_Cons Let_def)
    then show ?thesis using Cons.prems(2) by (rule Cons.IH)
  qed
qed

lemma gcra_run_window:
  assumes "fst (gcra_run p b got calls) = adm" "adm \<noteq> []"
  shows "sum_list (map snd adm) \<le> (fst (last adm) - fst (hd adm)) + capacity p b"
  using assms
proof (induction calls arbitrary: got adm)
  case Nil
  then show ?case by simp
next
  case (Cons c calls)
  obtain now n where c: "c = (now, n)" by (cases c)
  let ?l = "level now got + cost p b n"
  show ?case
  proof (cases "?l \<le> now + capacity p b")
    case True
    let ?rest = "fst (gcra_run p b (Some ?l) calls)"
    from True Cons.prems c have adm: "adm = (now, cost p b n) # ?rest"
      by (simp add: gcra_run_Cons Let_def)
    have ge: "now \<le> level now got" by (rule level_ge)
    show ?thesis
    proof (cases "?rest = []")
      case True
      with adm ge \<open>?l \<le> now + capacity p b\<close> show ?thesis by simp
    next
      case False
      from gcra_run_bound [OF refl False] adm False ge show ?thesis by simp
    qed
  next
    case False
    with Cons.prems c have "fst (gcra_run p b got calls) = adm"
      by (simp add: gcra_run_Cons Let_def)
    then show ?thesis using Cons.prems(2) by (rule Cons.IH)
  qed
qed

lemma gcra_run_costs:
  "x \<in> set (fst (gcra_run p b g cs)) \<Longrightarrow> (\<And>c. c \<in> set cs \<Longrightarrow> snd c = 1) \<Longrightarrow> snd x = emission p b"
proof (induction cs arbitrary: g)
  case Nil
  then show ?case by simp
next
  case (Cons c cs)
  obtain t where "c = (t, 1)" using Cons.prems(2) [of c] by (cases c) auto
  moreover have "cost p b 1 = emission p b" using cost_of_int [of p b 1] by simp
  ultimately show ?case
    using Cons by (fastforce simp: gcra_run_Cons Let_def split: if_splits)
qed

lemma sum_list_const: "(\<And>x. x \<in> set xs \<Longrightarrow> f x = c) \<Longrightarrow> sum_list (map f xs) = int (length xs) * c"
  by (induction xs) (auto simp: algebra_simps)

lemma gcra_run_unit:
  assumes "\<And>c. c \<in> set calls \<Longrightarrow> snd c = 1" "fst (gcra_run p b got calls) = adm" "adm \<noteq> []"
  shows "int (length adm) * emission p b \<le> b * emission p b + (fst (last adm) - fst (hd adm))"
proof -
  have "\<And>x. x \<in> set adm \<Longrightarrow> snd x = emission p b"
    using gcra_run_costs assms(1,2) by blast
  then have "sum_list (map snd adm) = int (length adm) * emission p b" by (rule sum_list_const)
  then show ?thesis
    using gcra_run_window [OF assms(2,3)] by (simp add: capacity_def algebra_simps)
qed

section \<open>Properties of the bucket\<close>

text \<open>The rate limit holds over every window. Whatever the bucket held before and whatever
  requests come before and after, the requests of weight one admitted in any stretch of calls
  number at most the burst plus one for every emission interval that passed between the first and
  the last of them.\<close>

theorem gcra_admits_at_most_burst_plus_rate:
  assumes "\<And>c. c \<in> set calls \<Longrightarrow> snd c = 1"
    and "fst (gcra_run period burst got calls) = adm" "adm \<noteq> []"
  shows "int (length adm) * emission period burst
       \<le> burst * emission period burst + (fst (last adm) - fst (hd adm))"
  using assms by (rule gcra_run_unit)

theorem gcra_admits_at_most_burst_plus_rate_witness:
  "fst (gcra_run 3000 3 None [(10, 1), (11, 1), (12, 1), (13, 1), (1010, 1)])
     = [(10, 1000), (11, 1000), (12, 1000), (1010, 1000)] \<and>
   int 4 * emission 3000 3 \<le> 3 * emission 3000 3 + (1010 - 10)"
proof -
  have r: "fst (gcra_run 3000 3 None [(10, 1), (11, 1), (12, 1), (13, 1), (1010, 1)])
     = [(10, 1000), (11, 1000), (12, 1000), (1010, 1000)]"
    by (simp add: gcra_run_Cons cost_def emission_def capacity_def)
  show ?thesis
    using gcra_admits_at_most_burst_plus_rate [OF _ r] r by (auto simp: emission_def)
qed

text \<open>A rejected caller is told exactly when to come back: if nothing else touches the bucket, the
  same request is rejected at every moment before \<open>TimeToAct\<close> and admitted from then on,
  provided it asks for no more than the burst.\<close>

theorem gcra_time_to_act_exact:
  assumes "0 \<le> period" "0 < burst" "n \<le> of_int burst"
    and "\<not> IsConforming (fst (gcra period burst n now got))" "now \<le> t"
  shows "IsConforming (fst (gcra period burst n t got))
     \<longleftrightarrow> TimeToAct (fst (gcra period burst n now got)) \<le> t"
proof -
  let ?p = "Milliseconds period"
  have p: "0 \<le> ?p" using assms(1) by (auto simp: Milliseconds_def sgn_if)
  have le: "cost ?p burst n \<le> capacity ?p burst" by (rule cost_le_capacity [OF p assms(2,3)])
  from assms(4) have rej: "\<not> g_conforming (gcra_script ?p burst n now got)"
    by (simp add: gcra_def Let_def)
  then have "now + capacity ?p burst < level now got + cost ?p burst n"
    by (simp add: gcra_conforming_conv not_le)
  with le obtain v where "got = Some v" "now < v" by (cases got) auto
  then have "level t got + cost ?p burst n \<le> t + capacity ?p burst
     \<longleftrightarrow> v + cost ?p burst n - capacity ?p burst \<le> t"
    using le assms(5) by auto
  then show ?thesis
    using gcra_rejected_time [OF rej] \<open>got = Some v\<close> \<open>now < v\<close>
    by (simp add: gcra_def Let_def gcra_conforming_conv)
qed

theorem gcra_time_to_act_exact_witness:
  "TimeToAct (fst (gcra 3000000000 3 1 13 (Some 3010))) = 1010
   \<and> \<not> IsConforming (fst (gcra 3000000000 3 1 1009 (Some 3010)))
   \<and> IsConforming (fst (gcra 3000000000 3 1 1010 (Some 3010)))"
proof -
  have t: "TimeToAct (fst (gcra 3000000000 3 1 13 (Some 3010))) = 1010"
    and r: "\<not> IsConforming (fst (gcra 3000000000 3 1 13 (Some 3010)))"
    by (simp_all add: gcra_def Milliseconds_def Let_def gcra_script_eq cost_def emission_def capacity_def)
  show ?thesis
    using gcra_time_to_act_exact [of 3000000000 3 1 13 "Some 3010" 1009]
      gcra_time_to_act_exact [of 3000000000 3 1 13 "Some 3010" 1010] t r by simp
qed

text \<open>Two contents of the key that no later call can tell apart.\<close>

definition same_bucket :: "time \<Rightarrow> int option \<Rightarrow> int option \<Rightarrow> bool" where
  "same_bucket now g1 g2 \<longleftrightarrow> level now g1 = level now g2"

lemma same_bucket_later:
  assumes "same_bucket now g1 g2" "now \<le> t" shows "level t g1 = level t g2"
  using assms by (cases g1; cases g2) (auto simp: same_bucket_def max_def split: if_splits)

lemma same_bucket_gcra:
  "same_bucket now g1 g2 \<Longrightarrow> now \<le> t \<Longrightarrow> gcra period burst n t g1 = gcra period burst n t g2"
  by (simp add: gcra_def Let_def gcra_script_eq same_bucket_later)

text \<open>Asking when one may act (\<open>n = 0\<close>, \<^verbatim>\<open>GetTimeToAct\<close>) costs nothing: no later call can tell
  whether the question was asked, and the answer is the earliest time at which a request of weight
  one is admitted.\<close>

theorem gcra_peek_is_free_and_exact:
  assumes "0 \<le> period" "0 < burst" "snd (gcra period burst 0 now got) = w" "now \<le> t"
  shows "gcra period burst n t (case w of None \<Rightarrow> got | Some (v, e) \<Rightarrow> Some v) = gcra period burst n t got
    \<and> (IsConforming (fst (gcra period burst 0 now got)) \<longrightarrow>
       (IsConforming (fst (gcra period burst 1 t got))
         \<longleftrightarrow> TimeToAct (fst (gcra period burst 0 now got)) \<le> t))"
proof -
  let ?p = "Milliseconds period"
  have p: "0 \<le> ?p" using assms(1) by (auto simp: Milliseconds_def sgn_if)
  have c0: "cost ?p burst 0 = 0" and c1: "cost ?p burst 1 = emission ?p burst"
    using cost_of_int [of ?p burst 0] cost_of_int [of ?p burst 1] by simp_all
  have cap: "emission ?p burst \<le> capacity ?p burst"
    using cost_le_capacity [OF p assms(2), of 1] assms(2) c1 by simp
  have "same_bucket now (case w of None \<Rightarrow> got | Some (v, e) \<Rightarrow> Some v) got"
    using assms(3) level_ge [of now got]
    by (auto simp: gcra_def Let_def gcra_write_conv c0 same_bucket_def split: if_splits option.splits)
  then have "gcra period burst n t (case w of None \<Rightarrow> got | Some (v, e) \<Rightarrow> Some v) = gcra period burst n t got"
    using assms(4) by (rule same_bucket_gcra)
  moreover have "IsConforming (fst (gcra period burst 1 t got))
      \<longleftrightarrow> TimeToAct (fst (gcra period burst 0 now got)) \<le> t"
    if "IsConforming (fst (gcra period burst 0 now got))"
  proof -
    have "lua_reply (of_int (level now got - capacity ?p burst) + of_int (emission ?p burst))
      = level now got - capacity ?p burst + emission ?p burst"
      by (simp add: lua_reply_def flip: of_int_diff of_int_add)
    with that have "TimeToAct (fst (gcra period burst 0 now got))
        = level now got - capacity ?p burst + emission ?p burst"
      by (simp add: gcra_def Let_def gcra_script_eq c0 split: if_splits)
    moreover have "level t got + emission ?p burst \<le> t + capacity ?p burst
        \<longleftrightarrow> level now got - capacity ?p burst + emission ?p burst \<le> t"
      using cap assms(4) by (cases got) auto
    ultimately show ?thesis by (simp add: gcra_def Let_def gcra_conforming_conv c1)
  qed
  ultimately show ?thesis by blast
qed

theorem gcra_peek_is_free_and_exact_witness:
  "TimeToAct (fst (gcra 3000000000 3 0 13 (Some 2510))) = 510
   \<and> IsConforming (fst (gcra 3000000000 3 1 510 (Some 2510)))
   \<and> \<not> IsConforming (fst (gcra 3000000000 3 1 509 (Some 2510)))"
proof -
  have e: "TimeToAct (fst (gcra 3000000000 3 0 13 (Some 2510))) = 510"
    "IsConforming (fst (gcra 3000000000 3 0 13 (Some 2510)))"
    by (simp_all add: gcra_def Milliseconds_def Let_def gcra_script_eq cost_def emission_def
        capacity_def lua_reply_def)
  show ?thesis
    using gcra_peek_is_free_and_exact [OF _ _ refl, of 3000000000 3 13 510 1 "Some 2510"]
      gcra_peek_is_free_and_exact [OF _ _ refl, of 3000000000 3 13 509 1 "Some 2510"] e by simp
qed

lemma gcra_refund:
  assumes "0 \<le> period" "0 < burst" "0 \<le> k" "now \<le> later" "later \<le> t"
    and "gcra period burst (of_int k) now got = (r, Some (v, e))"
  shows "\<exists>r' v' e'. gcra period burst (- of_int k) later (Some v) = (r', Some (v', e')) \<and>
     level t (Some v') = level t got"
proof -
  let ?p = "Milliseconds period" let ?c = "emission (Milliseconds period) burst * k"
  have "0 \<le> ?p" using assms(1) by (auto simp: Milliseconds_def sgn_if)
  then have c: "0 \<le> ?c" using emission_nonneg assms(2,3) by simp
  have ck: "cost ?p burst (of_int k) = ?c" "cost ?p burst (- of_int k) = - ?c"
    using cost_of_int [of ?p burst k] cost_of_int [of ?p burst "- k"] by simp_all
  from assms(6) have v: "v = level now got + ?c" and le: "level now got + ?c \<le> now + capacity ?p burst"
    by (simp_all add: gcra_def Let_def gcra_write_conv ck split: if_splits)
  let ?v' = "max v later - ?c"
  have "?v' \<le> later + capacity ?p burst"
    using v le c assms(4) level_ge [of now got] by (auto simp: max_def)
  then have w: "snd (gcra period burst (- of_int k) later (Some v)) = Some (?v', ?v')"
    by (simp add: gcra_def Let_def gcra_write_conv ck)
  have "level later (Some ?v') = level later got"
    using v c assms(4) by (cases got) auto
  then have "level t (Some ?v') = level t got"
    using assms(5) by (intro same_bucket_later) (auto simp: same_bucket_def)
  with w show ?thesis by (metis prod.collapse)
qed

text \<open>Cancelling gives the tokens back: reserving a whole number of tokens and cancelling that
  reservation later, with nothing in between, leaves a bucket no later call can tell from one that
  was never touched.\<close>

theorem gcra_cancel_restores:
  assumes "0 \<le> period" "0 < burst" "0 \<le> k" "now \<le> later" "later \<le> t"
    and "gcra period burst (of_int k) now got = (r, Some (v, e))"
  shows "\<exists>r' v' e'. gcra period burst (- of_int k) later (Some v) = (r', Some (v', e')) \<and>
     gcra period burst n t (Some v') = gcra period burst n t got"
  using gcra_refund [OF assms] same_bucket_gcra [of t _ got t period burst n]
  unfolding same_bucket_def by (metis order_refl)

theorem gcra_cancel_restores_witness:
  "\<exists>r' v' e'. gcra 3000000000 3 (- 2) 500 (Some 2010) = (r', Some (v', e')) \<and>
     gcra 3000000000 3 3 600 (Some v') = gcra 3000000000 3 3 600 None"
proof -
  have g: "gcra 3000000000 3 (of_int 2) 10 None
      = (\<lparr>IsConforming = True, TimeToAct = 1010\<rparr>, Some (2010, 2010))"
    by (simp add: gcra_def Milliseconds_def Let_def gcra_script_eq cost_def emission_def
        capacity_def lua_reply_def)
  show ?thesis
    using gcra_cancel_restores [OF _ _ _ _ _ g, of 500 600 3] by simp
qed

text \<open>An expired key is as good as a full bucket: once the stored time has passed, a missing key
  and the stored value lead to the same replies for ever, so the expiry the script sets is only a
  matter of memory.\<close>

theorem gcra_expired_key_equivalent:
  assumes "v \<le> now" "now \<le> t"
  shows "gcra period burst n t None = gcra period burst n t (Some v)"
  using assms by (intro same_bucket_gcra [of now]) (auto simp: same_bucket_def)

theorem gcra_expired_key_equivalent_witness:
  "gcra 3000000000 3 1 20 None = gcra 3000000000 3 1 20 (Some 5)"
  by (rule gcra_expired_key_equivalent [of 5 10]) simp_all

end
