(* ===== verification/RateLimitConfig.thy ===== *)
theory RateLimitConfig imports Prelude Complex_Main begin

text \<open>
  Which buckets a rate limit resolves to, \<^verbatim>\<open>pkg/lib/ratelimit/ratelimits.go\<close> and \<^verbatim>\<open>bucket.go\<close>, with
  the rate-limit entries of \<^verbatim>\<open>pkg/lib/config\<close> they read. The application's configuration is a function
  from the configuration paths the code reads to their entries (all present after
  \<^verbatim>\<open>SetDefaults\<close>); the feature configuration maps its paths to optional entries; the environment
  maps its paths to entries. Periods are the parsed durations.
\<close>

section \<open>Names\<close>

datatype (plugins only: code extraction) RateLimitGroup =
    RateLimitGroupAuthenticationGeneral | RateLimitGroupAuthenticationPassword
  | RateLimitGroupAuthenticationOOBOTPEmailTrigger
  | RateLimitGroupAuthenticationOOBOTPEmailValidate
  | RateLimitGroupAuthenticationOOBOTPSMSTrigger | RateLimitGroupAuthenticationOOBOTPSMSValidate
  | RateLimitGroupAuthenticationTOTP | RateLimitGroupAuthenticationRecoveryCode
  | RateLimitGroupAuthenticationDeviceToken | RateLimitGroupAuthenticationPasskey
  | RateLimitGroupAuthenticationSIWE | RateLimitGroupAuthenticationSignup
  | RateLimitGroupAuthenticationSignupAnonymous | RateLimitGroupAuthenticationAccountEnumeration
  | RateLimitGroupVerificationEmailTrigger | RateLimitGroupVerificationEmailValidate
  | RateLimitGroupVerificationSMSTrigger | RateLimitGroupVerificationSMSValidate
  | RateLimitGroupForgotPasswordEmailTrigger | RateLimitGroupForgotPasswordEmailValidate
  | RateLimitGroupForgotPasswordSMSTrigger | RateLimitGroupForgotPasswordSMSValidate
  | RateLimitGroupMessagingSMS | RateLimitGroupMessagingEmail | RateLimitGroupOAuthTokenGeneral
  | RateLimitGroupOAuthTokenClientCredentials | RateLimitGroupUnspecified

datatype (plugins only: code extraction) RateLimitName =
    RateLimitAuthenticationPasswordPerIP | RateLimitAuthenticationPasswordPerUserPerIP
  | RateLimitAuthenticationOOBOTPEmailTriggerPerIP
  | RateLimitAuthenticationOOBOTPEmailTriggerPerUser
  | RateLimitAuthenticationOOBOTPEmailValidatePerIP
  | RateLimitAuthenticationOOBOTPEmailValidatePerUserPerIP
  | RateLimitAuthenticationOOBOTPSMSTriggerPerIP | RateLimitAuthenticationOOBOTPSMSTriggerPerUser
  | RateLimitAuthenticationOOBOTPSMSValidatePerIP
  | RateLimitAuthenticationOOBOTPSMSValidatePerUserPerIP | RateLimitAuthenticationTOTPPerIP
  | RateLimitAuthenticationTOTPPerUserPerIP | RateLimitAuthenticationRecoveryCodePerIP
  | RateLimitAuthenticationRecoveryCodePerUserPerIP | RateLimitAuthenticationDeviceTokenPerIP
  | RateLimitAuthenticationDeviceTokenPerUserPerIP | RateLimitAuthenticationPasskeyPerIP
  | RateLimitAuthenticationSIWEPerIP | RateLimitAuthenticationSignupPerIP
  | RateLimitAuthenticationSignupAnonymousPerIP | RateLimitAuthenticationAccountEnumerationPerIP
  | RateLimitVerificationEmailTriggerPerIP | RateLimitVerificationEmailTriggerPerUser
  | RateLimitVerificationEmailValidatePerIP | RateLimitVerificationSMSTriggerPerIP
  | RateLimitVerificationSMSTriggerPerUser | RateLimitVerificationSMSValidatePerIP
  | RateLimitForgotPasswordEmailTriggerPerIP | RateLimitForgotPasswordEmailValidatePerIP
  | RateLimitForgotPasswordSMSTriggerPerIP | RateLimitForgotPasswordSMSValidatePerIP
  | RateLimitMessagingSMSPerIP | RateLimitMessagingSMSPerTarget | RateLimitMessagingEmailPerIP
  | RateLimitMessagingEmailPerTarget | RateLimitMessagingSMSPerProject
  | RateLimitMessagingEmailPerProject | RateLimitGlobalMessagingSMS
  | RateLimitGlobalMessagingSMSPerIP | RateLimitGlobalMessagingSMSPerTarget
  | RateLimitGlobalMessagingEmail | RateLimitGlobalMessagingEmailPerIP
  | RateLimitGlobalMessagingEmailPerTarget | RateLimitOAuthTokenClientCredentialsPerClient
  | RateLimitOAuthTokenClientCredentialsPerProject | RateLimitOAuthTokenGeneralPerIP
  | RateLimitOAuthTokenGeneralPerUser | RateLimitNameUnspecified

datatype (plugins only: code extraction) BucketName =
    SignupAnonymousPerIP | SignupPerIP | AccountEnumerationPerIP | OOBOTPTriggerEmailPerIP
  | OOBOTPTriggerSMSPerIP | OOBOTPTriggerWhatsappPerIP | OOBOTPTriggerEmailPerUser
  | OOBOTPTriggerSMSPerUser | OOBOTPTriggerWhatsappPerUser | OOBOTPCooldownEmail
  | OOBOTPCooldownSMS | OOBOTPCooldownWhatsapp | OOBOTPCooldownEmailPerSession
  | OOBOTPCooldownSMSPerSession | OOBOTPCooldownWhatsappPerSession | OOBOTPValidateEmailPerIP
  | OOBOTPValidateSMSPerIP | OOBOTPValidateWhatsappPerIP | OOBOTPValidateEmailPerUserPerIP
  | OOBOTPValidateSMSPerUserPerIP | OOBOTPValidateWhatsappPerUserPerIP
  | VerificationTriggerEmailPerIP | VerificationTriggerSMSPerIP
  | VerificationTriggerWhatsappPerIP | VerificationTriggerEmailPerUser
  | VerificationTriggerSMSPerUser | VerificationTriggerWhatsappPerUser
  | VerificationCooldownEmail | VerificationCooldownSMS | VerificationCooldownWhatsapp
  | VerificationCooldownEmailPerSession | VerificationCooldownSMSPerSession
  | VerificationCooldownWhatsappPerSession | VerificationValidateEmailPerIP
  | VerificationValidateSMSPerIP | VerificationValidateWhatsappPerIP | VerifyPasswordPerIP
  | VerifyPasswordPerUserPerIP | VerifyTOTPPerIP | VerifyTOTPPerUserPerIP | VerifyPasskeyPerIP
  | VerifyRecoveryCodePerIP | VerifyRecoveryCodePerUserPerIP | VerifyDeviceTokenPerIP
  | VerifyDeviceTokenPerUserPerIP | VerifySIWEPerIP | ForgotPasswordTriggerEmailPerIP
  | ForgotPasswordTriggerSMSPerIP | ForgotPasswordTriggerWhatsappPerIP
  | ForgotPasswordValidateEmailPerIP | ForgotPasswordValidateSMSPerIP
  | ForgotPasswordValidateWhatsappPerIP | ForgotPasswordCooldownEmail | ForgotPasswordCooldownSMS
  | ForgotPasswordCooldownWhatsapp | ForgotPasswordCooldownEmailPerSession
  | ForgotPasswordCooldownSMSPerSession | ForgotPasswordCooldownWhatsappPerSession | MessagingSMS
  | MessagingSMSPerIP | MessagingSMSPerTarget | MessagingEmail | MessagingEmailPerIP
  | MessagingEmailPerTarget | PresignImageUploadRequestPerUser | OAuthTokenPerIP
  | OAuthTokenPerUser | OAuthTokenClientCredentialsPerClient
  | OAuthTokenClientCredentialsPerProject | OtherBucket string

primrec RateLimitGroup_string :: "RateLimitGroup \<Rightarrow> string" where
  "RateLimitGroup_string RateLimitGroupAuthenticationGeneral = ''authentication.general''"
| "RateLimitGroup_string RateLimitGroupAuthenticationPassword = ''authentication.password''"
| "RateLimitGroup_string RateLimitGroupAuthenticationOOBOTPEmailTrigger = ''authentication.oob_otp.email.trigger''"
| "RateLimitGroup_string RateLimitGroupAuthenticationOOBOTPEmailValidate = ''authentication.oob_otp.email.validate''"
| "RateLimitGroup_string RateLimitGroupAuthenticationOOBOTPSMSTrigger = ''authentication.oob_otp.sms.trigger''"
| "RateLimitGroup_string RateLimitGroupAuthenticationOOBOTPSMSValidate = ''authentication.oob_otp.sms.validate''"
| "RateLimitGroup_string RateLimitGroupAuthenticationTOTP = ''authentication.totp''"
| "RateLimitGroup_string RateLimitGroupAuthenticationRecoveryCode = ''authentication.recovery_code''"
| "RateLimitGroup_string RateLimitGroupAuthenticationDeviceToken = ''authentication.device_token''"
| "RateLimitGroup_string RateLimitGroupAuthenticationPasskey = ''authentication.passkey''"
| "RateLimitGroup_string RateLimitGroupAuthenticationSIWE = ''authentication.siwe''"
| "RateLimitGroup_string RateLimitGroupAuthenticationSignup = ''authentication.signup''"
| "RateLimitGroup_string RateLimitGroupAuthenticationSignupAnonymous = ''authentication.signup_anonymous''"
| "RateLimitGroup_string RateLimitGroupAuthenticationAccountEnumeration = ''authentication.account_enumeration''"
| "RateLimitGroup_string RateLimitGroupVerificationEmailTrigger = ''verification.email.trigger''"
| "RateLimitGroup_string RateLimitGroupVerificationEmailValidate = ''verification.email.validate''"
| "RateLimitGroup_string RateLimitGroupVerificationSMSTrigger = ''verification.sms.trigger''"
| "RateLimitGroup_string RateLimitGroupVerificationSMSValidate = ''verification.sms.validate''"
| "RateLimitGroup_string RateLimitGroupForgotPasswordEmailTrigger = ''forgot_password.email.trigger''"
| "RateLimitGroup_string RateLimitGroupForgotPasswordEmailValidate = ''forgot_password.email.validate''"
| "RateLimitGroup_string RateLimitGroupForgotPasswordSMSTrigger = ''forgot_password.sms.trigger''"
| "RateLimitGroup_string RateLimitGroupForgotPasswordSMSValidate = ''forgot_password.sms.validate''"
| "RateLimitGroup_string RateLimitGroupMessagingSMS = ''messaging.sms''"
| "RateLimitGroup_string RateLimitGroupMessagingEmail = ''messaging.email''"
| "RateLimitGroup_string RateLimitGroupOAuthTokenGeneral = ''oauth.token.general''"
| "RateLimitGroup_string RateLimitGroupOAuthTokenClientCredentials = ''oauth.token.client_credentials''"
| "RateLimitGroup_string RateLimitGroupUnspecified = ''''"

primrec RateLimitName_string :: "RateLimitName \<Rightarrow> string" where
  "RateLimitName_string RateLimitAuthenticationPasswordPerIP = ''authentication.password.per_ip''"
| "RateLimitName_string RateLimitAuthenticationPasswordPerUserPerIP = ''authentication.password.per_user_per_ip''"
| "RateLimitName_string RateLimitAuthenticationOOBOTPEmailTriggerPerIP = ''authentication.oob_otp.email.trigger.per_ip''"
| "RateLimitName_string RateLimitAuthenticationOOBOTPEmailTriggerPerUser = ''authentication.oob_otp.email.trigger.per_user''"
| "RateLimitName_string RateLimitAuthenticationOOBOTPEmailValidatePerIP = ''authentication.oob_otp.email.validate.per_ip''"
| "RateLimitName_string RateLimitAuthenticationOOBOTPEmailValidatePerUserPerIP = ''authentication.oob_otp.email.validate.per_user_per_ip''"
| "RateLimitName_string RateLimitAuthenticationOOBOTPSMSTriggerPerIP = ''authentication.oob_otp.sms.trigger.per_ip''"
| "RateLimitName_string RateLimitAuthenticationOOBOTPSMSTriggerPerUser = ''authentication.oob_otp.sms.trigger.per_user''"
| "RateLimitName_string RateLimitAuthenticationOOBOTPSMSValidatePerIP = ''authentication.oob_otp.sms.validate.per_ip''"
| "RateLimitName_string RateLimitAuthenticationOOBOTPSMSValidatePerUserPerIP = ''authentication.oob_otp.sms.validate.per_user_per_ip''"
| "RateLimitName_string RateLimitAuthenticationTOTPPerIP = ''authentication.totp.per_ip''"
| "RateLimitName_string RateLimitAuthenticationTOTPPerUserPerIP = ''authentication.totp.per_user_per_ip''"
| "RateLimitName_string RateLimitAuthenticationRecoveryCodePerIP = ''authentication.recovery_code.per_ip''"
| "RateLimitName_string RateLimitAuthenticationRecoveryCodePerUserPerIP = ''authentication.recovery_code.per_user_per_ip''"
| "RateLimitName_string RateLimitAuthenticationDeviceTokenPerIP = ''authentication.device_token.per_ip''"
| "RateLimitName_string RateLimitAuthenticationDeviceTokenPerUserPerIP = ''authentication.device_token.per_user_per_ip''"
| "RateLimitName_string RateLimitAuthenticationPasskeyPerIP = ''authentication.passkey.per_ip''"
| "RateLimitName_string RateLimitAuthenticationSIWEPerIP = ''authentication.siwe.per_ip''"
| "RateLimitName_string RateLimitAuthenticationSignupPerIP = ''authentication.signup.per_ip''"
| "RateLimitName_string RateLimitAuthenticationSignupAnonymousPerIP = ''authentication.signup_anonymous.per_ip''"
| "RateLimitName_string RateLimitAuthenticationAccountEnumerationPerIP = ''authentication.account_enumeration.per_ip''"
| "RateLimitName_string RateLimitVerificationEmailTriggerPerIP = ''verification.email.trigger.per_ip''"
| "RateLimitName_string RateLimitVerificationEmailTriggerPerUser = ''verification.email.trigger.per_user''"
| "RateLimitName_string RateLimitVerificationEmailValidatePerIP = ''verification.email.validate.per_ip''"
| "RateLimitName_string RateLimitVerificationSMSTriggerPerIP = ''verification.sms.trigger.per_ip''"
| "RateLimitName_string RateLimitVerificationSMSTriggerPerUser = ''verification.sms.trigger.per_user''"
| "RateLimitName_string RateLimitVerificationSMSValidatePerIP = ''verification.sms.validate.per_ip''"
| "RateLimitName_string RateLimitForgotPasswordEmailTriggerPerIP = ''forgot_password.email.trigger.per_ip''"
| "RateLimitName_string RateLimitForgotPasswordEmailValidatePerIP = ''forgot_password.email.validate.per_ip''"
| "RateLimitName_string RateLimitForgotPasswordSMSTriggerPerIP = ''forgot_password.sms.trigger.per_ip''"
| "RateLimitName_string RateLimitForgotPasswordSMSValidatePerIP = ''forgot_password.sms.validate.per_ip''"
| "RateLimitName_string RateLimitMessagingSMSPerIP = ''messaging.sms.per_ip''"
| "RateLimitName_string RateLimitMessagingSMSPerTarget = ''messaging.sms.per_target''"
| "RateLimitName_string RateLimitMessagingEmailPerIP = ''messaging.email.per_ip''"
| "RateLimitName_string RateLimitMessagingEmailPerTarget = ''messaging.email.per_target''"
| "RateLimitName_string RateLimitMessagingSMSPerProject = ''messaging.sms.per_project''"
| "RateLimitName_string RateLimitMessagingEmailPerProject = ''messaging.email.per_project''"
| "RateLimitName_string RateLimitGlobalMessagingSMS = ''global.messaging.sms''"
| "RateLimitName_string RateLimitGlobalMessagingSMSPerIP = ''global.messaging.sms.per_ip''"
| "RateLimitName_string RateLimitGlobalMessagingSMSPerTarget = ''global.messaging.sms.per_target''"
| "RateLimitName_string RateLimitGlobalMessagingEmail = ''global.messaging.email''"
| "RateLimitName_string RateLimitGlobalMessagingEmailPerIP = ''global.messaging.email.per_ip''"
| "RateLimitName_string RateLimitGlobalMessagingEmailPerTarget = ''global.messaging.email.per_target''"
| "RateLimitName_string RateLimitOAuthTokenClientCredentialsPerClient = ''oauth.token.client_credentials.per_client''"
| "RateLimitName_string RateLimitOAuthTokenClientCredentialsPerProject = ''oauth.token.client_credentials.per_project''"
| "RateLimitName_string RateLimitOAuthTokenGeneralPerIP = ''oauth.token.general.per_ip''"
| "RateLimitName_string RateLimitOAuthTokenGeneralPerUser = ''oauth.token.general.per_user''"
| "RateLimitName_string RateLimitNameUnspecified = ''''"

primrec BucketName_string :: "BucketName \<Rightarrow> string" where
  "BucketName_string SignupAnonymousPerIP = ''SignupAnonymousPerIP''"
| "BucketName_string SignupPerIP = ''SignupPerIP''"
| "BucketName_string AccountEnumerationPerIP = ''AccountEnumerationPerIP''"
| "BucketName_string OOBOTPTriggerEmailPerIP = ''OOBOTPTriggerEmailPerIP''"
| "BucketName_string OOBOTPTriggerSMSPerIP = ''OOBOTPTriggerSMSPerIP''"
| "BucketName_string OOBOTPTriggerWhatsappPerIP = ''OOBOTPTriggerWhatsappPerIP''"
| "BucketName_string OOBOTPTriggerEmailPerUser = ''OOBOTPTriggerEmailPerUser''"
| "BucketName_string OOBOTPTriggerSMSPerUser = ''OOBOTPTriggerSMSPerUser''"
| "BucketName_string OOBOTPTriggerWhatsappPerUser = ''OOBOTPTriggerWhatsappPerUser''"
| "BucketName_string OOBOTPCooldownEmail = ''OOBOTPCooldownEmail''"
| "BucketName_string OOBOTPCooldownSMS = ''OOBOTPCooldownSMS''"
| "BucketName_string OOBOTPCooldownWhatsapp = ''OOBOTPCooldownWhatsapp''"
| "BucketName_string OOBOTPCooldownEmailPerSession = ''OOBOTPCooldownEmailPerSession''"
| "BucketName_string OOBOTPCooldownSMSPerSession = ''OOBOTPCooldownSMSPerSession''"
| "BucketName_string OOBOTPCooldownWhatsappPerSession = ''OOBOTPCooldownWhatsappPerSession''"
| "BucketName_string OOBOTPValidateEmailPerIP = ''OOBOTPValidateEmailPerIP''"
| "BucketName_string OOBOTPValidateSMSPerIP = ''OOBOTPValidateSMSPerIP''"
| "BucketName_string OOBOTPValidateWhatsappPerIP = ''OOBOTPValidateWhatsappPerIP''"
| "BucketName_string OOBOTPValidateEmailPerUserPerIP = ''OOBOTPValidateEmailPerUserPerIP''"
| "BucketName_string OOBOTPValidateSMSPerUserPerIP = ''OOBOTPValidateSMSPerUserPerIP''"
| "BucketName_string OOBOTPValidateWhatsappPerUserPerIP = ''OOBOTPValidateWhatsappPerUserPerIP''"
| "BucketName_string VerificationTriggerEmailPerIP = ''VerificationTriggerEmailPerIP''"
| "BucketName_string VerificationTriggerSMSPerIP = ''VerificationTriggerSMSPerIP''"
| "BucketName_string VerificationTriggerWhatsappPerIP = ''VerificationTriggerWhatsappPerIP''"
| "BucketName_string VerificationTriggerEmailPerUser = ''VerificationTriggerEmailPerUser''"
| "BucketName_string VerificationTriggerSMSPerUser = ''VerificationTriggerSMSPerUser''"
| "BucketName_string VerificationTriggerWhatsappPerUser = ''VerificationTriggerWhatsappPerUser''"
| "BucketName_string VerificationCooldownEmail = ''VerificationCooldownEmail''"
| "BucketName_string VerificationCooldownSMS = ''VerificationCooldownSMS''"
| "BucketName_string VerificationCooldownWhatsapp = ''VerificationCooldownWhatsapp''"
| "BucketName_string VerificationCooldownEmailPerSession = ''VerificationCooldownEmailPerSession''"
| "BucketName_string VerificationCooldownSMSPerSession = ''VerificationCooldownSMSPerSession''"
| "BucketName_string VerificationCooldownWhatsappPerSession = ''VerificationCooldownWhatsappPerSession''"
| "BucketName_string VerificationValidateEmailPerIP = ''VerificationValidateEmailPerIP''"
| "BucketName_string VerificationValidateSMSPerIP = ''VerificationValidateSMSPerIP''"
| "BucketName_string VerificationValidateWhatsappPerIP = ''VerificationValidateWhatsappPerIP''"
| "BucketName_string VerifyPasswordPerIP = ''VerifyPasswordPerIP''"
| "BucketName_string VerifyPasswordPerUserPerIP = ''VerifyPasswordPerUserPerIP''"
| "BucketName_string VerifyTOTPPerIP = ''VerifyTOTPPerIP''"
| "BucketName_string VerifyTOTPPerUserPerIP = ''VerifyTOTPPerUserPerIP''"
| "BucketName_string VerifyPasskeyPerIP = ''VerifyPasskeyPerIP''"
| "BucketName_string VerifyRecoveryCodePerIP = ''VerifyRecoveryCodePerIP''"
| "BucketName_string VerifyRecoveryCodePerUserPerIP = ''VerifyRecoveryCodePerUserPerIP''"
| "BucketName_string VerifyDeviceTokenPerIP = ''VerifyDeviceTokenPerIP''"
| "BucketName_string VerifyDeviceTokenPerUserPerIP = ''VerifyDeviceTokenPerUserPerIP''"
| "BucketName_string VerifySIWEPerIP = ''VerifySIWEPerIP''"
| "BucketName_string ForgotPasswordTriggerEmailPerIP = ''ForgotPasswordTriggerEmailPerIP''"
| "BucketName_string ForgotPasswordTriggerSMSPerIP = ''ForgotPasswordTriggerSMSPerIP''"
| "BucketName_string ForgotPasswordTriggerWhatsappPerIP = ''ForgotPasswordTriggerWhatsappPerIP''"
| "BucketName_string ForgotPasswordValidateEmailPerIP = ''ForgotPasswordValidateEmailPerIP''"
| "BucketName_string ForgotPasswordValidateSMSPerIP = ''ForgotPasswordValidateSMSPerIP''"
| "BucketName_string ForgotPasswordValidateWhatsappPerIP = ''ForgotPasswordValidateWhatsappPerIP''"
| "BucketName_string ForgotPasswordCooldownEmail = ''ForgotPasswordCooldownEmail''"
| "BucketName_string ForgotPasswordCooldownSMS = ''ForgotPasswordCooldownSMS''"
| "BucketName_string ForgotPasswordCooldownWhatsapp = ''ForgotPasswordCooldownWhatsapp''"
| "BucketName_string ForgotPasswordCooldownEmailPerSession = ''ForgotPasswordCooldownEmailPerSession''"
| "BucketName_string ForgotPasswordCooldownSMSPerSession = ''ForgotPasswordCooldownSMSPerSession''"
| "BucketName_string ForgotPasswordCooldownWhatsappPerSession = ''ForgotPasswordCooldownWhatsappPerSession''"
| "BucketName_string MessagingSMS = ''MessagingSMS''"
| "BucketName_string MessagingSMSPerIP = ''MessagingSMSPerIP''"
| "BucketName_string MessagingSMSPerTarget = ''MessagingSMSPerTarget''"
| "BucketName_string MessagingEmail = ''MessagingEmail''"
| "BucketName_string MessagingEmailPerIP = ''MessagingEmailPerIP''"
| "BucketName_string MessagingEmailPerTarget = ''MessagingEmailPerTarget''"
| "BucketName_string PresignImageUploadRequestPerUser = ''PresignImageUploadRequestPerUser''"
| "BucketName_string OAuthTokenPerIP = ''OAuthTokenPerIP''"
| "BucketName_string OAuthTokenPerUser = ''OAuthTokenPerUser''"
| "BucketName_string OAuthTokenClientCredentialsPerClient = ''OAuthTokenClientCredentialsPerClient''"
| "BucketName_string OAuthTokenClientCredentialsPerProject = ''OAuthTokenClientCredentialsPerProject''"
| "BucketName_string (OtherBucket s) = s"

section \<open>Configuration\<close>

datatype (plugins only: code extraction) config_path =
    Cfg_Authentication_General_PerIP | Cfg_Authentication_Password_PerIP
  | Cfg_Authentication_OOBOTP_Email_TriggerPerIP | Cfg_Authentication_OOBOTP_Email_ValidatePerIP
  | Cfg_Authentication_OOBOTP_SMS_TriggerPerIP | Cfg_Authentication_OOBOTP_SMS_ValidatePerIP
  | Cfg_Authentication_TOTP_PerIP | Cfg_Authentication_RecoveryCode_PerIP
  | Cfg_Authentication_DeviceToken_PerIP | Cfg_Authentication_Passkey_PerIP
  | Cfg_Authentication_SIWE_PerIP | Cfg_Authentication_Signup_PerIP
  | Cfg_Authentication_SignupAnonymous_PerIP | Cfg_Authentication_AccountEnumeration_PerIP
  | Cfg_Verification_Email_TriggerPerIP | Cfg_Verification_Email_ValidatePerIP
  | Cfg_Verification_SMS_TriggerPerIP | Cfg_Verification_SMS_ValidatePerIP
  | Cfg_ForgotPassword_Email_TriggerPerIP | Cfg_ForgotPassword_Email_ValidatePerIP
  | Cfg_ForgotPassword_SMS_TriggerPerIP | Cfg_ForgotPassword_SMS_ValidatePerIP
  | Cfg_Messaging_SMSPerIP | Cfg_Messaging_EmailPerIP
  | Cfg_Authentication_OOBOTP_Email_TriggerPerUser | Cfg_Authentication_OOBOTP_SMS_TriggerPerUser
  | Cfg_Verification_Email_TriggerPerUser | Cfg_Verification_SMS_TriggerPerUser
  | Cfg_Messaging_EmailPerTarget | Cfg_Messaging_SMSPerTarget
  | Cfg_Authentication_General_PerUserPerIP | Cfg_Authentication_Password_PerUserPerIP
  | Cfg_Authentication_OOBOTP_Email_ValidatePerUserPerIP
  | Cfg_Authentication_OOBOTP_SMS_ValidatePerUserPerIP | Cfg_Authentication_TOTP_PerUserPerIP
  | Cfg_Authentication_RecoveryCode_PerUserPerIP | Cfg_Authentication_DeviceToken_PerUserPerIP
  | Cfg_Messaging_SMS | Cfg_Messaging_Email

datatype feature_path =
    Feature_Messaging_SMSPerIP | Feature_Messaging_EmailPerIP | Feature_Messaging_EmailPerTarget
  | Feature_Messaging_SMSPerTarget | Feature_Messaging_SMS | Feature_Messaging_Email

datatype global_path =
    Global_SMS | Global_SMSPerIP | Global_SMSPerTarget | Global_Email | Global_EmailPerIP
  | Global_EmailPerTarget

datatype AuthenticatorOOBChannel = ChannelEmail | ChannelSMS | ChannelWhatsapp | ChannelOther string

record RateLimitConfig =
  rl_Enabled :: "bool option"
  rl_Period :: duration
  rl_Burst :: int

type_synonym app_config = "config_path \<Rightarrow> RateLimitConfig"
type_synonym feature_config = "feature_path \<Rightarrow> RateLimitConfig option"

record RateLimitsEnvironmentConfigEntry =
  env_Enabled :: bool
  env_Period :: duration
  env_Burst :: int

type_synonym env_config = "global_path \<Rightarrow> RateLimitsEnvironmentConfigEntry"

text \<open>A quotient of doubles: a number, an infinity, or NaN; \<open><\<close> is false on NaN.\<close>

datatype go_float = Fin rat | PosInf | NegInf | NaN

fun float_less :: "go_float \<Rightarrow> go_float \<Rightarrow> bool" where
  "float_less NaN y = False"
| "float_less x NaN = False"
| "float_less PosInf y = False"
| "float_less x NegInf = False"
| "float_less NegInf y = True"
| "float_less x PosInf = True"
| "float_less (Fin x) (Fin y) = (x < y)"

definition float_div :: "int \<Rightarrow> rat \<Rightarrow> go_float" where
  "float_div a b = (if b = 0 then (if a > 0 then PosInf else if a < 0 then NegInf else NaN)
     else Fin (of_int a / b))"

definition IsEnabled :: "RateLimitConfig \<Rightarrow> bool" where
  "IsEnabled c = (if rl_Enabled c = None \<or> rl_Enabled c \<noteq> Some True then False else True)"

definition SetDefaults :: "RateLimitConfig \<Rightarrow> RateLimitConfig" where
  "SetDefaults c = (if rl_Enabled c \<noteq> None \<and> rl_Enabled c = Some True \<and> rl_Burst c = 0
     then c\<lparr>rl_Burst := 1\<rparr> else c)"

definition Rate :: "RateLimitConfig \<Rightarrow> go_float" where
  "Rate c = (if \<not> IsEnabled c then PosInf
     else float_div (rl_Burst c) (of_int (rl_Period c) / 1000000000))"

definition resolveConfig ::
    "RateLimitConfig \<Rightarrow> RateLimitConfig option \<Rightarrow> RateLimitConfig option \<Rightarrow> RateLimitConfig" where
  "resolveConfig c fallback featureConfig = (let
     effective = (case fallback of Some f \<Rightarrow> if rl_Enabled c = None then f else c | None \<Rightarrow> c)
   in case featureConfig of
        Some f \<Rightarrow> if float_less (Rate f) (Rate c) then f else effective
      | None \<Rightarrow> effective)"

fun resolvePerIP :: "RateLimitGroup \<Rightarrow> app_config \<Rightarrow> feature_config \<Rightarrow> RateLimitConfig option" where
  "resolvePerIP RateLimitGroupAuthenticationGeneral cfg fcfg =
     Some (resolveConfig (cfg Cfg_Authentication_General_PerIP) None None)"
| "resolvePerIP RateLimitGroupAuthenticationPassword cfg fcfg =
     Some (resolveConfig (cfg Cfg_Authentication_Password_PerIP) (Some (cfg Cfg_Authentication_General_PerIP)) None)"
| "resolvePerIP RateLimitGroupAuthenticationOOBOTPEmailTrigger cfg fcfg =
     Some (resolveConfig (cfg Cfg_Authentication_OOBOTP_Email_TriggerPerIP) None None)"
| "resolvePerIP RateLimitGroupAuthenticationOOBOTPEmailValidate cfg fcfg =
     Some (resolveConfig (cfg Cfg_Authentication_OOBOTP_Email_ValidatePerIP) (Some (cfg Cfg_Authentication_General_PerIP)) None)"
| "resolvePerIP RateLimitGroupAuthenticationOOBOTPSMSTrigger cfg fcfg =
     Some (resolveConfig (cfg Cfg_Authentication_OOBOTP_SMS_TriggerPerIP) None None)"
| "resolvePerIP RateLimitGroupAuthenticationOOBOTPSMSValidate cfg fcfg =
     Some (resolveConfig (cfg Cfg_Authentication_OOBOTP_SMS_ValidatePerIP) (Some (cfg Cfg_Authentication_General_PerIP)) None)"
| "resolvePerIP RateLimitGroupAuthenticationTOTP cfg fcfg =
     Some (resolveConfig (cfg Cfg_Authentication_TOTP_PerIP) (Some (cfg Cfg_Authentication_General_PerIP)) None)"
| "resolvePerIP RateLimitGroupAuthenticationRecoveryCode cfg fcfg =
     Some (resolveConfig (cfg Cfg_Authentication_RecoveryCode_PerIP) (Some (cfg Cfg_Authentication_General_PerIP)) None)"
| "resolvePerIP RateLimitGroupAuthenticationDeviceToken cfg fcfg =
     Some (resolveConfig (cfg Cfg_Authentication_DeviceToken_PerIP) (Some (cfg Cfg_Authentication_General_PerIP)) None)"
| "resolvePerIP RateLimitGroupAuthenticationPasskey cfg fcfg =
     Some (resolveConfig (cfg Cfg_Authentication_Passkey_PerIP) (Some (cfg Cfg_Authentication_General_PerIP)) None)"
| "resolvePerIP RateLimitGroupAuthenticationSIWE cfg fcfg =
     Some (resolveConfig (cfg Cfg_Authentication_SIWE_PerIP) (Some (cfg Cfg_Authentication_General_PerIP)) None)"
| "resolvePerIP RateLimitGroupAuthenticationSignup cfg fcfg =
     Some (resolveConfig (cfg Cfg_Authentication_Signup_PerIP) None None)"
| "resolvePerIP RateLimitGroupAuthenticationSignupAnonymous cfg fcfg =
     Some (resolveConfig (cfg Cfg_Authentication_SignupAnonymous_PerIP) None None)"
| "resolvePerIP RateLimitGroupAuthenticationAccountEnumeration cfg fcfg =
     Some (resolveConfig (cfg Cfg_Authentication_AccountEnumeration_PerIP) None None)"
| "resolvePerIP RateLimitGroupVerificationEmailTrigger cfg fcfg =
     Some (resolveConfig (cfg Cfg_Verification_Email_TriggerPerIP) None None)"
| "resolvePerIP RateLimitGroupVerificationEmailValidate cfg fcfg =
     Some (resolveConfig (cfg Cfg_Verification_Email_ValidatePerIP) None None)"
| "resolvePerIP RateLimitGroupVerificationSMSTrigger cfg fcfg =
     Some (resolveConfig (cfg Cfg_Verification_SMS_TriggerPerIP) None None)"
| "resolvePerIP RateLimitGroupVerificationSMSValidate cfg fcfg =
     Some (resolveConfig (cfg Cfg_Verification_SMS_ValidatePerIP) None None)"
| "resolvePerIP RateLimitGroupForgotPasswordEmailTrigger cfg fcfg =
     Some (resolveConfig (cfg Cfg_ForgotPassword_Email_TriggerPerIP) None None)"
| "resolvePerIP RateLimitGroupForgotPasswordEmailValidate cfg fcfg =
     Some (resolveConfig (cfg Cfg_ForgotPassword_Email_ValidatePerIP) None None)"
| "resolvePerIP RateLimitGroupForgotPasswordSMSTrigger cfg fcfg =
     Some (resolveConfig (cfg Cfg_ForgotPassword_SMS_TriggerPerIP) None None)"
| "resolvePerIP RateLimitGroupForgotPasswordSMSValidate cfg fcfg =
     Some (resolveConfig (cfg Cfg_ForgotPassword_SMS_ValidatePerIP) None None)"
| "resolvePerIP RateLimitGroupMessagingSMS cfg fcfg =
     Some (resolveConfig (cfg Cfg_Messaging_SMSPerIP) None (fcfg Feature_Messaging_SMSPerIP))"
| "resolvePerIP RateLimitGroupMessagingEmail cfg fcfg =
     Some (resolveConfig (cfg Cfg_Messaging_EmailPerIP) None (fcfg Feature_Messaging_EmailPerIP))"
| "resolvePerIP _ cfg fcfg = None"

fun resolvePerUser :: "RateLimitGroup \<Rightarrow> app_config \<Rightarrow> RateLimitConfig option" where
  "resolvePerUser RateLimitGroupAuthenticationOOBOTPEmailTrigger cfg =
     Some (resolveConfig (cfg Cfg_Authentication_OOBOTP_Email_TriggerPerUser) None None)"
| "resolvePerUser RateLimitGroupAuthenticationOOBOTPSMSTrigger cfg =
     Some (resolveConfig (cfg Cfg_Authentication_OOBOTP_SMS_TriggerPerUser) None None)"
| "resolvePerUser RateLimitGroupVerificationEmailTrigger cfg =
     Some (resolveConfig (cfg Cfg_Verification_Email_TriggerPerUser) None None)"
| "resolvePerUser RateLimitGroupVerificationSMSTrigger cfg =
     Some (resolveConfig (cfg Cfg_Verification_SMS_TriggerPerUser) None None)"
| "resolvePerUser _ cfg = None"

fun resolvePerTarget :: "RateLimitGroup \<Rightarrow> app_config \<Rightarrow> feature_config \<Rightarrow> RateLimitConfig option" where
  "resolvePerTarget RateLimitGroupMessagingEmail cfg fcfg =
     Some (resolveConfig (cfg Cfg_Messaging_EmailPerTarget) None (fcfg Feature_Messaging_EmailPerTarget))"
| "resolvePerTarget RateLimitGroupMessagingSMS cfg fcfg =
     Some (resolveConfig (cfg Cfg_Messaging_SMSPerTarget) None (fcfg Feature_Messaging_SMSPerTarget))"
| "resolvePerTarget _ cfg fcfg = None"

fun resolvePerUserPerIP :: "RateLimitGroup \<Rightarrow> app_config \<Rightarrow> RateLimitConfig option" where
  "resolvePerUserPerIP RateLimitGroupAuthenticationGeneral cfg =
     Some (resolveConfig (cfg Cfg_Authentication_General_PerUserPerIP) None None)"
| "resolvePerUserPerIP RateLimitGroupAuthenticationPassword cfg =
     Some (resolveConfig (cfg Cfg_Authentication_Password_PerUserPerIP) (Some (cfg Cfg_Authentication_General_PerUserPerIP)) None)"
| "resolvePerUserPerIP RateLimitGroupAuthenticationOOBOTPEmailValidate cfg =
     Some (resolveConfig (cfg Cfg_Authentication_OOBOTP_Email_ValidatePerUserPerIP) (Some (cfg Cfg_Authentication_General_PerUserPerIP)) None)"
| "resolvePerUserPerIP RateLimitGroupAuthenticationOOBOTPSMSValidate cfg =
     Some (resolveConfig (cfg Cfg_Authentication_OOBOTP_SMS_ValidatePerUserPerIP) (Some (cfg Cfg_Authentication_General_PerUserPerIP)) None)"
| "resolvePerUserPerIP RateLimitGroupAuthenticationTOTP cfg =
     Some (resolveConfig (cfg Cfg_Authentication_TOTP_PerUserPerIP) (Some (cfg Cfg_Authentication_General_PerUserPerIP)) None)"
| "resolvePerUserPerIP RateLimitGroupAuthenticationRecoveryCode cfg =
     Some (resolveConfig (cfg Cfg_Authentication_RecoveryCode_PerUserPerIP) (Some (cfg Cfg_Authentication_General_PerUserPerIP)) None)"
| "resolvePerUserPerIP RateLimitGroupAuthenticationDeviceToken cfg =
     Some (resolveConfig (cfg Cfg_Authentication_DeviceToken_PerUserPerIP) (Some (cfg Cfg_Authentication_General_PerUserPerIP)) None)"
| "resolvePerUserPerIP _ cfg = None"

definition oneMinute :: duration where
  "oneMinute = 60000000000"

fun resolvePerProject :: "RateLimitGroup \<Rightarrow> RateLimitConfig option" where
  "resolvePerProject RateLimitGroupOAuthTokenClientCredentials =
     Some (resolveConfig \<lparr>rl_Enabled = Some True, rl_Period = oneMinute, rl_Burst = 20\<rparr> None None)"
| "resolvePerProject _ = None"

fun resolvePerClient :: "RateLimitGroup \<Rightarrow> RateLimitConfig option" where
  "resolvePerClient RateLimitGroupOAuthTokenClientCredentials =
     Some (resolveConfig \<lparr>rl_Enabled = Some True, rl_Period = oneMinute, rl_Burst = 5\<rparr> None None)"
| "resolvePerClient _ = None"

fun perIPName :: "RateLimitGroup \<Rightarrow> RateLimitName" where
  "perIPName RateLimitGroupAuthenticationPassword = RateLimitAuthenticationPasswordPerIP"
| "perIPName RateLimitGroupAuthenticationOOBOTPEmailTrigger = RateLimitAuthenticationOOBOTPEmailTriggerPerIP"
| "perIPName RateLimitGroupAuthenticationOOBOTPEmailValidate = RateLimitAuthenticationOOBOTPEmailValidatePerIP"
| "perIPName RateLimitGroupAuthenticationOOBOTPSMSTrigger = RateLimitAuthenticationOOBOTPSMSTriggerPerIP"
| "perIPName RateLimitGroupAuthenticationOOBOTPSMSValidate = RateLimitAuthenticationOOBOTPSMSValidatePerIP"
| "perIPName RateLimitGroupAuthenticationTOTP = RateLimitAuthenticationTOTPPerIP"
| "perIPName RateLimitGroupAuthenticationRecoveryCode = RateLimitAuthenticationRecoveryCodePerIP"
| "perIPName RateLimitGroupAuthenticationDeviceToken = RateLimitAuthenticationDeviceTokenPerIP"
| "perIPName RateLimitGroupAuthenticationPasskey = RateLimitAuthenticationPasskeyPerIP"
| "perIPName RateLimitGroupAuthenticationSIWE = RateLimitAuthenticationSIWEPerIP"
| "perIPName RateLimitGroupAuthenticationSignup = RateLimitAuthenticationSignupPerIP"
| "perIPName RateLimitGroupAuthenticationSignupAnonymous = RateLimitAuthenticationSignupAnonymousPerIP"
| "perIPName RateLimitGroupAuthenticationAccountEnumeration = RateLimitAuthenticationAccountEnumerationPerIP"
| "perIPName RateLimitGroupVerificationEmailTrigger = RateLimitVerificationEmailTriggerPerIP"
| "perIPName RateLimitGroupVerificationEmailValidate = RateLimitVerificationEmailValidatePerIP"
| "perIPName RateLimitGroupVerificationSMSTrigger = RateLimitVerificationSMSTriggerPerIP"
| "perIPName RateLimitGroupVerificationSMSValidate = RateLimitVerificationSMSValidatePerIP"
| "perIPName RateLimitGroupForgotPasswordEmailTrigger = RateLimitForgotPasswordEmailTriggerPerIP"
| "perIPName RateLimitGroupForgotPasswordEmailValidate = RateLimitForgotPasswordEmailValidatePerIP"
| "perIPName RateLimitGroupForgotPasswordSMSTrigger = RateLimitForgotPasswordSMSTriggerPerIP"
| "perIPName RateLimitGroupForgotPasswordSMSValidate = RateLimitForgotPasswordSMSValidatePerIP"
| "perIPName RateLimitGroupMessagingSMS = RateLimitMessagingSMSPerIP"
| "perIPName RateLimitGroupMessagingEmail = RateLimitMessagingEmailPerIP"
| "perIPName RateLimitGroupOAuthTokenGeneral = RateLimitOAuthTokenGeneralPerIP"
| "perIPName _ = RateLimitNameUnspecified"

fun perUserName :: "RateLimitGroup \<Rightarrow> RateLimitName" where
  "perUserName RateLimitGroupAuthenticationOOBOTPEmailTrigger = RateLimitAuthenticationOOBOTPEmailTriggerPerUser"
| "perUserName RateLimitGroupAuthenticationOOBOTPSMSTrigger = RateLimitAuthenticationOOBOTPSMSTriggerPerUser"
| "perUserName RateLimitGroupVerificationEmailTrigger = RateLimitVerificationEmailTriggerPerUser"
| "perUserName RateLimitGroupVerificationSMSTrigger = RateLimitVerificationSMSTriggerPerUser"
| "perUserName _ = RateLimitNameUnspecified"

fun perUserPerIPName :: "RateLimitGroup \<Rightarrow> RateLimitName" where
  "perUserPerIPName RateLimitGroupAuthenticationPassword = RateLimitAuthenticationPasswordPerUserPerIP"
| "perUserPerIPName RateLimitGroupAuthenticationOOBOTPEmailValidate = RateLimitAuthenticationOOBOTPEmailValidatePerUserPerIP"
| "perUserPerIPName RateLimitGroupAuthenticationOOBOTPSMSValidate = RateLimitAuthenticationOOBOTPSMSValidatePerUserPerIP"
| "perUserPerIPName RateLimitGroupAuthenticationTOTP = RateLimitAuthenticationTOTPPerUserPerIP"
| "perUserPerIPName RateLimitGroupAuthenticationRecoveryCode = RateLimitAuthenticationRecoveryCodePerUserPerIP"
| "perUserPerIPName RateLimitGroupAuthenticationDeviceToken = RateLimitAuthenticationDeviceTokenPerUserPerIP"
| "perUserPerIPName _ = RateLimitNameUnspecified"

fun perTargetName :: "RateLimitGroup \<Rightarrow> RateLimitName" where
  "perTargetName RateLimitGroupMessagingEmail = RateLimitMessagingEmailPerTarget"
| "perTargetName RateLimitGroupMessagingSMS = RateLimitMessagingSMSPerTarget"
| "perTargetName _ = RateLimitNameUnspecified"

fun perClientName :: "RateLimitGroup \<Rightarrow> RateLimitName" where
  "perClientName RateLimitGroupOAuthTokenClientCredentials = RateLimitOAuthTokenClientCredentialsPerClient"
| "perClientName _ = RateLimitNameUnspecified"

fun perProjectName :: "RateLimitGroup \<Rightarrow> RateLimitName" where
  "perProjectName RateLimitGroupOAuthTokenClientCredentials = RateLimitOAuthTokenClientCredentialsPerProject"
| "perProjectName RateLimitGroupMessagingSMS = RateLimitMessagingSMSPerProject"
| "perProjectName RateLimitGroupMessagingEmail = RateLimitMessagingEmailPerProject"
| "perProjectName _ = RateLimitNameUnspecified"

section \<open>Buckets\<close>

text \<open>The zero value of \<^verbatim>\<open>Name\<close> in \<^verbatim>\<open>BucketSpecDisabled\<close> is the empty string.\<close>

record BucketSpec =
  Name :: BucketName
  spec_RateLimitName :: RateLimitName
  spec_RateLimitGroup :: RateLimitGroup
  Arguments :: "string list"
  IsGlobal :: bool
  Enabled :: bool
  Period :: duration
  Burst :: int

definition BucketSpecDisabled :: BucketSpec where
  "BucketSpecDisabled = \<lparr>Name = OtherBucket '''', spec_RateLimitName = RateLimitNameUnspecified,
     spec_RateLimitGroup = RateLimitGroupUnspecified, Arguments = [], IsGlobal = False,
     Enabled = False, Period = 0, Burst = 0\<rparr>"

definition NewBucketSpec ::
    "RateLimitName \<Rightarrow> RateLimitGroup \<Rightarrow> RateLimitConfig \<Rightarrow> BucketName \<Rightarrow> string list \<Rightarrow> BucketSpec" where
  "NewBucketSpec rl rlGroup config name args = (let enabled = IsEnabled config in
     \<lparr>Name = name, spec_RateLimitName = rl, spec_RateLimitGroup = rlGroup, Arguments = args,
      IsGlobal = False, Enabled = enabled, Period = (if enabled then rl_Period config else 0),
      Burst = rl_Burst config\<rparr>)"

definition NewCooldownSpec :: "BucketName \<Rightarrow> duration \<Rightarrow> string list \<Rightarrow> BucketSpec" where
  "NewCooldownSpec name period args =
     \<lparr>Name = name, spec_RateLimitName = RateLimitNameUnspecified,
      spec_RateLimitGroup = RateLimitGroupUnspecified, Arguments = args, IsGlobal = False,
      Enabled = True, Period = period, Burst = 1\<rparr>"

definition NewGlobalBucketSpec ::
    "RateLimitName \<Rightarrow> RateLimitGroup \<Rightarrow> RateLimitsEnvironmentConfigEntry \<Rightarrow> BucketName
     \<Rightarrow> string list \<Rightarrow> BucketSpec" where
  "NewGlobalBucketSpec rlName rlGroup e name args =
     \<lparr>Name = name, spec_RateLimitName = rlName, spec_RateLimitGroup = rlGroup, Arguments = args,
      IsGlobal = True, Enabled = env_Enabled e, Period = env_Period e, Burst = env_Burst e\<rparr>"

text \<open>\<^verbatim>\<open>strings.Join\<close> with a colon.\<close>

fun join_colon :: "string list \<Rightarrow> string" where
  "join_colon [] = []"
| "join_colon [x] = x"
| "join_colon (x # xs) = x @ '':'' @ join_colon xs"

definition Key :: "BucketSpec \<Rightarrow> string" where
  "Key s = join_colon ([BucketName_string (Name s)] @ Arguments s)"

definition selectByChannel :: "AuthenticatorOOBChannel \<Rightarrow> 'a \<Rightarrow> 'a \<Rightarrow> 'a \<Rightarrow> (unit, 'a) outcome" where
  "selectByChannel channel email sms whatsapp = (case channel of
     ChannelEmail \<Rightarrow> Ok email
   | ChannelSMS \<Rightarrow> Ok sms
   | ChannelWhatsapp \<Rightarrow> Ok whatsapp
   | ChannelOther _ \<Rightarrow> Panic)"

section \<open>Resolution\<close>

record ResolveBucketSpecOptions =
  opt_IPAddress :: string
  opt_UserID :: string
  opt_Purpose :: string
  opt_Channel :: AuthenticatorOOBChannel
  opt_Target :: string
  opt_ClientID :: string

definition resolvePerProjectBucketWithConfig ::
    "RateLimitGroup \<Rightarrow> RateLimitConfig \<Rightarrow> RateLimitConfig option \<Rightarrow> BucketName \<Rightarrow> string list \<Rightarrow> BucketSpec" where
  "resolvePerProjectBucketWithConfig r rlCfg featureRlCfg bucketName args = (let
     effectiveCfg = (case featureRlCfg of
        Some f \<Rightarrow> if float_less (Rate f) (Rate rlCfg) then f else rlCfg | None \<Rightarrow> rlCfg)
   in NewBucketSpec (perProjectName r) r effectiveCfg bucketName args)"

definition resolvePerTargetBucket ::
    "RateLimitGroup \<Rightarrow> app_config \<Rightarrow> feature_config \<Rightarrow> BucketName \<Rightarrow> string list \<Rightarrow> BucketSpec" where
  "resolvePerTargetBucket r cfg fcfg bucketName args =
     (case resolvePerTarget r cfg fcfg of None \<Rightarrow> BucketSpecDisabled
      | Some conf \<Rightarrow> NewBucketSpec (perTargetName r) r conf bucketName args)"

definition resolvePerIPBucket ::
    "RateLimitGroup \<Rightarrow> app_config \<Rightarrow> feature_config \<Rightarrow> BucketName \<Rightarrow> string list \<Rightarrow> BucketSpec" where
  "resolvePerIPBucket r cfg fcfg bucketName args =
     (case resolvePerIP r cfg fcfg of None \<Rightarrow> BucketSpecDisabled
      | Some conf \<Rightarrow> NewBucketSpec (perIPName r) r conf bucketName args)"

definition resolvePerUserBucket ::
    "RateLimitGroup \<Rightarrow> app_config \<Rightarrow> BucketName \<Rightarrow> string \<Rightarrow> string list \<Rightarrow> BucketSpec" where
  "resolvePerUserBucket r cfg bucketName userID args =
     (case resolvePerUser r cfg of None \<Rightarrow> BucketSpecDisabled
      | Some conf \<Rightarrow> if userID = '''' then BucketSpecDisabled
          else NewBucketSpec (perUserName r) r conf bucketName ([userID] @ args))"

definition resolvePerUserPerIPBucket ::
    "RateLimitGroup \<Rightarrow> app_config \<Rightarrow> BucketName \<Rightarrow> string \<Rightarrow> string list \<Rightarrow> BucketSpec" where
  "resolvePerUserPerIPBucket r cfg bucketName userID args =
     (case resolvePerUserPerIP r cfg of None \<Rightarrow> BucketSpecDisabled
      | Some conf \<Rightarrow> if userID = '''' then BucketSpecDisabled
          else NewBucketSpec (perUserPerIPName r) r conf bucketName ([userID] @ args))"

definition resolvePerClientBucket ::
    "RateLimitGroup \<Rightarrow> BucketName \<Rightarrow> string \<Rightarrow> string list \<Rightarrow> BucketSpec" where
  "resolvePerClientBucket r bucketName clientID args =
     (case resolvePerClient r of None \<Rightarrow> BucketSpecDisabled
      | Some conf \<Rightarrow> if clientID = '''' then BucketSpecDisabled
          else NewBucketSpec (perClientName r) r conf bucketName ([clientID] @ args))"

definition resolvePerProjectBucket ::
    "RateLimitGroup \<Rightarrow> BucketName \<Rightarrow> string list \<Rightarrow> BucketSpec" where
  "resolvePerProjectBucket r bucketName args =
     (case resolvePerProject r of None \<Rightarrow> BucketSpecDisabled
      | Some conf \<Rightarrow> NewBucketSpec (perProjectName r) r conf bucketName args)"

definition resolveGlobalBucket ::
    "RateLimitGroup \<Rightarrow> RateLimitsEnvironmentConfigEntry \<Rightarrow> RateLimitName \<Rightarrow> BucketName
     \<Rightarrow> string list \<Rightarrow> BucketSpec" where
  "resolveGlobalBucket r globalEntry rlName bucketName args =
     NewGlobalBucketSpec rlName r globalEntry bucketName args"

text \<open>
  \<^verbatim>\<open>ResolveBucketSpecs\<close>, in two parts: the cases of its \<^verbatim>\<open>switch\<close> from the verification groups on
  are \<open>resolveFeatureBucketSpecs\<close>, the authentication groups before them are equations of
  \<open>ResolveBucketSpecs\<close> itself. A group without a case resolves to no bucket.
\<close>

fun resolveFeatureBucketSpecs ::
    "RateLimitGroup \<Rightarrow> app_config \<Rightarrow> feature_config \<Rightarrow> env_config
     \<Rightarrow> ResolveBucketSpecOptions \<Rightarrow> (unit, BucketSpec list) outcome" where
  "resolveFeatureBucketSpecs RateLimitGroupVerificationEmailTrigger cfg fcfg globalCfg opts =
     bind_oc (selectByChannel (opt_Channel opts) VerificationTriggerEmailPerIP VerificationTriggerSMSPerIP VerificationTriggerWhatsappPerIP) (\<lambda>bucketNamePerIP.
     bind_oc (selectByChannel (opt_Channel opts) VerificationTriggerEmailPerUser VerificationTriggerSMSPerUser VerificationTriggerWhatsappPerUser) (\<lambda>bucketNamePerUser.
     Ok [resolvePerIPBucket RateLimitGroupVerificationEmailTrigger cfg fcfg bucketNamePerIP [opt_IPAddress opts],
         resolvePerUserBucket RateLimitGroupVerificationEmailTrigger cfg bucketNamePerUser (opt_UserID opts) []]))"
| "resolveFeatureBucketSpecs RateLimitGroupVerificationEmailValidate cfg fcfg globalCfg opts =
     bind_oc (selectByChannel (opt_Channel opts) VerificationValidateEmailPerIP VerificationValidateSMSPerIP VerificationValidateWhatsappPerIP) (\<lambda>bucketNamePerIP.
     Ok [resolvePerIPBucket RateLimitGroupVerificationEmailValidate cfg fcfg bucketNamePerIP [opt_IPAddress opts]])"
| "resolveFeatureBucketSpecs RateLimitGroupVerificationSMSTrigger cfg fcfg globalCfg opts =
     bind_oc (selectByChannel (opt_Channel opts) VerificationTriggerEmailPerIP VerificationTriggerSMSPerIP VerificationTriggerWhatsappPerIP) (\<lambda>bucketNamePerIP.
     bind_oc (selectByChannel (opt_Channel opts) VerificationTriggerEmailPerUser VerificationTriggerSMSPerUser VerificationTriggerWhatsappPerUser) (\<lambda>bucketNamePerUser.
     Ok [resolvePerIPBucket RateLimitGroupVerificationSMSTrigger cfg fcfg bucketNamePerIP [opt_IPAddress opts],
         resolvePerUserBucket RateLimitGroupVerificationSMSTrigger cfg bucketNamePerUser (opt_UserID opts) []]))"
| "resolveFeatureBucketSpecs RateLimitGroupVerificationSMSValidate cfg fcfg globalCfg opts =
     bind_oc (selectByChannel (opt_Channel opts) VerificationValidateEmailPerIP VerificationValidateSMSPerIP VerificationValidateWhatsappPerIP) (\<lambda>bucketNamePerIP.
     Ok [resolvePerIPBucket RateLimitGroupVerificationSMSValidate cfg fcfg bucketNamePerIP [opt_IPAddress opts]])"
| "resolveFeatureBucketSpecs RateLimitGroupForgotPasswordEmailTrigger cfg fcfg globalCfg opts =
     bind_oc (selectByChannel (opt_Channel opts) ForgotPasswordTriggerEmailPerIP ForgotPasswordTriggerSMSPerIP ForgotPasswordTriggerWhatsappPerIP) (\<lambda>bucketNamePerIP.
     Ok [resolvePerIPBucket RateLimitGroupForgotPasswordEmailTrigger cfg fcfg bucketNamePerIP [opt_IPAddress opts]])"
| "resolveFeatureBucketSpecs RateLimitGroupForgotPasswordEmailValidate cfg fcfg globalCfg opts =
     bind_oc (selectByChannel (opt_Channel opts) ForgotPasswordValidateEmailPerIP ForgotPasswordValidateSMSPerIP ForgotPasswordValidateWhatsappPerIP) (\<lambda>bucketNamePerIP.
     Ok [resolvePerIPBucket RateLimitGroupForgotPasswordEmailValidate cfg fcfg bucketNamePerIP [opt_IPAddress opts]])"
| "resolveFeatureBucketSpecs RateLimitGroupForgotPasswordSMSTrigger cfg fcfg globalCfg opts =
     bind_oc (selectByChannel (opt_Channel opts) ForgotPasswordTriggerEmailPerIP ForgotPasswordTriggerSMSPerIP ForgotPasswordTriggerWhatsappPerIP) (\<lambda>bucketNamePerIP.
     Ok [resolvePerIPBucket RateLimitGroupForgotPasswordSMSTrigger cfg fcfg bucketNamePerIP [opt_IPAddress opts]])"
| "resolveFeatureBucketSpecs RateLimitGroupForgotPasswordSMSValidate cfg fcfg globalCfg opts =
     bind_oc (selectByChannel (opt_Channel opts) ForgotPasswordValidateEmailPerIP ForgotPasswordValidateSMSPerIP ForgotPasswordValidateWhatsappPerIP) (\<lambda>bucketNamePerIP.
     Ok [resolvePerIPBucket RateLimitGroupForgotPasswordSMSValidate cfg fcfg bucketNamePerIP [opt_IPAddress opts]])"
| "resolveFeatureBucketSpecs RateLimitGroupMessagingSMS cfg fcfg globalCfg opts =
     Ok [resolvePerProjectBucketWithConfig RateLimitGroupMessagingSMS (cfg Cfg_Messaging_SMS) (fcfg Feature_Messaging_SMS) MessagingSMS [],
         resolveGlobalBucket RateLimitGroupMessagingSMS (globalCfg Global_SMS) RateLimitGlobalMessagingSMS MessagingSMS [],
         resolvePerIPBucket RateLimitGroupMessagingSMS cfg fcfg MessagingSMSPerIP [opt_IPAddress opts],
         resolveGlobalBucket RateLimitGroupMessagingSMS (globalCfg Global_SMSPerIP) RateLimitGlobalMessagingSMSPerIP MessagingSMSPerIP [opt_IPAddress opts],
         resolvePerTargetBucket RateLimitGroupMessagingSMS cfg fcfg MessagingSMSPerTarget [opt_Target opts],
         resolveGlobalBucket RateLimitGroupMessagingSMS (globalCfg Global_SMSPerTarget) RateLimitGlobalMessagingSMSPerTarget MessagingSMSPerTarget [opt_Target opts]]"
| "resolveFeatureBucketSpecs RateLimitGroupMessagingEmail cfg fcfg globalCfg opts =
     Ok [resolvePerProjectBucketWithConfig RateLimitGroupMessagingEmail (cfg Cfg_Messaging_Email) (fcfg Feature_Messaging_Email) MessagingEmail [],
         resolveGlobalBucket RateLimitGroupMessagingEmail (globalCfg Global_Email) RateLimitGlobalMessagingEmail MessagingEmail [],
         resolvePerIPBucket RateLimitGroupMessagingEmail cfg fcfg MessagingEmailPerIP [opt_IPAddress opts],
         resolveGlobalBucket RateLimitGroupMessagingEmail (globalCfg Global_EmailPerIP) RateLimitGlobalMessagingEmailPerIP MessagingEmailPerIP [opt_IPAddress opts],
         resolvePerTargetBucket RateLimitGroupMessagingEmail cfg fcfg MessagingEmailPerTarget [opt_Target opts],
         resolveGlobalBucket RateLimitGroupMessagingEmail (globalCfg Global_EmailPerTarget) RateLimitGlobalMessagingEmailPerTarget MessagingEmailPerTarget [opt_Target opts]]"
| "resolveFeatureBucketSpecs RateLimitGroupOAuthTokenClientCredentials cfg fcfg globalCfg opts =
     Ok [resolvePerClientBucket RateLimitGroupOAuthTokenClientCredentials OAuthTokenClientCredentialsPerClient (opt_ClientID opts) [],
         resolvePerProjectBucket RateLimitGroupOAuthTokenClientCredentials OAuthTokenClientCredentialsPerProject []]"
| "resolveFeatureBucketSpecs RateLimitGroupOAuthTokenGeneral cfg fcfg globalCfg opts =
     Panic"
| "resolveFeatureBucketSpecs _ cfg fcfg globalCfg opts =
     Ok []"

fun ResolveBucketSpecs ::
    "RateLimitGroup \<Rightarrow> app_config \<Rightarrow> feature_config \<Rightarrow> env_config
     \<Rightarrow> ResolveBucketSpecOptions \<Rightarrow> (unit, BucketSpec list) outcome" where
  "ResolveBucketSpecs RateLimitGroupAuthenticationGeneral cfg fcfg globalCfg opts =
     Panic"
| "ResolveBucketSpecs RateLimitGroupAuthenticationPassword cfg fcfg globalCfg opts =
     Ok [resolvePerIPBucket RateLimitGroupAuthenticationPassword cfg fcfg VerifyPasswordPerIP [opt_IPAddress opts],
         resolvePerUserPerIPBucket RateLimitGroupAuthenticationPassword cfg VerifyPasswordPerUserPerIP (opt_UserID opts) [opt_IPAddress opts]]"
| "ResolveBucketSpecs RateLimitGroupAuthenticationOOBOTPEmailTrigger cfg fcfg globalCfg opts =
     bind_oc (selectByChannel (opt_Channel opts) OOBOTPTriggerEmailPerIP OOBOTPTriggerSMSPerIP OOBOTPTriggerWhatsappPerIP) (\<lambda>bucketNamePerIP.
     bind_oc (selectByChannel (opt_Channel opts) OOBOTPTriggerEmailPerUser OOBOTPTriggerSMSPerUser OOBOTPTriggerWhatsappPerUser) (\<lambda>bucketNamePerUser.
     Ok [resolvePerIPBucket RateLimitGroupAuthenticationOOBOTPEmailTrigger cfg fcfg bucketNamePerIP [opt_Purpose opts, opt_IPAddress opts],
         resolvePerUserBucket RateLimitGroupAuthenticationOOBOTPEmailTrigger cfg bucketNamePerUser (opt_UserID opts) [opt_Purpose opts]]))"
| "ResolveBucketSpecs RateLimitGroupAuthenticationOOBOTPEmailValidate cfg fcfg globalCfg opts =
     bind_oc (selectByChannel (opt_Channel opts) OOBOTPValidateEmailPerIP OOBOTPValidateSMSPerIP OOBOTPValidateWhatsappPerIP) (\<lambda>bucketNamePerIP.
     bind_oc (selectByChannel (opt_Channel opts) OOBOTPValidateEmailPerUserPerIP OOBOTPValidateSMSPerUserPerIP OOBOTPValidateWhatsappPerUserPerIP) (\<lambda>bucketNamePerUser.
     Ok [resolvePerIPBucket RateLimitGroupAuthenticationOOBOTPEmailValidate cfg fcfg bucketNamePerIP [opt_Purpose opts, opt_IPAddress opts],
         resolvePerUserPerIPBucket RateLimitGroupAuthenticationOOBOTPEmailValidate cfg bucketNamePerUser (opt_UserID opts) [opt_IPAddress opts, opt_Purpose opts]]))"
| "ResolveBucketSpecs RateLimitGroupAuthenticationOOBOTPSMSTrigger cfg fcfg globalCfg opts =
     bind_oc (selectByChannel (opt_Channel opts) OOBOTPTriggerEmailPerIP OOBOTPTriggerSMSPerIP OOBOTPTriggerWhatsappPerIP) (\<lambda>bucketNamePerIP.
     bind_oc (selectByChannel (opt_Channel opts) OOBOTPTriggerEmailPerUser OOBOTPTriggerSMSPerUser OOBOTPTriggerWhatsappPerUser) (\<lambda>bucketNamePerUser.
     Ok [resolvePerIPBucket RateLimitGroupAuthenticationOOBOTPSMSTrigger cfg fcfg bucketNamePerIP [opt_Purpose opts, opt_IPAddress opts],
         resolvePerUserBucket RateLimitGroupAuthenticationOOBOTPSMSTrigger cfg bucketNamePerUser (opt_UserID opts) [opt_Purpose opts]]))"
| "ResolveBucketSpecs RateLimitGroupAuthenticationOOBOTPSMSValidate cfg fcfg globalCfg opts =
     bind_oc (selectByChannel (opt_Channel opts) OOBOTPValidateEmailPerIP OOBOTPValidateSMSPerIP OOBOTPValidateWhatsappPerIP) (\<lambda>bucketNamePerIP.
     bind_oc (selectByChannel (opt_Channel opts) OOBOTPValidateEmailPerUserPerIP OOBOTPValidateSMSPerUserPerIP OOBOTPValidateWhatsappPerUserPerIP) (\<lambda>bucketNamePerUser.
     Ok [resolvePerIPBucket RateLimitGroupAuthenticationOOBOTPSMSValidate cfg fcfg bucketNamePerIP [opt_Purpose opts, opt_IPAddress opts],
         resolvePerUserPerIPBucket RateLimitGroupAuthenticationOOBOTPSMSValidate cfg bucketNamePerUser (opt_UserID opts) [opt_IPAddress opts, opt_Purpose opts]]))"
| "ResolveBucketSpecs RateLimitGroupAuthenticationTOTP cfg fcfg globalCfg opts =
     Ok [resolvePerIPBucket RateLimitGroupAuthenticationTOTP cfg fcfg VerifyTOTPPerIP [opt_IPAddress opts],
         resolvePerUserPerIPBucket RateLimitGroupAuthenticationTOTP cfg VerifyTOTPPerUserPerIP (opt_UserID opts) [opt_IPAddress opts]]"
| "ResolveBucketSpecs RateLimitGroupAuthenticationRecoveryCode cfg fcfg globalCfg opts =
     Ok [resolvePerIPBucket RateLimitGroupAuthenticationRecoveryCode cfg fcfg VerifyRecoveryCodePerIP [opt_IPAddress opts],
         resolvePerUserPerIPBucket RateLimitGroupAuthenticationRecoveryCode cfg VerifyRecoveryCodePerUserPerIP (opt_UserID opts) [opt_IPAddress opts]]"
| "ResolveBucketSpecs RateLimitGroupAuthenticationDeviceToken cfg fcfg globalCfg opts =
     Ok [resolvePerIPBucket RateLimitGroupAuthenticationDeviceToken cfg fcfg VerifyDeviceTokenPerIP [opt_IPAddress opts],
         resolvePerUserPerIPBucket RateLimitGroupAuthenticationDeviceToken cfg VerifyDeviceTokenPerUserPerIP (opt_UserID opts) [opt_IPAddress opts]]"
| "ResolveBucketSpecs RateLimitGroupAuthenticationPasskey cfg fcfg globalCfg opts =
     Ok [resolvePerIPBucket RateLimitGroupAuthenticationPasskey cfg fcfg VerifyPasskeyPerIP [opt_IPAddress opts]]"
| "ResolveBucketSpecs RateLimitGroupAuthenticationSIWE cfg fcfg globalCfg opts =
     Ok [resolvePerIPBucket RateLimitGroupAuthenticationSIWE cfg fcfg VerifySIWEPerIP [opt_IPAddress opts]]"
| "ResolveBucketSpecs RateLimitGroupAuthenticationSignup cfg fcfg globalCfg opts =
     Ok [resolvePerIPBucket RateLimitGroupAuthenticationSignup cfg fcfg SignupPerIP [opt_IPAddress opts]]"
| "ResolveBucketSpecs RateLimitGroupAuthenticationSignupAnonymous cfg fcfg globalCfg opts =
     Ok [resolvePerIPBucket RateLimitGroupAuthenticationSignupAnonymous cfg fcfg SignupAnonymousPerIP [opt_IPAddress opts]]"
| "ResolveBucketSpecs RateLimitGroupAuthenticationAccountEnumeration cfg fcfg globalCfg opts =
     Ok [resolvePerIPBucket RateLimitGroupAuthenticationAccountEnumeration cfg fcfg AccountEnumerationPerIP [opt_IPAddress opts]]"
| "ResolveBucketSpecs r cfg fcfg globalCfg opts = resolveFeatureBucketSpecs r cfg fcfg globalCfg opts"

text \<open>The weights a hook attached to the context, if any; keys the code does not read are left out.\<close>

type_synonym Weights = "RateLimitGroup \<rightharpoonup> rat"

definition resolveWeight :: "Weights \<Rightarrow> RateLimitGroup \<Rightarrow> RateLimitGroup option \<Rightarrow> rat" where
  "resolveWeight weights selfWeightKey fallbackKey = (case weights selfWeightKey of
     Some w \<Rightarrow> w
   | None \<Rightarrow> (case fallbackKey of
       Some k \<Rightarrow> (case weights k of Some w \<Rightarrow> w | None \<Rightarrow> 1)
     | None \<Rightarrow> 1))"

definition ResolveWeight :: "Weights option \<Rightarrow> RateLimitGroup \<Rightarrow> rat" where
  "ResolveWeight ctxWeights r = (case ctxWeights of
     None \<Rightarrow> 1
   | Some weights \<Rightarrow>
       if r = RateLimitGroupUnspecified then 1
       else let weight =
         (if r \<in> {RateLimitGroupAuthenticationPassword,
             RateLimitGroupAuthenticationOOBOTPEmailValidate,
             RateLimitGroupAuthenticationOOBOTPSMSValidate,
             RateLimitGroupAuthenticationTOTP,
             RateLimitGroupAuthenticationRecoveryCode,
             RateLimitGroupAuthenticationDeviceToken,
             RateLimitGroupAuthenticationPasskey,
             RateLimitGroupAuthenticationSIWE}
          then resolveWeight weights r (Some RateLimitGroupAuthenticationGeneral)
          else resolveWeight weights r None)
       in if weight < 0 then 0 else weight)"

section \<open>Keys\<close>

definition colon_free :: "string \<Rightarrow> bool" where
  "colon_free s \<longleftrightarrow> CHR '':'' \<notin> set s"

text \<open>The buckets the code declares by name, and their list for computation over all of them.\<close>

fun declared_bucket :: "BucketName \<Rightarrow> bool" where
  "declared_bucket (OtherBucket s) = False"
| "declared_bucket _ = True"

definition declared_buckets :: "BucketName list" where
  "declared_buckets =
    [SignupAnonymousPerIP, SignupPerIP, AccountEnumerationPerIP, OOBOTPTriggerEmailPerIP,
     OOBOTPTriggerSMSPerIP, OOBOTPTriggerWhatsappPerIP, OOBOTPTriggerEmailPerUser,
     OOBOTPTriggerSMSPerUser, OOBOTPTriggerWhatsappPerUser, OOBOTPCooldownEmail,
     OOBOTPCooldownSMS, OOBOTPCooldownWhatsapp, OOBOTPCooldownEmailPerSession,
     OOBOTPCooldownSMSPerSession, OOBOTPCooldownWhatsappPerSession, OOBOTPValidateEmailPerIP,
     OOBOTPValidateSMSPerIP, OOBOTPValidateWhatsappPerIP, OOBOTPValidateEmailPerUserPerIP,
     OOBOTPValidateSMSPerUserPerIP, OOBOTPValidateWhatsappPerUserPerIP,
     VerificationTriggerEmailPerIP, VerificationTriggerSMSPerIP,
     VerificationTriggerWhatsappPerIP, VerificationTriggerEmailPerUser,
     VerificationTriggerSMSPerUser, VerificationTriggerWhatsappPerUser,
     VerificationCooldownEmail, VerificationCooldownSMS, VerificationCooldownWhatsapp,
     VerificationCooldownEmailPerSession, VerificationCooldownSMSPerSession,
     VerificationCooldownWhatsappPerSession, VerificationValidateEmailPerIP,
     VerificationValidateSMSPerIP, VerificationValidateWhatsappPerIP, VerifyPasswordPerIP,
     VerifyPasswordPerUserPerIP, VerifyTOTPPerIP, VerifyTOTPPerUserPerIP, VerifyPasskeyPerIP,
     VerifyRecoveryCodePerIP, VerifyRecoveryCodePerUserPerIP, VerifyDeviceTokenPerIP,
     VerifyDeviceTokenPerUserPerIP, VerifySIWEPerIP, ForgotPasswordTriggerEmailPerIP,
     ForgotPasswordTriggerSMSPerIP, ForgotPasswordTriggerWhatsappPerIP,
     ForgotPasswordValidateEmailPerIP, ForgotPasswordValidateSMSPerIP,
     ForgotPasswordValidateWhatsappPerIP, ForgotPasswordCooldownEmail,
     ForgotPasswordCooldownSMS, ForgotPasswordCooldownWhatsapp,
     ForgotPasswordCooldownEmailPerSession, ForgotPasswordCooldownSMSPerSession,
     ForgotPasswordCooldownWhatsappPerSession, MessagingSMS, MessagingSMSPerIP,
     MessagingSMSPerTarget, MessagingEmail, MessagingEmailPerIP, MessagingEmailPerTarget,
     PresignImageUploadRequestPerUser, OAuthTokenPerIP, OAuthTokenPerUser,
     OAuthTokenClientCredentialsPerClient, OAuthTokenClientCredentialsPerProject]"

lemma BucketName_string_colon_free: "declared_bucket n \<Longrightarrow> colon_free (BucketName_string n)"
  by (cases n) (simp_all add: colon_free_def)

lemma declared_bucket_in: "declared_bucket n \<Longrightarrow> n \<in> set declared_buckets"
  by (cases n) (simp_all add: declared_buckets_def)

lemma distinct_bucket_strings: "distinct (map BucketName_string declared_buckets)"
  by code_simp

lemma BucketName_string_inj:
  "declared_bucket m \<Longrightarrow> declared_bucket n \<Longrightarrow> BucketName_string m = BucketName_string n \<Longrightarrow> m = n"
  using distinct_bucket_strings declared_bucket_in by (auto simp: distinct_map inj_on_def)

lemma join_colon_Cons: "xs \<noteq> [] \<Longrightarrow> join_colon (x # xs) = x @ '':'' @ join_colon xs"
  by (cases xs) simp_all

text \<open>Splitting at a first colon, and at a last one.\<close>

lemma split_first_colon:
  assumes "colon_free x" "colon_free y" "x @ '':'' @ r = y @ '':'' @ s"
  shows "x = y \<and> r = s"
proof -
  have *: "us = []" if "us @ '':'' @ a = '':'' @ b" "colon_free us" for us a b
    using that by (cases us) (auto simp: colon_free_def)
  from assms(3) consider us where "x = y @ us" "us @ '':'' @ r = '':'' @ s"
    | us where "x @ us = y" "'':'' @ r = us @ '':'' @ s"
    by (auto simp: append_eq_append_conv2)
  then show ?thesis
  proof cases
    case 1
    with * [of us r s] assms(1) show ?thesis by (simp add: colon_free_def)
  next
    case 2
    then have "colon_free us" using assms(2) by (auto simp: colon_free_def)
    with 2 * [of us s r] show ?thesis by simp
  qed
qed

lemma split_same_colons:
  assumes "count_list r CHR '':'' = count_list s CHR '':''" "x @ '':'' @ r = y @ '':'' @ s"
  shows "x = y \<and> r = s"
proof -
  have *: "us = []" if "'':'' @ a = us @ '':'' @ b" "count_list a CHR '':'' = count_list b CHR '':''" for us a b
  proof (rule ccontr)
    assume "us \<noteq> []"
    with that(1) obtain vs where "us = CHR '':'' # vs" "a = vs @ '':'' @ b"
      by (cases us) auto
    with that(2) show False by simp
  qed
  from assms(2) consider us where "x = y @ us" "us @ '':'' @ r = '':'' @ s"
    | us where "x @ us = y" "'':'' @ r = us @ '':'' @ s"
    by (auto simp: append_eq_append_conv2)
  then show ?thesis
  proof cases
    case 1
    with * [of s us r] assms(1) show ?thesis by simp
  next
    case 2
    with * [of r us s] assms(1) show ?thesis by simp
  qed
qed

lemma count_join_colon_free:
  "(\<And>x. x \<in> set xs \<Longrightarrow> colon_free x) \<Longrightarrow> count_list (join_colon xs) CHR '':'' = length xs - 1"
  by (induction xs rule: join_colon.induct) (auto simp: colon_free_def count_list_0_iff)

text \<open>Lists of the same length with the same key are equal, if one position at most has colons.\<close>

lemma join_colon_inj:
  assumes "length xs = length ys" "join_colon xs = join_colon ys"
    and "\<And>j. j < length xs \<Longrightarrow> j \<noteq> i \<Longrightarrow> colon_free (xs ! j) \<and> colon_free (ys ! j)"
  shows "xs = ys"
  using assms
proof (induction xs arbitrary: ys i)
  case Nil
  then show ?case by simp
next
  case (Cons x xs)
  then obtain y ys' where ys: "ys = y # ys'" "length xs = length ys'" by (cases ys) auto
  show ?case
  proof (cases "xs = []")
    case True
    with Cons.prems ys show ?thesis by simp
  next
    case False
    with ys have eq: "x @ '':'' @ join_colon xs = y @ '':'' @ join_colon ys'"
      using Cons.prems(2) by (metis join_colon_Cons length_0_conv)
    have rest: "colon_free (xs ! j) \<and> colon_free (ys' ! j)" if "j < length xs" "Suc j \<noteq> i" for j
      using Cons.prems(3) [of "Suc j"] that ys by simp
    show ?thesis
    proof (cases i)
      case 0
      then have "\<And>z. z \<in> set xs \<Longrightarrow> colon_free z" "\<And>z. z \<in> set ys' \<Longrightarrow> colon_free z"
        using rest ys(2) by (auto simp: in_set_conv_nth)
      then have "count_list (join_colon xs) CHR '':'' = count_list (join_colon ys') CHR '':''"
        using ys(2) by (simp add: count_join_colon_free)
      from split_same_colons [OF this eq] have xy: "x = y" "join_colon xs = join_colon ys'" by simp_all
      have "xs = ys'"
        using rest 0 by (intro Cons.IH [OF ys(2) xy(2), of "length xs"]) simp
      with xy ys show ?thesis by simp
    next
      case (Suc k)
      then have "colon_free x \<and> colon_free y" using Cons.prems(3) [of 0] ys by simp
      with split_first_colon [OF _ _ eq] have xy: "x = y" "join_colon xs = join_colon ys'" by simp_all
      have "xs = ys'"
        using rest Suc by (intro Cons.IH [OF ys(2) xy(2), of k]) simp
      with xy ys show ?thesis by simp
    qed
  qed
qed

lemma Key_Name:
  assumes "declared_bucket (Name s)" "declared_bucket (Name t)" "Key s = Key t"
  shows "Name s = Name t"
proof -
  let ?cut = "takeWhile (\<lambda>c. c \<noteq> CHR '':'')"
  have cut: "?cut (Key u) = BucketName_string (Name u)" if "declared_bucket (Name u)" for u :: BucketSpec
  proof -
    have "colon_free (BucketName_string (Name u))" by (rule BucketName_string_colon_free [OF that])
    then have *: "?cut (BucketName_string (Name u) @ r) = BucketName_string (Name u) @ ?cut r" for r
      by (intro takeWhile_append2) (auto simp: colon_free_def)
    show ?thesis
      using * [of "''''"] * [of "'':'' @ join_colon (Arguments u)"]
      by (cases "Arguments u = []") (simp_all add: Key_def join_colon_Cons)
  qed
  show ?thesis
    using cut [OF assms(1)] cut [OF assms(2)] assms(3) BucketName_string_inj [OF assms(1,2)] by simp
qed

section \<open>Properties\<close>

text \<open>Two buckets share a Redis key only if they are the same bucket: the keys of declared buckets
  determine the bucket name, and, for argument lists of the same shape in which at most one argument
  (the IP address, which may be an IPv6 address) holds colons, the arguments too.\<close>

theorem bucket_keys_isolated:
  assumes "declared_bucket (Name s)" "declared_bucket (Name t)" "Key s = Key t"
  shows "Name s = Name t \<and>
    (length (Arguments s) = length (Arguments t) \<longrightarrow>
     (\<forall>j < length (Arguments s). j \<noteq> i \<longrightarrow>
        colon_free (Arguments s ! j) \<and> colon_free (Arguments t ! j)) \<longrightarrow>
     Arguments s = Arguments t)"
proof (intro conjI impI)
  show n: "Name s = Name t" by (rule Key_Name [OF assms])
  assume l: "length (Arguments s) = length (Arguments t)"
    and free: "\<forall>j < length (Arguments s). j \<noteq> i \<longrightarrow>
        colon_free (Arguments s ! j) \<and> colon_free (Arguments t ! j)"
  have "join_colon (Arguments s) = join_colon (Arguments t)"
    using assms(3) n l
    by (cases "Arguments s"; cases "Arguments t") (auto simp: Key_def)
  then show "Arguments s = Arguments t"
    using l free by (intro join_colon_inj [where i = i]) auto
qed

theorem bucket_keys_isolated_witness:
  "Key (NewCooldownSpec VerifyPasswordPerUserPerIP 0 [''u1'', ''::1''])
     \<noteq> Key (NewCooldownSpec VerifyPasswordPerUserPerIP 0 [''u2'', ''::1''])"
  using bucket_keys_isolated [of "NewCooldownSpec VerifyPasswordPerUserPerIP 0 [''u1'', ''::1'']"
      "NewCooldownSpec VerifyPasswordPerUserPerIP 0 [''u2'', ''::1'']" 1]
  by (auto simp: NewCooldownSpec_def less_Suc_eq colon_free_def)

definition float_le :: "go_float \<Rightarrow> go_float \<Rightarrow> bool" where
  "float_le x y = (\<not> float_less y x)"

lemma float_less_irrefl: "\<not> float_less x x"
  by (cases x) auto

text \<open>A feature limit caps the project's own limit: where a plan sets a limit for a messaging
  bucket, the limit that applies is never faster than the plan's, and it is the project's own limit
  whenever that is not faster.\<close>

theorem feature_limit_caps_project_limit:
  "(\<exists>c. resolvePerIP RateLimitGroupMessagingSMS cfg fcfg = Some c
      \<and> resolveConfig (cfg Cfg_Messaging_SMSPerIP) None (fcfg Feature_Messaging_SMSPerIP) = c
      \<and> (case fcfg Feature_Messaging_SMSPerIP of
           Some f \<Rightarrow> float_le (Rate c) (Rate f)
             \<and> c = (if float_less (Rate f) (Rate (cfg Cfg_Messaging_SMSPerIP)) then f
                    else cfg Cfg_Messaging_SMSPerIP)
         | None \<Rightarrow> c = cfg Cfg_Messaging_SMSPerIP))
   \<and> (let s = resolvePerProjectBucketWithConfig RateLimitGroupMessagingSMS (cfg Cfg_Messaging_SMS)
          (fcfg Feature_Messaging_SMS) MessagingSMS []
      in case fcfg Feature_Messaging_SMS of
           Some f \<Rightarrow> (\<exists>c \<in> {f, cfg Cfg_Messaging_SMS}.
               s = NewBucketSpec RateLimitMessagingSMSPerProject RateLimitGroupMessagingSMS c MessagingSMS []
               \<and> float_le (Rate c) (Rate f))
         | None \<Rightarrow> s = NewBucketSpec RateLimitMessagingSMSPerProject RateLimitGroupMessagingSMS
               (cfg Cfg_Messaging_SMS) MessagingSMS [])"
  by (auto simp: resolveConfig_def resolvePerProjectBucketWithConfig_def float_le_def
      float_less_irrefl Let_def split: option.splits)

fun selects_by_channel :: "RateLimitGroup \<Rightarrow> bool" where
  "selects_by_channel RateLimitGroupAuthenticationOOBOTPEmailTrigger = True"
| "selects_by_channel RateLimitGroupAuthenticationOOBOTPEmailValidate = True"
| "selects_by_channel RateLimitGroupAuthenticationOOBOTPSMSTrigger = True"
| "selects_by_channel RateLimitGroupAuthenticationOOBOTPSMSValidate = True"
| "selects_by_channel RateLimitGroupVerificationEmailTrigger = True"
| "selects_by_channel RateLimitGroupVerificationEmailValidate = True"
| "selects_by_channel RateLimitGroupVerificationSMSTrigger = True"
| "selects_by_channel RateLimitGroupVerificationSMSValidate = True"
| "selects_by_channel RateLimitGroupForgotPasswordEmailTrigger = True"
| "selects_by_channel RateLimitGroupForgotPasswordEmailValidate = True"
| "selects_by_channel RateLimitGroupForgotPasswordSMSTrigger = True"
| "selects_by_channel RateLimitGroupForgotPasswordSMSValidate = True"
| "selects_by_channel _ = False"

fun without_buckets :: "RateLimitGroup \<Rightarrow> bool" where
  "without_buckets RateLimitGroupAuthenticationGeneral = True"
| "without_buckets RateLimitGroupOAuthTokenGeneral = True"
| "without_buckets _ = False"

definition known_channel :: "AuthenticatorOOBChannel \<Rightarrow> bool" where
  "known_channel c \<longleftrightarrow> c \<in> {ChannelEmail, ChannelSMS, ChannelWhatsapp}"

definition resolvable :: "RateLimitGroup \<Rightarrow> AuthenticatorOOBChannel \<Rightarrow> bool" where
  "resolvable r c = (\<not> without_buckets r \<and> (if selects_by_channel r then known_channel c else True))"

definition of_group :: "RateLimitGroup \<Rightarrow> BucketSpec \<Rightarrow> bool" where
  "of_group r s \<longleftrightarrow> Enabled s \<longrightarrow> spec_RateLimitGroup s = r"

lemma selectByChannel_simps [simp]:
  "known_channel c \<Longrightarrow> \<exists>x \<in> {a, b, w}. selectByChannel c a b w = Ok x"
  "\<not> known_channel c \<Longrightarrow> selectByChannel c a b w = Panic"
  by (cases c; simp add: known_channel_def selectByChannel_def)+

lemma of_group_resolve [simp]:
  "of_group r (resolvePerIPBucket r cfg fcfg n as)" "of_group r (resolvePerUserBucket r cfg n u as)"
  "of_group r (resolvePerUserPerIPBucket r cfg n u as)" "of_group r (resolvePerTargetBucket r cfg fcfg n as)"
  "of_group r (resolvePerClientBucket r n u as)" "of_group r (resolvePerProjectBucket r n as)"
  "of_group r (resolvePerProjectBucketWithConfig r c f n as)" "of_group r (resolveGlobalBucket r e rl n as)"
  by (simp_all add: of_group_def resolvePerIPBucket_def resolvePerUserBucket_def
      resolvePerUserPerIPBucket_def resolvePerTargetBucket_def resolvePerClientBucket_def
      resolvePerProjectBucket_def resolvePerProjectBucketWithConfig_def resolveGlobalBucket_def
      BucketSpecDisabled_def NewBucketSpec_def NewGlobalBucketSpec_def Let_def split: option.splits)

lemma selectByChannel_known:
  "known_channel c \<Longrightarrow> \<exists>x. selectByChannel c a b w = Ok x"
  by (cases c) (simp_all add: known_channel_def selectByChannel_def)

lemma resolve_panics:
  assumes "without_buckets r \<or> (selects_by_channel r \<and> \<not> known_channel (opt_Channel opts))"
  shows "ResolveBucketSpecs r cfg fcfg globalCfg opts = Panic"
  using assms by (cases r) simp_all

lemma bind_selectByChannel_ok:
  assumes "known_channel c" "\<And>x. \<exists>specs. f x = Ok specs \<and> list_all P specs"
  shows "\<exists>specs. bind_oc (selectByChannel c a b w) f = Ok specs \<and> list_all P specs"
  using selectByChannel_known [OF assms(1), of a b w] assms(2) by auto

lemma resolve_ok:
  assumes "\<not> without_buckets r" "selects_by_channel r \<Longrightarrow> known_channel (opt_Channel opts)"
  shows "\<exists>specs. ResolveBucketSpecs r cfg fcfg globalCfg opts = Ok specs \<and> list_all (of_group r) specs"
  using assms
  by (cases r) (simp_all del: bind_oc_Ok_conv add: bind_selectByChannel_ok)

text \<open>Resolution is total for every group used on its own: it panics exactly for the two groups that
  have no buckets and, in the groups that select a bucket by channel, for an unknown channel; the
  enabled buckets it returns all belong to the group.\<close>

theorem resolution_total:
  "case ResolveBucketSpecs r cfg fcfg globalCfg opts of
     Ok specs \<Rightarrow> list_all (of_group r) specs \<and> resolvable r (opt_Channel opts)
   | Err e \<Rightarrow> False
   | Panic \<Rightarrow> \<not> resolvable r (opt_Channel opts)"
proof (cases "resolvable r (opt_Channel opts)")
  case True
  with resolve_ok [of r opts cfg fcfg globalCfg] show ?thesis by (auto simp: resolvable_def split: if_splits)
next
  case False
  with resolve_panics [of r opts cfg fcfg globalCfg] show ?thesis by (auto simp: resolvable_def split: if_splits)
qed

text \<open>A reservation never takes a negative number of tokens, whatever weights a hook supplies.\<close>

lemma ResolveWeight_nonneg: "0 \<le> ResolveWeight w r"
  by (simp add: ResolveWeight_def Let_def split: option.splits)

text \<open>The password, OTP-validation, TOTP, recovery-code, device-token, passkey and SIWE groups
  fall back to the weight of \<^verbatim>\<open>authentication.general\<close>, the others to one; an explicit weight wins.\<close>

theorem ResolveWeight_fallback:
  assumes "r \<noteq> RateLimitGroupUnspecified"
  shows "ResolveWeight (Some w) r = max 0 (case w r of Some x \<Rightarrow> x
    | None \<Rightarrow> if r \<in> {RateLimitGroupAuthenticationPassword, RateLimitGroupAuthenticationOOBOTPEmailValidate,
                  RateLimitGroupAuthenticationOOBOTPSMSValidate, RateLimitGroupAuthenticationTOTP,
                  RateLimitGroupAuthenticationRecoveryCode, RateLimitGroupAuthenticationDeviceToken,
                  RateLimitGroupAuthenticationPasskey, RateLimitGroupAuthenticationSIWE}
              then (case w RateLimitGroupAuthenticationGeneral of Some g \<Rightarrow> g | None \<Rightarrow> 1) else 1)"
  using assms
  by (cases "w r"; cases "w RateLimitGroupAuthenticationGeneral")
    (simp_all add: ResolveWeight_def resolveWeight_def Let_def max_def del: insert_iff)

theorem ResolveWeight_fallback_witness:
  "ResolveWeight (Some [RateLimitGroupAuthenticationGeneral \<mapsto> 3]) RateLimitGroupAuthenticationTOTP = 3
   \<and> ResolveWeight (Some [RateLimitGroupAuthenticationGeneral \<mapsto> 3]) RateLimitGroupAuthenticationSignup = 1"
  using ResolveWeight_fallback [of RateLimitGroupAuthenticationTOTP "[RateLimitGroupAuthenticationGeneral \<mapsto> 3]"]
    ResolveWeight_fallback [of RateLimitGroupAuthenticationSignup "[RateLimitGroupAuthenticationGeneral \<mapsto> 3]"]
  by (simp add: max_def)

end
