(* ===== verification/Limiter.thy ===== *)
theory Limiter imports Gcra RateLimitConfig begin

text \<open>
  The rate limiter, \<^verbatim>\<open>pkg/lib/ratelimit/limiter.go\<close>, \<^verbatim>\<open>limiter_global.go\<close>, \<^verbatim>\<open>reservation.go\<close> and
  \<^verbatim>\<open>storage_redis.go\<close>. The \<^verbatim>\<open>Storage\<close> interface is an argument of the limiter's operations; the
  operations of Redis are arguments of its Redis implementation. Both contracts are locales:
  \<open>redis_strings\<close> says what \<^verbatim>\<open>GET\<close>, \<^verbatim>\<open>SET\<close> and \<^verbatim>\<open>EXPIREAT\<close> do, \<open>rate_storage\<close> what a
  storage owes the limiter. Logging is not modelled; the audit event is.
\<close>

section \<open>Storage\<close>

text \<open>\<^verbatim>\<open>Update\<close>: an error, or the verdict with the time to act; and the storage after the call.\<close>

type_synonym ('s, 'e) storage_update =
  "time \<Rightarrow> 's \<Rightarrow> string \<Rightarrow> duration \<Rightarrow> int \<Rightarrow> rat \<Rightarrow> ('e + bool \<times> time) \<times> 's"

definition StorageRedis_Update ::
    "(time \<Rightarrow> 'r \<Rightarrow> string \<Rightarrow> int option) \<Rightarrow> ('r \<Rightarrow> string \<Rightarrow> int \<Rightarrow> int \<Rightarrow> 'r)
     \<Rightarrow> ('r, 'e) storage_update" where
  "StorageRedis_Update get put now r key period burst delta = (let
     (result, write) = gcra period burst delta now (get now r key)
   in (Inr (IsConforming result, TimeToAct result),
       case write of None \<Rightarrow> r | Some (v, e) \<Rightarrow> put r key v e))"

section \<open>Reservations\<close>

record Reservation =
  res_key :: string
  res_spec :: BucketSpec
  tokenTaken :: rat
  wasCancelPrevented :: bool

record FailedReservation =
  failed_key :: string
  failed_spec :: BucketSpec
  failed_timeToAct :: time

definition PreventCancel :: "Reservation option \<Rightarrow> Reservation option" where
  "PreventCancel r = (case r of None \<Rightarrow> None | Some r \<Rightarrow> Some (r\<lparr>wasCancelPrevented := True\<rparr>))"

datatype rate_limit_error =
  ErrRateLimited RateLimitName RateLimitGroup BucketName

definition FailedReservation_Error :: "FailedReservation option \<Rightarrow> rate_limit_error option" where
  "FailedReservation_Error r = (case r of None \<Rightarrow> None
     | Some r \<Rightarrow> Some (ErrRateLimited (spec_RateLimitName (failed_spec r))
         (spec_RateLimitGroup (failed_spec r)) (Name (failed_spec r))))"

definition FailedReservation_GetTimeToAct :: "FailedReservation option \<Rightarrow> time" where
  "FailedReservation_GetTimeToAct r = (case r of None \<Rightarrow> 0 | Some r \<Rightarrow> failed_timeToAct r)"

definition bucketKeyGlobal :: "BucketSpec \<Rightarrow> string" where
  "bucketKeyGlobal spec = ''rate-limit:'' @ Key spec"

definition bucketKeyApp :: "string \<Rightarrow> BucketSpec \<Rightarrow> string" where
  "bucketKeyApp appID spec = ''app:'' @ appID @ '':rate-limit:'' @ Key spec"

section \<open>The limiter\<close>

text \<open>
  The limiter with the storage it writes and the events it dispatched
  (\<^verbatim>\<open>rate_limit.blocked\<close>, with the limit's name and group).
\<close>

record 's Limiter =
  AppID :: string
  Config_Disabled :: bool
  Storage :: 's
  dispatched :: "(RateLimitName \<times> RateLimitGroup) list"

type_synonym reserve_result = "Reservation option \<times> FailedReservation option \<times> time option"

definition limiterKey :: "'s Limiter \<Rightarrow> BucketSpec \<Rightarrow> string" where
  "limiterKey l spec = (if IsGlobal spec then bucketKeyGlobal spec else bucketKeyApp (AppID l) spec)"

definition doReserveN ::
    "('s, 'e) storage_update \<Rightarrow> time \<Rightarrow> 's Limiter \<Rightarrow> BucketSpec \<Rightarrow> rat
     \<Rightarrow> ('e + reserve_result) \<times> 's Limiter" where
  "doReserveN update now l spec n = (let key = limiterKey l spec in
     if Config_Disabled l \<or> \<not> Enabled spec
     then (Inr (Some \<lparr>res_key = key, res_spec = spec, tokenTaken = 0, wasCancelPrevented = False\<rparr>,
             None, None), l)
     else (case update now (Storage l) key (Period spec) (Burst spec) n of
       (Inl err, st) \<Rightarrow> (Inl err, l\<lparr>Storage := st\<rparr>)
     | (Inr (ok, timeToAct), st) \<Rightarrow>
         if ok
         then (Inr (Some \<lparr>res_key = key, res_spec = spec, tokenTaken = n, wasCancelPrevented = False\<rparr>,
                 None, Some timeToAct), l\<lparr>Storage := st\<rparr>)
         else (Inr (None, Some \<lparr>failed_key = key, failed_spec = spec, failed_timeToAct = timeToAct\<rparr>,
                 Some timeToAct),
               l\<lparr>Storage := st, dispatched := dispatched l @
                 (if spec_RateLimitGroup spec \<noteq> RateLimitGroupUnspecified
                  then [(spec_RateLimitName spec, spec_RateLimitGroup spec)] else [])\<rparr>)))"

definition GetTimeToAct ::
    "('s, 'e) storage_update \<Rightarrow> time \<Rightarrow> 's Limiter \<Rightarrow> BucketSpec \<Rightarrow> ('e + time) \<times> 's Limiter" where
  "GetTimeToAct update now l spec = (case doReserveN update now l spec 0 of
     (Inl err, l') \<Rightarrow> (Inl err, l')
   | (Inr (_, _, Some t), l') \<Rightarrow> (Inr t, l')
   | (Inr (_, _, None), l') \<Rightarrow> (Inr 0, l'))"

definition reserveN ::
    "('s, 'e) storage_update \<Rightarrow> time \<Rightarrow> 's Limiter \<Rightarrow> BucketSpec \<Rightarrow> rat
     \<Rightarrow> ('e + Reservation option \<times> FailedReservation option) \<times> 's Limiter" where
  "reserveN update now l spec n = (case doReserveN update now l spec n of
     (Inl err, l') \<Rightarrow> (Inl err, l')
   | (Inr (r, f, _), l') \<Rightarrow> (Inr (r, f), l'))"

definition Reserve ::
    "('s, 'e) storage_update \<Rightarrow> time \<Rightarrow> Weights option \<Rightarrow> 's Limiter \<Rightarrow> BucketSpec
     \<Rightarrow> ('e + Reservation option \<times> FailedReservation option) \<times> 's Limiter" where
  "Reserve update now ctxWeights l spec = (let
     weight = ResolveWeight ctxWeights (spec_RateLimitGroup spec)
   in reserveN update now l spec weight)"

definition Allow ::
    "('s, 'e) storage_update \<Rightarrow> time \<Rightarrow> Weights option \<Rightarrow> 's Limiter \<Rightarrow> BucketSpec
     \<Rightarrow> ('e + FailedReservation option) \<times> 's Limiter" where
  "Allow update now ctxWeights l spec = (case Reserve update now ctxWeights l spec of
     (Inl err, l') \<Rightarrow> (Inl err, l')
   | (Inr (_, f), l') \<Rightarrow> (Inr f, l'))"

text \<open>An error of the storage is logged and dropped.\<close>

definition Cancel ::
    "('s, 'e) storage_update \<Rightarrow> time \<Rightarrow> 's Limiter \<Rightarrow> Reservation option \<Rightarrow> 's Limiter" where
  "Cancel update now l r = (case r of
     None \<Rightarrow> l
   | Some r \<Rightarrow>
       if wasCancelPrevented r \<or> tokenTaken r = 0 then l
       else (case update now (Storage l) (res_key r) (Period (res_spec r)) (Burst (res_spec r)) (- tokenTaken r) of
         (_, st) \<Rightarrow> l\<lparr>Storage := st\<rparr>))"

section \<open>The global limiter\<close>

text \<open>
  \<^verbatim>\<open>LimiterGlobal\<close> only has its storage. It panics on a bucket that is not global, and it drops a
  storage error: the result is then neither a reservation, nor a failure, nor an error.
\<close>

definition Global_doReserveN ::
    "('s, 'e) storage_update \<Rightarrow> time \<Rightarrow> 's \<Rightarrow> BucketSpec \<Rightarrow> rat \<Rightarrow> ('e, reserve_result \<times> 's) outcome" where
  "Global_doReserveN update now st spec n = (let key = bucketKeyGlobal spec in
     if \<not> IsGlobal spec then Panic
     else if \<not> Enabled spec
     then Ok ((Some \<lparr>res_key = key, res_spec = spec, tokenTaken = 0, wasCancelPrevented = False\<rparr>,
            None, None), st)
     else (case update now st key (Period spec) (Burst spec) n of
       (Inl err, st') \<Rightarrow> Ok ((None, None, None), st')
     | (Inr (ok, timeToAct), st') \<Rightarrow>
         if ok
         then Ok ((Some \<lparr>res_key = key, res_spec = spec, tokenTaken = n, wasCancelPrevented = False\<rparr>,
                None, Some timeToAct), st')
         else Ok ((None, Some \<lparr>failed_key = key, failed_spec = spec, failed_timeToAct = timeToAct\<rparr>,
                Some timeToAct), st')))"

definition Global_GetTimeToAct ::
    "('s, 'e) storage_update \<Rightarrow> time \<Rightarrow> 's \<Rightarrow> BucketSpec \<Rightarrow> ('e, time \<times> 's) outcome" where
  "Global_GetTimeToAct update now st spec = bind_oc (Global_doReserveN update now st spec 0)
     (\<lambda>((_, _, t), st'). Ok ((case t of Some t \<Rightarrow> t | None \<Rightarrow> 0), st'))"

definition Global_reserveN ::
    "('s, 'e) storage_update \<Rightarrow> time \<Rightarrow> 's \<Rightarrow> BucketSpec \<Rightarrow> rat
     \<Rightarrow> ('e, (Reservation option \<times> FailedReservation option) \<times> 's) outcome" where
  "Global_reserveN update now st spec n = bind_oc (Global_doReserveN update now st spec n)
     (\<lambda>((r, f, _), st'). Ok ((r, f), st'))"

definition Global_Reserve ::
    "('s, 'e) storage_update \<Rightarrow> time \<Rightarrow> Weights option \<Rightarrow> 's \<Rightarrow> BucketSpec
     \<Rightarrow> ('e, (Reservation option \<times> FailedReservation option) \<times> 's) outcome" where
  "Global_Reserve update now ctxWeights st spec =
     Global_reserveN update now st spec (ResolveWeight ctxWeights (spec_RateLimitGroup spec))"

definition Global_Allow ::
    "('s, 'e) storage_update \<Rightarrow> time \<Rightarrow> Weights option \<Rightarrow> 's \<Rightarrow> BucketSpec
     \<Rightarrow> ('e, FailedReservation option \<times> 's) outcome" where
  "Global_Allow update now ctxWeights st spec = bind_oc (Global_Reserve update now ctxWeights st spec)
     (\<lambda>((_, f), st'). Ok (f, st'))"

definition Global_Cancel ::
    "('s, 'e) storage_update \<Rightarrow> time \<Rightarrow> 's \<Rightarrow> Reservation option \<Rightarrow> 's" where
  "Global_Cancel update now st r = (case r of
     None \<Rightarrow> st
   | Some r \<Rightarrow>
       if wasCancelPrevented r \<or> tokenTaken r = 0 then st
       else snd (update now st (res_key r) (Period (res_spec r)) (Burst (res_spec r)) (- tokenTaken r)))"

section \<open>What Redis owes the storage\<close>

text \<open>
  \<^verbatim>\<open>SET key v; EXPIREAT key e\<close> gives the key the value \<open>v\<close> until \<open>e\<close> seconds after the epoch;
  \<^verbatim>\<open>GET\<close> at \<open>now\<close> milliseconds sees it until then. \<open>content\<close> is the value and deadline last given
  to a key. Only writes of the rate limiter are considered, which pass the value itself as the
  deadline.
\<close>

locale redis_strings =
  fixes get :: "time \<Rightarrow> 'r \<Rightarrow> string \<Rightarrow> int option"
    and put :: "'r \<Rightarrow> string \<Rightarrow> int \<Rightarrow> int \<Rightarrow> 'r"
    and content :: "'r \<Rightarrow> string \<Rightarrow> (int \<times> int) option"
  assumes get_content: "get now r k = (case content r k of None \<Rightarrow> None
      | Some (v, e) \<Rightarrow> if 1000 * e \<le> now then None else Some v)"
    and content_put: "content (put r k v e) = (content r)(k \<mapsto> (v, e))"

section \<open>What a storage owes the limiter\<close>

locale rate_storage =
  fixes update :: "('s, 'e) storage_update"
    and bucket :: "time \<Rightarrow> 's \<Rightarrow> string \<Rightarrow> int option"
    and inv :: "'s \<Rightarrow> bool"
  assumes update_reply: "inv s \<Longrightarrow> gcra p b n now (bucket now s k) = (res, w) \<Longrightarrow>
      fst (update now s k p b n) = Inr (IsConforming res, TimeToAct res)"
    and update_write: "inv s \<Longrightarrow> gcra p b n now (bucket now s k) = (res, Some (v, e)) \<Longrightarrow> 0 \<le> t \<Longrightarrow>
      level t (bucket t (snd (update now s k p b n)) k) = level t (Some v)"
    and update_no_write: "inv s \<Longrightarrow> gcra p b n now (bucket now s k) = (res, None) \<Longrightarrow>
      bucket t (snd (update now s k p b n)) k = bucket t s k"
    and update_other: "k' \<noteq> k \<Longrightarrow> bucket t (snd (update now s k p b n)) k' = bucket t s k'"
    and update_inv: "inv s \<Longrightarrow> inv (snd (update now s k p b n))"
    and bucket_later: "inv s \<Longrightarrow> 0 \<le> now \<Longrightarrow> now \<le> t \<Longrightarrow>
      level t (bucket t s k) = level t (bucket now s k)"
begin

text \<open>The bucket of a key behaves, from \<open>now\<close> on, like the abstract content \<open>got\<close>.\<close>

definition sim :: "time \<Rightarrow> 's \<Rightarrow> string \<Rightarrow> int option \<Rightarrow> bool" where
  "sim now s k got \<longleftrightarrow> (\<forall>t \<ge> now. level t (bucket t s k) = level t got)"

lemma sim_start: "inv s \<Longrightarrow> 0 \<le> now \<Longrightarrow> sim now s k (bucket now s k)"
  unfolding sim_def by (intro allI impI bucket_later)

lemma sim_later: "sim now s k got \<Longrightarrow> now \<le> t \<Longrightarrow> sim t s k got"
  unfolding sim_def by (meson order_trans)

lemma sim_other: "sim now s k' got \<Longrightarrow> k' \<noteq> k \<Longrightarrow> sim now (snd (update t s k p b n)) k' got"
  by (simp add: sim_def update_other)

lemma sim_update:
  assumes "inv s" "0 \<le> now" "sim now s k got"
  shows "fst (update now s k p b n) = Inr (IsConforming (fst (gcra p b n now got)), TimeToAct (fst (gcra p b n now got)))
    \<and> sim now (snd (update now s k p b n)) k
        (case snd (gcra p b n now got) of None \<Rightarrow> got | Some (v, e) \<Rightarrow> Some v)"
proof -
  obtain res w where g: "gcra p b n now (bucket now s k) = (res, w)" by (cases "gcra p b n now (bucket now s k)")
  have "same_bucket now (bucket now s k) got" using assms(3) by (simp add: sim_def same_bucket_def)
  then have g': "gcra p b n now got = (res, w)" using g same_bucket_gcra [of now "bucket now s k" got now p b n] by simp
  have "sim now (snd (update now s k p b n)) k (case w of None \<Rightarrow> got | Some (v, e) \<Rightarrow> Some v)"
  proof (cases w)
    case None
    with g assms show ?thesis by (simp add: sim_def update_no_write)
  next
    case (Some ve)
    then obtain v e where "w = Some (v, e)" by (cases ve) auto
    with g assms(1,2) show ?thesis by (simp add: sim_def update_write)
  qed
  with update_reply [OF assms(1) g] g' show ?thesis by simp
qed

end

section \<open>Runs of a limiter\<close>

text \<open>
  A run of \<^verbatim>\<open>Allow\<close> over requests \<open>(now, weights, bucket)\<close> for any mixture of buckets, and the
  times at which it let requests of the bucket with key \<open>k\<close> through.
\<close>

fun admitted_times ::
    "('s, 'e) storage_update \<Rightarrow> 's Limiter \<Rightarrow> string \<Rightarrow> (time \<times> Weights option \<times> BucketSpec) list \<Rightarrow> time list" where
  "admitted_times update l k [] = []"
| "admitted_times update l k ((now, w, spec) # reqs) = (case Allow update now w l spec of (r, l') \<Rightarrow>
     (if limiterKey l spec = k \<and> r = Inr None then [now] else []) @ admitted_times update l' k reqs)"

definition calls_of ::
    "'s Limiter \<Rightarrow> string \<Rightarrow> (time \<times> Weights option \<times> BucketSpec) list \<Rightarrow> (time \<times> rat) list" where
  "calls_of l k reqs = map (\<lambda>(now, w, spec). (now, ResolveWeight w (spec_RateLimitGroup spec)))
     (filter (\<lambda>(now, w, spec). limiterKey l spec = k) reqs)"

lemma calls_of_Nil [simp]: "calls_of l k [] = []"
  by (simp add: calls_of_def)

lemma calls_of_Cons [simp]:
  "calls_of l k ((now, w, spec) # reqs) =
     (if limiterKey l spec = k then (now, ResolveWeight w (spec_RateLimitGroup spec)) # calls_of l k reqs
      else calls_of l k reqs)"
  by (simp add: calls_of_def)

text \<open>\<^verbatim>\<open>Allow\<close> on an enabled bucket in terms of one update of the storage.\<close>

lemma Allow_enabled:
  assumes "\<not> Config_Disabled l" "Enabled spec"
    and "update now (Storage l) (limiterKey l spec) (Period spec) (Burst spec)
      (ResolveWeight w (spec_RateLimitGroup spec)) = (Inr (ok, t), st)"
  shows "\<exists>l'. Allow update now w l spec = (Inr (if ok then None
       else Some \<lparr>failed_key = limiterKey l spec, failed_spec = spec, failed_timeToAct = t\<rparr>), l')
    \<and> Storage l' = st \<and> AppID l' = AppID l \<and> Config_Disabled l' = Config_Disabled l"
proof (cases ok)
  case True
  with assms show ?thesis by (simp add: Allow_def Reserve_def reserveN_def doReserveN_def Let_def)
next
  case False
  with assms show ?thesis by (simp add: Allow_def Reserve_def reserveN_def doReserveN_def Let_def del: split_paired_Ex)
qed

lemma limiterKey_cong: "AppID l' = AppID l \<Longrightarrow> limiterKey l' = limiterKey l"
  by (simp add: limiterKey_def fun_eq_iff)

lemma calls_of_cong: "AppID l' = AppID l \<Longrightarrow> calls_of l' = calls_of l"
  using limiterKey_cong [of l' l] by (simp add: calls_of_def fun_eq_iff)

context rate_storage begin

text \<open>
  The run of the limiter, seen through one key, is the run of one bucket: requests of other
  buckets do not interfere.
\<close>

lemma admitted_times_gcra_run:
  assumes "inv (Storage l)" "\<not> Config_Disabled l" "sim start (Storage l) k got" "0 \<le> start"
    and "sorted (map fst reqs)" "\<And>r. r \<in> set reqs \<Longrightarrow> start \<le> fst r \<and> Enabled (snd (snd r))"
    and "\<And>r. r \<in> set reqs \<Longrightarrow> limiterKey l (snd (snd r)) = k \<Longrightarrow> Period (snd (snd r)) = p \<and> Burst (snd (snd r)) = b"
  shows "admitted_times update l k reqs = map fst (fst (gcra_run (Milliseconds p) b got (calls_of l k reqs)))"
  using assms
proof (induction reqs arbitrary: l got start)
  case Nil
  then show ?case by simp
next
  case (Cons r reqs)
  obtain now w spec where r: "r = (now, w, spec)" by (cases r) auto
  let ?n = "ResolveWeight w (spec_RateLimitGroup spec)" let ?k = "limiterKey l spec"
  let ?u = "update now (Storage l) ?k (Period spec) (Burst spec) ?n"
  from r have now: "start \<le> now" "0 \<le> now" and en: "Enabled spec" 
    using Cons.prems(4) Cons.prems(6) [of r] by simp_all
  have later: "now \<le> fst x \<and> Enabled (snd (snd x))" if "x \<in> set reqs" for x
    using Cons.prems(5) Cons.prems(6) [of x] that r by simp
  have params: "?k = k \<Longrightarrow> Period spec = p \<and> Burst spec = b" using Cons.prems(7) [of r] r by simp
  obtain got0 where s0: "sim now (Storage l) ?k got0" using sim_start [OF Cons.prems(1) now(2)] by blast
  from sim_update [OF Cons.prems(1) now(2) s0] obtain ok t st where u: "?u = (Inr (ok, t), st)"
    by (metis prod.collapse)
  from Allow_enabled [where update = update and now = now and w = w, OF Cons.prems(2) en u] obtain l' where l':
    "Allow update now w l spec = (Inr (if ok then None
       else Some \<lparr>failed_key = ?k, failed_spec = spec, failed_timeToAct = t\<rparr>), l')"
    "Storage l' = st" "AppID l' = AppID l" "\<not> Config_Disabled l'"
    using Cons.prems(2) by auto
  have inv': "inv (Storage l')" using update_inv [OF Cons.prems(1)] u l'(2) by (metis snd_conv)
  have sk: "sim now (Storage l) k got" using sim_later [OF Cons.prems(3) now(1)] .
  have IH: "admitted_times update l' k reqs = map fst (fst (gcra_run (Milliseconds p) b got' (calls_of l k reqs)))"
    if "sim now (Storage l') k got'" for got'
    using Cons.IH [OF inv' l'(4) that now(2), unfolded limiterKey_cong [OF l'(3)] calls_of_cong [OF l'(3)]]
      Cons.prems(5,7) later r by simp
  show ?case
  proof (cases "?k = k")
    case False
    then have "sim now (Storage l') k got" using sim_other [OF sk, of ?k] u l'(2) by (metis snd_conv)
    with IH l' r False show ?thesis by simp
  next
    case True
    with params have pb: "Period spec = p" "Burst spec = b" by simp_all
    let ?g = "gcra_script (Milliseconds p) b ?n now got"
    from sim_update [OF Cons.prems(1) now(2) sk, of p b ?n] True pb u
    have ok: "ok = g_conforming ?g" and s': "sim now (Storage l') k (next_tat got ?g)"
      using l'(2) by (simp_all add: gcra_def Let_def next_tat_def)
    have "gcra_run (Milliseconds p) b got ((now, ?n) # cs) =
        ((if ok then (now, cost (Milliseconds p) b ?n) # fst (gcra_run (Milliseconds p) b (next_tat got ?g) cs)
          else fst (gcra_run (Milliseconds p) b (next_tat got ?g) cs)),
         snd (gcra_run (Milliseconds p) b (next_tat got ?g) cs))" for cs
      by (simp add: gcra_run.simps(2) ok Let_def case_prod_beta)
    with IH [OF s'] l'(1) r True show ?thesis by simp
  qed
qed

end

section \<open>The Redis storage\<close>

text \<open>Every deadline in the store is the value stored, as the script writes it.\<close>

definition deadlines_written :: "('r \<Rightarrow> string \<Rightarrow> (int \<times> int) option) \<Rightarrow> 'r \<Rightarrow> bool" where
  "deadlines_written content r \<longleftrightarrow> (\<forall>k v e. content r k = Some (v, e) \<longrightarrow> v = e)"

lemma gcra_write_same: "gcra p b n now got = (res, Some (v, e)) \<Longrightarrow> v = e"
  by (auto simp: gcra_def Let_def gcra_write_conv split: if_splits)

context redis_strings begin

lemma StorageRedis_Update_eq:
  "gcra p b n now (get now r k) = (res, w) \<Longrightarrow>
   StorageRedis_Update get put now r k p b n = (Inr (IsConforming res, TimeToAct res),
     case w of None \<Rightarrow> r | Some (v, e) \<Rightarrow> put r k v e)"
  by (simp add: StorageRedis_Update_def)

lemma level_expired: "0 \<le> t \<Longrightarrow> level t (if 1000 * v \<le> t then None else Some v) = level t (Some v)"
  by auto

end

sublocale redis_strings \<subseteq> storage: rate_storage "StorageRedis_Update get put" get "deadlines_written content"
proof
  fix s p b n now k res w v e t k'
  let ?u = "StorageRedis_Update get put now s k p b n"
  show "gcra p b n now (get now s k) = (res, w) \<Longrightarrow> fst ?u = Inr (IsConforming res, TimeToAct res)"
    by (simp add: StorageRedis_Update_eq)
  show "gcra p b n now (get now s k) = (res, Some (v, e)) \<Longrightarrow> 0 \<le> t \<Longrightarrow>
      level t (get t (snd ?u) k) = level t (Some v)"
    using level_expired [of t v] gcra_write_same [of p b n now "get now s k" res v e]
    by (simp add: StorageRedis_Update_eq get_content [of t] content_put)
  show "gcra p b n now (get now s k) = (res, None) \<Longrightarrow> get t (snd ?u) k = get t s k"
    by (simp add: StorageRedis_Update_eq)
  show "k' \<noteq> k \<Longrightarrow> get t (snd ?u) k' = get t s k'"
    by (simp add: StorageRedis_Update_def get_content content_put split: prod.split option.split)
  show "deadlines_written content s \<Longrightarrow> deadlines_written content (snd ?u)"
    by (auto simp: StorageRedis_Update_def deadlines_written_def content_put gcra_write_same split: prod.split option.split)
  show "deadlines_written content s \<Longrightarrow> 0 \<le> now \<Longrightarrow> now \<le> t \<Longrightarrow> level t (get t s k) = level t (get now s k)"
  proof -
    assume "deadlines_written content s" "0 \<le> now" "now \<le> t"
    then show ?thesis
    proof (cases "content s k")
      case None
      then show ?thesis by (simp add: get_content)
    next
      case (Some ve)
      then obtain v where c: "content s k = Some (v, v)"
        using \<open>deadlines_written content s\<close> by (cases ve) (auto simp: deadlines_written_def)
      then have "get t s k = (if 1000 * v \<le> t then None else Some v)"
        "get now s k = (if 1000 * v \<le> now then None else Some v)" by (simp_all add: get_content)
      then show ?thesis
        using level_expired [of t v] \<open>0 \<le> now\<close> \<open>now \<le> t\<close> by (auto simp: max_def)
    qed
  qed
qed

context redis_strings begin

lemma provides: "rate_storage (StorageRedis_Update get put) get (deadlines_written content)"
  by unfold_locales

end

section \<open>A key store\<close>

text \<open>
  Redis as a map from keys to a value and a deadline: what \<^verbatim>\<open>GET\<close>, \<^verbatim>\<open>SET\<close> and \<^verbatim>\<open>EXPIREAT\<close> are
  documented to do. It provides \<open>redis_strings\<close>, and through it \<open>rate_storage\<close>.
\<close>

type_synonym key_store = "string \<Rightarrow> (int \<times> int) option"

definition ks_get :: "time \<Rightarrow> key_store \<Rightarrow> string \<Rightarrow> int option" where
  "ks_get now r k = (case r k of None \<Rightarrow> None | Some (v, e) \<Rightarrow> if 1000 * e \<le> now then None else Some v)"

definition ks_put :: "key_store \<Rightarrow> string \<Rightarrow> int \<Rightarrow> int \<Rightarrow> key_store" where
  "ks_put r k v e = r(k \<mapsto> (v, e))"

interpretation ks: redis_strings ks_get ks_put "\<lambda>r. r"
  by unfold_locales (simp_all add: ks_get_def ks_put_def)

section \<open>Keys\<close>

lemma limiterKey_app: "\<not> IsGlobal s \<Longrightarrow> limiterKey l s = ''app:'' @ AppID l @ CHR '':'' # (''rate-limit:'' @ Key s)"
  by (simp add: limiterKey_def bucketKeyApp_def)

lemma limiterKey_global: "IsGlobal s \<Longrightarrow> limiterKey l s = ''rate-limit:'' @ Key s"
  by (simp add: limiterKey_def bucketKeyGlobal_def)

lemma colon_free_append_inj:
  "colon_free a \<Longrightarrow> colon_free b \<Longrightarrow> (a @ CHR '':'' # x = b @ CHR '':'' # y) = (a = b \<and> x = y)"
proof (induction a arbitrary: b)
  case Nil
  then show ?case by (cases b) (auto simp: colon_free_def)
next
  case (Cons c a)
  then show ?case by (cases b) (auto simp: colon_free_def)
qed

section \<open>Reservations that are cancelled\<close>

lemma Reserve_enabled:
  assumes "\<not> Config_Disabled l" "Enabled spec"
    and "update now (Storage l) (limiterKey l spec) (Period spec) (Burst spec)
      (ResolveWeight w (spec_RateLimitGroup spec)) = (Inr (True, t), st)"
  shows "Reserve update now w l spec = (Inr (Some \<lparr>res_key = limiterKey l spec, res_spec = spec,
      tokenTaken = ResolveWeight w (spec_RateLimitGroup spec), wasCancelPrevented = False\<rparr>, None),
      l\<lparr>Storage := st\<rparr>)"
  using assms by (simp add: Reserve_def reserveN_def doReserveN_def Let_def)

lemma Reserve_taken:
  assumes "Reserve update now w l spec = (Inr (Some r, f), l')" "\<not> Config_Disabled l" "Enabled spec"
  shows "\<exists>t. update now (Storage l) (limiterKey l spec) (Period spec) (Burst spec)
      (ResolveWeight w (spec_RateLimitGroup spec)) = (Inr (True, t), Storage l')
    \<and> r = \<lparr>res_key = limiterKey l spec, res_spec = spec,
      tokenTaken = ResolveWeight w (spec_RateLimitGroup spec), wasCancelPrevented = False\<rparr>
    \<and> l' = l\<lparr>Storage := Storage l'\<rparr>"
  using assms
  by (auto simp: Reserve_def reserveN_def doReserveN_def Let_def split: prod.splits sum.splits if_splits)

context rate_storage begin

lemma Allow_same_buckets:
  assumes "inv s" "inv s'" "\<And>k. level t (bucket t s k) = level t (bucket t s' k)"
  shows "fst (Allow update t w (l\<lparr>Storage := s\<rparr>) spec) = fst (Allow update t w (l\<lparr>Storage := s'\<rparr>) spec)"
proof -
  let ?n = "ResolveWeight w (spec_RateLimitGroup spec)" let ?k = "limiterKey l spec"
  obtain res x where g: "gcra (Period spec) (Burst spec) ?n t (bucket t s ?k) = (res, x)"
    by (cases "gcra (Period spec) (Burst spec) ?n t (bucket t s ?k)")
  then have g': "gcra (Period spec) (Burst spec) ?n t (bucket t s' ?k) = (res, x)"
    using assms(3) same_bucket_gcra [of t "bucket t s ?k" "bucket t s' ?k" t] by (simp add: same_bucket_def)
  obtain st st' where u: "update t s ?k (Period spec) (Burst spec) ?n = (Inr (IsConforming res, TimeToAct res), st)"
    "update t s' ?k (Period spec) (Burst spec) ?n = (Inr (IsConforming res, TimeToAct res), st')"
    using update_reply [OF assms(1) g] update_reply [OF assms(2) g'] by (metis prod.collapse)
  have "limiterKey (l\<lparr>Storage := x\<rparr>) spec = ?k" for x by (simp add: limiterKey_def)
  then show ?thesis using u
    by (simp add: Allow_def Reserve_def reserveN_def doReserveN_def Let_def)
qed

lemma update_inv': "inv s \<Longrightarrow> update now s k p b n = (r, st) \<Longrightarrow> inv st"
  using update_inv [of s now k p b n] by simp

lemma Cancel_levels:
  assumes "inv (Storage l)" "\<not> Config_Disabled l" "Enabled spec" "0 \<le> Period spec" "0 < Burst spec"
    and "ResolveWeight w (spec_RateLimitGroup spec) = of_int m" "0 \<le> m"
    and "0 \<le> now" "now \<le> later" "later \<le> t"
    and "Reserve update now w l spec = (Inr (Some r, f), l')"
  shows "level t (bucket t (Storage (Cancel update later l' (Some r))) k) = level t (bucket t (Storage l) k)"
    and "inv (Storage (Cancel update later l' (Some r)))"
proof -
  let ?k = "limiterKey l spec" let ?u = "update now (Storage l) ?k (Period spec) (Burst spec) (of_int m)"
  from Reserve_taken [OF assms(11,2,3)] assms(6) obtain tta where
    u: "?u = (Inr (True, tta), Storage l')" and r: "res_key r = ?k" "res_spec r = spec"
      "tokenTaken r = of_int m" "\<not> wasCancelPrevented r"
    by auto
  have i: "inv (Storage l')" using update_inv' [OF assms(1) u] .
  then show "inv (Storage (Cancel update later l' (Some r)))"
    by (auto simp: Cancel_def update_inv split: prod.split) (metis update_inv')
  obtain res x where g: "gcra (Period spec) (Burst spec) (of_int m) now (bucket now (Storage l) ?k) = (res, x)"
    by (cases "gcra (Period spec) (Burst spec) (of_int m) now (bucket now (Storage l) ?k)")
  with update_reply [OF assms(1) g] u have "IsConforming res" by simp
  with g obtain v e where x: "x = Some (v, e)"
    by (auto simp: gcra_def Let_def gcra_write_conv gcra_conforming_conv split: if_splits)
  let ?got = "bucket now (Storage l) ?k"
  have l0: "level t ?got = level t (bucket t (Storage l) ?k)"
    using bucket_later [OF assms(1), of now t] assms(8-10) by simp
  have w: "level \<tau> (bucket \<tau> (Storage l') ?k) = level \<tau> (Some v)" if "0 \<le> \<tau>" for \<tau>
    using update_write [OF assms(1) g [unfolded x] that] u by simp
  from gcra_refund [OF assms(4,5,7,9,10) g [unfolded x]] obtain r' v' e' where
    refund: "gcra (Period spec) (Burst spec) (- of_int m) later (Some v) = (r', Some (v', e'))"
      "level t (Some v') = level t ?got" by blast
  have g': "gcra (Period spec) (Burst spec) (- of_int m) later (bucket later (Storage l') ?k) = (r', Some (v', e'))"
    using refund(1) w [of later] assms(8,9) same_bucket_gcra [of later "bucket later (Storage l') ?k" "Some v" later]
    by (simp add: same_bucket_def)
  show "level t (bucket t (Storage (Cancel update later l' (Some r))) k) = level t (bucket t (Storage l) k)"
  proof (cases "m = 0")
    case True
    have "cost (Milliseconds (Period spec)) (Burst spec) 0 = 0" using cost_of_int [of _ _ 0] by simp
    with g x True have "v = level now ?got"
      by (simp add: gcra_def Let_def gcra_write_conv split: if_splits)
    then have "level t (Some v) = level t ?got" using assms(9,10) by (cases ?got) auto
    then have "level t (bucket t (Storage l') ?k) = level t (bucket t (Storage l) ?k)"
      using w [of t] l0 assms(8-10) by simp
    moreover have "Cancel update later l' (Some r) = l'" using r True by (simp add: Cancel_def)
    ultimately show ?thesis
      using update_other [of k ?k t now "Storage l" "Period spec" "Burst spec" "of_int m"] u
      by (cases "k = ?k") simp_all
  next
    case False
    obtain y st where c: "update later (Storage l') ?k (Period spec) (Burst spec) (- of_int m) = (y, st)"
      by (cases "update later (Storage l') ?k (Period spec) (Burst spec) (- of_int m)")
    with r False have st: "Storage (Cancel update later l' (Some r)) = st"
      by (simp add: Cancel_def)
    show ?thesis
    proof (cases "k = ?k")
      case True
      then show ?thesis
        using update_write [OF i g', of t] c st refund(2) l0 assms(8-10) by simp
    next
      case False
      then show ?thesis
        using update_other [OF False, of t later "Storage l'" "Period spec" "Burst spec" "- of_int m"]
          update_other [OF False, of t now "Storage l" "Period spec" "Burst spec" "of_int m"] c u st
        by simp
    qed
  qed
qed

end

section \<open>Properties of the limiter\<close>

text \<open>C5: end to end, the rate limit holds whatever else happens: in any time-ordered mixture of
  requests to any buckets, over any prior state of Redis, the requests of weight one that
  \<^verbatim>\<open>Allow\<close> lets through one bucket never exceed the burst by more than one request per emission
  interval elapsed.\<close>

theorem limiter_enforces_rate:
  fixes update :: "('r, 'e) storage_update"
  assumes "update = StorageRedis_Update get put" "redis_strings get put content" "deadlines_written content (Storage l)" "\<not> Config_Disabled l"
    and "sorted (map fst reqs)" "\<And>r. r \<in> set reqs \<Longrightarrow> 0 \<le> fst r \<and> Enabled (snd (snd r))"
    and "\<And>now w spec. (now, w, spec) \<in> set reqs \<Longrightarrow> limiterKey l spec = k \<Longrightarrow>
      Period spec = p \<and> Burst spec = b \<and> ResolveWeight w (spec_RateLimitGroup spec) = 1"
    and "admitted_times update l k reqs = adm" "adm \<noteq> []"
  shows "int (length adm) * emission (Milliseconds p) b
     \<le> b * emission (Milliseconds p) b + (last adm - hd adm)"
proof -
  have st: "rate_storage update get (deadlines_written content)"
    using redis_strings.provides [OF assms(2)] assms(1) by simp
  have "adm = map fst (fst (gcra_run (Milliseconds p) b (get 0 (Storage l) k) (calls_of l k reqs)))"
    using rate_storage.admitted_times_gcra_run [OF st assms(3,4)
        rate_storage.sim_start [OF st assms(3) order_refl] order_refl assms(5,6)] assms(7,8)
    by (metis prod.collapse)
  moreover have "snd c = 1" if "c \<in> set (calls_of l k reqs)" for c
    using that assms(7) by (auto simp: calls_of_def)
  ultimately show ?thesis
    using gcra_run_unit [OF _ refl, of "calls_of l k reqs" "Milliseconds p" b "get 0 (Storage l) k"] assms(9)
    by (simp add: last_map hd_map)
qed

definition demo_bucket :: "string \<Rightarrow> BucketSpec" where
  "demo_bucket user = NewCooldownSpec VerifyPasswordPerUserPerIP 3000000000 [user, ''::1'']"

definition demo_limiter :: "key_store Limiter" where
  "demo_limiter = \<lparr>AppID = ''a'', Config_Disabled = False, Storage = Map.empty, dispatched = []\<rparr>"

definition demo_requests :: "(time \<times> Weights option \<times> BucketSpec) list" where
  "demo_requests = [(10, None, demo_bucket ''u1''), (20, None, demo_bucket ''u2''),
     (30, None, demo_bucket ''u1''), (3010, None, demo_bucket ''u1'')]"

lemmas demo_defs = demo_bucket_def demo_limiter_def demo_requests_def NewCooldownSpec_def

lemma demo_run:
  "admitted_times (StorageRedis_Update ks_get ks_put :: (key_store, unit) storage_update) demo_limiter
     (limiterKey demo_limiter (demo_bucket ''u1'')) demo_requests = [10, 3010]"
  by code_simp

lemma demo_keys: "limiterKey demo_limiter (demo_bucket ''u2'') \<noteq> limiterKey demo_limiter (demo_bucket ''u1'')"
  by code_simp

lemma demo_limiter_simps [simp]:
  "Storage demo_limiter = Map.empty" "\<not> Config_Disabled demo_limiter" "AppID demo_limiter = ''a''"
  by (simp_all add: demo_limiter_def)

lemma demo_bucket_simps [simp]:
  "Period (demo_bucket u) = 3000000000" "Burst (demo_bucket u) = 1" "Enabled (demo_bucket u)"
  "spec_RateLimitGroup (demo_bucket u) = RateLimitGroupUnspecified" "\<not> IsGlobal (demo_bucket u)"
  by (simp_all add: demo_bucket_def NewCooldownSpec_def)

lemma ResolveWeight_default [simp]: "ResolveWeight None RateLimitGroupUnspecified = 1"
  by code_simp

lemma deadlines_written_empty [simp]: "deadlines_written (\<lambda>r. r) Map.empty"
  by (simp add: deadlines_written_def)

lemma demo_facts:
  "deadlines_written (\<lambda>r. r) (Storage demo_limiter)" "\<not> Config_Disabled demo_limiter"
  "sorted (map fst demo_requests)" "r \<in> set demo_requests \<Longrightarrow> 0 \<le> fst r \<and> Enabled (snd (snd r))"
  by (auto simp: demo_requests_def)

lemma demo_params:
  "(now, w, spec) \<in> set demo_requests \<Longrightarrow>
   limiterKey demo_limiter spec = limiterKey demo_limiter (demo_bucket ''u1'') \<Longrightarrow>
   Period spec = 3000000000 \<and> Burst spec = 1 \<and> ResolveWeight w (spec_RateLimitGroup spec) = 1"
  by (auto simp: demo_requests_def)

theorem limiter_enforces_rate_witness:
  "admitted_times (StorageRedis_Update ks_get ks_put :: (key_store, unit) storage_update) demo_limiter
     (limiterKey demo_limiter (demo_bucket ''u1'')) demo_requests = [10, 3010] \<and>
   int (length [10, 3010 :: int]) * emission (Milliseconds 3000000000) 1
     \<le> 1 * emission (Milliseconds 3000000000) 1 + (3010 - 10)"
  using limiter_enforces_rate [OF refl ks.redis_strings_axioms demo_facts demo_params demo_run]
  by (auto simp: demo_run simp del: admitted_times.simps)

text \<open>Buckets do not interfere: what \<^verbatim>\<open>Allow\<close> answers to the requests of one bucket in any
  time-ordered mixture of requests is what it answers when the requests of all the other buckets
  are left out.\<close>

theorem limiter_buckets_independent:
  fixes update :: "('r, 'e) storage_update"
  assumes "update = StorageRedis_Update get put" "redis_strings get put content" "deadlines_written content (Storage l)" "\<not> Config_Disabled l"
    and "sorted (map fst reqs)" "\<And>r. r \<in> set reqs \<Longrightarrow> 0 \<le> fst r \<and> Enabled (snd (snd r))"
    and "\<And>now w spec. (now, w, spec) \<in> set reqs \<Longrightarrow> limiterKey l spec = k \<Longrightarrow> Period spec = p \<and> Burst spec = b"
  shows "admitted_times update l k reqs =
    admitted_times update l k (filter (\<lambda>r. limiterKey l (snd (snd r)) = k) reqs)"
proof -
  have st: "rate_storage update get (deadlines_written content)"
    using redis_strings.provides [OF assms(2)] assms(1) by simp
  note run = rate_storage.admitted_times_gcra_run [OF st assms(3,4)
        rate_storage.sim_start [OF st assms(3) order_refl] order_refl]
  let ?mine = "filter (\<lambda>r. limiterKey l (snd (snd r)) = k) reqs"
  have "calls_of l k ?mine = calls_of l k reqs"
    by (simp add: calls_of_def) (metis (mono_tags, lifting) case_prod_beta' filter_cong)
  moreover have "sorted (map fst ?mine)" using assms(5) by (rule sorted_filter)
  moreover have params: "Period (snd (snd r)) = p \<and> Burst (snd (snd r)) = b"
    if "r \<in> set reqs" "limiterKey l (snd (snd r)) = k" for r
    using assms(7) that by (metis prod.collapse)
  have "admitted_times update l k reqs
      = map fst (fst (gcra_run (Milliseconds p) b (get 0 (Storage l) k) (calls_of l k reqs)))"
    by (rule run [OF assms(5,6) params])
  moreover have "admitted_times update l k ?mine
      = map fst (fst (gcra_run (Milliseconds p) b (get 0 (Storage l) k) (calls_of l k ?mine)))"
    if "sorted (map fst ?mine)"
    using assms(6) params by (intro run [OF that]) auto
  ultimately show ?thesis by simp
qed

theorem limiter_buckets_independent_witness:
  "admitted_times (StorageRedis_Update ks_get ks_put :: (key_store, unit) storage_update) demo_limiter
     (limiterKey demo_limiter (demo_bucket ''u1''))
     [(10, None, demo_bucket ''u1''), (30, None, demo_bucket ''u1''), (3010, None, demo_bucket ''u1'')] = [10, 3010]"
proof -
  have "filter (\<lambda>r. limiterKey demo_limiter (snd (snd r)) = limiterKey demo_limiter (demo_bucket ''u1'')) demo_requests
    = [(10, None, demo_bucket ''u1''), (30, None, demo_bucket ''u1''), (3010, None, demo_bucket ''u1'')]"
    using demo_keys by (simp add: demo_requests_def)
  with limiter_buckets_independent [OF refl ks.redis_strings_axioms demo_facts, of
      "limiterKey demo_limiter (demo_bucket ''u1'')" 3000000000 1] demo_run demo_params
  show ?thesis by metis
qed

text \<open>Cancelling a reservation undoes it: after \<^verbatim>\<open>Reserve\<close> took a whole number of tokens and
  \<^verbatim>\<open>Cancel\<close> gave them back, every later \<^verbatim>\<open>Allow\<close>, for that bucket or any other, answers as if the
  reservation had never been made.\<close>

theorem limiter_cancel_undoes_reserve:
  fixes update :: "('r, 'e) storage_update"
  assumes "update = StorageRedis_Update get put" "redis_strings get put content" "deadlines_written content (Storage l)" "\<not> Config_Disabled l"
    and "Enabled spec" "0 \<le> Period spec" "0 < Burst spec"
    and "ResolveWeight w (spec_RateLimitGroup spec) = of_int m" "0 \<le> m"
    and "0 \<le> now" "now \<le> later" "later \<le> t"
    and "Reserve update now w l spec = (Inr (Some r, f), l')"
  shows "fst (Allow update t w' (Cancel update later l' (Some r)) spec')
       = fst (Allow update t w' l spec')"
proof -
  have st: "rate_storage update get (deadlines_written content)"
    using redis_strings.provides [OF assms(2)] assms(1) by simp
  let ?l = "Cancel update later l' (Some r)"
  have "l' = l\<lparr>Storage := Storage l'\<rparr>" using Reserve_taken [OF assms(13,4,5)] by blast
  moreover have "?l = l'\<lparr>Storage := Storage ?l\<rparr>"
    by (simp add: Cancel_def split: prod.split)
  ultimately have l: "?l = l\<lparr>Storage := Storage ?l\<rparr>" by (metis Limiter.update_convs(3) Limiter.surjective)
  note levels = rate_storage.Cancel_levels [OF st assms(3-13)]
  have "fst (Allow update t w' (l\<lparr>Storage := Storage ?l\<rparr>) spec')
      = fst (Allow update t w' (l\<lparr>Storage := Storage l\<rparr>) spec')"
    by (intro rate_storage.Allow_same_buckets [OF st levels(2) assms(3) levels(1)])
  then show ?thesis using l by simp
qed

theorem limiter_cancel_undoes_reserve_witness:
  "fst (Allow (StorageRedis_Update ks_get ks_put :: (key_store, unit) storage_update) 30 None
       (Cancel (StorageRedis_Update ks_get ks_put :: (key_store, unit) storage_update) 20
         (snd (Reserve (StorageRedis_Update ks_get ks_put :: (key_store, unit) storage_update) 10 None
            demo_limiter (demo_bucket ''u1'')))
         (Some \<lparr>res_key = limiterKey demo_limiter (demo_bucket ''u1''), res_spec = demo_bucket ''u1'',
            tokenTaken = 1, wasCancelPrevented = False\<rparr>)) (demo_bucket ''u1''))
   = fst (Allow (StorageRedis_Update ks_get ks_put :: (key_store, unit) storage_update) 30 None
       demo_limiter (demo_bucket ''u1''))"
proof -
  let ?u = "StorageRedis_Update ks_get ks_put :: (key_store, unit) storage_update"
  have "fst (Reserve ?u 10 None demo_limiter (demo_bucket ''u1''))
    = Inr (Some \<lparr>res_key = limiterKey demo_limiter (demo_bucket ''u1''), res_spec = demo_bucket ''u1'',
            tokenTaken = 1, wasCancelPrevented = False\<rparr>, None)"
    by code_simp
  then have r: "Reserve ?u 10 None demo_limiter (demo_bucket ''u1'')
    = (Inr (Some \<lparr>res_key = limiterKey demo_limiter (demo_bucket ''u1''), res_spec = demo_bucket ''u1'',
            tokenTaken = 1, wasCancelPrevented = False\<rparr>, None),
       snd (Reserve ?u 10 None demo_limiter (demo_bucket ''u1'')))"
    by (metis prod.collapse)
  show ?thesis
    by (rule limiter_cancel_undoes_reserve [OF refl ks.redis_strings_axioms _ _ _ _ _ _ _ _ _ _ r, where m = 1]) simp_all
qed

text \<open>Keys of different tenants or scopes never meet: two limiters use the same Redis key only for
  the same bucket key in the same scope, the global one or that of one app (app IDs hold no colon).\<close>

theorem limiter_key_separation:
  assumes "colon_free (AppID l)" "colon_free (AppID l')" "limiterKey l s = limiterKey l' s'"
  shows "IsGlobal s = IsGlobal s' \<and> (\<not> IsGlobal s \<longrightarrow> AppID l = AppID l') \<and> Key s = Key s'"
  using assms colon_free_append_inj [OF assms(1,2)]
  by (cases "IsGlobal s"; cases "IsGlobal s'") (simp_all add: limiterKey_app limiterKey_global)

theorem limiter_key_separation_witness:
  "limiterKey demo_limiter (demo_bucket ''u1'') \<noteq> limiterKey (demo_limiter\<lparr>AppID := ''b''\<rparr>) (demo_bucket ''u1'')"
  using limiter_key_separation [of demo_limiter "demo_limiter\<lparr>AppID := ''b''\<rparr>" "demo_bucket ''u1''" "demo_bucket ''u1''"]
  by (auto simp: colon_free_def)

text \<open>The functional contract of \<^verbatim>\<open>Allow\<close>. A disabled limiter or bucket lets the request through
  and leaves the storage alone; a storage error is returned; a rejection is returned with its time to
  act, and its audit event is dispatched exactly when the bucket has a rate limit group.\<close>

theorem limiter_allow_contract:
  "Allow update now w l spec =
    (if Enabled spec \<and> \<not> Config_Disabled l then
       (case update now (Storage l) (limiterKey l spec) (Period spec) (Burst spec)
         (ResolveWeight w (spec_RateLimitGroup spec)) of
       (Inl err, st) \<Rightarrow> (Inl err, l\<lparr>Storage := st\<rparr>)
     | (Inr (True, _), st) \<Rightarrow> (Inr None, l\<lparr>Storage := st\<rparr>)
     | (Inr (False, tta), st) \<Rightarrow>
         (Inr (Some \<lparr>failed_key = limiterKey l spec, failed_spec = spec, failed_timeToAct = tta\<rparr>),
          if spec_RateLimitGroup spec = RateLimitGroupUnspecified then l\<lparr>Storage := st\<rparr>
          else l\<lparr>Storage := st, dispatched := dispatched l @ [(spec_RateLimitName spec, spec_RateLimitGroup spec)]\<rparr>))
     else (Inr None, l))"
  by (auto simp: Allow_def Reserve_def reserveN_def doReserveN_def Let_def split: prod.split sum.split)

text \<open>The two limiters part ways when the storage fails: \<^verbatim>\<open>Limiter.Allow\<close> returns the error, while
  \<^verbatim>\<open>LimiterGlobal.Allow\<close> drops it and lets the request through.\<close>

theorem limiter_global_fails_open:
  assumes "Enabled spec" "IsGlobal spec" "\<not> Config_Disabled l" "Storage l = st"
    and "update now st (bucketKeyGlobal spec) (Period spec) (Burst spec)
      (ResolveWeight w (spec_RateLimitGroup spec)) = (Inl err, st')"
  shows "Allow update now w l spec = (Inl err, l\<lparr>Storage := st'\<rparr>)
    \<and> Global_Allow update now w st spec = Ok (None, st')"
  using assms
  by (simp add: Allow_def Reserve_def reserveN_def doReserveN_def Let_def limiterKey_def
      Global_Allow_def Global_Reserve_def Global_reserveN_def Global_doReserveN_def)

theorem limiter_global_fails_open_witness:
  "Global_Allow (\<lambda>now s k p b n. (Inl ''down'', s)) 10 None () (demo_bucket ''u''\<lparr>IsGlobal := True\<rparr>) = Ok (None, ())"
  using limiter_global_fails_open [of "demo_bucket ''u''\<lparr>IsGlobal := True\<rparr>"
      "\<lparr>AppID = ''a'', Config_Disabled = False, Storage = (), dispatched = []\<rparr>" "()"
      "\<lambda>now s k p b n. (Inl ''down'', s)" 10 None "''down''" "()"]
  by simp

end
