(* ===== verification/Lockout.thy ===== *)
theory Lockout imports Prelude Complex_Main begin

text \<open>
  Account lockout: \<^verbatim>\<open>pkg/lib/lockout\<close> (the two Lua scripts of \<^verbatim>\<open>record.go\<close>, \<^verbatim>\<open>spec.go\<close>,
  \<^verbatim>\<open>service.go\<close>, \<^verbatim>\<open>storage_redis.go\<close>), its configuration
  \<^verbatim>\<open>pkg/lib/config/authentication_lockout.go\<close>, and the two clients
  \<^verbatim>\<open>pkg/lib/authn/authenticator/service/lockout.go\<close> and \<^verbatim>\<open>pkg/lib/authn/mfa/lockout.go\<close>.

  A script is a function from what it reads to its reply and the list of writing commands it sends;
  what Redis does with commands is a parameter (\<open>exec\<close> and the reads), whose documented behaviour
  is the locale \<open>redis_keys\<close>. Lua's doubles are rationals.
\<close>

text \<open>The script fails, or the account is locked until a time in seconds.\<close>

datatype lockout_error = RedisError | ErrLocked int

section \<open>Configuration\<close>

datatype AuthenticatorType = TypePassword | TypePasskey | TypeTOTP | TypeOOBEmail | TypeOOBSMS

datatype LockoutMethod = MethodPassword | MethodOOBOTP | MethodTOTP | MethodRecoveryCode

definition LockoutMethodFromAuthenticatorType :: "AuthenticatorType \<Rightarrow> LockoutMethod option" where
  "LockoutMethodFromAuthenticatorType t = (case t of
     TypePassword \<Rightarrow> Some MethodPassword
   | TypeOOBEmail \<Rightarrow> Some MethodOOBOTP
   | TypeOOBSMS \<Rightarrow> Some MethodOOBOTP
   | TypeTOTP \<Rightarrow> Some MethodTOTP
   | _ \<Rightarrow> None)"

datatype LockoutType = PerUser | PerUserPerIP

text \<open>The method configurations are pointers to a struct of one boolean.\<close>

record LockoutConfig =
  MaxAttempts :: int
  HistoryDuration :: duration
  MinimumDuration :: duration
  MaximumDuration :: duration
  BackoffFactor :: "rat option"
  LockoutType :: LockoutType
  PasswordEnabled :: "bool option"
  TotpEnabled :: "bool option"
  OOBOTPEnabled :: "bool option"
  RecoveryCodeEnabled :: "bool option"

definition IsEnabled :: "LockoutConfig option \<Rightarrow> bool" where
  "IsEnabled c = (case c of None \<Rightarrow> False | Some c \<Rightarrow> MaxAttempts c > 0)"

definition LockoutConfig_SetDefaults :: "LockoutConfig \<Rightarrow> LockoutConfig" where
  "LockoutConfig_SetDefaults c =
     (if IsEnabled (Some c) \<and> BackoffFactor c = None then c\<lparr>BackoffFactor := Some 1\<rparr> else c)"

section \<open>Specifications\<close>

record LockoutSpec =
  SpecName :: string
  SpecArguments :: "string list"
  SpecEnabled :: bool
  SpecMaxAttempts :: int
  SpecHistoryDuration :: duration
  SpecMinimumDuration :: duration
  SpecMaximumDuration :: duration
  SpecBackoffFactor :: rat
  SpecIsGlobal :: bool

definition newDisabledLockoutSpec :: LockoutSpec where
  "newDisabledLockoutSpec = \<lparr>SpecName = '''', SpecArguments = [], SpecEnabled = False,
     SpecMaxAttempts = 0, SpecHistoryDuration = 0, SpecMinimumDuration = 0, SpecMaximumDuration = 0,
     SpecBackoffFactor = 0, SpecIsGlobal = False\<rparr>"

definition newLockoutSpec ::
    "string \<Rightarrow> bool \<Rightarrow> int \<Rightarrow> duration \<Rightarrow> duration \<Rightarrow> duration \<Rightarrow> rat \<Rightarrow> bool \<Rightarrow> string list \<Rightarrow> LockoutSpec" where
  "newLockoutSpec name enabled maxAttempts history minimum maximum backoff isGlobal args =
     \<lparr>SpecName = name, SpecArguments = args, SpecEnabled = enabled, SpecMaxAttempts = maxAttempts,
      SpecHistoryDuration = history, SpecMinimumDuration = minimum, SpecMaximumDuration = maximum,
      SpecBackoffFactor = backoff, SpecIsGlobal = isGlobal\<rparr>"

fun join_with_colon :: "string list \<Rightarrow> string" where
  "join_with_colon [] = ''''"
| "join_with_colon [s] = s"
| "join_with_colon (s # t # ss) = s @ '':'' @ join_with_colon (t # ss)"

definition LockoutSpec_Key :: "LockoutSpec \<Rightarrow> string" where
  "LockoutSpec_Key s = join_with_colon (SpecName s # SpecArguments s)"

text \<open>\<^verbatim>\<open>cfg.LockoutType\<close> is read before \<^verbatim>\<open>cfg.IsEnabled()\<close> tests for a nil configuration.\<close>

definition SpecForCheck :: "LockoutConfig option \<Rightarrow> string \<Rightarrow> (lockout_error, LockoutSpec) outcome" where
  "SpecForCheck cfg userID = bind_oc (deref cfg) (\<lambda>c. let isGlobal = (LockoutType c = PerUser) in
     if \<not> IsEnabled cfg then Ok newDisabledLockoutSpec
     else bind_oc (deref (BackoffFactor c)) (\<lambda>backoff.
       Ok (newLockoutSpec ''AccountAuthentication'' (IsEnabled cfg) (MaxAttempts c) (HistoryDuration c)
         (MinimumDuration c) (MaximumDuration c) backoff isGlobal [userID])))"

definition method_enabled :: "LockoutConfig option \<Rightarrow> LockoutMethod \<Rightarrow> (lockout_error, bool) outcome" where
  "method_enabled cfg m = bind_oc (deref cfg) (\<lambda>c. case m of
     MethodPassword \<Rightarrow> deref (PasswordEnabled c)
   | MethodOOBOTP \<Rightarrow> deref (OOBOTPEnabled c)
   | MethodTOTP \<Rightarrow> deref (TotpEnabled c)
   | MethodRecoveryCode \<Rightarrow> deref (RecoveryCodeEnabled c))"

fun any_method_enabled :: "LockoutConfig option \<Rightarrow> LockoutMethod list \<Rightarrow> bool \<Rightarrow> (lockout_error, bool) outcome" where
  "any_method_enabled cfg [] enabled = Ok enabled"
| "any_method_enabled cfg (m # ms) enabled =
     bind_oc (method_enabled cfg m) (\<lambda>b. any_method_enabled cfg ms (if b then True else enabled))"

definition SpecForAttempt :: "LockoutConfig option \<Rightarrow> string \<Rightarrow> LockoutMethod list \<Rightarrow> (lockout_error, LockoutSpec) outcome" where
  "SpecForAttempt cfg userID methods = bind_oc (any_method_enabled cfg methods False) (\<lambda>enabled.
     if \<not> enabled then Ok newDisabledLockoutSpec else SpecForCheck cfg userID)"

section \<open>The scripts\<close>

datatype redis_cmd =
  HSET string string int | HDEL string string | SET string rat | EXPIREAT string rat

definition GLOBAL_TOTAL_KEY :: string where "GLOBAL_TOTAL_KEY = ''total''"

record attempt_args =
  a_history_duration :: int
  a_max_attempts :: int
  a_min_duration :: int
  a_max_duration :: int
  a_backoff_factor :: rat
  a_is_global :: bool
  a_contributor :: string
  a_new_attempts :: int

text \<open>What the script reads: the lock, the two totals; absent values are \<open>None\<close>.\<close>

record lock_reads =
  existing_lock :: "rat option"
  existing_global :: "int option"
  existing_contributor :: "int option"

definition lock_key :: "string \<Rightarrow> bool \<Rightarrow> string \<Rightarrow> string" where
  "lock_key record_key is_global contributor =
     record_key @ '':lock:'' @ (if is_global then ''global'' else contributor)"

definition or_zero :: "int option \<Rightarrow> int" where
  "or_zero v = (case v of None \<Rightarrow> 0 | Some n \<Rightarrow> n)"

definition is_blocked_at :: "int \<Rightarrow> rat option \<Rightarrow> bool" where
  "is_blocked_at now locked_until = (case locked_until of None \<Rightarrow> False | Some l \<Rightarrow> l > of_int now)"

definition lock_duration :: "attempt_args \<Rightarrow> int \<Rightarrow> rat" where
  "lock_duration a tot = min
     (of_int (a_min_duration a) * a_backoff_factor a ^ nat (tot - a_max_attempts a))
     (of_int (a_max_duration a))"

definition makeAttemptsLuaScript ::
    "string \<Rightarrow> attempt_args \<Rightarrow> int \<Rightarrow> lock_reads \<Rightarrow> redis_cmd list \<times> int \<times> rat option" where
  "makeAttemptsLuaScript record_key a now rd = (let
     lock = lock_key record_key (a_is_global a) (a_contributor a);
     locked_until_epoch = existing_lock rd;
     is_blocked = is_blocked_at now locked_until_epoch;
     is_success = (if \<not> is_blocked then 1 else 0)
   in if a_new_attempts a < 1 \<or> is_blocked then ([], is_success, locked_until_epoch)
   else let
     global_total = or_zero (existing_global rd) + a_new_attempts a;
     contributor_total = or_zero (existing_contributor rd) + a_new_attempts a;
     tot = (if a_is_global a then global_total else contributor_total);
     locked_until_epoch = (if tot \<ge> a_max_attempts a
       then Some (of_int now + lock_duration a tot) else locked_until_epoch);
     expire_at = now + a_history_duration a
   in ([HSET record_key GLOBAL_TOTAL_KEY global_total,
        HSET record_key (a_contributor a) contributor_total,
        EXPIREAT record_key (of_int expire_at)] @
       (case locked_until_epoch of None \<Rightarrow> []
        | Some l \<Rightarrow> [SET lock l, EXPIREAT lock l]),
       is_success, locked_until_epoch))"

text \<open>The clearing script asks for the \<^verbatim>\<open>TTL\<close> after its own writes: its commands come in two parts.\<close>

definition clear_first :: "string \<Rightarrow> string \<Rightarrow> lock_reads \<Rightarrow> redis_cmd list" where
  "clear_first record_key contributor rd = (let
     global_total = max (or_zero (existing_global rd) - or_zero (existing_contributor rd)) 0
   in [HSET record_key GLOBAL_TOTAL_KEY global_total, HDEL record_key contributor])"

definition clear_second :: "string \<Rightarrow> int \<Rightarrow> int \<Rightarrow> int \<Rightarrow> redis_cmd list" where
  "clear_second record_key history_duration now original_ttl =
     (if original_ttl < 0 then [EXPIREAT record_key (of_int (now + history_duration))] else [])"

section \<open>Redis\<close>

text \<open>
  \<open>exec now r c\<close>: the store after the command \<open>c\<close>, and whether the command raised an error. A script
  stops at its first error; what it wrote before stays.
\<close>

type_synonym 'r redis_exec = "int \<Rightarrow> 'r \<Rightarrow> redis_cmd \<Rightarrow> 'r \<times> bool"

fun run_cmds :: "'r redis_exec \<Rightarrow> int \<Rightarrow> 'r \<Rightarrow> redis_cmd list \<Rightarrow> 'r \<times> bool" where
  "run_cmds exec now r [] = (r, False)"
| "run_cmds exec now r (c # cs) = (case exec now r c of
     (r', True) \<Rightarrow> (r', True)
   | (r', False) \<Rightarrow> run_cmds exec now r' cs)"

text \<open>The operations the lockout store is built on, as one value.\<close>

record 'r lock_redis =
  r_exec :: "'r redis_exec"
  r_HGET :: "int \<Rightarrow> 'r \<Rightarrow> string \<Rightarrow> string \<Rightarrow> int option"
  r_GET :: "int \<Rightarrow> 'r \<Rightarrow> string \<Rightarrow> rat option"
  r_TTL :: "int \<Rightarrow> 'r \<Rightarrow> string \<Rightarrow> int"

definition read_existing :: "'r lock_redis \<Rightarrow> int \<Rightarrow> 'r \<Rightarrow> string \<Rightarrow> bool \<Rightarrow> string \<Rightarrow> lock_reads" where
  "read_existing R now r record_key is_global contributor =
     \<lparr>existing_lock = r_GET R now r (lock_key record_key is_global contributor),
      existing_global = r_HGET R now r record_key GLOBAL_TOTAL_KEY,
      existing_contributor = r_HGET R now r record_key contributor\<rparr>"

text \<open>\<^verbatim>\<open>int(d.Seconds())\<close>.\<close>

definition Seconds :: "duration \<Rightarrow> int" where
  "Seconds d = sgn d * (\<bar>d\<bar> div 1000000000)"

record attemptResult =
  IsSuccess :: bool
  LockedUntil :: "int option"

text \<open>
  The Go side of the scripts. Redis truncates a Lua number to an integer in the reply, and cuts a
  table at its first nil, so the reply has one element when there is no lock.
\<close>

definition makeAttempts ::
    "'r lock_redis \<Rightarrow> int \<Rightarrow> 'r \<Rightarrow> string \<Rightarrow> duration \<Rightarrow> int \<Rightarrow> duration \<Rightarrow> duration \<Rightarrow> rat \<Rightarrow> bool
     \<Rightarrow> string \<Rightarrow> int \<Rightarrow> (lockout_error + attemptResult) \<times> 'r" where
  "makeAttempts R now r key historyDuration maxAttempts minDuration maxDuration backoffFactor
       isGlobal contributor attempts = (let
     a = \<lparr>a_history_duration = Seconds historyDuration, a_max_attempts = maxAttempts,
          a_min_duration = Seconds minDuration, a_max_duration = Seconds maxDuration,
          a_backoff_factor = backoffFactor, a_is_global = isGlobal, a_contributor = contributor,
          a_new_attempts = attempts\<rparr>;
     rd = read_existing R now r key isGlobal contributor;
     (cmds, is_success, locked_until) = makeAttemptsLuaScript key a now rd
   in case run_cmds (r_exec R) now r cmds of
     (r', True) \<Rightarrow> (Inl RedisError, r')
   | (r', False) \<Rightarrow> (Inr \<lparr>IsSuccess = (is_success = 1), LockedUntil = map_option floor locked_until\<rparr>, r'))"

definition clearAttempts ::
    "'r lock_redis \<Rightarrow> int \<Rightarrow> 'r \<Rightarrow> string \<Rightarrow> duration \<Rightarrow> string \<Rightarrow> (lockout_error + unit) \<times> 'r" where
  "clearAttempts R now r key historyDuration contributor = (let
     rd = read_existing R now r key False contributor
   in case run_cmds (r_exec R) now r (clear_first key contributor rd) of
     (r', True) \<Rightarrow> (Inl RedisError, r')
   | (r', False) \<Rightarrow>
       (case run_cmds (r_exec R) now r' (clear_second key (Seconds historyDuration) now (r_TTL R now r' key)) of
          (r'', True) \<Rightarrow> (Inl RedisError, r'')
        | (r'', False) \<Rightarrow> (Inr (), r'')))"

section \<open>Storage and service\<close>

definition redisRecordKey :: "string \<Rightarrow> LockoutSpec \<Rightarrow> string" where
  "redisRecordKey appID spec = ''app:'' @ appID @ '':lockout:'' @ LockoutSpec_Key spec"

definition LockoutStorage_Update ::
    "'r lock_redis \<Rightarrow> string \<Rightarrow> int \<Rightarrow> 'r \<Rightarrow> LockoutSpec \<Rightarrow> string \<Rightarrow> int
     \<Rightarrow> (lockout_error + bool \<times> int option) \<times> 'r" where
  "LockoutStorage_Update R appID now r spec contributor delta =
     (case makeAttempts R now r (redisRecordKey appID spec) (SpecHistoryDuration spec)
        (SpecMaxAttempts spec) (SpecMinimumDuration spec) (SpecMaximumDuration spec)
        (SpecBackoffFactor spec) (SpecIsGlobal spec) contributor delta of
       (Inl err, r') \<Rightarrow> (Inl err, r')
     | (Inr res, r') \<Rightarrow> (Inr (IsSuccess res, LockedUntil res), r'))"

definition LockoutStorage_Clear ::
    "'r lock_redis \<Rightarrow> string \<Rightarrow> int \<Rightarrow> 'r \<Rightarrow> LockoutSpec \<Rightarrow> string \<Rightarrow> (lockout_error + unit) \<times> 'r" where
  "LockoutStorage_Clear R appID now r spec contributor =
     clearAttempts R now r (redisRecordKey appID spec) (SpecHistoryDuration spec) contributor"

definition ErrorIfLocked :: "int option \<Rightarrow> lockout_error option" where
  "ErrorIfLocked lockedUntil = (case lockedUntil of None \<Rightarrow> None | Some t \<Rightarrow> Some (ErrLocked t))"

text \<open>\<^verbatim>\<open>MakeAttempts\<close> returns its result's \<^verbatim>\<open>LockedUntil\<close>, and the error if there is one.\<close>

definition Service_MakeAttempts ::
    "'r lock_redis \<Rightarrow> string \<Rightarrow> int \<Rightarrow> 'r \<Rightarrow> LockoutSpec \<Rightarrow> string \<Rightarrow> int
     \<Rightarrow> (int option \<times> lockout_error option) \<times> 'r" where
  "Service_MakeAttempts R appID now r spec contributor attempts =
     (if \<not> SpecEnabled spec then ((None, None), r)
      else (case LockoutStorage_Update R appID now r spec contributor attempts of
        (Inl err, r') \<Rightarrow> ((None, Some err), r')
      | (Inr (isSuccess, lockedUntil), r') \<Rightarrow>
          if \<not> isSuccess then ((lockedUntil, ErrorIfLocked lockedUntil), r')
          else ((lockedUntil, None), r')))"

definition Service_ClearAttempts ::
    "'r lock_redis \<Rightarrow> string \<Rightarrow> int \<Rightarrow> 'r \<Rightarrow> LockoutSpec \<Rightarrow> string \<Rightarrow> lockout_error option \<times> 'r" where
  "Service_ClearAttempts R appID now r spec contributor =
     (if \<not> SpecEnabled spec then (None, r)
      else (case LockoutStorage_Clear R appID now r spec contributor of
        (Inl err, r') \<Rightarrow> (Some err, r')
      | (Inr _, r') \<Rightarrow> (None, r')))"

section \<open>Clients\<close>

text \<open>The client's configuration: the app, its lockout settings and the address of the caller.\<close>

record lockout_env =
  env_app :: string
  env_config :: "LockoutConfig option"
  env_remote_ip :: string

text \<open>The authenticator service and the MFA service have the same \<^verbatim>\<open>Check\<close>.\<close>

definition Lockout_Check ::
    "'r lock_redis \<Rightarrow> lockout_env \<Rightarrow> int \<Rightarrow> 'r \<Rightarrow> string \<Rightarrow> (lockout_error, unit) outcome \<times> 'r" where
  "Lockout_Check R env now r userID = (case SpecForCheck (env_config env) userID of
     Panic \<Rightarrow> (Panic, r)
   | Err e \<Rightarrow> (Err e, r)
   | Ok bucket \<Rightarrow> (case Service_MakeAttempts R (env_app env) now r bucket (env_remote_ip env) 0 of
       ((_, Some err), r') \<Rightarrow> (Err err, r')
     | ((_, None), r') \<Rightarrow> (Ok (), r')))"

definition attempt_on ::
    "'r lock_redis \<Rightarrow> lockout_env \<Rightarrow> int \<Rightarrow> 'r \<Rightarrow> (lockout_error, LockoutSpec) outcome \<Rightarrow> int
     \<Rightarrow> (lockout_error, unit) outcome \<times> 'r" where
  "attempt_on R env now r spec attempts = (case spec of
     Panic \<Rightarrow> (Panic, r)
   | Err e \<Rightarrow> (Err e, r)
   | Ok spec \<Rightarrow> (case Service_MakeAttempts R (env_app env) now r spec (env_remote_ip env) attempts of
       ((_, Some err), r') \<Rightarrow> (Err err, r')
     | ((lockedUntil, None), r') \<Rightarrow>
         (case ErrorIfLocked lockedUntil of Some err \<Rightarrow> (Err err, r') | None \<Rightarrow> (Ok (), r'))))"

definition Lockout_MakeAttempt ::
    "'r lock_redis \<Rightarrow> lockout_env \<Rightarrow> int \<Rightarrow> 'r \<Rightarrow> string \<Rightarrow> AuthenticatorType
     \<Rightarrow> (lockout_error, unit) outcome \<times> 'r" where
  "Lockout_MakeAttempt R env now r userID authenticatorType =
     (case LockoutMethodFromAuthenticatorType authenticatorType of
       None \<Rightarrow> (Ok (), r)
     | Some m \<Rightarrow> attempt_on R env now r (SpecForAttempt (env_config env) userID [m]) 1)"

definition Lockout_ClearAttempts ::
    "'r lock_redis \<Rightarrow> lockout_env \<Rightarrow> int \<Rightarrow> 'r \<Rightarrow> string \<Rightarrow> LockoutMethod list
     \<Rightarrow> (lockout_error, unit) outcome \<times> 'r" where
  "Lockout_ClearAttempts R env now r userID usedMethods =
     (case SpecForAttempt (env_config env) userID usedMethods of
       Panic \<Rightarrow> (Panic, r)
     | Err e \<Rightarrow> (Err e, r)
     | Ok bucket \<Rightarrow> (case Service_ClearAttempts R (env_app env) now r bucket (env_remote_ip env) of
         (Some err, r') \<Rightarrow> (Err err, r')
       | (None, r') \<Rightarrow> (Ok (), r')))"

definition MakeRecoveryCodeAttempt ::
    "'r lock_redis \<Rightarrow> lockout_env \<Rightarrow> int \<Rightarrow> 'r \<Rightarrow> string \<Rightarrow> int \<Rightarrow> (lockout_error, unit) outcome \<times> 'r" where
  "MakeRecoveryCodeAttempt R env now r userID attempts =
     attempt_on R env now r (SpecForAttempt (env_config env) userID [MethodRecoveryCode]) attempts"

section \<open>What the commands do\<close>

text \<open>
  A key holds a hash or a string, with a deadline in seconds if \<^verbatim>\<open>EXPIREAT\<close> gave it one; it is gone
  from the deadline on. \<open>hashes\<close> and \<open>strings\<close> are the values and deadlines of a store.
\<close>

definition live :: "int \<Rightarrow> int option \<Rightarrow> bool" where
  "live now deadline = (case deadline of None \<Rightarrow> True | Some e \<Rightarrow> now < e)"

definition fields_at :: "int \<Rightarrow> (string \<rightharpoonup> int) \<times> int option \<Rightarrow> string \<rightharpoonup> int" where
  "fields_at now h = (if live now (snd h) then fst h else Map.empty)"

definition deadline_at :: "int \<Rightarrow> (string \<rightharpoonup> int) \<times> int option \<Rightarrow> int option" where
  "deadline_at now h = (if live now (snd h) then snd h else None)"

definition string_at :: "int \<Rightarrow> (rat \<times> int option) option \<Rightarrow> rat option" where
  "string_at now s = (case s of None \<Rightarrow> None | Some (v, d) \<Rightarrow> if live now d then Some v else None)"

definition hash_with :: "(string \<rightharpoonup> int) \<Rightarrow> int option \<Rightarrow> (string \<rightharpoonup> int) \<times> int option" where
  "hash_with f d = (f, if f = Map.empty then None else d)"

locale redis_keys =
  fixes R :: "'r lock_redis"
    and hashes :: "'r \<Rightarrow> string \<Rightarrow> (string \<rightharpoonup> int) \<times> int option"
    and strings :: "'r \<Rightarrow> string \<Rightarrow> (rat \<times> int option) option"
  assumes HGET: "r_HGET R now r k f = fields_at now (hashes r k) f"
    and GET: "r_GET R now r k = string_at now (strings r k)"
    and TTL: "fields_at now (hashes r k) \<noteq> Map.empty \<Longrightarrow>
      (r_TTL R now r k < 0) = (deadline_at now (hashes r k) = None)"
    and HSET: "r_exec R now r (HSET k f n) = (r', err) \<Longrightarrow> \<not> err \<and> strings r' = strings r
      \<and> hashes r' = (hashes r)(k := hash_with ((fields_at now (hashes r k))(f \<mapsto> n)) (deadline_at now (hashes r k)))"
    and HDEL: "r_exec R now r (HDEL k f) = (r', err) \<Longrightarrow> \<not> err \<and> strings r' = strings r
      \<and> hashes r' = (hashes r)(k := hash_with ((fields_at now (hashes r k))(f := None)) (deadline_at now (hashes r k)))"
    and SET: "r_exec R now r (SET k v) = (r', err) \<Longrightarrow> \<not> err
      \<and> hashes r' = hashes r \<and> strings r' = (strings r)(k \<mapsto> (v, None))"
    and EXPIREAT: "r_exec R now r (EXPIREAT k e) = (r', err) \<Longrightarrow>
      (if e \<in> \<int> then \<not> err
         \<and> hashes r' = (hashes r)(k := hash_with (fields_at now (hashes r k)) (Some \<lfloor>e\<rfloor>))
         \<and> strings r' = (strings r)(k := map_option (\<lambda>v. (v, Some \<lfloor>e\<rfloor>)) (string_at now (strings r k)))
       else err \<and> r' = r)"
begin

lemma run_HSET: "\<exists>r'. run_cmds (r_exec R) now r (HSET k f n # cs) = run_cmds (r_exec R) now r' cs
    \<and> strings r' = strings r
    \<and> hashes r' = (hashes r)(k := hash_with ((fields_at now (hashes r k))(f \<mapsto> n)) (deadline_at now (hashes r k)))"
  using HSET [of now r k f n] by (cases "r_exec R now r (HSET k f n)") auto

lemma run_HDEL: "\<exists>r'. run_cmds (r_exec R) now r (HDEL k f # cs) = run_cmds (r_exec R) now r' cs
    \<and> strings r' = strings r
    \<and> hashes r' = (hashes r)(k := hash_with ((fields_at now (hashes r k))(f := None)) (deadline_at now (hashes r k)))"
  using HDEL [of now r k f] by (cases "r_exec R now r (HDEL k f)") auto

lemma run_SET: "\<exists>r'. run_cmds (r_exec R) now r (SET k v # cs) = run_cmds (r_exec R) now r' cs
    \<and> hashes r' = hashes r \<and> strings r' = (strings r)(k \<mapsto> (v, None))"
  using SET [of now r k v] by (cases "r_exec R now r (SET k v)") auto

lemma run_EXPIREAT: "e \<in> \<int> \<Longrightarrow> \<exists>r'. run_cmds (r_exec R) now r (EXPIREAT k e # cs) = run_cmds (r_exec R) now r' cs
    \<and> hashes r' = (hashes r)(k := hash_with (fields_at now (hashes r k)) (Some \<lfloor>e\<rfloor>))
    \<and> strings r' = (strings r)(k := map_option (\<lambda>v. (v, Some \<lfloor>e\<rfloor>)) (string_at now (strings r k)))"
  using EXPIREAT [of now r k e] by (cases "r_exec R now r (EXPIREAT k e)") auto

lemma run_EXPIREAT_error: "e \<notin> \<int> \<Longrightarrow> run_cmds (r_exec R) now r (EXPIREAT k e # cs) = (r, True)"
  using EXPIREAT [of now r k e] by (cases "r_exec R now r (EXPIREAT k e)") auto

end

section \<open>Attempts\<close>

lemma lock_key_neq [simp]: "lock_key k g c \<noteq> k" "k \<noteq> lock_key k g c"
proof -
  show "lock_key k g c \<noteq> k" by (simp add: lock_key_def)
  then show "k \<noteq> lock_key k g c" by metis
qed

lemma live_deadline_at [simp]: "live now (deadline_at now h)"
  by (simp add: deadline_at_def live_def split: option.split)

lemma fields_at_hash_with [simp]: "live now d \<Longrightarrow> fields_at now (hash_with F d) = F"
  by (simp add: fields_at_def hash_with_def live_def)

lemma deadline_at_hash_with [simp]:
  "F \<noteq> Map.empty \<Longrightarrow> live now d \<Longrightarrow> deadline_at now (hash_with F d) = d"
  by (simp add: deadline_at_def hash_with_def)

lemma hash_with_updated [simp]: "hash_with (F(k \<mapsto> v)) d = (F(k \<mapsto> v), d)"
  by (auto simp: hash_with_def fun_eq_iff split: if_splits)

text \<open>The totals and the lock an attempt arrives at, in terms of what it read.\<close>

definition new_total :: "attempt_args \<Rightarrow> lock_reads \<Rightarrow> int" where
  "new_total a rd = (if a_is_global a then or_zero (existing_global rd) else or_zero (existing_contributor rd))
     + a_new_attempts a"

definition new_lock :: "attempt_args \<Rightarrow> int \<Rightarrow> lock_reads \<Rightarrow> rat option" where
  "new_lock a now rd = (if new_total a rd \<ge> a_max_attempts a
     then Some (of_int now + lock_duration a (new_total a rd)) else existing_lock rd)"

lemma script_blocked:
  assumes "is_blocked_at now (existing_lock rd)"
  shows "makeAttemptsLuaScript k a now rd = ([], 0, existing_lock rd)"
  using assms by (simp add: makeAttemptsLuaScript_def Let_def)

lemma script_check:
  assumes "\<not> is_blocked_at now (existing_lock rd)" "a_new_attempts a < 1"
  shows "makeAttemptsLuaScript k a now rd = ([], 1, existing_lock rd)"
  using assms by (simp add: makeAttemptsLuaScript_def Let_def)

lemma script_attempt:
  assumes "\<not> is_blocked_at now (existing_lock rd)" "1 \<le> a_new_attempts a"
  shows "makeAttemptsLuaScript k a now rd =
    ([HSET k GLOBAL_TOTAL_KEY (or_zero (existing_global rd) + a_new_attempts a),
      HSET k (a_contributor a) (or_zero (existing_contributor rd) + a_new_attempts a),
      EXPIREAT k (of_int (now + a_history_duration a))] @
      (case new_lock a now rd of None \<Rightarrow> []
       | Some l \<Rightarrow> [SET (lock_key k (a_is_global a) (a_contributor a)) l,
                    EXPIREAT (lock_key k (a_is_global a) (a_contributor a)) l]),
     1, new_lock a now rd)"
  using assms by (simp add: makeAttemptsLuaScript_def Let_def new_lock_def new_total_def cong: option.case_cong)

context redis_keys begin

lemma run_count:
  "\<exists>r'. run_cmds (r_exec R) now r
      (HSET k f g # HSET k c n # EXPIREAT k (of_int e) # cs) = run_cmds (r_exec R) now r' cs
    \<and> hashes r' = (hashes r)(k := ((fields_at now (hashes r k))(f \<mapsto> g, c \<mapsto> n), Some e))
    \<and> (\<forall>l. l \<noteq> k \<longrightarrow> strings r' l = strings r l)"
proof -
  obtain r1 where 1: "run_cmds (r_exec R) now r (HSET k f g # HSET k c n # EXPIREAT k (of_int e) # cs)
        = run_cmds (r_exec R) now r1 (HSET k c n # EXPIREAT k (of_int e) # cs)"
    "strings r1 = strings r" "hashes r1 = (hashes r)(k := hash_with ((fields_at now (hashes r k))(f \<mapsto> g)) (deadline_at now (hashes r k)))"
    using run_HSET by blast
  obtain r2 where 2: "run_cmds (r_exec R) now r1 (HSET k c n # EXPIREAT k (of_int e) # cs)
        = run_cmds (r_exec R) now r2 (EXPIREAT k (of_int e) # cs)"
    "strings r2 = strings r1" "hashes r2 = (hashes r1)(k := hash_with ((fields_at now (hashes r1 k))(c \<mapsto> n)) (deadline_at now (hashes r1 k)))"
    using run_HSET by blast
  obtain r3 where 3: "run_cmds (r_exec R) now r2 (EXPIREAT k (of_int e) # cs) = run_cmds (r_exec R) now r3 cs"
    "hashes r3 = (hashes r2)(k := hash_with (fields_at now (hashes r2 k)) (Some \<lfloor>of_int e :: rat\<rfloor>))"
    "strings r3 = (strings r2)(k := map_option (\<lambda>v. (v, Some \<lfloor>of_int e :: rat\<rfloor>)) (string_at now (strings r2 k)))"
    using run_EXPIREAT [of "of_int e"] by (meson Ints_of_int)
  let ?F = "fields_at now (hashes r k)" let ?d = "deadline_at now (hashes r k)"
  have h1: "fields_at now (hashes r1 k) = ?F(f \<mapsto> g)" "deadline_at now (hashes r1 k) = ?d"
    using 1(3) by (auto simp: fields_at_def deadline_at_def live_def split: option.split)
  have h2: "fields_at now (hashes r2 k) = ?F(f \<mapsto> g, c \<mapsto> n)"
    using 2(3) h1 by (auto simp: fields_at_def live_def deadline_at_def split: option.split)
  have "hashes r3 = (hashes r)(k := (?F(f \<mapsto> g, c \<mapsto> n), Some e))"
    using 1(3) 2(3) 3(2) h2 by simp
  moreover have "\<forall>l. l \<noteq> k \<longrightarrow> strings r3 l = strings r l" using 1(2) 2(2) 3(3) by simp
  ultimately show ?thesis using 1(1) 2(1) 3(1) by metis
qed

lemma run_lock:
  "\<exists>r'. run_cmds (r_exec R) now r [SET l v, EXPIREAT l v] = (r', v \<notin> \<int>)
    \<and> strings r' l = Some (v, if v \<in> \<int> then Some \<lfloor>v\<rfloor> else None)
    \<and> (\<forall>k. k \<noteq> l \<longrightarrow> hashes r' k = hashes r k \<and> strings r' k = strings r k)"
proof -
  obtain r1 where 1: "run_cmds (r_exec R) now r [SET l v, EXPIREAT l v] = run_cmds (r_exec R) now r1 [EXPIREAT l v]"
    "hashes r1 = hashes r" "strings r1 = (strings r)(l \<mapsto> (v, None))"
    using run_SET by blast
  show ?thesis
  proof (cases "v \<in> \<int>")
    case True
    then obtain r2 where "run_cmds (r_exec R) now r1 [EXPIREAT l v] = run_cmds (r_exec R) now r2 []"
      "hashes r2 = (hashes r1)(l := hash_with (fields_at now (hashes r1 l)) (Some \<lfloor>v\<rfloor>))"
      "strings r2 = (strings r1)(l := map_option (\<lambda>v'. (v', Some \<lfloor>v\<rfloor>)) (string_at now (strings r1 l)))"
      using run_EXPIREAT by blast
    with 1 True show ?thesis by (intro exI [of _ r2]) (simp add: string_at_def live_def)
  next
    case False
    with 1 run_EXPIREAT_error [OF False, of now r1 l "[]"] show ?thesis
      by (intro exI [of _ r1]) (simp del: run_cmds.simps)
  qed
qed

text \<open>The arguments \<^verbatim>\<open>makeAttempts\<close> passes for a specification, and what the script reads then.\<close>

lemma run_attempt:
  assumes "\<not> is_blocked_at now (existing_lock rd)" "1 \<le> a_new_attempts a"
    and "rd = read_existing R now r k (a_is_global a) (a_contributor a)"
    and "makeAttemptsLuaScript k a now rd = (cmds, ok, lock)"
  shows "\<exists>r'. run_cmds (r_exec R) now r cmds = (r', \<exists>l. lock = Some l \<and> l \<notin> \<int>) \<and> ok = 1
    \<and> lock = new_lock a now rd
    \<and> hashes r' k = ((fields_at now (hashes r k))
        (GLOBAL_TOTAL_KEY \<mapsto> or_zero (existing_global rd) + a_new_attempts a,
         a_contributor a \<mapsto> or_zero (existing_contributor rd) + a_new_attempts a), Some (now + a_history_duration a))
    \<and> (\<forall>l. lock = Some l \<longrightarrow> strings r' (lock_key k (a_is_global a) (a_contributor a))
          = Some (l, if l \<in> \<int> then Some \<lfloor>l\<rfloor> else None))
    \<and> (\<forall>l. l \<noteq> k \<and> (l = lock_key k (a_is_global a) (a_contributor a) \<longrightarrow> lock = None) \<longrightarrow> strings r' l = strings r l)"
proof -
  let ?l = "lock_key k (a_is_global a) (a_contributor a)"
  let ?tail = "case lock of None \<Rightarrow> [] | Some l \<Rightarrow> [SET ?l l, EXPIREAT ?l l]"
  let ?counts = "[HSET k GLOBAL_TOTAL_KEY (or_zero (existing_global rd) + a_new_attempts a),
      HSET k (a_contributor a) (or_zero (existing_contributor rd) + a_new_attempts a),
      EXPIREAT k (of_int (now + a_history_duration a))]"
  note eq = trans [OF assms(4) [symmetric] script_attempt [OF assms(1,2), of k], unfolded prod.inject]
  from eq have lock: "lock = new_lock a now rd" by blast
  from eq [folded lock] have c: "cmds = ?counts @ ?tail" "ok = 1" by blast+
  obtain r1 where 1: "run_cmds (r_exec R) now r cmds = run_cmds (r_exec R) now r1 ?tail"
    "hashes r1 = (hashes r)(k := ((fields_at now (hashes r k))
        (GLOBAL_TOTAL_KEY \<mapsto> or_zero (existing_global rd) + a_new_attempts a,
         a_contributor a \<mapsto> or_zero (existing_contributor rd) + a_new_attempts a), Some (now + a_history_duration a)))"
    "\<And>l. l \<noteq> k \<Longrightarrow> strings r1 l = strings r l"
    using run_count [of now r k GLOBAL_TOTAL_KEY "or_zero (existing_global rd) + a_new_attempts a" "a_contributor a"
        "or_zero (existing_contributor rd) + a_new_attempts a" "now + a_history_duration a" ?tail]
    unfolding c(1) append_Cons append_Nil by blast
  show ?thesis
  proof (cases lock)
    case None
    from 1(1) None have "run_cmds (r_exec R) now r cmds = (r1, False)" by simp
    with 1(2,3) c(2) None show ?thesis by (intro exI [of _ r1]) (simp add: lock [symmetric])
  next
    case (Some l)
    obtain r2 where "run_cmds (r_exec R) now r1 [SET ?l l, EXPIREAT ?l l] = (r2, l \<notin> \<int>)"
      "strings r2 ?l = Some (l, if l \<in> \<int> then Some \<lfloor>l\<rfloor> else None)"
      "\<And>k. k \<noteq> ?l \<Longrightarrow> hashes r2 k = hashes r1 k \<and> strings r2 k = strings r1 k"
      using run_lock by blast
    moreover from this(1) 1(1) Some have "run_cmds (r_exec R) now r cmds = (r2, l \<notin> \<int>)"
      by (simp del: run_cmds.simps)
    ultimately show ?thesis using 1(2,3) c(2) Some
      by (intro exI [of _ r2]) (simp add: lock [symmetric])
  qed
qed

end

section \<open>The service\<close>

definition service_reads :: "'r lock_redis \<Rightarrow> string \<Rightarrow> int \<Rightarrow> 'r \<Rightarrow> LockoutSpec \<Rightarrow> string \<Rightarrow> lock_reads" where
  "service_reads R app now r spec c = read_existing R now r (redisRecordKey app spec) (SpecIsGlobal spec) c"

definition service_args :: "LockoutSpec \<Rightarrow> string \<Rightarrow> int \<Rightarrow> attempt_args" where
  "service_args spec c n = \<lparr>a_history_duration = Seconds (SpecHistoryDuration spec),
     a_max_attempts = SpecMaxAttempts spec, a_min_duration = Seconds (SpecMinimumDuration spec),
     a_max_duration = Seconds (SpecMaximumDuration spec), a_backoff_factor = SpecBackoffFactor spec,
     a_is_global = SpecIsGlobal spec, a_contributor = c, a_new_attempts = n\<rparr>"

lemma service_args_simps [simp]:
  "a_is_global (service_args spec c n) = SpecIsGlobal spec" "a_contributor (service_args spec c n) = c"
  "a_new_attempts (service_args spec c n) = n" "a_max_attempts (service_args spec c n) = SpecMaxAttempts spec"
  "a_history_duration (service_args spec c n) = Seconds (SpecHistoryDuration spec)"
  by (simp_all add: service_args_def)

lemma Service_MakeAttempts_eq:
  assumes "SpecEnabled spec"
    and "makeAttemptsLuaScript (redisRecordKey app spec) (service_args spec c n) now (service_reads R app now r spec c)
      = (cmds, ok, lock)"
  shows "Service_MakeAttempts R app now r spec c n = (case run_cmds (r_exec R) now r cmds of
      (r', True) \<Rightarrow> ((None, Some RedisError), r')
    | (r', False) \<Rightarrow> ((map_option floor lock, if ok = 1 then None else ErrorIfLocked (map_option floor lock)), r'))"
  using assms
  by (simp add: Service_MakeAttempts_def LockoutStorage_Update_def makeAttempts_def
      service_args_def service_reads_def Let_def split: prod.split bool.split)

lemma Service_blocked:
  assumes "SpecEnabled spec" "existing_lock (service_reads R app now r spec c) = Some l" "of_int now < l"
  shows "Service_MakeAttempts R app now r spec c n = ((Some \<lfloor>l\<rfloor>, Some (ErrLocked \<lfloor>l\<rfloor>)), r)"
proof -
  have "makeAttemptsLuaScript (redisRecordKey app spec) (service_args spec c n) now (service_reads R app now r spec c)
      = ([], 0, Some l)"
    using assms by (simp add: script_blocked is_blocked_at_def)
  from Service_MakeAttempts_eq [OF assms(1) this] show ?thesis by (simp add: ErrorIfLocked_def)
qed

lemma Service_check:
  assumes "SpecEnabled spec" "\<not> is_blocked_at now (existing_lock (service_reads R app now r spec c))" "n < 1"
  shows "Service_MakeAttempts R app now r spec c n =
    ((map_option floor (existing_lock (service_reads R app now r spec c)), None), r)"
  using Service_MakeAttempts_eq [OF assms(1), of app c n now R r] script_check [OF assms(2), of "service_args spec c n"] assms(3)
  by simp

context redis_keys begin

lemma Service_attempt:
  assumes "SpecEnabled spec" "rd = service_reads R app now r spec c"
    and "\<not> is_blocked_at now (existing_lock rd)" "1 \<le> n" "lock = new_lock (service_args spec c n) now rd"
  shows "\<exists>r'. Service_MakeAttempts R app now r spec c n =
        (if \<exists>l. lock = Some l \<and> l \<notin> \<int> then (None, Some RedisError) else (map_option floor lock, None), r')
    \<and> hashes r' (redisRecordKey app spec) = ((fields_at now (hashes r (redisRecordKey app spec)))
        (GLOBAL_TOTAL_KEY \<mapsto> or_zero (existing_global rd) + n, c \<mapsto> or_zero (existing_contributor rd) + n),
        Some (now + Seconds (SpecHistoryDuration spec)))
    \<and> (\<forall>l. lock = Some l \<longrightarrow> strings r' (lock_key (redisRecordKey app spec) (SpecIsGlobal spec) c)
          = Some (l, if l \<in> \<int> then Some \<lfloor>l\<rfloor> else None))
    \<and> (\<forall>l. l \<noteq> redisRecordKey app spec \<and> (l = lock_key (redisRecordKey app spec) (SpecIsGlobal spec) c \<longrightarrow> lock = None)
          \<longrightarrow> strings r' l = strings r l)"
proof -
  obtain cmds ok lock' where s: "makeAttemptsLuaScript (redisRecordKey app spec) (service_args spec c n) now rd = (cmds, ok, lock')"
    by (cases "makeAttemptsLuaScript (redisRecordKey app spec) (service_args spec c n) now rd")
  have rd: "rd = read_existing R now r (redisRecordKey app spec) (a_is_global (service_args spec c n))
      (a_contributor (service_args spec c n))"
    using assms(2) by (simp add: service_reads_def)
  have n1: "1 \<le> a_new_attempts (service_args spec c n)" using assms(4) by simp
  from run_attempt [OF assms(3) n1 rd s] obtain r' where r':
    "run_cmds (r_exec R) now r cmds = (r', \<exists>l. lock' = Some l \<and> l \<notin> \<int>)" "ok = 1" and lock: "lock' = lock"
    and rest: "hashes r' (redisRecordKey app spec) = ((fields_at now (hashes r (redisRecordKey app spec)))
        (GLOBAL_TOTAL_KEY \<mapsto> or_zero (existing_global rd) + n, c \<mapsto> or_zero (existing_contributor rd) + n),
        Some (now + Seconds (SpecHistoryDuration spec)))"
    "\<forall>l. lock' = Some l \<longrightarrow> strings r' (lock_key (redisRecordKey app spec) (SpecIsGlobal spec) c)
          = Some (l, if l \<in> \<int> then Some \<lfloor>l\<rfloor> else None)"
    "\<forall>l. l \<noteq> redisRecordKey app spec \<and> (l = lock_key (redisRecordKey app spec) (SpecIsGlobal spec) c \<longrightarrow> lock' = None)
          \<longrightarrow> strings r' l = strings r l"
    using assms(5) by auto
  have "Service_MakeAttempts R app now r spec c n =
        (if \<exists>l. lock = Some l \<and> l \<notin> \<int> then (None, Some RedisError) else (map_option floor lock, None), r')"
    using Service_MakeAttempts_eq [OF assms(1) s [unfolded assms(2)]] r' lock
    by (cases "\<exists>l. lock = Some l \<and> l \<notin> \<int>") auto
  with rest lock show ?thesis by blast
qed

end

section \<open>Locks\<close>

text \<open>Every lock in the store expires when it ends, if \<^verbatim>\<open>EXPIREAT\<close> accepted its end at all.\<close>

definition locks_written :: "('r \<Rightarrow> string \<Rightarrow> (rat \<times> int option) option) \<Rightarrow> 'r \<Rightarrow> bool" where
  "locks_written strings r \<longleftrightarrow> (\<forall>k l d. strings r k = Some (l, Some d) \<longrightarrow> d = \<lfloor>l\<rfloor>)"

definition locked_at :: "('r \<Rightarrow> string \<Rightarrow> (rat \<times> int option) option) \<Rightarrow> 'r \<Rightarrow> string \<Rightarrow> int \<Rightarrow> bool" where
  "locked_at strings r k L \<longleftrightarrow> (\<exists>l d. strings r k = Some (l, d) \<and> \<lfloor>l\<rfloor> = L \<and> (d = None \<or> d = Some L))"

context redis_keys begin

lemma existing_lock_read:
  "existing_lock (service_reads R app now r spec c)
     = string_at now (strings r (lock_key (redisRecordKey app spec) (SpecIsGlobal spec) c))"
  by (simp add: service_reads_def read_existing_def GET)

lemma locked_at_blocks:
  assumes "locked_at strings r (lock_key (redisRecordKey app spec) (SpecIsGlobal spec) c) L" "now < L" "SpecEnabled spec"
  shows "Service_MakeAttempts R app now r spec c n = ((Some L, Some (ErrLocked L)), r)"
proof -
  from assms(1) obtain l d where l: "strings r (lock_key (redisRecordKey app spec) (SpecIsGlobal spec) c) = Some (l, d)"
    "\<lfloor>l\<rfloor> = L" "d = None \<or> d = Some L" by (auto simp: locked_at_def)
  then have "existing_lock (service_reads R app now r spec c) = Some l"
    using assms(2) by (auto simp: existing_lock_read string_at_def live_def)
  moreover have "of_int now < l" using assms(2) l(2) by linarith
  ultimately show ?thesis using Service_blocked [OF assms(3)] l(2) by metis
qed

text \<open>An attempt that reports a lock, as an error or as a result, leaves that lock in the store.\<close>

lemma Service_locks:
  assumes "locks_written strings r" "SpecEnabled spec" "1 \<le> n"
    and "Service_MakeAttempts R app now r spec c n = ((lu, err), r')"
    and "err = Some (ErrLocked L) \<or> err = None \<and> lu = Some L"
  shows "locked_at strings r' (lock_key (redisRecordKey app spec) (SpecIsGlobal spec) c) L"
proof (cases "is_blocked_at now (existing_lock (service_reads R app now r spec c))")
  case True
  then obtain l where l: "existing_lock (service_reads R app now r spec c) = Some l" "of_int now < l"
    by (auto simp: is_blocked_at_def split: option.splits)
  from Service_blocked [OF assms(2) l] assms(4,5) have "L = \<lfloor>l\<rfloor>" "r' = r" by auto
  then show ?thesis
    using l(1) assms(1) by (auto simp: existing_lock_read string_at_def locked_at_def locks_written_def split: option.splits prod.splits if_splits)
      (metis not_Some_eq)
next
  case False
  from Service_attempt [OF assms(2) refl False assms(3) refl] assms(4,5) show ?thesis
    by (auto simp: locked_at_def split: if_splits)
qed

end

section \<open>A key store\<close>

text \<open>Redis as two maps, with the documented effect of each command; it provides \<open>redis_keys\<close>.\<close>

record rstore =
  rs_hashes :: "string \<Rightarrow> (string \<times> int) list \<times> int option"
  rs_strings :: "string \<Rightarrow> (rat \<times> int option) option"

definition rs_now :: "int \<Rightarrow> (string \<times> int) list \<times> int option \<Rightarrow> (string \<times> int) list \<times> int option" where
  "rs_now now h = (if live now (snd h) then h else ([], None))"

definition rs_keep :: "(string \<times> int) list \<Rightarrow> int option \<Rightarrow> (string \<times> int) list \<times> int option" where
  "rs_keep fs d = (fs, if fs = [] then None else d)"

fun rs_exec :: "rstore redis_exec" where
  "rs_exec now r (HSET k f n) = (let (fs, d) = rs_now now (rs_hashes r k) in
     (r\<lparr>rs_hashes := (rs_hashes r)(k := rs_keep ((f, n) # fs) d)\<rparr>, False))"
| "rs_exec now r (HDEL k f) = (let (fs, d) = rs_now now (rs_hashes r k) in
     (r\<lparr>rs_hashes := (rs_hashes r)(k := rs_keep (filter (\<lambda>(f', n). f' \<noteq> f) fs) d)\<rparr>, False))"
| "rs_exec now r (SET k v) = (r\<lparr>rs_strings := (rs_strings r)(k \<mapsto> (v, None))\<rparr>, False)"
| "rs_exec now r (EXPIREAT k e) = (if of_int \<lfloor>e\<rfloor> = e
     then (r\<lparr>rs_hashes := (rs_hashes r)(k := rs_keep (fst (rs_now now (rs_hashes r k))) (Some \<lfloor>e\<rfloor>)),
             rs_strings := (rs_strings r)(k := (case string_at now (rs_strings r k) of
               None \<Rightarrow> None | Some v \<Rightarrow> Some (v, Some \<lfloor>e\<rfloor>)))\<rparr>, False)
     else (r, True))"

definition rs_redis :: "rstore lock_redis" where
  "rs_redis = \<lparr>r_exec = rs_exec,
     r_HGET = (\<lambda>now r k f. map_of (fst (rs_now now (rs_hashes r k))) f),
     r_GET = (\<lambda>now r k. string_at now (rs_strings r k)),
     r_TTL = (\<lambda>now r k. case rs_now now (rs_hashes r k) of ([], _) \<Rightarrow> - 2
        | (_, None) \<Rightarrow> - 1 | (_, Some e) \<Rightarrow> e - now)\<rparr>"

definition rs_view :: "rstore \<Rightarrow> string \<Rightarrow> (string \<rightharpoonup> int) \<times> int option" where
  "rs_view r k = (map_of (fst (rs_hashes r k)), snd (rs_hashes r k))"

lemma rs_view_now: "fields_at now (rs_view r k) = map_of (fst (rs_now now (rs_hashes r k)))"
  "deadline_at now (rs_view r k) = snd (rs_now now (rs_hashes r k))"
  by (simp_all add: fields_at_def deadline_at_def rs_now_def rs_view_def)

lemma map_of_filter_neq: "map_of (filter (\<lambda>(f', n). f' \<noteq> f) fs) = (map_of fs)(f := None)"
  by (induction fs) (auto simp: fun_eq_iff)

lemma rs_keep_view: "map_of fs = F \<Longrightarrow> (map_of (fst (rs_keep fs d)), snd (rs_keep fs d)) = hash_with F d"
  by (auto simp: rs_keep_def hash_with_def)

lemma rs_view_upd: "rs_view (r\<lparr>rs_hashes := (rs_hashes r)(k := h)\<rparr>) = (rs_view r)(k := (map_of (fst h), snd h))"
  by (auto simp: rs_view_def fun_eq_iff)

lemma Ints_floor: "(e \<in> \<int>) = (of_int \<lfloor>e\<rfloor> = (e :: rat))"
  by (metis Ints_cases Ints_of_int floor_of_int)

interpretation rs: redis_keys rs_redis rs_view rs_strings
proof unfold_locales
  fix now r k f n r' err v e
  show "r_HGET rs_redis now r k f = fields_at now (rs_view r k) f"
    by (simp add: rs_redis_def rs_view_now)
  show "r_GET rs_redis now r k = string_at now (rs_strings r k)"
    by (simp add: rs_redis_def)
  show "fields_at now (rs_view r k) \<noteq> Map.empty \<Longrightarrow> (r_TTL rs_redis now r k < 0) = (deadline_at now (rs_view r k) = None)"
    by (cases "rs_hashes r k")
      (auto simp: rs_redis_def rs_view_now rs_now_def live_def split: list.splits option.splits if_splits)
  show "r_exec rs_redis now r (HSET k f n) = (r', err) \<Longrightarrow> \<not> err \<and> rs_strings r' = rs_strings r
      \<and> rs_view r' = (rs_view r)(k := hash_with ((fields_at now (rs_view r k))(f \<mapsto> n)) (deadline_at now (rs_view r k)))"
    by (auto simp: rs_redis_def rs_view_upd rs_view_now rs_keep_def Let_def split: prod.splits)
  show "r_exec rs_redis now r (HDEL k f) = (r', err) \<Longrightarrow> \<not> err \<and> rs_strings r' = rs_strings r
      \<and> rs_view r' = (rs_view r)(k := hash_with ((fields_at now (rs_view r k))(f := None)) (deadline_at now (rs_view r k)))"
    by (auto simp: rs_redis_def rs_view_upd rs_view_now rs_keep_view [OF map_of_filter_neq] Let_def
        split: prod.splits)
  show "r_exec rs_redis now r (SET k v) = (r', err) \<Longrightarrow> \<not> err
      \<and> rs_view r' = rs_view r \<and> rs_strings r' = (rs_strings r)(k \<mapsto> (v, None))"
    by (auto simp: rs_redis_def rs_view_def)
  show "r_exec rs_redis now r (EXPIREAT k e) = (r', err) \<Longrightarrow>
      (if e \<in> \<int> then \<not> err
         \<and> rs_view r' = (rs_view r)(k := hash_with (fields_at now (rs_view r k)) (Some \<lfloor>e\<rfloor>))
         \<and> rs_strings r' = (rs_strings r)(k := map_option (\<lambda>v. (v, Some \<lfloor>e\<rfloor>)) (string_at now (rs_strings r k)))
       else err \<and> r' = r)"
    using rs_keep_view [OF refl, of "fst (rs_now now (rs_hashes r k))" "Some \<lfloor>e\<rfloor>"]
    by (auto simp: rs_redis_def Ints_floor rs_view_def rs_view_now [unfolded rs_view_def] fun_eq_iff split: option.split if_splits)
qed

definition rs_empty :: rstore where
  "rs_empty = \<lparr>rs_hashes = (\<lambda>k. ([], None)), rs_strings = Map.empty\<rparr>"

section \<open>Specifications a configuration gives\<close>

lemma any_method_enabled_single:
  "any_method_enabled cfg [m] False = bind_oc (method_enabled cfg m) (\<lambda>b. Ok (if b then True else False))"
  by simp

lemma SpecForCheck_Ok:
  "(SpecForCheck cfg u = Ok spec) \<longleftrightarrow> (\<exists>c. cfg = Some c \<and>
     (if \<not> IsEnabled cfg then spec = newDisabledLockoutSpec
      else \<exists>b. BackoffFactor c = Some b \<and> spec = newLockoutSpec ''AccountAuthentication'' True (MaxAttempts c)
        (HistoryDuration c) (MinimumDuration c) (MaximumDuration c) b (LockoutType c = PerUser) [u]))"
  by (cases cfg) (auto simp: SpecForCheck_def Let_def)

lemma SpecForAttempt_Ok:
  assumes "SpecForAttempt cfg u ms = Ok spec"
  shows "spec = newDisabledLockoutSpec \<or> SpecForCheck cfg u = Ok spec"
  using assms by (auto simp: SpecForAttempt_def split: if_splits)

lemma attempt_on_Err:
  assumes "attempt_on R env now r spec n = (Err (ErrLocked L), r')" "\<And>e. spec \<noteq> Err e"
  shows "\<exists>s lu err. spec = Ok s \<and> SpecEnabled s
    \<and> Service_MakeAttempts R (env_app env) now r s (env_remote_ip env) n = ((lu, err), r')
    \<and> (err = Some (ErrLocked L) \<or> err = None \<and> lu = Some L)"
proof (cases spec)
  case (Ok s)
  obtain lu err r'' where s: "Service_MakeAttempts R (env_app env) now r s (env_remote_ip env) n = ((lu, err), r'')"
    by (metis prod.collapse)
  have "SpecEnabled s"
  proof (rule ccontr)
    assume "\<not> SpecEnabled s"
    then show False using assms(1) Ok by (simp add: attempt_on_def Service_MakeAttempts_def ErrorIfLocked_def)
  qed
  with assms(1) Ok s show ?thesis
    by (auto simp: attempt_on_def ErrorIfLocked_def split: option.splits)
next
  case (Err e)
  then show ?thesis using assms(2) by simp
next
  case Panic
  then show ?thesis using assms(1) by (simp add: attempt_on_def)
qed

lemma SpecForAttempt_not_Err: "SpecForAttempt cfg u ms \<noteq> Err e"
proof -
  have m: "method_enabled cfg m \<noteq> Err e" for m e
    by (cases cfg; cases m) (simp_all add: method_enabled_def)
  have "any_method_enabled cfg ms b \<noteq> Err e" for b e
    by (induction ms arbitrary: b) (auto simp: bind_oc_Err_conv m)
  moreover have "SpecForCheck cfg u \<noteq> Err e" for e
    by (cases cfg) (auto simp: SpecForCheck_def Let_def bind_oc_Err_conv)
  ultimately show ?thesis by (auto simp: SpecForAttempt_def bind_oc_Err_conv)
qed

section \<open>Properties\<close>


definition demo_lockout :: lockout_env where
  "demo_lockout = \<lparr>env_app = ''app'', env_config = Some \<lparr>MaxAttempts = 1, HistoryDuration = 60000000000,
     MinimumDuration = 10000000000, MaximumDuration = 30000000000, BackoffFactor = Some 2, LockoutType = PerUser,
     PasswordEnabled = Some True, TotpEnabled = Some False, OOBOTPEnabled = Some False,
     RecoveryCodeEnabled = Some False\<rparr>, env_remote_ip = ''1.1.1.1''\<rparr>"

definition demo_attempt :: "int \<Rightarrow> rstore \<Rightarrow> (lockout_error, unit) outcome \<times> rstore" where
  "demo_attempt now r = Lockout_MakeAttempt rs_redis demo_lockout now r ''u'' TypePassword"

lemma locks_written_empty: "locks_written rs_strings rs_empty"
  by (simp add: locks_written_def rs_empty_def)


section \<open>Bookkeeping\<close>

definition contributions :: "(string \<rightharpoonup> int) \<Rightarrow> int" where
  "contributions F = (\<Sum>c \<in> dom F - {GLOBAL_TOTAL_KEY}. the (F c))"

definition balanced :: "(string \<rightharpoonup> int) \<Rightarrow> bool" where
  "balanced F \<longleftrightarrow> finite (dom F) \<and> (\<forall>c n. F c = Some n \<longrightarrow> 0 \<le> n)
     \<and> or_zero (F GLOBAL_TOTAL_KEY) = contributions F"

lemma balanced_empty [simp]: "balanced Map.empty"
  by (simp add: balanced_def contributions_def or_zero_def)

lemma contributions_split:
  assumes "finite (dom F)" "c \<noteq> GLOBAL_TOTAL_KEY"
  shows "contributions F = or_zero (F c) + (\<Sum>c \<in> dom F - {GLOBAL_TOTAL_KEY, c}. the (F c))"
proof (cases "c \<in> dom F")
  case True
  then have "dom F - {GLOBAL_TOTAL_KEY} = insert c (dom F - {GLOBAL_TOTAL_KEY, c})" using assms(2) by auto
  then have "contributions F = (\<Sum>x \<in> insert c (dom F - {GLOBAL_TOTAL_KEY, c}). the (F x))"
    by (simp only: contributions_def)
  also have "\<dots> = the (F c) + (\<Sum>x \<in> dom F - {GLOBAL_TOTAL_KEY, c}. the (F x))"
    using assms(1) by (intro sum.insert) auto
  finally show ?thesis using True by (auto simp: or_zero_def)
next
  case False
  then have "dom F - {GLOBAL_TOTAL_KEY, c} = dom F - {GLOBAL_TOTAL_KEY}" by auto
  with False show ?thesis by (auto simp: contributions_def or_zero_def domIff)
qed

lemma contributions_rest:
  assumes "\<And>x. x \<noteq> c \<Longrightarrow> x \<noteq> GLOBAL_TOTAL_KEY \<Longrightarrow> F' x = F x"
  shows "(\<Sum>x \<in> dom F' - {GLOBAL_TOTAL_KEY, c}. the (F' x)) = (\<Sum>x \<in> dom F - {GLOBAL_TOTAL_KEY, c}. the (F x))"
  using assms by (intro sum.cong) (auto simp: domIff)

lemma balanced_count:
  assumes "balanced F" "c \<noteq> GLOBAL_TOTAL_KEY" "0 \<le> n"
  shows "balanced (F(GLOBAL_TOTAL_KEY \<mapsto> or_zero (F GLOBAL_TOTAL_KEY) + n, c \<mapsto> or_zero (F c) + n))" (is "balanced ?F")
proof -
  have fin: "finite (dom F)" "finite (dom ?F)" using assms(1) by (auto simp: balanced_def)
  have nonneg: "0 \<le> or_zero (F x)" for x using assms(1) by (auto simp: balanced_def or_zero_def split: option.split)
  have "contributions ?F = contributions F + n"
    using contributions_split [OF fin(1) assms(2)] contributions_split [OF fin(2) assms(2)]
      contributions_rest [of c ?F F] by (simp add: or_zero_def)
  then have "or_zero (?F GLOBAL_TOTAL_KEY) = contributions ?F"
    using assms(1,2) by (simp add: or_zero_def balanced_def)
  moreover have "\<forall>x m. ?F x = Some m \<longrightarrow> 0 \<le> m"
    using assms(1,3) nonneg [of GLOBAL_TOTAL_KEY] nonneg [of c] by (auto simp: balanced_def)
  ultimately show ?thesis using fin(2) unfolding balanced_def by blast
qed

lemma balanced_clear:
  assumes "balanced F" "c \<noteq> GLOBAL_TOTAL_KEY"
  shows "balanced (F(GLOBAL_TOTAL_KEY \<mapsto> max (or_zero (F GLOBAL_TOTAL_KEY) - or_zero (F c)) 0, c := None))" (is "balanced ?F")
proof -
  have fin: "finite (dom F)" "finite (dom ?F)" using assms(1) by (auto simp: balanced_def)
  let ?rest = "\<Sum>x \<in> dom F - {GLOBAL_TOTAL_KEY, c}. the (F x)"
  have rest: "0 \<le> ?rest" using assms(1) by (intro sum_nonneg) (auto simp: balanced_def)
  have "contributions ?F = ?rest"
    using contributions_split [OF fin(2) assms(2)] contributions_rest [of c ?F F] by (simp add: or_zero_def)
  moreover have "or_zero (F GLOBAL_TOTAL_KEY) - or_zero (F c) = ?rest"
    using assms(1) contributions_split [OF fin(1) assms(2)] by (simp add: balanced_def)
  ultimately have "or_zero (?F GLOBAL_TOTAL_KEY) = contributions ?F"
    using assms(2) rest by (simp add: or_zero_def)
  moreover have "\<forall>x m. ?F x = Some m \<longrightarrow> 0 \<le> m"
    using assms(1) by (auto simp: balanced_def)
  ultimately show ?thesis using fin(2) unfolding balanced_def by blast
qed

lemma fields_at_later: "now \<le> t \<Longrightarrow> fields_at t h = fields_at now h \<or> fields_at t h = Map.empty"
  by (auto simp: fields_at_def live_def split: option.splits)

context redis_keys begin

lemma run_clear:
  assumes "rd = read_existing R now r k False c" "c \<noteq> GLOBAL_TOTAL_KEY"
  shows "\<exists>r'. clearAttempts R now r k history c = (Inr (), r')
    \<and> hashes r' k = ((fields_at now (hashes r k))
        (GLOBAL_TOTAL_KEY \<mapsto> max (or_zero (existing_global rd) - or_zero (existing_contributor rd)) 0, c := None),
        Some (case deadline_at now (hashes r k) of None \<Rightarrow> now + Seconds history | Some e \<Rightarrow> e))
    \<and> (\<forall>l. l \<noteq> k \<longrightarrow> strings r' l = strings r l \<and> hashes r' l = hashes r l)"
proof -
  let ?g = "max (or_zero (existing_global rd) - or_zero (existing_contributor rd)) 0"
  let ?F = "fields_at now (hashes r k)" let ?d = "deadline_at now (hashes r k)"
  obtain r1 where 1: "run_cmds (r_exec R) now r (HSET k GLOBAL_TOTAL_KEY ?g # [HDEL k c]) = run_cmds (r_exec R) now r1 [HDEL k c]"
    "strings r1 = strings r" "hashes r1 = (hashes r)(k := hash_with (?F(GLOBAL_TOTAL_KEY \<mapsto> ?g)) ?d)"
    using run_HSET by blast
  obtain r2 where 2: "run_cmds (r_exec R) now r1 [HDEL k c] = run_cmds (r_exec R) now r2 []"
    "strings r2 = strings r1"
    "hashes r2 = (hashes r1)(k := hash_with ((fields_at now (hashes r1 k))(c := None)) (deadline_at now (hashes r1 k)))"
    using run_HDEL by blast
  let ?F2 = "?F(GLOBAL_TOTAL_KEY \<mapsto> ?g, c := None)"
  have ne: "?F2 \<noteq> Map.empty" using assms(2) by (auto simp: fun_eq_iff)
  have h1: "fields_at now (hashes r1 k) = ?F(GLOBAL_TOTAL_KEY \<mapsto> ?g)" "deadline_at now (hashes r1 k) = ?d"
    using 1(3) fields_at_hash_with [OF live_deadline_at, where F = "?F(GLOBAL_TOTAL_KEY \<mapsto> ?g)"]
      deadline_at_hash_with [OF _ live_deadline_at, where F = "?F(GLOBAL_TOTAL_KEY \<mapsto> ?g)"]
    by (simp_all del: hash_with_updated)
  have h2: "hashes r2 = (hashes r)(k := (?F2, ?d))"
    using 2(3) 1(3) h1 ne by (simp add: hash_with_def)
  then have f2: "fields_at now (hashes r2 k) = ?F2" "deadline_at now (hashes r2 k) = ?d"
    by (simp_all add: fields_at_def deadline_at_def) (simp_all add: deadline_at_def live_def split: option.splits)
  have first: "run_cmds (r_exec R) now r (clear_first k c rd) = (r2, False)"
    using 1(1) 2(1) by (simp add: clear_first_def Let_def)
  show ?thesis
  proof (cases ?d)
    case (Some e)
    then have "\<not> r_TTL R now r2 k < 0" using TTL [of now r2 k] f2 ne by simp
    with first assms(1) Some h2 1(2) 2(2) show ?thesis
      by (intro exI [of _ r2]) (simp add: clearAttempts_def clear_second_def)
  next
    case None
    then have ttl: "r_TTL R now r2 k < 0" using TTL [of now r2 k] f2 ne by simp
    obtain r3 where 3: "run_cmds (r_exec R) now r2 [EXPIREAT k (of_int (now + Seconds history))] = run_cmds (r_exec R) now r3 []"
      "hashes r3 = (hashes r2)(k := hash_with (fields_at now (hashes r2 k)) (Some \<lfloor>of_int (now + Seconds history) :: rat\<rfloor>))"
      "strings r3 = (strings r2)(k := map_option (\<lambda>v. (v, Some \<lfloor>of_int (now + Seconds history) :: rat\<rfloor>)) (string_at now (strings r2 k)))"
      using run_EXPIREAT by (meson Ints_of_int)
    have "run_cmds (r_exec R) now r2 (clear_second k (Seconds history) now (r_TTL R now r2 k)) = (r3, False)"
      using ttl 3(1) by (simp add: clear_second_def)
    with first assms(1) None h2 1(2) 2(2) 3(2,3) f2 ne show ?thesis
      by (intro exI [of _ r3]) (simp add: clearAttempts_def hash_with_def)
  qed
qed

end

section \<open>Histories\<close>

text \<open>What any sequence of service calls makes of the record \<open>key\<close>, in the order of time.\<close>

inductive lockout_history ::
    "'r lock_redis \<Rightarrow> string \<Rightarrow> string \<Rightarrow> int \<Rightarrow> 'r \<Rightarrow> int \<Rightarrow> 'r \<Rightarrow> bool"
  for R :: "'r lock_redis" and app key :: string and t0 :: int and r0 :: 'r where
  start: "lockout_history R app key t0 r0 t0 r0"
| attempt: "lockout_history R app key t0 r0 t r \<Longrightarrow> t \<le> now \<Longrightarrow> redisRecordKey app spec = key \<Longrightarrow>
    c \<noteq> GLOBAL_TOTAL_KEY \<Longrightarrow> Service_MakeAttempts R app now r spec c n = (res, r') \<Longrightarrow>
    lockout_history R app key t0 r0 now r'"
| clear: "lockout_history R app key t0 r0 t r \<Longrightarrow> t \<le> now \<Longrightarrow> redisRecordKey app spec = key \<Longrightarrow>
    c \<noteq> GLOBAL_TOTAL_KEY \<Longrightarrow> Service_ClearAttempts R app now r spec c = (res', r') \<Longrightarrow>
    lockout_history R app key t0 r0 now r'"

lemma balanced_fields_at: "balanced F \<Longrightarrow> balanced (fields_at now (F, d))"
  by (simp add: fields_at_def)

lemma balanced_later: "balanced (fields_at now h) \<Longrightarrow> now \<le> t \<Longrightarrow> balanced (fields_at t h)"
  using fields_at_later [of now t h] by auto

context redis_keys begin

lemma reads_totals:
  "existing_global (service_reads R app now r spec c) = fields_at now (hashes r (redisRecordKey app spec)) GLOBAL_TOTAL_KEY"
  "existing_contributor (service_reads R app now r spec c) = fields_at now (hashes r (redisRecordKey app spec)) c"
  by (simp_all add: service_reads_def read_existing_def HGET)

lemma Service_MakeAttempts_balanced:
  assumes "balanced (fields_at now (hashes r (redisRecordKey app spec)))" "c \<noteq> GLOBAL_TOTAL_KEY"
    and "Service_MakeAttempts R app now r spec c n = (res, r')"
  shows "balanced (fields_at now (hashes r' (redisRecordKey app spec)))"
proof -
  let ?rd = "service_reads R app now r spec c"
  consider (off) "\<not> SpecEnabled spec" | (blocked) l where "SpecEnabled spec" "existing_lock ?rd = Some l" "of_int now < l"
    | (check) "SpecEnabled spec" "\<not> is_blocked_at now (existing_lock ?rd)" "n < 1"
    | (count) "SpecEnabled spec" "\<not> is_blocked_at now (existing_lock ?rd)" "1 \<le> n"
    by (cases "SpecEnabled spec"; cases "existing_lock ?rd") (force simp: is_blocked_at_def)+
  then show ?thesis
  proof cases
    case off
    then show ?thesis using assms(1,3) by (simp add: Service_MakeAttempts_def)
  next
    case blocked
    then show ?thesis using assms(1,3) Service_blocked [OF blocked, of n] by simp
  next
    case check
    then show ?thesis using assms(1,3) Service_check [OF check] by simp
  next
    case count
    from Service_attempt [OF count(1) refl count(2,3) refl] assms(3)
    have h: "hashes r' (redisRecordKey app spec) = ((fields_at now (hashes r (redisRecordKey app spec)))
        (GLOBAL_TOTAL_KEY \<mapsto> or_zero (existing_global ?rd) + n, c \<mapsto> or_zero (existing_contributor ?rd) + n),
        Some (now + Seconds (SpecHistoryDuration spec)))"
      by auto
    show ?thesis
      using balanced_fields_at [OF balanced_count [OF assms(1,2), of n]] count(3) h by (simp add: reads_totals)
  qed
qed

lemma Service_ClearAttempts_eq:
  assumes "SpecEnabled spec" "c \<noteq> GLOBAL_TOTAL_KEY"
  shows "\<exists>r'. Service_ClearAttempts R app now r spec c = (None, r')
    \<and> hashes r' (redisRecordKey app spec) = ((fields_at now (hashes r (redisRecordKey app spec)))
        (GLOBAL_TOTAL_KEY \<mapsto> max (or_zero (fields_at now (hashes r (redisRecordKey app spec)) GLOBAL_TOTAL_KEY)
           - or_zero (fields_at now (hashes r (redisRecordKey app spec)) c)) 0, c := None),
        Some (case deadline_at now (hashes r (redisRecordKey app spec)) of
          None \<Rightarrow> now + Seconds (SpecHistoryDuration spec) | Some e \<Rightarrow> e))
    \<and> (\<forall>l. l \<noteq> redisRecordKey app spec \<longrightarrow> strings r' l = strings r l \<and> hashes r' l = hashes r l)"
  using run_clear [OF refl assms(2), of now r "redisRecordKey app spec" "SpecHistoryDuration spec"] assms(1)
  by (auto simp: Service_ClearAttempts_def LockoutStorage_Clear_def read_existing_def HGET)

lemma Service_ClearAttempts_balanced:
  assumes "balanced (fields_at now (hashes r (redisRecordKey app spec)))" "c \<noteq> GLOBAL_TOTAL_KEY"
    and "Service_ClearAttempts R app now r spec c = (res, r')"
  shows "balanced (fields_at now (hashes r' (redisRecordKey app spec)))"
proof (cases "SpecEnabled spec")
  case False
  then show ?thesis using assms by (simp add: Service_ClearAttempts_def)
next
  case True
  show ?thesis
    using Service_ClearAttempts_eq [OF True assms(2), of app now r] assms(3)
      balanced_fields_at [OF balanced_clear [OF assms(1,2)]] by auto
qed

lemma history_balanced:
  assumes "lockout_history R app key t0 r0 t r" "balanced (fields_at t0 (hashes r0 key))"
  shows "balanced (fields_at t (hashes r key))"
  using assms
proof (induction rule: lockout_history.induct)
  case start
  then show ?case .
next
  case (attempt t r now spec c n res r')
  then show ?case using Service_MakeAttempts_balanced balanced_later by metis
next
  case (clear t r now spec c res' r')
  then show ?case using Service_ClearAttempts_balanced balanced_later by metis
qed

end

text \<open>C33: the books balance: starting without a record, whatever attempts and clearings follow in the
  order of time, under whatever specifications, the total the record holds is at every moment the sum
  of what its contributors hold, none of it negative.\<close>

theorem lockout_total_is_sum_of_contributors:
  assumes "redis_keys R hashes strings" "fields_at t0 (hashes r0 key) = Map.empty"
    and "lockout_history R app key t0 r0 t r" "t \<le> now"
  shows "balanced (fields_at now (hashes r key))"
  using redis_keys.history_balanced [OF assms(1,3)] assms(2,4) balanced_later by fastforce

definition demo_spec :: "rat \<Rightarrow> LockoutSpec" where
  "demo_spec factor = newLockoutSpec ''A'' True 2 60000000000 1000000000 30000000000 factor False [''u'']"

lemma demo_spec_simps [simp]: "SpecEnabled (demo_spec f)" "SpecMaxAttempts (demo_spec f) = 2"
  by (simp_all add: demo_spec_def newLockoutSpec_def)

definition demo_make :: "rat \<Rightarrow> int \<Rightarrow> string \<Rightarrow> rstore \<Rightarrow> (int option \<times> lockout_error option) \<times> rstore" where
  "demo_make factor now c r = Service_MakeAttempts rs_redis ''app'' now r (demo_spec factor) c 1"

theorem lockout_total_is_sum_of_contributors_witness:
  "balanced (fields_at 120 (rs_view (snd (demo_make 2 110 ''y'' (snd (demo_make 2 100 ''x'' rs_empty))))
     (redisRecordKey ''app'' (demo_spec 2))))"
proof -
  let ?k = "redisRecordKey ''app'' (demo_spec 2)"
  let ?r1 = "snd (demo_make 2 100 ''x'' rs_empty)" let ?r2 = "snd (demo_make 2 110 ''y'' ?r1)"
  have k: "redisRecordKey ''app'' (demo_spec 2) = ?k" ..
  have c: "''x'' \<noteq> GLOBAL_TOTAL_KEY" "''y'' \<noteq> GLOBAL_TOTAL_KEY" by (simp_all add: GLOBAL_TOTAL_KEY_def)
  have m: "Service_MakeAttempts rs_redis ''app'' t r (demo_spec 2) u 1 = (fst (demo_make 2 t u r), snd (demo_make 2 t u r))" for t r u
    by (simp add: demo_make_def)
  have "lockout_history rs_redis ''app'' ?k 100 rs_empty 100 ?r1"
    using lockout_history.attempt [OF lockout_history.start _ k c(1) m] by simp
  from lockout_history.attempt [OF this _ k c(2) m, of 110]
  have h: "lockout_history rs_redis ''app'' ?k 100 rs_empty 110 ?r2" by simp
  show ?thesis
    using lockout_total_is_sum_of_contributors [OF rs.redis_keys_axioms _ h, of 120]
    by (simp add: rs_view_def rs_empty_def fields_at_def)
qed

text \<open>A successful login forgives only its own address: clearing removes the caller's count, takes
  exactly that from the total, and leaves the other contributors' counts, the end of the history
  window and every lock as they were.\<close>

theorem clear_attempts_exact:
  assumes "redis_keys R hashes strings" "SpecEnabled spec" "c \<noteq> GLOBAL_TOTAL_KEY"
    and "balanced (fields_at now (hashes r (redisRecordKey app spec)))"
    and "F = fields_at now (hashes r (redisRecordKey app spec))"
    and "Service_ClearAttempts R app now r spec c = (res, r')"
  shows "res = None \<and> fst (hashes r' (redisRecordKey app spec))
       = F(GLOBAL_TOTAL_KEY \<mapsto> contributions F - or_zero (F c), c := None)
    \<and> (\<forall>e. deadline_at now (hashes r (redisRecordKey app spec)) = Some e \<longrightarrow>
         snd (hashes r' (redisRecordKey app spec)) = Some e)
    \<and> strings r' (lock_key (redisRecordKey app spec) g x) = strings r (lock_key (redisRecordKey app spec) g x)"
proof -
  have "0 \<le> (\<Sum>x \<in> dom F - {GLOBAL_TOTAL_KEY, c}. the (F x))" "finite (dom F)"
    and t: "or_zero (F GLOBAL_TOTAL_KEY) = contributions F"
    using assms(4,5) by (auto simp: balanced_def intro!: sum_nonneg)
  then have "max (or_zero (F GLOBAL_TOTAL_KEY) - or_zero (F c)) 0 = contributions F - or_zero (F c)"
    using contributions_split [OF _ assms(3)] by simp
  with redis_keys.Service_ClearAttempts_eq [OF assms(1-3), of app now r] assms(5,6)
  show ?thesis by auto
qed

theorem clear_attempts_exact_witness:
  "fst (rs_view (snd (Service_ClearAttempts rs_redis ''app'' 100 rs_empty (demo_spec 2) ''x''))
     (redisRecordKey ''app'' (demo_spec 2))) = [GLOBAL_TOTAL_KEY \<mapsto> 0]"
proof -
  have m: "Service_ClearAttempts rs_redis ''app'' 100 rs_empty (demo_spec 2) ''x'' =
    (fst (Service_ClearAttempts rs_redis ''app'' 100 rs_empty (demo_spec 2) ''x''),
     snd (Service_ClearAttempts rs_redis ''app'' 100 rs_empty (demo_spec 2) ''x''))" by simp
  have e: "fields_at 100 (rs_view rs_empty k) = Map.empty" for k
    by (simp add: rs_view_def rs_empty_def fields_at_def)
  have "SpecEnabled (demo_spec 2)" "''x'' \<noteq> GLOBAL_TOTAL_KEY"
    by (simp_all add: demo_spec_def newLockoutSpec_def GLOBAL_TOTAL_KEY_def)
  with clear_attempts_exact [OF rs.redis_keys_axioms _ _ _ refl m] show ?thesis
    by (simp add: e contributions_def or_zero_def)
qed

text \<open>When and for how long an account locks. With a whole backoff factor, an attempt made while no
  lock is in force locks exactly when it brings the count to the maximum, from now until the minimum
  duration times the factor to the power of the excess, at most the maximum duration.\<close>

theorem lockout_exact:
  assumes "redis_keys R hashes strings" "SpecEnabled spec" "1 \<le> n"
    and "existing_lock (service_reads R app now r spec c) = None"
    and "SpecBackoffFactor spec = of_nat f"
    and "F = fields_at now (hashes r (redisRecordKey app spec))"
    and "T = or_zero (F (if SpecIsGlobal spec then GLOBAL_TOTAL_KEY else c)) + n"
  shows "fst (Service_MakeAttempts R app now r spec c n) =
    (if T < SpecMaxAttempts spec then None
     else Some (now + min (Seconds (SpecMinimumDuration spec) * int f ^ nat (T - SpecMaxAttempts spec))
                          (Seconds (SpecMaximumDuration spec))), None)"
proof -
  let ?rd = "service_reads R app now r spec c" let ?a = "service_args spec c n"
  let ?d = "min (Seconds (SpecMinimumDuration spec) * int f ^ nat (T - SpecMaxAttempts spec))
                (Seconds (SpecMaximumDuration spec))"
  have T: "new_total ?a ?rd = T"
    using assms(6,7) by (simp add: new_total_def redis_keys.reads_totals [OF assms(1)])
  have "lock_duration ?a T = of_int ?d"
    using assms(5) by (simp add: lock_duration_def service_args_def of_int_min)
  then have l: "new_lock ?a now ?rd = (if T < SpecMaxAttempts spec then None else Some (of_int (now + ?d)))"
    using T assms(4) by (simp add: new_lock_def)
  have "\<not> is_blocked_at now (existing_lock ?rd)" using assms(4) by (simp add: is_blocked_at_def)
  from redis_keys.Service_attempt [OF assms(1,2) refl this assms(3) refl, unfolded l]
  show ?thesis by (auto simp: Ints_of_int simp del: of_int_add)
qed

theorem lockout_exact_witness:
  "fst (Service_MakeAttempts rs_redis ''app'' 100 rs_empty (demo_spec 2) ''x'' 3) = (Some 102, None)"
  using lockout_exact [OF rs.redis_keys_axioms, of "demo_spec 2" 3 "''app''" 100 rs_empty "''x''" 2, OF _ _ _ _ refl refl]
  by (simp add: demo_spec_def newLockoutSpec_def service_reads_def read_existing_def rs_redis_def rs_empty_def
      string_at_def fields_at_def rs_view_def or_zero_def Seconds_def)

text \<open>The backoff is monotone and bounded: more attempts never lock for less time, and every lock lasts
  between the minimum and the maximum duration.\<close>

theorem lock_duration_monotone_bounded:
  assumes "0 \<le> a_min_duration a" "1 \<le> a_backoff_factor a" "m \<le> m'"
  shows "lock_duration a m \<le> lock_duration a m' \<and> lock_duration a m' \<le> of_int (a_max_duration a)
    \<and> of_int (min (a_min_duration a) (a_max_duration a)) \<le> lock_duration a m"
proof -
  let ?p = "\<lambda>m. of_int (a_min_duration a) * a_backoff_factor a ^ nat (m - a_max_attempts a)"
  have "a_backoff_factor a ^ nat (m - a_max_attempts a) \<le> a_backoff_factor a ^ nat (m' - a_max_attempts a)"
    using assms(2,3) by (intro power_increasing) auto
  then have "?p m \<le> ?p m'" using assms(1) by (intro mult_left_mono) auto
  moreover have "of_int (a_min_duration a) * 1 \<le> ?p m"
    using assms(1,2) by (intro mult_left_mono one_le_power) auto
  ultimately show ?thesis by (auto simp: lock_duration_def of_int_min min_le_iff_disj)
qed

theorem lock_duration_monotone_bounded_witness:
  "lock_duration (service_args (demo_spec (3 / 2)) ''x'' 1) 3 \<le> lock_duration (service_args (demo_spec (3 / 2)) ''x'' 1) 5"
  using lock_duration_monotone_bounded [of "service_args (demo_spec (3 / 2)) ''x'' 1" 3 5]
  by (simp add: service_args_def demo_spec_def newLockoutSpec_def Seconds_def)



end
