(* ===== verification/Proc.thy ===== *)
theory Proc imports Prelude begin

text \<open>
  Procedures: Go methods that change state, may return an error and may panic. A procedure takes the
  state and gives the outcome and the state after it; what an operation changed before it failed
  stays changed. \<open>bindp\<close> is sequencing with \<^verbatim>\<open>if err != nil { return err }\<close>, \<open>attempt\<close> hands the
  error to the caller, \<open>with_defer\<close> runs a deferred call whatever the outcome.
\<close>

type_synonym ('s, 'e, 'a) proc = "'s \<Rightarrow> ('e, 'a) outcome \<times> 's"

definition ret :: "'a \<Rightarrow> ('s, 'e, 'a) proc" where
  "ret x = (\<lambda>s. (Ok x, s))"

definition failp :: "'e \<Rightarrow> ('s, 'e, 'a) proc" where
  "failp e = (\<lambda>s. (Err e, s))"

definition panicp :: "('s, 'e, 'a) proc" where
  "panicp = (\<lambda>s. (Panic, s))"

definition bindp :: "('s, 'e, 'a) proc \<Rightarrow> ('a \<Rightarrow> ('s, 'e, 'b) proc) \<Rightarrow> ('s, 'e, 'b) proc" where
  "bindp m f = (\<lambda>s. case m s of
     (Ok x, s') \<Rightarrow> f x s' | (Err e, s') \<Rightarrow> (Err e, s') | (Panic, s') \<Rightarrow> (Panic, s'))"

definition attempt :: "('s, 'e, 'a) proc \<Rightarrow> ('s, 'e, 'e + 'a) proc" where
  "attempt m = (\<lambda>s. case m s of
     (Ok x, s') \<Rightarrow> (Ok (Inr x), s') | (Err e, s') \<Rightarrow> (Ok (Inl e), s') | (Panic, s') \<Rightarrow> (Panic, s'))"

definition ignore_err :: "('s, 'e, 'a) proc \<Rightarrow> ('s, 'e, unit) proc" where
  "ignore_err m = bindp (attempt m) (\<lambda>_. ret ())"

definition getp :: "('s \<Rightarrow> 'a) \<Rightarrow> ('s, 'e, 'a) proc" where
  "getp f = (\<lambda>s. (Ok (f s), s))"

definition modp :: "('s \<Rightarrow> 's) \<Rightarrow> ('s, 'e, unit) proc" where
  "modp f = (\<lambda>s. (Ok (), f s))"

fun lift_oc :: "('x, 'a) outcome \<Rightarrow> ('s, 'e, 'a) proc" where
  "lift_oc (Ok x) = ret x"
| "lift_oc (Err _) = panicp"
| "lift_oc Panic = panicp"

definition with_defer :: "('s, 'e, 'a) proc \<Rightarrow> ('s \<Rightarrow> 's) \<Rightarrow> ('s, 'e, 'a) proc" where
  "with_defer m f = (\<lambda>s. case m s of (r, s') \<Rightarrow> (r, f s'))"

section \<open>Running\<close>

lemmas proc_defs = ret_def failp_def panicp_def bindp_def attempt_def ignore_err_def getp_def modp_def
  with_defer_def

lemma bindp_simps [simp]:
  "bindp (ret x) f = f x" "bindp (failp e) f = failp e" "bindp panicp f = panicp"
  "bindp (getp g) f s = f (g s) s" "bindp (modp h) f' s = f' () (h s)"
  by (simp_all add: proc_defs)

lemma bindp_assoc: "bindp (bindp m f) g = bindp m (\<lambda>x. bindp (f x) g)"
  by (auto simp: bindp_def fun_eq_iff split: prod.split outcome.split)

lemma run_simps:
  "ret x s = (Ok x, s)" "failp e s = (Err e, s)" "panicp s = (Panic, s)"
  "getp f s = (Ok (f s), s)" "modp h s = (Ok (), h s)"
  by (simp_all add: proc_defs)

lemma bindp_Ok: "(bindp m f s = (Ok y, s'')) = (\<exists>x s'. m s = (Ok x, s') \<and> f x s' = (Ok y, s''))"
  by (auto simp: bindp_def split: prod.splits outcome.splits)

lemma bindp_run:
  "m s = (Ok x, s') \<Longrightarrow> bindp m f s = f x s'"
  "m s = (Err e, s') \<Longrightarrow> bindp m f s = (Err e, s')"
  "m s = (Panic, s') \<Longrightarrow> bindp m f s = (Panic, s')"
  by (simp_all add: bindp_def)

lemma attempt_run:
  "m s = (Ok x, s') \<Longrightarrow> attempt m s = (Ok (Inr x), s')"
  "m s = (Err e, s') \<Longrightarrow> attempt m s = (Ok (Inl e), s')"
  "m s = (Panic, s') \<Longrightarrow> attempt m s = (Panic, s')"
  by (simp_all add: attempt_def)

lemma attempt_Ok:
  "attempt m w = (Ok y, w') \<longleftrightarrow> (\<exists>x. y = Inr x \<and> m w = (Ok x, w')) \<or> (\<exists>e. y = Inl e \<and> m w = (Err e, w'))"
  by (auto simp: attempt_def split: prod.splits outcome.splits)

section \<open>Invariants\<close>

text \<open>A procedure keeps a relation between the state before and after it, whatever its outcome.\<close>

definition keeps :: "('s \<Rightarrow> 's \<Rightarrow> bool) \<Rightarrow> ('s, 'e, 'a) proc \<Rightarrow> bool" where
  "keeps R m \<longleftrightarrow> (\<forall>s. R s (snd (m s)))"

named_theorems keeps_intros \<open>rules that show a procedure keeps a relation\<close>

lemma keepsD: "keeps R m \<Longrightarrow> m s = (r, s') \<Longrightarrow> R s s'"
  by (auto simp: keeps_def dest: spec [of _ s])

lemma keeps_ret [keeps_intros]: "reflp R \<Longrightarrow> keeps R (ret x)"
  by (simp add: keeps_def reflpD run_simps)

lemma keeps_failp [keeps_intros]: "reflp R \<Longrightarrow> keeps R (failp e)"
  by (simp add: keeps_def reflpD run_simps)

lemma keeps_panicp [keeps_intros]: "reflp R \<Longrightarrow> keeps R panicp"
  by (simp add: keeps_def reflpD run_simps)

lemma keeps_getp [keeps_intros]: "reflp R \<Longrightarrow> keeps R (getp f)"
  by (simp add: keeps_def reflpD run_simps)

lemma keeps_lift_oc [keeps_intros]: "reflp R \<Longrightarrow> keeps R (lift_oc oc)"
  by (cases oc) (simp_all add: keeps_def reflpD run_simps)

lemma keeps_bindp [keeps_intros]:
  "transp R \<Longrightarrow> keeps R m \<Longrightarrow> (\<And>x. keeps R (f x)) \<Longrightarrow> keeps R (bindp m f)"
  unfolding keeps_def bindp_def
  by (auto split: prod.split outcome.split elim: transpE) (metis transpE snd_conv)+

lemma keeps_attempt [keeps_intros]: "keeps R m \<Longrightarrow> keeps R (attempt m)"
  by (auto simp: keeps_def attempt_def split: prod.split outcome.split) (metis snd_conv)+

lemma keeps_modp [keeps_intros]: "(\<And>s. R s (h s)) \<Longrightarrow> keeps R (modp h)"
  by (simp add: keeps_def run_simps)

lemma keeps_with_defer [keeps_intros]:
  "transp R \<Longrightarrow> keeps R m \<Longrightarrow> (\<And>s. R s (f s)) \<Longrightarrow> keeps R (with_defer m f)"
  by (auto simp: keeps_def with_defer_def split: prod.split) (metis transpE snd_conv)

lemma keeps_ignore_err [keeps_intros]: "reflp R \<Longrightarrow> transp R \<Longrightarrow> keeps R m \<Longrightarrow> keeps R (ignore_err m)"
  unfolding ignore_err_def by (intro keeps_intros)

lemma keeps_case_prod [keeps_intros]: "(\<And>a b. keeps R (g a b)) \<Longrightarrow> keeps R (case p of (a, b) \<Rightarrow> g a b)"
  by (cases p) simp

text \<open>Case distinctions whose branches all keep the relation.\<close>

lemma keeps_sum: "(\<And>a. keeps R (f a)) \<Longrightarrow> (\<And>b. keeps R (g b)) \<Longrightarrow> keeps R (case x of Inl a \<Rightarrow> f a | Inr b \<Rightarrow> g b)"
  by (cases x) simp_all

lemma keeps_option: "keeps R f \<Longrightarrow> (\<And>b. keeps R (g b)) \<Longrightarrow> keeps R (case x of None \<Rightarrow> f | Some b \<Rightarrow> g b)"
  by (cases x) simp_all

lemma keeps_if: "(b \<Longrightarrow> keeps R f) \<Longrightarrow> (\<not> b \<Longrightarrow> keeps R g) \<Longrightarrow> keeps R (if b then f else g)"
  by simp

lemma keeps_outcome:
  "(\<And>x. keeps R (f x)) \<Longrightarrow> (\<And>e. keeps R (g e)) \<Longrightarrow> keeps R h \<Longrightarrow> keeps R (case r of Ok x \<Rightarrow> f x | Err e \<Rightarrow> g e | Panic \<Rightarrow> h)"
  by (cases r) auto

lemmas keeps_cases = keeps_sum keeps_option keeps_if

lemma keeps_rest:
  assumes "bindp m g w = (res, w')" "m w = (r1, w1)" "\<And>x. keeps R (g x)" "reflp R"
  shows "R w1 w' \<and> (is_ok res \<longrightarrow> is_ok r1)"
proof (cases r1)
  case (Ok x)
  with assms(1,2) have "g x w1 = (res, w')" by (simp add: bindp_run)
  with keepsD [OF assms(3) [of x]] Ok show ?thesis by simp
qed (use assms in \<open>auto simp: bindp_run reflpD\<close>)

end
