(* ===== verification/OtpKind.thy ===== *)
theory OtpKind imports Proc Limiter begin

text \<open>
  One-time passwords: purposes, forms, codes and kinds, \<^verbatim>\<open>pkg/lib/authn/otp\<close> (\<^verbatim>\<open>code.go\<close>,
  \<^verbatim>\<open>form.go\<close>, \<^verbatim>\<open>kind*.go\<close>, \<^verbatim>\<open>utils.go\<close>, \<^verbatim>\<open>models.go\<close>, \<^verbatim>\<open>state.go\<close>, \<^verbatim>\<open>errors.go\<close>) and the
  comparisons of \<^verbatim>\<open>pkg/util/secretcode\<close>. Random codes, MD5 and regular expressions are arguments.
\<close>

section \<open>Forms and codes\<close>

type_synonym Purpose = string

definition PurposeForgotPassword :: Purpose where "PurposeForgotPassword = ''forgot-password''"
definition PurposeOOBOTP :: Purpose where "PurposeOOBOTP = ''oob-otp''"
definition PurposeVerification :: Purpose where "PurposeVerification = ''verification''"

datatype Form = FormCode | FormLink | FormOther string

text \<open>The zero value of \<^verbatim>\<open>OOBChannel\<close> is the empty string; a JSON pointer is its list of tokens.\<close>

record OtpCode =
  Target :: string
  code_Purpose :: Purpose
  code_Form :: Form
  code_Code :: string
  ExpireAt :: time
  Consumed :: bool
  UserInputtedCode :: string
  code_UserID :: string
  WebSessionID :: string
  WorkflowID :: string
  FlowWebsocketChannelName :: string
  FlowType :: string
  FlowName :: string
  FlowJSONPointer :: "string list"
  OOBChannel :: AuthenticatorOOBChannel
  WhatsappMessageID :: string
  SendMessageError :: "string option"

definition AllowLookupByCode :: "Form \<Rightarrow> bool" where
  "AllowLookupByCode f \<longleftrightarrow> f = FormLink"

datatype secretCode = OOBOTPSecretCode | LinkOTPSecretCode

definition codeType :: "Form \<Rightarrow> (unit, secretCode) outcome" where
  "codeType f = (case f of FormCode \<Rightarrow> Ok OOBOTPSecretCode | FormLink \<Rightarrow> Ok LinkOTPSecretCode
     | FormOther _ \<Rightarrow> Panic)"

definition secretCode_Length :: "secretCode \<Rightarrow> int" where
  "secretCode_Length c = (case c of OOBOTPSecretCode \<Rightarrow> 6 | LinkOTPSecretCode \<Rightarrow> 32)"

definition CodeLength :: "Form \<Rightarrow> (unit, int) outcome" where
  "CodeLength f = bind_oc (codeType f) (\<lambda>c. Ok (secretCode_Length c))"

text \<open>\<^verbatim>\<open>strings.TrimSpace\<close> on ASCII strings.\<close>

definition go_space :: "char \<Rightarrow> bool" where
  "go_space c \<longleftrightarrow> c \<in> {CHR 0x09, CHR 0x0A, CHR 0x0B, CHR 0x0C, CHR 0x0D, CHR 0x20}"

definition TrimSpace :: "string \<Rightarrow> string" where
  "TrimSpace s = rev (dropWhile go_space (rev (dropWhile go_space s)))"

text \<open>Both code types compare the same way.\<close>

definition Compare :: "secretCode \<Rightarrow> string \<Rightarrow> string \<Rightarrow> bool" where
  "Compare c a b \<longleftrightarrow> TrimSpace a = TrimSpace b"

definition VerifyCode :: "Form \<Rightarrow> string \<Rightarrow> string \<Rightarrow> (unit, bool) outcome" where
  "VerifyCode f input expected = bind_oc (codeType f) (\<lambda>c. Ok (Compare c input expected))"

text \<open>The app's fixed-code rules (a rule's code, if the target matches), and the plan's.\<close>

record test_mode =
  FixedOOBOTP_Enabled :: bool
  FixedOOBOTP_MatchTarget :: "string \<Rightarrow> string option"
  feature_FixedOOBOTP_Enabled :: bool
  feature_FixedOOBOTP_Code :: string
  feature_DeterministicLinkOTP_Enabled :: bool

definition GenerateCode :: "(secretCode \<Rightarrow> string) \<Rightarrow> (string \<Rightarrow> string) \<Rightarrow> test_mode \<Rightarrow> Form \<Rightarrow> string \<Rightarrow> string
    \<Rightarrow> (unit, string) outcome" where
  "GenerateCode Generate md5hex cfg f target userID = bind_oc (codeType f) (\<lambda>c. case c of
     OOBOTPSecretCode \<Rightarrow>
       (case if FixedOOBOTP_Enabled cfg then FixedOOBOTP_MatchTarget cfg target else None of
          Some fixedCode \<Rightarrow>
            (let fixedOTP = (if fixedCode = '''' \<and> feature_FixedOOBOTP_Enabled cfg
                 then feature_FixedOOBOTP_Code cfg else fixedCode)
             in Ok (if fixedOTP = '''' then Generate c else fixedOTP))
        | None \<Rightarrow> Ok (if feature_FixedOOBOTP_Enabled cfg then feature_FixedOOBOTP_Code cfg else Generate c))
   | LinkOTPSecretCode \<Rightarrow>
       Ok (if feature_DeterministicLinkOTP_Enabled cfg then md5hex userID else Generate c))"

section \<open>Kinds\<close>

text \<open>The settings the kinds read from the app's configuration.\<close>

record otp_config =
  RateLimits :: app_config
  ForgotPassword_ValidPeriods_Link :: duration
  ForgotPassword_ValidPeriods_Code :: duration
  ForgotPassword_Email_TriggerCooldown :: duration
  ForgotPassword_SMS_TriggerCooldown :: duration
  OOB_Email_ValidPeriods_Code :: duration
  OOB_Email_ValidPeriods_Link :: duration
  OOB_SMS_ValidPeriods_Code :: duration
  OOB_SMS_ValidPeriods_Link :: duration
  OOBOTP_Email_TriggerCooldown :: duration
  OOBOTP_SMS_TriggerCooldown :: duration
  OOBOTP_Email_MaxFailedAttemptsRevokeOTP :: int
  OOBOTP_SMS_MaxFailedAttemptsRevokeOTP :: int
  Verification_CodeValidPeriod :: duration
  Verification_Email_TriggerCooldown :: duration
  Verification_SMS_TriggerCooldown :: duration
  Verification_Email_MaxFailedAttemptsRevokeOTP :: int
  Verification_SMS_MaxFailedAttemptsRevokeOTP :: int

datatype Kind =
    kindForgotPassword otp_config AuthenticatorOOBChannel Form
  | kindOOBOTP otp_config AuthenticatorOOBChannel Purpose Form
  | kindVerification otp_config AuthenticatorOOBChannel

definition KindForgotPasswordLink :: "otp_config \<Rightarrow> AuthenticatorOOBChannel \<Rightarrow> Kind" where
  "KindForgotPasswordLink config channel = kindForgotPassword config channel FormLink"

definition KindForgotPasswordOTP :: "otp_config \<Rightarrow> AuthenticatorOOBChannel \<Rightarrow> Kind" where
  "KindForgotPasswordOTP config channel = kindForgotPassword config channel FormCode"

definition KindOOBOTPCode :: "otp_config \<Rightarrow> AuthenticatorOOBChannel \<Rightarrow> Kind" where
  "KindOOBOTPCode config channel = kindOOBOTP config channel PurposeOOBOTP FormCode"

definition KindOOBOTPLink :: "otp_config \<Rightarrow> AuthenticatorOOBChannel \<Rightarrow> Kind" where
  "KindOOBOTPLink config channel = kindOOBOTP config channel PurposeOOBOTP FormLink"

definition KindOOBOTPWithForm :: "otp_config \<Rightarrow> AuthenticatorOOBChannel \<Rightarrow> Form \<Rightarrow> Kind" where
  "KindOOBOTPWithForm config channel form = kindOOBOTP config channel PurposeOOBOTP form"

definition KindVerification :: "otp_config \<Rightarrow> AuthenticatorOOBChannel \<Rightarrow> Kind" where
  "KindVerification config channel = kindVerification config channel"

definition kindForgotPassword_Purpose :: "otp_config \<Rightarrow> AuthenticatorOOBChannel \<Rightarrow> Form
    \<Rightarrow> Purpose" where
  [simp]: "kindForgotPassword_Purpose config channel form = PurposeForgotPassword"

definition kindOOBOTP_Purpose :: "otp_config \<Rightarrow> AuthenticatorOOBChannel \<Rightarrow> Purpose \<Rightarrow> Form
    \<Rightarrow> Purpose" where
  [simp]: "kindOOBOTP_Purpose config channel purpose form = purpose"

definition kindVerification_Purpose :: "otp_config \<Rightarrow> AuthenticatorOOBChannel
    \<Rightarrow> Purpose" where
  [simp]: "kindVerification_Purpose config channel = PurposeVerification"

fun KindPurpose :: "Kind \<Rightarrow> Purpose" where
  "KindPurpose (kindForgotPassword config channel form) = kindForgotPassword_Purpose config channel form"
| "KindPurpose (kindOOBOTP config channel purpose form) = kindOOBOTP_Purpose config channel purpose form"
| "KindPurpose (kindVerification config channel) = kindVerification_Purpose config channel"

definition kindForgotPassword_ValidPeriod :: "otp_config \<Rightarrow> AuthenticatorOOBChannel \<Rightarrow> Form
    \<Rightarrow> (unit, duration) outcome" where
  [simp]: "kindForgotPassword_ValidPeriod config channel form = (case form of
     FormLink \<Rightarrow> Ok (ForgotPassword_ValidPeriods_Link config)
   | FormCode \<Rightarrow> Ok (ForgotPassword_ValidPeriods_Code config)
   | FormOther _ \<Rightarrow> Panic)"

definition kindOOBOTP_ValidPeriod :: "otp_config \<Rightarrow> AuthenticatorOOBChannel \<Rightarrow> Purpose \<Rightarrow> Form
    \<Rightarrow> (unit, duration) outcome" where
  [simp]: "kindOOBOTP_ValidPeriod config channel purpose form = (case form of
     FormCode \<Rightarrow> selectByChannel channel (OOB_Email_ValidPeriods_Code config)
       (OOB_SMS_ValidPeriods_Code config) (OOB_SMS_ValidPeriods_Code config)
   | FormLink \<Rightarrow> selectByChannel channel (OOB_Email_ValidPeriods_Link config)
       (OOB_SMS_ValidPeriods_Link config) (OOB_SMS_ValidPeriods_Link config)
   | FormOther _ \<Rightarrow> Panic)"

definition kindVerification_ValidPeriod :: "otp_config \<Rightarrow> AuthenticatorOOBChannel
    \<Rightarrow> (unit, duration) outcome" where
  [simp]: "kindVerification_ValidPeriod config channel = Ok (Verification_CodeValidPeriod config)"

fun KindValidPeriod :: "Kind \<Rightarrow> (unit, duration) outcome" where
  "KindValidPeriod (kindForgotPassword config channel form) = kindForgotPassword_ValidPeriod config channel form"
| "KindValidPeriod (kindOOBOTP config channel purpose form) = kindOOBOTP_ValidPeriod config channel purpose form"
| "KindValidPeriod (kindVerification config channel) = kindVerification_ValidPeriod config channel"

definition kind_opts :: "string \<Rightarrow> AuthenticatorOOBChannel \<Rightarrow> Purpose \<Rightarrow> string \<Rightarrow> ResolveBucketSpecOptions" where
  "kind_opts ip channel purpose userID = \<lparr>opt_IPAddress = ip, opt_UserID = userID, opt_Purpose = purpose,
     opt_Channel = channel, opt_Target = '''', opt_ClientID = ''''\<rparr>"

text \<open>The \<^verbatim>\<open>switch\<close> on the channel every kind has: one group for e-mail, one for SMS and WhatsApp.\<close>

definition resolve_by_channel ::
    "RateLimitGroup \<Rightarrow> RateLimitGroup \<Rightarrow> app_config \<Rightarrow> feature_config \<Rightarrow> env_config
     \<Rightarrow> ResolveBucketSpecOptions \<Rightarrow> (unit, BucketSpec list) outcome" where
  "resolve_by_channel email sms cfg fcfg ecfg opts = (case opt_Channel opts of
     ChannelEmail \<Rightarrow> ResolveBucketSpecs email cfg fcfg ecfg opts
   | ChannelSMS \<Rightarrow> ResolveBucketSpecs sms cfg fcfg ecfg opts
   | ChannelWhatsapp \<Rightarrow> ResolveBucketSpecs sms cfg fcfg ecfg opts
   | ChannelOther _ \<Rightarrow> Panic)"

definition kindForgotPassword_RateLimitTrigger :: "otp_config \<Rightarrow> AuthenticatorOOBChannel \<Rightarrow> Form
    \<Rightarrow> feature_config \<Rightarrow> env_config \<Rightarrow> string \<Rightarrow> string \<Rightarrow> (unit, BucketSpec list) outcome" where
  [simp]: "kindForgotPassword_RateLimitTrigger config channel form fcfg ecfg ip userID =
     resolve_by_channel RateLimitGroupForgotPasswordEmailTrigger RateLimitGroupForgotPasswordSMSTrigger
       (RateLimits config) fcfg ecfg (kind_opts ip channel PurposeForgotPassword userID)"

definition kindOOBOTP_RateLimitTrigger :: "otp_config \<Rightarrow> AuthenticatorOOBChannel \<Rightarrow> Purpose \<Rightarrow> Form
    \<Rightarrow> feature_config \<Rightarrow> env_config \<Rightarrow> string \<Rightarrow> string \<Rightarrow> (unit, BucketSpec list) outcome" where
  [simp]: "kindOOBOTP_RateLimitTrigger config channel purpose form fcfg ecfg ip userID =
     resolve_by_channel RateLimitGroupAuthenticationOOBOTPEmailTrigger RateLimitGroupAuthenticationOOBOTPSMSTrigger
       (RateLimits config) fcfg ecfg (kind_opts ip channel purpose userID)"

definition kindVerification_RateLimitTrigger :: "otp_config \<Rightarrow> AuthenticatorOOBChannel
    \<Rightarrow> feature_config \<Rightarrow> env_config \<Rightarrow> string \<Rightarrow> string \<Rightarrow> (unit, BucketSpec list) outcome" where
  [simp]: "kindVerification_RateLimitTrigger config channel fcfg ecfg ip userID =
     resolve_by_channel RateLimitGroupVerificationEmailTrigger RateLimitGroupVerificationSMSTrigger
       (RateLimits config) fcfg ecfg (kind_opts ip channel PurposeVerification userID)"

fun RateLimitTrigger :: "Kind \<Rightarrow> feature_config \<Rightarrow> env_config \<Rightarrow> string \<Rightarrow> string \<Rightarrow> (unit, BucketSpec list) outcome" where
  "RateLimitTrigger (kindForgotPassword config channel form) fcfg ecfg ip userID = kindForgotPassword_RateLimitTrigger config channel form fcfg ecfg ip userID"
| "RateLimitTrigger (kindOOBOTP config channel purpose form) fcfg ecfg ip userID = kindOOBOTP_RateLimitTrigger config channel purpose form fcfg ecfg ip userID"
| "RateLimitTrigger (kindVerification config channel) fcfg ecfg ip userID = kindVerification_RateLimitTrigger config channel fcfg ecfg ip userID"

definition kindForgotPassword_RateLimitValidate :: "otp_config \<Rightarrow> AuthenticatorOOBChannel \<Rightarrow> Form
    \<Rightarrow> feature_config \<Rightarrow> env_config \<Rightarrow> string \<Rightarrow> string \<Rightarrow> (unit, BucketSpec list) outcome" where
  [simp]: "kindForgotPassword_RateLimitValidate config channel form fcfg ecfg ip userID =
     resolve_by_channel RateLimitGroupForgotPasswordEmailValidate RateLimitGroupForgotPasswordSMSValidate
       (RateLimits config) fcfg ecfg (kind_opts ip channel PurposeForgotPassword userID)"

definition kindOOBOTP_RateLimitValidate :: "otp_config \<Rightarrow> AuthenticatorOOBChannel \<Rightarrow> Purpose \<Rightarrow> Form
    \<Rightarrow> feature_config \<Rightarrow> env_config \<Rightarrow> string \<Rightarrow> string \<Rightarrow> (unit, BucketSpec list) outcome" where
  [simp]: "kindOOBOTP_RateLimitValidate config channel purpose form fcfg ecfg ip userID =
     resolve_by_channel RateLimitGroupAuthenticationOOBOTPEmailValidate RateLimitGroupAuthenticationOOBOTPSMSValidate
       (RateLimits config) fcfg ecfg (kind_opts ip channel purpose userID)"

definition kindVerification_RateLimitValidate :: "otp_config \<Rightarrow> AuthenticatorOOBChannel
    \<Rightarrow> feature_config \<Rightarrow> env_config \<Rightarrow> string \<Rightarrow> string \<Rightarrow> (unit, BucketSpec list) outcome" where
  [simp]: "kindVerification_RateLimitValidate config channel fcfg ecfg ip userID =
     resolve_by_channel RateLimitGroupVerificationEmailValidate RateLimitGroupVerificationSMSValidate
       (RateLimits config) fcfg ecfg (kind_opts ip channel PurposeVerification userID)"

fun RateLimitValidate :: "Kind \<Rightarrow> feature_config \<Rightarrow> env_config \<Rightarrow> string \<Rightarrow> string \<Rightarrow> (unit, BucketSpec list) outcome" where
  "RateLimitValidate (kindForgotPassword config channel form) fcfg ecfg ip userID = kindForgotPassword_RateLimitValidate config channel form fcfg ecfg ip userID"
| "RateLimitValidate (kindOOBOTP config channel purpose form) fcfg ecfg ip userID = kindOOBOTP_RateLimitValidate config channel purpose form fcfg ecfg ip userID"
| "RateLimitValidate (kindVerification config channel) fcfg ecfg ip userID = kindVerification_RateLimitValidate config channel fcfg ecfg ip userID"

definition cooldown ::
    "(unit, BucketName) outcome \<Rightarrow> (unit, duration) outcome \<Rightarrow> string list \<Rightarrow> (unit, BucketSpec) outcome" where
  "cooldown name period args = bind_oc name (\<lambda>n. bind_oc period (\<lambda>d. Ok (NewCooldownSpec n d args)))"

definition kindForgotPassword_RateLimitTriggerCooldown :: "otp_config \<Rightarrow> AuthenticatorOOBChannel \<Rightarrow> Form
    \<Rightarrow> string \<Rightarrow> (unit, BucketSpec) outcome" where
  [simp]: "kindForgotPassword_RateLimitTriggerCooldown config channel form target = cooldown
     (selectByChannel channel ForgotPasswordCooldownEmail ForgotPasswordCooldownSMS ForgotPasswordCooldownWhatsapp)
     (selectByChannel channel (ForgotPassword_Email_TriggerCooldown config)
       (ForgotPassword_SMS_TriggerCooldown config) (ForgotPassword_SMS_TriggerCooldown config)) [target]"

definition kindOOBOTP_RateLimitTriggerCooldown :: "otp_config \<Rightarrow> AuthenticatorOOBChannel \<Rightarrow> Purpose \<Rightarrow> Form
    \<Rightarrow> string \<Rightarrow> (unit, BucketSpec) outcome" where
  [simp]: "kindOOBOTP_RateLimitTriggerCooldown config channel purpose form target = cooldown
     (selectByChannel channel OOBOTPCooldownEmail OOBOTPCooldownSMS OOBOTPCooldownWhatsapp)
     (selectByChannel channel (OOBOTP_Email_TriggerCooldown config)
       (OOBOTP_SMS_TriggerCooldown config) (OOBOTP_SMS_TriggerCooldown config)) [purpose, target]"

definition kindVerification_RateLimitTriggerCooldown :: "otp_config \<Rightarrow> AuthenticatorOOBChannel
    \<Rightarrow> string \<Rightarrow> (unit, BucketSpec) outcome" where
  [simp]: "kindVerification_RateLimitTriggerCooldown config channel target = cooldown
     (selectByChannel channel VerificationCooldownEmail VerificationCooldownSMS VerificationCooldownWhatsapp)
     (selectByChannel channel (Verification_Email_TriggerCooldown config)
       (Verification_SMS_TriggerCooldown config) (Verification_SMS_TriggerCooldown config)) [target]"

fun RateLimitTriggerCooldown :: "Kind \<Rightarrow> string \<Rightarrow> (unit, BucketSpec) outcome" where
  "RateLimitTriggerCooldown (kindForgotPassword config channel form) target = kindForgotPassword_RateLimitTriggerCooldown config channel form target"
| "RateLimitTriggerCooldown (kindOOBOTP config channel purpose form) target = kindOOBOTP_RateLimitTriggerCooldown config channel purpose form target"
| "RateLimitTriggerCooldown (kindVerification config channel) target = kindVerification_RateLimitTriggerCooldown config channel target"

definition kindForgotPassword_RateLimitTriggerCooldownPerSession :: "otp_config \<Rightarrow> AuthenticatorOOBChannel \<Rightarrow> Form
    \<Rightarrow> string \<Rightarrow> (unit, BucketSpec) outcome" where
  [simp]: "kindForgotPassword_RateLimitTriggerCooldownPerSession config channel form flowID = cooldown
     (selectByChannel channel ForgotPasswordCooldownEmailPerSession ForgotPasswordCooldownSMSPerSession
       ForgotPasswordCooldownWhatsappPerSession)
     (selectByChannel channel (ForgotPassword_Email_TriggerCooldown config)
       (ForgotPassword_SMS_TriggerCooldown config) (ForgotPassword_SMS_TriggerCooldown config)) [flowID]"

definition kindOOBOTP_RateLimitTriggerCooldownPerSession :: "otp_config \<Rightarrow> AuthenticatorOOBChannel \<Rightarrow> Purpose \<Rightarrow> Form
    \<Rightarrow> string \<Rightarrow> (unit, BucketSpec) outcome" where
  [simp]: "kindOOBOTP_RateLimitTriggerCooldownPerSession config channel purpose form flowID = cooldown
     (selectByChannel channel OOBOTPCooldownEmailPerSession OOBOTPCooldownSMSPerSession
       OOBOTPCooldownWhatsappPerSession)
     (selectByChannel channel (OOBOTP_Email_TriggerCooldown config)
       (OOBOTP_SMS_TriggerCooldown config) (OOBOTP_SMS_TriggerCooldown config)) [purpose, flowID]"

definition kindVerification_RateLimitTriggerCooldownPerSession :: "otp_config \<Rightarrow> AuthenticatorOOBChannel
    \<Rightarrow> string \<Rightarrow> (unit, BucketSpec) outcome" where
  [simp]: "kindVerification_RateLimitTriggerCooldownPerSession config channel flowID = cooldown
     (selectByChannel channel VerificationCooldownEmailPerSession VerificationCooldownSMSPerSession
       VerificationCooldownWhatsappPerSession)
     (selectByChannel channel (Verification_Email_TriggerCooldown config)
       (Verification_SMS_TriggerCooldown config) (Verification_SMS_TriggerCooldown config)) [flowID]"

fun RateLimitTriggerCooldownPerSession :: "Kind \<Rightarrow> string \<Rightarrow> (unit, BucketSpec) outcome" where
  "RateLimitTriggerCooldownPerSession (kindForgotPassword config channel form) flowID = kindForgotPassword_RateLimitTriggerCooldownPerSession config channel form flowID"
| "RateLimitTriggerCooldownPerSession (kindOOBOTP config channel purpose form) flowID = kindOOBOTP_RateLimitTriggerCooldownPerSession config channel purpose form flowID"
| "RateLimitTriggerCooldownPerSession (kindVerification config channel) flowID = kindVerification_RateLimitTriggerCooldownPerSession config channel flowID"

definition kindForgotPassword_RevocationMaxFailedAttempts :: "otp_config \<Rightarrow> AuthenticatorOOBChannel \<Rightarrow> Form
    \<Rightarrow> (unit, int) outcome" where
  [simp]: "kindForgotPassword_RevocationMaxFailedAttempts config channel form = Ok 0"

definition kindOOBOTP_RevocationMaxFailedAttempts :: "otp_config \<Rightarrow> AuthenticatorOOBChannel \<Rightarrow> Purpose \<Rightarrow> Form
    \<Rightarrow> (unit, int) outcome" where
  [simp]: "kindOOBOTP_RevocationMaxFailedAttempts config channel purpose form =
     selectByChannel channel (OOBOTP_Email_MaxFailedAttemptsRevokeOTP config)
       (OOBOTP_SMS_MaxFailedAttemptsRevokeOTP config) (OOBOTP_SMS_MaxFailedAttemptsRevokeOTP config)"

definition kindVerification_RevocationMaxFailedAttempts :: "otp_config \<Rightarrow> AuthenticatorOOBChannel
    \<Rightarrow> (unit, int) outcome" where
  [simp]: "kindVerification_RevocationMaxFailedAttempts config channel =
     selectByChannel channel (Verification_Email_MaxFailedAttemptsRevokeOTP config)
       (Verification_SMS_MaxFailedAttemptsRevokeOTP config) (Verification_SMS_MaxFailedAttemptsRevokeOTP config)"

fun RevocationMaxFailedAttempts :: "Kind \<Rightarrow> (unit, int) outcome" where
  "RevocationMaxFailedAttempts (kindForgotPassword config channel form) = kindForgotPassword_RevocationMaxFailedAttempts config channel form"
| "RevocationMaxFailedAttempts (kindOOBOTP config channel purpose form) = kindOOBOTP_RevocationMaxFailedAttempts config channel purpose form"
| "RevocationMaxFailedAttempts (kindVerification config channel) = kindVerification_RevocationMaxFailedAttempts config channel"

text \<open>A kind the code can use without panicking: a known channel and a known form.\<close>

fun usable :: "Kind \<Rightarrow> bool" where
  "usable (kindForgotPassword config channel form) \<longleftrightarrow> known_channel channel \<and> form \<in> {FormCode, FormLink}"
| "usable (kindOOBOTP config channel purpose form) \<longleftrightarrow> known_channel channel \<and> form \<in> {FormCode, FormLink}"
| "usable (kindVerification config channel) \<longleftrightarrow> known_channel channel"

section \<open>Delivery status\<close>

datatype DeliveryStatusInternal = InternalPending | InternalSending | InternalFailed | InternalSent
  | InternalOther string

datatype OTPDeliveryStatus = DeliveryStatusSending | DeliveryStatusSent | DeliveryStatusFailed

definition ToAPIStatus :: "DeliveryStatusInternal \<Rightarrow> (unit, OTPDeliveryStatus) outcome" where
  "ToAPIStatus s = (case s of
     InternalPending \<Rightarrow> Ok DeliveryStatusSending
   | InternalSending \<Rightarrow> Ok DeliveryStatusSending
   | InternalFailed \<Rightarrow> Ok DeliveryStatusFailed
   | InternalSent \<Rightarrow> Ok DeliveryStatusSent
   | InternalOther _ \<Rightarrow> Panic)"

datatype WhatsappMessageStatus = WhatsappAccepted | WhatsappSent | WhatsappDelivered | WhatsappRead
  | WhatsappFailed | WhatsappOther string

definition whatsappMessageStatusToOTPDeliveryStatus :: "WhatsappMessageStatus \<Rightarrow> DeliveryStatusInternal" where
  "whatsappMessageStatusToOTPDeliveryStatus m = (case m of
     WhatsappAccepted \<Rightarrow> InternalSending
   | WhatsappSent \<Rightarrow> InternalSent
   | WhatsappDelivered \<Rightarrow> InternalSent
   | WhatsappRead \<Rightarrow> InternalSent
   | WhatsappFailed \<Rightarrow> InternalFailed
   | WhatsappOther _ \<Rightarrow> InternalFailed)"

end
