(* ===== verification/OtpService.thy ===== *)
theory OtpService imports OtpKind begin

text \<open>
  The OTP service, \<^verbatim>\<open>pkg/lib/authn/otp/service.go\<close>, with its Redis stores \<^verbatim>\<open>code_store_redis.go\<close>,
  \<^verbatim>\<open>lookup_store_redis.go\<close> and \<^verbatim>\<open>attempt_tracker_redis.go\<close>. The Redis commands, the rate limiter,
  the WhatsApp status service and the randomness are arguments, collected in \<open>otp_env\<close>; the clock is
  the argument \<open>now\<close> of each operation. JSON encoding of codes and logging are not modelled.
\<close>

section \<open>The world of the service\<close>

datatype otp_error = ErrCodeNotFound | ErrInvalidCode | ErrConsumedCode | ErrTooManyAttempts
  | RateLimitedErr rate_limit_error | InfraErr string

text \<open>What the service keeps in Redis: codes, the targets of lookup entries, counters.\<close>

datatype otp_value = VCode OtpCode | VTarget string | VCount int

record 'r otp_redis =
  kv_SETEX :: "time \<Rightarrow> string \<Rightarrow> otp_value \<Rightarrow> duration \<Rightarrow> 'r \<Rightarrow> (string + unit) \<times> 'r"
  kv_SETNX :: "time \<Rightarrow> string \<Rightarrow> otp_value \<Rightarrow> duration \<Rightarrow> 'r \<Rightarrow> (string + bool) \<times> 'r"
  kv_GET :: "time \<Rightarrow> string \<Rightarrow> 'r \<Rightarrow> (string + otp_value option) \<times> 'r"
  kv_DEL :: "time \<Rightarrow> string \<Rightarrow> 'r \<Rightarrow> (string + unit) \<times> 'r"
  kv_INCR :: "time \<Rightarrow> string \<Rightarrow> 'r \<Rightarrow> (string + int) \<times> 'r"
  kv_EXPIRE :: "time \<Rightarrow> string \<Rightarrow> duration \<Rightarrow> 'r \<Rightarrow> (string + bool) \<times> 'r"

record 'l rate_limiter =
  rl_Reserve :: "time \<Rightarrow> BucketSpec \<Rightarrow> 'l \<Rightarrow> (string + Reservation option \<times> FailedReservation option) \<times> 'l"
  rl_Cancel :: "time \<Rightarrow> Reservation option \<Rightarrow> 'l \<Rightarrow> 'l"
  rl_GetTimeToAct :: "time \<Rightarrow> BucketSpec \<Rightarrow> 'l \<Rightarrow> (string + time) \<times> 'l"

record ('r, 'l) otp_world =
  w_redis :: 'r
  w_limiter :: 'l
  w_fraud_verified :: "string list"

record ('r, 'l) otp_env =
  e_redis :: "'r otp_redis"
  e_limiter :: "'l rate_limiter"
  e_AppID :: string
  e_RemoteIP :: string
  e_TestMode :: test_mode
  e_FeatureConfig :: feature_config
  e_EnvConfig :: env_config
  e_Whatsapp :: "string \<Rightarrow> string + (WhatsappMessageStatus \<times> string option) option"
  e_Generate :: "secretCode \<Rightarrow> string"
  e_md5hex :: "string \<Rightarrow> string"

type_synonym ('r, 'l, 'a) otp_proc = "(('r, 'l) otp_world, otp_error, 'a) proc"

definition kv :: "('r \<Rightarrow> (string + 'a) \<times> 'r) \<Rightarrow> ('r, 'l, 'a) otp_proc" where
  "kv cmd = (\<lambda>w. case cmd (w_redis w) of
     (Inl err, r) \<Rightarrow> (Err (InfraErr err), w\<lparr>w_redis := r\<rparr>)
   | (Inr x, r) \<Rightarrow> (Ok x, w\<lparr>w_redis := r\<rparr>))"

section \<open>Stores\<close>

definition redisCodeKey :: "string \<Rightarrow> Purpose \<Rightarrow> string \<Rightarrow> string" where
  "redisCodeKey appID purpose target = ''app:'' @ appID @ '':otp-code:'' @ purpose @ '':'' @ target"

definition redisLookupKey :: "string \<Rightarrow> Purpose \<Rightarrow> string \<Rightarrow> string" where
  "redisLookupKey appID purpose code = ''app:'' @ appID @ '':otp-lookup:'' @ purpose @ '':'' @ code"

definition redisFailedAttemptsKey :: "string \<Rightarrow> Purpose \<Rightarrow> string \<Rightarrow> string" where
  "redisFailedAttemptsKey appID purpose target =
     ''app:'' @ appID @ '':failed-attempts:'' @ purpose @ '':'' @ target"

definition CodeStore_set :: "('r, 'l) otp_env \<Rightarrow> time \<Rightarrow> Purpose \<Rightarrow> OtpCode \<Rightarrow> ('r, 'l, unit) otp_proc" where
  "CodeStore_set env now purpose code =
     kv (kv_SETEX (e_redis env) now (redisCodeKey (e_AppID env) purpose (Target code)) (VCode code)
       (ExpireAt code - now))"

definition CodeStore_Get :: "('r, 'l) otp_env \<Rightarrow> time \<Rightarrow> Purpose \<Rightarrow> string \<Rightarrow> ('r, 'l, OtpCode) otp_proc" where
  "CodeStore_Get env now purpose target =
     bindp (kv (kv_GET (e_redis env) now (redisCodeKey (e_AppID env) purpose target))) (\<lambda>data.
       case data of
         None \<Rightarrow> failp ErrCodeNotFound
       | Some (VCode code) \<Rightarrow> ret code
       | Some _ \<Rightarrow> failp (InfraErr ''unmarshal''))"

definition CodeStore_Delete :: "('r, 'l) otp_env \<Rightarrow> time \<Rightarrow> Purpose \<Rightarrow> string \<Rightarrow> ('r, 'l, unit) otp_proc" where
  "CodeStore_Delete env now purpose target =
     kv (kv_DEL (e_redis env) now (redisCodeKey (e_AppID env) purpose target))"

text \<open>\<^verbatim>\<open>SetNX\<close> answers false, and no error, when the key exists.\<close>

definition LookupStore_Create ::
    "('r, 'l) otp_env \<Rightarrow> time \<Rightarrow> Purpose \<Rightarrow> string \<Rightarrow> string \<Rightarrow> time \<Rightarrow> ('r, 'l, unit) otp_proc" where
  "LookupStore_Create env now purpose code target expireAt =
     bindp (kv (kv_SETNX (e_redis env) now (redisLookupKey (e_AppID env) purpose code) (VTarget target)
       (expireAt - now))) (\<lambda>_. ret ())"

definition LookupStore_Get :: "('r, 'l) otp_env \<Rightarrow> time \<Rightarrow> Purpose \<Rightarrow> string \<Rightarrow> ('r, 'l, string) otp_proc" where
  "LookupStore_Get env now purpose code =
     bindp (kv (kv_GET (e_redis env) now (redisLookupKey (e_AppID env) purpose code))) (\<lambda>data.
       case data of
         None \<Rightarrow> failp ErrCodeNotFound
       | Some (VTarget target) \<Rightarrow> ret target
       | Some _ \<Rightarrow> failp (InfraErr ''value''))"

definition LookupStore_Delete :: "('r, 'l) otp_env \<Rightarrow> time \<Rightarrow> Purpose \<Rightarrow> string \<Rightarrow> ('r, 'l, unit) otp_proc" where
  "LookupStore_Delete env now purpose code =
     kv (kv_DEL (e_redis env) now (redisLookupKey (e_AppID env) purpose code))"

definition ResetFailedAttempts :: "('r, 'l) otp_env \<Rightarrow> time \<Rightarrow> Kind \<Rightarrow> string \<Rightarrow> ('r, 'l, unit) otp_proc" where
  "ResetFailedAttempts env now kind target =
     kv (kv_DEL (e_redis env) now (redisFailedAttemptsKey (e_AppID env) (KindPurpose kind) target))"

definition GetFailedAttempts :: "('r, 'l) otp_env \<Rightarrow> time \<Rightarrow> Kind \<Rightarrow> string \<Rightarrow> ('r, 'l, int) otp_proc" where
  "GetFailedAttempts env now kind target =
     bindp (kv (kv_GET (e_redis env) now (redisFailedAttemptsKey (e_AppID env) (KindPurpose kind) target))) (\<lambda>data.
       case data of
         None \<Rightarrow> ret 0
       | Some (VCount n) \<Rightarrow> ret n
       | Some _ \<Rightarrow> failp (InfraErr ''integer''))"

definition IncrementFailedAttempts :: "('r, 'l) otp_env \<Rightarrow> time \<Rightarrow> Kind \<Rightarrow> string \<Rightarrow> ('r, 'l, int) otp_proc" where
  "IncrementFailedAttempts env now kind target = (let
     key = redisFailedAttemptsKey (e_AppID env) (KindPurpose kind) target
   in bindp (lift_oc (KindValidPeriod kind)) (\<lambda>expiration.
      bindp (kv (kv_INCR (e_redis env) now key)) (\<lambda>failedAttempts.
      bindp (kv (kv_EXPIRE (e_redis env) now key expiration)) (\<lambda>_.
      ret failedAttempts))))"

section \<open>The service\<close>

record GenerateOptions =
  g_UserID :: string
  g_WebSessionID :: string
  g_WorkflowID :: string
  g_WebsocketChannelName :: string
  g_FlowID :: string
  g_FlowType :: string
  g_FlowName :: string
  g_FlowJSONPointer :: "string list"
  g_SkipRateLimits :: bool

definition noGenerateOptions :: GenerateOptions where
  "noGenerateOptions = \<lparr>g_UserID = '''', g_WebSessionID = '''', g_WorkflowID = '''',
     g_WebsocketChannelName = '''', g_FlowID = '''', g_FlowType = '''', g_FlowName = '''',
     g_FlowJSONPointer = [], g_SkipRateLimits = False\<rparr>"

record VerifyOptions =
  v_UserID :: string
  v_UseSubmittedCode :: bool
  v_SkipConsume :: bool

definition getCode :: "('r, 'l) otp_env \<Rightarrow> time \<Rightarrow> Purpose \<Rightarrow> string \<Rightarrow> ('r, 'l, OtpCode) otp_proc" where
  "getCode env now purpose target = CodeStore_Get env now purpose target"

definition deleteCode :: "('r, 'l) otp_env \<Rightarrow> time \<Rightarrow> Kind \<Rightarrow> string \<Rightarrow> ('r, 'l, unit) otp_proc" where
  "deleteCode env now kind target = CodeStore_Delete env now (KindPurpose kind) target"

definition consumeCode :: "('r, 'l) otp_env \<Rightarrow> time \<Rightarrow> Purpose \<Rightarrow> OtpCode \<Rightarrow> ('r, 'l, unit) otp_proc" where
  "consumeCode env now purpose code = (let code = code\<lparr>Consumed := True\<rparr>
   in bindp (CodeStore_set env now purpose code) (\<lambda>_.
      if OOBChannel code = ChannelSMS
      then modp (\<lambda>w. w\<lparr>w_fraud_verified := w_fraud_verified w @ [Target code]\<rparr>)
      else ret ()))"

definition handleFailedAttemptsRevocation ::
    "('r, 'l) otp_env \<Rightarrow> time \<Rightarrow> Kind \<Rightarrow> string \<Rightarrow> ('r, 'l, unit) otp_proc" where
  "handleFailedAttemptsRevocation env now kind target =
     bindp (IncrementFailedAttempts env now kind target) (\<lambda>failedAttempts.
     bindp (lift_oc (RevocationMaxFailedAttempts kind)) (\<lambda>maxFailedAttempts.
     if maxFailedAttempts \<noteq> 0 \<and> failedAttempts \<ge> maxFailedAttempts then failp ErrTooManyAttempts
     else ret ()))"

definition checkFailedAttemptsRevocation ::
    "('r, 'l) otp_env \<Rightarrow> time \<Rightarrow> Kind \<Rightarrow> string \<Rightarrow> ('r, 'l, unit) otp_proc" where
  "checkFailedAttemptsRevocation env now kind target =
     bindp (GetFailedAttempts env now kind target) (\<lambda>failedAttempts.
     bindp (lift_oc (RevocationMaxFailedAttempts kind)) (\<lambda>maxFailedAttempts.
     if maxFailedAttempts \<noteq> 0 \<and> failedAttempts \<ge> maxFailedAttempts
     then bindp (ignore_err (deleteCode env now kind target)) (\<lambda>_. failp ErrTooManyAttempts)
     else ret ()))"

text \<open>
  One reservation: the reservation, or the error to return. A batch stops at the first error and
  returns what it has reserved so far together with it.
\<close>

definition reserve_one :: "('r, 'l) otp_env \<Rightarrow> time \<Rightarrow> BucketSpec \<Rightarrow> ('r, 'l, otp_error + Reservation option) otp_proc" where
  "reserve_one env now spec = (\<lambda>w. case rl_Reserve (e_limiter env) now spec (w_limiter w) of
     (Inl err, l) \<Rightarrow> (Ok (Inl (InfraErr err)), w\<lparr>w_limiter := l\<rparr>)
   | (Inr (resv, failed), l) \<Rightarrow>
       (Ok (case FailedReservation_Error failed of Some e \<Rightarrow> Inl (RateLimitedErr e) | None \<Rightarrow> Inr resv),
        w\<lparr>w_limiter := l\<rparr>))"

fun reserve_all :: "('r, 'l) otp_env \<Rightarrow> time \<Rightarrow> BucketSpec list \<Rightarrow> Reservation option list
    \<Rightarrow> ('r, 'l, Reservation option list \<times> otp_error option) otp_proc" where
  "reserve_all env now [] acc = ret (acc, None)"
| "reserve_all env now (spec # specs) acc = bindp (reserve_one env now spec) (\<lambda>res. case res of
     Inl err \<Rightarrow> ret (acc, Some err)
   | Inr resv \<Rightarrow> reserve_all env now specs (acc @ [resv]))"

definition cancel_all :: "('r, 'l) otp_env \<Rightarrow> time \<Rightarrow> Reservation option list \<Rightarrow> ('r, 'l) otp_world \<Rightarrow> ('r, 'l) otp_world" where
  "cancel_all env now rs w = w\<lparr>w_limiter := fold (rl_Cancel (e_limiter env) now) rs (w_limiter w)\<rparr>"

text \<open>The buckets of \<^verbatim>\<open>reserveGenerateOTPRateLimits\<close> are computed as the reservations go along.\<close>

definition reserveGenerateOTPRateLimits ::
    "('r, 'l) otp_env \<Rightarrow> time \<Rightarrow> Kind \<Rightarrow> string \<Rightarrow> GenerateOptions
     \<Rightarrow> ('r, 'l, Reservation option list \<times> otp_error option) otp_proc" where
  "reserveGenerateOTPRateLimits env now kind target opts =
     bindp (lift_oc (RateLimitTriggerCooldown kind target)) (\<lambda>spec.
     bindp (reserve_all env now [spec] []) (\<lambda>(rs, err). case err of Some e \<Rightarrow> ret (rs, Some e) | None \<Rightarrow>
     bindp (if g_FlowID opts \<noteq> ''''
        then bindp (lift_oc (RateLimitTriggerCooldownPerSession kind (g_FlowID opts))) (\<lambda>spec.
          reserve_all env now [spec] rs)
        else ret (rs, None)) (\<lambda>(rs, err). case err of Some e \<Rightarrow> ret (rs, Some e) | None \<Rightarrow>
     bindp (lift_oc (RateLimitTrigger kind (e_FeatureConfig env) (e_EnvConfig env) (e_RemoteIP env) (g_UserID opts)))
       (\<lambda>specs. reserve_all env now specs rs))))"

definition newCode :: "('r, 'l) otp_env \<Rightarrow> time \<Rightarrow> Kind \<Rightarrow> string \<Rightarrow> Form \<Rightarrow> GenerateOptions \<Rightarrow> (unit, OtpCode) outcome" where
  "newCode env now kind target form opts =
     bind_oc (GenerateCode (e_Generate env) (e_md5hex env) (e_TestMode env) form target (g_UserID opts)) (\<lambda>code.
     bind_oc (KindValidPeriod kind) (\<lambda>period.
     Ok \<lparr>Target = target, code_Purpose = KindPurpose kind, code_Form = form, code_Code = code,
         ExpireAt = now + period, Consumed = False, UserInputtedCode = '''', code_UserID = g_UserID opts,
         WebSessionID = g_WebSessionID opts, WorkflowID = g_WorkflowID opts,
         FlowWebsocketChannelName = g_WebsocketChannelName opts, FlowType = g_FlowType opts,
         FlowName = g_FlowName opts, FlowJSONPointer = g_FlowJSONPointer opts,
         OOBChannel = ChannelOther '''', WhatsappMessageID = '''', SendMessageError = None\<rparr>))"

definition createOTPCode :: "('r, 'l) otp_env \<Rightarrow> time \<Rightarrow> OtpCode \<Rightarrow> ('r, 'l, unit) otp_proc" where
  "createOTPCode env now code = bindp (CodeStore_set env now (code_Purpose code) code) (\<lambda>_.
     if AllowLookupByCode (code_Form code)
     then LookupStore_Create env now (code_Purpose code) (code_Code code) (Target code) (ExpireAt code)
     else ret ())"

text \<open>
  \<^verbatim>\<open>PreventCancel\<close> on the reservations of a successful call has no effect outside the call; every
  other way out cancels them.
\<close>

definition GenerateOTP ::
    "('r, 'l) otp_env \<Rightarrow> time \<Rightarrow> Kind \<Rightarrow> string \<Rightarrow> Form \<Rightarrow> GenerateOptions option \<Rightarrow> ('r, 'l, string) otp_proc" where
  "GenerateOTP env now kind target form opts = (let
     opts = (case opts of Some opts \<Rightarrow> opts | None \<Rightarrow> noGenerateOptions)
   in bindp (if \<not> g_SkipRateLimits opts then reserveGenerateOTPRateLimits env now kind target opts
             else ret ([], None)) (\<lambda>(reservations, err) w.
      (let (r, w') = (case err of
           Some e \<Rightarrow> failp e
         | None \<Rightarrow> bindp (lift_oc (newCode env now kind target form opts)) (\<lambda>code.
             bindp (createOTPCode env now code) (\<lambda>_.
             bindp (ignore_err (ResetFailedAttempts env now kind target)) (\<lambda>_.
             ret (code_Code code))))) w
       in (r, if is_ok r then w' else cancel_all env now reservations w'))))"

definition VerifyOTP ::
    "('r, 'l) otp_env \<Rightarrow> time \<Rightarrow> Kind \<Rightarrow> string \<Rightarrow> string \<Rightarrow> VerifyOptions \<Rightarrow> ('r, 'l, unit) otp_proc" where
  "VerifyOTP env now kind target otp opts =
     bindp (checkFailedAttemptsRevocation env now kind target) (\<lambda>_.
     bindp (lift_oc (RateLimitValidate kind (e_FeatureConfig env) (e_EnvConfig env) (e_RemoteIP env) (v_UserID opts))) (\<lambda>specs.
     bindp (reserve_all env now specs []) (\<lambda>(reservations, err). case err of Some e \<Rightarrow> failp e | None \<Rightarrow>
     bindp (attempt (getCode env now (KindPurpose kind) target)) (\<lambda>got. case got of
       Inl ErrCodeNotFound \<Rightarrow> failp ErrInvalidCode
     | Inl e \<Rightarrow> failp e
     | Inr code \<Rightarrow>
         if code_Purpose code \<noteq> KindPurpose kind then failp ErrInvalidCode
         else if Consumed code then failp ErrConsumedCode
         else let codeToVerify = (if v_UseSubmittedCode opts then UserInputtedCode code else otp)
         in bindp (lift_oc (VerifyCode (code_Form code) codeToVerify (code_Code code))) (\<lambda>isCodeValid.
            if \<not> isCodeValid
            then bindp (attempt (handleFailedAttemptsRevocation env now kind target)) (\<lambda>ferr. case ferr of
                Inl ErrTooManyAttempts \<Rightarrow> failp ErrTooManyAttempts
              | _ \<Rightarrow> failp ErrInvalidCode)
            else with_defer
              (if \<not> v_SkipConsume opts then consumeCode env now (KindPurpose kind) code else ret ())
              (cancel_all env now reservations))))))"

definition ConsumeCode :: "('r, 'l) otp_env \<Rightarrow> time \<Rightarrow> Purpose \<Rightarrow> string \<Rightarrow> ('r, 'l, unit) otp_proc" where
  "ConsumeCode env now purpose target =
     bindp (attempt (getCode env now purpose target)) (\<lambda>got. case got of
       Inl ErrCodeNotFound \<Rightarrow> ret ()
     | Inl e \<Rightarrow> failp e
     | Inr code \<Rightarrow>
         if code_Purpose code \<noteq> purpose then ret ()
         else if Consumed code then ret ()
         else consumeCode env now purpose code)"

record OtpState =
  st_Target :: string
  st_CanResendAt :: time
  st_CanCheckSubmittedCode :: bool
  st_UserID :: string
  st_TooManyAttempts :: bool
  st_WebSessionID :: string
  st_WorkflowID :: string
  st_WebsocketChannelName :: string
  st_FlowType :: string
  st_FlowName :: string
  st_FlowJSONPointer :: "string list"
  st_DeliveryStatus :: OTPDeliveryStatus
  st_DeliveryError :: "string option"

text \<open>The state of a target without a usable code: it pretends that a message was sent.\<close>

definition absent_state :: "string \<Rightarrow> time \<Rightarrow> bool \<Rightarrow> OtpState" where
  "absent_state target canResendAt tooManyAttempts = \<lparr>st_Target = target, st_CanResendAt = canResendAt,
     st_CanCheckSubmittedCode = False, st_UserID = '''', st_TooManyAttempts = tooManyAttempts,
     st_WebSessionID = '''', st_WorkflowID = '''', st_WebsocketChannelName = '''', st_FlowType = '''',
     st_FlowName = '''', st_FlowJSONPointer = [], st_DeliveryStatus = DeliveryStatusSent,
     st_DeliveryError = None\<rparr>"

definition getTimeToAct :: "('r, 'l) otp_env \<Rightarrow> time \<Rightarrow> BucketSpec \<Rightarrow> ('r, 'l, time) otp_proc" where
  "getTimeToAct env now spec = (\<lambda>w. case rl_GetTimeToAct (e_limiter env) now spec (w_limiter w) of
     (Inl err, l) \<Rightarrow> (Err (InfraErr err), w\<lparr>w_limiter := l\<rparr>)
   | (Inr t, l) \<Rightarrow> (Ok t, w\<lparr>w_limiter := l\<rparr>))"

definition getOTPMessageDeliverStatus ::
    "('r, 'l) otp_env \<Rightarrow> OtpCode \<Rightarrow> (otp_error, DeliveryStatusInternal \<times> string option) outcome" where
  "getOTPMessageDeliverStatus env code =
     (if OOBChannel code = ChannelOther '''' then Ok (InternalPending, None)
      else if SendMessageError code \<noteq> None then Ok (InternalFailed, SendMessageError code)
      else (case OOBChannel code of
        ChannelWhatsapp \<Rightarrow>
          if WhatsappMessageID code = '''' then Ok (InternalSending, None)
          else (case e_Whatsapp env (WhatsappMessageID code) of
            Inl err \<Rightarrow> Err (InfraErr err)
          | Inr None \<Rightarrow> Ok (InternalSending, None)
          | Inr (Some (status, apiError)) \<Rightarrow> Ok (whatsappMessageStatusToOTPDeliveryStatus status, apiError))
      | _ \<Rightarrow> Ok (InternalSent, None)))"

fun lift_err :: "(otp_error, 'a) outcome \<Rightarrow> ('r, 'l, 'a) otp_proc" where
  "lift_err (Ok x) = ret x"
| "lift_err (Err e) = failp e"
| "lift_err Panic = panicp"

definition InspectState ::
    "('r, 'l) otp_env \<Rightarrow> time \<Rightarrow> Kind \<Rightarrow> string \<Rightarrow> string option \<Rightarrow> ('r, 'l, OtpState) otp_proc" where
  "InspectState env now kind target flowID = (let flowID = (case flowID of None \<Rightarrow> '''' | Some f \<Rightarrow> f)
   in bindp (attempt (checkFailedAttemptsRevocation env now kind target)) (\<lambda>ferr.
      bindp (case ferr of Inl ErrTooManyAttempts \<Rightarrow> ret True | Inl e \<Rightarrow> failp e | Inr _ \<Rightarrow> ret False) (\<lambda>tooManyAttempts.
      bindp (lift_oc (RateLimitTriggerCooldown kind target)) (\<lambda>spec.
      bindp (getTimeToAct env now spec) (\<lambda>canResendAt.
      bindp (if flowID \<noteq> ''''
        then bindp (lift_oc (RateLimitTriggerCooldownPerSession kind flowID)) (\<lambda>spec.
             bindp (getTimeToAct env now spec) (\<lambda>t. ret (if t > canResendAt then t else canResendAt)))
        else ret canResendAt) (\<lambda>canResendAt.
      bindp (attempt (getCode env now (KindPurpose kind) target)) (\<lambda>got.
      bindp (case got of Inl ErrCodeNotFound \<Rightarrow> ret None | Inl e \<Rightarrow> failp e | Inr code \<Rightarrow> ret (Some code)) (\<lambda>code.
      case code of
        Some code \<Rightarrow>
          if code_Purpose code \<noteq> KindPurpose kind then failp ErrCodeNotFound
          else if Consumed code then ret (absent_state target canResendAt tooManyAttempts)
          else bindp (lift_err (getOTPMessageDeliverStatus env code)) (\<lambda>(status, derr).
            bindp (lift_oc (ToAPIStatus status)) (\<lambda>apiStatus.
            ret \<lparr>st_Target = Target code, st_CanResendAt = canResendAt,
              st_CanCheckSubmittedCode = (UserInputtedCode code \<noteq> ''''), st_UserID = code_UserID code,
              st_TooManyAttempts = tooManyAttempts, st_WebSessionID = WebSessionID code,
              st_WorkflowID = WorkflowID code, st_WebsocketChannelName = FlowWebsocketChannelName code,
              st_FlowType = FlowType code, st_FlowName = FlowName code, st_FlowJSONPointer = FlowJSONPointer code,
              st_DeliveryStatus = apiStatus, st_DeliveryError = derr\<rparr>))
      | None \<Rightarrow> ret (absent_state target canResendAt tooManyAttempts)))))))))"

definition SetSubmittedCode ::
    "('r, 'l) otp_env \<Rightarrow> time \<Rightarrow> Kind \<Rightarrow> string \<Rightarrow> string \<Rightarrow> ('r, 'l, OtpState) otp_proc" where
  "SetSubmittedCode env now kind target code =
     bindp (getCode env now (KindPurpose kind) target) (\<lambda>codeModel.
     bindp (CodeStore_set env now (KindPurpose kind) (codeModel\<lparr>UserInputtedCode := code\<rparr>)) (\<lambda>_.
     InspectState env now kind target None))"

definition LookupCode :: "('r, 'l) otp_env \<Rightarrow> time \<Rightarrow> Purpose \<Rightarrow> string \<Rightarrow> ('r, 'l, string) otp_proc" where
  "LookupCode env now purpose code = LookupStore_Get env now purpose code"

definition InspectCode :: "('r, 'l) otp_env \<Rightarrow> time \<Rightarrow> Purpose \<Rightarrow> string \<Rightarrow> ('r, 'l, OtpCode) otp_proc" where
  "InspectCode env now purpose target = getCode env now purpose target"

section \<open>What the Redis commands do\<close>

text \<open>The lifetime \<^verbatim>\<open>go-redis\<close> asks for: whole seconds, at least one.\<close>

definition ttl :: "duration \<Rightarrow> duration" where
  "ttl d = max 1 (d div 1000000000) * 1000000000"

text \<open>
  \<open>view t r k\<close>: what key \<open>k\<close> of the store \<open>r\<close> holds at time \<open>t\<close> if nothing is written until then.
  A lifetime that is not positive is refused.
\<close>

locale otp_keys =
  fixes env :: "('r, 'l) otp_env"
    and view :: "time \<Rightarrow> 'r \<Rightarrow> string \<Rightarrow> otp_value option"
  assumes GET: "kv_GET (e_redis env) now k r = (Inr (view now r k), r)"
    and SETEX: "0 < d \<Longrightarrow> \<exists>r'. kv_SETEX (e_redis env) now k v d r = (Inr (), r') \<and> (\<forall>t \<ge> now. \<forall>k'.
      view t r' k' = (if k' = k then if t < now + ttl d then Some v else None else view t r k'))"
    and SETEX_refused: "d \<le> 0 \<Longrightarrow> \<exists>e. kv_SETEX (e_redis env) now k v d r = (Inl e, r)"
    and SETNX: "0 < d \<Longrightarrow> \<exists>b r'. kv_SETNX (e_redis env) now k v d r = (Inr b, r') \<and> (\<forall>t \<ge> now. \<forall>k'.
      view t r' k' = (if k' = k \<and> view now r k = None then if t < now + ttl d then Some v else None else view t r k'))"
    and DEL: "\<exists>r'. kv_DEL (e_redis env) now k r = (Inr (), r') \<and> (\<forall>t \<ge> now. \<forall>k'.
      view t r' k' = (if k' = k then None else view t r k'))"
    and INCR: "view now r k \<in> {None, Some (VCount n)} \<Longrightarrow> n = (if view now r k = None then 0 else n) \<Longrightarrow>
      \<exists>r'. kv_INCR (e_redis env) now k r = (Inr (n + 1), r') \<and> (\<forall>t \<ge> now. \<forall>k'.
      view t r' k' = (if k' = k then if view now r k = None then Some (VCount 1)
          else map_option (\<lambda>_. VCount (n + 1)) (view t r k) else view t r k'))"
    and EXPIRE: "0 < d \<Longrightarrow> \<exists>b r'. kv_EXPIRE (e_redis env) now k d r = (Inr b, r') \<and> (\<forall>t \<ge> now. \<forall>k'.
      view t r' k' = (if k' = k then if t < now + ttl d then view now r k else None else view t r k'))"
    and view_later: "now \<le> t \<Longrightarrow> view t r k = None \<or> view t r k = view now r k"

section \<open>The comparison\<close>

text \<open>\<^verbatim>\<open>VerifyOTP\<close> up to and including the comparison of the codes.\<close>

definition verify_compare ::
    "('r, 'l) otp_env \<Rightarrow> time \<Rightarrow> Kind \<Rightarrow> string \<Rightarrow> string \<Rightarrow> VerifyOptions
     \<Rightarrow> ('r, 'l, Reservation option list \<times> OtpCode \<times> bool) otp_proc" where
  "verify_compare env now kind target otp opts =
     bindp (checkFailedAttemptsRevocation env now kind target) (\<lambda>_.
     bindp (lift_oc (RateLimitValidate kind (e_FeatureConfig env) (e_EnvConfig env) (e_RemoteIP env) (v_UserID opts))) (\<lambda>specs.
     bindp (reserve_all env now specs []) (\<lambda>(reservations, err). case err of Some e \<Rightarrow> failp e | None \<Rightarrow>
     bindp (attempt (getCode env now (KindPurpose kind) target)) (\<lambda>got. case got of
       Inl ErrCodeNotFound \<Rightarrow> failp ErrInvalidCode
     | Inl e \<Rightarrow> failp e
     | Inr code \<Rightarrow>
         if code_Purpose code \<noteq> KindPurpose kind then failp ErrInvalidCode
         else if Consumed code then failp ErrConsumedCode
         else bindp (lift_oc (VerifyCode (code_Form code)
             (if v_UseSubmittedCode opts then UserInputtedCode code else otp) (code_Code code)))
           (\<lambda>isCodeValid. ret (reservations, code, isCodeValid))))))"

definition verify_settle ::
    "('r, 'l) otp_env \<Rightarrow> time \<Rightarrow> Kind \<Rightarrow> string \<Rightarrow> VerifyOptions
     \<Rightarrow> Reservation option list \<times> OtpCode \<times> bool \<Rightarrow> ('r, 'l, unit) otp_proc" where
  "verify_settle env now kind target opts = (\<lambda>(reservations, code, isCodeValid).
     if \<not> isCodeValid
     then bindp (attempt (handleFailedAttemptsRevocation env now kind target)) (\<lambda>ferr. case ferr of
         Inl ErrTooManyAttempts \<Rightarrow> failp ErrTooManyAttempts
       | _ \<Rightarrow> failp ErrInvalidCode)
     else with_defer
       (if \<not> v_SkipConsume opts then consumeCode env now (KindPurpose kind) code else ret ())
       (cancel_all env now reservations))"

lemma bindp_cong: "m = m' \<Longrightarrow> (\<And>x. f x = f' x) \<Longrightarrow> bindp m f = bindp m' f'"
  by (auto intro: arg_cong2 [where f = bindp])

lemma VerifyOTP_split:
  "VerifyOTP env now kind target otp opts =
   bindp (verify_compare env now kind target otp opts) (verify_settle env now kind target opts)"
  unfolding VerifyOTP_def verify_compare_def bindp_assoc Let_def
proof (intro bindp_cong refl, goal_cases)
  case (1 _ specs rs)
  obtain reservations err where rs: "rs = (reservations, err)" by (cases rs)
  show ?case
  proof (cases err)
    case (Some e)
    with rs show ?thesis by simp
  next
    case None
    show ?thesis unfolding rs None prod.case option.case bindp_assoc
    proof (intro bindp_cong refl, goal_cases)
      case (1 got)
      show ?case
      proof (cases got)
        case (Inl e)
        then show ?thesis by (cases e) simp_all
      next
        case (Inr code)
        then show ?thesis by (simp add: bindp_assoc verify_settle_def)
      qed
    qed
  qed
qed

lemma key_kinds_differ [simp]:
  "redisCodeKey a p x \<noteq> redisFailedAttemptsKey a q y" "redisFailedAttemptsKey a q y \<noteq> redisCodeKey a p x"
  "redisLookupKey a p x \<noteq> redisFailedAttemptsKey a q y" "redisFailedAttemptsKey a q y \<noteq> redisLookupKey a p x"
  "redisCodeKey a p x \<noteq> redisLookupKey a q y" "redisLookupKey a q y \<noteq> redisCodeKey a p x"
  by (simp_all add: redisCodeKey_def redisFailedAttemptsKey_def redisLookupKey_def)

lemma redisCodeKey_inj [simp]: "redisCodeKey a p x = redisCodeKey a p y \<longleftrightarrow> x = y"
  by (simp add: redisCodeKey_def)

text \<open>Nobody touched key \<open>k\<close>: it holds the same from \<open>now\<close> on.\<close>

definition same_key :: "(time \<Rightarrow> 'r \<Rightarrow> string \<Rightarrow> otp_value option) \<Rightarrow> time \<Rightarrow> string
    \<Rightarrow> ('r, 'l) otp_world \<Rightarrow> ('r, 'l) otp_world \<Rightarrow> bool" where
  "same_key view now k w w' \<longleftrightarrow> (\<forall>t \<ge> now. view t (w_redis w') k = view t (w_redis w) k)"

lemma same_key_refl [simp, keeps_intros]: "reflp (same_key view now k)"
  by (simp add: reflp_def same_key_def)

lemma same_key_trans [simp, keeps_intros]: "transp (same_key view now k)"
  by (auto simp: transp_def same_key_def)

lemma keeps_reserve_one [keeps_intros]: "keeps (same_key view now k) (reserve_one env t spec)"
  by (auto simp: keeps_def reserve_one_def same_key_def split: prod.split sum.split)

lemma keeps_reserve_all [keeps_intros]: "keeps (same_key view now k) (reserve_all env t specs acc)"
proof (induction specs arbitrary: acc)
  case Nil
  then show ?case by (auto intro!: keeps_intros)
next
  case (Cons spec specs)
  then show ?case by (auto intro!: keeps_intros split: sum.split)
qed

lemma keeps_getTimeToAct [keeps_intros]: "keeps (same_key view now k) (getTimeToAct env t spec)"
  by (auto simp: keeps_def getTimeToAct_def same_key_def split: prod.split sum.split)

lemma keeps_lift_err [keeps_intros]: "reflp R \<Longrightarrow> keeps R (lift_err oc)"
  by (cases oc) (auto intro: keeps_intros)

lemma same_key_cancel_all [keeps_intros]: "same_key view now k w (cancel_all env t rs w)"
  by (simp add: same_key_def cancel_all_def)

lemma keeps_fraud [keeps_intros]:
  "keeps (same_key view now k) (modp (\<lambda>w. w\<lparr>w_fraud_verified := f w\<rparr>))"
  by (simp add: keeps_def same_key_def run_simps)

context otp_keys begin

lemma kv_GET [simp]: "kv (kv_GET (e_redis env) now k) w = (Ok (view now (w_redis w) k), w)"
  by (simp add: kv_def GET)

lemma keeps_GET [keeps_intros]: "keeps (same_key view now k) (kv (kv_GET (e_redis env) t k'))"
  by (simp add: keeps_def same_key_def)

lemma keeps_kv: "(\<And>r. \<forall>t \<ge> now. view t (snd (cmd r)) k = view t r k) \<Longrightarrow> keeps (same_key view now k) (kv cmd)"
  by (simp add: keeps_def kv_def same_key_def split: prod.split sum.split) (metis snd_conv)

lemma keeps_SETEX [keeps_intros]: "k \<noteq> k' \<Longrightarrow> keeps (same_key view now k) (kv (kv_SETEX (e_redis env) now k' v d))"
proof (rule keeps_kv, intro allI impI)
  fix r t assume "k \<noteq> k'" "now \<le> t"
  then show "view t (snd (kv_SETEX (e_redis env) now k' v d r)) k = view t r k"
    using SETEX [of d now k' v r] SETEX_refused [of d now k' v r] by (cases "0 < d") auto
qed

lemma keeps_SETNX [keeps_intros]:
  "k \<noteq> k' \<Longrightarrow> 0 < d \<Longrightarrow> keeps (same_key view now k) (kv (kv_SETNX (e_redis env) now k' v d))"
proof (rule keeps_kv, intro allI impI)
  fix r t assume "k \<noteq> k'" "0 < d" "now \<le> t"
  then show "view t (snd (kv_SETNX (e_redis env) now k' v d r)) k = view t r k"
    using SETNX [of d now k' v r] by auto
qed

lemma keeps_DEL [keeps_intros]: "k \<noteq> k' \<Longrightarrow> keeps (same_key view now k) (kv (kv_DEL (e_redis env) now k'))"
proof (rule keeps_kv, intro allI impI)
  fix r t assume "k \<noteq> k'" "now \<le> t"
  then show "view t (snd (kv_DEL (e_redis env) now k' r)) k = view t r k"
    using DEL [of now k' r] by auto
qed

lemma keeps_Get [keeps_intros]: "keeps (same_key view now k) (CodeStore_Get env t p x)"
  unfolding CodeStore_Get_def
  by (auto intro!: keeps_intros split: option.split otp_value.split)

lemma keeps_getCode [keeps_intros]: "keeps (same_key view now k) (getCode env t p x)"
  unfolding getCode_def by (rule keeps_Get)

lemma keeps_consumeCode [keeps_intros]:
  "k \<noteq> redisCodeKey (e_AppID env) p (Target code) \<Longrightarrow>
   keeps (same_key view now k) (consumeCode env now p code)"
  unfolding consumeCode_def CodeStore_set_def Let_def
  by (auto intro!: keeps_intros)

lemma keeps_check [keeps_intros]:
  "k \<noteq> redisCodeKey (e_AppID env) (KindPurpose kind) x \<Longrightarrow>
   keeps (same_key view now k) (checkFailedAttemptsRevocation env now kind x)"
  unfolding checkFailedAttemptsRevocation_def GetFailedAttempts_def deleteCode_def CodeStore_Delete_def
  by (auto intro!: keeps_intros split: option.split otp_value.split)

lemma keeps_verify_compare [keeps_intros]:
  "k \<noteq> redisCodeKey (e_AppID env) (KindPurpose kind) x \<Longrightarrow>
   keeps (same_key view now k) (verify_compare env now kind x otp opts)"
  unfolding verify_compare_def
  by (auto intro!: keeps_intros split: option.split sum.split otp_error.split prod.split)

lemma keeps_InspectState [keeps_intros]:
  "k \<noteq> redisCodeKey (e_AppID env) (KindPurpose kind) x \<Longrightarrow>
   keeps (same_key view now k) (InspectState env now kind x fid)"
  unfolding InspectState_def Let_def
  by (auto intro!: keeps_intros split: option.split sum.split otp_error.split prod.split)

lemma keeps_ConsumeCode [keeps_intros]:
  assumes "\<And>x. k \<noteq> redisCodeKey (e_AppID env) p x"
  shows "keeps (same_key view now k) (ConsumeCode env now p x)"
proof -
  have "\<forall>c. k \<noteq> redisCodeKey (e_AppID env) p (Target c)" using assms by blast
  then show ?thesis unfolding ConsumeCode_def
    by (auto intro!: keeps_intros split: sum.split otp_error.split simp del: redisCodeKey_inj)
qed

lemma keeps_SetSubmittedCode [keeps_intros]:
  assumes "\<And>x. k \<noteq> redisCodeKey (e_AppID env) (KindPurpose kind) x"
  shows "keeps (same_key view now k) (SetSubmittedCode env now kind x c)"
  unfolding SetSubmittedCode_def CodeStore_set_def
  using assms by (auto intro!: keeps_intros)

end

section \<open>What a comparison means\<close>

lemma reserve_one_redis: "w_redis (snd (reserve_one env now spec w)) = w_redis w"
  by (auto simp: reserve_one_def split: prod.split sum.split)

lemma reserve_all_redis: "reserve_all env now specs acc w = (r, w') \<Longrightarrow> w_redis w' = w_redis w"
proof (induction specs arbitrary: acc w)
  case Nil
  then show ?case by (simp add: run_simps)
next
  case (Cons spec specs)
  obtain res w1 where r: "reserve_one env now spec w = (res, w1)" by (cases "reserve_one env now spec w")
  with reserve_one_redis [of env now spec w] have "w_redis w1 = w_redis w" by simp
  with Cons r show ?case
    by (cases res) (auto simp: bindp_def run_simps split: sum.splits)
qed

lemma lift_oc_run: "lift_oc oc w = (Ok x, w') \<longleftrightarrow> oc = Ok x \<and> w' = w"
  by (cases oc) (auto simp: run_simps)

text \<open>The failed attempts counted for a target at a time.\<close>

definition attempts_in :: "otp_value option \<Rightarrow> int" where
  "attempts_in v = (case v of Some (VCount n) \<Rightarrow> n | _ \<Rightarrow> 0)"

definition stored_code :: "otp_value option \<Rightarrow> OtpCode option" where
  "stored_code v = (case v of Some (VCode c) \<Rightarrow> Some c | _ \<Rightarrow> None)"

definition counter_key :: "('r, 'l) otp_env \<Rightarrow> Kind \<Rightarrow> string \<Rightarrow> string" where
  "counter_key env kind target = redisFailedAttemptsKey (e_AppID env) (KindPurpose kind) target"

definition code_key :: "('r, 'l) otp_env \<Rightarrow> Kind \<Rightarrow> string \<Rightarrow> string" where
  "code_key env kind target = redisCodeKey (e_AppID env) (KindPurpose kind) target"

context otp_keys begin

lemma GetFailedAttempts_run:
  "GetFailedAttempts env now kind target w = (case view now (w_redis w) (counter_key env kind target) of
      None \<Rightarrow> (Ok 0, w) | Some (VCount n) \<Rightarrow> (Ok n, w) | Some _ \<Rightarrow> (Err (InfraErr ''integer''), w))"
  by (simp add: GetFailedAttempts_def bindp_def counter_key_def run_simps split: option.split otp_value.split)

lemma getCode_run:
  "getCode env now (KindPurpose kind) target w = (case view now (w_redis w) (code_key env kind target) of
      None \<Rightarrow> (Err ErrCodeNotFound, w) | Some (VCode c) \<Rightarrow> (Ok c, w) | Some _ \<Rightarrow> (Err (InfraErr ''unmarshal''), w))"
  by (simp add: getCode_def CodeStore_Get_def bindp_def code_key_def run_simps split: option.split otp_value.split)

lemma check_Ok:
  assumes "checkFailedAttemptsRevocation env now kind target w = (Ok u, w')"
  shows "w' = w \<and> (\<exists>m. RevocationMaxFailedAttempts kind = Ok m
    \<and> (m = 0 \<or> attempts_in (view now (w_redis w) (counter_key env kind target)) < m))"
  using assms
  by (auto simp: checkFailedAttemptsRevocation_def bindp_Ok GetFailedAttempts_run lift_oc_run attempts_in_def run_simps
      split: option.splits otp_value.splits if_splits)

lemma verify_compare_Ok:
  assumes "verify_compare env now kind target otp opts w = (Ok (rs, code, valid), w')"
  shows "view now (w_redis w) (code_key env kind target) = Some (VCode code)"
    and "code_Purpose code = KindPurpose kind" "\<not> Consumed code"
    and "VerifyCode (code_Form code) (if v_UseSubmittedCode opts then UserInputtedCode code else otp) (code_Code code) = Ok valid"
    and "\<exists>m. RevocationMaxFailedAttempts kind = Ok m
      \<and> (m = 0 \<or> attempts_in (view now (w_redis w) (counter_key env kind target)) < m)"
    and "w_redis w' = w_redis w"
proof -
  from assms obtain u w1 specs w2 rs' err where
    c: "checkFailedAttemptsRevocation env now kind target w = (Ok u, w1)"
    and s: "lift_oc (RateLimitValidate kind (e_FeatureConfig env) (e_EnvConfig env) (e_RemoteIP env) (v_UserID opts)) w1 = (Ok specs, w1)"
    and r: "reserve_all env now specs [] w1 = (Ok (rs', err), w2)"
    and rest: "(case err of Some e \<Rightarrow> failp e | None \<Rightarrow>
       bindp (attempt (getCode env now (KindPurpose kind) target)) (\<lambda>got. case got of
         Inl ErrCodeNotFound \<Rightarrow> failp ErrInvalidCode
       | Inl e \<Rightarrow> failp e
       | Inr code \<Rightarrow>
         if code_Purpose code \<noteq> KindPurpose kind then failp ErrInvalidCode
         else if Consumed code then failp ErrConsumedCode
         else bindp (lift_oc (VerifyCode (code_Form code)
             (if v_UseSubmittedCode opts then UserInputtedCode code else otp) (code_Code code)))
           (\<lambda>isCodeValid. ret (rs', code, isCodeValid)))) w2 = (Ok (rs, code, valid), w')"
    unfolding verify_compare_def bindp_Ok by (auto simp: lift_oc_run)
  from check_Ok [OF c] have w1: "w1 = w" by simp
  have w2: "w_redis w2 = w_redis w" using reserve_all_redis [OF r] w1 by simp
  from rest have err: "err = None" by (cases err) (auto simp: run_simps)
  from rest [unfolded err] obtain got w3 where g: "attempt (getCode env now (KindPurpose kind) target) w2 = (Ok got, w3)"
    and rest2: "(case got of
         Inl ErrCodeNotFound \<Rightarrow> failp ErrInvalidCode
       | Inl e \<Rightarrow> failp e
       | Inr code \<Rightarrow>
         if code_Purpose code \<noteq> KindPurpose kind then failp ErrInvalidCode
         else if Consumed code then failp ErrConsumedCode
         else bindp (lift_oc (VerifyCode (code_Form code)
             (if v_UseSubmittedCode opts then UserInputtedCode code else otp) (code_Code code)))
           (\<lambda>isCodeValid. ret (rs', code, isCodeValid))) w3 = (Ok (rs, code, valid), w')"
    by (auto simp: bindp_Ok)
  from rest2 obtain c' where got: "got = Inr c'"
    by (cases got) (auto simp: run_simps split: otp_error.splits)
  with g have gc: "view now (w_redis w2) (code_key env kind target) = Some (VCode c')" "w3 = w2"
    by (auto simp: attempt_Ok getCode_run split: option.splits otp_value.splits)
  from rest2 [unfolded got] have c': "c' = code" "code_Purpose code = KindPurpose kind" "\<not> Consumed code"
    "VerifyCode (code_Form code) (if v_UseSubmittedCode opts then UserInputtedCode code else otp) (code_Code code) = Ok valid"
    "w' = w3"
    by (auto simp: run_simps bindp_Ok lift_oc_run split: if_splits)
  then show "view now (w_redis w) (code_key env kind target) = Some (VCode code)"
    "code_Purpose code = KindPurpose kind" "\<not> Consumed code"
    "VerifyCode (code_Form code) (if v_UseSubmittedCode opts then UserInputtedCode code else otp) (code_Code code) = Ok valid"
    "w_redis w' = w_redis w"
    using gc w2 by simp_all
  show "\<exists>m. RevocationMaxFailedAttempts kind = Ok m
      \<and> (m = 0 \<or> attempts_in (view now (w_redis w) (counter_key env kind target)) < m)"
    using check_Ok [OF c] by simp
qed

end

definition wrong_guess ::
    "('r, 'l) otp_env \<Rightarrow> time \<Rightarrow> Kind \<Rightarrow> string \<Rightarrow> string \<Rightarrow> VerifyOptions \<Rightarrow> ('r, 'l) otp_world \<Rightarrow> bool" where
  "wrong_guess env now kind target otp opts w = (case fst (verify_compare env now kind target otp opts w) of
     Ok (_, _, valid) \<Rightarrow> \<not> valid | _ \<Rightarrow> False)"

definition right_guess ::
    "('r, 'l) otp_env \<Rightarrow> time \<Rightarrow> Kind \<Rightarrow> string \<Rightarrow> string \<Rightarrow> VerifyOptions \<Rightarrow> ('r, 'l) otp_world \<Rightarrow> bool" where
  "right_guess env now kind target otp opts w = (case fst (verify_compare env now kind target otp opts w) of
     Ok (_, _, valid) \<Rightarrow> valid | _ \<Rightarrow> False)"

text \<open>
  A stretch of calls from \<open>(t0, w0)\<close> to \<open>(t, w)\<close> in which \<open>n\<close> guesses at the code of one target were
  compared and found wrong: verifications of that target, and inspections, submissions and
  consumptions of any target, in the order of time.
\<close>

inductive guessing ::
    "('r, 'l) otp_env \<Rightarrow> Kind \<Rightarrow> string \<Rightarrow> time \<Rightarrow> ('r, 'l) otp_world \<Rightarrow> nat \<Rightarrow> time \<Rightarrow> ('r, 'l) otp_world \<Rightarrow> bool"
  for env :: "('r, 'l) otp_env" and kind :: Kind and target :: string and t0 :: time and w0 :: "('r, 'l) otp_world" where
  start: "guessing env kind target t0 w0 0 t0 w0"
| verify: "guessing env kind target t0 w0 n t w \<Longrightarrow> t \<le> now \<Longrightarrow>
    VerifyOTP env now kind target otp opts w = (r, w') \<Longrightarrow>
    guessing env kind target t0 w0 (if wrong_guess env now kind target otp opts w then Suc n else n) now w'"
| inspect: "guessing env kind target t0 w0 n t w \<Longrightarrow> t \<le> now \<Longrightarrow>
    InspectState env now kind x fid w = (r', w') \<Longrightarrow> guessing env kind target t0 w0 n now w'"
| submit: "guessing env kind target t0 w0 n t w \<Longrightarrow> t \<le> now \<Longrightarrow>
    SetSubmittedCode env now kind x c w = (r', w') \<Longrightarrow> guessing env kind target t0 w0 n now w'"
| consume: "guessing env kind target t0 w0 n t w \<Longrightarrow> t \<le> now \<Longrightarrow>
    ConsumeCode env now p x w = (r, w') \<Longrightarrow> guessing env kind target t0 w0 n now w'"

lemma guessing_time: "guessing env kind target t0 w0 n t w \<Longrightarrow> t0 \<le> t"
  by (induction rule: guessing.induct) auto

lemma ttl_pos: "0 < ttl d"
  by (simp add: ttl_def)

text \<open>A counter that stands at \<open>n\<close> until \<open>e\<close>.\<close>

definition counts :: "(time \<Rightarrow> 'r \<Rightarrow> string \<Rightarrow> otp_value option) \<Rightarrow> time \<Rightarrow> ('r, 'l) otp_world \<Rightarrow> string \<Rightarrow> nat \<Rightarrow> time \<Rightarrow> bool" where
  "counts view now w k n e \<longleftrightarrow> (\<forall>t \<ge> now. view t (w_redis w) k =
     (if 0 < n \<and> t < e then Some (VCount (int n)) else None))"

context otp_keys begin

lemma counts_later: "counts view now w k n e \<Longrightarrow> now \<le> t \<Longrightarrow> counts view t w k n e"
  by (simp add: counts_def)

lemma counts_same: "counts view now w k n e \<Longrightarrow> same_key view now k w w' \<Longrightarrow> counts view now w' k n e"
  by (simp add: counts_def same_key_def)

lemma increment_run:
  assumes "counts view now w (counter_key env kind target) n e" "0 < n \<longrightarrow> now < e"
    and "KindValidPeriod kind = Ok V" "0 < V"
  shows "\<exists>w'. IncrementFailedAttempts env now kind target w = (Ok (int n + 1), w')
    \<and> counts view now w' (counter_key env kind target) (Suc n) (now + ttl V)"
proof -
  let ?k = "counter_key env kind target"
  have v: "view now (w_redis w) ?k = (if 0 < n then Some (VCount (int n)) else None)"
    using assms(1,2) by (simp add: counts_def)
  then have "view now (w_redis w) ?k \<in> {None, Some (VCount (int n))}"
    "int n = (if view now (w_redis w) ?k = None then 0 else int n)" by auto
  from INCR [OF this] obtain r1 where
    r1: "kv_INCR (e_redis env) now ?k (w_redis w) = (Inr (int n + 1), r1)"
    "\<forall>t \<ge> now. \<forall>k'. view t r1 k' = (if k' = ?k then if view now (w_redis w) ?k = None then Some (VCount 1)
          else map_option (\<lambda>_. VCount (int n + 1)) (view t (w_redis w) ?k) else view t (w_redis w) k')" by blast
  from EXPIRE [OF assms(4), of now ?k r1] obtain b r2 where
    r2: "kv_EXPIRE (e_redis env) now ?k V r1 = (Inr b, r2)"
    "\<forall>t \<ge> now. \<forall>k'. view t r2 k' = (if k' = ?k then if t < now + ttl V then view now r1 ?k else None else view t r1 k')"
    by blast
  have "view now r1 ?k = Some (VCount (int (Suc n)))"
    using r1(2) v by (auto split: if_splits)
  then have "counts view now (w\<lparr>w_redis := r2\<rparr>) ?k (Suc n) (now + ttl V)"
    using r2(2) by (simp add: counts_def)
  moreover have "IncrementFailedAttempts env now kind target w = (Ok (int n + 1), w\<lparr>w_redis := r2\<rparr>)"
    using r1(1) r2(1) assms(3)
    by (simp add: IncrementFailedAttempts_def Let_def bindp_def kv_def counter_key_def run_simps)
  ultimately show ?thesis by blast
qed

lemma settle_wrong:
  assumes "counts view now w (counter_key env kind target) n e" "0 < n \<longrightarrow> now < e"
    and "KindValidPeriod kind = Ok V" "0 < V" "RevocationMaxFailedAttempts kind = Ok m"
  shows "\<exists>w'. verify_settle env now kind target opts (rs, code, False) w
        = (Err (if m \<noteq> 0 \<and> m \<le> int n + 1 then ErrTooManyAttempts else ErrInvalidCode), w')
    \<and> counts view now w' (counter_key env kind target) (Suc n) (now + ttl V)"
proof -
  from increment_run [OF assms(1-4)] obtain w' where
    i: "IncrementFailedAttempts env now kind target w = (Ok (int n + 1), w')"
    and c: "counts view now w' (counter_key env kind target) (Suc n) (now + ttl V)" by blast
  have "handleFailedAttemptsRevocation env now kind target w =
      ((if m \<noteq> 0 \<and> m \<le> int n + 1 then Err ErrTooManyAttempts else Ok ()), w')"
    using i assms(5) by (simp add: handleFailedAttemptsRevocation_def bindp_def run_simps)
  then show ?thesis
    using c by (simp add: verify_settle_def bindp_def attempt_def run_simps)
qed

lemma settle_right:
  "keeps (same_key view now (counter_key env kind x)) (verify_settle env now kind target opts (rs, code, True))"
  unfolding verify_settle_def counter_key_def
  by (auto intro!: keeps_intros)

lemma verify_step:
  assumes "counts view now w (counter_key env kind target) n e" "0 < n \<longrightarrow> now < e"
    and "KindValidPeriod kind = Ok V" "0 < V"
    and "VerifyOTP env now kind target otp opts w = (r, w')"
  shows "if wrong_guess env now kind target otp opts w
    then counts view now w' (counter_key env kind target) (Suc n) (now + ttl V)
      \<and> (\<forall>m. RevocationMaxFailedAttempts kind = Ok m \<longrightarrow> m = 0 \<or> int n < m)
    else counts view now w' (counter_key env kind target) n e"
proof -
  let ?k = "counter_key env kind target"
  obtain res w1 where c: "verify_compare env now kind target otp opts w = (res, w1)"
    by (cases "verify_compare env now kind target otp opts w")
  have k1: "counts view now w1 ?k n e"
    using counts_same [OF assms(1) keepsD [OF keeps_verify_compare c]] by (simp add: counter_key_def)
  show ?thesis
  proof (cases res)
    case (Ok x)
    obtain rs code valid where x: "x = (rs, code, valid)" by (cases x)
    have v: "VerifyOTP env now kind target otp opts w = verify_settle env now kind target opts (rs, code, valid) w1"
      unfolding VerifyOTP_split using c Ok x by (simp add: bindp_run)
    from verify_compare_Ok(5) [OF c [unfolded Ok x]] obtain m where
      m: "RevocationMaxFailedAttempts kind = Ok m" "m = 0 \<or> attempts_in (view now (w_redis w) ?k) < m" by blast
    show ?thesis
    proof (cases valid)
      case True
      then have "same_key view now ?k w1 w'"
        using keepsD [OF settle_right] v assms(5) by metis
      then show ?thesis using counts_same [OF k1] c Ok x True by (simp add: wrong_guess_def)
    next
      case False
      from settle_wrong [OF k1 assms(2-4) m(1), of opts rs code] v assms(5) False
      have "counts view now w' ?k (Suc n) (now + ttl V)" by auto
      moreover have "attempts_in (view now (w_redis w) ?k) = int n"
        using assms(1,2) by (auto simp: counts_def attempts_in_def)
      ultimately show ?thesis using m c Ok x False by (auto simp: wrong_guess_def)
    qed
  next
    case (Err e')
    then show ?thesis using c k1 assms(5) unfolding VerifyOTP_split
      by (simp add: wrong_guess_def bindp_run)
  next
    case Panic
    then show ?thesis using c k1 assms(5) unfolding VerifyOTP_split
      by (simp add: wrong_guess_def bindp_run)
  qed
qed

lemma guessing_counts:
  assumes "guessing env kind target t0 w0 n t w" "t < t0 + ttl V"
    and "counts view t0 w0 (counter_key env kind target) 0 t0"
    and "KindValidPeriod kind = Ok V" "0 < V" "RevocationMaxFailedAttempts kind = Ok m" "0 < m"
  shows "\<exists>e. counts view t w (counter_key env kind target) n e \<and> (0 < n \<longrightarrow> t0 + ttl V \<le> e) \<and> int n \<le> m"
  using assms
proof (induction rule: guessing.induct)
  case start
  then show ?case by auto
next
  case (verify n t w now otp opts r w')
  from verify.IH verify.prems verify.hyps(2) obtain e where
    e: "counts view t w (counter_key env kind target) n e" "0 < n \<longrightarrow> t0 + ttl V \<le> e" "int n \<le> m" by auto
  have live: "0 < n \<longrightarrow> now < e" using e(2) verify.prems(1) by auto
  have t0: "t0 \<le> now" using guessing_time [OF verify.hyps(1)] verify.hyps(2) by simp
  note step = verify_step [OF counts_later [OF e(1) verify.hyps(2)] live verify.prems(3,4) verify.hyps(3)]
  show ?case
  proof (cases "wrong_guess env now kind target otp opts w")
    case True
    with step verify.prems(5,6) t0 show ?thesis by (intro exI [of _ "now + ttl V"]) auto
  next
    case False
    with step e show ?thesis by (intro exI [of _ e]) auto
  qed
next
  case (inspect n t w now x fid r' w')
  from inspect.IH inspect.prems inspect.hyps(2) obtain e where
    e: "counts view t w (counter_key env kind target) n e" "0 < n \<longrightarrow> t0 + ttl V \<le> e" "int n \<le> m" by auto
  have "same_key view now (counter_key env kind target) w w'"
    using keepsD [OF keeps_InspectState inspect.hyps(3)] by (simp add: counter_key_def)
  then show ?case using counts_same counts_later [OF e(1) inspect.hyps(2)] e by blast
next
  case (submit n t w now x c r' w')
  from submit.IH submit.prems submit.hyps(2) obtain e where
    e: "counts view t w (counter_key env kind target) n e" "0 < n \<longrightarrow> t0 + ttl V \<le> e" "int n \<le> m" by auto
  have "same_key view now (counter_key env kind target) w w'"
    using keepsD [OF keeps_SetSubmittedCode submit.hyps(3)] by (simp add: counter_key_def)
  then show ?case using counts_same counts_later [OF e(1) submit.hyps(2)] e by blast
next
  case (consume n t w now p x r w')
  from consume.IH consume.prems consume.hyps(2) obtain e where
    e: "counts view t w (counter_key env kind target) n e" "0 < n \<longrightarrow> t0 + ttl V \<le> e" "int n \<le> m" by auto
  have "same_key view now (counter_key env kind target) w w'"
    using keepsD [OF keeps_ConsumeCode consume.hyps(3)] by (simp add: counter_key_def)
  then show ?case using counts_same counts_later [OF e(1) consume.hyps(2)] e by blast
qed

lemma blocked_verify:
  assumes "counts view now w (counter_key env kind target) n e" "0 < n" "now < e"
    and "RevocationMaxFailedAttempts kind = Ok m" "m \<noteq> 0" "m \<le> int n"
  shows "fst (VerifyOTP env now kind target otp opts w) = Err ErrTooManyAttempts"
proof -
  have v: "view now (w_redis w) (counter_key env kind target) = Some (VCount (int n))"
    using assms(1-3) by (simp add: counts_def)
  obtain r' where d: "kv_DEL (e_redis env) now (redisCodeKey (e_AppID env) (KindPurpose kind) target) (w_redis w) = (Inr (), r')"
    using DEL by blast
  have "ignore_err (deleteCode env now kind target) w = (Ok (), w\<lparr>w_redis := r'\<rparr>)"
    using d by (simp add: deleteCode_def CodeStore_Delete_def kv_def ignore_err_def bindp_def attempt_def run_simps)
  then have "checkFailedAttemptsRevocation env now kind target w = (Err ErrTooManyAttempts, w\<lparr>w_redis := r'\<rparr>)"
    using v assms(4-6)
    by (simp add: checkFailedAttemptsRevocation_def GetFailedAttempts_run bindp_def run_simps)
  then show ?thesis by (simp add: VerifyOTP_def bindp_def)
qed

end

section \<open>A key store\<close>

text \<open>Redis as a map from keys to values and deadlines, with the documented effect of each command.\<close>

type_synonym otp_kvs = "string \<Rightarrow> (otp_value \<times> time option) option"

definition kvs_view :: "time \<Rightarrow> otp_kvs \<Rightarrow> string \<Rightarrow> otp_value option" where
  "kvs_view t r k = (case r k of None \<Rightarrow> None
     | Some (v, d) \<Rightarrow> (case d of None \<Rightarrow> Some v | Some e \<Rightarrow> if t < e then Some v else None))"

definition kvs_redis :: "otp_kvs otp_redis" where
  "kvs_redis = \<lparr>
     kv_SETEX = (\<lambda>now k v d r. if d \<le> 0 then (Inl ''invalid expire time'', r)
        else (Inr (), r(k \<mapsto> (v, Some (now + ttl d))))),
     kv_SETNX = (\<lambda>now k v d r. if kvs_view now r k \<noteq> None then (Inr False, r)
        else (Inr True, r(k \<mapsto> (v, Some (now + ttl d))))),
     kv_GET = (\<lambda>now k r. (Inr (kvs_view now r k), r)),
     kv_DEL = (\<lambda>now k r. (Inr (), r(k := None))),
     kv_INCR = (\<lambda>now k r. (case kvs_view now r k of
        None \<Rightarrow> (Inr 1, r(k \<mapsto> (VCount 1, None)))
      | Some (VCount n) \<Rightarrow> (Inr (n + 1), r(k := map_option (\<lambda>(_, d). (VCount (n + 1), d)) (r k)))
      | Some _ \<Rightarrow> (Inl ''not an integer'', r))),
     kv_EXPIRE = (\<lambda>now k d r. (case kvs_view now r k of
        None \<Rightarrow> (Inr False, r(k := None))
      | Some v \<Rightarrow> (Inr True, r(k \<mapsto> (v, Some (now + ttl d))))))\<rparr>"

lemmas kvs_defs = kvs_redis_def kvs_view_def

definition limiter_rl :: "('s, string) storage_update \<Rightarrow> Weights option \<Rightarrow> 's Limiter rate_limiter" where
  "limiter_rl update w = \<lparr>
     rl_Reserve = (\<lambda>now spec l. Reserve update now w l spec),
     rl_Cancel = (\<lambda>now r l. Cancel update now l r),
     rl_GetTimeToAct = (\<lambda>now spec l. GetTimeToAct update now l spec)\<rparr>"

text \<open>The service on that store and on the rate limiter over Redis.\<close>

definition redis_otp_env :: "string \<Rightarrow> string \<Rightarrow> test_mode \<Rightarrow> feature_config \<Rightarrow> env_config
    \<Rightarrow> (secretCode \<Rightarrow> string) \<Rightarrow> (otp_kvs, key_store Limiter) otp_env" where
  "redis_otp_env app ip test fcfg ecfg generate = \<lparr>e_redis = kvs_redis,
     e_limiter = limiter_rl (StorageRedis_Update ks_get ks_put) None, e_AppID = app, e_RemoteIP = ip,
     e_TestMode = test, e_FeatureConfig = fcfg, e_EnvConfig = ecfg, e_Whatsapp = (\<lambda>_. Inr None),
     e_Generate = generate, e_md5hex = (\<lambda>s. s)\<rparr>"

lemma kvs_otp_keys:
  assumes "e_redis env = kvs_redis"
  shows "otp_keys env kvs_view"
  unfolding otp_keys_def assms
proof (intro conjI allI impI)
  fix d :: duration and now k and v :: otp_value and r :: otp_kvs and n :: int and t
  show "kv_GET kvs_redis now k r = (Inr (kvs_view now r k), r)" by (simp add: kvs_redis_def)
  show "\<exists>r'. kv_DEL kvs_redis now k r = (Inr (), r') \<and> (\<forall>t\<ge>now. \<forall>k'. kvs_view t r' k' = (if k' = k then None else kvs_view t r k'))"
    by (simp add: kvs_defs)
  show "kvs_view t r k = None \<or> kvs_view t r k = kvs_view now r k" if "now \<le> t"
    using that by (auto simp: kvs_view_def split: option.split)
  show "\<exists>e. kv_SETEX kvs_redis now k v d r = (Inl e, r)" if "d \<le> 0"
    using that by (simp add: kvs_redis_def)
  show "\<exists>r'. kv_SETEX kvs_redis now k v d r = (Inr (), r') \<and> (\<forall>t\<ge>now. \<forall>k'. kvs_view t r' k' = (if k' = k then if t < now + ttl d then Some v else None else kvs_view t r k'))"
    if "0 < d" using that by (auto simp: kvs_defs)
  show "\<exists>b r'. kv_SETNX kvs_redis now k v d r = (Inr b, r') \<and> (\<forall>t\<ge>now. \<forall>k'. kvs_view t r' k' =
      (if k' = k \<and> kvs_view now r k = None then if t < now + ttl d then Some v else None else kvs_view t r k'))"
    if "0 < d" using that by (auto simp: kvs_redis_def) (auto simp: kvs_view_def)
  show "\<exists>b r'. kv_EXPIRE kvs_redis now k d r = (Inr b, r') \<and> (\<forall>t\<ge>now. \<forall>k'. kvs_view t r' k' =
      (if k' = k then if t < now + ttl d then kvs_view now r k else None else kvs_view t r k'))" if "0 < d"
    by (cases "kvs_view now r k") (auto simp: kvs_redis_def kvs_view_def)
  show "\<exists>r'. kv_INCR kvs_redis now k r = (Inr (n + 1), r') \<and> (\<forall>t\<ge>now. \<forall>k'. kvs_view t r' k' =
      (if k' = k then if kvs_view now r k = None then Some (VCount 1) else map_option (\<lambda>_. VCount (n + 1)) (kvs_view t r k)
       else kvs_view t r k'))"
    if "kvs_view now r k \<in> {None, Some (VCount n)}" "n = (if kvs_view now r k = None then 0 else n)"
    using that by (auto simp: kvs_redis_def) (auto simp: kvs_view_def split: option.splits if_splits)
qed

interpretation kvs: otp_keys "redis_otp_env app ip test fcfg ecfg generate" kvs_view
  for app ip test fcfg ecfg generate
  by (rule kvs_otp_keys) (simp add: redis_otp_env_def)

section \<open>Codes that were generated\<close>

text \<open>The limiter lets a verification through.\<close>

definition let_through :: "('r, 'l) otp_env \<Rightarrow> time \<Rightarrow> Kind \<Rightarrow> VerifyOptions \<Rightarrow> ('r, 'l) otp_world \<Rightarrow> bool" where
  "let_through env now kind opts w \<longleftrightarrow>
     (case RateLimitValidate kind (e_FeatureConfig env) (e_EnvConfig env) (e_RemoteIP env) (v_UserID opts) of
        Ok specs \<Rightarrow> (case fst (reserve_all env now specs [] w) of Ok (_, None) \<Rightarrow> True | _ \<Rightarrow> False)
      | _ \<Rightarrow> False)"

lemma let_through_conv:
  "let_through env now kind opts w \<longleftrightarrow> (\<exists>specs rs w'.
     RateLimitValidate kind (e_FeatureConfig env) (e_EnvConfig env) (e_RemoteIP env) (v_UserID opts) = Ok specs
     \<and> reserve_all env now specs [] w = (Ok (rs, None), w'))"
  by (auto simp: let_through_def split: outcome.splits option.splits prod.splits) (metis fst_conv surj_pair)+

lemma Compare_refl [simp]: "Compare c x x"
  by (simp add: Compare_def)

context otp_keys begin

lemma GenerateOTP_Ok:
  assumes "GenerateOTP env now kind target form opts w = (Ok c, w')" "KindValidPeriod kind = Ok V" "0 < V"
  shows "\<exists>code. code_Code code = c \<and> Target code = target \<and> code_Purpose code = KindPurpose kind
      \<and> code_Form code = form \<and> \<not> Consumed code \<and> ExpireAt code = now + V \<and> (\<exists>ct. codeType form = Ok ct)
      \<and> (\<forall>t \<ge> now. view t (w_redis w') (code_key env kind target) = (if t < now + ttl V then Some (VCode code) else None))
      \<and> counts view now w' (counter_key env kind target) 0 now"
proof -
  let ?opts = "case opts of Some opts \<Rightarrow> opts | None \<Rightarrow> noGenerateOptions"
  from assms(1) obtain rs err w1 where
    body: "(let (r, w') = (case err of
           Some e \<Rightarrow> failp e
         | None \<Rightarrow> bindp (lift_oc (newCode env now kind target form ?opts)) (\<lambda>code.
             bindp (createOTPCode env now code) (\<lambda>_.
             bindp (ignore_err (ResetFailedAttempts env now kind target)) (\<lambda>_.
             ret (code_Code code))))) w1
       in (r, if is_ok r then w' else cancel_all env now rs w')) = (Ok c, w')"
    unfolding GenerateOTP_def Let_def bindp_Ok by auto
  from body have err: "err = None" by (cases err) (auto simp: run_simps)
  from body [unfolded err] have b: "bindp (lift_oc (newCode env now kind target form ?opts)) (\<lambda>code.
             bindp (createOTPCode env now code) (\<lambda>_.
             bindp (ignore_err (ResetFailedAttempts env now kind target)) (\<lambda>_.
             ret (code_Code code)))) w1 = (Ok c, w')"
    by (auto split: prod.splits)
  then obtain code w2 w3 where n: "newCode env now kind target form ?opts = Ok code"
    and cr: "createOTPCode env now code w1 = (Ok (), w2)"
    and rst: "ignore_err (ResetFailedAttempts env now kind target) w2 = (Ok (), w3)"
    and c: "c = code_Code code" "w' = w3"
    by (auto simp: bindp_Ok lift_oc_run run_simps)
  from n assms(2) have code: "Target code = target" "code_Purpose code = KindPurpose kind" "code_Form code = form"
    "\<not> Consumed code" "ExpireAt code = now + V" "\<exists>ct. codeType form = Ok ct"
    by (auto simp: newCode_def GenerateCode_def)
  let ?ck = "code_key env kind target"
  from cr obtain w1' where s: "CodeStore_set env now (code_Purpose code) code w1 = (Ok (), w1')"
    and l: "(if AllowLookupByCode (code_Form code)
      then LookupStore_Create env now (code_Purpose code) (code_Code code) (Target code) (ExpireAt code) else ret ()) w1' = (Ok (), w2)"
    by (auto simp: createOTPCode_def bindp_Ok)
  from SETEX [OF assms(3), of now ?ck "VCode code" "w_redis w1"] obtain r' where
    "kv_SETEX (e_redis env) now ?ck (VCode code) V (w_redis w1) = (Inr (), r')"
    and v1: "\<forall>t \<ge> now. \<forall>k'. view t r' k' = (if k' = ?ck then if t < now + ttl V then Some (VCode code) else None else view t (w_redis w1) k')" by blast
  with s code have w1': "w_redis w1' = r'"
    by (auto simp: CodeStore_set_def kv_def code_key_def)
  have k2: "keeps (same_key view now ?ck) (if AllowLookupByCode (code_Form code)
      then LookupStore_Create env now (code_Purpose code) (code_Code code) (Target code) (ExpireAt code) else ret ())"
    unfolding LookupStore_Create_def code_key_def code(5) using assms(3) by (auto intro!: keeps_intros)
  have k3: "keeps (same_key view now ?ck) (ignore_err (ResetFailedAttempts env now kind target))"
    unfolding ResetFailedAttempts_def code_key_def by (auto intro!: keeps_intros)
  have "\<forall>t \<ge> now. view t (w_redis w3) ?ck = (if t < now + ttl V then Some (VCode code) else None)"
    using keepsD [OF k2 l] keepsD [OF k3 rst] v1 w1' by (simp add: same_key_def)
  moreover obtain r3 where d: "kv_DEL (e_redis env) now (counter_key env kind target) (w_redis w2) = (Inr (), r3)"
    "\<forall>t \<ge> now. view t r3 (counter_key env kind target) = None"
    using DEL [of now "counter_key env kind target" "w_redis w2"] by auto
  then have "w_redis w3 = r3"
    using rst by (auto simp: ignore_err_def ResetFailedAttempts_def kv_def bindp_def attempt_def run_simps counter_key_def)
  with d(2) have "counts view now w3 (counter_key env kind target) 0 now" by (simp add: counts_def)
  ultimately show ?thesis using code c by blast
qed

lemma verify_compare_run:
  assumes "view t (w_redis w) (code_key env kind target) = Some (VCode code)" "view t (w_redis w) (counter_key env kind target) = None"
    and "code_Purpose code = KindPurpose kind" "\<not> Consumed code" "let_through env t kind opts w"
    and "RevocationMaxFailedAttempts kind = Ok m" "0 \<le> m" "codeType (code_Form code) = Ok ct"
  shows "\<exists>rs w'. w_redis w' = w_redis w \<and> verify_compare env t kind target otp opts w =
    (Ok (rs, code, Compare ct (if v_UseSubmittedCode opts then UserInputtedCode code else otp) (code_Code code)), w')"
proof -
  have check: "checkFailedAttemptsRevocation env t kind target w = (Ok (), w)"
    using assms(2,6,7) by (simp add: checkFailedAttemptsRevocation_def GetFailedAttempts_run bindp_def run_simps)
  obtain specs rs w' where specs: "RateLimitValidate kind (e_FeatureConfig env) (e_EnvConfig env) (e_RemoteIP env) (v_UserID opts) = Ok specs"
    and r: "reserve_all env t specs [] w = (Ok (rs, None), w')"
    using assms(5) unfolding let_through_conv by blast
  have w': "w_redis w' = w_redis w" using reserve_all_redis [OF r] .
  have "attempt (getCode env t (KindPurpose kind) target) w' = (Ok (Inr code), w')"
    using assms(1) w' by (simp add: getCode_run attempt_def)
  then show ?thesis
    using check specs r w' assms(3,4,8)
    by (intro exI [of _ rs] exI [of _ w'])
      (simp add: verify_compare_def bindp_def run_simps VerifyCode_def)
qed

lemma consume_Ok:
  assumes "0 < ExpireAt code - t"
  shows "\<exists>w'. consumeCode env t p code w = (Ok (), w')"
proof -
  from SETEX [OF assms, of t "redisCodeKey (e_AppID env) p (Target code)" "VCode (code\<lparr>Consumed := True\<rparr>)" "w_redis w"]
  show ?thesis by (auto simp: consumeCode_def Let_def CodeStore_set_def bindp_def kv_def run_simps)
qed

lemma consume_stored:
  assumes "consumeCode env now (KindPurpose kind) code w = (Ok (), w')" "Target code = target" "now \<le> t"
  shows "stored_code (view t (w_redis w') (code_key env kind target)) \<in> {None, Some (code\<lparr>Consumed := True\<rparr>)}"
proof -
  let ?k = "code_key env kind target" let ?c = "code\<lparr>Consumed := True\<rparr>"
  have d: "0 < ExpireAt code - now"
  proof (rule ccontr)
    assume "\<not> 0 < ExpireAt code - now"
    then obtain e where "kv_SETEX (e_redis env) now (redisCodeKey (e_AppID env) (KindPurpose kind) (Target code)) (VCode ?c)
        (ExpireAt code - now) (w_redis w) = (Inl e, w_redis w)"
      using SETEX_refused by (metis not_le)
    then show False using assms(1) by (simp add: consumeCode_def CodeStore_set_def kv_def bindp_def Let_def)
  qed
  from SETEX [OF d, of now ?k "VCode ?c" "w_redis w"] obtain r' where
    r': "kv_SETEX (e_redis env) now ?k (VCode ?c) (ExpireAt code - now) (w_redis w) = (Inr (), r')"
    "\<forall>t \<ge> now. \<forall>k'. view t r' k' = (if k' = ?k then if t < now + ttl (ExpireAt code - now) then Some (VCode ?c) else None else view t (w_redis w) k')"
    by blast
  have "w_redis w' = r'"
    using assms(1,2) r'(1)
    by (auto simp: consumeCode_def CodeStore_set_def kv_def bindp_def code_key_def run_simps Let_def split: if_splits)
  with r'(2) assms(3) show ?thesis by (simp add: stored_code_def)
qed

end

lemma verify_Ok:
  assumes "otp_keys env view" "VerifyOTP env now kind target otp opts w = (Ok (), w')"
  shows "\<exists>code m. view now (w_redis w) (code_key env kind target) = Some (VCode code)
    \<and> code_Purpose code = KindPurpose kind \<and> \<not> Consumed code
    \<and> VerifyCode (code_Form code) (if v_UseSubmittedCode opts then UserInputtedCode code else otp) (code_Code code) = Ok True
    \<and> RevocationMaxFailedAttempts kind = Ok m
    \<and> (m = 0 \<or> attempts_in (view now (w_redis w) (counter_key env kind target)) < m)
    \<and> (\<not> v_SkipConsume opts \<and> Target code = target \<longrightarrow> (\<forall>t \<ge> now.
         stored_code (view t (w_redis w') (code_key env kind target))
           \<in> {None, Some (code\<lparr>Consumed := True\<rparr>)}))"
proof -
  from assms(2) obtain rs code valid w1 where
    c: "verify_compare env now kind target otp opts w = (Ok (rs, code, valid), w1)"
    and s: "verify_settle env now kind target opts (rs, code, valid) w1 = (Ok (), w')"
    unfolding VerifyOTP_split bindp_Ok by (metis prod.collapse)
  have refuse: False if "(case ferr of Inl ErrTooManyAttempts \<Rightarrow> failp ErrTooManyAttempts
       | _ \<Rightarrow> failp ErrInvalidCode) w2 = (Ok (), w3)" for ferr :: "otp_error + unit" and w2 w3
    using that by (cases ferr) (auto simp: run_simps split: otp_error.splits)
  have valid: "valid"
    using s refuse by (cases valid) (auto simp: verify_settle_def bindp_Ok)
  have used: "stored_code (view t (w_redis w') (code_key env kind target)) \<in> {None, Some (code\<lparr>Consumed := True\<rparr>)}"
    if "\<not> v_SkipConsume opts" "Target code = target" "now \<le> t" for t
  proof -
    from s valid that(1) obtain w2 where "consumeCode env now (KindPurpose kind) code w1 = (Ok (), w2)"
      "w' = cancel_all env now rs w2"
      by (auto simp: verify_settle_def with_defer_def split: prod.splits)
    then show ?thesis using otp_keys.consume_stored [OF assms(1) _ that(2,3)] by (simp add: cancel_all_def)
  qed
  have v: "valid = True" using valid by simp
  show ?thesis using otp_keys.verify_compare_Ok [OF assms(1) c, unfolded v] used by blast
qed

lemma verify_found:
  assumes "otp_keys env view" "VerifyOTP env now kind target otp opts w = (Ok (), w')"
  shows "\<exists>code. view now (w_redis w) (code_key env kind target) = Some (VCode code) \<and> \<not> Consumed code"
  using verify_Ok [OF assms] by blast

lemma verify_consumes:
  assumes "otp_keys env view" "VerifyOTP env now kind target otp opts w = (Ok (), w')" "\<not> v_SkipConsume opts"
    and "\<And>c. stored_code (view now (w_redis w) (code_key env kind target)) = Some c \<Longrightarrow> Target c = target" "now \<le> t"
  shows "\<exists>code. view now (w_redis w) (code_key env kind target) = Some (VCode code)
    \<and> stored_code (view t (w_redis w') (code_key env kind target)) \<in> {None, Some (code\<lparr>Consumed := True\<rparr>)}"
  using verify_Ok [OF assms(1,2)] assms(3-5) by (fastforce simp: stored_code_def)

section \<open>Properties\<close>

text \<open>C21: a verification succeeds only for the stored, unconsumed code of that purpose and target, entered
  correctly while the failed attempts are below the limit; and unless told otherwise it leaves that
  code consumed for as long as it stays in the store.\<close>

theorem otp_verify_sound:
  assumes "otp_keys env view" "VerifyOTP env now kind target otp opts w = (Ok (), w')"
  shows "\<exists>code m. view now (w_redis w) (code_key env kind target) = Some (VCode code)
    \<and> code_Purpose code = KindPurpose kind \<and> \<not> Consumed code
    \<and> VerifyCode (code_Form code) (if v_UseSubmittedCode opts then UserInputtedCode code else otp) (code_Code code) = Ok True
    \<and> RevocationMaxFailedAttempts kind = Ok m
    \<and> (m = 0 \<or> attempts_in (view now (w_redis w) (counter_key env kind target)) < m)
    \<and> (\<not> v_SkipConsume opts \<and> Target code = target \<longrightarrow> (\<forall>t \<ge> now.
         stored_code (view t (w_redis w') (code_key env kind target))
           \<in> {None, Some (code\<lparr>Consumed := True\<rparr>)}))"
  using assms by (rule verify_Ok)

definition demo_otp_config :: otp_config where
  "demo_otp_config = \<lparr>RateLimits = (\<lambda>_. \<lparr>rl_Enabled = Some False, rl_Period = 0, rl_Burst = 0\<rparr>),
     ForgotPassword_ValidPeriods_Link = 0, ForgotPassword_ValidPeriods_Code = 0,
     ForgotPassword_Email_TriggerCooldown = 0, ForgotPassword_SMS_TriggerCooldown = 0,
     OOB_Email_ValidPeriods_Code = 0, OOB_Email_ValidPeriods_Link = 0, OOB_SMS_ValidPeriods_Code = 0,
     OOB_SMS_ValidPeriods_Link = 0, OOBOTP_Email_TriggerCooldown = 0, OOBOTP_SMS_TriggerCooldown = 0,
     OOBOTP_Email_MaxFailedAttemptsRevokeOTP = 0, OOBOTP_SMS_MaxFailedAttemptsRevokeOTP = 0,
     Verification_CodeValidPeriod = 300000000000, Verification_Email_TriggerCooldown = 60000000000,
     Verification_SMS_TriggerCooldown = 60000000000, Verification_Email_MaxFailedAttemptsRevokeOTP = 2,
     Verification_SMS_MaxFailedAttemptsRevokeOTP = 2\<rparr>"

definition demo_kind :: Kind where
  "demo_kind = KindVerification demo_otp_config ChannelEmail"

definition demo_env :: "(otp_kvs, key_store Limiter) otp_env" where
  "demo_env = redis_otp_env ''app'' ''1.1.1.1'' \<lparr>FixedOOBOTP_Enabled = False, FixedOOBOTP_MatchTarget = (\<lambda>_. None),
     feature_FixedOOBOTP_Enabled = False, feature_FixedOOBOTP_Code = '''', feature_DeterministicLinkOTP_Enabled = False\<rparr>
     (\<lambda>_. None) (\<lambda>_. \<lparr>env_Enabled = False, env_Period = 0, env_Burst = 0\<rparr>) (\<lambda>_. ''123456'')"

definition demo_world :: "(otp_kvs, key_store Limiter) otp_world" where
  "demo_world = \<lparr>w_redis = Map.empty, w_limiter = demo_limiter, w_fraud_verified = []\<rparr>"

definition demo_opts :: VerifyOptions where
  "demo_opts = \<lparr>v_UserID = ''u'', v_UseSubmittedCode = False, v_SkipConsume = False\<rparr>"

definition demo_generate :: "(otp_error, string) outcome \<times> (otp_kvs, key_store Limiter) otp_world" where
  "demo_generate = GenerateOTP demo_env 1000 demo_kind ''a@b.c'' FormCode None demo_world"

definition demo_verify :: "time \<Rightarrow> string \<Rightarrow> (otp_kvs, key_store Limiter) otp_world
    \<Rightarrow> (otp_error, unit) outcome \<times> (otp_kvs, key_store Limiter) otp_world" where
  "demo_verify now otp = VerifyOTP demo_env now demo_kind ''a@b.c'' otp demo_opts"

lemma demo_otp_keys: "otp_keys demo_env kvs_view"
  unfolding demo_env_def by (rule kvs.otp_keys_axioms)

lemma demo_generate_ok: "fst demo_generate = Ok ''123456''"
  by code_simp

lemma demo_verify_ok: "fst (demo_verify 2000 '' 123456'' (snd demo_generate)) = Ok ()"
  by code_simp

lemma demo_verify_eq: "fst (demo_verify t otp w) = r \<Longrightarrow>
    VerifyOTP demo_env t demo_kind ''a@b.c'' otp demo_opts w = (r, snd (demo_verify t otp w))"
  by (auto simp: demo_verify_def)

theorem otp_verify_sound_witness:
  "\<exists>code. kvs_view 2000 (w_redis (snd demo_generate)) (code_key demo_env demo_kind ''a@b.c'') = Some (VCode code)
     \<and> \<not> Consumed code"
  using otp_verify_sound [OF demo_otp_keys demo_verify_eq [OF demo_verify_ok]] by blast

text \<open>A code works once: after a verification succeeded and consumed the code, no later verification
  for that purpose and target succeeds, whatever is entered.\<close>

theorem otp_single_use:
  assumes "otp_keys env view" "VerifyOTP env now kind target otp opts w = (Ok (), w')"
    and "\<not> v_SkipConsume opts" "\<And>c. stored_code (view now (w_redis w) (code_key env kind target)) = Some c \<Longrightarrow> Target c = target"
    and "now \<le> t" "KindPurpose kind' = KindPurpose kind"
  shows "fst (VerifyOTP env t kind' target otp' opts' w') \<noteq> Ok ()"
proof
  assume "fst (VerifyOTP env t kind' target otp' opts' w') = Ok ()"
  then obtain w'' where v': "VerifyOTP env t kind' target otp' opts' w' = (Ok (), w'')" by (metis prod.collapse)
  obtain code where c: "view now (w_redis w) (code_key env kind target) = Some (VCode code)"
    and used: "stored_code (view t (w_redis w') (code_key env kind target)) \<in> {None, Some (code\<lparr>Consumed := True\<rparr>)}"
    using verify_consumes [OF assms(1-5)] by blast
  from verify_found [OF assms(1) v'] obtain code' where
    "view t (w_redis w') (code_key env kind target) = Some (VCode code')" "\<not> Consumed code'"
    using assms(6) by (auto simp: code_key_def)
  with used show False by (auto simp: stored_code_def)
qed

theorem otp_single_use_witness:
  "fst (VerifyOTP demo_env 3000 demo_kind ''a@b.c'' ''123456'' demo_opts (snd (demo_verify 2000 '' 123456'' (snd demo_generate)))) \<noteq> Ok ()"
proof -
  have "case stored_code (kvs_view 2000 (w_redis (snd demo_generate)) (code_key demo_env demo_kind ''a@b.c'')) of
      Some c \<Rightarrow> Target c = ''a@b.c'' | None \<Rightarrow> True" by code_simp
  then have t: "Target c = ''a@b.c''"
    if "stored_code (kvs_view 2000 (w_redis (snd demo_generate)) (code_key demo_env demo_kind ''a@b.c'')) = Some c" for c
    using that by simp
  have "\<not> v_SkipConsume demo_opts" by (simp add: demo_opts_def)
  from otp_single_use [OF demo_otp_keys demo_verify_eq [OF demo_verify_ok] this t _ refl, of 3000 "''123456''" demo_opts]
  show ?thesis by simp
qed

text \<open>C1: brute force is bounded: after a code was generated (so that the counter starts afresh), at most
  the configured number of wrong guesses is ever compared with it during its valid period, whatever
  verifications, inspections, submissions and consumptions happen; and once that number is reached
  every verification in the period is refused with "too many attempts", even of the right code.\<close>

theorem otp_brute_force_bounded:
  assumes "otp_keys env view" "GenerateOTP env t0 kind target form gopts w = (Ok c, w0)"
    and "guessing env kind target t0 w0 n t w1" "t \<le> now" "now < t0 + ttl V"
    and "KindValidPeriod kind = Ok V" "0 < V" "RevocationMaxFailedAttempts kind = Ok m" "0 < m"
  shows "int n \<le> m \<and> (int n = m \<longrightarrow> fst (VerifyOTP env now kind target otp opts w1) = Err ErrTooManyAttempts)"
proof -
  from otp_keys.GenerateOTP_Ok [OF assms(1,2,6,7)] have "counts view t0 w0 (counter_key env kind target) 0 t0" by blast
  from otp_keys.guessing_counts [OF assms(1,3) le_less_trans [OF assms(4,5)] this assms(6-9)] obtain e where
    e: "counts view t w1 (counter_key env kind target) n e" "0 < n \<longrightarrow> t0 + ttl V \<le> e" "int n \<le> m" by blast
  have "fst (VerifyOTP env now kind target otp opts w1) = Err ErrTooManyAttempts" if "int n = m"
    using otp_keys.blocked_verify [OF assms(1) otp_keys.counts_later [OF assms(1) e(1) assms(4)] _ _ assms(8)] e(2) that assms(5,9) by auto
  with e(3) show ?thesis by blast
qed

lemma demo_generate_eq: "GenerateOTP demo_env 1000 demo_kind ''a@b.c'' FormCode None demo_world = (Ok ''123456'', snd demo_generate)"
  using demo_generate_ok by (metis demo_generate_def prod.collapse)

lemma demo_kind_simps:
  "KindValidPeriod demo_kind = Ok 300000000000" "RevocationMaxFailedAttempts demo_kind = Ok 2"
  by (simp_all add: demo_kind_def demo_otp_config_def KindVerification_def selectByChannel_def)

theorem otp_brute_force_bounded_witness:
  "fst (demo_verify 4000 ''123456'' (snd (demo_verify 3000 ''0'' (snd (demo_verify 2000 ''0'' (snd demo_generate))))))
   = Err ErrTooManyAttempts"
proof -
  let ?w0 = "snd demo_generate" let ?w1 = "snd (demo_verify 2000 ''0'' ?w0)" let ?w2 = "snd (demo_verify 3000 ''0'' ?w1)"
  have wrong: "wrong_guess demo_env 2000 demo_kind ''a@b.c'' ''0'' demo_opts ?w0"
    "wrong_guess demo_env 3000 demo_kind ''a@b.c'' ''0'' demo_opts ?w1" by code_simp+
  have start: "guessing demo_env demo_kind ''a@b.c'' 1000 ?w0 0 1000 ?w0" by (rule guessing.start)
  have "guessing demo_env demo_kind ''a@b.c'' 1000 ?w0 1 2000 ?w1"
    using guessing.verify [OF start _ demo_verify_eq [OF refl], of 2000 "''0''"] wrong(1) by simp
  from guessing.verify [OF this _ demo_verify_eq [OF refl], of 3000 "''0''"] wrong(2)
  have g: "guessing demo_env demo_kind ''a@b.c'' 1000 ?w0 2 3000 ?w2" by (simp add: numeral_2_eq_2)
  show ?thesis
    using otp_brute_force_bounded [OF demo_otp_keys demo_generate_eq g _ _ demo_kind_simps(1) _ demo_kind_simps(2), of 4000 "''123456''" demo_opts]
    by (simp add: ttl_def demo_verify_def)
qed

text \<open>C37: a generated code verifies: during its valid period, and as long as the limiter lets the call
  through, the code \<^verbatim>\<open>GenerateOTP\<close> returned is accepted, padded with blanks or not, by a kind of the
  same purpose.\<close>

theorem otp_generate_then_verify:
  assumes "otp_keys env view" "GenerateOTP env t0 kind target form gopts w = (Ok c, w0)"
    and "KindValidPeriod kind = Ok V" "0 < V" "RevocationMaxFailedAttempts kind = Ok m" "0 \<le> m"
    and "t0 \<le> t" "t < t0 + min V (ttl V)" "TrimSpace otp = TrimSpace c" "\<not> v_UseSubmittedCode opts"
    and "let_through env t kind opts w0"
  shows "fst (VerifyOTP env t kind target otp opts w0) = Ok ()"
proof -
  from otp_keys.GenerateOTP_Ok [OF assms(1-4)] obtain code ct where
    c: "code_Code code = c" "Target code = target" "code_Purpose code = KindPurpose kind" "code_Form code = form"
      "\<not> Consumed code" "ExpireAt code = t0 + V" "codeType form = Ok ct"
    and v: "\<forall>t \<ge> t0. view t (w_redis w0) (code_key env kind target) = (if t < t0 + ttl V then Some (VCode code) else None)"
    and n: "counts view t0 w0 (counter_key env kind target) 0 t0" by blast
  have vc: "view t (w_redis w0) (code_key env kind target) = Some (VCode code)"
    using v assms(7,8) by simp
  have vn: "view t (w_redis w0) (counter_key env kind target) = None"
    using n assms(7) by (simp add: counts_def)
  from otp_keys.verify_compare_run [OF assms(1) vc vn c(3,5) assms(11,5,6), of ct otp] c assms(9,10)
  obtain rs w' where cmp: "verify_compare env t kind target otp opts w0 = (Ok (rs, code, True), w')"
    by (auto simp: Compare_def)
  have "0 < ExpireAt code - t" using c(6) assms(8) by simp
  from otp_keys.consume_Ok [OF assms(1) this, of "KindPurpose kind" w'] obtain w'' where
    "consumeCode env t (KindPurpose kind) code w' = (Ok (), w'')" by blast
  then show ?thesis
    using cmp unfolding VerifyOTP_split
    by (simp add: bindp_run verify_settle_def with_defer_def run_simps)
qed

theorem otp_generate_then_verify_witness:
  "fst (VerifyOTP demo_env 2000 demo_kind ''a@b.c'' ''123456 '' demo_opts (snd demo_generate)) = Ok ()"
proof -
  have l: "let_through demo_env 2000 demo_kind demo_opts (snd demo_generate)" by code_simp
  have "TrimSpace ''123456 '' = TrimSpace ''123456''" by code_simp
  with otp_generate_then_verify [OF demo_otp_keys demo_generate_eq demo_kind_simps(1) _ demo_kind_simps(2) _ _ _ _ _ l, of "''123456 ''"]
  show ?thesis by (simp add: ttl_def demo_opts_def)
qed

end
