(* ===== verification/SessionRedis.thy ===== *)
theory SessionRedis imports Proc begin

text \<open>
  What the session stores (\<^verbatim>\<open>pkg/lib/session/idpsession/store_redis.go\<close>,
  \<^verbatim>\<open>pkg/lib/oauth/redis/store.go\<close>) use of Redis through \<^verbatim>\<open>go-redis\<close>: strings with a lifetime and
  hashes. The commands are parameters; the locale \<open>session_keys\<close> states their documented behaviour,
  and \<open>ss_redis\<close> is a store that has it. A command may fail, and then changes nothing.
\<close>

text \<open>\<^verbatim>\<open>redis.Nil\<close>, or any other error.\<close>

datatype redis_err = Nil_reply | Redis_failure string

record ('v, 'r) session_redis =
  s_SETNX :: "time \<Rightarrow> string \<Rightarrow> 'v \<Rightarrow> duration \<Rightarrow> 'r \<Rightarrow> (redis_err + bool) \<times> 'r"
  s_SETXX :: "time \<Rightarrow> string \<Rightarrow> 'v \<Rightarrow> duration \<Rightarrow> 'r \<Rightarrow> (redis_err + bool) \<times> 'r"
  s_GET :: "time \<Rightarrow> string \<Rightarrow> 'r \<Rightarrow> (redis_err + 'v) \<times> 'r"
  s_DEL :: "time \<Rightarrow> string \<Rightarrow> 'r \<Rightarrow> (redis_err + unit) \<times> 'r"
  s_HSET :: "time \<Rightarrow> string \<Rightarrow> string \<Rightarrow> time \<Rightarrow> 'r \<Rightarrow> (redis_err + unit) \<times> 'r"
  s_HDEL :: "time \<Rightarrow> string \<Rightarrow> string \<Rightarrow> 'r \<Rightarrow> (redis_err + unit) \<times> 'r"
  s_HGETALL :: "time \<Rightarrow> string \<Rightarrow> 'r \<Rightarrow> (redis_err + (string \<times> time) list) \<times> 'r"

text \<open>
  The lifetime \<^verbatim>\<open>go-redis\<close> asks for with \<^verbatim>\<open>SET ... NX\<close> and \<^verbatim>\<open>SET ... XX\<close>: whole milliseconds, at
  least one.
\<close>

definition ttl_ms :: "duration \<Rightarrow> duration" where
  "ttl_ms d = max 1 (d div 1000000) * 1000000"

lemma ttl_ms_bounds:
  assumes "0 < d"
  shows "0 < ttl_ms d" "ttl_ms d \<le> max d 1000000" "d - 1000000 < ttl_ms d"
  using assms by (auto simp: ttl_ms_def max_def)

text \<open>
  \<open>view t r k\<close>: what the string key \<open>k\<close> holds at time \<open>t\<close> if nothing is written until then;
  \<open>hview r k f\<close>: the field \<open>f\<close> of the hash \<open>k\<close>. A command that finds the key unset for \<^verbatim>\<open>XX\<close>, or set
  for \<^verbatim>\<open>NX\<close>, answers false, not \<^verbatim>\<open>redis.Nil\<close>.
\<close>

locale session_keys =
  fixes rd :: "('v, 'r) session_redis"
    and view :: "time \<Rightarrow> 'r \<Rightarrow> string \<Rightarrow> 'v option"
    and hview :: "'r \<Rightarrow> string \<Rightarrow> string \<Rightarrow> time option"
  assumes SETNX_frame: "s_SETNX rd now k v d r = (res, r') \<Longrightarrow>
      hview r' = hview r \<and> (\<forall>t \<ge> now. \<forall>k'. k' \<noteq> k \<longrightarrow> view t r' k' = view t r k')"
    and SETNX_key: "0 < d \<Longrightarrow> s_SETNX rd now k v d r = (res, r') \<Longrightarrow> now \<le> t \<Longrightarrow>
      view t r' k = (if res = Inr True then if t < now + ttl_ms d then Some v else None else view t r k)"
    and SETNX_any: "s_SETNX rd now k v d r = (res, r') \<Longrightarrow> now \<le> t \<Longrightarrow> view t r' k \<in> {None, Some v, view t r k}"
    and SETNX_result: "s_SETNX rd now k v d r = (Inr b, r') \<Longrightarrow> b = (view now r k = None)"
    and SETXX_frame: "s_SETXX rd now k v d r = (res, r') \<Longrightarrow>
      hview r' = hview r \<and> (\<forall>t \<ge> now. \<forall>k'. k' \<noteq> k \<longrightarrow> view t r' k' = view t r k')"
    and SETXX_key: "0 < d \<Longrightarrow> s_SETXX rd now k v d r = (res, r') \<Longrightarrow> now \<le> t \<Longrightarrow>
      view t r' k = (if res = Inr True then if t < now + ttl_ms d then Some v else None else view t r k)"
    and SETXX_any: "s_SETXX rd now k v d r = (res, r') \<Longrightarrow> now \<le> t \<Longrightarrow> view t r' k \<in> {None, Some v, view t r k}"
    and SETXX_absent: "view now r k = None \<Longrightarrow> s_SETXX rd now k v d r = (res, r') \<Longrightarrow> now \<le> t \<Longrightarrow>
      view t r' k = None"
    and SETXX_result: "s_SETXX rd now k v d r = (Inr b, r') \<Longrightarrow> b = (view now r k \<noteq> None)"
    and SET_not_Nil: "fst (s_SETNX rd now k v d r) \<noteq> Inl Nil_reply" "fst (s_SETXX rd now k v d r) \<noteq> Inl Nil_reply"
    and GET: "s_GET rd now k r = (gres, r') \<Longrightarrow> r' = r \<and> (case gres of
      Inl Nil_reply \<Rightarrow> view now r k = None | Inl _ \<Rightarrow> True | Inr v \<Rightarrow> view now r k = Some v)"
    and DEL: "s_DEL rd now k r = (ures, r') \<Longrightarrow> now \<le> t \<Longrightarrow>
      view t r' k' = (if k' = k \<and> ures = Inr () then None else view t r k')"
    and DEL_hash: "s_DEL rd now k r = (ures, r') \<Longrightarrow>
      hview r' = (if ures = Inr () then (hview r)(k := \<lambda>_. None) else hview r)"
    and HSET: "s_HSET rd now k f x r = (ures, r') \<Longrightarrow> (\<forall>t \<ge> now. view t r' = view t r) \<and>
      hview r' = (if ures = Inr () then (hview r)(k := (hview r k)(f \<mapsto> x)) else hview r)"
    and HDEL: "s_HDEL rd now k f r = (ures, r') \<Longrightarrow> (\<forall>t \<ge> now. view t r' = view t r) \<and>
      hview r' = (if ures = Inr () then (hview r)(k := (hview r k)(f := None)) else hview r)"
    and HGETALL: "s_HGETALL rd now k r = (hres, r') \<Longrightarrow> r' = r \<and> (case hres of
      Inl _ \<Rightarrow> True | Inr l \<Rightarrow> distinct (map fst l) \<and> map_of l = hview r k)"
    and view_later: "now \<le> t \<Longrightarrow> view t r k = None \<or> view t r k = view now r k"
begin

lemma view_None_later: "now \<le> t \<Longrightarrow> view now r k = None \<Longrightarrow> view t r k = None"
  using view_later [of now t r k] by auto

lemma view_Some_earlier: "now \<le> t \<Longrightarrow> view t r k = Some v \<Longrightarrow> view now r k = Some v"
  using view_later [of now t r k] by auto

text \<open>No command but \<^verbatim>\<open>SET ... NX\<close> brings a key back.\<close>

definition gone :: "time \<Rightarrow> string \<Rightarrow> 'r \<Rightarrow> bool" where
  "gone now k r \<longleftrightarrow> (\<forall>t \<ge> now. view t r k = None)"

lemma gone_conv: "gone now k r \<longleftrightarrow> view now r k = None"
  using view_None_later by (auto simp: gone_def)

lemma gone_SETXX: "gone now k r \<Longrightarrow> s_SETXX rd now k' v d r = (res, r') \<Longrightarrow> gone now k r'"
  by (cases "k' = k") (auto simp: gone_def dest: SETXX_absent SETXX_frame)

lemma gone_SETNX: "k' \<noteq> k \<Longrightarrow> gone now k r \<Longrightarrow> s_SETNX rd now k' v d r = (res, r') \<Longrightarrow> gone now k r'"
  by (auto simp: gone_def dest: SETNX_frame)

lemma gone_reads: "gone now k r \<Longrightarrow> s_GET rd now k' r = (res, r') \<Longrightarrow> gone now k r'"
    "gone now k r \<Longrightarrow> s_HGETALL rd now k' r = (res', r') \<Longrightarrow> gone now k r'"
  by (auto dest: GET HGETALL)

lemma gone_writes: "gone now k r \<Longrightarrow> s_DEL rd now k' r = (res, r') \<Longrightarrow> gone now k r'"
    "gone now k r \<Longrightarrow> s_HSET rd now k' f x r = (res, r') \<Longrightarrow> gone now k r'"
    "gone now k r \<Longrightarrow> s_HDEL rd now k' f r = (res, r') \<Longrightarrow> gone now k r'"
  by (simp_all add: gone_def DEL HSET HDEL)

end

section \<open>A store\<close>

record 'v sstore =
  ss_strings :: "string \<Rightarrow> ('v \<times> time option) option"
  ss_hashes :: "string \<Rightarrow> (string \<times> time) list"

definition ss_view :: "time \<Rightarrow> 'v sstore \<Rightarrow> string \<Rightarrow> 'v option" where
  "ss_view t r k = (case ss_strings r k of None \<Rightarrow> None
     | Some (v, d) \<Rightarrow> (case d of None \<Rightarrow> Some v | Some e \<Rightarrow> if t < e then Some v else None))"

definition ss_hview :: "'v sstore \<Rightarrow> string \<Rightarrow> string \<Rightarrow> time option" where
  "ss_hview r k = map_of (ss_hashes r k)"

text \<open>\<^verbatim>\<open>SET\<close> with the lifetime: zero means none, minus one nanosecond keeps the old one.\<close>

definition ss_set :: "time \<Rightarrow> string \<Rightarrow> 'v \<Rightarrow> duration \<Rightarrow> 'v sstore \<Rightarrow> (redis_err + bool) \<times> 'v sstore" where
  "ss_set now k v d r =
     (if d = 0 then (Inr True, r\<lparr>ss_strings := (ss_strings r)(k \<mapsto> (v, None))\<rparr>)
      else if d = - 1 then (Inr True, r\<lparr>ss_strings := (ss_strings r)(k \<mapsto>
        (v, case ss_strings r k of Some (_, e) \<Rightarrow> e | None \<Rightarrow> None))\<rparr>)
      else if d < 0 then (Inl (Redis_failure ''ERR invalid expire time in set command''), r)
      else (Inr True, r\<lparr>ss_strings := (ss_strings r)(k \<mapsto> (v, Some (now + ttl_ms d)))\<rparr>))"

definition ss_redis :: "('v, 'v sstore) session_redis" where
  "ss_redis = \<lparr>
     s_SETNX = (\<lambda>now k v d r. if ss_view now r k = None
        then ss_set now k v d (r\<lparr>ss_strings := (ss_strings r)(k := None)\<rparr>) else (Inr False, r)),
     s_SETXX = (\<lambda>now k v d r. if ss_view now r k = None then (Inr False, r) else ss_set now k v d r),
     s_GET = (\<lambda>now k r. (case ss_view now r k of None \<Rightarrow> Inl Nil_reply | Some v \<Rightarrow> Inr v, r)),
     s_DEL = (\<lambda>now k r. (Inr (), r\<lparr>ss_strings := (ss_strings r)(k := None),
        ss_hashes := (ss_hashes r)(k := [])\<rparr>)),
     s_HSET = (\<lambda>now k f x r. (Inr (), r\<lparr>ss_hashes := (ss_hashes r)
        (k := (f, x) # filter (\<lambda>e. fst e \<noteq> f) (ss_hashes r k))\<rparr>)),
     s_HDEL = (\<lambda>now k f r. (Inr (), r\<lparr>ss_hashes := (ss_hashes r)
        (k := filter (\<lambda>e. fst e \<noteq> f) (ss_hashes r k))\<rparr>)),
     s_HGETALL = (\<lambda>now k r. (Inr (map (\<lambda>f. (f, the (ss_hview r k f))) (remdups (map fst (ss_hashes r k)))), r))\<rparr>"

lemmas ss_defs = ss_redis_def ss_set_def ss_view_def ss_hview_def

lemma map_of_filter_key: "map_of (filter (\<lambda>e. fst e \<noteq> f) l) = (map_of l)(f := None)"
  by (induction l) auto

lemma map_of_remdups_keys:
  "map_of (map (\<lambda>f. (f, the (map_of l f))) (remdups (map fst l))) = map_of l"
proof
  fix x show "map_of (map (\<lambda>f. (f, the (map_of l f))) (remdups (map fst l))) x = map_of l x"
  proof (cases "x \<in> fst ` set l")
    case True
    then obtain y where "map_of l x = Some y" by (metis map_of_eq_None_iff option.exhaust)
    with True show ?thesis by (simp add: map_of_map_restrict restrict_map_def)
  next
    case False
    then show ?thesis using map_of_eq_None_iff [of l x] by (simp add: map_of_map_restrict restrict_map_def)
  qed
qed

interpretation ss: session_keys ss_redis ss_view ss_hview
proof unfold_locales
qed (auto simp: ss_defs map_of_filter_key map_of_remdups_keys[unfolded o_def] o_def fun_eq_iff
       split: option.splits if_splits sum.splits prod.splits)

end
