(* ===== verification/IdpSession.thy ===== *)
theory IdpSession imports SessionRedis "HOL-Library.Char_ord" "HOL-Library.List_Lexorder" begin

text \<open>
  Identity provider sessions: \<^verbatim>\<open>pkg/lib/session/idpsession\<close> (\<^verbatim>\<open>session.go\<close>, \<^verbatim>\<open>expiry.go\<close>,
  \<^verbatim>\<open>store_redis.go\<close>, \<^verbatim>\<open>provider.go\<close>, \<^verbatim>\<open>resolver.go\<close>, \<^verbatim>\<open>manager.go\<close>), \<^verbatim>\<open>pkg/lib/session/attrs.go\<close>
  and \<^verbatim>\<open>pkg/lib/session/access\<close>.

  Redis commands, the mutexes of \<^verbatim>\<open>redsync\<close>, the access event streams' commands, the meter and SHA-256
  are parameters. Error wrapping keeps what \<^verbatim>\<open>errors.Is\<close> sees.
\<close>

section \<open>Data\<close>

datatype sess_error =
    ErrIDPSessionNotFound
  | ErrGrantNotFound
  | ErrSessionNotFound
  | ErrInvalidSession
  | ErrAuthorizationNotFound
  | ErrAuthorizationScopesNotGranted
  | ErrUserNotFound
  | ErrUnmatchedClient
  | ErrUnmatchedSession
  | ProtocolErr string string
  | InfraErr string

definition wrap :: "string \<Rightarrow> sess_error \<Rightarrow> sess_error" where
  "wrap msg e = (case e of InfraErr m \<Rightarrow> InfraErr (msg @ m) | _ \<Rightarrow> e)"

record access_event =
  Timestamp :: time
  ev_RemoteIP :: string
  ev_UserAgent :: string

definition NewEvent :: "time \<Rightarrow> string \<Rightarrow> string \<Rightarrow> access_event" where
  "NewEvent timestamp remoteIP userAgentString =
     \<lparr>Timestamp = timestamp, ev_RemoteIP = remoteIP, ev_UserAgent = userAgentString\<rparr>"

record access_info =
  InitialAccess :: access_event
  LastAccess :: access_event

text \<open>A claim in memory is a \<^verbatim>\<open>[]string\<close>; what comes back from JSON is a \<^verbatim>\<open>[]interface{}\<close>.\<close>

datatype claim = GoStrings "string list" | GoInterfaces "string list"

record Attrs =
  UserID :: string
  Claims :: "string \<Rightarrow> claim option"

definition ClaimAMR :: string where "ClaimAMR = ''amr''"

definition NewAttrs :: "string \<Rightarrow> Attrs" where
  "NewAttrs userID = \<lparr>UserID = userID, Claims = Map.empty\<rparr>"

definition GetAMR :: "Attrs \<Rightarrow> string list option" where
  "GetAMR a = (case Claims a ClaimAMR of Some (GoStrings amr) \<Rightarrow> Some amr | _ \<Rightarrow> None)"

definition SetAMR :: "string list \<Rightarrow> Attrs \<Rightarrow> Attrs" where
  "SetAMR value a = (if value \<noteq> [] then a\<lparr>Claims := (Claims a)(ClaimAMR \<mapsto> GoStrings value)\<rparr>
     else a\<lparr>Claims := (Claims a)(ClaimAMR := None)\<rparr>)"

record authentication_info =
  ai_UserID :: string
  ai_AuthenticatedAt :: time
  ai_AMR :: "string list"

definition NewAttrsFromAuthenticationInfo :: "authentication_info \<Rightarrow> Attrs" where
  "NewAttrsFromAuthenticationInfo info = SetAMR (ai_AMR info) (NewAttrs (ai_UserID info))"

datatype session_type = TypeIdentityProvider | TypeOfflineGrant

text \<open>What \<^verbatim>\<open>SessionBase\<close> asks of a session.\<close>

record session_base =
  SessionID :: string
  SessionType :: session_type
  SSOGroupIDPSessionID :: string
  base_UserID :: string

record IDPSession =
  ID :: string
  sess_AppID :: string
  CreatedAt :: time
  AuthenticatedAt :: time
  sess_Attrs :: Attrs
  AccessInfo :: access_info
  TokenHash :: string
  ParticipatedSAMLServiceProviderIDs :: "string list"
  ExpireAtForResolvedSession :: time

definition idp_base :: "IDPSession \<Rightarrow> session_base" where
  "idp_base s = \<lparr>SessionID = ID s, SessionType = TypeIdentityProvider,
     SSOGroupIDPSessionID = ID s, base_UserID = UserID (sess_Attrs s)\<rparr>"

definition EqualSession :: "session_base \<Rightarrow> session_base \<Rightarrow> bool" where
  "EqualSession s ss \<longleftrightarrow> SessionID s = SessionID ss \<and> SessionType s = SessionType ss"

definition Idp_IsSameSSOGroup :: "IDPSession \<Rightarrow> session_base \<Rightarrow> bool" where
  "Idp_IsSameSSOGroup s ss =
     (if EqualSession (idp_base s) ss then True
      else if SSOGroupIDPSessionID (idp_base s) = '''' then False
      else SSOGroupIDPSessionID (idp_base s) = SSOGroupIDPSessionID ss)"

definition Idp_GetAuthenticationInfo :: "IDPSession \<Rightarrow> authentication_info" where
  "Idp_GetAuthenticationInfo s = \<lparr>ai_UserID = UserID (sess_Attrs s), ai_AuthenticatedAt = AuthenticatedAt s,
     ai_AMR = (case GetAMR (sess_Attrs s) of Some amr \<Rightarrow> amr | None \<Rightarrow> [])\<rparr>"

text \<open>The keys of the set made from the slice, sorted.\<close>

definition set_keys :: "string list \<Rightarrow> string list" where
  "set_keys xs = sort (remdups xs)"

section \<open>Expiry\<close>

text \<open>Durations in the configuration are whole seconds.\<close>

definition Duration :: "int \<Rightarrow> duration" where
  "Duration seconds = seconds * 1000000000"

record SessionConfig =
  Lifetime :: int
  IdleTimeoutEnabled :: bool
  IdleTimeout :: int

definition expiry :: "SessionConfig \<Rightarrow> IDPSession \<Rightarrow> time" where
  "expiry cfg s = (let e = CreatedAt s + Duration (Lifetime cfg) in
     if IdleTimeoutEnabled cfg
     then let idle = Timestamp (LastAccess (AccessInfo s)) + Duration (IdleTimeout cfg) in if idle < e then idle else e
     else e)"

definition setSessionExpireAtForResolvedSession :: "SessionConfig \<Rightarrow> IDPSession \<Rightarrow> IDPSession" where
  "setSessionExpireAtForResolvedSession cfg s = s\<lparr>ExpireAtForResolvedSession := expiry cfg s\<rparr>"

section \<open>The world\<close>

text \<open>
  Redis, the mutexes, and the access event streams with the meter. A session key holds the JSON of a
  session, or other bytes.
\<close>

record ('r, 'm, 'x) sess_world =
  w_redis :: 'r
  w_mutex :: 'm
  w_side :: 'x

datatype idp_value = VSession IDPSession | VInvalid

record 'x side_effects =
  x_XADD :: "string \<Rightarrow> access_event \<Rightarrow> 'x \<Rightarrow> (string + unit) \<times> 'x"
  x_EXPIREAT :: "string \<Rightarrow> time \<Rightarrow> 'x \<Rightarrow> (string + unit) \<times> 'x"
  x_DEL :: "string \<Rightarrow> 'x \<Rightarrow> (string + unit) \<times> 'x"
  x_TrackActiveUser :: "string \<Rightarrow> 'x \<Rightarrow> (string + unit) \<times> 'x"

record ('v, 'r, 'm, 'x) sess_env =
  e_redis :: "('v, 'r) session_redis"
  e_lock :: "string \<Rightarrow> 'm \<Rightarrow> (string + unit) \<times> 'm"
  e_unlock :: "string \<Rightarrow> 'm \<Rightarrow> 'm"
  e_side :: "'x side_effects"
  e_AppID :: string
  e_RemoteIP :: string
  e_UserAgent :: string
  e_hash :: "string \<Rightarrow> string"

type_synonym ('r, 'm, 'x, 'a) sess_proc = "(('r, 'm, 'x) sess_world, sess_error, 'a) proc"

definition rcmd :: "('r \<Rightarrow> (redis_err + 'a) \<times> 'r) \<Rightarrow> ('r, 'm, 'x, redis_err + 'a) sess_proc" where
  "rcmd c = (\<lambda>w. case c (w_redis w) of (res, r) \<Rightarrow> (Ok res, w\<lparr>w_redis := r\<rparr>))"

definition redis_error :: "string \<Rightarrow> redis_err \<Rightarrow> sess_error" where
  "redis_error msg e = InfraErr (msg @ (case e of Nil_reply \<Rightarrow> ''redis: nil'' | Redis_failure m \<Rightarrow> m))"

text \<open>A command whose error is returned, under a message.\<close>

definition rcall :: "string \<Rightarrow> ('r \<Rightarrow> (redis_err + 'a) \<times> 'r) \<Rightarrow> ('r, 'm, 'x, 'a) sess_proc" where
  "rcall msg c = bindp (rcmd c) (\<lambda>res. case res of Inl e \<Rightarrow> failp (redis_error msg e) | Inr x \<Rightarrow> ret x)"

definition side :: "('x \<Rightarrow> (string + 'a) \<times> 'x) \<Rightarrow> ('r, 'm, 'x, 'a) sess_proc" where
  "side c = (\<lambda>w. case c (w_side w) of
     (Inl e, x) \<Rightarrow> (Err (InfraErr e), w\<lparr>w_side := x\<rparr>) | (Inr a, x) \<Rightarrow> (Ok a, w\<lparr>w_side := x\<rparr>))"

definition with_mutex ::
    "('v, 'r, 'm, 'x) sess_env \<Rightarrow> string \<Rightarrow> ('r, 'm, 'x, 'a) sess_proc \<Rightarrow> ('r, 'm, 'x, 'a) sess_proc" where
  "with_mutex env name body = (\<lambda>w. case e_lock env name (w_mutex w) of
     (Inl e, m) \<Rightarrow> (Err (InfraErr e), w\<lparr>w_mutex := m\<rparr>)
   | (Inr _, m) \<Rightarrow> with_defer body (\<lambda>w. w\<lparr>w_mutex := e_unlock env name (w_mutex w)\<rparr>) (w\<lparr>w_mutex := m\<rparr>))"

definition wrapped :: "string \<Rightarrow> ('r, 'm, 'x, 'a) sess_proc \<Rightarrow> ('r, 'm, 'x, 'a) sess_proc" where
  "wrapped msg p = bindp (attempt p) (\<lambda>res. case res of Inl e \<Rightarrow> failp (wrap msg e) | Inr x \<Rightarrow> ret x)"

section \<open>Access events\<close>

definition accessEventStreamKey :: "string \<Rightarrow> string \<Rightarrow> string" where
  "accessEventStreamKey appID sessionID = ''app:'' @ appID @ '':access-events:'' @ sessionID"

definition AppendEvent :: "('v, 'r, 'm, 'x) sess_env \<Rightarrow> string \<Rightarrow> time \<Rightarrow> access_event \<Rightarrow> ('r, 'm, 'x, unit) sess_proc" where
  "AppendEvent env sessionID expire event = (let streamKey = accessEventStreamKey (e_AppID env) sessionID
   in bindp (side (x_XADD (e_side env) streamKey event)) (\<lambda>_.
      side (x_EXPIREAT (e_side env) streamKey expire)))"

definition ResetEventStream :: "('v, 'r, 'm, 'x) sess_env \<Rightarrow> string \<Rightarrow> ('r, 'm, 'x, unit) sess_proc" where
  "ResetEventStream env sessionID = side (x_DEL (e_side env) (accessEventStreamKey (e_AppID env) sessionID))"

definition InitStream :: "('v, 'r, 'm, 'x) sess_env \<Rightarrow> string \<Rightarrow> time \<Rightarrow> access_event \<Rightarrow> ('r, 'm, 'x, unit) sess_proc" where
  "InitStream env sessionID expire initialAccess =
     bindp (ResetEventStream env sessionID) (\<lambda>_. AppendEvent env sessionID expire initialAccess)"

definition RecordAccess :: "('v, 'r, 'm, 'x) sess_env \<Rightarrow> string \<Rightarrow> time \<Rightarrow> access_event \<Rightarrow> ('r, 'm, 'x, unit) sess_proc" where
  "RecordAccess env sessionID expire event = AppendEvent env sessionID expire event"

section \<open>The store\<close>

definition sessionKey :: "string \<Rightarrow> string \<Rightarrow> string" where
  "sessionKey appID sessionID = ''app:'' @ appID @ '':session:'' @ sessionID"

definition sessionListKey :: "string \<Rightarrow> string \<Rightarrow> string" where
  "sessionListKey appID userID = ''app:'' @ appID @ '':session-list:'' @ userID"

text \<open>
  The JSON of a session, as the session it decodes to: claims come back untyped, the transient expiry
  is not stored, and is zero in a decoded session.
\<close>

definition zero_time :: time where "zero_time = -62135596800000000000"

definition untyped :: "claim \<Rightarrow> claim" where
  "untyped c = (case c of GoStrings xs \<Rightarrow> GoInterfaces xs | GoInterfaces xs \<Rightarrow> GoInterfaces xs)"

definition marshal_attrs :: "Attrs \<Rightarrow> Attrs" where
  "marshal_attrs a = a\<lparr>Claims := \<lambda>k. map_option untyped (Claims a k)\<rparr>"

definition marshal :: "IDPSession \<Rightarrow> idp_value" where
  "marshal s = VSession (s\<lparr>sess_Attrs := marshal_attrs (sess_Attrs s), ExpireAtForResolvedSession := zero_time\<rparr>)"

definition Unmarshal :: "idp_value \<Rightarrow> string + IDPSession" where
  "Unmarshal data = (case data of
     VInvalid \<Rightarrow> Inl ''invalid character''
   | VSession sess \<Rightarrow> Inr (if AuthenticatedAt sess = zero_time then sess\<lparr>AuthenticatedAt := CreatedAt sess\<rparr> else sess))"

type_synonym ('r, 'm, 'x) idp_env = "(idp_value, 'r, 'm, 'x) sess_env"

definition IdpStore_Create ::
    "('r, 'm, 'x) idp_env \<Rightarrow> time \<Rightarrow> IDPSession \<Rightarrow> time \<Rightarrow> ('r, 'm, 'x, unit) sess_proc" where
  "IdpStore_Create env now sess expireAt = (let
     ttl = expireAt - now;
     listKey = sessionListKey (e_AppID env) (UserID (sess_Attrs sess));
     key = sessionKey (e_AppID env) (ID sess)
   in bindp (rcall ''failed to update session list: '' (s_HSET (e_redis env) now listKey key expireAt)) (\<lambda>_.
      bindp (rcmd (s_SETNX (e_redis env) now key (marshal sess) ttl)) (\<lambda>res. case res of
        Inl Nil_reply \<Rightarrow> failp (redis_error ''duplicated session ID: '' Nil_reply)
      | Inl e \<Rightarrow> failp (redis_error '''' e)
      | Inr _ \<Rightarrow> ret ())))"

definition IdpStore_Update ::
    "('r, 'm, 'x) idp_env \<Rightarrow> time \<Rightarrow> IDPSession \<Rightarrow> time \<Rightarrow> ('r, 'm, 'x, unit) sess_proc" where
  "IdpStore_Update env now sess expireAt = (let
     ttl = expireAt - now;
     listKey = sessionListKey (e_AppID env) (UserID (sess_Attrs sess));
     key = sessionKey (e_AppID env) (ID sess)
   in bindp (rcall ''failed to update session list: '' (s_HSET (e_redis env) now listKey key expireAt)) (\<lambda>_.
      bindp (rcmd (s_SETXX (e_redis env) now key (marshal sess) ttl)) (\<lambda>res. case res of
        Inl Nil_reply \<Rightarrow> failp ErrIDPSessionNotFound
      | Inl e \<Rightarrow> failp (redis_error '''' e)
      | Inr _ \<Rightarrow> ret ())))"

definition IdpStore_Get :: "('r, 'm, 'x) idp_env \<Rightarrow> time \<Rightarrow> string \<Rightarrow> ('r, 'm, 'x, IDPSession) sess_proc" where
  "IdpStore_Get env now sid =
     bindp (rcmd (s_GET (e_redis env) now (sessionKey (e_AppID env) sid))) (\<lambda>res. case res of
       Inl Nil_reply \<Rightarrow> failp ErrIDPSessionNotFound
     | Inl e \<Rightarrow> failp (redis_error '''' e)
     | Inr data \<Rightarrow> (case Unmarshal data of Inl e \<Rightarrow> failp (InfraErr e) | Inr sess \<Rightarrow> ret sess))"

definition IdpStore_Delete :: "('r, 'm, 'x) idp_env \<Rightarrow> time \<Rightarrow> IDPSession \<Rightarrow> ('r, 'm, 'x, unit) sess_proc" where
  "IdpStore_Delete env now session = (let
     key = sessionKey (e_AppID env) (ID session);
     listKey = sessionListKey (e_AppID env) (UserID (sess_Attrs session))
   in bindp (rcall '''' (s_DEL (e_redis env) now key)) (\<lambda>_.
      ignore_err (rcall '''' (s_HDEL (e_redis env) now listKey key))))"

definition IdpStore_CleanUpForDeletingUserID ::
    "('r, 'm, 'x) idp_env \<Rightarrow> time \<Rightarrow> string \<Rightarrow> ('r, 'm, 'x, unit) sess_proc" where
  "IdpStore_CleanUpForDeletingUserID env now userID =
     rcall '''' (s_DEL (e_redis env) now (sessionListKey (e_AppID env) userID))"

text \<open>The loop of \<^verbatim>\<open>List\<close> over the keys of the user's hash, in the order Redis gave them.\<close>

fun IdpStore_list_keys ::
    "('r, 'm, 'x) idp_env \<Rightarrow> time \<Rightarrow> string \<Rightarrow> string list \<Rightarrow> ('r, 'm, 'x, IDPSession list) sess_proc" where
  "IdpStore_list_keys env now listKey [] = ret []"
| "IdpStore_list_keys env now listKey (key # keys) =
     bindp (rcmd (s_GET (e_redis env) now key)) (\<lambda>res.
     bindp (case res of
         Inl Nil_reply \<Rightarrow> ret None
       | Inl e \<Rightarrow> failp (redis_error '''' e)
       | Inr sessionJSON \<Rightarrow> (case Unmarshal sessionJSON of Inl _ \<Rightarrow> ret None | Inr session \<Rightarrow> ret (Some session)))
       (\<lambda>session. case session of
         None \<Rightarrow> bindp (ignore_err (rcall '''' (s_HDEL (e_redis env) now listKey key))) (\<lambda>_.
           IdpStore_list_keys env now listKey keys)
       | Some session \<Rightarrow> bindp (IdpStore_list_keys env now listKey keys) (\<lambda>sessions.
           ret (session # sessions))))"

text \<open>\<^verbatim>\<open>sort.Slice\<close> gives some order sorted by creation time; here it is the stable one.\<close>

definition IdpStore_List :: "('r, 'm, 'x) idp_env \<Rightarrow> time \<Rightarrow> string \<Rightarrow> ('r, 'm, 'x, IDPSession list) sess_proc" where
  "IdpStore_List env now userID = (let listKey = sessionListKey (e_AppID env) userID
   in bindp (rcall '''' (s_HGETALL (e_redis env) now listKey)) (\<lambda>sessionList.
      bindp (IdpStore_list_keys env now listKey (map fst sessionList)) (\<lambda>sessions.
      ret (sort_key CreatedAt sessions))))"

section \<open>Tokens\<close>

definition encodeToken :: "string \<Rightarrow> string \<Rightarrow> string" where
  "encodeToken sid token = sid @ ''.'' @ token"

text \<open>\<^verbatim>\<open>strings.Split(token, ".")\<close>.\<close>

fun split_dot :: "string \<Rightarrow> string list" where
  "split_dot [] = [[]]"
| "split_dot (c # cs) = (if c = CHR ''.'' then [] # split_dot cs
     else (case split_dot cs of [] \<Rightarrow> [[c]] | p # ps \<Rightarrow> (c # p) # ps))"

definition decodeTokenSessionID :: "string \<Rightarrow> string option" where
  "decodeTokenSessionID token = (let parts = split_dot token in
     if length parts \<noteq> 2 then None else Some (parts ! 0))"

definition matchTokenHash :: "(string \<Rightarrow> string) \<Rightarrow> string \<Rightarrow> string \<Rightarrow> bool" where
  "matchTokenHash hash expectedHash inputToken \<longleftrightarrow> expectedHash = hash inputToken"

definition sessionMutexName :: "string \<Rightarrow> string \<Rightarrow> string" where
  "sessionMutexName appID sessionID = ''app:'' @ appID @ '':session-mutex:'' @ sessionID"

section \<open>The provider\<close>

definition generateToken :: "(string \<Rightarrow> string) \<Rightarrow> string \<Rightarrow> IDPSession \<Rightarrow> IDPSession \<times> string" where
  "generateToken hash random s = (let token = encodeToken (ID s) random
   in (s\<lparr>TokenHash := hash token\<rparr>, token))"

text \<open>\<open>uuid\<close> and \<open>random\<close> are what \<^verbatim>\<open>uuid.New\<close> and \<^verbatim>\<open>StringWithAlphabet\<close> give.\<close>

definition MakeSession ::
    "('r, 'm, 'x) idp_env \<Rightarrow> SessionConfig \<Rightarrow> time \<Rightarrow> string \<Rightarrow> string \<Rightarrow> Attrs \<Rightarrow> IDPSession \<times> string" where
  "MakeSession env cfg now uuid random attrs = (let
     accessEvent = NewEvent now (e_RemoteIP env) (e_UserAgent env);
     session = \<lparr>ID = uuid, sess_AppID = '''', CreatedAt = now, AuthenticatedAt = now, sess_Attrs = attrs,
       AccessInfo = \<lparr>InitialAccess = accessEvent, LastAccess = accessEvent\<rparr>, TokenHash = '''',
       ParticipatedSAMLServiceProviderIDs = [], ExpireAtForResolvedSession = zero_time\<rparr>
   in generateToken (e_hash env) random (setSessionExpireAtForResolvedSession cfg session))"

definition Provider_Create ::
    "('r, 'm, 'x) idp_env \<Rightarrow> SessionConfig \<Rightarrow> time \<Rightarrow> IDPSession \<Rightarrow> ('r, 'm, 'x, unit) sess_proc" where
  "Provider_Create env cfg now session = (let
     session = setSessionExpireAtForResolvedSession cfg session
   in bindp (wrapped ''failed to create session: ''
        (IdpStore_Create env now session (ExpireAtForResolvedSession session))) (\<lambda>_.
      wrapped ''failed to access session: ''
        (InitStream env (ID session) (ExpireAtForResolvedSession session) (InitialAccess (AccessInfo session)))))"

definition Provider_Get ::
    "('r, 'm, 'x) idp_env \<Rightarrow> SessionConfig \<Rightarrow> time \<Rightarrow> string \<Rightarrow> ('r, 'm, 'x, IDPSession) sess_proc" where
  "Provider_Get env cfg now sid =
     bindp (wrapped ''failed to get session: '' (IdpStore_Get env now sid)) (\<lambda>session.
     ret (setSessionExpireAtForResolvedSession cfg session))"

definition CheckSessionExpired :: "SessionConfig \<Rightarrow> time \<Rightarrow> IDPSession \<Rightarrow> bool" where
  "CheckSessionExpired cfg now session \<longleftrightarrow>
     now > ExpireAtForResolvedSession (setSessionExpireAtForResolvedSession cfg session)"

definition GetByToken ::
    "('r, 'm, 'x) idp_env \<Rightarrow> SessionConfig \<Rightarrow> time \<Rightarrow> string \<Rightarrow> ('r, 'm, 'x, IDPSession) sess_proc" where
  "GetByToken env cfg now token = (case decodeTokenSessionID token of
     None \<Rightarrow> failp ErrIDPSessionNotFound
   | Some sid \<Rightarrow> bindp (Provider_Get env cfg now sid) (\<lambda>s.
       if TokenHash s = '''' then failp ErrIDPSessionNotFound
       else if \<not> matchTokenHash (e_hash env) (TokenHash s) token then failp ErrIDPSessionNotFound
       else if CheckSessionExpired cfg now s then failp ErrIDPSessionNotFound
       else ret s))"

definition accessSideEffects ::
    "('r, 'm, 'x) idp_env \<Rightarrow> IDPSession \<Rightarrow> access_event \<Rightarrow> ('r, 'm, 'x, unit) sess_proc" where
  "accessSideEffects env session accessEvent =
     bindp (RecordAccess env (ID session) (ExpireAtForResolvedSession session) accessEvent) (\<lambda>_.
     side (x_TrackActiveUser (e_side env) (ai_UserID (Idp_GetAuthenticationInfo session))))"

definition accessWithID ::
    "('r, 'm, 'x) idp_env \<Rightarrow> SessionConfig \<Rightarrow> time \<Rightarrow> string \<Rightarrow> access_event \<Rightarrow> ('r, 'm, 'x, IDPSession) sess_proc" where
  "accessWithID env cfg now sid accessEvent = with_mutex env (sessionMutexName (e_AppID env) sid)
     (bindp (Provider_Get env cfg now sid) (\<lambda>s. let
        s = setSessionExpireAtForResolvedSession cfg (s\<lparr>AccessInfo := (AccessInfo s)\<lparr>LastAccess := accessEvent\<rparr>\<rparr>)
      in bindp (wrapped ''failed to update session: '' (IdpStore_Update env now s (ExpireAtForResolvedSession s))) (\<lambda>_.
         bindp (accessSideEffects env s accessEvent) (\<lambda>_.
         ret s))))"

definition AccessWithToken ::
    "('r, 'm, 'x) idp_env \<Rightarrow> SessionConfig \<Rightarrow> time \<Rightarrow> string \<Rightarrow> access_event \<Rightarrow> ('r, 'm, 'x, IDPSession) sess_proc" where
  "AccessWithToken env cfg now token accessEvent =
     bindp (GetByToken env cfg now token) (\<lambda>s. accessWithID env cfg now (ID s) accessEvent)"

definition AccessWithID ::
    "('r, 'm, 'x) idp_env \<Rightarrow> SessionConfig \<Rightarrow> time \<Rightarrow> string \<Rightarrow> access_event \<Rightarrow> ('r, 'm, 'x, IDPSession) sess_proc" where
  "AccessWithID env cfg now sid accessEvent = accessWithID env cfg now sid accessEvent"

definition Provider_Reauthenticate ::
    "('r, 'm, 'x) idp_env \<Rightarrow> SessionConfig \<Rightarrow> time \<Rightarrow> string \<Rightarrow> string list \<Rightarrow> ('r, 'm, 'x, unit) sess_proc" where
  "Provider_Reauthenticate env cfg now sid amr = with_mutex env (sessionMutexName (e_AppID env) sid)
     (bindp (Provider_Get env cfg now sid) (\<lambda>s. let
        s = setSessionExpireAtForResolvedSession cfg
          (s\<lparr>AuthenticatedAt := now, sess_Attrs := SetAMR amr (sess_Attrs s)\<rparr>)
      in wrapped ''failed to update session: '' (IdpStore_Update env now s (ExpireAtForResolvedSession s))))"

definition Idp_AddSAMLServiceProviderParticipant ::
    "('r, 'm, 'x) idp_env \<Rightarrow> SessionConfig \<Rightarrow> time \<Rightarrow> IDPSession \<Rightarrow> string \<Rightarrow> ('r, 'm, 'x, IDPSession) sess_proc" where
  "Idp_AddSAMLServiceProviderParticipant env cfg now session serviceProviderID =
     with_mutex env (sessionMutexName (e_AppID env) (ID session))
     (bindp (Provider_Get env cfg now (ID session)) (\<lambda>s. let
        s = s\<lparr>ParticipatedSAMLServiceProviderIDs :=
          set_keys (serviceProviderID # ParticipatedSAMLServiceProviderIDs s)\<rparr>
      in bindp (wrapped ''failed to update session: '' (IdpStore_Update env now s (ExpireAtForResolvedSession s))) (\<lambda>_.
         ret s)))"

section \<open>The resolver and the manager\<close>

definition Idp_Resolve ::
    "('r, 'm, 'x) idp_env \<Rightarrow> SessionConfig \<Rightarrow> time \<Rightarrow> string option \<Rightarrow> ('r, 'm, 'x, IDPSession option) sess_proc" where
  "Idp_Resolve env cfg now cookie = (case cookie of
     None \<Rightarrow> ret None
   | Some token \<Rightarrow> bindp (attempt (AccessWithToken env cfg now token
         (NewEvent now (e_RemoteIP env) (e_UserAgent env)))) (\<lambda>res. case res of
       Inl ErrIDPSessionNotFound \<Rightarrow> failp ErrInvalidSession
     | Inl e \<Rightarrow> failp e
     | Inr s \<Rightarrow> ret (Some s)))"

definition IdpManager_Get :: "('r, 'm, 'x) idp_env \<Rightarrow> time \<Rightarrow> string \<Rightarrow> ('r, 'm, 'x, IDPSession) sess_proc" where
  "IdpManager_Get env now sid = bindp (attempt (IdpStore_Get env now sid)) (\<lambda>res. case res of
     Inl ErrIDPSessionNotFound \<Rightarrow> failp ErrSessionNotFound
   | Inl e \<Rightarrow> failp (wrap ''failed to get session: '' e)
   | Inr s \<Rightarrow> ret s)"

definition IdpManager_Delete :: "('r, 'm, 'x) idp_env \<Rightarrow> time \<Rightarrow> IDPSession \<Rightarrow> ('r, 'm, 'x, unit) sess_proc" where
  "IdpManager_Delete env now session = wrapped ''failed to invalidate session: '' (IdpStore_Delete env now session)"

definition IdpManager_List :: "('r, 'm, 'x) idp_env \<Rightarrow> time \<Rightarrow> string \<Rightarrow> ('r, 'm, 'x, IDPSession list) sess_proc" where
  "IdpManager_List env now userID = wrapped ''failed to list sessions: '' (IdpStore_List env now userID)"

fun IdpManager_terminate ::
    "('r, 'm, 'x) idp_env \<Rightarrow> time \<Rightarrow> session_base option \<Rightarrow> IDPSession list \<Rightarrow> ('r, 'm, 'x, IDPSession list) sess_proc" where
  "IdpManager_terminate env now currentSession [] = ret []"
| "IdpManager_terminate env now currentSession (ss # sessions) =
     (if case currentSession of Some cur \<Rightarrow> Idp_IsSameSSOGroup ss cur | None \<Rightarrow> False
      then IdpManager_terminate env now currentSession sessions
      else bindp (IdpManager_Delete env now ss) (\<lambda>_.
           bindp (IdpManager_terminate env now currentSession sessions) (\<lambda>deletedSessions.
           ret (ss # deletedSessions))))"

definition IdpManager_TerminateAllExcept ::
    "('r, 'm, 'x) idp_env \<Rightarrow> time \<Rightarrow> string \<Rightarrow> session_base option \<Rightarrow> ('r, 'm, 'x, IDPSession list) sess_proc" where
  "IdpManager_TerminateAllExcept env now userID currentSession =
     bindp (IdpStore_List env now userID) (IdpManager_terminate env now currentSession)"

section \<open>Running the stores\<close>

lemma rcmd_run: "rcmd c w = (Ok (fst (c (w_redis w))), w\<lparr>w_redis := snd (c (w_redis w))\<rparr>)"
  by (simp add: rcmd_def split: prod.split)

lemma rcall_run:
  "rcall msg c w = ((case fst (c (w_redis w)) of Inl e \<Rightarrow> Err (redis_error msg e) | Inr x \<Rightarrow> Ok x),
     w\<lparr>w_redis := snd (c (w_redis w))\<rparr>)"
  by (simp add: rcall_def bindp_def rcmd_run run_simps split: sum.split)

lemma wrapped_Ok: "wrapped msg p w = (Ok x, w') \<longleftrightarrow> p w = (Ok x, w')"
  by (auto simp: wrapped_def bindp_def attempt_def run_simps split: prod.splits outcome.splits sum.splits)

lemma side_redis: "side c w = (res, w') \<Longrightarrow> w_redis w' = w_redis w"
  by (auto simp: side_def split: prod.splits sum.splits)

text \<open>A predicate of Redis that a procedure keeps.\<close>

definition keeps_redis :: "('r \<Rightarrow> bool) \<Rightarrow> ('r, 'm, 'x, 'a) sess_proc \<Rightarrow> bool" where
  "keeps_redis P = keeps (\<lambda>w w'. P (w_redis w) \<longrightarrow> P (w_redis w'))"

named_theorems keeps_redis_intros \<open>rules for predicates of Redis that procedures keep\<close>

lemma keeps_redisD: "keeps_redis P p \<Longrightarrow> p w = (res, w') \<Longrightarrow> P (w_redis w) \<Longrightarrow> P (w_redis w')"
  unfolding keeps_redis_def using keepsD by fastforce

lemma redis_rel: "reflp (\<lambda>w w'. P (w_redis w) \<longrightarrow> P (w_redis w'))" "transp (\<lambda>w w'. P (w_redis w) \<longrightarrow> P (w_redis w'))"
  by (auto simp: reflp_def transp_def)

lemma keeps_redis_basic [keeps_redis_intros]:
  "keeps_redis P (ret x)" "keeps_redis P (failp e)" "keeps_redis P panicp"
  by (simp_all add: keeps_redis_def keeps_ret keeps_failp keeps_panicp redis_rel)

lemma keeps_redis_bindp [keeps_redis_intros]:
  "keeps_redis P p \<Longrightarrow> (\<And>x. keeps_redis P (f x)) \<Longrightarrow> keeps_redis P (bindp p f)"
  unfolding keeps_redis_def by (rule keeps_bindp [OF redis_rel(2)])

lemma keeps_redis_attempt [keeps_redis_intros]: "keeps_redis P p \<Longrightarrow> keeps_redis P (attempt p)"
  unfolding keeps_redis_def by (rule keeps_attempt)

lemma keeps_redis_ignore_err [keeps_redis_intros]: "keeps_redis P p \<Longrightarrow> keeps_redis P (ignore_err p)"
  unfolding ignore_err_def by (intro keeps_redis_intros)

definition keeps_cmd :: "('r \<Rightarrow> bool) \<Rightarrow> ('r \<Rightarrow> (redis_err + 'a) \<times> 'r) \<Rightarrow> bool" where
  "keeps_cmd P c \<longleftrightarrow> (\<forall>r. P r \<longrightarrow> P (snd (c r)))"

lemma keeps_cmdI: "(\<And>r res r'. c r = (res, r') \<Longrightarrow> P r \<Longrightarrow> P r') \<Longrightarrow> keeps_cmd P c"
  by (auto simp: keeps_cmd_def) (metis prod.collapse)

lemma keeps_redis_rcmd: "keeps_cmd P c \<Longrightarrow> keeps_redis P (rcmd c)"
  by (simp add: keeps_redis_def keeps_def rcmd_run keeps_cmd_def)

lemma keeps_redis_rcall: "keeps_cmd P c \<Longrightarrow> keeps_redis P (rcall msg c)"
  by (simp add: keeps_redis_def keeps_def rcall_run keeps_cmd_def)

lemma keeps_redis_side [keeps_redis_intros]: "keeps_redis P (side c)"
  unfolding keeps_redis_def keeps_def using side_redis by (metis prod.collapse)

lemma keeps_redis_with_mutex [keeps_redis_intros]:
  "keeps_redis P body \<Longrightarrow> keeps_redis P (with_mutex env name body)"
  unfolding keeps_redis_def keeps_def with_mutex_def with_defer_def
  by (auto split: prod.split sum.split) (metis sess_world.select_convs(1) sess_world.surjective sess_world.update_convs(2) snd_conv)+

lemma keeps_redis_wrapped [keeps_redis_intros]: "keeps_redis P p \<Longrightarrow> keeps_redis P (wrapped msg p)"
  unfolding wrapped_def by (auto intro!: keeps_redis_intros split: sum.split)

lemma keeps_redis_events [keeps_redis_intros]:
  "keeps_redis P (AppendEvent env sid e ev)" "keeps_redis P (ResetEventStream env sid)"
  "keeps_redis P (InitStream env sid e ev)" "keeps_redis P (RecordAccess env sid e ev)"
  by (simp_all add: AppendEvent_def ResetEventStream_def InitStream_def RecordAccess_def Let_def keeps_redis_intros)

lemma with_mutex_Ok:
  assumes "with_mutex env name body w = (Ok x, w')"
  obtains m w1 where "e_lock env name (w_mutex w) = (Inr (), m)" "body (w\<lparr>w_mutex := m\<rparr>) = (Ok x, w1)"
    "w' = w1\<lparr>w_mutex := e_unlock env name (w_mutex w1)\<rparr>"
  using assms unfolding with_mutex_def with_defer_def by (auto split: prod.splits sum.splits)

section \<open>The identity provider's keys\<close>

text \<open>The session after an access, as the provider computes it from the stored one.\<close>

definition touched :: "SessionConfig \<Rightarrow> access_event \<Rightarrow> IDPSession \<Rightarrow> IDPSession" where
  "touched cfg ev d = setSessionExpireAtForResolvedSession cfg (d\<lparr>AccessInfo := (AccessInfo d)\<lparr>LastAccess := ev\<rparr>\<rparr>)"

lemma set_expiry_simps [simp]:
  "ID (setSessionExpireAtForResolvedSession cfg d) = ID d"
  "sess_Attrs (setSessionExpireAtForResolvedSession cfg d) = sess_Attrs d"
  "CreatedAt (setSessionExpireAtForResolvedSession cfg d) = CreatedAt d"
  "AuthenticatedAt (setSessionExpireAtForResolvedSession cfg d) = AuthenticatedAt d"
  "AccessInfo (setSessionExpireAtForResolvedSession cfg d) = AccessInfo d"
  "TokenHash (setSessionExpireAtForResolvedSession cfg d) = TokenHash d"
  "ExpireAtForResolvedSession (setSessionExpireAtForResolvedSession cfg d) = expiry cfg d"
  "expiry cfg (setSessionExpireAtForResolvedSession cfg d) = expiry cfg d"
  "expiry cfg ((setSessionExpireAtForResolvedSession cfg d)\<lparr>AccessInfo := a\<rparr>) = expiry cfg (d\<lparr>AccessInfo := a\<rparr>)"
  by (simp_all add: setSessionExpireAtForResolvedSession_def expiry_def Let_def)

lemma touched_simps [simp]:
  "ID (touched cfg ev d) = ID d" "sess_Attrs (touched cfg ev d) = sess_Attrs d"
  "CreatedAt (touched cfg ev d) = CreatedAt d" "TokenHash (touched cfg ev d) = TokenHash d"
  "LastAccess (AccessInfo (touched cfg ev d)) = ev"
  "ExpireAtForResolvedSession (touched cfg ev d) = expiry cfg (touched cfg ev d)"
  by (simp_all add: touched_def)

lemma expiry_touched:
  "expiry cfg (d\<lparr>AccessInfo := (AccessInfo d)\<lparr>LastAccess := ev\<rparr>\<rparr>) = expiry cfg (touched cfg ev d)"
  by (simp add: touched_def)

lemma touched_resolved [simp]:
  "touched cfg ev (setSessionExpireAtForResolvedSession cfg d) = touched cfg ev d"
  by (simp add: touched_def setSessionExpireAtForResolvedSession_def expiry_def Let_def)

lemma touch_resolved:
  "setSessionExpireAtForResolvedSession cfg ((setSessionExpireAtForResolvedSession cfg d)
     \<lparr>AccessInfo := (AccessInfo d)\<lparr>LastAccess := ev\<rparr>\<rparr>) = touched cfg ev d"
  by (simp add: touched_def setSessionExpireAtForResolvedSession_def expiry_def Let_def)

locale idp_keys = session_keys "e_redis env" view hview
  for env :: "('r, 'm, 'x) idp_env"
    and view :: "time \<Rightarrow> 'r \<Rightarrow> string \<Rightarrow> idp_value option"
    and hview :: "'r \<Rightarrow> string \<Rightarrow> string \<Rightarrow> time option"
begin

lemma IdpStore_Get_run:
  assumes "IdpStore_Get env now sid w = (res, w')"
  shows "w' = w"
    and "res = Ok s \<Longrightarrow> \<exists>data. view now (w_redis w) (sessionKey (e_AppID env) sid) = Some data \<and> Unmarshal data = Inr s"
    and "res = Err ErrIDPSessionNotFound \<Longrightarrow> view now (w_redis w) (sessionKey (e_AppID env) sid) = None"
proof -
  obtain g r where g: "s_GET (e_redis env) now (sessionKey (e_AppID env) sid) (w_redis w) = (g, r)" by fastforce
  with GET have "r = w_redis w" "case g of Inl Nil_reply \<Rightarrow> view now (w_redis w) (sessionKey (e_AppID env) sid) = None
      | Inl _ \<Rightarrow> True | Inr v \<Rightarrow> view now (w_redis w) (sessionKey (e_AppID env) sid) = Some v" by auto
  with assms g show "w' = w"
    and "res = Ok s \<Longrightarrow> \<exists>data. view now (w_redis w) (sessionKey (e_AppID env) sid) = Some data \<and> Unmarshal data = Inr s"
    and "res = Err ErrIDPSessionNotFound \<Longrightarrow> view now (w_redis w) (sessionKey (e_AppID env) sid) = None"
    by (auto simp: IdpStore_Get_def bindp_def rcmd_run run_simps redis_error_def
        split: sum.splits redis_err.splits)
qed

lemma Provider_Get_Ok:
  assumes "Provider_Get env cfg now sid w = (Ok s, w')"
  shows "w' = w \<and> (\<exists>data d. view now (w_redis w) (sessionKey (e_AppID env) sid) = Some data \<and>
    Unmarshal data = Inr d \<and> s = setSessionExpireAtForResolvedSession cfg d)"
  using assms IdpStore_Get_run
  by (fastforce simp: Provider_Get_def bindp_Ok wrapped_Ok run_simps)

lemma GetByToken_Ok:
  assumes "GetByToken env cfg now token w = (Ok s, w')"
  obtains sid data d where "decodeTokenSessionID token = Some sid" "w' = w"
    "view now (w_redis w) (sessionKey (e_AppID env) sid) = Some data" "Unmarshal data = Inr d"
    "s = setSessionExpireAtForResolvedSession cfg d"
    "TokenHash s = e_hash env token" "TokenHash s \<noteq> ''''" "\<not> CheckSessionExpired cfg now s"
  using assms
  by (auto simp: GetByToken_def bindp_Ok run_simps matchTokenHash_def split: option.splits if_splits
      dest!: Provider_Get_Ok)

lemma accessWithID_Ok:
  assumes "accessWithID env cfg now sid ev w = (Ok s, w')"
  obtains data d m w1 w2 where
    "view now (w_redis w) (sessionKey (e_AppID env) sid) = Some data" "Unmarshal data = Inr d" "s = touched cfg ev d"
    "IdpStore_Update env now s (expiry cfg s) (w\<lparr>w_mutex := m\<rparr>) = (Ok (), w1)"
    "accessSideEffects env s ev w1 = (Ok (), w2)" "w' = w2\<lparr>w_mutex := e_unlock env (sessionMutexName (e_AppID env) sid) (w_mutex w2)\<rparr>"
proof -
  from assms obtain m w2 where "bindp (Provider_Get env cfg now sid) (\<lambda>s. let
        s = setSessionExpireAtForResolvedSession cfg (s\<lparr>AccessInfo := (AccessInfo s)\<lparr>LastAccess := ev\<rparr>\<rparr>)
      in bindp (wrapped ''failed to update session: '' (IdpStore_Update env now s (ExpireAtForResolvedSession s))) (\<lambda>_.
         bindp (accessSideEffects env s ev) (\<lambda>_. ret s))) (w\<lparr>w_mutex := m\<rparr>) = (Ok s, w2)"
    and w': "w' = w2\<lparr>w_mutex := e_unlock env (sessionMutexName (e_AppID env) sid) (w_mutex w2)\<rparr>"
    unfolding accessWithID_def by (rule with_mutex_Ok) auto
  then obtain data d w1 where
    "view now (w_redis w) (sessionKey (e_AppID env) sid) = Some data" "Unmarshal data = Inr d" "s = touched cfg ev d"
    "IdpStore_Update env now s (ExpireAtForResolvedSession s) (w\<lparr>w_mutex := m\<rparr>) = (Ok (), w1)"
    "accessSideEffects env s ev w1 = (Ok (), w2)"
    by (auto simp: bindp_Ok Let_def run_simps touch_resolved wrapped_Ok expiry_touched dest!: Provider_Get_Ok)
  with w' that show thesis by simp
qed

end

section \<open>Histories\<close>

text \<open>
  Every call on the store, the provider and the managers, at time \<open>now\<close>, by any client, whatever it
  answers; \<open>P\<close> restricts the IDs of the sessions that are created. \<open>update\<close> is the second half of a
  call that loaded the session earlier: it writes any session under any expiry.
\<close>

inductive idp_call ::
    "('r, 'm, 'x) idp_env \<Rightarrow> (string \<Rightarrow> bool) \<Rightarrow> time \<Rightarrow> ('r, 'm, 'x) sess_world \<Rightarrow> ('r, 'm, 'x) sess_world \<Rightarrow> bool"
  for env P now w w' where
  create: "P (ID s) \<Longrightarrow> Provider_Create env cfg now s w = (res, w') \<Longrightarrow> idp_call env P now w w'"
| update: "IdpStore_Update env now s e w = (res, w') \<Longrightarrow> idp_call env P now w w'"
| access_id: "AccessWithID env cfg now sid ev w = (res', w') \<Longrightarrow> idp_call env P now w w'"
| access_token: "AccessWithToken env cfg now token ev w = (res', w') \<Longrightarrow> idp_call env P now w w'"
| reauthenticate: "Provider_Reauthenticate env cfg now sid amr w = (res, w') \<Longrightarrow> idp_call env P now w w'"
| saml: "Idp_AddSAMLServiceProviderParticipant env cfg now s sp w = (res', w') \<Longrightarrow> idp_call env P now w w'"
| delete: "IdpManager_Delete env now s w = (res, w') \<Longrightarrow> idp_call env P now w w'"
| list: "IdpManager_List env now user w = (res'', w') \<Longrightarrow> idp_call env P now w w'"
| terminate: "IdpManager_TerminateAllExcept env now user cur w = (res'', w') \<Longrightarrow> idp_call env P now w w'"
| clean_up: "IdpStore_CleanUpForDeletingUserID env now user w = (res, w') \<Longrightarrow> idp_call env P now w w'"

inductive idp_history ::
    "('r, 'm, 'x) idp_env \<Rightarrow> (string \<Rightarrow> bool) \<Rightarrow> time \<Rightarrow> ('r, 'm, 'x) sess_world
     \<Rightarrow> time \<Rightarrow> ('r, 'm, 'x) sess_world \<Rightarrow> bool" for env P t0 w0 where
  start: "idp_history env P t0 w0 t0 w0"
| step: "idp_history env P t0 w0 t w \<Longrightarrow> t \<le> now \<Longrightarrow> idp_call env P now w w' \<Longrightarrow> idp_history env P t0 w0 now w'"

lemma idp_history_time: "idp_history env P t0 w0 t w \<Longrightarrow> t0 \<le> t"
  by (induction rule: idp_history.induct) auto

text \<open>A predicate of Redis that every command the calls send keeps.\<close>

definition stable :: "('r, 'm, 'x) idp_env \<Rightarrow> (string \<Rightarrow> bool) \<Rightarrow> time \<Rightarrow> ('r \<Rightarrow> bool) \<Rightarrow> bool" where
  "stable env P now Q \<longleftrightarrow>
     (\<forall>s d. P (ID s) \<longrightarrow> keeps_cmd Q (s_SETNX (e_redis env) now (sessionKey (e_AppID env) (ID s)) (marshal s) d)) \<and>
     (\<forall>s d. keeps_cmd Q (s_SETXX (e_redis env) now (sessionKey (e_AppID env) (ID s)) (marshal s) d)) \<and>
     (\<forall>k. keeps_cmd Q (s_GET (e_redis env) now k)) \<and>
     (\<forall>k. keeps_cmd Q (s_DEL (e_redis env) now k)) \<and>
     (\<forall>k f x. keeps_cmd Q (s_HSET (e_redis env) now k f x)) \<and>
     (\<forall>k f. keeps_cmd Q (s_HDEL (e_redis env) now k f)) \<and>
     (\<forall>k. keeps_cmd Q (s_HGETALL (e_redis env) now k))"

lemma stable_commands:
  assumes "stable env P now Q"
  shows "P (ID s) \<Longrightarrow> keeps_redis Q (rcmd (s_SETNX (e_redis env) now (sessionKey (e_AppID env) (ID s)) (marshal s) d))"
    and "keeps_redis Q (rcmd (s_SETXX (e_redis env) now (sessionKey (e_AppID env) (ID s)) (marshal s) d))"
    and "keeps_redis Q (rcmd (s_GET (e_redis env) now k))" "keeps_redis Q (rcall msg (s_DEL (e_redis env) now k))"
    and "keeps_redis Q (rcall msg (s_HSET (e_redis env) now k f x))" "keeps_redis Q (rcall msg (s_HDEL (e_redis env) now k f))"
    and "keeps_redis Q (rcall msg (s_HGETALL (e_redis env) now k))"
  using assms unfolding stable_def by (simp_all add: keeps_redis_rcmd keeps_redis_rcall)

lemma stable_store:
  assumes "stable env P now Q"
  shows "P (ID s) \<Longrightarrow> keeps_redis Q (IdpStore_Create env now s e)"
    and "keeps_redis Q (IdpStore_Update env now s e)" "keeps_redis Q (IdpStore_Get env now sid)"
    and "keeps_redis Q (IdpStore_Delete env now s)" "keeps_redis Q (IdpStore_CleanUpForDeletingUserID env now user)"
  unfolding IdpStore_Create_def IdpStore_Update_def IdpStore_Get_def IdpStore_Delete_def
    IdpStore_CleanUpForDeletingUserID_def Let_def
  by (auto intro!: keeps_redis_intros stable_commands [OF assms] split: sum.split redis_err.split)

lemma stable_list_keys:
  assumes "stable env P now Q"
  shows "keeps_redis Q (IdpStore_list_keys env now listKey keys)"
  by (induction keys)
     (auto intro!: keeps_redis_intros stable_commands [OF assms] split: sum.split redis_err.split option.split)

lemma stable_list: "stable env P now Q \<Longrightarrow> keeps_redis Q (IdpStore_List env now user)"
  unfolding IdpStore_List_def Let_def
  by (auto intro!: keeps_redis_intros stable_commands stable_list_keys)

lemma stable_provider_get: "stable env P now Q \<Longrightarrow> keeps_redis Q (Provider_Get env cfg now sid)"
  unfolding Provider_Get_def by (auto intro!: keeps_redis_intros stable_store)

lemma stable_get_by_token: "stable env P now Q \<Longrightarrow> keeps_redis Q (GetByToken env cfg now token)"
  unfolding GetByToken_def by (auto intro!: keeps_redis_intros stable_provider_get split: option.split)

lemma stable_access: "stable env P now Q \<Longrightarrow> keeps_redis Q (accessWithID env cfg now sid ev)"
  unfolding accessWithID_def accessSideEffects_def Let_def
  by (auto intro!: keeps_redis_intros stable_provider_get stable_store)

lemma stable_terminate:
  assumes "stable env P now Q"
  shows "keeps_redis Q (IdpManager_terminate env now cur sessions)"
  by (induction sessions)
     (auto intro!: keeps_redis_intros stable_store [OF assms] simp: IdpManager_Delete_def split: option.split)

lemmas stable_calls = stable_store stable_list stable_provider_get stable_get_by_token stable_access stable_terminate

lemma stable_idp_call:
  assumes "stable env P now Q" "idp_call env P now w w'" "Q (w_redis w)"
  shows "Q (w_redis w')"
  using assms(2)
proof cases
  case (create s cfg res)
  have "keeps_redis Q (Provider_Create env cfg now s)"
    unfolding Provider_Create_def Let_def using create(1)
    by (auto intro!: keeps_redis_intros stable_calls [OF assms(1)])
  from keeps_redisD [OF this create(2) assms(3)] show ?thesis .
next
  case (update s e res)
  from keeps_redisD [OF stable_store(2) [OF assms(1)] update assms(3)] show ?thesis .
next
  case (access_id cfg sid ev res')
  then show ?thesis unfolding AccessWithID_def
    using keeps_redisD [OF stable_access [OF assms(1)] _ assms(3)] by blast
next
  case (access_token cfg token ev res')
  have "keeps_redis Q (AccessWithToken env cfg now token ev)"
    unfolding AccessWithToken_def by (auto intro!: keeps_redis_intros stable_calls [OF assms(1)])
  from keeps_redisD [OF this access_token assms(3)] show ?thesis .
next
  case (reauthenticate cfg sid amr res)
  have "keeps_redis Q (Provider_Reauthenticate env cfg now sid amr)"
    unfolding Provider_Reauthenticate_def Let_def by (auto intro!: keeps_redis_intros stable_calls [OF assms(1)])
  from keeps_redisD [OF this reauthenticate assms(3)] show ?thesis .
next
  case (saml cfg s sp res')
  have "keeps_redis Q (Idp_AddSAMLServiceProviderParticipant env cfg now s sp)"
    unfolding Idp_AddSAMLServiceProviderParticipant_def Let_def
    by (auto intro!: keeps_redis_intros stable_calls [OF assms(1)])
  from keeps_redisD [OF this saml assms(3)] show ?thesis .
next
  case (delete s res)
  have "keeps_redis Q (IdpManager_Delete env now s)"
    unfolding IdpManager_Delete_def by (auto intro!: keeps_redis_intros stable_calls [OF assms(1)])
  from keeps_redisD [OF this delete assms(3)] show ?thesis .
next
  case (list user res'')
  have "keeps_redis Q (IdpManager_List env now user)"
    unfolding IdpManager_List_def by (auto intro!: keeps_redis_intros stable_calls [OF assms(1)])
  from keeps_redisD [OF this list assms(3)] show ?thesis .
next
  case (terminate user cur res'')
  have "keeps_redis Q (IdpManager_TerminateAllExcept env now user cur)"
    unfolding IdpManager_TerminateAllExcept_def by (auto intro!: keeps_redis_intros stable_calls [OF assms(1)])
  from keeps_redisD [OF this terminate assms(3)] show ?thesis .
next
  case (clean_up user res)
  from keeps_redisD [OF stable_store(5) [OF assms(1)] clean_up assms(3)] show ?thesis .
qed

lemma stable_idp_history:
  assumes "\<And>now. t0 \<le> now \<Longrightarrow> stable env P now (Q now)" "\<And>now t r. now \<le> t \<Longrightarrow> Q now r \<Longrightarrow> Q t r"
    and "idp_history env P t0 w0 t w" "Q t0 (w_redis w0)"
  shows "Q t (w_redis w)"
  using assms(3,4)
proof (induction rule: idp_history.induct)
  case (step t w now w')
  from idp_history_time [OF step(1)] step(2) have "t0 \<le> now" by simp
  from stable_idp_call [OF assms(1) [OF this] step(3)] assms(2) [OF step(2)] step show ?case by blast
qed auto

section \<open>What the store holds\<close>

text \<open>A session key holds a session under its own ID, with untyped claims and no transient expiry.\<close>

definition stored_ok ::
    "('r, 'm, 'x) idp_env \<Rightarrow> (time \<Rightarrow> 'r \<Rightarrow> string \<Rightarrow> idp_value option) \<Rightarrow> time \<Rightarrow> 'r \<Rightarrow> bool" where
  "stored_ok env view now r \<longleftrightarrow> (\<forall>t \<ge> now. \<forall>sid d.
     view t r (sessionKey (e_AppID env) sid) = Some (VSession d) \<longrightarrow>
     ID d = sid \<and> GetAMR (sess_Attrs d) = None \<and> ExpireAtForResolvedSession d = zero_time)"

text \<open>No session of the app is stored.\<close>

definition no_sessions ::
    "('r, 'm, 'x) idp_env \<Rightarrow> (time \<Rightarrow> 'r \<Rightarrow> string \<Rightarrow> idp_value option) \<Rightarrow> time \<Rightarrow> 'r \<Rightarrow> bool" where
  "no_sessions env view now r \<longleftrightarrow> (\<forall>sid. view now r (sessionKey (e_AppID env) sid) = None)"

lemma sessionKey_inj [simp]: "sessionKey app sid = sessionKey app sid' \<longleftrightarrow> sid = sid'"
  by (simp add: sessionKey_def)

lemma GetAMR_marshal [simp]: "GetAMR (marshal_attrs a) = None"
  by (simp add: GetAMR_def marshal_attrs_def untyped_def split: option.split claim.split)

lemma marshal_VSession: "marshal s = VSession d \<Longrightarrow> ID d = ID s \<and> GetAMR (sess_Attrs d) = None
    \<and> ExpireAtForResolvedSession d = zero_time"
  by (auto simp: marshal_def)

lemma stored_ok_later: "now \<le> t \<Longrightarrow> stored_ok env view now r \<Longrightarrow> stored_ok env view t r"
  unfolding stored_ok_def by (meson order_trans)

context idp_keys
begin

lemma stored_ok_none: "no_sessions env view now r \<Longrightarrow> stored_ok env view now r"
  unfolding no_sessions_def stored_ok_def using view_None_later by (metis option.distinct(1))

lemma stored_ok_set:
  assumes "stored_ok env view now r"
    and "\<And>t k. now \<le> t \<Longrightarrow> k \<noteq> sessionKey (e_AppID env) (ID s) \<Longrightarrow> view t r' k = view t r k"
    and "\<And>t. now \<le> t \<Longrightarrow> view t r' (sessionKey (e_AppID env) (ID s))
      \<in> {None, Some (marshal s), view t r (sessionKey (e_AppID env) (ID s))}"
  shows "stored_ok env view now r'"
  unfolding stored_ok_def
proof (intro allI impI)
  fix t sid d
  assume t: "now \<le> t" and d: "view t r' (sessionKey (e_AppID env) sid) = Some (VSession d)"
  show "ID d = sid \<and> GetAMR (sess_Attrs d) = None \<and> ExpireAtForResolvedSession d = zero_time"
  proof (cases "sid = ID s \<and> marshal s = VSession d")
    case True
    then show ?thesis using marshal_VSession by auto
  next
    case False
    with assms(2) [OF t, of "sessionKey (e_AppID env) sid"] assms(3) [OF t] d
    have "view t r (sessionKey (e_AppID env) sid) = Some (VSession d)"
      by (cases "sid = ID s") auto
    with assms(1) t show ?thesis by (auto simp: stored_ok_def)
  qed
qed

lemma stable_stored_ok: "stable env P now (stored_ok env view now)"
  unfolding stable_def
proof (intro conjI allI impI; rule keeps_cmdI)
  fix s d r res r'
  assume "s_SETNX (e_redis env) now (sessionKey (e_AppID env) (ID s)) (marshal s) d r = (res, r')"
    and "stored_ok env view now r"
  then show "stored_ok env view now r'"
    using SETNX_frame SETNX_any by (intro stored_ok_set [of now r s r']) blast+
next
  fix s d r res r'
  assume "s_SETXX (e_redis env) now (sessionKey (e_AppID env) (ID s)) (marshal s) d r = (res, r')"
    and "stored_ok env view now r"
  then show "stored_ok env view now r'"
    using SETXX_frame SETXX_any by (intro stored_ok_set [of now r s r']) blast+
next
  fix k r gres r' assume "s_GET (e_redis env) now k r = (gres, r')" "stored_ok env view now r"
  then show "stored_ok env view now r'" using GET by blast
next
  fix k r hres r' assume "s_HGETALL (e_redis env) now k r = (hres, r')" "stored_ok env view now r"
  then show "stored_ok env view now r'" using HGETALL by blast
next
  fix k r ures r' assume "s_DEL (e_redis env) now k r = (ures, r')" "stored_ok env view now r"
  then show "stored_ok env view now r'" by (auto simp: stored_ok_def DEL split: if_splits)
next
  fix k f x r ures r' assume "s_HSET (e_redis env) now k f x r = (ures, r')" "stored_ok env view now r"
  then show "stored_ok env view now r'" by (auto simp: stored_ok_def HSET)
next
  fix k f r ures r' assume "s_HDEL (e_redis env) now k f r = (ures, r')" "stored_ok env view now r"
  then show "stored_ok env view now r'" by (auto simp: stored_ok_def HDEL)
qed

lemma history_stored_ok:
  assumes "idp_history env P t0 w0 t w" "no_sessions env view t0 (w_redis w0)" "t \<le> now"
  shows "stored_ok env view now (w_redis w)"
proof -
  have "stored_ok env view t (w_redis w)"
    by (rule stable_idp_history [OF stable_stored_ok stored_ok_later assms(1) stored_ok_none [OF assms(2)]])
  from stored_ok_later [OF assms(3) this] show ?thesis .
qed

section \<open>Gone for good\<close>

lemma stable_gone:
  assumes "\<And>s. P s \<Longrightarrow> s \<noteq> sid"
  shows "stable env P now (gone now (sessionKey (e_AppID env) sid))"
  unfolding stable_def
proof (intro conjI allI impI)
  fix s :: IDPSession and d assume "P (ID s)"
  then have "sessionKey (e_AppID env) (ID s) \<noteq> sessionKey (e_AppID env) sid" using assms by auto
  then show "keeps_cmd (gone now (sessionKey (e_AppID env) sid))
      (s_SETNX (e_redis env) now (sessionKey (e_AppID env) (ID s)) (marshal s) d)"
    by (rule keeps_cmdI [OF gone_SETNX])
qed (rule keeps_cmdI, (erule (1) gone_SETXX gone_reads gone_writes))+

lemma history_gone:
  assumes "idp_history env (\<lambda>i. i \<noteq> sid) t0 w0 t w" "view t0 (w_redis w0) (sessionKey (e_AppID env) sid) = None" "t \<le> now"
  shows "view now (w_redis w) (sessionKey (e_AppID env) sid) = None"
proof -
  have "gone t (sessionKey (e_AppID env) sid) (w_redis w)"
  proof (rule stable_idp_history [OF _ _ assms(1)])
    show "stable env (\<lambda>i. i \<noteq> sid) now (gone now (sessionKey (e_AppID env) sid))" for now by (rule stable_gone)
    show "gone t (sessionKey (e_AppID env) sid) r" if "now \<le> t" "gone now (sessionKey (e_AppID env) sid) r" for now t r
      using that by (auto simp: gone_def)
    show "gone t0 (sessionKey (e_AppID env) sid) (w_redis w0)" using assms(2) by (simp add: gone_conv)
  qed
  with assms(3) show ?thesis by (simp add: gone_def)
qed

lemma Delete_Ok_gone:
  assumes "IdpStore_Delete env now s w = (Ok (), w')"
  shows "view now (w_redis w') (sessionKey (e_AppID env) (ID s)) = None"
proof -
  obtain res r where del: "s_DEL (e_redis env) now (sessionKey (e_AppID env) (ID s)) (w_redis w) = (res, r)" by fastforce
  obtain res' r' where hdel: "s_HDEL (e_redis env) now (sessionListKey (e_AppID env) (UserID (sess_Attrs s)))
      (sessionKey (e_AppID env) (ID s)) r = (res', r')" by fastforce
  from assms del hdel have "res = Inr ()" "w_redis w' = r'"
    by (auto simp: IdpStore_Delete_def Let_def bindp_def rcall_run ignore_err_def attempt_def run_simps
        split: sum.splits)
  with DEL [OF del order_refl] HDEL [OF hdel] show ?thesis by simp
qed

end

section \<open>What a session token is worth\<close>

definition unexpired :: "SessionConfig \<Rightarrow> time \<Rightarrow> IDPSession \<Rightarrow> bool" where
  "unexpired cfg now s \<longleftrightarrow> now \<le> CreatedAt s + Duration (Lifetime cfg) \<and>
     (if IdleTimeoutEnabled cfg then now \<le> Timestamp (LastAccess (AccessInfo s)) + Duration (IdleTimeout cfg) else True)"

lemma CheckSessionExpired_conv: "CheckSessionExpired cfg now s \<longleftrightarrow> \<not> unexpired cfg now s"
  by (auto simp: CheckSessionExpired_def unexpired_def expiry_def Let_def)

lemma unexpired_set_expiry [simp]:
  "unexpired cfg now (setSessionExpireAtForResolvedSession cfg' s) = unexpired cfg now s"
  by (simp add: unexpired_def)

lemma reauthenticated_simps [simp]:
  "expiry cfg (s\<lparr>AuthenticatedAt := x\<rparr>) = expiry cfg s" "expiry cfg (s\<lparr>sess_Attrs := a\<rparr>) = expiry cfg s"
  "expiry cfg (s\<lparr>ExpireAtForResolvedSession := x\<rparr>) = expiry cfg s" "unexpired cfg now (s\<lparr>AuthenticatedAt := x\<rparr>) = unexpired cfg now s"
  by (simp_all add: expiry_def unexpired_def Let_def)

lemma Unmarshal_Inr:
  "Unmarshal data = Inr d \<longleftrightarrow> (\<exists>s. data = VSession s \<and>
     d = (if AuthenticatedAt s = zero_time then s\<lparr>AuthenticatedAt := CreatedAt s\<rparr> else s))"
  by (cases data) (auto simp: Unmarshal_def)

lemma Unmarshal_fields:
  assumes "Unmarshal data = Inr d"
  obtains s where "data = VSession s" "ID d = ID s" "sess_Attrs d = sess_Attrs s" "CreatedAt d = CreatedAt s"
    "AccessInfo d = AccessInfo s" "TokenHash d = TokenHash s" "expiry cfg d = expiry cfg s"
    "unexpired cfg now d = unexpired cfg now s"
  using assms by (auto simp: Unmarshal_Inr split: if_splits)

context idp_keys
begin

lemma access_token_Ok:
  assumes "stored_ok env view now (w_redis w)" "AccessWithToken env cfg now token ev w = (Ok s, w')"
  obtains sid d where "decodeTokenSessionID token = Some sid"
    "view now (w_redis w) (sessionKey (e_AppID env) sid) = Some (VSession d)"
    "TokenHash d = e_hash env token" "unexpired cfg now d"
    "ID s = sid" "sess_Attrs s = sess_Attrs d" "CreatedAt s = CreatedAt d" "LastAccess (AccessInfo s) = ev"
proof -
  from assms(2) obtain s0 w1 where g: "GetByToken env cfg now token w = (Ok s0, w1)"
    and a: "accessWithID env cfg now (ID s0) ev w1 = (Ok s, w')"
    by (auto simp: AccessWithToken_def bindp_Ok)
  from g obtain sid data d where g1: "decodeTokenSessionID token = Some sid" "w1 = w"
      "view now (w_redis w) (sessionKey (e_AppID env) sid) = Some data" "Unmarshal data = Inr d"
      "s0 = setSessionExpireAtForResolvedSession cfg d" "TokenHash s0 = e_hash env token" "\<not> CheckSessionExpired cfg now s0"
    by (rule GetByToken_Ok)
  from g1(4) obtain d0 where d0: "data = VSession d0" "ID d = ID d0" "sess_Attrs d = sess_Attrs d0"
    "CreatedAt d = CreatedAt d0" "AccessInfo d = AccessInfo d0" "TokenHash d = TokenHash d0" "unexpired cfg now d = unexpired cfg now d0"
    by (rule Unmarshal_fields)
  with g1 assms(1) have sid: "ID s0 = sid" by (auto simp: stored_ok_def)
  from a obtain data' d' where "view now (w_redis w1) (sessionKey (e_AppID env) (ID s0)) = Some data'"
    "Unmarshal data' = Inr d'" "s = touched cfg ev d'"
    by (rule accessWithID_Ok)
  with g1 d0 sid that [of sid d0] show thesis by (auto simp: CheckSessionExpired_conv)
qed

lemma get_by_token_Ok:
  assumes "stored_ok env view now (w_redis w)" "GetByToken env cfg now token w = (Ok s, w')"
  obtains sid d where "decodeTokenSessionID token = Some sid"
    "view now (w_redis w) (sessionKey (e_AppID env) sid) = Some (VSession d)"
    "TokenHash d = e_hash env token" "unexpired cfg now d"
    "ID s = sid" "sess_Attrs s = sess_Attrs d" "CreatedAt s = CreatedAt d" "LastAccess (AccessInfo s) = LastAccess (AccessInfo d)"
proof -
  from assms(2) obtain sid data d where g1: "decodeTokenSessionID token = Some sid"
      "view now (w_redis w) (sessionKey (e_AppID env) sid) = Some data" "Unmarshal data = Inr d"
      "s = setSessionExpireAtForResolvedSession cfg d" "TokenHash s = e_hash env token" "\<not> CheckSessionExpired cfg now s"
    by (rule GetByToken_Ok)
  from g1(3) obtain d0 where d0: "data = VSession d0" "ID d = ID d0" "sess_Attrs d = sess_Attrs d0"
    "CreatedAt d = CreatedAt d0" "AccessInfo d = AccessInfo d0" "TokenHash d = TokenHash d0" "unexpired cfg now d = unexpired cfg now d0"
    by (rule Unmarshal_fields)
  with g1 assms(1) that [of sid d0] show thesis by (auto simp: stored_ok_def CheckSessionExpired_conv)
qed

text \<open>A token stops working when its session is gone.\<close>

lemma gone_GetByToken:
  assumes "decodeTokenSessionID token = Some sid" "view now (w_redis w) (sessionKey (e_AppID env) sid) = None"
  shows "fst (GetByToken env cfg now token w) \<noteq> Ok s" "fst (AccessWithToken env cfg now token ev w) \<noteq> Ok s"
    "fst (AccessWithID env cfg now sid ev w) \<noteq> Ok s"
proof -
  have g: "GetByToken env cfg now token w \<noteq> (Ok s, w')" for s w'
    using assms by (auto elim!: GetByToken_Ok)
  then show "fst (GetByToken env cfg now token w) \<noteq> Ok s" by (metis prod.collapse)
  from g have "AccessWithToken env cfg now token ev w \<noteq> (Ok s, w')" for w' by (auto simp: AccessWithToken_def bindp_Ok)
  then show "fst (AccessWithToken env cfg now token ev w) \<noteq> Ok s" by (metis prod.collapse)
  have "AccessWithID env cfg now sid ev w \<noteq> (Ok s, w')" for w'
    using assms unfolding AccessWithID_def by (auto elim!: accessWithID_Ok)
  then show "fst (AccessWithID env cfg now sid ev w) \<noteq> Ok s" by (metis prod.collapse)
qed

lemma Get_typed:
  assumes "stored_ok env view now (w_redis w)" "IdpStore_Get env now sid w = (Ok s, w')"
  shows "ID s = sid \<and> GetAMR (sess_Attrs s) = None"
proof -
  from IdpStore_Get_run(2) [OF assms(2)] obtain data where
    "view now (w_redis w) (sessionKey (e_AppID env) sid) = Some data" "Unmarshal data = Inr s" by blast
  with assms(1) show ?thesis by (auto elim!: Unmarshal_fields [where cfg=undefined and now=0] simp: stored_ok_def)
qed

end

text \<open>C6: a session token is worth exactly one live session. In any state reached from a store without
  sessions, when a token resolves or an access with it succeeds, the session stored under the ID the
  token names carries the hash of that very token, and neither its lifetime since creation nor its
  idle timeout since the last access has passed; what comes back is that session.\<close>

theorem session_token_sound:
  assumes "session_keys (e_redis env) view hview" "no_sessions env view t0 (w_redis w0)"
    and "idp_history env P t0 w0 t w" "t \<le> now"
    and "fst (GetByToken env cfg now token w) = Ok s \<or> fst (AccessWithToken env cfg now token ev w) = Ok s"
  shows "\<exists>sid d. decodeTokenSessionID token = Some sid
    \<and> view now (w_redis w) (sessionKey (e_AppID env) sid) = Some (VSession d)
    \<and> TokenHash d = e_hash env token \<and> unexpired cfg now d
    \<and> ID s = sid \<and> sess_Attrs s = sess_Attrs d \<and> CreatedAt s = CreatedAt d"
proof -
  from assms(1) have keys: "idp_keys env view hview" by (simp add: idp_keys_def)
  note ok = idp_keys.history_stored_ok [OF keys assms(3,2,4)]
  from assms(5) show ?thesis
  proof
    assume "fst (GetByToken env cfg now token w) = Ok s"
    then show ?thesis using idp_keys.get_by_token_Ok [OF keys ok] by (metis prod.collapse)
  next
    assume "fst (AccessWithToken env cfg now token ev w) = Ok s"
    then show ?thesis using idp_keys.access_token_Ok [OF keys ok] by (metis prod.collapse)
  qed
qed

section \<open>Sessions in use stay alive\<close>

text \<open>No command fails by itself: Redis answers, mutexes are obtained, events are recorded.\<close>

definition reliable :: "('r, 'm, 'x) idp_env \<Rightarrow> bool" where
  "reliable env \<longleftrightarrow>
     (\<forall>now k r m. fst (s_GET (e_redis env) now k r) \<noteq> Inl (Redis_failure m)) \<and>
     (\<forall>now k v d r. 0 < d \<longrightarrow> (\<exists>b. fst (s_SETNX (e_redis env) now k v d r) = Inr b)) \<and>
     (\<forall>now k v d r. 0 < d \<longrightarrow> (\<exists>b. fst (s_SETXX (e_redis env) now k v d r) = Inr b)) \<and>
     (\<forall>now k f x r. fst (s_HSET (e_redis env) now k f x r) = Inr ()) \<and>
     (\<forall>name m. fst (e_lock env name m) = Inr ()) \<and>
     (\<forall>k ev x. fst (x_XADD (e_side env) k ev x) = Inr ()) \<and>
     (\<forall>k e x. fst (x_EXPIREAT (e_side env) k e x) = Inr ()) \<and>
     (\<forall>user x. fst (x_TrackActiveUser (e_side env) user x) = Inr ())"

lemma side_Inr: "fst (c (w_side w)) = Inr a \<Longrightarrow> side c w = (Ok a, w\<lparr>w_side := snd (c (w_side w))\<rparr>)"
  by (cases "c (w_side w)") (simp add: side_def)

lemma reliable_side:
  assumes "reliable env"
  shows "\<exists>w'. accessSideEffects env s ev w = (Ok (), w') \<and> w_redis w' = w_redis w"
  using assms
  by (simp add: reliable_def accessSideEffects_def RecordAccess_def AppendEvent_def Let_def bindp_def side_Inr)

lemma ttl_expiry:
  assumes "0 < e - now" "t + 1000000 \<le> e"
  shows "t < now + ttl_ms (e - now)"
  using assms ttl_ms_bounds(3) [of "e - now"] by linarith

context idp_keys
begin

lemma Update_present:
  assumes "reliable env" "now < e" "view now (w_redis w) (sessionKey (e_AppID env) (ID s)) \<noteq> None"
  obtains w1 where "IdpStore_Update env now s e w = (Ok (), w1)"
    "\<And>t. now \<le> t \<Longrightarrow> t + 1000000 \<le> e \<Longrightarrow> view t (w_redis w1) (sessionKey (e_AppID env) (ID s)) = Some (marshal s)"
proof -
  let ?l = "sessionListKey (e_AppID env) (UserID (sess_Attrs s))" and ?k = "sessionKey (e_AppID env) (ID s)"
  obtain r where h: "s_HSET (e_redis env) now ?l ?k e (w_redis w) = (Inr (), r)"
    using assms(1) unfolding reliable_def by (metis prod.collapse)
  obtain b r' where x: "s_SETXX (e_redis env) now ?k (marshal s) (e - now) r = (Inr b, r')"
    using assms(1,2) unfolding reliable_def by (metis diff_gt_0_iff_gt prod.collapse)
  from SETXX_result [OF x] HSET [OF h] assms(3) have b: "b" by simp
  show thesis
  proof (rule that [of "w\<lparr>w_redis := r'\<rparr>"])
    show "IdpStore_Update env now s e w = (Ok (), w\<lparr>w_redis := r'\<rparr>)"
      using h x by (simp add: IdpStore_Update_def Let_def bindp_def rcall_run rcmd_run run_simps)
    show "view t (w_redis (w\<lparr>w_redis := r'\<rparr>)) ?k = Some (marshal s)" if "now \<le> t" "t + 1000000 \<le> e" for t
      using SETXX_key [OF _ x that(1)] b assms(2) ttl_expiry [of e now t] that by simp
  qed
qed

lemma Create_fresh:
  assumes "reliable env" "now < e" "view now (w_redis w) (sessionKey (e_AppID env) (ID s)) = None"
    and "IdpStore_Create env now s e w = (Ok (), w1)" "now \<le> t" "t + 1000000 \<le> e"
  shows "view t (w_redis w1) (sessionKey (e_AppID env) (ID s)) = Some (marshal s)"
proof -
  let ?l = "sessionListKey (e_AppID env) (UserID (sess_Attrs s))" and ?k = "sessionKey (e_AppID env) (ID s)"
  obtain r where h: "s_HSET (e_redis env) now ?l ?k e (w_redis w) = (Inr (), r)"
    using assms(1) unfolding reliable_def by (metis prod.collapse)
  obtain b r' where x: "s_SETNX (e_redis env) now ?k (marshal s) (e - now) r = (Inr b, r')"
    using assms(1,2) unfolding reliable_def by (metis diff_gt_0_iff_gt prod.collapse)
  from SETNX_result [OF x] HSET [OF h] assms(3) have "b" by simp
  moreover have "w_redis w1 = r'"
    using assms(4) h x by (auto simp: IdpStore_Create_def Let_def bindp_def rcall_run rcmd_run run_simps)
  ultimately show ?thesis
    using SETNX_key [OF _ x assms(5)] assms(2,6) ttl_expiry [of e now t] by simp
qed

text \<open>The session is stored until its expiry, last accessed at \<open>t\<close>.\<close>

definition alive :: "SessionConfig \<Rightarrow> string \<Rightarrow> string \<Rightarrow> time \<Rightarrow> time \<Rightarrow> ('r, 'm, 'x) sess_world \<Rightarrow> bool" where
  "alive cfg token sid t0 t w \<longleftrightarrow> (\<exists>d. ID d = sid \<and> TokenHash d = e_hash env token \<and> CreatedAt d = t0
     \<and> Timestamp (LastAccess (AccessInfo d)) = t
     \<and> (\<forall>t'. t \<le> t' \<longrightarrow> t' + 1000000 \<le> expiry cfg d \<longrightarrow>
          view t' (w_redis w) (sessionKey (e_AppID env) sid) = Some (VSession d)))"

lemma Provider_Get_present:
  assumes "reliable env" "view now (w_redis w) (sessionKey (e_AppID env) sid) = Some data" "Unmarshal data = Inr d"
  shows "Provider_Get env cfg now sid w = (Ok (setSessionExpireAtForResolvedSession cfg d), w)"
proof -
  obtain g r where g: "s_GET (e_redis env) now (sessionKey (e_AppID env) sid) (w_redis w) = (g, r)" by fastforce
  have "g \<noteq> Inl (Redis_failure m)" for m using assms(1) g unfolding reliable_def by (metis fst_conv)
  with GET [OF g] assms(2) have "g = Inr data" "r = w_redis w"
    by (auto split: sum.splits redis_err.splits)
  with g assms(3) show ?thesis
    by (simp add: Provider_Get_def IdpStore_Get_def wrapped_def attempt_def bindp_def rcmd_run run_simps)
qed

lemma accessWithID_present:
  assumes "reliable env" "view now (w_redis w) (sessionKey (e_AppID env) sid) = Some data" "Unmarshal data = Inr d"
    and "ID d = sid" "now < expiry cfg (touched cfg ev d)"
  obtains w' where "accessWithID env cfg now sid ev w = (Ok (touched cfg ev d), w')"
    "\<And>t. now \<le> t \<Longrightarrow> t + 1000000 \<le> expiry cfg (touched cfg ev d) \<Longrightarrow>
      view t (w_redis w') (sessionKey (e_AppID env) sid) = Some (marshal (touched cfg ev d))"
proof -
  obtain m where m: "e_lock env (sessionMutexName (e_AppID env) sid) (w_mutex w) = (Inr (), m)"
    using assms(1) unfolding reliable_def by (metis prod.collapse)
  obtain w1 where u: "IdpStore_Update env now (touched cfg ev d) (expiry cfg (touched cfg ev d)) (w\<lparr>w_mutex := m\<rparr>) = (Ok (), w1)"
    and v: "\<And>t. now \<le> t \<Longrightarrow> t + 1000000 \<le> expiry cfg (touched cfg ev d) \<Longrightarrow>
      view t (w_redis w1) (sessionKey (e_AppID env) sid) = Some (marshal (touched cfg ev d))"
    using Update_present [OF assms(1,5), of "w\<lparr>w_mutex := m\<rparr>" "touched cfg ev d"] assms(2,4) by auto
  obtain w2 where s: "accessSideEffects env (touched cfg ev d) ev w1 = (Ok (), w2)" "w_redis w2 = w_redis w1"
    using reliable_side [OF assms(1)] by blast
  show thesis
  proof (rule that)
    show "accessWithID env cfg now sid ev w =
      (Ok (touched cfg ev d), w2\<lparr>w_mutex := e_unlock env (sessionMutexName (e_AppID env) sid) (w_mutex w2)\<rparr>)"
      using m u s(1) Provider_Get_present [OF assms(1), of now "w\<lparr>w_mutex := m\<rparr>" sid data d cfg] assms(2,3)
      by (simp add: accessWithID_def with_mutex_def with_defer_def bindp_def Let_def touch_resolved expiry_touched
          wrapped_def attempt_def run_simps)
  qed (use v s(2) in simp)
qed

end

lemma expiry_bound:
  assumes "now + 1000000 \<le> CreatedAt d + Duration (Lifetime cfg)"
    and "if IdleTimeoutEnabled cfg then now + 1000000 \<le> Timestamp (LastAccess (AccessInfo d)) + Duration (IdleTimeout cfg) else True"
  shows "now + 1000000 \<le> expiry cfg d" "unexpired cfg now d"
  using assms by (auto simp: expiry_def unexpired_def Let_def)

text \<open>
  Accesses in time: each before the lifetime since \<open>t0\<close> and before the idle timeout since the previous
  one; the last millisecond, to which Redis rounds, is left out.
\<close>

fun in_time :: "SessionConfig \<Rightarrow> time \<Rightarrow> time \<Rightarrow> access_event list \<Rightarrow> bool" where
  "in_time cfg t0 prev [] = True"
| "in_time cfg t0 prev (ev # evs) \<longleftrightarrow> prev \<le> Timestamp ev
     \<and> Timestamp ev + 1000000 \<le> t0 + Duration (Lifetime cfg)
     \<and> (if IdleTimeoutEnabled cfg then Timestamp ev + 1000000 \<le> prev + Duration (IdleTimeout cfg) else True)
     \<and> in_time cfg t0 (Timestamp ev) evs"

fun access_all ::
    "('r, 'm, 'x) idp_env \<Rightarrow> SessionConfig \<Rightarrow> string \<Rightarrow> access_event list \<Rightarrow> ('r, 'm, 'x) sess_world
     \<Rightarrow> (sess_error, IDPSession) outcome list" where
  "access_all env cfg token [] w = []"
| "access_all env cfg token (ev # evs) w = (case AccessWithToken env cfg (Timestamp ev) token ev w of
     (res, w') \<Rightarrow> res # access_all env cfg token evs w')"

context idp_keys
begin

lemma alive_access:
  assumes "reliable env" "alive cfg token sid t0 prev w" "in_time cfg t0 prev (ev # evs)" "0 < Duration (IdleTimeout cfg)"
    and "decodeTokenSessionID token = Some sid" "e_hash env token \<noteq> ''''"
  obtains s w' where "AccessWithToken env cfg (Timestamp ev) token ev w = (Ok s, w')" "ID s = sid"
    "alive cfg token sid t0 (Timestamp ev) w'"
proof -
  let ?now = "Timestamp ev" and ?k = "sessionKey (e_AppID env) sid"
  from assms(2) obtain d where d: "ID d = sid" "TokenHash d = e_hash env token" "CreatedAt d = t0"
      "Timestamp (LastAccess (AccessInfo d)) = prev"
    and v: "\<And>t. prev \<le> t \<Longrightarrow> t + 1000000 \<le> expiry cfg d \<Longrightarrow> view t (w_redis w) ?k = Some (VSession d)"
    by (auto simp: alive_def)
  from assms(3) d expiry_bound [of ?now d cfg] have now: "?now + 1000000 \<le> expiry cfg d" "unexpired cfg ?now d" by simp_all
  with v assms(3) have got: "view ?now (w_redis w) ?k = Some (VSession d)" by simp
  obtain u where u: "Unmarshal (VSession d) = Inr u" by (simp add: Unmarshal_def)
  then have u': "ID u = sid" "TokenHash u = e_hash env token" "CreatedAt u = t0" "unexpired cfg ?now u"
    using d now by (auto elim!: Unmarshal_fields [where cfg=cfg and now="?now"])
  have g: "GetByToken env cfg ?now token w = (Ok (setSessionExpireAtForResolvedSession cfg u), w)"
    using Provider_Get_present [OF assms(1) got u, of cfg] u' assms(5,6)
    by (simp add: GetByToken_def bindp_def matchTokenHash_def CheckSessionExpired_conv run_simps)
  let ?s = "touched cfg ev u"
  have e: "?now < expiry cfg ?s"
    using assms(3,4) u' by (auto simp: expiry_def Let_def)
  obtain w' where a: "accessWithID env cfg ?now sid ev w = (Ok ?s, w')"
    and v': "\<And>t. ?now \<le> t \<Longrightarrow> t + 1000000 \<le> expiry cfg ?s \<Longrightarrow> view t (w_redis w') ?k = Some (marshal ?s)"
    using accessWithID_present [OF assms(1) got u u'(1) e] by blast
  show thesis
  proof (rule that)
    show "AccessWithToken env cfg ?now token ev w = (Ok ?s, w')"
      using g a u'(1) by (simp add: AccessWithToken_def bindp_def)
    show "alive cfg token sid t0 ?now w'"
      unfolding alive_def using v' u'
      by (intro exI [of _ "?s\<lparr>sess_Attrs := marshal_attrs (sess_Attrs ?s), ExpireAtForResolvedSession := zero_time\<rparr>"])
        (simp add: marshal_def)
  qed (use u'(1) in simp)
qed

lemma alive_access_all:
  assumes "reliable env" "0 < Duration (IdleTimeout cfg)" "decodeTokenSessionID token = Some sid" "e_hash env token \<noteq> ''''"
  shows "alive cfg token sid t0 prev w \<Longrightarrow> in_time cfg t0 prev evs \<Longrightarrow>
    list_all (\<lambda>res. \<exists>s. res = Ok s \<and> ID s = sid) (access_all env cfg token evs w)"
proof (induction evs arbitrary: prev w)
  case (Cons ev evs)
  obtain s w' where "AccessWithToken env cfg (Timestamp ev) token ev w = (Ok s, w')" "ID s = sid"
    "alive cfg token sid t0 (Timestamp ev) w'"
    using alive_access [OF assms(1) Cons.prems assms(2,3,4)] by blast
  with Cons show ?case by simp
qed simp

lemma split_dot_free: "CHR ''.'' \<notin> set xs \<Longrightarrow> split_dot xs = [xs]"
  by (induction xs) auto

lemma split_dot_append:
  "CHR ''.'' \<notin> set xs \<Longrightarrow> CHR ''.'' \<notin> set ys \<Longrightarrow> split_dot (xs @ CHR ''.'' # ys) = [xs, ys]"
  by (induction xs) (auto simp: split_dot_free)

lemma decode_encode:
  "CHR ''.'' \<notin> set sid \<Longrightarrow> CHR ''.'' \<notin> set rnd \<Longrightarrow> decodeTokenSessionID (encodeToken sid rnd) = Some sid"
  by (simp add: decodeTokenSessionID_def encodeToken_def split_dot_append Let_def)

lemma created_alive:
  assumes "reliable env" "MakeSession env cfg t0 uuid random attrs = (s, token)"
    and "view t0 (w_redis w) (sessionKey (e_AppID env) uuid) = None"
    and "Provider_Create env cfg t0 s w = (Ok (), w0)" "0 < Duration (Lifetime cfg)" "0 < Duration (IdleTimeout cfg)"
  shows "alive cfg token uuid t0 t0 w0"
proof -
  let ?s = "setSessionExpireAtForResolvedSession cfg s"
  from assms(2) have s: "ID s = uuid" "CreatedAt s = t0" "Timestamp (LastAccess (AccessInfo s)) = t0"
    "TokenHash s = e_hash env token"
    by (auto simp: MakeSession_def generateToken_def Let_def NewEvent_def)
  from assms(4) obtain w1 where c: "IdpStore_Create env t0 ?s (expiry cfg s) w = (Ok (), w1)"
    and i: "InitStream env uuid (expiry cfg s) (InitialAccess (AccessInfo s)) w1 = (Ok (), w0)"
    by (auto simp: Provider_Create_def Let_def bindp_Ok wrapped_Ok s)
  have e: "t0 < expiry cfg s" using s assms(5,6) by (auto simp: expiry_def Let_def)
  have "w_redis w0 = w_redis w1"
    using i keeps_redisD [OF keeps_redis_events(3), of env uuid "expiry cfg s" "InitialAccess (AccessInfo s)" w1 _ w0 "\<lambda>r. r = w_redis w1"]
    by blast
  with Create_fresh [OF assms(1) e _ c] assms(3) s
  have "view t (w_redis w0) (sessionKey (e_AppID env) uuid) = Some (marshal ?s)"
    if "t0 \<le> t" "t + 1000000 \<le> expiry cfg s" for t using that by simp
  then show ?thesis
    unfolding alive_def using s
    by (intro exI [of _ "?s\<lparr>sess_Attrs := marshal_attrs (sess_Attrs ?s), ExpireAtForResolvedSession := zero_time\<rparr>"])
      (simp add: marshal_def)
qed

end

text \<open>C32: a session in use stays alive: once it was created, every access with its token succeeds, as
  long as each comes before the session's lifetime ends and before the idle timeout since the access
  before it; each access pushes the idle timeout out.\<close>

theorem session_in_use_stays_alive:
  assumes "session_keys (e_redis env) view hview" "reliable env" "e_hash env token \<noteq> ''''"
    and "MakeSession env cfg t0 uuid random attrs = (s, token)" "CHR ''.'' \<notin> set uuid" "CHR ''.'' \<notin> set random"
    and "view t0 (w_redis w) (sessionKey (e_AppID env) uuid) = None"
    and "Provider_Create env cfg t0 s w = (Ok (), w0)" "0 < Lifetime cfg" "0 < IdleTimeout cfg"
    and "in_time cfg t0 t0 evs"
  shows "list_all (\<lambda>res. \<exists>s'. res = Ok s' \<and> ID s' = uuid) (access_all env cfg token evs w0)"
proof -
  from assms(1) have keys: "idp_keys env view hview" by (simp add: idp_keys_def)
  have "0 < Duration (Lifetime cfg)" "0 < Duration (IdleTimeout cfg)" using assms(9,10) by (simp_all add: Duration_def)
  moreover have "decodeTokenSessionID token = Some uuid"
    using assms(4-6) idp_keys.decode_encode [OF keys] by (auto simp: MakeSession_def generateToken_def Let_def)
  ultimately show ?thesis
    using idp_keys.alive_access_all [OF keys assms(2) _ _ assms(3)]
      idp_keys.created_alive [OF keys assms(2,4,7,8)] assms(11) by blast
qed

text \<open>C18: a session that was ended stays ended: after its deletion, whatever calls follow in time order,
  late writes of calls that had loaded it before included, neither its token nor its ID resolves again,
  unless a session is created anew under that ID.\<close>

theorem ended_session_stays_ended:
  assumes "session_keys (e_redis env) view hview" "IdpStore_Delete env t0 s w = (Ok (), w0)"
    and "idp_history env (\<lambda>i. i \<noteq> ID s) t0 w0 t w1" "t \<le> now" "decodeTokenSessionID token = Some (ID s)"
  shows "fst (GetByToken env cfg now token w1) \<noteq> Ok s' \<and> fst (AccessWithToken env cfg now token ev w1) \<noteq> Ok s'
    \<and> fst (AccessWithID env cfg now (ID s) ev w1) \<noteq> Ok s'"
proof -
  from assms(1) have keys: "idp_keys env view hview" by (simp add: idp_keys_def)
  have "view now (w_redis w1) (sessionKey (e_AppID env) (ID s)) = None"
    by (rule idp_keys.history_gone [OF keys assms(3) idp_keys.Delete_Ok_gone [OF keys assms(2)] assms(4)])
  then show ?thesis using idp_keys.gone_GetByToken [OF keys assms(5)] by blast
qed

text \<open>The authentication methods are lost in the store: the claims of a stored session come back
  untyped, so the \<^verbatim>\<open>[]string\<close> assertion of \<^verbatim>\<open>GetAMR\<close> fails for every session that was loaded, and
  so does the session that a re-authentication with any methods leaves behind.\<close>

theorem stored_session_forgets_amr:
  assumes "session_keys (e_redis env) view hview" "no_sessions env view t0 (w_redis w0)"
    and "idp_history env P t0 w0 t w" "t \<le> now"
    and "Provider_Reauthenticate env cfg now sid amr w = (Ok (), w1)" "now \<le> later"
    and "fst (Provider_Get env cfg later sid w1) = Ok s"
  shows "ID s = sid \<and> ai_AMR (Idp_GetAuthenticationInfo s) = []"
proof -
  from assms(1) have keys: "idp_keys env view hview" by (simp add: idp_keys_def)
  have "idp_history env P t0 w0 now w1"
    by (rule idp_history.step [OF assms(3,4) idp_call.reauthenticate [OF assms(5)]])
  from idp_keys.history_stored_ok [OF keys this assms(2,6)]
  have ok: "stored_ok env view later (w_redis w1)" .
  from assms(7) obtain d where "fst (IdpStore_Get env later sid w1) = Ok d" "s = setSessionExpireAtForResolvedSession cfg d"
    by (cases "Provider_Get env cfg later sid w1") (auto simp: Provider_Get_def bindp_Ok wrapped_Ok run_simps)
  with idp_keys.Get_typed [OF keys ok] have "ID s = sid" "GetAMR (sess_Attrs s) = None" by (metis prod.collapse set_expiry_simps(1,2))+
  then show ?thesis by (simp add: Idp_GetAuthenticationInfo_def)
qed

section \<open>The provider on a store\<close>

definition quiet_side :: "'x side_effects" where
  "quiet_side = \<lparr>x_XADD = (\<lambda>k ev x. (Inr (), x)), x_EXPIREAT = (\<lambda>k e x. (Inr (), x)),
     x_DEL = (\<lambda>k x. (Inr (), x)), x_TrackActiveUser = (\<lambda>u x. (Inr (), x))\<rparr>"

definition ss_env :: "string \<Rightarrow> string \<Rightarrow> string \<Rightarrow> (string \<Rightarrow> string) \<Rightarrow> ('v, 'v sstore, unit, 'x) sess_env" where
  "ss_env app ip ua hash = \<lparr>e_redis = ss_redis, e_lock = (\<lambda>n m. (Inr (), m)), e_unlock = (\<lambda>n m. m),
     e_side = quiet_side, e_AppID = app, e_RemoteIP = ip, e_UserAgent = ua, e_hash = hash\<rparr>"

lemma ss_env_simps [simp]:
  "e_redis (ss_env app ip ua hash) = ss_redis" "e_AppID (ss_env app ip ua hash) = app"
  "e_hash (ss_env app ip ua hash) = hash"
  by (simp_all add: ss_env_def)

interpretation idps: idp_keys "ss_env app ip ua hash" ss_view ss_hview for app ip ua hash
  by (simp add: idp_keys_def ss.session_keys_axioms)

lemma reliable_ss_env: "reliable (ss_env app ip ua hash)"
  by (auto simp: reliable_def ss_env_def quiet_side_def ss_defs split: option.splits)

definition ss_empty :: "'v sstore" where
  "ss_empty = \<lparr>ss_strings = Map.empty, ss_hashes = (\<lambda>_. [])\<rparr>"

definition demo_sess_env :: "(idp_value, idp_value sstore, unit, unit) sess_env" where
  "demo_sess_env = ss_env ''app'' ''1.2.3.4'' ''UA'' (\<lambda>s. ''h'' @ s)"

definition demo_sess_cfg :: SessionConfig where
  "demo_sess_cfg = \<lparr>Lifetime = 1000, IdleTimeoutEnabled = True, IdleTimeout = 10\<rparr>"

definition demo_world0 :: "(idp_value sstore, unit, unit) sess_world" where
  "demo_world0 = \<lparr>w_redis = ss_empty, w_mutex = (), w_side = ()\<rparr>"

definition demo_session :: "IDPSession \<times> string" where
  "demo_session = MakeSession demo_sess_env demo_sess_cfg 0 ''s1'' ''rnd'' (SetAMR [''pwd''] (NewAttrs ''u1''))"

definition demo_world1 :: "(idp_value sstore, unit, unit) sess_world" where
  "demo_world1 = snd (Provider_Create demo_sess_env demo_sess_cfg 0 (fst demo_session) demo_world0)"

definition demo_event :: "time \<Rightarrow> access_event" where
  "demo_event t = \<lparr>Timestamp = t, ev_RemoteIP = ''1.2.3.4'', ev_UserAgent = ''UA''\<rparr>"

lemma demo_created: "Provider_Create demo_sess_env demo_sess_cfg 0 (fst demo_session) demo_world0 = (Ok (), demo_world1)"
proof -
  have "fst (Provider_Create demo_sess_env demo_sess_cfg 0 (fst demo_session) demo_world0) = Ok ()" by code_simp
  then show ?thesis unfolding demo_world1_def by (metis prod.collapse)
qed

lemma demo_keys_laws: "session_keys (e_redis demo_sess_env) ss_view ss_hview"
  by (simp add: demo_sess_env_def ss.session_keys_axioms)

lemma demo_no_sessions: "no_sessions demo_sess_env ss_view t (w_redis demo_world0)"
  by (simp add: no_sessions_def demo_world0_def ss_empty_def ss_view_def)

lemma demo_history: "idp_history demo_sess_env (\<lambda>_. True) 0 demo_world0 0 demo_world1"
  by (rule idp_history.step [OF idp_history.start order_refl idp_call.create [OF _ demo_created]]) simp

theorem session_token_sound_witness:
  "\<exists>s. fst (AccessWithToken demo_sess_env demo_sess_cfg 5000000000 ''s1.rnd'' (demo_event 5000000000) demo_world1) = Ok s
   \<and> ID s = ''s1'' \<and> UserID (sess_Attrs s) = ''u1''"
proof -
  let ?r = "fst (AccessWithToken demo_sess_env demo_sess_cfg 5000000000 ''s1.rnd'' (demo_event 5000000000) demo_world1)"
  have "(case ?r of Ok s \<Rightarrow> UserID (sess_Attrs s) = ''u1'' | _ \<Rightarrow> False)" by code_simp
  then obtain s where s: "?r = Ok s" "UserID (sess_Attrs s) = ''u1''" by (auto split: outcome.splits)
  have "decodeTokenSessionID ''s1.rnd'' = Some ''s1''" by code_simp
  with session_token_sound [OF demo_keys_laws demo_no_sessions demo_history, of 5000000000 demo_sess_cfg "''s1.rnd''" s
      "demo_event 5000000000"] s show ?thesis by auto
qed

theorem session_in_use_stays_alive_witness:
  "list_all (\<lambda>res. \<exists>s'. res = Ok s' \<and> ID s' = ''s1'')
     (access_all demo_sess_env demo_sess_cfg ''s1.rnd'' [demo_event 9000000000, demo_event 18000000000] demo_world1)"
proof (rule session_in_use_stays_alive [OF demo_keys_laws])
  show "reliable demo_sess_env" unfolding demo_sess_env_def by (rule reliable_ss_env)
  show "MakeSession demo_sess_env demo_sess_cfg 0 ''s1'' ''rnd'' (SetAMR [''pwd''] (NewAttrs ''u1'')) = (fst demo_session, ''s1.rnd'')"
    by (simp add: demo_session_def MakeSession_def generateToken_def encodeToken_def Let_def)
  show "e_hash demo_sess_env ''s1.rnd'' \<noteq> ''''" by (simp add: demo_sess_env_def)
  show "ss_view 0 (w_redis demo_world0) (sessionKey (e_AppID demo_sess_env) ''s1'') = None"
    by (simp add: demo_world0_def ss_empty_def ss_view_def)
  show "Provider_Create demo_sess_env demo_sess_cfg 0 (fst demo_session) demo_world0 = (Ok (), demo_world1)"
    by (rule demo_created)
  show "in_time demo_sess_cfg 0 0 [demo_event 9000000000, demo_event 18000000000]" by code_simp
qed (simp_all add: demo_sess_cfg_def)

theorem ended_session_stays_ended_witness:
  "\<not> is_ok (fst (AccessWithToken demo_sess_env demo_sess_cfg 3 ''s1.rnd'' (demo_event 3)
     (snd (IdpStore_Update demo_sess_env 2 (fst demo_session) 1000
       (snd (IdpStore_Delete demo_sess_env 1 (fst demo_session) demo_world1))))))"
proof -
  let ?w0 = "snd (IdpStore_Delete demo_sess_env 1 (fst demo_session) demo_world1)"
  let ?w1 = "snd (IdpStore_Update demo_sess_env 2 (fst demo_session) 1000 ?w0)"
  have "fst (IdpStore_Delete demo_sess_env 1 (fst demo_session) demo_world1) = Ok ()" by code_simp
  then have del: "IdpStore_Delete demo_sess_env 1 (fst demo_session) demo_world1 = (Ok (), ?w0)" by (metis prod.collapse)
  have upd: "idp_history demo_sess_env (\<lambda>i. i \<noteq> ID (fst demo_session)) 1 ?w0 2 ?w1"
    by (rule idp_history.step [OF idp_history.start _ idp_call.update]) (simp, rule prod.collapse [symmetric])
  have "decodeTokenSessionID ''s1.rnd'' = Some (ID (fst demo_session))" by code_simp
  from ended_session_stays_ended [OF demo_keys_laws del upd _ this, of 3] show ?thesis by (simp add: is_ok_conv)
qed

theorem stored_session_forgets_amr_witness:
  "\<exists>s. fst (Provider_Get demo_sess_env demo_sess_cfg 2 ''s1''
      (snd (Provider_Reauthenticate demo_sess_env demo_sess_cfg 1 ''s1'' [''otp''] demo_world1))) = Ok s
    \<and> ai_AMR (Idp_GetAuthenticationInfo s) = []"
proof -
  let ?w1 = "snd (Provider_Reauthenticate demo_sess_env demo_sess_cfg 1 ''s1'' [''otp''] demo_world1)"
  have "fst (Provider_Reauthenticate demo_sess_env demo_sess_cfg 1 ''s1'' [''otp''] demo_world1) = Ok ()" by code_simp
  then have r: "Provider_Reauthenticate demo_sess_env demo_sess_cfg 1 ''s1'' [''otp''] demo_world1 = (Ok (), ?w1)"
    by (metis prod.collapse)
  have "is_ok (fst (Provider_Get demo_sess_env demo_sess_cfg 2 ''s1'' ?w1))" by code_simp
  then obtain s where s: "fst (Provider_Get demo_sess_env demo_sess_cfg 2 ''s1'' ?w1) = Ok s" using is_okD by blast
  with stored_session_forgets_amr [OF demo_keys_laws demo_no_sessions demo_history _ r _ s] show ?thesis by simp
qed

end
