(* ===== verification/Sid.thy ===== *)
theory Sid imports IdpSession begin

text \<open>
  Session IDs of ID tokens: \<^verbatim>\<open>sid.go\<close> of \<^verbatim>\<open>pkg/lib/oauth\<close>, with the two parts of Go's standard library
  it uses, raw URL base64 and UTF-8 validity. A string is a list of bytes.
\<close>

section \<open>Base64\<close>

definition base64_alphabet :: string where
  "base64_alphabet = ''ABCDEFGHIJKLMNOPQRSTUVWXYZabcdefghijklmnopqrstuvwxyz0123456789-_''"

text \<open>The bits of a number of \<open>n\<close> bits, the highest first, and back.\<close>

fun bits_of :: "nat \<Rightarrow> nat \<Rightarrow> bool list" where
  "bits_of 0 x = []"
| "bits_of (Suc n) x = bits_of n (x div 2) @ [x mod 2 = 1]"

definition of_bits :: "bool list \<Rightarrow> nat" where
  "of_bits bs = foldl (\<lambda>x b. 2 * x + (if b then 1 else 0)) 0 bs"

text \<open>Groups of six bits, the last one padded with zeros, and groups of eight, what is left dropped.\<close>

fun groups6 :: "bool list \<Rightarrow> bool list list" where
  "groups6 (a # b # c # d # e # f # bs) = [a, b, c, d, e, f] # groups6 bs"
| "groups6 [] = []"
| "groups6 bs = [take 6 (bs @ replicate 6 False)]"

fun groups8 :: "bool list \<Rightarrow> bool list list" where
  "groups8 (a # b # c # d # e # f # g # h # bs) = [a, b, c, d, e, f, g, h] # groups8 bs"
| "groups8 bs = []"

text \<open>The bits of a byte.\<close>

definition char_bits :: "char \<Rightarrow> bool list" where
  "char_bits c = [digit7 c, digit6 c, digit5 c, digit4 c, digit3 c, digit2 c, digit1 c, digit0 c]"

definition bits_char :: "bool list \<Rightarrow> char" where
  "bits_char bs = (case bs of [b7, b6, b5, b4, b3, b2, b1, b0] \<Rightarrow> Char b0 b1 b2 b3 b4 b5 b6 b7 | _ \<Rightarrow> CHR 0x00)"

lemma bits_char_bits [simp]: "bits_char (char_bits c) = c" "length (char_bits c) = 8"
  by (simp_all add: bits_char_def char_bits_def)

definition base64_encode :: "string \<Rightarrow> string" where
  "base64_encode s = map (\<lambda>g. base64_alphabet ! of_bits g) (groups6 (concat (map char_bits s)))"

text \<open>\<^verbatim>\<open>DecodeString\<close> skips line breaks; the length tells an impossible last group.\<close>

fun index_of :: "'a \<Rightarrow> 'a list \<Rightarrow> nat option" where
  "index_of x [] = None"
| "index_of x (y # ys) = (if x = y then Some 0 else map_option Suc (index_of x ys))"

fun base64_values :: "string \<Rightarrow> nat list option" where
  "base64_values [] = Some []"
| "base64_values (c # cs) = (case index_of c base64_alphabet of None \<Rightarrow> None
     | Some v \<Rightarrow> map_option (\<lambda>vs. v # vs) (base64_values cs))"

definition base64_decode :: "string \<Rightarrow> string option" where
  "base64_decode s = (case base64_values (filter (\<lambda>c. c \<noteq> CHR 0x0D \<and> c \<noteq> CHR 0x0A) s) of
     None \<Rightarrow> None
   | Some vs \<Rightarrow> if length vs mod 4 = 1 then None
       else Some (map bits_char (groups8 (concat (map (bits_of 6) vs)))))"

section \<open>UTF-8\<close>

definition continuation :: "nat \<Rightarrow> bool" where "continuation b \<longleftrightarrow> 0x80 \<le> b \<and> b \<le> 0xBF"

fun utf8_valid :: "nat list \<Rightarrow> bool" where
  "utf8_valid [] = True"
| "utf8_valid (a # bs) =
     (if a < 0x80 then utf8_valid bs
      else if 0xC2 \<le> a \<and> a \<le> 0xDF then (case bs of b # bs \<Rightarrow> continuation b \<and> utf8_valid bs | _ \<Rightarrow> False)
      else if 0xE0 \<le> a \<and> a \<le> 0xEF then (case bs of b # c # bs \<Rightarrow>
          (if a = 0xE0 then 0xA0 \<le> b \<and> b \<le> 0xBF else if a = 0xED then 0x80 \<le> b \<and> b \<le> 0x9F else continuation b) \<and>
          continuation c \<and> utf8_valid bs | _ \<Rightarrow> False)
      else if 0xF0 \<le> a \<and> a \<le> 0xF4 then (case bs of b # c # d # bs \<Rightarrow>
          (if a = 0xF0 then 0x90 \<le> b \<and> b \<le> 0xBF else if a = 0xF4 then 0x80 \<le> b \<and> b \<le> 0x8F else continuation b) \<and>
          continuation c \<and> continuation d \<and> utf8_valid bs | _ \<Rightarrow> False)
      else False)"

definition valid_string :: "string \<Rightarrow> bool" where "valid_string s \<longleftrightarrow> utf8_valid (map of_char s)"

section \<open>Session IDs\<close>

definition session_type_string :: "session_type \<Rightarrow> string" where
  "session_type_string t = (case t of TypeIdentityProvider \<Rightarrow> ''idp'' | TypeOfflineGrant \<Rightarrow> ''offline_grant'')"

definition EncodeSIDByRawValues :: "session_type \<Rightarrow> string \<Rightarrow> string" where
  "EncodeSIDByRawValues sessionType sessionID = base64_encode (session_type_string sessionType @ '':'' @ sessionID)"

definition EncodeSID :: "session_base \<Rightarrow> string" where
  "EncodeSID s = EncodeSIDByRawValues (SessionType s) (SessionID s)"

text \<open>\<^verbatim>\<open>strings.Split\<close> with a separator of one character.\<close>

fun split_char :: "char \<Rightarrow> string \<Rightarrow> string list" where
  "split_char sep [] = [[]]"
| "split_char sep (c # cs) = (if c = sep then [] # split_char sep cs
     else (case split_char sep cs of [] \<Rightarrow> [[c]] | p # ps \<Rightarrow> (c # p) # ps))"

definition DecodeSID :: "string \<Rightarrow> (session_type \<times> string) option" where
  "DecodeSID sid = (case base64_decode sid of
     None \<Rightarrow> None
   | Some str \<Rightarrow> if \<not> valid_string str then None else (case split_char (CHR '':'') str of
       [typStr, sessionID] \<Rightarrow>
         if typStr = session_type_string TypeIdentityProvider then Some (TypeIdentityProvider, sessionID)
         else if typStr = session_type_string TypeOfflineGrant then Some (TypeOfflineGrant, sessionID)
         else None
     | _ \<Rightarrow> None))"

section \<open>Round trip\<close>

lemma length_bits_of [simp]: "length (bits_of n x) = n"
  by (induction n arbitrary: x) auto

lemma of_bits_snoc [simp]: "of_bits (bs @ [b]) = 2 * of_bits bs + (if b then 1 else 0)"
  by (simp add: of_bits_def)

lemma bits_of_of_bits: "bits_of (length bs) (of_bits bs) = bs"
  by (induction bs rule: rev_induct) (auto simp: of_bits_def)

lemma of_bits_less: "of_bits bs < 2 ^ length bs"
  by (induction bs rule: rev_induct) (auto simp: of_bits_def)

lemma groups6_shape:
  shows "g \<in> set (groups6 bs) \<Longrightarrow> length g = 6" and "\<exists>k < 6. concat (groups6 bs) = bs @ replicate k False"
proof -
  have zeros: "(\<exists>k < 6. xs = replicate k False) \<longleftrightarrow> length xs < 6 \<and> (\<forall>x \<in> set xs. x = False)" for xs
    using replicate_length_same [of xs False] by (auto intro: exI [of _ "length xs"])
  show "g \<in> set (groups6 bs) \<Longrightarrow> length g = 6"
    by (induction bs rule: groups6.induct) auto
  show "\<exists>k < 6. concat (groups6 bs) = bs @ replicate k False"
  proof (induction bs rule: groups6.induct)
    case 2
    show ?case by (intro exI [of _ 0]) simp
  qed (simp_all add: zeros)
qed

lemma groups8_concat:
  assumes "\<And>g. g \<in> set gs \<Longrightarrow> length g = 8" "length rest < 8"
  shows "groups8 (concat gs @ rest) = gs"
  using assms
proof (induction gs)
  case Nil
  then show ?case by (cases rest rule: groups8.cases) auto
next
  case (Cons g gs)
  then have "length g = Suc (Suc (Suc (Suc (Suc (Suc (Suc (Suc 0)))))))" by simp
  then obtain a b c d e f h i where "g = [a, b, c, d, e, f, h, i]" by (auto simp: length_Suc_conv)
  with Cons show ?case by simp
qed

lemma alphabet_facts: "length base64_alphabet = 64" "distinct base64_alphabet"
  "CHR 0x0D \<notin> set base64_alphabet" "CHR 0x0A \<notin> set base64_alphabet"
  by (simp_all add: base64_alphabet_def)

lemma index_of_nth: "distinct xs \<Longrightarrow> i < length xs \<Longrightarrow> index_of (xs ! i) xs = Some i"
proof (induction xs arbitrary: i)
  case (Cons x xs)
  then show ?case by (cases i) auto
qed simp

lemma base64_values_encode:
  "(\<And>v. v \<in> set vs \<Longrightarrow> v < 64) \<Longrightarrow> base64_values (map (\<lambda>v. base64_alphabet ! v) vs) = Some vs"
  by (induction vs) (simp_all add: index_of_nth alphabet_facts)

lemma no_single_group:
  fixes L n k :: nat
  assumes "6 * L = 8 * n + k" "k < 6" shows "L mod 4 \<noteq> 1"
proof
  assume "L mod 4 = 1"
  then have "L = 4 * (L div 4) + 1" using div_mult_mod_eq [of L 4] by simp
  then have "6 * L = 8 * (3 * (L div 4)) + 6" by simp
  with assms(1) have "(8 * n + k) mod 8 = (8 * (3 * (L div 4)) + 6) mod 8" by simp
  then have "k mod 8 = 6 mod 8" by (simp only: mod_mult_self4)
  with assms(2) show False by simp
qed

lemma base64_roundtrip: "base64_decode (base64_encode s) = Some s"
proof -
  let ?bits = "concat (map char_bits s)"
  let ?gs = "groups6 ?bits"
  let ?vs = "map of_bits ?gs"
  have len: "length g = 6" if "g \<in> set ?gs" for g using groups6_shape(1) that by blast
  obtain k where k: "k < 6" "concat ?gs = ?bits @ replicate k False" using groups6_shape(2) [of ?bits] by auto
  have small: "v < 64" if v: "v \<in> set ?vs" for v
  proof -
    from v obtain g where "g \<in> set ?gs" "v = of_bits g" by auto
    with of_bits_less [of g] len show ?thesis by simp
  qed
  have enc: "base64_encode s = map (\<lambda>v. base64_alphabet ! v) ?vs" by (simp add: base64_encode_def)
  have in_alphabet: "c \<in> set base64_alphabet" if "c \<in> set (base64_encode s)" for c
  proof -
    from that enc obtain v where "v \<in> set ?vs" "c = base64_alphabet ! v" by auto
    with small [of v] show ?thesis by (simp add: alphabet_facts(1))
  qed
  have "filter (\<lambda>c. c \<noteq> CHR 0x0D \<and> c \<noteq> CHR 0x0A) (base64_encode s) = base64_encode s"
    using in_alphabet alphabet_facts(3,4) by (intro filter_True) blast
  moreover have "base64_values (base64_encode s) = Some ?vs" unfolding enc by (rule base64_values_encode) (rule small)
  ultimately have vals: "base64_values (filter (\<lambda>c. c \<noteq> CHR 0x0D \<and> c \<noteq> CHR 0x0A) (base64_encode s)) = Some ?vs" by simp
  have "bits_of 6 (of_bits g) = g" if "g \<in> set ?gs" for g using bits_of_of_bits [of g] len [OF that] by simp
  then have "concat (map (bits_of 6) ?vs) = concat ?gs" by (auto intro!: arg_cong [of _ _ concat] map_idI)
  then have bits: "concat (map (bits_of 6) ?vs) = ?bits @ replicate k False" using k by simp
  have "6 * length ?vs = 8 * length s + k"
  proof -
    have "length (concat ?gs) = 6 * length ?gs" using len by (simp add: length_concat sum_list_triv cong: map_cong)
    moreover have "length ?bits = 8 * length s" by (simp add: length_concat comp_def sum_list_triv)
    ultimately show ?thesis using k(2) by simp
  qed
  then have "length ?vs mod 4 \<noteq> 1" using k(1) by (rule no_single_group)
  moreover have "map bits_char (groups8 (?bits @ replicate k False)) = s"
  proof -
    have "groups8 (?bits @ replicate k False) = map char_bits s"
      using k(1) by (intro groups8_concat) auto
    then show ?thesis by (simp add: comp_def)
  qed
  ultimately show ?thesis using vals bits by (simp add: base64_decode_def)
qed

lemma split_char_free: "sep \<notin> set s \<Longrightarrow> split_char sep s = [s]"
  by (induction s) auto

lemma split_char_two: "sep \<notin> set a \<Longrightarrow> sep \<notin> set b \<Longrightarrow> split_char sep (a @ sep # b) = [a, b]"
  by (induction a) (auto simp: split_char_free)

lemma utf8_ascii: "(\<And>b. b \<in> set as \<Longrightarrow> b < 0x80) \<Longrightarrow> utf8_valid (as @ bs) = utf8_valid bs"
  by (induction as) auto

text \<open>A session ID survives its encoding: what an ID token carries decodes to the type and the ID of the
  session it was made from, for every ID that is valid UTF-8 and has no colon, and to no other session.\<close>

theorem sid_roundtrip:
  assumes "valid_string sid" "CHR '':'' \<notin> set sid"
  shows "DecodeSID (EncodeSIDByRawValues typ sid) = Some (typ, sid)"
proof -
  have "valid_string (session_type_string typ @ '':'' @ sid)"
    using assms(1) utf8_ascii [of "map of_char (session_type_string typ @ '':'')" "map of_char sid"]
    by (auto simp: valid_string_def session_type_string_def split: session_type.splits)
  moreover have "split_char (CHR '':'') (session_type_string typ @ '':'' @ sid) = [session_type_string typ, sid]"
    using split_char_two [of "CHR '':''" "session_type_string typ" sid] assms(2)
    by (simp add: session_type_string_def split: session_type.splits)
  ultimately show ?thesis
    by (simp add: DecodeSID_def EncodeSIDByRawValues_def base64_roundtrip)
      (simp add: session_type_string_def split: session_type.splits)
qed

theorem sid_roundtrip_witness: "DecodeSID (EncodeSIDByRawValues TypeOfflineGrant ''g1'') = Some (TypeOfflineGrant, ''g1'')"
  by (rule sid_roundtrip) (code_simp, simp)

end
