(* ===== verification/Pagination.thy ===== *)
theory Pagination imports Sid Proc "HOL-Library.Word" begin

text \<open>
  Pages of a list: \<^verbatim>\<open>pkg/util/graphqlutil/page.go\<close> and \<^verbatim>\<open>pkg/lib/infra/db/pagination.go\<close>. The
  admin API asks for the first or the last rows after or before a cursor; the store turns that into
  \<^verbatim>\<open>LIMIT\<close> and \<^verbatim>\<open>OFFSET\<close>. Offsets and limits are \<^verbatim>\<open>uint64\<close>; what is subtracted below zero wraps.
\<close>

section \<open>Numbers in text\<close>

text \<open>\<^verbatim>\<open>strconv.FormatUint\<close> and \<^verbatim>\<open>strconv.ParseUint\<close> in base 10 with 64 bits.\<close>

definition digit_char :: "nat \<Rightarrow> char" where
  "digit_char d = char_of (48 + d)"

definition char_digit :: "char \<Rightarrow> nat option" where
  "char_digit c = (let n = of_char c in if 48 \<le> n \<and> n \<le> 57 then Some (n - 48) else None)"

fun decimal :: "nat \<Rightarrow> string" where
  "decimal n = (if n < 10 then [digit_char n] else decimal (n div 10) @ [digit_char (n mod 10)])"

declare decimal.simps [simp del]

definition FormatUint :: "64 word \<Rightarrow> string" where
  "FormatUint w = decimal (unat w)"

fun parse_digits :: "nat \<Rightarrow> string \<Rightarrow> nat option" where
  "parse_digits n [] = Some n"
| "parse_digits n (c # cs) = (case char_digit c of None \<Rightarrow> None | Some d \<Rightarrow> parse_digits (10 * n + d) cs)"

definition ParseUint :: "string \<Rightarrow> 64 word option" where
  "ParseUint s = (if s = '''' then None else case parse_digits 0 s of
     None \<Rightarrow> None | Some n \<Rightarrow> if n < 2 ^ 64 then Some (word_of_nat n) else None)"

section \<open>Cursors\<close>

datatype page_error = InvalidCursor | InvalidQuery

definition pageCursorPrefix :: string where "pageCursorPrefix = ''offset:''"

definition NewFromPageCursor :: "string \<Rightarrow> (page_error, 64 word option) outcome" where
  "NewFromPageCursor k = (if k = '''' then Ok None else case base64_decode k of
     None \<Rightarrow> Err InvalidCursor
   | Some data \<Rightarrow>
       if take (length pageCursorPrefix) data \<noteq> pageCursorPrefix then Err InvalidCursor
       else case ParseUint (drop (length pageCursorPrefix) data) of
         None \<Rightarrow> Err InvalidCursor
       | Some offset \<Rightarrow> Ok (Some offset))"

definition ToPageCursor :: "64 word option \<Rightarrow> string" where
  "ToPageCursor k = (case k of None \<Rightarrow> '''' | Some offset \<Rightarrow> base64_encode (pageCursorPrefix @ FormatUint offset))"

section \<open>Page arguments\<close>

record PageArgs =
  pa_Before :: string
  pa_After :: string
  pa_First :: "64 word option"
  pa_Last :: "64 word option"

definition DEFAULT_MAX_PAGE_SIZE :: "64 word" where "DEFAULT_MAX_PAGE_SIZE = 100"

text \<open>\<^verbatim>\<open>relay.ConnectionArguments\<close> has \<^verbatim>\<open>First\<close> and \<^verbatim>\<open>Last\<close> below zero when they are absent.\<close>

definition NewPageArgsWithMaxPageSize :: "string \<Rightarrow> string \<Rightarrow> int \<Rightarrow> int \<Rightarrow> 64 word \<Rightarrow> PageArgs" where
  "NewPageArgsWithMaxPageSize before after first final maxPageSize = (let
     capped = (\<lambda>n. if 0 \<le> n then let value = word_of_int n in Some (if value > maxPageSize then maxPageSize else value) else None);
     f = capped first;
     l = capped final;
     f = (if f = None \<and> l = None then Some maxPageSize else f)
   in \<lparr>pa_Before = before, pa_After = after, pa_First = f, pa_Last = l\<rparr>)"

definition NewPageArgs :: "string \<Rightarrow> string \<Rightarrow> int \<Rightarrow> int \<Rightarrow> PageArgs" where
  "NewPageArgs before after first final = NewPageArgsWithMaxPageSize before after first final DEFAULT_MAX_PAGE_SIZE"

text \<open>\<open>HasPreviousPage\<close> and \<open>HasNextPage\<close> of \<^verbatim>\<open>NewPageResult\<close>.\<close>

definition NewPageResult :: "PageArgs \<Rightarrow> nat \<Rightarrow> bool \<times> bool" where
  "NewPageResult args itemsLen = (case pa_First args of
     Some limit \<Rightarrow> (True, \<not> word_of_nat itemsLen < limit)
   | None \<Rightarrow> (case pa_Last args of
       Some limit \<Rightarrow> (\<not> word_of_nat itemsLen < limit, True)
     | None \<Rightarrow> (True, True)))"

section \<open>Limits and offsets\<close>

record page_query =
  pq_Limit :: "64 word option"
  pq_Offset :: "64 word option"

definition ApplyPageArgs :: "PageArgs \<Rightarrow> (page_error, page_query \<times> 64 word) outcome" where
  "ApplyPageArgs pageArgs = (let first = pa_First pageArgs; final = pa_Last pageArgs in
     bind_oc (NewFromPageCursor (pa_After pageArgs)) (\<lambda>after.
     bind_oc (NewFromPageCursor (pa_Before pageArgs)) (\<lambda>before.
     case (after, before, first, final) of
       (None, None, _, None) \<Rightarrow> Ok (\<lparr>pq_Limit = first, pq_Offset = None\<rparr>, 0)
     | (Some a, None, Some n, None) \<Rightarrow> (let offset = a + 1 in Ok (\<lparr>pq_Limit = Some n, pq_Offset = Some offset\<rparr>, offset))
     | (Some a, Some b, _, _) \<Rightarrow> (let
         offset = a + 1;
         limit = b - offset;
         limit = (case first of Some n \<Rightarrow> if n < limit then n else limit | None \<Rightarrow> limit);
         (offset, limit) = (case final of
             Some n \<Rightarrow> if n < limit then (let delta = limit - n in (offset + delta, limit - delta)) else (offset, limit)
           | None \<Rightarrow> (offset, limit))
         in Ok (\<lparr>pq_Limit = Some limit, pq_Offset = Some offset\<rparr>, offset))
     | _ \<Rightarrow> Err InvalidQuery)))"

text \<open>What PostgreSQL answers: \<^verbatim>\<open>LIMIT\<close> and \<^verbatim>\<open>OFFSET\<close> are signed, a larger number is an error.\<close>

definition bigint :: "64 word option \<Rightarrow> bool" where
  "bigint w = (case w of None \<Rightarrow> True | Some n \<Rightarrow> unat n < 2 ^ 63)"

definition run_page :: "page_query \<Rightarrow> 'a list \<Rightarrow> 'a list option" where
  "run_page q rows = (if \<not> bigint (pq_Limit q) \<or> \<not> bigint (pq_Offset q) then None else (let
     rows = (case pq_Offset q of None \<Rightarrow> rows | Some n \<Rightarrow> drop (unat n) rows)
     in Some (case pq_Limit q of None \<Rightarrow> rows | Some n \<Rightarrow> take (unat n) rows)))"

text \<open>The cursor of the row at a place of a page.\<close>

definition row_cursor :: "64 word \<Rightarrow> nat \<Rightarrow> string" where
  "row_cursor offset i = ToPageCursor (Some (offset + word_of_nat i))"

section \<open>Cursors survive\<close>

lemma char_digit_digit [simp]: "d < 10 \<Longrightarrow> char_digit (digit_char d) = Some d"
  by (simp add: char_digit_def digit_char_def Let_def)

lemma parse_digits_append:
  "parse_digits n (xs @ [c]) = (case parse_digits n xs of None \<Rightarrow> None
     | Some m \<Rightarrow> map_option (\<lambda>d. 10 * m + d) (char_digit c))"
  by (induction xs arbitrary: n) (auto split: option.splits)

lemma parse_decimal: "parse_digits 0 (decimal n) = Some n"
proof (induction n rule: less_induct)
  case (less n)
  show ?case
  proof (cases "n < 10")
    case True
    then show ?thesis by (subst decimal.simps) simp
  next
    case False
    with less [of "n div 10"] show ?thesis
      by (subst decimal.simps) (simp add: parse_digits_append)
  qed
qed

lemma decimal_nonempty: "decimal n \<noteq> ''''"
  by (subst decimal.simps) simp

lemma ParseUint_FormatUint [simp]: "ParseUint (FormatUint w) = Some w"
  using unsigned_less [of w, where ?'a = nat] by (simp add: ParseUint_def FormatUint_def parse_decimal decimal_nonempty)

lemma groups6_nonempty: "bs \<noteq> [] \<Longrightarrow> groups6 bs \<noteq> []"
  by (cases bs rule: groups6.cases) auto

lemma cursor_nonempty: "ToPageCursor (Some w) \<noteq> ''''"
proof -
  have "concat (map char_bits (pageCursorPrefix @ FormatUint w)) \<noteq> []"
    by (simp add: pageCursorPrefix_def char_bits_def)
  from groups6_nonempty [OF this] show ?thesis
    by (simp add: ToPageCursor_def base64_encode_def)
qed

lemma cursor_roundtrip [simp]: "NewFromPageCursor (ToPageCursor k) = Ok k"
proof (cases k)
  case None
  then show ?thesis by (simp add: ToPageCursor_def NewFromPageCursor_def)
next
  case (Some w)
  with cursor_nonempty [of w] show ?thesis
    by (simp add: NewFromPageCursor_def) (simp add: ToPageCursor_def base64_roundtrip)
qed

section \<open>Fetching all pages\<close>

text \<open>One request for the next \<open>n\<close> rows: the rows, whether there is a next page, the cursor of the last row.\<close>

definition fetch :: "64 word \<Rightarrow> string \<Rightarrow> 'a list \<Rightarrow> ('a list \<times> bool \<times> string) option" where
  "fetch n after rows = (let args = \<lparr>pa_Before = '''', pa_After = after, pa_First = Some n, pa_Last = None\<rparr> in
     case ApplyPageArgs args of
       Ok (q, offset) \<Rightarrow> (case run_page q rows of
         None \<Rightarrow> None
       | Some items \<Rightarrow> Some (items, snd (NewPageResult args (length items)), row_cursor offset (length items - 1)))
     | _ \<Rightarrow> None)"

text \<open>A client that asks for the next page as long as there is one, at most \<open>k\<close> times.\<close>

fun all_pages :: "nat \<Rightarrow> 64 word \<Rightarrow> string \<Rightarrow> 'a list \<Rightarrow> 'a list list option" where
  "all_pages 0 n after rows = None"
| "all_pages (Suc k) n after rows = (case fetch n after rows of
     None \<Rightarrow> None
   | Some (items, next, cursor) \<Rightarrow>
       if next then map_option (\<lambda>pages. items # pages) (all_pages k n cursor rows) else Some [items])"

definition cursor_at :: "nat \<Rightarrow> string" where
  "cursor_at p = (if p = 0 then '''' else ToPageCursor (Some (word_of_nat (p - 1))))"

lemma unat_small: "m < 2 ^ 64 \<Longrightarrow> unat (word_of_nat m :: 64 word) = m"
  by (simp add: unsigned_of_nat take_bit_nat_eq_self)

lemma no_cursor [simp]: "NewFromPageCursor '''' = Ok None"
  by (simp add: NewFromPageCursor_def)

lemma fetch_at:
  assumes "0 < n" "unat n < 2 ^ 63" "length rows < 2 ^ 63" "p \<le> length rows"
  shows "\<exists>cursor. fetch n (cursor_at p) rows = Some (take (unat n) (drop p rows), unat n \<le> length rows - p, cursor)
    \<and> (unat n \<le> length rows - p \<longrightarrow> cursor = cursor_at (p + unat n))"
proof -
  from assms(1) have n: "0 < unat n" by (simp add: word_gt_0 unat_gt_0)
  have len: "\<not> word_of_nat (length (take (unat n) (drop p rows))) < n \<longleftrightarrow> unat n \<le> length rows - p"
    using assms(3) unat_small [of "length rows - p"] unat_small [of "unat n"]
    by (auto simp: word_less_nat_alt min_def)
  show ?thesis
  proof (cases p)
    case 0
    have "row_cursor 0 (unat n - 1) = cursor_at (unat n)" using n by (simp add: row_cursor_def cursor_at_def)
    with 0 n assms len show ?thesis
      by (simp add: fetch_def cursor_at_def ApplyPageArgs_def run_page_def bigint_def NewPageResult_def min_def Let_def)
  next
    case (Suc i)
    have off: "unat (word_of_nat i + 1 :: 64 word) = p" using Suc assms(3,4) unat_small [of "Suc i"] by (simp add: add.commute)
    have "(word_of_nat i + 1 + word_of_nat (unat n - Suc 0) :: 64 word) = word_of_nat (Suc i + (unat n - Suc 0))" by simp
    also have "Suc i + (unat n - Suc 0) = p + unat n - 1" using Suc n by simp
    finally have "row_cursor (word_of_nat i + 1) (unat n - 1) = cursor_at (p + unat n)" using n by (simp add: row_cursor_def cursor_at_def algebra_simps)
    with Suc n assms len off show ?thesis
      by (simp add: fetch_def cursor_at_def ApplyPageArgs_def run_page_def bigint_def NewPageResult_def min_def Let_def)
  qed
qed

lemma all_pages_from:
  assumes "0 < n" "unat n < 2 ^ 63" "length rows < 2 ^ 63" "p \<le> length rows" "(length rows - p) div unat n < k"
  shows "\<exists>pages. all_pages k n (cursor_at p) rows = Some pages \<and> concat pages = drop p rows
    \<and> (\<forall>page \<in> set (butlast pages). length page = unat n) \<and> pages \<noteq> []"
  using assms(4,5)
proof (induction k arbitrary: p)
  case (Suc k)
  from assms(1) have n: "0 < unat n" by (simp add: word_gt_0 unat_gt_0)
  obtain cursor where f: "fetch n (cursor_at p) rows = Some (take (unat n) (drop p rows), unat n \<le> length rows - p, cursor)"
    "unat n \<le> length rows - p \<Longrightarrow> cursor = cursor_at (p + unat n)"
    using fetch_at [OF assms(1-3) Suc.prems(1)] by blast
  show ?case
  proof (cases "unat n \<le> length rows - p")
    case True
    have "(length rows - (p + unat n)) div unat n < k"
      using Suc.prems(2) le_div_geq [OF n True] by simp
    moreover have "p + unat n \<le> length rows" using True Suc.prems(1) n by linarith
    ultimately obtain pages where pages:
      "all_pages k n (cursor_at (p + unat n)) rows = Some pages" "concat pages = drop (p + unat n) rows"
      "\<forall>page \<in> set (butlast pages). length page = unat n" "pages \<noteq> []" using Suc.IH by blast
    let ?page = "take (unat n) (drop p rows)"
    have "all_pages (Suc k) n (cursor_at p) rows = Some (?page # pages)" using f True pages(1) by simp
    moreover have "concat (?page # pages) = drop p rows"
      using pages(2) append_take_drop_id [of "unat n" "drop p rows"] by (simp add: add.commute)
    moreover have "length ?page = unat n" using True by simp
    ultimately show ?thesis using pages(3,4) by (intro exI [of _ "?page # pages"]) auto
  next
    case False
    with f show ?thesis by simp
  qed
qed simp

text \<open>C40: following the pages of a list visits every row once, in order, and comes to an end: from the
  empty cursor, asking for \<open>n\<close> rows after the cursor of the last row for as long as there is a next
  page takes at most one request more than the rows fill pages; the pages put together are the
  list, and all but the last are full.\<close>

theorem pages_cover_list:
  assumes "0 < n" "unat n < 2 ^ 63" "length rows < 2 ^ 63" "length rows div unat n < k"
  shows "\<exists>pages. all_pages k n '''' rows = Some pages \<and> concat pages = rows \<and> (\<forall>page \<in> set (butlast pages). length page = unat n)"
  using all_pages_from [OF assms(1-3), of 0 k] assms(4) by (auto simp: cursor_at_def)

theorem pages_cover_list_witness:
  "\<exists>pages. all_pages 3 2 '''' [1 :: int, 2, 3, 4, 5] = Some pages \<and> concat pages = [1, 2, 3, 4, 5]"
  using pages_cover_list [of 2 "[1 :: int, 2, 3, 4, 5]" 3] by auto

section \<open>Between two cursors\<close>

text \<open>The rows strictly between two places, then the first or the last of them.\<close>

definition between :: "64 word \<Rightarrow> 64 word \<Rightarrow> 64 word option \<Rightarrow> 64 word option \<Rightarrow> 'a list \<Rightarrow> 'a list" where
  "between a b first final rows = (let
     rows = take (unat b - unat a - 1) (drop (unat a + 1) rows);
     rows = (case first of None \<Rightarrow> rows | Some n \<Rightarrow> take (unat n) rows)
   in case final of None \<Rightarrow> rows | Some n \<Rightarrow> drop (length rows - unat n) rows)"

lemma unat_sub_word: "y \<le> x \<Longrightarrow> unat (x - y :: 64 word) = unat x - unat y"
  by (simp add: word_le_nat_alt unat_sub_if')

lemma drop_take_last: "m \<le> k \<Longrightarrow> k \<le> length xs \<Longrightarrow> take m (drop (k - m) xs) = drop (length (take k xs) - m) (take k xs)"
  by (simp add: drop_take min_def)

lemma unat_add_small: "unat x + unat y < 2 ^ 64 \<Longrightarrow> unat (x + y :: 64 word) = unat x + unat y"
  by (simp add: unat_word_ariths)

lemma first_limit:
  "unat (case first of Some n \<Rightarrow> if n < limit then n else limit | None \<Rightarrow> limit) =
   (case first of Some n \<Rightarrow> min (unat n) (unat limit) | None \<Rightarrow> unat limit)" for limit :: "64 word"
  by (auto simp: min_def word_less_nat_alt split: option.split)

lemma last_limit:
  fixes offset limit :: "64 word"
  assumes "unat offset + unat limit < 2 ^ 63"
  shows "unat (fst (case final of Some n \<Rightarrow> if n < limit then (offset + (limit - n), limit - (limit - n)) else (offset, limit)
                 | None \<Rightarrow> (offset, limit)))
         = unat offset + (case final of Some n \<Rightarrow> unat limit - min (unat n) (unat limit) | None \<Rightarrow> 0)"
    and "unat (snd (case final of Some n \<Rightarrow> if n < limit then (offset + (limit - n), limit - (limit - n)) else (offset, limit)
                 | None \<Rightarrow> (offset, limit)))
         = (case final of Some n \<Rightarrow> min (unat n) (unat limit) | None \<Rightarrow> unat limit)"
proof -
  have "unat (offset + (limit - n)) = unat offset + (unat limit - unat n)" if "n < limit" for n
    using assms that by (subst unat_add_small) (auto simp: unat_sub_word less_imp_le)
  then show "unat (fst (case final of Some n \<Rightarrow> if n < limit then (offset + (limit - n), limit - (limit - n)) else (offset, limit)
                 | None \<Rightarrow> (offset, limit)))
         = unat offset + (case final of Some n \<Rightarrow> unat limit - min (unat n) (unat limit) | None \<Rightarrow> 0)"
    by (auto simp: word_less_nat_alt split: option.split)
  show "unat (snd (case final of Some n \<Rightarrow> if n < limit then (offset + (limit - n), limit - (limit - n)) else (offset, limit)
                 | None \<Rightarrow> (offset, limit)))
         = (case final of Some n \<Rightarrow> min (unat n) (unat limit) | None \<Rightarrow> unat limit)"
    by (auto simp: word_less_nat_alt split: option.split)
qed

lemma between_slice:
  fixes a b :: "64 word" and first :: "64 word option"
  defines "len \<equiv> case first of Some n \<Rightarrow> min (unat n) (unat b - unat a - 1) | None \<Rightarrow> unat b - unat a - 1"
  assumes "a < b" "unat b \<le> length rows"
  shows "between a b first final rows =
    take (case final of Some n \<Rightarrow> min (unat n) len | None \<Rightarrow> len)
      (drop (unat a + 1 + (case final of Some n \<Rightarrow> len - min (unat n) len | None \<Rightarrow> 0)) rows)"
proof -
  define s where "s = drop (unat a + 1) rows"
  have len: "len \<le> length s" using assms by (auto simp: s_def word_less_nat_alt split: option.split)
  have s: "(case first of None \<Rightarrow> take (unat b - unat a - 1) s | Some n \<Rightarrow> take (unat n) (take (unat b - unat a - 1) s)) = take len s"
    by (auto simp: len_def split: option.split)
  have between: "between a b first final rows =
    (case final of None \<Rightarrow> take len s | Some n \<Rightarrow> drop (length (take len s) - unat n) (take len s))"
    unfolding between_def Let_def s_def [symmetric] s ..
  show ?thesis
  proof (cases final)
    case None
    with between show ?thesis by (simp add: s_def)
  next
    case (Some n)
    have "drop (length (take len s) - unat n) (take len s) = drop (length (take len s) - min (unat n) len) (take len s)"
      using len by (simp add: min_def)
    also have "\<dots> = take (min (unat n) len) (drop (len - min (unat n) len) s)"
      using len by (subst drop_take_last [symmetric]) auto
    finally show ?thesis using Some between by (simp add: s_def add.commute)
  qed
qed

lemma run_page_small:
  assumes "unat l < 2 ^ 63" "unat p < 2 ^ 63"
  shows "run_page \<lparr>pq_Limit = Some l, pq_Offset = Some p\<rparr> rows = Some (take (unat l) (drop (unat p) rows))"
  using assms by (simp add: run_page_def bigint_def)

text \<open>A page asked for between two cursors in order holds the rows strictly between them: all of them,
  the first of them, the last of them, or the last of the first, as \<open>first\<close> and \<open>last\<close> say. The
  subtractions on \<^verbatim>\<open>uint64\<close> do not wrap.\<close>

theorem page_between_cursors:
  assumes "a < b" "unat b \<le> length rows" "length rows < 2 ^ 62"
  shows "\<exists>q offset. ApplyPageArgs \<lparr>pa_Before = ToPageCursor (Some b), pa_After = ToPageCursor (Some a), pa_First = first, pa_Last = final\<rparr>
      = Ok (q, offset) \<and> run_page q rows = Some (between a b first final rows)"
proof -
  have offset: "unat (a + 1) = unat a + 1" using assms by (subst unat_add_small) (auto simp: word_less_nat_alt)
  have limit: "unat (b - (a + 1)) = unat b - unat a - 1"
    using assms(1) offset by (subst unat_sub_word) (auto simp: word_le_nat_alt word_less_nat_alt)
  let ?limit = "case first of Some n \<Rightarrow> if n < b - (a + 1) then n else b - (a + 1) | None \<Rightarrow> b - (a + 1)"
  have lim: "unat ?limit = (case first of Some n \<Rightarrow> min (unat n) (unat b - unat a - 1) | None \<Rightarrow> unat b - unat a - 1)"
    by (simp only: first_limit limit)
  have sum: "unat (a + 1) + unat ?limit < 2 ^ 63"
    using assms unfolding lim offset by (auto simp: word_less_nat_alt split: option.split)
  let ?p = "case final of Some n \<Rightarrow> if n < ?limit then (a + 1 + (?limit - n), ?limit - (?limit - n)) else (a + 1, ?limit) | None \<Rightarrow> (a + 1, ?limit)"
  note p = last_limit [OF sum, of final]
  have small: "unat (fst ?p) < 2 ^ 63" "unat (snd ?p) < 2 ^ 63"
    unfolding p using sum by (auto split: option.split)
  have "ApplyPageArgs \<lparr>pa_Before = ToPageCursor (Some b), pa_After = ToPageCursor (Some a), pa_First = first, pa_Last = final\<rparr>
      = Ok (\<lparr>pq_Limit = Some (snd ?p), pq_Offset = Some (fst ?p)\<rparr>, fst ?p)"
    by (cases final) (simp_all add: ApplyPageArgs_def Let_def)
  moreover have "run_page \<lparr>pq_Limit = Some (snd ?p), pq_Offset = Some (fst ?p)\<rparr> rows = Some (between a b first final rows)"
    unfolding run_page_small [OF small(2,1)] between_slice [OF assms(1,2)] p lim offset ..
  ultimately show ?thesis by blast
qed

theorem page_between_cursors_witness:
  "\<exists>q offset. ApplyPageArgs \<lparr>pa_Before = ToPageCursor (Some 5), pa_After = ToPageCursor (Some 1), pa_First = None, pa_Last = Some 2\<rparr>
      = Ok (q, offset) \<and> run_page q [0 :: int, 1, 2, 3, 4, 5] = Some [3, 4]"
  using page_between_cursors [of 1 5 "[0 :: int, 1, 2, 3, 4, 5]" None "Some 2"] by (simp add: between_def)

text \<open>With the cursors the other way round the limit wraps: the cursor to stay before is ignored.\<close>

lemma reversed_cursors:
  assumes "b \<le> a" "unat a < 2 ^ 62" "unat n < 2 ^ 62"
  shows "ApplyPageArgs \<lparr>pa_Before = ToPageCursor (Some b), pa_After = ToPageCursor (Some a), pa_First = Some n, pa_Last = None\<rparr>
    = Ok (\<lparr>pq_Limit = Some n, pq_Offset = Some (a + 1)\<rparr>, a + 1)"
proof -
  have off: "unat (a + 1) = unat a + 1" using assms by (subst unat_add_small) auto
  with assms(1) have "unat (b - (a + 1)) = 2 ^ 64 - (unat a + 1 - unat b)"
    by (auto simp: unat_sub_if' word_le_nat_alt)
  with assms have "n < b - (a + 1)" by (simp add: word_less_nat_alt)
  then show ?thesis by (simp add: ApplyPageArgs_def Let_def)
qed

end
