(* ===== verification/EventPayload.thy ===== *)
theory EventPayload imports Proc Complex_Main begin

text \<open>
  Events and their payloads: \<^verbatim>\<open>pkg/api/event\<close>, \<^verbatim>\<open>pkg/api/event/blocking\<close> and \<^verbatim>\<open>pkg/lib/event/{event,resolve}.go\<close>.
  A blocking payload takes the answers of the hooks into itself and writes what they changed of the
  user to the database. Of the some sixty nonblocking payloads the model has the answers of their
  methods. A nil map or slice is \<open>None\<close>, an empty one is \<open>Some []\<close>.
\<close>

datatype json = JNull | JBool bool | JNumber rat | JString string | JArray "json list" | JObject "(string \<times> json) list"

type_synonym json_object = "(string \<times> json) list"

section \<open>What a hook answers\<close>

record UserMutations =
  m_StandardAttributes :: "json_object option"
  m_CustomAttributes :: "json_object option"
  m_Roles :: "string list option"
  m_Groups :: "string list option"

record HookResponse =
  hr_IsAllowed :: bool
  hr_Title :: string
  hr_Reason :: string
  hr_User :: UserMutations
  hr_JWT :: "json_object option"
  hr_IDToken :: "json_object option"
  hr_Constraints :: "string list option"
  hr_BotProtection :: "string option"
  hr_RateLimits :: "(string \<times> rat) list option"

section \<open>Payloads\<close>

text \<open>\<^verbatim>\<open>model.User\<close>. \<^verbatim>\<open>Web3\<close> is always an empty object.\<close>

record UserModel =
  um_ID :: string
  um_CreatedAt :: time
  um_UpdatedAt :: time
  um_LastLoginAt :: "time option"
  um_IsAnonymous :: bool
  um_IsVerified :: bool
  um_IsDisabled :: bool
  um_DisableReason :: "string option"
  um_IsDeactivated :: bool
  um_DeleteAt :: "time option"
  um_DeleteReason :: "string option"
  um_IsAnonymized :: bool
  um_AnonymizeAt :: "time option"
  um_TemporarilyDisabledFrom :: "time option"
  um_TemporarilyDisabledUntil :: "time option"
  um_AccountValidFrom :: "time option"
  um_AccountValidUntil :: "time option"
  um_AccountStatusStaleFrom :: "time option"
  um_CanReauthenticate :: bool
  um_StandardAttributes :: "json_object option"
  um_CustomAttributes :: "json_object option"
  um_Roles :: "string list option"
  um_Groups :: "string list option"
  um_MFAGracePeriodEndAt :: "time option"
  um_EndUserAccountID :: string

text \<open>The payloads about a user differ in their type; the payloads about a token carry its claims; the payloads
  of an authentication carry what the hooks demand of it.\<close>

datatype user_event = UserPreCreate | UserProfilePreUpdate | UserPreScheduleDeletion | UserPreScheduleAnonymization
datatype jwt_event = OIDCJWTPreCreate | OIDCIDTokenPreCreate
datatype authn_event = AuthenticationPreInitialize | AuthenticationPostIdentified | AuthenticationPreAuthenticated

record authn_demands =
  ad_Constraints :: "string list option"
  ad_BotProtection :: "string option"
  ad_RateLimits :: "(string \<times> rat) list option"

datatype BlockingPayload =
    UserPayload user_event (up_UserRef: string) (up_User: UserModel) (up_AdminAPI: bool) json
  | TokenPayload jwt_event (tp_UserRef: string) (tp_User: UserModel) (tp_Claims: "json_object option") json
  | AuthnPayload authn_event (ap_User: "UserModel option") (ap_Demands: authn_demands) json

record NonBlockingPayload =
  nb_Type :: string
  nb_UserID :: string
  nb_TriggeredBy :: string
  nb_ForHook :: bool
  nb_ForAudit :: bool
  nb_RequireReindexUserIDs :: "string list"
  nb_DeletedUserIDs :: "string list"
  nb_ExtraHookURLs :: "string list"
  nb_Users :: "(string \<times> UserModel) list"
  nb_Body :: json

datatype payload = Blocking BlockingPayload | NonBlocking NonBlockingPayload | OtherPayload

fun user_event_type :: "user_event \<Rightarrow> string" where
  "user_event_type UserPreCreate = ''user.pre_create''"
| "user_event_type UserProfilePreUpdate = ''user.profile.pre_update''"
| "user_event_type UserPreScheduleDeletion = ''user.pre_schedule_deletion''"
| "user_event_type UserPreScheduleAnonymization = ''user.pre_schedule_anonymization''"

fun jwt_event_type :: "jwt_event \<Rightarrow> string" where
  "jwt_event_type OIDCJWTPreCreate = ''oidc.jwt.pre_create''"
| "jwt_event_type OIDCIDTokenPreCreate = ''oidc.id_token.pre_create''"

fun authn_event_type :: "authn_event \<Rightarrow> string" where
  "authn_event_type AuthenticationPreInitialize = ''authentication.pre_initialize''"
| "authn_event_type AuthenticationPostIdentified = ''authentication.post_identified''"
| "authn_event_type AuthenticationPreAuthenticated = ''authentication.pre_authenticated''"

fun BlockingEventType :: "BlockingPayload \<Rightarrow> string" where
  "BlockingEventType (UserPayload t _ _ _ _) = user_event_type t"
| "BlockingEventType (TokenPayload t _ _ _ _) = jwt_event_type t"
| "BlockingEventType (AuthnPayload t _ _ _) = authn_event_type t"

text \<open>Before a user is identified there is none; later a missing user is a nil pointer.\<close>

fun Blocking_UserID :: "BlockingPayload \<Rightarrow> ('e, string) outcome" where
  "Blocking_UserID (UserPayload _ uid _ _ _) = Ok uid"
| "Blocking_UserID (TokenPayload _ uid _ _ _) = Ok uid"
| "Blocking_UserID (AuthnPayload AuthenticationPreInitialize _ _ _) = Ok ''''"
| "Blocking_UserID (AuthnPayload _ u _ _) = bind_oc (deref u) (\<lambda>user. Ok (um_ID user))"

fun Blocking_TriggeredBy :: "BlockingPayload \<Rightarrow> string" where
  "Blocking_TriggeredBy (UserPayload _ _ _ admin _) = (if admin then ''admin_api'' else ''user'')"
| "Blocking_TriggeredBy _ = ''user''"

section \<open>Taking an answer in\<close>

definition ApplyUserMutations :: "UserModel \<Rightarrow> UserMutations \<Rightarrow> UserModel \<times> bool" where
  "ApplyUserMutations user m = (let
     (user, mutated) = (case m_StandardAttributes m of None \<Rightarrow> (user, False) | a \<Rightarrow> (user\<lparr>um_StandardAttributes := a\<rparr>, True));
     (user, mutated) = (case m_CustomAttributes m of None \<Rightarrow> (user, mutated) | a \<Rightarrow> (user\<lparr>um_CustomAttributes := a\<rparr>, True));
     (user, mutated) = (case m_Roles m of None \<Rightarrow> (user, mutated) | a \<Rightarrow> (user\<lparr>um_Roles := a\<rparr>, True))
   in case m_Groups m of None \<Rightarrow> (user, mutated) | a \<Rightarrow> (user\<lparr>um_Groups := a\<rparr>, True))"

definition MakeUserMutations :: "UserModel \<Rightarrow> UserMutations" where
  "MakeUserMutations user = \<lparr>m_StandardAttributes = um_StandardAttributes user,
     m_CustomAttributes = um_CustomAttributes user, m_Roles = um_Roles user, m_Groups = um_Groups user\<rparr>"

definition or_else :: "'a option \<Rightarrow> 'a option \<Rightarrow> 'a option" where
  "or_else a b = (case a of None \<Rightarrow> b | Some x \<Rightarrow> Some x)"

text \<open>The payload after the answer, and whether the answer changed anything that has to be written.\<close>

fun ApplyHookResponse :: "BlockingPayload \<Rightarrow> HookResponse \<Rightarrow> BlockingPayload \<times> bool" where
  "ApplyHookResponse (UserPayload t uid user admin body) response = (let
     (u, mutated) = ApplyUserMutations user (hr_User response)
     in (UserPayload t uid (if mutated then u else user) admin body, mutated))"
| "ApplyHookResponse (TokenPayload t uid user claims body) response = (let
     new = (case t of OIDCJWTPreCreate \<Rightarrow> hr_JWT response | OIDCIDTokenPreCreate \<Rightarrow> hr_IDToken response)
     in (TokenPayload t uid user (or_else new claims) body, new \<noteq> None))"
| "ApplyHookResponse (AuthnPayload t user d body) response =
     (AuthnPayload t user \<lparr>ad_Constraints = or_else (hr_Constraints response) (ad_Constraints d),
       ad_BotProtection = (if t = AuthenticationPreAuthenticated then ad_BotProtection d
         else or_else (hr_BotProtection response) (ad_BotProtection d)),
       ad_RateLimits = or_else (hr_RateLimits response) (ad_RateLimits d)\<rparr> body, False)"

text \<open>The services that write the user, each on the database.\<close>

record ('d, 'e) MutationsEffectContext =
  ec_UpdateStandardAttributes :: "string \<Rightarrow> json_object \<Rightarrow> ('d, 'e, unit) proc"
  ec_UpdateAllCustomAttributes :: "string \<Rightarrow> json_object \<Rightarrow> ('d, 'e, unit) proc"
  ec_ResetUserRole :: "string \<Rightarrow> string list \<Rightarrow> ('d, 'e, unit) proc"
  ec_ResetUserGroup :: "string \<Rightarrow> string list \<Rightarrow> ('d, 'e, unit) proc"

definition when_some :: "'a option \<Rightarrow> ('a \<Rightarrow> ('s, 'e, unit) proc) \<Rightarrow> ('s, 'e, unit) proc" where
  "when_some v f = (case v of None \<Rightarrow> ret () | Some x \<Rightarrow> f x)"

definition PerformEffectsOnUser :: "('d, 'e) MutationsEffectContext \<Rightarrow> string \<Rightarrow> UserMutations \<Rightarrow> ('d, 'e, unit) proc" where
  "PerformEffectsOnUser ec userID m =
     bindp (when_some (m_StandardAttributes m) (ec_UpdateStandardAttributes ec userID)) (\<lambda>_.
     bindp (when_some (m_CustomAttributes m) (ec_UpdateAllCustomAttributes ec userID)) (\<lambda>_.
     bindp (when_some (m_Roles m) (ec_ResetUserRole ec userID)) (\<lambda>_.
     when_some (m_Groups m) (ec_ResetUserGroup ec userID))))"

fun PerformEffects :: "('d, 'e) MutationsEffectContext \<Rightarrow> BlockingPayload \<Rightarrow> ('d, 'e, unit) proc" where
  "PerformEffects ec (UserPayload _ uid user _ _) = PerformEffectsOnUser ec uid (MakeUserMutations user)"
| "PerformEffects ec _ = ret ()"

section \<open>Events\<close>

record Event_Context =
  ctx_Timestamp :: int
  ctx_UserID :: "string option"
  ctx_TriggeredBy :: string
  ctx_AuditContext :: json_object
  ctx_PreferredLanguages :: "string list"
  ctx_Language :: string
  ctx_OAuth :: "(string \<times> string) option"
  ctx_IPAddress :: string
  ctx_GeoLocationCode :: "string option"
  ctx_UserAgent :: string
  ctx_AppID :: string
  ctx_ClientID :: string
  ctx_TrackingID :: string

record Event =
  ev_ID :: string
  ev_Seq :: int
  ev_Type :: string
  ev_Payload :: payload
  ev_Context :: Event_Context
  ev_IsNonBlocking :: bool

text \<open>\<^verbatim>\<open>fmt.Sprintf("%016x", seq)\<close>. Sequence numbers are positive.\<close>

definition hex_char :: "nat \<Rightarrow> char" where
  "hex_char d = char_of (if d < 10 then 48 + d else 87 + d)"

fun hex_digits :: "nat \<Rightarrow> nat \<Rightarrow> string" where
  "hex_digits 0 n = ''''"
| "hex_digits (Suc k) n = hex_digits k (n div 16) @ [hex_char (n mod 16)]"

definition newEvent :: "int \<Rightarrow> payload \<Rightarrow> Event_Context \<Rightarrow> Event" where
  "newEvent seq p context = \<lparr>ev_ID = hex_digits 16 (nat seq), ev_Seq = seq, ev_Type = '''', ev_Payload = p,
     ev_Context = context, ev_IsNonBlocking = False\<rparr>"

definition newBlockingEvent :: "int \<Rightarrow> BlockingPayload \<Rightarrow> Event_Context \<Rightarrow> Event" where
  "newBlockingEvent seq p context = (newEvent seq (Blocking p) context)\<lparr>ev_Type := BlockingEventType p\<rparr>"

definition NewNonBlockingEvent :: "int \<Rightarrow> NonBlockingPayload \<Rightarrow> Event_Context \<Rightarrow> Event" where
  "NewNonBlockingEvent seq p context =
     (newEvent seq (NonBlocking p) context)\<lparr>ev_Type := nb_Type p, ev_IsNonBlocking := True\<rparr>"

definition Event_ApplyHookResponse :: "Event \<Rightarrow> HookResponse \<Rightarrow> Event \<times> bool" where
  "Event_ApplyHookResponse e response = (case ev_Payload e of
     Blocking p \<Rightarrow> (let (p, mutated) = ApplyHookResponse p response in (e\<lparr>ev_Payload := Blocking p\<rparr>, mutated))
   | _ \<Rightarrow> (e, False))"

definition Event_PerformEffects :: "('d, 'e) MutationsEffectContext \<Rightarrow> Event \<Rightarrow> ('d, 'e, unit) proc" where
  "Event_PerformEffects ec e = (case ev_Payload e of Blocking p \<Rightarrow> PerformEffects ec p | _ \<Rightarrow> ret ())"

section \<open>Filling in users\<close>

text \<open>
  \<^verbatim>\<open>ResolverImpl.Resolve\<close>: every reference tagged \<^verbatim>\<open>resolve\<close> has the user it names put into the field
  beside it; a user that is gone leaves the field as it was. \<open>get_user\<close> is \<^verbatim>\<open>Users.Get\<close> on the
  database: an error, no user, or the user.
\<close>

definition resolve_user :: "(string \<Rightarrow> ('e, UserModel option) outcome) \<Rightarrow> string \<Rightarrow> UserModel \<Rightarrow> ('e, UserModel) outcome" where
  "resolve_user get_user uid user = bind_oc (get_user uid) (\<lambda>u. Ok (case u of None \<Rightarrow> user | Some u \<Rightarrow> u))"

fun resolve_users :: "(string \<Rightarrow> ('e, UserModel option) outcome) \<Rightarrow> (string \<times> UserModel) list \<Rightarrow> ('e, (string \<times> UserModel) list) outcome" where
  "resolve_users get_user [] = Ok []"
| "resolve_users get_user ((uid, user) # us) = bind_oc (resolve_user get_user uid user) (\<lambda>u.
     bind_oc (resolve_users get_user us) (\<lambda>us. Ok ((uid, u) # us)))"

fun Resolve :: "(string \<Rightarrow> ('e, UserModel option) outcome) \<Rightarrow> payload \<Rightarrow> ('e, payload) outcome" where
  "Resolve get_user (Blocking (UserPayload t uid user admin body)) =
     bind_oc (resolve_user get_user uid user) (\<lambda>u. Ok (Blocking (UserPayload t uid u admin body)))"
| "Resolve get_user (Blocking (TokenPayload t uid user claims body)) =
     bind_oc (resolve_user get_user uid user) (\<lambda>u. Ok (Blocking (TokenPayload t uid u claims body)))"
| "Resolve get_user (Blocking (AuthnPayload t user d body)) = Ok (Blocking (AuthnPayload t user d body))"
| "Resolve get_user (NonBlocking p) = bind_oc (resolve_users get_user (nb_Users p)) (\<lambda>us. Ok (NonBlocking (p\<lparr>nb_Users := us\<rparr>)))"
| "Resolve get_user OtherPayload = Ok OtherPayload"

section \<open>Facts about payloads\<close>

lemma Resolve_NonBlocking:
  "Resolve get_user (NonBlocking p) = Ok q \<Longrightarrow> \<exists>us. q = NonBlocking (p\<lparr>nb_Users := us\<rparr>)"
  by auto

text \<open>What no hook changes of a user.\<close>

definition unmutated :: "UserModel \<Rightarrow> UserModel" where
  "unmutated u = u\<lparr>um_StandardAttributes := None, um_CustomAttributes := None, um_Roles := None, um_Groups := None\<rparr>"

lemma unmutated_ApplyUserMutations [simp]: "unmutated (fst (ApplyUserMutations u m)) = unmutated u"
  by (simp add: ApplyUserMutations_def unmutated_def Let_def case_prod_beta split: option.split)

lemma BlockingEventType_Apply [simp]: "BlockingEventType (fst (ApplyHookResponse p r)) = BlockingEventType p"
  by (cases p) (simp_all add: Let_def case_prod_beta)

lemma Blocking_UserID_Authn: "Blocking_UserID (AuthnPayload t u d b) = Blocking_UserID (AuthnPayload t u d' b')"
  by (cases t) simp_all

lemma Blocking_UserID_Apply [simp]: "Blocking_UserID (fst (ApplyHookResponse p r)) = Blocking_UserID p"
  by (cases p) (simp_all add: Let_def case_prod_beta Blocking_UserID_Authn)

end
