(* ===== verification/UserStore.thy ===== *)
theory UserStore imports AccountStatus Pagination EventPayload begin

text \<open>
  Users: \<^verbatim>\<open>pkg/lib/authn/user/{model,store,commands_raw,queries,queries_raw}.go\<close>. A row of \<^verbatim>\<open>_auth_user\<close> is
  read into \<^verbatim>\<open>User\<close> (\<open>auth_user\<close>); what other services know of a user (identities, authenticators, roles,
  groups, attributes) are arguments, and \<^verbatim>\<open>newUserModel\<close> puts both together. The columns of the account
  status are those of \<open>AccountStatus\<close>.
\<close>

record auth_user =
  au_ID :: string
  au_CreatedAt :: time
  au_UpdatedAt :: time
  au_MostRecentLoginAt :: "time option"
  au_LessRecentLoginAt :: "time option"
  au_StandardAttributes :: "json_object option"
  au_CustomAttributes :: "json_object option"
  au_LastIndexedAt :: "time option"
  au_RequireReindexAfter :: "time option"
  au_MFAGracePeriodEndAt :: "time option"
  au_OptOutPasskeyUpsell :: bool
  au_Status :: account_status

datatype user_error = ErrUserNotFound | DuplicateUser | UserStatusError status_error | UserPageError page_error | UserSQLError string

type_synonym user_table = "(string \<times> auth_user) list"
type_synonym 'a user_proc = "(user_table, user_error, 'a) proc"

section \<open>Statements\<close>

text \<open>Every statement is about the rows of one app; a statement that changes rows reports no error when there are none.\<close>

definition app_rows :: "string \<Rightarrow> user_table \<Rightarrow> auth_user list" where
  "app_rows app db = map snd (filter (\<lambda>(a, _). a = app) db)"

definition update_user :: "string \<Rightarrow> (string \<Rightarrow> bool) \<Rightarrow> (auth_user \<Rightarrow> auth_user) \<Rightarrow> unit user_proc" where
  "update_user app P f = modp (map (\<lambda>(a, u). (a, if a = app \<and> P (au_ID u) then f u else u)))"

text \<open>What a row is read as: null attributes are read as empty ones.\<close>

definition scan_user :: "auth_user \<Rightarrow> auth_user" where
  "scan_user u = u\<lparr>au_StandardAttributes := Some (case au_StandardAttributes u of None \<Rightarrow> [] | Some a \<Rightarrow> a),
     au_CustomAttributes := Some (case au_CustomAttributes u of None \<Rightarrow> [] | Some a \<Rightarrow> a)\<rparr>"

text \<open>\<^verbatim>\<open>Create\<close> leaves the metadata column alone: the reason of a deletion and the passkey choice are not stored. The
  primary key is the id alone.\<close>

definition Store_Create :: "string \<Rightarrow> auth_user \<Rightarrow> unit user_proc" where
  "Store_Create app u = bindp (getp (\<lambda>db. au_ID u \<in> set (map (au_ID \<circ> snd) db))) (\<lambda>taken.
     if taken then failp DuplicateUser
     else modp (\<lambda>db. db @ [(app, u\<lparr>au_StandardAttributes := au_StandardAttributes (scan_user u),
       au_CustomAttributes := au_CustomAttributes (scan_user u), au_OptOutPasskeyUpsell := False,
       au_Status := (au_Status u)\<lparr>deleteReason := None\<rparr>\<rparr>)]))"

definition Store_Get :: "string \<Rightarrow> string \<Rightarrow> auth_user user_proc" where
  "Store_Get app userID = bindp (getp (\<lambda>db. List.find (\<lambda>u. au_ID u = userID) (app_rows app db))) (\<lambda>u. case u of
     None \<Rightarrow> failp ErrUserNotFound | Some u \<Rightarrow> ret (scan_user u))"

definition Store_GetByIDs :: "string \<Rightarrow> string list \<Rightarrow> auth_user list user_proc" where
  "Store_GetByIDs app userIDs = getp (\<lambda>db. map scan_user (filter (\<lambda>u. au_ID u \<in> set userIDs) (app_rows app db)))"

definition Store_Count :: "string \<Rightarrow> nat user_proc" where
  "Store_Count app = getp (\<lambda>db. length (app_rows app db))"

datatype SortBy = SortByDefault | SortByCreatedAt | SortByLastLoginAt
datatype SortDirection = SortDirectionDefault | SortDirectionAsc | SortDirectionDesc

text \<open>The column \<^verbatim>\<open>last_login_at\<close> holds the login before the most recent one.\<close>

definition sort_column :: "SortBy \<Rightarrow> auth_user \<Rightarrow> time option" where
  "sort_column by u = (case by of SortByLastLoginAt \<Rightarrow> au_LessRecentLoginAt u | _ \<Rightarrow> Some (au_CreatedAt u))"

text \<open>\<^verbatim>\<open>NULLS LAST\<close> either way.\<close>

definition SortOption_Apply :: "SortBy \<Rightarrow> SortDirection \<Rightarrow> auth_user list \<Rightarrow> auth_user list" where
  "SortOption_Apply by dir us = (let
     key = (\<lambda>u. case sort_column by u of None \<Rightarrow> 0 | Some t \<Rightarrow> (if dir = SortDirectionAsc then t else - t))
   in sort_key (\<lambda>u. if sort_column by u = None then 1 else 0 :: int) (sort_key key us))"

definition page_of :: "PageArgs \<Rightarrow> 'a list \<Rightarrow> (user_error, 'a list \<times> 64 word) outcome" where
  "page_of pageArgs rows = (case ApplyPageArgs pageArgs of
     Err e \<Rightarrow> Err (UserPageError e) | Panic \<Rightarrow> Panic
   | Ok (q, offset) \<Rightarrow> (case run_page q rows of None \<Rightarrow> Err (UserSQLError ''out of range'') | Some rows \<Rightarrow> Ok (rows, offset)))"

definition Store_QueryPage :: "string \<Rightarrow> SortBy \<Rightarrow> SortDirection \<Rightarrow> PageArgs \<Rightarrow> (auth_user list \<times> 64 word) user_proc" where
  "Store_QueryPage app by dir pageArgs = (\<lambda>db.
     (page_of pageArgs (map scan_user (SortOption_Apply by dir (app_rows app db))), db))"

definition Store_UpdateLoginTime :: "string \<Rightarrow> string \<Rightarrow> time \<Rightarrow> unit user_proc" where
  "Store_UpdateLoginTime app userID loginAt = update_user app (\<lambda>i. i = userID)
     (\<lambda>u. u\<lparr>au_LessRecentLoginAt := au_MostRecentLoginAt u, au_MostRecentLoginAt := Some loginAt\<rparr>)"

definition Store_UpdateMFAEnrollment :: "string \<Rightarrow> string \<Rightarrow> time option \<Rightarrow> unit user_proc" where
  "Store_UpdateMFAEnrollment app userID endAt = update_user app (\<lambda>i. i = userID) (\<lambda>u. u\<lparr>au_MFAGracePeriodEndAt := endAt\<rparr>)"

definition Store_UpdateAccountStatus :: "time \<Rightarrow> string \<Rightarrow> string \<Rightarrow> account_status_ref \<Rightarrow> unit user_proc" where
  "Store_UpdateAccountStatus now app userID status = update_user app (\<lambda>i. i = userID)
     (\<lambda>u. u\<lparr>au_Status := accountStatus status, au_UpdatedAt := now\<rparr>)"

definition Store_UpdateStandardAttributes :: "time \<Rightarrow> string \<Rightarrow> string \<Rightarrow> json_object option \<Rightarrow> unit user_proc" where
  "Store_UpdateStandardAttributes now app userID attrs = update_user app (\<lambda>i. i = userID)
     (\<lambda>u. u\<lparr>au_StandardAttributes := Some (case attrs of None \<Rightarrow> [] | Some a \<Rightarrow> a), au_UpdatedAt := now\<rparr>)"

definition Store_UpdateCustomAttributes :: "time \<Rightarrow> string \<Rightarrow> string \<Rightarrow> json_object option \<Rightarrow> unit user_proc" where
  "Store_UpdateCustomAttributes now app userID attrs = update_user app (\<lambda>i. i = userID)
     (\<lambda>u. u\<lparr>au_CustomAttributes := Some (case attrs of None \<Rightarrow> [] | Some a \<Rightarrow> a), au_UpdatedAt := now\<rparr>)"

definition Store_Delete :: "string \<Rightarrow> string \<Rightarrow> unit user_proc" where
  "Store_Delete app userID = modp (filter (\<lambda>(a, u). \<not> (a = app \<and> au_ID u = userID)))"

definition Store_SetAllAttributesToNull :: "time \<Rightarrow> string \<Rightarrow> string \<Rightarrow> unit user_proc" where
  "Store_SetAllAttributesToNull now app userID = update_user app (\<lambda>i. i = userID)
     (\<lambda>u. u\<lparr>au_StandardAttributes := None, au_CustomAttributes := None, au_UpdatedAt := now\<rparr>)"

definition Store_MarkAsReindexRequired :: "time \<Rightarrow> string \<Rightarrow> string list \<Rightarrow> unit user_proc" where
  "Store_MarkAsReindexRequired now app userIDs = update_user app (\<lambda>i. i \<in> set userIDs) (\<lambda>u. u\<lparr>au_RequireReindexAfter := Some now\<rparr>)"

definition Store_UpdateLastIndexedAt :: "string \<Rightarrow> string list \<Rightarrow> time \<Rightarrow> unit user_proc" where
  "Store_UpdateLastIndexedAt app userIDs indexed = update_user app (\<lambda>i. i \<in> set userIDs) (\<lambda>u. u\<lparr>au_LastIndexedAt := Some indexed\<rparr>)"

definition Store_UpdateOptOutPasskeyUpselling :: "time \<Rightarrow> string \<Rightarrow> string \<Rightarrow> bool \<Rightarrow> unit user_proc" where
  "Store_UpdateOptOutPasskeyUpselling now app userID optout = update_user app (\<lambda>i. i = userID)
     (\<lambda>u. u\<lparr>au_OptOutPasskeyUpsell := optout, au_UpdatedAt := now\<rparr>)"

section \<open>Commands\<close>

definition RawCommands_New :: "time \<Rightarrow> string \<Rightarrow> auth_user" where
  "RawCommands_New now userID = \<lparr>au_ID = userID, au_CreatedAt = now, au_UpdatedAt = now, au_MostRecentLoginAt = None,
     au_LessRecentLoginAt = None, au_StandardAttributes = Some [], au_CustomAttributes = None, au_LastIndexedAt = None,
     au_RequireReindexAfter = Some now, au_MFAGracePeriodEndAt = None, au_OptOutPasskeyUpsell = False,
     au_Status = \<lparr>isDisabled = False, accountStatusStaleFrom = None, isIndefinitelyDisabled = Some False,
       isDeactivated = Some False, disableReason = None, temporarilyDisabledFrom = None, temporarilyDisabledUntil = None,
       accountValidFrom = None, accountValidUntil = None, deleteAt = None, deleteReason = None, anonymizeAt = None,
       anonymizedAt = None, isAnonymized = Some False\<rparr>\<rparr>"

definition RawCommands_Create :: "time \<Rightarrow> string \<Rightarrow> string \<Rightarrow> auth_user user_proc" where
  "RawCommands_Create now app userID = (let u = RawCommands_New now userID in bindp (Store_Create app u) (\<lambda>_. ret u))"

text \<open>An outcome of \<open>AccountStatus\<close> inside a command.\<close>

fun of_status :: "(status_error, 'a) outcome \<Rightarrow> 'a user_proc" where
  "of_status (Ok x) = ret x"
| "of_status (Err e) = failp (UserStatusError e)"
| "of_status Panic = panicp"

definition User_AccountStatus :: "auth_user \<Rightarrow> time \<Rightarrow> (status_error, account_status_ref) outcome" where
  "User_AccountStatus u now = WithRefTime (au_Status u) now"

definition RawCommands_Anonymize :: "time \<Rightarrow> string \<Rightarrow> string \<Rightarrow> unit user_proc" where
  "RawCommands_Anonymize now app userID = bindp (Store_Get app userID) (\<lambda>u.
     bindp (of_status (bind_oc (User_AccountStatus u now) Anonymize)) (\<lambda>status.
     bindp (Store_UpdateAccountStatus now app userID status) (\<lambda>_.
     Store_SetAllAttributesToNull now app userID)))"

section \<open>Queries\<close>

text \<open>An identity as \<^verbatim>\<open>newUserModel\<close> looks at it: its type and the name it is displayed by.\<close>

record user_identity =
  ui_Type :: string
  ui_DisplayID :: string

datatype authenticator_kind = KindPrimary | KindSecondary | KindOther

fun json_string :: "json option \<Rightarrow> string" where
  "json_string (Some (JString s)) = s"
| "json_string _ = ''''"

definition computeEndUserAccountID :: "json_object \<Rightarrow> user_identity list \<Rightarrow> string" where
  "computeEndUserAccountID attrs identities = (let
     ldapDisplayID = (case List.find (\<lambda>i. ui_Type i = ''ldap'') identities of None \<Rightarrow> '''' | Some i \<Rightarrow> ui_DisplayID i);
     claim = (\<lambda>name. json_string (map_of attrs name))
   in if claim ''email'' \<noteq> '''' then claim ''email''
      else if claim ''preferred_username'' \<noteq> '''' then claim ''preferred_username''
      else if claim ''phone_number'' \<noteq> '''' then claim ''phone_number''
      else ldapDisplayID)"

definition or_empty :: "'a list option \<Rightarrow> 'a list option" where
  "or_empty v = Some (case v of None \<Rightarrow> [] | Some l \<Rightarrow> l)"

definition newUserModel :: "auth_user \<Rightarrow> time \<Rightarrow> user_identity list \<Rightarrow> authenticator_kind list \<Rightarrow> bool \<Rightarrow>
    json_object option \<Rightarrow> json_object option \<Rightarrow> string list option \<Rightarrow> string list option \<Rightarrow> (status_error, UserModel) outcome" where
  "newUserModel user now identities authenticators isVerified stdAttrs customAttrs roles groups =
     bind_oc (User_AccountStatus user now) (\<lambda>status.
     bind_oc (IsDisabled status) (\<lambda>disabled.
     bind_oc (IsDeactivated status) (\<lambda>deactivated.
     bind_oc (IsAnonymized status) (\<lambda>anonymized. let a = accountStatus status in Ok
       \<lparr>um_ID = au_ID user, um_CreatedAt = au_CreatedAt user, um_UpdatedAt = au_UpdatedAt user,
        um_LastLoginAt = au_MostRecentLoginAt user,
        um_IsAnonymous = (\<exists>i \<in> set identities. ui_Type i = ''anonymous''),
        um_IsVerified = isVerified,
        um_IsDisabled = disabled, um_DisableReason = disableReason a, um_IsDeactivated = deactivated,
        um_DeleteAt = deleteAt a, um_DeleteReason = deleteReason a, um_IsAnonymized = anonymized, um_AnonymizeAt = anonymizeAt a,
        um_TemporarilyDisabledFrom = temporarilyDisabledFrom a, um_TemporarilyDisabledUntil = temporarilyDisabledUntil a,
        um_AccountValidFrom = accountValidFrom a, um_AccountValidUntil = accountValidUntil a,
        um_AccountStatusStaleFrom = accountStatusStaleFrom a,
        um_CanReauthenticate = (\<exists>k \<in> set authenticators. k = KindPrimary \<or> k = KindSecondary),
        um_StandardAttributes = or_empty stdAttrs, um_CustomAttributes = or_empty customAttrs,
        um_Roles = or_empty roles, um_Groups = or_empty groups,
        um_MFAGracePeriodEndAt = au_MFAGracePeriodEndAt user,
        um_EndUserAccountID = computeEndUserAccountID (case stdAttrs of None \<Rightarrow> [] | Some a \<Rightarrow> a) identities\<rparr>))))"

text \<open>What the other services answer about some users, each a map from the user's id, or an error.\<close>

record user_services =
  us_Identities :: "string list \<Rightarrow> (user_error, string \<Rightarrow> user_identity list) outcome"
  us_Authenticators :: "string list \<Rightarrow> (user_error, string \<Rightarrow> authenticator_kind list) outcome"
  us_AreUsersVerified :: "string list \<Rightarrow> (user_error, string \<Rightarrow> bool) outcome"
  us_StandardAttributes :: "string \<Rightarrow> (string \<times> time \<times> json_object option) list \<Rightarrow> (user_error, string \<Rightarrow> json_object option) outcome"
  us_CustomAttributes :: "string \<Rightarrow> (string \<times> json_object option) list \<Rightarrow> (user_error, string \<Rightarrow> json_object option) outcome"
  us_Roles :: "string list \<Rightarrow> (user_error, string \<Rightarrow> string list) outcome"
  us_Groups :: "string list \<Rightarrow> (user_error, string \<Rightarrow> string list) outcome"

fun collect :: "('a \<Rightarrow> ('e, 'b) outcome) \<Rightarrow> 'a list \<Rightarrow> ('e, 'b list) outcome" where
  "collect f [] = Ok []"
| "collect f (x # xs) = bind_oc (f x) (\<lambda>y. bind_oc (collect f xs) (\<lambda>ys. Ok (y # ys)))"

fun status_outcome :: "(status_error, 'a) outcome \<Rightarrow> (user_error, 'a) outcome" where
  "status_outcome (Ok x) = Ok x"
| "status_outcome (Err e) = Err (UserStatusError e)"
| "status_outcome Panic = Panic"

definition models_of :: "user_services \<Rightarrow> time \<Rightarrow> string \<Rightarrow> auth_user list \<Rightarrow> (user_error, UserModel list) outcome" where
  "models_of us now role rawUsers = (let ids = map au_ID rawUsers in
     bind_oc (us_Identities us ids) (\<lambda>identities.
     bind_oc (us_Authenticators us ids) (\<lambda>authenticators.
     bind_oc (us_AreUsersVerified us ids) (\<lambda>verified.
     bind_oc (us_StandardAttributes us role (map (\<lambda>u. (au_ID u, au_UpdatedAt u, au_StandardAttributes u)) rawUsers)) (\<lambda>std.
     bind_oc (us_CustomAttributes us role (map (\<lambda>u. (au_ID u, au_CustomAttributes u)) rawUsers)) (\<lambda>custom.
     bind_oc (us_Roles us ids) (\<lambda>roles.
     bind_oc (us_Groups us ids) (\<lambda>groups.
     collect (\<lambda>u. let i = au_ID u in status_outcome (newUserModel u now (identities i) (authenticators i) (verified i)
       (std i) (custom i) (Some (roles i)) (Some (groups i)))) rawUsers))))))))"

definition Queries_GetMany :: "user_services \<Rightarrow> time \<Rightarrow> string \<Rightarrow> string list \<Rightarrow> string \<Rightarrow> UserModel list user_proc" where
  "Queries_GetMany us now app ids role = bindp (Store_GetByIDs app ids) (\<lambda>raw. (\<lambda>db. (models_of us now role raw, db)))"

definition Queries_Get :: "user_services \<Rightarrow> time \<Rightarrow> string \<Rightarrow> string \<Rightarrow> string \<Rightarrow> UserModel user_proc" where
  "Queries_Get us now app userID role = bindp (Queries_GetMany us now app [userID] role) (\<lambda>users. case users of
     [u] \<Rightarrow> ret u | _ \<Rightarrow> failp ErrUserNotFound)"

definition Store_QueryForExport :: "string \<Rightarrow> nat \<Rightarrow> nat \<Rightarrow> auth_user list user_proc" where
  "Store_QueryForExport app offset limit = getp (\<lambda>db. map scan_user (take limit (drop offset (sort_key au_CreatedAt (app_rows app db)))))"

definition Queries_GetPageForExport :: "user_services \<Rightarrow> time \<Rightarrow> string \<Rightarrow> nat \<Rightarrow> nat \<Rightarrow> UserModel list user_proc" where
  "Queries_GetPageForExport us now app offset limit =
     bindp (Store_QueryForExport app offset limit) (\<lambda>raw. (\<lambda>db. (models_of us now '''' raw, db)))"

definition RawQueries_QueryPage :: "string \<Rightarrow> SortBy \<Rightarrow> SortDirection \<Rightarrow> PageArgs \<Rightarrow> (string \<times> string) list user_proc" where
  "RawQueries_QueryPage app by dir pageArgs = bindp (Store_QueryPage app by dir pageArgs) (\<lambda>(users, offset).
     ret (map (\<lambda>(i, u). (au_ID u, row_cursor offset i)) (enumerate 0 users)))"

section \<open>A user read later\<close>

text \<open>What is read of an account before its status goes stale differs at most in a disabled period that is over.\<close>

definition forget_period :: "account_status \<Rightarrow> account_status" where
  "forget_period a = a\<lparr>temporarilyDisabledFrom := None, temporarilyDisabledUntil := None\<rparr>"

lemma forget_verdict: "forget_period (a\<lparr>isDisabled := d, accountStatusStaleFrom := x\<rparr>) = (forget_period a)\<lparr>isDisabled := d, accountStatusStaleFrom := x\<rparr>"
  by (simp add: forget_period_def)

abbreviation status_times :: "account_status \<Rightarrow> time list" where
  "status_times a \<equiv> opt_list (accountValidFrom a) @ opt_list (accountValidUntil a)
       @ opt_list (temporarilyDisabledFrom a) @ opt_list (temporarilyDisabledUntil a)"

lemma find_filter: "List.find P xs = List.find (\<lambda>_. True) (filter P xs)"
  by (induction xs) auto

lemma find_sort_filter: "List.find P (sort xs) = List.find (\<lambda>_. True) (sort (filter P xs))"
proof -
  have "List.find P (sort xs) = List.find (\<lambda>_. True) (filter P (sort xs))" by (rule find_filter)
  then show ?thesis by (simp add: filter_sort)
qed

lemma stale_from_filter:
  "deriveAccountStatusStaleFrom s = List.find (\<lambda>_. True) (sort (filter (\<lambda>t. t > refTime s) (status_times (accountStatus s))))"
  unfolding deriveAccountStatusStaleFrom_def Let_def by (rule find_sort_filter)

lemma filter_dropPastPeriod:
  "filter (\<lambda>t. t > refTime s) (status_times (accountStatus (dropPastPeriod s))) = filter (\<lambda>t. t > refTime s) (status_times (accountStatus s))"
  by (auto simp: dropPastPeriod_def Let_def split: option.split)

lemma stale_from_dropPastPeriod: "deriveAccountStatusStaleFrom (dropPastPeriod s) = deriveAccountStatusStaleFrom s"
  unfolding stale_from_filter dropPastPeriod_refTime filter_dropPastPeriod ..

lemma forget_dropPastPeriod: "forget_period (accountStatus (dropPastPeriod s)) = forget_period (accountStatus s)"
  by (auto simp: dropPastPeriod_def forget_period_def Let_def split: option.split)

lemma normalizeOnChange_eq:
  "normalizeOnChange s = bind_oc (IsDisabled s) (\<lambda>d. Ok ((dropPastPeriod s)\<lparr>accountStatus := (accountStatus (dropPastPeriod s))
     \<lparr>isDisabled := d, accountStatusStaleFrom := deriveAccountStatusStaleFrom s\<rparr>\<rparr>))"
proof -
  have "deriveAccountStatusStaleFrom (x\<lparr>accountStatus := (accountStatus x)\<lparr>isDisabled := d\<rparr>\<rparr>) = deriveAccountStatusStaleFrom x" for x d
    by (simp add: deriveAccountStatusStaleFrom_def Let_def)
  then show ?thesis
    by (simp add: normalizeOnChange_def Let_def stale_from_dropPastPeriod)
qed

lemma normalizeOnChange_later:
  assumes "normalizeOnChange \<lparr>accountStatus = a, refTime = t0\<rparr> = Ok s" "t0 \<le> t"
    and "\<And>st. accountStatusStaleFrom (accountStatus s) = Some st \<Longrightarrow> t < st"
  shows "\<exists>s'. normalizeOnChange \<lparr>accountStatus = a, refTime = t\<rparr> = Ok s' \<and> refTime s' = t \<and>
    forget_period (accountStatus s') = forget_period (accountStatus s) \<and> isDisabled (accountStatus s') = isDisabled (accountStatus s)"
proof -
  let ?s0 = "\<lparr>accountStatus = a, refTime = t0\<rparr>" and ?s1 = "\<lparr>accountStatus = a, refTime = t\<rparr>"
  from assms(1) obtain d where d: "IsDisabled ?s0 = Ok d" and s: "s = (dropPastPeriod ?s0)\<lparr>accountStatus := (accountStatus (dropPastPeriod ?s0))
     \<lparr>isDisabled := d, accountStatusStaleFrom := deriveAccountStatusStaleFrom ?s0\<rparr>\<rparr>"
    by (auto simp: normalizeOnChange_eq)
  have same: "(t0 < b) = (t < b)" if "b \<in> boundaries a" for b
    using stale_from_same_side [of ?s0 t b] assms(2,3) that by (simp add: s)
  have "IsDisabled ?s1 = Ok d" using IsDisabled_same_side [of a t0 t] same d by simp
  moreover have "filter (\<lambda>b. b > t) (status_times a) = filter (\<lambda>b. b > t0) (status_times a)"
    using same by (intro filter_cong) (auto simp: boundaries_def)
  then have "deriveAccountStatusStaleFrom ?s1 = deriveAccountStatusStaleFrom ?s0" by (simp add: stale_from_filter)
  ultimately show ?thesis
    using forget_dropPastPeriod [of ?s0] forget_dropPastPeriod [of ?s1]
    by (simp add: normalizeOnChange_eq s forget_verdict)
qed

lemma WithRefTime_later:
  assumes "WithRefTime a t0 = Ok s" "t0 \<le> t" "\<And>st. accountStatusStaleFrom (accountStatus s) = Some st \<Longrightarrow> t < st"
  shows "\<exists>s'. WithRefTime a t = Ok s' \<and> refTime s' = t \<and> forget_period (accountStatus s') = forget_period (accountStatus s) \<and>
    isDisabled (accountStatus s') = isDisabled (accountStatus s)"
proof -
  obtain b where b: "\<And>r. WithRefTime a r = normalizeOnChange \<lparr>accountStatus = b, refTime = r\<rparr>"
    using assms(1) by (auto simp: WithRefTime_def normalizeOnRead_def Let_def split: option.splits if_splits)
  then show ?thesis using normalizeOnChange_later assms by metis
qed

text \<open>The same for the model of a user that the other services still say the same of.\<close>

definition forget_user_period :: "UserModel \<Rightarrow> UserModel" where
  "forget_user_period m = m\<lparr>um_TemporarilyDisabledFrom := None, um_TemporarilyDisabledUntil := None\<rparr>"

lemma forget_period_sel:
  assumes "forget_period a = forget_period b"
  shows "accountStatusStaleFrom a = accountStatusStaleFrom b" "isDeactivated a = isDeactivated b" "isAnonymized a = isAnonymized b"
    "disableReason a = disableReason b" "deleteAt a = deleteAt b" "deleteReason a = deleteReason b" "anonymizeAt a = anonymizeAt b"
    "accountValidFrom a = accountValidFrom b" "accountValidUntil a = accountValidUntil b"
  using arg_cong [OF assms, of accountStatusStaleFrom]
    arg_cong [OF assms, of isDeactivated]
    arg_cong [OF assms, of isAnonymized]
    arg_cong [OF assms, of disableReason]
    arg_cong [OF assms, of deleteAt]
    arg_cong [OF assms, of deleteReason]
    arg_cong [OF assms, of anonymizeAt]
    arg_cong [OF assms, of accountValidFrom]
    arg_cong [OF assms, of accountValidUntil]
  by (simp_all add: forget_period_def)

lemma WithRefTime_IsDisabled:
  assumes "WithRefTime a t = Ok s"
  shows "IsDisabled s = Ok (isDisabled (accountStatus s)) \<and> refTime s = t"
proof -
  obtain b where b: "normalizeOnChange \<lparr>accountStatus = b, refTime = t\<rparr> = Ok s"
    using assms by (auto simp: WithRefTime_def normalizeOnRead_def Let_def split: option.splits if_splits)
  then obtain d where d: "IsDisabled \<lparr>accountStatus = b, refTime = t\<rparr> = Ok d"
    and s: "s = (dropPastPeriod \<lparr>accountStatus = b, refTime = t\<rparr>)\<lparr>accountStatus := (accountStatus (dropPastPeriod \<lparr>accountStatus = b, refTime = t\<rparr>))
     \<lparr>isDisabled := d, accountStatusStaleFrom := deriveAccountStatusStaleFrom \<lparr>accountStatus = b, refTime = t\<rparr>\<rparr>\<rparr>"
    by (auto simp: normalizeOnChange_eq)
  have "\<And>st. deriveAccountStatusStaleFrom \<lparr>accountStatus = b, refTime = t\<rparr> = Some st \<Longrightarrow> t < st"
    by (auto simp: deriveAccountStatusStaleFrom_def Let_def dest: find_Some_in)
  with normalized_cache_sound [OF b, of t] show ?thesis by (simp add: s d)
qed

lemma newUserModel_later:
  assumes "newUserModel u t0 ids auths v std custom roles groups = Ok m" "t0 \<le> t"
    and "\<And>st. um_AccountStatusStaleFrom m = Some st \<Longrightarrow> t < st"
  shows "\<exists>m'. newUserModel u t ids auths v std custom roles groups = Ok m' \<and> forget_user_period m' = forget_user_period m"
proof -
  from assms(1) obtain s where s: "WithRefTime (au_Status u) t0 = Ok s" and st: "um_AccountStatusStaleFrom m = accountStatusStaleFrom (accountStatus s)"
    by (auto simp: newUserModel_def User_AccountStatus_def Let_def)
  from WithRefTime_later [OF s assms(2)] assms(3) st obtain s' where s': "WithRefTime (au_Status u) t = Ok s'"
    "forget_period (accountStatus s') = forget_period (accountStatus s)" "isDisabled (accountStatus s') = isDisabled (accountStatus s)" by auto
  note eqs = forget_period_sel [OF s'(2)]
  from WithRefTime_IsDisabled [OF s] WithRefTime_IsDisabled [OF s'(1)] s'(3)
  have "IsDisabled s' = IsDisabled s" by simp
  moreover have "IsDeactivated s' = IsDeactivated s" "IsAnonymized s' = IsAnonymized s"
    using eqs by (simp_all add: IsDeactivated_def IsAnonymized_def)
  ultimately show ?thesis
    using assms(1) s s'(1) eqs by (auto simp: newUserModel_def User_AccountStatus_def Let_def forget_user_period_def)
qed

section \<open>Anonymized users\<close>

lemma dropPastPeriod_keeps [simp]:
  "isAnonymized (accountStatus (dropPastPeriod s)) = isAnonymized (accountStatus s)"
  "isIndefinitelyDisabled (accountStatus (dropPastPeriod s)) = isIndefinitelyDisabled (accountStatus s)"
  "isDeactivated (accountStatus (dropPastPeriod s)) = isDeactivated (accountStatus s)"
  by (auto simp: dropPastPeriod_def Let_def split: option.split)

text \<open>The columns by which an account is anonymized, whatever else they hold.\<close>

definition anonymized_status :: "account_status \<Rightarrow> bool" where
  "anonymized_status a \<longleftrightarrow> isAnonymized a = Some True \<and> isIndefinitelyDisabled a = Some True \<and> isDeactivated a = Some False"

lemma IsDisabled_anonymized: "isAnonymized (accountStatus s) = Some True \<Longrightarrow> IsDisabled s = Ok True"
  by (simp add: IsDisabled_def Check_def IsAnonymized_def)

lemma Anonymize_status: "Anonymize s = Ok s' \<Longrightarrow> anonymized_status (accountStatus s')"
  by (auto simp: Anonymize_def normalizeOnChange_eq validated_def conclude_def anonymized_status_def Let_def
      split: option.splits if_splits)

lemma read_anonymized:
  assumes "anonymized_status a"
  shows "\<exists>s. WithRefTime a t = Ok s \<and> anonymized_status (accountStatus s)"
  using assms by (simp add: WithRefTime_def normalizeOnRead_def normalizeOnChange_eq anonymized_status_def
      IsDisabled_anonymized Let_def)

lemma update_user_rows:
  assumes "update_user app P f db = (Ok (), db')"
  shows "app_rows app db' = map (\<lambda>u. if P (au_ID u) then f u else u) (app_rows app db)"
proof -
  have "app_rows app (map (\<lambda>(a, u). (a, if a = app \<and> P (au_ID u) then f u else u)) db)
      = map (\<lambda>u. if P (au_ID u) then f u else u) (app_rows app db)"
    by (induction db) (auto simp: app_rows_def)
  with assms show ?thesis by (simp add: update_user_def run_simps)
qed

lemma of_status_Ok: "of_status m s = (Ok x, s') \<longleftrightarrow> m = Ok x \<and> s' = s"
  by (cases m) (auto simp: run_simps)

lemma Store_Get_same: "Store_Get app userID db = (Ok u, db') \<Longrightarrow> db' = db"
  by (auto simp: Store_Get_def bindp_def run_simps split: option.splits)

text \<open>A user that was anonymized is gone for good: after the command the row holds no attributes, and at any
  later time, whatever the other services know of the user, the user is read as anonymized and
  disabled.\<close>

theorem anonymized_user_stays_disabled:
  assumes "RawCommands_Anonymize now app userID db = (Ok (), db')" "u \<in> set (app_rows app db')" "au_ID u = userID"
  shows "au_StandardAttributes u = None \<and> au_CustomAttributes u = None \<and>
    (\<exists>m. newUserModel u t identities authenticators verified std custom roles groups = Ok m \<and> um_IsAnonymized m \<and> um_IsDisabled m)"
proof -
  from assms(1) obtain v status db1 where g: "Store_Get app userID db = (Ok v, db)"
    and v: "bind_oc (User_AccountStatus v now) Anonymize = Ok status"
    and d1: "Store_UpdateAccountStatus now app userID status db = (Ok (), db1)"
    and d2: "Store_SetAllAttributesToNull now app userID db1 = (Ok (), db')"
    unfolding RawCommands_Anonymize_def bindp_Ok of_status_Ok by (auto dest: Store_Get_same simp del: bind_oc_Ok_conv)
  from v have st: "anonymized_status (accountStatus status)" by (auto intro: Anonymize_status)
  have "app_rows app db' = map (\<lambda>u. if au_ID u = userID then u\<lparr>au_Status := accountStatus status,
      au_StandardAttributes := None, au_CustomAttributes := None, au_UpdatedAt := now\<rparr> else u) (app_rows app db)"
    using update_user_rows [OF d1 [unfolded Store_UpdateAccountStatus_def]] update_user_rows [OF d2 [unfolded Store_SetAllAttributesToNull_def]] by simp
  with assms(2) have "\<exists>x \<in> set (app_rows app db). u = (if au_ID x = userID then x\<lparr>au_Status := accountStatus status,
      au_StandardAttributes := None, au_CustomAttributes := None, au_UpdatedAt := now\<rparr> else x)"
    by (simp only: set_map image_iff)
  then obtain x where x: "u = (if au_ID x = userID then x\<lparr>au_Status := accountStatus status,
      au_StandardAttributes := None, au_CustomAttributes := None, au_UpdatedAt := now\<rparr> else x)" by blast
  have "au_ID x = userID" using assms(3) unfolding x by (simp split: if_splits)
  then have u: "au_StandardAttributes u = None" "au_CustomAttributes u = None" "au_Status u = accountStatus status"
    by (simp_all add: x)
  from read_anonymized [OF st, of t] obtain s where s: "WithRefTime (au_Status u) t = Ok s" "anonymized_status (accountStatus s)"
    using u(3) by auto
  then have "IsDisabled s = Ok True" "IsAnonymized s = Ok True" "IsDeactivated s = Ok False"
    by (simp_all add: IsDisabled_anonymized anonymized_status_def IsAnonymized_def IsDeactivated_def)
  with s(1) u show ?thesis by (simp add: newUserModel_def User_AccountStatus_def Let_def)
qed

theorem anonymized_user_stays_disabled_witness:
  "\<exists>m. newUserModel (snd (hd (snd (bindp (RawCommands_Create 5 ''app'' ''u'') (\<lambda>_. RawCommands_Anonymize 7 ''app'' ''u'') []))))
     100 [] [] False None None None None = Ok m \<and> um_IsAnonymized m \<and> um_IsDisabled m"
proof -
  define u0 where "u0 = (RawCommands_New 5 ''u'')\<lparr>au_CustomAttributes := Some []\<rparr>"
  have c: "RawCommands_Create 5 ''app'' ''u'' [] = (Ok (RawCommands_New 5 ''u''), [(''app'', u0)])"
    by (simp add: RawCommands_Create_def Store_Create_def run_simps bindp_def Let_def u0_def scan_user_def RawCommands_New_def)
  let ?db = "[(''app'', u0)]"
  have g: "Store_Get ''app'' ''u'' ?db = (Ok u0, ?db)"
    by (simp add: Store_Get_def app_rows_def run_simps u0_def scan_user_def RawCommands_New_def)
  obtain status where st: "bind_oc (User_AccountStatus u0 7) Anonymize = Ok status"
    by (simp add: u0_def RawCommands_New_def User_AccountStatus_def WithRefTime_def normalizeOnRead_def normalizeOnChange_def
        dropPastPeriod_def IsDisabled_def Check_def IsAnonymized_def isOutsideValidPeriod_def variant_def Let_def
        deriveAccountStatusStaleFrom_def Anonymize_def validated_def checkAllTimestampsAreValid_def conclude_def)
  obtain u where a: "RawCommands_Anonymize 7 ''app'' ''u'' ?db = (Ok (), [(''app'', u)])" and u: "au_ID u = ''u''"
    using g st by (auto simp: RawCommands_Anonymize_def bindp_def run_simps Store_UpdateAccountStatus_def
        Store_SetAllAttributesToNull_def update_user_def u0_def RawCommands_New_def)
  have "u \<in> set (app_rows ''app'' [(''app'', u)])" by (simp add: app_rows_def)
  from anonymized_user_stays_disabled [OF a this u, of 100 "[]" "[]" False None None None None] c a
  show ?thesis by (simp add: bindp_run)
qed

end
