(* ===== verification/HookSink.thy ===== *)
theory HookSink imports EventPayload begin

text \<open>
  Hooks: \<^verbatim>\<open>pkg/lib/hook\<close>. A blocking event is put to its handlers one after another; each may forbid
  the operation or change the payload, and what they changed of the user is written at the end. A
  nonblocking event is sent off and not waited for (\<open>ss_Async\<close>). The network, JSON and the deno
  scripts are arguments; a request takes some time on the monotonic clock.
\<close>

record BlockingHandlersConfig =
  bh_Event :: string
  bh_URL :: string

record NonBlockingHandlersConfig =
  nh_Events :: "string list"
  nh_URL :: string

record HookConfig =
  hc_SyncTimeout :: duration
  hc_SyncTotalTimeout :: duration
  hc_BlockingHandlers :: "BlockingHandlersConfig list"
  hc_NonBlockingHandlers :: "NonBlockingHandlersConfig list"

definition HookConfig_SetDefaults :: "HookConfig \<Rightarrow> HookConfig" where
  "HookConfig_SetDefaults c = (let
     c = (if hc_SyncTimeout c = 0 then c\<lparr>hc_SyncTimeout := 5\<rparr> else c)
   in if hc_SyncTotalTimeout c = 0 then c\<lparr>hc_SyncTotalTimeout := 10\<rparr> else c)"

datatype event_error =
    HookDisallowed string "(string \<times> string) list"
  | HookTotalTimeout duration duration
  | HookDeliveryTimeout
  | HookDeliveryUnknownFailure
  | HookInvalidResponse string
  | DenoRunError string
  | UnsupportedHookURL string
  | FailedToDispatch event_error
  | OtherError string

text \<open>What leaves the server: a signed web hook or a script with its input.\<close>

datatype outgoing =
    WebRequest (wr_URL: string) (wr_Body: string) (wr_Signature: string)
  | DenoRun (dr_Script: string) (dr_Input: string)

datatype net_result = NetTimeout | NetFailed string | NetResponse int string

record 'x hook_env =
  he_ParseURL :: "string \<Rightarrow> (string \<times> string) option"
  he_Marshal :: "Event \<Rightarrow> string option"
  he_OctetKey :: "string option"
  he_HMACSHA256 :: "string \<Rightarrow> string \<Rightarrow> string"
  he_Do :: "outgoing \<Rightarrow> duration \<Rightarrow> 'x \<Rightarrow> net_result \<times> duration \<times> 'x"
  he_ReadScript :: "string \<Rightarrow> string option"
  he_DecodeRun :: "string \<Rightarrow> (string \<times> string) option"
  he_SchemaParse :: "string \<Rightarrow> (string \<Rightarrow> HookResponse option) option"

record ('d, 'x) sink_state =
  ss_DB :: 'd
  ss_Mono :: time
  ss_Net :: 'x
  ss_Async :: "outgoing list"

type_synonym ('d, 'x, 'a) sink_proc = "(('d, 'x) sink_state, event_error, 'a) proc"

definition some_or :: "'e \<Rightarrow> 'a option \<Rightarrow> ('s, 'e, 'a) proc" where
  "some_or e v = (case v of None \<Rightarrow> failp e | Some x \<Rightarrow> ret x)"

section \<open>Requests\<close>

definition perform :: "'x hook_env \<Rightarrow> outgoing \<Rightarrow> duration \<Rightarrow> ('d, 'x, net_result) sink_proc" where
  "perform env req timeout = (\<lambda>s. case he_Do env req timeout (ss_Net s) of
     (r, d, net) \<Rightarrow> (Ok r, s\<lparr>ss_Mono := ss_Mono s + d, ss_Net := net\<rparr>))"

definition PrepareRequest :: "'x hook_env \<Rightarrow> string \<Rightarrow> Event \<Rightarrow> ('s, event_error, outgoing) proc" where
  "PrepareRequest env url e =
     bindp (some_or (OtherError ''json'') (he_Marshal env e)) (\<lambda>body.
     bindp (some_or (OtherError ''key'') (he_OctetKey env)) (\<lambda>key.
     ret (WebRequest url body (he_HMACSHA256 env key body))))"

definition performRequest :: "'x hook_env \<Rightarrow> duration \<Rightarrow> outgoing \<Rightarrow> ('d, 'x, string) sink_proc" where
  "performRequest env timeout req = bindp (perform env req timeout) (\<lambda>r. case r of
     NetTimeout \<Rightarrow> failp HookDeliveryTimeout
   | NetFailed _ \<Rightarrow> failp HookDeliveryUnknownFailure
   | NetResponse status body \<Rightarrow>
       if status < 200 \<or> status \<ge> 300 then failp (HookInvalidResponse ''invalid status code'') else ret body)"

definition ParseHookResponse :: "'x hook_env \<Rightarrow> string \<Rightarrow> string \<Rightarrow> ('s, event_error, HookResponse) proc" where
  "ParseHookResponse env type body = (case he_SchemaParse env type of
     None \<Rightarrow> panicp
   | Some parse \<Rightarrow> some_or (HookInvalidResponse ''invalid response body'') (parse body))"

definition Web_DeliverBlockingEvent :: "HookConfig \<Rightarrow> 'x hook_env \<Rightarrow> string \<Rightarrow> Event \<Rightarrow> ('d, 'x, HookResponse) sink_proc" where
  "Web_DeliverBlockingEvent cfg env url e = bindp (PrepareRequest env url e) (\<lambda>req.
     bindp (performRequest env (hc_SyncTimeout cfg) req) (ParseHookResponse env (ev_Type e)))"

definition go_async :: "outgoing \<Rightarrow> ('d, 'x, unit) sink_proc" where
  "go_async out = modp (\<lambda>s. s\<lparr>ss_Async := ss_Async s @ [out]\<rparr>)"

definition Web_DeliverNonBlockingEvent :: "'x hook_env \<Rightarrow> string \<Rightarrow> Event \<Rightarrow> ('d, 'x, unit) sink_proc" where
  "Web_DeliverNonBlockingEvent env url e = bindp (PrepareRequest env url e) go_async"

section \<open>Scripts\<close>

text \<open>\<^verbatim>\<open>DenoClientImpl.Run\<close>: only status 200 is an answer; the answer is an error or the output of the script.\<close>

definition Deno_Run :: "'x hook_env \<Rightarrow> duration \<Rightarrow> string \<Rightarrow> string \<Rightarrow> ('d, 'x, string) sink_proc" where
  "Deno_Run env timeout script input = bindp (perform env (DenoRun script input) timeout) (\<lambda>r. case r of
     NetTimeout \<Rightarrow> failp (OtherError ''timeout'')
   | NetFailed msg \<Rightarrow> failp (OtherError msg)
   | NetResponse status body \<Rightarrow>
       if status \<noteq> 200 then failp (HookInvalidResponse ''invalid status code'')
       else bindp (some_or (OtherError ''json'') (he_DecodeRun env body)) (\<lambda>(error, out).
         if error \<noteq> '''' then failp (DenoRunError error) else ret out))"

definition rel :: "string \<Rightarrow> string" where
  "rel p = (case p of CHR ''/'' # cs \<Rightarrow> cs | _ \<Rightarrow> p)"

definition loadScript :: "'x hook_env \<Rightarrow> string \<Rightarrow> ('s, event_error, string) proc" where
  "loadScript env path = some_or (OtherError ''script'') (he_ReadScript env (rel path))"

definition Deno_DeliverBlockingEvent :: "HookConfig \<Rightarrow> 'x hook_env \<Rightarrow> string \<Rightarrow> Event \<Rightarrow> ('d, 'x, HookResponse) sink_proc" where
  "Deno_DeliverBlockingEvent cfg env path e = bindp (loadScript env path) (\<lambda>script.
     bindp (some_or (OtherError ''json'') (he_Marshal env e)) (\<lambda>input.
     bindp (Deno_Run env (hc_SyncTimeout cfg) script input) (ParseHookResponse env (ev_Type e))))"

definition Deno_DeliverNonBlockingEvent :: "'x hook_env \<Rightarrow> string \<Rightarrow> Event \<Rightarrow> ('d, 'x, unit) sink_proc" where
  "Deno_DeliverNonBlockingEvent env path e = bindp (loadScript env path) (\<lambda>script.
     bindp (some_or (OtherError ''json'') (he_Marshal env e)) (\<lambda>input. go_async (DenoRun script input)))"

section \<open>The sink\<close>

definition Web_SupportURL :: "string \<Rightarrow> bool" where
  "Web_SupportURL scheme \<longleftrightarrow> scheme = ''http'' \<or> scheme = ''https''"

definition Deno_SupportURL :: "string \<Rightarrow> bool" where
  "Deno_SupportURL scheme \<longleftrightarrow> scheme = ''authgeardeno''"

definition deliverBlockingEvent :: "HookConfig \<Rightarrow> 'x hook_env \<Rightarrow> string \<Rightarrow> Event \<Rightarrow> ('d, 'x, HookResponse) sink_proc" where
  "deliverBlockingEvent cfg env url e = bindp (some_or (OtherError ''url'') (he_ParseURL env url)) (\<lambda>(scheme, path).
     if Web_SupportURL scheme then Web_DeliverBlockingEvent cfg env url e
     else if Deno_SupportURL scheme then Deno_DeliverBlockingEvent cfg env path e
     else failp (UnsupportedHookURL url))"

definition deliverNonBlockingEvent :: "'x hook_env \<Rightarrow> string \<Rightarrow> Event \<Rightarrow> ('d, 'x, unit) sink_proc" where
  "deliverNonBlockingEvent env url e = bindp (some_or (OtherError ''url'') (he_ParseURL env url)) (\<lambda>(scheme, path).
     if Web_SupportURL scheme then Web_DeliverNonBlockingEvent env url e
     else if Deno_SupportURL scheme then Deno_DeliverNonBlockingEvent env path e
     else failp (UnsupportedHookURL url))"

definition WillDeliverBlockingEvent :: "HookConfig \<Rightarrow> string \<Rightarrow> bool" where
  "WillDeliverBlockingEvent cfg type = (\<exists>h \<in> set (hc_BlockingHandlers cfg). bh_Event h = type)"

definition checkDeliver :: "string list \<Rightarrow> string \<Rightarrow> bool" where
  "checkDeliver events target = (\<exists>e \<in> set events. e = ''*'' \<or> e = target)"

definition WillDeliverNonBlockingEvent :: "HookConfig \<Rightarrow> string \<Rightarrow> bool" where
  "WillDeliverNonBlockingEvent cfg type = (\<exists>h \<in> set (hc_NonBlockingHandlers cfg). checkDeliver (nh_Events h) type)"

text \<open>The loop over the handlers: the event as it is after them, and whether there is something to write.\<close>

fun ask_handlers :: "HookConfig \<Rightarrow> 'x hook_env \<Rightarrow> time \<Rightarrow> BlockingHandlersConfig list \<Rightarrow> Event \<Rightarrow> bool \<Rightarrow>
    ('d, 'x, Event \<times> bool) sink_proc" where
  "ask_handlers cfg env startTime [] e mutated = ret (e, mutated)"
| "ask_handlers cfg env startTime (hook # hooks) e mutated =
     (if bh_Event hook \<noteq> ev_Type e then ask_handlers cfg env startTime hooks e mutated
      else bindp (getp (\<lambda>s. ss_Mono s - startTime)) (\<lambda>elapsed.
        if elapsed > hc_SyncTotalTimeout cfg then failp (HookTotalTimeout elapsed (hc_SyncTotalTimeout cfg))
        else bindp (deliverBlockingEvent cfg env (bh_URL hook) e) (\<lambda>resp.
          if \<not> hr_IsAllowed resp then failp (HookDisallowed (ev_Type e) [(hr_Title resp, hr_Reason resp)])
          else (let (e, m) = Event_ApplyHookResponse e resp in ask_handlers cfg env startTime hooks e (mutated \<or> m)))))"

text \<open>A write to the database from a sink.\<close>

definition on_db :: "('d, 'e, 'a) proc \<Rightarrow> (('d, 'x) sink_state, 'e, 'a) proc" where
  "on_db p = (\<lambda>s. case p (ss_DB s) of (r, db) \<Rightarrow> (r, s\<lparr>ss_DB := db\<rparr>))"

definition DeliverBlockingEvent :: "HookConfig \<Rightarrow> 'x hook_env \<Rightarrow> ('d, event_error) MutationsEffectContext \<Rightarrow> Event \<Rightarrow>
    ('d, 'x, Event) sink_proc" where
  "DeliverBlockingEvent cfg env ec e = bindp (getp ss_Mono) (\<lambda>startTime.
     bindp (ask_handlers cfg env startTime (hc_BlockingHandlers cfg) e False) (\<lambda>(e, mutationsEverApplied).
     bindp (if mutationsEverApplied then on_db (Event_PerformEffects ec e) else ret ()) (\<lambda>_. ret e)))"

fun is_disallowed :: "event_error \<Rightarrow> bool" where
  "is_disallowed (HookDisallowed _ _) = True"
| "is_disallowed _ = False"

definition Hook_ReceiveBlockingEvent :: "HookConfig \<Rightarrow> 'x hook_env \<Rightarrow> ('d, event_error) MutationsEffectContext \<Rightarrow> Event \<Rightarrow>
    ('d, 'x, Event) sink_proc" where
  "Hook_ReceiveBlockingEvent cfg env ec e = (if \<not> WillDeliverBlockingEvent cfg (ev_Type e) then ret e
     else bindp (attempt (DeliverBlockingEvent cfg env ec e)) (\<lambda>r. case r of
       Inr e \<Rightarrow> ret e
     | Inl err \<Rightarrow> failp (if is_disallowed err then err else FailedToDispatch err)))"

fun send_all :: "'x hook_env \<Rightarrow> Event \<Rightarrow> string list \<Rightarrow> ('d, 'x, unit) sink_proc" where
  "send_all env e [] = ret ()"
| "send_all env e (url # urls) = bindp (ignore_err (deliverNonBlockingEvent env url e)) (\<lambda>_. send_all env e urls)"

definition extraHookURLs :: "Event \<Rightarrow> string list" where
  "extraHookURLs e = (case ev_Payload e of NonBlocking p \<Rightarrow> nb_ExtraHookURLs p | _ \<Rightarrow> [])"

definition DeliverNonBlockingEvent :: "HookConfig \<Rightarrow> 'x hook_env \<Rightarrow> Event \<Rightarrow> ('d, 'x, unit) sink_proc" where
  "DeliverNonBlockingEvent cfg env e = (if \<not> ev_IsNonBlocking e then ret () else
     bindp (send_all env e (map nh_URL (filter (\<lambda>h. checkDeliver (nh_Events h) (ev_Type e)) (hc_NonBlockingHandlers cfg)))) (\<lambda>_.
     send_all env e (extraHookURLs e)))"

definition Hook_ReceiveNonBlockingEvent :: "HookConfig \<Rightarrow> 'x hook_env \<Rightarrow> Event \<Rightarrow> ('d, 'x, unit) sink_proc" where
  "Hook_ReceiveNonBlockingEvent cfg env e = (case ev_Payload e of
     NonBlocking p \<Rightarrow>
       if \<not> nb_ForHook p then ret ()
       else if WillDeliverNonBlockingEvent cfg (ev_Type e) \<or> extraHookURLs e \<noteq> [] then DeliverNonBlockingEvent cfg env e
       else ret ()
   | _ \<Rightarrow> panicp)"

section \<open>Time\<close>

text \<open>A procedure spends at most so much time.\<close>

definition spends :: "duration \<Rightarrow> ('d, 'x, 'a) sink_proc \<Rightarrow> bool" where
  "spends T m \<longleftrightarrow> (\<forall>s. ss_Mono s \<le> ss_Mono (snd (m s)) \<and> ss_Mono (snd (m s)) \<le> ss_Mono s + T)"

definition timely :: "'x hook_env \<Rightarrow> bool" where
  "timely env \<longleftrightarrow> (\<forall>out T net. 0 \<le> T \<longrightarrow> 0 \<le> fst (snd (he_Do env out T net)) \<and> fst (snd (he_Do env out T net)) \<le> T)"

lemma spends_simple:
  "0 \<le> T \<Longrightarrow> spends T (ret x)" "0 \<le> T \<Longrightarrow> spends T (failp e)" "0 \<le> T \<Longrightarrow> spends T panicp"
  "0 \<le> T \<Longrightarrow> spends T (some_or e v)" "0 \<le> T \<Longrightarrow> spends T (on_db p)" "0 \<le> T \<Longrightarrow> spends T (getp g)"
  by (auto simp: spends_def run_simps some_or_def on_db_def split: option.split prod.split)

lemma spends_first: "spends T m \<Longrightarrow> (\<And>x. spends 0 (f x)) \<Longrightarrow> spends T (bindp m f)"
  unfolding spends_def bindp_def by (auto split: prod.split outcome.split) (metis add.right_neutral order.trans snd_conv)+

lemma spends_last: "spends 0 m \<Longrightarrow> (\<And>x. spends T (f x)) \<Longrightarrow> 0 \<le> T \<Longrightarrow> spends T (bindp m f)"
  unfolding spends_def bindp_def
  by (auto split: prod.split outcome.split) (metis add.right_neutral order.trans snd_conv order_antisym add_increasing2)+

lemma spends_perform: "timely env \<Longrightarrow> 0 \<le> T \<Longrightarrow> spends T (perform env out T)"
  by (auto simp: spends_def perform_def timely_def split: prod.split) (metis fst_conv snd_conv)+

lemma spends_parse: "spends 0 (ParseHookResponse env t b)"
  by (auto simp: ParseHookResponse_def intro!: spends_simple split: option.split)

lemma spends_deliver:
  assumes "timely env" "0 \<le> hc_SyncTimeout cfg"
  shows "spends (hc_SyncTimeout cfg) (deliverBlockingEvent cfg env url e)"
proof -
  have "spends 0 (PrepareRequest env url e)"
    unfolding PrepareRequest_def by (intro spends_first spends_simple order_refl)
  moreover have "spends (hc_SyncTimeout cfg) (performRequest env (hc_SyncTimeout cfg) req)" for req
    unfolding performRequest_def
    by (rule spends_first [OF spends_perform [OF assms]]) (auto intro!: spends_simple split: net_result.split)
  ultimately have "spends (hc_SyncTimeout cfg) (Web_DeliverBlockingEvent cfg env url e)"
    unfolding Web_DeliverBlockingEvent_def by (intro spends_last spends_first spends_parse assms)
  moreover have "spends (hc_SyncTimeout cfg) (Deno_DeliverBlockingEvent cfg env path e)" for path
    unfolding Deno_DeliverBlockingEvent_def loadScript_def Deno_Run_def
    by (intro spends_last spends_first spends_perform spends_parse spends_simple assms order_refl)
       (auto intro!: spends_first spends_simple split: net_result.split)
  ultimately show ?thesis
    unfolding deliverBlockingEvent_def using assms(2) by (auto intro!: spends_last spends_simple)
qed

lemma ask_handlers_time:
  assumes "timely env" "0 \<le> hc_SyncTimeout cfg" "start \<le> ss_Mono s"
    "ss_Mono s \<le> start + hc_SyncTotalTimeout cfg + hc_SyncTimeout cfg"
  shows "ss_Mono s \<le> ss_Mono (snd (ask_handlers cfg env start hooks e mutated s)) \<and>
    ss_Mono (snd (ask_handlers cfg env start hooks e mutated s)) \<le> start + hc_SyncTotalTimeout cfg + hc_SyncTimeout cfg"
  using assms(3,4)
proof (induction hooks arbitrary: e mutated s)
  case Nil
  then show ?case by (simp add: run_simps)
next
  case (Cons h hooks)
  show ?case
  proof (cases "bh_Event h \<noteq> ev_Type e \<or> ss_Mono s - start > hc_SyncTotalTimeout cfg")
    case True
    with Cons show ?thesis by (auto simp: run_simps)
  next
    case False
    obtain r s1 where d: "deliverBlockingEvent cfg env (bh_URL h) e s = (r, s1)" by force
    from spends_deliver [OF assms(1,2), of "bh_URL h" e] d
    have s1: "ss_Mono s \<le> ss_Mono s1" "ss_Mono s1 \<le> ss_Mono s + hc_SyncTimeout cfg"
      by (auto simp: spends_def dest: spec [of _ s])
    show ?thesis
    proof (cases "\<exists>resp. r = Ok resp \<and> hr_IsAllowed resp")
      case True
      then obtain resp where r: "r = Ok resp" "hr_IsAllowed resp" by blast
      from s1 False Cons.prems have "start \<le> ss_Mono s1" "ss_Mono s1 \<le> start + hc_SyncTotalTimeout cfg + hc_SyncTimeout cfg"
        by auto
      from Cons.IH [OF this] False r d s1 show ?thesis
        by (auto simp: bindp_run Let_def case_prod_beta intro: order.trans)
    next
      case False2: False
      with False d s1 Cons.prems show ?thesis
        by (cases r) (auto simp: bindp_run run_simps)
    qed
  qed
qed

lemma on_db_Mono [simp]: "ss_Mono (snd (on_db p s)) = ss_Mono s"
  by (simp add: on_db_def split: prod.split)

text \<open>Asking the blocking hooks takes at most the total timeout and the timeout of one request more,
  however many handlers there are and however they behave, whether the event is let through or not.\<close>

theorem blocking_hooks_time:
  assumes "timely env" "0 \<le> hc_SyncTimeout cfg" "0 \<le> hc_SyncTotalTimeout cfg"
  shows "ss_Mono (snd (Hook_ReceiveBlockingEvent cfg env ec e s)) - ss_Mono s \<le> hc_SyncTotalTimeout cfg + hc_SyncTimeout cfg"
proof -
  obtain r s1 where a: "ask_handlers cfg env (ss_Mono s) (hc_BlockingHandlers cfg) e False s = (r, s1)" by force
  from ask_handlers_time [OF assms(1,2), of "ss_Mono s" s "hc_BlockingHandlers cfg" e False] assms a
  have "ss_Mono s1 \<le> ss_Mono s + hc_SyncTotalTimeout cfg + hc_SyncTimeout cfg" by simp
  moreover have "ss_Mono (snd (DeliverBlockingEvent cfg env ec e s)) = ss_Mono s1"
    using a on_db_Mono [of "Event_PerformEffects ec _" s1]
    by (auto simp: DeliverBlockingEvent_def bindp_def run_simps split: prod.splits outcome.splits)
       (metis on_db_Mono snd_conv)+
  moreover have "snd (Hook_ReceiveBlockingEvent cfg env ec e s) = snd (DeliverBlockingEvent cfg env ec e s)
      \<or> snd (Hook_ReceiveBlockingEvent cfg env ec e s) = s"
    by (auto simp: Hook_ReceiveBlockingEvent_def bindp_def attempt_def run_simps split: prod.splits outcome.splits sum.splits)
  ultimately show ?thesis using assms by auto
qed

text \<open>A hook server that answers after three seconds with what the request asks for, and a user that is about to be created.\<close>

definition no_change :: UserMutations where
  "no_change = \<lparr>m_StandardAttributes = None, m_CustomAttributes = None, m_Roles = None, m_Groups = None\<rparr>"

definition answer :: "bool \<Rightarrow> UserMutations \<Rightarrow> HookResponse" where
  "answer allowed m = \<lparr>hr_IsAllowed = allowed, hr_Title = '''', hr_Reason = '''', hr_User = m, hr_JWT = None,
     hr_IDToken = None, hr_Constraints = None, hr_BotProtection = None, hr_RateLimits = None\<rparr>"

definition example_answers :: "string \<Rightarrow> HookResponse option" where
  "example_answers body = (if body = ''yes'' then Some (answer True no_change)
     else if body = ''role'' then Some (answer True (no_change\<lparr>m_Roles := Some [''admin'']\<rparr>))
     else if body = ''no'' then Some (answer False no_change) else None)"

definition example_env :: "nat hook_env" where
  "example_env = \<lparr>he_ParseURL = \<lambda>u. Some (''https'', u), he_Marshal = \<lambda>e. Some ''{}'', he_OctetKey = Some ''k'',
     he_HMACSHA256 = \<lambda>k b. k @ b, he_Do = \<lambda>out T n. (NetResponse 200 (wr_URL out), min T 3, n + 1),
     he_ReadScript = \<lambda>_. None, he_DecodeRun = \<lambda>_. None, he_SchemaParse = \<lambda>_. Some example_answers\<rparr>"

definition example_config :: "string list \<Rightarrow> HookConfig" where
  "example_config urls = HookConfig_SetDefaults \<lparr>hc_SyncTimeout = 0, hc_SyncTotalTimeout = 0,
     hc_BlockingHandlers = map (\<lambda>u. \<lparr>bh_Event = ''user.pre_create'', bh_URL = u\<rparr>) urls, hc_NonBlockingHandlers = []\<rparr>"

definition example_user :: UserModel where
  "example_user = \<lparr>um_ID = ''u'', um_CreatedAt = 0, um_UpdatedAt = 0, um_LastLoginAt = None, um_IsAnonymous = False,
     um_IsVerified = False, um_IsDisabled = False, um_DisableReason = None, um_IsDeactivated = False, um_DeleteAt = None,
     um_DeleteReason = None, um_IsAnonymized = False, um_AnonymizeAt = None, um_TemporarilyDisabledFrom = None,
     um_TemporarilyDisabledUntil = None, um_AccountValidFrom = None, um_AccountValidUntil = None,
     um_AccountStatusStaleFrom = None, um_CanReauthenticate = False, um_StandardAttributes = Some [],
     um_CustomAttributes = Some [], um_Roles = None, um_Groups = None, um_MFAGracePeriodEndAt = None,
     um_EndUserAccountID = ''''\<rparr>"

definition example_context :: Event_Context where
  "example_context = \<lparr>ctx_Timestamp = 0, ctx_UserID = Some ''u'', ctx_TriggeredBy = ''user'', ctx_AuditContext = [],
     ctx_PreferredLanguages = [], ctx_Language = ''en'', ctx_OAuth = None, ctx_IPAddress = '''', ctx_GeoLocationCode = None,
     ctx_UserAgent = '''', ctx_AppID = ''app'', ctx_ClientID = '''', ctx_TrackingID = ''''\<rparr>"

definition example_event :: Event where
  "example_event = newBlockingEvent 1 (UserPayload UserPreCreate ''u'' example_user False JNull) example_context"

definition example_effects :: "(string list, event_error) MutationsEffectContext" where
  "example_effects = \<lparr>ec_UpdateStandardAttributes = \<lambda>u a. modp (\<lambda>l. l @ [''standard'']),
     ec_UpdateAllCustomAttributes = \<lambda>u a. modp (\<lambda>l. l @ [''custom'']), ec_ResetUserRole = \<lambda>u r. modp (\<lambda>l. l @ r),
     ec_ResetUserGroup = \<lambda>u g. modp (\<lambda>l. l @ g)\<rparr>"

definition example_sink :: "(string list, nat) sink_state" where
  "example_sink = \<lparr>ss_DB = [], ss_Mono = 0, ss_Net = 0, ss_Async = []\<rparr>"

lemma timely_example: "timely example_env"
  by (auto simp: timely_def example_env_def)

lemmas example_hooks = example_env_def example_config_def example_event_def example_effects_def example_sink_def example_user_def
  example_context_def newBlockingEvent_def newEvent_def HookConfig_SetDefaults_def

theorem blocking_hooks_time_witness:
  "ss_Mono (snd (Hook_ReceiveBlockingEvent (example_config [''yes'', ''yes'', ''yes'', ''yes'', ''yes'']) example_env example_effects
     example_event example_sink)) \<le> 15"
  using blocking_hooks_time [of example_env "example_config [''yes'', ''yes'', ''yes'', ''yes'', ''yes'']" example_effects
    example_event example_sink, OF timely_example]
  by (simp add: example_config_def HookConfig_SetDefaults_def) (simp add: example_sink_def)

section \<open>A veto\<close>

text \<open>Handlers before the veto change the event but not its type, and nothing is written.\<close>

lemma Event_Apply_Type [simp]: "ev_Type (fst (Event_ApplyHookResponse e r)) = ev_Type e"
  by (simp add: Event_ApplyHookResponse_def case_prod_beta split: payload.split)

lemma perform_DB [simp]: "ss_DB (snd (perform env out T s)) = ss_DB s"
  by (simp add: perform_def split: prod.split)

lemma same_DB: "reflp (\<lambda>s s'. ss_DB s' = ss_DB s)" "transp (\<lambda>s s'. ss_DB s' = ss_DB s)"
  by (auto simp: reflp_def transp_def)

lemma writes_nothing_simps [keeps_intros]:
  "keeps (\<lambda>s s'. ss_DB s' = ss_DB s) (perform env out T)"
  "keeps (\<lambda>s s'. ss_DB s' = ss_DB s) (some_or e v)"
  "keeps (\<lambda>s s'. ss_DB s' = ss_DB s) (PrepareRequest env url ev)"
  "keeps (\<lambda>s s'. ss_DB s' = ss_DB s) (ParseHookResponse env t b)"
  "keeps (\<lambda>s s'. ss_DB s' = ss_DB s) (loadScript env path)"
proof -
  let ?R = "\<lambda>s s'. ss_DB s' = ss_DB s"
  show "keeps ?R (perform env out T)" by (simp add: keeps_def)
  have some: "keeps ?R (some_or e v)" for e :: event_error and v :: "'z option"
    by (simp add: keeps_def some_or_def run_simps split: option.split)
  show "keeps ?R (some_or e v)" by (simp add: keeps_def some_or_def run_simps split: option.split)
  show "keeps ?R (PrepareRequest env url ev)"
    unfolding PrepareRequest_def by (intro keeps_intros same_DB some)
  show "keeps ?R (ParseHookResponse env t b)"
    by (auto simp: keeps_def ParseHookResponse_def some_or_def run_simps split: option.split)
  show "keeps ?R (loadScript env path)"
    unfolding loadScript_def by (rule some)
qed

lemma deliver_writes_nothing [keeps_intros]: "keeps (\<lambda>s s'. ss_DB s' = ss_DB s) (deliverBlockingEvent cfg env url e)"
proof -
  let ?R = "\<lambda>s s'. ss_DB s' = ss_DB s"
  have "keeps ?R (Web_DeliverBlockingEvent cfg env url e)"
    unfolding Web_DeliverBlockingEvent_def performRequest_def
    by (intro keeps_intros same_DB) (auto intro!: keeps_intros same_DB split: net_result.split)
  moreover have "keeps ?R (Deno_DeliverBlockingEvent cfg env path e)" for path
    unfolding Deno_DeliverBlockingEvent_def Deno_Run_def
    by (intro keeps_intros same_DB) (auto intro!: keeps_intros same_DB split: net_result.split)
  ultimately show ?thesis
    unfolding deliverBlockingEvent_def by (auto intro!: keeps_intros same_DB)
qed

lemma ask_writes_nothing: "keeps (\<lambda>s s'. ss_DB s' = ss_DB s) (ask_handlers cfg env start hooks e mutated)"
  by (induction hooks arbitrary: e mutated)
     (auto intro!: keeps_intros same_DB simp: Let_def split: prod.split)

text \<open>A handler that forbids whatever it is asked, or does not answer properly.\<close>

definition forbids :: "HookConfig \<Rightarrow> 'x hook_env \<Rightarrow> string \<Rightarrow> 'd itself \<Rightarrow> bool" where
  "forbids cfg env url _ \<longleftrightarrow> (\<forall>e s resp. \<forall>s' :: ('d, 'x) sink_state.
     deliverBlockingEvent cfg env url e s = (Ok resp, s') \<longrightarrow> \<not> hr_IsAllowed resp)"

lemma ask_handlers_veto:
  fixes s :: "('d, 'x) sink_state"
  assumes "h \<in> set hooks" "bh_Event h = ev_Type e" "forbids cfg env (bh_URL h) TYPE('d)"
  shows "fst (ask_handlers cfg env start hooks e mutated s) \<noteq> Ok r"
  using assms(1,2)
proof (induction hooks arbitrary: e mutated s)
  case (Cons h' hooks)
  show ?case
  proof (cases "bh_Event h' \<noteq> ev_Type e \<or> ss_Mono s - start > hc_SyncTotalTimeout cfg")
    case True
    with Cons show ?thesis by (auto simp: run_simps)
  next
    case False
    obtain d s1 where d: "deliverBlockingEvent cfg env (bh_URL h') e s = (d, s1)" by force
    show ?thesis
    proof (cases "\<exists>resp. d = Ok resp \<and> hr_IsAllowed resp")
      case True
      then obtain resp where r: "d = Ok resp" "hr_IsAllowed resp" by blast
      with d assms(3) have "h \<noteq> h'" by (auto simp: forbids_def)
      with Cons.prems have "h \<in> set hooks" by simp
      from Cons.IH [OF this] Cons.prems False r d show ?thesis
        by (auto simp: bindp_run Let_def case_prod_beta)
    next
      case False2: False
      with False d show ?thesis by (cases d) (auto simp: bindp_run run_simps)
    qed
  qed
qed simp

text \<open>C11: a blocking hook that forbids an operation stops it. When one of the handlers of the event's type never
  answers that the operation is allowed, the sink does not let the event through, and nothing the
  other handlers asked for has been written.\<close>

theorem blocking_hook_veto:
  fixes s :: "('d, 'x) sink_state"
  assumes "h \<in> set (hc_BlockingHandlers cfg)" "bh_Event h = ev_Type e" "forbids cfg env (bh_URL h) TYPE('d)"
  shows "\<not> is_ok (fst (Hook_ReceiveBlockingEvent cfg env ec e s)) \<and> ss_DB (snd (Hook_ReceiveBlockingEvent cfg env ec e s)) = ss_DB s"
proof -
  obtain r s1 where a: "ask_handlers cfg env (ss_Mono s) (hc_BlockingHandlers cfg) e False s = (r, s1)" by force
  from a ask_handlers_veto [OF assms, of "ss_Mono s" False s] have r: "\<forall>x. r \<noteq> Ok x" by (metis fst_conv)
  from ask_writes_nothing a have db: "ss_DB s1 = ss_DB s" by (rule keepsD)
  have "DeliverBlockingEvent cfg env ec e s = ((case r of Err err \<Rightarrow> Err err | _ \<Rightarrow> Panic), s1)"
    using a r by (cases r) (auto simp: DeliverBlockingEvent_def bindp_run)
  with r db assms(1,2) show ?thesis
    by (cases r) (auto simp: Hook_ReceiveBlockingEvent_def WillDeliverBlockingEvent_def bindp_def attempt_def run_simps)
qed

theorem blocking_hook_veto_witness:
  "\<not> is_ok (fst (Hook_ReceiveBlockingEvent (example_config [''role'', ''no'']) example_env example_effects example_event example_sink))
   \<and> ss_DB (snd (Hook_ReceiveBlockingEvent (example_config [''role'', ''no'']) example_env example_effects example_event example_sink)) = []"
proof -
  have "forbids (example_config [''role'', ''no'']) example_env ''no'' TYPE(string list)"
    by (auto simp: forbids_def deliverBlockingEvent_def Web_DeliverBlockingEvent_def PrepareRequest_def performRequest_def
        perform_def ParseHookResponse_def some_or_def bindp_def run_simps example_env_def example_answers_def answer_def
        Web_SupportURL_def)
  then show ?thesis
    using blocking_hook_veto [of "\<lparr>bh_Event = ''user.pre_create'', bh_URL = ''no''\<rparr>" "example_config [''role'', ''no'']"
      example_event example_env example_effects example_sink]
    by (simp add: example_config_def HookConfig_SetDefaults_def example_event_def newBlockingEvent_def newEvent_def)
       (simp add: example_sink_def)
qed

section \<open>What hooks change\<close>

text \<open>The event before and after some answers: the same user, and the same attributes unless there is something to write.\<close>

fun same_user :: "BlockingPayload \<Rightarrow> BlockingPayload \<Rightarrow> bool \<Rightarrow> bool" where
  "same_user (UserPayload t uid u a b) (UserPayload t' uid' u' a' b') mutated =
     (t' = t \<and> uid' = uid \<and> a' = a \<and> b' = b \<and> unmutated u' = unmutated u \<and> (\<not> mutated \<longrightarrow> u' = u))"
| "same_user (TokenPayload t uid u c b) (TokenPayload t' uid' u' c' b') mutated = (t' = t \<and> uid' = uid \<and> u' = u \<and> b' = b \<and> (\<not> mutated \<longrightarrow> c' = c))"
| "same_user (AuthnPayload t u d b) (AuthnPayload t' u' d' b') mutated = (t' = t \<and> u' = u \<and> b' = b \<and> \<not> mutated)"
| "same_user _ _ _ = False"

lemma same_user_refl: "same_user p p False"
  by (cases p) simp_all

lemma same_user_apply:
  assumes "same_user p q mutated"
  shows "same_user p (fst (ApplyHookResponse q r)) (mutated \<or> snd (ApplyHookResponse q r))"
  using assms
  by (cases p; cases q) (auto simp: Let_def case_prod_beta or_else_def split: option.splits)

lemma ask_handlers_same_user:
  assumes "ev_Payload e = Blocking q" "same_user p q mutated"
    and "ask_handlers cfg env start hooks e mutated s = (Ok (e', mutated'), s')"
  shows "\<exists>q'. ev_Payload e' = Blocking q' \<and> same_user p q' mutated'"
  using assms
proof (induction hooks arbitrary: e q mutated s)
  case Nil
  then show ?case by (auto simp: run_simps)
next
  case (Cons h hooks)
  show ?case
  proof (cases "bh_Event h = ev_Type e")
    case False
    with Cons show ?thesis by auto
  next
    case True
    with Cons.prems(3) obtain resp s1 where
      "ask_handlers cfg env start hooks (fst (Event_ApplyHookResponse e resp)) (mutated \<or> snd (Event_ApplyHookResponse e resp)) s1
        = (Ok (e', mutated'), s')"
      by (auto simp: bindp_Ok Let_def case_prod_beta run_simps split: if_splits)
    moreover have "ev_Payload (fst (Event_ApplyHookResponse e resp)) = Blocking (fst (ApplyHookResponse q resp))"
      "snd (Event_ApplyHookResponse e resp) = snd (ApplyHookResponse q resp)"
      using Cons.prems(1) by (simp_all add: Event_ApplyHookResponse_def case_prod_beta)
    ultimately show ?thesis
      using Cons.IH [of "fst (Event_ApplyHookResponse e resp)" "fst (ApplyHookResponse q resp)"] same_user_apply [OF Cons.prems(2), of resp]
      by simp
  qed
qed

text \<open>C22: hooks write only what the event is about. When a blocking event about a user is let through, it is
  still about the same user with everything but the attributes, roles and groups as before, and
  either nothing changed and the database is as it was, or the attributes, roles and groups of
  the event as the last handler left it were written once, for that user.\<close>

theorem blocking_hook_effects:
  assumes "ev_Payload e = Blocking (UserPayload t uid user admin body)"
    and "Hook_ReceiveBlockingEvent cfg env ec e s = (Ok e', s')"
  shows "\<exists>user'. ev_Payload e' = Blocking (UserPayload t uid user' admin body) \<and> unmutated user' = unmutated user \<and>
    (user' = user \<and> ss_DB s' = ss_DB s \<or>
     PerformEffectsOnUser ec uid (MakeUserMutations user') (ss_DB s) = (Ok (), ss_DB s'))"
proof (cases "WillDeliverBlockingEvent cfg (ev_Type e)")
  case False
  with assms show ?thesis by (auto simp: Hook_ReceiveBlockingEvent_def run_simps)
next
  case True
  with assms(2) have d: "DeliverBlockingEvent cfg env ec e s = (Ok e', s')"
    by (cases "DeliverBlockingEvent cfg env ec e s"; cases "fst (DeliverBlockingEvent cfg env ec e s)")
       (auto simp: Hook_ReceiveBlockingEvent_def bindp_def attempt_def run_simps)
  then obtain mutated s1 where a: "ask_handlers cfg env (ss_Mono s) (hc_BlockingHandlers cfg) e False s = (Ok (e', mutated), s1)"
    and w: "(if mutated then on_db (Event_PerformEffects ec e') else ret ()) s1 = (Ok (), s')"
    by (auto simp: DeliverBlockingEvent_def bindp_Ok run_simps)
  from ask_handlers_same_user [OF assms(1) same_user_refl a] obtain q where
    q: "ev_Payload e' = Blocking q" "same_user (UserPayload t uid user admin body) q mutated" by blast
  from q(2) obtain user' where u: "q = UserPayload t uid user' admin body" "unmutated user' = unmutated user"
    "\<not> mutated \<longrightarrow> user' = user" by (cases q) auto
  from ask_writes_nothing a have db: "ss_DB s1 = ss_DB s" by (rule keepsD)
  show ?thesis
  proof (cases mutated)
    case True
    with w q u db have "PerformEffectsOnUser ec uid (MakeUserMutations user') (ss_DB s) = (Ok (), ss_DB s')"
      by (auto simp: on_db_def Event_PerformEffects_def split: prod.splits)
    with q u show ?thesis by auto
  next
    case False
    with w u db q show ?thesis by (auto simp: run_simps)
  qed
qed

theorem blocking_hook_effects_witness:
  "\<exists>e' s'. Hook_ReceiveBlockingEvent (example_config [''role'', ''yes'']) example_env example_effects example_event example_sink = (Ok e', s')
     \<and> (ss_DB s' = [] \<or> PerformEffectsOnUser example_effects ''u'' (MakeUserMutations (example_user\<lparr>um_Roles := Some [''admin'']\<rparr>)) [] = (Ok (), ss_DB s'))"
proof -
  let ?r = "Hook_ReceiveBlockingEvent (example_config [''role'', ''yes'']) example_env example_effects example_event example_sink"
  obtain e' s' where r: "?r = (Ok e', s')" and u: "ev_Payload e' = Blocking (UserPayload UserPreCreate ''u'' (example_user\<lparr>um_Roles := Some [''admin'']\<rparr>) False JNull)"
    by (simp add: Hook_ReceiveBlockingEvent_def WillDeliverBlockingEvent_def DeliverBlockingEvent_def deliverBlockingEvent_def
        Web_DeliverBlockingEvent_def PrepareRequest_def performRequest_def perform_def ParseHookResponse_def some_or_def bindp_def
        run_simps attempt_def example_hooks example_answers_def answer_def no_change_def Web_SupportURL_def Event_ApplyHookResponse_def
        ApplyUserMutations_def on_db_def Event_PerformEffects_def PerformEffectsOnUser_def MakeUserMutations_def when_some_def Let_def)
  moreover have "ev_Payload example_event = Blocking (UserPayload UserPreCreate ''u'' example_user False JNull)"
    by (simp add: example_event_def newBlockingEvent_def newEvent_def)
  from blocking_hook_effects [OF this r] u have "ss_DB s' = [] \<or>
    PerformEffectsOnUser example_effects ''u'' (MakeUserMutations (example_user\<lparr>um_Roles := Some [''admin'']\<rparr>)) [] = (Ok (), ss_DB s')"
    by (auto simp: example_sink_def)
  ultimately show ?thesis by blast
qed

end
