(* ===== verification/OAuthClient.thy ===== *)
theory OAuthClient imports IdpSession begin

text \<open>
  OAuth clients and what they may ask for: the client part of \<^verbatim>\<open>pkg/lib/config/oauth.go\<close>, and
  \<^verbatim>\<open>grant_type.go\<close>, \<^verbatim>\<open>scope.go\<close>, \<^verbatim>\<open>client_like.go\<close>, \<^verbatim>\<open>authz.go\<close>, \<^verbatim>\<open>authz_filters.go\<close> of
  \<^verbatim>\<open>pkg/lib/oauth\<close>. A Go map used as a set of seen strings is the set of a list.
\<close>

section \<open>Clients\<close>

datatype OAuthClientApplicationType =
    ApplicationTypeSPA
  | ApplicationTypeTraditionalWeb
  | ApplicationTypeNative
  | ApplicationTypeConfidential
  | ApplicationTypeThirdPartyApp
  | ApplicationTypeM2M
  | ApplicationTypeUnspecified

definition IsThirdParty :: "OAuthClientApplicationType \<Rightarrow> bool" where
  "IsThirdParty t = (case t of
     ApplicationTypeSPA \<Rightarrow> False | ApplicationTypeTraditionalWeb \<Rightarrow> False | ApplicationTypeNative \<Rightarrow> False
   | ApplicationTypeConfidential \<Rightarrow> False | ApplicationTypeThirdPartyApp \<Rightarrow> True | ApplicationTypeM2M \<Rightarrow> False
   | ApplicationTypeUnspecified \<Rightarrow> False)"

definition IsFirstParty :: "OAuthClientApplicationType \<Rightarrow> bool" where
  "IsFirstParty t \<longleftrightarrow> \<not> IsThirdParty t"

definition IsConfidential :: "OAuthClientApplicationType \<Rightarrow> bool" where
  "IsConfidential t = (case t of
     ApplicationTypeSPA \<Rightarrow> False | ApplicationTypeTraditionalWeb \<Rightarrow> False | ApplicationTypeNative \<Rightarrow> False
   | ApplicationTypeConfidential \<Rightarrow> True | ApplicationTypeThirdPartyApp \<Rightarrow> True | ApplicationTypeM2M \<Rightarrow> True
   | ApplicationTypeUnspecified \<Rightarrow> False)"

definition IsPublic :: "OAuthClientApplicationType \<Rightarrow> bool" where
  "IsPublic t \<longleftrightarrow> \<not> IsConfidential t"

definition IsClientCredentialsFlowAllowed :: "OAuthClientApplicationType \<Rightarrow> bool" where
  "IsClientCredentialsFlowAllowed t = (case t of
     ApplicationTypeSPA \<Rightarrow> False | ApplicationTypeTraditionalWeb \<Rightarrow> False | ApplicationTypeNative \<Rightarrow> False
   | ApplicationTypeConfidential \<Rightarrow> True | ApplicationTypeThirdPartyApp \<Rightarrow> False | ApplicationTypeM2M \<Rightarrow> True
   | ApplicationTypeUnspecified \<Rightarrow> False)"

definition HasFullAccessScope :: "OAuthClientApplicationType \<Rightarrow> bool" where
  "HasFullAccessScope t = (case t of
     ApplicationTypeSPA \<Rightarrow> True | ApplicationTypeTraditionalWeb \<Rightarrow> True | ApplicationTypeNative \<Rightarrow> True
   | ApplicationTypeConfidential \<Rightarrow> False | ApplicationTypeThirdPartyApp \<Rightarrow> False | ApplicationTypeM2M \<Rightarrow> False
   | ApplicationTypeUnspecified \<Rightarrow> True)"

definition PIIAllowedInIDToken :: "OAuthClientApplicationType \<Rightarrow> bool" where
  "PIIAllowedInIDToken t = (case t of
     ApplicationTypeSPA \<Rightarrow> False | ApplicationTypeTraditionalWeb \<Rightarrow> False | ApplicationTypeNative \<Rightarrow> False
   | ApplicationTypeConfidential \<Rightarrow> True | ApplicationTypeThirdPartyApp \<Rightarrow> True | ApplicationTypeM2M \<Rightarrow> False
   | ApplicationTypeUnspecified \<Rightarrow> False)"

text \<open>The fields of \<^verbatim>\<open>OAuthClientConfig\<close> the modelled code reads. Lifetimes are whole seconds.\<close>

record OAuthClientConfig =
  cl_ClientID :: string
  cl_ApplicationType :: OAuthClientApplicationType
  cl_RedirectURIs :: "string list"
  cl_GrantTypes :: "string list"
  cl_AccessTokenLifetime :: int
  cl_RefreshTokenLifetime :: int
  cl_RefreshTokenIdleTimeoutEnabled :: "bool option"
  cl_RefreshTokenIdleTimeout :: int
  cl_RefreshTokenRotationEnabled :: bool
  cl_IssueJWTAccessToken :: bool
  cl_CustomUIURI :: string
  cl_DPoPDisabled :: bool
  cl_PreAuthenticatedURLEnabled :: bool
  cl_MaxConcurrentSession :: int
  cl_App2appEnabled :: bool
  cl_App2appInsecureDeviceKeyBindingEnabled :: bool

definition GetClient :: "OAuthClientConfig list \<Rightarrow> string \<Rightarrow> OAuthClientConfig option" where
  "GetClient clients clientID = List.find (\<lambda>c. cl_ClientID c = clientID) clients"

definition UseHTTP200 :: "OAuthClientConfig \<Rightarrow> bool" where
  "UseHTTP200 c \<longleftrightarrow> cl_CustomUIURI c \<noteq> ''''"

definition DefaultRedirectURI :: "OAuthClientConfig \<Rightarrow> string" where
  "DefaultRedirectURI c = (if length (cl_RedirectURIs c) > 0 then cl_RedirectURIs c ! 0 else '''')"

definition DefaultAccessTokenLifetime :: int where "DefaultAccessTokenLifetime = 30 * 60"
definition DefaultRefreshTokenLifetime :: int where "DefaultRefreshTokenLifetime = 52 * 7 * 86400"
definition DefaultRefreshTokenIdleTimeout :: int where "DefaultRefreshTokenIdleTimeout = 30 * 86400"

definition Client_SetDefaults :: "OAuthClientConfig \<Rightarrow> OAuthClientConfig" where
  "Client_SetDefaults c = (let
     c = (if cl_AccessTokenLifetime c = 0 then c\<lparr>cl_AccessTokenLifetime := DefaultAccessTokenLifetime\<rparr> else c);
     c = (if cl_RefreshTokenLifetime c = 0
          then if cl_AccessTokenLifetime c > DefaultRefreshTokenLifetime
               then c\<lparr>cl_RefreshTokenLifetime := cl_AccessTokenLifetime c\<rparr>
               else c\<lparr>cl_RefreshTokenLifetime := DefaultRefreshTokenLifetime\<rparr>
          else c);
     c = (if cl_RefreshTokenIdleTimeoutEnabled c = None then c\<lparr>cl_RefreshTokenIdleTimeoutEnabled := Some True\<rparr> else c);
     c = (if cl_RefreshTokenIdleTimeout c = 0 then c\<lparr>cl_RefreshTokenIdleTimeout := DefaultRefreshTokenIdleTimeout\<rparr> else c)
   in case cl_ApplicationType c of ApplicationTypeM2M \<Rightarrow> c\<lparr>cl_IssueJWTAccessToken := True\<rparr> | _ \<Rightarrow> c)"

section \<open>Grant types\<close>

definition AuthorizationCodeGrantType :: string where "AuthorizationCodeGrantType = ''authorization_code''"
definition RefreshTokenGrantType :: string where "RefreshTokenGrantType = ''refresh_token''"
definition ClientCredentialsGrantType :: string where "ClientCredentialsGrantType = ''client_credentials''"
definition TokenExchangeGrantType :: string where
  "TokenExchangeGrantType = ''urn:ietf:params:oauth:grant-type:token-exchange''"
definition AnonymousRequestGrantType :: string where
  "AnonymousRequestGrantType = ''urn:authgear:params:oauth:grant-type:anonymous-request''"
definition BiometricRequestGrantType :: string where
  "BiometricRequestGrantType = ''urn:authgear:params:oauth:grant-type:biometric-request''"
definition App2AppRequestGrantType :: string where
  "App2AppRequestGrantType = ''urn:authgear:params:oauth:grant-type:app2app-request''"
definition IDTokenGrantType :: string where "IDTokenGrantType = ''urn:authgear:params:oauth:grant-type:id-token''"
definition SettingsActionGrantType :: string where
  "SettingsActionGrantType = ''urn:authgear:params:oauth:grant-type:settings-action''"

definition whitelistedGrantTypes :: "string list" where
  "whitelistedGrantTypes = [AuthorizationCodeGrantType, RefreshTokenGrantType, TokenExchangeGrantType,
     AnonymousRequestGrantType, BiometricRequestGrantType, App2AppRequestGrantType, IDTokenGrantType,
     SettingsActionGrantType]"

text \<open>The two loops: what is not seen yet is appended, in order.\<close>

definition add_unseen :: "string list \<Rightarrow> string list \<Rightarrow> string list" where
  "add_unseen allowed gs = foldl (\<lambda>acc g. if g \<in> set acc then acc else acc @ [g]) allowed gs"

definition GetAllowedGrantTypes :: "OAuthClientConfig \<Rightarrow> string list" where
  "GetAllowedGrantTypes c = (case cl_ApplicationType c of
     ApplicationTypeM2M \<Rightarrow> [ClientCredentialsGrantType]
   | _ \<Rightarrow> (let allowed = add_unseen [] (cl_GrantTypes c);
             allowed = add_unseen allowed whitelistedGrantTypes
       in if IsClientCredentialsFlowAllowed (cl_ApplicationType c)
          then allowed @ [ClientCredentialsGrantType] else allowed))"

section \<open>Scopes\<close>

definition FullAccessScope :: string where "FullAccessScope = ''https://authgear.com/scopes/full-access''"
definition FullUserInfoScope :: string where "FullUserInfoScope = ''https://authgear.com/scopes/full-userinfo''"
definition PreAuthenticatedURLScope :: string where
  "PreAuthenticatedURLScope = ''https://authgear.com/scopes/pre-authenticated-url''"
definition OfflineAccess :: string where "OfflineAccess = ''offline_access''"
definition DeviceSSOScope :: string where "DeviceSSOScope = ''device_sso''"
definition ScopeOpenID :: string where "ScopeOpenID = ''openid''"
definition ScopeProfile :: string where "ScopeProfile = ''profile''"
definition ScopeEmail :: string where "ScopeEmail = ''email''"
definition ScopeAddress :: string where "ScopeAddress = ''address''"
definition ScopePhone :: string where "ScopePhone = ''phone''"

lemmas scope_defs = FullAccessScope_def FullUserInfoScope_def PreAuthenticatedURLScope_def OfflineAccess_def
  DeviceSSOScope_def ScopeOpenID_def ScopeProfile_def ScopeEmail_def ScopeAddress_def ScopePhone_def

definition AllowedScopes :: "string list" where
  "AllowedScopes = [OfflineAccess, DeviceSSOScope, ScopeOpenID, ScopeProfile, ScopeEmail, ScopeAddress, ScopePhone,
     FullAccessScope, FullUserInfoScope, PreAuthenticatedURLScope]"

definition ProfileClaims :: "string list" where
  "ProfileClaims = [''name'', ''family_name'', ''given_name'', ''middle_name'', ''nickname'', ''preferred_username'',
     ''profile'', ''picture'', ''website'', ''gender'', ''birthdate'', ''zoneinfo'', ''locale'', ''updated_at'']"

definition scopeClaims :: "string \<Rightarrow> string list" where
  "scopeClaims scope = (if scope = ScopeProfile then ProfileClaims
     else if scope = ScopeEmail then [''email'', ''email_verified'']
     else if scope = ScopeAddress then [''address'']
     else if scope = ScopePhone then [''phone_number'', ''phone_number_verified'']
     else [])"

definition ContainsAllScopes :: "string list \<Rightarrow> string list \<Rightarrow> bool" where
  "ContainsAllScopes scopes shouldContainsScopes \<longleftrightarrow> list_all (\<lambda>s. s \<in> set scopes) shouldContainsScopes"

definition IsScopeAllowed :: "string \<Rightarrow> string list \<Rightarrow> bool" where
  "IsScopeAllowed scope allowedScopes \<longleftrightarrow> list_ex (\<lambda>s. s = scope) allowedScopes"

definition ScopeAllowsClaim :: "string \<Rightarrow> string \<Rightarrow> bool" where
  "ScopeAllowsClaim scope claimName = (if claimName = '''' then False
     else if scope = FullAccessScope then True
     else if scope = FullUserInfoScope then True
     else if scope = ScopeProfile then claimName \<in> set (scopeClaims ScopeProfile)
     else if scope = ScopeEmail then claimName \<in> set (scopeClaims ScopeEmail)
     else if scope = ScopePhone then claimName \<in> set (scopeClaims ScopePhone)
     else if scope = ScopeAddress then claimName \<in> set (scopeClaims ScopeAddress)
     else False)"

definition invalid_scope :: "string \<Rightarrow> sess_error" where
  "invalid_scope description = ProtocolErr ''invalid_scope'' description"

fun ValidateScopes :: "string list \<Rightarrow> string list \<Rightarrow> sess_error option" where
  "ValidateScopes [] allowedScopes = None"
| "ValidateScopes (s # scopes) allowedScopes =
     (if \<not> IsScopeAllowed s allowedScopes then Some (invalid_scope (''specified scope is not allowed: '' @ s))
      else ValidateScopes scopes allowedScopes)"

text \<open>The loop of \<^verbatim>\<open>ValidateScopesByClientConfig\<close>, with what it has seen so far.\<close>

fun validate_scopes_loop ::
    "OAuthClientConfig \<Rightarrow> bool \<Rightarrow> bool \<Rightarrow> bool \<Rightarrow> string list \<Rightarrow> sess_error option" where
  "validate_scopes_loop client allowOfflineAccess hasOIDC hasDeviceSSO [] =
     (if \<not> hasOIDC then Some (invalid_scope ''must request 'openid' scope'') else None)"
| "validate_scopes_loop client allowOfflineAccess hasOIDC hasDeviceSSO (s # scopes) =
     (if s = OfflineAccess \<and> \<not> allowOfflineAccess then Some (invalid_scope ''offline access is not allowed for this client'')
      else if s = FullAccessScope \<and> \<not> HasFullAccessScope (cl_ApplicationType client)
      then Some (invalid_scope ''full access is not allowed for this client'')
      else let hasOIDC = (hasOIDC \<or> s = ScopeOpenID); hasDeviceSSO = (hasDeviceSSO \<or> s = DeviceSSOScope) in
      if s = DeviceSSOScope \<and> \<not> cl_PreAuthenticatedURLEnabled client
      then Some (invalid_scope ''device_sso is not allowed for this client'')
      else if s = PreAuthenticatedURLScope \<and> \<not> hasDeviceSSO
      then Some (invalid_scope ''device_sso must be requested when using pre-authenticated url'')
      else if s = PreAuthenticatedURLScope \<and> \<not> cl_PreAuthenticatedURLEnabled client
      then Some (invalid_scope ''pre-authenticated url is not allowed for this client'')
      else validate_scopes_loop client allowOfflineAccess hasOIDC hasDeviceSSO scopes)"

definition ValidateScopesByClientConfig :: "OAuthClientConfig \<Rightarrow> string list \<Rightarrow> sess_error option" where
  "ValidateScopesByClientConfig client scopes =
     (let allowOfflineAccess = list_ex (\<lambda>grantType. grantType = RefreshTokenGrantType) (GetAllowedGrantTypes client)
      in case ValidateScopes scopes AllowedScopes of
        Some err \<Rightarrow> Some err
      | None \<Rightarrow> validate_scopes_loop client allowOfflineAccess False False scopes)"

record ClientLike =
  like_IsFirstParty :: bool
  like_PIIAllowedInIDToken :: bool
  like_Scopes :: "string list"

definition ClientLikeNotFound :: ClientLike where
  "ClientLikeNotFound = \<lparr>like_IsFirstParty = False, like_PIIAllowedInIDToken = False, like_Scopes = []\<rparr>"

definition ClientClientLike :: "OAuthClientConfig \<Rightarrow> string list \<Rightarrow> ClientLike" where
  "ClientClientLike client scopes = \<lparr>like_IsFirstParty = IsFirstParty (cl_ApplicationType client),
     like_PIIAllowedInIDToken = PIIAllowedInIDToken (cl_ApplicationType client), like_Scopes = scopes\<rparr>"

section \<open>Authorizations\<close>

record Authorization =
  az_ID :: string
  az_AppID :: string
  az_ClientID :: string
  az_UserID :: string
  az_CreatedAt :: time
  az_UpdatedAt :: time
  az_Scopes :: "string list"

definition IsAuthorized :: "Authorization \<Rightarrow> string list \<Rightarrow> bool" where
  "IsAuthorized z scopes \<longleftrightarrow> list_all (\<lambda>s. s \<in> set (az_Scopes z)) scopes"

definition WithScopesAdded :: "Authorization \<Rightarrow> string list \<Rightarrow> Authorization" where
  "WithScopesAdded z scopes = z\<lparr>az_Scopes := add_unseen [] (az_Scopes z @ scopes)\<rparr>"

fun ApplyAuthorizationFilters :: "Authorization list \<Rightarrow> (Authorization \<Rightarrow> bool) list \<Rightarrow> Authorization list" where
  "ApplyAuthorizationFilters [] filters = []"
| "ApplyAuthorizationFilters (authz # authzs) filters =
     (if list_all (\<lambda>f. f authz) filters then authz # ApplyAuthorizationFilters authzs filters
      else ApplyAuthorizationFilters authzs filters)"

definition KeepThirdPartyAuthorizationFilter :: "OAuthClientConfig list \<Rightarrow> Authorization \<Rightarrow> bool" where
  "KeepThirdPartyAuthorizationFilter clients authz \<longleftrightarrow>
     az_ClientID authz \<in> set (map cl_ClientID (filter (\<lambda>c. IsThirdParty (cl_ApplicationType c)) clients))"

section \<open>Grant types and scopes\<close>

lemma add_unseen_set [simp]: "set (add_unseen xs ys) = set xs \<union> set ys"
  unfolding add_unseen_def by (induction ys arbitrary: xs) auto

lemma add_unseen_distinct: "distinct xs \<Longrightarrow> distinct (add_unseen xs ys)"
  unfolding add_unseen_def by (induction ys arbitrary: xs) auto

lemma WithScopesAdded_authorized:
  "IsAuthorized (WithScopesAdded z scopes) (az_Scopes z @ scopes)" "distinct (az_Scopes (WithScopesAdded z scopes))"
  by (auto simp: IsAuthorized_def WithScopesAdded_def list_all_iff add_unseen_distinct)

lemma refresh_tokens_allowed:
  "list_ex (\<lambda>g. g = RefreshTokenGrantType) (GetAllowedGrantTypes c) \<longleftrightarrow> cl_ApplicationType c \<noteq> ApplicationTypeM2M"
  by (auto simp: GetAllowedGrantTypes_def Let_def list_ex_iff whitelistedGrantTypes_def RefreshTokenGrantType_def
      ClientCredentialsGrantType_def split: OAuthClientApplicationType.split)

lemma ValidateScopes_None: "ValidateScopes scopes allowed = None \<longleftrightarrow> set scopes \<subseteq> set allowed"
  by (induction scopes) (auto simp: IsScopeAllowed_def list_ex_iff)

text \<open>Every occurrence of the pre-authenticated URL scope comes after \<^verbatim>\<open>device_sso\<close>.\<close>

fun device_sso_first :: "string list \<Rightarrow> bool" where
  "device_sso_first [] = True"
| "device_sso_first (s # scopes) = (if s = DeviceSSOScope then True
     else s \<noteq> PreAuthenticatedURLScope \<and> device_sso_first scopes)"

definition client_may_ask :: "OAuthClientConfig \<Rightarrow> string \<Rightarrow> bool" where
  "client_may_ask c s \<longleftrightarrow> s \<in> set AllowedScopes \<and>
     (if s = OfflineAccess then cl_ApplicationType c \<noteq> ApplicationTypeM2M
      else if s = FullAccessScope then HasFullAccessScope (cl_ApplicationType c)
      else if s \<in> {DeviceSSOScope, PreAuthenticatedURLScope} then cl_PreAuthenticatedURLEnabled c else True)"

lemma scopes_distinct [simp]:
  "OfflineAccess \<noteq> FullAccessScope" "OfflineAccess \<noteq> DeviceSSOScope" "OfflineAccess \<noteq> PreAuthenticatedURLScope"
  "FullAccessScope \<noteq> DeviceSSOScope" "FullAccessScope \<noteq> PreAuthenticatedURLScope"
  "DeviceSSOScope \<noteq> PreAuthenticatedURLScope"
  "FullAccessScope \<noteq> OfflineAccess" "DeviceSSOScope \<noteq> OfflineAccess" "PreAuthenticatedURLScope \<noteq> OfflineAccess"
  "DeviceSSOScope \<noteq> FullAccessScope" "PreAuthenticatedURLScope \<noteq> FullAccessScope"
  "PreAuthenticatedURLScope \<noteq> DeviceSSOScope"
  by (simp_all add: scope_defs)

lemma validate_loop_None:
  "set scopes \<subseteq> set AllowedScopes \<Longrightarrow> validate_scopes_loop c (cl_ApplicationType c \<noteq> ApplicationTypeM2M) oidc sso scopes = None \<longleftrightarrow>
     list_all (client_may_ask c) scopes \<and> (sso \<or> device_sso_first scopes) \<and> (oidc \<or> ScopeOpenID \<in> set scopes)"
  by (induction scopes arbitrary: oidc sso) (auto simp: Let_def client_may_ask_def)


text \<open>The same scopes in another order are rejected.\<close>

lemma scope_order_matters:
  "cl_PreAuthenticatedURLEnabled c \<Longrightarrow>
     ValidateScopesByClientConfig c [ScopeOpenID, DeviceSSOScope, PreAuthenticatedURLScope] = None \<and>
     ValidateScopesByClientConfig c [ScopeOpenID, PreAuthenticatedURLScope, DeviceSSOScope] =
       Some (invalid_scope ''device_sso must be requested when using pre-authenticated url'')"
  by (simp add: ValidateScopesByClientConfig_def Let_def IsScopeAllowed_def AllowedScopes_def) (simp add: scope_defs)

lemma SetDefaults_idle: "\<exists>b. cl_RefreshTokenIdleTimeoutEnabled (Client_SetDefaults c) = Some b"
  by (cases "cl_RefreshTokenIdleTimeoutEnabled c")
     (auto simp: Client_SetDefaults_def Let_def split: OAuthClientApplicationType.split)

end
