(* ===== verification/UserInfo.thy ===== *)
theory UserInfo imports UserStore HookSink OAuthClient begin

text \<open>
  User info: \<^verbatim>\<open>pkg/lib/userinfo\<close> and the claims made of it in \<^verbatim>\<open>pkg/lib/oauth/oidc/id_token.go\<close> and
  \<^verbatim>\<open>pkg/lib/oauth/scope.go\<close>. What is known of a user is kept in Redis for a while. The cache is purged
  when an event about the user is delivered, and what it holds is not used once the account status
  has gone stale.
\<close>

record authenticator_info =
  ai_CreatedAt :: time
  ai_UpdatedAt :: time
  ai_Type :: string
  ai_Kind :: authenticator_kind

record user_info =
  uf_User :: UserModel
  uf_AccountStatusStaleFrom :: "time option"
  uf_EffectiveRoleKeys :: "string list"
  uf_Authenticators :: "authenticator_info list"
  uf_RecoveryCodeEnabled :: bool

text \<open>What the JSON of a user info keeps: not the fields tagged \<^verbatim>\<open>json:"-"\<close> of the user.\<close>

definition as_stored :: "user_info \<Rightarrow> user_info" where
  "as_stored i = i\<lparr>uf_User := (uf_User i)\<lparr>um_AccountStatusStaleFrom := None, um_EndUserAccountID := ''''\<rparr>\<rparr>"

section \<open>From the database\<close>

record info_services =
  is_Users :: user_services
  is_ListEffectiveRoles :: "string \<Rightarrow> (user_error, string list) outcome"
  is_ListAuthenticators :: "string \<Rightarrow> (user_error, authenticator_info list) outcome"
  is_CountRecoveryCodes :: "string \<Rightarrow> (user_error, nat) outcome"
  is_PrimaryAuthenticators :: "string list"
  is_SecondaryAuthenticators :: "string list"

definition authenticator_enabled :: "info_services \<Rightarrow> authenticator_info \<Rightarrow> bool" where
  "authenticator_enabled is a = (case ai_Kind a of
     KindPrimary \<Rightarrow> ai_Type a \<in> set (is_PrimaryAuthenticators is)
   | KindSecondary \<Rightarrow> ai_Type a \<in> set (is_SecondaryAuthenticators is)
   | KindOther \<Rightarrow> False)"

definition getUserInfoFromDatabase :: "info_services \<Rightarrow> user_table \<Rightarrow> time \<Rightarrow> string \<Rightarrow> string \<Rightarrow> string \<Rightarrow> (user_error, user_info) outcome" where
  "getUserInfoFromDatabase is db now app userID role =
     bind_oc (fst (Queries_Get (is_Users is) now app userID role db)) (\<lambda>u.
     bind_oc (is_ListEffectiveRoles is userID) (\<lambda>roleKeys.
     bind_oc (is_ListAuthenticators is userID) (\<lambda>authns.
     bind_oc (is_CountRecoveryCodes is userID) (\<lambda>recoveryCodes.
     Ok \<lparr>uf_User = u, uf_AccountStatusStaleFrom = um_AccountStatusStaleFrom u, uf_EffectiveRoleKeys = roleKeys,
         uf_Authenticators = filter (authenticator_enabled is) authns, uf_RecoveryCodeEnabled = recoveryCodes > 0\<rparr>))))"

section \<open>Redis\<close>

datatype cache_err = CacheNil | CacheFailure string

record 'r info_redis =
  ir_GET :: "time \<Rightarrow> string \<Rightarrow> 'r \<Rightarrow> (cache_err + user_info) \<times> 'r"
  ir_SET :: "time \<Rightarrow> string \<Rightarrow> user_info \<Rightarrow> duration \<Rightarrow> 'r \<Rightarrow> (cache_err + unit) \<times> 'r"
  ir_DEL :: "time \<Rightarrow> string list \<Rightarrow> 'r \<Rightarrow> (cache_err + unit) \<times> 'r"

text \<open>What \<^verbatim>\<open>GET\<close>, \<^verbatim>\<open>SET\<close> with a lifetime and \<^verbatim>\<open>DEL\<close> promise. A command that fails may or may not have had its effect.\<close>

locale info_keys =
  fixes rd :: "'r info_redis" and view :: "time \<Rightarrow> 'r \<Rightarrow> string \<Rightarrow> user_info option"
  assumes GET: "ir_GET rd now k r = (res, r') \<Longrightarrow> r' = r \<and> (case res of
      Inl CacheNil \<Rightarrow> view now r k = None | Inl _ \<Rightarrow> True | Inr v \<Rightarrow> view now r k = Some v)"
    and SET: "ir_SET rd now k v d r = (sres, r') \<Longrightarrow> now \<le> t \<Longrightarrow>
      view t r' k' = view t r k' \<or> k' = k \<and> (view t r' k' = Some v \<or> view t r' k' = None)"
    and DEL: "ir_DEL rd now ks r = (dres, r') \<Longrightarrow> now \<le> t \<Longrightarrow>
      (view t r' k' = view t r k' \<and> \<not> (k' \<in> set ks \<and> dres = Inr ())) \<or> k' \<in> set ks \<and> view t r' k' = None"
    and view_later: "now \<le> t \<Longrightarrow> view t r k = None \<or> view t r k = view now r k"

text \<open>A map with expiry times does.\<close>

type_synonym info_map = "string \<Rightarrow> (user_info \<times> time) option"

definition im_view :: "time \<Rightarrow> info_map \<Rightarrow> string \<Rightarrow> user_info option" where
  "im_view t r k = (case r k of Some (v, e) \<Rightarrow> if t < e then Some v else None | None \<Rightarrow> None)"

definition im_redis :: "info_map info_redis" where
  "im_redis = \<lparr>ir_GET = \<lambda>now k r. (case im_view now r k of None \<Rightarrow> Inl CacheNil | Some v \<Rightarrow> Inr v, r),
     ir_SET = \<lambda>now k v d r. (Inr (), r(k := Some (v, now + d))),
     ir_DEL = \<lambda>now ks r. (Inr (), \<lambda>k. if k \<in> set ks then None else r k)\<rparr>"

interpretation im: info_keys im_redis im_view
  by unfold_locales (auto simp: im_redis_def im_view_def split: option.splits if_splits)

section \<open>The service\<close>

datatype info_error = InfoUserError user_error | InfoRedisError string

definition Short :: duration where "Short = 5 * 60 * 1000000000"

definition RoleGreatest :: string where "RoleGreatest = ''__greatest__''"
definition RoleBearer :: string where "RoleBearer = ''bearer''"

definition cacheKey :: "string \<Rightarrow> string \<Rightarrow> string \<Rightarrow> string" where
  "cacheKey app userID role = ''app:'' @ app @ '':userinfo:'' @ userID @ '':'' @ role"

type_synonym ('r, 'a) info_proc = "('r, info_error, 'a) proc"

text \<open>\<open>None\<close> is \<^verbatim>\<open>errCacheMiss\<close>.\<close>

definition getUserInfoFromCache :: "'r info_redis \<Rightarrow> time \<Rightarrow> string \<Rightarrow> string \<Rightarrow> string \<Rightarrow> ('r, user_info option) info_proc" where
  "getUserInfoFromCache rd now app userID role = (\<lambda>r. case ir_GET rd now (cacheKey app userID role) r of
     (Inl CacheNil, r) \<Rightarrow> (Ok None, r)
   | (Inl (CacheFailure e), r) \<Rightarrow> (Err (InfoRedisError e), r)
   | (Inr i, r) \<Rightarrow> (Ok (case uf_AccountStatusStaleFrom i of
       Some st \<Rightarrow> if \<not> now < st then None else Some i
     | None \<Rightarrow> Some i), r))"

definition cacheUserInfo :: "'r info_redis \<Rightarrow> time \<Rightarrow> string \<Rightarrow> string \<Rightarrow> string \<Rightarrow> user_info \<Rightarrow> ('r, unit) info_proc" where
  "cacheUserInfo rd now app userID role fresh = (\<lambda>r. case ir_SET rd now (cacheKey app userID role) (as_stored fresh) Short r of
     (Inl (CacheFailure e), r) \<Rightarrow> (Err (InfoRedisError e), r)
   | (Inl CacheNil, r) \<Rightarrow> (Err (InfoRedisError ''nil''), r)
   | (Inr _, r) \<Rightarrow> (Ok (), r))"

definition getUserInfo :: "'r info_redis \<Rightarrow> info_services \<Rightarrow> user_table \<Rightarrow> time \<Rightarrow> string \<Rightarrow> string \<Rightarrow> string \<Rightarrow> ('r, user_info) info_proc" where
  "getUserInfo rd is db now app userID role = bindp (getUserInfoFromCache rd now app userID role) (\<lambda>cached. case cached of
     Some i \<Rightarrow> ret i
   | None \<Rightarrow> (case getUserInfoFromDatabase is db now app userID role of
       Err e \<Rightarrow> failp (InfoUserError e)
     | Panic \<Rightarrow> panicp
     | Ok fresh \<Rightarrow> bindp (cacheUserInfo rd now app userID role fresh) (\<lambda>_. ret fresh)))"

definition GetUserInfoGreatest :: "'r info_redis \<Rightarrow> info_services \<Rightarrow> user_table \<Rightarrow> time \<Rightarrow> string \<Rightarrow> string \<Rightarrow> ('r, user_info) info_proc" where
  "GetUserInfoGreatest rd is db now app userID = getUserInfo rd is db now app userID RoleGreatest"

definition GetUserInfoBearer :: "'r info_redis \<Rightarrow> info_services \<Rightarrow> user_table \<Rightarrow> time \<Rightarrow> string \<Rightarrow> string \<Rightarrow> ('r, user_info) info_proc" where
  "GetUserInfoBearer rd is db now app userID = getUserInfo rd is db now app userID RoleBearer"

definition PurgeUserInfo :: "'r info_redis \<Rightarrow> time \<Rightarrow> string \<Rightarrow> string \<Rightarrow> ('r, unit) info_proc" where
  "PurgeUserInfo rd now app userID = (\<lambda>r. case ir_DEL rd now [cacheKey app userID RoleGreatest, cacheKey app userID RoleBearer] r of
     (Inl (CacheFailure e), r) \<Rightarrow> (Err (InfoRedisError e), r)
   | (Inl CacheNil, r) \<Rightarrow> (Err (InfoRedisError ''nil''), r)
   | (Inr _, r) \<Rightarrow> (Ok (), r))"

text \<open>The sink of the events: \<^verbatim>\<open>pkg/lib/userinfo/sink.go\<close>. It stops at the first user it cannot purge.\<close>

primrec purge_all :: "'r info_redis \<Rightarrow> time \<Rightarrow> string \<Rightarrow> string list \<Rightarrow> ('r, unit) info_proc" where
  "purge_all rd now app [] = ret ()"
| "purge_all rd now app (u # us) = bindp (PurgeUserInfo rd now app u) (\<lambda>_. purge_all rd now app us)"

definition UserInfo_ReceiveNonBlockingEvent :: "'r info_redis \<Rightarrow> time \<Rightarrow> string \<Rightarrow> Event \<Rightarrow> ('r, unit) info_proc" where
  "UserInfo_ReceiveNonBlockingEvent rd now app e = (case ev_Payload e of
     NonBlocking p \<Rightarrow> purge_all rd now app (nb_RequireReindexUserIDs p @ nb_DeletedUserIDs p)
   | _ \<Rightarrow> panicp)"

section \<open>Claims\<close>

definition isClaimAllowed :: "ClientLike \<Rightarrow> string \<Rightarrow> bool" where
  "isClaimAllowed client claim = list_ex (\<lambda>scope. ScopeAllowsClaim scope claim) (like_Scopes client)"

text \<open>Setting a key of a map, and copying the entries of one map to another.\<close>

definition set_claim :: "string \<Rightarrow> json \<Rightarrow> json_object \<Rightarrow> json_object" where
  "set_claim k v m = (k, v) # filter (\<lambda>(k', _). k' \<noteq> k) m"

definition set_claims :: "json_object \<Rightarrow> json_object \<Rightarrow> json_object" where
  "set_claims kvs m = fold (\<lambda>(k, v). set_claim k v) kvs m"

definition json_strings :: "string list \<Rightarrow> json" where
  "json_strings l = JArray (map JString l)"

fun kind_json :: "authenticator_kind \<Rightarrow> json" where
  "kind_json KindPrimary = JString ''primary''"
| "kind_json KindSecondary = JString ''secondary''"
| "kind_json KindOther = JString ''''"

text \<open>The times of an authenticator are written by \<^verbatim>\<open>encoding/json\<close>; \<open>enc\<close> is the encoder.\<close>

definition authenticator_json :: "(time \<Rightarrow> json) \<Rightarrow> authenticator_info \<Rightarrow> json" where
  "authenticator_json enc a = JObject [(''created_at'', enc (ai_CreatedAt a)), (''updated_at'', enc (ai_UpdatedAt a)),
     (''type'', JString (ai_Type a)), (''kind'', kind_json (ai_Kind a))]"

abbreviation "claim_is_anonymous \<equiv> ''https://authgear.com/claims/user/is_anonymous''"
abbreviation "claim_is_verified \<equiv> ''https://authgear.com/claims/user/is_verified''"
abbreviation "claim_can_reauthenticate \<equiv> ''https://authgear.com/claims/user/can_reauthenticate''"
abbreviation "claim_roles \<equiv> ''https://authgear.com/claims/user/roles''"
abbreviation "claim_authenticators \<equiv> ''https://authgear.com/claims/user/authenticators''"
abbreviation "claim_recovery_code_enabled \<equiv> ''https://authgear.com/claims/user/recovery_code_enabled''"

definition attrs_of :: "json_object option \<Rightarrow> json_object" where
  "attrs_of a = (case a of None \<Rightarrow> [] | Some l \<Rightarrow> l)"

definition base_claims :: "string \<Rightarrow> user_info \<Rightarrow> json_object \<Rightarrow> json_object" where
  "base_claims userID i m = set_claims [(''sub'', JString userID), (claim_is_anonymous, JBool (um_IsAnonymous (uf_User i))),
     (claim_is_verified, JBool (um_IsVerified (uf_User i))), (claim_can_reauthenticate, JBool (um_CanReauthenticate (uf_User i))),
     (claim_roles, json_strings (uf_EffectiveRoleKeys i))] m"

text \<open>\<^verbatim>\<open>IDTokenIssuer.GetUserInfo\<close>, of the info the service gave.\<close>

definition userinfo_claims :: "(time \<Rightarrow> json) \<Rightarrow> string \<Rightarrow> ClientLike \<Rightarrow> user_info \<Rightarrow> json_object" where
  "userinfo_claims enc userID client i = (let
     out = base_claims userID i [];
     out = (if isClaimAllowed client claim_authenticators
       then set_claim claim_authenticators (JArray (map (authenticator_json enc) (uf_Authenticators i))) out else out);
     out = (if isClaimAllowed client claim_recovery_code_enabled
       then set_claim claim_recovery_code_enabled (JBool (uf_RecoveryCodeEnabled i)) out else out);
     attrs = attrs_of (um_StandardAttributes (uf_User i))
   in if like_IsFirstParty client
      then set_claim ''x_web3'' (JObject []) (set_claim ''custom_attributes'' (case um_CustomAttributes (uf_User i) of None \<Rightarrow> JNull | Some a \<Rightarrow> JObject a) (set_claims attrs out))
      else set_claims (filter (\<lambda>(k, _). isClaimAllowed client k) attrs) out)"

definition IDToken_GetUserInfo :: "'r info_redis \<Rightarrow> info_services \<Rightarrow> user_table \<Rightarrow> time \<Rightarrow> (time \<Rightarrow> json) \<Rightarrow> string \<Rightarrow> string \<Rightarrow> ClientLike \<Rightarrow>
    ('r, json_object) info_proc" where
  "IDToken_GetUserInfo rd is db now enc app userID client =
     bindp (GetUserInfoBearer rd is db now app userID) (\<lambda>i. ret (userinfo_claims enc userID client i))"

definition PopulateUserClaimsInIDToken :: "'r info_redis \<Rightarrow> info_services \<Rightarrow> user_table \<Rightarrow> time \<Rightarrow> string \<Rightarrow> json_object \<Rightarrow> string \<Rightarrow> ClientLike \<Rightarrow>
    ('r, json_object) info_proc" where
  "PopulateUserClaimsInIDToken rd is db now app token userID client =
     bindp (GetUserInfoBearer rd is db now app userID) (\<lambda>i. let token = base_claims userID i token in
     ret (if like_PIIAllowedInIDToken client
          then set_claims (filter (\<lambda>(k, _). isClaimAllowed client k) (attrs_of (um_StandardAttributes (uf_User i)))) token
          else token))"

section \<open>The cache agrees with the database\<close>

text \<open>Two infos that say the same of the user, but for what is not stored and a disabled period that is over.\<close>

definition agree :: "user_info \<Rightarrow> user_info \<Rightarrow> bool" where
  "agree i j \<longleftrightarrow> as_stored (i\<lparr>uf_User := forget_user_period (uf_User i)\<rparr>) = as_stored (j\<lparr>uf_User := forget_user_period (uf_User j)\<rparr>)"

lemma agree_refl [simp]: "agree i i"
  by (simp add: agree_def)

lemma agree_as_stored: "agree (as_stored i) j \<longleftrightarrow> agree i j"
proof -
  have "as_stored ((as_stored i)\<lparr>uf_User := forget_user_period (uf_User (as_stored i))\<rparr>) = as_stored (i\<lparr>uf_User := forget_user_period (uf_User i)\<rparr>)"
    by (simp add: as_stored_def forget_user_period_def)
  then show ?thesis by (simp add: agree_def)
qed

lemma Queries_Get_Ok:
  "fst (Queries_Get us now app userID role db) = Ok m \<longleftrightarrow> fst (Queries_GetMany us now app [userID] role db) = Ok [m]"
  by (auto simp: Queries_Get_def Queries_GetMany_def bindp_def run_simps Store_GetByIDs_def
      split: outcome.splits prod.splits list.splits)

lemma collect_single: "collect f xs = Ok [m] \<Longrightarrow> \<exists>x. xs = [x] \<and> f x = Ok m"
  by (cases xs; cases "tl xs") auto

lemma Queries_Get_later:
  assumes "fst (Queries_Get us t0 app userID role db) = Ok m" "t0 \<le> t"
    and "\<And>st. um_AccountStatusStaleFrom m = Some st \<Longrightarrow> t < st"
  shows "\<exists>m'. fst (Queries_Get us t app userID role db) = Ok m' \<and> forget_user_period m' = forget_user_period m"
proof -
  let ?raw = "map scan_user (filter (\<lambda>u. au_ID u \<in> set [userID]) (app_rows app db))"
  have many: "fst (Queries_GetMany us r app [userID] role db) = models_of us r role ?raw" for r
    by (simp add: Queries_GetMany_def Store_GetByIDs_def)
  from assms(1) have ok: "models_of us t0 role ?raw = Ok [m]" by (simp add: Queries_Get_Ok many)
  then obtain ids auths ver std custom roles groups where parts:
    "\<And>r. models_of us r role ?raw = collect (\<lambda>u. let i = au_ID u in status_outcome (newUserModel u r (ids i) (auths i) (ver i)
       (std i) (custom i) (Some (roles i)) (Some (groups i)))) ?raw"
    by (auto simp: models_of_def Let_def)
  from collect_single [OF ok [unfolded parts]] obtain u where u: "?raw = [u]" and nu: "status_outcome (newUserModel u t0
    (ids (au_ID u)) (auths (au_ID u)) (ver (au_ID u)) (std (au_ID u)) (custom (au_ID u)) (Some (roles (au_ID u))) (Some (groups (au_ID u)))) = Ok m"
    by (auto simp: Let_def)
  let ?n = "\<lambda>r. newUserModel u r (ids (au_ID u)) (auths (au_ID u)) (ver (au_ID u)) (std (au_ID u)) (custom (au_ID u))
    (Some (roles (au_ID u))) (Some (groups (au_ID u)))"
  from nu have "?n t0 = Ok m" by (cases "?n t0") auto
  from newUserModel_later [OF this assms(2,3)] obtain m' where m': "?n t = Ok m'" "forget_user_period m' = forget_user_period m" by blast
  then have "models_of us t role ?raw = Ok [m']" unfolding parts unfolding u by (simp add: Let_def)
  with m'(2) show ?thesis by (auto simp: Queries_Get_Ok many)
qed

lemma fresh_later:
  assumes "getUserInfoFromDatabase is db t0 app userID role = Ok i" "t0 \<le> t"
    and "\<And>st. uf_AccountStatusStaleFrom i = Some st \<Longrightarrow> t < st"
  shows "\<exists>j. getUserInfoFromDatabase is db t app userID role = Ok j \<and> agree i j"
proof -
  from assms(1) have q: "fst (Queries_Get (is_Users is) t0 app userID role db) = Ok (uf_User i)"
    and st: "uf_AccountStatusStaleFrom i = um_AccountStatusStaleFrom (uf_User i)"
    by (auto simp: getUserInfoFromDatabase_def)
  from Queries_Get_later [OF q assms(2)] assms(3) st obtain m' where
    m': "fst (Queries_Get (is_Users is) t app userID role db) = Ok m'" "forget_user_period m' = forget_user_period (uf_User i)" by auto
  have "um_AccountStatusStaleFrom (forget_user_period m') = um_AccountStatusStaleFrom (forget_user_period (uf_User i))"
    using m'(2) by simp
  then have "um_AccountStatusStaleFrom m' = um_AccountStatusStaleFrom (uf_User i)" by (simp add: forget_user_period_def)
  with assms(1) m' st show ?thesis
    by (auto simp: getUserInfoFromDatabase_def agree_def as_stored_def)
qed

text \<open>Cache keys are apart.\<close>

lemma first_separator: "xs @ c # ys = xs' @ c # ys' \<Longrightarrow> c \<notin> set xs \<Longrightarrow> c \<notin> set xs' \<Longrightarrow> xs = xs' \<and> ys = ys'"
proof (induction xs arbitrary: xs')
  case Nil
  then show ?case by (cases xs') auto
next
  case (Cons x xs)
  then show ?case by (cases xs') auto
qed

lemma cacheKey_inj:
  assumes "cacheKey app uid role = cacheKey app uid' role'" "CHR '':'' \<notin> set role" "CHR '':'' \<notin> set role'"
  shows "uid = uid' \<and> role = role'"
proof -
  from assms(1) have "uid @ CHR '':'' # role = uid' @ CHR '':'' # role'" by (simp add: cacheKey_def)
  from arg_cong [OF this, of rev] have "rev role @ CHR '':'' # rev uid = rev role' @ CHR '':'' # rev uid'" by simp
  from first_separator [OF this] assms(2,3) show ?thesis by simp
qed

definition roles :: "string set" where "roles = {RoleGreatest, RoleBearer}"

lemma roles_no_colon: "role \<in> roles \<Longrightarrow> CHR '':'' \<notin> set role"
  by (auto simp: roles_def RoleGreatest_def RoleBearer_def)

text \<open>Everything in the cache was read from the database as it is now.\<close>

definition cache_current :: "(time \<Rightarrow> 'r \<Rightarrow> string \<Rightarrow> user_info option) \<Rightarrow> string \<Rightarrow> time \<Rightarrow> info_services \<Rightarrow> user_table \<Rightarrow> 'r \<Rightarrow> bool" where
  "cache_current view app now is db r \<longleftrightarrow> (\<forall>t \<ge> now. \<forall>uid. \<forall>role \<in> roles. \<forall>v. view t r (cacheKey app uid role) = Some v \<longrightarrow>
     (\<exists>t0 \<le> now. \<exists>i. getUserInfoFromDatabase is db t0 app uid role = Ok i \<and> v = as_stored i))"

text \<open>A change of the database that concerns some users only.\<close>

definition concerns_only :: "string \<Rightarrow> string list \<Rightarrow> info_services \<Rightarrow> user_table \<Rightarrow> info_services \<Rightarrow> user_table \<Rightarrow> bool" where
  "concerns_only app us is db is' db' \<longleftrightarrow> (\<forall>uid. uid \<notin> set us \<longrightarrow>
     (\<forall>t role. getUserInfoFromDatabase is' db' t app uid role = getUserInfoFromDatabase is db t app uid role))"

text \<open>The service from an empty cache: users are read, and the database changes with an event delivered to the sink.\<close>

inductive info_history :: "'r info_redis \<Rightarrow> (time \<Rightarrow> 'r \<Rightarrow> string \<Rightarrow> user_info option) \<Rightarrow> string \<Rightarrow> time \<Rightarrow> info_services \<Rightarrow> user_table \<Rightarrow> 'r \<Rightarrow> bool"
  for rd view app where
  empty: "\<forall>t \<ge> now. \<forall>k. view t r k = None \<Longrightarrow> info_history rd view app now is db r"
| read: "info_history rd view app t is db r \<Longrightarrow> t \<le> now \<Longrightarrow> role \<in> roles \<Longrightarrow>
    getUserInfo rd is db now app uid role r = (res, r') \<Longrightarrow> info_history rd view app now is db r'"
| change: "info_history rd view app t is db r \<Longrightarrow> t \<le> now \<Longrightarrow>
    concerns_only app (nb_RequireReindexUserIDs p @ nb_DeletedUserIDs p) is db is' db' \<Longrightarrow> ev_Payload e = NonBlocking p \<Longrightarrow>
    UserInfo_ReceiveNonBlockingEvent rd now app e r = (Ok (), r') \<Longrightarrow> info_history rd view app now is' db' r'"

context info_keys begin

lemma current_later: "cache_current view app t is db r \<Longrightarrow> t \<le> now \<Longrightarrow> cache_current view app now is db r"
  unfolding cache_current_def by (meson order.trans)

lemma fromCache:
  assumes "cache_current view app now is db r" "role \<in> roles" "getUserInfoFromCache rd now app uid role r = (Ok c, r')"
  shows "r' = r \<and> (\<forall>i. c = Some i \<longrightarrow> (\<exists>j. getUserInfoFromDatabase is db now app uid role = Ok j \<and> agree i j))"
proof -
  obtain res r1 where g: "ir_GET rd now (cacheKey app uid role) r = (res, r1)" by force
  note G = GET [OF g]
  show ?thesis
  proof (cases res)
    case (Inl e)
    with g G assms(3) show ?thesis by (cases e) (auto simp: getUserInfoFromCache_def)
  next
    case (Inr i)
    with g G assms(3) have r': "r' = r" and v: "view now r (cacheKey app uid role) = Some i"
      and c: "c = (case uf_AccountStatusStaleFrom i of Some st \<Rightarrow> if \<not> now < st then None else Some i | None \<Rightarrow> Some i)"
      by (auto simp: getUserInfoFromCache_def)
    from assms(1,2) v obtain t0 i0 where i0: "t0 \<le> now" "getUserInfoFromDatabase is db t0 app uid role = Ok i0" "i = as_stored i0"
      unfolding cache_current_def by blast
    have st: "uf_AccountStatusStaleFrom i = uf_AccountStatusStaleFrom i0" using i0(3) by (simp add: as_stored_def)
    show ?thesis
    proof (intro conjI allI impI)
      fix i' assume "c = Some i'"
      with c st have "i' = i" and "\<And>s. uf_AccountStatusStaleFrom i0 = Some s \<Longrightarrow> now < s"
        by (auto split: option.splits if_splits)
      with fresh_later [OF i0(2,1)] i0(3) show "\<exists>j. getUserInfoFromDatabase is db now app uid role = Ok j \<and> agree i' j"
        by (auto simp: agree_as_stored)
    qed (rule r')
  qed
qed

lemma cacheUserInfo_current:
  assumes "cache_current view app now is db r" "role \<in> roles" "getUserInfoFromDatabase is db now app uid role = Ok fresh"
    and "cacheUserInfo rd now app uid role fresh r = (res, r')"
  shows "cache_current view app now is db r'"
proof -
  obtain sres r1 where s: "ir_SET rd now (cacheKey app uid role) (as_stored fresh) Short r = (sres, r1)" by force
  with assms(4) have r': "r' = r1" by (auto simp: cacheUserInfo_def split: sum.splits cache_err.splits)
  show ?thesis
    unfolding cache_current_def
  proof (intro allI impI ballI)
    fix t uid' role' v
    assume t: "now \<le> t" and role': "role' \<in> roles" and v: "view t r' (cacheKey app uid' role') = Some v"
    from SET [OF s t, of "cacheKey app uid' role'"] v r'
    consider "view t r (cacheKey app uid' role') = Some v" | "cacheKey app uid' role' = cacheKey app uid role" "v = as_stored fresh"
      by auto
    then show "\<exists>t0 \<le> now. \<exists>i. getUserInfoFromDatabase is db t0 app uid' role' = Ok i \<and> v = as_stored i"
    proof cases
      case 1
      with assms(1) t role' show ?thesis unfolding cache_current_def by blast
    next
      case 2
      with cacheKey_inj role' assms(2) roles_no_colon have "uid' = uid" "role' = role" by blast+
      with 2 assms(3) show ?thesis by auto
    qed
  qed
qed

lemma getUserInfo_current:
  assumes "cache_current view app now is db r" "role \<in> roles" "getUserInfo rd is db now app uid role r = (res, r')"
  shows "cache_current view app now is db r' \<and>
    (\<forall>i. res = Ok i \<longrightarrow> (\<exists>j. getUserInfoFromDatabase is db now app uid role = Ok j \<and> agree i j))"
proof -
  obtain c r1 where g: "getUserInfoFromCache rd now app uid role r = (c, r1)" by force
  show ?thesis
  proof (cases c)
    case (Ok v)
    from fromCache [OF assms(1,2) g [unfolded Ok]] have r1: "r1 = r"
      and hit: "\<And>i. v = Some i \<Longrightarrow> \<exists>j. getUserInfoFromDatabase is db now app uid role = Ok j \<and> agree i j" by auto
    show ?thesis
    proof (cases v)
      case (Some i)
      with assms g Ok r1 hit show ?thesis by (auto simp: getUserInfo_def bindp_def run_simps)
    next
      case None
      show ?thesis
      proof (cases "getUserInfoFromDatabase is db now app uid role")
        case (Ok fresh)
        obtain w r2 where w: "cacheUserInfo rd now app uid role fresh r = (w, r2)" by force
        from cacheUserInfo_current [OF assms(1,2) Ok w] assms(3) g \<open>c = Ok v\<close> None r1 Ok w show ?thesis
          by (cases w) (auto simp: getUserInfo_def bindp_def run_simps)
      qed (use assms g \<open>c = Ok v\<close> None r1 in \<open>auto simp: getUserInfo_def bindp_def run_simps\<close>)
    qed
  next
    case (Err e)
    obtain x where "ir_GET rd now (cacheKey app uid role) r = (x, r1)"
      using g by (auto simp: getUserInfoFromCache_def split: prod.splits sum.splits cache_err.splits)
    from GET [OF this] assms g Err show ?thesis by (auto simp: getUserInfo_def bindp_def)
  next
    case Panic
    with g show ?thesis by (auto simp: getUserInfoFromCache_def split: prod.splits sum.splits cache_err.splits)
  qed
qed

lemma purge_view:
  assumes "PurgeUserInfo rd now app u r = (Ok (), r')" "now \<le> t"
  shows "view t r' k = view t r k \<or> view t r' k = None" and "role \<in> roles \<Longrightarrow> view t r' (cacheKey app u role) = None"
proof -
  obtain dres where d: "ir_DEL rd now [cacheKey app u RoleGreatest, cacheKey app u RoleBearer] r = (dres, r')" "dres = Inr ()"
    using assms(1) by (auto simp: PurgeUserInfo_def split: prod.splits sum.splits cache_err.splits)
  note D = DEL [OF d(1) assms(2)]
  show "view t r' k = view t r k \<or> view t r' k = None" using D [of k] by auto
  show "role \<in> roles \<Longrightarrow> view t r' (cacheKey app u role) = None"
    using D [of "cacheKey app u role"] d(2) by (auto simp: roles_def)
qed

lemma purge_all_frame:
  "purge_all rd now app us r = (Ok (), r') \<Longrightarrow> now \<le> t \<Longrightarrow> view t r' k = view t r k \<or> view t r' k = None"
proof (induction us arbitrary: r)
  case (Cons u us)
  from Cons.prems(1) obtain r1 where p: "PurgeUserInfo rd now app u r = (Ok (), r1)" and q: "purge_all rd now app us r1 = (Ok (), r')"
    by (auto simp: bindp_Ok)
  from purge_view(1) [OF p Cons.prems(2), of k] Cons.IH [OF q Cons.prems(2)] show ?case by auto
qed (simp add: run_simps)

lemma purge_all_purges:
  "purge_all rd now app us r = (Ok (), r') \<Longrightarrow> now \<le> t \<Longrightarrow> uid \<in> set us \<Longrightarrow> role \<in> roles \<Longrightarrow>
    view t r' (cacheKey app uid role) = None"
proof (induction us arbitrary: r)
  case (Cons u us)
  from Cons.prems(1) obtain r1 where p: "PurgeUserInfo rd now app u r = (Ok (), r1)" and q: "purge_all rd now app us r1 = (Ok (), r')"
    by (auto simp: bindp_Ok)
  show ?case
  proof (cases "uid \<in> set us")
    case True
    with Cons.IH [OF q] Cons.prems show ?thesis by simp
  next
    case False
    with Cons.prems have "uid = u" by simp
    with purge_view(2) [OF p Cons.prems(2,4)] purge_all_frame [OF q Cons.prems(2), of "cacheKey app u role"] show ?thesis by auto
  qed
qed simp

lemma history_current: "info_history rd view app now is db r \<Longrightarrow> cache_current view app now is db r"
proof (induction rule: info_history.induct)
  case (empty now r "is" db)
  then show ?case by (simp add: cache_current_def)
next
  case (read t "is" db r now role uid res r')
  from getUserInfo_current [OF current_later [OF read.IH read.hyps(2)] read.hyps(3,4)] show ?case by blast
next
  case (change t "is" db r now p is' db' e r')
  let ?us = "nb_RequireReindexUserIDs p @ nb_DeletedUserIDs p"
  from change.hyps(4,5) have purge: "purge_all rd now app ?us r = (Ok (), r')"
    by (simp add: UserInfo_ReceiveNonBlockingEvent_def)
  show ?case
    unfolding cache_current_def
  proof (intro allI impI ballI)
    fix t' uid role v
    assume t': "now \<le> t'" and role: "role \<in> roles" and v: "view t' r' (cacheKey app uid role) = Some v"
    from purge_all_purges [OF purge t' _ role, of uid] v have uid: "uid \<notin> set ?us" by auto
    from purge_all_frame [OF purge t', of "cacheKey app uid role"] v have "view t' r (cacheKey app uid role) = Some v" by auto
    with current_later [OF change.IH change.hyps(2)] t' role obtain t0 i where
      "t0 \<le> now" "getUserInfoFromDatabase is db t0 app uid role = Ok i" "v = as_stored i"
      unfolding cache_current_def by blast
    with uid change.hyps(3) show "\<exists>t0 \<le> now. \<exists>i. getUserInfoFromDatabase is' db' t0 app uid role = Ok i \<and> v = as_stored i"
      unfolding concerns_only_def by metis
  qed
qed

lemma history_coherent:
  assumes "info_history rd view app t is db r" "t \<le> now" "role \<in> roles" "getUserInfo rd is db now app uid role r = (Ok i, r')"
  shows "\<exists>j. getUserInfoFromDatabase is db now app uid role = Ok j \<and> agree i j"
  using getUserInfo_current [OF current_later [OF history_current [OF assms(1)] assms(2)] assms(3,4)] by blast

end


text \<open>A user that was just created, with services that know nothing of it.\<close>

definition plain_services :: info_services where
  "plain_services = \<lparr>is_Users = \<lparr>us_Identities = \<lambda>_. Ok (\<lambda>_. []), us_Authenticators = \<lambda>_. Ok (\<lambda>_. []), us_AreUsersVerified = \<lambda>_. Ok (\<lambda>_. False),
       us_StandardAttributes = \<lambda>_ _. Ok (\<lambda>_. None), us_CustomAttributes = \<lambda>_ _. Ok (\<lambda>_. None), us_Roles = \<lambda>_. Ok (\<lambda>_. []), us_Groups = \<lambda>_. Ok (\<lambda>_. [])\<rparr>,
     is_ListEffectiveRoles = \<lambda>_. Ok [''admin''], is_ListAuthenticators = \<lambda>_. Ok [], is_CountRecoveryCodes = \<lambda>_. Ok 0,
     is_PrimaryAuthenticators = [], is_SecondaryAuthenticators = []\<rparr>"

abbreviation new_user_table :: user_table where
  "new_user_table \<equiv> [(''app'', RawCommands_New 5 ''u'')]"

lemma new_user_info:
  "\<exists>i. getUserInfoFromDatabase plain_services new_user_table 7 ''app'' ''u'' role = Ok i \<and> uf_AccountStatusStaleFrom i = None"
  by (simp add: getUserInfoFromDatabase_def plain_services_def Queries_Get_def Queries_GetMany_def bindp_def run_simps Store_GetByIDs_def
      app_rows_def models_of_def scan_user_def RawCommands_New_def newUserModel_def User_AccountStatus_def WithRefTime_def
      normalizeOnRead_def normalizeOnChange_eq dropPastPeriod_def deriveAccountStatusStaleFrom_def IsDisabled_def Check_def
      IsAnonymized_def IsDeactivated_def isOutsideValidPeriod_def variant_def Let_def)


section \<open>What a third party is told\<close>

lemma map_of_set_claim: "map_of (set_claim k v m) k' = (if k' = k then Some v else map_of m k')"
  by (induction m) (auto simp: set_claim_def)

lemma dom_set_claims: "map_of (set_claims kvs m) k = Some v \<Longrightarrow> map_of m k = Some v \<or> (k, v) \<in> set kvs"
  by (induction kvs arbitrary: m) (fastforce simp: set_claims_def map_of_set_claim split: if_splits)+

lemma set_claims_not: "k \<notin> fst ` set kvs \<Longrightarrow> map_of (set_claims kvs m) k = map_of m k"
  by (induction kvs arbitrary: m) (auto simp: set_claims_def map_of_set_claim)

definition base_claim_names :: "string list" where
  "base_claim_names = [''sub'', claim_is_anonymous, claim_is_verified, claim_can_reauthenticate, claim_roles]"

lemma base_claims_names: "map_of (base_claims userID i m) k = Some v \<Longrightarrow> map_of m k = Some v \<or> k \<in> set base_claim_names"
  by (auto simp: base_claims_def base_claim_names_def dest!: dom_set_claims)

lemma own_scope:
  assumes "ScopeAllowsClaim s k"
  shows "k = ''email'' \<Longrightarrow> s \<in> {''email'', FullAccessScope, FullUserInfoScope}"
    and "k = ''phone_number'' \<Longrightarrow> s \<in> {''phone'', FullAccessScope, FullUserInfoScope}"
    and "k = ''address'' \<Longrightarrow> s \<in> {''address'', FullAccessScope, FullUserInfoScope}"
  using assms by (simp_all add: ScopeAllowsClaim_def scopeClaims_def ProfileClaims_def scope_defs split: if_splits)

text \<open>A third-party client is told of a user, beyond its id and state, only what its scopes allow: every claim of the userinfo
  response is one of five fixed ones or one that a scope of the client allows; and without full access or full userinfo
  the email, the phone number and the address each take their own scope.\<close>

theorem third_party_claims_by_scope:
  assumes "\<not> like_IsFirstParty client" "map_of (userinfo_claims enc userID client i) k = Some v" "k \<notin> set base_claim_names"
  shows "isClaimAllowed client k \<and> (\<forall>(scope, claim) \<in> {(''email'', ''email''), (''phone'', ''phone_number''), (''address'', ''address'')}.
    k = claim \<longrightarrow> {scope, FullAccessScope, FullUserInfoScope} \<inter> set (like_Scopes client) \<noteq> {})"
proof -
  have allowed: "isClaimAllowed client k"
    using assms base_claims_names [of userID i "[]" k]
    by (auto simp: userinfo_claims_def Let_def map_of_set_claim split: if_splits dest!: dom_set_claims)
  then obtain s where s: "s \<in> set (like_Scopes client)" "ScopeAllowsClaim s k"
    by (auto simp: isClaimAllowed_def list_ex_iff)
  with own_scope [OF s(2)] allowed show ?thesis by auto
qed

end
