(* ===== verification/Transaction.thy ===== *)
theory Transaction imports Proc begin

text \<open>
  Transactions: \<^verbatim>\<open>pkg/lib/infra/db/hook_handle.go\<close>. A procedure runs on a transaction that sees the
  database as it was when the transaction began; what it changes is kept when the procedure, the
  hooks before the commit and the commit itself succeed, and is dropped otherwise. What happens
  outside the database (\<open>tx_world\<close>) is never undone. The hooks are registered by the procedure.
\<close>

record ('d, 'h, 'w) tx_state =
  tx_db :: 'd
  tx_hooks :: "'h list"
  tx_world :: 'w

text \<open>What PostgreSQL may refuse. A failed commit leaves the database as it was.\<close>

record 'e tx_faults =
  tf_Open :: "'e option"
  tf_Conn :: "'e option"
  tf_Begin :: "'e option"
  tf_Commit :: "'e option"
  tf_Rollback :: "'e option"

type_synonym ('d, 'h, 'w, 'e, 'a) tx_proc = "(('d, 'h, 'w) tx_state, 'e, 'a) proc"

definition UseHook :: "'h \<Rightarrow> ('d, 'h, 'w, 'e, unit) tx_proc" where
  "UseHook hook = modp (\<lambda>s. s\<lparr>tx_hooks := tx_hooks s @ [hook]\<rparr>)"

definition fault :: "'e option \<Rightarrow> ('s, 'e, unit) proc" where
  "fault f = (case f of None \<Rightarrow> ret () | Some e \<Rightarrow> failp e)"

primrec run_hooks :: "('h \<Rightarrow> ('s, 'e, unit) proc) \<Rightarrow> 'h list \<Rightarrow> ('s, 'e, unit) proc" where
  "run_hooks run [] = ret ()"
| "run_hooks run (hook # hooks) = bindp (run hook) (\<lambda>_. run_hooks run hooks)"

text \<open>The slice of hooks is read once: a hook registered while the hooks before the commit run is not among them.\<close>

definition commitTx :: "'e tx_faults \<Rightarrow> ('h \<Rightarrow> ('d, 'h, 'w, 'e, unit) tx_proc) \<Rightarrow> 'h list \<Rightarrow> ('d, 'h, 'w, 'e, unit) tx_proc" where
  "commitTx faults WillCommitTx hooks = bindp (run_hooks WillCommitTx hooks) (\<lambda>_. fault (tf_Commit faults))"

definition openTx :: "'e tx_faults \<Rightarrow> ('s, 'e, unit) proc" where
  "openTx faults = bindp (fault (tf_Open faults)) (\<lambda>_. bindp (fault (tf_Conn faults)) (\<lambda>_. fault (tf_Begin faults)))"

text \<open>\<^verbatim>\<open>DidCommitTx\<close> returns no error; a panic in it is not caught.\<close>

definition run_did_commit :: "('h \<Rightarrow> ('d, 'h, 'w, 'e, unit) tx_proc) \<Rightarrow> ('d, 'h, 'w, 'e, unit) tx_proc" where
  "run_did_commit DidCommitTx = (\<lambda>s. run_hooks (\<lambda>h. ignore_err (DidCommitTx h)) (tx_hooks s) s)"

definition leave_tx :: "'d \<Rightarrow> ('e, 'a) outcome \<times> ('d, 'h, 'w) tx_state \<Rightarrow> ('e, 'a) outcome \<times> 'd \<times> 'w" where
  "leave_tx db r = (fst r, db, tx_world (snd r))"

definition keep_tx :: "('e, 'a) outcome \<times> ('d, 'h, 'w) tx_state \<Rightarrow> ('e, 'a) outcome \<times> 'd \<times> 'w" where
  "keep_tx r = (fst r, tx_db (snd r), tx_world (snd r))"

definition WithTx :: "'e tx_faults \<Rightarrow> ('h \<Rightarrow> ('d, 'h, 'w, 'e, unit) tx_proc) \<Rightarrow> ('h \<Rightarrow> ('d, 'h, 'w, 'e, unit) tx_proc) \<Rightarrow>
    ('d, 'h, 'w, 'e, 'a) tx_proc \<Rightarrow> ('d \<times> 'w, 'e, 'a) proc" where
  "WithTx faults WillCommitTx DidCommitTx body = (\<lambda>(db, w).
     let inside = bindp (openTx faults) (\<lambda>_. bindp body (\<lambda>x.
           bindp (\<lambda>s. commitTx faults WillCommitTx (tx_hooks s) s) (\<lambda>_. ret x)));
         r = inside \<lparr>tx_db = db, tx_hooks = [], tx_world = w\<rparr>
     in case fst r of
          Ok x \<Rightarrow> keep_tx (bindp (run_did_commit DidCommitTx) (\<lambda>_. ret x) (snd r))
        | _ \<Rightarrow> leave_tx db r)"

text \<open>\<^verbatim>\<open>ReadOnly\<close> always rolls back. It runs \<^verbatim>\<open>DidCommitTx\<close> although nothing was committed and \<^verbatim>\<open>WillCommitTx\<close>
  did not run.\<close>

definition ReadOnly :: "'e tx_faults \<Rightarrow> ('h \<Rightarrow> ('d, 'h, 'w, 'e, unit) tx_proc) \<Rightarrow> ('d, 'h, 'w, 'e, 'a) tx_proc \<Rightarrow> ('d \<times> 'w, 'e, 'a) proc" where
  "ReadOnly faults DidCommitTx body = (\<lambda>(db, w).
     let inside = bindp (openTx faults) (\<lambda>_. bindp body (\<lambda>x. bindp (fault (tf_Rollback faults)) (\<lambda>_. ret x)));
         r = inside \<lparr>tx_db = db, tx_hooks = [], tx_world = w\<rparr>
     in case fst r of
          Ok x \<Rightarrow> keep_tx (bindp (run_did_commit DidCommitTx) (\<lambda>_. ret x) ((snd r)\<lparr>tx_db := db\<rparr>))
        | _ \<Rightarrow> leave_tx db r)"

section \<open>All or nothing\<close>

lemma fault_run: "fault f s = ((case f of None \<Rightarrow> Ok () | Some e \<Rightarrow> Err e), s)"
  by (simp add: fault_def run_simps split: option.split)

lemma run_did_commit_not_Err: "fst (run_hooks (\<lambda>h. ignore_err (did h)) hooks s) \<noteq> Err e"
proof (induction hooks arbitrary: s)
  case Nil
  then show ?case by (simp add: run_simps)
next
  case (Cons h hooks)
  then show ?case
    by (auto simp: bindp_def ignore_err_def attempt_def run_simps split: prod.splits outcome.splits)
qed

text \<open>A transaction that reports an error left the database alone; nothing outside heard of a commit.\<close>

lemma WithTx_Err: "WithTx faults will did body (db, w) = (Err e, db', w') \<Longrightarrow> db' = db"
proof -
  assume r: "WithTx faults will did body (db, w) = (Err e, db', w')"
  define inside where "inside = bindp (openTx faults) (\<lambda>_. bindp body (\<lambda>x.
           bindp (\<lambda>s. commitTx faults will (tx_hooks s) s) (\<lambda>_. ret x))) \<lparr>tx_db = db, tx_hooks = [], tx_world = w\<rparr>"
  have w: "WithTx faults will did body (db, w) = (case fst inside of
          Ok x \<Rightarrow> keep_tx (bindp (run_did_commit did) (\<lambda>_. ret x) (snd inside))
        | _ \<Rightarrow> leave_tx db inside)"
    unfolding WithTx_def inside_def Let_def by simp
  show "db' = db"
  proof (cases "fst inside")
    case (Ok x)
    have "fst (run_did_commit did (snd inside)) \<noteq> Err e"
      unfolding run_did_commit_def by (rule run_did_commit_not_Err)
    with Ok r w show ?thesis
      by (auto simp: keep_tx_def bindp_def run_simps split: prod.splits outcome.splits)
  qed (use r w in \<open>auto simp: leave_tx_def\<close>)
qed

lemma openTx_run: "openTx faults s = ((case tf_Open faults of Some e \<Rightarrow> Err e | None \<Rightarrow>
    (case tf_Conn faults of Some e \<Rightarrow> Err e | None \<Rightarrow> (case tf_Begin faults of Some e \<Rightarrow> Err e | None \<Rightarrow> Ok ()))), s)"
  by (simp add: openTx_def bindp_def fault_run split: option.split)

definition no_faults :: "'e tx_faults" where
  "no_faults = \<lparr>tf_Open = None, tf_Conn = None, tf_Begin = None, tf_Commit = None, tf_Rollback = None\<rparr>"

lemma no_faults_sel [simp]:
  "tf_Open no_faults = None" "tf_Conn no_faults = None" "tf_Begin no_faults = None"
  "tf_Commit no_faults = None" "tf_Rollback no_faults = None"
  by (simp_all add: no_faults_def)

lemma openTx_no_faults [simp]: "openTx no_faults s = (Ok (), s)"
  by (simp add: openTx_run)

text \<open>A transaction without hooks: the body decides.\<close>

lemma run_hooks_Nil [simp]: "run_hooks run [] s = (Ok (), s)"
  by (simp add: run_simps)

lemma WithTx_Ok:
  assumes "body \<lparr>tx_db = db, tx_hooks = [], tx_world = w\<rparr> = (Ok x, s1)"
    and "run_hooks will (tx_hooks s1) s1 = (Ok (), s2)"
    and "run_did_commit did s2 = (Ok (), s3)"
  shows "WithTx no_faults will did body (db, w) = (Ok x, tx_db s3, tx_world s3)"
proof -
  have "commitTx no_faults will (tx_hooks s1) s1 = (Ok (), s2)"
    using assms(2) by (simp add: commitTx_def bindp_def fault_run)
  with assms show ?thesis
    by (simp add: WithTx_def bindp_def run_simps keep_tx_def)
qed

lemma WithTx_body_Err:
  assumes "body \<lparr>tx_db = db, tx_hooks = [], tx_world = w\<rparr> = (Err e, s1)"
  shows "WithTx no_faults will did body (db, w) = (Err e, db, tx_world s1)"
  using assms by (simp add: WithTx_def bindp_def leave_tx_def)

end
