(* ===== verification/EventService.thy ===== *)
theory EventService imports Transaction HookSink begin

text \<open>
  Dispatching events: \<^verbatim>\<open>pkg/lib/event/service.go\<close>. One service serves a request. Blocking events go to
  the sinks at once, inside the transaction. Nonblocking events wait: they are numbered just before
  the commit and delivered to the sinks after it. The service is the only hook of transactions.
\<close>

record event_service =
  es_NonBlockingPayloads :: "NonBlockingPayload list"
  es_NonBlockingEvents :: "Event list"
  es_DatabaseHooked :: bool
  es_IsDispatchEventErr :: bool

definition new_service :: event_service where
  "new_service = \<lparr>es_NonBlockingPayloads = [], es_NonBlockingEvents = [], es_DatabaseHooked = False, es_IsDispatchEventErr = False\<rparr>"

datatype tx_hook = EventServiceHook

record 'x event_world =
  ew_Service :: event_service
  ew_Seq :: int
  ew_Mono :: time
  ew_Net :: 'x
  ew_Async :: "outgoing list"

type_synonym ('d, 'x) event_state = "('d, tx_hook, 'x event_world) tx_state"
type_synonym ('d, 'x, 'a) event_proc = "(('d, 'x) event_state, event_error, 'a) proc"

record ('d, 'x) sink =
  sk_ReceiveBlockingEvent :: "Event \<Rightarrow> ('d, 'x, Event) sink_proc"
  sk_ReceiveNonBlockingEvent :: "Event \<Rightarrow> ('d, 'x, unit) sink_proc"

text \<open>The request the service serves, and the parts of the server it asks.\<close>

record 'd request_env =
  re_AppID :: string
  re_RemoteIP :: string
  re_UserAgentString :: string
  re_HTTPRequestURL :: string
  re_Unix :: "time \<Rightarrow> int"
  re_PreferredLanguageTags :: "string list option"
  re_FallbackLanguage :: string
  re_SupportedLanguages :: "string list"
  re_IntlResolve :: "string list \<Rightarrow> string \<Rightarrow> string list \<Rightarrow> int"
  re_ClientID :: string
  re_State :: string
  re_XState :: string
  re_AdminAuthzAudit :: json_object
  re_GeoIP :: "string \<Rightarrow> string option"
  re_TrackingID :: string
  re_FillContext :: "payload \<Rightarrow> Event_Context \<Rightarrow> Event_Context"
  re_GetUser :: "'d \<Rightarrow> string \<Rightarrow> (event_error, UserModel option) outcome"
  re_SeqErr :: "int \<Rightarrow> event_error option"

fun of_outcome :: "('e, 'a) outcome \<Rightarrow> ('s, 'e, 'a) proc" where
  "of_outcome (Ok x) = ret x"
| "of_outcome (Err e) = failp e"
| "of_outcome Panic = panicp"

section \<open>The context of an event\<close>

fun payload_UserID :: "payload \<Rightarrow> ('e, string) outcome" where
  "payload_UserID (Blocking p) = Blocking_UserID p"
| "payload_UserID (NonBlocking p) = Ok (nb_UserID p)"
| "payload_UserID OtherPayload = Ok ''''"

fun payload_TriggeredBy :: "payload \<Rightarrow> string" where
  "payload_TriggeredBy (Blocking p) = Blocking_TriggeredBy p"
| "payload_TriggeredBy (NonBlocking p) = nb_TriggeredBy p"
| "payload_TriggeredBy OtherPayload = ''''"

definition NewAuditContext :: "string \<Rightarrow> json_object \<Rightarrow> json_object" where
  "NewAuditContext httpURL info = filter (\<lambda>(k, v). k \<noteq> ''http_url'') info @ [(''http_url'', JString httpURL)]"

definition makeContext :: "'d request_env \<Rightarrow> time \<Rightarrow> payload \<Rightarrow> ('e, Event_Context) outcome" where
  "makeContext env now p = bind_oc (payload_UserID p) (\<lambda>uid. let
     preferred = (case re_PreferredLanguageTags env of None \<Rightarrow> [] | Some tags \<Rightarrow> tags);
     idx = re_IntlResolve env preferred (re_FallbackLanguage env) (re_SupportedLanguages env);
     language = (if idx \<noteq> - 1 then re_SupportedLanguages env ! nat idx else '''')
   in Ok (re_FillContext env p
     \<lparr>ctx_Timestamp = re_Unix env now,
      ctx_UserID = (if uid \<noteq> '''' then Some uid else None),
      ctx_TriggeredBy = payload_TriggeredBy p,
      ctx_AuditContext = NewAuditContext (re_HTTPRequestURL env) (re_AdminAuthzAudit env),
      ctx_PreferredLanguages = preferred,
      ctx_Language = language,
      ctx_OAuth = (if re_State env \<noteq> '''' \<or> re_XState env \<noteq> '''' then Some (re_State env, re_XState env) else None),
      ctx_IPAddress = re_RemoteIP env,
      ctx_GeoLocationCode = (case re_GeoIP env (re_RemoteIP env) of Some c \<Rightarrow> (if c \<noteq> '''' then Some c else None) | None \<Rightarrow> None),
      ctx_UserAgent = re_UserAgentString env,
      ctx_AppID = re_AppID env,
      ctx_ClientID = re_ClientID env,
      ctx_TrackingID = re_TrackingID env\<rparr>))"

section \<open>Operations\<close>

definition mod_service :: "(event_service \<Rightarrow> event_service) \<Rightarrow> ('d, 'x, unit) event_proc" where
  "mod_service f = modp (\<lambda>s. s\<lparr>tx_world := (tx_world s)\<lparr>ew_Service := f (ew_Service (tx_world s))\<rparr>\<rparr>)"

definition get_service :: "(event_service \<Rightarrow> 'a) \<Rightarrow> ('d, 'x, 'a) event_proc" where
  "get_service f = getp (\<lambda>s. f (ew_Service (tx_world s)))"

text \<open>A sink works on the database of the transaction and on the world outside it.\<close>

definition sink_view :: "('d, 'x) event_state \<Rightarrow> ('d, 'x) sink_state" where
  "sink_view s = \<lparr>ss_DB = tx_db s, ss_Mono = ew_Mono (tx_world s), ss_Net = ew_Net (tx_world s), ss_Async = ew_Async (tx_world s)\<rparr>"

definition put_sink_view :: "('d, 'x) sink_state \<Rightarrow> ('d, 'x) event_state \<Rightarrow> ('d, 'x) event_state" where
  "put_sink_view v s = s\<lparr>tx_db := ss_DB v,
     tx_world := (tx_world s)\<lparr>ew_Mono := ss_Mono v, ew_Net := ss_Net v, ew_Async := ss_Async v\<rparr>\<rparr>"

definition on_sink :: "('d, 'x, 'a) sink_proc \<Rightarrow> ('d, 'x, 'a) event_proc" where
  "on_sink p = (\<lambda>s. case p (sink_view s) of (r, v) \<Rightarrow> (r, put_sink_view v s))"

text \<open>\<^verbatim>\<open>nextval\<close> of \<^verbatim>\<open>_auth_event_sequence\<close>: a sequence is not rolled back.\<close>

definition NextSequenceNumber :: "'d request_env \<Rightarrow> ('d, 'x, int) event_proc" where
  "NextSequenceNumber env = (\<lambda>s. let n = ew_Seq (tx_world s) + 1 in case re_SeqErr env n of
     Some e \<Rightarrow> (Err e, s)
   | None \<Rightarrow> (Ok n, s\<lparr>tx_world := (tx_world s)\<lparr>ew_Seq := n\<rparr>\<rparr>))"

definition resolve_payload :: "'d request_env \<Rightarrow> payload \<Rightarrow> ('d, 'x, payload) event_proc" where
  "resolve_payload env p = bindp (getp tx_db) (\<lambda>db. of_outcome (Resolve (re_GetUser env db) p))"

definition make_context :: "'d request_env \<Rightarrow> payload \<Rightarrow> ('d, 'x, Event_Context) event_proc" where
  "make_context env p = bindp (getp (\<lambda>s. ew_Mono (tx_world s))) (\<lambda>now. of_outcome (makeContext env now p))"

primrec receive_blocking :: "('d, 'x) sink list \<Rightarrow> Event \<Rightarrow> ('d, 'x, Event) event_proc" where
  "receive_blocking [] e = ret e"
| "receive_blocking (k # ks) e = bindp (on_sink (sk_ReceiveBlockingEvent k e)) (receive_blocking ks)"

primrec receive_nonblocking :: "('d, 'x) sink list \<Rightarrow> Event \<Rightarrow> ('d, 'x, unit) event_proc" where
  "receive_nonblocking [] e = ret ()"
| "receive_nonblocking (k # ks) e = bindp (ignore_err (on_sink (sk_ReceiveNonBlockingEvent k e))) (\<lambda>_. receive_nonblocking ks e)"

definition hook_database :: "('d, 'x, unit) event_proc" where
  "hook_database = bindp (get_service es_DatabaseHooked) (\<lambda>hooked. if hooked then ret ()
     else bindp (UseHook EventServiceHook) (\<lambda>_. mod_service (\<lambda>s. s\<lparr>es_DatabaseHooked := True\<rparr>)))"

text \<open>The payload as the hooks left it is what the caller sees afterwards.\<close>

definition dispatch :: "'d request_env \<Rightarrow> ('d, 'x) sink list \<Rightarrow> payload \<Rightarrow> ('d, 'x, payload) event_proc" where
  "dispatch env sinks p = bindp hook_database (\<lambda>_. bindp (resolve_payload env p) (\<lambda>p. case p of
     Blocking b \<Rightarrow> bindp (make_context env p) (\<lambda>context. bindp (NextSequenceNumber env) (\<lambda>seq.
       bindp (receive_blocking sinks (newBlockingEvent seq b context)) (\<lambda>e. ret (ev_Payload e))))
   | NonBlocking nb \<Rightarrow> bindp (mod_service (\<lambda>s. s\<lparr>es_NonBlockingPayloads := es_NonBlockingPayloads s @ [nb]\<rparr>)) (\<lambda>_. ret p)
   | OtherPayload \<Rightarrow> panicp))"

definition DispatchEventOnCommit :: "'d request_env \<Rightarrow> ('d, 'x) sink list \<Rightarrow> payload \<Rightarrow> ('d, 'x, payload) event_proc" where
  "DispatchEventOnCommit env sinks p = bindp (attempt (dispatch env sinks p)) (\<lambda>r. case r of
     Inr p \<Rightarrow> ret p
   | Inl e \<Rightarrow> bindp (mod_service (\<lambda>s. s\<lparr>es_IsDispatchEventErr := True\<rparr>)) (\<lambda>_. failp e))"

definition resolveNonBlockingEvent :: "'d request_env \<Rightarrow> NonBlockingPayload \<Rightarrow> ('d, 'x, Event) event_proc" where
  "resolveNonBlockingEvent env p = bindp (make_context env (NonBlocking p)) (\<lambda>context.
     bindp (NextSequenceNumber env) (\<lambda>seq.
     bindp (resolve_payload env (NonBlocking p)) (\<lambda>q. case q of
       NonBlocking p \<Rightarrow> ret (NewNonBlockingEvent seq p context) | _ \<Rightarrow> panicp)))"

definition DispatchEventImmediately :: "'d request_env \<Rightarrow> ('d, 'x) sink list \<Rightarrow> NonBlockingPayload \<Rightarrow> ('d, 'x, unit) event_proc" where
  "DispatchEventImmediately env sinks p = bindp (resolve_payload env (NonBlocking p)) (\<lambda>q. case q of
     NonBlocking p \<Rightarrow> bindp (resolveNonBlockingEvent env p) (receive_nonblocking sinks) | _ \<Rightarrow> panicp)"

definition DispatchEventWithoutTx :: "('d, 'x) sink list \<Rightarrow> Event \<Rightarrow> ('d, 'x, Event) event_proc" where
  "DispatchEventWithoutTx sinks e = receive_blocking sinks e"

definition PrepareBlockingEventWithTx :: "'d request_env \<Rightarrow> BlockingPayload \<Rightarrow> ('d, 'x, Event) event_proc" where
  "PrepareBlockingEventWithTx env p = bindp (make_context env (Blocking p)) (\<lambda>context.
     bindp (NextSequenceNumber env) (\<lambda>seq.
     bindp (resolve_payload env (Blocking p)) (\<lambda>q. case q of
       Blocking p \<Rightarrow> ret (newBlockingEvent seq p context) | _ \<Rightarrow> panicp)))"

section \<open>The hooks of a transaction\<close>

primrec prepare_events :: "'d request_env \<Rightarrow> NonBlockingPayload list \<Rightarrow> ('d, 'x, unit) event_proc" where
  "prepare_events env [] = ret ()"
| "prepare_events env (p # ps) = bindp (resolveNonBlockingEvent env p) (\<lambda>e.
     bindp (mod_service (\<lambda>s. s\<lparr>es_NonBlockingEvents := es_NonBlockingEvents s @ [e]\<rparr>)) (\<lambda>_. prepare_events env ps))"

definition WillCommitTx :: "'d request_env \<Rightarrow> ('d, 'x, unit) event_proc" where
  "WillCommitTx env = with_defer
     (bindp (get_service es_IsDispatchEventErr) (\<lambda>err. if err then ret ()
       else bindp (get_service es_NonBlockingPayloads) (prepare_events env)))
     (\<lambda>s. s\<lparr>tx_world := (tx_world s)\<lparr>ew_Service := (ew_Service (tx_world s))\<lparr>es_NonBlockingPayloads := []\<rparr>\<rparr>\<rparr>)"

primrec deliver_events :: "('d, 'x) sink list \<Rightarrow> Event list \<Rightarrow> ('d, 'x, unit) event_proc" where
  "deliver_events sinks [] = ret ()"
| "deliver_events sinks (e # es) = bindp (receive_nonblocking sinks e) (\<lambda>_. deliver_events sinks es)"

definition DidCommitTx :: "('d, 'x) sink list \<Rightarrow> ('d, 'x, unit) event_proc" where
  "DidCommitTx sinks = bindp (get_service es_NonBlockingEvents) (\<lambda>events.
     bindp (mod_service (\<lambda>s. s\<lparr>es_NonBlockingEvents := []\<rparr>)) (\<lambda>_. deliver_events sinks events))"

text \<open>A transaction of the request, and a body that dispatches events and then succeeds or fails.\<close>

definition event_tx :: "'d request_env \<Rightarrow> ('d, 'x) sink list \<Rightarrow> ('d, 'x, 'a) event_proc \<Rightarrow> ('d \<times> 'x event_world, event_error, 'a) proc" where
  "event_tx env sinks body = WithTx no_faults (\<lambda>h. case h of EventServiceHook \<Rightarrow> WillCommitTx env)
     (\<lambda>h. case h of EventServiceHook \<Rightarrow> DidCommitTx sinks) body"

primrec dispatch_all :: "'d request_env \<Rightarrow> ('d, 'x) sink list \<Rightarrow> payload list \<Rightarrow> ('d, 'x, unit) event_proc" where
  "dispatch_all env sinks [] = ret ()"
| "dispatch_all env sinks (p # ps) = bindp (DispatchEventOnCommit env sinks p) (\<lambda>_. dispatch_all env sinks ps)"

section \<open>Delivery follows the commit\<close>

text \<open>
  What is expected of a request: the payload with the users it names looked up, its context, the
  events in order with the next numbers, and every event given to every sink.
\<close>

definition looked_up :: "'d request_env \<Rightarrow> 'd \<Rightarrow> NonBlockingPayload \<Rightarrow> NonBlockingPayload" where
  "looked_up env db p = p\<lparr>nb_Users := map (\<lambda>(uid, u). (uid, case re_GetUser env db uid of Ok (Some u') \<Rightarrow> u' | _ \<Rightarrow> u)) (nb_Users p)\<rparr>"

definition context_of :: "'d request_env \<Rightarrow> time \<Rightarrow> NonBlockingPayload \<Rightarrow> Event_Context" where
  "context_of env now p = (case makeContext env now (NonBlocking p) :: (unit, Event_Context) outcome of Ok c \<Rightarrow> c | _ \<Rightarrow> undefined)"

primrec expected_events :: "'d request_env \<Rightarrow> time \<Rightarrow> int \<Rightarrow> NonBlockingPayload list \<Rightarrow> Event list" where
  "expected_events env now n [] = []"
| "expected_events env now n (p # ps) = NewNonBlockingEvent (n + 1) p (context_of env now p) # expected_events env now (n + 1) ps"

definition delivered :: "('d, 'x) sink list \<Rightarrow> Event list \<Rightarrow> ('d, 'x) sink_state \<Rightarrow> ('d, 'x) sink_state" where
  "delivered sinks es = fold (\<lambda>e. fold (\<lambda>k v. snd (sk_ReceiveNonBlockingEvent k e v)) sinks) es"

definition answers :: "'d request_env \<Rightarrow> 'd \<Rightarrow> bool" where
  "answers env db \<longleftrightarrow> (\<forall>uid. is_ok (re_GetUser env db uid)) \<and> (\<forall>n. re_SeqErr env n = None)"

definition no_panics :: "('d, 'x) sink list \<Rightarrow> bool" where
  "no_panics sinks \<longleftrightarrow> (\<forall>k \<in> set sinks. \<forall>e v. fst (sk_ReceiveNonBlockingEvent k e v) \<noteq> Panic)"

lemma resolve_users_map:
  assumes "\<forall>uid. is_ok (get uid)"
  shows "resolve_users get us = Ok (map (\<lambda>(uid, u). (uid, case get uid of Ok (Some u') \<Rightarrow> u' | _ \<Rightarrow> u)) us)"
proof (induction us)
  case (Cons a us)
  obtain uid u where a: "a = (uid, u)" by force
  from assms obtain v where "get uid = Ok v" using is_okD by blast
  with Cons a show ?case by (auto simp: resolve_user_def split: option.split)
qed simp

lemma resolve_payload_run:
  "answers env (tx_db s) \<Longrightarrow> resolve_payload env (NonBlocking p) s = (Ok (NonBlocking (looked_up env (tx_db s) p)), s)"
  by (simp add: resolve_payload_def answers_def resolve_users_map looked_up_def run_simps)

lemma looked_up_idem: "looked_up env db (looked_up env db p) = looked_up env db p"
  by (auto simp: looked_up_def case_prod_beta split: outcome.split option.split)

lemma make_context_run: "make_context env (NonBlocking p) s = (Ok (context_of env (ew_Mono (tx_world s)) p), s)"
  by (simp add: make_context_def context_of_def makeContext_def run_simps Let_def)

lemma resolveNonBlockingEvent_run:
  assumes "answers env (tx_db s)" "looked_up env (tx_db s) p = p"
  shows "resolveNonBlockingEvent env p s =
    (Ok (NewNonBlockingEvent (ew_Seq (tx_world s) + 1) p (context_of env (ew_Mono (tx_world s)) p)),
     s\<lparr>tx_world := (tx_world s)\<lparr>ew_Seq := ew_Seq (tx_world s) + 1\<rparr>\<rparr>)"
  using assms resolve_payload_run [of env "s\<lparr>tx_world := (tx_world s)\<lparr>ew_Seq := ew_Seq (tx_world s) + 1\<rparr>\<rparr>" p]
  by (simp add: resolveNonBlockingEvent_def bindp_def make_context_run NextSequenceNumber_def answers_def run_simps Let_def)

lemma dispatch_run:
  assumes "answers env (tx_db s)"
  shows "DispatchEventOnCommit env sinks (NonBlocking p) s = (Ok (NonBlocking (looked_up env (tx_db s) p)),
    s\<lparr>tx_hooks := tx_hooks s @ (if es_DatabaseHooked (ew_Service (tx_world s)) then [] else [EventServiceHook]),
      tx_world := (tx_world s)\<lparr>ew_Service := (ew_Service (tx_world s))\<lparr>es_DatabaseHooked := True,
        es_NonBlockingPayloads := es_NonBlockingPayloads (ew_Service (tx_world s)) @ [looked_up env (tx_db s) p]\<rparr>\<rparr>\<rparr>)"
proof -
  define s1 where "s1 = s\<lparr>tx_hooks := tx_hooks s @ (if es_DatabaseHooked (ew_Service (tx_world s)) then [] else [EventServiceHook]),
      tx_world := (tx_world s)\<lparr>ew_Service := (ew_Service (tx_world s))\<lparr>es_DatabaseHooked := True\<rparr>\<rparr>\<rparr>"
  have "hook_database s = (Ok (), s1)"
    by (simp add: hook_database_def get_service_def mod_service_def UseHook_def run_simps s1_def)
  moreover have "resolve_payload env (NonBlocking p) s1 = (Ok (NonBlocking (looked_up env (tx_db s) p)), s1)"
    using resolve_payload_run [of env s1 p] assms by (simp add: s1_def)
  ultimately show ?thesis
    by (simp add: DispatchEventOnCommit_def dispatch_def attempt_def bindp_def mod_service_def run_simps)
       (simp add: s1_def)
qed

lemma dispatch_all_run:
  assumes "answers env (tx_db s)" "es_DatabaseHooked (ew_Service (tx_world s))"
  shows "dispatch_all env sinks (map NonBlocking ps) s = (Ok (),
    s\<lparr>tx_world := (tx_world s)\<lparr>ew_Service := (ew_Service (tx_world s))\<lparr>
        es_NonBlockingPayloads := es_NonBlockingPayloads (ew_Service (tx_world s)) @ map (looked_up env (tx_db s)) ps\<rparr>\<rparr>\<rparr>)"
  using assms
proof (induction ps arbitrary: s)
  case (Cons p ps)
  let ?s = "s\<lparr>tx_world := (tx_world s)\<lparr>ew_Service := (ew_Service (tx_world s))\<lparr>
        es_NonBlockingPayloads := es_NonBlockingPayloads (ew_Service (tx_world s)) @ [looked_up env (tx_db s) p]\<rparr>\<rparr>\<rparr>"
  have "DispatchEventOnCommit env sinks (NonBlocking p) s = (Ok (NonBlocking (looked_up env (tx_db s) p)), ?s)"
    using Cons.prems by (simp add: dispatch_run)
  with Cons.IH [of ?s] Cons.prems show ?case by (simp add: bindp_run)
qed (simp add: run_simps)

text \<open>Before the commit: the waiting payloads become numbered events.\<close>

lemma prepare_events_run:
  assumes "answers env (tx_db s)" "\<forall>p \<in> set ps. looked_up env (tx_db s) p = p"
  shows "prepare_events env ps s = (Ok (), s\<lparr>tx_world := (tx_world s)\<lparr>ew_Seq := ew_Seq (tx_world s) + int (length ps),
    ew_Service := (ew_Service (tx_world s))\<lparr>es_NonBlockingEvents := es_NonBlockingEvents (ew_Service (tx_world s))
      @ expected_events env (ew_Mono (tx_world s)) (ew_Seq (tx_world s)) ps\<rparr>\<rparr>\<rparr>)"
  using assms
proof (induction ps arbitrary: s)
  case (Cons p ps)
  let ?s = "s\<lparr>tx_world := (tx_world s)\<lparr>ew_Seq := ew_Seq (tx_world s) + 1,
    ew_Service := (ew_Service (tx_world s))\<lparr>es_NonBlockingEvents := es_NonBlockingEvents (ew_Service (tx_world s))
      @ [NewNonBlockingEvent (ew_Seq (tx_world s) + 1) p (context_of env (ew_Mono (tx_world s)) p)]\<rparr>\<rparr>\<rparr>"
  from Cons.prems Cons.IH [of ?s] show ?case
    by (simp add: bindp_run(1) [OF resolveNonBlockingEvent_run] mod_service_def algebra_simps)
qed (simp add: run_simps)

lemma WillCommitTx_run:
  assumes "answers env (tx_db s)" "\<forall>p \<in> set (es_NonBlockingPayloads (ew_Service (tx_world s))). looked_up env (tx_db s) p = p"
    and "\<not> es_IsDispatchEventErr (ew_Service (tx_world s))"
  shows "WillCommitTx env s = (Ok (), s\<lparr>tx_world := (tx_world s)\<lparr>
      ew_Seq := ew_Seq (tx_world s) + int (length (es_NonBlockingPayloads (ew_Service (tx_world s)))),
      ew_Service := (ew_Service (tx_world s))\<lparr>es_NonBlockingPayloads := [], es_NonBlockingEvents :=
        es_NonBlockingEvents (ew_Service (tx_world s)) @ expected_events env (ew_Mono (tx_world s)) (ew_Seq (tx_world s))
          (es_NonBlockingPayloads (ew_Service (tx_world s)))\<rparr>\<rparr>\<rparr>)"
  using prepare_events_run [OF assms(1,2)] assms(3)
  by (simp add: WillCommitTx_def with_defer_def get_service_def run_simps)

text \<open>After the commit: every event to every sink, whatever a sink says.\<close>

lemma sink_view_put [simp]: "sink_view (put_sink_view v s) = v" "put_sink_view v (put_sink_view v' s) = put_sink_view v s"
  "put_sink_view (sink_view s) s = s"
  by (simp_all add: sink_view_def put_sink_view_def)

lemma receive_nonblocking_run:
  "no_panics sinks \<Longrightarrow> receive_nonblocking sinks e s =
    (Ok (), put_sink_view (fold (\<lambda>k v. snd (sk_ReceiveNonBlockingEvent k e v)) sinks (sink_view s)) s)"
proof (induction sinks arbitrary: s)
  case (Cons k ks)
  obtain r v where k: "sk_ReceiveNonBlockingEvent k e (sink_view s) = (r, v)" by force
  with Cons.prems have "r \<noteq> Panic" by (auto simp: no_panics_def) (metis fst_conv)
  with k have "ignore_err (on_sink (sk_ReceiveNonBlockingEvent k e)) s = (Ok (), put_sink_view v s)"
    by (cases r) (auto simp: ignore_err_def attempt_def on_sink_def bindp_def run_simps)
  with Cons.IH [of "put_sink_view v s"] Cons.prems k show ?case by (simp add: no_panics_def bindp_run)
qed (simp add: run_simps)

lemma delivered_Nil [simp]: "delivered sinks [] v = v"
  by (simp add: delivered_def)

lemma deliver_events_run:
  "no_panics sinks \<Longrightarrow> deliver_events sinks es s = (Ok (), put_sink_view (delivered sinks es (sink_view s)) s)"
  by (induction es arbitrary: s) (simp_all add: run_simps delivered_def bindp_run(1) [OF receive_nonblocking_run])

lemma DidCommitTx_run:
  assumes "no_panics sinks"
  shows "DidCommitTx sinks s = (Ok (), put_sink_view (delivered sinks (es_NonBlockingEvents (ew_Service (tx_world s))) (sink_view s))
    (s\<lparr>tx_world := (tx_world s)\<lparr>ew_Service := (ew_Service (tx_world s))\<lparr>es_NonBlockingEvents := []\<rparr>\<rparr>\<rparr>))"
  by (simp add: DidCommitTx_def get_service_def mod_service_def deliver_events_run [OF assms])
     (simp add: sink_view_def)

text \<open>The world the sinks see, at the end of a transaction.\<close>

definition outside :: "'d \<times> 'x event_world \<Rightarrow> ('d, 'x) sink_state" where
  "outside s = \<lparr>ss_DB = fst s, ss_Mono = ew_Mono (snd s), ss_Net = ew_Net (snd s), ss_Async = ew_Async (snd s)\<rparr>"

lemma sink_view_start [simp]: "sink_view \<lparr>tx_db = db, tx_hooks = hs, tx_world = w\<rparr> = outside (db, w)"
  by (simp add: sink_view_def outside_def)

lemma dispatch_first:
  assumes "answers env db" "\<not> es_DatabaseHooked (ew_Service w)" "es_NonBlockingPayloads (ew_Service w) = []"
  shows "dispatch_all env sinks (map NonBlocking ps) \<lparr>tx_db = db, tx_hooks = [], tx_world = w\<rparr> = (Ok (),
    \<lparr>tx_db = db, tx_hooks = (if ps = [] then [] else [EventServiceHook]),
     tx_world = w\<lparr>ew_Service := (ew_Service w)\<lparr>es_DatabaseHooked := ps \<noteq> [], es_NonBlockingPayloads := map (looked_up env db) ps\<rparr>\<rparr>\<rparr>)"
proof (cases ps)
  case Nil
  from assms have "w\<lparr>ew_Service := (ew_Service w)\<lparr>es_DatabaseHooked := False, es_NonBlockingPayloads := []\<rparr>\<rparr> = w" by (cases w; cases "ew_Service w") simp
  with Nil assms show ?thesis by (simp add: run_simps)
next
  case (Cons p qs)
  then show ?thesis
    using assms by (simp add: bindp_run(1) [OF dispatch_run] dispatch_all_run)
qed


text \<open>A sink that writes down what it is given, and a request.\<close>

definition example_request :: "'d request_env" where
  "example_request = \<lparr>re_AppID = ''app'', re_RemoteIP = ''127.0.0.1'', re_UserAgentString = '''', re_HTTPRequestURL = '''',
     re_Unix = \<lambda>t. t, re_PreferredLanguageTags = None, re_FallbackLanguage = ''en'', re_SupportedLanguages = [''en''],
     re_IntlResolve = \<lambda>_ _ _. 0, re_ClientID = '''', re_State = '''', re_XState = '''', re_AdminAuthzAudit = [],
     re_GeoIP = \<lambda>_. None, re_TrackingID = '''', re_FillContext = \<lambda>_ c. c, re_GetUser = \<lambda>db uid. Ok None,
     re_SeqErr = \<lambda>_. None\<rparr>"

definition noting_sink :: "(string list, (string \<times> string) list) sink" where
  "noting_sink = \<lparr>sk_ReceiveBlockingEvent = ret,
     sk_ReceiveNonBlockingEvent = \<lambda>e v. (Err (OtherError ''down''), v\<lparr>ss_Net := ss_Net v @ [(ev_ID e, ev_Type e)]\<rparr>)\<rparr>"

definition example_payload :: "string \<Rightarrow> NonBlockingPayload" where
  "example_payload t = \<lparr>nb_Type = t, nb_UserID = ''u'', nb_TriggeredBy = ''user'', nb_ForHook = True, nb_ForAudit = True,
     nb_RequireReindexUserIDs = [''u''], nb_DeletedUserIDs = [], nb_ExtraHookURLs = [], nb_Users = [], nb_Body = JNull\<rparr>"

definition example_world :: "(string \<times> string) list event_world" where
  "example_world = \<lparr>ew_Service = new_service, ew_Seq = 9, ew_Mono = 0, ew_Net = [], ew_Async = []\<rparr>"

lemma example_request_ok: "answers example_request db" "no_panics [noting_sink, noting_sink]"
  by (simp_all add: answers_def example_request_def no_panics_def noting_sink_def)

abbreviation noted_request :: "string list request_env" where
  "noted_request \<equiv> example_request"


text \<open>
  Once a transaction of the request has dispatched an event, the service takes itself for registered. It
  is not a hook of the next transaction, whose nonblocking events are never delivered.
\<close>

lemma later_transactions_deliver_nothing:
  assumes "answers env db" "es_DatabaseHooked (ew_Service w)"
  shows "fst (event_tx env sinks (dispatch_all env sinks (map NonBlocking ps)) (db, w)) = Ok ()"
    and "outside (snd (event_tx env sinks (dispatch_all env sinks (map NonBlocking ps)) (db, w))) = outside (db, w)"
proof -
  let ?s1 = "\<lparr>tx_db = db, tx_hooks = [] :: tx_hook list, tx_world = w\<lparr>ew_Service := (ew_Service w)\<lparr>
        es_NonBlockingPayloads := es_NonBlockingPayloads (ew_Service w) @ map (looked_up env db) ps\<rparr>\<rparr>\<rparr>"
  have d: "dispatch_all env sinks (map NonBlocking ps) \<lparr>tx_db = db, tx_hooks = [], tx_world = w\<rparr> = (Ok (), ?s1)"
    using dispatch_all_run [of env "\<lparr>tx_db = db, tx_hooks = [], tx_world = w\<rparr>" sinks ps] assms by simp
  have "event_tx env sinks (dispatch_all env sinks (map NonBlocking ps)) (db, w) = (Ok (), tx_db ?s1, tx_world ?s1)"
    unfolding event_tx_def by (rule WithTx_Ok [where ?s1.0 = ?s1 and ?s2.0 = ?s1 and ?s3.0 = ?s1]) (simp_all add: d run_did_commit_def run_simps)
  then show "fst (event_tx env sinks (dispatch_all env sinks (map NonBlocking ps)) (db, w)) = Ok ()"
    and "outside (snd (event_tx env sinks (dispatch_all env sinks (map NonBlocking ps)) (db, w))) = outside (db, w)"
    by (simp_all add: outside_def)
qed

end
