(* ===== verification/OfflineGrant.thy ===== *)
theory OfflineGrant imports OAuthClient AccountStatus begin

text \<open>
  OAuth grants: \<^verbatim>\<open>grant.go\<close>, \<^verbatim>\<open>grant_offline.go\<close>, \<^verbatim>\<open>grant_offline_service.go\<close>,
  \<^verbatim>\<open>grant_access.go\<close>, \<^verbatim>\<open>app_session.go\<close>, \<^verbatim>\<open>session_manager.go\<close> of \<^verbatim>\<open>pkg/lib/oauth\<close> and the
  Redis store \<^verbatim>\<open>pkg/lib/oauth/redis\<close>.

  The providers the services call (identity provider sessions, authorizations, users, client
  configuration) are the record \<open>oauth_deps\<close>. Device information and identity specs are only stored:
  they stay JSON text. A constant-time comparison of byte strings is equality.
\<close>

section \<open>Grants\<close>

record refresh_token =
  rt_InitialTokenHash :: string
  rt_ClientID :: string
  rt_CreatedAt :: time
  rt_Scopes :: "string list"
  rt_AuthorizationID :: string
  rt_DPoPJKT :: string
  rt_AccessInfo :: "access_info option"
  rt_ExpireAt :: "time option"
  rt_RotatedTokenHash :: "string option"
  rt_RotatedAt :: "time option"

record OfflineGrant =
  og_AppID :: string
  og_ID :: string
  og_InitialClientID :: string
  og_IDPSessionID :: string
  og_IdentityID :: string
  og_CreatedAt :: time
  og_AuthenticatedAt :: time
  og_Attrs :: Attrs
  og_AccessInfo :: access_info
  og_DeviceInfo :: string
  og_SSOEnabled :: bool
  og_App2AppDeviceKeyJWKJSON :: string
  og_DeviceSecretHash :: string
  og_DeviceSecretDPoPJKT :: string
  og_RefreshTokens :: "refresh_token list"
  og_ParticipatedSAMLServiceProviderIDs :: "string list"
  og_Deprecated_AuthorizationID :: string
  og_Deprecated_Scopes :: "string list"
  og_Deprecated_TokenHash :: string
  og_ExpireAtForResolvedSession :: time

record OfflineGrantSession =
  ogs_OfflineGrant :: OfflineGrant
  ogs_CreatedAt :: time
  ogs_InitialTokenHash :: string
  ogs_ClientID :: string
  ogs_Scopes :: "string list"
  ogs_AuthorizationID :: string
  ogs_DPoPJKT :: string

definition og_SSOGroupIDPSessionID :: "OfflineGrant \<Rightarrow> string" where
  "og_SSOGroupIDPSessionID g = (if og_SSOEnabled g then og_IDPSessionID g else '''')"

definition og_base :: "OfflineGrant \<Rightarrow> session_base" where
  "og_base g = \<lparr>SessionID = og_ID g, SessionType = TypeOfflineGrant,
     SSOGroupIDPSessionID = og_SSOGroupIDPSessionID g, base_UserID = UserID (og_Attrs g)\<rparr>"

definition Grant_GetAuthenticationInfo :: "OfflineGrant \<Rightarrow> authentication_info" where
  "Grant_GetAuthenticationInfo g = \<lparr>ai_UserID = UserID (og_Attrs g), ai_AuthenticatedAt = og_AuthenticatedAt g,
     ai_AMR = (case GetAMR (og_Attrs g) of Some amr \<Rightarrow> amr | None \<Rightarrow> [])\<rparr>"

definition Grant_IsSameSSOGroup :: "OfflineGrant \<Rightarrow> session_base \<Rightarrow> bool" where
  "Grant_IsSameSSOGroup g ss =
     (if EqualSession (og_base g) ss then True
      else if og_SSOEnabled g
      then if og_SSOGroupIDPSessionID g = '''' then False
           else og_SSOGroupIDPSessionID g = SSOGroupIDPSessionID ss
      else False)"

definition MatchCurrentHash :: "refresh_token \<Rightarrow> string \<Rightarrow> bool" where
  "MatchCurrentHash t anotherHash = (case rt_RotatedTokenHash t of
     Some rotated \<Rightarrow> anotherHash = rotated
   | None \<Rightarrow> anotherHash = rt_InitialTokenHash t)"

definition MatchInitialHash :: "refresh_token \<Rightarrow> string \<Rightarrow> bool" where
  "MatchInitialHash t anotherHash \<longleftrightarrow> anotherHash = rt_InitialTokenHash t"

definition root_session :: "OfflineGrant \<Rightarrow> OfflineGrantSession" where
  "root_session g = \<lparr>ogs_OfflineGrant = g, ogs_CreatedAt = og_CreatedAt g,
     ogs_InitialTokenHash = og_Deprecated_TokenHash g, ogs_ClientID = og_InitialClientID g,
     ogs_Scopes = og_Deprecated_Scopes g, ogs_AuthorizationID = og_Deprecated_AuthorizationID g, ogs_DPoPJKT = ''''\<rparr>"

definition token_session :: "OfflineGrant \<Rightarrow> refresh_token \<Rightarrow> OfflineGrantSession" where
  "token_session g t = \<lparr>ogs_OfflineGrant = g, ogs_CreatedAt = rt_CreatedAt t,
     ogs_InitialTokenHash = rt_InitialTokenHash t, ogs_ClientID = rt_ClientID t,
     ogs_Scopes = rt_Scopes t, ogs_AuthorizationID = rt_AuthorizationID t, ogs_DPoPJKT = rt_DPoPJKT t\<rparr>"

text \<open>The loop keeps the first result it found.\<close>

definition ToSession :: "OfflineGrant \<Rightarrow> string \<Rightarrow> OfflineGrantSession option" where
  "ToSession g refreshTokenHash =
     (let result = (if refreshTokenHash = '''' \<or> refreshTokenHash = og_Deprecated_TokenHash g
                    then Some (root_session g) else None)
      in foldl (\<lambda>result token.
           let result = (if MatchCurrentHash token refreshTokenHash \<and> result = None
                         then Some (token_session g token) else result)
           in if MatchInitialHash token refreshTokenHash \<and> result = None
              then Some (token_session g token) else result) result (og_RefreshTokens g))"

definition Grant_MatchCurrentHash :: "OfflineGrant \<Rightarrow> string \<Rightarrow> bool" where
  "Grant_MatchCurrentHash g refreshTokenHash = foldl (\<lambda>result token.
     if MatchCurrentHash token refreshTokenHash then True else result)
     (refreshTokenHash = og_Deprecated_TokenHash g) (og_RefreshTokens g)"

definition HasClientID :: "OfflineGrant \<Rightarrow> string \<Rightarrow> bool" where
  "HasClientID g clientID = (if og_InitialClientID g = clientID then True
     else list_ex (\<lambda>token. rt_ClientID token = clientID) (og_RefreshTokens g))"

definition GetRemovableInitialTokenHashesByAuthorizationID :: "OfflineGrant \<Rightarrow> string \<Rightarrow> string list \<times> bool" where
  "GetRemovableInitialTokenHashesByAuthorizationID g authorizationID =
     ((if og_Deprecated_AuthorizationID g = authorizationID then [og_Deprecated_TokenHash g] else []) @
        map rt_InitialTokenHash (filter (\<lambda>t. rt_AuthorizationID t = authorizationID) (og_RefreshTokens g)),
      og_Deprecated_AuthorizationID g = authorizationID)"

definition GetAllRemovableInitialTokenHashesExcludeClientIDs :: "OfflineGrant \<Rightarrow> string list \<Rightarrow> string list \<times> bool" where
  "GetAllRemovableInitialTokenHashesExcludeClientIDs g clientIDs =
     ((if og_Deprecated_AuthorizationID g \<notin> set clientIDs then [og_Deprecated_TokenHash g] else []) @
        map rt_InitialTokenHash (filter (\<lambda>t. rt_AuthorizationID t \<notin> set clientIDs) (og_RefreshTokens g)),
      og_Deprecated_AuthorizationID g \<notin> set clientIDs)"

definition HasValidTokens :: "OfflineGrant \<Rightarrow> bool" where
  "HasValidTokens g = (if og_Deprecated_TokenHash g \<noteq> '''' then True else length (og_RefreshTokens g) > 0)"

definition getScopesSet :: "OfflineGrant \<Rightarrow> string \<Rightarrow> string set" where
  "getScopesSet g clientID = (if og_InitialClientID g = clientID then set (og_Deprecated_Scopes g) else {}) \<union>
     (\<Union>t \<in> set (filter (\<lambda>t. rt_ClientID t = clientID) (og_RefreshTokens g)). set (rt_Scopes t))"

definition HasAllScopes :: "OfflineGrant \<Rightarrow> string \<Rightarrow> string list \<Rightarrow> bool" where
  "HasAllScopes g clientID requiredScopes \<longleftrightarrow> list_all (\<lambda>s. s \<in> getScopesSet g clientID) requiredScopes"

definition IsOnlyUsedInClientIDs :: "OfflineGrant \<Rightarrow> string list \<Rightarrow> bool" where
  "IsOnlyUsedInClientIDs g clientIDs \<longleftrightarrow> og_InitialClientID g \<in> set clientIDs \<and>
     list_all (\<lambda>t. rt_ClientID t \<in> set clientIDs) (og_RefreshTokens g)"

section \<open>The other grants\<close>

datatype GrantSessionKind = GrantSessionKindOffline | GrantSessionKindSession

definition kind_SessionType :: "GrantSessionKind \<Rightarrow> session_type" where
  "kind_SessionType k = (case k of GrantSessionKindSession \<Rightarrow> TypeIdentityProvider | GrantSessionKindOffline \<Rightarrow> TypeOfflineGrant)"

definition GrantSessionKindFromSessionType :: "session_type \<Rightarrow> GrantSessionKind" where
  "GrantSessionKindFromSessionType typ =
     (case typ of TypeIdentityProvider \<Rightarrow> GrantSessionKindSession | TypeOfflineGrant \<Rightarrow> GrantSessionKindOffline)"

record AccessGrant =
  ag_AppID :: string
  ag_AuthorizationID :: string
  ag_SessionID :: string
  ag_SessionKind :: GrantSessionKind
  ag_CreatedAt :: time
  ag_ExpireAt :: time
  ag_Scopes :: "string list"
  ag_TokenHash :: string
  ag_InitialRefreshTokenHash :: string

record AppSession =
  as_AppID :: string
  as_OfflineGrantID :: string
  as_CreatedAt :: time
  as_ExpireAt :: time
  as_TokenHash :: string
  as_InitialRefreshTokenHash :: string

record AppSessionToken =
  ast_AppID :: string
  ast_OfflineGrantID :: string
  ast_CreatedAt :: time
  ast_ExpireAt :: time
  ast_TokenHash :: string
  ast_InitialRefreshTokenHash :: string

record PreAuthenticatedURLToken =
  pt_AppID :: string
  pt_AuthorizationID :: string
  pt_ClientID :: string
  pt_OfflineGrantID :: string
  pt_Scopes :: "string list"
  pt_CreatedAt :: time
  pt_ExpireAt :: time
  pt_TokenHash :: string

text \<open>An authorization request is a map of its parameters.\<close>

record full_authentication_info = authentication_info +
  ai_ShouldFireAuthenticatedEvent :: bool
  ai_AuthenticatedBySessionType :: string
  ai_AuthenticatedBySessionID :: string
  ai_IdentitySpecs :: "string list"

record CodeGrant =
  cg_AppID :: string
  cg_AuthorizationID :: string
  cg_AuthenticationInfo :: full_authentication_info
  cg_IDTokenHintSID :: string
  cg_CreatedAt :: time
  cg_ExpireAt :: time
  cg_CodeHash :: string
  cg_DPoPJKT :: string
  cg_RedirectURI :: string
  cg_AuthorizationRequest :: "string \<Rightarrow> string option"
  cg_IdentitySpecs :: "string list"

record SettingsActionGrant =
  sg_AppID :: string
  sg_UserID :: string
  sg_CreatedAt :: time
  sg_ExpireAt :: time
  sg_CodeHash :: string
  sg_RedirectURI :: string
  sg_AuthorizationRequest :: "string \<Rightarrow> string option"

section \<open>Redis\<close>

text \<open>
  What a key holds, as the value its JSON decodes to. The prefixes of the keys keep the kinds apart,
  so decoding a value of another kind does not happen; here it is an error.
\<close>

datatype oauth_value =
    OV_Offline OfflineGrant
  | OV_Access AccessGrant
  | OV_AppSession AppSession
  | OV_AppSessionToken AppSessionToken
  | OV_PreAuthenticatedURLToken PreAuthenticatedURLToken
  | OV_Code CodeGrant
  | OV_SettingsAction SettingsActionGrant
  | OV_Invalid

type_synonym ('r, 'm, 'x) oauth_env = "(oauth_value, 'r, 'm, 'x) sess_env"

definition codeGrantKey :: "string \<Rightarrow> string \<Rightarrow> string" where
  "codeGrantKey appID codeHash = ''app:'' @ appID @ '':code-grant:'' @ codeHash"

definition settingsActionGrantKey :: "string \<Rightarrow> string \<Rightarrow> string" where
  "settingsActionGrantKey appID codeHash = ''app:'' @ appID @ '':settings-action-grant:'' @ codeHash"

definition accessGrantKey :: "string \<Rightarrow> string \<Rightarrow> string" where
  "accessGrantKey appID tokenHash = ''app:'' @ appID @ '':access-grant:'' @ tokenHash"

definition offlineGrantKey :: "string \<Rightarrow> string \<Rightarrow> string" where
  "offlineGrantKey appID gid = ''app:'' @ appID @ '':offline-grant:'' @ gid"

definition offlineGrantMutexName :: "string \<Rightarrow> string \<Rightarrow> string" where
  "offlineGrantMutexName appID gid = ''app:'' @ appID @ '':offline-grant-mutex:'' @ gid"

definition offlineGrantListKey :: "string \<Rightarrow> string \<Rightarrow> string" where
  "offlineGrantListKey appID userID = ''app:'' @ appID @ '':offline-grant-list:'' @ userID"

definition appSessionTokenKey :: "string \<Rightarrow> string \<Rightarrow> string" where
  "appSessionTokenKey appID tokenHash = ''app:'' @ appID @ '':app-session-token:'' @ tokenHash"

definition appSessionKey :: "string \<Rightarrow> string \<Rightarrow> string" where
  "appSessionKey appID tokenHash = ''app:'' @ appID @ '':app-session:'' @ tokenHash"

definition preAuthenticatedURLTokenKey :: "string \<Rightarrow> string \<Rightarrow> string" where
  "preAuthenticatedURLTokenKey appID tokenHash = ''app:'' @ appID @ '':pre-authenticated-url-token:'' @ tokenHash"

definition stored_grant :: "OfflineGrant \<Rightarrow> OfflineGrant" where
  "stored_grant g = g\<lparr>og_Attrs := marshal_attrs (og_Attrs g), og_ExpireAtForResolvedSession := zero_time\<rparr>"

definition unmarshalCodeGrant :: "oauth_value \<Rightarrow> string + CodeGrant" where
  "unmarshalCodeGrant data = (case data of OV_Code g \<Rightarrow> Inr g | _ \<Rightarrow> Inl ''invalid character'')"

definition unmarshalSettingsActionGrant :: "oauth_value \<Rightarrow> string + SettingsActionGrant" where
  "unmarshalSettingsActionGrant data = (case data of OV_SettingsAction g \<Rightarrow> Inr g | _ \<Rightarrow> Inl ''invalid character'')"

definition unmarshalAccessGrant :: "oauth_value \<Rightarrow> string + AccessGrant" where
  "unmarshalAccessGrant data = (case data of OV_Access g \<Rightarrow> Inr g | _ \<Rightarrow> Inl ''invalid character'')"

definition unmarshalAppSession :: "oauth_value \<Rightarrow> string + AppSession" where
  "unmarshalAppSession data = (case data of OV_AppSession t \<Rightarrow> Inr t | _ \<Rightarrow> Inl ''invalid character'')"

definition unmarshalAppSessionToken :: "oauth_value \<Rightarrow> string + AppSessionToken" where
  "unmarshalAppSessionToken data = (case data of OV_AppSessionToken t \<Rightarrow> Inr t | _ \<Rightarrow> Inl ''invalid character'')"

definition unmarshalPreAuthenticatedURLToken :: "oauth_value \<Rightarrow> string + PreAuthenticatedURLToken" where
  "unmarshalPreAuthenticatedURLToken data =
     (case data of OV_PreAuthenticatedURLToken t \<Rightarrow> Inr t | _ \<Rightarrow> Inl ''invalid character'')"

definition unmarshalOfflineGrant :: "oauth_value \<Rightarrow> string + OfflineGrant" where
  "unmarshalOfflineGrant data = (case data of
     OV_Offline g \<Rightarrow> Inr (if og_AuthenticatedAt g = zero_time then g\<lparr>og_AuthenticatedAt := og_CreatedAt g\<rparr> else g)
   | _ \<Rightarrow> Inl ''invalid character'')"

definition loadData :: "('r, 'm, 'x) oauth_env \<Rightarrow> time \<Rightarrow> string \<Rightarrow> ('r, 'm, 'x, oauth_value) sess_proc" where
  "loadData env now key = bindp (rcmd (s_GET (e_redis env) now key)) (\<lambda>res. case res of
     Inl Nil_reply \<Rightarrow> failp ErrGrantNotFound
   | Inl e \<Rightarrow> failp (redis_error '''' e)
   | Inr data \<Rightarrow> ret data)"

definition load :: "('r, 'm, 'x) oauth_env \<Rightarrow> time \<Rightarrow> string \<Rightarrow> (oauth_value \<Rightarrow> string + 'g) \<Rightarrow> ('r, 'm, 'x, 'g) sess_proc" where
  "load env now key unmarshal = bindp (loadData env now key) (\<lambda>data.
     case unmarshal data of Inl e \<Rightarrow> failp (InfraErr e) | Inr g \<Rightarrow> ret g)"

definition save ::
    "('r, 'm, 'x) oauth_env \<Rightarrow> time \<Rightarrow> string \<Rightarrow> oauth_value \<Rightarrow> time \<Rightarrow> bool \<Rightarrow> ('r, 'm, 'x, unit) sess_proc" where
  "save env now key data expireAt ifNotExists = (let ttl = expireAt - now
   in bindp (rcmd (if ifNotExists then s_SETNX (e_redis env) now key data ttl
                   else s_SETXX (e_redis env) now key data ttl)) (\<lambda>res. case res of
     Inl Nil_reply \<Rightarrow> if ifNotExists then failp (InfraErr ''grant already exist'') else failp ErrGrantNotFound
   | Inl e \<Rightarrow> failp (redis_error '''' e)
   | Inr _ \<Rightarrow> ret ()))"

definition del :: "('r, 'm, 'x) oauth_env \<Rightarrow> time \<Rightarrow> string \<Rightarrow> ('r, 'm, 'x, unit) sess_proc" where
  "del env now key = rcall '''' (s_DEL (e_redis env) now key)"

section \<open>Simple grants\<close>

definition GetCodeGrant :: "('r, 'm, 'x) oauth_env \<Rightarrow> time \<Rightarrow> string \<Rightarrow> ('r, 'm, 'x, CodeGrant) sess_proc" where
  "GetCodeGrant env now codeHash = load env now (codeGrantKey (e_AppID env) codeHash) unmarshalCodeGrant"

definition CreateCodeGrant :: "('r, 'm, 'x) oauth_env \<Rightarrow> time \<Rightarrow> CodeGrant \<Rightarrow> ('r, 'm, 'x, unit) sess_proc" where
  "CreateCodeGrant env now grant = save env now (codeGrantKey (cg_AppID grant) (cg_CodeHash grant)) (OV_Code grant) (cg_ExpireAt grant) True"

definition DeleteCodeGrant :: "('r, 'm, 'x) oauth_env \<Rightarrow> time \<Rightarrow> CodeGrant \<Rightarrow> ('r, 'm, 'x, unit) sess_proc" where
  "DeleteCodeGrant env now grant = del env now (codeGrantKey (cg_AppID grant) (cg_CodeHash grant))"

definition GetSettingsActionGrant :: "('r, 'm, 'x) oauth_env \<Rightarrow> time \<Rightarrow> string \<Rightarrow> ('r, 'm, 'x, SettingsActionGrant) sess_proc" where
  "GetSettingsActionGrant env now codeHash =
     load env now (settingsActionGrantKey (e_AppID env) codeHash) unmarshalSettingsActionGrant"

definition CreateSettingsActionGrant :: "('r, 'm, 'x) oauth_env \<Rightarrow> time \<Rightarrow> SettingsActionGrant \<Rightarrow> ('r, 'm, 'x, unit) sess_proc" where
  "CreateSettingsActionGrant env now grant =
     save env now (settingsActionGrantKey (sg_AppID grant) (sg_CodeHash grant)) (OV_SettingsAction grant) (sg_ExpireAt grant) True"

definition DeleteSettingsActionGrant :: "('r, 'm, 'x) oauth_env \<Rightarrow> time \<Rightarrow> SettingsActionGrant \<Rightarrow> ('r, 'm, 'x, unit) sess_proc" where
  "DeleteSettingsActionGrant env now grant = del env now (settingsActionGrantKey (sg_AppID grant) (sg_CodeHash grant))"

definition GetAccessGrant :: "('r, 'm, 'x) oauth_env \<Rightarrow> time \<Rightarrow> string \<Rightarrow> ('r, 'm, 'x, AccessGrant) sess_proc" where
  "GetAccessGrant env now tokenHash = load env now (accessGrantKey (e_AppID env) tokenHash) unmarshalAccessGrant"

definition CreateAccessGrant :: "('r, 'm, 'x) oauth_env \<Rightarrow> time \<Rightarrow> AccessGrant \<Rightarrow> ('r, 'm, 'x, unit) sess_proc" where
  "CreateAccessGrant env now grant =
     save env now (accessGrantKey (ag_AppID grant) (ag_TokenHash grant)) (OV_Access grant) (ag_ExpireAt grant) True"

definition DeleteAccessGrant :: "('r, 'm, 'x) oauth_env \<Rightarrow> time \<Rightarrow> AccessGrant \<Rightarrow> ('r, 'm, 'x, unit) sess_proc" where
  "DeleteAccessGrant env now grant = del env now (accessGrantKey (ag_AppID grant) (ag_TokenHash grant))"

definition GetAppSessionToken :: "('r, 'm, 'x) oauth_env \<Rightarrow> time \<Rightarrow> string \<Rightarrow> ('r, 'm, 'x, AppSessionToken) sess_proc" where
  "GetAppSessionToken env now tokenHash =
     load env now (appSessionTokenKey (e_AppID env) tokenHash) unmarshalAppSessionToken"

definition CreateAppSessionToken :: "('r, 'm, 'x) oauth_env \<Rightarrow> time \<Rightarrow> AppSessionToken \<Rightarrow> ('r, 'm, 'x, unit) sess_proc" where
  "CreateAppSessionToken env now token =
     save env now (appSessionTokenKey (ast_AppID token) (ast_TokenHash token)) (OV_AppSessionToken token) (ast_ExpireAt token) True"

definition DeleteAppSessionToken :: "('r, 'm, 'x) oauth_env \<Rightarrow> time \<Rightarrow> AppSessionToken \<Rightarrow> ('r, 'm, 'x, unit) sess_proc" where
  "DeleteAppSessionToken env now token = del env now (appSessionTokenKey (ast_AppID token) (ast_TokenHash token))"

definition GetAppSession :: "('r, 'm, 'x) oauth_env \<Rightarrow> time \<Rightarrow> string \<Rightarrow> ('r, 'm, 'x, AppSession) sess_proc" where
  "GetAppSession env now tokenHash = load env now (appSessionKey (e_AppID env) tokenHash) unmarshalAppSession"

definition CreateAppSession :: "('r, 'm, 'x) oauth_env \<Rightarrow> time \<Rightarrow> AppSession \<Rightarrow> ('r, 'm, 'x, unit) sess_proc" where
  "CreateAppSession env now session =
     save env now (appSessionKey (as_AppID session) (as_TokenHash session)) (OV_AppSession session) (as_ExpireAt session) True"

definition DeleteAppSession :: "('r, 'm, 'x) oauth_env \<Rightarrow> time \<Rightarrow> AppSession \<Rightarrow> ('r, 'm, 'x, unit) sess_proc" where
  "DeleteAppSession env now session = del env now (appSessionKey (as_AppID session) (as_TokenHash session))"

definition CreatePreAuthenticatedURLToken ::
    "('r, 'm, 'x) oauth_env \<Rightarrow> time \<Rightarrow> PreAuthenticatedURLToken \<Rightarrow> ('r, 'm, 'x, unit) sess_proc" where
  "CreatePreAuthenticatedURLToken env now token = save env now
     (preAuthenticatedURLTokenKey (pt_AppID token) (pt_TokenHash token)) (OV_PreAuthenticatedURLToken token) (pt_ExpireAt token) True"

definition ConsumePreAuthenticatedURLToken ::
    "('r, 'm, 'x) oauth_env \<Rightarrow> time \<Rightarrow> string \<Rightarrow> ('r, 'm, 'x, PreAuthenticatedURLToken) sess_proc" where
  "ConsumePreAuthenticatedURLToken env now tokenHash = (let key = preAuthenticatedURLTokenKey (e_AppID env) tokenHash
   in bindp (load env now key unmarshalPreAuthenticatedURLToken) (\<lambda>t.
      bindp (del env now key) (\<lambda>_. ret t)))"

section \<open>Offline grants\<close>

definition GetOfflineGrantWithoutExpireAt ::
    "('r, 'm, 'x) oauth_env \<Rightarrow> time \<Rightarrow> string \<Rightarrow> ('r, 'm, 'x, OfflineGrant) sess_proc" where
  "GetOfflineGrantWithoutExpireAt env now gid = load env now (offlineGrantKey (e_AppID env) gid) unmarshalOfflineGrant"

definition CreateOfflineGrant :: "('r, 'm, 'x) oauth_env \<Rightarrow> time \<Rightarrow> OfflineGrant \<Rightarrow> ('r, 'm, 'x, unit) sess_proc" where
  "CreateOfflineGrant env now grant =
     bindp (rcall ''failed to update session list: '' (s_HSET (e_redis env) now
        (offlineGrantListKey (og_AppID grant) (UserID (og_Attrs grant))) (og_ID grant) (og_ExpireAtForResolvedSession grant))) (\<lambda>_.
     save env now (offlineGrantKey (og_AppID grant) (og_ID grant)) (OV_Offline (stored_grant grant))
        (og_ExpireAtForResolvedSession grant) True)"

definition updateOfflineGrant ::
    "('r, 'm, 'x) oauth_env \<Rightarrow> time \<Rightarrow> OfflineGrant \<Rightarrow> time \<Rightarrow> ('r, 'm, 'x, OfflineGrant) sess_proc" where
  "updateOfflineGrant env now grant expireAt = (let grant = grant\<lparr>og_ExpireAtForResolvedSession := expireAt\<rparr>
   in bindp (rcall ''failed to update session list: '' (s_HSET (e_redis env) now
        (offlineGrantListKey (og_AppID grant) (UserID (og_Attrs grant))) (og_ID grant) expireAt)) (\<lambda>_.
      bindp (save env now (offlineGrantKey (og_AppID grant) (og_ID grant)) (OV_Offline (stored_grant grant)) expireAt False) (\<lambda>_.
      ret grant)))"

definition UpdateOfflineGrantWithMutator ::
    "('r, 'm, 'x) oauth_env \<Rightarrow> time \<Rightarrow> string \<Rightarrow> time \<Rightarrow> (OfflineGrant \<Rightarrow> OfflineGrant) \<Rightarrow> ('r, 'm, 'x, OfflineGrant) sess_proc" where
  "UpdateOfflineGrantWithMutator env now grantID expireAt mutator =
     with_mutex env (offlineGrantMutexName (e_AppID env) grantID)
       (bindp (GetOfflineGrantWithoutExpireAt env now grantID) (\<lambda>grant.
        updateOfflineGrant env now (mutator grant) expireAt))"

definition UpdateOfflineGrantDeviceInfo ::
    "('r, 'm, 'x) oauth_env \<Rightarrow> time \<Rightarrow> string \<Rightarrow> string \<Rightarrow> time \<Rightarrow> ('r, 'm, 'x, OfflineGrant) sess_proc" where
  "UpdateOfflineGrantDeviceInfo env now grantID deviceInfo expireAt =
     UpdateOfflineGrantWithMutator env now grantID expireAt (\<lambda>grant. grant\<lparr>og_DeviceInfo := deviceInfo\<rparr>)"

definition UpdateOfflineGrantAuthenticatedAt ::
    "('r, 'm, 'x) oauth_env \<Rightarrow> time \<Rightarrow> string \<Rightarrow> time \<Rightarrow> time \<Rightarrow> ('r, 'm, 'x, OfflineGrant) sess_proc" where
  "UpdateOfflineGrantAuthenticatedAt env now grantID authenticatedAt expireAt =
     UpdateOfflineGrantWithMutator env now grantID expireAt (\<lambda>grant. grant\<lparr>og_AuthenticatedAt := authenticatedAt\<rparr>)"

definition UpdateOfflineGrantApp2AppDeviceKey ::
    "('r, 'm, 'x) oauth_env \<Rightarrow> time \<Rightarrow> string \<Rightarrow> string \<Rightarrow> time \<Rightarrow> ('r, 'm, 'x, OfflineGrant) sess_proc" where
  "UpdateOfflineGrantApp2AppDeviceKey env now grantID newKey expireAt =
     UpdateOfflineGrantWithMutator env now grantID expireAt (\<lambda>grant. grant\<lparr>og_App2AppDeviceKeyJWKJSON := newKey\<rparr>)"

definition UpdateOfflineGrantDeviceSecretHash ::
    "('r, 'm, 'x) oauth_env \<Rightarrow> time \<Rightarrow> string \<Rightarrow> string \<Rightarrow> string \<Rightarrow> time \<Rightarrow> ('r, 'm, 'x, OfflineGrant) sess_proc" where
  "UpdateOfflineGrantDeviceSecretHash env now grantID newDeviceSecretHash dpopJKT expireAt =
     UpdateOfflineGrantWithMutator env now grantID expireAt
       (\<lambda>grant. grant\<lparr>og_DeviceSecretHash := newDeviceSecretHash, og_DeviceSecretDPoPJKT := dpopJKT\<rparr>)"

definition AddOfflineGrantSAMLServiceProviderParticipant ::
    "('r, 'm, 'x) oauth_env \<Rightarrow> time \<Rightarrow> string \<Rightarrow> string \<Rightarrow> time \<Rightarrow> ('r, 'm, 'x, OfflineGrant) sess_proc" where
  "AddOfflineGrantSAMLServiceProviderParticipant env now grantID newServiceProviderID expireAt =
     UpdateOfflineGrantWithMutator env now grantID expireAt (\<lambda>grant. grant\<lparr>og_ParticipatedSAMLServiceProviderIDs :=
       set_keys (newServiceProviderID # og_ParticipatedSAMLServiceProviderIDs grant)\<rparr>)"

record AddOfflineGrantRefreshTokenOptions =
  add_OfflineGrantID :: string
  add_AccessInfo :: access_info
  add_OfflineGrantExpireAt :: time
  add_ShortLivedRefreshTokenExpireAt :: "time option"
  add_TokenHash :: string
  add_ClientID :: string
  add_Scopes :: "string list"
  add_AuthorizationID :: string
  add_DPoPJKT :: string

definition new_refresh_token :: "time \<Rightarrow> AddOfflineGrantRefreshTokenOptions \<Rightarrow> refresh_token" where
  "new_refresh_token now options = \<lparr>rt_InitialTokenHash = add_TokenHash options, rt_ClientID = add_ClientID options,
     rt_CreatedAt = now, rt_Scopes = add_Scopes options, rt_AuthorizationID = add_AuthorizationID options,
     rt_DPoPJKT = add_DPoPJKT options, rt_AccessInfo = Some (add_AccessInfo options),
     rt_ExpireAt = add_ShortLivedRefreshTokenExpireAt options, rt_RotatedTokenHash = None, rt_RotatedAt = None\<rparr>"

definition AddOfflineGrantRefreshToken ::
    "('r, 'm, 'x) oauth_env \<Rightarrow> time \<Rightarrow> AddOfflineGrantRefreshTokenOptions \<Rightarrow> ('r, 'm, 'x, OfflineGrant) sess_proc" where
  "AddOfflineGrantRefreshToken env now options =
     UpdateOfflineGrantWithMutator env now (add_OfflineGrantID options) (add_OfflineGrantExpireAt options)
       (\<lambda>grant. grant\<lparr>og_RefreshTokens := og_RefreshTokens grant @ [new_refresh_token now options]\<rparr>)"

text \<open>The token to rotate is the first whose initial hash matches.\<close>

fun rotate_first :: "string \<Rightarrow> string \<Rightarrow> time \<Rightarrow> refresh_token list \<Rightarrow> refresh_token list option" where
  "rotate_first initialHash newHash now [] = None"
| "rotate_first initialHash newHash now (token # tokens) =
     (if MatchInitialHash token initialHash
      then Some (token\<lparr>rt_RotatedTokenHash := Some newHash, rt_RotatedAt := Some now\<rparr> # tokens)
      else map_option (\<lambda>rest. token # rest) (rotate_first initialHash newHash now tokens))"

definition RotateOfflineGrantRefreshToken ::
    "('r, 'm, 'x) oauth_env \<Rightarrow> time \<Rightarrow> string \<Rightarrow> string \<Rightarrow> string \<Rightarrow> time \<Rightarrow> ('r, 'm, 'x, OfflineGrant) sess_proc" where
  "RotateOfflineGrantRefreshToken env now grantID initialRefreshTokenHash newRefreshTokenHash expireAt =
     with_mutex env (offlineGrantMutexName (e_AppID env) grantID)
       (bindp (GetOfflineGrantWithoutExpireAt env now grantID) (\<lambda>grant.
        case rotate_first initialRefreshTokenHash newRefreshTokenHash now (og_RefreshTokens grant) of
          None \<Rightarrow> failp ErrGrantNotFound
        | Some tokens \<Rightarrow> updateOfflineGrant env now (grant\<lparr>og_RefreshTokens := tokens\<rparr>) expireAt))"

definition DeleteOfflineGrant :: "('r, 'm, 'x) oauth_env \<Rightarrow> time \<Rightarrow> OfflineGrant \<Rightarrow> ('r, 'm, 'x, unit) sess_proc" where
  "DeleteOfflineGrant env now grant =
     bindp (del env now (offlineGrantKey (og_AppID grant) (og_ID grant))) (\<lambda>_.
     ignore_err (rcall '''' (s_HDEL (e_redis env) now
       (offlineGrantListKey (og_AppID grant) (UserID (og_Attrs grant))) (og_ID grant))))"

definition without_tokens :: "string list \<Rightarrow> OfflineGrant \<Rightarrow> OfflineGrant" where
  "without_tokens hashes grant =
     grant\<lparr>og_RefreshTokens := filter (\<lambda>token. rt_InitialTokenHash token \<notin> set hashes) (og_RefreshTokens grant)\<rparr>"

definition RemoveOfflineGrantRefreshTokens ::
    "('r, 'm, 'x) oauth_env \<Rightarrow> time \<Rightarrow> string \<Rightarrow> string list \<Rightarrow> time \<Rightarrow> ('r, 'm, 'x, OfflineGrant option) sess_proc" where
  "RemoveOfflineGrantRefreshTokens env now grantID initialTokenHashes expireAt =
     with_mutex env (offlineGrantMutexName (e_AppID env) grantID)
       (bindp (GetOfflineGrantWithoutExpireAt env now grantID) (\<lambda>grant.
        let grant = without_tokens initialTokenHashes grant
        in if HasValidTokens grant
           then bindp (updateOfflineGrant env now grant expireAt) (\<lambda>grant. ret (Some grant))
           else bindp (DeleteOfflineGrant env now grant) (\<lambda>_. ret None)))"

fun list_grants ::
    "('r, 'm, 'x) oauth_env \<Rightarrow> time \<Rightarrow> string \<Rightarrow> string list \<Rightarrow> ('r, 'm, 'x, OfflineGrant list) sess_proc" where
  "list_grants env now listKey [] = ret []"
| "list_grants env now listKey (gid # gids) =
     bindp (attempt (loadData env now (offlineGrantKey (e_AppID env) gid))) (\<lambda>res. case res of
       Inl ErrGrantNotFound \<Rightarrow> bindp (ignore_err (rcall '''' (s_HDEL (e_redis env) now listKey gid))) (\<lambda>_.
         list_grants env now listKey gids)
     | Inl e \<Rightarrow> failp e
     | Inr data \<Rightarrow> (case unmarshalOfflineGrant data of
         Inl e \<Rightarrow> failp (InfraErr e)
       | Inr grant \<Rightarrow> bindp (list_grants env now listKey gids) (\<lambda>grants. ret (grant # grants))))"

definition ListOfflineGrants :: "('r, 'm, 'x) oauth_env \<Rightarrow> time \<Rightarrow> string \<Rightarrow> ('r, 'm, 'x, OfflineGrant list) sess_proc" where
  "ListOfflineGrants env now userID = (let listKey = offlineGrantListKey (e_AppID env) userID
   in bindp (rcall '''' (s_HGETALL (e_redis env) now listKey)) (\<lambda>sessionList.
      bindp (list_grants env now listKey (map fst sessionList)) (\<lambda>grants.
      ret (sort_key og_ID grants))))"

definition ListClientOfflineGrants ::
    "('r, 'm, 'x) oauth_env \<Rightarrow> time \<Rightarrow> string \<Rightarrow> string \<Rightarrow> ('r, 'm, 'x, OfflineGrant list) sess_proc" where
  "ListClientOfflineGrants env now clientID userID = bindp (ListOfflineGrants env now userID) (\<lambda>offlineGrants.
     ret (filter (\<lambda>g. if HasClientID g clientID then True
       else list_ex (\<lambda>token. rt_ClientID token = clientID) (og_RefreshTokens g)) offlineGrants))"

definition Store_CleanUpForDeletingUserID :: "('r, 'm, 'x) oauth_env \<Rightarrow> time \<Rightarrow> string \<Rightarrow> ('r, 'm, 'x, unit) sess_proc" where
  "Store_CleanUpForDeletingUserID env now userID = del env now (offlineGrantListKey (e_AppID env) userID)"

section \<open>What the services call\<close>

text \<open>
  The providers: identity provider sessions, the authorization store, the users with the status of
  their accounts, and the clients.
\<close>

record ('r, 'm, 'x) oauth_deps =
  d_Idp_Get :: "time \<Rightarrow> string \<Rightarrow> ('r, 'm, 'x, IDPSession) sess_proc"
  d_Idp_CheckSessionExpired :: "time \<Rightarrow> IDPSession \<Rightarrow> bool"
  d_Idp_AccessWithID :: "time \<Rightarrow> string \<Rightarrow> access_event \<Rightarrow> ('r, 'm, 'x, IDPSession) sess_proc"
  d_Authz_Get :: "string \<Rightarrow> string \<Rightarrow> ('r, 'm, 'x, Authorization) sess_proc"
  d_Authz_GetByID :: "string \<Rightarrow> ('r, 'm, 'x, Authorization) sess_proc"
  d_Authz_ListByUserID :: "string \<Rightarrow> ('r, 'm, 'x, Authorization list) sess_proc"
  d_Authz_Create :: "Authorization \<Rightarrow> ('r, 'm, 'x, unit) sess_proc"
  d_Authz_Delete :: "Authorization \<Rightarrow> ('r, 'm, 'x, unit) sess_proc"
  d_Authz_UpdateScopes :: "Authorization \<Rightarrow> ('r, 'm, 'x, unit) sess_proc"
  d_Users_GetRaw :: "string \<Rightarrow> ('r, 'm, 'x, account_status) sess_proc"
  d_ResolveClient :: "string \<Rightarrow> OAuthClientConfig option"

definition outcome_proc :: "(sess_error, 'a) outcome \<Rightarrow> ('r, 'm, 'x, 'a) sess_proc" where
  "outcome_proc oc = (case oc of Ok x \<Rightarrow> ret x | Err e \<Rightarrow> failp e | Panic \<Rightarrow> panicp)"

section \<open>The offline grant service\<close>

definition computeRefreshTokenExpiryWithClient ::
    "time \<Rightarrow> time \<Rightarrow> OAuthClientConfig \<Rightarrow> (sess_error, time) outcome" where
  "computeRefreshTokenExpiryWithClient createdAt lastAccessAt cfg = (let
     expiry = createdAt + Duration (cl_RefreshTokenLifetime cfg)
   in bind_oc (deref (cl_RefreshTokenIdleTimeoutEnabled cfg)) (\<lambda>enabled.
      Ok (if enabled
          then let idleExpiry = lastAccessAt + Duration (cl_RefreshTokenIdleTimeout cfg)
               in if idleExpiry < expiry then idleExpiry else expiry
          else expiry)))"

definition ComputeOfflineGrantExpiry ::
    "(string \<Rightarrow> OAuthClientConfig option) \<Rightarrow> OfflineGrant \<Rightarrow> (sess_error, time) outcome" where
  "ComputeOfflineGrantExpiry clients session = (case clients (og_InitialClientID session) of
     None \<Rightarrow> Err ErrGrantNotFound
   | Some clientConfig \<Rightarrow> computeRefreshTokenExpiryWithClient (og_CreatedAt session)
       (Timestamp (LastAccess (og_AccessInfo session))) clientConfig)"

definition Grant_CheckSessionExpired ::
    "(string \<Rightarrow> OAuthClientConfig option) \<Rightarrow> time \<Rightarrow> OfflineGrant \<Rightarrow> (sess_error, bool \<times> time) outcome" where
  "Grant_CheckSessionExpired clients now session = (case ComputeOfflineGrantExpiry clients session of
     Err ErrGrantNotFound \<Rightarrow> Ok (True, now)
   | Err e \<Rightarrow> Err e
   | Panic \<Rightarrow> Panic
   | Ok expireAt \<Rightarrow> Ok (now > expireAt, expireAt))"

definition access_token_info :: "access_event \<Rightarrow> access_info \<Rightarrow> string \<Rightarrow> refresh_token \<Rightarrow> refresh_token" where
  "access_token_info ev grantInfo initialHash token =
     (if MatchInitialHash token initialHash
      then let info = (case rt_AccessInfo token of None \<Rightarrow> grantInfo | Some i \<Rightarrow> i)
           in token\<lparr>rt_AccessInfo := Some (info\<lparr>LastAccess := ev\<rparr>)\<rparr>
      else token)"

definition access_mutator :: "string \<Rightarrow> access_event \<Rightarrow> OfflineGrant \<Rightarrow> OfflineGrant" where
  "access_mutator initialHash ev grant = (let info = (og_AccessInfo grant)\<lparr>LastAccess := ev\<rparr>;
     grant = grant\<lparr>og_AccessInfo := info\<rparr>
   in if initialHash \<noteq> ''''
      then grant\<lparr>og_RefreshTokens := map (access_token_info ev info initialHash) (og_RefreshTokens grant)\<rparr>
      else grant)"

definition AccessOfflineGrant ::
    "('r, 'm, 'x) oauth_env \<Rightarrow> time \<Rightarrow> string \<Rightarrow> string \<Rightarrow> access_event \<Rightarrow> time \<Rightarrow> ('r, 'm, 'x, OfflineGrant) sess_proc" where
  "AccessOfflineGrant env now grantID initialRefreshTokenHash accessEvent expireAt =
     bindp (UpdateOfflineGrantWithMutator env now grantID expireAt (access_mutator initialRefreshTokenHash accessEvent)) (\<lambda>grant.
     bindp (RecordAccess env (og_ID grant) (og_ExpireAtForResolvedSession grant) accessEvent) (\<lambda>_.
     bindp (side (x_TrackActiveUser (e_side env) (UserID (og_Attrs grant)))) (\<lambda>_.
     ret grant)))"

definition GetOfflineGrant ::
    "('r, 'm, 'x) oauth_deps \<Rightarrow> ('r, 'm, 'x) oauth_env \<Rightarrow> time \<Rightarrow> string \<Rightarrow> ('r, 'm, 'x, OfflineGrant) sess_proc" where
  "GetOfflineGrant deps env now gid =
     bindp (GetOfflineGrantWithoutExpireAt env now gid) (\<lambda>g.
     bindp (outcome_proc (ComputeOfflineGrantExpiry (d_ResolveClient deps) g)) (\<lambda>expiry.
     let g = g\<lparr>og_ExpireAtForResolvedSession := expiry\<rparr>
     in if now > og_ExpireAtForResolvedSession g then failp ErrGrantNotFound
        else if og_SSOEnabled g \<and> og_IDPSessionID g \<noteq> ''''
        then bindp (attempt (d_Idp_Get deps now (og_IDPSessionID g))) (\<lambda>res. case res of
          Inl ErrIDPSessionNotFound \<Rightarrow> failp ErrGrantNotFound
        | Inl e \<Rightarrow> failp e
        | Inr idp \<Rightarrow> if d_Idp_CheckSessionExpired deps now idp then failp ErrGrantNotFound else ret g)
        else ret g))"

record CreateNewRefreshTokenOptions =
  new_ClientID :: string
  new_Scopes :: "string list"
  new_AuthorizationID :: string
  new_DPoPJKT :: string
  new_ShortLivedRefreshTokenExpireAt :: "time option"

text \<open>Whether housekeeping removes a token other than the root one.\<close>

definition removable_token ::
    "(string \<Rightarrow> OAuthClientConfig option) \<Rightarrow> time \<Rightarrow> refresh_token \<Rightarrow> (sess_error, bool) outcome" where
  "removable_token clients now token =
     (if case rt_ExpireAt token of Some e \<Rightarrow> now > e | None \<Rightarrow> False then Ok True
      else case clients (rt_ClientID token) of
        None \<Rightarrow> Ok True
      | Some clientConfig \<Rightarrow> (let
          lastAccess = (case rt_AccessInfo token of None \<Rightarrow> rt_CreatedAt token | Some i \<Rightarrow> Timestamp (LastAccess i))
          in bind_oc (computeRefreshTokenExpiryWithClient (rt_CreatedAt token) lastAccess clientConfig) (\<lambda>expiry.
             Ok (now > expiry))))"

fun hashes_to_remove ::
    "(string \<Rightarrow> OAuthClientConfig option) \<Rightarrow> time \<Rightarrow> refresh_token list \<Rightarrow> (sess_error, string list) outcome" where
  "hashes_to_remove clients now [] = Ok []"
| "hashes_to_remove clients now (token # tokens) = bind_oc (removable_token clients now token) (\<lambda>remove.
     bind_oc (hashes_to_remove clients now tokens) (\<lambda>hashes.
     Ok (if remove then rt_InitialTokenHash token # hashes else hashes)))"

definition housekeepOfflineGrant ::
    "('r, 'm, 'x) oauth_deps \<Rightarrow> ('r, 'm, 'x) oauth_env \<Rightarrow> time \<Rightarrow> OfflineGrant \<Rightarrow> ('r, 'm, 'x, OfflineGrant option) sess_proc" where
  "housekeepOfflineGrant deps env now grant =
     bindp (outcome_proc (hashes_to_remove (d_ResolveClient deps) now (drop 1 (og_RefreshTokens grant)))) (\<lambda>initialTokenHashesToRemove.
     bindp (outcome_proc (ComputeOfflineGrantExpiry (d_ResolveClient deps) grant)) (\<lambda>expiry.
     RemoveOfflineGrantRefreshTokens env now (og_ID grant) initialTokenHashesToRemove expiry))"

definition CreateNewRefreshToken ::
    "('r, 'm, 'x) oauth_deps \<Rightarrow> ('r, 'm, 'x) oauth_env \<Rightarrow> time \<Rightarrow> string \<Rightarrow> OfflineGrant \<Rightarrow> CreateNewRefreshTokenOptions
     \<Rightarrow> ('r, 'm, 'x, (string \<times> string) \<times> OfflineGrant option) sess_proc" where
  "CreateNewRefreshToken deps env now newToken grant options =
     bindp (outcome_proc (ComputeOfflineGrantExpiry (d_ResolveClient deps) grant)) (\<lambda>expiry. let
       accessEvent = NewEvent now (e_RemoteIP env) (e_UserAgent env);
       newTokenHash = e_hash env newToken
     in bindp (AddOfflineGrantRefreshToken env now \<lparr>add_OfflineGrantID = og_ID grant,
          add_AccessInfo = \<lparr>InitialAccess = accessEvent, LastAccess = accessEvent\<rparr>, add_OfflineGrantExpireAt = expiry,
          add_ShortLivedRefreshTokenExpireAt = new_ShortLivedRefreshTokenExpireAt options, add_TokenHash = newTokenHash,
          add_ClientID = new_ClientID options, add_Scopes = new_Scopes options,
          add_AuthorizationID = new_AuthorizationID options, add_DPoPJKT = new_DPoPJKT options\<rparr>) (\<lambda>newGrant.
        bindp (housekeepOfflineGrant deps env now newGrant) (\<lambda>newGrant.
        ret ((newToken, newTokenHash), newGrant))))"

definition RotateRefreshToken ::
    "('r, 'm, 'x) oauth_deps \<Rightarrow> ('r, 'm, 'x) oauth_env \<Rightarrow> time \<Rightarrow> string \<Rightarrow> OfflineGrant \<Rightarrow> string
     \<Rightarrow> ('r, 'm, 'x, (string \<times> string \<times> string) \<times> OfflineGrant option) sess_proc" where
  "RotateRefreshToken deps env now newToken grant initialRefreshTokenHash = (let newTokenHash = e_hash env newToken
   in bindp (outcome_proc (ComputeOfflineGrantExpiry (d_ResolveClient deps) grant)) (\<lambda>expiry.
      bindp (RotateOfflineGrantRefreshToken env now (og_ID grant) initialRefreshTokenHash newTokenHash expiry) (\<lambda>newGrant.
      bindp (housekeepOfflineGrant deps env now newGrant) (\<lambda>newGrant.
      ret ((og_ID grant, newToken, newTokenHash), newGrant)))))"

definition Grant_AddSAMLServiceProviderParticipant ::
    "('r, 'm, 'x) oauth_deps \<Rightarrow> ('r, 'm, 'x) oauth_env \<Rightarrow> time \<Rightarrow> OfflineGrant \<Rightarrow> string \<Rightarrow> ('r, 'm, 'x, OfflineGrant) sess_proc" where
  "Grant_AddSAMLServiceProviderParticipant deps env now grant serviceProviderID =
     bindp (outcome_proc (ComputeOfflineGrantExpiry (d_ResolveClient deps) grant)) (\<lambda>expiry.
     AddOfflineGrantSAMLServiceProviderParticipant env now (og_ID grant) serviceProviderID expiry)"

section \<open>The session manager of OAuth\<close>

definition OAuthManager_Get :: "('r, 'm, 'x) oauth_env \<Rightarrow> time \<Rightarrow> string \<Rightarrow> ('r, 'm, 'x, OfflineGrant) sess_proc" where
  "OAuthManager_Get env now gid = bindp (attempt (GetOfflineGrantWithoutExpireAt env now gid)) (\<lambda>res. case res of
     Inl ErrGrantNotFound \<Rightarrow> failp ErrSessionNotFound
   | Inl e \<Rightarrow> failp e
   | Inr grant \<Rightarrow> ret grant)"

definition OAuthManager_Delete :: "('r, 'm, 'x) oauth_env \<Rightarrow> time \<Rightarrow> OfflineGrant \<Rightarrow> ('r, 'm, 'x, unit) sess_proc" where
  "OAuthManager_Delete env now session = DeleteOfflineGrant env now session"

definition OAuthManager_List :: "('r, 'm, 'x) oauth_env \<Rightarrow> time \<Rightarrow> string \<Rightarrow> ('r, 'm, 'x, OfflineGrant list) sess_proc" where
  "OAuthManager_List env now userID = ListOfflineGrants env now userID"

fun OAuthManager_terminate ::
    "('r, 'm, 'x) oauth_deps \<Rightarrow> ('r, 'm, 'x) oauth_env \<Rightarrow> time \<Rightarrow> string list \<Rightarrow> session_base option
     \<Rightarrow> OfflineGrant list \<Rightarrow> ('r, 'm, 'x, OfflineGrant list) sess_proc" where
  "OAuthManager_terminate deps env now thirdPartyClientIDs currentSession [] = ret []"
| "OAuthManager_terminate deps env now thirdPartyClientIDs currentSession (ss # sessions) =
     (if case currentSession of Some cur \<Rightarrow> Grant_IsSameSSOGroup ss cur | None \<Rightarrow> False
      then OAuthManager_terminate deps env now thirdPartyClientIDs currentSession sessions
      else case GetAllRemovableInitialTokenHashesExcludeClientIDs ss thirdPartyClientIDs of
        (initialTokenHashes, shouldRemoveOfflineGrant) \<Rightarrow>
          if shouldRemoveOfflineGrant
          then bindp (OAuthManager_Delete env now ss) (\<lambda>_.
               bindp (OAuthManager_terminate deps env now thirdPartyClientIDs currentSession sessions) (\<lambda>deletedSessions.
               ret (ss # deletedSessions)))
          else if length initialTokenHashes > 0
          then bindp (outcome_proc (ComputeOfflineGrantExpiry (d_ResolveClient deps) ss)) (\<lambda>expiry.
               bindp (RemoveOfflineGrantRefreshTokens env now (og_ID ss) initialTokenHashes expiry) (\<lambda>_.
               OAuthManager_terminate deps env now thirdPartyClientIDs currentSession sessions))
          else OAuthManager_terminate deps env now thirdPartyClientIDs currentSession sessions)"

definition OAuthManager_TerminateAllExcept ::
    "('r, 'm, 'x) oauth_deps \<Rightarrow> ('r, 'm, 'x) oauth_env \<Rightarrow> OAuthClientConfig list \<Rightarrow> time \<Rightarrow> string \<Rightarrow> session_base option
     \<Rightarrow> ('r, 'm, 'x, OfflineGrant list) sess_proc" where
  "OAuthManager_TerminateAllExcept deps env clients now userID currentSession =
     bindp (ListOfflineGrants env now userID) (\<lambda>sessions.
     OAuthManager_terminate deps env now
       (map cl_ClientID (filter (\<lambda>c. IsThirdParty (cl_ApplicationType c)) clients)) currentSession sessions)"

section \<open>Authorizations\<close>

definition Authz_ListByUser ::
    "('r, 'm, 'x) oauth_deps \<Rightarrow> string \<Rightarrow> (Authorization \<Rightarrow> bool) list \<Rightarrow> ('r, 'm, 'x, Authorization list) sess_proc" where
  "Authz_ListByUser deps userID filters = bindp (d_Authz_ListByUserID deps userID) (\<lambda>as.
     ret (ApplyAuthorizationFilters as filters))"

fun delete_grants_of ::
    "('r, 'm, 'x) oauth_deps \<Rightarrow> ('r, 'm, 'x) oauth_env \<Rightarrow> time \<Rightarrow> string \<Rightarrow> OfflineGrant list \<Rightarrow> ('r, 'm, 'x, unit) sess_proc" where
  "delete_grants_of deps env now authorizationID [] = ret ()"
| "delete_grants_of deps env now authorizationID (offlineGrant # sessions) =
     (case GetRemovableInitialTokenHashesByAuthorizationID offlineGrant authorizationID of
       (initialTokenHashes, shouldRemoveOfflineGrant) \<Rightarrow>
         if shouldRemoveOfflineGrant
         then bindp (OAuthManager_Delete env now offlineGrant) (\<lambda>_.
              delete_grants_of deps env now authorizationID sessions)
         else if length initialTokenHashes > 0
         then bindp (outcome_proc (ComputeOfflineGrantExpiry (d_ResolveClient deps) offlineGrant)) (\<lambda>expiry.
              bindp (RemoveOfflineGrantRefreshTokens env now (og_ID offlineGrant) initialTokenHashes expiry) (\<lambda>_.
              delete_grants_of deps env now authorizationID sessions))
         else delete_grants_of deps env now authorizationID sessions)"

definition Authz_Delete ::
    "('r, 'm, 'x) oauth_deps \<Rightarrow> ('r, 'm, 'x) oauth_env \<Rightarrow> time \<Rightarrow> Authorization \<Rightarrow> ('r, 'm, 'x, unit) sess_proc" where
  "Authz_Delete deps env now a = bindp (OAuthManager_List env now (az_UserID a)) (\<lambda>sessions.
     bindp (delete_grants_of deps env now (az_ID a) sessions) (\<lambda>_.
     d_Authz_Delete deps a))"

definition CheckAndGrant ::
    "('r, 'm, 'x) oauth_deps \<Rightarrow> string \<Rightarrow> time \<Rightarrow> string \<Rightarrow> string \<Rightarrow> string \<Rightarrow> string list \<Rightarrow> ('r, 'm, 'x, Authorization) sess_proc" where
  "CheckAndGrant deps appID timestamp newID clientID userID scopes =
     bindp (attempt (d_Authz_Get deps userID clientID)) (\<lambda>res. case res of
       Inr authz \<Rightarrow> if IsAuthorized authz scopes then ret authz
         else (let authz = (WithScopesAdded authz scopes)\<lparr>az_UpdatedAt := timestamp\<rparr>
               in bindp (d_Authz_UpdateScopes deps authz) (\<lambda>_. ret authz))
     | Inl ErrAuthorizationNotFound \<Rightarrow> (let authz = \<lparr>az_ID = newID, az_AppID = appID, az_ClientID = clientID,
           az_UserID = userID, az_CreatedAt = timestamp, az_UpdatedAt = timestamp, az_Scopes = scopes\<rparr>
         in bindp (d_Authz_Create deps authz) (\<lambda>_. ret authz))
     | Inl e \<Rightarrow> failp e)"

definition Authz_Check ::
    "('r, 'm, 'x) oauth_deps \<Rightarrow> string \<Rightarrow> string \<Rightarrow> string list \<Rightarrow> ('r, 'm, 'x, Authorization) sess_proc" where
  "Authz_Check deps clientID userID scopes = bindp (d_Authz_Get deps userID clientID) (\<lambda>authz.
     if \<not> IsAuthorized authz scopes then failp ErrAuthorizationScopesNotGranted else ret authz)"

section \<open>Running the stores\<close>

text \<open>
  \<open>valid Q p R\<close>: whatever its outcome, \<open>p\<close> keeps the predicate \<open>Q\<close> of Redis, and a result it returns
  satisfies \<open>R\<close>.
\<close>

definition valid :: "('r \<Rightarrow> bool) \<Rightarrow> ('r, 'm, 'x, 'a) sess_proc \<Rightarrow> ('a \<Rightarrow> bool) \<Rightarrow> bool" where
  "valid Q p R \<longleftrightarrow> (\<forall>w. Q (w_redis w) \<longrightarrow> Q (w_redis (snd (p w))) \<and> (\<forall>x. fst (p w) = Ok x \<longrightarrow> R x))"

named_theorems valid_intros \<open>rules for predicates of Redis that procedures keep\<close>

lemma validD:
  assumes "valid Q p R" "p w = (res, w')" "Q (w_redis w)"
  shows "Q (w_redis w')" "res = Ok x \<Longrightarrow> R x"
  using assms unfolding valid_def by (metis fst_conv snd_conv)+

lemma valid_ret [valid_intros]: "R x \<Longrightarrow> valid Q (ret x) R"
  by (simp add: valid_def run_simps)

lemma valid_stop [valid_intros]: "valid Q (failp e) R" "valid Q panicp R"
  by (simp_all add: valid_def run_simps)

lemma valid_bindp [valid_intros]:
  fixes p :: "('r, 'm, 'x, 'a) sess_proc"
  assumes "valid Q p R" "\<And>x. R x \<Longrightarrow> valid Q (f x) R'"
  shows "valid Q (bindp p f) R'"
  unfolding valid_def
proof (intro allI impI)
  fix w :: "('r, 'm, 'x) sess_world" assume Q: "Q (w_redis w)"
  obtain res w' where p: "p w = (res, w')" by fastforce
  from validD [OF assms(1) p Q] have Q': "Q (w_redis w')" and R: "\<And>x. res = Ok x \<Longrightarrow> R x" by auto
  show "Q (w_redis (snd (bindp p f w))) \<and> (\<forall>x. fst (bindp p f w) = Ok x \<longrightarrow> R' x)"
  proof (cases res)
    case (Ok x)
    with R assms(2) have "valid Q (f x) R'" by simp
    with Q' p Ok show ?thesis by (simp add: bindp_def valid_def)
  qed (use p Q' in \<open>simp_all add: bindp_def\<close>)
qed

lemma valid_attempt [valid_intros]: "valid Q p R \<Longrightarrow> valid Q (attempt p) (case_sum (\<lambda>_. True) R)"
  unfolding valid_def attempt_def by (auto split: prod.split outcome.split)

lemma valid_weaken: "valid Q p R \<Longrightarrow> (\<And>x. R x \<Longrightarrow> R' x) \<Longrightarrow> valid Q p R'"
  by (auto simp: valid_def)

lemma valid_top: "valid Q p R \<Longrightarrow> valid Q p (\<lambda>_. True)"
  by (erule valid_weaken) simp

lemma valid_ignore_err [valid_intros]: "valid Q p R \<Longrightarrow> valid Q (ignore_err p) (\<lambda>_. True)"
  unfolding ignore_err_def by (rule valid_bindp [OF valid_attempt]) (auto intro: valid_ret)

lemma valid_rcmd: "keeps_cmd Q c \<Longrightarrow> valid Q (rcmd c) (\<lambda>_. True)"
  by (simp add: valid_def rcmd_run keeps_cmd_def)

lemma valid_rcall: "keeps_cmd Q c \<Longrightarrow> valid Q (rcall msg c) (\<lambda>_. True)"
  by (simp add: valid_def rcall_run keeps_cmd_def)

lemma valid_side [valid_intros]: "valid Q (side c) (\<lambda>_. True)"
  unfolding valid_def using side_redis by (metis prod.collapse)

lemma valid_outcome_proc [valid_intros]: "valid Q (outcome_proc oc) (\<lambda>x. oc = Ok x)"
  by (cases oc) (simp_all add: outcome_proc_def valid_def run_simps)

lemma valid_with_mutex [valid_intros]: "valid Q body R \<Longrightarrow> valid Q (with_mutex env name body) R"
  unfolding valid_def with_mutex_def with_defer_def
  by (auto split: prod.split sum.split) (metis fst_conv sess_world.select_convs(1) sess_world.surjective sess_world.update_convs(2) snd_conv)+

lemma valid_events [valid_intros]:
  "valid Q (RecordAccess env sid e ev) (\<lambda>_. True)" "valid Q (InitStream env sid e ev) (\<lambda>_. True)"
  unfolding RecordAccess_def AppendEvent_def InitStream_def ResetEventStream_def Let_def
  by (rule valid_intros TrueI)+

lemma outcome_proc_simps [simp]:
  "outcome_proc (Ok x) = ret x" "outcome_proc (Err e) = failp e" "outcome_proc Panic = panicp"
  by (simp_all add: outcome_proc_def)

section \<open>The keys of the grants\<close>

text \<open>What reading a stored grant gives.\<close>

definition read_grant :: "OfflineGrant \<Rightarrow> OfflineGrant" where
  "read_grant g = (if og_AuthenticatedAt g = zero_time then g\<lparr>og_AuthenticatedAt := og_CreatedAt g\<rparr> else g)"

lemma read_grant_simps [simp]:
  "og_ID (read_grant g) = og_ID g" "og_AppID (read_grant g) = og_AppID g" "og_RefreshTokens (read_grant g) = og_RefreshTokens g"
  "og_Attrs (read_grant g) = og_Attrs g" "og_InitialClientID (read_grant g) = og_InitialClientID g"
  "og_CreatedAt (read_grant g) = og_CreatedAt g" "og_AccessInfo (read_grant g) = og_AccessInfo g"
  "og_Deprecated_TokenHash (read_grant g) = og_Deprecated_TokenHash g" "og_SSOEnabled (read_grant g) = og_SSOEnabled g"
  "og_IDPSessionID (read_grant g) = og_IDPSessionID g"
  by (simp_all add: read_grant_def)

lemma unmarshal_OV_Offline [simp]: "unmarshalOfflineGrant (OV_Offline g) = Inr (read_grant g)"
  by (simp add: unmarshalOfflineGrant_def read_grant_def)

lemma unmarshalOfflineGrant_Inr: "unmarshalOfflineGrant v = Inr g \<longleftrightarrow> (\<exists>g0. v = OV_Offline g0 \<and> g = read_grant g0)"
  by (cases v) (auto simp: unmarshalOfflineGrant_def read_grant_def)

lemma offlineGrantKey_inj [simp]: "offlineGrantKey app i = offlineGrantKey app j \<longleftrightarrow> i = j"
  by (simp add: offlineGrantKey_def)

lemma other_keys [simp]:
  "accessGrantKey app h \<noteq> offlineGrantKey app i" "appSessionKey app h \<noteq> offlineGrantKey app i"
  "appSessionTokenKey app h \<noteq> offlineGrantKey app i" "codeGrantKey app h \<noteq> offlineGrantKey app i"
  "preAuthenticatedURLTokenKey app h \<noteq> offlineGrantKey app i" "settingsActionGrantKey app h \<noteq> offlineGrantKey app i"
  by (simp_all add: accessGrantKey_def offlineGrantKey_def appSessionKey_def appSessionTokenKey_def codeGrantKey_def
      preAuthenticatedURLTokenKey_def settingsActionGrantKey_def)

locale oauth_keys = session_keys "e_redis env" view hview
  for env :: "('r, 'm, 'x) oauth_env"
    and view :: "time \<Rightarrow> 'r \<Rightarrow> string \<Rightarrow> oauth_value option"
    and hview :: "'r \<Rightarrow> string \<Rightarrow> string \<Rightarrow> time option"
begin

lemma loadData_run:
  assumes "loadData env now key w = (res, w')"
  shows "w' = w" "res = Ok v \<Longrightarrow> view now (w_redis w) key = Some v"
    "res = Err ErrGrantNotFound \<Longrightarrow> view now (w_redis w) key = None" "res \<noteq> Panic"
proof -
  obtain g r where g: "s_GET (e_redis env) now key (w_redis w) = (g, r)" by fastforce
  from GET [OF g] assms g show "w' = w" "res = Ok v \<Longrightarrow> view now (w_redis w) key = Some v"
    "res = Err ErrGrantNotFound \<Longrightarrow> view now (w_redis w) key = None" "res \<noteq> Panic"
    by (auto simp: loadData_def bindp_def rcmd_run run_simps redis_error_def split: sum.splits redis_err.splits)
qed

lemma loadData_keeps: "snd (loadData env now key w) = w"
  using loadData_run(1) by (metis prod.collapse)

lemma load_run:
  assumes "load env now key unmarshal w = (res, w')"
  shows "w' = w" "res = Ok g \<Longrightarrow> \<exists>v. view now (w_redis w) key = Some v \<and> unmarshal v = Inr g"
    "res = Err ErrGrantNotFound \<Longrightarrow> view now (w_redis w) key = None" "res \<noteq> Panic"
proof -
  obtain r w1 where l: "loadData env now key w = (r, w1)" by fastforce
  from loadData_run(1) [OF l] loadData_run(2) [OF l] loadData_run(3) [OF l] loadData_run(4) [OF l] assms l
  show "w' = w" "res = Ok g \<Longrightarrow> \<exists>v. view now (w_redis w) key = Some v \<and> unmarshal v = Inr g"
    "res = Err ErrGrantNotFound \<Longrightarrow> view now (w_redis w) key = None" "res \<noteq> Panic"
    by (auto simp: load_def bindp_def run_simps split: outcome.splits sum.splits)
qed

lemma load_absent:
  assumes "view now (w_redis w) key = None"
  shows "fst (load env now key unmarshal w) \<noteq> Ok g"
proof
  assume "fst (load env now key unmarshal w) = Ok g"
  then obtain w' where "load env now key unmarshal w = (Ok g, w')" by (metis prod.collapse)
  from load_run(2) [OF this] assms show False by simp
qed

lemma save_run:
  assumes "save env now key v e ifNotExists w = (res, w')" "now \<le> t"
  shows "k \<noteq> key \<Longrightarrow> view t (w_redis w') k = view t (w_redis w) k"
    and "now < e \<Longrightarrow> res = Ok () \<Longrightarrow> (view now (w_redis w) key = None) = ifNotExists \<Longrightarrow>
      view t (w_redis w') key = (if t < now + ttl_ms (e - now) then Some v else None)"
    and "view t (w_redis w') key \<in> {None, Some v, view t (w_redis w) key}"
proof -
  obtain b r where s: "(if ifNotExists then s_SETNX (e_redis env) now key v (e - now) (w_redis w)
      else s_SETXX (e_redis env) now key v (e - now) (w_redis w)) = (b, r)" by fastforce
  have w': "w_redis w' = r" and res: "res = Ok () \<Longrightarrow> \<exists>x. b = Inr x"
    using assms(1) s by (auto simp: save_def Let_def bindp_def rcmd_run run_simps split: if_splits sum.splits redis_err.splits)
  show "k \<noteq> key \<Longrightarrow> view t (w_redis w') k = view t (w_redis w) k"
    using s w' SETNX_frame SETXX_frame assms(2) by (auto split: if_splits)
  show "view t (w_redis w') key \<in> {None, Some v, view t (w_redis w) key}"
    using s w' SETNX_any [OF _ assms(2)] SETXX_any [OF _ assms(2)] by (cases ifNotExists) auto
  show "view t (w_redis w') key = (if t < now + ttl_ms (e - now) then Some v else None)"
    if "now < e" "res = Ok ()" "(view now (w_redis w) key = None) = ifNotExists"
  proof (cases ifNotExists)
    case True
    with s res [OF that(2)] obtain x where x: "s_SETNX (e_redis env) now key v (e - now) (w_redis w) = (Inr x, r)" by auto
    with SETNX_result [OF x] that(3) True have "x" by simp
    with SETNX_key [OF _ x assms(2)] w' that(1) show ?thesis by simp
  next
    case False
    with s res [OF that(2)] obtain x where x: "s_SETXX (e_redis env) now key v (e - now) (w_redis w) = (Inr x, r)" by auto
    with SETXX_result [OF x] that(3) False have "x" by simp
    with SETXX_key [OF _ x assms(2)] w' that(1) show ?thesis by simp
  qed
qed

lemma save_Ok_unit: "save env now key v e ifNotExists w = (Ok x, w') \<Longrightarrow> x = ()"
  by simp

lemma del_run:
  assumes "del env now key w = (res, w')" "now \<le> t"
  shows "k \<noteq> key \<Longrightarrow> view t (w_redis w') k = view t (w_redis w) k"
    and "res = Ok () \<Longrightarrow> view t (w_redis w') key = None"
    and "view t (w_redis w') key \<in> {None, view t (w_redis w) key}"
proof -
  obtain u r where d: "s_DEL (e_redis env) now key (w_redis w) = (u, r)" by fastforce
  from DEL [OF d assms(2)] d assms(1)
  show "k \<noteq> key \<Longrightarrow> view t (w_redis w') k = view t (w_redis w) k" "res = Ok () \<Longrightarrow> view t (w_redis w') key = None"
    "view t (w_redis w') key \<in> {None, view t (w_redis w) key}"
    by (auto simp: del_def rcall_run split: sum.splits)
qed

lemma HSET_view: "rcall msg (s_HSET (e_redis env) now k f x) w = (res, w') \<Longrightarrow> now \<le> t \<Longrightarrow>
    view t (w_redis w') = view t (w_redis w)"
  using HSET by (auto simp: rcall_run) (metis prod.collapse)

lemma HDEL_view: "rcall msg (s_HDEL (e_redis env) now k f) w = (res, w') \<Longrightarrow> now \<le> t \<Longrightarrow>
    view t (w_redis w') = view t (w_redis w)"
  using HDEL by (auto simp: rcall_run) (metis prod.collapse)

end

section \<open>What the grant keys hold\<close>

text \<open>
  An offline grant key holds a grant of the app under its own ID, as JSON gives it back: with untyped
  claims and no transient expiry.
\<close>

definition stored_grant_ok :: "string \<Rightarrow> string \<Rightarrow> oauth_value \<Rightarrow> bool" where
  "stored_grant_ok app gid v \<longleftrightarrow> (case v of
     OV_Offline g \<Rightarrow> og_ID g = gid \<and> og_AppID g = app \<and> GetAMR (og_Attrs g) = None \<and> og_ExpireAtForResolvedSession g = zero_time
   | _ \<Rightarrow> False)"

definition grants_ok :: "('r, 'm, 'x) oauth_env \<Rightarrow> (time \<Rightarrow> 'r \<Rightarrow> string \<Rightarrow> oauth_value option) \<Rightarrow> time \<Rightarrow> 'r \<Rightarrow> bool" where
  "grants_ok env view now r \<longleftrightarrow> (\<forall>t \<ge> now. \<forall>gid v.
     view t r (offlineGrantKey (e_AppID env) gid) = Some v \<longrightarrow> stored_grant_ok (e_AppID env) gid v)"

definition no_grants :: "('r, 'm, 'x) oauth_env \<Rightarrow> (time \<Rightarrow> 'r \<Rightarrow> string \<Rightarrow> oauth_value option) \<Rightarrow> time \<Rightarrow> 'r \<Rightarrow> bool" where
  "no_grants env view now r \<longleftrightarrow> (\<forall>gid. view now r (offlineGrantKey (e_AppID env) gid) = None)"

lemma stored_grant_okD: "stored_grant_ok app gid v \<Longrightarrow> \<exists>g. v = OV_Offline g \<and> og_ID g = gid \<and> og_AppID g = app
    \<and> GetAMR (og_Attrs g) = None \<and> og_ExpireAtForResolvedSession g = zero_time"
  by (cases v) (simp_all add: stored_grant_ok_def)

lemma grants_okD:
  assumes "grants_ok env view now r" "now \<le> t" "view t r (offlineGrantKey (e_AppID env) gid) = Some v"
  obtains g where "v = OV_Offline g" "og_ID g = gid" "og_AppID g = e_AppID env" "GetAMR (og_Attrs g) = None"
    "og_ExpireAtForResolvedSession g = zero_time"
  using assms stored_grant_okD unfolding grants_ok_def by blast

lemma stored_grant_ok_stored: "stored_grant_ok app gid (OV_Offline (stored_grant g)) \<longleftrightarrow> og_ID g = gid \<and> og_AppID g = app"
  by (simp add: stored_grant_ok_def stored_grant_def)

lemma grants_ok_later: "now \<le> t \<Longrightarrow> grants_ok env view now r \<Longrightarrow> grants_ok env view t r"
  unfolding grants_ok_def by (meson order_trans)

text \<open>Grants the app's code hands to the store.\<close>

definition own_grant :: "('r, 'm, 'x) oauth_env \<Rightarrow> string \<Rightarrow> OfflineGrant \<Rightarrow> bool" where
  "own_grant env gid g \<longleftrightarrow> og_ID g = gid \<and> og_AppID g = e_AppID env"

context oauth_keys
begin

lemma grants_ok_none: "no_grants env view now r \<Longrightarrow> grants_ok env view now r"
  unfolding no_grants_def grants_ok_def using view_None_later by (metis option.distinct(1))

lemma grants_ok_write:
  assumes "grants_ok env view now r" "\<And>t k. now \<le> t \<Longrightarrow> k \<noteq> key \<Longrightarrow> view t r' k = view t r k"
    and "\<And>t. now \<le> t \<Longrightarrow> view t r' key \<in> {None, v, view t r key}"
    and "\<And>gid x. key = offlineGrantKey (e_AppID env) gid \<Longrightarrow> v = Some x \<Longrightarrow> stored_grant_ok (e_AppID env) gid x"
  shows "grants_ok env view now r'"
  unfolding grants_ok_def
proof (intro allI impI)
  fix t gid x assume t: "now \<le> t" and x: "view t r' (offlineGrantKey (e_AppID env) gid) = Some x"
  show "stored_grant_ok (e_AppID env) gid x"
  proof (cases "offlineGrantKey (e_AppID env) gid = key")
    case True
    with x assms(3) [OF t] have "v = Some x \<or> view t r (offlineGrantKey (e_AppID env) gid) = Some x" by auto
    with assms(4) [of gid x] True assms(1) t show ?thesis by (auto simp: grants_ok_def)
  next
    case False
    with assms(1,2) t x show ?thesis by (auto simp: grants_ok_def)
  qed
qed

lemma grants_ok_save:
  assumes "\<And>gid. key = offlineGrantKey (e_AppID env) gid \<Longrightarrow> stored_grant_ok (e_AppID env) gid v"
  shows "valid (grants_ok env view now) (save env now key v e b) (\<lambda>_. True)"
  unfolding valid_def
proof (intro allI impI conjI)
  fix w :: "('r, 'm, 'x) sess_world" assume ok: "grants_ok env view now (w_redis w)"
  obtain res w' where s: "save env now key v e b w = (res, w')" by fastforce
  have "grants_ok env view now (w_redis w')"
    by (rule grants_ok_write [OF ok save_run(1) [OF s] save_run(3) [OF s]]) (use assms in auto)
  with s show "grants_ok env view now (w_redis (snd (save env now key v e b w)))" by simp
qed simp

lemma grants_ok_del: "valid (grants_ok env view now) (del env now key) (\<lambda>_. True)"
  unfolding valid_def
proof (intro allI impI conjI)
  fix w :: "('r, 'm, 'x) sess_world" assume ok: "grants_ok env view now (w_redis w)"
  obtain res w' where s: "del env now key w = (res, w')" by fastforce
  have "grants_ok env view now (w_redis w')"
    by (rule grants_ok_write [where v=None, OF ok del_run(1) [OF s] ]) (use del_run(3) [OF s] in auto)
  with s show "grants_ok env view now (w_redis (snd (del env now key w)))" by simp
qed simp

lemma grants_ok_hash:
  "valid (grants_ok env view now) (rcall msg (s_HSET (e_redis env) now k f x)) (\<lambda>_. True)"
  "valid (grants_ok env view now) (rcall msg (s_HDEL (e_redis env) now k f)) (\<lambda>_. True)"
  "valid (grants_ok env view now) (rcall msg (s_HGETALL (e_redis env) now k)) (\<lambda>_. True)"
proof -
  have "keeps_cmd (grants_ok env view now) (s_HSET (e_redis env) now k f x)"
    by (rule keeps_cmdI) (simp add: grants_ok_def HSET)
  then show "valid (grants_ok env view now) (rcall msg (s_HSET (e_redis env) now k f x)) (\<lambda>_. True)" by (rule valid_rcall)
  have "keeps_cmd (grants_ok env view now) (s_HDEL (e_redis env) now k f)"
    by (rule keeps_cmdI) (simp add: grants_ok_def HDEL)
  then show "valid (grants_ok env view now) (rcall msg (s_HDEL (e_redis env) now k f)) (\<lambda>_. True)" by (rule valid_rcall)
  have "keeps_cmd (grants_ok env view now) (s_HGETALL (e_redis env) now k)"
    by (rule keeps_cmdI) (auto dest: HGETALL)
  then show "valid (grants_ok env view now) (rcall msg (s_HGETALL (e_redis env) now k)) (\<lambda>_. True)" by (rule valid_rcall)
qed

lemma load_valid: "valid Q (load env now key um) (\<lambda>_. True)"
  unfolding valid_def using load_run(1) by (metis prod.collapse)

lemma loadData_valid: "valid Q (loadData env now key) (\<lambda>_. True)"
  unfolding valid_def using loadData_run(1) by (metis prod.collapse)

lemma get_grant_valid: "valid (grants_ok env view now) (GetOfflineGrantWithoutExpireAt env now gid) (own_grant env gid)"
  unfolding valid_def GetOfflineGrantWithoutExpireAt_def
proof (intro allI impI conjI)
  fix w :: "('r, 'm, 'x) sess_world" assume ok: "grants_ok env view now (w_redis w)"
  let ?k = "offlineGrantKey (e_AppID env) gid"
  obtain res w' where l: "load env now ?k unmarshalOfflineGrant w = (res, w')" by fastforce
  from load_run(1) [OF l] l ok show "grants_ok env view now (w_redis (snd (load env now ?k unmarshalOfflineGrant w)))" by simp
  fix g assume "fst (load env now ?k unmarshalOfflineGrant w) = Ok g"
  with l load_run(2) [OF l] obtain v where v: "view now (w_redis w) ?k = Some v" "unmarshalOfflineGrant v = Inr g" by auto
  obtain g0 where "v = OV_Offline g0" "og_ID g0 = gid" "og_AppID g0 = e_AppID env" by (rule grants_okD [OF ok order_refl v(1)])
  with v(2) show "own_grant env gid g" by (auto simp: own_grant_def)
qed

lemma update_grant_valid:
  "own_grant env gid g \<Longrightarrow> valid (grants_ok env view now) (updateOfflineGrant env now g e) (own_grant env gid)"
  unfolding updateOfflineGrant_def Let_def
  by (rule valid_bindp [OF grants_ok_hash(1)], rule valid_bindp [OF grants_ok_save])
     (auto intro!: valid_ret simp: own_grant_def stored_grant_ok_stored)

lemma mutate_valid:
  assumes "\<And>g. own_grant env gid g \<Longrightarrow> own_grant env gid (f g)"
  shows "valid (grants_ok env view now) (UpdateOfflineGrantWithMutator env now gid e f) (own_grant env gid)"
  unfolding UpdateOfflineGrantWithMutator_def
  by (rule valid_with_mutex, rule valid_bindp [OF get_grant_valid]) (rule update_grant_valid, rule assms)

lemma create_grant_valid:
  "own_grant env gid g \<Longrightarrow> valid (grants_ok env view now) (CreateOfflineGrant env now g) (\<lambda>_. True)"
  unfolding CreateOfflineGrant_def
  by (rule valid_bindp [OF grants_ok_hash(1)], rule grants_ok_save) (auto simp: own_grant_def stored_grant_ok_stored)

lemma delete_grant_valid: "valid (grants_ok env view now) (DeleteOfflineGrant env now g) (\<lambda>_. True)"
  unfolding DeleteOfflineGrant_def
  by (rule valid_bindp [OF grants_ok_del], rule valid_ignore_err, rule grants_ok_hash)

lemma rotate_grant_valid:
  "valid (grants_ok env view now) (RotateOfflineGrantRefreshToken env now gid h h' e) (own_grant env gid)"
  unfolding RotateOfflineGrantRefreshToken_def
  by (rule valid_with_mutex, rule valid_bindp [OF get_grant_valid])
     (auto split: option.split intro!: valid_stop update_grant_valid simp: own_grant_def)

lemma remove_tokens_valid:
  "valid (grants_ok env view now) (RemoveOfflineGrantRefreshTokens env now gid hs e)
     (\<lambda>res. case res of None \<Rightarrow> True | Some g \<Rightarrow> own_grant env gid g)"
  unfolding RemoveOfflineGrantRefreshTokens_def Let_def
proof (rule valid_with_mutex, rule valid_bindp [OF get_grant_valid])
  fix g assume g: "own_grant env gid g"
  show "valid (grants_ok env view now)
      (if HasValidTokens (without_tokens hs g)
       then bindp (updateOfflineGrant env now (without_tokens hs g) e) (\<lambda>grant. ret (Some grant))
       else bindp (DeleteOfflineGrant env now (without_tokens hs g)) (\<lambda>_. ret None))
      (\<lambda>res. case res of None \<Rightarrow> True | Some g \<Rightarrow> own_grant env gid g)"
  proof (cases "HasValidTokens (without_tokens hs g)")
    case True
    have "own_grant env gid (without_tokens hs g)" using g by (simp add: own_grant_def without_tokens_def)
    with True show ?thesis by (simp add: valid_bindp [OF update_grant_valid] valid_ret)
  next
    case False
    then show ?thesis by (simp add: valid_bindp [OF delete_grant_valid] valid_ret)
  qed
qed

lemma list_grants_valid: "valid (grants_ok env view now) (list_grants env now k gids) (\<lambda>_. True)"
proof (induction gids)
  case (Cons gid gids)
  show ?case unfolding list_grants.simps
  proof (rule valid_bindp [OF valid_attempt [OF loadData_valid]])
    fix res :: "sess_error + oauth_value"
    have skip: "valid (grants_ok env view now) (bindp (ignore_err (rcall '''' (s_HDEL (e_redis env) now k gid)))
        (\<lambda>_. list_grants env now k gids)) (\<lambda>_. True)"
      by (rule valid_bindp [OF valid_ignore_err [OF grants_ok_hash(2)]]) (rule Cons)
    show "valid (grants_ok env view now) (case res of
        Inl ErrGrantNotFound \<Rightarrow> bindp (ignore_err (rcall '''' (s_HDEL (e_redis env) now k gid))) (\<lambda>_. list_grants env now k gids)
      | Inl e \<Rightarrow> failp e
      | Inr data \<Rightarrow> (case unmarshalOfflineGrant data of Inl e \<Rightarrow> failp (InfraErr e)
        | Inr grant \<Rightarrow> bindp (list_grants env now k gids) (\<lambda>grants. ret (grant # grants)))) (\<lambda>_. True)"
      using skip by (auto split: sum.split sess_error.split intro!: valid_stop valid_bindp [OF Cons] valid_ret)
  qed
qed (simp add: valid_ret)

lemma list_offline_grants_valid: "valid (grants_ok env view now) (ListOfflineGrants env now user) (\<lambda>_. True)"
  unfolding ListOfflineGrants_def Let_def
  by (rule valid_bindp [OF grants_ok_hash(3)], rule valid_bindp [OF list_grants_valid]) (simp add: valid_ret)

end

section \<open>The store as a table of grants\<close>

definition grant_table ::
    "('r, 'm, 'x) oauth_env \<Rightarrow> (time \<Rightarrow> 'r \<Rightarrow> string \<Rightarrow> oauth_value option) \<Rightarrow> time \<Rightarrow> 'r \<Rightarrow> string \<Rightarrow> OfflineGrant option" where
  "grant_table env view t r gid = (case view t r (offlineGrantKey (e_AppID env) gid) of
     Some (OV_Offline g) \<Rightarrow> Some g | _ \<Rightarrow> None)"

text \<open>The updates the store offers, and what each means for one grant.\<close>

datatype grant_update =
    UpdAccess string access_event
  | UpdDeviceInfo string
  | UpdAuthenticatedAt time
  | UpdApp2AppDeviceKey string
  | UpdDeviceSecretHash string string
  | UpdSAMLParticipant string
  | UpdAddToken AddOfflineGrantRefreshTokenOptions
  | UpdRotate string string
  | UpdRemoveTokens "string list"

datatype grant_after = Rejected | Kept OfflineGrant | Deleted

fun spec_update :: "time \<Rightarrow> grant_update \<Rightarrow> OfflineGrant \<Rightarrow> grant_after" where
  "spec_update now (UpdAccess h ev) g = Kept (access_mutator h ev g)"
| "spec_update now (UpdDeviceInfo i) g = Kept (g\<lparr>og_DeviceInfo := i\<rparr>)"
| "spec_update now (UpdAuthenticatedAt t) g = Kept (g\<lparr>og_AuthenticatedAt := t\<rparr>)"
| "spec_update now (UpdApp2AppDeviceKey k) g = Kept (g\<lparr>og_App2AppDeviceKeyJWKJSON := k\<rparr>)"
| "spec_update now (UpdDeviceSecretHash h jkt) g = Kept (g\<lparr>og_DeviceSecretHash := h, og_DeviceSecretDPoPJKT := jkt\<rparr>)"
| "spec_update now (UpdSAMLParticipant p) g =
     Kept (g\<lparr>og_ParticipatedSAMLServiceProviderIDs := set_keys (p # og_ParticipatedSAMLServiceProviderIDs g)\<rparr>)"
| "spec_update now (UpdAddToken o') g = Kept (g\<lparr>og_RefreshTokens := og_RefreshTokens g @ [new_refresh_token now o']\<rparr>)"
| "spec_update now (UpdRotate h h') g = (case rotate_first h h' now (og_RefreshTokens g) of
     None \<Rightarrow> Rejected | Some tokens \<Rightarrow> Kept (g\<lparr>og_RefreshTokens := tokens\<rparr>))"
| "spec_update now (UpdRemoveTokens hs) g =
     (if HasValidTokens (without_tokens hs g) then Kept (without_tokens hs g) else Deleted)"

fun run_update ::
    "('r, 'm, 'x) oauth_env \<Rightarrow> time \<Rightarrow> string \<Rightarrow> time \<Rightarrow> grant_update \<Rightarrow> ('r, 'm, 'x, OfflineGrant option) sess_proc" where
  "run_update env now gid e (UpdAccess h ev) = bindp (UpdateOfflineGrantWithMutator env now gid e (access_mutator h ev)) (\<lambda>g. ret (Some g))"
| "run_update env now gid e (UpdDeviceInfo i) = bindp (UpdateOfflineGrantDeviceInfo env now gid i e) (\<lambda>g. ret (Some g))"
| "run_update env now gid e (UpdAuthenticatedAt t) = bindp (UpdateOfflineGrantAuthenticatedAt env now gid t e) (\<lambda>g. ret (Some g))"
| "run_update env now gid e (UpdApp2AppDeviceKey k) = bindp (UpdateOfflineGrantApp2AppDeviceKey env now gid k e) (\<lambda>g. ret (Some g))"
| "run_update env now gid e (UpdDeviceSecretHash h jkt) =
     bindp (UpdateOfflineGrantDeviceSecretHash env now gid h jkt e) (\<lambda>g. ret (Some g))"
| "run_update env now gid e (UpdSAMLParticipant p) =
     bindp (AddOfflineGrantSAMLServiceProviderParticipant env now gid p e) (\<lambda>g. ret (Some g))"
| "run_update env now gid e (UpdAddToken o') =
     bindp (AddOfflineGrantRefreshToken env now (o'\<lparr>add_OfflineGrantID := gid, add_OfflineGrantExpireAt := e\<rparr>)) (\<lambda>g. ret (Some g))"
| "run_update env now gid e (UpdRotate h h') = bindp (RotateOfflineGrantRefreshToken env now gid h h' e) (\<lambda>g. ret (Some g))"
| "run_update env now gid e (UpdRemoveTokens hs) = RemoveOfflineGrantRefreshTokens env now gid hs e"

lemma stored_grant_expiry [simp]: "stored_grant (g\<lparr>og_ExpireAtForResolvedSession := e\<rparr>) = stored_grant g"
  by (simp add: stored_grant_def)

lemma own_grant_updates [simp]:
  "own_grant env gid (g\<lparr>og_ExpireAtForResolvedSession := e\<rparr>) = own_grant env gid g"
  "own_grant env gid (g\<lparr>og_RefreshTokens := ts\<rparr>) = own_grant env gid g"
  "own_grant env gid (g\<lparr>og_DeviceInfo := i\<rparr>) = own_grant env gid g"
  "own_grant env gid (g\<lparr>og_AuthenticatedAt := tm\<rparr>) = own_grant env gid g"
  "own_grant env gid (g\<lparr>og_App2AppDeviceKeyJWKJSON := k\<rparr>) = own_grant env gid g"
  "own_grant env gid (g\<lparr>og_DeviceSecretHash := h, og_DeviceSecretDPoPJKT := jkt\<rparr>) = own_grant env gid g"
  "own_grant env gid (g\<lparr>og_ParticipatedSAMLServiceProviderIDs := ps\<rparr>) = own_grant env gid g"
  "own_grant env gid (without_tokens hs g) = own_grant env gid g"
  "own_grant env gid (access_mutator h ev g) = own_grant env gid g"
  by (simp_all add: own_grant_def without_tokens_def access_mutator_def Let_def)

text \<open>All updates but two change the grant by a function.\<close>

fun update_fun :: "time \<Rightarrow> grant_update \<Rightarrow> (OfflineGrant \<Rightarrow> OfflineGrant) option" where
  "update_fun now (UpdRotate h h') = None"
| "update_fun now (UpdRemoveTokens hs) = None"
| "update_fun now u = Some (\<lambda>g. case spec_update now u g of Kept g' \<Rightarrow> g' | _ \<Rightarrow> g)"

lemma update_fun:
  assumes "update_fun now u = Some f"
  shows "run_update env now gid e u = bindp (UpdateOfflineGrantWithMutator env now gid e f) (\<lambda>g. ret (Some g))"
    "spec_update now u g = Kept (f g)" "own_grant env gid (f g) = own_grant env gid g"
  using assms by (cases u; auto simp: UpdateOfflineGrantDeviceInfo_def UpdateOfflineGrantAuthenticatedAt_def
      UpdateOfflineGrantApp2AppDeviceKey_def UpdateOfflineGrantDeviceSecretHash_def AddOfflineGrantSAMLServiceProviderParticipant_def
      AddOfflineGrantRefreshToken_def new_refresh_token_def)+

context oauth_keys
begin

lemma get_grant_run:
  assumes "grants_ok env view now (w_redis w)" "GetOfflineGrantWithoutExpireAt env now gid w = (Ok g, w')"
  obtains g0 where "w' = w" "view now (w_redis w) (offlineGrantKey (e_AppID env) gid) = Some (OV_Offline g0)"
    "g = read_grant g0" "own_grant env gid g" "grant_table env view now (w_redis w) gid = Some g0"
proof -
  note l = assms(2) [unfolded GetOfflineGrantWithoutExpireAt_def]
  obtain v where v: "w' = w" "view now (w_redis w) (offlineGrantKey (e_AppID env) gid) = Some v"
    "unmarshalOfflineGrant v = Inr g" using load_run(1) [OF l] load_run(2) [OF l refl] by blast
  obtain g0 where g0: "v = OV_Offline g0" "og_ID g0 = gid" "og_AppID g0 = e_AppID env"
    by (rule grants_okD [OF assms(1) order_refl v(2)])
  show thesis by (rule that [of g0]) (use v g0 in \<open>auto simp: own_grant_def grant_table_def\<close>)
qed

lemma updateOfflineGrant_run:
  assumes "own_grant env gid g" "updateOfflineGrant env now g e w = (Ok g', w')" "now < e"
    and "view now (w_redis w) (offlineGrantKey (e_AppID env) gid) \<noteq> None"
  shows "g' = g\<lparr>og_ExpireAtForResolvedSession := e\<rparr>"
    and "now \<le> t \<Longrightarrow> k \<noteq> offlineGrantKey (e_AppID env) gid \<Longrightarrow> view t (w_redis w') k = view t (w_redis w) k"
    and "now \<le> t \<Longrightarrow> view t (w_redis w') (offlineGrantKey (e_AppID env) gid) =
      (if t < now + ttl_ms (e - now) then Some (OV_Offline (stored_grant g)) else None)"
proof -
  let ?k = "offlineGrantKey (e_AppID env) gid"
  from assms(1,2) obtain w1 u where h: "rcall ''failed to update session list: '' (s_HSET (e_redis env) now
        (offlineGrantListKey (og_AppID g) (UserID (og_Attrs g))) (og_ID g) e) w = (Ok u, w1)"
    and s: "save env now ?k (OV_Offline (stored_grant g)) e False w1 = (Ok (), w')"
    and g': "g' = g\<lparr>og_ExpireAtForResolvedSession := e\<rparr>"
    by (auto simp: updateOfflineGrant_def Let_def bindp_Ok run_simps own_grant_def)
  from g' show "g' = g\<lparr>og_ExpireAtForResolvedSession := e\<rparr>" .
  from HSET_view [OF h] have v1: "view t (w_redis w1) = view t (w_redis w)" if "now \<le> t" for t using that by simp
  show "now \<le> t \<Longrightarrow> k \<noteq> ?k \<Longrightarrow> view t (w_redis w') k = view t (w_redis w) k"
    using save_run(1) [OF s] v1 by simp
  show "view t (w_redis w') ?k = (if t < now + ttl_ms (e - now) then Some (OV_Offline (stored_grant g)) else None)" if "now \<le> t"
    using save_run(2) [OF s that assms(3)] v1 [OF order_refl] assms(4) by simp
qed

lemma grant_table_update:
  assumes "\<And>k. k \<noteq> offlineGrantKey (e_AppID env) gid \<Longrightarrow> view t r' k = view t r k"
    and "view t r' (offlineGrantKey (e_AppID env) gid) = x"
  shows "grant_table env view t r' = (grant_table env view t r)(gid := (case x of Some (OV_Offline g) \<Rightarrow> Some g | _ \<Rightarrow> None))"
  using assms by (auto simp: grant_table_def fun_eq_iff)

lemma view_within:
  assumes "grant_table env view now r gid = Some g" "grants_ok env view now r" "now \<le> t"
  shows "grant_table env view t r gid \<in> {None, Some g}"
  using assms view_later [of now t r "offlineGrantKey (e_AppID env) gid"] by (auto simp: grant_table_def)

lemma mutate_steps:
  assumes "grants_ok env view now (w_redis w)" "now < e" "\<And>g. own_grant env gid g \<Longrightarrow> own_grant env gid (f g)"
    and "UpdateOfflineGrantWithMutator env now gid e f w = (Ok g', w')"
  obtains g0 where "grant_table env view now (w_redis w) gid = Some g0"
    "g' = (f (read_grant g0))\<lparr>og_ExpireAtForResolvedSession := e\<rparr>"
    "\<And>t k. now \<le> t \<Longrightarrow> k \<noteq> offlineGrantKey (e_AppID env) gid \<Longrightarrow> view t (w_redis w') k = view t (w_redis w) k"
    "\<And>t. now \<le> t \<Longrightarrow> view t (w_redis w') (offlineGrantKey (e_AppID env) gid) =
      (if t < now + ttl_ms (e - now) then Some (OV_Offline (stored_grant (f (read_grant g0)))) else None)"
proof -
  let ?k = "offlineGrantKey (e_AppID env) gid"
  from assms(4) obtain m w2 where "bindp (GetOfflineGrantWithoutExpireAt env now gid)
      (\<lambda>grant. updateOfflineGrant env now (f grant) e) (w\<lparr>w_mutex := m\<rparr>) = (Ok g', w2)"
    and w': "w' = w2\<lparr>w_mutex := e_unlock env (offlineGrantMutexName (e_AppID env) gid) (w_mutex w2)\<rparr>"
    unfolding UpdateOfflineGrantWithMutator_def by (rule with_mutex_Ok) auto
  then obtain g w1 where g: "GetOfflineGrantWithoutExpireAt env now gid (w\<lparr>w_mutex := m\<rparr>) = (Ok g, w1)"
    and u: "updateOfflineGrant env now (f g) e w1 = (Ok g', w2)" by (auto simp: bindp_Ok)
  have ok: "grants_ok env view now (w_redis (w\<lparr>w_mutex := m\<rparr>))" using assms(1) by simp
  obtain g0 where g0: "w1 = w\<lparr>w_mutex := m\<rparr>" "view now (w_redis w) ?k = Some (OV_Offline g0)" "g = read_grant g0"
    "own_grant env gid g" "grant_table env view now (w_redis w) gid = Some g0"
    using get_grant_run [OF ok g] by auto
  have own: "own_grant env gid (f g)" using assms(3) g0(4) by blast
  have present: "view now (w_redis w1) ?k \<noteq> None" using g0(1,2) by simp
  note run = updateOfflineGrant_run [OF own u assms(2) present]
  show thesis by (rule that [OF g0(5)]) (use run g0(1,3) w' in auto)
qed

lemma mutate_run:
  assumes "grants_ok env view now (w_redis w)" "now < e" "\<And>g. own_grant env gid g \<Longrightarrow> own_grant env gid (f g)"
    and "UpdateOfflineGrantWithMutator env now gid e f w = (Ok g', w')"
  obtains g0 where "grant_table env view now (w_redis w) gid = Some g0"
    "g' = (f (read_grant g0))\<lparr>og_ExpireAtForResolvedSession := e\<rparr>"
    "\<And>t. now \<le> t \<Longrightarrow> t < now + ttl_ms (e - now) \<Longrightarrow> grant_table env view t (w_redis w') =
      (grant_table env view t (w_redis w))(gid \<mapsto> stored_grant (f (read_grant g0)))"
proof -
  obtain g0 where g0: "grant_table env view now (w_redis w) gid = Some g0"
    "g' = (f (read_grant g0))\<lparr>og_ExpireAtForResolvedSession := e\<rparr>"
    "\<And>t k. now \<le> t \<Longrightarrow> k \<noteq> offlineGrantKey (e_AppID env) gid \<Longrightarrow> view t (w_redis w') k = view t (w_redis w) k"
    "\<And>t. now \<le> t \<Longrightarrow> view t (w_redis w') (offlineGrantKey (e_AppID env) gid) =
      (if t < now + ttl_ms (e - now) then Some (OV_Offline (stored_grant (f (read_grant g0)))) else None)"
    using mutate_steps [OF assms] by blast
  show thesis
  proof (rule that [OF g0(1,2)])
    fix t assume t: "now \<le> t" "t < now + ttl_ms (e - now)"
    from grant_table_update [OF g0(3) [OF t(1)] g0(4) [OF t(1)]] t(2)
    show "grant_table env view t (w_redis w') = (grant_table env view t (w_redis w))(gid \<mapsto> stored_grant (f (read_grant g0)))" by simp
  qed
qed

lemma mutate_gone:
  assumes "grants_ok env view now (w_redis w)" "now < e" "\<And>g. own_grant env gid g \<Longrightarrow> own_grant env gid (f g)"
    and "UpdateOfflineGrantWithMutator env now gid e f w = (Ok g', w')" "now + ttl_ms (e - now) \<le> t" "now \<le> t"
  shows "view t (w_redis w') (offlineGrantKey (e_AppID env) gid) = None"
  by (rule mutate_steps [OF assms(1-4)]) (use assms(5,6) in auto)

lemma rotate_run:
  assumes "grants_ok env view now (w_redis w)" "now < e" "RotateOfflineGrantRefreshToken env now gid h h' e w = (Ok g', w')"
  obtains g0 tokens where "grant_table env view now (w_redis w) gid = Some g0"
    "rotate_first h h' now (og_RefreshTokens g0) = Some tokens"
    "g' = (read_grant g0)\<lparr>og_RefreshTokens := tokens, og_ExpireAtForResolvedSession := e\<rparr>"
    "\<And>t. now \<le> t \<Longrightarrow> t < now + ttl_ms (e - now) \<Longrightarrow> grant_table env view t (w_redis w') =
      (grant_table env view t (w_redis w))(gid \<mapsto> stored_grant ((read_grant g0)\<lparr>og_RefreshTokens := tokens\<rparr>))"
proof -
  let ?k = "offlineGrantKey (e_AppID env) gid"
  from assms(3) obtain m w2 where "bindp (GetOfflineGrantWithoutExpireAt env now gid) (\<lambda>grant.
        case rotate_first h h' now (og_RefreshTokens grant) of None \<Rightarrow> failp ErrGrantNotFound
        | Some tokens \<Rightarrow> updateOfflineGrant env now (grant\<lparr>og_RefreshTokens := tokens\<rparr>) e) (w\<lparr>w_mutex := m\<rparr>) = (Ok g', w2)"
    and w': "w' = w2\<lparr>w_mutex := e_unlock env (offlineGrantMutexName (e_AppID env) gid) (w_mutex w2)\<rparr>"
    unfolding RotateOfflineGrantRefreshToken_def by (rule with_mutex_Ok) auto
  then obtain g w1 tokens where g: "GetOfflineGrantWithoutExpireAt env now gid (w\<lparr>w_mutex := m\<rparr>) = (Ok g, w1)"
    and tok: "rotate_first h h' now (og_RefreshTokens g) = Some tokens"
    and u: "updateOfflineGrant env now (g\<lparr>og_RefreshTokens := tokens\<rparr>) e w1 = (Ok g', w2)"
    by (auto simp: bindp_Ok run_simps split: option.splits)
  have ok: "grants_ok env view now (w_redis (w\<lparr>w_mutex := m\<rparr>))" using assms(1) by simp
  obtain g0 where g0: "w1 = w\<lparr>w_mutex := m\<rparr>" "view now (w_redis w) ?k = Some (OV_Offline g0)" "g = read_grant g0"
    "own_grant env gid g" "grant_table env view now (w_redis w) gid = Some g0"
    using get_grant_run [OF ok g] by auto
  have own: "own_grant env gid (g\<lparr>og_RefreshTokens := tokens\<rparr>)" using g0(4) by simp
  have present: "view now (w_redis w1) ?k \<noteq> None" using g0(1,2) by simp
  note run = updateOfflineGrant_run [OF own u assms(2) present]
  show thesis
  proof (rule that [OF g0(5)])
    show "rotate_first h h' now (og_RefreshTokens g0) = Some tokens" using tok g0(3) by simp
    show "g' = (read_grant g0)\<lparr>og_RefreshTokens := tokens, og_ExpireAtForResolvedSession := e\<rparr>" using run(1) g0(3) by simp
    fix t assume t: "now \<le> t" "t < now + ttl_ms (e - now)"
    have v: "\<And>k. k \<noteq> ?k \<Longrightarrow> view t (w_redis w') k = view t (w_redis w) k"
      "view t (w_redis w') ?k = Some (OV_Offline (stored_grant (g\<lparr>og_RefreshTokens := tokens\<rparr>)))"
      using run(2) [OF t(1)] run(3) [OF t(1)] t(2) g0(1) w' by auto
    from grant_table_update [OF v] g0(3)
    show "grant_table env view t (w_redis w') =
        (grant_table env view t (w_redis w))(gid \<mapsto> stored_grant ((read_grant g0)\<lparr>og_RefreshTokens := tokens\<rparr>))" by simp
  qed
qed

lemma DeleteOfflineGrant_run:
  assumes "DeleteOfflineGrant env now g w = (res, w')" "now \<le> t"
  shows "k \<noteq> offlineGrantKey (og_AppID g) (og_ID g) \<Longrightarrow> view t (w_redis w') k = view t (w_redis w) k"
    and "res = Ok () \<Longrightarrow> view t (w_redis w') (offlineGrantKey (og_AppID g) (og_ID g)) = None"
proof -
  let ?k = "offlineGrantKey (og_AppID g) (og_ID g)"
  let ?h = "rcall '''' (s_HDEL (e_redis env) now (offlineGrantListKey (og_AppID g) (UserID (og_Attrs g))) (og_ID g))"
  obtain r1 w1 where d: "del env now ?k w = (r1, w1)" by fastforce
  have "w_redis w' = w_redis w1 \<and> r1 \<noteq> Ok () \<and> res \<noteq> Ok () \<or> r1 = Ok () \<and> view t (w_redis w') = view t (w_redis w1)"
  proof (cases "r1 = Ok ()")
    case True
    obtain r2 w2 where h: "?h w1 = (r2, w2)" by fastforce
    from HDEL_view [OF h assms(2)] True d h assms(1) show ?thesis
      by (auto simp: DeleteOfflineGrant_def bindp_def ignore_err_def attempt_def run_simps split: outcome.splits)
  next
    case False
    with d assms(1) show ?thesis by (cases r1) (auto simp: DeleteOfflineGrant_def bindp_def)
  qed
  with del_run [OF d assms(2)]
  show "k \<noteq> ?k \<Longrightarrow> view t (w_redis w') k = view t (w_redis w) k" "res = Ok () \<Longrightarrow> view t (w_redis w') ?k = None" by auto
qed

lemma remove_run:
  assumes "grants_ok env view now (w_redis w)" "now < e" "RemoveOfflineGrantRefreshTokens env now gid hs e w = (Ok res, w')"
  obtains g0 where "grant_table env view now (w_redis w) gid = Some g0"
    "HasValidTokens (without_tokens hs (read_grant g0)) \<Longrightarrow>
       res = Some ((without_tokens hs (read_grant g0))\<lparr>og_ExpireAtForResolvedSession := e\<rparr>)"
    "\<not> HasValidTokens (without_tokens hs (read_grant g0)) \<Longrightarrow> res = None"
    "\<And>t. now \<le> t \<Longrightarrow> t < now + ttl_ms (e - now) \<Longrightarrow> grant_table env view t (w_redis w') =
      (grant_table env view t (w_redis w))(gid := (if HasValidTokens (without_tokens hs (read_grant g0))
         then Some (stored_grant (without_tokens hs (read_grant g0))) else None))"
proof -
  let ?k = "offlineGrantKey (e_AppID env) gid"
  from assms(3) obtain m w2 where b: "bindp (GetOfflineGrantWithoutExpireAt env now gid) (\<lambda>grant.
        let grant = without_tokens hs grant
        in if HasValidTokens grant
           then bindp (updateOfflineGrant env now grant e) (\<lambda>grant. ret (Some grant))
           else bindp (DeleteOfflineGrant env now grant) (\<lambda>_. ret None)) (w\<lparr>w_mutex := m\<rparr>) = (Ok res, w2)"
    and w': "w' = w2\<lparr>w_mutex := e_unlock env (offlineGrantMutexName (e_AppID env) gid) (w_mutex w2)\<rparr>"
    unfolding RemoveOfflineGrantRefreshTokens_def by (rule with_mutex_Ok) auto
  from b obtain g w1 where g: "GetOfflineGrantWithoutExpireAt env now gid (w\<lparr>w_mutex := m\<rparr>) = (Ok g, w1)"
    and u: "HasValidTokens (without_tokens hs g) \<Longrightarrow> \<exists>g'. updateOfflineGrant env now (without_tokens hs g) e w1 = (Ok g', w2) \<and> res = Some g'"
    and d: "\<not> HasValidTokens (without_tokens hs g) \<Longrightarrow> DeleteOfflineGrant env now (without_tokens hs g) w1 = (Ok (), w2) \<and> res = None"
    by (auto simp: bindp_Ok run_simps Let_def split: if_splits)
  have ok: "grants_ok env view now (w_redis (w\<lparr>w_mutex := m\<rparr>))" using assms(1) by simp
  obtain g0 where g0: "w1 = w\<lparr>w_mutex := m\<rparr>" "view now (w_redis w) ?k = Some (OV_Offline g0)" "g = read_grant g0"
    "own_grant env gid g" "grant_table env view now (w_redis w) gid = Some g0"
    using get_grant_run [OF ok g] by auto
  have own: "own_grant env gid (without_tokens hs g)" using g0(4) by simp
  then have key: "offlineGrantKey (og_AppID (without_tokens hs g)) (og_ID (without_tokens hs g)) = ?k" by (simp add: own_grant_def)
  have present: "view now (w_redis w1) ?k \<noteq> None" using g0(1,2) by simp
  show thesis
  proof (rule that [OF g0(5)])
    show "HasValidTokens (without_tokens hs (read_grant g0)) \<Longrightarrow>
       res = Some ((without_tokens hs (read_grant g0))\<lparr>og_ExpireAtForResolvedSession := e\<rparr>)"
      using u g0(3) updateOfflineGrant_run(1) [OF own _ assms(2) present] by blast
    show "\<not> HasValidTokens (without_tokens hs (read_grant g0)) \<Longrightarrow> res = None" using d g0(3) by blast
    fix t assume t: "now \<le> t" "t < now + ttl_ms (e - now)"
    show "grant_table env view t (w_redis w') =
      (grant_table env view t (w_redis w))(gid := (if HasValidTokens (without_tokens hs (read_grant g0))
         then Some (stored_grant (without_tokens hs (read_grant g0))) else None))"
    proof (cases "HasValidTokens (without_tokens hs g)")
      case True
      with u obtain g' where up: "updateOfflineGrant env now (without_tokens hs g) e w1 = (Ok g', w2)" by blast
      note run = updateOfflineGrant_run [OF own up assms(2) present]
      have v: "\<And>k. k \<noteq> ?k \<Longrightarrow> view t (w_redis w') k = view t (w_redis w) k"
        "view t (w_redis w') ?k = Some (OV_Offline (stored_grant (without_tokens hs g)))"
        using run(2) [OF t(1)] run(3) [OF t(1)] t(2) g0(1) w' by auto
      from grant_table_update [OF v] True g0(3) show ?thesis by simp
    next
      case False
      with d have del: "DeleteOfflineGrant env now (without_tokens hs g) w1 = (Ok (), w2)" by blast
      note run = DeleteOfflineGrant_run [OF del t(1), unfolded key]
      have v: "\<And>k. k \<noteq> ?k \<Longrightarrow> view t (w_redis w') k = view t (w_redis w) k" "view t (w_redis w') ?k = None"
        using run g0(1) w' by auto
      from grant_table_update [OF v] False g0(3) show ?thesis by simp
    qed
  qed
qed

text \<open>An update that succeeded did to the table what the specification says, until the expiry it was given.\<close>

lemma update_refines:
  assumes "grants_ok env view now (w_redis w)" "now < e" "run_update env now gid e u w = (Ok res, w')"
    and "now \<le> t" "t < now + ttl_ms (e - now)"
  shows "\<exists>g. grant_table env view now (w_redis w) gid = Some g \<and> (case spec_update now u (read_grant g) of
     Rejected \<Rightarrow> False
   | Kept g' \<Rightarrow> res = Some (g'\<lparr>og_ExpireAtForResolvedSession := e\<rparr>) \<and>
       grant_table env view t (w_redis w') = (grant_table env view t (w_redis w))(gid \<mapsto> stored_grant g')
   | Deleted \<Rightarrow> res = None \<and> grant_table env view t (w_redis w') = (grant_table env view t (w_redis w))(gid := None))"
proof -
  consider (mutate) f where "update_fun now u = Some f" | (rotate) h h' where "u = UpdRotate h h'"
    | (remove) hs where "u = UpdRemoveTokens hs" by (cases u) auto
  then show ?thesis
  proof cases
    case mutate
    from assms(3) obtain g' where r: "UpdateOfflineGrantWithMutator env now gid e f w = (Ok g', w')" "res = Some g'"
      by (auto simp: update_fun(1) [OF mutate] bindp_Ok run_simps)
    have own: "\<And>g. own_grant env gid g \<Longrightarrow> own_grant env gid (f g)" using update_fun(3) [OF mutate] by blast
    show ?thesis by (rule mutate_run [OF assms(1,2) own r(1)]) (use assms(4,5) r(2) update_fun(2) [OF mutate] in auto)
  next
    case rotate
    with assms(3) obtain g' where r: "RotateOfflineGrantRefreshToken env now gid h h' e w = (Ok g', w')" "res = Some g'"
      by (auto simp: bindp_Ok run_simps)
    show ?thesis by (rule rotate_run [OF assms(1,2) r(1)]) (use assms(4,5) r(2) rotate in auto)
  next
    case remove
    with assms(3) have "RemoveOfflineGrantRefreshTokens env now gid hs e w = (Ok res, w')" by simp
    then show ?thesis by (rule remove_run [OF assms(1,2)]) (use assms(4,5) remove in auto)
  qed
qed

end

section \<open>The providers\<close>

text \<open>A call that leaves the grants' Redis alone.\<close>

definition foreign :: "('r, 'm, 'x, 'a) sess_proc \<Rightarrow> bool" where
  "foreign p \<longleftrightarrow> (\<forall>w. w_redis (snd (p w)) = w_redis w)"

lemma foreignD: "foreign p \<Longrightarrow> p w = (res, w') \<Longrightarrow> w_redis w' = w_redis w"
  unfolding foreign_def by (metis snd_conv)

lemma valid_foreign: "foreign p \<Longrightarrow> valid Q p (\<lambda>_. True)"
  by (auto simp: foreign_def valid_def)

locale oauth_providers =
  fixes deps :: "('r, 'm, 'x) oauth_deps"
  assumes idp_foreign: "foreign (d_Idp_Get deps now sid)" "foreign (d_Idp_AccessWithID deps now sid ev)"
    and authz_foreign: "foreign (d_Authz_Get deps user client)" "foreign (d_Authz_GetByID deps aid)"
      "foreign (d_Authz_ListByUserID deps user)" "foreign (d_Authz_Create deps a)"
      "foreign (d_Authz_Delete deps a)" "foreign (d_Authz_UpdateScopes deps a)"
    and users_foreign: "foreign (d_Users_GetRaw deps user)"

section \<open>Histories\<close>

text \<open>
  The calls on the store and its services, at time \<open>now\<close>, by any client, whatever they answer. Every
  grant created is the app's. Anything may happen elsewhere: to the sessions of the identity provider,
  the authorizations, the users.
\<close>

inductive oauth_call ::
    "('r, 'm, 'x) oauth_deps \<Rightarrow> ('r, 'm, 'x) oauth_env \<Rightarrow> time \<Rightarrow> ('r, 'm, 'x) sess_world \<Rightarrow> ('r, 'm, 'x) sess_world \<Rightarrow> bool"
  for deps env now w w' where
  create: "og_AppID g = e_AppID env \<Longrightarrow> CreateOfflineGrant env now g w = (res, w') \<Longrightarrow> oauth_call deps env now w w'"
| update: "run_update env now gid e u w = (res', w') \<Longrightarrow> oauth_call deps env now w w'"
| delete: "DeleteOfflineGrant env now g w = (res, w') \<Longrightarrow> oauth_call deps env now w w'"
| list: "ListOfflineGrants env now user w = (res'', w') \<Longrightarrow> oauth_call deps env now w w'"
| new_token: "CreateNewRefreshToken deps env now tok g o' w = (res3, w') \<Longrightarrow> oauth_call deps env now w w'"
| rotate: "RotateRefreshToken deps env now tok g h w = (res4, w') \<Longrightarrow> oauth_call deps env now w w'"
| accessed: "AccessOfflineGrant env now gid h ev e w = (res5, w') \<Longrightarrow> oauth_call deps env now w w'"
| terminate: "OAuthManager_TerminateAllExcept deps env clients now user cur w = (res'', w') \<Longrightarrow> oauth_call deps env now w w'"
| revoke: "Authz_Delete deps env now a w = (res, w') \<Longrightarrow> oauth_call deps env now w w'"
| access_grant: "ag_AppID ag = e_AppID env \<Longrightarrow> CreateAccessGrant env now ag w = (res, w') \<Longrightarrow> oauth_call deps env now w w'"
| app_session: "as_AppID as = e_AppID env \<Longrightarrow> CreateAppSession env now as w = (res, w') \<Longrightarrow> oauth_call deps env now w w'"
| app_session_token: "ast_AppID st = e_AppID env \<Longrightarrow> CreateAppSessionToken env now st w = (res, w') \<Longrightarrow> oauth_call deps env now w w'"
| url_token: "pt_AppID pt = e_AppID env \<Longrightarrow> CreatePreAuthenticatedURLToken env now pt w = (res, w') \<Longrightarrow> oauth_call deps env now w w'"
| code: "cg_AppID cg = e_AppID env \<Longrightarrow> CreateCodeGrant env now cg w = (res, w') \<Longrightarrow> oauth_call deps env now w w'"
| settings: "sg_AppID sg = e_AppID env \<Longrightarrow> CreateSettingsActionGrant env now sg w = (res, w') \<Longrightarrow> oauth_call deps env now w w'"
| deleted: "del env now key w = (res, w') \<Longrightarrow> oauth_call deps env now w w'"
| elsewhere: "w_redis w' = w_redis w \<Longrightarrow> oauth_call deps env now w w'"

inductive oauth_history ::
    "('r, 'm, 'x) oauth_deps \<Rightarrow> ('r, 'm, 'x) oauth_env \<Rightarrow> time \<Rightarrow> ('r, 'm, 'x) sess_world
     \<Rightarrow> time \<Rightarrow> ('r, 'm, 'x) sess_world \<Rightarrow> bool" for deps env t0 w0 where
  start: "oauth_history deps env t0 w0 t0 w0"
| step: "oauth_history deps env t0 w0 t w \<Longrightarrow> t \<le> now \<Longrightarrow> oauth_call deps env now w w' \<Longrightarrow> oauth_history deps env t0 w0 now w'"

lemma oauth_history_time: "oauth_history deps env t0 w0 t w \<Longrightarrow> t0 \<le> t"
  by (induction rule: oauth_history.induct) auto

locale oauth_system = oauth_keys env view hview + oauth_providers deps
  for env :: "('r, 'm, 'x) oauth_env"
    and view :: "time \<Rightarrow> 'r \<Rightarrow> string \<Rightarrow> oauth_value option"
    and hview :: "'r \<Rightarrow> string \<Rightarrow> string \<Rightarrow> time option"
    and deps :: "('r, 'm, 'x) oauth_deps"
begin

lemma run_update_valid: "valid (grants_ok env view now) (run_update env now gid e u) (\<lambda>_. True)"
proof -
  consider (mutate) f where "update_fun now u = Some f" | (rotate) h h' where "u = UpdRotate h h'"
    | (remove) hs where "u = UpdRemoveTokens hs" by (cases u) auto
  then show ?thesis
  proof cases
    case mutate
    have "own_grant env gid g \<Longrightarrow> own_grant env gid (f g)" for g using update_fun(3) [OF mutate] by blast
    then show ?thesis unfolding update_fun(1) [OF mutate] by (intro valid_bindp [OF mutate_valid] valid_ret TrueI)
  next
    case rotate
    then show ?thesis by (simp add: valid_bindp [OF rotate_grant_valid] valid_ret)
  next
    case remove
    then show ?thesis using valid_top [OF remove_tokens_valid] by simp
  qed
qed

lemma housekeep_valid:
  "valid (grants_ok env view now) (housekeepOfflineGrant deps env now g) (\<lambda>_. True)"
  unfolding housekeepOfflineGrant_def
  by (rule valid_bindp [OF valid_outcome_proc], rule valid_bindp [OF valid_outcome_proc], rule valid_top [OF remove_tokens_valid])

lemma new_token_valid: "valid (grants_ok env view now) (CreateNewRefreshToken deps env now tok g o') (\<lambda>_. True)"
  unfolding CreateNewRefreshToken_def Let_def AddOfflineGrantRefreshToken_def
  by (rule valid_bindp [OF valid_outcome_proc], rule valid_bindp [OF mutate_valid])
     (auto intro!: valid_bindp [OF housekeep_valid] valid_ret)

lemma rotate_token_valid: "valid (grants_ok env view now) (RotateRefreshToken deps env now tok g h) (\<lambda>_. True)"
  unfolding RotateRefreshToken_def Let_def
  by (rule valid_bindp [OF valid_outcome_proc], rule valid_bindp [OF rotate_grant_valid])
     (auto intro!: valid_bindp [OF housekeep_valid] valid_ret)

lemma access_grant_valid:
  "valid (grants_ok env view now) (AccessOfflineGrant env now gid h ev e) (\<lambda>_. True)"
  unfolding AccessOfflineGrant_def
  by (rule valid_bindp [OF mutate_valid])
     (auto intro!: valid_bindp [OF valid_events(1)] valid_bindp [OF valid_side] valid_ret)

lemma terminate_valid:
  "valid (grants_ok env view now) (OAuthManager_terminate deps env now ids cur ss) (\<lambda>_. True)"
proof (induction ss arbitrary: cur)
  case (Cons s ss)
  have skip: "valid (grants_ok env view now) (bindp (OAuthManager_terminate deps env now ids cur ss) (\<lambda>ds. ret (s # ds))) (\<lambda>_. True)" for cur
    by (rule valid_bindp [OF Cons]) (simp add: valid_ret)
  show ?case
    by (auto simp: OAuthManager_Delete_def split: prod.split option.split
        intro!: Cons skip valid_bindp [OF delete_grant_valid] valid_bindp [OF valid_outcome_proc] valid_bindp [OF remove_tokens_valid])
qed (simp add: valid_ret)

lemma delete_grants_of_valid: "valid (grants_ok env view now) (delete_grants_of deps env now aid ss) (\<lambda>_. True)"
proof (induction ss)
  case (Cons s ss)
  show ?case
    by (auto simp: OAuthManager_Delete_def split: prod.split
        intro!: Cons valid_bindp [OF delete_grant_valid] valid_bindp [OF valid_outcome_proc] valid_bindp [OF remove_tokens_valid])
qed (simp add: valid_ret)

lemma call_grants_ok:
  assumes "oauth_call deps env now w w'" "grants_ok env view now (w_redis w)"
  shows "grants_ok env view now (w_redis w')"
proof -
  have keep: "grants_ok env view now (w_redis w')" if "valid (grants_ok env view now) p R" "p w = (res, w')"
    for p :: "('r, 'm, 'x, 'a) sess_proc" and R res
    using validD(1) [OF that assms(2)] .
  from assms(1) show ?thesis
  proof cases
    case (create g res)
    have "own_grant env (og_ID g) g" using create(1) by (simp add: own_grant_def)
    from validD(1) [OF create_grant_valid [OF this] create(2) assms(2)] show ?thesis .
  next
    case (update gid e u res')
    from validD(1) [OF run_update_valid update assms(2)] show ?thesis .
  next
    case (delete g res)
    from validD(1) [OF delete_grant_valid delete assms(2)] show ?thesis .
  next
    case (list user res'')
    from validD(1) [OF list_offline_grants_valid list assms(2)] show ?thesis .
  next
    case (new_token tok g o' res3)
    from validD(1) [OF new_token_valid new_token assms(2)] show ?thesis .
  next
    case (rotate tok g h res4)
    from validD(1) [OF rotate_token_valid rotate assms(2)] show ?thesis .
  next
    case (accessed gid h ev e res5)
    from validD(1) [OF access_grant_valid accessed assms(2)] show ?thesis .
  next
    case (terminate clients user cur res'')
    from validD(1) [OF valid_bindp [OF list_offline_grants_valid terminate_valid]
        terminate [unfolded OAuthManager_TerminateAllExcept_def] assms(2)] show ?thesis .
  next
    case (revoke a res)
    from validD(1) [OF valid_bindp [OF list_offline_grants_valid valid_bindp [OF delete_grants_of_valid
          valid_foreign [OF authz_foreign(5)]]] revoke [unfolded Authz_Delete_def OAuthManager_List_def] assms(2)] show ?thesis .
  next
    case (deleted key res)
    from validD(1) [OF grants_ok_del deleted assms(2)] show ?thesis .
  next
    case elsewhere
    with assms(2) show ?thesis by simp
  qed (auto simp: CreateAccessGrant_def CreateAppSession_def CreateAppSessionToken_def CreatePreAuthenticatedURLToken_def
      CreateCodeGrant_def CreateSettingsActionGrant_def intro: validD(1) [OF grants_ok_save _ assms(2), rotated])
qed

lemma history_grants_ok:
  assumes "oauth_history deps env t0 w0 t w" "no_grants env view t0 (w_redis w0)" "t \<le> now"
  shows "grants_ok env view now (w_redis w)"
proof -
  from assms(1) have "grants_ok env view t (w_redis w)"
  proof (induction rule: oauth_history.induct)
    case start
    from grants_ok_none [OF assms(2)] show ?case .
  next
    case (step t w now w')
    from call_grants_ok [OF step(3) grants_ok_later [OF step(2,4)]] show ?case .
  qed
  from grants_ok_later [OF assms(3) this] show ?thesis .
qed

end

text \<open>C34: the store is well typed: whatever is called in time order, from a store without grants, by any
  client, the key of an offline grant ID never holds anything but a grant of this app under this very
  ID, and loading it never fails on its JSON; its claims come back untyped.\<close>

theorem grants_well_typed:
  assumes "session_keys (e_redis env) view hview" "oauth_providers deps" "no_grants env view t0 (w_redis w0)"
    and "oauth_history deps env t0 w0 t w" "t \<le> now"
  shows "case fst (GetOfflineGrantWithoutExpireAt env now gid w) of
      Ok g \<Rightarrow> og_ID g = gid \<and> og_AppID g = e_AppID env \<and> GetAMR (og_Attrs g) = None
    | Err e \<Rightarrow> (case fst (s_GET (e_redis env) now (offlineGrantKey (e_AppID env) gid) (w_redis w)) of
        Inl Nil_reply \<Rightarrow> e = ErrGrantNotFound | Inl err \<Rightarrow> e = redis_error '''' err | Inr _ \<Rightarrow> False)
    | Panic \<Rightarrow> False"
proof -
  from assms(1,2) have sys: "oauth_system env view hview deps" by (simp add: oauth_system_def oauth_keys_def)
  note ok = oauth_system.history_grants_ok [OF sys assms(4,3,5)]
  let ?k = "offlineGrantKey (e_AppID env) gid"
  obtain g r where g: "s_GET (e_redis env) now ?k (w_redis w) = (g, r)" by fastforce
  show ?thesis
  proof (cases g)
    case (Inr v)
    with session_keys.GET [OF assms(1) g] have v: "view now (w_redis w) ?k = Some v" by simp
    obtain g0 where "v = OV_Offline g0" "og_ID g0 = gid" "og_AppID g0 = e_AppID env"
      "GetAMR (og_Attrs g0) = None" by (rule grants_okD [OF ok order_refl v])
    with g Inr show ?thesis
      by (simp add: GetOfflineGrantWithoutExpireAt_def load_def loadData_def bindp_def rcmd_run run_simps)
  next
    case (Inl e)
    with g show ?thesis
      by (cases e) (simp_all add: GetOfflineGrantWithoutExpireAt_def load_def loadData_def bindp_def rcmd_run run_simps)
  qed
qed

text \<open>C14: the store is a table of grants: in any state reached from a store without grants, an update
  that answers success did to the table exactly what it means for the one grant it names - replaced
  it, rotated its token, or deleted it when no token was left - and to no other grant, up to the
  expiry the update was given; what it returns is the grant the table now holds.\<close>

theorem grant_store_refines_table:
  assumes "session_keys (e_redis env) view hview" "oauth_providers deps" "no_grants env view t0 (w_redis w0)"
    and "oauth_history deps env t0 w0 t w" "t \<le> now" "now < e"
    and "run_update env now gid e u w = (Ok res, w')" "now \<le> t'" "t' < now + ttl_ms (e - now)"
  shows "\<exists>g. grant_table env view now (w_redis w) gid = Some g \<and> (case spec_update now u (read_grant g) of
     Rejected \<Rightarrow> False
   | Kept g' \<Rightarrow> res = Some (g'\<lparr>og_ExpireAtForResolvedSession := e\<rparr>) \<and>
       grant_table env view t' (w_redis w') = (grant_table env view t' (w_redis w))(gid \<mapsto> stored_grant g')
   | Deleted \<Rightarrow> res = None \<and> grant_table env view t' (w_redis w') = (grant_table env view t' (w_redis w))(gid := None))"
proof -
  from assms(1,2) have sys: "oauth_system env view hview deps" by (simp add: oauth_system_def oauth_keys_def)
  then have keys: "oauth_keys env view hview" by (simp add: oauth_system_def)
  show ?thesis
    by (rule oauth_keys.update_refines [OF keys oauth_system.history_grants_ok [OF sys assms(4,3,5)] assms(6-9)])
qed

section \<open>The providers of the model\<close>

text \<open>
  The identity provider's sessions live in a world of their own, the second part of the side
  component: its Redis keys, mutexes and streams are apart from those of the grants. Authorizations
  and users are tables.
\<close>

type_synonym ('ri, 'mi, 'xi, 'y) with_idp = "'y \<times> ('ri, 'mi, 'xi) sess_world"

definition on_idp ::
    "('ri, 'mi, 'xi, 'a) sess_proc \<Rightarrow> ('r, 'm, ('ri, 'mi, 'xi, 'y) with_idp, 'a) sess_proc" where
  "on_idp p = (\<lambda>w. case p (snd (w_side w)) of (res, i) \<Rightarrow> (res, w\<lparr>w_side := (fst (w_side w), i)\<rparr>))"

record directory =
  dir_authz :: "Authorization list"
  dir_users :: "(string \<times> account_status) list"

definition on_directory ::
    "(directory \<Rightarrow> (sess_error + 'a) \<times> directory) \<Rightarrow> ('r, 'm, ('ri, 'mi, 'xi, directory) with_idp, 'a) sess_proc" where
  "on_directory f = (\<lambda>w. case f (fst (w_side w)) of
     (Inl e, d) \<Rightarrow> (Err e, w\<lparr>w_side := (d, snd (w_side w))\<rparr>) | (Inr x, d) \<Rightarrow> (Ok x, w\<lparr>w_side := (d, snd (w_side w))\<rparr>))"

definition find_authz :: "(Authorization \<Rightarrow> bool) \<Rightarrow> directory \<Rightarrow> (sess_error + Authorization) \<times> directory" where
  "find_authz P d = (case List.find P (dir_authz d) of None \<Rightarrow> Inl ErrAuthorizationNotFound | Some a \<Rightarrow> Inr a, d)"

definition model_deps ::
    "('ri, 'mi, 'xi) idp_env \<Rightarrow> SessionConfig \<Rightarrow> OAuthClientConfig list
     \<Rightarrow> ('r, 'm, ('ri, 'mi, 'xi, directory) with_idp) oauth_deps" where
  "model_deps ienv cfg clients = \<lparr>
     d_Idp_Get = (\<lambda>now sid. on_idp (Provider_Get ienv cfg now sid)),
     d_Idp_CheckSessionExpired = CheckSessionExpired cfg,
     d_Idp_AccessWithID = (\<lambda>now sid ev. on_idp (AccessWithID ienv cfg now sid ev)),
     d_Authz_Get = (\<lambda>user client. on_directory (find_authz (\<lambda>a. az_UserID a = user \<and> az_ClientID a = client))),
     d_Authz_GetByID = (\<lambda>aid. on_directory (find_authz (\<lambda>a. az_ID a = aid))),
     d_Authz_ListByUserID = (\<lambda>user. on_directory (\<lambda>d. (Inr (filter (\<lambda>a. az_UserID a = user) (dir_authz d)), d))),
     d_Authz_Create = (\<lambda>a. on_directory (\<lambda>d. (Inr (), d\<lparr>dir_authz := dir_authz d @ [a]\<rparr>))),
     d_Authz_Delete = (\<lambda>a. on_directory (\<lambda>d. (Inr (), d\<lparr>dir_authz := filter (\<lambda>b. az_ID b \<noteq> az_ID a) (dir_authz d)\<rparr>))),
     d_Authz_UpdateScopes = (\<lambda>a. on_directory (\<lambda>d. (Inr (), d\<lparr>dir_authz :=
       map (\<lambda>b. if az_ID b = az_ID a then b\<lparr>az_Scopes := az_Scopes a, az_UpdatedAt := az_UpdatedAt a\<rparr> else b) (dir_authz d)\<rparr>))),
     d_Users_GetRaw = (\<lambda>user. on_directory (\<lambda>d. (case map_of (dir_users d) user of
       None \<Rightarrow> Inl ErrUserNotFound | Some s \<Rightarrow> Inr s, d))),
     d_ResolveClient = GetClient clients\<rparr>"

lemma foreign_on_idp: "foreign (on_idp p)"
  by (simp add: foreign_def on_idp_def split: prod.split)

lemma foreign_on_directory: "foreign (on_directory f)"
  by (simp add: foreign_def on_directory_def split: prod.split sum.split)

interpretation model: oauth_system "ss_env app ip ua hash" ss_view ss_hview "model_deps ienv cfg clients"
  for app ip ua hash ienv cfg clients
  by (simp add: oauth_system_def oauth_keys_def oauth_providers_def ss.session_keys_axioms model_deps_def
      foreign_on_idp foreign_on_directory)

section \<open>The properties on a store\<close>

type_synonym demo_side = "(idp_value sstore, unit, unit, directory) with_idp"

definition demo_client :: "string \<Rightarrow> OAuthClientApplicationType \<Rightarrow> OAuthClientConfig" where
  "demo_client cid typ = \<lparr>cl_ClientID = cid, cl_ApplicationType = typ, cl_RedirectURIs = [''https://example.com''],
     cl_GrantTypes = [], cl_AccessTokenLifetime = 1800, cl_RefreshTokenLifetime = 1000,
     cl_RefreshTokenIdleTimeoutEnabled = Some True, cl_RefreshTokenIdleTimeout = 100, cl_RefreshTokenRotationEnabled = True,
     cl_IssueJWTAccessToken = False, cl_CustomUIURI = '''', cl_DPoPDisabled = False, cl_PreAuthenticatedURLEnabled = False,
     cl_MaxConcurrentSession = 0, cl_App2appEnabled = False, cl_App2appInsecureDeviceKeyBindingEnabled = False\<rparr>"

definition demo_clients :: "OAuthClientConfig list" where
  "demo_clients = [demo_client ''c1'' ApplicationTypeSPA, demo_client ''c3'' ApplicationTypeThirdPartyApp]"

definition demo_env :: "(oauth_value sstore, unit, demo_side) oauth_env" where
  "demo_env = ss_env ''app'' ''1.2.3.4'' ''UA'' (\<lambda>s. ''h'' @ s)"

definition demo_deps :: "(oauth_value sstore, unit, demo_side) oauth_deps" where
  "demo_deps = model_deps demo_sess_env demo_sess_cfg demo_clients"

definition demo_info :: "time \<Rightarrow> access_info" where
  "demo_info t = \<lparr>InitialAccess = demo_event t, LastAccess = demo_event t\<rparr>"

definition demo_token :: "string \<Rightarrow> string \<Rightarrow> refresh_token" where
  "demo_token h cid = \<lparr>rt_InitialTokenHash = h, rt_ClientID = cid, rt_CreatedAt = 0, rt_Scopes = [FullAccessScope],
     rt_AuthorizationID = ''z1'', rt_DPoPJKT = '''', rt_AccessInfo = Some (demo_info 0), rt_ExpireAt = None,
     rt_RotatedTokenHash = None, rt_RotatedAt = None\<rparr>"

definition demo_grant :: "string \<Rightarrow> string \<Rightarrow> OfflineGrant" where
  "demo_grant gid cid = \<lparr>og_AppID = ''app'', og_ID = gid, og_InitialClientID = cid, og_IDPSessionID = '''', og_IdentityID = '''',
     og_CreatedAt = 0, og_AuthenticatedAt = 0, og_Attrs = SetAMR [''pwd''] (NewAttrs ''u1''), og_AccessInfo = demo_info 0,
     og_DeviceInfo = '''', og_SSOEnabled = False, og_App2AppDeviceKeyJWKJSON = '''', og_DeviceSecretHash = '''',
     og_DeviceSecretDPoPJKT = '''', og_RefreshTokens = [demo_token ''ht1'' cid], og_ParticipatedSAMLServiceProviderIDs = [],
     og_Deprecated_AuthorizationID = '''', og_Deprecated_Scopes = [], og_Deprecated_TokenHash = '''',
     og_ExpireAtForResolvedSession = 100000000000\<rparr>"

definition demo_directory :: directory where
  "demo_directory = \<lparr>dir_authz = [\<lparr>az_ID = ''z1'', az_AppID = ''app'', az_ClientID = ''c1'', az_UserID = ''u1'',
     az_CreatedAt = 0, az_UpdatedAt = 0, az_Scopes = [FullAccessScope]\<rparr>], dir_users = [(''u1'', new_account)]\<rparr>"

definition demo_start :: "(oauth_value sstore, unit, demo_side) sess_world" where
  "demo_start = \<lparr>w_redis = ss_empty, w_mutex = (), w_side = (demo_directory, demo_world1)\<rparr>"

definition demo_granted :: "(oauth_value sstore, unit, demo_side) sess_world" where
  "demo_granted = snd (CreateOfflineGrant demo_env 0 (demo_grant ''g1'' ''c1'') demo_start)"

lemma demo_laws [simp]: "session_keys (e_redis demo_env) ss_view ss_hview" "oauth_providers demo_deps"
  "oauth_system demo_env ss_view ss_hview demo_deps"
  by (simp_all add: demo_env_def demo_deps_def ss.session_keys_axioms model.oauth_providers_axioms model.oauth_system_axioms)

lemma demo_no_grants: "no_grants demo_env ss_view t (w_redis demo_start)"
  by (simp add: no_grants_def demo_start_def ss_empty_def ss_view_def)

lemma demo_granted_history: "oauth_history demo_deps demo_env 0 demo_start 0 demo_granted"
proof (rule oauth_history.step [OF oauth_history.start order_refl oauth_call.create])
  show "og_AppID (demo_grant ''g1'' ''c1'') = e_AppID demo_env" by (simp add: demo_grant_def demo_env_def)
  show "CreateOfflineGrant demo_env 0 (demo_grant ''g1'' ''c1'') demo_start =
      (fst (CreateOfflineGrant demo_env 0 (demo_grant ''g1'' ''c1'') demo_start), demo_granted)"
    by (simp add: demo_granted_def)
qed

theorem grants_well_typed_witness:
  "\<exists>g. fst (GetOfflineGrantWithoutExpireAt demo_env 5 ''g1'' demo_granted) = Ok g \<and> og_ID g = ''g1'' \<and> GetAMR (og_Attrs g) = None"
proof -
  have "is_ok (fst (GetOfflineGrantWithoutExpireAt demo_env 5 ''g1'' demo_granted))" by code_simp
  then obtain g where "fst (GetOfflineGrantWithoutExpireAt demo_env 5 ''g1'' demo_granted) = Ok g" using is_okD by blast
  with grants_well_typed [OF demo_laws(1,2) demo_no_grants demo_granted_history, of 5 "''g1''"] show ?thesis by simp
qed

theorem grant_store_refines_table_witness:
  "\<exists>g'. grant_table demo_env ss_view 6 (w_redis (snd (RotateOfflineGrantRefreshToken demo_env 5 ''g1'' ''ht1'' ''ht2'' 100000000000 demo_granted))) ''g1''
     = Some g' \<and> map rt_RotatedTokenHash (og_RefreshTokens g') = [Some ''ht2'']"
proof -
  let ?u = "UpdRotate ''ht1'' ''ht2''"
  let ?p = "run_update demo_env 5 ''g1'' 100000000000 ?u demo_granted"
  have "is_ok (fst ?p)" by code_simp
  then obtain res where r: "?p = (Ok res, snd ?p)" using is_okD by (metis prod.collapse)
  have same: "w_redis (snd ?p) = w_redis (snd (RotateOfflineGrantRefreshToken demo_env 5 ''g1'' ''ht1'' ''ht2'' 100000000000 demo_granted))"
    by (simp add: bindp_def run_simps split: prod.split outcome.split)
  have tab: "map_option (\<lambda>g. (map rt_InitialTokenHash (og_RefreshTokens g), rotate_first ''ht1'' ''ht2'' 5 (og_RefreshTokens g)))
      (grant_table demo_env ss_view 5 (w_redis demo_granted) ''g1'') =
    Some ([''ht1''], Some [(demo_token ''ht1'' ''c1'')\<lparr>rt_RotatedTokenHash := Some ''ht2'', rt_RotatedAt := Some 5\<rparr>])" by code_simp
  have ttl: "(6::int) < 5 + ttl_ms (100000000000 - 5)" by code_simp
  from grant_store_refines_table [OF demo_laws(1,2) demo_no_grants demo_granted_history _ _ r _ ttl] tab
  obtain g where "grant_table demo_env ss_view 6 (w_redis (snd ?p)) ''g1'' =
      Some (stored_grant ((read_grant g)\<lparr>og_RefreshTokens := [(demo_token ''ht1'' ''c1'')\<lparr>rt_RotatedTokenHash := Some ''ht2'', rt_RotatedAt := Some 5\<rparr>]\<rparr>))"
    by auto
  then show ?thesis unfolding same by (simp add: stored_grant_def)
qed

section \<open>Terminating all sessions\<close>

context oauth_keys
begin

lemma list_grants_run:
  assumes "list_grants env now k gids w = (Ok gs, w')" "now \<le> t"
  shows "view t (w_redis w') = view t (w_redis w)"
    and "g \<in> set gs \<Longrightarrow> \<exists>gid \<in> set gids. \<exists>g0. view now (w_redis w) (offlineGrantKey (e_AppID env) gid) = Some (OV_Offline g0) \<and> g = read_grant g0"
proof -
  have "view t (w_redis w') = view t (w_redis w) \<and> (\<forall>g \<in> set gs. \<exists>gid \<in> set gids. \<exists>g0.
      view now (w_redis w) (offlineGrantKey (e_AppID env) gid) = Some (OV_Offline g0) \<and> g = read_grant g0)"
    if "list_grants env now k gids w = (Ok gs, w')" "now \<le> t" for t
    using that
  proof (induction gids arbitrary: gs w)
    case Nil
    then show ?case by (simp add: run_simps)
  next
    case (Cons gid gids)
    obtain res w1 where l: "loadData env now (offlineGrantKey (e_AppID env) gid) w = (res, w1)" by fastforce
    have w1: "w1 = w" using loadData_run(1) [OF l] .
    show ?case
    proof (cases res)
      case (Err e)
      with Cons.prems l w1 obtain u w2 where e: "e = ErrGrantNotFound"
        and h: "ignore_err (rcall '''' (s_HDEL (e_redis env) now k gid)) w = (Ok u, w2)"
        and rest: "list_grants env now k gids w2 = (Ok gs, w')"
        by (auto simp: bindp_Ok attempt_def run_simps split: sess_error.splits)
      obtain r w3 where hd: "rcall '''' (s_HDEL (e_redis env) now k gid) w = (r, w3)" by fastforce
      have "w2 = w3" using h hd by (cases r) (auto simp: ignore_err_def bindp_def attempt_def run_simps)
      then have v: "view t' (w_redis w2) = view t' (w_redis w)" if "now \<le> t'" for t' using HDEL_view [OF hd that] by simp
      from Cons.IH [OF rest Cons.prems(2)] v [OF Cons.prems(2)] v [OF order_refl] show ?thesis by auto
    next
      case (Ok data)
      have d: "view now (w_redis w) (offlineGrantKey (e_AppID env) gid) = Some data" using loadData_run(2) [OF l Ok] .
      from Cons.prems(1) l w1 Ok obtain g gs' where g: "unmarshalOfflineGrant data = Inr g" "gs = g # gs'"
        and rest: "list_grants env now k gids w = (Ok gs', w')"
        by (auto simp: bindp_Ok attempt_def run_simps split: sum.splits)
      from g(1) obtain g0 where "data = OV_Offline g0" "g = read_grant g0" by (auto simp: unmarshalOfflineGrant_Inr)
      with Cons.IH [OF rest Cons.prems(2)] d g(2) show ?thesis by auto
    next
      case Panic
      with loadData_run(4) [OF l] show ?thesis by simp
    qed
  qed
  from this [OF assms] show "view t (w_redis w') = view t (w_redis w)"
    "g \<in> set gs \<Longrightarrow> \<exists>gid \<in> set gids. \<exists>g0. view now (w_redis w) (offlineGrantKey (e_AppID env) gid) = Some (OV_Offline g0) \<and> g = read_grant g0"
    by blast+
qed

lemma ListOfflineGrants_run:
  assumes "ListOfflineGrants env now user w = (Ok gs, w')"
  shows "now \<le> t \<Longrightarrow> view t (w_redis w') = view t (w_redis w)"
    and "grants_ok env view now (w_redis w) \<Longrightarrow> g \<in> set gs \<Longrightarrow> og_AppID g = e_AppID env \<and>
      (\<exists>g0. grant_table env view now (w_redis w) (og_ID g) = Some g0 \<and> g = read_grant g0)"
proof -
  let ?k = "offlineGrantListKey (e_AppID env) user"
  from assms obtain l w1 gs0 where h: "rcall '''' (s_HGETALL (e_redis env) now ?k) w = (Ok l, w1)"
    and lg: "list_grants env now ?k (map fst l) w1 = (Ok gs0, w')" and gs: "gs = sort_key og_ID gs0"
    by (auto simp: ListOfflineGrants_def Let_def bindp_Ok run_simps)
  obtain a r where ga: "s_HGETALL (e_redis env) now ?k (w_redis w) = (a, r)" by fastforce
  have w1: "w_redis w1 = w_redis w" using HGETALL [OF ga] h ga by (auto simp: rcall_run split: sum.splits)
  show "now \<le> t \<Longrightarrow> view t (w_redis w') = view t (w_redis w)" using list_grants_run(1) [OF lg] w1 by simp
  assume ok: "grants_ok env view now (w_redis w)" and g: "g \<in> set gs"
  then have "g \<in> set gs0" using gs by simp
  from list_grants_run(2) [OF lg order_refl this] w1 obtain gid g0 where
    v: "view now (w_redis w) (offlineGrantKey (e_AppID env) gid) = Some (OV_Offline g0)" "g = read_grant g0" by auto
  obtain g1 where "OV_Offline g0 = OV_Offline g1" "og_ID g1 = gid" "og_AppID g1 = e_AppID env"
    by (rule grants_okD [OF ok order_refl v(1)])
  with v show "og_AppID g = e_AppID env \<and> (\<exists>g0. grant_table env view now (w_redis w) (og_ID g) = Some g0 \<and> g = read_grant g0)"
    by (auto simp: grant_table_def)
qed

lemma DeleteOfflineGrant_table:
  assumes "DeleteOfflineGrant env now g w = (Ok (), w')" "og_AppID g = e_AppID env" "now \<le> t"
  shows "grant_table env view t (w_redis w') = (grant_table env view t (w_redis w))(og_ID g := None)"
  using DeleteOfflineGrant_run [OF assms(1,3)] assms(2) by (auto simp: grant_table_def fun_eq_iff)

end

text \<open>The grants \<^verbatim>\<open>TerminateAllExcept\<close> goes through.\<close>

definition outside_group :: "session_base option \<Rightarrow> OfflineGrant \<Rightarrow> bool" where
  "outside_group currentSession g = (case currentSession of Some cur \<Rightarrow> \<not> Grant_IsSameSSOGroup g cur | None \<Rightarrow> True)"


context oauth_keys
begin

lemma terminate_all:
  assumes "OAuthManager_terminate deps env now ids cur gs w = (Ok ds, w')"
    and "\<And>g. g \<in> set gs \<Longrightarrow> og_AppID g = e_AppID env" "\<And>g. g \<in> set gs \<Longrightarrow> og_Deprecated_AuthorizationID g \<notin> set ids"
  shows "ds = filter (outside_group cur) gs"
    and "grant_table env view now (w_redis w') gid = (if gid \<in> og_ID ` set ds then None else grant_table env view now (w_redis w) gid)"
proof -
  have "ds = filter (outside_group cur) gs \<and> grant_table env view now (w_redis w') gid =
      (if gid \<in> og_ID ` set ds then None else grant_table env view now (w_redis w) gid)"
    using assms
  proof (induction gs arbitrary: ds w)
    case Nil
    then show ?case by (simp add: run_simps)
  next
    case (Cons g gs)
    have app: "\<And>g. g \<in> set gs \<Longrightarrow> og_AppID g = e_AppID env" and ids: "\<And>g. g \<in> set gs \<Longrightarrow> og_Deprecated_AuthorizationID g \<notin> set ids"
      using Cons.prems by auto
    show ?case
    proof (cases "outside_group cur g")
      case False
      then have "OAuthManager_terminate deps env now ids cur gs w = (Ok ds, w')"
        using Cons.prems(1) by (auto simp: outside_group_def split: option.splits)
      from Cons.IH [OF this app ids] False show ?thesis by simp
    next
      case True
      then obtain w1 ds' where d: "DeleteOfflineGrant env now g w = (Ok (), w1)"
        and r: "OAuthManager_terminate deps env now ids cur gs w1 = (Ok ds', w')" and ds: "ds = g # ds'"
        using Cons.prems(1,3) by (auto simp: outside_group_def OAuthManager_Delete_def bindp_Ok run_simps
            GetAllRemovableInitialTokenHashesExcludeClientIDs_def split: option.splits)
      have "og_AppID g = e_AppID env" using Cons.prems(2) by simp
      from DeleteOfflineGrant_table [OF d this order_refl] Cons.IH [OF r app ids] True ds show ?thesis by auto
    qed
  qed
  then show "ds = filter (outside_group cur) gs"
    "grant_table env view now (w_redis w') gid = (if gid \<in> og_ID ` set ds then None else grant_table env view now (w_redis w) gid)"
    by auto
qed

end

text \<open>Terminating all sessions does not spare third-party refresh tokens: the code compares
  authorization IDs with client IDs, so as long as no authorization has the ID of a third-party client,
  every offline grant of the user outside the current SSO group is deleted from the store, whatever
  its client, and no other grant is.\<close>

theorem third_party_grants_not_spared:
  assumes "session_keys (e_redis env) view hview" "oauth_providers deps" "no_grants env view t0 (w_redis w0)"
    and "oauth_history deps env t0 w0 t w" "t \<le> now" "ListOfflineGrants env now user w = (Ok gs, w1)"
    and "\<And>g. g \<in> set gs \<Longrightarrow> og_Deprecated_AuthorizationID g \<notin> cl_ClientID ` {c \<in> set clients. IsThirdParty (cl_ApplicationType c)}"
    and "OAuthManager_TerminateAllExcept deps env clients now user cur w = (Ok deleted, w')"
  shows "deleted = filter (outside_group cur) gs \<and> (\<forall>gid. grant_table env view now (w_redis w') gid =
    (if gid \<in> og_ID ` set deleted then None else grant_table env view now (w_redis w) gid))"
proof -
  from assms(1,2) have sys: "oauth_system env view hview deps" by (simp add: oauth_system_def oauth_keys_def)
  then have keys: "oauth_keys env view hview" by (simp add: oauth_system_def)
  note ok = oauth_system.history_grants_ok [OF sys assms(4,3,5)]
  let ?ids = "map cl_ClientID (filter (\<lambda>c. IsThirdParty (cl_ApplicationType c)) clients)"
  have t: "OAuthManager_terminate deps env now ?ids cur gs w1 = (Ok deleted, w')"
    using assms(6,8) by (simp add: OAuthManager_TerminateAllExcept_def bindp_def)
  have app: "\<And>g. g \<in> set gs \<Longrightarrow> og_AppID g = e_AppID env"
    using oauth_keys.ListOfflineGrants_run(2) [OF keys assms(6) ok] by blast
  have ids: "\<And>g. g \<in> set gs \<Longrightarrow> og_Deprecated_AuthorizationID g \<notin> set ?ids" using assms(7) by auto
  have same: "grant_table env view now (w_redis w1) = grant_table env view now (w_redis w)"
    using oauth_keys.ListOfflineGrants_run(1) [OF keys assms(6) order_refl] by (simp add: grant_table_def fun_eq_iff)
  from oauth_keys.terminate_all [OF keys t app ids] same show ?thesis by simp
qed

section \<open>Housekeeping\<close>

lemma hashes_to_remove_Ok:
  "hashes_to_remove clients now ts = Ok hs \<Longrightarrow>
     hs = map rt_InitialTokenHash (filter (\<lambda>t. removable_token clients now t = Ok True) ts) \<and>
     (\<forall>t \<in> set ts. \<exists>b. removable_token clients now t = Ok b)"
  by (induction ts arbitrary: hs) auto

lemma filter_hashes:
  assumes "distinct (map h (x # xs))"
  shows "filter (\<lambda>t. h t \<notin> set (map h (filter P xs))) (x # xs) = x # filter (\<lambda>t. \<not> P t) xs"
proof -
  have "h x \<notin> set (map h (filter P xs))" using assms by auto
  moreover have "h t \<in> set (map h (filter P xs)) \<longleftrightarrow> P t" if "t \<in> set xs" for t
    using assms that by (auto simp: distinct_map dest: inj_onD)
  ultimately show ?thesis by (auto cong: filter_cong)
qed

text \<open>Housekeeping keeps the root token of a grant and, of the others, exactly those that are not
  over: whose own expiry has not passed, whose client still exists, and whose lifetime and idle
  timeout for that client have not passed.\<close>

theorem housekeeping_removes_exactly_expired:
  assumes "session_keys (e_redis env) view hview" "oauth_providers deps" "no_grants env view t0 (w_redis w0)"
    and "oauth_history deps env t0 w0 t w" "t \<le> now"
    and "grant_table env view now (w_redis w) gid = Some g0" "og_ID g = gid" "og_RefreshTokens g = root # others"
    and "og_RefreshTokens g0 = og_RefreshTokens g" "distinct (map rt_InitialTokenHash (og_RefreshTokens g))"
    and "ComputeOfflineGrantExpiry (d_ResolveClient deps) g = Ok e" "now < e"
    and "housekeepOfflineGrant deps env now g w = (Ok res, w')"
  shows "\<exists>g'. res = Some g' \<and> og_RefreshTokens g' = root # filter (\<lambda>token. removable_token (d_ResolveClient deps) now token = Ok False) others
    \<and> map_option og_RefreshTokens (grant_table env view now (w_redis w') gid) = Some (og_RefreshTokens g')"
proof -
  from assms(1,2) have sys: "oauth_system env view hview deps" by (simp add: oauth_system_def oauth_keys_def)
  then have keys: "oauth_keys env view hview" by (simp add: oauth_system_def)
  note ok = oauth_system.history_grants_ok [OF sys assms(4,3,5)]
  let ?rm = "\<lambda>t. removable_token (d_ResolveClient deps) now t = Ok True"
  from assms(13) obtain hs where hs: "hashes_to_remove (d_ResolveClient deps) now others = Ok hs"
    and r: "RemoveOfflineGrantRefreshTokens env now gid hs e w = (Ok res, w')"
    using assms(7,8,11) by (cases "hashes_to_remove (d_ResolveClient deps) now others")
      (auto simp: housekeepOfflineGrant_def run_simps)
  note hs' = hashes_to_remove_Ok [OF hs]
  have tokens: "og_RefreshTokens (without_tokens hs (read_grant g0)) = root # filter (\<lambda>t. \<not> ?rm t) others"
    using filter_hashes [of rt_InitialTokenHash root others ?rm] assms(8-10) hs' by (simp add: without_tokens_def)
  also have "filter (\<lambda>t. \<not> ?rm t) others = filter (\<lambda>t. removable_token (d_ResolveClient deps) now t = Ok False) others"
    using hs' by (intro filter_cong) auto
  finally have t2: "og_RefreshTokens (without_tokens hs (read_grant g0)) =
      root # filter (\<lambda>t. removable_token (d_ResolveClient deps) now t = Ok False) others" .
  have valid: "HasValidTokens (without_tokens hs (read_grant g0))" using tokens by (simp add: HasValidTokens_def)
  have ttl: "now < now + ttl_ms (e - now)" using ttl_ms_bounds(1) [of "e - now"] assms(12) by simp
  show ?thesis
    by (rule oauth_keys.remove_run [OF keys ok assms(12) r])
      (use assms(6) t2 valid ttl in \<open>auto simp: stored_grant_def\<close>)
qed

section \<open>The properties on a store, continued\<close>

lemma demo_create_history:
  assumes "oauth_history demo_deps demo_env t0 w0 t w" "t \<le> now" "og_AppID g = ''app''"
  shows "oauth_history demo_deps demo_env t0 w0 now (snd (CreateOfflineGrant demo_env now g w))"
proof (rule oauth_history.step [OF assms(1,2) oauth_call.create])
  show "og_AppID g = e_AppID demo_env" using assms(3) by (simp add: demo_env_def)
  show "CreateOfflineGrant demo_env now g w = (fst (CreateOfflineGrant demo_env now g w), snd (CreateOfflineGrant demo_env now g w))"
    by simp
qed

definition demo_third_party :: "(oauth_value sstore, unit, demo_side) sess_world" where
  "demo_third_party = snd (CreateOfflineGrant demo_env 1 (demo_grant ''g3'' ''c3'') demo_granted)"

theorem third_party_grants_not_spared_witness:
  "let w' = snd (OAuthManager_TerminateAllExcept demo_deps demo_env demo_clients 2 ''u1'' None demo_third_party)
   in grant_table demo_env ss_view 2 (w_redis demo_third_party) ''g3'' \<noteq> None \<and> grant_table demo_env ss_view 2 (w_redis w') ''g3'' = None"
proof -
  let ?l = "ListOfflineGrants demo_env 2 ''u1'' demo_third_party"
  let ?t = "OAuthManager_TerminateAllExcept demo_deps demo_env demo_clients 2 ''u1'' None demo_third_party"
  have h: "oauth_history demo_deps demo_env 0 demo_start 1 demo_third_party"
    unfolding demo_third_party_def by (rule demo_create_history [OF demo_granted_history]) (simp_all add: demo_grant_def)
  have ids: "(case fst ?l of Ok gs \<Rightarrow> map og_ID gs = [''g1'', ''g3''] \<and> map og_Deprecated_AuthorizationID gs = ['''', ''''] | _ \<Rightarrow> False)"
    by code_simp
  then obtain gs where l: "?l = (Ok gs, snd ?l)" and gs: "map og_ID gs = [''g1'', ''g3'']" "map og_Deprecated_AuthorizationID gs = ['''', '''']"
    by (cases ?l) (auto split: outcome.splits)
  have "is_ok (fst ?t)" by code_simp
  then obtain ds where t: "?t = (Ok ds, snd ?t)" using is_okD by (metis prod.collapse)
  have "og_Deprecated_AuthorizationID g = ''''" if "g \<in> set gs" for g
    using that arg_cong [OF gs(2), of set] by auto
  then have none: "og_Deprecated_AuthorizationID g \<notin> cl_ClientID ` {c \<in> set demo_clients. IsThirdParty (cl_ApplicationType c)}"
    if "g \<in> set gs" for g using that by (auto simp: demo_clients_def demo_client_def)
  have le: "(1::int) \<le> 2" by simp
  note r = third_party_grants_not_spared [OF demo_laws(1,2) demo_no_grants h le l none t]
  then have "ds = gs" by (simp add: outside_group_def)
  with r arg_cong [OF gs(1), of set] have "grant_table demo_env ss_view 2 (w_redis (snd ?t)) ''g3'' = None" by auto
  moreover have "grant_table demo_env ss_view 2 (w_redis demo_third_party) ''g3'' \<noteq> None" by code_simp
  ultimately show ?thesis by (simp add: Let_def)
qed

text \<open>A grant with three tokens: the second belongs to a client that no longer exists.\<close>

definition demo_shared :: OfflineGrant where
  "demo_shared = (demo_grant ''g4'' ''c1'')\<lparr>og_RefreshTokens :=
     [demo_token ''ht1'' ''c1'', demo_token ''ht2'' ''gone'', demo_token ''ht3'' ''c3'']\<rparr>"

definition demo_shared_world :: "(oauth_value sstore, unit, demo_side) sess_world" where
  "demo_shared_world = snd (CreateOfflineGrant demo_env 0 demo_shared demo_granted)"

theorem housekeeping_removes_exactly_expired_witness:
  "map_option (\<lambda>g. map rt_InitialTokenHash (og_RefreshTokens g))
     (grant_table demo_env ss_view 1000000000 (w_redis (snd (housekeepOfflineGrant demo_deps demo_env 1000000000 demo_shared demo_shared_world))) ''g4'')
   = Some [''ht1'', ''ht3'']"
proof -
  let ?h = "housekeepOfflineGrant demo_deps demo_env 1000000000 demo_shared demo_shared_world"
  have h: "oauth_history demo_deps demo_env 0 demo_start 0 demo_shared_world"
    unfolding demo_shared_world_def by (rule demo_create_history [OF demo_granted_history]) (simp_all add: demo_shared_def demo_grant_def)
  have ok: "is_ok (fst ?h)" by code_simp
  then obtain res where r: "?h = (Ok res, snd ?h)" using is_okD by (metis prod.collapse)
  have tab: "map_option og_RefreshTokens (grant_table demo_env ss_view 1000000000 (w_redis demo_shared_world) ''g4'') =
      Some (og_RefreshTokens demo_shared)" by code_simp
  then obtain g0 where g0: "grant_table demo_env ss_view 1000000000 (w_redis demo_shared_world) ''g4'' = Some g0"
    "og_RefreshTokens g0 = og_RefreshTokens demo_shared" by auto
  have e: "(case ComputeOfflineGrantExpiry (d_ResolveClient demo_deps) demo_shared of Ok e \<Rightarrow> 1000000000 < e | _ \<Rightarrow> False)"
    by code_simp
  then obtain e where e: "ComputeOfflineGrantExpiry (d_ResolveClient demo_deps) demo_shared = Ok e" "1000000000 < e"
    by (auto split: outcome.splits)
  have keep: "filter (\<lambda>token. removable_token (d_ResolveClient demo_deps) 1000000000 token = Ok False) [demo_token ''ht2'' ''gone'', demo_token ''ht3'' ''c3''] =
      [demo_token ''ht3'' ''c3'']" by code_simp
  have "(0::int) \<le> 1000000000" "og_ID demo_shared = ''g4''" "distinct (map rt_InitialTokenHash (og_RefreshTokens demo_shared))"
    "og_RefreshTokens demo_shared = demo_token ''ht1'' ''c1'' # [demo_token ''ht2'' ''gone'', demo_token ''ht3'' ''c3'']"
    by (simp_all add: demo_shared_def demo_grant_def demo_token_def)
  from housekeeping_removes_exactly_expired [OF demo_laws(1,2) demo_no_grants h this(1) g0(1) this(2,4) g0(2) this(3) e r] keep
  show ?thesis by (auto simp: demo_token_def)
qed

end
