(* ===== verification/SessionManager.thy ===== *)
theory SessionManager imports OfflineGrant "HOL-Library.Product_Lexorder" begin

text \<open>
  Sessions of both kinds together: \<^verbatim>\<open>manager.go\<close> of \<^verbatim>\<open>pkg/lib/session\<close>, over the two management
  services it is given, the identity provider's and the OAuth one.
\<close>

section \<open>Sessions\<close>

datatype listable_session = LIdp IDPSession | LOffline OfflineGrant

definition ls_base :: "listable_session \<Rightarrow> session_base" where
  "ls_base s = (case s of LIdp i \<Rightarrow> idp_base i | LOffline g \<Rightarrow> og_base g)"

definition ls_CreatedAt :: "listable_session \<Rightarrow> time" where
  "ls_CreatedAt s = (case s of LIdp i \<Rightarrow> CreatedAt i | LOffline g \<Rightarrow> og_CreatedAt g)"

definition ls_IsSameSSOGroup :: "listable_session \<Rightarrow> session_base \<Rightarrow> bool" where
  "ls_IsSameSSOGroup s ss = (case s of LIdp i \<Rightarrow> Idp_IsSameSSOGroup i ss | LOffline g \<Rightarrow> Grant_IsSameSSOGroup g ss)"

text \<open>The payloads carry the API models of the sessions; here, the sessions they are made from.\<close>

datatype termination_type = TerminationIndividual | TerminationAll | TerminationAllExceptCurrent

datatype session_event =
    UserSessionTerminated string "listable_session list" bool termination_type
  | UserSignedOut string "listable_session list" bool

record ('r, 'm, 'x) management_service =
  ms_ClearCookie :: "string list"
  ms_Get :: "time \<Rightarrow> string \<Rightarrow> ('r, 'm, 'x, listable_session) sess_proc"
  ms_Delete :: "time \<Rightarrow> listable_session \<Rightarrow> ('r, 'm, 'x, unit) sess_proc"
  ms_List :: "time \<Rightarrow> string \<Rightarrow> ('r, 'm, 'x, listable_session list) sess_proc"
  ms_TerminateAllExcept :: "time \<Rightarrow> string \<Rightarrow> session_base option \<Rightarrow> ('r, 'm, 'x, listable_session list) sess_proc"

record ('r, 'm, 'x) session_manager =
  IDPSessions :: "('r, 'm, 'x) management_service"
  AccessTokenSessions :: "('r, 'm, 'x) management_service"
  Events_Dispatch :: "session_event \<Rightarrow> ('r, 'm, 'x, unit) sess_proc"

section \<open>The manager\<close>

record revokeEventOption =
  opt_IsAdminAPI :: bool
  opt_IsTermination :: bool

definition resolveManagementProvider ::
    "('r, 'm, 'x) session_manager \<Rightarrow> listable_session \<Rightarrow> ('r, 'm, 'x) management_service" where
  "resolveManagementProvider m session = (case SessionType (ls_base session) of
     TypeIdentityProvider \<Rightarrow> IDPSessions m | TypeOfflineGrant \<Rightarrow> AccessTokenSessions m)"

definition Manager_List ::
    "('r, 'm, 'x) session_manager \<Rightarrow> time \<Rightarrow> string \<Rightarrow> ('r, 'm, 'x, listable_session list) sess_proc" where
  "Manager_List m now userID =
     bindp (ms_List (IDPSessions m) now userID) (\<lambda>idpSessions.
     bindp (ms_List (AccessTokenSessions m) now userID) (\<lambda>accessGrantSessions.
     ret (sort_key ls_CreatedAt (idpSessions @ accessGrantSessions))))"

definition Manager_Get ::
    "('r, 'm, 'x) session_manager \<Rightarrow> time \<Rightarrow> string \<Rightarrow> ('r, 'm, 'x, listable_session) sess_proc" where
  "Manager_Get m now sid =
     bindp (attempt (ms_Get (IDPSessions m) now sid)) (\<lambda>res. case res of
       Inr session \<Rightarrow> ret session
     | Inl ErrSessionNotFound \<Rightarrow> bindp (attempt (ms_Get (AccessTokenSessions m) now sid)) (\<lambda>res. case res of
         Inr session \<Rightarrow> ret session
       | Inl ErrSessionNotFound \<Rightarrow> failp ErrSessionNotFound
       | Inl e \<Rightarrow> failp e)
     | Inl e \<Rightarrow> failp e)"

definition invalidateSession ::
    "('r, 'm, 'x) session_manager \<Rightarrow> time \<Rightarrow> listable_session \<Rightarrow> ('r, 'm, 'x, ('r, 'm, 'x) management_service) sess_proc" where
  "invalidateSession m now session = (let provider = resolveManagementProvider m session
   in bindp (ms_Delete provider now session) (\<lambda>_. ret provider))"

text \<open>The loop: the sessions of the group are deleted; the provider is the one of the session itself.\<close>

fun invalidate_all ::
    "('r, 'm, 'x) session_manager \<Rightarrow> time \<Rightarrow> session_base \<Rightarrow> ('r, 'm, 'x) management_service option \<Rightarrow> listable_session list
     \<Rightarrow> ('r, 'm, 'x, listable_session list \<times> ('r, 'm, 'x) management_service option) sess_proc" where
  "invalidate_all m now session provider [] = ret ([], provider)"
| "invalidate_all m now session provider (s # sessions) =
     (if ls_IsSameSSOGroup s session
      then bindp (invalidateSession m now s) (\<lambda>p.
        bindp (invalidate_all m now session (if EqualSession (ls_base s) session then Some p else provider) sessions) (\<lambda>rest.
        ret (s # fst rest, snd rest)))
      else invalidate_all m now session provider sessions)"

definition invalidate ::
    "('r, 'm, 'x) session_manager \<Rightarrow> time \<Rightarrow> session_base \<Rightarrow> revokeEventOption option
     \<Rightarrow> ('r, 'm, 'x, listable_session list \<times> ('r, 'm, 'x) management_service option) sess_proc" where
  "invalidate m now session option =
     bindp (Manager_List m now (base_UserID session)) (\<lambda>sessions. let
       sessions = sort_key (\<lambda>s. (SessionType (ls_base s) = TypeIdentityProvider, ls_CreatedAt s)) sessions
     in bindp (invalidate_all m now session None sessions) (\<lambda>(invalidatedSessions, provider).
        case option of
          None \<Rightarrow> ret (invalidatedSessions, provider)
        | Some opt \<Rightarrow>
            if length invalidatedSessions > 0
            then bindp (Events_Dispatch m
                (if opt_IsTermination opt
                 then UserSessionTerminated (base_UserID session) invalidatedSessions (opt_IsAdminAPI opt) TerminationIndividual
                 else UserSignedOut (base_UserID session) invalidatedSessions (opt_IsAdminAPI opt))) (\<lambda>_.
              ret (invalidatedSessions, provider))
            else ret (invalidatedSessions, provider)))"

text \<open>\<^verbatim>\<open>Logout\<close> gives the sessions and the cookies to clear. A nil provider panics.\<close>

definition Logout ::
    "('r, 'm, 'x) session_manager \<Rightarrow> time \<Rightarrow> session_base \<Rightarrow> ('r, 'm, 'x, listable_session list \<times> string list) sess_proc" where
  "Logout m now session =
     bindp (invalidate m now session (Some \<lparr>opt_IsAdminAPI = False, opt_IsTermination = False\<rparr>)) (\<lambda>(invalidatedSessions, provider).
     case provider of None \<Rightarrow> panicp | Some p \<Rightarrow> ret (invalidatedSessions, ms_ClearCookie p))"

definition RevokeWithEvent ::
    "('r, 'm, 'x) session_manager \<Rightarrow> time \<Rightarrow> session_base \<Rightarrow> bool \<Rightarrow> bool \<Rightarrow> ('r, 'm, 'x, unit) sess_proc" where
  "RevokeWithEvent m now session isTermination isAdminAPI =
     bindp (invalidate m now session (Some \<lparr>opt_IsAdminAPI = isAdminAPI, opt_IsTermination = isTermination\<rparr>)) (\<lambda>_. ret ())"

definition RevokeWithoutEvent ::
    "('r, 'm, 'x) session_manager \<Rightarrow> time \<Rightarrow> session_base \<Rightarrow> ('r, 'm, 'x, unit) sess_proc" where
  "RevokeWithoutEvent m now session = bindp (invalidate m now session None) (\<lambda>_. ret ())"

definition Manager_TerminateAllExcept ::
    "('r, 'm, 'x) session_manager \<Rightarrow> time \<Rightarrow> string \<Rightarrow> session_base option \<Rightarrow> bool \<Rightarrow> ('r, 'm, 'x, unit) sess_proc" where
  "Manager_TerminateAllExcept m now userID currentSession isAdminAPI =
     bindp (ms_TerminateAllExcept (IDPSessions m) now userID currentSession) (\<lambda>idpSessions.
     bindp (ms_TerminateAllExcept (AccessTokenSessions m) now userID currentSession) (\<lambda>accessGrantSessions.
     let sessions = idpSessions @ accessGrantSessions;
       typ = (if currentSession = None then TerminationAll else TerminationAllExceptCurrent)
     in if length sessions > 0
        then Events_Dispatch m (UserSessionTerminated userID sessions isAdminAPI typ)
        else ret ()))"

section \<open>The two services\<close>

definition idp_service ::
    "('ri, 'mi, 'xi) idp_env \<Rightarrow> ('r, 'm, ('ri, 'mi, 'xi, 'y) with_idp) management_service" where
  "idp_service env = \<lparr>ms_ClearCookie = [''session'', ''same_site_strict''],
     ms_Get = (\<lambda>now sid. bindp (on_idp (IdpManager_Get env now sid)) (\<lambda>s. ret (LIdp s))),
     ms_Delete = (\<lambda>now s. case s of LIdp i \<Rightarrow> on_idp (IdpManager_Delete env now i) | LOffline _ \<Rightarrow> panicp),
     ms_List = (\<lambda>now user. bindp (on_idp (IdpManager_List env now user)) (\<lambda>ss. ret (map LIdp ss))),
     ms_TerminateAllExcept = (\<lambda>now user cur.
       bindp (on_idp (IdpManager_TerminateAllExcept env now user cur)) (\<lambda>ss. ret (map LIdp ss)))\<rparr>"

definition oauth_service ::
    "('r, 'm, 'x) oauth_deps \<Rightarrow> ('r, 'm, 'x) oauth_env \<Rightarrow> OAuthClientConfig list \<Rightarrow> ('r, 'm, 'x) management_service" where
  "oauth_service deps env clients = \<lparr>ms_ClearCookie = [],
     ms_Get = (\<lambda>now gid. bindp (OAuthManager_Get env now gid) (\<lambda>g. ret (LOffline g))),
     ms_Delete = (\<lambda>now s. case s of LOffline g \<Rightarrow> OAuthManager_Delete env now g | LIdp _ \<Rightarrow> panicp),
     ms_List = (\<lambda>now user. bindp (OAuthManager_List env now user) (\<lambda>gs. ret (map LOffline gs))),
     ms_TerminateAllExcept = (\<lambda>now user cur.
       bindp (OAuthManager_TerminateAllExcept deps env clients now user cur) (\<lambda>gs. ret (map LOffline gs)))\<rparr>"

section \<open>What a management service promises\<close>

text \<open>
  \<open>held w ty i\<close>: whether a session of that type is stored under the ID. A service deletes the session
  it is given and no other; listing gives sessions of its type and deletes nothing.
\<close>

locale session_holder =
  fixes svc :: "('r, 'm, 'x) management_service"
    and sty :: session_type
    and now :: time
    and held :: "('r, 'm, 'x) sess_world \<Rightarrow> session_type \<Rightarrow> string \<Rightarrow> bool"
    and own :: "listable_session \<Rightarrow> bool"
    and inv :: "('r, 'm, 'x) sess_world \<Rightarrow> bool"
  assumes list: "inv w \<Longrightarrow> ms_List svc now user w = (Ok l, w') \<Longrightarrow>
      held w' = held w \<and> inv w' \<and> (\<forall>s \<in> set l. SessionType (ls_base s) = sty \<and> own s)"
    and delete: "inv w \<Longrightarrow> SessionType (ls_base s) = sty \<Longrightarrow> own s \<Longrightarrow> ms_Delete svc now s w = (Ok (), w') \<Longrightarrow>
      inv w' \<and> held w' = (\<lambda>ty i. if ty = sty \<and> i = SessionID (ls_base s) then False else held w ty i)"

locale session_pair =
  idp: session_holder "IDPSessions m" TypeIdentityProvider now held own inv +
  oauth: session_holder "AccessTokenSessions m" TypeOfflineGrant now held own inv
  for m :: "('r, 'm, 'x) session_manager"
    and now :: time
    and held :: "('r, 'm, 'x) sess_world \<Rightarrow> session_type \<Rightarrow> string \<Rightarrow> bool"
    and own :: "listable_session \<Rightarrow> bool"
    and inv :: "('r, 'm, 'x) sess_world \<Rightarrow> bool" +
  assumes dispatch: "Events_Dispatch m ev w = (res, w') \<Longrightarrow> held w' = held w"
begin

lemma Manager_List_run:
  assumes "inv w" "Manager_List m now user w = (Ok l, w')"
  shows "held w' = held w" "inv w'" "s \<in> set l \<Longrightarrow> own s"
proof -
  from assms(2) obtain l1 w1 l2 where l: "ms_List (IDPSessions m) now user w = (Ok l1, w1)"
    "ms_List (AccessTokenSessions m) now user w1 = (Ok l2, w')" "set l = set l1 \<union> set l2"
    by (auto simp: Manager_List_def bindp_Ok run_simps)
  from idp.list [OF assms(1) l(1)] oauth.list [OF _ l(2)] l(3)
  show "held w' = held w" "inv w'" "s \<in> set l \<Longrightarrow> own s" by auto
qed

lemma invalidateSession_run:
  assumes "inv w" "own s" "invalidateSession m now s w = (Ok p, w')"
  shows "inv w'" "held w' = (\<lambda>ty i. if ty = SessionType (ls_base s) \<and> i = SessionID (ls_base s) then False else held w ty i)"
    "p = resolveManagementProvider m s"
proof -
  from assms(3) have d: "ms_Delete (resolveManagementProvider m s) now s w = (Ok (), w')" "p = resolveManagementProvider m s"
    by (auto simp: invalidateSession_def Let_def bindp_Ok run_simps)
  have "inv w' \<and> held w' = (\<lambda>ty i. if ty = SessionType (ls_base s) \<and> i = SessionID (ls_base s) then False else held w ty i)"
  proof (cases "SessionType (ls_base s)")
    case TypeIdentityProvider
    with d(1) idp.delete [OF assms(1) TypeIdentityProvider assms(2)] show ?thesis by (simp add: resolveManagementProvider_def)
  next
    case TypeOfflineGrant
    with d(1) oauth.delete [OF assms(1) TypeOfflineGrant assms(2)] show ?thesis by (simp add: resolveManagementProvider_def)
  qed
  with d(2) show "inv w'" "held w' = (\<lambda>ty i. if ty = SessionType (ls_base s) \<and> i = SessionID (ls_base s) then False else held w ty i)"
    "p = resolveManagementProvider m s" by auto
qed

lemma invalidate_all_run:
  assumes "invalidate_all m now session p0 ss w = (Ok (ds, p), w')" "inv w" "\<And>s. s \<in> set ss \<Longrightarrow> own s"
  shows "ds = filter (\<lambda>s. ls_IsSameSSOGroup s session) ss"
    and "held w' ty i = (if (ty, i) \<in> (\<lambda>s. (SessionType (ls_base s), SessionID (ls_base s))) ` set ds then False else held w ty i)"
proof -
  have "ds = filter (\<lambda>s. ls_IsSameSSOGroup s session) ss \<and> held w' ty i =
      (if (ty, i) \<in> (\<lambda>s. (SessionType (ls_base s), SessionID (ls_base s))) ` set ds then False else held w ty i)"
    using assms
  proof (induction ss arbitrary: p0 ds w)
    case Nil
    then show ?case by (simp add: run_simps)
  next
    case (Cons s ss)
    have own: "\<And>s. s \<in> set ss \<Longrightarrow> own s" "own s" using Cons.prems(3) by auto
    show ?case
    proof (cases "ls_IsSameSSOGroup s session")
      case False
      with Cons.prems(1) have "invalidate_all m now session p0 ss w = (Ok (ds, p), w')" by simp
      from Cons.IH [OF this Cons.prems(2) own(1)] False show ?thesis by simp
    next
      case True
      with Cons.prems(1) obtain q w1 p1 ds' where i: "invalidateSession m now s w = (Ok q, w1)"
        and r: "invalidate_all m now session p1 ss w1 = (Ok (ds', p), w')" and ds: "ds = s # ds'"
        by (auto simp: bindp_Ok run_simps split: if_splits)
      note run = invalidateSession_run [OF Cons.prems(2) own(2) i]
      from Cons.IH [OF r run(1) own(1)] run(2) True ds show ?thesis by auto
    qed
  qed
  then show "ds = filter (\<lambda>s. ls_IsSameSSOGroup s session) ss"
    "held w' ty i = (if (ty, i) \<in> (\<lambda>s. (SessionType (ls_base s), SessionID (ls_base s))) ` set ds then False else held w ty i)"
    by auto
qed

lemma invalidate_run:
  assumes "invalidate m now session option w = (Ok (ds, p), w')" "inv w"
  obtains listed w1 where "Manager_List m now (base_UserID session) w = (Ok listed, w1)"
    "set ds = {s \<in> set listed. ls_IsSameSSOGroup s session}"
    "\<And>ty i. held w' ty i = (if (ty, i) \<in> (\<lambda>s. (SessionType (ls_base s), SessionID (ls_base s))) ` set ds then False else held w ty i)"
proof -
  let ?sort = "sort_key (\<lambda>s. (SessionType (ls_base s) = TypeIdentityProvider, ls_CreatedAt s))"
  from assms(1) obtain listed w1 w2 ds0 p0 where l: "Manager_List m now (base_UserID session) w = (Ok listed, w1)"
    and i: "invalidate_all m now session None (?sort listed) w1 = (Ok (ds0, p0), w2)"
    and e: "(case option of None \<Rightarrow> ret (ds0, p0)
      | Some opt \<Rightarrow> if length ds0 > 0
          then bindp (Events_Dispatch m (if opt_IsTermination opt
               then UserSessionTerminated (base_UserID session) ds0 (opt_IsAdminAPI opt) TerminationIndividual
               else UserSignedOut (base_UserID session) ds0 (opt_IsAdminAPI opt))) (\<lambda>_. ret (ds0, p0))
          else ret (ds0, p0)) w2 = (Ok (ds, p), w')"
    unfolding invalidate_def Let_def bindp_Ok by (auto split: prod.splits)
  have e: "ds0 = ds \<and> (w' = w2 \<or> (\<exists>ev u. Events_Dispatch m ev w2 = (Ok u, w')))"
  proof (cases option)
    case None
    with e show ?thesis by (simp add: run_simps)
  next
    case (Some opt)
    show ?thesis
    proof (cases "length ds0 > 0")
      case True
      with e Some show ?thesis by (auto simp: bindp_Ok run_simps)
    next
      case False
      with e Some show ?thesis by (simp add: run_simps)
    qed
  qed
  note l' = Manager_List_run [OF assms(2) l]
  have own: "\<And>s. s \<in> set (?sort listed) \<Longrightarrow> own s" using l'(3) by simp
  note i' = invalidate_all_run [OF i l'(2) own]
  from e dispatch have "held w' = held w2" by auto
  with that [OF l] i' l'(1) e show thesis by auto
qed

end

text \<open>The store's calls leave the side component alone.\<close>

definition keeps_side :: "('r, 'm, 'x, 'a) sess_proc \<Rightarrow> bool" where
  "keeps_side = keeps (\<lambda>w w'. w_side w' = w_side w)"

lemma keeps_side_bindp: "keeps_side p \<Longrightarrow> (\<And>x. keeps_side (f x)) \<Longrightarrow> keeps_side (bindp p f)"
  unfolding keeps_side_def by (rule keeps_bindp) (simp_all add: transp_def)

lemma keeps_side_basic: "keeps_side (ret x)" "keeps_side (failp e)" "keeps_side panicp" "keeps_side (rcmd c)"
  by (simp_all add: keeps_side_def keeps_def run_simps rcmd_run)

lemma keeps_side_rcall: "keeps_side (rcall msg c)"
  by (simp add: keeps_side_def keeps_def rcall_run)

lemma keeps_side_attempt: "keeps_side p \<Longrightarrow> keeps_side (attempt p)"
  unfolding keeps_side_def by (rule keeps_attempt)

lemma keeps_side_ignore_err: "keeps_side p \<Longrightarrow> keeps_side (ignore_err p)"
  unfolding ignore_err_def by (intro keeps_side_bindp keeps_side_attempt keeps_side_basic)

lemmas keeps_side_intros = keeps_side_bindp keeps_side_basic keeps_side_rcall keeps_side_attempt keeps_side_ignore_err

lemma keeps_sideD: "keeps_side p \<Longrightarrow> p w = (res, w') \<Longrightarrow> w_side w' = w_side w"
  unfolding keeps_side_def by (rule keepsD)

lemma keeps_side_loadData: "keeps_side (loadData env now key)"
  unfolding loadData_def by (auto intro!: keeps_side_intros split: sum.split redis_err.split)

lemma keeps_side_list_grants: "keeps_side (list_grants env now k gids)"
  by (induction gids)
     (auto intro!: keeps_side_intros keeps_side_loadData split: sum.split sess_error.split)

lemma keeps_side_store: "keeps_side (ListOfflineGrants env now user)" "keeps_side (DeleteOfflineGrant env now g)"
  unfolding ListOfflineGrants_def DeleteOfflineGrant_def del_def Let_def
  by (intro keeps_side_intros keeps_side_list_grants)+

section \<open>The services of the model\<close>
definition sessions_held ::
    "('r, 'm, 'x) oauth_env \<Rightarrow> (time \<Rightarrow> 'r \<Rightarrow> string \<Rightarrow> oauth_value option)
     \<Rightarrow> ('ri, 'mi, 'xi) idp_env \<Rightarrow> (time \<Rightarrow> 'ri \<Rightarrow> string \<Rightarrow> idp_value option) \<Rightarrow> time
     \<Rightarrow> ('r, 'm, ('ri, 'mi, 'xi, 'y) with_idp) sess_world \<Rightarrow> session_type \<Rightarrow> string \<Rightarrow> bool" where
  "sessions_held env view ienv iview now w typ i = (case typ of
     TypeIdentityProvider \<Rightarrow> iview now (w_redis (snd (w_side w))) (sessionKey (e_AppID ienv) i) \<noteq> None
   | TypeOfflineGrant \<Rightarrow> view now (w_redis w) (offlineGrantKey (e_AppID env) i) \<noteq> None)"

definition session_own :: "string \<Rightarrow> listable_session \<Rightarrow> bool" where
  "session_own app s = (case s of LIdp _ \<Rightarrow> True | LOffline g \<Rightarrow> og_AppID g = app)"

definition quiet_events :: "('r, 'm, 'x) session_manager \<Rightarrow> bool" where
  "quiet_events m \<longleftrightarrow> (\<forall>ev w. snd (Events_Dispatch m ev w) = w)"

context idp_keys
begin

lemma HDEL_keeps_view:
  assumes "rcall msg (s_HDEL (e_redis env) now k f) w = (res, w')" "now \<le> t"
  shows "view t (w_redis w') = view t (w_redis w)"
  using assms HDEL by (auto simp: rcall_run) (metis prod.collapse)

lemma list_keys_view:
  assumes "IdpStore_list_keys env now lk keys w = (res, w')" "now \<le> t"
  shows "view t (w_redis w') = view t (w_redis w)"
proof -
  have "keeps_redis (\<lambda>r. view t r = v) (IdpStore_list_keys env now lk keys)" for v
  proof (induction keys)
    case (Cons key keys)
    have get: "keeps_redis (\<lambda>r. view t r = v) (rcmd (s_GET (e_redis env) now key))" for key
      by (rule keeps_redis_rcmd, rule keeps_cmdI) (use GET in blast)
    have hdel: "keeps_redis (\<lambda>r. view t r = v) (rcall msg (s_HDEL (e_redis env) now lk key))" for key msg
      by (rule keeps_redis_rcall, rule keeps_cmdI) (use HDEL assms(2) in auto)
    show ?case by (auto intro!: keeps_redis_intros get hdel Cons split: sum.split redis_err.split option.split)
  qed (simp add: keeps_redis_intros)
  from keeps_redisD [OF this assms(1)] show ?thesis by simp
qed

lemma List_view:
  assumes "IdpStore_List env now user w = (res, w')" "now \<le> t"
  shows "view t (w_redis w') = view t (w_redis w)"
proof -
  have hg: "keeps_redis (\<lambda>r. view t r = v) (rcall msg (s_HGETALL (e_redis env) now k))" for v k msg
    by (rule keeps_redis_rcall, rule keeps_cmdI) (use HGETALL in blast)
  have lk: "keeps_redis (\<lambda>r. view t r = v) (IdpStore_list_keys env now lk keys)" for v lk keys
    unfolding keeps_redis_def keeps_def using list_keys_view [OF _ assms(2)] by (metis prod.collapse)
  have "keeps_redis (\<lambda>r. view t r = v) (IdpStore_List env now user)" for v
    unfolding IdpStore_List_def Let_def by (auto intro!: keeps_redis_intros hg lk)
  from keeps_redisD [OF this assms(1)] show ?thesis by simp
qed

lemma Delete_view:
  assumes "IdpStore_Delete env now s w = (Ok (), w')" "now \<le> t"
  shows "view t (w_redis w') k = (if k = sessionKey (e_AppID env) (ID s) then None else view t (w_redis w) k)"
proof -
  let ?k = "sessionKey (e_AppID env) (ID s)" and ?l = "sessionListKey (e_AppID env) (UserID (sess_Attrs s))"
  obtain u r where d: "s_DEL (e_redis env) now ?k (w_redis w) = (u, r)" by fastforce
  obtain u' w2 where h: "rcall '''' (s_HDEL (e_redis env) now ?l ?k) (w\<lparr>w_redis := r\<rparr>) = (u', w2)" by fastforce
  from assms(1) d h have "u = Inr ()" "w' = w2"
    by (auto simp: IdpStore_Delete_def Let_def bindp_def rcall_run ignore_err_def attempt_def run_simps split: sum.splits outcome.splits)
  with DEL [OF d assms(2)] HDEL_keeps_view [OF h assms(2)] show ?thesis by simp
qed

end

lemma on_idp_run: "on_idp p w = (res, w') \<Longrightarrow> \<exists>i. p (snd (w_side w)) = (res, i) \<and> w' = w\<lparr>w_side := (fst (w_side w), i)\<rparr>"
  by (auto simp: on_idp_def split: prod.splits)

lemma model_session_pair:
  assumes "session_keys (e_redis env) view hview" "session_keys (e_redis ienv) iview ihview" "quiet_events m"
    and "IDPSessions m = idp_service ienv" "AccessTokenSessions m = oauth_service deps env clients" "now \<le> t"
  shows "session_pair m now (sessions_held env view ienv iview t) (session_own (e_AppID env))
    (\<lambda>w. grants_ok env view now (w_redis w))"
proof -
  from assms(1,2) have keys: "oauth_keys env view hview" and ikeys: "idp_keys ienv iview ihview"
    by (simp_all add: oauth_keys_def idp_keys_def)
  show ?thesis
  proof (unfold_locales)
    fix w user l w'
    assume ok: "grants_ok env view now (w_redis w)" and l: "ms_List (IDPSessions m) now user w = (Ok l, w')"
    from l assms(4) obtain ss where ss: "on_idp (IdpManager_List ienv now user) w = (Ok ss, w')" "l = map LIdp ss"
      by (auto simp: idp_service_def bindp_Ok run_simps)
    from on_idp_run [OF ss(1)] obtain i where i: "IdpStore_List ienv now user (snd (w_side w)) = (Ok ss, i)"
      "w' = w\<lparr>w_side := (fst (w_side w), i)\<rparr>" by (auto simp: IdpManager_List_def wrapped_Ok)
    from idp_keys.List_view [OF ikeys i(1) assms(6)] i(2) ok ss(2)
    show "sessions_held env view ienv iview t w' = sessions_held env view ienv iview t w \<and>
        grants_ok env view now (w_redis w') \<and> (\<forall>s \<in> set l. SessionType (ls_base s) = TypeIdentityProvider \<and> session_own (e_AppID env) s)"
      by (auto simp: sessions_held_def fun_eq_iff ls_base_def idp_base_def session_own_def split: session_type.split)
  next
    fix w s w'
    assume ok: "grants_ok env view now (w_redis w)" and s: "SessionType (ls_base s) = TypeIdentityProvider"
      and d: "ms_Delete (IDPSessions m) now s w = (Ok (), w')"
    from s obtain j where j: "s = LIdp j" by (cases s) (auto simp: ls_base_def og_base_def)
    from on_idp_run [of "IdpManager_Delete ienv now j"] d assms(4) j obtain i where
      i: "IdpStore_Delete ienv now j (snd (w_side w)) = (Ok (), i)" "w' = w\<lparr>w_side := (fst (w_side w), i)\<rparr>"
      by (fastforce simp: idp_service_def IdpManager_Delete_def wrapped_Ok)
    from idp_keys.Delete_view [OF ikeys i(1) assms(6)] i(2) ok j
    show "grants_ok env view now (w_redis w') \<and> sessions_held env view ienv iview t w' =
        (\<lambda>ty i. if ty = TypeIdentityProvider \<and> i = SessionID (ls_base s) then False else sessions_held env view ienv iview t w ty i)"
      by (auto simp: sessions_held_def fun_eq_iff ls_base_def idp_base_def split: session_type.split)
  next
    fix w user l w'
    assume ok: "grants_ok env view now (w_redis w)" and l: "ms_List (AccessTokenSessions m) now user w = (Ok l, w')"
    from l assms(5) obtain gs where gs: "ListOfflineGrants env now user w = (Ok gs, w')" "l = map LOffline gs"
      by (auto simp: oauth_service_def OAuthManager_List_def bindp_Ok run_simps)
    have side: "w_side w' = w_side w" by (rule keeps_sideD [OF keeps_side_store(1) gs(1)])
    note run = oauth_keys.ListOfflineGrants_run [OF keys gs(1)]
    show "sessions_held env view ienv iview t w' = sessions_held env view ienv iview t w \<and>
        grants_ok env view now (w_redis w') \<and> (\<forall>s \<in> set l. SessionType (ls_base s) = TypeOfflineGrant \<and> session_own (e_AppID env) s)"
      using run(1) [OF assms(6)] run(1) run(2) [OF ok] ok gs(2) side
      by (auto simp: sessions_held_def fun_eq_iff ls_base_def og_base_def session_own_def grants_ok_def split: session_type.split)
  next
    fix w s w'
    assume ok: "grants_ok env view now (w_redis w)" and s: "SessionType (ls_base s) = TypeOfflineGrant"
      and own: "session_own (e_AppID env) s" and d: "ms_Delete (AccessTokenSessions m) now s w = (Ok (), w')"
    from s obtain g where g: "s = LOffline g" by (cases s) (auto simp: ls_base_def idp_base_def)
    from d assms(5) g have del: "DeleteOfflineGrant env now g w = (Ok (), w')" by (simp add: oauth_service_def OAuthManager_Delete_def)
    have side: "w_side w' = w_side w" by (rule keeps_sideD [OF keeps_side_store(2) del])
    have app: "og_AppID g = e_AppID env" using own g by (simp add: session_own_def)
    note run = oauth_keys.DeleteOfflineGrant_run [OF keys del, unfolded app]
    have ok': "grants_ok env view now (w_redis w')" using validD(1) [OF oauth_keys.delete_grant_valid [OF keys] del ok] .
    show "grants_ok env view now (w_redis w') \<and> sessions_held env view ienv iview t w' =
        (\<lambda>ty i. if ty = TypeOfflineGrant \<and> i = SessionID (ls_base s) then False else sessions_held env view ienv iview t w ty i)"
      using run(1) [OF assms(6)] run(2) [OF assms(6)] ok' side g
      by (auto simp: sessions_held_def fun_eq_iff ls_base_def og_base_def split: session_type.split)
  next
    fix ev w res w' assume "Events_Dispatch m ev w = (res, w')"
    then show "sessions_held env view ienv iview t w' = sessions_held env view ienv iview t w"
      using assms(3) unfolding quiet_events_def by (metis snd_conv)
  qed
qed


definition model_env :: "string \<Rightarrow> string \<Rightarrow> string \<Rightarrow> (string \<Rightarrow> string) \<Rightarrow> (oauth_value sstore, unit, demo_side) oauth_env" where
  "model_env = ss_env"

definition model_idp_env :: "string \<Rightarrow> string \<Rightarrow> string \<Rightarrow> (string \<Rightarrow> string) \<Rightarrow> (idp_value sstore, unit, unit) idp_env" where
  "model_idp_env = ss_env"

definition model_manager ::
    "(oauth_value sstore, unit, demo_side) oauth_env \<Rightarrow> (idp_value sstore, unit, unit) idp_env \<Rightarrow> SessionConfig
     \<Rightarrow> OAuthClientConfig list \<Rightarrow> (oauth_value sstore, unit, demo_side) session_manager" where
  "model_manager env ienv cfg clients = \<lparr>IDPSessions = idp_service ienv,
     AccessTokenSessions = oauth_service (model_deps ienv cfg clients) env clients, Events_Dispatch = \<lambda>ev. ret ()\<rparr>"

lemma model_manager_simps [simp]:
  "IDPSessions (model_manager env ienv cfg clients) = idp_service ienv"
  "AccessTokenSessions (model_manager env ienv cfg clients) = oauth_service (model_deps ienv cfg clients) env clients"
  "quiet_events (model_manager env ienv cfg clients)"
  by (simp_all add: model_manager_def quiet_events_def run_simps)

interpretation pair: session_pair
    "model_manager (model_env app ip ua hash) (model_idp_env app ip ua hash) cfg clients" now
    "sessions_held (model_env app ip ua hash) ss_view (model_idp_env app ip ua hash) ss_view (now + int delay)" "session_own app"
    "\<lambda>w. grants_ok (model_env app ip ua hash) ss_view now (w_redis w)"
  for app ip ua hash cfg clients now delay
  using model_session_pair [of "model_env app ip ua hash" ss_view ss_hview "model_idp_env app ip ua hash" ss_view ss_hview
    "model_manager (model_env app ip ua hash) (model_idp_env app ip ua hash) cfg clients"]
  by (simp add: model_env_def model_idp_env_def ss.session_keys_axioms)

lemma invalidate_held:
  assumes "session_keys (e_redis env) view hview" "oauth_providers deps" "no_grants env view t0 (w_redis w0)"
    and "oauth_history deps env t0 w0 t w" "t \<le> now" "now \<le> t'" "session_keys (e_redis ienv) iview ihview"
    and "IDPSessions m = idp_service ienv" "AccessTokenSessions m = oauth_service deps env clients" "quiet_events m"
    and "invalidate m now session option w = (Ok (ended, p), w')"
  obtains listed w1 where "Manager_List m now (base_UserID session) w = (Ok listed, w1)"
    "set ended = {s \<in> set listed. ls_IsSameSSOGroup s session}"
    "\<And>ty i. sessions_held env view ienv iview t' w' ty i =
        (if (ty, i) \<in> (\<lambda>s. (SessionType (ls_base s), SessionID (ls_base s))) ` set ended then False
         else sessions_held env view ienv iview t' w ty i)"
proof -
  from assms(1,2) have sys: "oauth_system env view hview deps" by (simp add: oauth_system_def oauth_keys_def)
  note ok = oauth_system.history_grants_ok [OF sys assms(4,3,5)]
  from model_session_pair [OF assms(1,7,10,8,9,6)] have pair: "session_pair m now (sessions_held env view ienv iview t')
    (session_own (e_AppID env)) (\<lambda>w. grants_ok env view now (w_redis w))" .
  show thesis by (rule session_pair.invalidate_run [OF pair assms(11) ok]) (rule that)
qed

section \<open>Signing out\<close>

text \<open>C2: signing out, or revoking a session, ends exactly its SSO group: when it succeeds, the sessions it
  reports are those of the user's sessions that are in the group of the given one, of both kinds; each
  is gone from its store from then on, and no other session of either kind is.\<close>

theorem sign_out_ends_exactly_the_group:
  assumes "session_keys (e_redis env) view hview" "oauth_providers deps" "no_grants env view t0 (w_redis w0)"
    and "oauth_history deps env t0 w0 t w" "t \<le> now" "now \<le> t'" "session_keys (e_redis ienv) iview ihview"
    and "IDPSessions m = idp_service ienv" "AccessTokenSessions m = oauth_service deps env clients" "quiet_events m"
    and "invalidate m now session option w = (Ok (ended, p), w')"
  shows "\<exists>listed w1. Manager_List m now (base_UserID session) w = (Ok listed, w1)
    \<and> set ended = {s \<in> set listed. ls_IsSameSSOGroup s session}
    \<and> (\<forall>ty i. sessions_held env view ienv iview t' w' ty i =
        (if (ty, i) \<in> (\<lambda>s. (SessionType (ls_base s), SessionID (ls_base s))) ` set ended then False
         else sessions_held env view ienv iview t' w ty i))"
  by (rule invalidate_held [OF assms]) (intro exI conjI allI)

definition demo_manager :: "(oauth_value sstore, unit, demo_side) session_manager" where
  "demo_manager = model_manager demo_env demo_sess_env demo_sess_cfg demo_clients"

definition demo_sso_grant :: OfflineGrant where
  "demo_sso_grant = (demo_grant ''g2'' ''c1'')\<lparr>og_SSOEnabled := True, og_IDPSessionID := ''s1''\<rparr>"

definition demo_sso :: "(oauth_value sstore, unit, demo_side) sess_world" where
  "demo_sso = snd (CreateOfflineGrant demo_env 1 demo_sso_grant demo_granted)"

lemma demo_sso_history: "oauth_history demo_deps demo_env 0 demo_start 1 demo_sso"
  unfolding demo_sso_def by (rule demo_create_history [OF demo_granted_history]) (simp_all add: demo_sso_grant_def demo_grant_def)

theorem sign_out_ends_exactly_the_group_witness:
  "let w' = snd (invalidate demo_manager 2 (idp_base (fst demo_session)) None demo_sso)
   in sessions_held demo_env ss_view demo_sess_env ss_view 2 demo_sso TypeOfflineGrant ''g2''
    \<and> \<not> sessions_held demo_env ss_view demo_sess_env ss_view 2 w' TypeOfflineGrant ''g2''
    \<and> \<not> sessions_held demo_env ss_view demo_sess_env ss_view 2 w' TypeIdentityProvider ''s1''
    \<and> sessions_held demo_env ss_view demo_sess_env ss_view 2 w' TypeOfflineGrant ''g1''"
proof -
  let ?r = "invalidate demo_manager 2 (idp_base (fst demo_session)) None demo_sso"
  let ?id = "\<lambda>s. (SessionType (ls_base s), SessionID (ls_base s))"
  have ids: "(case fst ?r of Ok (ended, _) \<Rightarrow> map ?id ended = [(TypeOfflineGrant, ''g2''), (TypeIdentityProvider, ''s1'')] | _ \<Rightarrow> False)"
    by code_simp
  then obtain ended p where r: "?r = (Ok (ended, p), snd ?r)" and e: "map ?id ended = [(TypeOfflineGrant, ''g2''), (TypeIdentityProvider, ''s1'')]"
    by (cases ?r) (auto split: outcome.splits)
  from arg_cong [OF e, of set] have e': "?id ` set ended = {(TypeOfflineGrant, ''g2''), (TypeIdentityProvider, ''s1'')}" by simp
  have before: "sessions_held demo_env ss_view demo_sess_env ss_view 2 demo_sso TypeOfflineGrant ''g1''"
    "sessions_held demo_env ss_view demo_sess_env ss_view 2 demo_sso TypeOfflineGrant ''g2''" by code_simp+
  have m: "IDPSessions demo_manager = idp_service demo_sess_env"
    "AccessTokenSessions demo_manager = oauth_service demo_deps demo_env demo_clients" "quiet_events demo_manager"
    by (simp_all add: demo_manager_def demo_deps_def)
  from sign_out_ends_exactly_the_group [OF demo_laws(1,2) demo_no_grants demo_sso_history _ order_refl demo_keys_laws m r]
  have "\<And>ty i. sessions_held demo_env ss_view demo_sess_env ss_view 2 (snd ?r) ty i =
      (if (ty, i) \<in> ?id ` set ended then False else sessions_held demo_env ss_view demo_sess_env ss_view 2 demo_sso ty i)"
    by auto
  with e' before show ?thesis by (simp add: Let_def)
qed

end
