(* ===== verification/OAuthResolver.thy ===== *)
theory OAuthResolver imports SessionManager begin

text \<open>
  Which session a request carries: \<^verbatim>\<open>resolver.go\<close>, the session part of \<^verbatim>\<open>scope.go\<close> and
  \<^verbatim>\<open>client_like.go\<close>, \<^verbatim>\<open>token_encoding.go\<close>, \<^verbatim>\<open>dpop.go\<close> of \<^verbatim>\<open>pkg/lib/oauth\<close>, and
  \<^verbatim>\<open>middleware.go\<close> of \<^verbatim>\<open>pkg/lib/session\<close>. The JWT library is a parameter.
\<close>

section \<open>Resolved sessions\<close>

datatype resolved_session = RS_Idp IDPSession | RS_Offline OfflineGrantSession

definition rs_base :: "resolved_session \<Rightarrow> session_base" where
  "rs_base s = (case s of RS_Idp i \<Rightarrow> idp_base i | RS_Offline o' \<Rightarrow> og_base (ogs_OfflineGrant o'))"

definition rs_GetAuthenticationInfo :: "resolved_session \<Rightarrow> authentication_info" where
  "rs_GetAuthenticationInfo s = (case s of
     RS_Idp i \<Rightarrow> Idp_GetAuthenticationInfo i
   | RS_Offline o' \<Rightarrow> Grant_GetAuthenticationInfo (ogs_OfflineGrant o'))"

definition SessionScopes :: "resolved_session option \<Rightarrow> string list" where
  "SessionScopes s = (case s of
     None \<Rightarrow> []
   | Some (RS_Idp _) \<Rightarrow> [FullAccessScope, PreAuthenticatedURLScope]
   | Some (RS_Offline ss) \<Rightarrow> ogs_Scopes ss)"

text \<open>The status and the error of \<^verbatim>\<open>checkAuthz\<close>.\<close>

definition checkAuthz :: "resolved_session option \<Rightarrow> string list \<Rightarrow> int \<times> sess_error option" where
  "checkAuthz session requiredScopes = (case session of
     None \<Rightarrow> (401, Some (ProtocolErr ''invalid_grant'' ''invalid session''))
   | Some s \<Rightarrow>
       if requiredScopes \<noteq> [] \<and> \<not> list_ex (\<lambda>sc. sc \<in> set requiredScopes) (SessionScopes (Some s))
       then (403, Some (ProtocolErr ''insufficient_scope'' ''required scope not granted''))
       else (200, None))"

definition SessionClientLike :: "(string \<Rightarrow> OAuthClientConfig option) \<Rightarrow> resolved_session \<Rightarrow> ClientLike" where
  "SessionClientLike clients s = (let scopes = SessionScopes (Some s) in case s of
     RS_Idp _ \<Rightarrow> \<lparr>like_IsFirstParty = True, like_PIIAllowedInIDToken = False, like_Scopes = scopes\<rparr>
   | RS_Offline o' \<Rightarrow> (case clients (ogs_ClientID o') of
       None \<Rightarrow> ClientLikeNotFound | Some client \<Rightarrow> ClientClientLike client scopes))"

section \<open>Tokens\<close>

text \<open>
  The JWT library: \<open>jl_Parse\<close> gives the \<^verbatim>\<open>jti\<close> of a string that is a JWT signed by the keys of the
  app, \<open>jl_Validate\<close> checks its times and audience.
\<close>

record jwt_library =
  jl_Parse :: "string \<Rightarrow> string option"
  jl_Validate :: "time \<Rightarrow> string \<Rightarrow> bool"

definition DecodeAccessToken :: "jwt_library \<Rightarrow> time \<Rightarrow> string \<Rightarrow> (string \<times> bool) option" where
  "DecodeAccessToken jl now encodedToken =
     (if take 3 encodedToken \<noteq> ''eyJ'' then Some (encodedToken, False)
      else case jl_Parse jl encodedToken of
        None \<Rightarrow> Some (encodedToken, False)
      | Some jti \<Rightarrow> if \<not> jl_Validate jl now encodedToken then None else Some (jti, True))"

definition EncodeRefreshToken :: "string \<Rightarrow> string \<Rightarrow> string" where
  "EncodeRefreshToken token grantID = grantID @ ''.'' @ token"

text \<open>\<^verbatim>\<open>strings.SplitN(s, sep, 2)\<close>, when it has two parts.\<close>

fun split2 :: "char \<Rightarrow> string \<Rightarrow> (string \<times> string) option" where
  "split2 sep [] = None"
| "split2 sep (c # cs) = (if c = sep then Some ([], cs) else map_option (\<lambda>(a, b). (c # a, b)) (split2 sep cs))"

definition DecodeRefreshToken :: "string \<Rightarrow> (string \<times> string) option" where
  "DecodeRefreshToken encodedToken = map_option (\<lambda>(grantID, token). (token, grantID)) (split2 (CHR ''.'') encodedToken)"

text \<open>The proof of possession of a request: none, invalid (what is wrong with it), or one for a key.\<close>

datatype dpop_proof = MissingProof | InvalidProof sess_error | ProofOf string

definition checkDPoPWithClient ::
    "dpop_proof \<Rightarrow> OAuthClientConfig option \<Rightarrow> (string option \<Rightarrow> bool) \<Rightarrow> (sess_error, unit) outcome" where
  "checkDPoPWithClient proof client checker = (let
     err = ProtocolErr ''invalid_dpop_proof'' ''Invalid DPoP key binding'';
     check = (\<lambda>p. if checker p then Ok () else bind_oc (deref client) (\<lambda>c. if \<not> cl_DPoPDisabled c then Err err else Ok ()))
   in case proof of
     InvalidProof _ \<Rightarrow> bind_oc (deref client) (\<lambda>c. if \<not> cl_DPoPDisabled c then Err err else check None)
   | MissingProof \<Rightarrow> check None
   | ProofOf jkt \<Rightarrow> check (Some jkt))"

text \<open>A key that is not bound matches any proof.\<close>

definition match_jkt :: "string \<Rightarrow> string option \<Rightarrow> bool" where
  "match_jkt bound proof = (if bound = '''' then True else case proof of None \<Rightarrow> False | Some jkt \<Rightarrow> jkt = bound)"

definition Session_MatchDPoPJKT ::
    "OfflineGrantSession \<Rightarrow> dpop_proof \<Rightarrow> OAuthClientConfig option \<Rightarrow> (sess_error, unit) outcome" where
  "Session_MatchDPoPJKT g proof client = checkDPoPWithClient proof client (match_jkt (ogs_DPoPJKT g))"

definition Grant_MatchDeviceSecretDPoPJKT ::
    "OfflineGrant \<Rightarrow> dpop_proof \<Rightarrow> OAuthClientConfig option \<Rightarrow> (sess_error, unit) outcome" where
  "Grant_MatchDeviceSecretDPoPJKT g proof client = checkDPoPWithClient proof client (match_jkt (og_DeviceSecretDPoPJKT g))"

definition Code_MatchDPoPJKT :: "CodeGrant \<Rightarrow> dpop_proof \<Rightarrow> OAuthClientConfig option \<Rightarrow> (sess_error, unit) outcome" where
  "Code_MatchDPoPJKT g proof client = checkDPoPWithClient proof client (match_jkt (cg_DPoPJKT g))"

section \<open>The resolver\<close>

record credentials =
  Authorization_header :: string
  app_session_cookie :: "string option"
  app_access_token_cookie :: "string option"
  session_cookie :: "string option"

definition to_lower :: "char \<Rightarrow> char" where
  "to_lower c = (if CHR ''A'' \<le> c \<and> c \<le> CHR ''Z'' then char_of (of_char c + (32 :: nat)) else c)"

definition parseAuthorizationHeader :: "string \<Rightarrow> string" where
  "parseAuthorizationHeader header = (case split2 (CHR '' '') header of
     None \<Rightarrow> ''''
   | Some (scheme, token) \<Rightarrow> if map to_lower scheme \<noteq> ''bearer'' then '''' else token)"

text \<open>An error that \<^verbatim>\<open>errors.Is\<close> the given one becomes another.\<close>

definition translate ::
    "sess_error \<Rightarrow> sess_error \<Rightarrow> ('r, 'm, 'x, 'a) sess_proc \<Rightarrow> ('r, 'm, 'x, 'a) sess_proc" where
  "translate e e' p = bindp (attempt p) (\<lambda>res. case res of
     Inl err \<Rightarrow> if err = e then failp e' else failp err
   | Inr x \<Rightarrow> ret x)"

definition resolver_accessOfflineGrant ::
    "('r, 'm, 'x) oauth_deps \<Rightarrow> ('r, 'm, 'x) oauth_env \<Rightarrow> time \<Rightarrow> OfflineGrant \<Rightarrow> string \<Rightarrow> access_event
     \<Rightarrow> ('r, 'm, 'x, OfflineGrant) sess_proc" where
  "resolver_accessOfflineGrant deps env now offlineGrant initialRefreshTokenHash accessEvent =
     bindp (if og_SSOEnabled offlineGrant
            then if og_IDPSessionID offlineGrant = '''' then failp ErrInvalidSession
                 else bindp (translate ErrIDPSessionNotFound ErrInvalidSession
                        (d_Idp_AccessWithID deps now (og_IDPSessionID offlineGrant) accessEvent)) (\<lambda>_. ret ())
            else ret ()) (\<lambda>_.
     AccessOfflineGrant env now (og_ID offlineGrant) initialRefreshTokenHash accessEvent
       (og_ExpireAtForResolvedSession offlineGrant))"

definition resolveAccessToken ::
    "('r, 'm, 'x) oauth_deps \<Rightarrow> ('r, 'm, 'x) oauth_env \<Rightarrow> jwt_library \<Rightarrow> time \<Rightarrow> string
     \<Rightarrow> ('r, 'm, 'x, resolved_session) sess_proc" where
  "resolveAccessToken deps env jl now token = (case DecodeAccessToken jl now token of
     None \<Rightarrow> failp ErrInvalidSession
   | Some (tok, isHash) \<Rightarrow> (let tokenHash = (if isHash then tok else e_hash env token)
      in bindp (translate ErrGrantNotFound ErrInvalidSession (GetAccessGrant env now tokenHash)) (\<lambda>grant.
         bindp (translate ErrAuthorizationNotFound ErrInvalidSession
           (d_Authz_GetByID deps (ag_AuthorizationID grant))) (\<lambda>_.
         let event = NewEvent now (e_RemoteIP env) (e_UserAgent env)
         in case ag_SessionKind grant of
           GrantSessionKindSession \<Rightarrow>
             bindp (translate ErrIDPSessionNotFound ErrInvalidSession
               (d_Idp_AccessWithID deps now (ag_SessionID grant) event)) (\<lambda>s. ret (RS_Idp s))
         | GrantSessionKindOffline \<Rightarrow>
             bindp (translate ErrGrantNotFound ErrInvalidSession (GetOfflineGrant deps env now (ag_SessionID grant))) (\<lambda>g.
             bindp (resolver_accessOfflineGrant deps env now g (ag_InitialRefreshTokenHash grant) event) (\<lambda>g.
             case ToSession g (ag_InitialRefreshTokenHash grant) of
               None \<Rightarrow> failp ErrInvalidSession
             | Some as \<Rightarrow> ret (RS_Offline as)))))))"

definition resolveHeader ::
    "('r, 'm, 'x) oauth_deps \<Rightarrow> ('r, 'm, 'x) oauth_env \<Rightarrow> jwt_library \<Rightarrow> time \<Rightarrow> credentials
     \<Rightarrow> ('r, 'm, 'x, resolved_session option) sess_proc" where
  "resolveHeader deps env jl now r = (let token = parseAuthorizationHeader (Authorization_header r)
   in if token = '''' then ret None
      else bindp (resolveAccessToken deps env jl now token) (\<lambda>s. ret (Some s)))"

definition resolveAccessTokenCookie ::
    "('r, 'm, 'x) oauth_deps \<Rightarrow> ('r, 'm, 'x) oauth_env \<Rightarrow> jwt_library \<Rightarrow> time \<Rightarrow> credentials
     \<Rightarrow> ('r, 'm, 'x, resolved_session option) sess_proc" where
  "resolveAccessTokenCookie deps env jl now r = (case app_access_token_cookie r of
     None \<Rightarrow> ret None
   | Some value \<Rightarrow> bindp (resolveAccessToken deps env jl now value) (\<lambda>s. ret (Some s)))"

definition resolveAppSessionCookie ::
    "('r, 'm, 'x) oauth_deps \<Rightarrow> ('r, 'm, 'x) oauth_env \<Rightarrow> time \<Rightarrow> credentials
     \<Rightarrow> ('r, 'm, 'x, resolved_session option) sess_proc" where
  "resolveAppSessionCookie deps env now r = (case app_session_cookie r of
     None \<Rightarrow> ret None
   | Some value \<Rightarrow>
       bindp (translate ErrGrantNotFound ErrInvalidSession (GetAppSession env now (e_hash env value))) (\<lambda>aSession.
       bindp (translate ErrGrantNotFound ErrInvalidSession (GetOfflineGrant deps env now (as_OfflineGrantID aSession))) (\<lambda>offlineGrant.
       case ToSession offlineGrant (as_InitialRefreshTokenHash aSession) of
         None \<Rightarrow> failp ErrInvalidSession
       | Some offlineGrantSession \<Rightarrow>
           bindp (translate ErrAuthorizationNotFound ErrInvalidSession
             (d_Authz_GetByID deps (ogs_AuthorizationID offlineGrantSession))) (\<lambda>authz.
           if \<not> IsAuthorized authz [FullAccessScope] then failp ErrInvalidSession
           else let event = NewEvent now (e_RemoteIP env) (e_UserAgent env)
           in bindp (resolver_accessOfflineGrant deps env now offlineGrant (as_InitialRefreshTokenHash aSession) event) (\<lambda>offlineGrant.
              case ToSession offlineGrant (as_InitialRefreshTokenHash aSession) of
                None \<Rightarrow> panicp
              | Some s \<Rightarrow> ret (Some (RS_Offline s)))))))"

text \<open>The first credential that resolves wins; one that is invalid is as good as none.\<close>

fun first_resolved ::
    "('r, 'm, 'x, resolved_session option) sess_proc list \<Rightarrow> ('r, 'm, 'x, resolved_session option) sess_proc" where
  "first_resolved [] = ret None"
| "first_resolved (f # fs) = bindp (attempt f) (\<lambda>res. case res of
     Inl ErrInvalidSession \<Rightarrow> first_resolved fs
   | Inl e \<Rightarrow> failp e
   | Inr (Some s) \<Rightarrow> ret (Some s)
   | Inr None \<Rightarrow> first_resolved fs)"

definition OAuth_Resolve ::
    "('r, 'm, 'x) oauth_deps \<Rightarrow> ('r, 'm, 'x) oauth_env \<Rightarrow> jwt_library \<Rightarrow> time \<Rightarrow> credentials
     \<Rightarrow> ('r, 'm, 'x, resolved_session option) sess_proc" where
  "OAuth_Resolve deps env jl now r = first_resolved [resolveHeader deps env jl now r,
     resolveAppSessionCookie deps env now r, resolveAccessTokenCookie deps env jl now r]"

section \<open>The middleware\<close>

fun resolve_in_turn ::
    "bool \<Rightarrow> ('r, 'm, 'x, resolved_session option) sess_proc list \<Rightarrow> ('r, 'm, 'x, resolved_session option) sess_proc" where
  "resolve_in_turn isInvalid [] = (if isInvalid then failp ErrInvalidSession else ret None)"
| "resolve_in_turn isInvalid (f # fs) = bindp (attempt f) (\<lambda>res. case res of
     Inl ErrInvalidSession \<Rightarrow> resolve_in_turn True fs
   | Inl e \<Rightarrow> failp e
   | Inr (Some s) \<Rightarrow> ret (Some s)
   | Inr None \<Rightarrow> resolve_in_turn isInvalid fs)"

definition resolveSession ::
    "('r, 'm, 'x) oauth_deps \<Rightarrow> ('r, 'm, 'x) oauth_env \<Rightarrow> jwt_library \<Rightarrow> (time \<Rightarrow> string option \<Rightarrow> ('r, 'm, 'x, IDPSession option) sess_proc)
     \<Rightarrow> time \<Rightarrow> credentials \<Rightarrow> ('r, 'm, 'x, resolved_session option) sess_proc" where
  "resolveSession deps env jl idpResolve now r = resolve_in_turn False [OAuth_Resolve deps env jl now r,
     bindp (idpResolve now (session_cookie r)) (\<lambda>s. ret (map_option RS_Idp s))]"

text \<open>\<open>Some err\<close> of \<^verbatim>\<open>AccountStatus(now).Check\<close> makes the session invalid.\<close>

definition account_check :: "time \<Rightarrow> account_status \<Rightarrow> (status_error, status_error option) outcome" where
  "account_check now a = bind_oc (WithRefTime a now) Check"

definition Middleware_resolve ::
    "('r, 'm, 'x) oauth_deps \<Rightarrow> ('r, 'm, 'x) oauth_env \<Rightarrow> jwt_library \<Rightarrow> (time \<Rightarrow> string option \<Rightarrow> ('r, 'm, 'x, IDPSession option) sess_proc)
     \<Rightarrow> time \<Rightarrow> credentials \<Rightarrow> ('r, 'm, 'x, resolved_session option) sess_proc" where
  "Middleware_resolve deps env jl idpResolve now r =
     bindp (resolveSession deps env jl idpResolve now r) (\<lambda>s. case s of
       None \<Rightarrow> ret None
     | Some s \<Rightarrow>
         bindp (translate ErrUserNotFound ErrInvalidSession (d_Users_GetRaw deps (ai_UserID (rs_GetAuthenticationInfo s)))) (\<lambda>u.
         case account_check now u of
           Ok None \<Rightarrow> ret (Some s)
         | Ok (Some err) \<Rightarrow> failp ErrInvalidSession
         | Err _ \<Rightarrow> panicp
         | Panic \<Rightarrow> panicp))"

text \<open>What the handler behind the middleware sees: a session, an invalid one (and its cookie cleared), or none.\<close>

datatype session_context = WithSession resolved_session | WithInvalidSession bool | NoSession

definition Middleware_Handle ::
    "('r, 'm, 'x) oauth_deps \<Rightarrow> ('r, 'm, 'x) oauth_env \<Rightarrow> jwt_library \<Rightarrow> (time \<Rightarrow> string option \<Rightarrow> ('r, 'm, 'x, IDPSession option) sess_proc)
     \<Rightarrow> time \<Rightarrow> credentials \<Rightarrow> ('r, 'm, 'x, session_context) sess_proc" where
  "Middleware_Handle deps env jl idpResolve now r =
     bindp (attempt (Middleware_resolve deps env jl idpResolve now r)) (\<lambda>res. case res of
       Inl ErrInvalidSession \<Rightarrow> ret (WithInvalidSession (session_cookie r \<noteq> None))
     | Inl e \<Rightarrow> panicp
     | Inr (Some s) \<Rightarrow> ret (WithSession s)
     | Inr None \<Rightarrow> ret NoSession)"

section \<open>Access tokens of ended sessions\<close>

lemma translate_Ok [simp]: "translate e e' p w = (Ok x, w') \<longleftrightarrow> p w = (Ok x, w')"
  by (cases "p w"; cases "fst (p w)") (auto simp: translate_def bindp_def attempt_def run_simps split: if_splits)

lemma on_directory_run: "on_directory f w = (res, w') \<Longrightarrow> w_redis w' = w_redis w \<and> snd (w_side w') = snd (w_side w)"
  by (auto simp: on_directory_def split: prod.splits sum.splits)

lemma resolveAccessToken_Ok:
  assumes "resolveAccessToken deps env jl now token w = (Ok s, w')"
  obtains tok isHash ag w1 authz w2 where "DecodeAccessToken jl now token = Some (tok, isHash)"
    "GetAccessGrant env now (if isHash then tok else e_hash env token) w = (Ok ag, w1)"
    "d_Authz_GetByID deps (ag_AuthorizationID ag) w1 = (Ok authz, w2)"
    "case ag_SessionKind ag of
       GrantSessionKindSession \<Rightarrow> \<exists>i. s = RS_Idp i \<and>
         d_Idp_AccessWithID deps now (ag_SessionID ag) (NewEvent now (e_RemoteIP env) (e_UserAgent env)) w2 = (Ok i, w')
     | GrantSessionKindOffline \<Rightarrow> \<exists>g w3 g' o'. s = RS_Offline o' \<and> GetOfflineGrant deps env now (ag_SessionID ag) w2 = (Ok g, w3)
         \<and> resolver_accessOfflineGrant deps env now g (ag_InitialRefreshTokenHash ag)
             (NewEvent now (e_RemoteIP env) (e_UserAgent env)) w3 = (Ok g', w')
         \<and> ToSession g' (ag_InitialRefreshTokenHash ag) = Some o'"
proof -
  from assms obtain tok isHash ag w1 authz w2 where steps: "DecodeAccessToken jl now token = Some (tok, isHash)"
    "GetAccessGrant env now (if isHash then tok else e_hash env token) w = (Ok ag, w1)"
    "d_Authz_GetByID deps (ag_AuthorizationID ag) w1 = (Ok authz, w2)"
    and r: "(let event = NewEvent now (e_RemoteIP env) (e_UserAgent env)
         in case ag_SessionKind ag of
           GrantSessionKindSession \<Rightarrow>
             bindp (translate ErrIDPSessionNotFound ErrInvalidSession
               (d_Idp_AccessWithID deps now (ag_SessionID ag) event)) (\<lambda>s. ret (RS_Idp s))
         | GrantSessionKindOffline \<Rightarrow>
             bindp (translate ErrGrantNotFound ErrInvalidSession (GetOfflineGrant deps env now (ag_SessionID ag))) (\<lambda>g.
             bindp (resolver_accessOfflineGrant deps env now g (ag_InitialRefreshTokenHash ag) event) (\<lambda>g.
             case ToSession g (ag_InitialRefreshTokenHash ag) of
               None \<Rightarrow> failp ErrInvalidSession
             | Some as \<Rightarrow> ret (RS_Offline as)))) w2 = (Ok s, w')"
    by (auto simp: resolveAccessToken_def Let_def bindp_Ok run_simps split: option.splits prod.splits)
  show thesis
  proof (rule that [OF steps])
    show "case ag_SessionKind ag of
       GrantSessionKindSession \<Rightarrow> \<exists>i. s = RS_Idp i \<and>
         d_Idp_AccessWithID deps now (ag_SessionID ag) (NewEvent now (e_RemoteIP env) (e_UserAgent env)) w2 = (Ok i, w')
     | GrantSessionKindOffline \<Rightarrow> \<exists>g w3 g' o'. s = RS_Offline o' \<and> GetOfflineGrant deps env now (ag_SessionID ag) w2 = (Ok g, w3)
         \<and> resolver_accessOfflineGrant deps env now g (ag_InitialRefreshTokenHash ag)
             (NewEvent now (e_RemoteIP env) (e_UserAgent env)) w3 = (Ok g', w')
         \<and> ToSession g' (ag_InitialRefreshTokenHash ag) = Some o'"
      using r by (cases "ag_SessionKind ag") (auto simp: Let_def bindp_Ok run_simps split: option.splits)
  qed
qed

lemma outcome_proc_Ok: "outcome_proc oc w = (Ok x, w') \<longleftrightarrow> oc = Ok x \<and> w' = w"
  by (cases oc) (auto simp: run_simps)

lemma GetOfflineGrant_Ok:
  assumes "GetOfflineGrant deps env now gid w = (Ok g, w')"
  obtains g0 w1 e where "GetOfflineGrantWithoutExpireAt env now gid w = (Ok g0, w1)"
    "ComputeOfflineGrantExpiry (d_ResolveClient deps) g0 = Ok e" "g = g0\<lparr>og_ExpireAtForResolvedSession := e\<rparr>" "now \<le> e"
    "w' = w1 \<or> (\<exists>r. d_Idp_Get deps now (og_IDPSessionID g) w1 = (r, w'))"
proof -
  from assms obtain g0 w1 e where g: "GetOfflineGrantWithoutExpireAt env now gid w = (Ok g0, w1)"
    "ComputeOfflineGrantExpiry (d_ResolveClient deps) g0 = Ok e"
    and r: "(let g = g0\<lparr>og_ExpireAtForResolvedSession := e\<rparr>
     in if now > og_ExpireAtForResolvedSession g then failp ErrGrantNotFound
        else if og_SSOEnabled g \<and> og_IDPSessionID g \<noteq> ''''
        then bindp (attempt (d_Idp_Get deps now (og_IDPSessionID g))) (\<lambda>res. case res of
          Inl ErrIDPSessionNotFound \<Rightarrow> failp ErrGrantNotFound
        | Inl e \<Rightarrow> failp e
        | Inr idp \<Rightarrow> if d_Idp_CheckSessionExpired deps now idp then failp ErrGrantNotFound else ret g)
        else ret g) w1 = (Ok g, w')"
    unfolding GetOfflineGrant_def bindp_Ok outcome_proc_Ok by blast
  show thesis
  proof (cases "og_SSOEnabled g0 \<and> og_IDPSessionID g0 \<noteq> ''''")
    case False
    with r have "g = g0\<lparr>og_ExpireAtForResolvedSession := e\<rparr>" "now \<le> e" "w' = w1"
      by (auto simp: Let_def run_simps split: if_splits)
    then show thesis by (intro that [OF g]) auto
  next
    case True
    obtain q w2 where q: "d_Idp_Get deps now (og_IDPSessionID g0) w1 = (q, w2)" by fastforce
    with r True have "g = g0\<lparr>og_ExpireAtForResolvedSession := e\<rparr>" "now \<le> e" "w' = w2"
      by (cases q; auto simp: Let_def bindp_def attempt_def run_simps split: if_splits sess_error.splits)+
    with q show thesis by (intro that [OF g]) auto
  qed
qed

lemma model_providers: "oauth_providers (model_deps ienv cfg clients)"
  by (simp add: oauth_providers_def model_deps_def foreign_on_idp foreign_on_directory)

lemma session_kind_inj [simp]: "GrantSessionKindFromSessionType a = GrantSessionKindFromSessionType b \<longleftrightarrow> a = b"
  by (cases a; cases b) (simp_all add: GrantSessionKindFromSessionType_def)


definition demo_jwt :: jwt_library where
  "demo_jwt = \<lparr>jl_Parse = (\<lambda>_. None), jl_Validate = (\<lambda>_ _. False)\<rparr>"

definition demo_access :: "string \<Rightarrow> string \<Rightarrow> AccessGrant" where
  "demo_access token gid = \<lparr>ag_AppID = ''app'', ag_AuthorizationID = ''z1'', ag_SessionID = gid,
     ag_SessionKind = GrantSessionKindOffline, ag_CreatedAt = 1, ag_ExpireAt = 50000000000, ag_Scopes = [FullAccessScope],
     ag_TokenHash = ''h'' @ token, ag_InitialRefreshTokenHash = ''ht1''\<rparr>"

definition demo_tokens :: "(oauth_value sstore, unit, demo_side) sess_world" where
  "demo_tokens = snd (CreateAccessGrant demo_env 1 (demo_access ''at2'' ''g2'') demo_sso)"

lemma demo_tokens_history: "oauth_history demo_deps demo_env 0 demo_start 1 demo_tokens"
proof (rule oauth_history.step [OF demo_sso_history order_refl oauth_call.access_grant])
  show "ag_AppID (demo_access ''at2'' ''g2'') = e_AppID demo_env" by (simp add: demo_access_def demo_env_def)
  show "CreateAccessGrant demo_env 1 (demo_access ''at2'' ''g2'') demo_sso =
      (fst (CreateAccessGrant demo_env 1 (demo_access ''at2'' ''g2'') demo_sso), demo_tokens)" by (simp add: demo_tokens_def)
qed


section \<open>Expiry of offline grants in use\<close>

lemma case_Ok_run: "(case r of (Ok x, w) \<Rightarrow> P x w | _ \<Rightarrow> False) \<longleftrightarrow> (\<exists>x w. r = (Ok x, w) \<and> P x w)"
  by (auto split: prod.splits outcome.splits)

lemma RecordAccess_redis: "RecordAccess env i e ev w = (res, w') \<Longrightarrow> w_redis w' = w_redis w"
  using keeps_redisD [OF keeps_redis_events(4), where P = "\<lambda>r. r = w_redis w"] by blast

text \<open>An offline grant in use is not kept alive by its last access. The expiry an access writes is the
  one computed from the access before it, so once that has passed - no matter that the idle timeout
  counted from the last access has not - the grant is gone from the store and can no longer be used.\<close>

theorem offline_grant_in_use_expires:
  assumes "session_keys (e_redis env) view hview" "oauth_providers deps" "no_grants env view t0 (w_redis w0)"
    and "oauth_history deps env t0 w0 t w" "t \<le> now"
    and "GetOfflineGrant deps env now gid w = (Ok g, w1)" "resolver_accessOfflineGrant deps env now g h ev w1 = (Ok g', w2)"
    and "now + 1000000 \<le> og_ExpireAtForResolvedSession g" "og_ExpireAtForResolvedSession g \<le> t'"
  shows "\<not> is_ok (fst (GetOfflineGrant deps env t' gid w2))"
proof
  assume "is_ok (fst (GetOfflineGrant deps env t' gid w2))"
  then obtain q w3 where "GetOfflineGrant deps env t' gid w2 = (Ok q, w3)" by (metis is_okD prod.collapse)
  then obtain q0 w4 where q: "GetOfflineGrantWithoutExpireAt env t' gid w2 = (Ok q0, w4)" by (rule GetOfflineGrant_Ok)
  from assms(1,2) have sys: "oauth_system env view hview deps" by (simp add: oauth_system_def oauth_keys_def)
  then have keys: "oauth_keys env view hview" by (simp add: oauth_system_def)
  note ok = oauth_system.history_grants_ok [OF sys assms(4,3,5)]
  let ?e = "og_ExpireAtForResolvedSession g"
  obtain g0 wa e where g0: "GetOfflineGrantWithoutExpireAt env now gid w = (Ok g0, wa)" "g = g0\<lparr>og_ExpireAtForResolvedSession := e\<rparr>"
    "w1 = wa \<or> (\<exists>r. d_Idp_Get deps now (og_IDPSessionID g) wa = (r, w1))" by (rule GetOfflineGrant_Ok [OF assms(6)])
  have wa: "wa = w" "og_ID g = gid"
    by (rule oauth_keys.get_grant_run [OF keys ok g0(1)]; use g0(2) in \<open>simp add: own_grant_def\<close>)+
  have w1: "w_redis w1 = w_redis w" using g0(3) wa(1) foreignD [OF oauth_providers.idp_foreign(1) [OF assms(2)]] by auto
  from assms(7) obtain wb where wb: "w_redis wb = w_redis w1" "AccessOfflineGrant env now gid h ev ?e wb = (Ok g', w2)"
    using foreignD [OF oauth_providers.idp_foreign(2) [OF assms(2)]] wa(2)
    by (fastforce simp: resolver_accessOfflineGrant_def bindp_Ok run_simps split: if_splits)
  from wb(2) obtain g1 wc wd where m: "UpdateOfflineGrantWithMutator env now gid ?e (access_mutator h ev) wb = (Ok g1, wc)"
    and r: "RecordAccess env (og_ID g1) (og_ExpireAtForResolvedSession g1) ev wc = (Ok (), wd)" "w_redis w2 = w_redis wd"
    by (auto simp: AccessOfflineGrant_def bindp_Ok run_simps dest: side_redis)
  have ttl: "now + ttl_ms (?e - now) \<le> t'" using ttl_ms_bounds(2) [of "?e - now"] assms(8,9) by simp
  have "view t' (w_redis wc) (offlineGrantKey (e_AppID env) gid) = None"
    by (rule oauth_keys.mutate_gone [OF keys _ _ _ m ttl]) (use ok wb(1) w1 assms(8,9) in auto)
  with r RecordAccess_redis [OF r(1)] oauth_keys.load_run(2) [OF keys q [unfolded GetOfflineGrantWithoutExpireAt_def] refl]
  show False by simp
qed

theorem offline_grant_in_use_expires_witness:
  "\<exists>g w1 g' w2. GetOfflineGrant demo_deps demo_env 60000000000 ''g1'' demo_granted = (Ok g, w1)
    \<and> resolver_accessOfflineGrant demo_deps demo_env 60000000000 g ''ht1'' (demo_event 60000000000) w1 = (Ok g', w2)
    \<and> ComputeOfflineGrantExpiry (d_ResolveClient demo_deps) g' = Ok 160000000000
    \<and> \<not> is_ok (fst (GetOfflineGrant demo_deps demo_env 100000000000 ''g1'' w2))"
proof -
  let ?g = "GetOfflineGrant demo_deps demo_env 60000000000 ''g1'' demo_granted"
  let ?a = "\<lambda>g. resolver_accessOfflineGrant demo_deps demo_env 60000000000 g ''ht1'' (demo_event 60000000000)"
  have "(case ?g of (Ok g, w1) \<Rightarrow> (case ?a g w1 of
      (Ok g', w2) \<Rightarrow> ComputeOfflineGrantExpiry (d_ResolveClient demo_deps) g' = Ok 160000000000
        \<and> og_ExpireAtForResolvedSession g = 100000000000 | _ \<Rightarrow> False) | _ \<Rightarrow> False)" by code_simp
  then obtain g w1 g' w2 where g: "?g = (Ok g, w1)" "?a g w1 = (Ok g', w2)"
    "ComputeOfflineGrantExpiry (d_ResolveClient demo_deps) g' = Ok 160000000000" "og_ExpireAtForResolvedSession g = 100000000000"
    by (auto simp: case_Ok_run)
  have "(0::int) \<le> 60000000000" "(60000000000::int) + 1000000 \<le> og_ExpireAtForResolvedSession g"
    "og_ExpireAtForResolvedSession g \<le> 100000000000" using g(4) by simp_all
  with offline_grant_in_use_expires [OF demo_laws(1,2) demo_no_grants demo_granted_history _ g(1,2)] g(1-3) show ?thesis by blast
qed

section \<open>Accounts that are refused\<close>

text \<open>The procedures of the resolver leave the directory of users and authorizations alone.\<close>

definition keeps_dir :: "('r, 'm, ('ri, 'mi, 'xi, 'y) with_idp, 'a) sess_proc \<Rightarrow> bool" where
  "keeps_dir = keeps (\<lambda>w w'. fst (w_side w') = fst (w_side w))"

named_theorems keeps_dir_intros \<open>rules that show a procedure keeps the directory\<close>

lemma keeps_dir_bindp [keeps_dir_intros]: "keeps_dir p \<Longrightarrow> (\<And>x. keeps_dir (f x)) \<Longrightarrow> keeps_dir (bindp p f)"
  unfolding keeps_dir_def by (rule keeps_bindp) (simp_all add: transp_def)

lemma keeps_dir_attempt [keeps_dir_intros]: "keeps_dir p \<Longrightarrow> keeps_dir (attempt p)"
  unfolding keeps_dir_def by (rule keeps_attempt)

lemma keeps_dir_side_kept: "keeps_side p \<Longrightarrow> keeps_dir p"
  by (simp add: keeps_side_def keeps_dir_def keeps_def)

lemma keeps_dir_basic [keeps_dir_intros]: "keeps_dir (ret x)" "keeps_dir (failp e)" "keeps_dir panicp" "keeps_dir (outcome_proc oc)"
  by (cases oc; simp add: keeps_dir_def keeps_def run_simps)+

lemma keeps_dir_side [keeps_dir_intros]:
  assumes "\<And>x. snd (c x) = x" shows "keeps_dir (side c)"
unfolding keeps_dir_def keeps_def
proof
  fix w
  show "fst (w_side (snd (side c w))) = fst (w_side w)"
    using assms [of "w_side w"] by (cases "c (w_side w)") (auto simp: side_def split: sum.split)
qed

lemma keeps_dir_with_mutex [keeps_dir_intros]: "keeps_dir p \<Longrightarrow> keeps_dir (with_mutex env name p)"
  unfolding keeps_dir_def keeps_def with_mutex_def with_defer_def
  by (auto split: prod.split sum.split) (metis sess_world.select_convs(3) sess_world.surjective sess_world.update_convs(2) snd_conv)+

lemma keeps_dir_on_idp [keeps_dir_intros]: "keeps_dir (on_idp p)"
  by (simp add: keeps_dir_def keeps_def on_idp_def split: prod.split)

lemma keeps_dir_on_directory [keeps_dir_intros]:
  assumes "\<And>d. snd (f d) = d" shows "keeps_dir (on_directory f)"
unfolding keeps_dir_def keeps_def
proof
  fix w
  show "fst (w_side (snd (on_directory f w))) = fst (w_side w)"
    using assms [of "fst (w_side w)"] by (cases "f (fst (w_side w))") (auto simp: on_directory_def split: sum.split)
qed

lemma keeps_dir_translate [keeps_dir_intros]: "keeps_dir p \<Longrightarrow> keeps_dir (translate e e' p)"
  unfolding translate_def by (auto intro!: keeps_dir_intros split: sum.split)

lemma keeps_dir_store [keeps_dir_intros]: "keeps_dir (load env now key um)" "keeps_dir (save env now key v e ine)"
  "keeps_dir (rcall msg c)"
  by (auto intro!: keeps_dir_side_kept keeps_side_intros keeps_side_loadData
      simp: load_def save_def Let_def split: sum.split redis_err.split)

lemma keeps_dir_events: "e_side env = quiet_side \<Longrightarrow> keeps_dir (RecordAccess env i e ev)"
  by (auto simp: RecordAccess_def AppendEvent_def Let_def quiet_side_def intro!: keeps_dir_intros)

lemma keeps_dir_providers [keeps_dir_intros]:
  "keeps_dir (d_Idp_Get (model_deps ienv cfg clients) now sid)" "keeps_dir (d_Idp_AccessWithID (model_deps ienv cfg clients) now sid ev)"
  "keeps_dir (d_Authz_GetByID (model_deps ienv cfg clients) aid)"
  by (simp_all add: model_deps_def keeps_dir_intros find_authz_def)

lemma keeps_dir_grants [keeps_dir_intros]: "keeps_dir (GetOfflineGrant (model_deps ienv cfg clients) env now gid)"
  "keeps_dir (GetAccessGrant env now h)" "keeps_dir (GetAppSession env now h)"
  by (auto simp: GetOfflineGrant_def GetOfflineGrantWithoutExpireAt_def GetAccessGrant_def GetAppSession_def Let_def
      intro!: keeps_dir_intros split: sum.split sess_error.split)

lemma keeps_dir_access:
  assumes "e_side env = quiet_side"
  shows "keeps_dir (resolver_accessOfflineGrant (model_deps ienv cfg clients) env now g h ev)"
  using assms
  by (auto simp: resolver_accessOfflineGrant_def AccessOfflineGrant_def UpdateOfflineGrantWithMutator_def
      GetOfflineGrantWithoutExpireAt_def updateOfflineGrant_def Let_def quiet_side_def [symmetric]
      intro!: keeps_dir_intros keeps_dir_events) (simp_all add: quiet_side_def)

lemma keeps_dir_resolve:
  assumes "e_side env = quiet_side"
  shows "keeps_dir (resolveSession (model_deps ienv cfg clients) env jl (\<lambda>t c. on_idp (Idp_Resolve ienv cfg t c)) now r)"
proof -
  note intros = keeps_dir_intros keeps_dir_access [OF assms]
  have access: "keeps_dir (resolveAccessToken (model_deps ienv cfg clients) env jl now token)" for token
    unfolding resolveAccessToken_def Let_def
    by (auto intro!: intros split: option.split prod.split GrantSessionKind.split)
  have first: "keeps_dir (first_resolved fs)" if "list_all keeps_dir fs" for fs
    using that by (induction fs) (auto intro!: intros split: sum.split option.split sess_error.split)
  have turn: "keeps_dir (resolve_in_turn b fs)" if "list_all keeps_dir fs" for b fs
    using that by (induction fs arbitrary: b) (auto intro!: intros split: sum.split option.split sess_error.split)
  have "keeps_dir (OAuth_Resolve (model_deps ienv cfg clients) env jl now r)"
    unfolding OAuth_Resolve_def
    by (rule first) (auto simp: resolveHeader_def resolveAppSessionCookie_def resolveAccessTokenCookie_def Let_def
        intro!: intros access split: option.split)
  then show ?thesis unfolding resolveSession_def by (intro turn) (auto intro!: intros)
qed

lemma check_passed:
  "(case oc of Ok None \<Rightarrow> p | Ok (Some err) \<Rightarrow> failp e | Err _ \<Rightarrow> panicp | Panic \<Rightarrow> panicp) w = (Ok x, w') \<longleftrightarrow>
     oc = Ok None \<and> p w = (Ok x, w')"
  by (auto simp: run_simps split: outcome.splits option.splits)

text \<open>C31: no credential of any kind - access token, app session cookie, session cookie - lets a request act
  for a user who does not exist or whose account status is refused at that moment (disabled, outside
  its valid period, scheduled for deletion, anonymized): the middleware never hands on a session of
  theirs, whatever is stored for it.\<close>

theorem refused_account_not_resolved:
  assumes "e_side env = quiet_side"
    and "case map_of (dir_users (fst (w_side w))) user of None \<Rightarrow> True | Some u \<Rightarrow> account_check now u \<noteq> Ok None"
    and "fst (Middleware_Handle (model_deps ienv cfg clients) env jl (\<lambda>t c. on_idp (Idp_Resolve ienv cfg t c)) now r w) = Ok (WithSession s)"
  shows "ai_UserID (rs_GetAuthenticationInfo s) \<noteq> user"
proof
  assume user: "ai_UserID (rs_GetAuthenticationInfo s) = user"
  let ?deps = "model_deps ienv cfg clients" and ?idp = "\<lambda>t c. on_idp (Idp_Resolve ienv cfg t c)"
  from assms(3) obtain w' where "Middleware_resolve ?deps env jl ?idp now r w = (Ok (Some s), w')"
    by (cases "Middleware_resolve ?deps env jl ?idp now r w"; cases "fst (Middleware_resolve ?deps env jl ?idp now r w)")
      (auto simp: Middleware_Handle_def bindp_def attempt_def run_simps split: option.splits sess_error.splits)
  then obtain w1 u w2 where r: "resolveSession ?deps env jl ?idp now r w = (Ok (Some s), w1)"
    and u: "d_Users_GetRaw ?deps user w1 = (Ok u, w2)" "account_check now u = Ok None"
    using user by (auto simp: Middleware_resolve_def bindp_Ok run_simps check_passed split: option.splits)
  have "fst (w_side w1) = fst (w_side w)"
    using keepsD [OF keeps_dir_resolve [OF assms(1), unfolded keeps_dir_def] r] .
  with u(1) have "map_of (dir_users (fst (w_side w))) user = Some u"
    by (auto simp: model_deps_def on_directory_def split: option.splits)
  with assms(2) u(2) show False by simp
qed

text \<open>The user is disabled after the tokens were issued.\<close>

definition demo_disabled :: "(oauth_value sstore, unit, demo_side) sess_world" where
  "demo_disabled = demo_tokens\<lparr>w_side := ((fst (w_side demo_tokens))\<lparr>dir_users := (case account_step 2 (OpDisableIndefinitely None) new_account of
     Ok a \<Rightarrow> [(''u1'', a)] | _ \<Rightarrow> [])\<rparr>, snd (w_side demo_tokens))\<rparr>"

definition demo_request :: credentials where
  "demo_request = \<lparr>Authorization_header = ''Bearer at2'', app_session_cookie = None, app_access_token_cookie = None,
     session_cookie = Some ''s1.rnd''\<rparr>"

theorem refused_account_not_resolved_witness:
  "let handle = Middleware_Handle demo_deps demo_env demo_jwt (\<lambda>t c. on_idp (Idp_Resolve demo_sess_env demo_sess_cfg t c)) 3 demo_request
   in (case fst (handle demo_tokens) of Ok (WithSession s) \<Rightarrow> ai_UserID (rs_GetAuthenticationInfo s) = ''u1'' | _ \<Rightarrow> False)
    \<and> (case fst (handle demo_disabled) of Ok (WithSession s) \<Rightarrow> ai_UserID (rs_GetAuthenticationInfo s) \<noteq> ''u1''
       | Ok (WithInvalidSession b) \<Rightarrow> True | _ \<Rightarrow> False)"
proof -
  let ?h = "Middleware_Handle demo_deps demo_env demo_jwt (\<lambda>t c. on_idp (Idp_Resolve demo_sess_env demo_sess_cfg t c)) 3 demo_request"
  have "(case fst (?h demo_tokens) of Ok (WithSession s) \<Rightarrow> ai_UserID (rs_GetAuthenticationInfo s) = ''u1'' | _ \<Rightarrow> False)"
    by code_simp
  moreover have refused: "case map_of (dir_users (fst (w_side demo_disabled))) ''u1'' of None \<Rightarrow> True | Some u \<Rightarrow> account_check 3 u \<noteq> Ok None"
    by code_simp
  have "e_side demo_env = quiet_side" by (simp add: demo_env_def ss_env_def)
  note none = refused_account_not_resolved [OF this refused, of demo_sess_env demo_sess_cfg demo_clients, folded demo_deps_def]
  have "(case fst (?h demo_disabled) of Ok (WithSession s) \<Rightarrow> True | Ok (WithInvalidSession b) \<Rightarrow> True | _ \<Rightarrow> False)" by code_simp
  then have "(case fst (?h demo_disabled) of Ok (WithSession s) \<Rightarrow> ai_UserID (rs_GetAuthenticationInfo s) \<noteq> ''u1''
       | Ok (WithInvalidSession b) \<Rightarrow> True | _ \<Rightarrow> False)"
    using none by (auto split: outcome.splits session_context.splits)
  ultimately show ?thesis by (simp add: Let_def)
qed

end
