(* ===== verification/TokenService.thy ===== *)
theory TokenService imports OAuthResolver begin

text \<open>
  Issuing, refreshing and revoking tokens: \<^verbatim>\<open>grant_access_service.go\<close>, \<^verbatim>\<open>app_session_token.go\<close> of
  \<^verbatim>\<open>pkg/lib/oauth\<close> and \<^verbatim>\<open>service_token.go\<close>, \<^verbatim>\<open>handler_revoke.go\<close>, \<^verbatim>\<open>service_code_grant.go\<close>,
  \<^verbatim>\<open>service_settings_action_grant.go\<close>, \<^verbatim>\<open>service_preauthenticated_url.go\<close> of its \<^verbatim>\<open>handler\<close>.

  The random tokens and IDs of a call are its arguments. Preparing a JWT access token, which asks the
  ID token issuer and the event service, is a parameter.
\<close>

section \<open>Access tokens\<close>

record PrepareUserAccessGrantOptions =
  pu_ClientConfig :: OAuthClientConfig
  pu_Scopes :: "string list"
  pu_AuthorizationID :: string
  pu_AuthenticationInfo :: authentication_info
  pu_SessionID :: string
  pu_SessionType :: session_type
  pu_InitialRefreshTokenHash :: string

text \<open>What is left to do once the transaction is over: an opaque token is ready.\<close>

datatype prepared_access_token =
    PreparedOpaque string OAuthClientConfig
  | PreparedJWT string OAuthClientConfig

record IssueAccessGrantResult =
  ia_Token :: string
  ia_TokenType :: string
  ia_ExpiresIn :: int

text \<open>\<open>PrepareJWT\<close> gives the blocking event of a JWT access token.\<close>

record ('r, 'm, 'x) token_deps =
  t_deps :: "('r, 'm, 'x) oauth_deps"
  t_PrepareJWT :: "AccessGrant \<Rightarrow> authentication_info \<Rightarrow> ClientLike \<Rightarrow> ('r, 'm, 'x, string) sess_proc"
  t_SignJWT :: "string \<Rightarrow> ('r, 'm, 'x, string) sess_proc"
  t_sessions :: "('r, 'm, 'x) session_manager"

definition PrepareUserAccessToken ::
    "('r, 'm, 'x) token_deps \<Rightarrow> string \<Rightarrow> OAuthClientConfig \<Rightarrow> ClientLike \<Rightarrow> AccessGrant \<Rightarrow> authentication_info
     \<Rightarrow> ('r, 'm, 'x, prepared_access_token) sess_proc" where
  "PrepareUserAccessToken td originalToken client like grant info =
     (if \<not> cl_IssueJWTAccessToken client then ret (PreparedOpaque originalToken client)
      else bindp (t_PrepareJWT td grant info like) (\<lambda>event. ret (PreparedJWT event client)))"

definition MakeUserAccessTokenFromPreparationResult ::
    "('r, 'm, 'x) token_deps \<Rightarrow> prepared_access_token \<Rightarrow> ('r, 'm, 'x, IssueAccessGrantResult) sess_proc" where
  "MakeUserAccessTokenFromPreparationResult td p = (case p of
     PreparedOpaque token client \<Rightarrow> ret \<lparr>ia_Token = token, ia_TokenType = ''Bearer'', ia_ExpiresIn = cl_AccessTokenLifetime client\<rparr>
   | PreparedJWT event client \<Rightarrow> bindp (t_SignJWT td event) (\<lambda>signed.
       ret \<lparr>ia_Token = signed, ia_TokenType = ''Bearer'', ia_ExpiresIn = cl_AccessTokenLifetime client\<rparr>))"

definition PrepareUserAccessGrant ::
    "('r, 'm, 'x) token_deps \<Rightarrow> ('r, 'm, 'x) oauth_env \<Rightarrow> time \<Rightarrow> string \<Rightarrow> PrepareUserAccessGrantOptions
     \<Rightarrow> ('r, 'm, 'x, prepared_access_token) sess_proc" where
  "PrepareUserAccessGrant td env now token options = (let
     accessGrant = \<lparr>ag_AppID = e_AppID env, ag_AuthorizationID = pu_AuthorizationID options,
       ag_SessionID = pu_SessionID options, ag_SessionKind = GrantSessionKindFromSessionType (pu_SessionType options),
       ag_CreatedAt = now, ag_ExpireAt = now + Duration (cl_AccessTokenLifetime (pu_ClientConfig options)),
       ag_Scopes = pu_Scopes options, ag_TokenHash = e_hash env token,
       ag_InitialRefreshTokenHash = pu_InitialRefreshTokenHash options\<rparr>
   in bindp (CreateAccessGrant env now accessGrant) (\<lambda>_.
      PrepareUserAccessToken td token (pu_ClientConfig options) (ClientClientLike (pu_ClientConfig options) (pu_Scopes options))
        accessGrant (pu_AuthenticationInfo options)))"

section \<open>App sessions\<close>

definition AppSessionToken_Exchange ::
    "('r, 'm, 'x) oauth_deps \<Rightarrow> ('r, 'm, 'x) oauth_env \<Rightarrow> time \<Rightarrow> string \<Rightarrow> string \<Rightarrow> ('r, 'm, 'x, string) sess_proc" where
  "AppSessionToken_Exchange deps env now newToken appSessionToken =
     bindp (GetAppSessionToken env now (e_hash env appSessionToken)) (\<lambda>sToken.
     bindp (GetOfflineGrant deps env now (ast_OfflineGrantID sToken)) (\<lambda>offlineGrant.
     bindp (DeleteAppSessionToken env now sToken) (\<lambda>_.
     bindp (CreateAppSession env now \<lparr>as_AppID = og_AppID offlineGrant, as_OfflineGrantID = og_ID offlineGrant,
       as_CreatedAt = now, as_ExpireAt = og_ExpireAtForResolvedSession offlineGrant,
       as_TokenHash = e_hash env newToken, as_InitialRefreshTokenHash = ast_InitialRefreshTokenHash sToken\<rparr>) (\<lambda>_.
     ret newToken))))"

section \<open>The token service\<close>

text \<open>A token response is a map; writing to a nil one panics.\<close>

type_synonym token_response = "(string \<Rightarrow> string option) option"

definition respond :: "string \<Rightarrow> string \<Rightarrow> token_response \<Rightarrow> ('r, 'm, 'x, token_response) sess_proc" where
  "respond key v resp = (case resp of None \<Rightarrow> panicp | Some m \<Rightarrow> ret (Some (m(key \<mapsto> v))))"

definition IssueDeviceSecret ::
    "('r, 'm, 'x) oauth_env \<Rightarrow> string \<Rightarrow> token_response \<Rightarrow> ('r, 'm, 'x, string \<times> token_response) sess_proc" where
  "IssueDeviceSecret env deviceSecret resp = (let deviceSecretHash = e_hash env deviceSecret
   in bindp (respond ''device_secret'' deviceSecret resp) (\<lambda>resp. ret (deviceSecretHash, resp)))"

record IssueOfflineGrantOptions =
  io_AuthenticationInfo :: authentication_info
  io_Scopes :: "string list"
  io_AuthorizationID :: string
  io_IDPSessionID :: string
  io_DeviceInfo :: string
  io_IdentityID :: string
  io_SSOEnabled :: bool
  io_App2AppDeviceKey :: "string option"
  io_IssueDeviceSecret :: bool
  io_DPoPJKT :: string

definition new_offline_grant ::
    "('r, 'm, 'x) oauth_env \<Rightarrow> time \<Rightarrow> string \<Rightarrow> string \<Rightarrow> OAuthClientConfig \<Rightarrow> IssueOfflineGrantOptions \<Rightarrow> OfflineGrant" where
  "new_offline_grant env now uuid tokenHash client opts = (let
     accessEvent = NewEvent now (e_RemoteIP env) (e_UserAgent env);
     accessInfo = \<lparr>InitialAccess = accessEvent, LastAccess = accessEvent\<rparr>;
     refreshToken = \<lparr>rt_InitialTokenHash = tokenHash, rt_ClientID = cl_ClientID client, rt_CreatedAt = now,
       rt_Scopes = io_Scopes opts, rt_AuthorizationID = io_AuthorizationID opts, rt_DPoPJKT = io_DPoPJKT opts,
       rt_AccessInfo = Some accessInfo, rt_ExpireAt = None, rt_RotatedTokenHash = None, rt_RotatedAt = None\<rparr>
   in \<lparr>og_AppID = e_AppID env, og_ID = uuid, og_InitialClientID = cl_ClientID client, og_IDPSessionID = io_IDPSessionID opts,
       og_IdentityID = io_IdentityID opts, og_CreatedAt = now, og_AuthenticatedAt = ai_AuthenticatedAt (io_AuthenticationInfo opts),
       og_Attrs = NewAttrsFromAuthenticationInfo (io_AuthenticationInfo opts), og_AccessInfo = accessInfo,
       og_DeviceInfo = io_DeviceInfo opts, og_SSOEnabled = io_SSOEnabled opts, og_App2AppDeviceKeyJWKJSON = '''',
       og_DeviceSecretHash = '''', og_DeviceSecretDPoPJKT = '''', og_RefreshTokens = [refreshToken],
       og_ParticipatedSAMLServiceProviderIDs = [], og_Deprecated_AuthorizationID = '''', og_Deprecated_Scopes = [],
       og_Deprecated_TokenHash = '''', og_ExpireAtForResolvedSession = zero_time\<rparr>)"

definition IssueOfflineGrant ::
    "('r, 'm, 'x) oauth_deps \<Rightarrow> ('r, 'm, 'x) oauth_env \<Rightarrow> time \<Rightarrow> string \<Rightarrow> string \<Rightarrow> string \<Rightarrow> OAuthClientConfig
     \<Rightarrow> IssueOfflineGrantOptions \<Rightarrow> token_response \<Rightarrow> ('r, 'm, 'x, OfflineGrant \<times> string \<times> token_response) sess_proc" where
  "IssueOfflineGrant deps env now uuid token deviceSecret client opts resp = (let
     tokenHash = e_hash env token;
     offlineGrant = new_offline_grant env now uuid tokenHash client opts
   in bindp (if io_IssueDeviceSecret opts
             then bindp (IssueDeviceSecret env deviceSecret resp) (\<lambda>(deviceSecretHash, resp).
               ret (offlineGrant\<lparr>og_DeviceSecretHash := deviceSecretHash, og_DeviceSecretDPoPJKT := io_DPoPJKT opts\<rparr>, resp))
             else ret (offlineGrant, resp)) (\<lambda>(offlineGrant, resp). let
        offlineGrant = (case io_App2AppDeviceKey opts of
          Some key \<Rightarrow> offlineGrant\<lparr>og_App2AppDeviceKeyJWKJSON := key\<rparr> | None \<Rightarrow> offlineGrant)
      in bindp (outcome_proc (ComputeOfflineGrantExpiry (d_ResolveClient deps) offlineGrant)) (\<lambda>expiry. let
         offlineGrant = offlineGrant\<lparr>og_ExpireAtForResolvedSession := expiry\<rparr>
      in bindp (CreateOfflineGrant env now offlineGrant) (\<lambda>_.
         bindp (InitStream env (og_ID offlineGrant) expiry (InitialAccess (og_AccessInfo offlineGrant))) (\<lambda>_.
         bindp (if resp \<noteq> None then respond ''refresh_token'' (EncodeRefreshToken token (og_ID offlineGrant)) resp else ret resp) (\<lambda>resp.
         ret (offlineGrant, tokenHash, resp)))))))"

text \<open>Reading the ID of the grant that housekeeping left, when it left none, panics.\<close>

definition IssueRefreshTokenForOfflineGrant ::
    "('r, 'm, 'x) oauth_deps \<Rightarrow> ('r, 'm, 'x) oauth_env \<Rightarrow> time \<Rightarrow> string \<Rightarrow> string \<Rightarrow> OAuthClientConfig \<Rightarrow> string list \<Rightarrow> string \<Rightarrow> string
     \<Rightarrow> token_response \<Rightarrow> ('r, 'm, 'x, OfflineGrant option \<times> string \<times> token_response) sess_proc" where
  "IssueRefreshTokenForOfflineGrant deps env now newToken offlineGrantID client scopes authorizationID dpopJKT resp =
     bindp (GetOfflineGrant deps env now offlineGrantID) (\<lambda>offlineGrant.
     bindp (CreateNewRefreshToken deps env now newToken offlineGrant \<lparr>new_ClientID = cl_ClientID client, new_Scopes = scopes,
       new_AuthorizationID = authorizationID, new_DPoPJKT = dpopJKT, new_ShortLivedRefreshTokenExpireAt = None\<rparr>) (\<lambda>((token, tokenHash), newGrant).
     bindp (if resp \<noteq> None
            then bindp (outcome_proc (deref newGrant)) (\<lambda>g. respond ''refresh_token'' (EncodeRefreshToken token (og_ID g)) resp)
            else ret resp) (\<lambda>resp.
     ret (newGrant, tokenHash, resp))))"

text \<open>The rotated token, when there is one, and the access token.\<close>

definition PrepareUserAccessGrantByRefreshToken ::
    "('r, 'm, 'x) token_deps \<Rightarrow> ('r, 'm, 'x) oauth_env \<Rightarrow> time \<Rightarrow> string \<Rightarrow> string \<Rightarrow> PrepareUserAccessGrantOptions \<Rightarrow> bool
     \<Rightarrow> ('r, 'm, 'x, (string \<times> string \<times> string) option \<times> prepared_access_token) sess_proc" where
  "PrepareUserAccessGrantByRefreshToken td env now newRefreshToken newAccessToken options shouldRotateRefreshToken =
     bindp (if shouldRotateRefreshToken \<and> pu_SessionType options = TypeOfflineGrant \<and> pu_InitialRefreshTokenHash options \<noteq> ''''
            then bindp (GetOfflineGrant (t_deps td) env now (pu_SessionID options)) (\<lambda>grant.
                 bindp (RotateRefreshToken (t_deps td) env now newRefreshToken grant (pu_InitialRefreshTokenHash options)) (\<lambda>(rotated, _).
                 ret (Some rotated)))
            else ret None) (\<lambda>rotateResult.
     bindp (PrepareUserAccessGrant td env now newAccessToken options) (\<lambda>prepared.
     ret (rotateResult, prepared)))"

definition ErrInvalidRefreshToken :: sess_error where
  "ErrInvalidRefreshToken = ProtocolErr ''invalid_grant'' ''invalid refresh token''"

definition ParseRefreshToken ::
    "('r, 'm, 'x) oauth_deps \<Rightarrow> ('r, 'm, 'x) oauth_env \<Rightarrow> dpop_proof \<Rightarrow> time \<Rightarrow> string
     \<Rightarrow> ('r, 'm, 'x, Authorization \<times> OfflineGrant \<times> string) sess_proc" where
  "ParseRefreshToken deps env proof now encoded = (case DecodeRefreshToken encoded of
     None \<Rightarrow> failp ErrInvalidRefreshToken
   | Some (token, grantID) \<Rightarrow>
       bindp (translate ErrGrantNotFound ErrInvalidRefreshToken (GetOfflineGrant deps env now grantID)) (\<lambda>offlineGrant. let
         tokenHash = e_hash env token
       in if \<not> Grant_MatchCurrentHash offlineGrant tokenHash then failp ErrInvalidRefreshToken
          else case ToSession offlineGrant tokenHash of
            None \<Rightarrow> failp ErrInvalidRefreshToken
          | Some offlineGrantSession \<Rightarrow>
              bindp (outcome_proc (Session_MatchDPoPJKT offlineGrantSession proof
                (d_ResolveClient deps (ogs_ClientID offlineGrantSession)))) (\<lambda>_.
              bindp (translate ErrAuthorizationNotFound ErrInvalidRefreshToken
                (d_Authz_GetByID deps (ogs_AuthorizationID offlineGrantSession))) (\<lambda>authz.
              bindp (translate ErrUserNotFound ErrInvalidRefreshToken
                (d_Users_GetRaw deps (UserID (og_Attrs offlineGrant)))) (\<lambda>u.
              case account_check now u of
                Ok None \<Rightarrow> ret (authz, offlineGrant, tokenHash)
              | Ok (Some err) \<Rightarrow> failp ErrInvalidRefreshToken
              | Err _ \<Rightarrow> panicp
              | Panic \<Rightarrow> panicp)))))"

section \<open>Revocation\<close>

definition revokeOfflineGrant ::
    "('r, 'm, 'x) token_deps \<Rightarrow> ('r, 'm, 'x) oauth_env \<Rightarrow> time \<Rightarrow> string \<Rightarrow> string \<Rightarrow> ('r, 'm, 'x, unit) sess_proc" where
  "revokeOfflineGrant td env now token grantID =
     bindp (attempt (GetOfflineGrant (t_deps td) env now grantID)) (\<lambda>res. case res of
       Inl ErrGrantNotFound \<Rightarrow> ret ()
     | Inl e \<Rightarrow> failp e
     | Inr offlineGrant \<Rightarrow>
         if \<not> Grant_MatchCurrentHash offlineGrant (e_hash env token) then ret ()
         else RevokeWithEvent (t_sessions td) now (og_base offlineGrant) False False)"

definition revokeAccessGrant ::
    "('r, 'm, 'x) oauth_env \<Rightarrow> time \<Rightarrow> string \<Rightarrow> ('r, 'm, 'x, unit) sess_proc" where
  "revokeAccessGrant env now token =
     bindp (attempt (GetAccessGrant env now (e_hash env token))) (\<lambda>res. case res of
       Inl ErrGrantNotFound \<Rightarrow> ret ()
     | Inl e \<Rightarrow> failp e
     | Inr accessGrant \<Rightarrow> DeleteAccessGrant env now accessGrant)"

definition Revoke_Handle ::
    "('r, 'm, 'x) token_deps \<Rightarrow> ('r, 'm, 'x) oauth_env \<Rightarrow> time \<Rightarrow> string \<Rightarrow> ('r, 'm, 'x, unit) sess_proc" where
  "Revoke_Handle td env now requestToken = (case DecodeRefreshToken requestToken of
     Some (token, grantID) \<Rightarrow> revokeOfflineGrant td env now token grantID
   | None \<Rightarrow> revokeAccessGrant env now requestToken)"

section \<open>Code grants and pre-authenticated URL tokens\<close>

definition duration_Short :: duration where "duration_Short = 5 * 60 * 1000000000"

definition CodeGrantService_Create ::
    "('r, 'm, 'x) oauth_env \<Rightarrow> time \<Rightarrow> string \<Rightarrow> Authorization \<Rightarrow> full_authentication_info \<Rightarrow> string \<Rightarrow> string
     \<Rightarrow> (string \<Rightarrow> string option) \<Rightarrow> string \<Rightarrow> ('r, 'm, 'x, string \<times> CodeGrant) sess_proc" where
  "CodeGrantService_Create env now code authz info idTokenHintSID redirectURI request dpopJKT = (let
     codeGrant = \<lparr>cg_AppID = e_AppID env, cg_AuthorizationID = az_ID authz, cg_AuthenticationInfo = info,
       cg_IDTokenHintSID = idTokenHintSID, cg_CreatedAt = now, cg_ExpireAt = now + duration_Short,
       cg_CodeHash = e_hash env code, cg_DPoPJKT = dpopJKT, cg_RedirectURI = redirectURI,
       cg_AuthorizationRequest = request, cg_IdentitySpecs = ai_IdentitySpecs info\<rparr>
   in bindp (CreateCodeGrant env now codeGrant) (\<lambda>_. ret (code, codeGrant)))"

definition SettingsActionGrantService_Create ::
    "('r, 'm, 'x) oauth_env \<Rightarrow> time \<Rightarrow> string \<Rightarrow> string \<Rightarrow> string \<Rightarrow> (string \<Rightarrow> string option)
     \<Rightarrow> ('r, 'm, 'x, string \<times> SettingsActionGrant) sess_proc" where
  "SettingsActionGrantService_Create env now code userID redirectURI request = (let
     grant = \<lparr>sg_AppID = e_AppID env, sg_UserID = userID, sg_CreatedAt = now, sg_ExpireAt = now + duration_Short,
       sg_CodeHash = e_hash env code, sg_RedirectURI = redirectURI, sg_AuthorizationRequest = request\<rparr>
   in bindp (CreateSettingsActionGrant env now grant) (\<lambda>_. ret (code, grant)))"

record IssuePreAuthenticatedURLTokenOptions =
  ip_AppID :: string
  ip_ClientID :: string
  ip_OfflineGrantID :: string
  ip_AuthorizationID :: string
  ip_Scopes :: "string list"

definition IssuePreAuthenticatedURLToken ::
    "('r, 'm, 'x) oauth_env \<Rightarrow> time \<Rightarrow> string \<Rightarrow> IssuePreAuthenticatedURLTokenOptions \<Rightarrow> ('r, 'm, 'x, string \<times> string) sess_proc" where
  "IssuePreAuthenticatedURLToken env now token options = (let tokenHash = e_hash env token
   in bindp (CreatePreAuthenticatedURLToken env now \<lparr>pt_AppID = ip_AppID options, pt_AuthorizationID = ip_AuthorizationID options,
        pt_ClientID = ip_ClientID options, pt_OfflineGrantID = ip_OfflineGrantID options, pt_Scopes = ip_Scopes options,
        pt_CreatedAt = now, pt_ExpireAt = now + duration_Short, pt_TokenHash = tokenHash\<rparr>) (\<lambda>_.
      ret (token, tokenHash)))"

definition ExchangeForAccessToken ::
    "('r, 'm, 'x) token_deps \<Rightarrow> ('r, 'm, 'x) oauth_env \<Rightarrow> time \<Rightarrow> string \<Rightarrow> string \<Rightarrow> OAuthClientConfig \<Rightarrow> string \<Rightarrow> string
     \<Rightarrow> ('r, 'm, 'x, prepared_access_token) sess_proc" where
  "ExchangeForAccessToken td env now newRefreshToken newAccessToken client sessionID token =
     bindp (ConsumePreAuthenticatedURLToken env now (e_hash env token)) (\<lambda>tokenModel.
     if pt_ClientID tokenModel \<noteq> cl_ClientID client then failp ErrUnmatchedClient
     else if pt_OfflineGrantID tokenModel \<noteq> sessionID then failp ErrUnmatchedSession
     else bindp (GetOfflineGrant (t_deps td) env now (pt_OfflineGrantID tokenModel)) (\<lambda>offlineGrant.
       bindp (CreateNewRefreshToken (t_deps td) env now newRefreshToken offlineGrant
          \<lparr>new_ClientID = pt_ClientID tokenModel, new_Scopes = pt_Scopes tokenModel,
           new_AuthorizationID = pt_AuthorizationID tokenModel, new_DPoPJKT = '''',
           new_ShortLivedRefreshTokenExpireAt = Some (now + Duration (cl_AccessTokenLifetime client))\<rparr>) (\<lambda>((_, newTokenHash), newGrant).
       bindp (outcome_proc (deref newGrant)) (\<lambda>offlineGrant.
       PrepareUserAccessGrant td env now newAccessToken \<lparr>pu_ClientConfig = client, pu_Scopes = pt_Scopes tokenModel,
         pu_AuthorizationID = pt_AuthorizationID tokenModel, pu_AuthenticationInfo = Grant_GetAuthenticationInfo offlineGrant,
         pu_SessionID = og_ID offlineGrant, pu_SessionType = TypeOfflineGrant, pu_InitialRefreshTokenHash = newTokenHash\<rparr>))))"

section \<open>Rotation\<close>

lemma Grant_MatchCurrentHash_iff: "Grant_MatchCurrentHash g x \<longleftrightarrow>
  x = og_Deprecated_TokenHash g \<or> (\<exists>token \<in> set (og_RefreshTokens g). MatchCurrentHash token x)"
proof -
  have "foldl (\<lambda>r token. if MatchCurrentHash token x then True else r) b ts \<longleftrightarrow> b \<or> (\<exists>token \<in> set ts. MatchCurrentHash token x)" for b ts
    by (induction ts arbitrary: b) auto
  then show ?thesis by (simp add: Grant_MatchCurrentHash_def)
qed

lemma rotate_first_set:
  assumes "rotate_first h h' now ts = Some ts'" "distinct (map rt_InitialTokenHash ts)" "u \<in> set ts'"
  shows "(u \<in> set ts \<and> rt_InitialTokenHash u \<noteq> h) \<or> rt_RotatedTokenHash u = Some h'"
  using assms
proof (induction ts arbitrary: ts')
  case (Cons a ts)
  then show ?case by (fastforce simp: MatchInitialHash_def image_iff split: if_splits)
qed simp

context oauth_system
begin

lemma rotated_tokens:
  assumes ok: "grants_ok env view now (w_redis w)" and "RotateRefreshToken deps env now new g h w = (Ok r, w')"
    and "og_ID g = gid" "ComputeOfflineGrantExpiry (d_ResolveClient deps) g = Ok e" "now < e"
    and "grant_table env view now (w_redis w) gid = Some g0" "og_CreatedAt g0 = og_CreatedAt g" "og_AccessInfo g0 = og_AccessInfo g"
      "og_InitialClientID g0 = og_InitialClientID g"
    and "now \<le> t'" "grant_table env view t' (w_redis w') gid = Some q"
  obtains ts where "rotate_first h (e_hash env new) now (og_RefreshTokens g0) = Some ts" "set (og_RefreshTokens q) \<subseteq> set ts"
    "og_Deprecated_TokenHash q = og_Deprecated_TokenHash g0"
proof -
  from assms(2-4) obtain g1 w1 g2 where rot: "RotateOfflineGrantRefreshToken env now gid h (e_hash env new) e w = (Ok g1, w1)"
    and hk: "housekeepOfflineGrant deps env now g1 w1 = (Ok g2, w')"
    by (auto simp: RotateRefreshToken_def Let_def bindp_Ok outcome_proc_Ok run_simps)
  obtain ts where ts: "rotate_first h (e_hash env new) now (og_RefreshTokens g0) = Some ts"
    and g1: "g1 = (read_grant g0)\<lparr>og_RefreshTokens := ts, og_ExpireAtForResolvedSession := e\<rparr>"
    and t1: "\<And>t. now \<le> t \<Longrightarrow> t < now + ttl_ms (e - now) \<Longrightarrow> grant_table env view t (w_redis w1) =
      (grant_table env view t (w_redis w))(gid \<mapsto> stored_grant ((read_grant g0)\<lparr>og_RefreshTokens := ts\<rparr>))"
    by (rule rotate_run [OF ok assms(5) rot]) (use assms(6) in auto)
  have ttl: "now < now + ttl_ms (e - now)" using ttl_ms_bounds(1) [of "e - now"] assms(5) by simp
  note t1 = t1 [OF order_refl ttl]
  have ok1: "grants_ok env view now (w_redis w1)" using validD(1) [OF rotate_grant_valid rot ok] .
  have "ComputeOfflineGrantExpiry (d_ResolveClient deps) g1 = Ok e"
    using assms(4,7-9) g1 by (simp add: ComputeOfflineGrantExpiry_def split: option.splits)
  with hk obtain hs where rm: "RemoveOfflineGrantRefreshTokens env now (og_ID g1) hs e w1 = (Ok g2, w')"
    by (auto simp: housekeepOfflineGrant_def bindp_Ok outcome_proc_Ok)
  have id: "og_ID g1 = gid"
    using g1 grants_okD [OF ok order_refl, of gid] assms(6) by (auto simp: grant_table_def split: option.splits oauth_value.splits)
  have "run_update env now gid e (UpdRemoveTokens hs) w1 = (Ok g2, w')" using rm id by simp
  from update_refines [OF ok1 assms(5) this order_refl ttl] t1
  have "grant_table env view now (w_redis w') gid \<in> {None, Some (stored_grant (without_tokens hs (read_grant
      (stored_grant ((read_grant g0)\<lparr>og_RefreshTokens := ts\<rparr>)))))}"
    by (auto split: if_splits)
  moreover have "grant_table env view now (w_redis w') gid = Some q"
    using assms(10,11) view_Some_earlier [OF assms(10)] by (auto simp: grant_table_def split: option.splits oauth_value.splits)
  ultimately have q: "q = stored_grant (without_tokens hs (read_grant (stored_grant ((read_grant g0)\<lparr>og_RefreshTokens := ts\<rparr>))))" by simp
  show thesis
    by (rule that [OF ts]) (auto simp: q stored_grant_def without_tokens_def read_grant_def)
qed

end

text \<open>What a request with a refresh token rests on.\<close>

lemma ParseRefreshToken_Ok:
  assumes "ParseRefreshToken deps env proof now encoded w = (Ok (authz, g, tokenHash), w')"
  obtains token gid w1 where "DecodeRefreshToken encoded = Some (token, gid)" "GetOfflineGrant deps env now gid w = (Ok g, w1)"
    "tokenHash = e_hash env token" "Grant_MatchCurrentHash g tokenHash"
proof -
  from assms obtain token gid w1 p where d: "DecodeRefreshToken encoded = Some (token, gid)" "GetOfflineGrant deps env now gid w = (Ok g, w1)"
    "(if \<not> Grant_MatchCurrentHash g (e_hash env token) then failp ErrInvalidRefreshToken else p) w1 = (Ok (authz, g, tokenHash), w')"
    "tokenHash = e_hash env token"
    unfolding ParseRefreshToken_def Let_def
    by (cases "DecodeRefreshToken encoded")
      (fastforce simp: bindp_Ok run_simps outcome_proc_Ok check_passed split: prod.splits option.splits if_splits)+
  then show thesis by (intro that) (auto simp: run_simps split: if_splits)
qed


text \<open>The grant of the demo, whose tokens have hashes of real tokens.\<close>

definition demo_rotating :: "(oauth_value sstore, unit, demo_side) sess_world" where
  "demo_rotating = snd (CreateOfflineGrant demo_env 1 (demo_grant ''g5'' ''c1'') demo_granted)"


section \<open>Revoking JWT access tokens\<close>

lemma split2_dot: "c \<in> set s \<Longrightarrow> split2 c s = Some (takeWhile (\<lambda>x. x \<noteq> c) s, tl (dropWhile (\<lambda>x. x \<noteq> c) s))"
  by (induction s) auto

text \<open>The revocation endpoint never revokes a JWT access token: a JWT contains a dot, so it is taken for a
  refresh token of the grant named by what precedes it; no grant has that ID, and the request answers
  without touching the store. The token keeps resolving to the session it resolved to before.\<close>

theorem jwt_access_token_not_revoked:
  assumes "session_keys (e_redis env) view hview" "CHR ''.'' \<in> set jwt"
    and "view now (w_redis w) (offlineGrantKey (e_AppID env) (takeWhile (\<lambda>c. c \<noteq> CHR ''.'') jwt)) = None"
  shows "resolveAccessToken deps env jl t' jwt (snd (Revoke_Handle td env now jwt w)) = resolveAccessToken deps env jl t' jwt w"
proof -
  from assms(1) have keys: "oauth_keys env view hview" by (simp add: oauth_keys_def)
  let ?gid = "takeWhile (\<lambda>c. c \<noteq> CHR ''.'') jwt"
  obtain res w1 where g: "GetOfflineGrantWithoutExpireAt env now ?gid w = (res, w1)" by fastforce
  note load = g [unfolded GetOfflineGrantWithoutExpireAt_def]
  have "w1 = w" "res \<noteq> Panic" "\<not> is_ok res"
    using oauth_keys.load_run(1,4) [OF keys load] oauth_keys.load_run(2) [OF keys load] assms(3) by (auto dest: is_okD)
  then obtain e where "GetOfflineGrant (t_deps td) env now ?gid w = (Err e, w)"
    using g by (cases res) (auto simp: GetOfflineGrant_def bindp_def)
  then have "snd (revokeOfflineGrant td env now (tl (dropWhile (\<lambda>c. c \<noteq> CHR ''.'') jwt)) ?gid w) = w"
    by (cases e) (auto simp: revokeOfflineGrant_def bindp_def attempt_def run_simps)
  then show ?thesis using assms(2) by (simp add: Revoke_Handle_def DecodeRefreshToken_def split2_dot)
qed

definition demo_jwt_library :: jwt_library where
  "demo_jwt_library = \<lparr>jl_Parse = (\<lambda>s. if s = ''eyJ.p.s'' then Some ''hat2'' else None), jl_Validate = (\<lambda>_ _. True)\<rparr>"

definition demo_token_deps :: "(oauth_value sstore, unit, demo_side) token_deps" where
  "demo_token_deps = \<lparr>t_deps = demo_deps, t_PrepareJWT = (\<lambda>g i l. ret ''event''), t_SignJWT = (\<lambda>e. ret ''eyJ.p.s''),
     t_sessions = demo_manager\<rparr>"

theorem jwt_access_token_not_revoked_witness:
  "is_ok (fst (resolveAccessToken demo_deps demo_env demo_jwt_library 3 ''eyJ.p.s'' (snd (Revoke_Handle demo_token_deps demo_env 2 ''eyJ.p.s'' demo_tokens))))"
proof -
  have "ss_view 2 (w_redis demo_tokens) (offlineGrantKey (e_AppID demo_env) (takeWhile (\<lambda>c. c \<noteq> CHR ''.'') ''eyJ.p.s'')) = None"
    by code_simp
  from jwt_access_token_not_revoked [OF demo_laws(1) _ this, of demo_deps demo_jwt_library 3 demo_token_deps]
  have "resolveAccessToken demo_deps demo_env demo_jwt_library 3 ''eyJ.p.s'' (snd (Revoke_Handle demo_token_deps demo_env 2 ''eyJ.p.s'' demo_tokens)) =
      resolveAccessToken demo_deps demo_env demo_jwt_library 3 ''eyJ.p.s'' demo_tokens" by simp
  moreover have "is_ok (fst (resolveAccessToken demo_deps demo_env demo_jwt_library 3 ''eyJ.p.s'' demo_tokens))" by code_simp
  ultimately show ?thesis by simp
qed

end
