(* ===== verification/TokenHandler.thy ===== *)
theory TokenHandler imports TokenService Sid Limiter begin

text \<open>
  The token endpoint: \<^verbatim>\<open>handler_token.go\<close> and \<^verbatim>\<open>ratelimit.go\<close> of \<^verbatim>\<open>pkg/lib/oauth/handler\<close>, the requests
  of \<^verbatim>\<open>pkg/lib/oauth/protocol\<close>, \<^verbatim>\<open>pkce\<close> of \<^verbatim>\<open>pkg/util\<close>, and the client credentials of
  \<^verbatim>\<open>secret_data.go\<close>. Parameters: the rate limiter, the resolver of the UI parameters, the ID token
  issuer, the verifier of app-to-app JWTs, the challenges, the events, SHA-256, and the grant types
  that run an interaction (anonymous, biometric, app-to-app) or ask the resource service (client
  credentials). A response is the map of its string members; \<open>expires_in\<close> is in the result of the
  access token.
\<close>

section \<open>Requests\<close>

type_synonym token_request = "string \<Rightarrow> string"
type_synonym authorization_request = "string \<Rightarrow> string option"

definition parseSpaceDelimitedString :: "string \<Rightarrow> string list" where
  "parseSpaceDelimitedString s = (if s = '''' then [] else split_char (CHR '' '') s)"

definition GrantType :: "token_request \<Rightarrow> string" where "GrantType r = r ''grant_type''"
definition Req_Code :: "token_request \<Rightarrow> string" where "Req_Code r = r ''code''"
definition Req_RedirectURI :: "token_request \<Rightarrow> string" where "Req_RedirectURI r = r ''redirect_uri''"
definition Req_ClientID :: "token_request \<Rightarrow> string" where "Req_ClientID r = r ''client_id''"
definition Req_RefreshToken :: "token_request \<Rightarrow> string" where "Req_RefreshToken r = r ''refresh_token''"
definition Req_JWT :: "token_request \<Rightarrow> string" where "Req_JWT r = r ''jwt''"
definition App2AppDeviceKeyJWT :: "token_request \<Rightarrow> string" where "App2AppDeviceKeyJWT r = r ''x_app2app_device_key_jwt''"
definition ClientSecret :: "token_request \<Rightarrow> string" where "ClientSecret r = r ''client_secret''"
definition Req_Scope :: "token_request \<Rightarrow> string list" where "Req_Scope r = parseSpaceDelimitedString (r ''scope'')"
definition RequestedTokenType :: "token_request \<Rightarrow> string" where "RequestedTokenType r = r ''requested_token_type''"
definition Audience :: "token_request \<Rightarrow> string" where "Audience r = r ''audience''"
definition SubjectTokenType :: "token_request \<Rightarrow> string" where "SubjectTokenType r = r ''subject_token_type''"
definition SubjectToken :: "token_request \<Rightarrow> string" where "SubjectToken r = r ''subject_token''"
definition ActorTokenType :: "token_request \<Rightarrow> string" where "ActorTokenType r = r ''actor_token_type''"
definition ActorToken :: "token_request \<Rightarrow> string" where "ActorToken r = r ''actor_token''"
definition DeviceSecret :: "token_request \<Rightarrow> string" where "DeviceSecret r = r ''device_secret''"
definition Resource :: "token_request \<Rightarrow> string" where "Resource r = r ''resource''"
definition CodeVerifier :: "token_request \<Rightarrow> string" where "CodeVerifier r = r ''code_verifier''"
definition Req_CodeChallenge :: "token_request \<Rightarrow> string" where "Req_CodeChallenge r = r ''code_challenge''"
definition CodeChallengeMethod :: "token_request \<Rightarrow> string" where "CodeChallengeMethod r = r ''code_challenge_method''"

text \<open>A missing key of the authorization request reads as the empty string.\<close>

definition areq :: "authorization_request \<Rightarrow> string \<Rightarrow> string" where
  "areq r k = (case r k of None \<Rightarrow> '''' | Some v \<Rightarrow> v)"

definition Scope :: "authorization_request \<Rightarrow> string list" where "Scope r = parseSpaceDelimitedString (areq r ''scope'')"
definition CodeChallenge :: "authorization_request \<Rightarrow> string" where "CodeChallenge r = areq r ''code_challenge''"
definition Nonce :: "authorization_request \<Rightarrow> string" where "Nonce r = areq r ''nonce''"
definition SSOEnabled :: "authorization_request \<Rightarrow> bool" where "SSOEnabled r \<longleftrightarrow> areq r ''x_sso_enabled'' = ''true''"

section \<open>PKCE\<close>

definition code_verifier_char :: "char \<Rightarrow> bool" where
  "code_verifier_char c \<longleftrightarrow> c \<in> set ''-._~'' \<or> (CHR ''A'' \<le> c \<and> c \<le> CHR ''Z'') \<or> (CHR ''a'' \<le> c \<and> c \<le> CHR ''z'') \<or> (CHR ''0'' \<le> c \<and> c \<le> CHR ''9'')"

definition NewS256Verifier :: "string \<Rightarrow> string option" where
  "NewS256Verifier codeVerifier =
     (if 43 \<le> length codeVerifier \<and> length codeVerifier \<le> 128 \<and> list_all code_verifier_char codeVerifier
      then Some codeVerifier else None)"

text \<open>\<open>sha256\<close> gives the 32 bytes of the hash.\<close>

definition Verifier_Challenge :: "(string \<Rightarrow> string) \<Rightarrow> string \<Rightarrow> string" where
  "Verifier_Challenge sha256 verifier = base64_encode (sha256 verifier)"

definition Verifier_Verify :: "(string \<Rightarrow> string) \<Rightarrow> string \<Rightarrow> string \<Rightarrow> bool" where
  "Verifier_Verify sha256 verifier challenge \<longleftrightarrow> challenge = Verifier_Challenge sha256 verifier"

section \<open>Client credentials\<close>

record OAuthClientCredentialsItem =
  cred_ClientID :: string
  cred_Keys :: "string list"

definition Lookup :: "OAuthClientCredentialsItem list \<Rightarrow> string \<Rightarrow> OAuthClientCredentialsItem option" where
  "Lookup items clientID = List.find (\<lambda>item. cred_ClientID item = clientID) items"

definition Mask :: "string \<Rightarrow> string" where
  "Mask s = (let l = length s in if l \<le> 1 then ''******''
     else if l < 8 then take (l div 2) s @ ''******'' else take 4 s @ ''******'')"

text \<open>The loop stops at the first key that is equal.\<close>

definition validateClientSecret :: "OAuthClientCredentialsItem list \<Rightarrow> OAuthClientConfig \<Rightarrow> string \<Rightarrow> sess_error + string" where
  "validateClientSecret credentials client clientSecret = (case Lookup credentials (cl_ClientID client) of
     None \<Rightarrow> Inl (ProtocolErr ''invalid_request'' ''client secret is not supported for the client'')
   | Some item \<Rightarrow> (let
       maskedSecret = (case List.find (\<lambda>secret. clientSecret = secret) (cred_Keys item) of None \<Rightarrow> '''' | Some secret \<Rightarrow> Mask secret)
       in if maskedSecret = '''' then Inl (ProtocolErr ''invalid_request'' ''invalid client secret'') else Inr maskedSecret))"

section \<open>The handler's parts\<close>

record id_token_options =
  it_ClientID :: string
  it_SID :: string
  it_Nonce :: string
  it_AuthenticationInfo :: authentication_info
  it_ClientLike :: ClientLike
  it_DeviceSecretHash :: string
  it_IdentitySpecs :: "string list"

datatype token_event =
    UserReauthenticated string OfflineGrant
  | UserAuthenticated string OfflineGrant

text \<open>A claim of an ID token is a string, or something else.\<close>

datatype id_claim = ClaimString string | ClaimOther

record ('r, 'm, 'x) handler_deps =
  h_token :: "('r, 'm, 'x) token_deps"
  h_Allow :: "time \<Rightarrow> BucketSpec \<Rightarrow> ('r, 'm, 'x, FailedReservation option) sess_proc"
  h_ResolveForAuthorizationEndpoint :: "OAuthClientConfig \<Rightarrow> authorization_request \<Rightarrow> ('r, 'm, 'x, unit) sess_proc"
  h_PrepareIDToken :: "id_token_options \<Rightarrow> ('r, 'm, 'x, string) sess_proc"
  h_MakeIDToken :: "string \<Rightarrow> ('r, 'm, 'x, string) sess_proc"
  h_VerifyIDToken :: "string \<Rightarrow> (string \<Rightarrow> id_claim option) option"
  h_Iss :: string
  h_App2App_ParseTokenUnverified :: "time \<Rightarrow> string \<Rightarrow> (string \<times> string) option"
  h_App2App_ParseToken :: "time \<Rightarrow> string \<Rightarrow> string \<Rightarrow> bool"
  h_Challenges_Consume :: "time \<Rightarrow> string \<Rightarrow> ('r, 'm, 'x, string) sess_proc"
  h_Dispatch :: "token_event \<Rightarrow> ('r, 'm, 'x, unit) sess_proc"
  h_ParseDeviceInfo :: "string \<Rightarrow> string + string"
  h_sha256 :: "string \<Rightarrow> string"
  h_Credentials :: "OAuthClientCredentialsItem list"
  h_ScopeOrder :: "string set \<Rightarrow> string list"
  h_HookDisallowed :: "sess_error \<Rightarrow> bool"

abbreviation h_deps :: "('r, 'm, 'x) handler_deps \<Rightarrow> ('r, 'm, 'x) oauth_deps" where
  "h_deps th \<equiv> t_deps (h_token th)"

text \<open>The random values of one request.\<close>

record fresh_values =
  fr_AccessToken :: string
  fr_RefreshToken :: string
  fr_GrantID :: string
  fr_DeviceSecret :: string
  fr_RotatedDeviceSecret :: string
  fr_AppSessionToken :: string
  fr_AuthorizationID :: string
  fr_URLToken :: string

record HandleResult =
  hr_PrepareIDTokenResult :: "string option"
  hr_PrepareUserAccessGrantResult :: "((string \<times> string \<times> string) option \<times> prepared_access_token) option"
  hr_Response :: token_response

definition DeviceInfo :: "('r, 'm, 'x) handler_deps \<Rightarrow> token_request \<Rightarrow> string + string" where
  "DeviceInfo th r = (let encoded = r ''x_device_info'' in if encoded = '''' then Inr '''' else h_ParseDeviceInfo th encoded)"

definition errInvalidAuthzCode :: sess_error where
  "errInvalidAuthzCode = ProtocolErr ''invalid_grant'' ''invalid authorization code''"

section \<open>Rate limits\<close>

definition minute_limit :: "int \<Rightarrow> RateLimitConfig" where
  "minute_limit burst = \<lparr>rl_Enabled = Some True, rl_Period = 60 * 1000000000, rl_Burst = burst\<rparr>"

definition NewBucketSpecOAuthTokenPerIP :: "string \<Rightarrow> BucketSpec" where
  "NewBucketSpecOAuthTokenPerIP ip = NewBucketSpec RateLimitOAuthTokenGeneralPerIP RateLimitGroupOAuthTokenGeneral (minute_limit 120) OAuthTokenPerIP [ip]"

definition NewBucketSpecOAuthTokenPerUser :: "string \<Rightarrow> BucketSpec" where
  "NewBucketSpecOAuthTokenPerUser userID = NewBucketSpec RateLimitOAuthTokenGeneralPerUser RateLimitGroupOAuthTokenGeneral (minute_limit 60) OAuthTokenPerUser [userID]"

definition token_checkRateLimit :: "('r, 'm, 'x) handler_deps \<Rightarrow> time \<Rightarrow> BucketSpec \<Rightarrow> ('r, 'm, 'x, unit) sess_proc" where
  "token_checkRateLimit th now spec = bindp (h_Allow th now spec) (\<lambda>failedReservation.
     case FailedReservation_Error failedReservation of
       None \<Rightarrow> ret ()
     | Some _ \<Rightarrow> failp (ProtocolErr ''x_rate_limited'' ''rate limit exceeded, please try again later.''))"

definition checkUserRateLimit :: "('r, 'm, 'x) handler_deps \<Rightarrow> time \<Rightarrow> string \<Rightarrow> ('r, 'm, 'x, unit) sess_proc" where
  "checkUserRateLimit th now userID = token_checkRateLimit th now (NewBucketSpecOAuthTokenPerUser userID)"

section \<open>Device secrets\<close>

definition GetDPoPProofJKT :: "dpop_proof \<Rightarrow> OAuthClientConfig \<Rightarrow> (sess_error, string) outcome" where
  "GetDPoPProofJKT proof client = (case proof of
     MissingProof \<Rightarrow> Ok ''''
   | InvalidProof e \<Rightarrow> if \<not> cl_DPoPDisabled client then Err e else Ok ''''
   | ProofOf jkt \<Rightarrow> Ok jkt)"

definition rotateDeviceSecret ::
    "('r, 'm, 'x) oauth_env \<Rightarrow> dpop_proof \<Rightarrow> time \<Rightarrow> string \<Rightarrow> OAuthClientConfig \<Rightarrow> OfflineGrant \<Rightarrow> token_response
     \<Rightarrow> ('r, 'm, 'x, OfflineGrant \<times> token_response) sess_proc" where
  "rotateDeviceSecret env proof now newSecret client offlineGrant resp =
     bindp (outcome_proc (GetDPoPProofJKT proof client)) (\<lambda>dpopJKT.
     bindp (IssueDeviceSecret env newSecret resp) (\<lambda>(deviceSecretHash, resp).
     bindp (UpdateOfflineGrantDeviceSecretHash env now (og_ID offlineGrant) deviceSecretHash dpopJKT
       (og_ExpireAtForResolvedSession offlineGrant)) (\<lambda>offlineGrant.
     ret (offlineGrant, resp))))"

definition rotateDeviceSecretIfSufficientScope ::
    "('r, 'm, 'x) oauth_env \<Rightarrow> dpop_proof \<Rightarrow> time \<Rightarrow> string \<Rightarrow> OAuthClientConfig \<Rightarrow> string list \<Rightarrow> OfflineGrant \<Rightarrow> token_response
     \<Rightarrow> ('r, 'm, 'x, OfflineGrant \<times> token_response) sess_proc" where
  "rotateDeviceSecretIfSufficientScope env proof now newSecret client authorizedScopes offlineGrant resp =
     (if \<not> ContainsAllScopes authorizedScopes [DeviceSSOScope] then ret (offlineGrant, resp)
      else rotateDeviceSecret env proof now newSecret client offlineGrant resp)"

definition rotateDeviceSecretIfDeviceSecretIsPresentAndValid ::
    "('r, 'm, 'x) oauth_env \<Rightarrow> dpop_proof \<Rightarrow> time \<Rightarrow> string \<Rightarrow> OAuthClientConfig \<Rightarrow> string \<Rightarrow> string list \<Rightarrow> OfflineGrant
     \<Rightarrow> token_response \<Rightarrow> ('r, 'm, 'x, OfflineGrant \<times> token_response) sess_proc" where
  "rotateDeviceSecretIfDeviceSecretIsPresentAndValid env proof now newSecret client deviceSecret authorizedScopes offlineGrant resp =
     (if deviceSecret = '''' then ret (offlineGrant, resp)
      else if e_hash env deviceSecret \<noteq> og_DeviceSecretHash offlineGrant then ret (offlineGrant, resp)
      else rotateDeviceSecretIfSufficientScope env proof now newSecret client authorizedScopes offlineGrant resp)"

definition shouldIssueDeviceSecret :: "string list \<Rightarrow> bool" where
  "shouldIssueDeviceSecret scopes \<longleftrightarrow> list_ex (\<lambda>scope. scope = DeviceSSOScope) scopes"

section \<open>App-to-app device keys\<close>

definition app2appVerifyAndConsumeChallenge ::
    "('r, 'm, 'x) handler_deps \<Rightarrow> time \<Rightarrow> string \<Rightarrow> ('r, 'm, 'x, string \<times> string) sess_proc" where
  "app2appVerifyAndConsumeChallenge th now jwt = (case h_App2App_ParseTokenUnverified th now jwt of
     None \<Rightarrow> failp (ProtocolErr ''invalid_request'' ''invalid app2app jwt payload'')
   | Some (challenge, key) \<Rightarrow>
       bindp (attempt (h_Challenges_Consume th now challenge)) (\<lambda>purpose. case purpose of
         Inr p \<Rightarrow> if p \<noteq> ''app2app_request'' then failp (ProtocolErr ''invalid_request'' ''invalid app2app jwt challenge'')
                  else ret (challenge, key)
       | Inl _ \<Rightarrow> failp (ProtocolErr ''invalid_request'' ''invalid app2app jwt challenge'')))"

definition app2appGetDeviceKeyJWKVerified ::
    "('r, 'm, 'x) handler_deps \<Rightarrow> time \<Rightarrow> string \<Rightarrow> ('r, 'm, 'x, string) sess_proc" where
  "app2appGetDeviceKeyJWKVerified th now jwt = bindp (app2appVerifyAndConsumeChallenge th now jwt) (\<lambda>(_, key).
     if \<not> h_App2App_ParseToken th now jwt key then failp (ProtocolErr ''invalid_request'' ''invalid app2app jwt signature'')
     else ret key)"

definition app2appUpdateDeviceKeyIfNeeded ::
    "('r, 'm, 'x) oauth_env \<Rightarrow> time \<Rightarrow> OAuthClientConfig \<Rightarrow> OfflineGrant \<Rightarrow> string option \<Rightarrow> ('r, 'm, 'x, OfflineGrant) sess_proc" where
  "app2appUpdateDeviceKeyIfNeeded env now client offlineGrant app2AppDeviceKey = (case app2AppDeviceKey of
     None \<Rightarrow> ret offlineGrant
   | Some newKeyJson \<Rightarrow>
       if \<not> cl_App2appEnabled client then ret offlineGrant
       else if newKeyJson = og_App2AppDeviceKeyJWKJSON offlineGrant then ret offlineGrant
       else if \<not> cl_App2appInsecureDeviceKeyBindingEnabled client
       then failp (ProtocolErr ''invalid_request''
         ''x_app2app_insecure_device_key_binding_enabled must be true to allow updating x_app2app_device_key_jwt'')
       else if og_App2AppDeviceKeyJWKJSON offlineGrant \<noteq> '''' then failp (ProtocolErr ''invalid_grant'' ''app2app device key cannot be changed'')
       else UpdateOfflineGrantApp2AppDeviceKey env now (og_ID offlineGrant) newKeyJson (og_ExpireAtForResolvedSession offlineGrant))"

section \<open>Issuing an offline grant\<close>

fun revoke_grants :: "('r, 'm, 'x) session_manager \<Rightarrow> time \<Rightarrow> OfflineGrant list \<Rightarrow> ('r, 'm, 'x, unit) sess_proc" where
  "revoke_grants m now [] = ret ()"
| "revoke_grants m now (offlineGrant # grants) = bindp (RevokeWithoutEvent m now (og_base offlineGrant)) (\<lambda>_. revoke_grants m now grants)"

definition revokeClientOfflineGrants ::
    "('r, 'm, 'x) handler_deps \<Rightarrow> ('r, 'm, 'x) oauth_env \<Rightarrow> time \<Rightarrow> OAuthClientConfig \<Rightarrow> string \<Rightarrow> ('r, 'm, 'x, unit) sess_proc" where
  "revokeClientOfflineGrants th env now client userID =
     bindp (ListClientOfflineGrants env now (cl_ClientID client) userID) (\<lambda>offlineGrants.
     revoke_grants (t_sessions (h_token th)) now offlineGrants)"

definition issueOfflineGrant ::
    "('r, 'm, 'x) handler_deps \<Rightarrow> ('r, 'm, 'x) oauth_env \<Rightarrow> time \<Rightarrow> fresh_values \<Rightarrow> OAuthClientConfig \<Rightarrow> string \<Rightarrow> token_response
     \<Rightarrow> IssueOfflineGrantOptions \<Rightarrow> bool \<Rightarrow> ('r, 'm, 'x, OfflineGrant \<times> string \<times> token_response) sess_proc" where
  "issueOfflineGrant th env now fresh client userID resp opts revokeExistingGrants =
     bindp (if revokeExistingGrants \<and> cl_MaxConcurrentSession client = 1 then revokeClientOfflineGrants th env now client userID
            else ret ()) (\<lambda>_.
     IssueOfflineGrant (h_deps th) env now (fr_GrantID fresh) (fr_RefreshToken fresh) (fr_DeviceSecret fresh) client opts resp)"

section \<open>Tokens for an authorization code\<close>

text \<open>The re-authentication of the grant of an ID token hint; a grant that cannot be read is passed over.\<close>

definition reauthenticate_grant ::
    "('r, 'm, 'x) handler_deps \<Rightarrow> ('r, 'm, 'x) oauth_env \<Rightarrow> dpop_proof \<Rightarrow> time \<Rightarrow> fresh_values \<Rightarrow> OAuthClientConfig
     \<Rightarrow> authentication_info \<Rightarrow> string list \<Rightarrow> string option \<Rightarrow> string \<Rightarrow> token_response \<Rightarrow> ('r, 'm, 'x, token_response) sess_proc" where
  "reauthenticate_grant th env proof now fresh client info scopes app2appDevicePublicKey sid resp = (case DecodeSID sid of
     Some (TypeOfflineGrant, sessionID) \<Rightarrow>
       if sid = '''' then ret resp else
       bindp (attempt (GetOfflineGrant (h_deps th) env now sessionID)) (\<lambda>res. case res of
         Inl _ \<Rightarrow> ret resp
       | Inr offlineGrant \<Rightarrow>
           bindp (if ai_AuthenticatedAt info > og_AuthenticatedAt offlineGrant
                  then bindp (UpdateOfflineGrantAuthenticatedAt env now (og_ID offlineGrant) (ai_AuthenticatedAt info)
                         (og_ExpireAtForResolvedSession offlineGrant)) (\<lambda>_. ret ())
                  else ret ()) (\<lambda>_.
           bindp (rotateDeviceSecretIfSufficientScope env proof now (fr_RotatedDeviceSecret fresh) client scopes offlineGrant resp)
             (\<lambda>(offlineGrant, resp).
           bindp (if app2appDevicePublicKey \<noteq> None
                  then bindp (app2appUpdateDeviceKeyIfNeeded env now client offlineGrant app2appDevicePublicKey) (\<lambda>_. ret ())
                  else ret ()) (\<lambda>_.
           bindp (h_Dispatch th (UserReauthenticated (ai_UserID info) offlineGrant)) (\<lambda>_.
           ret resp)))))
   | _ \<Rightarrow> ret resp)"

text \<open>
  The session an access token is for: its ID and kind, the initial hash of its refresh token, the
  session ID and device secret hash of the ID token, and the response so far.
\<close>

record token_target =
  tt_SessionID :: string
  tt_SessionKind :: "GrantSessionKind option"
  tt_InitialRefreshTokenHash :: string
  tt_SID :: string
  tt_DeviceSecretHash :: string
  tt_Response :: token_response

definition refresh_token_target ::
    "('r, 'm, 'x) handler_deps \<Rightarrow> ('r, 'm, 'x) oauth_env \<Rightarrow> time \<Rightarrow> fresh_values \<Rightarrow> OAuthClientConfig \<Rightarrow> CodeGrant \<Rightarrow> Authorization
     \<Rightarrow> IssueOfflineGrantOptions \<Rightarrow> token_response \<Rightarrow> ('r, 'm, 'x, token_target) sess_proc" where
  "refresh_token_target th env now fresh client code authz opts resp = (let info = cg_AuthenticationInfo code in
     bindp (if ai_AuthenticatedBySessionType info = session_type_string TypeOfflineGrant
            then IssueRefreshTokenForOfflineGrant (h_deps th) env now (fr_RefreshToken fresh) (ai_AuthenticatedBySessionID info)
                   client (io_Scopes opts) (az_ID authz) (io_DPoPJKT opts) resp
            else bindp (issueOfflineGrant th env now fresh client (ai_UserID info) resp opts True) (\<lambda>(g, newTokenHash, resp).
                   ret (Some g, newTokenHash, resp))) (\<lambda>(grant, newTokenHash, resp).
     bindp (outcome_proc (deref grant)) (\<lambda>offlineGrant.
     bindp (if ai_ShouldFireAuthenticatedEvent info then h_Dispatch th (UserAuthenticated (az_UserID authz) offlineGrant) else ret ()) (\<lambda>_.
     ret \<lparr>tt_SessionID = og_ID offlineGrant, tt_SessionKind = Some GrantSessionKindOffline,
          tt_InitialRefreshTokenHash = newTokenHash, tt_SID = EncodeSID (og_base offlineGrant),
          tt_DeviceSecretHash = og_DeviceSecretHash offlineGrant, tt_Response = resp\<rparr>))))"

definition hint_target ::
    "('r, 'm, 'x) handler_deps \<Rightarrow> ('r, 'm, 'x) oauth_env \<Rightarrow> time \<Rightarrow> string \<Rightarrow> token_response \<Rightarrow> ('r, 'm, 'x, token_target) sess_proc" where
  "hint_target th env now sid resp = (let
     target = \<lparr>tt_SessionID = '''', tt_SessionKind = None, tt_InitialRefreshTokenHash = '''', tt_SID = sid,
       tt_DeviceSecretHash = '''', tt_Response = resp\<rparr>
   in case DecodeSID sid of
     None \<Rightarrow> ret target
   | Some (TypeOfflineGrant, sessionID) \<Rightarrow> bindp (GetOfflineGrant (h_deps th) env now sessionID) (\<lambda>offlineGrant.
       ret (target\<lparr>tt_SessionID := sessionID, tt_SessionKind := Some GrantSessionKindOffline,
         tt_DeviceSecretHash := og_DeviceSecretHash offlineGrant\<rparr>))
   | Some (TypeIdentityProvider, sessionID) \<Rightarrow>
       ret (target\<lparr>tt_SessionID := sessionID, tt_SessionKind := Some GrantSessionKindSession\<rparr>))"

definition confidential_target ::
    "('r, 'm, 'x) handler_deps \<Rightarrow> ('r, 'm, 'x) oauth_env \<Rightarrow> time \<Rightarrow> fresh_values \<Rightarrow> OAuthClientConfig \<Rightarrow> string
     \<Rightarrow> IssueOfflineGrantOptions \<Rightarrow> token_response \<Rightarrow> ('r, 'm, 'x, token_target) sess_proc" where
  "confidential_target th env now fresh client userID opts resp =
     bindp (issueOfflineGrant th env now fresh client userID None opts False) (\<lambda>(offlineGrant, _, _).
     ret \<lparr>tt_SessionID = og_ID offlineGrant, tt_SessionKind = Some GrantSessionKindOffline,
          tt_InitialRefreshTokenHash = '''', tt_SID = EncodeSID (og_base offlineGrant),
          tt_DeviceSecretHash = '''', tt_Response = resp\<rparr>)"

definition issue_refresh_token :: "OAuthClientConfig \<Rightarrow> string list \<Rightarrow> bool" where
  "issue_refresh_token client scopes \<longleftrightarrow>
     list_ex (\<lambda>scope. scope = OfflineAccess) scopes \<and> list_ex (\<lambda>t. t = RefreshTokenGrantType) (GetAllowedGrantTypes client)"

definition doIssueTokensForAuthorizationCode ::
    "('r, 'm, 'x) handler_deps \<Rightarrow> ('r, 'm, 'x) oauth_env \<Rightarrow> dpop_proof \<Rightarrow> time \<Rightarrow> fresh_values \<Rightarrow> OAuthClientConfig \<Rightarrow> CodeGrant
     \<Rightarrow> Authorization \<Rightarrow> string \<Rightarrow> string \<Rightarrow> ('r, 'm, 'x, HandleResult) sess_proc" where
  "doIssueTokensForAuthorizationCode th env proof now fresh client code authz deviceInfo app2appDeviceKeyJWT = (let
     scopes = Scope (cg_AuthorizationRequest code);
     issueDeviceToken = shouldIssueDeviceSecret scopes;
     issueIDToken = list_ex (\<lambda>scope. scope = ''openid'') scopes;
     info = cg_AuthenticationInfo code;
     authInfo = authentication_info.truncate info;
     hintSID = cg_IDTokenHintSID code
   in
     bindp (if app2appDeviceKeyJWT \<noteq> '''' \<and> cl_App2appEnabled client
            then bindp (app2appGetDeviceKeyJWKVerified th now app2appDeviceKeyJWT) (\<lambda>k. ret (Some k))
            else ret None) (\<lambda>app2appDevicePublicKey.
     bindp (if hintSID \<noteq> ''''
            then reauthenticate_grant th env proof now fresh client authInfo scopes app2appDevicePublicKey hintSID (Some (\<lambda>_. None))
            else ret (Some (\<lambda>_. None))) (\<lambda>resp.
     bindp (outcome_proc (GetDPoPProofJKT proof client)) (\<lambda>dpopJKT. let
       opts = \<lparr>io_AuthenticationInfo = authInfo, io_Scopes = scopes, io_AuthorizationID = az_ID authz,
         io_IDPSessionID = (if ai_AuthenticatedBySessionType info = session_type_string TypeIdentityProvider
           then ai_AuthenticatedBySessionID info else ''''),
         io_DeviceInfo = deviceInfo, io_IdentityID = '''', io_SSOEnabled = SSOEnabled (cg_AuthorizationRequest code),
         io_App2AppDeviceKey = app2appDevicePublicKey, io_IssueDeviceSecret = issueDeviceToken, io_DPoPJKT = dpopJKT\<rparr>
     in
     bindp (if issue_refresh_token client scopes then refresh_token_target th env now fresh client code authz opts resp
            else if hintSID \<noteq> '''' then hint_target th env now hintSID resp
            else if IsConfidential (cl_ApplicationType client) then confidential_target th env now fresh client (ai_UserID info) opts resp
            else ret \<lparr>tt_SessionID = '''', tt_SessionKind = None, tt_InitialRefreshTokenHash = '''', tt_SID = '''',
              tt_DeviceSecretHash = '''', tt_Response = resp\<rparr>) (\<lambda>target.
     case tt_SessionKind target of
       None \<Rightarrow> failp (ProtocolErr ''invalid_request'' ''cannot issue access token'')
     | Some kind \<Rightarrow>
         if tt_SessionID target = '''' then failp (ProtocolErr ''invalid_request'' ''cannot issue access token'') else
         bindp (PrepareUserAccessGrantByRefreshToken (h_token th) env now (fr_RefreshToken fresh) (fr_AccessToken fresh)
           \<lparr>pu_ClientConfig = client, pu_Scopes = scopes, pu_AuthorizationID = az_ID authz, pu_AuthenticationInfo = authInfo,
             pu_SessionID = tt_SessionID target, pu_SessionType = kind_SessionType kind,
             pu_InitialRefreshTokenHash = tt_InitialRefreshTokenHash target\<rparr> False) (\<lambda>result1.
         bindp (if issueIDToken
                then if tt_SID target = '''' then failp (ProtocolErr ''invalid_request'' ''cannot issue ID token'')
                     else bindp (h_PrepareIDToken th \<lparr>it_ClientID = cl_ClientID client, it_SID = tt_SID target,
                       it_Nonce = Nonce (cg_AuthorizationRequest code), it_AuthenticationInfo = authInfo,
                       it_ClientLike = ClientClientLike client scopes, it_DeviceSecretHash = tt_DeviceSecretHash target,
                       it_IdentitySpecs = cg_IdentitySpecs code\<rparr>) (\<lambda>p. ret (Some p))
                else ret None) (\<lambda>prepareIDTokenResult.
         ret \<lparr>hr_PrepareIDTokenResult = prepareIDTokenResult, hr_PrepareUserAccessGrantResult = Some result1,
           hr_Response = tt_Response target\<rparr>)))))))"

text \<open>Both kinds of code are checked the same way.\<close>

definition pkce_verified :: "('r, 'm, 'x) handler_deps \<Rightarrow> OAuthClientConfig \<Rightarrow> authorization_request \<Rightarrow> token_request \<Rightarrow> bool" where
  "pkce_verified th client req r =
     (if IsPublic (cl_ApplicationType client) \<or> CodeChallenge req \<noteq> '''' \<or> CodeVerifier r \<noteq> ''''
      then case NewS256Verifier (CodeVerifier r) of None \<Rightarrow> False
        | Some v \<Rightarrow> Verifier_Verify (h_sha256 th) v (CodeChallenge req)
      else True)"

definition sum_proc :: "sess_error + 'a \<Rightarrow> ('r, 'm, 'x, 'a) sess_proc" where
  "sum_proc res = (case res of Inl e \<Rightarrow> failp e | Inr x \<Rightarrow> ret x)"

definition IssueTokensForAuthorizationCode ::
    "('r, 'm, 'x) handler_deps \<Rightarrow> ('r, 'm, 'x) oauth_env \<Rightarrow> dpop_proof \<Rightarrow> time \<Rightarrow> fresh_values \<Rightarrow> OAuthClientConfig
     \<Rightarrow> token_request \<Rightarrow> ('r, 'm, 'x, HandleResult) sess_proc" where
  "IssueTokensForAuthorizationCode th env proof now fresh client r = (case DeviceInfo th r of
     Inl msg \<Rightarrow> failp (ProtocolErr ''invalid_request'' msg)
   | Inr deviceInfo \<Rightarrow>
       bindp (translate ErrGrantNotFound errInvalidAuthzCode (GetCodeGrant env now (e_hash env (Req_Code r)))) (\<lambda>codeGrant.
       bindp (outcome_proc (Code_MatchDPoPJKT codeGrant proof (Some client))) (\<lambda>_.
       bindp (h_ResolveForAuthorizationEndpoint th client (cg_AuthorizationRequest codeGrant)) (\<lambda>_.
       if now > cg_ExpireAt codeGrant then failp errInvalidAuthzCode
       else if cg_RedirectURI codeGrant \<noteq> Req_RedirectURI r then failp (ProtocolErr ''invalid_request'' ''invalid redirect URI'')
       else if \<not> pkce_verified th client (cg_AuthorizationRequest codeGrant) r then failp errInvalidAuthzCode
       else bindp (if IsConfidential (cl_ApplicationType client)
              then bindp (sum_proc (validateClientSecret (h_Credentials th) client (ClientSecret r))) (\<lambda>_. ret ())
              else ret ()) (\<lambda>_.
       bindp (translate ErrAuthorizationNotFound errInvalidAuthzCode (d_Authz_GetByID (h_deps th) (cg_AuthorizationID codeGrant))) (\<lambda>authz.
       bindp (checkUserRateLimit th now (az_UserID authz)) (\<lambda>_.
       bindp (doIssueTokensForAuthorizationCode th env proof now fresh client codeGrant authz deviceInfo (App2AppDeviceKeyJWT r)) (\<lambda>resp.
       bindp (ignore_err (DeleteCodeGrant env now codeGrant)) (\<lambda>_.
       ret resp)))))))))"

definition IssueTokensForSettingsActionCode ::
    "('r, 'm, 'x) handler_deps \<Rightarrow> ('r, 'm, 'x) oauth_env \<Rightarrow> time \<Rightarrow> OAuthClientConfig \<Rightarrow> token_request
     \<Rightarrow> ('r, 'm, 'x, HandleResult) sess_proc" where
  "IssueTokensForSettingsActionCode th env now client r =
     bindp (translate ErrGrantNotFound errInvalidAuthzCode (GetSettingsActionGrant env now (e_hash env (Req_Code r)))) (\<lambda>grant.
     bindp (checkUserRateLimit th now (sg_UserID grant)) (\<lambda>_.
     bindp (h_ResolveForAuthorizationEndpoint th client (sg_AuthorizationRequest grant)) (\<lambda>_.
     if now > sg_ExpireAt grant then failp errInvalidAuthzCode
     else if sg_RedirectURI grant \<noteq> Req_RedirectURI r then failp (ProtocolErr ''invalid_request'' ''invalid redirect URI'')
     else if \<not> pkce_verified th client (sg_AuthorizationRequest grant) r then failp errInvalidAuthzCode
     else bindp (if \<not> IsConfidential (cl_ApplicationType client) then ret ()
            else if ClientSecret r = '''' then failp (ProtocolErr ''invalid_client'' ''invalid client secret'')
            else case Lookup (h_Credentials th) (cl_ClientID client) of
              None \<Rightarrow> failp (ProtocolErr ''invalid_request'' ''client secret is not supported for the client'')
            | Some item \<Rightarrow> if ClientSecret r \<notin> set (cred_Keys item) then failp (ProtocolErr ''invalid_request'' ''invalid client secret'')
                else ret ()) (\<lambda>_.
     bindp (ignore_err (DeleteSettingsActionGrant env now grant)) (\<lambda>_.
     ret \<lparr>hr_PrepareIDTokenResult = None, hr_PrepareUserAccessGrantResult = None, hr_Response = Some (\<lambda>_. None)\<rparr>)))))"

section \<open>Refresh tokens\<close>

definition issueTokensForRefreshToken ::
    "('r, 'm, 'x) handler_deps \<Rightarrow> ('r, 'm, 'x) oauth_env \<Rightarrow> dpop_proof \<Rightarrow> time \<Rightarrow> fresh_values \<Rightarrow> OAuthClientConfig
     \<Rightarrow> OfflineGrantSession \<Rightarrow> Authorization \<Rightarrow> ('r, 'm, 'x, HandleResult) sess_proc" where
  "issueTokensForRefreshToken th env proof now fresh client offlineGrantSession authz = (let
     issueIDToken = list_ex (\<lambda>scope. scope = ''openid'') (ogs_Scopes offlineGrantSession);
     info = Grant_GetAuthenticationInfo (ogs_OfflineGrant offlineGrantSession)
   in
     bindp (rotateDeviceSecretIfSufficientScope env proof now (fr_RotatedDeviceSecret fresh) client (ogs_Scopes offlineGrantSession)
       (ogs_OfflineGrant offlineGrantSession) (Some (\<lambda>_. None))) (\<lambda>(offlineGrant, resp).
     bindp (if issueIDToken
            then bindp (h_PrepareIDToken th \<lparr>it_ClientID = cl_ClientID client, it_SID = EncodeSID (og_base (ogs_OfflineGrant offlineGrantSession)),
                it_Nonce = '''', it_AuthenticationInfo = info, it_ClientLike = ClientClientLike client (az_Scopes authz),
                it_DeviceSecretHash = og_DeviceSecretHash offlineGrant, it_IdentitySpecs = []\<rparr>) (\<lambda>p. ret (Some p))
            else ret None) (\<lambda>prepareIDTokenResult.
     bindp (PrepareUserAccessGrantByRefreshToken (h_token th) env now (fr_RefreshToken fresh) (fr_AccessToken fresh)
       \<lparr>pu_ClientConfig = client, pu_Scopes = ogs_Scopes offlineGrantSession, pu_AuthorizationID = az_ID authz, pu_AuthenticationInfo = info,
         pu_SessionID = og_ID (ogs_OfflineGrant offlineGrantSession), pu_SessionType = TypeOfflineGrant,
         pu_InitialRefreshTokenHash = ogs_InitialTokenHash offlineGrantSession\<rparr> (cl_RefreshTokenRotationEnabled client)) (\<lambda>result1.
     ret \<lparr>hr_PrepareIDTokenResult = prepareIDTokenResult, hr_PrepareUserAccessGrantResult = Some result1, hr_Response = resp\<rparr>))))"

definition handleRefreshToken ::
    "('r, 'm, 'x) handler_deps \<Rightarrow> ('r, 'm, 'x) oauth_env \<Rightarrow> dpop_proof \<Rightarrow> time \<Rightarrow> fresh_values \<Rightarrow> OAuthClientConfig
     \<Rightarrow> token_request \<Rightarrow> ('r, 'm, 'x, HandleResult) sess_proc" where
  "handleRefreshToken th env proof now fresh client r = (case DeviceInfo th r of
     Inl msg \<Rightarrow> failp (ProtocolErr ''invalid_request'' msg)
   | Inr deviceInfo \<Rightarrow>
       bindp (ParseRefreshToken (h_deps th) env proof now (Req_RefreshToken r)) (\<lambda>(authz, offlineGrant, currentRefreshTokenHash).
       bindp (checkUserRateLimit th now (UserID (og_Attrs offlineGrant))) (\<lambda>_. let
         accessEvent = NewEvent now (e_RemoteIP env) (e_UserAgent env)
       in case ToSession offlineGrant currentRefreshTokenHash of
         None \<Rightarrow> failp ErrInvalidRefreshToken
       | Some offlineGrantSession \<Rightarrow>
           bindp (issueTokensForRefreshToken th env proof now fresh client offlineGrantSession authz) (\<lambda>handleResult.
           if cl_ClientID client \<noteq> ogs_ClientID offlineGrantSession
           then failp (ProtocolErr ''invalid_request'' ''client id doesn't match the refresh token'')
           else
             bindp (AccessOfflineGrant env now (og_ID offlineGrant) (ogs_InitialTokenHash offlineGrantSession) accessEvent
               (og_ExpireAtForResolvedSession offlineGrant)) (\<lambda>_.
             bindp (UpdateOfflineGrantDeviceInfo env now (og_ID offlineGrant) deviceInfo (og_ExpireAtForResolvedSession offlineGrant)) (\<lambda>_.
             ret handleResult))))))"

definition IssueAppSessionToken ::
    "('r, 'm, 'x) handler_deps \<Rightarrow> ('r, 'm, 'x) oauth_env \<Rightarrow> dpop_proof \<Rightarrow> time \<Rightarrow> fresh_values \<Rightarrow> string
     \<Rightarrow> ('r, 'm, 'x, string \<times> AppSessionToken) sess_proc" where
  "IssueAppSessionToken th env proof now fresh refreshToken =
     bindp (ParseRefreshToken (h_deps th) env proof now refreshToken) (\<lambda>(authz, grant, currentRefreshTokenHash).
     if \<not> IsAuthorized authz [FullAccessScope]
     then failp (ProtocolErr ''access_denied'' ''the client is not authorized to have full user access'')
     else case ToSession grant currentRefreshTokenHash of
       None \<Rightarrow> panicp
     | Some session \<Rightarrow> (let
         sToken = \<lparr>ast_AppID = og_AppID grant, ast_OfflineGrantID = og_ID grant, ast_CreatedAt = now,
           ast_ExpireAt = now + duration_Short, ast_TokenHash = e_hash env (fr_AppSessionToken fresh),
           ast_InitialRefreshTokenHash = ogs_InitialTokenHash session\<rparr>
       in bindp (CreateAppSessionToken env now sToken) (\<lambda>_. ret (fr_AppSessionToken fresh, sToken))))"

section \<open>ID tokens\<close>

definition handleIDToken ::
    "('r, 'm, 'x) handler_deps \<Rightarrow> ('r, 'm, 'x) oauth_env \<Rightarrow> dpop_proof \<Rightarrow> time \<Rightarrow> fresh_values \<Rightarrow> resolved_session option
     \<Rightarrow> OAuthClientConfig \<Rightarrow> token_request \<Rightarrow> ('r, 'm, 'x, HandleResult) sess_proc" where
  "handleIDToken th env proof now fresh session client r =
     (if \<not> HasFullAccessScope (cl_ApplicationType client)
      then failp (ProtocolErr ''unauthorized_client'' ''this client may not refresh id token'')
      else case session of
        None \<Rightarrow> failp (ProtocolErr ''invalid_grant'' ''valid session is required'')
      | Some s \<Rightarrow>
          bindp (checkUserRateLimit th now (ai_UserID (rs_GetAuthenticationInfo s))) (\<lambda>_.
          bindp (case s of
              RS_Offline offlineGrantSession \<Rightarrow>
                bindp (rotateDeviceSecretIfDeviceSecretIsPresentAndValid env proof now (fr_RotatedDeviceSecret fresh) client (DeviceSecret r)
                  (ogs_Scopes offlineGrantSession) (ogs_OfflineGrant offlineGrantSession) (Some (\<lambda>_. None))) (\<lambda>(offlineGrant, resp).
                ret (og_DeviceSecretHash offlineGrant, resp))
            | RS_Idp _ \<Rightarrow> ret ('''', Some (\<lambda>_. None))) (\<lambda>(deviceSecretHash, resp).
          bindp (h_PrepareIDToken th \<lparr>it_ClientID = cl_ClientID client, it_SID = EncodeSID (rs_base s), it_Nonce = '''',
            it_AuthenticationInfo = rs_GetAuthenticationInfo s, it_ClientLike = ClientClientLike client [],
            it_DeviceSecretHash = deviceSecretHash, it_IdentitySpecs = []\<rparr>) (\<lambda>p.
          ret \<lparr>hr_PrepareIDTokenResult = Some p, hr_PrepareUserAccessGrantResult = None, hr_Response = resp\<rparr>))))"

section \<open>Token exchange\<close>

definition PreAuthenticatedURLTokenTokenType :: string where
  "PreAuthenticatedURLTokenTokenType = ''urn:authgear:params:oauth:token-type:pre-authenticated-url-token''"
definition IDTokenTokenType :: string where "IDTokenTokenType = ''urn:ietf:params:oauth:token-type:id_token''"
definition DeviceSecretTokenType :: string where "DeviceSecretTokenType = ''urn:x-oath:params:oauth:token-type:device-secret''"

text \<open>\<open>None\<close> when the token has no usable \<^verbatim>\<open>sid\<close>; the session is missing when it cannot be read.\<close>

definition resolveIDTokenSession ::
    "('r, 'm, 'x) handler_deps \<Rightarrow> ('r, 'm, 'x) oauth_env \<Rightarrow> time \<Rightarrow> (string \<Rightarrow> id_claim option)
     \<Rightarrow> ('r, 'm, 'x, listable_session option option) sess_proc" where
  "resolveIDTokenSession th env now idToken = (case idToken ''sid'' of
     Some (ClaimString sid) \<Rightarrow> (case DecodeSID sid of
       None \<Rightarrow> ret None
     | Some (TypeIdentityProvider, sessionID) \<Rightarrow>
         bindp (attempt (d_Idp_Get (h_deps th) now sessionID)) (\<lambda>res. ret (Some (case res of Inl _ \<Rightarrow> None | Inr s \<Rightarrow> Some (LIdp s))))
     | Some (TypeOfflineGrant, sessionID) \<Rightarrow>
         bindp (attempt (GetOfflineGrant (h_deps th) env now sessionID)) (\<lambda>res. ret (Some (case res of Inl _ \<Rightarrow> None | Inr g \<Rightarrow> Some (LOffline g)))))
   | _ \<Rightarrow> ret None)"

text \<open>Each check overwrites the error of the one before it.\<close>

definition verifyIDTokenDeviceSecretHash ::
    "('r, 'm, 'x) oauth_env \<Rightarrow> dpop_proof \<Rightarrow> OAuthClientConfig \<Rightarrow> OfflineGrant \<Rightarrow> (string \<Rightarrow> id_claim option) \<Rightarrow> string
     \<Rightarrow> (sess_error, unit) outcome" where
  "verifyIDTokenDeviceSecretHash env proof client offlineGrant idToken deviceSecret = (let
     deviceSecretHash = e_hash env deviceSecret;
     claim = idToken ''ds_hash'';
     dsHash = (case claim of Some (ClaimString s) \<Rightarrow> s | _ \<Rightarrow> '''');
     err = (if claim = None then Some (ProtocolErr ''invalid_grant'' ''expected ds_hash to be present in id token (subject_token)'') else None);
     err = (case claim of Some (ClaimString s) \<Rightarrow> err | _ \<Rightarrow> Some (ProtocolErr ''invalid_grant'' ''expected ds_hash to be a string''));
     err = (if dsHash \<noteq> deviceSecretHash
            then Some (ProtocolErr ''invalid_grant'' ''the hash of device_secret (actor_token) does not match ds_hash in id token (subject_token)'') else err);
     err = (if og_DeviceSecretHash offlineGrant \<noteq> deviceSecretHash
            then Some (ProtocolErr ''invalid_grant'' ''the device_secret (actor_token) does not bind to the session'') else err)
   in bind_oc (Grant_MatchDeviceSecretDPoPJKT offlineGrant proof (Some client)) (\<lambda>_.
      case err of None \<Rightarrow> Ok () | Some e \<Rightarrow> Err e))"

definition exchange_checks :: "('r, 'm, 'x) handler_deps \<Rightarrow> token_request \<Rightarrow> sess_error option" where
  "exchange_checks th r =
     (if ActorTokenType r \<noteq> DeviceSecretTokenType then Some (ProtocolErr ''invalid_request'' (''expected actor_token_type = '' @ DeviceSecretTokenType))
      else if SubjectTokenType r \<noteq> IDTokenTokenType then Some (ProtocolErr ''invalid_request'' (''expected subject_token_type = '' @ IDTokenTokenType))
      else if ActorToken r = '''' then Some (ProtocolErr ''invalid_request'' ''actor_token is required'')
      else if SubjectToken r = '''' then Some (ProtocolErr ''invalid_request'' ''subject_token is required'')
      else None)"

text \<open>From the grant of the ID token on; the scopes are those of the grant, in some order, unless the request names some.\<close>

definition issue_url_token ::
    "('r, 'm, 'x) handler_deps \<Rightarrow> ('r, 'm, 'x) oauth_env \<Rightarrow> dpop_proof \<Rightarrow> time \<Rightarrow> fresh_values \<Rightarrow> OAuthClientConfig
     \<Rightarrow> token_request \<Rightarrow> (string \<Rightarrow> id_claim option) \<Rightarrow> OfflineGrant \<Rightarrow> ('r, 'm, 'x, HandleResult) sess_proc" where
  "issue_url_token th env proof now fresh client r idToken offlineGrant =
     bindp (outcome_proc (verifyIDTokenDeviceSecretHash env proof client offlineGrant idToken (ActorToken r))) (\<lambda>_. let
       requestedScopes = Req_Scope r;
       grantScopes = h_ScopeOrder th (getScopesSet offlineGrant (og_InitialClientID offlineGrant))
     in bindp (if length requestedScopes > 0
        then if \<not> HasAllScopes offlineGrant (og_InitialClientID offlineGrant) requestedScopes
             then failp (ProtocolErr ''invalid_scope'' ''requesting extra scopes is not allowed'')
             else case ValidateScopesByClientConfig client requestedScopes of Some e \<Rightarrow> failp e | None \<Rightarrow> ret requestedScopes
        else ret grantScopes) (\<lambda>scopes.
     bindp (CheckAndGrant (h_deps th) (e_AppID env) now (fr_AuthorizationID fresh) (cl_ClientID client) (UserID (og_Attrs offlineGrant)) scopes) (\<lambda>authz.
     bindp (IssuePreAuthenticatedURLToken env now (fr_URLToken fresh) \<lparr>ip_AppID = e_AppID env, ip_ClientID = cl_ClientID client,
       ip_OfflineGrantID = og_ID offlineGrant, ip_AuthorizationID = az_ID authz, ip_Scopes = scopes\<rparr>) (\<lambda>(token, _).
     bindp (rotateDeviceSecret env proof now (fr_RotatedDeviceSecret fresh) client offlineGrant
       (Some [''access_token'' \<mapsto> token, ''token_type'' \<mapsto> ''Bearer'', ''issued_token_type'' \<mapsto> PreAuthenticatedURLTokenTokenType])) (\<lambda>(offlineGrant, resp).
     bindp (h_PrepareIDToken th \<lparr>it_ClientID = cl_ClientID client, it_SID = EncodeSID (og_base offlineGrant), it_Nonce = '''',
       it_AuthenticationInfo = Grant_GetAuthenticationInfo offlineGrant, it_ClientLike = ClientClientLike client [],
       it_DeviceSecretHash = og_DeviceSecretHash offlineGrant, it_IdentitySpecs = []\<rparr>) (\<lambda>p.
     ret \<lparr>hr_PrepareIDTokenResult = Some p, hr_PrepareUserAccessGrantResult = None, hr_Response = resp\<rparr>))))))"

definition handlePreAuthenticatedURLToken ::
    "('r, 'm, 'x) handler_deps \<Rightarrow> ('r, 'm, 'x) oauth_env \<Rightarrow> dpop_proof \<Rightarrow> time \<Rightarrow> fresh_values \<Rightarrow> OAuthClientConfig
     \<Rightarrow> token_request \<Rightarrow> ('r, 'm, 'x, HandleResult) sess_proc" where
  "handlePreAuthenticatedURLToken th env proof now fresh client r = (case exchange_checks th r of
     Some e \<Rightarrow> failp e
   | None \<Rightarrow> (case h_VerifyIDToken th (SubjectToken r) of
       None \<Rightarrow> failp (ProtocolErr ''invalid_request'' ''subject_token is not a valid id token'')
     | Some idToken \<Rightarrow>
         if Audience r \<noteq> h_Iss th then failp (ProtocolErr ''invalid_request'' (''expected audience to be '' @ h_Iss th))
         else bindp (resolveIDTokenSession th env now idToken) (\<lambda>session. case session of
           None \<Rightarrow> failp (ProtocolErr ''invalid_grant'' ''sid in id token (subject_token) is invalid'')
         | Some (Some (LIdp _)) \<Rightarrow> failp (ProtocolErr ''invalid_grant'' ''invalid session type'')
         | Some None \<Rightarrow> failp (ProtocolErr ''insufficient_scope'' ''pre-authenticated url is not allowed for this session'')
         | Some (Some (LOffline offlineGrant)) \<Rightarrow>
             bindp (checkUserRateLimit th now (UserID (og_Attrs offlineGrant))) (\<lambda>_.
             if \<not> HasAllScopes offlineGrant (og_InitialClientID offlineGrant) [PreAuthenticatedURLScope]
             then failp (ProtocolErr ''insufficient_scope'' ''pre-authenticated url is not allowed for this session'')
             else issue_url_token th env proof now fresh client r idToken offlineGrant))))"

definition handleTokenExchange ::
    "('r, 'm, 'x) handler_deps \<Rightarrow> ('r, 'm, 'x) oauth_env \<Rightarrow> dpop_proof \<Rightarrow> time \<Rightarrow> fresh_values \<Rightarrow> OAuthClientConfig
     \<Rightarrow> token_request \<Rightarrow> ('r, 'm, 'x, HandleResult) sess_proc" where
  "handleTokenExchange th env proof now fresh client r =
     (if RequestedTokenType r = PreAuthenticatedURLTokenTokenType then handlePreAuthenticatedURLToken th env proof now fresh client r
      else failp (ProtocolErr ''invalid_request'' ''requested_token_type not supported''))"

section \<open>The endpoint\<close>

definition validateRequestWithoutTx :: "token_request \<Rightarrow> OAuthClientConfig \<Rightarrow> sess_error option" where
  "validateRequestWithoutTx r client = (let invalid = ProtocolErr ''invalid_request'' in
     if GrantType r = SettingsActionGrantType \<or> GrantType r = AuthorizationCodeGrantType then
       (if Req_Code r = '''' then Some (invalid ''code is required'')
        else if IsPublic (cl_ApplicationType client) \<and> CodeVerifier r = '''' then Some (invalid ''PKCE code verifier is required'')
        else if IsConfidential (cl_ApplicationType client) \<and> ClientSecret r = '''' then Some (ProtocolErr ''invalid_client'' ''client secret is required'')
        else None)
     else if GrantType r = RefreshTokenGrantType then (if Req_RefreshToken r = '''' then Some (invalid ''refresh token is required'') else None)
     else if GrantType r = AnonymousRequestGrantType \<or> GrantType r = BiometricRequestGrantType then
       (if Req_JWT r = '''' then Some (invalid ''jwt is required'') else None)
     else if GrantType r = App2AppRequestGrantType then
       (if Req_JWT r = '''' then Some (invalid ''jwt is required'')
        else if Req_RefreshToken r = '''' then Some (invalid ''refresh token is required'')
        else if Req_ClientID r = '''' then Some (invalid ''client id is required'')
        else if Req_RedirectURI r = '''' then Some (invalid ''redirect uri is required'')
        else if Req_CodeChallenge r \<noteq> '''' \<and> CodeChallengeMethod r \<noteq> ''S256'' then Some (invalid ''only 'S256' PKCE transform is supported'')
        else None)
     else if GrantType r = IDTokenGrantType \<or> GrantType r = TokenExchangeGrantType then None
     else if GrantType r = ClientCredentialsGrantType then
       (if Resource r = '''' then Some (ProtocolErr ''invalid_target'' ''resource is required'')
        else if ClientSecret r = '''' then Some (ProtocolErr ''invalid_client'' ''client secret is required'')
        else None)
     else Some (ProtocolErr ''unsupported_grant_type'' ''grant type is not supported''))"

text \<open>\<open>other\<close> runs the grant types that are parameters.\<close>

definition doHandleWithTx ::
    "('r, 'm, 'x) handler_deps \<Rightarrow> ('r, 'm, 'x) oauth_env \<Rightarrow> (OAuthClientConfig \<Rightarrow> token_request \<Rightarrow> ('r, 'm, 'x, HandleResult) sess_proc)
     \<Rightarrow> dpop_proof \<Rightarrow> time \<Rightarrow> fresh_values \<Rightarrow> resolved_session option \<Rightarrow> OAuthClientConfig \<Rightarrow> token_request
     \<Rightarrow> ('r, 'm, 'x, HandleResult) sess_proc" where
  "doHandleWithTx th env other proof now fresh session client r =
     (if GrantType r \<notin> set (GetAllowedGrantTypes client)
      then failp (ProtocolErr ''unauthorized_client'' ''grant type is not allowed for this client'')
      else if GrantType r = AuthorizationCodeGrantType then IssueTokensForAuthorizationCode th env proof now fresh client r
      else if GrantType r = RefreshTokenGrantType then handleRefreshToken th env proof now fresh client r
      else if GrantType r = TokenExchangeGrantType then handleTokenExchange th env proof now fresh client r
      else if GrantType r = IDTokenGrantType then handleIDToken th env proof now fresh session client r
      else if GrantType r = SettingsActionGrantType then IssueTokensForSettingsActionCode th env now client r
      else if GrantType r \<in> {AnonymousRequestGrantType, BiometricRequestGrantType, App2AppRequestGrantType, ClientCredentialsGrantType}
      then other client r
      else panicp)"

definition translateAccessTokenError :: "('r, 'm, 'x) handler_deps \<Rightarrow> sess_error \<Rightarrow> sess_error" where
  "translateAccessTokenError th err = (if h_HookDisallowed th err
     then ProtocolErr ''server_error'' ''access token generation is disallowed by hook'' else err)"

text \<open>A member is written into the response when there is one.\<close>

definition write_member :: "string \<Rightarrow> string \<Rightarrow> token_response \<Rightarrow> token_response" where
  "write_member k v = map_option (\<lambda>m. m(k \<mapsto> v))"

definition finish_tokens :: "('r, 'm, 'x) handler_deps \<Rightarrow> HandleResult \<Rightarrow> ('r, 'm, 'x, token_response) sess_proc" where
  "finish_tokens th result =
     bindp (case hr_PrepareIDTokenResult result of
         None \<Rightarrow> ret (hr_Response result)
       | Some p \<Rightarrow> bindp (h_MakeIDToken th p) (\<lambda>idToken. ret (write_member ''id_token'' idToken (hr_Response result)))) (\<lambda>resp.
     case hr_PrepareUserAccessGrantResult result of
       None \<Rightarrow> ret resp
     | Some (rotated, prepared) \<Rightarrow> (let
         resp = (case rotated of None \<Rightarrow> resp
           | Some (grantID, token, _) \<Rightarrow> write_member ''refresh_token'' (EncodeRefreshToken token grantID) resp)
       in bindp (attempt (MakeUserAccessTokenFromPreparationResult (h_token th) prepared)) (\<lambda>res. case res of
            Inl e \<Rightarrow> failp (translateAccessTokenError th e)
          | Inr result2 \<Rightarrow> ret (write_member ''access_token'' (ia_Token result2) (write_member ''token_type'' (ia_TokenType result2) resp)))))"

text \<open>\<open>tx\<close> runs the database transaction; a nil client answers \<^verbatim>\<open>invalid_client\<close>.\<close>

definition Token_Handle ::
    "('r, 'm, 'x) handler_deps \<Rightarrow> ('r, 'm, 'x) oauth_env \<Rightarrow> (OAuthClientConfig \<Rightarrow> token_request \<Rightarrow> ('r, 'm, 'x, HandleResult) sess_proc)
     \<Rightarrow> (('r, 'm, 'x, HandleResult) sess_proc \<Rightarrow> ('r, 'm, 'x, HandleResult) sess_proc) \<Rightarrow> dpop_proof \<Rightarrow> time \<Rightarrow> fresh_values
     \<Rightarrow> resolved_session option \<Rightarrow> token_request \<Rightarrow> ('r, 'm, 'x, token_response) sess_proc" where
  "Token_Handle th env other tx proof now fresh session r =
     bindp (token_checkRateLimit th now (NewBucketSpecOAuthTokenPerIP (e_RemoteIP env))) (\<lambda>_.
     case d_ResolveClient (h_deps th) (Req_ClientID r) of
       None \<Rightarrow> failp (ProtocolErr ''invalid_client'' ''invalid client ID'')
     | Some client \<Rightarrow> (case validateRequestWithoutTx r client of
         Some e \<Rightarrow> failp e
       | None \<Rightarrow> bindp (tx (doHandleWithTx th env other proof now fresh session client r)) (finish_tokens th)))"

section \<open>Redeeming a code\<close>

lemma Mask_nonempty: "Mask s \<noteq> ''''"
  by (simp add: Mask_def Let_def)

lemma validateClientSecret_iff:
  "(\<exists>m. validateClientSecret creds client secret = Inr m) \<longleftrightarrow>
     (\<exists>item. Lookup creds (cl_ClientID client) = Some item \<and> secret \<in> set (cred_Keys item))"
proof -
  have "List.find (\<lambda>k. secret = k) ks = (if secret \<in> set ks then Some secret else None)" for ks
    by (induction ks) auto
  then show ?thesis by (auto simp: validateClientSecret_def Let_def Mask_nonempty split: option.split)
qed

lemma GetCodeGrant_Ok:
  assumes "session_keys (e_redis env) view hview" "GetCodeGrant env now h w = (Ok code, w')"
  shows "w' = w" "view now (w_redis w) (codeGrantKey (e_AppID env) h) = Some (OV_Code code)"
proof -
  from assms(1) have keys: "oauth_keys env view hview" by (simp add: oauth_keys_def)
  note l = assms(2) [unfolded GetCodeGrant_def]
  show "w' = w" using oauth_keys.load_run(1) [OF keys l] .
  obtain v where "view now (w_redis w) (codeGrantKey (e_AppID env) h) = Some v" "unmarshalCodeGrant v = Inr code"
    using oauth_keys.load_run(2) [OF keys l refl] by blast
  then show "view now (w_redis w) (codeGrantKey (e_AppID env) h) = Some (OV_Code code)"
    by (cases v) (auto simp: unmarshalCodeGrant_def)
qed

text \<open>The steps of a redemption that succeeds.\<close>

lemma redeem_Ok:
  assumes "IssueTokensForAuthorizationCode th env proof now fresh client r w = (Ok res, w')"
  obtains code w1 w2 authz w3 deviceInfo w4 w5 where "GetCodeGrant env now (e_hash env (Req_Code r)) w = (Ok code, w1)"
    "now \<le> cg_ExpireAt code" "cg_RedirectURI code = Req_RedirectURI r" "pkce_verified th client (cg_AuthorizationRequest code) r"
    "IsConfidential (cl_ApplicationType client) \<Longrightarrow> \<exists>m. validateClientSecret (h_Credentials th) client (ClientSecret r) = Inr m"
    "d_Authz_GetByID (h_deps th) (cg_AuthorizationID code) w2 = (Ok authz, w3)"
    "doIssueTokensForAuthorizationCode th env proof now fresh client code authz deviceInfo (App2AppDeviceKeyJWT r) w4 = (Ok res, w5)"
    "ignore_err (DeleteCodeGrant env now code) w5 = (Ok (), w')"
proof -
  from assms obtain deviceInfo code w1 wa wb where g: "GetCodeGrant env now (e_hash env (Req_Code r)) w = (Ok code, w1)"
    and rest: "(if now > cg_ExpireAt code then failp errInvalidAuthzCode
       else if cg_RedirectURI code \<noteq> Req_RedirectURI r then failp (ProtocolErr ''invalid_request'' ''invalid redirect URI'')
       else if \<not> pkce_verified th client (cg_AuthorizationRequest code) r then failp errInvalidAuthzCode
       else bindp (if IsConfidential (cl_ApplicationType client)
              then bindp (sum_proc (validateClientSecret (h_Credentials th) client (ClientSecret r))) (\<lambda>_. ret ())
              else ret ()) (\<lambda>_.
       bindp (translate ErrAuthorizationNotFound errInvalidAuthzCode (d_Authz_GetByID (h_deps th) (cg_AuthorizationID code))) (\<lambda>authz.
       bindp (checkUserRateLimit th now (az_UserID authz)) (\<lambda>_.
       bindp (doIssueTokensForAuthorizationCode th env proof now fresh client code authz deviceInfo (App2AppDeviceKeyJWT r)) (\<lambda>resp.
       bindp (ignore_err (DeleteCodeGrant env now code)) (\<lambda>_.
       ret resp)))))) wb = (Ok res, w')"
    by (auto simp: IssueTokensForAuthorizationCode_def bindp_Ok [of "translate _ _ _"] bindp_Ok [of "outcome_proc _"]
        bindp_Ok [of "h_ResolveForAuthorizationEndpoint _ _ _"] run_simps split: sum.splits)
  have checks: "now \<le> cg_ExpireAt code" "cg_RedirectURI code = Req_RedirectURI r" "pkce_verified th client (cg_AuthorizationRequest code) r"
    using rest by (auto simp: run_simps split: if_splits)
  with rest obtain wc authz wd w4 w5 where steps:
    "(if IsConfidential (cl_ApplicationType client) then bindp (sum_proc (validateClientSecret (h_Credentials th) client (ClientSecret r))) (\<lambda>_. ret ())
      else ret ()) wb = (Ok (), wc)"
    "d_Authz_GetByID (h_deps th) (cg_AuthorizationID code) wc = (Ok authz, wd)"
    "doIssueTokensForAuthorizationCode th env proof now fresh client code authz deviceInfo (App2AppDeviceKeyJWT r) w4 = (Ok res, w5)"
    "ignore_err (DeleteCodeGrant env now code) w5 = (Ok (), w')"
    by (auto simp: bindp_Ok run_simps)
  have "\<exists>m. validateClientSecret (h_Credentials th) client (ClientSecret r) = Inr m" if "IsConfidential (cl_ApplicationType client)"
    using steps(1) that by (auto simp: bindp_Ok sum_proc_def run_simps split: sum.splits)
  with that [OF g checks _ steps(2-4)] show thesis by blast
qed



section \<open>Access tokens without a refresh token\<close>

lemma ToSession_empty: "ToSession g '''' = Some (root_session g)"
proof -
  have "foldl (\<lambda>result token. let result = (if MatchCurrentHash token '''' \<and> result = None then Some (token_session g token) else result)
      in if MatchInitialHash token '''' \<and> result = None then Some (token_session g token) else result) (Some s) ts = Some s" for s ts
    by (induction ts) (auto simp: Let_def)
  then show ?thesis by (simp add: ToSession_def)
qed

text \<open>An access token that no refresh token came with - a confidential client's that did not ask for offline
  access, or one for an ID token hint - carries none of the scopes that were granted: whatever the scopes
  of its authorization and of its access grant, it resolves to a session with no scopes but the deprecated
  ones of the grant, so any endpoint that requires a scope refuses it.\<close>

theorem tokens_without_refresh_token_have_no_scopes:
  assumes "resolveAccessToken deps env jl now token w = (Ok (RS_Offline s), w')"
    and "DecodeAccessToken jl now token = Some (tok, isHash)"
    and "fst (GetAccessGrant env now (if isHash then tok else e_hash env token) w) = Ok ag"
    and "ag_InitialRefreshTokenHash ag = ''''" "og_Deprecated_Scopes (ogs_OfflineGrant s) = []" "requiredScopes \<noteq> []"
  shows "ogs_Scopes s = [] \<and> fst (checkAuthz (Some (RS_Offline s)) requiredScopes) = 403"
proof -
  obtain g where "ToSession g '''' = Some s"
    by (rule resolveAccessToken_Ok [OF assms(1)]) (use assms(2-4) in \<open>auto split: GrantSessionKind.splits\<close>)
  then have "s = root_session g" by (simp add: ToSession_empty)
  with assms(5,6) show ?thesis by (auto simp: root_session_def checkAuthz_def SessionScopes_def)
qed

section \<open>The endpoint on a store\<close>

definition demo_th_clients :: "OAuthClientConfig list" where
  "demo_th_clients = demo_clients @ [demo_client ''c9'' ApplicationTypeConfidential]"

definition demo_handler :: "(oauth_value sstore, unit, demo_side) handler_deps" where
  "demo_handler = \<lparr>h_token = demo_token_deps\<lparr>t_deps := model_deps demo_sess_env demo_sess_cfg demo_th_clients\<rparr>,
     h_Allow = (\<lambda>_ _. ret None), h_ResolveForAuthorizationEndpoint = (\<lambda>_ _. ret ()), h_PrepareIDToken = (\<lambda>_. ret ''p''),
     h_MakeIDToken = ret, h_VerifyIDToken = (\<lambda>_. None), h_Iss = ''https://auth.example.com'', h_App2App_ParseTokenUnverified = (\<lambda>_ _. None),
     h_App2App_ParseToken = (\<lambda>_ _ _. False), h_Challenges_Consume = (\<lambda>_ _. failp (InfraErr '''')), h_Dispatch = (\<lambda>_. ret ()),
     h_ParseDeviceInfo = (\<lambda>_. Inr ''{}''), h_sha256 = (\<lambda>s. s),
     h_Credentials = [\<lparr>cred_ClientID = ''c3'', cred_Keys = [''secret3'']\<rparr>, \<lparr>cred_ClientID = ''c9'', cred_Keys = [''secret9'']\<rparr>],
     h_ScopeOrder = (\<lambda>_. []), h_HookDisallowed = (\<lambda>_. False)\<rparr>"

definition demo_fresh :: fresh_values where
  "demo_fresh = \<lparr>fr_AccessToken = ''at7'', fr_RefreshToken = ''t7'', fr_GrantID = ''g7'', fr_DeviceSecret = ''ds7'',
     fr_RotatedDeviceSecret = ''ds8'', fr_AppSessionToken = ''as7'', fr_AuthorizationID = ''z7'', fr_URLToken = ''ut7''\<rparr>"

text \<open>The user authorized the client c3, which holds the code.\<close>

definition demo_code :: "string \<Rightarrow> CodeGrant" where
  "demo_code scope = \<lparr>cg_AppID = ''app'', cg_AuthorizationID = ''z3'',
     cg_AuthenticationInfo = \<lparr>ai_UserID = ''u1'', ai_AuthenticatedAt = 1, ai_AMR = [''pwd''], ai_ShouldFireAuthenticatedEvent = False,
       ai_AuthenticatedBySessionType = '''', ai_AuthenticatedBySessionID = '''', ai_IdentitySpecs = []\<rparr>,
     cg_IDTokenHintSID = '''', cg_CreatedAt = 1, cg_ExpireAt = 300000000001, cg_CodeHash = ''hcode'', cg_DPoPJKT = '''',
     cg_RedirectURI = ''https://example.com'',
     cg_AuthorizationRequest = [''client_id'' \<mapsto> ''c3'', ''redirect_uri'' \<mapsto> ''https://example.com'', ''scope'' \<mapsto> scope],
     cg_IdentitySpecs = []\<rparr>"

definition demo_coded :: "string \<Rightarrow> (oauth_value sstore, unit, demo_side) sess_world" where
  "demo_coded scope = (let w = snd (CreateCodeGrant demo_env 1 (demo_code scope) demo_granted) in
     w\<lparr>w_side := ((fst (w_side w))\<lparr>dir_authz := dir_authz (fst (w_side w)) @ [\<lparr>az_ID = ''z3'', az_AppID = ''app'', az_ClientID = ''c3'',
       az_UserID = ''u1'', az_CreatedAt = 0, az_UpdatedAt = 0, az_Scopes = [''openid'', ''offline_access'']\<rparr>]\<rparr>, snd (w_side w))\<rparr>)"

definition demo_token_request :: "string \<Rightarrow> token_request" where
  "demo_token_request secret k = (case map_of [(''grant_type'', ''authorization_code''), (''code'', ''code''),
     (''redirect_uri'', ''https://example.com''), (''client_secret'', secret)] k of None \<Rightarrow> '''' | Some v \<Rightarrow> v)"

abbreviation demo_redeem where
  "demo_redeem now client secret \<equiv> IssueTokensForAuthorizationCode demo_handler demo_env MissingProof now demo_fresh client (demo_token_request secret)"



section \<open>Which client redeems a code\<close>

lemma request_client_id [simp]:
  "Scope (req(''client_id'' := v)) = Scope req" "Nonce (req(''client_id'' := v)) = Nonce req"
  "SSOEnabled (req(''client_id'' := v)) = SSOEnabled req" "CodeChallenge (req(''client_id'' := v)) = CodeChallenge req"
  by (simp_all add: Scope_def Nonce_def SSOEnabled_def CodeChallenge_def areq_def)

lemma client_id_fields:
  "cg_AuthorizationRequest (code\<lparr>cg_AuthorizationRequest := req\<rparr>) = req"
  "cg_AuthenticationInfo (code\<lparr>cg_AuthorizationRequest := req\<rparr>) = cg_AuthenticationInfo code"
  "cg_IDTokenHintSID (code\<lparr>cg_AuthorizationRequest := req\<rparr>) = cg_IDTokenHintSID code"
  "cg_IdentitySpecs (code\<lparr>cg_AuthorizationRequest := req\<rparr>) = cg_IdentitySpecs code"
  "az_ID (authz\<lparr>az_ClientID := c\<rparr>) = az_ID authz" "az_UserID (authz\<lparr>az_ClientID := c\<rparr>) = az_UserID authz"
  by simp_all

lemma client_id_target:
  "refresh_token_target th env now fresh client (code\<lparr>cg_AuthorizationRequest := req\<rparr>) (authz\<lparr>az_ClientID := c\<rparr>) opts resp =
   refresh_token_target th env now fresh client code authz opts resp"
  unfolding refresh_token_target_def client_id_fields by (rule refl)

text \<open>An authorization code is not bound to the client it was issued to: neither the client of the
  authorization request nor the client of the authorization is looked at when the code is redeemed. Put
  any other client in both, and the same request by the same client gets the same tokens.\<close>

theorem authorization_code_not_bound_to_client:
  "pkce_verified th client ((cg_AuthorizationRequest code)(''client_id'' \<mapsto> other)) r = pkce_verified th client (cg_AuthorizationRequest code) r
   \<and> doIssueTokensForAuthorizationCode th env proof now fresh client
       (code\<lparr>cg_AuthorizationRequest := (cg_AuthorizationRequest code)(''client_id'' \<mapsto> other)\<rparr>) (authz\<lparr>az_ClientID := other\<rparr>) deviceInfo jwt
     = doIssueTokensForAuthorizationCode th env proof now fresh client code authz deviceInfo jwt"
  unfolding pkce_verified_def doIssueTokensForAuthorizationCode_def Let_def client_id_fields client_id_target request_client_id by (rule conjI; rule refl)

text \<open>On the store: the confidential client c9 redeems the code of c3 and gets a refresh token of its own for the user.\<close>

lemma code_of_another_client_redeemed:
  "case demo_redeem 2 (demo_client ''c9'' ApplicationTypeConfidential) ''secret9'' (demo_coded ''openid offline_access'') of
     (Ok res, w') \<Rightarrow> map_option (\<lambda>g. (UserID (og_Attrs g), map rt_ClientID (og_RefreshTokens g), map rt_AuthorizationID (og_RefreshTokens g)))
       (grant_table demo_env ss_view 2 (w_redis w') ''g7'') = Some (''u1'', [''c9''], [''z3''])
   | _ \<Rightarrow> False"
  by code_simp

text \<open>Without offline access, the confidential client's access token resolves to a session without scopes.\<close>

theorem tokens_without_refresh_token_have_no_scopes_witness:
  "case resolveAccessToken (h_deps demo_handler) demo_env demo_jwt 3 ''at7''
      (snd (demo_redeem 2 (demo_client ''c3'' ApplicationTypeThirdPartyApp) ''secret3'' (demo_coded ''openid email''))) of
     (Ok (RS_Offline s), _) \<Rightarrow> ogs_Scopes s = [] \<and> fst (checkAuthz (Some (RS_Offline s)) [''email'']) = 403 | _ \<Rightarrow> False"
proof -
  let ?w = "snd (demo_redeem 2 (demo_client ''c3'' ApplicationTypeThirdPartyApp) ''secret3'' (demo_coded ''openid email''))"
  let ?r = "resolveAccessToken (h_deps demo_handler) demo_env demo_jwt 3 ''at7'' ?w"
  have "(case fst ?r of Ok (RS_Offline s) \<Rightarrow> og_Deprecated_Scopes (ogs_OfflineGrant s) = [] | _ \<Rightarrow> False)" by code_simp
  then obtain s w' where r: "?r = (Ok (RS_Offline s), w')" "og_Deprecated_Scopes (ogs_OfflineGrant s) = []"
    by (cases ?r) (auto split: outcome.splits resolved_session.splits)
  have dec: "DecodeAccessToken demo_jwt 3 ''at7'' = Some (''at7'', False)" by (simp add: DecodeAccessToken_def)
  have "(case fst (GetAccessGrant demo_env 3 (e_hash demo_env ''at7'') ?w) of Ok ag \<Rightarrow> ag_InitialRefreshTokenHash ag = ''''
      \<and> ag_Scopes ag = [''openid'', ''email''] | _ \<Rightarrow> False)" by code_simp
  then obtain ag where ag: "fst (GetAccessGrant demo_env 3 (if False then ''at7'' else e_hash demo_env ''at7'') ?w) = Ok ag"
    "ag_InitialRefreshTokenHash ag = ''''" by (auto split: outcome.splits)
  from tokens_without_refresh_token_have_no_scopes [OF r(1) dec ag r(2), of "[''email'']"] r(1) show ?thesis by simp
qed

end
