(* ===== verification/IDToken.thy ===== *)
theory IDToken imports UserInfo EventService TokenHandler begin

text \<open>
  Signed tokens: \<^verbatim>\<open>pkg/lib/oauth/oidc/id_token.go\<close>, the JWT part of \<^verbatim>\<open>pkg/lib/oauth/token_encoding.go\<close>
  and \<^verbatim>\<open>pkg/util/jwtutil\<close>. The claims of a token are offered to the hooks inside the transaction of the
  request (prepare), and signed after it when the hooks left the server's own claims alone (make).
  Claims are the JSON object they are written as; building a JWT from a map, signing and parsing are
  arguments.
\<close>

section \<open>Mutations of claims\<close>

datatype token_error =
    TokenEventError event_error
  | TokenInfoError info_error
  | InvalidJWTMutations "string list" "string list"
  | JWTLibraryError string
  | HintError

definition removed_keys :: "json_object \<Rightarrow> json_object \<Rightarrow> string list" where
  "removed_keys forMutation forBackup = filter (\<lambda>k. map_of forMutation k = None) (remdups (map fst forBackup))"

definition changed_keys :: "json_object \<Rightarrow> json_object \<Rightarrow> string list" where
  "changed_keys forMutation forBackup =
     filter (\<lambda>k. map_of forMutation k \<noteq> None \<and> map_of forMutation k \<noteq> map_of forBackup k) (remdups (map fst forBackup))"

text \<open>A token and its copy, as maps.\<close>

definition PrepareForMutations :: "json_object \<Rightarrow> json_object \<times> json_object" where
  "PrepareForMutations t = (t, t)"

definition ApplyMutations :: "(json_object \<Rightarrow> json_object option) \<Rightarrow> json_object \<Rightarrow> json_object \<Rightarrow> token_error + json_object" where
  "ApplyMutations build forMutation forBackup = (let
     removed = removed_keys forMutation forBackup; changed = changed_keys forMutation forBackup
   in if removed \<noteq> [] \<or> changed \<noteq> [] then Inl (InvalidJWTMutations removed changed)
      else case build forMutation of None \<Rightarrow> Inl (JWTLibraryError ''build'') | Some t \<Rightarrow> Inr t)"

section \<open>The issuer\<close>

record ('d, 'x, 'r) issuer_env =
  ie_Request :: "'d request_env"
  ie_Sinks :: "('d, 'x) sink list"
  ie_AppID :: string
  ie_Origin :: string
  ie_InfoRedis :: "'r info_redis"
  ie_InfoServices :: "'d \<Rightarrow> info_services"
  ie_Users :: "'d \<Rightarrow> user_table"
  ie_Identities :: "'d \<Rightarrow> string \<Rightarrow> (token_error, json) outcome"
  ie_Build :: "json_object \<Rightarrow> json_object option"
  ie_Sign :: "string \<Rightarrow> json_object \<Rightarrow> string option"
  ie_Verify :: "string \<Rightarrow> bool"
  ie_SplitWithoutVerify :: "string \<Rightarrow> json_object option"
  ie_Hash :: "string \<Rightarrow> string"

record ('d, 'x, 'r) issuer_state =
  iss_Request :: "('d, 'x) event_state"
  iss_Info :: 'r

type_synonym ('d, 'x, 'r, 'a) issuer_proc = "(('d, 'x, 'r) issuer_state, token_error, 'a) proc"

fun map_err :: "('e \<Rightarrow> 'f) \<Rightarrow> ('e, 'a) outcome \<Rightarrow> ('f, 'a) outcome" where
  "map_err f (Ok x) = Ok x"
| "map_err f (Err e) = Err (f e)"
| "map_err f Panic = Panic"

definition on_request :: "('d, 'x, 'a) event_proc \<Rightarrow> ('d, 'x, 'r, 'a) issuer_proc" where
  "on_request p = (\<lambda>s. case p (iss_Request s) of (r, q) \<Rightarrow> (map_err TokenEventError r, s\<lparr>iss_Request := q\<rparr>))"

definition on_info :: "('r, info_error, 'a) proc \<Rightarrow> ('d, 'x, 'r, 'a) issuer_proc" where
  "on_info p = (\<lambda>s. case p (iss_Info s) of (r, q) \<Rightarrow> (map_err TokenInfoError r, s\<lparr>iss_Info := q\<rparr>))"

definition read_db :: "('d \<Rightarrow> (token_error, 'a) outcome) \<Rightarrow> ('d, 'x, 'r, 'a) issuer_proc" where
  "read_db f = (\<lambda>s. (f (tx_db (iss_Request s)), s))"

definition Populate :: "('d, 'x, 'r) issuer_env \<Rightarrow> time \<Rightarrow> json_object \<Rightarrow> string \<Rightarrow> ClientLike \<Rightarrow> ('d, 'x, 'r, json_object) issuer_proc" where
  "Populate ie now token userID client = bindp (getp (\<lambda>s. tx_db (iss_Request s))) (\<lambda>db.
     on_info (PopulateUserClaimsInIDToken (ie_InfoRedis ie) (ie_InfoServices ie db) (ie_Users ie db) now (ie_AppID ie) token userID client))"

definition Unix :: "time \<Rightarrow> json" where
  "Unix t = JNumber (of_int (t div 1000000000))"

definition IDTokenValidDuration :: duration where "IDTokenValidDuration = Short"

text \<open>An identity the user just used, as \<^verbatim>\<open>identity.Spec\<close>.\<close>

record oauth_spec =
  os_ProviderAlias :: string
  os_ProviderType :: string
  os_SubjectID :: string
  os_RawProfile :: "json_object option"
  os_IncludeIdentityAttributesInIDToken :: bool

definition ToClaimsForIDToken :: "oauth_spec \<Rightarrow> json" where
  "ToClaimsForIDToken s = JObject [(''https://authgear.com/claims/oauth/provider_alias'', JString (os_ProviderAlias s)),
     (''https://authgear.com/claims/oauth/provider_type'', JString (os_ProviderType s)),
     (''https://authgear.com/claims/oauth/subject_id'', JString (os_SubjectID s)),
     (''https://authgear.com/claims/oauth/profile'', JObject (case os_RawProfile s of None \<Rightarrow> [] | Some p \<Rightarrow> p))]"

record PrepareIDTokenOptions =
  pi_ClientID :: string
  pi_SID :: string
  pi_Nonce :: string
  pi_AuthenticationInfo :: authentication_info
  pi_ClientLike :: ClientLike
  pi_DeviceSecretHash :: string
  pi_IdentitySpecs :: "(string \<times> oauth_spec option) list"

text \<open>A claim that is left out when it is empty.\<close>

definition claim_unless_empty :: "string \<Rightarrow> string \<Rightarrow> json_object" where
  "claim_unless_empty k v = (if v \<noteq> '''' then [(k, JString v)] else [])"

definition amr_claim :: "authentication_info \<Rightarrow> json_object" where
  "amr_claim info = (if ai_AMR info \<noteq> [] then [(''amr'', json_strings (ai_AMR info))] else [])"

definition audience :: "string \<Rightarrow> string \<times> json" where
  "audience aud = (''aud'', JArray [JString aud])"

definition id_token_claims :: "('d, 'x, 'r) issuer_env \<Rightarrow> time \<Rightarrow> PrepareIDTokenOptions \<Rightarrow> json_object" where
  "id_token_claims ie now opts = (let info = pi_AuthenticationInfo opts in set_claims
     ([(''iss'', JString (ie_Origin ie)), audience (pi_ClientID opts), (''iat'', Unix now), (''exp'', Unix (now + IDTokenValidDuration)),
       (''auth_time'', Unix (ai_AuthenticatedAt info))]
      @ claim_unless_empty ''sid'' (pi_SID opts) @ amr_claim info @ claim_unless_empty ''ds_hash'' (pi_DeviceSecretHash opts)
      @ claim_unless_empty ''nonce'' (pi_Nonce opts)) [])"

definition oauth_used :: "(string \<times> oauth_spec option) list \<Rightarrow> json list" where
  "oauth_used specs = concat (map (\<lambda>(t, s). case s of
     Some o' \<Rightarrow> if t = ''oauth'' \<and> os_IncludeIdentityAttributesInIDToken o' then [ToClaimsForIDToken o'] else []
   | None \<Rightarrow> []) specs)"

abbreviation "claim_oauth_asserted \<equiv> ''https://authgear.com/claims/oauth/asserted''"

text \<open>The user's model is filled in when the payload is resolved.\<close>

definition no_user :: UserModel where
  "no_user = \<lparr>um_ID = '''', um_CreatedAt = 0, um_UpdatedAt = 0, um_LastLoginAt = None, um_IsAnonymous = False, um_IsVerified = False,
     um_IsDisabled = False, um_DisableReason = None, um_IsDeactivated = False, um_DeleteAt = None, um_DeleteReason = None,
     um_IsAnonymized = False, um_AnonymizeAt = None, um_TemporarilyDisabledFrom = None, um_TemporarilyDisabledUntil = None,
     um_AccountValidFrom = None, um_AccountValidUntil = None, um_AccountStatusStaleFrom = None, um_CanReauthenticate = False,
     um_StandardAttributes = None, um_CustomAttributes = None, um_Roles = None, um_Groups = None, um_MFAGracePeriodEndAt = None,
     um_EndUserAccountID = ''''\<rparr>"

text \<open>Offering the claims of a token to the hooks: the common end of both preparations.\<close>

definition offer_claims :: "('d, 'x, 'r) issuer_env \<Rightarrow> jwt_event \<Rightarrow> string \<Rightarrow> json_object \<Rightarrow> ('d, 'x, 'r, Event \<times> json_object) issuer_proc" where
  "offer_claims ie t userID claims = (let (forMutation, forBackup) = PrepareForMutations claims in
     bindp (read_db (\<lambda>db. ie_Identities ie db userID)) (\<lambda>identities.
     bindp (on_request (PrepareBlockingEventWithTx (ie_Request ie) (TokenPayload t userID no_user (Some forMutation) identities))) (\<lambda>event.
     ret (event, forBackup))))"

definition PrepareIDToken :: "('d, 'x, 'r) issuer_env \<Rightarrow> time \<Rightarrow> PrepareIDTokenOptions \<Rightarrow> ('d, 'x, 'r, Event \<times> json_object) issuer_proc" where
  "PrepareIDToken ie now opts = (let userID = ai_UserID (pi_AuthenticationInfo opts) in
     bindp (Populate ie now (id_token_claims ie now opts) userID (pi_ClientLike opts)) (\<lambda>claims.
     let used = oauth_used (pi_IdentitySpecs opts);
         claims = (if used \<noteq> [] then set_claim claim_oauth_asserted (JArray used) claims else claims)
     in offer_claims ie OIDCIDTokenPreCreate userID claims))"

text \<open>The claims the hooks left, checked and signed. Another payload than the token's is a failed type assertion.\<close>

definition sign_claims :: "('d, 'x, 'r) issuer_env \<Rightarrow> jwt_event \<Rightarrow> string \<Rightarrow> Event \<times> json_object \<Rightarrow> ('d, 'x, 'r, string) issuer_proc" where
  "sign_claims ie t typ prepared = bindp (on_request (DispatchEventWithoutTx (ie_Sinks ie) (fst prepared))) (\<lambda>e.
     case ev_Payload e of
       Blocking (TokenPayload t' _ _ claims _) \<Rightarrow> if t' \<noteq> t then panicp else
         (case ApplyMutations (ie_Build ie) (attrs_of claims) (snd prepared) of
           Inl err \<Rightarrow> failp err
         | Inr claims \<Rightarrow> (case ie_Sign ie typ claims of None \<Rightarrow> failp (JWTLibraryError ''sign'') | Some out \<Rightarrow> ret out))
     | _ \<Rightarrow> panicp)"

definition MakeIDTokenFromPreparationResult :: "('d, 'x, 'r) issuer_env \<Rightarrow> Event \<times> json_object \<Rightarrow> ('d, 'x, 'r, string) issuer_proc" where
  "MakeIDTokenFromPreparationResult ie prepared = sign_claims ie OIDCIDTokenPreCreate ''JWT'' prepared"

definition VerifyIDToken :: "('d, 'x, 'r) issuer_env \<Rightarrow> string \<Rightarrow> token_error + json_object" where
  "VerifyIDToken ie idToken = (if \<not> ie_Verify ie idToken then Inl (JWTLibraryError ''verify'')
     else case ie_SplitWithoutVerify ie idToken of None \<Rightarrow> Inl (JWTLibraryError ''parse'') | Some claims \<Rightarrow> Inr claims)"

section \<open>JWT access tokens\<close>

fun join_space :: "string list \<Rightarrow> string" where
  "join_space [] = ''''"
| "join_space [s] = s"
| "join_space (s # t # ss) = s @ '' '' @ join_space (t # ss)"

definition access_token_claims :: "('d, 'x, 'r) issuer_env \<Rightarrow> OAuthClientConfig \<Rightarrow> AccessGrant \<Rightarrow> authentication_info \<Rightarrow> json_object" where
  "access_token_claims ie client grant info = set_claims
     ([(''iss'', JString (ie_Origin ie)), audience (ie_Origin ie), (''iat'', Unix (ag_CreatedAt grant)), (''exp'', Unix (ag_ExpireAt grant)),
       (''client_id'', JString (cl_ClientID client)), (''scope'', JString (join_space (ag_Scopes grant))),
       (''auth_time'', Unix (ai_AuthenticatedAt info))] @ amr_claim info @ [(''jti'', JString (ag_TokenHash grant))]) []"

definition PrepareJWTAccessToken :: "('d, 'x, 'r) issuer_env \<Rightarrow> time \<Rightarrow> OAuthClientConfig \<Rightarrow> ClientLike \<Rightarrow> AccessGrant \<Rightarrow> authentication_info \<Rightarrow>
    ('d, 'x, 'r, Event \<times> json_object) issuer_proc" where
  "PrepareJWTAccessToken ie now client like grant info =
     bindp (Populate ie now (access_token_claims ie client grant info) (ai_UserID info) like) (\<lambda>claims.
     offer_claims ie OIDCJWTPreCreate (ai_UserID info) claims)"

definition MakeJWTAccessToken :: "('d, 'x, 'r) issuer_env \<Rightarrow> OAuthClientConfig \<Rightarrow> Event \<times> json_object \<Rightarrow> ('d, 'x, 'r, IssueAccessGrantResult) issuer_proc" where
  "MakeJWTAccessToken ie client prepared = bindp (sign_claims ie OIDCJWTPreCreate ''at+jwt'' prepared) (\<lambda>out.
     ret \<lparr>ia_Token = out, ia_TokenType = ''Bearer'', ia_ExpiresIn = cl_AccessTokenLifetime client\<rparr>)"

record EncodeClientAccessTokenOptions =
  ec_OriginalToken :: string
  ec_ClientConfig :: OAuthClientConfig
  ec_ResourceURI :: string
  ec_Scope :: string
  ec_CreatedAt :: time
  ec_ExpireAt :: time

definition EncodeClientAccessToken :: "('d, 'x, 'r) issuer_env \<Rightarrow> EncodeClientAccessTokenOptions \<Rightarrow> token_error + string" where
  "EncodeClientAccessToken ie options = (let client = ec_ClientConfig options in
     if \<not> cl_IssueJWTAccessToken client then Inr (ec_OriginalToken options)
     else case ie_Sign ie ''at+jwt'' (set_claims [(''jti'', JString (ie_Hash ie (ec_OriginalToken options))), (''iss'', JString (ie_Origin ie)),
         audience (ec_ResourceURI options), (''iat'', Unix (ec_CreatedAt options)), (''exp'', Unix (ec_ExpireAt options)),
         (''client_id'', JString (cl_ClientID client)), (''scope'', JString (ec_Scope options)),
         (''sub'', JString (''client_id_'' @ cl_ClientID client))] []) of
       None \<Rightarrow> Inl (JWTLibraryError ''sign'') | Some out \<Rightarrow> Inr out)"

section \<open>Hints\<close>

text \<open>The session an ID token was issued for; one that cannot be read is none.\<close>

definition ResolveIDTokenHint :: "('d, 'x, 'r) issuer_env \<Rightarrow> (string \<Rightarrow> ('s, 'e, IDPSession) proc) \<Rightarrow> (string \<Rightarrow> ('s, 'e, OfflineGrant) proc) \<Rightarrow>
    string option \<Rightarrow> ('s, token_error + 'e, json_object option \<times> listable_session option) proc" where
  "ResolveIDTokenHint ie getSession getGrant hint = (case hint of
     None \<Rightarrow> ret (None, None)
   | Some h \<Rightarrow> (case VerifyIDToken ie h of
       Inl e \<Rightarrow> failp (Inl e)
     | Inr token \<Rightarrow> (case map_of token ''sid'' of
         Some (JString sid) \<Rightarrow> (case DecodeSID sid of
           None \<Rightarrow> ret (Some token, None)
         | Some (TypeIdentityProvider, i) \<Rightarrow> (\<lambda>s. case getSession i s of
             (Ok x, s) \<Rightarrow> (Ok (Some token, Some (LIdp x)), s) | (Err _, s) \<Rightarrow> (Ok (Some token, None), s) | (Panic, s) \<Rightarrow> (Panic, s))
         | Some (TypeOfflineGrant, i) \<Rightarrow> (\<lambda>s. case getGrant i s of
             (Ok x, s) \<Rightarrow> (Ok (Some token, Some (LOffline x)), s) | (Err _, s) \<Rightarrow> (Ok (Some token, None), s) | (Panic, s) \<Rightarrow> (Panic, s)))
       | _ \<Rightarrow> ret (Some token, None))))"

section \<open>The server's claims survive the hooks\<close>

lemma map_of_set_claims: "map_of (set_claims kvs m) k = (case map_of (rev kvs) k of Some v \<Rightarrow> Some v | None \<Rightarrow> map_of m k)"
proof (induction kvs arbitrary: m)
  case (Cons kv kvs)
  obtain k' v' where kv: "kv = (k', v')" by force
  have "map_of (set_claims (kv # kvs) m) k = map_of (set_claims kvs (set_claim k' v' m)) k" by (simp add: set_claims_def kv)
  also have "\<dots> = (case map_of (rev kvs) k of Some v \<Rightarrow> Some v | None \<Rightarrow> map_of (set_claim k' v' m) k)" by (rule Cons.IH)
  finally show ?case by (simp add: kv map_of_set_claim map_add_def split: option.split)
qed (simp add: set_claims_def)

text \<open>Building a JWT from a map keeps the entries of the map.\<close>

definition builds_as_written :: "(json_object \<Rightarrow> json_object option) \<Rightarrow> bool" where
  "builds_as_written build \<longleftrightarrow> (\<forall>m t. build m = Some t \<longrightarrow> map_of t = map_of m)"

lemma ApplyMutations_Inr:
  assumes "ApplyMutations build forMutation forBackup = Inr t" "builds_as_written build" "map_of forBackup k = Some v"
  shows "map_of t k = Some v"
proof -
  from assms(1) have none: "removed_keys forMutation forBackup = []" "changed_keys forMutation forBackup = []" and t: "build forMutation = Some t"
    by (auto simp: ApplyMutations_def Let_def split: if_splits option.splits)
  have "k \<in> set (remdups (map fst forBackup))" using assms(3) by (force dest: map_of_SomeD)
  with none have "map_of forMutation k = map_of forBackup k"
    unfolding removed_keys_def changed_keys_def filter_empty_conv by blast
  with assms(2,3) t show ?thesis by (simp add: builds_as_written_def)
qed

lemma ApplyMutations_refuses:
  assumes "map_of forBackup k = Some v" "map_of forMutation k \<noteq> Some v"
  shows "\<exists>removed changed. ApplyMutations build forMutation forBackup = Inl (InvalidJWTMutations removed changed) \<and> k \<in> set (removed @ changed)"
proof -
  have "k \<in> set (remdups (map fst forBackup))" using assms(1) by (force dest: map_of_SomeD)
  with assms have "k \<in> set (removed_keys forMutation forBackup @ changed_keys forMutation forBackup)"
    by (auto simp: removed_keys_def changed_keys_def)
  then show ?thesis by (auto simp: ApplyMutations_def Let_def)
qed

lemma on_request_Ok: "on_request p s = (Ok x, s') \<longleftrightarrow> (\<exists>q. p (iss_Request s) = (Ok x, q) \<and> s' = s\<lparr>iss_Request := q\<rparr>)"
  by (cases "fst (p (iss_Request s))") (auto simp: on_request_def split: prod.splits)

lemma offered_then_signed:
  assumes "offer_claims ie t userID claims s = (Ok p, s1)" "sign_claims ie t typ p s2 = (Ok out, s3)" "builds_as_written (ie_Build ie)"
  shows "\<exists>cl. ie_Sign ie typ cl = Some out \<and> (\<forall>k v. map_of claims k = Some v \<longrightarrow> map_of cl k = Some v)"
proof -
  from assms(1) have backup: "snd p = claims"
    by (auto simp: offer_claims_def PrepareForMutations_def bindp_Ok run_simps)
  from assms(2) obtain e s where d: "on_request (DispatchEventWithoutTx (ie_Sinks ie) (fst p)) s2 = (Ok e, s)"
    and rest: "(case ev_Payload e of
       Blocking (TokenPayload t' _ _ claims _) \<Rightarrow> if t' \<noteq> t then panicp else
         (case ApplyMutations (ie_Build ie) (attrs_of claims) (snd p) of
           Inl err \<Rightarrow> failp err
         | Inr claims \<Rightarrow> (case ie_Sign ie typ claims of None \<Rightarrow> failp (JWTLibraryError ''sign'') | Some out \<Rightarrow> ret out))
     | _ \<Rightarrow> panicp) s = (Ok out, s3)"
    unfolding sign_claims_def bindp_Ok by blast
  from rest obtain left cl where "ApplyMutations (ie_Build ie) left (snd p) = Inr cl" "ie_Sign ie typ cl = Some out"
    by (auto simp: run_simps split: payload.splits BlockingPayload.splits if_splits sum.splits option.splits)
  with ApplyMutations_Inr [OF _ assms(3)] backup show ?thesis by metis
qed

definition populated :: "json_object \<Rightarrow> string \<Rightarrow> ClientLike \<Rightarrow> user_info \<Rightarrow> json_object" where
  "populated token userID client i = (let token = base_claims userID i token in
     if like_PIIAllowedInIDToken client
     then set_claims (filter (\<lambda>(k, _). isClaimAllowed client k) (attrs_of (um_StandardAttributes (uf_User i)))) token
     else token)"

text \<open>What the issuer knows of a user at the moment of the preparation.\<close>

definition issuer_info :: "('d, 'x, 'r) issuer_env \<Rightarrow> time \<Rightarrow> string \<Rightarrow> ('d, 'x, 'r) issuer_state \<Rightarrow> (info_error, user_info) outcome" where
  "issuer_info ie now userID s = (let db = tx_db (iss_Request s) in
     fst (GetUserInfoBearer (ie_InfoRedis ie) (ie_InfoServices ie db) (ie_Users ie db) now (ie_AppID ie) userID (iss_Info s)))"

lemma Populate_Ok:
  assumes "Populate ie now token userID client s = (Ok claims, s')"
  shows "\<exists>i. issuer_info ie now userID s = Ok i \<and> claims = populated token userID client i"
proof -
  obtain r q where g: "GetUserInfoBearer (ie_InfoRedis ie) (ie_InfoServices ie (tx_db (iss_Request s))) (ie_Users ie (tx_db (iss_Request s)))
    now (ie_AppID ie) userID (iss_Info s) = (r, q)" by force
  with assms show ?thesis
    by (cases r) (auto simp: Populate_def on_info_def PopulateUserClaimsInIDToken_def bindp_def run_simps issuer_info_def populated_def Let_def)
qed

lemma map_of_base_claims:
  "map_of (base_claims userID i m) k = (case map_of (rev [(''sub'', JString userID), (claim_is_anonymous, JBool (um_IsAnonymous (uf_User i))),
     (claim_is_verified, JBool (um_IsVerified (uf_User i))), (claim_can_reauthenticate, JBool (um_CanReauthenticate (uf_User i))),
     (claim_roles, json_strings (uf_EffectiveRoleKeys i))]) k of Some v \<Rightarrow> Some v | None \<Rightarrow> map_of m k)"
  unfolding base_claims_def by (rule map_of_set_claims)

text \<open>The names of the claims that are the server's own.\<close>

definition server_claims :: "string list" where
  "server_claims = [''iss'', ''aud'', ''iat'', ''exp'', ''auth_time'', ''sid'', ''amr'', ''ds_hash'', ''nonce'', ''client_id'', ''scope'', ''jti'']
     @ base_claim_names"

definition apart :: "user_info \<Rightarrow> ClientLike \<Rightarrow> bool" where
  "apart i client \<longleftrightarrow> (like_PIIAllowedInIDToken client \<longrightarrow>
     list_all (\<lambda>(k, _). k \<notin> set server_claims) (attrs_of (um_StandardAttributes (uf_User i))))"

lemma map_of_populated:
  assumes "apart i client" "k \<in> set server_claims"
  shows "map_of (populated token userID client i) k = map_of (base_claims userID i token) k"
proof -
  have "k \<notin> fst ` set (filter (\<lambda>(k, _). isClaimAllowed client k) (attrs_of (um_StandardAttributes (uf_User i))))"
    if "like_PIIAllowedInIDToken client"
    using assms that by (auto simp: apart_def list_all_iff)
  then show ?thesis by (simp add: populated_def set_claims_not Let_def)
qed

text \<open>C10: an ID token says what the server says. Whatever the hooks answer and whatever happens between the preparation
  and the signing, a token that is signed names this server, the client and the user, was issued now for
  five minutes, carries the session, the nonce and the time of the authentication it was asked for, and the
  roles and the state of the user as they were read; otherwise there is no token.\<close>

theorem id_token_says_what_server_says:
  assumes "PrepareIDToken ie now opts s = (Ok p, s1)" "MakeIDTokenFromPreparationResult ie p s2 = (Ok out, s3)"
    and "builds_as_written (ie_Build ie)"
    and "issuer_info ie now (ai_UserID (pi_AuthenticationInfo opts)) s = Ok i" "apart i (pi_ClientLike opts)"
  shows "\<exists>cl. ie_Sign ie ''JWT'' cl = Some out \<and>
    map_of cl ''iss'' = Some (JString (ie_Origin ie)) \<and> map_of cl ''aud'' = Some (JArray [JString (pi_ClientID opts)]) \<and>
    map_of cl ''sub'' = Some (JString (ai_UserID (pi_AuthenticationInfo opts))) \<and>
    map_of cl ''iat'' = Some (Unix now) \<and> map_of cl ''exp'' = Some (Unix (now + 300000000000)) \<and>
    map_of cl ''auth_time'' = Some (Unix (ai_AuthenticatedAt (pi_AuthenticationInfo opts))) \<and>
    (pi_SID opts \<noteq> '''' \<longrightarrow> map_of cl ''sid'' = Some (JString (pi_SID opts))) \<and>
    (pi_Nonce opts \<noteq> '''' \<longrightarrow> map_of cl ''nonce'' = Some (JString (pi_Nonce opts))) \<and>
    map_of cl claim_roles = Some (json_strings (uf_EffectiveRoleKeys i)) \<and>
    map_of cl claim_can_reauthenticate = Some (JBool (um_CanReauthenticate (uf_User i)))"
proof -
  from assms(1) obtain claims1 sp where pop: "Populate ie now (id_token_claims ie now opts) (ai_UserID (pi_AuthenticationInfo opts)) (pi_ClientLike opts) s = (Ok claims1, sp)"
    and off: "offer_claims ie OIDCIDTokenPreCreate (ai_UserID (pi_AuthenticationInfo opts))
      (if oauth_used (pi_IdentitySpecs opts) \<noteq> [] then set_claim claim_oauth_asserted (JArray (oauth_used (pi_IdentitySpecs opts))) claims1 else claims1) sp = (Ok p, s1)"
    by (auto simp: PrepareIDToken_def bindp_Ok Let_def)
  from Populate_Ok [OF pop] assms(4) have c1: "claims1 = populated (id_token_claims ie now opts) (ai_UserID (pi_AuthenticationInfo opts)) (pi_ClientLike opts) i" by simp
  from offered_then_signed [OF off assms(2) [unfolded MakeIDTokenFromPreparationResult_def] assms(3)]
  obtain cl where sign: "ie_Sign ie ''JWT'' cl = Some out"
    and keep: "\<And>k v. k \<noteq> claim_oauth_asserted \<Longrightarrow> map_of claims1 k = Some v \<Longrightarrow> map_of cl k = Some v"
    by (force simp: map_of_set_claim)
  have own: "map_of cl k = Some v" if "k \<in> set server_claims"
    "map_of (base_claims (ai_UserID (pi_AuthenticationInfo opts)) i (id_token_claims ie now opts)) k = Some v" for k v
  proof (rule keep)
    show "k \<noteq> claim_oauth_asserted" using that(1) by (auto simp: server_claims_def base_claim_names_def)
    show "map_of claims1 k = Some v" using map_of_populated [OF assms(5) that(1)] that(2) by (simp add: c1)
  qed
  note simps = server_claims_def base_claim_names_def map_of_base_claims id_token_claims_def map_of_set_claims Let_def audience_def
    claim_unless_empty_def amr_claim_def IDTokenValidDuration_def Short_def
  show ?thesis
    by (intro exI [of _ cl] conjI impI sign own) (simp_all add: simps)
qed


text \<open>The JWT library: what is signed as an access token is read back with its id, and is not valid at or after its expiry.\<close>

definition reads_what_it_signs :: "('d, 'x, 'r) issuer_env \<Rightarrow> jwt_library \<Rightarrow> bool" where
  "reads_what_it_signs ie jl \<longleftrightarrow> (\<forall>typ cl out. ie_Sign ie typ cl = Some out \<longrightarrow> take 3 out = ''eyJ'' \<and>
     (\<forall>jti. map_of cl ''jti'' = Some (JString jti) \<longrightarrow> jl_Parse jl out = Some jti) \<and>
     (\<forall>t e. map_of cl ''exp'' = Some (Unix e) \<longrightarrow> jl_Validate jl t out \<longrightarrow> t < e))"


text \<open>An issuer whose hook adds a claim, and a library that writes the id of a token only.\<close>

definition adding_sink :: "('d, 'x) sink" where
  "adding_sink = \<lparr>sk_ReceiveBlockingEvent = \<lambda>e. ret (case ev_Payload e of
       Blocking (TokenPayload t u m claims b) \<Rightarrow> e\<lparr>ev_Payload := Blocking (TokenPayload t u m (Some (set_claim ''extra'' (JBool True) (attrs_of claims))) b)\<rparr>
     | _ \<Rightarrow> e),
     sk_ReceiveNonBlockingEvent = \<lambda>e. ret ()\<rparr>"

definition example_issuer :: "(user_table, unit, info_map) issuer_env" where
  "example_issuer = \<lparr>ie_Request = example_request, ie_Sinks = [adding_sink], ie_AppID = ''app'', ie_Origin = ''https://app'',
     ie_InfoRedis = im_redis, ie_InfoServices = \<lambda>_. plain_services, ie_Users = \<lambda>db. db, ie_Identities = \<lambda>_ _. Ok JNull,
     ie_Build = Some, ie_Sign = \<lambda>typ cl. if map_of cl ''exp'' \<in> {Some (Unix 60000000000), Some (Unix 300000000007)}
       then Some (''eyJ'' @ json_string (map_of cl ''jti'')) else None,
     ie_Verify = \<lambda>_. True, ie_SplitWithoutVerify = \<lambda>_. Some [], ie_Hash = \<lambda>s. s\<rparr>"

definition example_state :: "(user_table, unit, info_map) issuer_state" where
  "example_state = \<lparr>iss_Request = \<lparr>tx_db = new_user_table, tx_hooks = [], tx_world =
     \<lparr>ew_Service = new_service, ew_Seq = 0, ew_Mono = 0, ew_Net = (), ew_Async = []\<rparr>\<rparr>, iss_Info = \<lambda>_. None\<rparr>"

definition example_like :: ClientLike where
  "example_like = \<lparr>like_IsFirstParty = True, like_PIIAllowedInIDToken = False, like_Scopes = [''openid'']\<rparr>"

definition example_options :: PrepareIDTokenOptions where
  "example_options = \<lparr>pi_ClientID = ''c'', pi_SID = '''', pi_Nonce = ''n'', pi_AuthenticationInfo = \<lparr>ai_UserID = ''u'', ai_AuthenticatedAt = 3, ai_AMR = []\<rparr>,
     pi_ClientLike = example_like, pi_DeviceSecretHash = '''', pi_IdentitySpecs = []\<rparr>"

lemma example_builds: "builds_as_written (ie_Build example_issuer)"
  by (simp add: builds_as_written_def example_issuer_def)

lemma Populate_example:
  "\<exists>i r. issuer_info example_issuer 7 ''u'' example_state = Ok i \<and>
     Populate example_issuer 7 token ''u'' example_like example_state = (Ok (base_claims ''u'' i token), example_state\<lparr>iss_Info := r\<rparr>)"
proof -
  obtain i where i: "getUserInfoFromDatabase plain_services new_user_table 7 ''app'' ''u'' RoleBearer = Ok i" using new_user_info by blast
  then show ?thesis
    by (simp add: Populate_def on_info_def PopulateUserClaimsInIDToken_def GetUserInfoBearer_def getUserInfo_def getUserInfoFromCache_def
        cacheUserInfo_def bindp_def run_simps im_redis_def im_view_def Let_def example_issuer_def example_state_def issuer_info_def example_like_def)
qed

lemma example_offered_and_signed:
  assumes "map_of claims ''extra'' = None" "\<And>cl. map_of cl ''exp'' = map_of claims ''exp'' \<Longrightarrow> ie_Sign example_issuer typ cl \<noteq> None"
  shows "\<exists>p s1 out s3. offer_claims example_issuer t ''u'' claims (example_state\<lparr>iss_Info := r\<rparr>) = (Ok p, s1) \<and>
    sign_claims example_issuer t typ p s1 = (Ok out, s3)"
proof -
  let ?s = "example_state\<lparr>iss_Info := r\<rparr>"
  obtain e s1 where p: "offer_claims example_issuer t ''u'' claims ?s = (Ok (e, claims), s1)"
    and e: "ev_Payload e = Blocking (TokenPayload t ''u'' no_user (Some claims) JNull)"
    by (simp add: offer_claims_def PrepareForMutations_def read_db_def on_request_def PrepareBlockingEventWithTx_def make_context_def
        makeContext_def NextSequenceNumber_def resolve_payload_def resolve_user_def example_issuer_def example_request_def example_state_def
        bindp_def run_simps newBlockingEvent_def newEvent_def Let_def)
  let ?cl = "set_claim ''extra'' (JBool True) claims"
  have "ApplyMutations Some ?cl claims = Inr ?cl"
  proof -
    have same: "map_of ?cl k = map_of claims k" "map_of claims k \<noteq> None" if "k \<in> fst ` set claims" for k
    proof -
      have "k \<noteq> ''extra''" using assms(1) that by (metis map_of_eq_None_iff)
      then show "map_of ?cl k = map_of claims k" by (simp add: map_of_set_claim)
      show "map_of claims k \<noteq> None" using that by (simp add: map_of_eq_None_iff)
    qed
    have "removed_keys ?cl claims = []" "changed_keys ?cl claims = []"
      unfolding removed_keys_def changed_keys_def filter_empty_conv using same by auto
    then show ?thesis by (simp add: ApplyMutations_def)
  qed
  moreover obtain out where "ie_Sign example_issuer typ ?cl = Some out"
    using assms(2) [of ?cl] by (auto simp: map_of_set_claim)
  ultimately have "\<exists>s3. sign_claims example_issuer t typ (e, claims) s1 = (Ok out, s3)"
    using e by (simp add: sign_claims_def DispatchEventWithoutTx_def on_request_def on_sink_def adding_sink_def attrs_of_def
        bindp_def run_simps example_issuer_def)
  with p show ?thesis by blast
qed

theorem id_token_says_what_server_says_witness:
  "\<exists>p s1 out s3 cl. PrepareIDToken example_issuer 7 example_options example_state = (Ok p, s1) \<and>
    MakeIDTokenFromPreparationResult example_issuer p s1 = (Ok out, s3) \<and>
    map_of cl ''sub'' = Some (JString ''u'') \<and> map_of cl ''nonce'' = Some (JString ''n'') \<and> ie_Sign example_issuer ''JWT'' cl = Some out"
proof -
  obtain i r where i: "issuer_info example_issuer 7 ''u'' example_state = Ok i"
    and pop: "Populate example_issuer 7 (id_token_claims example_issuer 7 example_options) ''u'' example_like example_state =
      (Ok (base_claims ''u'' i (id_token_claims example_issuer 7 example_options)), example_state\<lparr>iss_Info := r\<rparr>)"
    using Populate_example by blast
  let ?claims = "base_claims ''u'' i (id_token_claims example_issuer 7 example_options)"
  have none: "map_of ?claims ''extra'' = None" and exp: "map_of ?claims ''exp'' = Some (Unix 300000000007)"
    by (simp_all add: map_of_base_claims id_token_claims_def map_of_set_claims Let_def audience_def claim_unless_empty_def amr_claim_def
        example_options_def IDTokenValidDuration_def Short_def)
  have "ie_Sign example_issuer ''JWT'' cl \<noteq> None" if "map_of cl ''exp'' = map_of ?claims ''exp''" for cl
    using that unfolding exp by (simp add: example_issuer_def)
  from example_offered_and_signed [OF none this] obtain p s1 out s3 where
    "offer_claims example_issuer OIDCIDTokenPreCreate ''u'' ?claims (example_state\<lparr>iss_Info := r\<rparr>) = (Ok p, s1)"
    and m: "sign_claims example_issuer OIDCIDTokenPreCreate ''JWT'' p s1 = (Ok out, s3)"
    by blast
  with pop have p: "PrepareIDToken example_issuer 7 example_options example_state = (Ok p, s1)"
    by (simp add: PrepareIDToken_def bindp_run example_options_def oauth_used_def Let_def)
  have m: "MakeIDTokenFromPreparationResult example_issuer p s1 = (Ok out, s3)"
    using m by (simp add: MakeIDTokenFromPreparationResult_def)
  have "apart i (pi_ClientLike example_options)" by (simp add: apart_def example_like_def example_options_def)
  with id_token_says_what_server_says [OF p m example_builds, of i] i p m show ?thesis
    by (auto simp: example_options_def)
qed

definition example_library :: jwt_library where
  "example_library = \<lparr>jl_Parse = \<lambda>s. Some (drop 3 s), jl_Validate = \<lambda>t _. t < 60000000000\<rparr>"

definition example_grant :: AccessGrant where
  "example_grant = \<lparr>ag_AppID = ''app'', ag_AuthorizationID = '''', ag_SessionID = ''s'', ag_SessionKind = GrantSessionKindOffline,
     ag_CreatedAt = 0, ag_ExpireAt = 60000000000, ag_Scopes = [''openid'', ''email''], ag_TokenHash = ''h'', ag_InitialRefreshTokenHash = ''''\<rparr>"


lemma example_reads: "reads_what_it_signs example_issuer example_library"
  by (auto simp: reads_what_it_signs_def example_issuer_def example_library_def Unix_def split: if_splits)


end
