(* ===== verification/ResourceScope.thy ===== *)
theory ResourceScope imports Pagination OfflineGrant UserStore begin

text \<open>
  Resources, their scopes and the clients that may ask for them: \<^verbatim>\<open>pkg/lib/resourcescope\<close>. The four
  tables are lists of rows, each row with the app it belongs to; the unique indices and the references
  of the schema are checked where a statement could break them. The ids of association rows are left
  out: nothing reads them.
\<close>

record Resource =
  rsc_App :: string
  rsc_ID :: string
  rsc_CreatedAt :: time
  rsc_UpdatedAt :: time
  rsc_URI :: string
  rsc_Name :: "string option"

record Scope =
  sc_App :: string
  sc_ID :: string
  sc_CreatedAt :: time
  sc_UpdatedAt :: time
  sc_ResourceID :: string
  sc_Scope :: string
  sc_Description :: "string option"

record client_resource =
  cr_App :: string
  cr_ClientID :: string
  cr_ResourceID :: string

record client_scope =
  cs_App :: string
  cs_ClientID :: string
  cs_ResourceID :: string
  cs_ScopeID :: string

record resource_db =
  t_Resources :: "Resource list"
  t_Scopes :: "Scope list"
  t_ClientResources :: "client_resource list"
  t_ClientScopes :: "client_scope list"

datatype resource_error = ErrResourceNotFound | ErrResourceDuplicateURI | ErrScopeNotFound | ErrScopeDuplicate
  | ErrResourceClientNotFound | ErrResourceNotAssociatedWithClient | ResourcePageError page_error | ResourceSQLError

type_synonym 'a resource_proc = "(resource_db, resource_error, 'a) proc"

section \<open>Formats\<close>

text \<open>\<^verbatim>\<open>url.URL\<close>, of the fields the check looks at; \<open>ur_HasUser\<close> is \<^verbatim>\<open>User != nil\<close>.\<close>

record url_parts =
  ur_Scheme :: string
  ur_Opaque :: string
  ur_HasUser :: bool
  ur_Host :: string
  ur_RawQuery :: string
  ur_Fragment :: string
  ur_RawFragment :: string

definition FormatResourceURI :: "(string \<Rightarrow> url_parts option) \<Rightarrow> (string \<Rightarrow> bool) \<Rightarrow> string \<Rightarrow> bool" where
  "FormatResourceURI url_Parse FormatURI str = (case url_Parse str of None \<Rightarrow> False | Some u \<Rightarrow>
     if ur_Opaque u \<noteq> '''' then False else if ur_HasUser u then False else if ur_Host u = '''' then False
     else if ur_Scheme u = ''https'' then
       (if ur_RawQuery u \<noteq> '''' then False
        else if ur_Fragment u \<noteq> '''' \<or> ur_RawFragment u \<noteq> '''' then False else FormatURI str)
     else False)"

definition scope_token_char :: "char \<Rightarrow> bool" where
  "scope_token_char c = (let n = of_char c :: nat in n = 0x21 \<or> 0x23 \<le> n \<and> n \<le> 0x5B \<or> 0x5D \<le> n \<and> n \<le> 0x7E)"

definition FormatScopeToken :: "string \<Rightarrow> bool" where
  "FormatScopeToken s \<longleftrightarrow> s \<noteq> '''' \<and> list_all scope_token_char s \<and> take (length ''https://authgear.com'') s \<noteq> ''https://authgear.com''"

section \<open>The store\<close>

definition app_resources :: "string \<Rightarrow> resource_db \<Rightarrow> Resource list" where
  "app_resources app db = filter (\<lambda>r. rsc_App r = app) (t_Resources db)"

definition app_scopes :: "string \<Rightarrow> resource_db \<Rightarrow> Scope list" where
  "app_scopes app db = filter (\<lambda>s. sc_App s = app) (t_Scopes db)"

text \<open>A row of the first, or the error.\<close>

definition first_or :: "'e \<Rightarrow> 'a list \<Rightarrow> ('s, 'e, 'a) proc" where
  "first_or e rows = (case rows of [] \<Rightarrow> failp e | x # _ \<Rightarrow> ret x)"

definition NewResource :: "string \<Rightarrow> time \<Rightarrow> string \<Rightarrow> string \<Rightarrow> string option \<Rightarrow> Resource" where
  "NewResource app now uuid uri name = \<lparr>rsc_App = app, rsc_ID = uuid, rsc_CreatedAt = now, rsc_UpdatedAt = now, rsc_URI = uri, rsc_Name = name\<rparr>"

definition RS_CreateResource :: "Resource \<Rightarrow> unit resource_proc" where
  "RS_CreateResource r = bindp (getp t_Resources) (\<lambda>rows.
     if \<exists>r' \<in> set rows. rsc_ID r' = rsc_ID r \<or> rsc_App r' = rsc_App r \<and> rsc_URI r' = rsc_URI r then failp ErrResourceDuplicateURI
     else modp (\<lambda>db. db\<lparr>t_Resources := t_Resources db @ [r]\<rparr>))"

text \<open>An empty name or description becomes null; none is left as it is.\<close>

definition set_optional :: "string option \<Rightarrow> string option \<Rightarrow> string option" where
  "set_optional new old = (case new of None \<Rightarrow> old | Some v \<Rightarrow> if v = '''' then None else Some v)"

text \<open>\<^verbatim>\<open>UPDATE\<close> and \<^verbatim>\<open>DELETE\<close> of the rows that satisfy a condition; it is an error when they are not exactly one.\<close>

definition exactly_one :: "'e \<Rightarrow> nat \<Rightarrow> ('s, 'e, unit) proc" where
  "exactly_one e count = (if count \<noteq> 1 then failp e else ret ())"

definition RS_UpdateResource :: "string \<Rightarrow> time \<Rightarrow> string \<Rightarrow> string option \<Rightarrow> unit resource_proc" where
  "RS_UpdateResource app now uri newName = (let P = (\<lambda>r. rsc_App r = app \<and> rsc_URI r = uri) in
     bindp (getp (\<lambda>db. length (filter P (t_Resources db)))) (\<lambda>count.
     bindp (modp (\<lambda>db. db\<lparr>t_Resources := map (\<lambda>r. if P r then r\<lparr>rsc_UpdatedAt := now, rsc_Name := set_optional newName (rsc_Name r)\<rparr> else r)
       (t_Resources db)\<rparr>)) (\<lambda>_.
     exactly_one ErrResourceNotFound count)))"

text \<open>A row that is referred to cannot be deleted.\<close>

definition RS_DeleteResource :: "string \<Rightarrow> string \<Rightarrow> unit resource_proc" where
  "RS_DeleteResource app i = (let P = (\<lambda>r. rsc_App r = app \<and> rsc_ID r = i) in
     bindp (getp id) (\<lambda>db.
     if \<exists>r \<in> set (filter P (t_Resources db)). rsc_ID r \<in> sc_ResourceID ` set (t_Scopes db) \<union> cr_ResourceID ` set (t_ClientResources db)
         \<union> cs_ResourceID ` set (t_ClientScopes db) then failp ResourceSQLError
     else bindp (modp (\<lambda>db. db\<lparr>t_Resources := filter (Not \<circ> P) (t_Resources db)\<rparr>)) (\<lambda>_.
       exactly_one ErrResourceNotFound (length (filter P (t_Resources db))))))"

definition RS_GetResourceByID :: "string \<Rightarrow> string \<Rightarrow> Resource resource_proc" where
  "RS_GetResourceByID app i = bindp (getp (app_resources app)) (\<lambda>rows. first_or ErrResourceNotFound (filter (\<lambda>r. rsc_ID r = i) rows))"

definition RS_GetResourceByURI :: "string \<Rightarrow> string \<Rightarrow> Resource resource_proc" where
  "RS_GetResourceByURI app uri = bindp (getp (app_resources app)) (\<lambda>rows. first_or ErrResourceNotFound (filter (\<lambda>r. rsc_URI r = uri) rows))"

definition RS_GetManyResources :: "string \<Rightarrow> string list \<Rightarrow> Resource list resource_proc" where
  "RS_GetManyResources app ids = getp (\<lambda>db. filter (\<lambda>r. rsc_ID r \<in> set ids) (app_resources app db))"

text \<open>A join gives a row for every pair.\<close>

definition join_client :: "string \<Rightarrow> string \<Rightarrow> resource_db \<Rightarrow> Resource list \<Rightarrow> Resource list" where
  "join_client app clientID db rows = concat (map (\<lambda>r. map (\<lambda>_. r)
     (filter (\<lambda>a. cr_App a = app \<and> cr_ResourceID a = rsc_ID r \<and> cr_ClientID a = clientID) (t_ClientResources db))) rows)"

definition RS_GetClientResource :: "string \<Rightarrow> string \<Rightarrow> string \<Rightarrow> Resource resource_proc" where
  "RS_GetClientResource app clientID resourceID = bindp (getp (\<lambda>db.
     join_client app clientID db (filter (\<lambda>r. rsc_ID r = resourceID) (app_resources app db))))
     (first_or ErrResourceNotAssociatedWithClient)"

text \<open>\<open>ilike k v\<close> is \<^verbatim>\<open>v ILIKE '%' || k || '%'\<close>; null is like nothing.\<close>

definition like_null :: "(string \<Rightarrow> string \<Rightarrow> bool) \<Rightarrow> string \<Rightarrow> string option \<Rightarrow> bool" where
  "like_null ilike k v = (case v of None \<Rightarrow> False | Some v \<Rightarrow> ilike k v)"

definition applyListResourcesOptions :: "(string \<Rightarrow> string \<Rightarrow> bool) \<Rightarrow> string \<Rightarrow> string \<Rightarrow> string \<Rightarrow> resource_db \<Rightarrow> Resource list \<Rightarrow> Resource list" where
  "applyListResourcesOptions ilike app keyword clientID db rows = (let
     rows = (if keyword \<noteq> '''' then filter (\<lambda>r. ilike keyword (rsc_URI r) \<or> like_null ilike keyword (rsc_Name r)) rows else rows)
   in if clientID \<noteq> '''' then join_client app clientID db rows else rows)"

definition RS_page :: "PageArgs \<Rightarrow> 'a list \<Rightarrow> nat \<Rightarrow> ('a list \<times> 64 word \<times> nat) resource_proc" where
  "RS_page pageArgs rows count = (case page_of pageArgs rows of
     Ok (items, offset) \<Rightarrow> ret (items, offset, count) | Err (UserPageError e) \<Rightarrow> failp (ResourcePageError e)
   | Err _ \<Rightarrow> failp ResourceSQLError | Panic \<Rightarrow> panicp)"

definition RS_ListResources :: "(string \<Rightarrow> string \<Rightarrow> bool) \<Rightarrow> string \<Rightarrow> string \<Rightarrow> string \<Rightarrow> PageArgs \<Rightarrow> (Resource list \<times> 64 word \<times> nat) resource_proc" where
  "RS_ListResources ilike app keyword clientID pageArgs = bindp (getp (\<lambda>db. applyListResourcesOptions ilike app keyword clientID db (app_resources app db)))
     (\<lambda>rows. RS_page pageArgs (sort_key (\<lambda>r. - rsc_CreatedAt r) rows) (length rows))"

definition RS_AddResourceToClientID :: "string \<Rightarrow> string \<Rightarrow> string \<Rightarrow> unit resource_proc" where
  "RS_AddResourceToClientID app resourceID clientID = bindp (getp id) (\<lambda>db. let row = \<lparr>cr_App = app, cr_ClientID = clientID, cr_ResourceID = resourceID\<rparr> in
     if row \<in> set (t_ClientResources db) then ret ()
     else if resourceID \<notin> rsc_ID ` set (t_Resources db) then failp ResourceSQLError
     else modp (\<lambda>db. db\<lparr>t_ClientResources := t_ClientResources db @ [row]\<rparr>))"

definition RS_RemoveResourceFromClientID :: "string \<Rightarrow> string \<Rightarrow> string \<Rightarrow> unit resource_proc" where
  "RS_RemoveResourceFromClientID app resourceID clientID = modp (\<lambda>db. db\<lparr>t_ClientResources :=
     filter (\<lambda>a. \<not> (cr_App a = app \<and> cr_ClientID a = clientID \<and> cr_ResourceID a = resourceID)) (t_ClientResources db)\<rparr>)"

definition RS_ListClientIDsByResourceIDs :: "string \<Rightarrow> string list \<Rightarrow> (string \<Rightarrow> string list option) resource_proc" where
  "RS_ListClientIDsByResourceIDs app resourceIDs = getp (\<lambda>db i. if i \<in> set resourceIDs
     then Some (map cr_ClientID (filter (\<lambda>a. cr_App a = app \<and> cr_ResourceID a = i) (t_ClientResources db))) else None)"

definition NewScope_row :: "string \<Rightarrow> time \<Rightarrow> string \<Rightarrow> Resource \<Rightarrow> string \<Rightarrow> string option \<Rightarrow> Scope" where
  "NewScope_row app now uuid resource scope desc = \<lparr>sc_App = app, sc_ID = uuid, sc_CreatedAt = now, sc_UpdatedAt = now,
     sc_ResourceID = rsc_ID resource, sc_Scope = scope, sc_Description = desc\<rparr>"

definition RS_CreateScope :: "Scope \<Rightarrow> unit resource_proc" where
  "RS_CreateScope s = bindp (getp id) (\<lambda>db.
     if \<exists>s' \<in> set (t_Scopes db). sc_ID s' = sc_ID s \<or> sc_App s' = sc_App s \<and> sc_ResourceID s' = sc_ResourceID s \<and> sc_Scope s' = sc_Scope s
     then failp ErrScopeDuplicate
     else if sc_ResourceID s \<notin> rsc_ID ` set (t_Resources db) then failp ResourceSQLError
     else modp (\<lambda>db. db\<lparr>t_Scopes := t_Scopes db @ [s]\<rparr>))"

definition scope_row :: "string \<Rightarrow> string \<Rightarrow> string \<Rightarrow> Scope \<Rightarrow> bool" where
  "scope_row app resourceID scope s \<longleftrightarrow> sc_App s = app \<and> sc_ResourceID s = resourceID \<and> sc_Scope s = scope"

definition RS_UpdateScope :: "string \<Rightarrow> time \<Rightarrow> string \<Rightarrow> string \<Rightarrow> string option \<Rightarrow> unit resource_proc" where
  "RS_UpdateScope app now resourceURI scope newDesc = bindp (RS_GetResourceByURI app resourceURI) (\<lambda>resource.
     let P = scope_row app (rsc_ID resource) scope in
     bindp (getp (\<lambda>db. length (filter P (t_Scopes db)))) (\<lambda>count.
     bindp (modp (\<lambda>db. db\<lparr>t_Scopes := map (\<lambda>s. if P s then s\<lparr>sc_UpdatedAt := now, sc_Description := set_optional newDesc (sc_Description s)\<rparr> else s)
       (t_Scopes db)\<rparr>)) (\<lambda>_.
     exactly_one ErrScopeNotFound count)))"

definition RS_GetScopeByID :: "string \<Rightarrow> string \<Rightarrow> Scope resource_proc" where
  "RS_GetScopeByID app i = bindp (getp (app_scopes app)) (\<lambda>rows. first_or ErrScopeNotFound (filter (\<lambda>s. sc_ID s = i) rows))"

definition RS_DeleteScope :: "string \<Rightarrow> string \<Rightarrow> string \<Rightarrow> unit resource_proc" where
  "RS_DeleteScope app resourceURI scope = bindp (RS_GetResourceByURI app resourceURI) (\<lambda>resource.
     let P = scope_row app (rsc_ID resource) scope in
     bindp (getp id) (\<lambda>db.
     if \<exists>s \<in> set (filter P (t_Scopes db)). sc_ID s \<in> cs_ScopeID ` set (t_ClientScopes db) then failp ResourceSQLError
     else bindp (modp (\<lambda>db. db\<lparr>t_Scopes := filter (Not \<circ> P) (t_Scopes db)\<rparr>)) (\<lambda>_.
       exactly_one ErrScopeNotFound (length (filter P (t_Scopes db))))))"

definition RS_GetManyScopes :: "string \<Rightarrow> string list \<Rightarrow> Scope list resource_proc" where
  "RS_GetManyScopes app ids = getp (\<lambda>db. filter (\<lambda>s. sc_ID s \<in> set ids) (app_scopes app db))"

definition join_client_scope :: "string \<Rightarrow> string \<Rightarrow> resource_db \<Rightarrow> Scope list \<Rightarrow> Scope list" where
  "join_client_scope app clientID db rows = concat (map (\<lambda>s. map (\<lambda>_. s)
     (filter (\<lambda>a. cs_App a = app \<and> cs_ScopeID a = sc_ID s \<and> cs_ClientID a = clientID) (t_ClientScopes db))) rows)"

definition applyListScopesOptions :: "(string \<Rightarrow> string \<Rightarrow> bool) \<Rightarrow> string \<Rightarrow> (string \<times> string) option \<Rightarrow> resource_db \<Rightarrow> Scope list \<Rightarrow> Scope list" where
  "applyListScopesOptions ilike app options db rows = (case options of None \<Rightarrow> rows | Some (keyword, clientID) \<Rightarrow> (let
     rows = (if keyword \<noteq> '''' then filter (\<lambda>s. ilike keyword (sc_Scope s) \<or> like_null ilike keyword (sc_Description s)) rows else rows)
   in if clientID \<noteq> '''' then join_client_scope app clientID db rows else rows))"

text \<open>\<open>order\<close> is the order of text of the database.\<close>

definition RS_ListScopes :: "(string \<Rightarrow> string \<Rightarrow> bool) \<Rightarrow> (string \<Rightarrow> nat) \<Rightarrow> string \<Rightarrow> string \<Rightarrow> (string \<times> string) option \<Rightarrow> PageArgs \<Rightarrow>
    (Scope list \<times> 64 word \<times> nat) resource_proc" where
  "RS_ListScopes ilike order app resourceID options pageArgs = bindp (getp (\<lambda>db.
     applyListScopesOptions ilike app options db (filter (\<lambda>s. sc_ResourceID s = resourceID) (app_scopes app db))))
     (\<lambda>rows. RS_page pageArgs (sort_key (\<lambda>s. order (sc_Scope s)) rows) (length rows))"

definition RS_GetResourceScope :: "string \<Rightarrow> string \<Rightarrow> string \<Rightarrow> Scope resource_proc" where
  "RS_GetResourceScope app resourceID scope = bindp (getp (\<lambda>db. filter (scope_row app resourceID scope) (t_Scopes db))) (first_or ErrScopeNotFound)"

text \<open>A Go map by the name of the scope: the last of a name wins.\<close>

definition by_name :: "Scope list \<Rightarrow> string \<Rightarrow> Scope option" where
  "by_name scopes = map_of (rev (map (\<lambda>s. (sc_Scope s, s)) scopes))"

definition RS_GetScopesByResourceIDAndScopes :: "string \<Rightarrow> string \<Rightarrow> string list \<Rightarrow> (string \<Rightarrow> Scope option) resource_proc" where
  "RS_GetScopesByResourceIDAndScopes app resourceID scopes = getp (\<lambda>db.
     by_name (filter (\<lambda>s. sc_ResourceID s = resourceID \<and> sc_Scope s \<in> set scopes) (app_scopes app db)))"

text \<open>\<^verbatim>\<open>ON CONFLICT DO NOTHING\<close> skips a row that is there already, from before or from this very statement.\<close>

definition insert_new :: "'a \<Rightarrow> 'a list \<Rightarrow> 'a list" where
  "insert_new x rows = (if x \<in> set rows then rows else rows @ [x])"

definition RS_AddScopesToClientID :: "string \<Rightarrow> string \<Rightarrow> string list \<Rightarrow> string \<Rightarrow> unit resource_proc" where
  "RS_AddScopesToClientID app resourceID scopeIDs clientID = (if scopeIDs = [] then ret () else bindp (getp id) (\<lambda>db.
     if resourceID \<notin> rsc_ID ` set (t_Resources db) \<or> \<not> set scopeIDs \<subseteq> sc_ID ` set (t_Scopes db) then failp ResourceSQLError
     else modp (\<lambda>db. db\<lparr>t_ClientScopes := fold (\<lambda>i. insert_new \<lparr>cs_App = app, cs_ClientID = clientID, cs_ResourceID = resourceID, cs_ScopeID = i\<rparr>)
       scopeIDs (t_ClientScopes db)\<rparr>)))"

definition RS_RemoveScopesFromClientID :: "string \<Rightarrow> string list \<Rightarrow> string \<Rightarrow> unit resource_proc" where
  "RS_RemoveScopesFromClientID app scopeIDs clientID = (if scopeIDs = [] then ret () else modp (\<lambda>db. db\<lparr>t_ClientScopes :=
     filter (\<lambda>a. \<not> (cs_App a = app \<and> cs_ClientID a = clientID \<and> cs_ScopeID a \<in> set scopeIDs)) (t_ClientScopes db)\<rparr>))"

definition RS_ListClientScopesByResourceID :: "string \<Rightarrow> string \<Rightarrow> string \<Rightarrow> Scope list resource_proc" where
  "RS_ListClientScopesByResourceID app resourceID clientID = getp (\<lambda>db.
     join_client_scope app clientID db (filter (\<lambda>s. sc_ResourceID s = resourceID) (app_scopes app db)))"

definition RS_DeleteAllClientResourceAssociations :: "string \<Rightarrow> string \<Rightarrow> unit resource_proc" where
  "RS_DeleteAllClientResourceAssociations app resourceID = modp (\<lambda>db. db\<lparr>t_ClientResources :=
     filter (\<lambda>a. \<not> (cr_App a = app \<and> cr_ResourceID a = resourceID)) (t_ClientResources db)\<rparr>)"

definition RS_DeleteAllClientScopeAssociationsByResourceID :: "string \<Rightarrow> string \<Rightarrow> unit resource_proc" where
  "RS_DeleteAllClientScopeAssociationsByResourceID app resourceID = modp (\<lambda>db. db\<lparr>t_ClientScopes :=
     filter (\<lambda>a. \<not> (cs_App a = app \<and> cs_ResourceID a = resourceID)) (t_ClientScopes db)\<rparr>)"

definition RS_DeleteAllResourceScopes :: "string \<Rightarrow> string \<Rightarrow> unit resource_proc" where
  "RS_DeleteAllResourceScopes app resourceID = bindp (getp id) (\<lambda>db. let P = (\<lambda>s. sc_App s = app \<and> sc_ResourceID s = resourceID) in
     if \<exists>s \<in> set (filter P (t_Scopes db)). sc_ID s \<in> cs_ScopeID ` set (t_ClientScopes db) then failp ResourceSQLError
     else modp (\<lambda>db. db\<lparr>t_Scopes := filter (Not \<circ> P) (t_Scopes db)\<rparr>))"

definition RS_DeleteAllClientScopeAssociationsByScopeID :: "string \<Rightarrow> string \<Rightarrow> unit resource_proc" where
  "RS_DeleteAllClientScopeAssociationsByScopeID app scopeID = modp (\<lambda>db. db\<lparr>t_ClientScopes :=
     filter (\<lambda>a. \<not> (cs_App a = app \<and> cs_ScopeID a = scopeID)) (t_ClientScopes db)\<rparr>)"

section \<open>Commands\<close>

text \<open>The clients of the app, the clock, and a fresh uuid, are arguments. A model has all of a row but its app.\<close>

definition Cmd_CreateResource :: "string \<Rightarrow> time \<Rightarrow> string \<Rightarrow> string \<Rightarrow> string option \<Rightarrow> Resource resource_proc" where
  "Cmd_CreateResource app now uuid uri name = (let r = NewResource app now uuid uri name in bindp (RS_CreateResource r) (\<lambda>_. ret r))"

definition Cmd_UpdateResource :: "string \<Rightarrow> time \<Rightarrow> string \<Rightarrow> string option \<Rightarrow> Resource resource_proc" where
  "Cmd_UpdateResource app now uri newName = bindp (RS_UpdateResource app now uri newName) (\<lambda>_. RS_GetResourceByURI app uri)"

definition Cmd_DeleteResourceByURI :: "string \<Rightarrow> string \<Rightarrow> unit resource_proc" where
  "Cmd_DeleteResourceByURI app uri = bindp (RS_GetResourceByURI app uri) (\<lambda>resource.
     bindp (RS_DeleteAllClientResourceAssociations app (rsc_ID resource)) (\<lambda>_.
     bindp (RS_DeleteAllClientScopeAssociationsByResourceID app (rsc_ID resource)) (\<lambda>_.
     bindp (RS_DeleteAllResourceScopes app (rsc_ID resource)) (\<lambda>_.
     RS_DeleteResource app (rsc_ID resource)))))"

text \<open>\<^verbatim>\<open>OAuthConfig.GetClient\<close> and the error when there is none.\<close>

definition need_client :: "OAuthClientConfig list \<Rightarrow> string \<Rightarrow> unit resource_proc" where
  "need_client clients clientID = (case GetClient clients clientID of None \<Rightarrow> failp ErrResourceClientNotFound | Some _ \<Rightarrow> ret ())"

definition Cmd_AddResourceToClientID :: "OAuthClientConfig list \<Rightarrow> string \<Rightarrow> string \<Rightarrow> string \<Rightarrow> unit resource_proc" where
  "Cmd_AddResourceToClientID clients app resourceURI clientID = bindp (need_client clients clientID) (\<lambda>_.
     bindp (RS_GetResourceByURI app resourceURI) (\<lambda>resource. RS_AddResourceToClientID app (rsc_ID resource) clientID))"

definition Cmd_RemoveResourceFromClientID :: "OAuthClientConfig list \<Rightarrow> string \<Rightarrow> string \<Rightarrow> string \<Rightarrow> unit resource_proc" where
  "Cmd_RemoveResourceFromClientID clients app resourceURI clientID = bindp (need_client clients clientID) (\<lambda>_.
     bindp (RS_GetResourceByURI app resourceURI) (\<lambda>resource. RS_RemoveResourceFromClientID app (rsc_ID resource) clientID))"

definition Cmd_CreateScope :: "string \<Rightarrow> time \<Rightarrow> string \<Rightarrow> string \<Rightarrow> string \<Rightarrow> string option \<Rightarrow> Scope resource_proc" where
  "Cmd_CreateScope app now uuid resourceURI scope desc = bindp (RS_GetResourceByURI app resourceURI) (\<lambda>resource.
     let s = NewScope_row app now uuid resource scope desc in bindp (RS_CreateScope s) (\<lambda>_. ret s))"

definition Cmd_UpdateScope :: "string \<Rightarrow> time \<Rightarrow> string \<Rightarrow> string \<Rightarrow> string option \<Rightarrow> Scope resource_proc" where
  "Cmd_UpdateScope app now resourceURI scope newDesc = bindp (RS_GetResourceByURI app resourceURI) (\<lambda>resource.
     bindp (RS_UpdateScope app now resourceURI scope newDesc) (\<lambda>_. RS_GetResourceScope app (rsc_ID resource) scope))"

definition Cmd_DeleteScope :: "string \<Rightarrow> string \<Rightarrow> string \<Rightarrow> unit resource_proc" where
  "Cmd_DeleteScope app resourceURI scope = bindp (RS_GetResourceByURI app resourceURI) (\<lambda>resource.
     bindp (RS_GetResourceScope app (rsc_ID resource) scope) (\<lambda>s.
     bindp (RS_DeleteAllClientScopeAssociationsByScopeID app (sc_ID s)) (\<lambda>_.
     RS_DeleteScope app resourceURI scope)))"

definition checkResourceAssociatedToClient :: "string \<Rightarrow> string \<Rightarrow> string \<Rightarrow> unit resource_proc" where
  "checkResourceAssociatedToClient app resourceID clientID = bindp (RS_GetClientResource app clientID resourceID) (\<lambda>_. ret ())"

text \<open>The ids of some scopes, each of which has to exist.\<close>

fun scope_ids :: "(string \<Rightarrow> Scope option) \<Rightarrow> string list \<Rightarrow> string list resource_proc" where
  "scope_ids scopeMap [] = ret []"
| "scope_ids scopeMap (s # ss) = (case scopeMap s of None \<Rightarrow> failp ErrScopeNotFound
     | Some sc \<Rightarrow> bindp (scope_ids scopeMap ss) (\<lambda>ids. ret (sc_ID sc # ids)))"

text \<open>The common start of the commands on the scopes of a client.\<close>

definition client_resource_of :: "OAuthClientConfig list \<Rightarrow> string \<Rightarrow> string \<Rightarrow> string \<Rightarrow> Resource resource_proc" where
  "client_resource_of clients app resourceURI clientID = bindp (need_client clients clientID) (\<lambda>_.
     bindp (RS_GetResourceByURI app resourceURI) (\<lambda>resource.
     bindp (checkResourceAssociatedToClient app (rsc_ID resource) clientID) (\<lambda>_. ret resource)))"

definition Cmd_AddScopesToClientID :: "OAuthClientConfig list \<Rightarrow> string \<Rightarrow> string \<Rightarrow> string \<Rightarrow> string list \<Rightarrow> Scope list resource_proc" where
  "Cmd_AddScopesToClientID clients app resourceURI clientID scopes = bindp (client_resource_of clients app resourceURI clientID) (\<lambda>resource.
     bindp (RS_GetScopesByResourceIDAndScopes app (rsc_ID resource) scopes) (\<lambda>scopeMap.
     bindp (scope_ids scopeMap scopes) (\<lambda>scopeIDs.
     bindp (RS_AddScopesToClientID app (rsc_ID resource) scopeIDs clientID) (\<lambda>_.
     RS_ListClientScopesByResourceID app (rsc_ID resource) clientID))))"

definition Cmd_RemoveScopesFromClientID :: "OAuthClientConfig list \<Rightarrow> string \<Rightarrow> string \<Rightarrow> string \<Rightarrow> string list \<Rightarrow> Scope list resource_proc" where
  "Cmd_RemoveScopesFromClientID clients app resourceURI clientID scopes = bindp (client_resource_of clients app resourceURI clientID) (\<lambda>resource.
     bindp (RS_GetScopesByResourceIDAndScopes app (rsc_ID resource) scopes) (\<lambda>scopeMap.
     bindp (scope_ids scopeMap scopes) (\<lambda>scopeIDs.
     bindp (RS_RemoveScopesFromClientID app scopeIDs clientID) (\<lambda>_.
     RS_ListClientScopesByResourceID app (rsc_ID resource) clientID))))"

text \<open>The keys of \<open>currentSet\<close> in the order the rows came: the order of the map does not matter, the ids go into one statement.\<close>

definition scopes_to_remove :: "Scope list \<Rightarrow> string list \<Rightarrow> string list" where
  "scopes_to_remove currentScopes scopes = concat (map (\<lambda>name. map sc_ID (opt_list (by_name currentScopes name)))
     (filter (\<lambda>name. name \<notin> set scopes) (remdups (map sc_Scope currentScopes))))"

definition Cmd_ReplaceScopesOfClientID :: "OAuthClientConfig list \<Rightarrow> string \<Rightarrow> string \<Rightarrow> string \<Rightarrow> string list \<Rightarrow> Scope list resource_proc" where
  "Cmd_ReplaceScopesOfClientID clients app resourceURI clientID scopes = bindp (client_resource_of clients app resourceURI clientID) (\<lambda>resource.
     bindp (RS_ListClientScopesByResourceID app (rsc_ID resource) clientID) (\<lambda>currentScopes.
     bindp (RS_GetScopesByResourceIDAndScopes app (rsc_ID resource) scopes) (\<lambda>desiredScopeMap.
     bindp (scope_ids desiredScopeMap (filter (\<lambda>s. by_name currentScopes s = None) scopes)) (\<lambda>toAddIDs.
     bindp (if toAddIDs \<noteq> [] then RS_AddScopesToClientID app (rsc_ID resource) toAddIDs clientID else ret ()) (\<lambda>_.
     let toRemoveIDs = scopes_to_remove currentScopes scopes in
     bindp (if toRemoveIDs \<noteq> [] then RS_RemoveScopesFromClientID app toRemoveIDs clientID else ret ()) (\<lambda>_.
     RS_ListClientScopesByResourceID app (rsc_ID resource) clientID))))))"

section \<open>Queries and the service of the token endpoint\<close>

definition Qry_GetScope :: "string \<Rightarrow> string \<Rightarrow> string \<Rightarrow> Scope resource_proc" where
  "Qry_GetScope app resourceURI scope = bindp (RS_GetResourceByURI app resourceURI) (\<lambda>resource. RS_GetResourceScope app (rsc_ID resource) scope)"

definition GetClientResourceByURI :: "string \<Rightarrow> string \<Rightarrow> string \<Rightarrow> Resource resource_proc" where
  "GetClientResourceByURI app clientID uri = bindp (RS_GetResourceByURI app uri) (\<lambda>resource.
     bindp (RS_GetClientResource app clientID (rsc_ID resource)) (\<lambda>_. ret resource))"

definition GetClientResourceScopes :: "string \<Rightarrow> string \<Rightarrow> string \<Rightarrow> Scope list resource_proc" where
  "GetClientResourceScopes app clientID resourceID = RS_ListClientScopesByResourceID app resourceID clientID"

section \<open>What holds of the tables\<close>

text \<open>The unique indices, and every reference stays within its app; a client's scope is a scope of the resource it names.\<close>

definition rs_ok :: "resource_db \<Rightarrow> bool" where
  "rs_ok db \<longleftrightarrow> distinct (map rsc_ID (t_Resources db)) \<and> distinct (map (\<lambda>r. (rsc_App r, rsc_URI r)) (t_Resources db)) \<and>
     distinct (map sc_ID (t_Scopes db)) \<and> distinct (map (\<lambda>s. (sc_App s, sc_ResourceID s, sc_Scope s)) (t_Scopes db)) \<and>
     distinct (t_ClientResources db) \<and> distinct (t_ClientScopes db) \<and>
     (\<forall>s \<in> set (t_Scopes db). \<exists>r \<in> set (t_Resources db). rsc_ID r = sc_ResourceID s \<and> rsc_App r = sc_App s) \<and>
     (\<forall>a \<in> set (t_ClientResources db). \<exists>r \<in> set (t_Resources db). rsc_ID r = cr_ResourceID a \<and> rsc_App r = cr_App a) \<and>
     (\<forall>a \<in> set (t_ClientScopes db). \<exists>s \<in> set (t_Scopes db). sc_ID s = cs_ScopeID a \<and> sc_App s = cs_App a \<and> sc_ResourceID s = cs_ResourceID a)"

text \<open>Statements about a procedure: from \<open>P\<close>, what holds when it succeeds, and \<open>rs_ok\<close> when it does not.\<close>

definition safe :: "(resource_db \<Rightarrow> bool) \<Rightarrow> 'a resource_proc \<Rightarrow> ('a \<Rightarrow> resource_db \<Rightarrow> bool) \<Rightarrow> bool" where
  "safe P m Q \<longleftrightarrow> (\<forall>db r db'. P db \<longrightarrow> m db = (r, db') \<longrightarrow> (\<forall>x. r = Ok x \<longrightarrow> Q x db') \<and> ((\<forall>x. r \<noteq> Ok x) \<longrightarrow> rs_ok db'))"

lemma safe_bindp:
  assumes "safe P m Q" "\<And>x. safe (Q x) (f x) R"
  shows "safe P (bindp m f) R"
  unfolding safe_def
proof (intro allI impI)
  fix db r db' assume "P db" and b: "bindp m f db = (r, db')"
  obtain r1 db1 where m: "m db = (r1, db1)" by force
  with assms(1) \<open>P db\<close> have q: "\<And>x. r1 = Ok x \<Longrightarrow> Q x db1" and e: "(\<forall>x. r1 \<noteq> Ok x) \<Longrightarrow> rs_ok db1"
    unfolding safe_def by blast+
  show "(\<forall>x. r = Ok x \<longrightarrow> R x db') \<and> ((\<forall>x. r \<noteq> Ok x) \<longrightarrow> rs_ok db')"
  proof (cases r1)
    case (Ok x)
    with b m have "f x db1 = (r, db')" by (simp add: bindp_def)
    with assms(2) [of x] q [OF Ok] show ?thesis unfolding safe_def by blast
  qed (use b m e in \<open>auto simp: bindp_def\<close>)
qed

lemma safe_pre: "safe P m Q \<Longrightarrow> (\<And>db. P' db \<Longrightarrow> P db) \<Longrightarrow> safe P' m Q"
  unfolding safe_def by blast

lemma safe_ret: "(\<And>db. P db \<Longrightarrow> Q x db) \<Longrightarrow> safe P (ret x) Q"
  by (simp add: safe_def run_simps)

lemma safe_modp: "(\<And>db. P db \<Longrightarrow> Q () (h db)) \<Longrightarrow> safe P (modp h) Q"
  by (simp add: safe_def run_simps)

lemma safe_if: "(b \<Longrightarrow> safe P m Q) \<Longrightarrow> (\<not> b \<Longrightarrow> safe P m' Q) \<Longrightarrow> safe P (if b then m else m') Q"
  by simp

lemma safeD: "safe rs_ok m (\<lambda>_. rs_ok) \<Longrightarrow> rs_ok db \<Longrightarrow> rs_ok (snd (m db))"
  unfolding safe_def by (metis prod.collapse)

text \<open>Each kind of change of a table.\<close>

lemma rs_ok_add_resource:
  assumes "rs_ok db" "\<not> (\<exists>r' \<in> set (t_Resources db). rsc_ID r' = rsc_ID r \<or> rsc_App r' = rsc_App r \<and> rsc_URI r' = rsc_URI r)"
  shows "rs_ok (db\<lparr>t_Resources := t_Resources db @ [r]\<rparr>)"
  using assms by (auto simp: rs_ok_def)

lemma rs_ok_change_resources:
  assumes "rs_ok db" "\<And>r. rsc_ID (f r) = rsc_ID r" "\<And>r. rsc_App (f r) = rsc_App r" "\<And>r. rsc_URI (f r) = rsc_URI r"
  shows "rs_ok (db\<lparr>t_Resources := map f (t_Resources db)\<rparr>)"
  using assms by (simp add: rs_ok_def comp_def)

lemma rs_ok_delete_resources:
  assumes "rs_ok db" "\<forall>r \<in> set (t_Resources db). P r \<longrightarrow>
    rsc_ID r \<notin> sc_ResourceID ` set (t_Scopes db) \<union> cr_ResourceID ` set (t_ClientResources db) \<union> cs_ResourceID ` set (t_ClientScopes db)"
  shows "rs_ok (db\<lparr>t_Resources := filter (Not \<circ> P) (t_Resources db)\<rparr>)"
proof -
  from assms(1) have "\<forall>s \<in> set (t_Scopes db). \<exists>r \<in> set (t_Resources db). rsc_ID r = sc_ResourceID s \<and> rsc_App r = sc_App s"
    and "\<forall>a \<in> set (t_ClientResources db). \<exists>r \<in> set (t_Resources db). rsc_ID r = cr_ResourceID a \<and> rsc_App r = cr_App a"
    by (simp_all add: rs_ok_def)
  with assms(2) have "\<forall>s \<in> set (t_Scopes db). \<exists>r \<in> set (filter (Not \<circ> P) (t_Resources db)). rsc_ID r = sc_ResourceID s \<and> rsc_App r = sc_App s"
    and "\<forall>a \<in> set (t_ClientResources db). \<exists>r \<in> set (filter (Not \<circ> P) (t_Resources db)). rsc_ID r = cr_ResourceID a \<and> rsc_App r = cr_App a"
    by simp_all (metis UnCI image_eqI)+
  with assms(1) show ?thesis by (simp add: rs_ok_def distinct_map_filter)
qed

lemma rs_ok_add_client_resource:
  assumes "rs_ok db" "a \<notin> set (t_ClientResources db)" "r \<in> set (t_Resources db)" "rsc_ID r = cr_ResourceID a" "rsc_App r = cr_App a"
  shows "rs_ok (db\<lparr>t_ClientResources := t_ClientResources db @ [a]\<rparr>)"
  using assms by (auto simp: rs_ok_def)

lemma rs_ok_filter_client_resources: "rs_ok db \<Longrightarrow> rs_ok (db\<lparr>t_ClientResources := filter P (t_ClientResources db)\<rparr>)"
  by (auto simp: rs_ok_def)

lemma rs_ok_add_scope:
  assumes "rs_ok db" "\<not> (\<exists>s' \<in> set (t_Scopes db). sc_ID s' = sc_ID s \<or> sc_App s' = sc_App s \<and> sc_ResourceID s' = sc_ResourceID s \<and> sc_Scope s' = sc_Scope s)"
    and "r \<in> set (t_Resources db)" "rsc_ID r = sc_ResourceID s" "rsc_App r = sc_App s"
  shows "rs_ok (db\<lparr>t_Scopes := t_Scopes db @ [s]\<rparr>)"
  using assms by (auto simp: rs_ok_def)

lemma rs_ok_change_scopes:
  assumes "rs_ok db" "\<And>s. sc_ID (f s) = sc_ID s" "\<And>s. sc_App (f s) = sc_App s" "\<And>s. sc_ResourceID (f s) = sc_ResourceID s" "\<And>s. sc_Scope (f s) = sc_Scope s"
  shows "rs_ok (db\<lparr>t_Scopes := map f (t_Scopes db)\<rparr>)"
  using assms by (simp add: rs_ok_def comp_def)

lemma rs_ok_delete_scopes:
  assumes "rs_ok db" "\<forall>s \<in> set (t_Scopes db). P s \<longrightarrow> sc_ID s \<notin> cs_ScopeID ` set (t_ClientScopes db)"
  shows "rs_ok (db\<lparr>t_Scopes := filter (Not \<circ> P) (t_Scopes db)\<rparr>)"
proof -
  from assms(1) have "\<forall>a \<in> set (t_ClientScopes db). \<exists>s \<in> set (t_Scopes db). sc_ID s = cs_ScopeID a \<and> sc_App s = cs_App a \<and> sc_ResourceID s = cs_ResourceID a"
    by (simp add: rs_ok_def)
  with assms(2) have "\<forall>a \<in> set (t_ClientScopes db). \<exists>s \<in> set (filter (Not \<circ> P) (t_Scopes db)). sc_ID s = cs_ScopeID a \<and> sc_App s = cs_App a \<and> sc_ResourceID s = cs_ResourceID a"
    by simp (metis image_eqI)
  with assms(1) show ?thesis by (simp add: rs_ok_def distinct_map_filter)
qed

lemma rs_ok_filter_client_scopes: "rs_ok db \<Longrightarrow> rs_ok (db\<lparr>t_ClientScopes := filter P (t_ClientScopes db)\<rparr>)"
  by (auto simp: rs_ok_def)

lemma insert_new_set [simp]: "set (insert_new x xs) = insert x (set xs)"
  by (auto simp: insert_new_def)

lemma distinct_insert_new: "distinct xs \<Longrightarrow> distinct (insert_new x xs)"
  by (simp add: insert_new_def)

lemma set_fold_insert_new: "set (fold (\<lambda>i. insert_new (f i)) is xs) = set xs \<union> f ` set is"
  by (induction "is" arbitrary: xs) auto

lemma distinct_fold_insert_new: "distinct xs \<Longrightarrow> distinct (fold (\<lambda>i. insert_new (f i)) is xs)"
  by (induction "is" arbitrary: xs) (simp_all add: distinct_insert_new)

lemma rs_ok_add_client_scopes:
  assumes "rs_ok db" "\<forall>i \<in> set is. \<exists>s \<in> set (t_Scopes db). sc_ID s = i \<and> sc_App s = app \<and> sc_ResourceID s = resourceID"
  shows "rs_ok (db\<lparr>t_ClientScopes := fold (\<lambda>i. insert_new \<lparr>cs_App = app, cs_ClientID = clientID, cs_ResourceID = resourceID, cs_ScopeID = i\<rparr>)
    is (t_ClientScopes db)\<rparr>)"
  using assms by (auto simp: rs_ok_def set_fold_insert_new distinct_fold_insert_new)

section \<open>Every command keeps it\<close>

named_theorems safe_ops \<open>what the operations of the store keep\<close>

abbreviation resource_in :: "string \<Rightarrow> Resource \<Rightarrow> resource_db \<Rightarrow> bool" where
  "resource_in app r db \<equiv> rs_ok db \<and> r \<in> set (t_Resources db) \<and> rsc_App r = app"

lemma filter_first: "filter P xs = y # ys \<Longrightarrow> y \<in> set xs \<and> P y"
  using filter_is_subset [of P xs] filter_set [of P xs] by (metis (mono_tags, lifting) list.set_intros(1) mem_Collect_eq set_filter)

lemma safe_GetResourceByURI [safe_ops]: "safe rs_ok (RS_GetResourceByURI app uri) (resource_in app)"
  unfolding RS_GetResourceByURI_def
  by (auto simp: safe_def first_or_def run_simps app_resources_def dest!: filter_first split: list.splits)

lemma safe_CreateResource [safe_ops]: "safe rs_ok (RS_CreateResource r) (\<lambda>_. rs_ok)"
  by (auto simp: RS_CreateResource_def safe_def run_simps rs_ok_add_resource split: if_splits)

lemma safe_UpdateResource [safe_ops]: "safe rs_ok (RS_UpdateResource app now uri newName) (\<lambda>_. rs_ok)"
  by (simp add: RS_UpdateResource_def Let_def safe_def run_simps exactly_one_def rs_ok_change_resources)

lemma safe_DeleteResource [safe_ops]: "safe rs_ok (RS_DeleteResource app i) (\<lambda>_. rs_ok)"
  unfolding RS_DeleteResource_def Let_def
  by (auto simp: safe_def run_simps exactly_one_def intro!: rs_ok_delete_resources split: if_splits)

lemma safe_AddResourceToClientID [safe_ops]: "safe (resource_in app r) (RS_AddResourceToClientID app (rsc_ID r) clientID) (\<lambda>_. rs_ok)"
  by (auto simp: RS_AddResourceToClientID_def safe_def run_simps Let_def rs_ok_add_client_resource split: if_splits)

lemma safe_RemoveResourceFromClientID [safe_ops]: "safe rs_ok (RS_RemoveResourceFromClientID app i clientID) (\<lambda>_. rs_ok)"
  unfolding RS_RemoveResourceFromClientID_def by (rule safe_modp) (rule rs_ok_filter_client_resources)

lemma safe_CreateScope [safe_ops]: "safe (resource_in app r) (RS_CreateScope (NewScope_row app now uuid r scope desc)) (\<lambda>_. rs_ok)"
  by (auto simp: RS_CreateScope_def safe_def run_simps NewScope_row_def rs_ok_add_scope split: if_splits)

lemma safe_UpdateScope [safe_ops]: "safe rs_ok (RS_UpdateScope app now uri scope newDesc) (\<lambda>_. rs_ok)"
proof -
  have "safe (resource_in app r) (let P = scope_row app (rsc_ID r) scope in
     bindp (getp (\<lambda>db. length (filter P (t_Scopes db)))) (\<lambda>count.
     bindp (modp (\<lambda>db. db\<lparr>t_Scopes := map (\<lambda>s. if P s then s\<lparr>sc_UpdatedAt := now, sc_Description := set_optional newDesc (sc_Description s)\<rparr> else s)
       (t_Scopes db)\<rparr>)) (\<lambda>_.
     exactly_one ErrScopeNotFound count))) (\<lambda>_. rs_ok)" for r
    by (simp add: Let_def safe_def run_simps exactly_one_def rs_ok_change_scopes)
  with safe_GetResourceByURI show ?thesis unfolding RS_UpdateScope_def by (rule safe_bindp)
qed

lemma safe_DeleteScope [safe_ops]: "safe rs_ok (RS_DeleteScope app uri scope) (\<lambda>_. rs_ok)"
proof -
  have "safe (resource_in app r) (let P = scope_row app (rsc_ID r) scope in
     bindp (getp id) (\<lambda>db.
     if \<exists>s \<in> set (filter P (t_Scopes db)). sc_ID s \<in> cs_ScopeID ` set (t_ClientScopes db) then failp ResourceSQLError
     else bindp (modp (\<lambda>db. db\<lparr>t_Scopes := filter (Not \<circ> P) (t_Scopes db)\<rparr>)) (\<lambda>_.
       exactly_one ErrScopeNotFound (length (filter P (t_Scopes db)))))) (\<lambda>_. rs_ok)" for r
    unfolding Let_def
    by (auto simp: safe_def run_simps exactly_one_def intro!: rs_ok_delete_scopes split: if_splits)
  with safe_GetResourceByURI show ?thesis unfolding RS_DeleteScope_def by (rule safe_bindp)
qed

lemma safe_filters [safe_ops]:
  "safe rs_ok (RS_DeleteAllClientResourceAssociations app i) (\<lambda>_. rs_ok)"
  "safe rs_ok (RS_DeleteAllClientScopeAssociationsByResourceID app i) (\<lambda>_. rs_ok)"
  "safe rs_ok (RS_DeleteAllClientScopeAssociationsByScopeID app i) (\<lambda>_. rs_ok)"
  "safe rs_ok (RS_RemoveScopesFromClientID app ids clientID) (\<lambda>_. rs_ok)"
  by (auto simp: RS_DeleteAllClientResourceAssociations_def RS_DeleteAllClientScopeAssociationsByResourceID_def
      RS_DeleteAllClientScopeAssociationsByScopeID_def RS_RemoveScopesFromClientID_def safe_def run_simps
      intro: rs_ok_filter_client_resources rs_ok_filter_client_scopes)

lemma safe_DeleteAllResourceScopes [safe_ops]: "safe rs_ok (RS_DeleteAllResourceScopes app i) (\<lambda>_. rs_ok)"
  by (auto simp: RS_DeleteAllResourceScopes_def Let_def safe_def run_simps intro!: rs_ok_delete_scopes split: if_splits)

text \<open>Scopes looked up by their names are the resource's own.\<close>

definition own_ids :: "string \<Rightarrow> string \<Rightarrow> string list \<Rightarrow> resource_db \<Rightarrow> bool" where
  "own_ids app resourceID is db \<longleftrightarrow> (\<forall>i \<in> set is. \<exists>s \<in> set (t_Scopes db). sc_ID s = i \<and> sc_App s = app \<and> sc_ResourceID s = resourceID)"

lemma by_name_in: "by_name scopes n = Some s \<Longrightarrow> s \<in> set scopes \<and> sc_Scope s = n"
  by (auto simp: by_name_def dest: map_of_SomeD)

lemma scope_ids_run:
  "scope_ids m names db = (r, db') \<Longrightarrow> db' = db \<and> (\<forall>ids. r = Ok ids \<longrightarrow> ids = map (sc_ID \<circ> the \<circ> m) names \<and> (\<forall>n \<in> set names. m n \<noteq> None))"
proof (induction names arbitrary: r)
  case (Cons n names)
  show ?case
  proof (cases "m n")
    case (Some s)
    obtain r1 d1 where t: "scope_ids m names db = (r1, d1)" by force
    with Cons.IH Cons.prems Some show ?thesis by (cases r1) (auto simp: bindp_def run_simps)
  qed (use Cons.prems in \<open>auto simp: run_simps\<close>)
qed (auto simp: run_simps)

lemma scope_ids_own:
  assumes "scope_ids (by_name (filter (\<lambda>s. sc_ResourceID s = i \<and> Q s) (app_scopes app db))) names db = (Ok ids, db')"
  shows "own_ids app i ids db"
proof -
  let ?m = "by_name (filter (\<lambda>s. sc_ResourceID s = i \<and> Q s) (app_scopes app db))"
  from scope_ids_run [OF assms] have ids: "ids = map (sc_ID \<circ> the \<circ> ?m) names" and found: "\<forall>n \<in> set names. ?m n \<noteq> None" by auto
  have "the (?m n) \<in> set (filter (\<lambda>s. sc_ResourceID s = i \<and> Q s) (app_scopes app db))" if "n \<in> set names" for n
    using found that by_name_in by fastforce
  then show ?thesis unfolding own_ids_def ids app_scopes_def by fastforce
qed

lemma safe_AddScopesToClientID [safe_ops]:
  "safe (\<lambda>db. rs_ok db \<and> own_ids app i ids db) (RS_AddScopesToClientID app i ids clientID) (\<lambda>_. rs_ok)"
  by (auto simp: RS_AddScopesToClientID_def safe_def run_simps own_ids_def rs_ok_add_client_scopes split: if_splits)


lemma safe_need_client [safe_ops]: "safe rs_ok (need_client clients clientID) (\<lambda>_. rs_ok)"
  by (simp add: need_client_def safe_def run_simps split: option.split)

lemma safe_client_resource_of [safe_ops]: "safe rs_ok (client_resource_of clients app uri clientID) (resource_in app)"
proof -
  have "safe (resource_in app r) (bindp (checkResourceAssociatedToClient app (rsc_ID r) clientID) (\<lambda>_. ret r)) (resource_in app)" for r
    by (auto simp: checkResourceAssociatedToClient_def RS_GetClientResource_def first_or_def safe_def bindp_def run_simps split: list.splits)
  then show ?thesis unfolding client_resource_of_def by (intro safe_bindp [OF safe_need_client] safe_bindp [OF safe_GetResourceByURI])
qed

lemma safe_reader: "(\<And>db. snd (m db) = db) \<Longrightarrow> safe rs_ok m (\<lambda>_. rs_ok)"
  unfolding safe_def by (metis snd_conv)

lemma safe_list [safe_ops]: "safe rs_ok (RS_ListClientScopesByResourceID app i clientID) (\<lambda>_. rs_ok)"
  by (rule safe_reader) (simp add: RS_ListClientScopesByResourceID_def run_simps)

text \<open>Looking scopes up by their names, and going on with their ids.\<close>

lemma safe_ids:
  assumes "\<And>ids. safe (\<lambda>db. rs_ok db \<and> own_ids app i ids db) (f ids) (\<lambda>_. rs_ok)"
  shows "safe rs_ok (bindp (RS_GetScopesByResourceIDAndScopes app i wanted) (\<lambda>m. bindp (scope_ids m names) f)) (\<lambda>_. rs_ok)"
  unfolding safe_def
proof (intro allI impI)
  fix db r db' assume ok: "rs_ok db" and b: "bindp (RS_GetScopesByResourceIDAndScopes app i wanted) (\<lambda>m. bindp (scope_ids m names) f) db = (r, db')"
  let ?m = "by_name (filter (\<lambda>s. sc_ResourceID s = i \<and> sc_Scope s \<in> set wanted) (app_scopes app db))"
  obtain r1 d1 where t: "scope_ids ?m names db = (r1, d1)" by force
  from scope_ids_run [OF t] have d1: "d1 = db" by simp
  show "(\<forall>x. r = Ok x \<longrightarrow> rs_ok db') \<and> ((\<forall>x. r \<noteq> Ok x) \<longrightarrow> rs_ok db')"
  proof (cases r1)
    case (Ok ids)
    have "own_ids app i ids db" using t unfolding Ok by (rule scope_ids_own)
    moreover have "f ids db = (r, db')"
      using b t Ok d1 by (simp add: RS_GetScopesByResourceIDAndScopes_def bindp_run)
    ultimately show ?thesis using assms [of ids] ok unfolding safe_def by blast
  qed (use b t ok d1 in \<open>simp_all add: RS_GetScopesByResourceIDAndScopes_def bindp_run\<close>)
qed

datatype resource_command =
    DoCreateResource time string string "string option"
  | DoUpdateResource time string "string option"
  | DoDeleteResource string
  | DoAddResource string string
  | DoRemoveResource string string
  | DoCreateScope time string string string "string option"
  | DoUpdateScope time string string "string option"
  | DoDeleteScope string string
  | DoAddScopes string string "string list"
  | DoRemoveScopes string string "string list"
  | DoReplaceScopes string string "string list"

fun run_command :: "OAuthClientConfig list \<Rightarrow> string \<Rightarrow> resource_command \<Rightarrow> unit resource_proc" where
  "run_command cl app (DoCreateResource now uuid uri name) = bindp (Cmd_CreateResource app now uuid uri name) (\<lambda>_. ret ())"
| "run_command cl app (DoUpdateResource now uri name) = bindp (Cmd_UpdateResource app now uri name) (\<lambda>_. ret ())"
| "run_command cl app (DoDeleteResource uri) = Cmd_DeleteResourceByURI app uri"
| "run_command cl app (DoAddResource uri c) = Cmd_AddResourceToClientID cl app uri c"
| "run_command cl app (DoRemoveResource uri c) = Cmd_RemoveResourceFromClientID cl app uri c"
| "run_command cl app (DoCreateScope now uuid uri scope desc) = bindp (Cmd_CreateScope app now uuid uri scope desc) (\<lambda>_. ret ())"
| "run_command cl app (DoUpdateScope now uri scope desc) = bindp (Cmd_UpdateScope app now uri scope desc) (\<lambda>_. ret ())"
| "run_command cl app (DoDeleteScope uri scope) = Cmd_DeleteScope app uri scope"
| "run_command cl app (DoAddScopes uri c scopes) = bindp (Cmd_AddScopesToClientID cl app uri c scopes) (\<lambda>_. ret ())"
| "run_command cl app (DoRemoveScopes uri c scopes) = bindp (Cmd_RemoveScopesFromClientID cl app uri c scopes) (\<lambda>_. ret ())"
| "run_command cl app (DoReplaceScopes uri c scopes) = bindp (Cmd_ReplaceScopesOfClientID cl app uri c scopes) (\<lambda>_. ret ())"

lemma safe_in: "safe rs_ok m Q \<Longrightarrow> safe (resource_in app r) m Q"
  unfolding safe_def by blast

lemma safe_unit: "safe rs_ok (ret x) (\<lambda>_. rs_ok)"
  by (rule safe_ret)

lemma safe_then: "safe rs_ok m (\<lambda>_. rs_ok) \<Longrightarrow> safe rs_ok (bindp m (\<lambda>_. ret ())) (\<lambda>_. rs_ok)"
  by (rule safe_bindp) (auto intro: safe_unit)

lemma safe_Replace: "safe rs_ok (Cmd_ReplaceScopesOfClientID cl app uri c scopes) (\<lambda>_. rs_ok)"
  unfolding Cmd_ReplaceScopesOfClientID_def
proof (rule safe_bindp [OF safe_client_resource_of], rule safe_in, rule safe_bindp [OF safe_list], rule safe_ids)
  fix r current ids
  show "safe (\<lambda>db. rs_ok db \<and> own_ids app (rsc_ID r) ids db)
    (bindp (if ids \<noteq> [] then RS_AddScopesToClientID app (rsc_ID r) ids c else ret ()) (\<lambda>_.
     let toRemoveIDs = scopes_to_remove current scopes in
     bindp (if toRemoveIDs \<noteq> [] then RS_RemoveScopesFromClientID app toRemoveIDs c else ret ()) (\<lambda>_.
     RS_ListClientScopesByResourceID app (rsc_ID r) c))) (\<lambda>_. rs_ok)"
    unfolding Let_def
    by (rule safe_bindp [where Q = "\<lambda>_. rs_ok"], rule safe_if, rule safe_ops, rule safe_ret, simp)
       (intro safe_bindp [where Q = "\<lambda>_. rs_ok"] safe_if safe_ops safe_unit)
qed

lemma safe_command: "safe rs_ok (run_command cl app k) (\<lambda>_. rs_ok)"
proof (cases k)
  case (DoAddScopes uri c scopes)
  have "safe rs_ok (Cmd_AddScopesToClientID cl app uri c scopes) (\<lambda>_. rs_ok)"
    unfolding Cmd_AddScopesToClientID_def
    by (rule safe_bindp [OF safe_client_resource_of], rule safe_in, rule safe_ids, rule safe_bindp, rule safe_AddScopesToClientID, rule safe_list)
  with DoAddScopes show ?thesis by (simp add: safe_then)
next
  case (DoRemoveScopes uri c scopes)
  have "safe rs_ok (Cmd_RemoveScopesFromClientID cl app uri c scopes) (\<lambda>_. rs_ok)"
    unfolding Cmd_RemoveScopesFromClientID_def
    by (rule safe_bindp [OF safe_client_resource_of], rule safe_in, rule safe_ids, rule safe_bindp, rule safe_pre [OF safe_filters(4)], simp, rule safe_list)
  with DoRemoveScopes show ?thesis by (simp add: safe_then)
next
  case (DoReplaceScopes uri c scopes)
  then show ?thesis by (simp add: safe_then safe_Replace)
next
  case (DoDeleteScope uri scope)
  have "safe rs_ok (RS_GetResourceScope app i scope) (\<lambda>_. rs_ok)" for i
    by (rule safe_reader) (simp add: RS_GetResourceScope_def first_or_def bindp_def run_simps split: list.split)
  with DoDeleteScope show ?thesis
    by (auto simp: Cmd_DeleteScope_def intro!: safe_bindp [OF safe_GetResourceByURI] safe_in intro: safe_bindp safe_ops)
next
  case (DoUpdateScope now uri scope desc)
  have "safe rs_ok (RS_GetResourceScope app i scope) (\<lambda>_. rs_ok)" for i
    by (rule safe_reader) (simp add: RS_GetResourceScope_def first_or_def bindp_def run_simps split: list.split)
  then have "safe rs_ok (Cmd_UpdateScope app now uri scope desc) (\<lambda>_. rs_ok)"
    by (auto simp: Cmd_UpdateScope_def intro!: safe_bindp [OF safe_GetResourceByURI] safe_in intro: safe_bindp safe_ops)
  with DoUpdateScope show ?thesis by (simp add: safe_then)
next
  case (DoUpdateResource now uri name)
  have "safe rs_ok (RS_GetResourceByURI app uri) (\<lambda>_. rs_ok)"
    using safe_GetResourceByURI unfolding safe_def by blast
  then have "safe rs_ok (Cmd_UpdateResource app now uri name) (\<lambda>_. rs_ok)"
    by (auto simp: Cmd_UpdateResource_def intro: safe_bindp safe_ops)
  with DoUpdateResource show ?thesis by (simp add: safe_then)
qed (auto simp: Cmd_CreateResource_def Cmd_DeleteResourceByURI_def Cmd_AddResourceToClientID_def Cmd_RemoveResourceFromClientID_def
  Cmd_CreateScope_def Let_def intro!: safe_bindp [OF safe_GetResourceByURI] safe_bindp [OF safe_need_client] safe_ops
  intro: safe_bindp safe_unit safe_in safe_ops safe_bindp [OF safe_CreateScope])

definition no_resources :: resource_db where
  "no_resources = \<lparr>t_Resources = [], t_Scopes = [], t_ClientResources = [], t_ClientScopes = []\<rparr>"

text \<open>The rows of one app.\<close>

definition rows_of :: "string \<Rightarrow> resource_db \<Rightarrow> resource_db" where
  "rows_of app db = \<lparr>t_Resources = app_resources app db, t_Scopes = app_scopes app db,
     t_ClientResources = filter (\<lambda>a. cr_App a = app) (t_ClientResources db), t_ClientScopes = filter (\<lambda>a. cs_App a = app) (t_ClientScopes db)\<rparr>"

definition spares :: "string \<Rightarrow> resource_db \<Rightarrow> resource_db \<Rightarrow> bool" where
  "spares app db db' \<longleftrightarrow> rows_of app db' = rows_of app db"

lemma spares_refl: "reflp (spares app)" and spares_trans: "transp (spares app)"
  by (auto simp: spares_def intro: reflpI transpI)

lemmas spares_rules = keeps_bindp [OF spares_trans] keeps_ret [OF spares_refl] keeps_failp [OF spares_refl] keeps_getp [OF spares_refl]

lemma filter_map_other: "(\<And>x. P x \<Longrightarrow> \<not> Q x) \<Longrightarrow> (\<And>x. P (f x) = P x) \<Longrightarrow> filter P (map (\<lambda>x. if Q x then f x else x) xs) = filter P xs"
  by (induction xs) auto

lemma filter_fold_insert_new: "(\<And>i. \<not> P (f i)) \<Longrightarrow> filter P (fold (\<lambda>i. insert_new (f i)) is xs) = filter P xs"
  by (induction "is" arbitrary: xs) (simp_all add: insert_new_def)

lemma keeps_first_or: "keeps (spares app') (first_or e rows)"
  by (auto simp: first_or_def intro: spares_rules split: list.split)

lemma keeps_one: "keeps (spares app') (exactly_one e n)"
  by (simp add: exactly_one_def spares_rules)

lemma keeps_scope_ids: "keeps (spares app') (scope_ids m names)"
  by (induction names) (auto intro!: spares_rules split: option.split)

lemma spares_store:
  assumes "app \<noteq> app'"
  shows "keeps (spares app') (RS_CreateResource (NewResource app now uuid uri name))"
  "keeps (spares app') (RS_UpdateResource app now uri name)"
  "keeps (spares app') (RS_DeleteResource app i)"
  "keeps (spares app') (RS_GetResourceByURI app uri)"
  "keeps (spares app') (RS_GetClientResource app c i)"
  "keeps (spares app') (RS_AddResourceToClientID app i c)"
  "keeps (spares app') (RS_RemoveResourceFromClientID app i c)"
  "keeps (spares app') (RS_CreateScope (NewScope_row app now uuid r scope desc))"
  using assms
  by (auto simp: RS_CreateResource_def NewResource_def RS_UpdateResource_def RS_DeleteResource_def RS_GetResourceByURI_def RS_GetClientResource_def
      RS_AddResourceToClientID_def RS_RemoveResourceFromClientID_def RS_CreateScope_def NewScope_row_def Let_def
      intro!: spares_rules keeps_first_or keeps_one keeps_modp filter_map_other filter_cong [OF refl]
      simp: spares_def rows_of_def app_resources_def app_scopes_def)

lemma spares_store_scopes:
  assumes "app \<noteq> app'"
  shows "keeps (spares app') (RS_UpdateScope app now uri scope desc)"
  "keeps (spares app') (RS_DeleteScope app uri scope)"
  "keeps (spares app') (RS_GetResourceScope app i scope)"
  "keeps (spares app') (RS_GetScopesByResourceIDAndScopes app i scopes)"
  "keeps (spares app') (RS_AddScopesToClientID app i ids c)"
  "keeps (spares app') (RS_RemoveScopesFromClientID app ids c)"
  "keeps (spares app') (RS_ListClientScopesByResourceID app i c)"
  "keeps (spares app') (RS_DeleteAllClientResourceAssociations app i)"
  "keeps (spares app') (RS_DeleteAllClientScopeAssociationsByResourceID app i)"
  "keeps (spares app') (RS_DeleteAllResourceScopes app i)"
  "keeps (spares app') (RS_DeleteAllClientScopeAssociationsByScopeID app i)"
  using assms
  by (auto simp: RS_UpdateScope_def RS_DeleteScope_def RS_GetResourceScope_def RS_GetScopesByResourceIDAndScopes_def RS_AddScopesToClientID_def
      RS_RemoveScopesFromClientID_def RS_ListClientScopesByResourceID_def RS_DeleteAllClientResourceAssociations_def
      RS_DeleteAllClientScopeAssociationsByResourceID_def RS_DeleteAllResourceScopes_def RS_DeleteAllClientScopeAssociationsByScopeID_def Let_def
      intro!: spares_rules keeps_first_or keeps_one keeps_modp spares_store filter_map_other filter_cong [OF refl]
      simp: spares_def rows_of_def app_resources_def app_scopes_def scope_row_def filter_fold_insert_new)

lemma spares_client_resource_of: "app \<noteq> app' \<Longrightarrow> keeps (spares app') (client_resource_of cl app uri c)"
  by (auto simp: client_resource_of_def need_client_def checkResourceAssociatedToClient_def intro!: spares_rules spares_store split: option.split)

lemma spares_command: "app \<noteq> app' \<Longrightarrow> keeps (spares app') (run_command cl app k)"
  by (cases k) (auto simp: Cmd_CreateResource_def Cmd_UpdateResource_def Cmd_DeleteResourceByURI_def Cmd_AddResourceToClientID_def
    Cmd_RemoveResourceFromClientID_def Cmd_CreateScope_def Cmd_UpdateScope_def Cmd_DeleteScope_def Cmd_AddScopesToClientID_def
    Cmd_RemoveScopesFromClientID_def Cmd_ReplaceScopesOfClientID_def need_client_def Let_def
    intro!: spares_rules spares_store spares_store_scopes spares_client_resource_of keeps_scope_ids split: option.split)

text \<open>C16: the tables of resources and scopes stay consistent and tenants stay apart. Whatever commands the apps of a server run on
  empty tables, failed ones included, every id and every uri and scope name is unique where it has to be, every
  reference leads to a row of the same app, every scope a client has is a scope of the resource it is recorded for;
  and no command changes a row of another app.\<close>

theorem resource_tables_consistent:
  "rs_ok (fold (\<lambda>(cl, app, k) db. snd (run_command cl app k db)) ks no_resources) \<and>
   (app = app' \<or> rows_of app' (snd (run_command cl app k db)) = rows_of app' db)"
proof
  have "rs_ok (fold (\<lambda>(cl, app, k) db. snd (run_command cl app k db)) ks db)" if "rs_ok db" for db
    using that
  proof (induction ks arbitrary: db)
    case (Cons x ks)
    obtain cl app k where x: "x = (cl, app, k)" by (cases x)
    from Cons.IH [OF safeD [OF safe_command Cons.prems]] show ?case by (simp add: x)
  qed simp
  moreover have "rs_ok no_resources" by (simp add: rs_ok_def no_resources_def)
  ultimately show "rs_ok (fold (\<lambda>(cl, app, k) db. snd (run_command cl app k db)) ks no_resources)" by blast
  show "app = app' \<or> rows_of app' (snd (run_command cl app k db)) = rows_of app' db"
    using spares_command [of app app' cl k] by (auto simp: keeps_def spares_def)
qed

section \<open>The scopes of a client\<close>

text \<open>The names of the scopes a client has of a resource, as \<^verbatim>\<open>ListClientScopesByResourceID\<close> lists them.\<close>

definition granted :: "string \<Rightarrow> string \<Rightarrow> string \<Rightarrow> resource_db \<Rightarrow> string set" where
  "granted app clientID resourceID db = sc_Scope ` set (join_client_scope app clientID db (filter (\<lambda>s. sc_ResourceID s = resourceID) (app_scopes app db)))"

lemma in_join: "s \<in> set (join_client_scope app c db rows) \<longleftrightarrow> s \<in> set rows \<and>
    (\<exists>a \<in> set (t_ClientScopes db). cs_App a = app \<and> cs_ScopeID a = sc_ID s \<and> cs_ClientID a = c)"
  by (auto simp: join_client_scope_def)

lemma in_granted: "n \<in> granted app c i db \<longleftrightarrow> (\<exists>s \<in> set (t_Scopes db). sc_App s = app \<and> sc_ResourceID s = i \<and> sc_Scope s = n \<and>
    (\<exists>a \<in> set (t_ClientScopes db). cs_App a = app \<and> cs_ScopeID a = sc_ID s \<and> cs_ClientID a = c))"
  unfolding granted_def image_iff Bex_def in_join by (auto simp: app_scopes_def)

lemma by_name_None: "by_name scopes n = None \<longleftrightarrow> n \<notin> sc_Scope ` set scopes"
  by (auto simp: by_name_def map_of_eq_None_iff image_iff)

lemma same_scope: "rs_ok db \<Longrightarrow> s \<in> set (t_Scopes db) \<Longrightarrow> s' \<in> set (t_Scopes db) \<Longrightarrow> sc_ID s = sc_ID s' \<Longrightarrow> s = s'"
  by (auto simp: rs_ok_def distinct_map inj_on_def)

lemma same_scope_name: "rs_ok db \<Longrightarrow> s \<in> set (t_Scopes db) \<Longrightarrow> s' \<in> set (t_Scopes db) \<Longrightarrow>
    sc_App s = sc_App s' \<Longrightarrow> sc_ResourceID s = sc_ResourceID s' \<Longrightarrow> sc_Scope s = sc_Scope s' \<Longrightarrow> s = s'"
  by (auto simp: rs_ok_def distinct_map inj_on_def)

lemma in_scopes_to_remove:
  "i \<in> set (scopes_to_remove current scopes) \<longleftrightarrow> (\<exists>n s. by_name current n = Some s \<and> n \<notin> set scopes \<and> i = sc_ID s)"
proof -
  have "by_name current n = Some s \<Longrightarrow> n \<in> sc_Scope ` set current" for n s
    using by_name_None [of current n] by auto
  then show ?thesis by (auto simp: scopes_to_remove_def) fastforce+
qed

lemma client_resource_of_Ok:
  assumes "client_resource_of cl app uri c db = (Ok r, db')"
  shows "db' = db \<and> r \<in> set (t_Resources db) \<and> rsc_App r = app \<and> rsc_URI r = uri"
  using assms
  by (auto simp: client_resource_of_def need_client_def checkResourceAssociatedToClient_def RS_GetResourceByURI_def RS_GetClientResource_def
      first_or_def bindp_def run_simps app_resources_def dest!: filter_first split: option.splits list.splits prod.splits outcome.splits)

text \<open>What the statements of the replacement do to the associations: the facts about it that the next lemmas share.\<close>

definition replaces ::
  "string \<Rightarrow> string \<Rightarrow> string \<Rightarrow> string list \<Rightarrow> Scope list \<Rightarrow> (string \<Rightarrow> Scope option) \<Rightarrow> string list \<Rightarrow> resource_db \<Rightarrow> resource_db \<Rightarrow> bool" where
  "replaces app c rid scopes current m ids db db' \<longleftrightarrow>
     current = join_client_scope app c db (filter (\<lambda>s. sc_ResourceID s = rid) (app_scopes app db)) \<and>
     m = by_name (filter (\<lambda>s. sc_ResourceID s = rid \<and> sc_Scope s \<in> set scopes) (app_scopes app db)) \<and>
     ids = map (sc_ID \<circ> the \<circ> m) (filter (\<lambda>s. by_name current s = None) scopes) \<and>
     (\<forall>n \<in> set scopes. by_name current n = None \<longrightarrow> m n \<noteq> None) \<and>
     t_Scopes db' = t_Scopes db \<and>
     set (t_ClientScopes db') = {a \<in> set (t_ClientScopes db) \<union> {\<lparr>cs_App = app, cs_ClientID = c, cs_ResourceID = rid, cs_ScopeID = i\<rparr> |i. i \<in> set ids}.
       \<not> (cs_App a = app \<and> cs_ClientID a = c \<and> cs_ScopeID a \<in> set (scopes_to_remove current scopes))}"

lemma Replace_Ok:
  assumes "Cmd_ReplaceScopesOfClientID cl app uri c scopes db = (Ok ms, db')"
  obtains r ids current m where "r \<in> set (t_Resources db)" "rsc_App r = app" "rsc_URI r = uri"
    "replaces app c (rsc_ID r) scopes current m ids db db'"
    "sc_Scope ` set ms = granted app c (rsc_ID r) db'"
proof -
  from assms obtain r d0 where r: "client_resource_of cl app uri c db = (Ok r, d0)"
    and rest: "bindp (RS_ListClientScopesByResourceID app (rsc_ID r) c) (\<lambda>currentScopes.
     bindp (RS_GetScopesByResourceIDAndScopes app (rsc_ID r) scopes) (\<lambda>desiredScopeMap.
     bindp (scope_ids desiredScopeMap (filter (\<lambda>s. by_name currentScopes s = None) scopes)) (\<lambda>toAddIDs.
     bindp (if toAddIDs \<noteq> [] then RS_AddScopesToClientID app (rsc_ID r) toAddIDs c else ret ()) (\<lambda>_.
     let toRemoveIDs = scopes_to_remove currentScopes scopes in
     bindp (if toRemoveIDs \<noteq> [] then RS_RemoveScopesFromClientID app toRemoveIDs c else ret ()) (\<lambda>_.
     RS_ListClientScopesByResourceID app (rsc_ID r) c))))) d0 = (Ok ms, db')"
    unfolding Cmd_ReplaceScopesOfClientID_def bindp_Ok by blast
  from client_resource_of_Ok [OF r] have d0: "d0 = db" and in_r: "r \<in> set (t_Resources db)" "rsc_App r = app" "rsc_URI r = uri" by auto
  define current where "current = join_client_scope app c db (filter (\<lambda>s. sc_ResourceID s = rsc_ID r) (app_scopes app db))"
  define m where "m = by_name (filter (\<lambda>s. sc_ResourceID s = rsc_ID r \<and> sc_Scope s \<in> set scopes) (app_scopes app db))"
  define names where "names = filter (\<lambda>s. by_name current s = None) scopes"
  note rest [unfolded d0 RS_ListClientScopesByResourceID_def RS_GetScopesByResourceIDAndScopes_def bindp_simps Let_def bindp_Ok,
      folded current_def m_def, folded names_def]
  then obtain ids d1 d2 d3 where ids: "scope_ids m names db = (Ok ids, d1)"
    and add: "(if ids \<noteq> [] then RS_AddScopesToClientID app (rsc_ID r) ids c else ret ()) d1 = (Ok (), d2)"
    and rem: "(if scopes_to_remove current scopes \<noteq> [] then RS_RemoveScopesFromClientID app (scopes_to_remove current scopes) c else ret ()) d2 = (Ok (), d3)"
    and fin: "RS_ListClientScopesByResourceID app (rsc_ID r) c d3 = (Ok ms, db')"
    unfolding RS_ListClientScopesByResourceID_def by force
  from scope_ids_run [OF ids] have d1: "d1 = db" and ids: "ids = map (sc_ID \<circ> the \<circ> m) names" and found: "\<forall>n \<in> set names. m n \<noteq> None" by auto
  let ?new = "\<lambda>i. \<lparr>cs_App = app, cs_ClientID = c, cs_ResourceID = rsc_ID r, cs_ScopeID = i\<rparr>"
  from add d1 have "d2 = db\<lparr>t_ClientScopes := fold (\<lambda>i. insert_new (?new i)) ids (t_ClientScopes db)\<rparr>"
    by (auto simp: RS_AddScopesToClientID_def run_simps split: if_splits)
  then have d2: "t_Scopes d2 = t_Scopes db" "set (t_ClientScopes d2) = set (t_ClientScopes db) \<union> {?new i |i. i \<in> set ids}"
    by (auto simp: set_fold_insert_new)
  from rem have d3: "t_Scopes d3 = t_Scopes d2" "set (t_ClientScopes d3) = {a \<in> set (t_ClientScopes d2).
      \<not> (cs_App a = app \<and> cs_ClientID a = c \<and> cs_ScopeID a \<in> set (scopes_to_remove current scopes))}"
    by (auto simp: RS_RemoveScopesFromClientID_def run_simps split: if_splits)
  from fin have "db' = d3" "sc_Scope ` set ms = granted app c (rsc_ID r) db'"
    by (auto simp: RS_ListClientScopesByResourceID_def run_simps granted_def)
  with d2 d3 in_r ids found show ?thesis
    using that [of r current m ids] by (simp add: replaces_def current_def m_def names_def)
qed

lemma replaces_current:
  assumes "replaces app c rid scopes current m ids db db'"
  shows "s \<in> set current \<longleftrightarrow> s \<in> set (t_Scopes db) \<and> sc_App s = app \<and> sc_ResourceID s = rid \<and>
    (\<exists>a \<in> set (t_ClientScopes db). cs_App a = app \<and> cs_ScopeID a = sc_ID s \<and> cs_ClientID a = c)"
  using assms unfolding replaces_def by (auto simp: in_join app_scopes_def)

lemma replaces_wanted:
  assumes "replaces app c rid scopes current m ids db db'" "m n = Some s"
  shows "s \<in> set (t_Scopes db) \<and> sc_App s = app \<and> sc_ResourceID s = rid \<and> sc_Scope s = n"
  using assms by_name_in unfolding replaces_def by (fastforce simp: app_scopes_def)

lemma replaces_removed:
  assumes "rs_ok db" "replaces app c rid scopes current m ids db db'"
    and "sc_ID s \<in> set (scopes_to_remove current scopes)" "s \<in> set (t_Scopes db)"
  shows "s \<in> set current \<and> sc_Scope s \<notin> set scopes"
proof -
  from assms(3) obtain n s' where "by_name current n = Some s'" "n \<notin> set scopes" "sc_ID s = sc_ID s'" by (auto simp: in_scopes_to_remove)
  with by_name_in replaces_current [OF assms(2)] same_scope [OF assms(1,4), of s'] show ?thesis by metis
qed

lemma replaces_added:
  assumes "rs_ok db" "replaces app c rid scopes current m ids db db'" "sc_ID s \<in> set ids" "s \<in> set (t_Scopes db)"
  shows "\<exists>n \<in> set scopes. by_name current n = None \<and> m n = Some s"
proof -
  from assms(2,3) obtain n s' where "n \<in> set scopes" "by_name current n = None" "m n = Some s'" "sc_ID s = sc_ID s'"
    by (auto simp: replaces_def)
  with replaces_wanted [OF assms(2)] same_scope [OF assms(1,4), of s'] show ?thesis by metis
qed

lemma replaces_association:
  assumes "replaces app c rid scopes current m ids db db'"
  shows "a \<in> set (t_ClientScopes db') \<longleftrightarrow>
    (a \<in> set (t_ClientScopes db) \<or> (\<exists>i \<in> set ids. a = \<lparr>cs_App = app, cs_ClientID = c, cs_ResourceID = rid, cs_ScopeID = i\<rparr>)) \<and>
    \<not> (cs_App a = app \<and> cs_ClientID a = c \<and> cs_ScopeID a \<in> set (scopes_to_remove current scopes))"
  using assms unfolding replaces_def by auto

lemma replaces_granted_only:
  assumes "rs_ok db" "replaces app c rid scopes current m ids db db'" "n \<in> granted app c rid db'"
  shows "n \<in> set scopes"
proof -
  from assms(2,3) obtain s a where s: "s \<in> set (t_Scopes db)" "sc_App s = app" "sc_ResourceID s = rid" "sc_Scope s = n"
    and a: "a \<in> set (t_ClientScopes db')" "cs_App a = app" "cs_ScopeID a = sc_ID s" "cs_ClientID a = c"
    unfolding in_granted replaces_def by metis
  note assoc = a(1) [unfolded replaces_association [OF assms(2)]]
  from assoc a have keep: "sc_ID s \<notin> set (scopes_to_remove current scopes)" by auto
  from assoc a(3) consider "a \<in> set (t_ClientScopes db)" | "sc_ID s \<in> set ids" by auto
  then show ?thesis
  proof cases
    case 1
    with s a have "s \<in> set current" unfolding replaces_current [OF assms(2)] by blast
    then obtain s' where s': "by_name current n = Some s'" using by_name_None [of current n] s(4) by fastforce
    with by_name_in replaces_current [OF assms(2)] same_scope_name [OF assms(1) s(1), of s'] s have "s' = s" by metis
    with s' keep show ?thesis unfolding in_scopes_to_remove by blast
  next
    case 2
    with replaces_added [OF assms(1,2) 2 s(1)] replaces_wanted [OF assms(2)] s(4) show ?thesis by fastforce
  qed
qed

lemma replaces_granted_all:
  assumes "rs_ok db" "replaces app c rid scopes current m ids db db'" "n \<in> set scopes"
  shows "n \<in> granted app c rid db'"
proof -
  have ts: "t_Scopes db' = t_Scopes db" using assms(2) by (simp add: replaces_def)
  have "\<exists>s. s \<in> set (t_Scopes db) \<and> sc_App s = app \<and> sc_ResourceID s = rid \<and> sc_Scope s = n \<and> (\<exists>a.
    (a \<in> set (t_ClientScopes db) \<or> (\<exists>i \<in> set ids. a = \<lparr>cs_App = app, cs_ClientID = c, cs_ResourceID = rid, cs_ScopeID = i\<rparr>))
    \<and> cs_App a = app \<and> cs_ScopeID a = sc_ID s \<and> cs_ClientID a = c)"
  proof (cases "by_name current n")
    case (Some s)
    then have "s \<in> set current" "sc_Scope s = n" using by_name_in by metis+
    then show ?thesis unfolding replaces_current [OF assms(2)] by blast
  next
    case None
    with assms(2,3) obtain s where ms: "m n = Some s" unfolding replaces_def by blast
    then have "sc_ID s \<in> set ids" using assms(2,3) None by (force simp: replaces_def)
    then show ?thesis using replaces_wanted [OF assms(2) ms] by (intro exI [of _ s]) auto
  qed
  then obtain s a where s: "s \<in> set (t_Scopes db)" "sc_App s = app" "sc_ResourceID s = rid" "sc_Scope s = n"
    and a: "a \<in> set (t_ClientScopes db) \<or> (\<exists>i \<in> set ids. a = \<lparr>cs_App = app, cs_ClientID = c, cs_ResourceID = rid, cs_ScopeID = i\<rparr>)"
      "cs_App a = app" "cs_ScopeID a = sc_ID s" "cs_ClientID a = c" by blast
  have "sc_ID s \<notin> set (scopes_to_remove current scopes)" using replaces_removed [OF assms(1,2) _ s(1)] s(4) assms(3) by blast
  with a have "a \<in> set (t_ClientScopes db')" unfolding replaces_association [OF assms(2)] by simp
  with s a show ?thesis unfolding in_granted ts by blast
qed

lemma replaces_elsewhere:
  assumes "rs_ok db" "replaces app c rid scopes current m ids db db'" "(app', c', i') \<noteq> (app, c, rid)"
  shows "granted app' c' i' db' = granted app' c' i' db"
proof -
  have "(\<exists>a \<in> set (t_ClientScopes db'). cs_App a = app' \<and> cs_ScopeID a = sc_ID s \<and> cs_ClientID a = c') \<longleftrightarrow>
      (\<exists>a \<in> set (t_ClientScopes db). cs_App a = app' \<and> cs_ScopeID a = sc_ID s \<and> cs_ClientID a = c')"
    if s: "s \<in> set (t_Scopes db)" "sc_App s = app'" "sc_ResourceID s = i'" for s
  proof (cases "app' = app \<and> c' = c")
    case True
    with assms(3) s have "sc_ResourceID s \<noteq> rid" by auto
    with replaces_added [OF assms(1,2) _ s(1)] replaces_wanted [OF assms(2)] replaces_removed [OF assms(1,2) _ s(1)] replaces_current [OF assms(2)]
    have "sc_ID s \<notin> set ids" "sc_ID s \<notin> set (scopes_to_remove current scopes)" by metis+
    then show ?thesis unfolding Bex_def replaces_association [OF assms(2)] by auto
  qed (auto simp: Bex_def replaces_association [OF assms(2)])
  moreover have ts: "t_Scopes db' = t_Scopes db" using assms(2) by (simp add: replaces_def)
  ultimately show ?thesis unfolding set_eq_iff in_granted ts by blast
qed

text \<open>C23: replacing the scopes of a client gives it exactly the scopes that were asked for. When the command succeeds, the
  client has of the resource the scopes of the list and no others, those are what is returned, and what
  any client of any app has of any other resource, and any other client of this one, is as before.\<close>

theorem replaced_scopes_exact:
  assumes "rs_ok db" "Cmd_ReplaceScopesOfClientID cl app uri c scopes db = (Ok ms, db')" "RS_GetResourceByURI app uri db = (Ok r, d)"
  shows "granted app c (rsc_ID r) db' = set scopes \<and> sc_Scope ` set ms = set scopes \<and>
    ((app', c', i') = (app, c, rsc_ID r) \<or> granted app' c' i' db' = granted app' c' i' db)"
proof -
  from Replace_Ok [OF assms(2)] obtain r0 ids current m where r0: "r0 \<in> set (t_Resources db)" "rsc_App r0 = app" "rsc_URI r0 = uri"
    and rep: "replaces app c (rsc_ID r0) scopes current m ids db db'"
    and ms: "sc_Scope ` set ms = granted app c (rsc_ID r0) db'" .
  from assms(3) have "r \<in> set (t_Resources db)" "rsc_App r = app" "rsc_URI r = uri"
    by (auto simp: RS_GetResourceByURI_def first_or_def run_simps app_resources_def dest!: filter_first split: list.splits)
  with r0 assms(1) have r: "r0 = r" by (auto simp: rs_ok_def distinct_map inj_on_def)
  note rep = rep [unfolded r]
  have "granted app c (rsc_ID r) db' = set scopes"
    using replaces_granted_only [OF assms(1) rep] replaces_granted_all [OF assms(1) rep] by blast
  with ms r replaces_elsewhere [OF assms(1) rep, of app' c' i'] show ?thesis by blast
qed


text \<open>Deleting a resource leaves nothing of it behind. The command on a resource there is never fails for a
  reference that is left over, and what it removes is the resource, its scopes and what clients have of
  either, and nothing else.\<close>

theorem resource_deleted_cleanly:
  assumes "rs_ok db" "r \<in> set (t_Resources db)"
  shows "Cmd_DeleteResourceByURI (rsc_App r) (rsc_URI r) db = (Ok (),
    \<lparr>t_Resources = filter (\<lambda>x. x \<noteq> r) (t_Resources db),
     t_Scopes = filter (\<lambda>s. sc_ResourceID s \<noteq> rsc_ID r) (t_Scopes db),
     t_ClientResources = filter (\<lambda>a. cr_ResourceID a \<noteq> rsc_ID r) (t_ClientResources db),
     t_ClientScopes = filter (\<lambda>a. cs_ResourceID a \<noteq> rsc_ID r) (t_ClientScopes db)\<rparr>)"
proof -
  have same: "x = r" if "x \<in> set (t_Resources db)" "rsc_ID x = rsc_ID r" for x
    using assms that by (auto simp: rs_ok_def distinct_map inj_on_def)
  have same_uri: "x = r" if "x \<in> set (t_Resources db)" "rsc_App x = rsc_App r" "rsc_URI x = rsc_URI r" for x
    using assms that by (auto simp: rs_ok_def distinct_map inj_on_def)
  have app: "sc_App s = rsc_App r" if "s \<in> set (t_Scopes db)" "sc_ResourceID s = rsc_ID r" for s
    using assms(1) that same unfolding rs_ok_def by metis
  have app_cr: "cr_App a = rsc_App r" if "a \<in> set (t_ClientResources db)" "cr_ResourceID a = rsc_ID r" for a
    using assms(1) that same unfolding rs_ok_def by metis
  have scope: "\<exists>s \<in> set (t_Scopes db). sc_ID s = cs_ScopeID a \<and> sc_App s = cs_App a \<and> sc_ResourceID s = cs_ResourceID a" if "a \<in> set (t_ClientScopes db)" for a
    using assms(1) that by (simp add: rs_ok_def)
  then have app_cs: "cs_App a = rsc_App r" if "a \<in> set (t_ClientScopes db)" "cs_ResourceID a = rsc_ID r" for a
    using app that by metis
  let ?d1 = "db\<lparr>t_ClientResources := filter (\<lambda>a. cr_ResourceID a \<noteq> rsc_ID r) (t_ClientResources db)\<rparr>"
  let ?d2 = "?d1\<lparr>t_ClientScopes := filter (\<lambda>a. cs_ResourceID a \<noteq> rsc_ID r) (t_ClientScopes db)\<rparr>"
  let ?d3 = "?d2\<lparr>t_Scopes := filter (\<lambda>s. sc_ResourceID s \<noteq> rsc_ID r) (t_Scopes db)\<rparr>"
  have "RS_GetResourceByURI (rsc_App r) (rsc_URI r) db = (Ok r, db)"
  proof -
    have "r \<in> set (filter (\<lambda>x. rsc_URI x = rsc_URI r) (app_resources (rsc_App r) db))" using assms(2) by (simp add: app_resources_def)
    then obtain y ys where y: "filter (\<lambda>x. rsc_URI x = rsc_URI r) (app_resources (rsc_App r) db) = y # ys" by (meson list.set_cases)
    from filter_first [OF y] have "y = r" by (intro same_uri) (auto simp: app_resources_def)
    with y show ?thesis by (simp add: RS_GetResourceByURI_def first_or_def run_simps)
  qed
  moreover have "RS_DeleteAllClientResourceAssociations (rsc_App r) (rsc_ID r) db = (Ok (), ?d1)"
    using app_cr by (auto simp: RS_DeleteAllClientResourceAssociations_def run_simps intro!: arg_cong [where f = "\<lambda>x. db\<lparr>t_ClientResources := x\<rparr>"] filter_cong)
  moreover have "RS_DeleteAllClientScopeAssociationsByResourceID (rsc_App r) (rsc_ID r) ?d1 = (Ok (), ?d2)"
  proof -
    have "filter (\<lambda>a. \<not> (cs_App a = rsc_App r \<and> cs_ResourceID a = rsc_ID r)) (t_ClientScopes db) = filter (\<lambda>a. cs_ResourceID a \<noteq> rsc_ID r) (t_ClientScopes db)"
      using app_cs by (intro filter_cong) auto
    then show ?thesis by (simp add: RS_DeleteAllClientScopeAssociationsByResourceID_def run_simps)
  qed
  moreover have "RS_DeleteAllResourceScopes (rsc_App r) (rsc_ID r) ?d2 = (Ok (), ?d3)"
  proof -
    have "filter (Not \<circ> (\<lambda>s. sc_App s = rsc_App r \<and> sc_ResourceID s = rsc_ID r)) (t_Scopes db) = filter (\<lambda>s. sc_ResourceID s \<noteq> rsc_ID r) (t_Scopes db)"
      using app by (intro filter_cong) auto
    moreover have "sc_ID s \<noteq> cs_ScopeID a" if "s \<in> set (t_Scopes db)" "sc_ResourceID s = rsc_ID r" "a \<in> set (t_ClientScopes db)" "cs_ResourceID a \<noteq> rsc_ID r" for s a
      using scope [OF that(3)] same_scope [OF assms(1) that(1)] that(2,4) by metis
    ultimately show ?thesis by (auto simp: RS_DeleteAllResourceScopes_def Let_def run_simps)
  qed
  moreover have "RS_DeleteResource (rsc_App r) (rsc_ID r) ?d3 = (Ok (), ?d3\<lparr>t_Resources := filter (\<lambda>x. x \<noteq> r) (t_Resources db)\<rparr>)"
  proof -
    have "filter (\<lambda>x. rsc_App x = rsc_App r \<and> rsc_ID x = rsc_ID r) (t_Resources db) = filter (\<lambda>x. x = r) (t_Resources db)"
      using same by (intro filter_cong) auto
    moreover have "length (filter (\<lambda>x. x = r) (t_Resources db)) = 1"
    proof -
      have "distinct (t_Resources db)" using assms(1) by (simp add: rs_ok_def distinct_map)
      then have "distinct (filter (\<lambda>x. x = r) (t_Resources db))" by simp
      then have "length (filter (\<lambda>x. x = r) (t_Resources db)) = card (set (filter (\<lambda>x. x = r) (t_Resources db)))" by (simp only: distinct_card)
      also have "set (filter (\<lambda>x. x = r) (t_Resources db)) = {r}" using assms(2) by auto
      finally show ?thesis by simp
    qed
    moreover have "filter (Not \<circ> (\<lambda>x. rsc_App x = rsc_App r \<and> rsc_ID x = rsc_ID r)) (t_Resources db) = filter (\<lambda>x. x \<noteq> r) (t_Resources db)"
      using same by (intro filter_cong) auto
    ultimately show ?thesis by (auto simp: RS_DeleteResource_def Let_def run_simps exactly_one_def)
  qed
  ultimately show ?thesis by (simp add: Cmd_DeleteResourceByURI_def bindp_run)
qed

text \<open>Taking a resource from a client leaves its scopes recorded: given back, the resource comes with the old scopes.\<close>

lemma removed_resource_keeps_scopes:
  assumes "Cmd_RemoveResourceFromClientID cl app uri c db = (Ok (), db1)" "Cmd_AddResourceToClientID cl app uri c db1 = (Ok (), db2)"
  shows "granted app' c' i db2 = granted app' c' i db"
proof -
  have "t_Scopes db1 = t_Scopes db \<and> t_ClientScopes db1 = t_ClientScopes db"
    using assms(1) by (auto simp: Cmd_RemoveResourceFromClientID_def need_client_def RS_GetResourceByURI_def first_or_def
        RS_RemoveResourceFromClientID_def bindp_Ok run_simps split: option.splits list.splits)
  moreover have "t_Scopes db2 = t_Scopes db1 \<and> t_ClientScopes db2 = t_ClientScopes db1"
    using assms(2) by (auto simp: Cmd_AddResourceToClientID_def need_client_def RS_GetResourceByURI_def first_or_def
        RS_AddResourceToClientID_def Let_def bindp_Ok run_simps split: option.splits list.splits if_splits)
  ultimately show ?thesis by (simp add: set_eq_iff in_granted)
qed


definition demo_clients9 :: "OAuthClientConfig list" where
  "demo_clients9 = [demo_client ''c9'' ApplicationTypeConfidential]"

text \<open>Two apps with one resource each; a client of the first has one of its three scopes.\<close>

definition example_resources :: resource_db where
  "example_resources = (let r = (\<lambda>app i. \<lparr>rsc_App = app, rsc_ID = i, rsc_CreatedAt = 0, rsc_UpdatedAt = 0, rsc_URI = ''https://r'', rsc_Name = None\<rparr>);
     s = (\<lambda>app i rid n. \<lparr>sc_App = app, sc_ID = i, sc_CreatedAt = 0, sc_UpdatedAt = 0, sc_ResourceID = rid, sc_Scope = n, sc_Description = None\<rparr>)
   in \<lparr>t_Resources = [r ''a'' ''r1'', r ''b'' ''r2''],
     t_Scopes = [s ''a'' ''s1'' ''r1'' ''read'', s ''a'' ''s2'' ''r1'' ''write'', s ''a'' ''s3'' ''r1'' ''admin'', s ''b'' ''s4'' ''r2'' ''read''],
     t_ClientResources = [\<lparr>cr_App = ''a'', cr_ClientID = ''c9'', cr_ResourceID = ''r1''\<rparr>],
     t_ClientScopes = [\<lparr>cs_App = ''a'', cs_ClientID = ''c9'', cs_ResourceID = ''r1'', cs_ScopeID = ''s3''\<rparr>]\<rparr>)"

lemma example_resources_ok: "rs_ok example_resources"
  by (simp add: example_resources_def rs_ok_def)

theorem replaced_scopes_exact_witness:
  "\<exists>ms db' r. Cmd_ReplaceScopesOfClientID demo_clients9 ''a'' ''https://r'' ''c9'' [''write'', ''read''] example_resources = (Ok ms, db') \<and>
     RS_GetResourceByURI ''a'' ''https://r'' example_resources = (Ok r, example_resources) \<and>
     granted ''a'' ''c9'' (rsc_ID r) db' = {''read'', ''write''} \<and> granted ''b'' ''c9'' ''r2'' db' = granted ''b'' ''c9'' ''r2'' example_resources"
proof -
  have "is_ok (fst (Cmd_ReplaceScopesOfClientID demo_clients9 ''a'' ''https://r'' ''c9'' [''write'', ''read''] example_resources))"
    and "is_ok (fst (RS_GetResourceByURI ''a'' ''https://r'' example_resources))"
    by code_simp+
  then obtain ms db' r d where r: "Cmd_ReplaceScopesOfClientID demo_clients9 ''a'' ''https://r'' ''c9'' [''write'', ''read''] example_resources = (Ok ms, db')"
    "RS_GetResourceByURI ''a'' ''https://r'' example_resources = (Ok r, d)"
    by (metis is_okD prod.collapse)
  moreover from r(2) have "d = example_resources" by (simp add: RS_GetResourceByURI_def first_or_def run_simps split: list.splits)
  ultimately show ?thesis
    using replaced_scopes_exact [OF example_resources_ok r, of "''b''" "''c9''" "''r2''"] by auto
qed

theorem resource_deleted_cleanly_witness:
  "t_ClientScopes (snd (Cmd_DeleteResourceByURI ''a'' ''https://r'' example_resources)) = []"
proof -
  have "hd (t_Resources example_resources) \<in> set (t_Resources example_resources)" by (simp add: example_resources_def)
  from resource_deleted_cleanly [OF example_resources_ok this] show ?thesis by (simp add: example_resources_def)
qed

end
