(* ===== verification/ClientCredentials.thy ===== *)
theory ClientCredentials imports IDToken ResourceScope begin

text \<open>
  The client credentials grant: \<^verbatim>\<open>handleClientCredentials\<close> of
  \<^verbatim>\<open>pkg/lib/oauth/handler/handler_token.go\<close> and \<^verbatim>\<open>IssueClientCredentialsAccessToken\<close> of
  \<^verbatim>\<open>service_token.go\<close>. A confidential client gets an access token for a resource that it was
  given, with scopes of that resource that it was given.
\<close>

datatype cc_error = CCSession sess_error | CCResource resource_error | CCToken token_error | CCEvent event_error

text \<open>The rate limiter lives beside the sessions; resources and events in the transaction of the request.\<close>

record ('r, 'm, 'x, 'y) cc_state =
  cc_Sess :: "('r, 'm, 'x) sess_world"
  cc_Request :: "(resource_db, 'y) event_state"

type_synonym ('r, 'm, 'x, 'y, 'a) cc_proc = "(('r, 'm, 'x, 'y) cc_state, cc_error, 'a) proc"

definition on_sess :: "('r, 'm, 'x, 'a) sess_proc \<Rightarrow> ('r, 'm, 'x, 'y, 'a) cc_proc" where
  "on_sess p = (\<lambda>s. case p (cc_Sess s) of (r, w) \<Rightarrow> (map_err CCSession r, s\<lparr>cc_Sess := w\<rparr>))"

definition on_resources :: "'a resource_proc \<Rightarrow> ('r, 'm, 'x, 'y, 'a) cc_proc" where
  "on_resources p = (\<lambda>s. case p (tx_db (cc_Request s)) of (r, db) \<Rightarrow> (map_err CCResource r, s\<lparr>cc_Request := (cc_Request s)\<lparr>tx_db := db\<rparr>\<rparr>))"

definition on_events :: "(resource_db, 'y, 'a) event_proc \<Rightarrow> ('r, 'm, 'x, 'y, 'a) cc_proc" where
  "on_events p = (\<lambda>s. case p (cc_Request s) of (r, q) \<Rightarrow> (map_err CCEvent r, s\<lparr>cc_Request := q\<rparr>))"

definition cc_protocol :: "string \<Rightarrow> string \<Rightarrow> ('r, 'm, 'x, 'y, 'a) cc_proc" where
  "cc_protocol code description = failp (CCSession (ProtocolErr code description))"

section \<open>The token service\<close>

definition M2MTokenCreated :: "string \<Rightarrow> string \<Rightarrow> NonBlockingPayload" where
  "M2MTokenCreated clientID clientSecret = \<lparr>nb_Type = ''m2m.token.created'', nb_UserID = '''', nb_TriggeredBy = ''user'', nb_ForHook = False,
     nb_ForAudit = True, nb_RequireReindexUserIDs = [], nb_DeletedUserIDs = [], nb_ExtraHookURLs = [], nb_Users = [],
     nb_Body = JObject [(''client_id'', JString clientID), (''client_secret'', JString clientSecret)]\<rparr>"

definition Seconds :: "int \<Rightarrow> duration" where "Seconds n = n * 1000000000"

definition IssueClientCredentialsAccessToken :: "('d, 'x', 'i) issuer_env \<Rightarrow> resource_db request_env \<Rightarrow> (resource_db, 'y) sink list \<Rightarrow> time \<Rightarrow> string \<Rightarrow>
    string \<Rightarrow> string list \<Rightarrow> OAuthClientConfig \<Rightarrow> string \<Rightarrow> ('r, 'm, 'x, 'y, string \<Rightarrow> string option) cc_proc" where
  "IssueClientCredentialsAccessToken ie re sinks now token resourceURI scopes client maskedSecret = (let
     expireAt = now + Seconds (cl_AccessTokenLifetime client); scope = join_space scopes
   in case EncodeClientAccessToken ie \<lparr>ec_OriginalToken = token, ec_ClientConfig = client, ec_ResourceURI = resourceURI, ec_Scope = scope,
        ec_CreatedAt = now, ec_ExpireAt = expireAt\<rparr> of
     Inl e \<Rightarrow> failp (CCToken e)
   | Inr encodedToken \<Rightarrow> bindp (on_events (DispatchEventOnCommit re sinks (NonBlocking (M2MTokenCreated (cl_ClientID client) maskedSecret)))) (\<lambda>_.
       ret [''token_type'' \<mapsto> ''Bearer'', ''access_token'' \<mapsto> encodedToken,
         ''expires_in'' \<mapsto> decimal (nat (cl_AccessTokenLifetime client)), ''scope'' \<mapsto> scope]))"

section \<open>The grant\<close>

primrec check_limits :: "('r, 'm, 'x) handler_deps \<Rightarrow> time \<Rightarrow> BucketSpec list \<Rightarrow> ('r, 'm, 'x, unit) sess_proc" where
  "check_limits th now [] = ret ()"
| "check_limits th now (spec # specs) = bindp (token_checkRateLimit th now spec) (\<lambda>_. check_limits th now specs)"

text \<open>The limits of this group are fixed: the configurations are nil.\<close>

definition client_credentials_specs :: "string \<Rightarrow> BucketSpec list" where
  "client_credentials_specs clientID = (let unlimited = \<lparr>rl_Enabled = None, rl_Period = 0, rl_Burst = 0\<rparr> in
     case ResolveBucketSpecs RateLimitGroupOAuthTokenClientCredentials (\<lambda>_. unlimited) (\<lambda>_. None) (\<lambda>_. \<lparr>env_Enabled = False, env_Period = 0, env_Burst = 0\<rparr>)
       \<lparr>opt_IPAddress = '''', opt_UserID = '''', opt_Purpose = '''', opt_Channel = ChannelOther '''', opt_Target = '''', opt_ClientID = clientID\<rparr> of
     Ok specs \<Rightarrow> specs | _ \<Rightarrow> [])"

text \<open>The resource the request names, when the client may have a token for it.\<close>

definition target_resource :: "('r, 'm, 'x) handler_deps \<Rightarrow> string \<Rightarrow> OAuthClientConfig \<Rightarrow> token_request \<Rightarrow> ('r, 'm, 'x, 'y, Resource) cc_proc" where
  "target_resource th app client r =
     (if TokenHandler.Resource r = '''' then cc_protocol ''invalid_target'' ''resource is required''
      else if take (length (h_Iss th)) (TokenHandler.Resource r) = h_Iss th
      then cc_protocol ''invalid_target'' ''resource URI must not be a prefixed by authgear endpoint''
      else bindp (attempt (on_resources (GetClientResourceByURI app (cl_ClientID client) (TokenHandler.Resource r)))) (\<lambda>res. case res of
         Inl (CCResource ErrResourceNotFound) \<Rightarrow> cc_protocol ''invalid_target'' ''resource not found''
       | Inl (CCResource ErrResourceNotAssociatedWithClient) \<Rightarrow> cc_protocol ''invalid_target'' ''client is not associated with the resource''
       | Inl e \<Rightarrow> failp e
       | Inr resource \<Rightarrow> ret resource))"

text \<open>The scopes of the token: those asked for, or all the client has.\<close>

definition token_scopes :: "token_request \<Rightarrow> string list \<Rightarrow> ('s, cc_error, string list) proc" where
  "token_scopes r allowed = (if Req_Scope r \<noteq> []
     then (case ValidateScopes (Req_Scope r) allowed of Some e \<Rightarrow> failp (CCSession e) | None \<Rightarrow> ret (Req_Scope r))
     else ret allowed)"

definition handleClientCredentials :: "('r, 'm, 'x) handler_deps \<Rightarrow> ('d, 'x', 'i) issuer_env \<Rightarrow> resource_db request_env \<Rightarrow> (resource_db, 'y) sink list \<Rightarrow>
    string \<Rightarrow> time \<Rightarrow> string \<Rightarrow> OAuthClientConfig \<Rightarrow> token_request \<Rightarrow> ('r, 'm, 'x, 'y, string \<Rightarrow> string option) cc_proc" where
  "handleClientCredentials th ie re sinks app now token client r =
     bindp (on_sess (check_limits th now (client_credentials_specs (cl_ClientID client)))) (\<lambda>_.
     case validateClientSecret (h_Credentials th) client (ClientSecret r) of
       Inl e \<Rightarrow> failp (CCSession e)
     | Inr maskedSecret \<Rightarrow>
       bindp (target_resource th app client r) (\<lambda>resource.
       bindp (on_resources (GetClientResourceScopes app (cl_ClientID client) (rsc_ID resource))) (\<lambda>allowedScopes.
       bindp (token_scopes r (map sc_Scope allowedScopes)) (\<lambda>scopes.
       IssueClientCredentialsAccessToken ie re sinks now token (rsc_URI resource) scopes client maskedSecret))))"

section \<open>What a client gets\<close>

lemma on_sess_Ok: "on_sess p s = (Ok x, s') \<Longrightarrow> \<exists>w. p (cc_Sess s) = (Ok x, w) \<and> s' = s\<lparr>cc_Sess := w\<rparr>"
  by (cases "fst (p (cc_Sess s))") (auto simp: on_sess_def split: prod.splits)

lemma on_resources_Ok: "on_resources p s = (Ok x, s') \<Longrightarrow> \<exists>db. p (tx_db (cc_Request s)) = (Ok x, db) \<and> s' = s\<lparr>cc_Request := (cc_Request s)\<lparr>tx_db := db\<rparr>\<rparr>"
  by (cases "fst (p (tx_db (cc_Request s)))") (auto simp: on_resources_def split: prod.splits)

lemma GetClientResourceByURI_Ok:
  assumes "GetClientResourceByURI app c uri db = (Ok r, db')"
  shows "db' = db \<and> r \<in> set (t_Resources db) \<and> rsc_App r = app \<and> rsc_URI r = uri \<and>
    (\<exists>a \<in> set (t_ClientResources db). cr_App a = app \<and> cr_ClientID a = c \<and> cr_ResourceID a = rsc_ID r)"
proof -
  from assms obtain r0 d0 r1 d1 where g: "RS_GetResourceByURI app uri db = (Ok r0, d0)" and a: "RS_GetClientResource app c (rsc_ID r0) d0 = (Ok r1, d1)"
    and "(Ok r, db') = (ret r0 :: Resource resource_proc) d1"
    by (auto simp: GetClientResourceByURI_def bindp_Ok)
  then have r: "r0 = r" "d1 = db'" by (simp_all add: run_simps)
  from g have d0: "d0 = db" and in_r: "r0 \<in> set (t_Resources db)" "rsc_App r0 = app" "rsc_URI r0 = uri"
    by (auto simp: RS_GetResourceByURI_def first_or_def run_simps app_resources_def dest!: filter_first split: list.splits)
  from a d0 have "d1 = db" and "r1 \<in> set (join_client app c db (filter (\<lambda>r. rsc_ID r = rsc_ID r0) (app_resources app db)))"
    by (auto simp: RS_GetClientResource_def first_or_def run_simps split: list.splits)
  with in_r r show ?thesis by (fastforce simp: join_client_def)
qed

lemma Issue_Ok:
  assumes "IssueClientCredentialsAccessToken ie re sinks now token uri scopes client secret s = (Ok resp, s')"
  shows "\<exists>out. EncodeClientAccessToken ie \<lparr>ec_OriginalToken = token, ec_ClientConfig = client, ec_ResourceURI = uri, ec_Scope = join_space scopes,
        ec_CreatedAt = now, ec_ExpireAt = now + Seconds (cl_AccessTokenLifetime client)\<rparr> = Inr out \<and>
     resp ''access_token'' = Some out \<and> resp ''scope'' = Some (join_space scopes)"
  using assms by (auto simp: IssueClientCredentialsAccessToken_def Let_def bindp_Ok run_simps split: sum.splits)

lemma target_resource_Ok:
  assumes "target_resource th app client r s = (Ok resource, s')"
  shows "tx_db (cc_Request s') = tx_db (cc_Request s) \<and> resource \<in> set (t_Resources (tx_db (cc_Request s))) \<and> rsc_App resource = app \<and>
    rsc_URI resource = TokenHandler.Resource r \<and> take (length (h_Iss th)) (rsc_URI resource) \<noteq> h_Iss th \<and>
    (\<exists>a \<in> set (t_ClientResources (tx_db (cc_Request s))). cr_App a = app \<and> cr_ClientID a = cl_ClientID client \<and> cr_ResourceID a = rsc_ID resource)"
proof -
  let ?get = "on_resources (GetClientResourceByURI app (cl_ClientID client) (TokenHandler.Resource r))"
  from assms have own: "take (length (h_Iss th)) (TokenHandler.Resource r) \<noteq> h_Iss th"
    by (auto simp: target_resource_def cc_protocol_def run_simps split: if_splits)
  obtain res s1 where g: "?get s = (res, s1)" by force
  have "res = Ok resource \<and> s1 = s'"
    using assms own g
    by (cases res) (auto simp: target_resource_def cc_protocol_def run_simps attempt_def bindp_def
        split: if_splits cc_error.splits resource_error.splits)
  with g have "?get s = (Ok resource, s')" by simp
  from on_resources_Ok [OF this] GetClientResourceByURI_Ok own show ?thesis by fastforce
qed

lemma Encode_Inr:
  assumes "EncodeClientAccessToken ie opts = Inr out" "cl_IssueJWTAccessToken (ec_ClientConfig opts)"
  shows "\<exists>cl. ie_Sign ie ''at+jwt'' cl = Some out \<and> map_of cl ''aud'' = Some (JArray [JString (ec_ResourceURI opts)]) \<and>
      map_of cl ''sub'' = Some (JString (''client_id_'' @ cl_ClientID (ec_ClientConfig opts))) \<and> map_of cl ''scope'' = Some (JString (ec_Scope opts)) \<and>
      map_of cl ''exp'' = Some (Unix (ec_ExpireAt opts))"
proof -
  define cl where "cl = set_claims [(''jti'', JString (ie_Hash ie (ec_OriginalToken opts))), (''iss'', JString (ie_Origin ie)),
         audience (ec_ResourceURI opts), (''iat'', Unix (ec_CreatedAt opts)), (''exp'', Unix (ec_ExpireAt opts)),
         (''client_id'', JString (cl_ClientID (ec_ClientConfig opts))), (''scope'', JString (ec_Scope opts)),
         (''sub'', JString (''client_id_'' @ cl_ClientID (ec_ClientConfig opts)))] []"
  have "ie_Sign ie ''at+jwt'' cl = Some out"
    using assms by (simp add: EncodeClientAccessToken_def Let_def cl_def split: option.splits)
  moreover have "map_of cl ''aud'' = Some (JArray [JString (ec_ResourceURI opts)])" "map_of cl ''scope'' = Some (JString (ec_Scope opts))"
    "map_of cl ''sub'' = Some (JString (''client_id_'' @ cl_ClientID (ec_ClientConfig opts)))" "map_of cl ''exp'' = Some (Unix (ec_ExpireAt opts))"
    by (simp_all add: cl_def map_of_set_claims audience_def)
  ultimately show ?thesis by blast
qed

text \<open>C9: a machine gets no more than it was given. A token of the client credentials grant is issued only to a client that shows
  one of its secrets, for a resource of the app that the client was given and that is not the server itself; its
  scopes are scopes of that resource that the client has; a JWT is made out for that resource and that client, and for the
  lifetime of the client's access tokens.\<close>

theorem client_credentials_confined:
  assumes "handleClientCredentials th ie re sinks app now token client r s = (Ok resp, s')"
  shows "\<exists>item resource scopes out. Lookup (h_Credentials th) (cl_ClientID client) = Some item \<and> ClientSecret r \<in> set (cred_Keys item) \<and>
    resource \<in> set (t_Resources (tx_db (cc_Request s))) \<and> rsc_App resource = app \<and> rsc_URI resource = TokenHandler.Resource r \<and>
    (\<exists>a \<in> set (t_ClientResources (tx_db (cc_Request s))). cr_App a = app \<and> cr_ClientID a = cl_ClientID client \<and> cr_ResourceID a = rsc_ID resource) \<and>
    take (length (h_Iss th)) (rsc_URI resource) \<noteq> h_Iss th \<and>
    set scopes \<subseteq> granted app (cl_ClientID client) (rsc_ID resource) (tx_db (cc_Request s)) \<and>
    (Req_Scope r \<noteq> [] \<longrightarrow> scopes = Req_Scope r) \<and>
    resp ''scope'' = Some (join_space scopes) \<and> resp ''access_token'' = Some out \<and>
    (cl_IssueJWTAccessToken client \<longrightarrow> (\<exists>cl. ie_Sign ie ''at+jwt'' cl = Some out \<and> map_of cl ''aud'' = Some (JArray [JString (rsc_URI resource)]) \<and>
      map_of cl ''sub'' = Some (JString (''client_id_'' @ cl_ClientID client)) \<and> map_of cl ''scope'' = Some (JString (join_space scopes)) \<and>
      map_of cl ''exp'' = Some (Unix (now + Seconds (cl_AccessTokenLifetime client)))))"
proof -
  from assms obtain u s1 where lim: "on_sess (check_limits th now (client_credentials_specs (cl_ClientID client))) s = (Ok u, s1)"
    and rest: "(case validateClientSecret (h_Credentials th) client (ClientSecret r) of
       Inl e \<Rightarrow> failp (CCSession e)
     | Inr maskedSecret \<Rightarrow>
       bindp (target_resource th app client r) (\<lambda>resource.
       bindp (on_resources (GetClientResourceScopes app (cl_ClientID client) (rsc_ID resource))) (\<lambda>allowedScopes.
       bindp (token_scopes r (map sc_Scope allowedScopes)) (\<lambda>scopes.
       IssueClientCredentialsAccessToken ie re sinks now token (rsc_URI resource) scopes client maskedSecret)))) s1 = (Ok resp, s')"
    unfolding handleClientCredentials_def bindp_Ok by blast
  let ?db = "tx_db (cc_Request s)"
  from on_sess_Ok [OF lim] have db1: "tx_db (cc_Request s1) = ?db" by auto
  from rest obtain masked where secret: "validateClientSecret (h_Credentials th) client (ClientSecret r) = Inr masked"
    by (auto simp: run_simps split: sum.splits)
  from rest secret obtain resource s2 allowedScopes s3 scopes s4 where target: "target_resource th app client r s1 = (Ok resource, s2)"
    and all: "on_resources (GetClientResourceScopes app (cl_ClientID client) (rsc_ID resource)) s2 = (Ok allowedScopes, s3)"
    and chosen: "token_scopes r (map sc_Scope allowedScopes) s3 = (Ok scopes, s4)"
    and issue: "IssueClientCredentialsAccessToken ie re sinks now token (rsc_URI resource) scopes client masked s4 = (Ok resp, s')"
    by (auto simp: bindp_Ok)
  from target_resource_Ok [OF target] db1 have resource: "resource \<in> set (t_Resources ?db)" "rsc_App resource = app"
    "rsc_URI resource = TokenHandler.Resource r" "\<exists>a \<in> set (t_ClientResources ?db). cr_App a = app \<and> cr_ClientID a = cl_ClientID client \<and> cr_ResourceID a = rsc_ID resource"
    "take (length (h_Iss th)) (rsc_URI resource) \<noteq> h_Iss th"
    and db2: "tx_db (cc_Request s2) = ?db" by auto
  from on_resources_Ok [OF all] db2 have allowed: "sc_Scope ` set allowedScopes = granted app (cl_ClientID client) (rsc_ID resource) ?db"
    by (auto simp: GetClientResourceScopes_def RS_ListClientScopesByResourceID_def run_simps granted_def)
  from chosen have scopes: "set scopes \<subseteq> granted app (cl_ClientID client) (rsc_ID resource) ?db" "Req_Scope r \<noteq> [] \<longrightarrow> scopes = Req_Scope r"
    using allowed ValidateScopes_None [of "Req_Scope r" "map sc_Scope allowedScopes"]
    by (auto simp: token_scopes_def run_simps split: if_splits option.splits)
  from Issue_Ok [OF issue] obtain out where enc: "EncodeClientAccessToken ie \<lparr>ec_OriginalToken = token, ec_ClientConfig = client, ec_ResourceURI = rsc_URI resource, ec_Scope = join_space scopes,
        ec_CreatedAt = now, ec_ExpireAt = now + Seconds (cl_AccessTokenLifetime client)\<rparr> = Inr out"
    and resp: "resp ''access_token'' = Some out" "resp ''scope'' = Some (join_space scopes)" by blast
  have jwt: "\<exists>cl. ie_Sign ie ''at+jwt'' cl = Some out \<and> map_of cl ''aud'' = Some (JArray [JString (rsc_URI resource)]) \<and>
      map_of cl ''sub'' = Some (JString (''client_id_'' @ cl_ClientID client)) \<and> map_of cl ''scope'' = Some (JString (join_space scopes)) \<and>
      map_of cl ''exp'' = Some (Unix (now + Seconds (cl_AccessTokenLifetime client)))" if "cl_IssueJWTAccessToken client"
    using Encode_Inr [OF enc] that by simp
  from secret obtain item where "Lookup (h_Credentials th) (cl_ClientID client) = Some item" "ClientSecret r \<in> set (cred_Keys item)"
    using validateClientSecret_iff by blast
  with resource scopes resp jwt show ?thesis by blast
qed

text \<open>A client that holds a secret and has the scope to administer one resource.\<close>

definition example_machine :: OAuthClientConfig where
  "example_machine = (demo_client ''c9'' ApplicationTypeConfidential)\<lparr>cl_AccessTokenLifetime := 60\<rparr>"

definition example_token_request :: token_request where
  "example_token_request k = (case map_of [(''grant_type'', ''client_credentials''), (''client_secret'', ''secret9''), (''resource'', ''https://r''),
     (''scope'', ''admin'')] k of None \<Rightarrow> '''' | Some v \<Rightarrow> v)"

definition example_cc_state :: "(oauth_value sstore, unit, demo_side, unit) cc_state" where
  "example_cc_state = \<lparr>cc_Sess = demo_start, cc_Request = \<lparr>tx_db = example_resources, tx_hooks = [], tx_world =
     \<lparr>ew_Service = new_service, ew_Seq = 0, ew_Mono = 0, ew_Net = (), ew_Async = []\<rparr>\<rparr>\<rparr>"

theorem client_credentials_confined_witness:
  "\<exists>resp s'. handleClientCredentials demo_handler example_issuer example_request [] ''a'' 0 ''tok'' example_machine example_token_request example_cc_state = (Ok resp, s') \<and>
    resp ''scope'' = Some ''admin'' \<and> {''admin''} \<subseteq> granted ''a'' ''c9'' ''r1'' example_resources"
proof -
  let ?h = "handleClientCredentials demo_handler example_issuer example_request [] ''a'' 0 ''tok'' example_machine example_token_request example_cc_state"
  have "is_ok (fst ?h)" by code_simp
  then obtain resp s' where h: "?h = (Ok resp, s')" by (metis is_okD prod.collapse)
  have db: "tx_db (cc_Request example_cc_state) = example_resources" by (simp add: example_cc_state_def)
  have scope: "Req_Scope example_token_request = [''admin'']" by code_simp
  have c: "cl_ClientID example_machine = ''c9''" by (simp add: example_machine_def demo_client_def)
  from client_credentials_confined [OF h] scope obtain resource where r: "resource \<in> set (t_Resources example_resources)" "rsc_App resource = ''a''"
    "set [''admin''] \<subseteq> granted ''a'' ''c9'' (rsc_ID resource) example_resources" "resp ''scope'' = Some (join_space [''admin''])"
    unfolding db c by auto
  then have "rsc_ID resource = ''r1''" by (auto simp: example_resources_def Let_def)
  with h r show ?thesis by auto
qed

end
