(* ===== verification/Challenge.thy ===== *)
theory Challenge imports Proc begin

text \<open>
  One-time challenges: \<^verbatim>\<open>pkg/lib/authn/challenge\<close>. A client that is going to sign a request asks for a
  challenge first; whoever accepts the request consumes it. The random token is an argument.
\<close>

datatype Purpose = PurposeAnonymousRequest | PurposeBiometricRequest | PurposeApp2AppRequest | PurposeOther string

fun Purpose_string :: "Purpose \<Rightarrow> string" where
  "Purpose_string PurposeAnonymousRequest = ''anonymous_request''"
| "Purpose_string PurposeBiometricRequest = ''biometric_request''"
| "Purpose_string PurposeApp2AppRequest = ''app2app_request''"
| "Purpose_string (PurposeOther s) = s"

fun Purpose_IsValid :: "Purpose \<Rightarrow> bool" where
  "Purpose_IsValid (PurposeOther _) = False"
| "Purpose_IsValid _ = True"

text \<open>\<^verbatim>\<open>duration.Short\<close> is five minutes.\<close>

definition five_minutes :: duration where "five_minutes = 300000000000"

fun ValidityPeriod :: "Purpose \<Rightarrow> ('e, duration) outcome" where
  "ValidityPeriod (PurposeOther _) = Panic"
| "ValidityPeriod _ = Ok five_minutes"

record Challenge =
  ch_Token :: string
  ch_Purpose :: Purpose
  ch_CreatedAt :: time
  ch_ExpireAt :: time

datatype challenge_error = ErrInvalidChallenge | ChallengeRedisError string

section \<open>Redis\<close>

record 'r challenge_redis =
  kr_SETNX :: "time \<Rightarrow> string \<Rightarrow> Challenge \<Rightarrow> duration \<Rightarrow> 'r \<Rightarrow> (string + bool) \<times> 'r"
  kr_GET :: "time \<Rightarrow> string \<Rightarrow> 'r \<Rightarrow> (string + Challenge option) \<times> 'r"
  kr_DEL :: "time \<Rightarrow> string \<Rightarrow> 'r \<Rightarrow> (string + unit) \<times> 'r"

text \<open>What the commands promise. One that fails may or may not have had its effect.\<close>

locale challenge_keys =
  fixes rd :: "'r challenge_redis" and view :: "time \<Rightarrow> 'r \<Rightarrow> string \<Rightarrow> Challenge option"
  assumes SETNX: "kr_SETNX rd now k v d r = (sres, r') \<Longrightarrow> now \<le> t \<Longrightarrow>
      view t r' k' = view t r k' \<or> k' = k \<and> view now r k = None \<and> (if t < now + d then view t r' k' = Some v else view t r' k' = None)"
    and GET: "kr_GET rd now k r = (gres, r') \<Longrightarrow> r' = r \<and> (\<forall>v. gres = Inr v \<longrightarrow> view now r k = v)"
    and DEL: "kr_DEL rd now k r = (dres, r') \<Longrightarrow> now \<le> t \<Longrightarrow>
      view t r' k' = view t r k' \<and> (k' = k \<longrightarrow> dres \<noteq> Inr ()) \<or> k' = k \<and> view t r' k' = None"
    and view_later: "now \<le> t \<Longrightarrow> view t r k = None \<or> view t r k = view now r k"

text \<open>A map with expiry times does.\<close>

type_synonym challenge_map = "string \<Rightarrow> (Challenge \<times> time) option"

definition cm_view :: "time \<Rightarrow> challenge_map \<Rightarrow> string \<Rightarrow> Challenge option" where
  "cm_view t r k = (case r k of Some (v, e) \<Rightarrow> if t < e then Some v else None | None \<Rightarrow> None)"

definition cm_redis :: "challenge_map challenge_redis" where
  "cm_redis = \<lparr>kr_SETNX = \<lambda>now k v d r. case cm_view now r k of
       Some _ \<Rightarrow> (Inr False, r) | None \<Rightarrow> (Inr True, r(k := Some (v, now + d))),
     kr_GET = \<lambda>now k r. (Inr (cm_view now r k), r),
     kr_DEL = \<lambda>now k r. (Inr (), r(k := None))\<rparr>"

interpretation cm: challenge_keys cm_redis cm_view
  by unfold_locales (auto simp: cm_redis_def cm_view_def split: option.splits if_splits)

section \<open>The store and the provider\<close>

definition challengeKey :: "string \<Rightarrow> string \<Rightarrow> string" where
  "challengeKey appID token = ''app:'' @ appID @ '':challenge:'' @ token"

type_synonym ('r, 'a) challenge_proc = "('r, challenge_error, 'a) proc"

text \<open>A challenge that is there already is left alone, without an error.\<close>

definition Challenge_Save :: "'r challenge_redis \<Rightarrow> time \<Rightarrow> string \<Rightarrow> Challenge \<Rightarrow> duration \<Rightarrow> ('r, unit) challenge_proc" where
  "Challenge_Save rd now appID c ttl = (\<lambda>r. case kr_SETNX rd now (challengeKey appID (ch_Token c)) c ttl r of
     (Inl e, r) \<Rightarrow> (Err (ChallengeRedisError e), r) | (Inr _, r) \<Rightarrow> (Ok (), r))"

definition Challenge_Get :: "'r challenge_redis \<Rightarrow> time \<Rightarrow> string \<Rightarrow> string \<Rightarrow> bool \<Rightarrow> ('r, Challenge) challenge_proc" where
  "Challenge_Get rd now appID token consume = (\<lambda>r. case kr_GET rd now (challengeKey appID token) r of
     (Inl e, r) \<Rightarrow> (Err (ChallengeRedisError e), r)
   | (Inr None, r) \<Rightarrow> (Err ErrInvalidChallenge, r)
   | (Inr (Some c), r) \<Rightarrow> if \<not> consume then (Ok c, r) else (case kr_DEL rd now (challengeKey appID token) r of
       (Inl e, r) \<Rightarrow> (Err (ChallengeRedisError e), r) | (Inr _, r) \<Rightarrow> (Ok c, r)))"

definition Challenge_Create :: "'r challenge_redis \<Rightarrow> time \<Rightarrow> string \<Rightarrow> string \<Rightarrow> Purpose \<Rightarrow> ('r, Challenge) challenge_proc" where
  "Challenge_Create rd now appID token purpose = bindp (\<lambda>r. (ValidityPeriod purpose, r)) (\<lambda>ttl. let
     c = \<lparr>ch_Token = token, ch_Purpose = purpose, ch_CreatedAt = now, ch_ExpireAt = now + ttl\<rparr>
   in bindp (Challenge_Save rd now appID c ttl) (\<lambda>_. ret c))"

definition Challenge_Consume :: "'r challenge_redis \<Rightarrow> time \<Rightarrow> string \<Rightarrow> string \<Rightarrow> ('r, Purpose) challenge_proc" where
  "Challenge_Consume rd now appID token = bindp (Challenge_Get rd now appID token True) (\<lambda>c. ret (ch_Purpose c))"

section \<open>A challenge is used at most once\<close>

text \<open>
  What a server does with the challenges of an app as time goes by: it creates them with tokens it has
  not used before, looks at them and consumes them. The log keeps what was created.
\<close>

type_synonym challenge_log = "(string \<times> Purpose \<times> time) list"

inductive challenge_step :: "'r challenge_redis \<Rightarrow> string \<Rightarrow> challenge_log \<times> time \<times> 'r \<Rightarrow> challenge_log \<times> time \<times> 'r \<Rightarrow> bool" for rd app where
  create: "t \<le> now \<Longrightarrow> token \<notin> fst ` set log \<Longrightarrow> Challenge_Create rd now app token purpose r = (cres, r') \<Longrightarrow>
    challenge_step rd app (log, t, r) ((token, purpose, now) # log, now, r')"
| look: "t \<le> now \<Longrightarrow> Challenge_Get rd now app token consume r = (gres, r') \<Longrightarrow> challenge_step rd app (log, t, r) (log, now, r')"

definition logged :: "(time \<Rightarrow> 'r \<Rightarrow> string \<Rightarrow> Challenge option) \<Rightarrow> string \<Rightarrow> challenge_log \<times> time \<times> 'r \<Rightarrow> bool" where
  "logged view app = (\<lambda>(log, t, r). \<forall>now \<ge> t. \<forall>token c. view now r (challengeKey app token) = Some c \<longrightarrow>
     (token, ch_Purpose c, ch_CreatedAt c) \<in> set log \<and> ch_CreatedAt c \<le> t \<and> now < ch_CreatedAt c + five_minutes)"

definition spent :: "(time \<Rightarrow> 'r \<Rightarrow> string \<Rightarrow> Challenge option) \<Rightarrow> string \<Rightarrow> string \<Rightarrow> challenge_log \<times> time \<times> 'r \<Rightarrow> bool" where
  "spent view app token = (\<lambda>(log, t, r). token \<in> fst ` set log \<and> view t r (challengeKey app token) = None)"

lemma challengeKey_inj [simp]: "challengeKey app t = challengeKey app u \<longleftrightarrow> t = u"
  by (simp add: challengeKey_def)

context challenge_keys begin

lemma Save_view:
  assumes "Challenge_Save rd now app c ttl r = (res, r')" "now \<le> t"
  shows "view t r' k = view t r k \<or> k = challengeKey app (ch_Token c) \<and> view t r' k = (if t < now + ttl then Some c else None)"
  using assms SETNX [of now "challengeKey app (ch_Token c)" c ttl r _ _ t k]
  by (auto simp: Challenge_Save_def split: prod.splits sum.splits if_splits)

lemma Create_view:
  assumes "Challenge_Create rd now app token p r = (res, r')" "now \<le> t"
  shows "view t r' k = view t r k \<or> k = challengeKey app token \<and> (view t r' k = None \<or> t < now + five_minutes \<and>
    view t r' k = Some \<lparr>ch_Token = token, ch_Purpose = p, ch_CreatedAt = now, ch_ExpireAt = now + five_minutes\<rparr>)"
proof -
  define c where "c = \<lparr>ch_Token = token, ch_Purpose = p, ch_CreatedAt = now, ch_ExpireAt = now + five_minutes\<rparr>"
  obtain sres r1 where sv: "Challenge_Save rd now app c five_minutes r = (sres, r1)" by force
  have "r' = r \<or> r' = r1"
    using assms(1) sv unfolding Challenge_Create_def bindp_def c_def
    by (cases p) (auto simp: Let_def run_simps split: outcome.splits)
  with Save_view [OF sv assms(2), of k] show ?thesis by (auto simp: c_def split: if_splits)
qed

lemma Get_view:
  assumes "Challenge_Get rd now app token consume r = (res, r')" "now \<le> t"
  shows "view t r' k = view t r k \<and> (k = challengeKey app token \<longrightarrow> \<not> (consume \<and> is_ok res)) \<or> view t r' k = None"
proof -
  obtain g r1 where g: "kr_GET rd now (challengeKey app token) r = (g, r1)" by force
  obtain d r2 where d: "kr_DEL rd now (challengeKey app token) r = (d, r2)" by force
  show ?thesis using assms(1) GET [OF g] DEL [OF d assms(2), of k] g d
    by (auto simp: Challenge_Get_def split: sum.splits option.splits if_splits)
qed

lemma loggedD:
  assumes "logged view app (log, t, r)" "t \<le> now" "view now r (challengeKey app k) = Some c"
  shows "(k, ch_Purpose c, ch_CreatedAt c) \<in> set log \<and> ch_CreatedAt c \<le> t \<and> now < ch_CreatedAt c + five_minutes"
  using assms unfolding logged_def by blast

lemma Get_found:
  assumes "Challenge_Get rd now app token consume r = (Ok c, r')"
  shows "view now r (challengeKey app token) = Some c"
proof -
  obtain g r1 where g: "kr_GET rd now (challengeKey app token) r = (g, r1)" by force
  show ?thesis using assms GET [OF g] g
    by (auto simp: Challenge_Get_def split: sum.splits option.splits if_splits prod.splits)
qed

lemma logged_step: "challenge_step rd app s s' \<Longrightarrow> logged view app s \<Longrightarrow> logged view app s'"
proof (induction rule: challenge_step.induct)
  case (create t now token log purpose r cres r')
  show ?case unfolding logged_def
  proof clarify
    fix t' k c assume later: "now \<le> t'" and c: "view t' r' (challengeKey app k) = Some c"
    from Create_view [OF create(3) later, of "challengeKey app k"] c
    consider "view t' r (challengeKey app k) = Some c"
      | "k = token" "c = \<lparr>ch_Token = token, ch_Purpose = purpose, ch_CreatedAt = now, ch_ExpireAt = now + five_minutes\<rparr>" "t' < now + five_minutes"
      by auto
    then show "(k, ch_Purpose c, ch_CreatedAt c) \<in> set ((token, purpose, now) # log) \<and> ch_CreatedAt c \<le> now \<and> t' < ch_CreatedAt c + five_minutes"
    proof cases
      case 1
      from loggedD [OF create(4) _ 1] create(1) later show ?thesis by simp
    qed simp
  qed
next
  case (look t now token consume r gres r' log)
  show ?case unfolding logged_def
  proof clarify
    fix t' k c assume later: "now \<le> t'" and c: "view t' r' (challengeKey app k) = Some c"
    with Get_view [OF look(2) later, of "challengeKey app k"] have "view t' r (challengeKey app k) = Some c" by auto
    from loggedD [OF look(3) _ this] look(1) later
    show "(k, ch_Purpose c, ch_CreatedAt c) \<in> set log \<and> ch_CreatedAt c \<le> now \<and> t' < ch_CreatedAt c + five_minutes" by simp
  qed
qed

lemma spent_step: "challenge_step rd app s s' \<Longrightarrow> spent view app token s \<Longrightarrow> spent view app token s'"
proof (induction rule: challenge_step.induct)
  case (create t now k log purpose r cres r')
  from create(4) have s: "token \<in> fst ` set log" "view t r (challengeKey app token) = None" by (simp_all add: spent_def)
  with create(2) have "token \<noteq> k" by auto
  with Create_view [OF create(3) order.refl, of "challengeKey app token"] view_later [OF create(1), of r "challengeKey app token"] s
  show ?case by (auto simp: spent_def)
next
  case (look t now k consume r gres r' log)
  then show ?case using Get_view [OF look(2) order.refl, of "challengeKey app token"] view_later [OF look(1), of r "challengeKey app token"]
    by (auto simp: spent_def)
qed

lemma logged_steps: "(challenge_step rd app)\<^sup>*\<^sup>* s s' \<Longrightarrow> logged view app s \<Longrightarrow> logged view app s'"
  by (induction rule: rtranclp_induct) (auto intro: logged_step)

lemma spent_steps: "(challenge_step rd app)\<^sup>*\<^sup>* s s' \<Longrightarrow> spent view app token s \<Longrightarrow> spent view app token s'"
  by (induction rule: rtranclp_induct) (auto intro: spent_step)

lemma step_time: "challenge_step rd app s s' \<Longrightarrow> fst (snd s) \<le> fst (snd s')"
  by (induction rule: challenge_step.induct) simp_all

lemma Consume_Ok: "Challenge_Consume rd now app token r = (Ok p, r') \<longleftrightarrow>
    (\<exists>c. Challenge_Get rd now app token True r = (Ok c, r') \<and> p = ch_Purpose c)"
  by (auto simp: Challenge_Consume_def bindp_Ok run_simps)

lemma consumed:
  assumes "logged view app (log, t, r)" "t \<le> now" "Challenge_Consume rd now app token r = (Ok p, r1)"
  shows "\<exists>created. (token, p, created) \<in> set log \<and> created \<le> now \<and> now < created + five_minutes"
    and "spent view app token (log, now, r1)"
proof -
  from assms(3) obtain c where c: "Challenge_Get rd now app token True r = (Ok c, r1)" "p = ch_Purpose c"
    unfolding Consume_Ok by blast
  from loggedD [OF assms(1,2) Get_found [OF c(1)]] c(2) assms(2)
  show made: "\<exists>created. (token, p, created) \<in> set log \<and> created \<le> now \<and> now < created + five_minutes" by auto
  from Get_view [OF c(1) order.refl, of "challengeKey app token"] have "view now r1 (challengeKey app token) = None"
    by (simp add: is_ok_conv)
  with made show "spent view app token (log, now, r1)" by (force simp: spent_def)
qed

lemma spent_refused:
  assumes "spent view app token (log, t, r)" "t \<le> now"
  shows "\<not> is_ok (fst (Challenge_Consume rd now app token r))"
proof
  assume "is_ok (fst (Challenge_Consume rd now app token r))"
  then obtain p r1 where "Challenge_Consume rd now app token r = (Ok p, r1)" by (metis is_ok_conv prod.collapse)
  then obtain c where "view now r (challengeKey app token) = Some c" by (auto simp: Consume_Ok dest: Get_found)
  with view_later [OF assms(2), of r "challengeKey app token"] assms(1) show False by (simp add: spent_def)
qed

end

text \<open>C25: a challenge is good once, for what it was made for, for five minutes. Starting without challenges, when a
  challenge is consumed the server made it for that purpose less than five minutes ago; and from then on, whatever
  challenges are made, looked at or consumed, it is refused.\<close>

theorem challenge_good_once:
  assumes "(challenge_step cm_redis app)\<^sup>*\<^sup>* ([], t0, \<lambda>_. None) (log, t, r)" "t \<le> now"
    and "Challenge_Consume cm_redis now app token r = (Ok p, r1)"
    and "(challenge_step cm_redis app)\<^sup>*\<^sup>* (log, now, r1) (log', t', r')" "t' \<le> later"
  shows "(\<exists>created. (token, p, created) \<in> set log \<and> created \<le> now \<and> now < created + 300000000000) \<and>
    \<not> is_ok (fst (Challenge_Consume cm_redis later app token r'))"
proof -
  have "logged cm_view app (log, t, r)" by (rule cm.logged_steps [OF assms(1)]) (simp add: logged_def cm_view_def)
  note c = cm.consumed [OF this assms(2,3)]
  with cm.spent_refused [OF cm.spent_steps [OF assms(4) c(2)] assms(5)] show ?thesis by (simp add: five_minutes_def)
qed

lemma challenge_good_once_witness:
  "(\<exists>created. (''T'', PurposeApp2AppRequest, created) \<in> set [(''T'', PurposeApp2AppRequest, 10 :: int)] \<and> created \<le> 20 \<and> 20 < created + 300000000000) \<and>
    \<not> is_ok (fst (Challenge_Consume cm_redis 30 ''app'' ''T'' (snd (Challenge_Consume cm_redis 20 ''app'' ''T''
      (snd (Challenge_Create cm_redis 10 ''app'' ''T'' PurposeApp2AppRequest (\<lambda>_. None)))))))"
proof (rule challenge_good_once)
  show "(challenge_step cm_redis ''app'')\<^sup>*\<^sup>* ([], 0, \<lambda>_. None) ([(''T'', PurposeApp2AppRequest, 10)], 10,
      snd (Challenge_Create cm_redis 10 ''app'' ''T'' PurposeApp2AppRequest (\<lambda>_. None)))"
    by (rule r_into_rtranclp, rule challenge_step.create) (simp_all add: prod_eq_iff)
  show "Challenge_Consume cm_redis 20 ''app'' ''T'' (snd (Challenge_Create cm_redis 10 ''app'' ''T'' PurposeApp2AppRequest (\<lambda>_. None)))
      = (Ok PurposeApp2AppRequest, snd (Challenge_Consume cm_redis 20 ''app'' ''T'' (snd (Challenge_Create cm_redis 10 ''app'' ''T'' PurposeApp2AppRequest (\<lambda>_. None)))))"
    by (simp add: Challenge_Consume_def Challenge_Create_def Challenge_Get_def Challenge_Save_def cm_redis_def cm_view_def bindp_def run_simps
        five_minutes_def Let_def)
qed (rule rtranclp.rtrancl_refl | simp)+

end
