(* ===== verification/TokenGrants.thy ===== *)
theory TokenGrants imports IDToken Challenge begin

text \<open>
  The grants of apps on a device: \<^verbatim>\<open>pkg/lib/oauth/handler/resolve.go\<close> (redirect URIs), \<^verbatim>\<open>pkg/lib/app2app\<close>,
  and of \<^verbatim>\<open>handler_token.go\<close> the app2app, anonymous and biometric grants. The interaction engine, that
  tells who holds an anonymous or biometric key, is an argument, as are URL and JWT parsing.
\<close>

section \<open>Redirect URIs\<close>

text \<open>\<^verbatim>\<open>url.URL\<close> as it is looked at: \<open>ru_String\<close> is \<^verbatim>\<open>String()\<close>.\<close>

record redirect_url =
  ru_Scheme :: string
  ru_Host :: string
  ru_String :: string

definition origin_of :: "string \<Rightarrow> string \<Rightarrow> string" where
  "origin_of scheme host = scheme @ ''://'' @ host"

record redirect_deps =
  rd_Parse :: "string \<Rightarrow> redirect_url option"
  rd_HTTPProto :: string
  rd_HTTPOrigin :: string
  rd_AppDomains :: "string list"

definition validateRedirectURI :: "redirect_deps \<Rightarrow> OAuthClientConfig \<Rightarrow> string list \<Rightarrow> string list \<Rightarrow> redirect_url \<Rightarrow> string option" where
  "validateRedirectURI rd client domainWhitelist originWhitelist u = (let
     redirectURIOrigin = origin_of (ru_Scheme u) (ru_Host u);
     allowed = list_ex (\<lambda>r. r = ru_String u) (cl_RedirectURIs client);
     allowed = (if redirectURIOrigin = rd_HTTPOrigin rd then True else allowed);
     custom = (if cl_CustomUIURI client = '''' then Inr allowed
       else case rd_Parse rd (cl_CustomUIURI client) of
         None \<Rightarrow> Inl ''invalid custom ui URI''
       | Some c \<Rightarrow> Inr (if origin_of (ru_Scheme c) (ru_Host c) = redirectURIOrigin then True else allowed))
   in case custom of Inl e \<Rightarrow> Some e
     | Inr allowed \<Rightarrow> let
         allowed = fold (\<lambda>domain allowed. if redirectURIOrigin = origin_of (rd_HTTPProto rd) domain then True else allowed) domainWhitelist allowed;
         allowed = fold (\<lambda>originStr allowed. case rd_Parse rd originStr of
             None \<Rightarrow> allowed
           | Some o' \<Rightarrow> if redirectURIOrigin = origin_of (ru_Scheme o') (ru_Host o') then True else allowed) originWhitelist allowed
       in if \<not> allowed then Some ''redirect URI is not allowed'' else None)"

definition parseRedirectURI :: "redirect_deps \<Rightarrow> OAuthClientConfig \<Rightarrow> string list \<Rightarrow> string list \<Rightarrow> string \<Rightarrow> sess_error + redirect_url" where
  "parseRedirectURI rd client domainWhitelist originWhitelist given = (let
     s = (if length (cl_RedirectURIs client) = 1 \<and> given = '''' then cl_RedirectURIs client ! 0 else given)
   in case rd_Parse rd s of
     None \<Rightarrow> Inl (ProtocolErr ''invalid_request'' ''invalid redirect URI'')
   | Some u \<Rightarrow> (case validateRedirectURI rd client domainWhitelist originWhitelist u of
       Some e \<Rightarrow> Inl (ProtocolErr ''invalid_request'' e) | None \<Rightarrow> Inr u))"

text \<open>The origins a client may be sent to besides its registered URIs.\<close>

definition allowed_origins :: "redirect_deps \<Rightarrow> OAuthClientConfig \<Rightarrow> string list \<Rightarrow> string list \<Rightarrow> string set" where
  "allowed_origins rd client domains origins = {rd_HTTPOrigin rd} \<union> origin_of (rd_HTTPProto rd) ` set domains \<union>
     {origin_of (ru_Scheme c) (ru_Host c) | c. cl_CustomUIURI client \<noteq> '''' \<and> rd_Parse rd (cl_CustomUIURI client) = Some c} \<union>
     {origin_of (ru_Scheme c) (ru_Host c) | c s. s \<in> set origins \<and> rd_Parse rd s = Some c}"

lemma fold_allowed: "fold (\<lambda>x allowed. if P x then True else allowed) xs b \<longleftrightarrow> b \<or> (\<exists>x \<in> set xs. P x)"
  by (induction xs arbitrary: b) auto

lemma fold_allowed_origins:
  "fold (\<lambda>s allowed. case f s of None \<Rightarrow> allowed | Some o' \<Rightarrow> if P o' then True else allowed) xs b
   \<longleftrightarrow> b \<or> (\<exists>s \<in> set xs. \<exists>o'. f s = Some o' \<and> P o')"
  by (induction xs arbitrary: b) (auto split: option.splits)

lemma validateRedirectURI_None:
  "validateRedirectURI rd client domains origins u = None \<longleftrightarrow>
     (cl_CustomUIURI client = '''' \<or> rd_Parse rd (cl_CustomUIURI client) \<noteq> None) \<and>
     (ru_String u \<in> set (cl_RedirectURIs client) \<or> origin_of (ru_Scheme u) (ru_Host u) \<in> allowed_origins rd client domains origins)"
  by (cases "rd_Parse rd (cl_CustomUIURI client)")
    (auto simp: validateRedirectURI_def Let_def fold_allowed fold_allowed_origins allowed_origins_def list_ex_iff image_iff)


section \<open>Requests signed by a device key\<close>

record jwk =
  jk_KeyID :: string
  jk_Algorithm :: string
  jk_Rest :: string

record jws_header =
  jh_JWK :: "string option"
  jh_Algorithm :: string
  jh_Type :: string

record App2AppRequest =
  a2_Key :: jwk
  a2_Challenge :: string

text \<open>
  The JWT library: splitting without verification, validating the times of the claims at a time, parsing a key set,
  verifying the signature with a key, decoding the payload. An algorithm a key does not name is \<^verbatim>\<open>""\<close>.
\<close>

record jwt_lib =
  jl_Split :: "string \<Rightarrow> (jws_header \<times> string) option"
  jl_Validate :: "time \<Rightarrow> string \<Rightarrow> bool"
  jl_ParseKeys :: "string \<Rightarrow> jwk list option"
  jl_Verify :: "string \<Rightarrow> jwk \<Rightarrow> string option"
  jl_Challenge :: "string \<Rightarrow> string option"

definition key_id_char :: "char \<Rightarrow> bool" where
  "key_id_char c = (let n = of_char c :: nat in c = CHR ''-'' \<or> c = CHR ''_'' \<or> 48 \<le> n \<and> n \<le> 57 \<or> 65 \<le> n \<and> n \<le> 90 \<or> 97 \<le> n \<and> n \<le> 122)"

definition KeyIDFormat :: "string \<Rightarrow> bool" where
  "KeyIDFormat s \<longleftrightarrow> 8 \<le> length s \<and> length s \<le> 64 \<and> list_all key_id_char s"

definition App2AppRequestTokenType :: string where "App2AppRequestTokenType = ''vnd.authgear.app2app-request''"

definition ParseTokenUnverified :: "jwt_lib \<Rightarrow> time \<Rightarrow> string \<Rightarrow> string + App2AppRequest" where
  "ParseTokenUnverified jl now requestJWT = (case jl_Split jl requestJWT of
     None \<Rightarrow> Inl ''invalid app2app JWT''
   | Some (hdr, payload) \<Rightarrow>
       if \<not> jl_Validate jl now payload then Inl ''invalid app2app JWT''
       else (case jh_JWK hdr of
         None \<Rightarrow> Inl ''no app2app key provided''
       | Some jwkBytes \<Rightarrow> (case jl_ParseKeys jl jwkBytes of
           None \<Rightarrow> Inl ''invalid app2app JWK''
         | Some [] \<Rightarrow> Inl ''empty app2app JWK set''
         | Some (key # _) \<Rightarrow> let key' = (if jk_Algorithm key = '''' then key\<lparr>jk_Algorithm := jh_Algorithm hdr\<rparr> else key)
             in if \<not> KeyIDFormat (jk_KeyID key) then Inl ''invalid app2app key ID format''
             else if jh_Type hdr \<noteq> App2AppRequestTokenType then Inl ''invalid app2app JWT type''
             else (case jl_Challenge jl payload of
               None \<Rightarrow> Inl ''invalid app2app JWT payload''
             | Some c \<Rightarrow> Inr \<lparr>a2_Key = key', a2_Challenge = c\<rparr>))))"

definition ParseToken :: "jwt_lib \<Rightarrow> string \<Rightarrow> jwk \<Rightarrow> string + App2AppRequest" where
  "ParseToken jl requestJWT key = (case jl_Verify jl requestJWT key of
     None \<Rightarrow> Inl ''invalid app2app JWT''
   | Some payload \<Rightarrow> (case jl_Challenge jl payload of
       None \<Rightarrow> Inl ''invalid app2app JWT payload''
     | Some c \<Rightarrow> Inr \<lparr>a2_Key = key, a2_Challenge = c\<rparr>))"

text \<open>
  What the token endpoint is given of both: requests are parsed by the provider, a key travels as its JSON, challenges
  are kept in a store of their own, \<open>get\<close> and \<open>put\<close> reach it.
\<close>

record ('x, 'c) challenge_place =
  cp_Redis :: "'c challenge_redis"
  cp_Get :: "'x \<Rightarrow> 'c"
  cp_Put :: "'c \<Rightarrow> 'x \<Rightarrow> 'x"

definition on_challenges :: "('x, 'c) challenge_place \<Rightarrow> ('c, 'a) challenge_proc \<Rightarrow> ('r, 'm, 'x, 'a) sess_proc" where
  "on_challenges cp p = (\<lambda>w. case p (cp_Get cp (w_side w)) of (res, c) \<Rightarrow>
     (case res of Ok x \<Rightarrow> Ok x | Err ErrInvalidChallenge \<Rightarrow> Err (InfraErr ''invalid challenge token'')
        | Err (ChallengeRedisError e) \<Rightarrow> Err (InfraErr e) | Panic \<Rightarrow> Panic,
      w\<lparr>w_side := cp_Put cp c (w_side w)\<rparr>))"

record key_codec =
  kc_Marshal :: "jwk \<Rightarrow> string"
  kc_ParseKey :: "string \<Rightarrow> jwk option"

definition with_app2app ::
    "jwt_lib \<Rightarrow> key_codec \<Rightarrow> ('x, 'c) challenge_place \<Rightarrow> string \<Rightarrow> ('r, 'm, 'x) handler_deps \<Rightarrow> ('r, 'm, 'x) handler_deps" where
  "with_app2app jl kc cp appID th = th\<lparr>
     h_App2App_ParseTokenUnverified := (\<lambda>now jwt. case ParseTokenUnverified jl now jwt of
       Inl _ \<Rightarrow> None | Inr t \<Rightarrow> Some (a2_Challenge t, kc_Marshal kc (a2_Key t))),
     h_App2App_ParseToken := (\<lambda>now jwt key. case kc_ParseKey kc key of None \<Rightarrow> False | Some k \<Rightarrow> (case ParseToken jl jwt k of Inl _ \<Rightarrow> False | Inr _ \<Rightarrow> True)),
     h_Challenges_Consume := (\<lambda>now token. on_challenges cp (bindp (Challenge_Consume (cp_Redis cp) now appID token) (\<lambda>p. ret (Purpose_string p))))\<rparr>"

section \<open>App to app\<close>

record ('r, 'm, 'x) grant_deps =
  gd_handler :: "('r, 'm, 'x) handler_deps"
  gd_redirect :: redirect_deps
  gd_codec :: key_codec
  gd_FeatureApp2AppEnabled :: bool
  gd_BiometricDisabled :: bool

abbreviation gd_deps :: "('r, 'm, 'x) grant_deps \<Rightarrow> ('r, 'm, 'x) oauth_deps" where
  "gd_deps gd \<equiv> h_deps (gd_handler gd)"

text \<open>The grant with a device key: the one it has, or the one of this request where the client that owns the grant allows that.\<close>

definition bound_grant ::
    "('r, 'm, 'x) oauth_env \<Rightarrow> time \<Rightarrow> OAuthClientConfig \<Rightarrow> OfflineGrant \<Rightarrow> string \<Rightarrow> ('r, 'm, 'x, OfflineGrant) sess_proc" where
  "bound_grant env now originalClient originalOfflineGrant key =
     (if og_App2AppDeviceKeyJWKJSON originalOfflineGrant \<noteq> '''' then ret originalOfflineGrant
      else if \<not> cl_App2appInsecureDeviceKeyBindingEnabled originalClient
      then failp (ProtocolErr ''invalid_grant'' ''app2app is not allowed in current session'')
      else app2appUpdateDeviceKeyIfNeeded env now originalClient originalOfflineGrant (Some key))"

definition app2app_request :: "string \<Rightarrow> string list \<Rightarrow> string \<Rightarrow> bool \<Rightarrow> authorization_request" where
  "app2app_request clientID scopes codeChallenge sso = (let
     request = [''client_id'' \<mapsto> clientID, ''scope'' \<mapsto> join_space scopes,
       ''code_challenge'' \<mapsto> codeChallenge]
   in if sso then request(''x_sso_enabled'' \<mapsto> ''true'') else request)"

definition handleApp2AppRequest ::
    "('r, 'm, 'x) grant_deps \<Rightarrow> ('r, 'm, 'x) oauth_env \<Rightarrow> dpop_proof \<Rightarrow> time \<Rightarrow> string \<Rightarrow> string \<Rightarrow> OAuthClientConfig
     \<Rightarrow> token_request \<Rightarrow> ('r, 'm, 'x, HandleResult) sess_proc" where
  "handleApp2AppRequest gd env proof now newID newCode client r = (let th = gd_handler gd in
     if \<not> cl_App2appEnabled client then failp (ProtocolErr ''unauthorized_client'' ''this client may not use app2app authentication'')
     else if \<not> gd_FeatureApp2AppEnabled gd then failp (ProtocolErr ''invalid_request'' ''app2app disabled'')
     else case parseRedirectURI (gd_redirect gd) client (rd_AppDomains (gd_redirect gd)) [] (Req_RedirectURI r) of
       Inl e \<Rightarrow> failp e
     | Inr redirectURI \<Rightarrow>
       bindp (ParseRefreshToken (h_deps th) env proof now (Req_RefreshToken r)) (\<lambda>(_, originalOfflineGrant, refreshTokenHash).
       bindp (checkUserRateLimit th now (UserID (og_Attrs originalOfflineGrant))) (\<lambda>_.
       case ToSession originalOfflineGrant refreshTokenHash of
         None \<Rightarrow> failp ErrInvalidRefreshToken
       | Some offlineGrantSession \<Rightarrow> (case d_ResolveClient (h_deps th) (ogs_ClientID offlineGrantSession) of
           None \<Rightarrow> failp (ProtocolErr ''server_error'' ''cannot find original client for app2app'')
         | Some originalClient \<Rightarrow>
           bindp (app2appVerifyAndConsumeChallenge th now (Req_JWT r)) (\<lambda>(_, key).
           bindp (bound_grant env now originalClient originalOfflineGrant key) (\<lambda>grant.
           if kc_ParseKey (gd_codec gd) (og_App2AppDeviceKeyJWKJSON grant) = None then failp (InfraErr ''jwk'')
           else if \<not> h_App2App_ParseToken th now (Req_JWT r) (og_App2AppDeviceKeyJWKJSON grant)
           then failp (ProtocolErr ''invalid_request'' ''invalid app2app jwt signature'')
           else
             bindp (CheckAndGrant (h_deps th) (e_AppID env) now newID (cl_ClientID client) (UserID (og_Attrs grant))
               (ogs_Scopes offlineGrantSession)) (\<lambda>authz.
             bindp (CodeGrantService_Create env now newCode authz
               \<lparr>ai_UserID = UserID (og_Attrs grant), ai_AuthenticatedAt = now, ai_AMR = [], ai_ShouldFireAuthenticatedEvent = False,
                 ai_AuthenticatedBySessionType = '''', ai_AuthenticatedBySessionID = '''', ai_IdentitySpecs = []\<rparr>
               '''' (ru_String redirectURI) (app2app_request (cl_ClientID client) (az_Scopes authz) (Req_CodeChallenge r) (og_SSOEnabled grant)) '''')
               (\<lambda>(code, _).
             ret \<lparr>hr_PrepareIDTokenResult = None, hr_PrepareUserAccessGrantResult = None,
               hr_Response = Some [''code'' \<mapsto> code]\<rparr>))))))))"

lemma updated_device_key:
  "UpdateOfflineGrantApp2AppDeviceKey env now gid key e w = (Ok g, w') \<Longrightarrow> og_App2AppDeviceKeyJWKJSON g = key"
  by (auto simp: UpdateOfflineGrantApp2AppDeviceKey_def UpdateOfflineGrantWithMutator_def updateOfflineGrant_def bindp_Ok run_simps Let_def
      elim!: with_mutex_Ok)

lemma bound_grant_Ok:
  assumes "bound_grant env now originalClient g key w = (Ok grant, w')"
  shows "og_App2AppDeviceKeyJWKJSON g \<noteq> '''' \<and> grant = g \<or>
    og_App2AppDeviceKeyJWKJSON g = '''' \<and> cl_App2appInsecureDeviceKeyBindingEnabled originalClient \<and>
    (og_App2AppDeviceKeyJWKJSON grant = '''' \<or> og_App2AppDeviceKeyJWKJSON grant = key)"
  using assms by (auto simp: bound_grant_def app2appUpdateDeviceKeyIfNeeded_def run_simps split: if_splits dest: updated_device_key)

lemma on_challenges_Ok:
  "on_challenges cp p w = (Ok x, w') \<Longrightarrow> \<exists>c. p (cp_Get cp (w_side w)) = (Ok x, c)"
  by (auto simp: on_challenges_def split: prod.splits outcome.splits challenge_error.splits)

lemma verify_consume_Ok:
  assumes "app2appVerifyAndConsumeChallenge th now jwt w = (Ok (c, key), w')"
  shows "h_App2App_ParseTokenUnverified th now jwt = Some (c, key) \<and> h_Challenges_Consume th now c w = (Ok ''app2app_request'', w')"
proof (cases "h_App2App_ParseTokenUnverified th now jwt")
  case None
  with assms show ?thesis by (simp add: app2appVerifyAndConsumeChallenge_def run_simps)
next
  case (Some ck)
  obtain c' k where ck: "ck = (c', k)" by force
  obtain res w1 where h: "h_Challenges_Consume th now c' w = (res, w1)" by force
  with assms Some ck show ?thesis
    by (cases res) (auto simp: app2appVerifyAndConsumeChallenge_def bindp_def attempt_def run_simps split: if_splits)
qed

lemma verified_Ok:
  fixes cp :: "('x, 'c) challenge_place" and w :: "('r, 'm, 'x) sess_world"
  assumes "app2appVerifyAndConsumeChallenge (with_app2app jl kc cp appID th) now jwt w = (Ok (c, key), w')"
  shows "\<exists>t p ch. ParseTokenUnverified jl now jwt = Inr t \<and> key = kc_Marshal kc (a2_Key t) \<and>
    fst (Challenge_Consume (cp_Redis cp) now appID (a2_Challenge t) ch) = Ok p \<and> Purpose_string p = ''app2app_request''"
proof -
  from verify_consume_Ok [OF assms] obtain t where t: "ParseTokenUnverified jl now jwt = Inr t" "key = kc_Marshal kc (a2_Key t)"
    and w: "on_challenges cp (bindp (Challenge_Consume (cp_Redis cp) now appID (a2_Challenge t)) (\<lambda>p. ret (Purpose_string p))) w
      = (Ok ''app2app_request'', w')"
    by (auto simp: with_app2app_def split: sum.splits)
  from on_challenges_Ok [OF w] t show ?thesis by (auto simp: bindp_Ok run_simps) (metis fst_conv)
qed

text \<open>
  The key of a device that a request has to be signed with: the one bound to the grant, or, when there is none and the client
  of the grant binds keys without proof, the one of the request itself.
\<close>

definition device_key_of :: "key_codec \<Rightarrow> OAuthClientConfig \<Rightarrow> OfflineGrant \<Rightarrow> jwk \<Rightarrow> jwk option" where
  "device_key_of kc originalClient g own =
     (if og_App2AppDeviceKeyJWKJSON g \<noteq> '''' then kc_ParseKey kc (og_App2AppDeviceKeyJWKJSON g)
      else if cl_App2appInsecureDeviceKeyBindingEnabled originalClient then kc_ParseKey kc (kc_Marshal kc own) else None)"

text \<open>The arguments of the code that the grant type makes.\<close>

abbreviation app2app_code where
  "app2app_code env now newCode client u s r grant authz \<equiv> CodeGrantService_Create env now newCode authz
     \<lparr>ai_UserID = UserID (og_Attrs grant), ai_AuthenticatedAt = now, ai_AMR = [], ai_ShouldFireAuthenticatedEvent = False,
       ai_AuthenticatedBySessionType = '''', ai_AuthenticatedBySessionID = '''', ai_IdentitySpecs = []\<rparr>
     '''' (ru_String u) (app2app_request (cl_ClientID client) (az_Scopes authz) (Req_CodeChallenge r) (og_SSOEnabled grant)) ''''"

lemma app2app_Ok:
  assumes "handleApp2AppRequest gd env proof now newID newCode client r w = (Ok res, w')"
  obtains u authz0 g h w1 s oc c key wa wb grant wc k w3 authz w2 code cg where
    "cl_App2appEnabled client" "gd_FeatureApp2AppEnabled gd"
    "parseRedirectURI (gd_redirect gd) client (rd_AppDomains (gd_redirect gd)) [] (Req_RedirectURI r) = Inr u"
    "ParseRefreshToken (gd_deps gd) env proof now (Req_RefreshToken r) w = (Ok (authz0, g, h), w1)"
    "ToSession g h = Some s" "d_ResolveClient (gd_deps gd) (ogs_ClientID s) = Some oc"
    "app2appVerifyAndConsumeChallenge (gd_handler gd) now (Req_JWT r) wa = (Ok (c, key), wb)"
    "bound_grant env now oc g key wb = (Ok grant, wc)"
    "kc_ParseKey (gd_codec gd) (og_App2AppDeviceKeyJWKJSON grant) = Some k"
    "h_App2App_ParseToken (gd_handler gd) now (Req_JWT r) (og_App2AppDeviceKeyJWKJSON grant)"
    "CheckAndGrant (gd_deps gd) (e_AppID env) now newID (cl_ClientID client) (UserID (og_Attrs grant)) (ogs_Scopes s) w3 = (Ok authz, w2)"
    "app2app_code env now newCode client u s r grant authz w2 = (Ok (code, cg), w')"
    "hr_Response res = Some [''code'' \<mapsto> code]"
proof -
  note run = assms [unfolded handleApp2AppRequest_def Let_def]
  from run have on: "cl_App2appEnabled client" "gd_FeatureApp2AppEnabled gd" by (auto simp: run_simps split: if_splits)
  from run on obtain u where u: "parseRedirectURI (gd_redirect gd) client (rd_AppDomains (gd_redirect gd)) [] (Req_RedirectURI r) = Inr u"
    by (auto simp: run_simps split: sum.splits)
  note run = run[unfolded u, simplified on, simplified]
  from run obtain authz0 g h w1 where
    prt: "ParseRefreshToken (gd_deps gd) env proof now (Req_RefreshToken r) w = (Ok (authz0, g, h), w1)"
    by (auto simp: bindp_Ok)
  from run obtain s where s: "ToSession g h = Some s"
    by (auto simp: bindp_Ok prt run_simps split: option.splits)
  from run obtain oc where oc: "d_ResolveClient (gd_deps gd) (ogs_ClientID s) = Some oc"
    by (auto simp: bindp_Ok prt s run_simps split: option.splits)
  from run obtain c key wa wb grant wc where
    v: "app2appVerifyAndConsumeChallenge (gd_handler gd) now (Req_JWT r) wa = (Ok (c, key), wb)"
    and b: "bound_grant env now oc g key wb = (Ok grant, wc)"
    and rest: "(if kc_ParseKey (gd_codec gd) (og_App2AppDeviceKeyJWKJSON grant) = None then failp (InfraErr ''jwk'')
           else if \<not> h_App2App_ParseToken (gd_handler gd) now (Req_JWT r) (og_App2AppDeviceKeyJWKJSON grant)
           then failp (ProtocolErr ''invalid_request'' ''invalid app2app jwt signature'')
           else bindp (CheckAndGrant (gd_deps gd) (e_AppID env) now newID (cl_ClientID client) (UserID (og_Attrs grant)) (ogs_Scopes s))
             (\<lambda>authz. bindp (app2app_code env now newCode client u s r grant authz)
               (\<lambda>(code, _). ret \<lparr>hr_PrepareIDTokenResult = None, hr_PrepareUserAccessGrantResult = None,
                 hr_Response = Some [''code'' \<mapsto> code]\<rparr>))) wc = (Ok res, w')"
    by (auto simp: bindp_Ok prt s oc)
  from rest obtain k where k: "kc_ParseKey (gd_codec gd) (og_App2AppDeviceKeyJWKJSON grant) = Some k"
    by (auto simp: run_simps split: if_splits)
  from rest k have sig: "h_App2App_ParseToken (gd_handler gd) now (Req_JWT r) (og_App2AppDeviceKeyJWKJSON grant)"
    by (auto simp: run_simps split: if_splits)
  from rest k sig show thesis
    by (auto simp: bindp_Ok run_simps intro: that [OF on u prt s oc v b k sig])
qed

lemma app2app_code_Ok:
  assumes "app2app_code env now newCode client u s r grant authz w = (Ok (code, cg), w')"
  shows "CreateCodeGrant env now cg w = (Ok (), w')" "code = newCode" "cg_CodeHash cg = e_hash env newCode"
    "cg_RedirectURI cg = ru_String u" "cg_ExpireAt cg = now + 300000000000" "cg_AuthorizationID cg = az_ID authz"
    "areq (cg_AuthorizationRequest cg) ''client_id'' = cl_ClientID client"
    "ai_UserID (cg_AuthenticationInfo cg) = UserID (og_Attrs grant)"
proof -
  have "areq (app2app_request (cl_ClientID client) (az_Scopes authz) (Req_CodeChallenge r) (og_SSOEnabled grant)) ''client_id'' = cl_ClientID client"
    by (simp add: areq_def app2app_request_def Let_def)
  with assms show "CreateCodeGrant env now cg w = (Ok (), w')" "code = newCode" "cg_CodeHash cg = e_hash env newCode"
    "cg_RedirectURI cg = ru_String u" "cg_ExpireAt cg = now + 300000000000" "cg_AuthorizationID cg = az_ID authz"
    "areq (cg_AuthorizationRequest cg) ''client_id'' = cl_ClientID client"
    "ai_UserID (cg_AuthenticationInfo cg) = UserID (og_Attrs grant)"
    by (auto simp: bindp_Ok run_simps CodeGrantService_Create_def Let_def duration_Short_def)
qed


text \<open>An app on the user's device, whose key is bound to the grant of another app.\<close>

definition example_key :: jwk where
  "example_key = \<lparr>jk_KeyID = ''device-key-1'', jk_Algorithm = ''ES256'', jk_Rest = ''''\<rparr>"

definition example_jwt :: jwt_lib where
  "example_jwt = \<lparr>jl_Split = \<lambda>_. Some (\<lparr>jh_JWK = Some ''keys'', jh_Algorithm = ''ES256'', jh_Type = App2AppRequestTokenType\<rparr>, ''payload''),
     jl_Validate = \<lambda>_ _. True, jl_ParseKeys = \<lambda>_. Some [example_key],
     jl_Verify = \<lambda>jwt key. if jwt = ''signed'' \<and> key = example_key then Some ''payload'' else None, jl_Challenge = \<lambda>_. Some ''T''\<rparr>"

definition example_codec :: key_codec where
  "example_codec = \<lparr>kc_Marshal = \<lambda>_. ''K'', kc_ParseKey = \<lambda>s. if s = ''K'' then Some example_key else None\<rparr>"

definition example_place :: "(demo_side, challenge_map) challenge_place" where
  "example_place = \<lparr>cp_Redis = cm_redis, cp_Get = \<lambda>_. snd (Challenge_Create cm_redis 1 ''app'' ''T'' PurposeApp2AppRequest (\<lambda>_. None)), cp_Put = \<lambda>_ x. x\<rparr>"

definition example_device :: "(oauth_value sstore, unit, demo_side) grant_deps" where
  "example_device = \<lparr>gd_handler = with_app2app example_jwt example_codec example_place ''app'' demo_handler,
     gd_redirect = \<lparr>rd_Parse = \<lambda>s. Some \<lparr>ru_Scheme = ''https'', ru_Host = ''example.com'', ru_String = s\<rparr>, rd_HTTPProto = ''https'',
       rd_HTTPOrigin = ''https://auth.example.com'', rd_AppDomains = []\<rparr>,
     gd_codec = example_codec, gd_FeatureApp2AppEnabled = True, gd_BiometricDisabled = False\<rparr>"

definition example_keyed :: "(oauth_value sstore, unit, demo_side) sess_world" where
  "example_keyed = snd (CreateOfflineGrant demo_env 0 ((demo_grant ''g1'' ''c1'')\<lparr>og_App2AppDeviceKeyJWKJSON := ''K''\<rparr>) demo_start)"

definition example_app2app_request :: token_request where
  "example_app2app_request k = (case map_of [(''redirect_uri'', ''https://example.com''), (''refresh_token'', ''g1.t1''), (''jwt'', ''signed'')] k of
     None \<Rightarrow> '''' | Some v \<Rightarrow> v)"

abbreviation example_app2app where
  "example_app2app \<equiv> handleApp2AppRequest example_device demo_env MissingProof 2 ''z7'' ''code7''
     ((demo_client ''c2'' ApplicationTypeNative)\<lparr>cl_App2appEnabled := True\<rparr>) example_app2app_request example_keyed"


section \<open>Anonymous and biometric users\<close>

text \<open>
  What the interaction engine says of a signed request: an interaction that is complete, of a user, with the methods it was
  authenticated by and the identity it used last; \<open>None\<close> is an interaction with edges left. \<open>ip_Run\<close> makes it
  permanent. The other three read an error: the cause of a violated invariant, invalid credentials, the
  message of an API error.
\<close>

record interaction_graph =
  ig_UserID :: "string option"
  ig_AMR :: "string list"
  ig_LastIdentityID :: "string option"

datatype interaction_intent = LoginAnonymous | LoginBiometric | AddBiometric string

record ('r, 'm, 'x) interaction_port =
  ip_DryRun :: "interaction_intent \<Rightarrow> string \<Rightarrow> ('r, 'm, 'x, interaction_graph option) sess_proc"
  ip_Run :: "interaction_graph \<Rightarrow> ('r, 'm, 'x, unit) sess_proc"
  ip_HasCause :: "sess_error \<Rightarrow> string \<Rightarrow> bool"
  ip_IsInvalidCredentials :: "sess_error \<Rightarrow> bool"
  ip_APIError :: "sess_error \<Rightarrow> string option"
  ip_BiometricAction :: "string \<Rightarrow> string + string option"

definition deref_proc :: "'a option \<Rightarrow> ('r, 'm, 'x, 'a) sess_proc" where
  "deref_proc v = (case v of None \<Rightarrow> panicp | Some x \<Rightarrow> ret x)"

definition run_dry ::
    "('r, 'm, 'x) interaction_port \<Rightarrow> string \<Rightarrow> string list \<Rightarrow> interaction_intent \<Rightarrow> string \<Rightarrow> ('r, 'm, 'x, interaction_graph) sess_proc" where
  "run_dry ip left causes intent jwt = bindp (attempt (ip_DryRun ip intent jwt)) (\<lambda>res. case res of
     Inr (Some graph) \<Rightarrow> ret graph
   | Inr None \<Rightarrow> failp (InfraErr left)
   | Inl e \<Rightarrow> (case find (ip_HasCause ip e) causes of
       Some cause \<Rightarrow> failp (ProtocolErr ''unauthorized_client'' cause)
     | None \<Rightarrow> if ip_IsInvalidCredentials ip e then failp (ProtocolErr ''invalid_grant'' ''InvalidCredentials'') else failp e))"

definition run_graph :: "('r, 'm, 'x) interaction_port \<Rightarrow> interaction_graph \<Rightarrow> ('r, 'm, 'x, unit) sess_proc" where
  "run_graph ip graph = bindp (attempt (ip_Run ip graph)) (\<lambda>res. case res of
     Inr _ \<Rightarrow> ret ()
   | Inl e \<Rightarrow> (case ip_APIError ip e of Some msg \<Rightarrow> failp (ProtocolErr ''invalid_request'' msg) | None \<Rightarrow> failp e))"

text \<open>The common end of both grants: a new offline grant, its access token and its ID token. Single sign-on is off.\<close>

definition issue_login_tokens ::
    "('r, 'm, 'x) handler_deps \<Rightarrow> ('r, 'm, 'x) oauth_env \<Rightarrow> time \<Rightarrow> fresh_values \<Rightarrow> OAuthClientConfig \<Rightarrow> Authorization
     \<Rightarrow> string list \<Rightarrow> authentication_info \<Rightarrow> string \<Rightarrow> string \<Rightarrow> string \<Rightarrow> ('r, 'm, 'x, OfflineGrant \<times> HandleResult) sess_proc" where
  "issue_login_tokens th env now fresh client authz scopes info deviceInfo identityID dpopJKT =
     bindp (issueOfflineGrant th env now fresh client (az_UserID authz) (Some (\<lambda>_. None))
       \<lparr>io_AuthenticationInfo = info, io_Scopes = scopes, io_AuthorizationID = az_ID authz, io_IDPSessionID = '''',
         io_DeviceInfo = deviceInfo, io_IdentityID = identityID, io_SSOEnabled = False, io_App2AppDeviceKey = None,
         io_IssueDeviceSecret = shouldIssueDeviceSecret scopes, io_DPoPJKT = dpopJKT\<rparr> True) (\<lambda>(offlineGrant, newTokenHash, resp).
     bindp (PrepareUserAccessGrantByRefreshToken (h_token th) env now (fr_RefreshToken fresh) (fr_AccessToken fresh)
       \<lparr>pu_ClientConfig = client, pu_Scopes = scopes, pu_AuthorizationID = az_ID authz,
         pu_AuthenticationInfo = Grant_GetAuthenticationInfo offlineGrant, pu_SessionID = og_ID offlineGrant,
         pu_SessionType = TypeOfflineGrant, pu_InitialRefreshTokenHash = newTokenHash\<rparr> False) (\<lambda>result1.
     bindp (if list_ex (\<lambda>s. s = ''openid'') scopes
            then bindp (h_PrepareIDToken th \<lparr>it_ClientID = cl_ClientID client, it_SID = EncodeSID (og_base offlineGrant), it_Nonce = '''',
                it_AuthenticationInfo = Grant_GetAuthenticationInfo offlineGrant, it_ClientLike = ClientClientLike client scopes,
                it_DeviceSecretHash = og_DeviceSecretHash offlineGrant, it_IdentitySpecs = []\<rparr>) (\<lambda>p. ret (Some p))
            else ret None) (\<lambda>prepareIDTokenResult.
     ret (offlineGrant, \<lparr>hr_PrepareIDTokenResult = prepareIDTokenResult, hr_PrepareUserAccessGrantResult = Some result1, hr_Response = resp\<rparr>))))"

definition login_scopes :: "string list" where
  "login_scopes = [''openid'', OfflineAccess, FullAccessScope]"

definition handleAnonymousRequest ::
    "('r, 'm, 'x) handler_deps \<Rightarrow> ('r, 'm, 'x) interaction_port \<Rightarrow> ('r, 'm, 'x) oauth_env \<Rightarrow> dpop_proof \<Rightarrow> time \<Rightarrow> fresh_values \<Rightarrow> OAuthClientConfig
     \<Rightarrow> token_request \<Rightarrow> ('r, 'm, 'x, HandleResult) sess_proc" where
  "handleAnonymousRequest th ip env proof now fresh client r =
     (if \<not> HasFullAccessScope (cl_ApplicationType client)
      then failp (ProtocolErr ''unauthorized_client'' ''Anonymous user is not supported by the client application type. Try using SPA, Traditional Web App, or Native App client types if applicable.'')
      else case DeviceInfo th r of
        Inl e \<Rightarrow> failp (ProtocolErr ''invalid_request'' e)
      | Inr deviceInfo \<Rightarrow>
        bindp (run_dry ip ''interaction not completed for anonymous users'' [''AnonymousUserDisallowed''] LoginAnonymous (Req_JWT r)) (\<lambda>graph.
        bindp (deref_proc (ig_UserID graph)) (\<lambda>userID.
        bindp (checkUserRateLimit th now userID) (\<lambda>_. let
          info = \<lparr>ai_UserID = userID, ai_AuthenticatedAt = now, ai_AMR = []\<rparr> in
        bindp (run_graph ip graph) (\<lambda>_.
        bindp (CheckAndGrant (h_deps th) (e_AppID env) now (fr_AuthorizationID fresh) (cl_ClientID client) userID login_scopes) (\<lambda>authz.
        bindp (outcome_proc (GetDPoPProofJKT proof client)) (\<lambda>dpopJKT.
        bindp (issue_login_tokens th env now fresh client authz login_scopes info deviceInfo '''' dpopJKT) (\<lambda>(_, res).
        ret res))))))))"

fun delete_grants_of_identity ::
    "('r, 'm, 'x) oauth_env \<Rightarrow> time \<Rightarrow> string \<Rightarrow> OfflineGrant list \<Rightarrow> ('r, 'm, 'x, unit) sess_proc" where
  "delete_grants_of_identity env now identityID [] = ret ()"
| "delete_grants_of_identity env now identityID (offlineGrant # grants) =
     bindp (if og_IdentityID offlineGrant = identityID then DeleteOfflineGrant env now offlineGrant else ret ()) (\<lambda>_.
     delete_grants_of_identity env now identityID grants)"

text \<open>The scopes of the request if there are any, which the client must be allowed; the session has to be usable offline with full access.\<close>

definition biometric_scopes :: "OAuthClientConfig \<Rightarrow> string list \<Rightarrow> sess_error + string list" where
  "biometric_scopes client asked = (let
     check = (if asked \<noteq> [] then case ValidateScopesByClientConfig client asked of Some e \<Rightarrow> Inl e | None \<Rightarrow> Inr asked else Inr login_scopes)
   in case check of Inl e \<Rightarrow> Inl e
     | Inr scopes \<Rightarrow> if \<not> ContainsAllScopes scopes [OfflineAccess, FullAccessScope]
         then Inl (ProtocolErr ''invalid_scope'' ''offline_access and full-access must be requested'') else Inr scopes)"

definition handleBiometricAuthenticate ::
    "('r, 'm, 'x) handler_deps \<Rightarrow> ('r, 'm, 'x) interaction_port \<Rightarrow> ('r, 'm, 'x) oauth_env \<Rightarrow> dpop_proof \<Rightarrow> time \<Rightarrow> fresh_values \<Rightarrow> OAuthClientConfig
     \<Rightarrow> token_request \<Rightarrow> ('r, 'm, 'x, HandleResult) sess_proc" where
  "handleBiometricAuthenticate th ip env proof now fresh client r = (case DeviceInfo th r of
     Inl e \<Rightarrow> failp (ProtocolErr ''invalid_request'' e)
   | Inr deviceInfo \<Rightarrow>
     bindp (run_dry ip ''interaction not completed for biometric authenticate'' [''BiometricDisallowed''] LoginBiometric (Req_JWT r)) (\<lambda>graph.
     bindp (deref_proc (ig_UserID graph)) (\<lambda>userID.
     bindp (checkUserRateLimit th now userID) (\<lambda>_. let
       info = \<lparr>ai_UserID = userID, ai_AuthenticatedAt = now, ai_AMR = ig_AMR graph\<rparr> in
     bindp (deref_proc (ig_LastIdentityID graph)) (\<lambda>identityID.
     bindp (run_graph ip graph) (\<lambda>_.
     bindp (sum_proc (biometric_scopes client (Req_Scope r))) (\<lambda>scopes.
     bindp (CheckAndGrant (h_deps th) (e_AppID env) now (fr_AuthorizationID fresh) (cl_ClientID client) userID scopes) (\<lambda>authz.
     bindp (ListOfflineGrants env now (az_UserID authz)) (\<lambda>offlineGrants.
     bindp (delete_grants_of_identity env now identityID offlineGrants) (\<lambda>_.
     bindp (outcome_proc (GetDPoPProofJKT proof client)) (\<lambda>dpopJKT.
     bindp (issue_login_tokens th env now fresh client authz scopes info deviceInfo identityID dpopJKT) (\<lambda>(offlineGrant, res).
     bindp (h_Dispatch th (UserAuthenticated (az_UserID authz) offlineGrant)) (\<lambda>_.
     ret res)))))))))))))"

definition handleBiometricSetup ::
    "('r, 'm, 'x) handler_deps \<Rightarrow> ('r, 'm, 'x) interaction_port \<Rightarrow> time \<Rightarrow> resolved_session option \<Rightarrow> token_request \<Rightarrow> ('r, 'm, 'x, HandleResult) sess_proc" where
  "handleBiometricSetup th ip now session r = (case session of
     None \<Rightarrow> failp (ProtocolErr ''invalid_grant'' ''biometric setup requires authenticated user'')
   | Some s \<Rightarrow> let userID = ai_UserID (rs_GetAuthenticationInfo s) in
       bindp (checkUserRateLimit th now userID) (\<lambda>_.
       bindp (run_dry ip ''interaction not completed for biometric setup'' [''BiometricDisallowed'', ''AnonymousUserAddIdentity'']
         (AddBiometric userID) (Req_JWT r)) (\<lambda>graph.
       bindp (run_graph ip graph) (\<lambda>_.
       ret \<lparr>hr_PrepareIDTokenResult = None, hr_PrepareUserAccessGrantResult = None, hr_Response = None\<rparr>))))"

definition handleBiometricRequest ::
    "('r, 'm, 'x) grant_deps \<Rightarrow> ('r, 'm, 'x) interaction_port \<Rightarrow> ('r, 'm, 'x) oauth_env \<Rightarrow> dpop_proof \<Rightarrow> time \<Rightarrow> fresh_values
     \<Rightarrow> resolved_session option \<Rightarrow> OAuthClientConfig \<Rightarrow> token_request \<Rightarrow> ('r, 'm, 'x, HandleResult) sess_proc" where
  "handleBiometricRequest gd ip env proof now fresh session client r =
     (if gd_BiometricDisabled gd then failp (ProtocolErr ''invalid_request'' ''biometric authentication is disabled'')
      else if \<not> HasFullAccessScope (cl_ApplicationType client)
      then failp (ProtocolErr ''unauthorized_client'' ''this client may not use biometric authentication'')
      else case ip_BiometricAction ip (Req_JWT r) of
        Inl e \<Rightarrow> failp (ProtocolErr ''invalid_request'' e)
      | Inr action \<Rightarrow>
          if action = Some ''setup'' then handleBiometricSetup (gd_handler gd) ip now session r
          else if action = Some ''authenticate'' then handleBiometricAuthenticate (gd_handler gd) ip env proof now fresh client r
          else failp (ProtocolErr ''invalid_request'' ''invalid action''))"

text \<open>The grant types that \<open>TokenHandler\<close> left open, but for the one of machines.\<close>

definition device_grants ::
    "('r, 'm, 'x) grant_deps \<Rightarrow> ('r, 'm, 'x) interaction_port \<Rightarrow> ('r, 'm, 'x) oauth_env \<Rightarrow> dpop_proof \<Rightarrow> time \<Rightarrow> fresh_values \<Rightarrow> string
     \<Rightarrow> resolved_session option \<Rightarrow> (OAuthClientConfig \<Rightarrow> token_request \<Rightarrow> ('r, 'm, 'x, HandleResult) sess_proc)
     \<Rightarrow> OAuthClientConfig \<Rightarrow> token_request \<Rightarrow> ('r, 'm, 'x, HandleResult) sess_proc" where
  "device_grants gd ip env proof now fresh code session machine client r =
     (if GrantType r = AnonymousRequestGrantType then handleAnonymousRequest (gd_handler gd) ip env proof now fresh client r
      else if GrantType r = BiometricRequestGrantType then handleBiometricRequest gd ip env proof now fresh session client r
      else if GrantType r = App2AppRequestGrantType then handleApp2AppRequest gd env proof now (fr_AuthorizationID fresh) code client r
      else machine client r)"

end
