(* ===== verification/Fraud.thy ===== *)
theory Fraud imports Gcra Proc "HOL-Library.AList" begin

text \<open>
  Fraud protection for one-time passwords sent by SMS: \<^verbatim>\<open>pkg/lib/fraudprotection\<close> with its configuration
  \<^verbatim>\<open>config/fraud_protection.go\<close>. Before a message is sent, four leaky buckets (by country of the phone number and
  by IP address, per hour and per day) are filled and the countries an address sends to are counted; a code that was
  verified drains the buckets again. How much a bucket may hold follows the numbers of verified codes in the
  audit database. Parameters: parsing of phone numbers, addresses and address ranges, matching of patterns, the
  location of an address, the audit database, the dispatch of the event that records a decision.
  Lua and Go doubles are rationals.
\<close>

section \<open>Redis\<close>

text \<open>A leaky bucket (level, time of the last update), a sorted set of countries, a cached count; each with the time it expires.\<close>

datatype fraud_value = BucketValue rat rat | CountriesValue "(string \<times> rat) list" | CountValue int

type_synonym fraud_entry = "(fraud_value \<times> time option) option"

definition alive :: "time \<Rightarrow> fraud_entry \<Rightarrow> fraud_entry" where
  "alive t e = (case e of Some (v, Some x) \<Rightarrow> if t < x then e else None | _ \<Rightarrow> e)"

text \<open>A script runs on one key: what it replies and what the key holds afterwards.\<close>

type_synonym fraud_script = "fraud_entry \<Rightarrow> (string + int \<times> int) \<times> fraud_entry"

record 'r fraud_redis =
  fr_EVAL :: "time \<Rightarrow> string \<Rightarrow> fraud_script \<Rightarrow> 'r \<Rightarrow> (string + int \<times> int) \<times> 'r"
  fr_GET :: "time \<Rightarrow> string \<Rightarrow> 'r \<Rightarrow> (string + fraud_value option) \<times> 'r"
  fr_SET :: "time \<Rightarrow> string \<Rightarrow> fraud_value \<Rightarrow> duration \<Rightarrow> 'r \<Rightarrow> (string + unit) \<times> 'r"

text \<open>What the commands promise. One that fails may or may not have had its effect, on its key and no other.\<close>

locale fraud_keys =
  fixes rd :: "'r fraud_redis" and view :: "time \<Rightarrow> 'r \<Rightarrow> string \<Rightarrow> fraud_entry"
  assumes EVAL_other: "fr_EVAL rd now k f r = (res, r') \<Longrightarrow> now \<le> t \<Longrightarrow> k' \<noteq> k \<Longrightarrow> view t r' k' = view t r k'"
    and EVAL_done: "fr_EVAL rd now k f r = (Inr y, r') \<Longrightarrow> now \<le> t \<Longrightarrow>
      fst (f (view now r k)) = Inr y \<and> view t r' k = alive t (snd (f (view now r k)))"
    and EVAL_failed: "fr_EVAL rd now k f r = (Inl e, r') \<Longrightarrow> now \<le> t \<Longrightarrow>
      view t r' k = view t r k \<or> view t r' k = alive t (snd (f (view now r k)))"
    and GET: "fr_GET rd now k r = (gres, r') \<Longrightarrow> r' = r \<and> (\<forall>v. gres = Inr v \<longrightarrow> map_option fst (view now r k) = v)"
    and SET: "fr_SET rd now k v d r = (sres, r') \<Longrightarrow> now \<le> t \<Longrightarrow> view t r' k' = view t r k' \<or>
      k' = k \<and> view t r' k' = alive t (Some (v, Some (now + d)))"
    and view_later: "now \<le> t \<Longrightarrow> view t r k = alive t (view now r k)"

text \<open>A map with expiry times does.\<close>

type_synonym fraud_map = "string \<Rightarrow> fraud_entry"

definition fm_view :: "time \<Rightarrow> fraud_map \<Rightarrow> string \<Rightarrow> fraud_entry" where
  "fm_view t r k = alive t (r k)"

definition fm_redis :: "fraud_map fraud_redis" where
  "fm_redis = \<lparr>fr_EVAL = \<lambda>now k f r. case f (alive now (r k)) of (reply, e) \<Rightarrow> (reply, r(k := e)),
     fr_GET = \<lambda>now k r. (Inr (map_option fst (alive now (r k))), r),
     fr_SET = \<lambda>now k v d r. (Inr (), r(k := Some (v, Some (now + d))))\<rparr>"

lemma alive_alive: "now \<le> t \<Longrightarrow> alive t (alive now e) = alive t e"
  by (auto simp: alive_def split: option.splits)

interpretation fm: fraud_keys fm_redis fm_view
  by unfold_locales (auto simp: fm_redis_def fm_view_def alive_alive split: prod.splits)

section \<open>The scripts\<close>

definition Unix :: "time \<Rightarrow> int" where
  "Unix now = now div 1000000000"

definition seconds :: "int \<Rightarrow> duration" where
  "seconds s = s * 1000000000"

definition leakyBucketScript :: "time \<Rightarrow> rat \<Rightarrow> rat \<Rightarrow> rat \<Rightarrow> rat \<Rightarrow> int \<Rightarrow> fraud_script" where
  "leakyBucketScript now_redis now threshold period n ttl e = (let
     drain_rate = threshold / period
   in case e of
        Some (CountriesValue _, _) \<Rightarrow> (Inl ''WRONGTYPE'', e)
      | Some (CountValue _, _) \<Rightarrow> (Inl ''WRONGTYPE'', e)
      | _ \<Rightarrow> (let
          level = (case e of Some (BucketValue l _, _) \<Rightarrow> l | _ \<Rightarrow> 0);
          last_updated = (case e of Some (BucketValue _ u, _) \<Rightarrow> u | _ \<Rightarrow> now);
          level = min level threshold;
          elapsed = now - last_updated;
          leaked = elapsed * drain_rate;
          new_level = max 0 (level - leaked + n);
          expiry = (if n > 0 then Some (now_redis + seconds ttl) else Option.bind e snd);
          e' = (if n \<noteq> 0 then Some (BucketValue new_level now, expiry) else e)
        in (Inr (lua_reply new_level, if new_level > threshold then 1 else 0), e')))"

definition ipCountriesScript :: "time \<Rightarrow> string \<Rightarrow> rat \<Rightarrow> int \<Rightarrow> int \<Rightarrow> fraud_script" where
  "ipCountriesScript now_redis country now threshold ttl e = (let cutoff = now - 86400
   in case e of
        Some (BucketValue _ _, _) \<Rightarrow> (Inl ''WRONGTYPE'', e)
      | Some (CountValue _, _) \<Rightarrow> (Inl ''WRONGTYPE'', e)
      | _ \<Rightarrow> (let
          members = (case e of Some (CountriesValue zs, _) \<Rightarrow> zs | _ \<Rightarrow> []);
          members = AList.update country now members;
          members = filter (\<lambda>(_, score). \<not> score \<le> cutoff) members;
          count = int (length members)
        in (Inr (count, if count > threshold then 1 else 0),
            Some (CountriesValue members, Some (now_redis + seconds ttl)))))"

section \<open>The world of the service\<close>

text \<open>Redis, the audit database with its rows of \<^verbatim>\<open>_audit_metrics\<close>, and everything else.\<close>

record metric_row =
  mr_name :: string
  mr_key :: string
  mr_created_at :: time

record 'd audit_db =
  ad_INSERT :: "metric_row list \<Rightarrow> 'd \<Rightarrow> (string + unit) \<times> 'd"
  ad_SELECT :: "'d \<Rightarrow> (string + metric_row list) \<times> 'd"

record ('r, 'd, 'x) fraud_world =
  fw_redis :: 'r
  fw_audit :: 'd
  fw_rest :: 'x

datatype fraud_error = ErrBlockedByFraudProtection | FraudInfraError string

type_synonym ('r, 'd, 'x, 'a) fraud_proc = "(('r, 'd, 'x) fraud_world, fraud_error, 'a) proc"

datatype decision = DecisionAllowed | DecisionBlocked

datatype warning_type = SMSPhoneCountriesByIPDaily | SMSUnverifiedOTPsByPhoneCountryDaily | SMSUnverifiedOTPsByPhoneCountryHourly
  | SMSUnverifiedOTPsByIPDaily | SMSUnverifiedOTPsByIPHourly

record FraudProtectionDecisionRecord =
  dr_Timestamp :: time
  dr_Decision :: decision
  dr_Action :: string
  dr_Recipient :: string
  dr_Type :: string
  dr_PhoneNumberCountryCode :: string
  dr_TriggeredWarnings :: "warning_type list"
  dr_UserAgent :: string
  dr_IPAddress :: string
  dr_HTTPUrl :: string
  dr_HTTPReferer :: string
  dr_UserID :: string
  dr_GeoLocationCode :: string

record ('r, 'd, 'x) fraud_env =
  fe_AppID :: string
  fe_redis :: "'r fraud_redis"
  fe_audit :: "'d audit_db"
  fe_ParsePhone :: "string \<Rightarrow> (string list) option"
  fe_GeoIP :: "string \<Rightarrow> string option"
  fe_ValidIP :: "string \<Rightarrow> bool"
  fe_CIDRContains :: "string \<Rightarrow> (string \<Rightarrow> bool) option"
  fe_Regexp :: "string \<Rightarrow> (string \<Rightarrow> bool) option"
  fe_Dispatch :: "FraudProtectionDecisionRecord \<Rightarrow> 'x \<Rightarrow> (string + unit) \<times> 'x"

definition redis_call :: "('r \<Rightarrow> (string + 'a) \<times> 'r) \<Rightarrow> ('r, 'd, 'x, 'a) fraud_proc" where
  "redis_call c = (\<lambda>w. case c (fw_redis w) of
     (Inl e, r) \<Rightarrow> (Err (FraudInfraError e), w\<lparr>fw_redis := r\<rparr>) | (Inr y, r) \<Rightarrow> (Ok y, w\<lparr>fw_redis := r\<rparr>))"

definition audit_call :: "('d \<Rightarrow> (string + 'a) \<times> 'd) \<Rightarrow> ('r, 'd, 'x, 'a) fraud_proc" where
  "audit_call c = (\<lambda>w. case c (fw_audit w) of
     (Inl e, d) \<Rightarrow> (Err (FraudInfraError e), w\<lparr>fw_audit := d\<rparr>) | (Inr y, d) \<Rightarrow> (Ok y, w\<lparr>fw_audit := d\<rparr>))"

section \<open>The buckets: \<^verbatim>\<open>leaky_bucket_store.go\<close>\<close>

record LeakyBucketThresholds =
  th_CountryHourly :: rat
  th_CountryDaily :: rat
  th_IPHourly :: rat
  th_IPDaily :: rat

record LeakyBucketTriggered =
  tr_CountryHourly :: bool
  tr_CountryDaily :: bool
  tr_IPHourly :: bool
  tr_IPDaily :: bool
  tr_IPCountriesDaily :: bool

record LeakyBucketLevels =
  lv_CountryHourly :: int
  lv_CountryDaily :: int
  lv_IPHourly :: int
  lv_IPDaily :: int
  lv_IPCountriesCount :: int

definition bucketWindowHourly :: int where "bucketWindowHourly = 3600"
definition bucketWindowDaily :: int where "bucketWindowDaily = 86400"
definition ipCountriesThreshold :: int where "ipCountriesThreshold = 3"

text \<open>The decimal numerals the keys contain.\<close>

definition period_string :: "int \<Rightarrow> string" where
  "period_string p = (if p = bucketWindowHourly then ''3600'' else ''86400'')"

definition bucketKey :: "string \<Rightarrow> int \<Rightarrow> string \<Rightarrow> string \<Rightarrow> string" where
  "bucketKey appID period dimension v =
     ''app:'' @ appID @ '':fraud_protection:leaky_bucket:'' @ period_string period @ '':'' @ dimension @ '':'' @ v"

definition ipCountriesKey :: "string \<Rightarrow> string \<Rightarrow> string" where
  "ipCountriesKey appID ip = ''app:'' @ appID @ '':fraud_protection:ip_countries:'' @ ip"

definition evalBucket :: "('r, 'd, 'x) fraud_env \<Rightarrow> time \<Rightarrow> string \<Rightarrow> rat \<Rightarrow> int \<Rightarrow> int \<Rightarrow> ('r, 'd, 'x, int \<times> bool) fraud_proc" where
  "evalBucket env now key threshold period ttl =
     bindp (redis_call (fr_EVAL (fe_redis env) now key
       (leakyBucketScript now (of_int (Unix now)) threshold (of_int period) 1 ttl))) (\<lambda>(level, triggeredInt).
     ret (level, triggeredInt = 1))"

definition RecordSMSOTPSent ::
    "('r, 'd, 'x) fraud_env \<Rightarrow> time \<Rightarrow> string \<Rightarrow> string \<Rightarrow> LeakyBucketThresholds
     \<Rightarrow> ('r, 'd, 'x, LeakyBucketTriggered \<times> LeakyBucketLevels) fraud_proc" where
  "RecordSMSOTPSent env now ip phoneCountry thresholds = (let app = fe_AppID env in
     bindp (evalBucket env now (bucketKey app bucketWindowHourly ''country'' phoneCountry)
       (th_CountryHourly thresholds) bucketWindowHourly (2 * bucketWindowHourly)) (\<lambda>(lvCH, trCH).
     bindp (evalBucket env now (bucketKey app bucketWindowDaily ''country'' phoneCountry)
       (th_CountryDaily thresholds) bucketWindowDaily (2 * bucketWindowDaily)) (\<lambda>(lvCD, trCD).
     bindp (evalBucket env now (bucketKey app bucketWindowHourly ''ip'' ip)
       (th_IPHourly thresholds) bucketWindowHourly (2 * bucketWindowHourly)) (\<lambda>(lvIH, trIH).
     bindp (evalBucket env now (bucketKey app bucketWindowDaily ''ip'' ip)
       (th_IPDaily thresholds) bucketWindowDaily (2 * bucketWindowDaily)) (\<lambda>(lvID, trID).
     bindp (redis_call (fr_EVAL (fe_redis env) now (ipCountriesKey app ip)
       (ipCountriesScript now phoneCountry (of_int (Unix now)) ipCountriesThreshold (2 * bucketWindowDaily)))) (\<lambda>(count, triggeredInt).
     ret (\<lparr>tr_CountryHourly = trCH, tr_CountryDaily = trCD, tr_IPHourly = trIH, tr_IPDaily = trID,
            tr_IPCountriesDaily = (triggeredInt = 1)\<rparr>,
          \<lparr>lv_CountryHourly = lvCH, lv_CountryDaily = lvCD, lv_IPHourly = lvIH, lv_IPDaily = lvID,
            lv_IPCountriesCount = count\<rparr>)))))))"

definition drainBucket :: "('r, 'd, 'x) fraud_env \<Rightarrow> time \<Rightarrow> rat \<Rightarrow> string \<Rightarrow> rat \<Rightarrow> int \<Rightarrow> ('r, 'd, 'x, unit) fraud_proc" where
  "drainBucket env now n key threshold period =
     bindp (redis_call (fr_EVAL (fe_redis env) now key
       (leakyBucketScript now (of_int (Unix now)) threshold (of_int period) n 0))) (\<lambda>_. ret ())"

definition Bucket_RecordSMSOTPVerified ::
    "('r, 'd, 'x) fraud_env \<Rightarrow> time \<Rightarrow> string \<Rightarrow> string \<Rightarrow> LeakyBucketThresholds \<Rightarrow> int \<Rightarrow> ('r, 'd, 'x, unit) fraud_proc" where
  "Bucket_RecordSMSOTPVerified env now ip phoneCountry thresholds count = (let app = fe_AppID env; n = - of_int count in
     bindp (drainBucket env now n (bucketKey app bucketWindowHourly ''country'' phoneCountry) (th_CountryHourly thresholds) bucketWindowHourly) (\<lambda>_.
     bindp (drainBucket env now n (bucketKey app bucketWindowDaily ''country'' phoneCountry) (th_CountryDaily thresholds) bucketWindowDaily) (\<lambda>_.
     bindp (drainBucket env now n (bucketKey app bucketWindowHourly ''ip'' ip) (th_IPHourly thresholds) bucketWindowHourly) (\<lambda>_.
     drainBucket env now n (bucketKey app bucketWindowDaily ''ip'' ip) (th_IPDaily thresholds) bucketWindowDaily))))"

section \<open>The metrics: \<^verbatim>\<open>metrics_store.go\<close>\<close>

definition metricsNameSMSOTPVerified :: string where "metricsNameSMSOTPVerified = ''sms_otp_verified''"
definition thresholdCacheTTL :: duration where "thresholdCacheTTL = seconds 300"

definition ip_metric :: "string \<Rightarrow> string" where "ip_metric ip = ''ip:'' @ ip"
definition country_metric :: "string \<Rightarrow> string" where "country_metric country = ''phone_country:'' @ country"

definition RecordVerified :: "('r, 'd, 'x) fraud_env \<Rightarrow> time \<Rightarrow> string \<Rightarrow> string \<Rightarrow> ('r, 'd, 'x, unit) fraud_proc" where
  "RecordVerified env now ip phoneCountry = audit_call (ad_INSERT (fe_audit env)
     [\<lparr>mr_name = metricsNameSMSOTPVerified, mr_key = ip_metric ip, mr_created_at = now\<rparr>,
      \<lparr>mr_name = metricsNameSMSOTPVerified, mr_key = country_metric phoneCountry, mr_created_at = now\<rparr>])"

definition thresholdCacheKey :: "string \<Rightarrow> string \<Rightarrow> string \<Rightarrow> string" where
  "thresholdCacheKey appID pgKey window =
     ''app:'' @ appID @ '':fraud_protection:threshold_cache:sms_otp_verified:'' @ window @ '':'' @ pgKey"

definition getCachedCount :: "('r, 'd, 'x) fraud_env \<Rightarrow> time \<Rightarrow> string \<Rightarrow> ('r, 'd, 'x, int option) fraud_proc" where
  "getCachedCount env now cacheKey = bindp (redis_call (fr_GET (fe_redis env) now cacheKey)) (\<lambda>v. case v of
     None \<Rightarrow> ret None
   | Some (CountValue n) \<Rightarrow> ret (Some n)
   | Some _ \<Rightarrow> failp (FraudInfraError ''WRONGTYPE''))"

definition setCachedCount :: "('r, 'd, 'x) fraud_env \<Rightarrow> time \<Rightarrow> string \<Rightarrow> int \<Rightarrow> ('r, 'd, 'x, unit) fraud_proc" where
  "setCachedCount env now cacheKey count = redis_call (fr_SET (fe_redis env) now cacheKey (CountValue count) thresholdCacheTTL)"

text \<open>The rows both queries count.\<close>

definition verified_rows :: "string \<Rightarrow> time \<Rightarrow> metric_row list \<Rightarrow> metric_row list" where
  "verified_rows pgKey since rows =
     filter (\<lambda>m. mr_name m = metricsNameSMSOTPVerified \<and> mr_key m = pgKey \<and> mr_created_at m \<ge> since) rows"

definition queryVerifiedCount :: "('r, 'd, 'x) fraud_env \<Rightarrow> time \<Rightarrow> string \<Rightarrow> string \<Rightarrow> time \<Rightarrow> ('r, 'd, 'x, int) fraud_proc" where
  "queryVerifiedCount env now pgKey window since = (let cacheKey = thresholdCacheKey (fe_AppID env) pgKey window in
     bindp (getCachedCount env now cacheKey) (\<lambda>cached. case cached of
       Some n \<Rightarrow> ret n
     | None \<Rightarrow>
         bindp (audit_call (ad_SELECT (fe_audit env))) (\<lambda>rows. let count = int (length (verified_rows pgKey since rows)) in
         bindp (ignore_err (setCachedCount env now cacheKey count)) (\<lambda>_. ret count))))"

definition GetVerifiedByCountry24h :: "('r, 'd, 'x) fraud_env \<Rightarrow> time \<Rightarrow> string \<Rightarrow> ('r, 'd, 'x, int) fraud_proc" where
  "GetVerifiedByCountry24h env now country = queryVerifiedCount env now (country_metric country) ''24h'' (now - seconds 86400)"

definition GetVerifiedByCountry1h :: "('r, 'd, 'x) fraud_env \<Rightarrow> time \<Rightarrow> string \<Rightarrow> ('r, 'd, 'x, int) fraud_proc" where
  "GetVerifiedByCountry1h env now country = queryVerifiedCount env now (country_metric country) ''1h'' (now - seconds 3600)"

definition GetVerifiedByIP24h :: "('r, 'd, 'x) fraud_env \<Rightarrow> time \<Rightarrow> string \<Rightarrow> ('r, 'd, 'x, int) fraud_proc" where
  "GetVerifiedByIP24h env now ip = queryVerifiedCount env now (ip_metric ip) ''24h'' (now - seconds 86400)"

definition day_of :: "time \<Rightarrow> int" where
  "day_of t = t div seconds 86400"

definition max_daily_count :: "metric_row list \<Rightarrow> int" where
  "max_daily_count rows = (let days = map (\<lambda>m. day_of (mr_created_at m)) rows
     in foldr (\<lambda>day. max (int (count_list days day))) days 0)"

definition GetVerifiedByCountryPast14DaysRollingMax :: "('r, 'd, 'x) fraud_env \<Rightarrow> time \<Rightarrow> string \<Rightarrow> ('r, 'd, 'x, int) fraud_proc" where
  "GetVerifiedByCountryPast14DaysRollingMax env now country = (let
     pgKey = country_metric country;
     cacheKey = thresholdCacheKey (fe_AppID env) pgKey ''14d_max''
   in bindp (getCachedCount env now cacheKey) (\<lambda>cached. case cached of
       Some n \<Rightarrow> ret n
     | None \<Rightarrow> let since = day_of now * seconds 86400 - 14 * seconds 86400 in
         bindp (audit_call (ad_SELECT (fe_audit env))) (\<lambda>rows. let maxCount = max_daily_count (verified_rows pgKey since rows) in
         bindp (ignore_err (setCachedCount env now cacheKey maxCount)) (\<lambda>_. ret maxCount))))"

section \<open>The configuration\<close>

record FraudProtectionIPAlwaysAllow =
  ia_CIDRs :: "string list"
  ia_GeoLocationCodes :: "string list"

record FraudProtectionPhoneNumberAlwaysAllow =
  pa_GeoLocationCodes :: "string list"
  pa_Regex :: "string list"

record FraudProtectionAlwaysAllow =
  aa_IPAddress :: "FraudProtectionIPAlwaysAllow option"
  aa_PhoneNumber :: "FraudProtectionPhoneNumberAlwaysAllow option"

datatype decision_action = ActionUnset | ActionRecordOnly | ActionDenyIfAnyWarning

record FraudProtectionDecision =
  fd_AlwaysAllow :: "FraudProtectionAlwaysAllow option"
  fd_Action :: decision_action

record FraudProtectionConfig =
  fc_Enabled :: "bool option"
  fc_Warnings :: "(warning_type list) option"
  fc_Decision :: "FraudProtectionDecision option"

definition FraudProtectionConfig_SetDefaults :: "FraudProtectionConfig \<Rightarrow> FraudProtectionConfig" where
  "FraudProtectionConfig_SetDefaults c = (let
     c = (if fc_Enabled c = None then c\<lparr>fc_Enabled := Some True\<rparr> else c)
   in if fc_Warnings c = None then c\<lparr>fc_Warnings := Some [SMSPhoneCountriesByIPDaily, SMSUnverifiedOTPsByPhoneCountryDaily,
        SMSUnverifiedOTPsByPhoneCountryHourly, SMSUnverifiedOTPsByIPDaily, SMSUnverifiedOTPsByIPHourly]\<rparr> else c)"

definition FraudProtectionDecision_SetDefaults :: "FraudProtectionDecision \<Rightarrow> FraudProtectionDecision" where
  "FraudProtectionDecision_SetDefaults c = (if fd_Action c = ActionUnset then c\<lparr>fd_Action := ActionRecordOnly\<rparr> else c)"

section \<open>The service: \<^verbatim>\<open>service.go\<close>\<close>

definition isIPInCIDRs :: "('r, 'd, 'x) fraud_env \<Rightarrow> string \<Rightarrow> string list \<Rightarrow> bool" where
  "isIPInCIDRs env ip cidrs = (if \<not> fe_ValidIP env ip then False
     else list_ex (\<lambda>cidr. case fe_CIDRContains env cidr of None \<Rightarrow> False | Some contains \<Rightarrow> contains ip) cidrs)"

definition isIPAlwaysAllowed :: "('r, 'd, 'x) fraud_env \<Rightarrow> FraudProtectionIPAlwaysAllow option \<Rightarrow> string \<Rightarrow> bool" where
  "isIPAlwaysAllowed env ipAllow ip = (case ipAllow of
     None \<Rightarrow> False
   | Some a \<Rightarrow> if isIPInCIDRs env ip (ia_CIDRs a) then True
       else if length (ia_GeoLocationCodes a) > 0
       then (case fe_GeoIP env ip of Some code \<Rightarrow> code \<in> set (ia_GeoLocationCodes a) | None \<Rightarrow> False)
       else False)"

definition isPhoneAlwaysAllowed :: "('r, 'd, 'x) fraud_env \<Rightarrow> FraudProtectionPhoneNumberAlwaysAllow option \<Rightarrow> string \<Rightarrow> string \<Rightarrow> bool" where
  "isPhoneAlwaysAllowed env phoneAllow phoneNumber phoneCountry = (case phoneAllow of
     None \<Rightarrow> False
   | Some a \<Rightarrow> if phoneCountry \<in> set (pa_GeoLocationCodes a) then True
       else list_ex (\<lambda>pattern. case fe_Regexp env pattern of None \<Rightarrow> False | Some matches \<Rightarrow> matches phoneNumber) (pa_Regex a))"

definition isAlwaysAllowed :: "('r, 'd, 'x) fraud_env \<Rightarrow> FraudProtectionConfig \<Rightarrow> string \<Rightarrow> string \<Rightarrow> string \<Rightarrow> bool" where
  "isAlwaysAllowed env cfg ip phoneNumber phoneCountry = (case fc_Decision cfg of
     None \<Rightarrow> False
   | Some d \<Rightarrow> (case fd_AlwaysAllow d of
       None \<Rightarrow> False
     | Some a \<Rightarrow> isIPAlwaysAllowed env (aa_IPAddress a) ip \<or>
         isPhoneAlwaysAllowed env (aa_PhoneNumber a) phoneNumber phoneCountry))"

definition evaluateWarnings :: "FraudProtectionConfig \<Rightarrow> LeakyBucketTriggered \<Rightarrow> warning_type list" where
  "evaluateWarnings cfg triggered = (let
     enabled = (\<lambda>w. case fc_Warnings cfg of None \<Rightarrow> False | Some ws \<Rightarrow> w \<in> set ws)
   in (if tr_IPCountriesDaily triggered \<and> enabled SMSPhoneCountriesByIPDaily then [SMSPhoneCountriesByIPDaily] else [])
    @ (if tr_CountryDaily triggered \<and> enabled SMSUnverifiedOTPsByPhoneCountryDaily then [SMSUnverifiedOTPsByPhoneCountryDaily] else [])
    @ (if tr_CountryHourly triggered \<and> enabled SMSUnverifiedOTPsByPhoneCountryHourly then [SMSUnverifiedOTPsByPhoneCountryHourly] else [])
    @ (if tr_IPDaily triggered \<and> enabled SMSUnverifiedOTPsByIPDaily then [SMSUnverifiedOTPsByIPDaily] else [])
    @ (if tr_IPHourly triggered \<and> enabled SMSUnverifiedOTPsByIPHourly then [SMSUnverifiedOTPsByIPHourly] else []))"

definition thresholdScaleFactor :: rat where "thresholdScaleFactor = 1 / 5"
definition thresholdHoursPerDay :: rat where "thresholdHoursPerDay = 6"

definition ComputeThresholds :: "('r, 'd, 'x) fraud_env \<Rightarrow> time \<Rightarrow> string \<Rightarrow> string \<Rightarrow> ('r, 'd, 'x, LeakyBucketThresholds) fraud_proc" where
  "ComputeThresholds env now ip phoneCountry =
     bindp (GetVerifiedByCountryPast14DaysRollingMax env now phoneCountry) (\<lambda>rollingMax.
     bindp (GetVerifiedByCountry24h env now phoneCountry) (\<lambda>verifiedByCountry24h.
     bindp (GetVerifiedByCountry1h env now phoneCountry) (\<lambda>verifiedByCountry1h.
     bindp (GetVerifiedByIP24h env now ip) (\<lambda>verifiedByIP24h. let
       countryDaily = max 20 (max (of_int rollingMax * thresholdScaleFactor) (of_int verifiedByCountry24h * thresholdScaleFactor));
       countryHourly = max 3 (max (countryDaily / thresholdHoursPerDay) (of_int verifiedByCountry1h * thresholdScaleFactor));
       ipDaily = max 10 (of_int verifiedByIP24h * thresholdScaleFactor);
       ipHourly = max 5 (of_int verifiedByIP24h * thresholdScaleFactor / thresholdHoursPerDay)
     in ret \<lparr>th_CountryHourly = countryHourly, th_CountryDaily = countryDaily, th_IPHourly = ipHourly, th_IPDaily = ipDaily\<rparr>))))"

text \<open>What a request says of itself.\<close>

record fraud_request =
  rq_RemoteIP :: string
  rq_UserAgent :: string
  rq_URL :: string
  rq_Referer :: string
  rq_UserID :: "string option"

definition phone_country :: "('r, 'd, 'x) fraud_env \<Rightarrow> string \<Rightarrow> string option" where
  "phone_country env phoneNumber = (case fe_ParsePhone env phoneNumber of Some (alpha2 # _) \<Rightarrow> Some alpha2 | _ \<Rightarrow> None)"

definition fraud_deref :: "'a option \<Rightarrow> ('r, 'd, 'x, 'a) fraud_proc" where
  "fraud_deref v = (case v of None \<Rightarrow> panicp | Some x \<Rightarrow> ret x)"

definition dispatchDecision :: "('r, 'd, 'x) fraud_env \<Rightarrow> FraudProtectionDecisionRecord \<Rightarrow> ('r, 'd, 'x, unit) fraud_proc" where
  "dispatchDecision env payload = (\<lambda>w. case fe_Dispatch env payload (fw_rest w) of
     (Inl e, x) \<Rightarrow> (Err (FraudInfraError e), w\<lparr>fw_rest := x\<rparr>) | (Inr _, x) \<Rightarrow> (Ok (), w\<lparr>fw_rest := x\<rparr>))"

definition decision_record ::
    "('r, 'd, 'x) fraud_env \<Rightarrow> time \<Rightarrow> fraud_request \<Rightarrow> string \<Rightarrow> string \<Rightarrow> string \<Rightarrow> warning_type list \<Rightarrow> decision
     \<Rightarrow> FraudProtectionDecisionRecord" where
  "decision_record env now rq phoneNumber messageType phoneCountry warnings decision =
     \<lparr>dr_Timestamp = now, dr_Decision = decision, dr_Action = ''send_sms'', dr_Recipient = phoneNumber, dr_Type = messageType,
       dr_PhoneNumberCountryCode = phoneCountry, dr_TriggeredWarnings = warnings, dr_UserAgent = rq_UserAgent rq,
       dr_IPAddress = rq_RemoteIP rq, dr_HTTPUrl = rq_URL rq, dr_HTTPReferer = rq_Referer rq,
       dr_UserID = (case rq_UserID rq of Some uid \<Rightarrow> uid | None \<Rightarrow> ''''),
       dr_GeoLocationCode = (case fe_GeoIP env (rq_RemoteIP rq) of Some code \<Rightarrow> code | None \<Rightarrow> '''')\<rparr>"

definition CheckAndRecord ::
    "('r, 'd, 'x) fraud_env \<Rightarrow> FraudProtectionConfig \<Rightarrow> time \<Rightarrow> fraud_request \<Rightarrow> string \<Rightarrow> string \<Rightarrow> ('r, 'd, 'x, unit) fraud_proc" where
  "CheckAndRecord env cfg now rq phoneNumber messageType =
     bindp (fraud_deref (fc_Enabled cfg)) (\<lambda>enabled.
     if \<not> enabled then ret () else let ip = rq_RemoteIP rq in
     case phone_country env phoneNumber of
       None \<Rightarrow> ret ()
     | Some phoneCountry \<Rightarrow>
       if isAlwaysAllowed env cfg ip phoneNumber phoneCountry then ret () else
       bindp (ComputeThresholds env now ip phoneCountry) (\<lambda>thresholds.
       bindp (RecordSMSOTPSent env now ip phoneCountry thresholds) (\<lambda>(triggered, levels). let
         warnings = evaluateWarnings cfg triggered in
       bindp (fraud_deref (fc_Decision cfg)) (\<lambda>d. let
         decision = (if fd_Action d = ActionDenyIfAnyWarning \<and> length warnings > 0 then DecisionBlocked else DecisionAllowed);
         payload = decision_record env now rq phoneNumber messageType phoneCountry warnings decision in
       bindp (ignore_err (dispatchDecision env payload)) (\<lambda>_.
       if decision = DecisionBlocked then failp ErrBlockedByFraudProtection else ret ())))))"

definition RevertSMSOTPSent ::
    "('r, 'd, 'x) fraud_env \<Rightarrow> FraudProtectionConfig \<Rightarrow> time \<Rightarrow> string \<Rightarrow> string \<Rightarrow> int \<Rightarrow> ('r, 'd, 'x, unit) fraud_proc" where
  "RevertSMSOTPSent env cfg now ip phoneNumber count =
     bindp (fraud_deref (fc_Enabled cfg)) (\<lambda>enabled.
     if \<not> enabled then ret () else case phone_country env phoneNumber of
       None \<Rightarrow> ret ()
     | Some phoneCountry \<Rightarrow>
       bindp (ComputeThresholds env now ip phoneCountry) (\<lambda>thresholds.
       Bucket_RecordSMSOTPVerified env now ip phoneCountry thresholds count))"

definition Fraud_RecordSMSOTPVerified ::
    "('r, 'd, 'x) fraud_env \<Rightarrow> FraudProtectionConfig \<Rightarrow> time \<Rightarrow> string \<Rightarrow> string \<Rightarrow> ('r, 'd, 'x, unit) fraud_proc" where
  "Fraud_RecordSMSOTPVerified env cfg now ip phoneNumber =
     bindp (fraud_deref (fc_Enabled cfg)) (\<lambda>enabled.
     if \<not> enabled then ret () else case phone_country env phoneNumber of
       None \<Rightarrow> ret ()
     | Some phoneCountry \<Rightarrow>
       bindp (RecordVerified env now ip phoneCountry) (\<lambda>_.
       RevertSMSOTPSent env cfg now ip phoneNumber 1))"

section \<open>One bucket\<close>

datatype bucket = CountryHourly | CountryDaily | IPHourly | IPDaily

fun bucket_threshold :: "bucket \<Rightarrow> LeakyBucketThresholds \<Rightarrow> rat" where
  "bucket_threshold CountryHourly = th_CountryHourly"
| "bucket_threshold CountryDaily = th_CountryDaily"
| "bucket_threshold IPHourly = th_IPHourly"
| "bucket_threshold IPDaily = th_IPDaily"

fun bucket_triggered :: "bucket \<Rightarrow> LeakyBucketTriggered \<Rightarrow> bool" where
  "bucket_triggered CountryHourly = tr_CountryHourly"
| "bucket_triggered CountryDaily = tr_CountryDaily"
| "bucket_triggered IPHourly = tr_IPHourly"
| "bucket_triggered IPDaily = tr_IPDaily"

fun bucket_warning :: "bucket \<Rightarrow> warning_type" where
  "bucket_warning CountryHourly = SMSUnverifiedOTPsByPhoneCountryHourly"
| "bucket_warning CountryDaily = SMSUnverifiedOTPsByPhoneCountryDaily"
| "bucket_warning IPHourly = SMSUnverifiedOTPsByIPHourly"
| "bucket_warning IPDaily = SMSUnverifiedOTPsByIPDaily"

fun bucket_window :: "bucket \<Rightarrow> int" where
  "bucket_window CountryHourly = 3600"
| "bucket_window CountryDaily = 86400"
| "bucket_window IPHourly = 3600"
| "bucket_window IPDaily = 86400"

fun bucket_value :: "bucket \<Rightarrow> string \<Rightarrow> string \<Rightarrow> string" where
  "bucket_value CountryHourly ip country = country"
| "bucket_value CountryDaily ip country = country"
| "bucket_value IPHourly ip country = ip"
| "bucket_value IPDaily ip country = ip"

fun bucket_dimension :: "bucket \<Rightarrow> string" where
  "bucket_dimension CountryHourly = ''country''"
| "bucket_dimension CountryDaily = ''country''"
| "bucket_dimension IPHourly = ''ip''"
| "bucket_dimension IPDaily = ''ip''"

definition bucket_key :: "string \<Rightarrow> bucket \<Rightarrow> string \<Rightarrow> string" where
  "bucket_key app b v = bucketKey app (bucket_window b) (bucket_dimension b) v"

lemma bucket_window_pos: "0 < bucket_window b"
  by (cases b) simp_all

lemmas key_defs = bucketKey_def ipCountriesKey_def thresholdCacheKey_def bucket_key_def period_string_def
  bucketWindowHourly_def bucketWindowDaily_def

lemma keys_apart [simp]:
  "bucket_key app b v = bucket_key app b' v' \<longleftrightarrow> b = b' \<and> v = v'"
  "bucket_key app b v \<noteq> ipCountriesKey app ip" "ipCountriesKey app ip \<noteq> bucket_key app b v"
  "thresholdCacheKey app p wi \<noteq> bucket_key app b v" "bucket_key app b v \<noteq> thresholdCacheKey app p wi"
  "thresholdCacheKey app p wi \<noteq> ipCountriesKey app ip" "ipCountriesKey app ip \<noteq> thresholdCacheKey app p wi"
  "ipCountriesKey app ip = ipCountriesKey app ip' \<longleftrightarrow> ip = ip'"
  by (cases b; cases b'; simp add: key_defs)+ (simp add: key_defs)?

lemma bucket_keys:
  "bucketKey app bucketWindowHourly ''country'' v = bucket_key app CountryHourly v"
  "bucketKey app bucketWindowDaily ''country'' v = bucket_key app CountryDaily v"
  "bucketKey app bucketWindowHourly ''ip'' v = bucket_key app IPHourly v"
  "bucketKey app bucketWindowDaily ''ip'' v = bucket_key app IPDaily v"
  by (simp_all add: key_defs)

definition bucket_fill :: "time \<Rightarrow> bucket \<Rightarrow> rat \<Rightarrow> fraud_script" where
  "bucket_fill now b threshold = leakyBucketScript now (of_int (Unix now)) threshold (of_int (bucket_window b)) 1 (2 * bucket_window b)"

definition bucket_drain :: "time \<Rightarrow> bucket \<Rightarrow> rat \<Rightarrow> int \<Rightarrow> fraud_script" where
  "bucket_drain now b threshold count = leakyBucketScript now (of_int (Unix now)) threshold (of_int (bucket_window b)) (- of_int count) 0"

section \<open>What a bucket owes\<close>

text \<open>
  The potential of a bucket. \<open>a\<close> is how many messages were let through since \<open>t0\<close> less what was drained, \<open>d\<close> how fast
  the largest threshold leaks: the level pays for all of them but one, up to what leaked since. When the key has expired,
  everything has leaked.
\<close>

fun owes :: "rat \<Rightarrow> int \<Rightarrow> rat \<Rightarrow> rat \<Rightarrow> time \<Rightarrow> fraud_entry \<Rightarrow> bool" where
  "owes d t0 a thr t None = (a - 1 \<le> d * of_int (Unix t - t0))"
| "owes d t0 a thr t (Some (BucketValue l u, x)) =
    (0 \<le> l \<and> u \<le> of_int (Unix t) \<and> (a \<le> 0 \<or> of_int t0 \<le> u \<and> a - 1 - d * (u - of_int t0) \<le> min l thr) \<and>
     (case x of None \<Rightarrow> True | Some e \<Rightarrow> t < e \<and> a - 1 \<le> d * of_int (Unix e - t0)))"
| "owes d t0 a thr t (Some _) = False"

lemma Unix_mono: "t \<le> t' \<Longrightarrow> Unix t \<le> Unix t'"
  by (simp add: Unix_def zdiv_mono1)

lemma Unix_add [simp]: "Unix (now + seconds s) = Unix now + s"
  by (simp add: Unix_def seconds_def)

lemma owes_cases:
  assumes "owes d t0 a thr t e"
  obtains "e = None" "a - 1 \<le> d * of_int (Unix t - t0)"
  | l u x where "e = Some (BucketValue l u, x)" "0 \<le> l" "u \<le> of_int (Unix t)"
      "a \<le> 0 \<or> of_int t0 \<le> u \<and> a - 1 - d * (u - of_int t0) \<le> min l thr"
      "\<And>y. x = Some y \<Longrightarrow> t < y \<and> a - 1 \<le> d * of_int (Unix y - t0)"
  using assms by (cases "(d, t0, a, thr, t, e)" rule: owes.cases) (auto split: option.splits)

lemma owes_mono:
  assumes "owes d t0 a thr t e" "a' \<le> a" "thr \<le> thr'"
  shows "owes d t0 a' thr' t e"
  using assms(1) by (rule owes_cases) (use assms(2,3) in \<open>auto split: option.splits\<close>)

lemma owes_later:
  assumes "owes d t0 a thr t e" "t \<le> t'" "0 \<le> d"
  shows "owes d t0 a thr t' (alive t' e)"
proof -
  have later: "d * of_int (Unix s - t0) \<le> d * of_int (Unix s' - t0)" if "s \<le> s'" for s s'
    using Unix_mono [OF that] assms(3) by (intro mult_left_mono) simp_all
  from assms(1) show ?thesis
  proof (cases rule: owes_cases)
    case 1
    with later [OF assms(2)] show ?thesis by (simp add: alive_def)
  next
    case (2 l u x)
    have "u \<le> of_int (Unix t')" using 2(3) Unix_mono [OF assms(2)] by linarith
    note u = this
    show ?thesis
    proof (cases x)
      case (Some y)
      from 2(5) [OF this] have y: "t < y" "a - 1 \<le> d * of_int (Unix y - t0)" by simp_all
      show ?thesis
      proof (cases "t' < y")
        case False
        then have "a - 1 \<le> d * of_int (Unix t' - t0)" using y(2) later [of y t'] by simp
        with 2(1) Some False show ?thesis by (simp add: alive_def)
      qed (use 2 u Some y in \<open>simp add: alive_def\<close>)
    qed (use 2 u in \<open>simp add: alive_def\<close>)
  qed
qed

text \<open>Filling a bucket up to its threshold is paid for by the level, and a bucket that is overfull does not count.\<close>

lemma bucket_fill_owes:
  assumes "owes d t0 a thr now e" "thr \<le> thr'" "0 \<le> thr" "thr' \<le> M" "d * of_int (bucket_window b) = M" "0 \<le> d" "t0 \<le> Unix now"
    and "bucket_fill now b thr' e = (reply, e')"
  obtains l i where "reply = Inr (l, i)" "owes d t0 (if i = 1 then a else a + 1) thr' now e'" "alive now e' = e'"
proof -
  let ?p = "of_int (bucket_window b) :: rat" and ?s = "of_int (Unix now) :: rat"
  note p = bucket_window_pos [of b]
  define l where "l = (case e of Some (BucketValue l _, _) \<Rightarrow> l | _ \<Rightarrow> 0)"
  define u where "u = (case e of Some (BucketValue _ u, _) \<Rightarrow> u | _ \<Rightarrow> ?s)"
  define nl where "nl = max 0 (min l thr' - (?s - u) * (thr' / ?p) + 1)"
  define a' where "a' = (if nl > thr' then a else a + 1)"
  have run: "reply = Inr (lua_reply nl, if nl > thr' then 1 else 0)"
      "e' = Some (BucketValue nl ?s, Some (now + seconds (2 * bucket_window b)))"
  proof -
    have "(reply, e') = (Inr (lua_reply nl, if nl > thr' then 1 else 0), Some (BucketValue nl ?s, Some (now + seconds (2 * bucket_window b))))"
      using assms(1)
      by (cases rule: owes_cases)
        (simp_all add: assms(8) [symmetric] bucket_fill_def leakyBucketScript_def nl_def l_def u_def Let_def)
    then show "reply = Inr (lua_reply nl, if nl > thr' then 1 else 0)"
      "e' = Some (BucketValue nl ?s, Some (now + seconds (2 * bucket_window b)))" by simp_all
  qed
  have d: "thr' / ?p \<le> d" using assms(4,5) p by (simp add: field_simps)
  have s: "0 \<le> d * (?s - of_int t0)" using assms(6,7) by simp
  have pay: "a \<le> 0 \<or> a - 1 - d * (?s - of_int t0) \<le> min l thr' - (?s - u) * (thr' / ?p)"
    using assms(1)
  proof (cases rule: owes_cases)
    case 1
    then have "l = 0" "u = ?s" by (simp_all add: l_def u_def)
    with 1 assms(2,3) show ?thesis by simp
  next
    case (2 l' u' x)
    then have e: "l = l'" "u = u'" by (simp_all add: l_def u_def)
    have "(?s - u) * (thr' / ?p) \<le> (?s - u) * d" using d 2(3) by (intro mult_left_mono) (simp_all add: e)
    moreover have "d * (?s - of_int t0) = d * (u - of_int t0) + (?s - u) * d" by (simp add: algebra_simps)
    ultimately show ?thesis using 2(4) assms(2) unfolding e by linarith
  qed
  have leak: "0 \<le> (?s - u) * (thr' / ?p)"
    using assms(1) p assms(2,3) by (cases rule: owes_cases) (simp_all add: u_def)
  have paid: "a' \<le> 0 \<or> a' - 1 - d * (?s - of_int t0) \<le> min nl thr'"
    using pay s leak assms(2,3) by (simp add: a'_def nl_def; linarith)
  have "a' - 1 \<le> d * of_int (Unix now + 2 * bucket_window b - t0)"
  proof -
    have "d * of_int (Unix now + 2 * bucket_window b - t0) = d * (?s - of_int t0) + 2 * M"
      by (simp add: assms(5) [symmetric] algebra_simps)
    then show ?thesis using paid s assms(2,3,4) by linarith
  qed
  moreover have "now < now + seconds (2 * bucket_window b)" using p by (simp add: seconds_def)
  moreover have "0 \<le> nl" by (simp add: nl_def)
  ultimately have "owes d t0 a' thr' now e'"
    using paid assms(7) by (auto simp: run(2))
  moreover have "a' = (if (if nl > thr' then 1 else 0 :: int) = 1 then a else a + 1)" by (simp add: a'_def)
  moreover have "alive now e' = e'" using p by (simp add: run(2) alive_def seconds_def)
  ultimately show thesis using that run(1) by metis
qed

lemma bucket_drain_owes:
  assumes "owes d t0 a thr now e" "thr \<le> thr'" "0 \<le> thr" "thr' \<le> M" "d * of_int (bucket_window b) = M" "0 \<le> d" "t0 \<le> Unix now" "0 \<le> n"
  shows "owes d t0 (a - of_int n) thr' now (alive now (snd (bucket_drain now b thr' n e)))"
proof -
  let ?p = "of_int (bucket_window b) :: rat" and ?s = "of_int (Unix now) :: rat"
  note p = bucket_window_pos [of b]
  have d: "thr' / ?p \<le> d" using assms(4,5) p by (simp add: field_simps)
  have s: "0 \<le> d * (?s - of_int t0)" using assms(6,7) by simp
  have "owes d t0 (a - of_int n) thr' now (snd (bucket_drain now b thr' n e))"
    using assms(1)
  proof (cases rule: owes_cases)
    case 1
    with assms(2,3,7,8) s show ?thesis
      by (auto simp: bucket_drain_def leakyBucketScript_def Let_def)
  next
    case (2 l u x)
    define nl where "nl = max 0 (min l thr' - (?s - u) * (thr' / ?p) + - of_int n)"
    have "(?s - u) * (thr' / ?p) \<le> (?s - u) * d" using d 2(3) by (intro mult_left_mono) simp_all
    moreover have "d * (?s - of_int t0) = d * (u - of_int t0) + (?s - u) * d" by (simp add: algebra_simps)
    moreover have "0 \<le> (?s - u) * (thr' / ?p)" using p assms(2,3) 2(3) by simp
    ultimately have "a - of_int n \<le> 0 \<or> a - of_int n - 1 - d * (?s - of_int t0) \<le> min nl thr'"
      using 2(4) assms(2,3,8) unfolding nl_def by linarith
    moreover have "snd (bucket_drain now b thr' n e) = (if n = 0 then e else Some (BucketValue nl ?s, x))"
      using assms(8) by (auto simp: 2(1) bucket_drain_def leakyBucketScript_def nl_def Let_def)
    ultimately show ?thesis
      using 2 assms(2,7,8) owes_mono [OF assms(1), of a thr'] by (fastforce simp: nl_def split: option.splits)
  qed
  from owes_later [OF this order.refl assms(6)] show ?thesis .
qed

definition fillBucket :: "('r, 'd, 'x) fraud_env \<Rightarrow> time \<Rightarrow> bucket \<Rightarrow> string \<Rightarrow> rat \<Rightarrow> ('r, 'd, 'x, int \<times> bool) fraud_proc" where
  "fillBucket env now b v threshold = evalBucket env now (bucket_key (fe_AppID env) b v) threshold (bucket_window b) (2 * bucket_window b)"

definition drainsBucket :: "('r, 'd, 'x) fraud_env \<Rightarrow> time \<Rightarrow> int \<Rightarrow> bucket \<Rightarrow> string \<Rightarrow> rat \<Rightarrow> ('r, 'd, 'x, unit) fraud_proc" where
  "drainsBucket env now n b v threshold = drainBucket env now (- of_int n) (bucket_key (fe_AppID env) b v) threshold (bucket_window b)"

lemma sent_eq:
  "RecordSMSOTPSent env now ip country th =
     bindp (fillBucket env now CountryHourly country (th_CountryHourly th)) (\<lambda>(lvCH, trCH).
     bindp (fillBucket env now CountryDaily country (th_CountryDaily th)) (\<lambda>(lvCD, trCD).
     bindp (fillBucket env now IPHourly ip (th_IPHourly th)) (\<lambda>(lvIH, trIH).
     bindp (fillBucket env now IPDaily ip (th_IPDaily th)) (\<lambda>(lvID, trID).
     bindp (redis_call (fr_EVAL (fe_redis env) now (ipCountriesKey (fe_AppID env) ip)
       (ipCountriesScript now country (of_int (Unix now)) ipCountriesThreshold (2 * bucketWindowDaily)))) (\<lambda>(count, triggeredInt).
     ret (\<lparr>tr_CountryHourly = trCH, tr_CountryDaily = trCD, tr_IPHourly = trIH, tr_IPDaily = trID,
            tr_IPCountriesDaily = (triggeredInt = 1)\<rparr>,
          \<lparr>lv_CountryHourly = lvCH, lv_CountryDaily = lvCD, lv_IPHourly = lvIH, lv_IPDaily = lvID,
            lv_IPCountriesCount = count\<rparr>))))))"
  unfolding RecordSMSOTPSent_def fillBucket_def bucket_keys Let_def by (simp add: bucketWindowHourly_def bucketWindowDaily_def)

lemma drained_eq:
  "Bucket_RecordSMSOTPVerified env now ip country th n =
     bindp (drainsBucket env now n CountryHourly country (th_CountryHourly th)) (\<lambda>_.
     bindp (drainsBucket env now n CountryDaily country (th_CountryDaily th)) (\<lambda>_.
     bindp (drainsBucket env now n IPHourly ip (th_IPHourly th)) (\<lambda>_.
     drainsBucket env now n IPDaily ip (th_IPDaily th))))"
  unfolding Bucket_RecordSMSOTPVerified_def drainsBucket_def bucket_keys Let_def by (simp add: bucketWindowHourly_def bucketWindowDaily_def)

locale fraud_service = fraud_keys "fe_redis env" view
  for env :: "('r, 'd, 'x) fraud_env" and view :: "time \<Rightarrow> 'r \<Rightarrow> string \<Rightarrow> fraud_entry"
begin

definition unchanged :: "time \<Rightarrow> string \<Rightarrow> ('r, 'd, 'x) fraud_world \<Rightarrow> ('r, 'd, 'x) fraud_world \<Rightarrow> bool" where
  "unchanged now k w w' \<longleftrightarrow> view now (fw_redis w') k = view now (fw_redis w) k"

lemma unchanged_reflp [simp]: "reflp (unchanged now k)" and unchanged_transp [simp]: "transp (unchanged now k)"
  by (auto simp: unchanged_def intro: reflpI transpI)

lemma eval_keeps [keeps_intros]: "key \<noteq> k \<Longrightarrow> keeps (unchanged now k) (redis_call (fr_EVAL (fe_redis env) now key f))"
  by (auto simp: keeps_def unchanged_def redis_call_def split: prod.split sum.split dest: EVAL_other [OF _ order.refl])

lemma get_keeps [keeps_intros]: "keeps (unchanged now k) (redis_call (fr_GET (fe_redis env) now key))"
  by (auto simp: keeps_def unchanged_def redis_call_def split: prod.split sum.split dest: GET)

lemma set_keeps [keeps_intros]: "key \<noteq> k \<Longrightarrow> keeps (unchanged now k) (redis_call (fr_SET (fe_redis env) now key v d))"
  by (auto simp: keeps_def unchanged_def redis_call_def split: prod.split sum.split dest: SET [OF _ order.refl])

lemma audit_keeps [keeps_intros]: "keeps (unchanged now k) (audit_call c)"
  by (auto simp: keeps_def unchanged_def audit_call_def split: prod.split sum.split)

lemma dispatch_keeps [keeps_intros]: "keeps (unchanged now k) (dispatchDecision env p)"
  by (auto simp: keeps_def unchanged_def dispatchDecision_def split: prod.split sum.split)

lemmas keeping = keeps_intros unchanged_reflp unchanged_transp

lemma count_keeps [keeps_intros]:
  assumes "\<And>p wi. thresholdCacheKey (fe_AppID env) p wi \<noteq> k"
  shows "keeps (unchanged now k) (queryVerifiedCount env now pgKey window since)"
    and "keeps (unchanged now k) (GetVerifiedByCountryPast14DaysRollingMax env now country)"
  unfolding queryVerifiedCount_def GetVerifiedByCountryPast14DaysRollingMax_def getCachedCount_def setCachedCount_def Let_def
  by (intro keeping assms | split option.split fraud_value.split | intro conjI impI allI)+

lemma thresholds_keep [keeps_intros]:
  assumes "\<And>p wi. thresholdCacheKey (fe_AppID env) p wi \<noteq> k"
  shows "keeps (unchanged now k) (ComputeThresholds env now ip country)"
  unfolding ComputeThresholds_def GetVerifiedByCountry24h_def GetVerifiedByCountry1h_def GetVerifiedByIP24h_def Let_def
  by (intro keeping count_keeps assms)

text \<open>A script was run on a key, or the key is as before; the latter only when the call failed.\<close>

definition stepped :: "time \<Rightarrow> string \<Rightarrow> fraud_script \<Rightarrow> ('r, 'd, 'x) fraud_world \<Rightarrow> ('r, 'd, 'x) fraud_world \<Rightarrow> bool" where
  "stepped now k f w w' \<longleftrightarrow> view now (fw_redis w') k = alive now (snd (f (view now (fw_redis w) k)))"

definition hits :: "time \<Rightarrow> string \<Rightarrow> fraud_script \<Rightarrow> ('r, 'd, 'x, 'a) fraud_proc \<Rightarrow> bool" where
  "hits now k f m \<longleftrightarrow> (\<forall>w res w'. m w = (res, w') \<longrightarrow> (is_ok res \<longrightarrow> stepped now k f w w') \<and> (unchanged now k w w' \<or> stepped now k f w w'))"

lemma hitsD:
  assumes "hits now k f m" "m w = (res, w')"
  shows "is_ok res \<Longrightarrow> stepped now k f w w'" "unchanged now k w w' \<or> stepped now k f w w'"
  using assms by (auto simp: hits_def)

lemma hits_eval: "hits now k f (redis_call (fr_EVAL (fe_redis env) now k f))"
  by (auto simp: hits_def redis_call_def stepped_def unchanged_def split: prod.splits sum.splits
      dest: EVAL_done [OF _ order.refl] EVAL_failed [OF _ order.refl])

lemma hits_then:
  assumes "hits now k f m" "\<And>x. keeps (unchanged now k) (g x)"
  shows "hits now k f (bindp m g)"
  unfolding hits_def
proof (intro allI impI)
  fix w res w' assume run: "bindp m g w = (res, w')"
  obtain r1 w1 where m: "m w = (r1, w1)" by fastforce
  have "unchanged now k w1 w'" "is_ok res \<Longrightarrow> is_ok r1"
    using keeps_rest [OF run m assms(2)] by simp_all
  with hitsD [OF assms(1) m] show "(is_ok res \<longrightarrow> stepped now k f w w') \<and> (unchanged now k w w' \<or> stepped now k f w w')"
    by (auto simp: stepped_def unchanged_def)
qed

lemma then_hits:
  assumes "keeps (unchanged now k) m" "\<And>x. hits now k f (g x)"
  shows "hits now k f (bindp m g)"
  unfolding hits_def
proof (intro allI impI)
  fix w res w' assume run: "bindp m g w = (res, w')"
  obtain r1 w1 where m: "m w = (r1, w1)" by fastforce
  have same: "view now (fw_redis w1) k = view now (fw_redis w) k"
    using keepsD [OF assms(1) m] by (simp add: unchanged_def)
  show "(is_ok res \<longrightarrow> stepped now k f w w') \<and> (unchanged now k w w' \<or> stepped now k f w w')"
  proof (cases r1)
    case (Ok x)
    with run m have "g x w1 = (res, w')" by (simp add: bindp_run)
    from hitsD [OF assms(2) this] same show ?thesis by (auto simp: stepped_def unchanged_def)
  qed (use run m same in \<open>auto simp: bindp_run unchanged_def\<close>)
qed

lemma hits_case_prod [intro]: "(\<And>a b. hits now k f (g a b)) \<Longrightarrow> hits now k f (case p of (a, b) \<Rightarrow> g a b)"
  by (cases p) simp

lemma fillBucket_keeps [keeps_intros]: "bucket_key (fe_AppID env) b v \<noteq> k \<Longrightarrow> keeps (unchanged now k) (fillBucket env now b v th)"
  unfolding fillBucket_def evalBucket_def by (intro keeping)

lemma drainsBucket_keeps [keeps_intros]: "bucket_key (fe_AppID env) b v \<noteq> k \<Longrightarrow> keeps (unchanged now k) (drainsBucket env now n b v th)"
  unfolding drainsBucket_def drainBucket_def by (intro keeping)

lemma fillBucket_hits: "hits now (bucket_key (fe_AppID env) b v) (bucket_fill now b th) (fillBucket env now b v th)"
  unfolding fillBucket_def evalBucket_def bucket_fill_def by (intro hits_then hits_eval keeping)

lemma drainsBucket_hits: "hits now (bucket_key (fe_AppID env) b v) (bucket_drain now b th n) (drainsBucket env now n b v th)"
  unfolding drainsBucket_def drainBucket_def bucket_drain_def by (intro hits_then hits_eval keeping)

lemma sent_keeps: "bucket_value b ip country \<noteq> v \<Longrightarrow> keeps (unchanged now (bucket_key (fe_AppID env) b v)) (RecordSMSOTPSent env now ip country th)"
  unfolding sent_eq by (cases b) (auto intro!: keeping fillBucket_keeps)

lemma drained_keeps:
  "bucket_value b ip country \<noteq> v \<Longrightarrow> keeps (unchanged now (bucket_key (fe_AppID env) b v)) (Bucket_RecordSMSOTPVerified env now ip country th n)"
  unfolding drained_eq by (cases b) (auto intro!: keeping drainsBucket_keeps)

lemmas hitting = then_hits [OF fillBucket_keeps hits_case_prod] hits_then [OF fillBucket_hits]
  then_hits [OF drainsBucket_keeps] hits_then [OF drainsBucket_hits] drainsBucket_hits

lemma sent_hits:
  "hits now (bucket_key (fe_AppID env) b (bucket_value b ip country)) (bucket_fill now b (bucket_threshold b th))
     (RecordSMSOTPSent env now ip country th)"
  unfolding sent_eq by (cases b) (auto intro!: hitting keeping fillBucket_keeps)

lemma drained_hits:
  "hits now (bucket_key (fe_AppID env) b (bucket_value b ip country)) (bucket_drain now b (bucket_threshold b th) n)
     (Bucket_RecordSMSOTPVerified env now ip country th n)"
  unfolding drained_eq by (cases b) (auto intro!: hitting keeping drainsBucket_keeps)

text \<open>What a request that was let through saw of a bucket.\<close>

lemma fill_reply:
  assumes "fillBucket env now b v th w = (Ok (l, tr), w')"
  shows "\<exists>i. fst (bucket_fill now b th (view now (fw_redis w) (bucket_key (fe_AppID env) b v))) = Inr (l, i) \<and> tr = (i = 1)"
  using assms by (auto simp: fillBucket_def evalBucket_def bucket_fill_def bindp_Ok redis_call_def run_simps
      split: prod.splits sum.splits dest!: EVAL_done [OF _ order.refl])

lemma fill_unchanged:
  assumes "fillBucket env now b v th w = (res, w')" "b \<noteq> b' \<or> v \<noteq> v'"
  shows "view now (fw_redis w') (bucket_key (fe_AppID env) b' v') = view now (fw_redis w) (bucket_key (fe_AppID env) b' v')"
  using keepsD [OF fillBucket_keeps assms(1)] assms(2) by (simp add: unchanged_def)

lemma sent_reply:
  assumes "RecordSMSOTPSent env now ip country th w = (Ok (tr, lv), w')"
  shows "\<exists>l i. fst (bucket_fill now b (bucket_threshold b th) (view now (fw_redis w) (bucket_key (fe_AppID env) b (bucket_value b ip country))))
    = Inr (l, i) \<and> bucket_triggered b tr = (i = 1)"
proof -
  from assms obtain l1 t1 w1 l2 t2 w2 l3 t3 w3 l4 t4 w4 where
      f: "fillBucket env now CountryHourly country (th_CountryHourly th) w = (Ok (l1, t1), w1)"
        "fillBucket env now CountryDaily country (th_CountryDaily th) w1 = (Ok (l2, t2), w2)"
        "fillBucket env now IPHourly ip (th_IPHourly th) w2 = (Ok (l3, t3), w3)"
        "fillBucket env now IPDaily ip (th_IPDaily th) w3 = (Ok (l4, t4), w4)"
      and tr: "tr_CountryHourly tr = t1" "tr_CountryDaily tr = t2" "tr_IPHourly tr = t3" "tr_IPDaily tr = t4"
    unfolding sent_eq by (auto simp: bindp_Ok run_simps split: prod.splits)
  note r = fill_reply [OF f(1)] fill_reply [OF f(2)] fill_reply [OF f(3)] fill_reply [OF f(4)]
  show ?thesis
    by (cases b) (use r in \<open>auto simp: tr fill_unchanged [OF f(1)] fill_unchanged [OF f(2)] fill_unchanged [OF f(3)]\<close>)
qed

end

section \<open>A history of messages\<close>

text \<open>
  What the requests of all users do to one bucket. The state counts the messages let through, but for those that are always
  allowed, and what verified codes and reverted messages drained; \<open>thr\<close> is the threshold in use. Thresholds do not
  fall and stay below \<open>M\<close>.
\<close>

definition limited :: "('r, 'd, 'x) fraud_env \<Rightarrow> FraudProtectionConfig \<Rightarrow> bucket \<Rightarrow> string \<Rightarrow> string \<Rightarrow> string \<Rightarrow> bool" where
  "limited env cfg b v ip phone = (case phone_country env phone of None \<Rightarrow> False
     | Some country \<Rightarrow> bucket_value b ip country = v \<and> \<not> isAlwaysAllowed env cfg ip phone country)"

definition concerned :: "('r, 'd, 'x) fraud_env \<Rightarrow> bucket \<Rightarrow> string \<Rightarrow> string \<Rightarrow> string \<Rightarrow> bool" where
  "concerned env b v ip phone = (case phone_country env phone of None \<Rightarrow> False | Some country \<Rightarrow> bucket_value b ip country = v)"

definition threshold_is :: "('r, 'd, 'x) fraud_env \<Rightarrow> time \<Rightarrow> bucket \<Rightarrow> string \<Rightarrow> string \<Rightarrow> ('r, 'd, 'x) fraud_world \<Rightarrow> rat \<Rightarrow> bool" where
  "threshold_is env now b ip phone w thr = (case phone_country env phone of None \<Rightarrow> True
     | Some country \<Rightarrow> (case ComputeThresholds env now ip country w of (Ok th, _) \<Rightarrow> bucket_threshold b th = thr | _ \<Rightarrow> True))"

definition audited :: "('r, 'd, 'x) fraud_env \<Rightarrow> time \<Rightarrow> string \<Rightarrow> string \<Rightarrow> ('r, 'd, 'x) fraud_world \<Rightarrow> ('r, 'd, 'x) fraud_world" where
  "audited env now ip phone w = (case phone_country env phone of None \<Rightarrow> w | Some country \<Rightarrow> snd (RecordVerified env now ip country w))"

type_synonym ('r, 'd, 'x) fraud_history = "rat \<times> nat \<times> nat \<times> time \<times> ('r, 'd, 'x) fraud_world"

inductive fraud_step ::
    "('r, 'd, 'x) fraud_env \<Rightarrow> FraudProtectionConfig \<Rightarrow> bucket \<Rightarrow> string \<Rightarrow> rat
     \<Rightarrow> ('r, 'd, 'x) fraud_history \<Rightarrow> ('r, 'd, 'x) fraud_history \<Rightarrow> bool"
  for env cfg b v M where
  check: "t \<le> now \<Longrightarrow> thr \<le> thr' \<Longrightarrow> thr' \<le> M \<Longrightarrow> concerned env b v (rq_RemoteIP rq) phone \<longrightarrow> threshold_is env now b (rq_RemoteIP rq) phone w thr' \<Longrightarrow>
    CheckAndRecord env cfg now rq phone ty w = (res, w') \<Longrightarrow>
    fraud_step env cfg b v M (thr, passed, drained, t, w)
      (thr', if res = Ok () \<and> limited env cfg b v (rq_RemoteIP rq) phone then passed + 1 else passed, drained, now, w')"
| verified: "t \<le> now \<Longrightarrow> thr \<le> thr' \<Longrightarrow> thr' \<le> M \<Longrightarrow> concerned env b v ip phone \<longrightarrow> threshold_is env now b ip phone (audited env now ip phone w) thr' \<Longrightarrow>
    Fraud_RecordSMSOTPVerified env cfg now ip phone w = (res, w') \<Longrightarrow>
    fraud_step env cfg b v M (thr, passed, drained, t, w)
      (thr', passed, if concerned env b v ip phone then drained + 1 else drained, now, w')"
| reverted: "t \<le> now \<Longrightarrow> thr \<le> thr' \<Longrightarrow> thr' \<le> M \<Longrightarrow> concerned env b v ip phone \<longrightarrow> threshold_is env now b ip phone w thr' \<Longrightarrow>
    RevertSMSOTPSent env cfg now ip phone (int n) w = (res, w') \<Longrightarrow>
    fraud_step env cfg b v M (thr, passed, drained, t, w)
      (thr', passed, if concerned env b v ip phone then drained + n else drained, now, w')"

definition denies :: "FraudProtectionConfig \<Rightarrow> bucket \<Rightarrow> bool" where
  "denies cfg b = (fc_Enabled cfg = Some True \<and> (case fc_Warnings cfg of None \<Rightarrow> False | Some ws \<Rightarrow> bucket_warning b \<in> set ws) \<and>
     (case fc_Decision cfg of None \<Rightarrow> False | Some d \<Rightarrow> fd_Action d = ActionDenyIfAnyWarning))"

lemma triggered_warns: "denies cfg b \<Longrightarrow> bucket_triggered b tr \<Longrightarrow> evaluateWarnings cfg tr \<noteq> []"
  by (cases "fc_Warnings cfg"; cases b) (simp_all add: denies_def evaluateWarnings_def Let_def)

context fraud_service
begin

abbreviation "bkey b v \<equiv> bucket_key (fe_AppID env) b v"

lemma other_keys_kept:
  "keeps (unchanged now (bkey b v)) (ComputeThresholds env now ip country)"
  "keeps (unchanged now (bkey b v)) (RecordVerified env now ip country)"
  unfolding RecordVerified_def by (intro keeping thresholds_keep keys_apart)+

lemma check_eq:
  assumes "denies cfg b" "phone_country env phone = Some country" "\<not> isAlwaysAllowed env cfg (rq_RemoteIP rq) phone country"
  shows "CheckAndRecord env cfg now rq phone ty = bindp (ComputeThresholds env now (rq_RemoteIP rq) country) (\<lambda>th.
    bindp (RecordSMSOTPSent env now (rq_RemoteIP rq) country th) (\<lambda>(tr, lv).
    bindp (ignore_err (dispatchDecision env (decision_record env now rq phone ty country (evaluateWarnings cfg tr)
      (if evaluateWarnings cfg tr \<noteq> [] then DecisionBlocked else DecisionAllowed)))) (\<lambda>_.
    if (if evaluateWarnings cfg tr \<noteq> [] then DecisionBlocked else DecisionAllowed) = DecisionBlocked
    then failp ErrBlockedByFraudProtection else ret ())))"
  using assms(1) by (auto simp: CheckAndRecord_def assms(2,3) denies_def fraud_deref_def Let_def split: option.splits)

lemma check_keeps:
  assumes "\<not> concerned env b v (rq_RemoteIP rq) phone \<or> \<not> limited env cfg b v (rq_RemoteIP rq) phone"
  shows "keeps (unchanged now (bkey b v)) (CheckAndRecord env cfg now rq phone ty)"
  using assms unfolding CheckAndRecord_def fraud_deref_def Let_def limited_def concerned_def
  by (auto split: option.splits intro!: keeping sent_keeps other_keys_kept)

lemma verified_keeps:
  assumes "\<not> concerned env b v ip phone"
  shows "keeps (unchanged now (bkey b v)) (RevertSMSOTPSent env cfg now ip phone n)"
    and "keeps (unchanged now (bkey b v)) (Fraud_RecordSMSOTPVerified env cfg now ip phone)"
  using assms unfolding RevertSMSOTPSent_def Fraud_RecordSMSOTPVerified_def fraud_deref_def Let_def concerned_def
  by (auto split: option.splits intro!: keeping drained_keeps other_keys_kept)

lemma check_owes:
  assumes den: "denies cfg b" and owes: "owes d t0 a thr now (view now (fw_redis w) (bkey b v))"
    and thr: "thr \<le> thr'" "0 \<le> thr" "thr' \<le> M" and d: "d * of_int (bucket_window b) = M" "0 \<le> d" and t0: "t0 \<le> Unix now"
    and "is": "concerned env b v (rq_RemoteIP rq) phone \<longrightarrow> threshold_is env now b (rq_RemoteIP rq) phone w thr'"
    and run: "CheckAndRecord env cfg now rq phone ty w = (res, w')"
  shows "owes d t0 (if res = Ok () \<and> limited env cfg b v (rq_RemoteIP rq) phone then a + 1 else a) thr' now (view now (fw_redis w') (bkey b v))"
proof (cases "limited env cfg b v (rq_RemoteIP rq) phone")
  case False
  with keepsD [OF check_keeps run] owes_mono [OF owes order.refl thr(1)] show ?thesis by (simp add: unchanged_def)
next
  case True
  then obtain country where c: "phone_country env phone = Some country" "bucket_value b (rq_RemoteIP rq) country = v"
      "\<not> isAlwaysAllowed env cfg (rq_RemoteIP rq) phone country"
    by (auto simp: limited_def split: option.splits)
  note same = owes_mono [OF owes order.refl thr(1)]
  obtain r1 w1 where th: "ComputeThresholds env now (rq_RemoteIP rq) country w = (r1, w1)" by fastforce
  have w1: "view now (fw_redis w1) (bkey b v) = view now (fw_redis w) (bkey b v)"
    using keepsD [OF other_keys_kept(1) th] by (simp add: unchanged_def)
  show ?thesis
  proof (cases "is_ok r1")
    case False
    with run th w1 same show ?thesis by (cases r1) (auto simp: check_eq [OF den c(1,3)] bindp_run)
  next
    case True
    then obtain t where t: "r1 = Ok t" by (auto simp: is_ok_conv)
    have thr': "bucket_threshold b t = thr'"
      using "is" th t c(1,2) by (simp add: threshold_is_def concerned_def)
    obtain r2 w2 where s: "RecordSMSOTPSent env now (rq_RemoteIP rq) country t w1 = (r2, w2)" by fastforce
    note sent = hitsD [OF sent_hits s, of b, unfolded c(2) thr']
    obtain reply e' where f: "bucket_fill now b thr' (view now (fw_redis w) (bkey b v)) = (reply, e')" by fastforce
    obtain l i where fill: "reply = Inr (l, i)" "owes d t0 (if i = 1 then a else a + 1) thr' now e'" "alive now e' = e'"
      by (rule bucket_fill_owes [OF owes thr d t0 f])
    from run have rest: "bindp (RecordSMSOTPSent env now (rq_RemoteIP rq) country t) (\<lambda>(tr, lv).
        bindp (ignore_err (dispatchDecision env (decision_record env now rq phone ty country (evaluateWarnings cfg tr)
          (if evaluateWarnings cfg tr \<noteq> [] then DecisionBlocked else DecisionAllowed)))) (\<lambda>_.
        if (if evaluateWarnings cfg tr \<noteq> [] then DecisionBlocked else DecisionAllowed) = DecisionBlocked
        then failp ErrBlockedByFraudProtection else ret ())) w1 = (res, w')"
      using th t by (simp add: check_eq [OF den c(1,3)] bindp_run)
    have "unchanged now (bkey b v) w2 w' \<and> (is_ok res \<longrightarrow> is_ok r2)"
      by (rule keeps_rest [OF rest s]) (auto intro!: keeping split: prod.split)
    then have w': "view now (fw_redis w') (bkey b v) = view now (fw_redis w2) (bkey b v)" "is_ok res \<Longrightarrow> is_ok r2"
      by (simp_all add: unchanged_def)
    show ?thesis
    proof (cases "res = Ok ()")
      case False
      with sent(2) fill w' w1 f same owes_mono [OF fill(2), of a thr'] show ?thesis
        by (auto simp: stepped_def unchanged_def split: if_splits)
    next
      case ok: True
      with w'(2) obtain tr lv where r2: "r2 = Ok (tr, lv)" by (auto simp: is_ok_conv)
      have "evaluateWarnings cfg tr = []"
        using rest ok s r2 by (auto simp: bindp_run bindp_Ok run_simps split: if_splits)
      then have "\<not> bucket_triggered b tr" using triggered_warns [OF den] by blast
      with sent_reply [OF s [unfolded r2], of b, unfolded c(2) thr'] f fill(1) w1 have "i \<noteq> 1" by auto
      with ok sent(1) r2 fill w' w1 f True show ?thesis
        by (simp add: stepped_def limited_def c split: if_splits)
    qed
  qed
qed

lemma drains_owe:
  assumes m: "m = bindp (ComputeThresholds env now ip country) (\<lambda>th. Bucket_RecordSMSOTPVerified env now ip country th (int n))"
    and owes: "owes d t0 a thr now (view now (fw_redis w) (bkey b v))"
    and thr: "thr \<le> thr'" "0 \<le> thr" "thr' \<le> M" and d: "d * of_int (bucket_window b) = M" "0 \<le> d" and t0: "t0 \<le> Unix now"
    and "is": "threshold_is env now b ip phone w thr'" and c: "phone_country env phone = Some country" "bucket_value b ip country = v"
    and run: "m w = (res, w')"
  shows "owes d t0 (a - of_nat n) thr' now (view now (fw_redis w') (bkey b v))"
proof -
  note same = owes_mono [OF owes _ thr(1), of "a - of_nat n"]
  obtain r1 w1 where th: "ComputeThresholds env now ip country w = (r1, w1)" by fastforce
  have w1: "view now (fw_redis w1) (bkey b v) = view now (fw_redis w) (bkey b v)"
    using keepsD [OF other_keys_kept(1) th] by (simp add: unchanged_def)
  show ?thesis
  proof (cases "is_ok r1")
    case False
    with run th w1 same show ?thesis by (cases r1) (auto simp: m bindp_run)
  next
    case True
    then obtain t where t: "r1 = Ok t" by (auto simp: is_ok_conv)
    have thr': "bucket_threshold b t = thr'"
      using "is" th t c(1) by (simp add: threshold_is_def)
    have s: "Bucket_RecordSMSOTPVerified env now ip country t (int n) w1 = (res, w')"
      using run th t by (simp add: m bindp_run)
    from hitsD(2) [OF drained_hits s, of b, unfolded c(2) thr'] bucket_drain_owes [OF owes thr d t0, of "int n"] same w1
    show ?thesis by (auto simp: stepped_def unchanged_def)
  qed
qed

lemma step_owes:
  assumes step: "fraud_step env cfg b v M (thr, passed, drained, t, w) (thr', passed', drained', t', w')"
    and den: "denies cfg b" and owes: "owes d t0 (of_nat passed - of_nat drained - p0) thr t (view t (fw_redis w) (bkey b v))"
    and thr: "0 \<le> thr" and d: "d * of_int (bucket_window b) = M" "0 \<le> d" and t0: "t0 \<le> Unix t"
  shows "owes d t0 (of_nat passed' - of_nat drained' - p0) thr' t' (view t' (fw_redis w') (bkey b v)) \<and> t \<le> t' \<and> thr \<le> thr' \<and> thr' \<le> M"
proof -
  have later: "owes d t0 (of_nat passed - of_nat drained - p0) thr now (view now (fw_redis w) (bkey b v))" "t0 \<le> Unix now" if "t \<le> now" for now
    using owes_later [OF owes that d(2)] view_later [OF that] t0 Unix_mono [OF that] by simp_all
  from step show ?thesis
  proof (cases rule: fraud_step.cases)
    case (check rq phone ty res)
    from check_owes [OF den later(1) _ thr _ d later(2) _ check(7)] check show ?thesis
      by (auto simp: algebra_simps split: if_splits)
  next
    case (verified ip phone res)
    show ?thesis
    proof (cases "concerned env b v ip phone")
      case False
      with verified keepsD [OF verified_keeps(2) verified(7)] owes_mono [OF later(1) order.refl] show ?thesis
        by (auto simp: unchanged_def)
    next
      case True
      then obtain country where c: "phone_country env phone = Some country" "bucket_value b ip country = v"
        by (auto simp: concerned_def split: option.splits)
      obtain r1 w1 where a: "RecordVerified env t' ip country w = (r1, w1)" by fastforce
      have w1: "view t' (fw_redis w1) (bkey b v) = view t' (fw_redis w) (bkey b v)"
        using keepsD [OF other_keys_kept(2) a] by (simp add: unchanged_def)
      show ?thesis
      proof (cases "is_ok r1")
        case False
        with verified(7) a c den have "w' = w1"
          by (cases r1) (auto simp: Fraud_RecordSMSOTPVerified_def denies_def fraud_deref_def bindp_run)
        with verified True w1 owes_mono [OF later(1)] show ?thesis by auto
      next
        case ok: True
        then have "RevertSMSOTPSent env cfg t' ip phone 1 w1 = (res, w')"
          using verified(7) a c den by (auto simp: is_ok_conv Fraud_RecordSMSOTPVerified_def denies_def fraud_deref_def bindp_run)
        then have "bindp (ComputeThresholds env t' ip country) (\<lambda>th. Bucket_RecordSMSOTPVerified env t' ip country th (int 1)) w1 = (res, w')"
          using den c by (simp add: RevertSMSOTPSent_def denies_def fraud_deref_def)
        from drains_owe [OF refl later(1) [OF verified(3), folded w1] verified(4) thr verified(5) d later(2) [OF verified(3)] _ c this]
          verified True a c show ?thesis
          by (auto simp: audited_def algebra_simps)
      qed
    qed
  next
    case (reverted ip phone n res)
    show ?thesis
    proof (cases "concerned env b v ip phone")
      case False
      with reverted keepsD [OF verified_keeps(1) reverted(7)] owes_mono [OF later(1) order.refl] show ?thesis
        by (auto simp: unchanged_def)
    next
      case True
      then obtain country where c: "phone_country env phone = Some country" "bucket_value b ip country = v"
        by (auto simp: concerned_def split: option.splits)
      have "bindp (ComputeThresholds env t' ip country) (\<lambda>th. Bucket_RecordSMSOTPVerified env t' ip country th (int n)) w = (res, w')"
        using reverted(7) den c by (simp add: RevertSMSOTPSent_def denies_def fraud_deref_def)
      from drains_owe [OF refl later(1) [OF reverted(3)] reverted(4) thr reverted(5) d later(2) [OF reverted(3)] _ c this]
        reverted True show ?thesis
        by (auto simp: algebra_simps)
    qed
  qed
qed

lemma steps_owe:
  assumes "(fraud_step env cfg b v M)\<^sup>*\<^sup>* s s'" "s = (thr, passed, drained, t, w)" "s' = (thr', passed', drained', t', w')"
    and den: "denies cfg b" and owes: "owes d t0 (of_nat passed - of_nat drained - p0) thr t (view t (fw_redis w) (bkey b v))"
    and thr: "0 \<le> thr" "thr \<le> M" and d: "d * of_int (bucket_window b) = M" "0 \<le> d" and t0: "t0 \<le> Unix t"
  shows "owes d t0 (of_nat passed' - of_nat drained' - p0) thr' t' (view t' (fw_redis w') (bkey b v)) \<and> t \<le> t' \<and> thr \<le> thr' \<and> thr' \<le> M"
  using assms(1,3)
proof (induction arbitrary: thr' passed' drained' t' w' rule: rtranclp_induct)
  case base
  with owes thr assms(2) show ?case by simp
next
  case (step s1 s2)
  obtain thr1 p1 d1 t1 w1 where s1: "s1 = (thr1, p1, d1, t1, w1)" by (cases s1) auto
  note ih = step.IH [OF s1]
  have "fraud_step env cfg b v M (thr1, p1, d1, t1, w1) (thr', passed', drained', t', w')" using step.hyps(2) step.prems s1 by simp
  note st = step_owes [OF this den _ _ d]
  from st [of t0 p0] ih thr t0 Unix_mono [of t t1] show ?case by force
qed

lemma owes_rebase:
  assumes "owes d t0 a thr t e" "0 \<le> d" "0 \<le> thr"
  shows "owes d (Unix t) 0 thr t e"
  using assms(1)
proof (cases rule: owes_cases)
  case (2 l u x)
  have "0 \<le> d * of_int (Unix y - Unix t)" if "t < y" for y
    using Unix_mono [of t y] that assms(2) by simp
  with 2 show ?thesis by (fastforce split: option.splits)
qed simp

lemma owes_bound:
  assumes "owes d t0 a thr t e" "0 \<le> thr" "thr \<le> M" "0 \<le> d" "t0 \<le> Unix t"
  shows "a \<le> M + 1 + d * of_int (Unix t - t0)"
  using assms(1)
proof (cases rule: owes_cases)
  case (2 l u x)
  have "d * (u - of_int t0) \<le> d * of_int (Unix t - t0)" using 2(3) assms(4) by (intro mult_left_mono) simp_all
  moreover have "0 \<le> d * of_int (Unix t - t0)" using assms(4,5) by simp
  ultimately show ?thesis using 2(4) assms(2,3) by linarith
qed (use assms in simp)

lemma bounded:
  assumes den: "denies cfg b" and start: "view t0 (fw_redis w0) (bkey b v) = None" and thr: "0 \<le> thr0" "thr0 \<le> M"
    and before: "(fraud_step env cfg b v M)\<^sup>*\<^sup>* (thr0, 0, 0, t0, w0) (thr1, p1, dr1, t1, w1)"
    and window: "(fraud_step env cfg b v M)\<^sup>*\<^sup>* (thr1, p1, dr1, t1, w1) (thr2, p2, dr2, t2, w2)"
  shows "rat_of_nat p2 - rat_of_nat p1 \<le> M + 1 + M / of_int (bucket_window b) * of_int (Unix t2 - Unix t1)
    + (rat_of_nat dr2 - rat_of_nat dr1)"
proof -
  define d where "d = M / of_int (bucket_window b)"
  have d: "d * of_int (bucket_window b) = M" "0 \<le> d" using bucket_window_pos [of b] thr by (simp_all add: d_def)
  have "owes d (Unix t0) (of_nat 0 - of_nat 0 - 0) thr0 t0 (view t0 (fw_redis w0) (bkey b v))" using start by simp
  from steps_owe [OF before refl refl den this thr d order.refl]
  have 1: "owes d (Unix t0) (of_nat p1 - of_nat dr1) thr1 t1 (view t1 (fw_redis w1) (bkey b v))" "thr0 \<le> thr1" "thr1 \<le> M" by auto
  then have "owes d (Unix t1) (of_nat p1 - of_nat dr1 - (of_nat p1 - of_nat dr1)) thr1 t1 (view t1 (fw_redis w1) (bkey b v))"
    using owes_rebase d(2) thr(1) by simp
  from steps_owe [OF window refl refl den this _ 1(3) d order.refl] thr(1) 1(2)
  have 2: "owes d (Unix t1) (of_nat p2 - of_nat dr2 - (of_nat p1 - of_nat dr1)) thr2 t2 (view t2 (fw_redis w2) (bkey b v))"
      "t1 \<le> t2" "thr1 \<le> thr2" "thr2 \<le> M" by auto
  from owes_bound [OF 2(1) _ 2(4) d(2) Unix_mono [OF 2(2)]] thr(1) 1(2) 2(3) show ?thesis by (simp add: d_def)
qed

end

interpretation fs: fraud_service "e\<lparr>fe_redis := fm_redis\<rparr>" fm_view for e
  by (simp add: fraud_service_def fm.fraud_keys_axioms)

text \<open>C24: fraud protection bounds unverified messages. With denying decisions and the warning of a bucket configured, look at any
  stretch of the history of a country or an address, in which the threshold does not fall and stays below \<open>M\<close>: the messages
  let through (but for those always allowed) are at most \<open>M + 1\<close>, what leaks at the rate of \<open>M\<close> per window, and what
  verified codes and reverted messages drained. Requests for others, failures of the database and of the dispatch of events,
  and the expiry of the key at any moment do not change that.\<close>

theorem unverified_sms_bounded:
  assumes "fe_redis env = fm_redis" "denies cfg b" "fw_redis w0 = (\<lambda>_. None)" "0 \<le> thr0" "thr0 \<le> M"
    and "(fraud_step env cfg b v M)\<^sup>*\<^sup>* (thr0, 0, 0, t0, w0) (thr1, p1, dr1, t1, w1)"
    and "(fraud_step env cfg b v M)\<^sup>*\<^sup>* (thr1, p1, dr1, t1, w1) (thr2, p2, dr2, t2, w2)"
  shows "rat_of_nat p2 - rat_of_nat p1 \<le> M + 1 + M / of_int (bucket_window b) * of_int (Unix t2 - Unix t1)
    + (rat_of_nat dr2 - rat_of_nat dr1)"
proof -
  have "env\<lparr>fe_redis := fm_redis\<rparr> = env" using assms(1) by simp
  from fs.bounded [of cfg b t0 w0 env, unfolded this, OF assms(2) _ assms(4-7)] assms(3) show ?thesis
    by (simp add: fm_view_def alive_def)
qed

text \<open>Two messages to one country within a second, and what the hourly bucket of the country says.\<close>

definition demo_fraud :: "(fraud_map, metric_row list, FraudProtectionDecisionRecord list) fraud_env" where
  "demo_fraud = \<lparr>fe_AppID = ''app'', fe_redis = fm_redis,
     fe_audit = \<lparr>ad_INSERT = \<lambda>rows d. (Inr (), d @ rows), ad_SELECT = \<lambda>d. (Inr d, d)\<rparr>,
     fe_ParsePhone = \<lambda>s. if s = ''+85290000000'' then Some [''HK''] else None, fe_GeoIP = \<lambda>_. None, fe_ValidIP = \<lambda>_. True,
     fe_CIDRContains = \<lambda>_. None, fe_Regexp = \<lambda>_. None, fe_Dispatch = \<lambda>r x. (Inr (), x @ [r])\<rparr>"

definition demo_fraud_config :: FraudProtectionConfig where
  "demo_fraud_config = FraudProtectionConfig_SetDefaults \<lparr>fc_Enabled = None, fc_Warnings = None,
     fc_Decision = Some \<lparr>fd_AlwaysAllow = None, fd_Action = ActionDenyIfAnyWarning\<rparr>\<rparr>"

definition demo_fraud_request :: fraud_request where
  "demo_fraud_request = \<lparr>rq_RemoteIP = ''1.2.3.4'', rq_UserAgent = [], rq_URL = [], rq_Referer = [], rq_UserID = None\<rparr>"

fun demo_fraud_world :: "nat \<Rightarrow> (fraud_map, metric_row list, FraudProtectionDecisionRecord list) fraud_world" where
  "demo_fraud_world 0 = \<lparr>fw_redis = (\<lambda>_. None), fw_audit = [], fw_rest = []\<rparr>"
| "demo_fraud_world (Suc n) =
     snd (CheckAndRecord demo_fraud demo_fraud_config 1000000000 demo_fraud_request ''+85290000000'' ''sms'' (demo_fraud_world n))"

lemma unverified_sms_bounded_witness:
  "(fraud_step demo_fraud demo_fraud_config CountryHourly ''HK'' (10 / 3))\<^sup>*\<^sup>*
     (10 / 3, 0, 0, 0, demo_fraud_world 0) (10 / 3, 1, 0, 1000000000, demo_fraud_world 1) \<and>
   rat_of_nat 1 - rat_of_nat 0 \<le> 10 / 3 + 1 + (10 / 3) / of_int (bucket_window CountryHourly) * of_int (Unix 1000000000 - Unix 0)
    + (rat_of_nat 0 - rat_of_nat 0)"
proof -
  let ?s = "fraud_step demo_fraud demo_fraud_config CountryHourly ''HK'' (10 / 3)"
  have "fst (CheckAndRecord demo_fraud demo_fraud_config 1000000000 demo_fraud_request ''+85290000000'' ''sms'' (demo_fraud_world 0)) = Ok ()"
    by code_simp
  then have run: "CheckAndRecord demo_fraud demo_fraud_config 1000000000 demo_fraud_request ''+85290000000'' ''sms'' (demo_fraud_world 0)
      = (Ok (), demo_fraud_world 1)"
    by (simp add: prod_eq_iff)
  have "threshold_is demo_fraud 1000000000 CountryHourly (rq_RemoteIP demo_fraud_request) ''+85290000000'' (demo_fraud_world 0) (10 / 3)"
      "limited demo_fraud demo_fraud_config CountryHourly ''HK'' (rq_RemoteIP demo_fraud_request) ''+85290000000''" by code_simp+
  then have "?s (10 / 3, 0, 0, 0, demo_fraud_world 0) (10 / 3, 1, 0, 1000000000, demo_fraud_world 1)"
    using fraud_step.check [OF _ order.refl order.refl _ run, where t = 0 and b = CountryHourly and v = "''HK''" and M = "10 / 3" and passed = 0 and drained = 0] by simp
  then have steps: "?s\<^sup>*\<^sup>* (10 / 3, 0, 0, 0, demo_fraud_world 0) (10 / 3, 1, 0, 1000000000, demo_fraud_world 1)" by blast
  moreover have "denies demo_fraud_config CountryHourly" by code_simp
  ultimately show ?thesis
    using unverified_sms_bounded [OF _ _ _ _ _ rtranclp.rtrancl_refl steps] by (simp add: demo_fraud_def)
qed

section \<open>Countries of an address\<close>

definition recent_countries :: "(string \<times> int) list \<Rightarrow> int \<Rightarrow> string set" where
  "recent_countries sends T = fst ` set (filter (\<lambda>(_, s). T - 86400 < s) sends)"

text \<open>What the calls of the store do to the countries of an address; the log keeps its messages.\<close>

inductive country_step ::
    "('r, 'd, 'x) fraud_env \<Rightarrow> string \<Rightarrow> (string \<times> int) list \<times> time \<times> ('r, 'd, 'x) fraud_world
     \<Rightarrow> (string \<times> int) list \<times> time \<times> ('r, 'd, 'x) fraud_world \<Rightarrow> bool"
  for env ip where
  sent: "t \<le> now \<Longrightarrow> RecordSMSOTPSent env now ip country th w = (Ok x, w') \<Longrightarrow>
    country_step env ip (sends, t, w) (sends @ [(country, Unix now)], now, w')"
| elsewhere: "t \<le> now \<Longrightarrow> ip' \<noteq> ip \<Longrightarrow> RecordSMSOTPSent env now ip' country th w = (res, w') \<Longrightarrow>
    country_step env ip (sends, t, w) (sends, now, w')"
| drained: "t \<le> now \<Longrightarrow> Bucket_RecordSMSOTPVerified env now ip' country th n w = (dres, w') \<Longrightarrow>
    country_step env ip (sends, t, w) (sends, now, w')"

fun seen :: "(string \<times> int) list \<Rightarrow> time \<Rightarrow> fraud_entry \<Rightarrow> bool" where
  "seen sends t None = (\<forall>(c, s) \<in> set sends. s \<le> Unix t - 86400)"
| "seen sends t (Some (CountriesValue zs, Some x)) = (distinct (map fst zs) \<and> t < x \<and>
    (\<forall>(c, s) \<in> set sends. s \<le> Unix t \<and> s + 172800 \<le> Unix x) \<and>
    (\<forall>T \<ge> Unix t. recent_countries sends T = fst ` {m \<in> set zs. of_int (T - 86400) < snd m}))"
| "seen sends t _ = False"

lemma seen_cases:
  assumes "seen sends t e"
  obtains "e = None" "\<And>c s. (c, s) \<in> set sends \<Longrightarrow> s \<le> Unix t - 86400"
  | zs x where "e = Some (CountriesValue zs, Some x)" "distinct (map fst zs)" "t < x"
      "\<And>c s. (c, s) \<in> set sends \<Longrightarrow> s \<le> Unix t \<and> s + 172800 \<le> Unix x"
      "\<And>T. T \<ge> Unix t \<Longrightarrow> recent_countries sends T = fst ` {m \<in> set zs. of_int (T - 86400) < snd m}"
  using assms by (cases "(sends, t, e)" rule: seen.cases) auto

lemma seen_later:
  assumes "seen sends t e" "t \<le> t'"
  shows "seen sends t' (alive t' e)"
  using assms(1)
proof (cases rule: seen_cases)
  case 1
  with Unix_mono [OF assms(2)] show ?thesis by (fastforce simp: alive_def)
next
  case (2 zs x)
  show ?thesis
  proof (cases "t' < x")
    case True
    with 2 Unix_mono [OF assms(2)] show ?thesis by (fastforce simp: alive_def)
  next
    case False
    with 2(1,4) Unix_mono [of x t'] show ?thesis by (fastforce simp: alive_def)
  qed
qed

text \<open>The script keeps for every country the time it was last seen.\<close>

lemma update_members:
  fixes zs :: "('a \<times> 'b) list"
  assumes "distinct (map fst zs)"
  shows "set (AList.update k v zs) = {m \<in> set zs. fst m \<noteq> k} \<union> {(k, v)}" "distinct (map fst (AList.update k v zs))"
proof -
  show d: "distinct (map fst (AList.update k v zs))" using assms by (rule distinct_update)
  show "set (AList.update k v zs) = {m \<in> set zs. fst m \<noteq> k} \<union> {(k, v)}"
  proof (rule set_eqI)
    fix m :: "'a \<times> 'b"
    obtain x y where m: "m = (x, y)" by (cases m)
    show "m \<in> set (AList.update k v zs) \<longleftrightarrow> m \<in> {m \<in> set zs. fst m \<noteq> k} \<union> {(k, v)}"
      using map_of_eq_Some_iff [OF d, of x y] map_of_eq_Some_iff [OF assms, of x y] by (auto simp: m update_conv' split: if_splits)
  qed
qed

lemma ipCountriesScript_seen:
  assumes "seen sends now e" "ipCountriesScript now country (of_int (Unix now)) 3 172800 e = (reply, e')"
  obtains n where "reply = Inr (int n, if n > 3 then 1 else 0)" "n = card (insert country (recent_countries sends (Unix now)))"
    "seen (sends @ [(country, Unix now)]) now e'"
proof -
  define zs where "zs = (case e of Some (CountriesValue zs, _) \<Rightarrow> zs | _ \<Rightarrow> [])"
  define new where "new = filter (\<lambda>(_, score). \<not> score \<le> rat_of_int (Unix now) - 86400) (AList.update country (of_int (Unix now)) zs)"
  have run: "reply = Inr (int (length new), if length new > 3 then 1 else 0)" "e' = Some (CountriesValue new, Some (now + seconds 172800))"
  proof -
    have "(reply, e') = (Inr (int (length new), if length new > 3 then 1 else 0), Some (CountriesValue new, Some (now + seconds 172800)))"
      using assms(1) by (cases rule: seen_cases) (simp_all add: assms(2) [symmetric] ipCountriesScript_def zs_def new_def Let_def)
    then show "reply = Inr (int (length new), if length new > 3 then 1 else 0)"
      "e' = Some (CountriesValue new, Some (now + seconds 172800))" by simp_all
  qed
  have zs: "distinct (map fst zs)" and past: "\<And>c s. (c, s) \<in> set sends \<Longrightarrow> s \<le> Unix now"
      and recent: "\<And>T. T \<ge> Unix now \<Longrightarrow> recent_countries sends T = fst ` {m \<in> set zs. of_int (T - 86400) < snd m}"
  proof -
    have "distinct (map fst zs) \<and> (\<forall>c s. (c, s) \<in> set sends \<longrightarrow> s \<le> Unix now) \<and>
        (\<forall>T \<ge> Unix now. recent_countries sends T = fst ` {m \<in> set zs. of_int (T - 86400) < snd m})"
      using assms(1)
    proof (cases rule: seen_cases)
      case 1
      have "recent_countries sends T = {}" if "Unix now \<le> T" for T
        using 1(2) that by (fastforce simp: recent_countries_def)
      with 1 show ?thesis by (fastforce simp: zs_def)
    next
      case (2 zs' x)
      then have "zs = zs'" by (simp add: zs_def)
      with 2(2,4,5) show ?thesis by blast
    qed
    then show "distinct (map fst zs)" "\<And>c s. (c, s) \<in> set sends \<Longrightarrow> s \<le> Unix now"
      "\<And>T. T \<ge> Unix now \<Longrightarrow> recent_countries sends T = fst ` {m \<in> set zs. of_int (T - 86400) < snd m}" by blast+
  qed
  note upd = update_members [OF zs]
  have distinct: "distinct (map fst new)"
    using upd(2) by (simp add: new_def distinct_map_filter)
  have new: "recent_countries (sends @ [(country, Unix now)]) T = fst ` {m \<in> set new. of_int (T - 86400) < snd m}" if "T \<ge> Unix now" for T
  proof -
    have "recent_countries (sends @ [(country, Unix now)]) T = recent_countries sends T \<union> (if T - 86400 < Unix now then {country} else {})"
      by (auto simp: recent_countries_def)
    also have "\<dots> = fst ` ({m \<in> set zs. fst m \<noteq> country \<and> of_int (T - 86400) < snd m} \<union>
        (if T - 86400 < Unix now then {(country, of_int (Unix now))} else {}))"
    proof -
      have "T - 86400 < Unix now" if "country \<in> recent_countries sends T"
        using that past by (force simp: recent_countries_def)
      then show ?thesis unfolding recent [OF that] by (auto simp: image_iff; metis)
    qed
    also have "{m \<in> set zs. fst m \<noteq> country \<and> of_int (T - 86400) < snd m} \<union>
        (if T - 86400 < Unix now then {(country, of_int (Unix now))} else {}) = {m \<in> set new. of_int (T - 86400) < snd m}" (is "?l = ?r")
    proof (rule set_eqI)
      fix m :: "string \<times> rat"
      have "rat_of_int (Unix now) \<le> of_int T" using that by simp
      moreover have "(T - 86400 < Unix now) = (rat_of_int (T - 86400) < of_int (Unix now))" by (simp only: of_int_less_iff)
      ultimately show "m \<in> ?l \<longleftrightarrow> m \<in> ?r" by (cases m) (auto simp: new_def upd(1))
    qed
    finally show ?thesis .
  qed
  have "insert country (recent_countries sends (Unix now)) = recent_countries (sends @ [(country, Unix now)]) (Unix now)"
    by (auto simp: recent_countries_def)
  also have "\<dots> = fst ` set new" unfolding new [OF order.refl] by (force simp: new_def)
  finally have "length new = card (insert country (recent_countries sends (Unix now)))"
    using distinct_card [OF distinct] by simp
  moreover have "seen (sends @ [(country, Unix now)]) now e'"
  proof -
    have "now < now + seconds 172800" by (simp add: seconds_def)
    with distinct new past show ?thesis by (auto simp: run(2))
  qed
  ultimately show thesis using that run(1) by simp
qed

context fraud_service
begin

abbreviation "ckey ip \<equiv> ipCountriesKey (fe_AppID env) ip"

lemma fill_countries:
  "fillBucket env now b v th w = (res, w') \<Longrightarrow> view now (fw_redis w') (ckey ip) = view now (fw_redis w) (ckey ip)"
  using keepsD [OF fillBucket_keeps [of b v "ckey ip" now th]] by (simp add: unchanged_def)

lemma sent_countries:
  assumes "RecordSMSOTPSent env now ip country th w = (Ok (tr, lv), w')" "seen sends now (view now (fw_redis w) (ckey ip))"
  shows "lv_IPCountriesCount lv = int (card (insert country (recent_countries sends (Unix now))))"
    and "tr_IPCountriesDaily tr \<longleftrightarrow> 3 < card (insert country (recent_countries sends (Unix now)))"
    and "seen (sends @ [(country, Unix now)]) now (view now (fw_redis w') (ckey ip))"
proof -
  from assms(1) obtain l1 t1 w1 l2 t2 w2 l3 t3 w3 l4 t4 w4 count tri where
      f: "fillBucket env now CountryHourly country (th_CountryHourly th) w = (Ok (l1, t1), w1)"
        "fillBucket env now CountryDaily country (th_CountryDaily th) w1 = (Ok (l2, t2), w2)"
        "fillBucket env now IPHourly ip (th_IPHourly th) w2 = (Ok (l3, t3), w3)"
        "fillBucket env now IPDaily ip (th_IPDaily th) w3 = (Ok (l4, t4), w4)"
      and c: "redis_call (fr_EVAL (fe_redis env) now (ckey ip)
        (ipCountriesScript now country (of_int (Unix now)) ipCountriesThreshold (2 * bucketWindowDaily))) w4 = (Ok (count, tri), w')"
      and tr: "tr_IPCountriesDaily tr = (tri = 1)" "lv_IPCountriesCount lv = count"
    unfolding sent_eq by (auto simp: bindp_Ok run_simps split: prod.splits)
  have w4: "view now (fw_redis w4) (ckey ip) = view now (fw_redis w) (ckey ip)"
    by (simp add: f [THEN fill_countries])
  obtain reply e' where s: "ipCountriesScript now country (of_int (Unix now)) 3 172800 (view now (fw_redis w) (ckey ip)) = (reply, e')" by fastforce
  obtain n where n: "reply = Inr (int n, if n > 3 then 1 else 0)" "n = card (insert country (recent_countries sends (Unix now)))"
      "seen (sends @ [(country, Unix now)]) now e'"
    by (rule ipCountriesScript_seen [OF assms(2) s])
  have e: "reply = Inr (count, tri)" "view now (fw_redis w') (ckey ip) = alive now e'"
    using c s w4 by (auto simp: redis_call_def ipCountriesThreshold_def bucketWindowDaily_def split: prod.splits sum.splits
        dest!: EVAL_done [OF _ order.refl])
  from n e seen_later [OF n(3) order.refl] show "lv_IPCountriesCount lv = int (card (insert country (recent_countries sends (Unix now))))"
    "tr_IPCountriesDaily tr \<longleftrightarrow> 3 < card (insert country (recent_countries sends (Unix now)))"
    "seen (sends @ [(country, Unix now)]) now (view now (fw_redis w') (ckey ip))"
    by (simp_all add: tr split: if_splits)
qed

lemma country_keys_kept:
  "ip' \<noteq> ip \<Longrightarrow> keeps (unchanged now (ckey ip)) (RecordSMSOTPSent env now ip' country th)"
  "keeps (unchanged now (ckey ip)) (Bucket_RecordSMSOTPVerified env now ip' country th n)"
  unfolding sent_eq drained_eq by (intro keeping fillBucket_keeps drainsBucket_keeps keys_apart | simp)+

lemma country_steps_seen:
  assumes "(country_step env ip)\<^sup>*\<^sup>* ([], t0, w0) s" "s = (sends, t, w)" "view t0 (fw_redis w0) (ckey ip) = None"
  shows "seen sends t (view t (fw_redis w) (ckey ip))"
  using assms(1,2)
proof (induction arbitrary: sends t w rule: rtranclp_induct)
  case (step s1 s2)
  from step.hyps(2) step.prems show ?case
  proof (cases rule: country_step.cases)
    case (sent t1 now country th w1 x w' sends1)
    obtain tr lv where x: "x = (tr, lv)" by (cases x)
    have "seen sends1 now (view now (fw_redis w1) (ckey ip))"
      using seen_later [OF step.IH [OF sent(1)] sent(3)] view_later [OF sent(3)] by simp
    from sent_countries(3) [OF sent(4) [unfolded x] this] step.prems sent(2) show ?thesis by auto
  next
    case (elsewhere t1 now ip' country th w1 res w' sends1)
    from seen_later [OF step.IH [OF elsewhere(1)] elsewhere(3)] view_later [OF elsewhere(3)]
      keepsD [OF country_keys_kept(1) [OF elsewhere(4)] elsewhere(5)] step.prems elsewhere(2) show ?thesis
      by (auto simp: unchanged_def)
  next
    case (drained t1 now ip' country th n w1 res w' sends1)
    from seen_later [OF step.IH [OF drained(1)] drained(3)] view_later [OF drained(3)]
      keepsD [OF country_keys_kept(2) drained(4)] step.prems drained(2) show ?thesis
      by (auto simp: unchanged_def)
  qed
qed (simp add: assms(3))

end

text \<open>C28: the countries an address sends to are counted exactly. When a message is recorded, the count is the number of
  different countries this address sent to in the last 24 hours, this message included, and the warning is given when
  they are more than three; other addresses, drained buckets and the expiry of keys do not matter.\<close>

theorem countries_of_address_exact:
  assumes "fe_redis env = fm_redis" "fw_redis w0 = (\<lambda>_. None)"
    and "(country_step env ip)\<^sup>*\<^sup>* ([], t0, w0) (sends, t, w)" "t \<le> now"
    and "RecordSMSOTPSent env now ip country th w = (Ok (tr, lv), w')"
  shows "lv_IPCountriesCount lv = int (card (insert country (recent_countries sends (Unix now)))) \<and>
    (tr_IPCountriesDaily tr \<longleftrightarrow> 3 < card (insert country (recent_countries sends (Unix now))))"
proof -
  have env: "env\<lparr>fe_redis := fm_redis\<rparr> = env" using assms(1) by simp
  have "fm_view t0 (fw_redis w0) (ipCountriesKey (fe_AppID env) ip) = None" using assms(2) by (simp add: fm_view_def alive_def)
  from fs.country_steps_seen [of env ip, unfolded env, OF assms(3) refl this]
  have "seen sends now (fm_view now (fw_redis w) (ipCountriesKey (fe_AppID env) ip))"
    using seen_later [OF _ assms(4)] fm.view_later [OF assms(4)] by simp
  from fs.sent_countries [where e = env, unfolded env, OF assms(5) this] show ?thesis by simp
qed

lemma countries_of_address_exact_witness:
  "(country_step demo_fraud ''1.2.3.4'')\<^sup>*\<^sup>* ([], 0, demo_fraud_world 0) ([], 0, demo_fraud_world 0) \<and>
   (case RecordSMSOTPSent demo_fraud 0 ''1.2.3.4'' ''HK'' \<lparr>th_CountryHourly = 3, th_CountryDaily = 20, th_IPHourly = 5, th_IPDaily = 10\<rparr> (demo_fraud_world 0) of
      (Ok (tr, lv), _) \<Rightarrow> lv_IPCountriesCount lv = int (card (insert ''HK'' (recent_countries [] (Unix 0)))) \<and> \<not> tr_IPCountriesDaily tr
    | _ \<Rightarrow> False)"
proof -
  let ?run = "RecordSMSOTPSent demo_fraud 0 ''1.2.3.4'' ''HK'' \<lparr>th_CountryHourly = 3, th_CountryDaily = 20, th_IPHourly = 5, th_IPDaily = 10\<rparr> (demo_fraud_world 0)"
  have "is_ok (fst ?run)" by code_simp
  then obtain tr lv w' where run: "?run = (Ok (tr, lv), w')" by (metis is_ok_conv prod.collapse)
  have env: "fe_redis demo_fraud = fm_redis" "fw_redis (demo_fraud_world 0) = (\<lambda>_. None)" by (simp_all add: demo_fraud_def)
  from countries_of_address_exact [OF env rtranclp.rtrancl_refl order.refl run] run show ?thesis
    by (simp add: recent_countries_def)
qed

end
