(* ===== verification/FlowTree.thy ===== *)
theory FlowTree imports Proc begin

text \<open>
  The state of an authentication flow: \<^verbatim>\<open>workflow.go\<close>, \<^verbatim>\<open>workflows.go\<close>, \<^verbatim>\<open>node.go\<close>, \<^verbatim>\<open>traverse.go\<close>, \<^verbatim>\<open>clone.go\<close>,
  \<^verbatim>\<open>milestone.go\<close>, \<^verbatim>\<open>target_step.go\<close>, \<^verbatim>\<open>flow.go\<close>, \<^verbatim>\<open>errors.go\<close>, \<^verbatim>\<open>session.go\<close> and \<^verbatim>\<open>allowlist.go\<close> of
  \<^verbatim>\<open>pkg/lib/authenticationflow\<close>. A flow is a tree: an intent and the nodes it has produced so far, some of them
  flows of their own. Intents and simple nodes are interfaces; their contents have the type \<open>'k\<close>, a Go type
  assertion is a function that answers with the method when the content has it. A pointer to a flow inside
  the tree is its path; contents change in place, the shape of the tree only where the engine changes it.
\<close>

section \<open>Trees and pointers into them\<close>

datatype 'k flow = Flow (FlowID: string) (StateToken: string) (Intent: 'k) (Nodes: "'k node list")
  and 'k node = Simple 'k | SubFlow "'k flow"

type_synonym path = "nat list"

text \<open>\<^verbatim>\<open>FlowID\<close> and \<^verbatim>\<open>StateToken\<close> of a subflow do not matter.\<close>

definition NewSubFlow :: "'k \<Rightarrow> 'k node" where
  "NewSubFlow intent = SubFlow (Flow '''' '''' intent [])"

definition NewFlow :: "string \<Rightarrow> string \<Rightarrow> 'k \<Rightarrow> 'k flow" where
  "NewFlow token flowID intent = Flow flowID token intent []"

definition set_StateToken :: "string \<Rightarrow> 'k flow \<Rightarrow> 'k flow" where
  "set_StateToken token w = Flow (FlowID w) token (Intent w) (Nodes w)"

definition set_Nodes :: "'k node list \<Rightarrow> 'k flow \<Rightarrow> 'k flow" where
  "set_Nodes ns w = Flow (FlowID w) (StateToken w) (Intent w) ns"

text \<open>\<^verbatim>\<open>Flows\<close>: the root and the pointer to the nearest flow.\<close>

record 'k flows =
  Root :: "'k flow"
  Nearest :: path

definition NewFlows :: "'k flow \<Rightarrow> 'k flows" where
  "NewFlows root = \<lparr>Root = root, Nearest = []\<rparr>"

definition Flows_Replace :: "'k flows \<Rightarrow> path \<Rightarrow> 'k flows" where
  "Flows_Replace w nearest = w\<lparr>Nearest := nearest\<rparr>"

fun flow_at :: "'k flow \<Rightarrow> path \<Rightarrow> 'k flow option" where
  "flow_at w [] = Some w"
| "flow_at w (i # p) = (if i < length (Nodes w) then (case Nodes w ! i of SubFlow w' \<Rightarrow> flow_at w' p | Simple _ \<Rightarrow> None) else None)"

fun map_at :: "path \<Rightarrow> ('k flow \<Rightarrow> 'k flow) \<Rightarrow> 'k flow \<Rightarrow> 'k flow" where
  "map_at [] f w = f w"
| "map_at (i # p) f w = (if i < length (Nodes w) then (case Nodes w ! i of
      SubFlow w' \<Rightarrow> set_Nodes ((Nodes w)[i := SubFlow (map_at p f w')]) w | Simple _ \<Rightarrow> w) else w)"

text \<open>Where a content is: the intent of a flow, or its \<open>n\<close>-th node, a simple one.\<close>

datatype loc = AtIntent path | AtNode path nat

fun loc_path :: "loc \<Rightarrow> path" where
  "loc_path (AtIntent p) = p"
| "loc_path (AtNode p n) = p"

fun content_at :: "'k flow \<Rightarrow> loc \<Rightarrow> 'k option" where
  "content_at root (AtIntent p) = (case flow_at root p of None \<Rightarrow> None | Some w \<Rightarrow> Some (Intent w))"
| "content_at root (AtNode p n) = (case flow_at root p of None \<Rightarrow> None | Some w \<Rightarrow>
     if n < length (Nodes w) then (case Nodes w ! n of Simple k \<Rightarrow> Some k | SubFlow _ \<Rightarrow> None) else None)"

section \<open>Cloning: \<^verbatim>\<open>clone.go\<close>\<close>

fun CloneFlow :: "'k flow \<Rightarrow> 'k flow" and CloneNode :: "'k node \<Rightarrow> 'k node" where
  "CloneFlow (Flow flowID _ intent nodes) = Flow flowID '''' intent (map CloneNode nodes)"
| "CloneNode (Simple k) = Simple k"
| "CloneNode (SubFlow w) = SubFlow (CloneFlow w)"

section \<open>Traversal: \<^verbatim>\<open>traverse.go\<close>\<close>

text \<open>The order of the visits; \<open>first\<close> is \<^verbatim>\<open>intentFirst\<close>.\<close>

fun visits_flow :: "bool \<Rightarrow> path \<Rightarrow> 'k flow \<Rightarrow> loc list"
  and visits_nodes :: "bool \<Rightarrow> path \<Rightarrow> nat \<Rightarrow> 'k node list \<Rightarrow> loc list"
  and visits_node :: "bool \<Rightarrow> path \<Rightarrow> nat \<Rightarrow> 'k node \<Rightarrow> loc list" where
  "visits_flow first p (Flow _ _ _ nodes) =
     (if first then [AtIntent p] else []) @ visits_nodes first p 0 nodes @ (if first then [] else [AtIntent p])"
| "visits_nodes first p n [] = []"
| "visits_nodes first p n (x # xs) = visits_node first p n x @ visits_nodes first p (Suc n) xs"
| "visits_node first p n (Simple _) = [AtNode p n]"
| "visits_node first p n (SubFlow w) = visits_flow first (p @ [n]) w"

text \<open>The two callbacks, each of which may be missing. They are given the content and the pointer to the flow it
  belongs to.\<close>

record ('k, 's, 'e) traverser =
  tv_Intent :: "('k \<Rightarrow> path \<Rightarrow> ('s, 'e, unit) proc) option"
  tv_NodeSimple :: "('k \<Rightarrow> path \<Rightarrow> ('s, 'e, unit) proc) option"

fun tv_at :: "('k, 's, 'e) traverser \<Rightarrow> loc \<Rightarrow> ('k \<Rightarrow> path \<Rightarrow> ('s, 'e, unit) proc) option" where
  "tv_at t (AtIntent _) = tv_Intent t"
| "tv_at t (AtNode _ _) = tv_NodeSimple t"

text \<open>The content is read when it is visited; \<open>cur\<close> is the tree a state holds.\<close>

definition visit :: "('s \<Rightarrow> 'k flow) \<Rightarrow> ('k, 's, 'e) traverser \<Rightarrow> loc \<Rightarrow> ('s, 'e, unit) proc" where
  "visit cur t l = (case tv_at t l of
     None \<Rightarrow> ret ()
   | Some f \<Rightarrow> (\<lambda>s. case content_at (cur s) l of Some k \<Rightarrow> f k (loc_path l) s | None \<Rightarrow> panicp s))"

primrec visit_all :: "('s \<Rightarrow> 'k flow) \<Rightarrow> ('k, 's, 'e) traverser \<Rightarrow> loc list \<Rightarrow> ('s, 'e, unit) proc" where
  "visit_all cur t [] = ret ()"
| "visit_all cur t (l # ls) = bindp (visit cur t l) (\<lambda>_. visit_all cur t ls)"

definition traverseFlow :: "('s \<Rightarrow> 'k flow) \<Rightarrow> ('k, 's, 'e) traverser \<Rightarrow> bool \<Rightarrow> path \<Rightarrow> ('s, 'e, unit) proc" where
  "traverseFlow cur t intentFirst p = (\<lambda>s. case flow_at (cur s) p of
     None \<Rightarrow> panicp s | Some w \<Rightarrow> visit_all cur t (visits_flow intentFirst p w) s)"

definition TraverseFlow :: "('s \<Rightarrow> 'k flow) \<Rightarrow> ('k, 's, 'e) traverser \<Rightarrow> path \<Rightarrow> ('s, 'e, unit) proc" where
  "TraverseFlow cur t p = traverseFlow cur t False p"

definition TraverseFlowIntentFirst :: "('s \<Rightarrow> 'k flow) \<Rightarrow> ('k, 's, 'e) traverser \<Rightarrow> path \<Rightarrow> ('s, 'e, unit) proc" where
  "TraverseFlowIntentFirst cur t p = traverseFlow cur t True p"

text \<open>The \<open>n\<close>-th node of the flow at \<open>p\<close>.\<close>

definition TraverseNode :: "('s \<Rightarrow> 'k flow) \<Rightarrow> ('k, 's, 'e) traverser \<Rightarrow> path \<Rightarrow> nat \<Rightarrow> 'k node \<Rightarrow> ('s, 'e, unit) proc" where
  "TraverseNode cur t p n node = visit_all cur t (visits_node False p n node)"

text \<open>From the last node to the root.\<close>

function findLastNodeInFlow :: "path \<Rightarrow> 'k flow \<Rightarrow> loc" where
  "findLastNodeInFlow p (Flow flowID token intent nodes) = (if nodes = [] then AtIntent p else case last nodes of
     Simple _ \<Rightarrow> AtNode p (length nodes - 1)
   | SubFlow w \<Rightarrow> findLastNodeInFlow (p @ [length nodes - 1]) w)"
  by pat_completeness auto

lemma size_last_node: "nodes \<noteq> [] \<Longrightarrow> last nodes = SubFlow w \<Longrightarrow> size w < Suc (size_list size nodes)"
proof -
  assume "nodes \<noteq> []" "last nodes = SubFlow w"
  then have "SubFlow w \<in> set nodes" by (metis last_in_set)
  from size_list_estimation' [OF this order.refl, of size] show ?thesis by simp
qed

termination findLastNodeInFlow
  by (relation "measure (\<lambda>(_, w). size w)") (auto dest: size_last_node)

fun ancestors :: "path \<Rightarrow> path list" where
  "ancestors p = p # (if p = [] then [] else ancestors (butlast p))"

declare ancestors.simps [simp del]

definition TraverseIntentFromNodeToRoot :: "('s \<Rightarrow> 'k flow) \<Rightarrow> ('k \<Rightarrow> ('s, 'e, unit) proc) \<Rightarrow> loc \<Rightarrow> ('s, 'e, unit) proc" where
  "TraverseIntentFromNodeToRoot cur t start =
     visit_all cur \<lparr>tv_Intent = Some (\<lambda>k _. t k), tv_NodeSimple = None\<rparr> (map AtIntent (ancestors (loc_path start)))"

definition TraverseIntentFromEndToRoot :: "('s \<Rightarrow> 'k flow) \<Rightarrow> ('k \<Rightarrow> ('s, 'e, unit) proc) \<Rightarrow> ('s, 'e, unit) proc" where
  "TraverseIntentFromEndToRoot cur t = (\<lambda>s. TraverseIntentFromNodeToRoot cur t (findLastNodeInFlow [] (cur s)) s)"

section \<open>Looking for something in a flow\<close>

text \<open>\<open>sel\<close> is the type assertion that finds a milestone.\<close>

definition FindMilestoneInCurrentFlow :: "('k \<Rightarrow> 'm option) \<Rightarrow> 'k flows \<Rightarrow> ('m \<times> 'k flows) option" where
  "FindMilestoneInCurrentFlow sel flows = (case flow_at (Root flows) (Nearest flows) of
     None \<Rightarrow> None
   | Some w \<Rightarrow> foldl (\<lambda>found (i, n). case n of
        Simple k \<Rightarrow> (case sel k of Some m \<Rightarrow> Some (m, Flows_Replace flows (Nearest flows)) | None \<Rightarrow> found)
      | SubFlow w' \<Rightarrow> (case sel (Intent w') of Some m \<Rightarrow> Some (m, Flows_Replace flows (Nearest flows @ [i])) | None \<Rightarrow> found))
      None (enumerate 0 (Nodes w)))"

definition FindAllMilestones :: "('k \<Rightarrow> 'm option) \<Rightarrow> 'k flow \<Rightarrow> 'm list" where
  "FindAllMilestones sel w = (let
     add = (\<lambda>k _ ms. (Ok (), ms @ (case sel k of Some m \<Rightarrow> [m] | None \<Rightarrow> [])));
     t = \<lparr>tv_Intent = Some add, tv_NodeSimple = Some add\<rparr> :: ('k, 'm list, unit) traverser
   in snd (TraverseFlow (\<lambda>_. w) t [] []))"

text \<open>\<^verbatim>\<open>TargetStep.GetName\<close> is \<open>name_of\<close>; the later of two steps of one name is found.\<close>

definition FindTargetStep :: "('k \<Rightarrow> string option) \<Rightarrow> 'k flow \<Rightarrow> string \<Rightarrow> path option" where
  "FindTargetStep name_of w name = (let
     t = \<lparr>tv_Intent = Some (\<lambda>k p out. (Ok (), if name_of k = Some name then Some p else out)), tv_NodeSimple = None\<rparr>
       :: ('k, path option, unit) traverser
   in snd (TraverseFlowIntentFirst (\<lambda>_. w) t [] None))"

section \<open>Flow references: \<^verbatim>\<open>flow.go\<close>\<close>

record FlowReference =
  fr_Type :: string
  fr_Name :: string

text \<open>The type assertion to \<^verbatim>\<open>PublicFlow\<close> answers with \<^verbatim>\<open>FlowFlowReference()\<close>.\<close>

definition FindCurrentFlowReference :: "('k \<Rightarrow> FlowReference option) \<Rightarrow> 'k flow \<Rightarrow> FlowReference option" where
  "FindCurrentFlowReference public w = snd (TraverseIntentFromEndToRoot (\<lambda>_. w)
     (\<lambda>k ref. (Ok () :: (unit, unit) outcome, case ref of Some _ \<Rightarrow> ref | None \<Rightarrow> public k)) None)"

section \<open>Errors: \<^verbatim>\<open>errors.go\<close>\<close>

text \<open>An error is the list of the errors joined in it, in the order \<^verbatim>\<open>errors.As\<close> looks at them; the empty list
  is \<^verbatim>\<open>nil\<close>. Wrappers that only add details are left out. API errors carry their kind.\<close>

datatype bot_protection_status = BPFailed | BPSuccess | BPServiceUnavailable

datatype api_kind = AccountStatusKind | AccountLockoutKind | HookDisallowedKind | OtherKind

datatype ('k, 'i) flow_error = ErrIncompatibleInput | ErrSameNode | ErrReplaceNode | ErrNoChange | ErrPauseAndRetryAccept | ErrEOF
  | ErrorSwitchFlow FlowReference 'i | ErrorRewriteFlow 'k "'k node list" 'i | ErrorBotProtectionVerification bot_protection_status
  | ErrFlowNotFound | ErrFlowNotAllowed | ErrStepNotFound | ErrUnknownFlow | ErrDifferentUserID | ErrNoUserID
  | ErrVerificationFailed | ErrVerificationServiceUnavailable
  | AggregatedError string | APIError api_kind string | FlowInfraError string | OutOfFuel

type_synonym ('k, 'i) flow_errs = "('k, 'i) flow_error list"

fun leaf_kind :: "('k, 'i) flow_error \<Rightarrow> api_kind option" where
  "leaf_kind (APIError kind _) = Some kind"
| "leaf_kind ErrFlowNotFound = Some OtherKind"
| "leaf_kind ErrFlowNotAllowed = Some OtherKind"
| "leaf_kind ErrStepNotFound = Some OtherKind"
| "leaf_kind ErrUnknownFlow = Some OtherKind"
| "leaf_kind ErrDifferentUserID = Some OtherKind"
| "leaf_kind ErrNoUserID = Some OtherKind"
| "leaf_kind ErrVerificationFailed = Some OtherKind"
| "leaf_kind ErrVerificationServiceUnavailable = Some OtherKind"
| "leaf_kind _ = None"

fun is_validation :: "('k, 'i) flow_error \<Rightarrow> bool" where
  "is_validation (AggregatedError _) = True"
| "is_validation _ = False"

text \<open>\<^verbatim>\<open>apierrors.IsAPIError\<close> and the kind of \<^verbatim>\<open>AsAPIError\<close>.\<close>

definition IsAPIError :: "('k, 'i) flow_errs \<Rightarrow> bool" where
  "IsAPIError err = list_ex (\<lambda>e. leaf_kind e \<noteq> None \<or> is_validation e) err"

definition AsAPIError_kind :: "('k, 'i) flow_errs \<Rightarrow> api_kind" where
  "AsAPIError_kind err = (case List.find (\<lambda>e. leaf_kind e \<noteq> None) err of
     Some e \<Rightarrow> the (leaf_kind e) | None \<Rightarrow> OtherKind)"

fun as_SwitchFlow :: "('k, 'i) flow_error \<Rightarrow> (FlowReference \<times> 'i) option" where
  "as_SwitchFlow (ErrorSwitchFlow ref i) = Some (ref, i)"
| "as_SwitchFlow _ = None"

fun as_RewriteFlow :: "('k, 'i) flow_error \<Rightarrow> ('k \<times> 'k node list \<times> 'i) option" where
  "as_RewriteFlow (ErrorRewriteFlow k ns i) = Some (k, ns, i)"
| "as_RewriteFlow _ = None"

fun as_BotProtection :: "('k, 'i) flow_error \<Rightarrow> bot_protection_status option" where
  "as_BotProtection (ErrorBotProtectionVerification st) = Some st"
| "as_BotProtection _ = None"

text \<open>\<^verbatim>\<open>errors.As\<close>: the first that fits.\<close>

definition errors_As :: "('e \<Rightarrow> 'a option) \<Rightarrow> 'e list \<Rightarrow> 'a option" where
  "errors_As f err = (case List.map_filter f err of [] \<Rightarrow> None | x # _ \<Rightarrow> Some x)"

section \<open>The user of a flow: \<^verbatim>\<open>accept.go\<close>\<close>

definition GetUserID :: "('k \<Rightarrow> string option) \<Rightarrow> 'k flow \<Rightarrow> (('k, 'i) flow_errs, string) outcome" where
  "GetUserID use_user root = (let
     look = (\<lambda>k _ userID. case use_user k of
        None \<Rightarrow> (Ok (), userID)
      | Some uid \<Rightarrow> if userID = '''' then (Ok (), uid) else if uid \<noteq> userID then (Err [ErrDifferentUserID], userID) else (Ok (), userID));
     t = \<lparr>tv_Intent = Some look, tv_NodeSimple = Some look\<rparr> :: ('k, string, ('k, 'i) flow_errs) traverser
   in case TraverseFlow (\<lambda>_. root) t [] '''' of (r, userID) \<Rightarrow>
        if userID = '''' then Err [ErrNoUserID] else (case r of Ok _ \<Rightarrow> Ok userID | Err e \<Rightarrow> Err e | Panic \<Rightarrow> Panic))"

section \<open>Sessions: \<^verbatim>\<open>session.go\<close>\<close>

datatype bot_protection_outcome = BPOutcomeFailed | BPOutcomeVerified | BPOutcomeServiceUnavailable

record SessionOptions =
  so_OAuthSessionID :: string
  so_SAMLSessionID :: string
  so_ClientID :: string
  so_RedirectURI :: string
  so_Prompt :: "string list"
  so_State :: string
  so_XState :: string
  so_UILocales :: string
  so_BotProtectionVerificationResult :: "bot_protection_outcome option"
  so_IDToken :: string
  so_SuppressIDPSessionCookie :: bool
  so_UserIDHint :: string
  so_LoginHint :: string

definition empty_options :: SessionOptions where
  "empty_options = \<lparr>so_OAuthSessionID = '''', so_SAMLSessionID = '''', so_ClientID = '''', so_RedirectURI = '''', so_Prompt = [],
     so_State = '''', so_XState = '''', so_UILocales = '''', so_BotProtectionVerificationResult = None, so_IDToken = '''',
     so_SuppressIDPSessionCookie = False, so_UserIDHint = '''', so_LoginHint = ''''\<rparr>"

text \<open>The maps that count messages: a phone number that is missing has none.\<close>

record FlowSession =
  fs_FlowID :: string
  fs_OAuthSessionID :: string
  fs_SAMLSessionID :: string
  fs_ClientID :: string
  fs_RedirectURI :: string
  fs_Prompt :: "string list"
  fs_State :: string
  fs_XState :: string
  fs_UILocales :: string
  fs_BotProtectionVerificationResult :: "bot_protection_outcome option"
  fs_IDToken :: string
  fs_SuppressIDPSessionCookie :: bool
  fs_UserIDHint :: string
  fs_LoginHint :: string
  fs_SMSOTPSentCountByPhone :: "string \<Rightarrow> int option"
  fs_SMSOTPVerifiedCountByPhone :: "string \<Rightarrow> int option"

definition PartiallyMergeFrom :: "SessionOptions option \<Rightarrow> SessionOptions option \<Rightarrow> SessionOptions" where
  "PartiallyMergeFrom s opt = (let out = (case s of None \<Rightarrow> empty_options | Some x \<Rightarrow> x) in
     case opt of None \<Rightarrow> out
     | Some x \<Rightarrow> out
        \<lparr>so_ClientID := (if so_ClientID x \<noteq> '''' then so_ClientID x else so_ClientID out),
         so_State := (if so_State x \<noteq> '''' then so_State x else so_State out),
         so_XState := (if so_XState x \<noteq> '''' then so_XState x else so_XState out),
         so_UILocales := (if so_UILocales x \<noteq> '''' then so_UILocales x else so_UILocales out),
         so_LoginHint := (if so_LoginHint x \<noteq> '''' then so_LoginHint x else so_LoginHint out)\<rparr>)"

definition NewSession :: "string \<Rightarrow> SessionOptions \<Rightarrow> FlowSession" where
  "NewSession flowID opts = \<lparr>fs_FlowID = flowID, fs_OAuthSessionID = so_OAuthSessionID opts, fs_SAMLSessionID = so_SAMLSessionID opts,
     fs_ClientID = so_ClientID opts, fs_RedirectURI = so_RedirectURI opts, fs_Prompt = so_Prompt opts, fs_State = so_State opts,
     fs_XState = so_XState opts, fs_UILocales = so_UILocales opts,
     fs_BotProtectionVerificationResult = so_BotProtectionVerificationResult opts, fs_IDToken = so_IDToken opts,
     fs_SuppressIDPSessionCookie = so_SuppressIDPSessionCookie opts, fs_UserIDHint = so_UserIDHint opts, fs_LoginHint = so_LoginHint opts,
     fs_SMSOTPSentCountByPhone = Map.empty, fs_SMSOTPVerifiedCountByPhone = Map.empty\<rparr>"

record SessionOutput =
  sx_FlowID :: string
  sx_ClientID :: string
  sx_RedirectURI :: string

definition Session_ToOutput :: "FlowSession \<Rightarrow> SessionOutput" where
  "Session_ToOutput s = \<lparr>sx_FlowID = fs_FlowID s, sx_ClientID = fs_ClientID s, sx_RedirectURI = fs_RedirectURI s\<rparr>"

definition SetBotProtectionVerificationResult :: "bot_protection_outcome option \<Rightarrow> FlowSession \<Rightarrow> FlowSession" where
  "SetBotProtectionVerificationResult r s = s\<lparr>fs_BotProtectionVerificationResult := r\<rparr>"

definition count_up :: "string \<Rightarrow> (string \<Rightarrow> int option) \<Rightarrow> string \<Rightarrow> int option" where
  "count_up phone m = m(phone := Some (case m phone of Some n \<Rightarrow> n + 1 | None \<Rightarrow> 1))"

definition WithSMSOTPSentCountAdded :: "string \<Rightarrow> FlowSession \<Rightarrow> FlowSession" where
  "WithSMSOTPSentCountAdded phone s = s\<lparr>fs_SMSOTPSentCountByPhone := count_up phone (fs_SMSOTPSentCountByPhone s)\<rparr>"

definition WithSMSOTPVerifiedCountAdded :: "string \<Rightarrow> FlowSession \<Rightarrow> FlowSession" where
  "WithSMSOTPVerifiedCountAdded phone s = s\<lparr>fs_SMSOTPVerifiedCountByPhone := count_up phone (fs_SMSOTPVerifiedCountByPhone s)\<rparr>"

text \<open>\<^verbatim>\<open>*s = *updated\<close>.\<close>

definition PatchFrom :: "FlowSession \<Rightarrow> FlowSession \<Rightarrow> FlowSession" where
  "PatchFrom updated s = updated"

section \<open>Which flows a client may create: \<^verbatim>\<open>allowlist.go\<close>\<close>

record UIAuthenticationFlowGroup =
  ug_Name :: string
  ug_Flows :: "FlowReference list"

record AuthenticationFlowAllowlist =
  al_Groups :: "string list"
  al_Flows :: "FlowReference list"

record FlowAllowlist =
  fa_DefinedGroups :: "UIAuthenticationFlowGroup list"
  fa_AllowedGroups :: "string list"
  fa_AllowedFlows :: "FlowReference list"

definition NewFlowAllowlist :: "AuthenticationFlowAllowlist option \<Rightarrow> UIAuthenticationFlowGroup list \<Rightarrow> FlowAllowlist" where
  "NewFlowAllowlist allowlist definedGroups = \<lparr>fa_DefinedGroups = definedGroups,
     fa_AllowedGroups = (case allowlist of None \<Rightarrow> [] | Some a \<Rightarrow> al_Groups a),
     fa_AllowedFlows = (case allowlist of None \<Rightarrow> [] | Some a \<Rightarrow> al_Flows a)\<rparr>"

definition findFlowInDefinedGroups :: "FlowAllowlist \<Rightarrow> string \<Rightarrow> string \<Rightarrow> string option" where
  "findFlowInDefinedGroups a flowType flowGroup = (case List.find (\<lambda>g. ug_Name g = flowGroup) (fa_DefinedGroups a) of
     Some g \<Rightarrow> map_option fr_Name (List.find (\<lambda>f. fr_Type f = flowType) (ug_Flows g))
   | None \<Rightarrow> if flowGroup = ''default'' then Some ''default'' else None)"

text \<open>\<open>None\<close> is \<^verbatim>\<open>ErrFlowNotAllowed\<close>.\<close>

definition DeriveFlowNameForDefaultUI :: "FlowAllowlist \<Rightarrow> string \<Rightarrow> string \<Rightarrow> string option" where
  "DeriveFlowNameForDefaultUI a flowType flowGroup =
     (if flowGroup = '''' then
        (case fa_AllowedGroups a of
           [] \<Rightarrow> findFlowInDefinedGroups a flowType ''default''
         | g # _ \<Rightarrow> findFlowInDefinedGroups a flowType g)
      else if fa_AllowedGroups a = [] then findFlowInDefinedGroups a flowType flowGroup
      else if flowGroup \<notin> set (fa_AllowedGroups a) then None
      else findFlowInDefinedGroups a flowType flowGroup)"

text \<open>The flows of the defined groups of one name, and the loop over the allowed groups; \<open>None\<close> when it returns early.\<close>

definition flows_of_group :: "FlowAllowlist \<Rightarrow> string \<Rightarrow> FlowReference list" where
  "flows_of_group a g = concat (map ug_Flows (filter (\<lambda>d. g = ug_Name d) (fa_DefinedGroups a)))"

fun effective_allowlist :: "FlowAllowlist \<Rightarrow> FlowReference \<Rightarrow> FlowReference list \<Rightarrow> string list \<Rightarrow> FlowReference list option" where
  "effective_allowlist a ref acc [] = Some acc"
| "effective_allowlist a ref acc (g # gs) = (let isDefined = list_ex (\<lambda>d. g = ug_Name d) (fa_DefinedGroups a) in
     if \<not> isDefined \<and> g = ''default'' \<and> fr_Name ref = ''default'' then None
     else effective_allowlist a ref (acc @ flows_of_group a g) gs)"

definition CanCreateFlow :: "FlowAllowlist \<Rightarrow> FlowReference \<Rightarrow> bool" where
  "CanCreateFlow a ref = (if fa_AllowedGroups a = [] \<and> fa_AllowedFlows a = [] then True
     else (case effective_allowlist a ref (fa_AllowedFlows a) (fa_AllowedGroups a) of
       None \<Rightarrow> True
     | Some entries \<Rightarrow> list_ex (\<lambda>e. fr_Type e = fr_Type ref \<and> fr_Name e = fr_Name ref) entries))"


lemma effective_allowlist_Some:
  "effective_allowlist a ref acc gs = Some es \<Longrightarrow> es = acc @ concat (map (flows_of_group a) gs)
    \<and> (\<forall>g \<in> set gs. g = ''default'' \<longrightarrow> fr_Name ref = ''default'' \<longrightarrow> (\<exists>d \<in> set (fa_DefinedGroups a). ug_Name d = g))"
proof (induction gs arbitrary: acc)
  case (Cons g gs)
  then have "effective_allowlist a ref (acc @ flows_of_group a g) gs = Some es"
    and "g = ''default'' \<longrightarrow> fr_Name ref = ''default'' \<longrightarrow> (\<exists>d \<in> set (fa_DefinedGroups a). ug_Name d = g)"
    by (auto simp: Let_def list_ex_iff split: if_splits)
  with Cons.IH [OF this(1)] show ?case by auto
qed simp

lemma effective_allowlist_None:
  "effective_allowlist a ref acc gs = None \<Longrightarrow>
     ''default'' \<in> set gs \<and> fr_Name ref = ''default'' \<and> (\<forall>d \<in> set (fa_DefinedGroups a). ug_Name d \<noteq> ''default'')"
  by (induction gs arbitrary: acc) (auto simp: Let_def list_ex_iff split: if_splits)

lemma flow_reference_eq: "fr_Type e = fr_Type ref \<Longrightarrow> fr_Name e = fr_Name ref \<Longrightarrow> e = (ref :: FlowReference)"
  by (cases e; cases ref) simp

lemma in_flows_of_group: "ref \<in> set (flows_of_group a g) \<longleftrightarrow> (\<exists>d \<in> set (fa_DefinedGroups a). ug_Name d = g \<and> ref \<in> set (ug_Flows d))"
  by (auto simp: flows_of_group_def)

lemma CanCreateFlow_iff:
  "CanCreateFlow a ref \<longleftrightarrow> fa_AllowedGroups a = [] \<and> fa_AllowedFlows a = [] \<or> ref \<in> set (fa_AllowedFlows a)
    \<or> (\<exists>g \<in> set (fa_AllowedGroups a). \<exists>d \<in> set (fa_DefinedGroups a). ug_Name d = g \<and> ref \<in> set (ug_Flows d))
    \<or> ''default'' \<in> set (fa_AllowedGroups a) \<and> fr_Name ref = ''default'' \<and> (\<forall>d \<in> set (fa_DefinedGroups a). ug_Name d \<noteq> ''default'')"
proof (cases "effective_allowlist a ref (fa_AllowedFlows a) (fa_AllowedGroups a)")
  case None
  with effective_allowlist_None [OF None] show ?thesis by (simp add: CanCreateFlow_def)
next
  case (Some es)
  have "list_ex (\<lambda>e. fr_Type e = fr_Type ref \<and> fr_Name e = fr_Name ref) es \<longleftrightarrow> ref \<in> set es"
    by (auto simp: list_ex_iff dest: flow_reference_eq)
  with Some effective_allowlist_Some [OF Some] show ?thesis
    by (auto simp: CanCreateFlow_def in_flows_of_group)
qed

lemma findFlowInDefinedGroups_Some:
  "findFlowInDefinedGroups a t g = Some n \<Longrightarrow> (\<exists>d \<in> set (fa_DefinedGroups a). ug_Name d = g \<and> \<lparr>fr_Type = t, fr_Name = n\<rparr> \<in> set (ug_Flows d))
    \<or> g = ''default'' \<and> n = ''default'' \<and> (\<forall>d \<in> set (fa_DefinedGroups a). ug_Name d \<noteq> ''default'')"
proof -
  have ref: "\<lparr>fr_Type = fr_Type f, fr_Name = fr_Name f\<rparr> = f" for f :: FlowReference by simp
  show "findFlowInDefinedGroups a t g = Some n \<Longrightarrow> ?thesis"
    by (fastforce simp: findFlowInDefinedGroups_def find_Some_iff find_None_iff ref split: option.splits if_splits)
qed

text \<open>C29: a flow may be created exactly when the client has no allowlist, lists the flow, lists a group that is defined with
  it, or lists the default group, which nobody defined, and the flow is called default.\<close>

theorem flow_allowed_exactly:
  "CanCreateFlow (NewFlowAllowlist allowlist groups) ref \<longleftrightarrow> (case allowlist of None \<Rightarrow> True | Some al \<Rightarrow>
     al_Groups al = [] \<and> al_Flows al = [] \<or> ref \<in> set (al_Flows al)
     \<or> (\<exists>g \<in> set (al_Groups al). \<exists>d \<in> set groups. ug_Name d = g \<and> ref \<in> set (ug_Flows d))
     \<or> ''default'' \<in> set (al_Groups al) \<and> fr_Name ref = ''default'' \<and> (\<forall>d \<in> set groups. ug_Name d \<noteq> ''default''))"
  by (auto simp: CanCreateFlow_iff NewFlowAllowlist_def split: option.split)

theorem flow_allowed_exactly_witness:
  "CanCreateFlow (NewFlowAllowlist (Some \<lparr>al_Groups = [''partners''], al_Flows = []\<rparr>)
       [\<lparr>ug_Name = ''partners'', ug_Flows = [\<lparr>fr_Type = ''login'', fr_Name = ''sso''\<rparr>]\<rparr>]) \<lparr>fr_Type = ''login'', fr_Name = ''sso''\<rparr>
   \<and> CanCreateFlow (NewFlowAllowlist (Some \<lparr>al_Groups = [''default''], al_Flows = []\<rparr>) []) \<lparr>fr_Type = ''login'', fr_Name = ''default''\<rparr>
   \<and> \<not> CanCreateFlow (NewFlowAllowlist (Some \<lparr>al_Groups = [''default''], al_Flows = []\<rparr>)
       [\<lparr>ug_Name = ''default'', ug_Flows = []\<rparr>]) \<lparr>fr_Type = ''login'', fr_Name = ''default''\<rparr>"
  by (simp add: flow_allowed_exactly)

text \<open>The flow the default user interface picks for a client is one the client may create, unless the allowlist names
  flows and no groups.\<close>

lemma derived_flow_is_allowed:
  assumes "DeriveFlowNameForDefaultUI a flowType flowGroup = Some n" "fa_AllowedGroups a \<noteq> [] \<or> fa_AllowedFlows a = []"
  shows "CanCreateFlow a \<lparr>fr_Type = flowType, fr_Name = n\<rparr>"
proof (cases "fa_AllowedGroups a = []")
  case True
  with assms(2) show ?thesis by (simp add: CanCreateFlow_def)
next
  case False
  with assms(1) obtain g where "g \<in> set (fa_AllowedGroups a)" "findFlowInDefinedGroups a flowType g = Some n"
    by (auto simp: DeriveFlowNameForDefaultUI_def split: if_splits list.splits)
  with findFlowInDefinedGroups_Some [of a flowType g n] show ?thesis by (auto simp: CanCreateFlow_iff)
qed

end
