(* ===== verification/FlowStore.thy ===== *)
theory FlowStore imports FlowTree begin

text \<open>
  Where authentication flows are kept: \<^verbatim>\<open>pkg/lib/authenticationflow/store.go\<close>. Every state of a flow is kept under
  its state token, next to a mark under the flow ID that says the flow is still going on, and the session of
  the flow under the flow ID.
\<close>

section \<open>Redis\<close>

datatype 'k flow_value = MarkValue string | FlowValue "'k flow" | SessionValue FlowSession

record ('r, 'k) flow_redis =
  xr_SETEX :: "time \<Rightarrow> string \<Rightarrow> 'k flow_value \<Rightarrow> duration \<Rightarrow> 'r \<Rightarrow> (string + unit) \<times> 'r"
  xr_GET :: "time \<Rightarrow> string \<Rightarrow> 'r \<Rightarrow> (string + 'k flow_value option) \<times> 'r"
  xr_SETXX :: "time \<Rightarrow> string \<Rightarrow> 'k flow_value \<Rightarrow> duration \<Rightarrow> 'r \<Rightarrow> (string + unit) \<times> 'r"
  xr_DEL :: "time \<Rightarrow> string \<Rightarrow> 'r \<Rightarrow> (string + unit) \<times> 'r"

text \<open>What the commands promise; \<open>view t r k\<close> is what key \<open>k\<close> holds at time \<open>t\<close> if nothing else happens. A command
  that fails may or may not have had its effect.\<close>

locale flow_keys =
  fixes rd :: "('r, 'k) flow_redis" and view :: "time \<Rightarrow> 'r \<Rightarrow> string \<Rightarrow> 'k flow_value option"
  assumes SETEX: "xr_SETEX rd now k v d r = (ures, r') \<Longrightarrow> now \<le> t \<Longrightarrow>
      view t r' k' = view t r k' \<and> (k' = k \<longrightarrow> ures \<noteq> Inr ()) \<or> k' = k \<and> view t r' k' = (if t < now + d then Some v else None)"
    and GET: "xr_GET rd now k r = (gres, r') \<Longrightarrow> r' = r \<and> (\<forall>v. gres = Inr v \<longrightarrow> view now r k = v)"
    and SETXX: "xr_SETXX rd now k v d r = (ures, r') \<Longrightarrow> now \<le> t \<Longrightarrow>
      view t r' k' = view t r k' \<and> (k' = k \<longrightarrow> ures \<noteq> Inr () \<or> view now r k = None)
      \<or> k' = k \<and> view now r k \<noteq> None \<and> view t r' k' = (if t < now + d then Some v else None)"
    and DEL: "xr_DEL rd now k r = (ures, r') \<Longrightarrow> now \<le> t \<Longrightarrow>
      view t r' k' = view t r k' \<and> (k' = k \<longrightarrow> ures \<noteq> Inr ()) \<or> k' = k \<and> view t r' k' = None"
    and view_later: "now \<le> t \<Longrightarrow> view t r k = None \<or> view t r k = view now r k"

text \<open>A map with expiry times does.\<close>

type_synonym 'k flow_map = "string \<Rightarrow> ('k flow_value \<times> time) option"

definition xm_view :: "time \<Rightarrow> 'k flow_map \<Rightarrow> string \<Rightarrow> 'k flow_value option" where
  "xm_view t r k = (case r k of Some (v, e) \<Rightarrow> if t < e then Some v else None | None \<Rightarrow> None)"

definition xm_redis :: "('k flow_map, 'k) flow_redis" where
  "xm_redis = \<lparr>xr_SETEX = \<lambda>now k v d r. (Inr (), r(k := Some (v, now + d))),
     xr_GET = \<lambda>now k r. (Inr (xm_view now r k), r),
     xr_SETXX = \<lambda>now k v d r. (Inr (), case xm_view now r k of None \<Rightarrow> r | Some _ \<Rightarrow> r(k := Some (v, now + d))),
     xr_DEL = \<lambda>now k r. (Inr (), r(k := None))\<rparr>"

interpretation xm: flow_keys xm_redis xm_view
  by unfold_locales (auto simp: xm_redis_def xm_view_def split: option.splits if_splits)

section \<open>The store\<close>

record ('r, 'k) flow_store =
  st_AppID :: string
  st_redis :: "('r, 'k) flow_redis"
  st_restore :: "'k \<Rightarrow> 'k"

text \<open>\<open>st_restore\<close> is what a content is after it was written as JSON and read back.\<close>

definition Lifetime :: duration where "Lifetime = 1200000000000"

definition redisFlowKey :: "string \<Rightarrow> string \<Rightarrow> string" where
  "redisFlowKey appID flowID = ''app:'' @ appID @ '':authenticationflow_flow:'' @ flowID"

definition redisFlowStateKey :: "string \<Rightarrow> string \<Rightarrow> string" where
  "redisFlowStateKey appID stateToken = ''app:'' @ appID @ '':authenticationflow_state:'' @ stateToken"

definition redisFlowSessionKey :: "string \<Rightarrow> string \<Rightarrow> string" where
  "redisFlowSessionKey appID flowID = ''app:'' @ appID @ '':authenticationflow_session:'' @ flowID"

definition store_call :: "('r \<Rightarrow> (string + 'a) \<times> 'r) \<Rightarrow> ('r, ('k, 'i) flow_errs, 'a) proc" where
  "store_call c = (\<lambda>r. case c r of (Inl e, r) \<Rightarrow> (Err [FlowInfraError e], r) | (Inr y, r) \<Rightarrow> (Ok y, r))"

definition CreateFlow :: "('r, 'k) flow_store \<Rightarrow> time \<Rightarrow> 'k flow \<Rightarrow> ('r, ('k, 'i) flow_errs, unit) proc" where
  "CreateFlow st now flow = (let
     flowKey = redisFlowKey (st_AppID st) (FlowID flow);
     stateKey = redisFlowStateKey (st_AppID st) (StateToken flow)
   in bindp (store_call (xr_SETEX (st_redis st) now flowKey (MarkValue flowKey) Lifetime)) (\<lambda>_.
      store_call (xr_SETEX (st_redis st) now stateKey (FlowValue flow) Lifetime)))"

definition GetFlowByStateToken :: "('r, 'k) flow_store \<Rightarrow> time \<Rightarrow> string \<Rightarrow> ('r, ('k, 'i) flow_errs, 'k flow) proc" where
  "GetFlowByStateToken st now stateToken =
     bindp (store_call (xr_GET (st_redis st) now (redisFlowStateKey (st_AppID st) stateToken))) (\<lambda>v. case v of
       None \<Rightarrow> failp [ErrFlowNotFound]
     | Some (FlowValue w) \<Rightarrow> let flow = map_flow (st_restore st) w in
         bindp (store_call (xr_GET (st_redis st) now (redisFlowKey (st_AppID st) (FlowID flow)))) (\<lambda>m. case m of
           None \<Rightarrow> failp [ErrFlowNotFound] | Some _ \<Rightarrow> ret flow)
     | Some _ \<Rightarrow> failp [FlowInfraError ''json''])"

definition DeleteFlow :: "('r, 'k) flow_store \<Rightarrow> time \<Rightarrow> 'k flow \<Rightarrow> ('r, ('k, 'i) flow_errs, unit) proc" where
  "DeleteFlow st now flow = store_call (xr_DEL (st_redis st) now (redisFlowKey (st_AppID st) (FlowID flow)))"

definition Flow_CreateSession :: "('r, 'k) flow_store \<Rightarrow> time \<Rightarrow> FlowSession \<Rightarrow> ('r, ('k, 'i) flow_errs, unit) proc" where
  "Flow_CreateSession st now session =
     store_call (xr_SETEX (st_redis st) now (redisFlowSessionKey (st_AppID st) (fs_FlowID session)) (SessionValue session) Lifetime)"

definition Flow_GetSession :: "('r, 'k) flow_store \<Rightarrow> time \<Rightarrow> string \<Rightarrow> ('r, ('k, 'i) flow_errs, FlowSession) proc" where
  "Flow_GetSession st now flowID =
     bindp (store_call (xr_GET (st_redis st) now (redisFlowSessionKey (st_AppID st) flowID))) (\<lambda>v. case v of
       None \<Rightarrow> failp [ErrFlowNotFound]
     | Some (SessionValue s) \<Rightarrow> ret s
     | Some _ \<Rightarrow> failp [FlowInfraError ''json''])"

definition Flow_UpdateSession :: "('r, 'k) flow_store \<Rightarrow> time \<Rightarrow> FlowSession \<Rightarrow> ('r, ('k, 'i) flow_errs, unit) proc" where
  "Flow_UpdateSession st now session =
     store_call (xr_SETXX (st_redis st) now (redisFlowSessionKey (st_AppID st) (fs_FlowID session)) (SessionValue session) Lifetime)"

definition Flow_DeleteSession :: "('r, 'k) flow_store \<Rightarrow> time \<Rightarrow> FlowSession \<Rightarrow> ('r, ('k, 'i) flow_errs, unit) proc" where
  "Flow_DeleteSession st now session =
     store_call (xr_DEL (st_redis st) now (redisFlowSessionKey (st_AppID st) (fs_FlowID session)))"

end
