(* ===== verification/FlowEngine.thy ===== *)
theory FlowEngine imports FlowStore Transaction begin

text \<open>
  The engine of authentication flows: \<^verbatim>\<open>input.go\<close>, \<^verbatim>\<open>effect.go\<close>, \<^verbatim>\<open>accept.go\<close>, \<^verbatim>\<open>cookie.go\<close>,
  \<^verbatim>\<open>authenticationinfo.go\<close> and \<^verbatim>\<open>service.go\<close> of \<^verbatim>\<open>pkg/lib/authenticationflow\<close>. What intents and nodes do when
  one of the interfaces of the engine is called is the record \<open>program\<close>. Accepting an input runs in a transaction
  that is always rolled back; a flow that has come to its end runs all its effects in one that is committed.
\<close>

section \<open>What the engine and the program work on\<close>

text \<open>What a context carries for the program: the values \<^verbatim>\<open>MakeContext\<close> copied into it, the live session it
  points to, and everything else (services, events, the context of rate limits).\<close>

record 'x prog_ctx =
  pc_context :: FlowSession
  pc_session :: FlowSession
  pc_rest :: 'x

record ('k, 'x) prog_world =
  pw_root :: "'k flow"
  pw_ctx :: "'x prog_ctx"

record 'f AcceptResult =
  ar_BotProtection :: "bot_protection_outcome option"
  ar_DelayedOneTimeFunctions :: "'f list"
  ar_PendingSessionPatches :: "FlowSession list"

definition NewAcceptResult :: "'f AcceptResult" where
  "NewAcceptResult = \<lparr>ar_BotProtection = None, ar_DelayedOneTimeFunctions = [], ar_PendingSessionPatches = []\<rparr>"

datatype flow_data = DataFinishRedirectURI string | NodeData string | EmptyMapData

record FlowAction =
  fn_Type :: string
  fn_Identification :: string
  fn_Authentication :: string
  fn_Data :: "flow_data option"

text \<open>The memory of the engine: \<open>fm_action\<close> is the variable \<^verbatim>\<open>flowAction\<close> its closures assign, \<open>fm_tokens\<close>
  counts the random strings drawn.\<close>

record ('k, 'f, 'x) flow_mem =
  fm_prog :: "('k, 'x) prog_world"
  fm_result :: "'f AcceptResult"
  fm_action :: "FlowAction option"
  fm_tokens :: nat

type_synonym ('k, 'i, 'd, 'h, 'x, 'a) ro_proc = "(('d, 'h, 'x prog_ctx) tx_state, ('k, 'i) flow_errs, 'a) proc"
type_synonym ('k, 'i, 'd, 'h, 'x, 'a) rw_proc = "(('d, 'h, ('k, 'x) prog_world) tx_state, ('k, 'i) flow_errs, 'a) proc"
type_synonym ('k, 'i, 'f, 'd, 'h, 'x, 'a) mem_proc = "(('d, 'h, ('k, 'f, 'x) flow_mem) tx_state, ('k, 'i) flow_errs, 'a) proc"

text \<open>A method that is given a part of the world only.\<close>

definition on_world :: "('w \<Rightarrow> 'v) \<Rightarrow> ('v \<Rightarrow> 'w \<Rightarrow> 'w) \<Rightarrow> (('d, 'h, 'v) tx_state, 'e, 'a) proc \<Rightarrow> (('d, 'h, 'w) tx_state, 'e, 'a) proc" where
  "on_world get put m = (\<lambda>s. case m \<lparr>tx_db = tx_db s, tx_hooks = tx_hooks s, tx_world = get (tx_world s)\<rparr> of
     (r, s') \<Rightarrow> (r, \<lparr>tx_db = tx_db s', tx_hooks = tx_hooks s', tx_world = put (tx_world s') (tx_world s)\<rparr>))"

definition on_prog :: "('k, 'i, 'd, 'h, 'x, 'a) rw_proc \<Rightarrow> ('k, 'i, 'f, 'd, 'h, 'x, 'a) mem_proc" where
  "on_prog m = on_world fm_prog (\<lambda>p w. w\<lparr>fm_prog := p\<rparr>) m"

definition on_ctx :: "('k, 'i, 'd, 'h, 'x, 'a) ro_proc \<Rightarrow> ('k, 'i, 'f, 'd, 'h, 'x, 'a) mem_proc" where
  "on_ctx m = on_world (\<lambda>w. pw_ctx (fm_prog w)) (\<lambda>c w. w\<lparr>fm_prog := (fm_prog w)\<lparr>pw_ctx := c\<rparr>\<rparr>) m"

definition cur_root :: "('d, 'h, ('k, 'f, 'x) flow_mem) tx_state \<Rightarrow> 'k flow" where
  "cur_root s = pw_root (fm_prog (tx_world s))"

definition mem_mod :: "(('k, 'f, 'x) flow_mem \<Rightarrow> ('k, 'f, 'x) flow_mem) \<Rightarrow> ('k, 'i, 'f, 'd, 'h, 'x, unit) mem_proc" where
  "mem_mod f = modp (\<lambda>s. s\<lparr>tx_world := f (tx_world s)\<rparr>)"

section \<open>The interfaces of intents and nodes\<close>

datatype 'p effect = RunEffect 'p | OnCommitEffect 'p

text \<open>What \<^verbatim>\<open>ReactTo\<close> may return: a node, or a node with a function to be called once and a changed session.\<close>

datatype ('k, 'f) react_result = ReactNode "'k node" | ReactNodeResult "'k node" "'f option" "FlowSession option"

text \<open>\<^verbatim>\<open>ReactTo\<close>, an effect and a delayed function may change the contents of the tree, their receiver included, which
  is where \<open>loc\<close> points; the other methods do not. A delayed function runs outside any transaction. \<^verbatim>\<open>nil\<close> methods
  are type assertions that fail.\<close>

record ('k, 'i, 'sc, 'f, 'd, 'h, 'x) program =
  p_InputReactor :: "'k \<Rightarrow> bool"
  p_CanReactTo :: "'k \<Rightarrow> 'k flows \<Rightarrow> ('k, 'i, 'd, 'h, 'x, 'sc option) ro_proc"
  p_ReactTo :: "loc \<Rightarrow> 'i option \<Rightarrow> ('k, 'i, 'd, 'h, 'x, ('k, 'f) react_result option \<times> ('k, 'i) flow_errs) rw_proc"
  p_EffectGetter :: "'k \<Rightarrow> ('k flows \<Rightarrow> ('k, 'i, 'd, 'h, 'x, (('k, 'i, 'd, 'h, 'x, unit) rw_proc effect) list) ro_proc) option"
  p_CookieGetter :: "'k \<Rightarrow> ('k flows \<Rightarrow> ('k, 'i, 'd, 'h, 'x, string list) ro_proc) option"
  p_AuthenticationInfo :: "'k \<Rightarrow> ('k flows \<Rightarrow> 'x prog_ctx \<Rightarrow> string option) option"
  p_DataOutputer :: "'k \<Rightarrow> ('k flows \<Rightarrow> ('k, 'i, 'd, 'h, 'x, flow_data option) ro_proc) option"
  p_EndOfFlowData :: "'k \<Rightarrow> ('k flows \<Rightarrow> string \<Rightarrow> ('k, 'i, 'd, 'h, 'x, flow_data option) ro_proc) option"
  p_PublicFlow :: "'k \<Rightarrow> FlowReference option"
  p_UseUser :: "'k \<Rightarrow> string option"
  p_MakeInput :: "'sc \<Rightarrow> string \<Rightarrow> ('k, 'i) flow_errs + 'i"
  p_FlowAction :: "'sc \<Rightarrow> FlowAction option"
  p_InstantiateFlow :: "FlowReference \<Rightarrow> string \<Rightarrow> 'k option"
  p_Delayed :: "'f \<Rightarrow> ('d \<times> ('k, 'x) prog_world, ('k, 'i) flow_errs, FlowSession option) proc"
  p_GetUser :: "string \<Rightarrow> ('k, 'i, 'd, 'h, 'x, unit) ro_proc"
  p_DispatchBlocked :: "string option \<Rightarrow> ('k, 'i) flow_errs \<Rightarrow> ('k, 'i, 'd, 'h, 'x, unit) ro_proc"

section \<open>Who reacts to an input: \<^verbatim>\<open>input.go\<close>\<close>

text \<open>The reactor found, and the schema of the inputs it takes; a nil schema stands for the nil input.\<close>

definition CanReactTo_at :: "('k, 'i, 'sc, 'f, 'd, 'h, 'x) program \<Rightarrow> 'k flow \<Rightarrow> loc \<Rightarrow> 'k \<Rightarrow> ('k, 'i, 'f, 'd, 'h, 'x, loc \<times> 'sc option) mem_proc" where
  "CanReactTo_at p root l k = bindp (on_ctx (p_CanReactTo p k \<lparr>Root = root, Nearest = loc_path l\<rparr>)) (\<lambda>sc. ret (l, sc))"

lemma size_node_in: "x \<in> set nodes \<Longrightarrow> size x < Suc (size_list size nodes)"
  using size_list_estimation' [of x nodes, OF _ order.refl, of size] by simp

function (sequential) FindInputReactorForFlow :: "('k, 'i, 'sc, 'f, 'd, 'h, 'x) program \<Rightarrow> 'k flow \<Rightarrow> path \<Rightarrow> 'k flow \<Rightarrow> ('k, 'i, 'f, 'd, 'h, 'x, loc \<times> 'sc option) mem_proc"
  and FindInputReactorForNode :: "('k, 'i, 'sc, 'f, 'd, 'h, 'x) program \<Rightarrow> 'k flow \<Rightarrow> path \<Rightarrow> nat \<Rightarrow> 'k node \<Rightarrow> ('k, 'i, 'f, 'd, 'h, 'x, loc \<times> 'sc option) mem_proc" where
  "FindInputReactorForFlow p root nearest (Flow flowID token intent nodes) = (let own = CanReactTo_at p root (AtIntent nearest) intent in
     if nodes \<noteq> [] then
       bindp (attempt (FindInputReactorForNode p root nearest (length nodes - 1) (last nodes))) (\<lambda>r. case r of
         Inr found \<Rightarrow> ret found
       | Inl err \<Rightarrow> if ErrEOF \<notin> set err then failp err else own)
     else own)"
| "FindInputReactorForNode p root nearest n (Simple k) =
     (if \<not> p_InputReactor p k then failp [ErrEOF] else CanReactTo_at p root (AtNode nearest n) k)"
| "FindInputReactorForNode p root nearest n (SubFlow w) = FindInputReactorForFlow p root (nearest @ [n]) w"
  by pat_completeness auto

termination FindInputReactorForFlow
  by (relation "measure (case_sum (\<lambda>(_, _, _, w). size w) (\<lambda>(_, _, _, _, x). size x))")
    (auto intro: size_node_in)

text \<open>The error is given the type of the flow, which must be a public one.\<close>

definition newAuthenticationFlowError :: "('k, 'i, 'sc, 'f, 'd, 'h, 'x) program \<Rightarrow> ('k, 'i) flow_errs \<Rightarrow> ('k, 'i, 'f, 'd, 'h, 'x, ('k, 'i) flow_errs) mem_proc" where
  "newAuthenticationFlowError p err = (\<lambda>s. case p_PublicFlow p (Intent (cur_root s)) of
     None \<Rightarrow> panicp s | Some _ \<Rightarrow> ret err s)"

definition FindInputReactor :: "('k, 'i, 'sc, 'f, 'd, 'h, 'x) program \<Rightarrow> ('k, 'i, 'f, 'd, 'h, 'x, loc \<times> 'sc option) mem_proc" where
  "FindInputReactor p = bindp (getp cur_root) (\<lambda>root.
     bindp (attempt (FindInputReactorForFlow p root [] root)) (\<lambda>r. case r of
       Inr found \<Rightarrow> ret found
     | Inl err \<Rightarrow> bindp (newAuthenticationFlowError p err) failp))"

section \<open>Effects: \<^verbatim>\<open>effect.go\<close>\<close>

definition get_effects :: "('k, 'i, 'sc, 'f, 'd, 'h, 'x) program \<Rightarrow> 'k \<Rightarrow> path \<Rightarrow> ('k, 'i, 'f, 'd, 'h, 'x, (('k, 'i, 'd, 'h, 'x, unit) rw_proc effect) list) mem_proc" where
  "get_effects p k w = (case p_EffectGetter p k of
     None \<Rightarrow> ret []
   | Some GetEffects \<Rightarrow> bindp (getp cur_root) (\<lambda>root. on_ctx (GetEffects \<lparr>Root = root, Nearest = w\<rparr>)))"

primrec run_run_effects :: "('k, 'i, 'd, 'h, 'x, unit) rw_proc effect list \<Rightarrow> ('k, 'i, 'f, 'd, 'h, 'x, unit) mem_proc" where
  "run_run_effects [] = ret ()"
| "run_run_effects (eff # effs) = (case eff of
     RunEffect f \<Rightarrow> bindp (on_prog f) (\<lambda>_. run_run_effects effs) | OnCommitEffect _ \<Rightarrow> run_run_effects effs)"

primrec run_commit_effects :: "('k, 'i, 'd, 'h, 'x, unit) rw_proc effect list \<Rightarrow> ('k, 'i, 'f, 'd, 'h, 'x, unit) mem_proc" where
  "run_commit_effects [] = ret ()"
| "run_commit_effects (eff # effs) = (case eff of
     OnCommitEffect f \<Rightarrow> bindp (on_prog f) (\<lambda>_. run_commit_effects effs) | RunEffect _ \<Rightarrow> run_commit_effects effs)"

definition is_run_effect :: "'p effect \<Rightarrow> bool" where
  "is_run_effect eff = (case eff of RunEffect _ \<Rightarrow> True | OnCommitEffect _ \<Rightarrow> False)"

definition apply_run_node :: "('k, 'i, 'sc, 'f, 'd, 'h, 'x) program \<Rightarrow> 'k \<Rightarrow> path \<Rightarrow> ('k, 'i, 'f, 'd, 'h, 'x, unit) mem_proc" where
  "apply_run_node p k w = bindp (get_effects p k w) run_run_effects"

text \<open>An intent with a run-effect is a programming error.\<close>

definition apply_run_intent :: "('k, 'i, 'sc, 'f, 'd, 'h, 'x) program \<Rightarrow> 'k \<Rightarrow> path \<Rightarrow> ('k, 'i, 'f, 'd, 'h, 'x, unit) mem_proc" where
  "apply_run_intent p k w = bindp (get_effects p k w) (\<lambda>effs. if list_ex is_run_effect effs then panicp else ret ())"

definition ApplyRunEffects :: "('k, 'i, 'sc, 'f, 'd, 'h, 'x) program \<Rightarrow> ('k, 'i, 'f, 'd, 'h, 'x, unit) mem_proc" where
  "ApplyRunEffects p = TraverseFlow cur_root \<lparr>tv_Intent = Some (apply_run_intent p), tv_NodeSimple = Some (apply_run_node p)\<rparr> []"

definition apply_commit :: "('k, 'i, 'sc, 'f, 'd, 'h, 'x) program \<Rightarrow> 'k \<Rightarrow> path \<Rightarrow> ('k, 'i, 'f, 'd, 'h, 'x, unit) mem_proc" where
  "apply_commit p k w = bindp (get_effects p k w) run_commit_effects"

definition ApplyAllEffects :: "('k, 'i, 'sc, 'f, 'd, 'h, 'x) program \<Rightarrow> ('k, 'i, 'f, 'd, 'h, 'x, unit) mem_proc" where
  "ApplyAllEffects p = bindp (ApplyRunEffects p) (\<lambda>_.
     TraverseFlow cur_root \<lparr>tv_Intent = Some (apply_commit p), tv_NodeSimple = Some (apply_commit p)\<rparr> [])"

section \<open>Accepting an input: \<^verbatim>\<open>accept.go\<close>\<close>

definition upd_root :: "('k flow \<Rightarrow> 'k flow) \<Rightarrow> ('k, 'i, 'f, 'd, 'h, 'x, unit) mem_proc" where
  "upd_root f = mem_mod (\<lambda>m. m\<lparr>fm_prog := (fm_prog m)\<lparr>pw_root := f (pw_root (fm_prog m))\<rparr>\<rparr>)"

definition upd_result :: "('f AcceptResult \<Rightarrow> 'f AcceptResult) \<Rightarrow> ('k, 'i, 'f, 'd, 'h, 'x, unit) mem_proc" where
  "upd_result f = mem_mod (\<lambda>m. m\<lparr>fm_result := f (fm_result m)\<rparr>)"

text \<open>What comes with a node is kept for after the transaction.\<close>

fun take_result :: "('k, 'f) react_result \<Rightarrow> ('k, 'i, 'f, 'd, 'h, 'x, 'k node) mem_proc" where
  "take_result (ReactNode n) = ret n"
| "take_result (ReactNodeResult n delayed updated) =
     bindp (upd_result (\<lambda>r. r\<lparr>ar_PendingSessionPatches := ar_PendingSessionPatches r @ opt_list updated,
       ar_DelayedOneTimeFunctions := ar_DelayedOneTimeFunctions r @ opt_list delayed\<rparr>)) (\<lambda>_. ret n)"

definition appendNode :: "('k, 'i, 'sc, 'f, 'd, 'h, 'x) program \<Rightarrow> path \<Rightarrow> 'k node \<Rightarrow> ('k, 'i, 'f, 'd, 'h, 'x, unit) mem_proc" where
  "appendNode p nearest node = bindp (getp cur_root) (\<lambda>root. case flow_at root nearest of
     None \<Rightarrow> panicp
   | Some w \<Rightarrow> bindp (upd_root (map_at nearest (\<lambda>w. set_Nodes (Nodes w @ [node]) w))) (\<lambda>_.
       TraverseNode cur_root \<lparr>tv_Intent = None, tv_NodeSimple = Some (apply_run_node p)\<rparr> nearest (length (Nodes w)) node))"

definition replaceNode :: "path \<Rightarrow> 'k node \<Rightarrow> ('k, 'i, 'f, 'd, 'h, 'x, unit) mem_proc" where
  "replaceNode nearest node = bindp (getp cur_root) (\<lambda>root. case flow_at root nearest of
     None \<Rightarrow> panicp
   | Some w \<Rightarrow> if Nodes w = [] then panicp
       else upd_root (map_at nearest (\<lambda>w. set_Nodes ((Nodes w)[length (Nodes w) - 1 := node]) w)))"

text \<open>What \<^verbatim>\<open>doAccept\<close> makes of an error with a bot protection status: go on with the rest of the error, or stop
  with another one.\<close>

definition handle_bot_protection :: "('k, 'i) flow_errs \<Rightarrow> ('k, 'i, 'f, 'd, 'h, 'x, ('k, 'i) flow_errs + ('k, 'i) flow_errs) mem_proc" where
  "handle_bot_protection err = (case errors_As as_BotProtection err of
     None \<Rightarrow> ret (Inr err)
   | Some BPSuccess \<Rightarrow> bindp (upd_result (\<lambda>r. r\<lparr>ar_BotProtection := Some BPOutcomeVerified\<rparr>)) (\<lambda>_.
       ret (Inr (filter (\<lambda>e. e \<noteq> ErrorBotProtectionVerification BPSuccess) err)))
   | Some BPFailed \<Rightarrow> bindp (upd_result (\<lambda>r. r\<lparr>ar_BotProtection := Some BPOutcomeFailed\<rparr>)) (\<lambda>_. ret (Inl [ErrVerificationFailed]))
   | Some BPServiceUnavailable \<Rightarrow> bindp (upd_result (\<lambda>r. r\<lparr>ar_BotProtection := Some BPOutcomeFailed\<rparr>)) (\<lambda>_.
       ret (Inl [ErrVerificationServiceUnavailable])))"

definition MAX_LOOP :: nat where "MAX_LOOP = 100"

text \<open>The node is appended to the flow of the reactor and its run-effects run; the left answer stops the loop with
  \<open>changed\<close> and the error.\<close>

type_synonym ('k, 'i) accept_stop = "bool \<times> ('k, 'i) flow_errs"

definition append_reaction :: "('k, 'i, 'sc, 'f, 'd, 'h, 'x) program \<Rightarrow> loc \<Rightarrow> bool \<Rightarrow> ('k, 'f) react_result option
    \<Rightarrow> ('k, 'i, 'f, 'd, 'h, 'x, ('k, 'i) accept_stop + unit) mem_proc" where
  "append_reaction p l changed reactToResult = (case reactToResult of
     None \<Rightarrow> panicp
   | Some r \<Rightarrow> bindp (take_result r) (\<lambda>nextNode.
       bindp (attempt (appendNode p (loc_path l) nextNode)) (\<lambda>appended. case appended of
         Inl err \<Rightarrow> ret (Inl (changed, err)) | Inr _ \<Rightarrow> ret (Inr ()))))"

definition replace_reaction :: "loc \<Rightarrow> ('k, 'f) react_result option \<Rightarrow> ('k, 'i, 'f, 'd, 'h, 'x, ('k, 'i) accept_stop + unit) mem_proc" where
  "replace_reaction l reactToResult = (case reactToResult of
     None \<Rightarrow> panicp
   | Some r \<Rightarrow> bindp (take_result r) (\<lambda>node. bindp (replaceNode (loc_path l) node) (\<lambda>_. ret (Inl (True, [])))))"

definition handle_reaction :: "('k, 'i, 'sc, 'f, 'd, 'h, 'x) program \<Rightarrow> loc \<Rightarrow> bool \<Rightarrow> ('k, 'f) react_result option \<Rightarrow> ('k, 'i) flow_errs
    \<Rightarrow> ('k, 'i, 'f, 'd, 'h, 'x, ('k, 'i) accept_stop + unit) mem_proc" where
  "handle_reaction p l changed reactToResult err =
     (if ErrIncompatibleInput \<in> set err then ret (Inl (changed, []))
      else if ErrSameNode \<in> set err then ret (Inl (True, []))
      else if ErrReplaceNode \<in> set err then replace_reaction l reactToResult
      else bindp (handle_bot_protection err) (\<lambda>handled. case handled of
        Inl err \<Rightarrow> ret (Inl (True, err))
      | Inr err \<Rightarrow> if err \<noteq> [] then bindp (newAuthenticationFlowError p err) (\<lambda>err. ret (Inl (changed, err)))
          else append_reaction p l changed reactToResult))"

definition accept_once :: "('k, 'i, 'sc, 'f, 'd, 'h, 'x) program \<Rightarrow> ('sc option \<Rightarrow> ('k, 'i) flow_errs + 'i option) \<Rightarrow> bool
    \<Rightarrow> ('k, 'i, 'f, 'd, 'h, 'x, ('k, 'i) accept_stop + unit) mem_proc" where
  "accept_once p inputFn changed = bindp (attempt (FindInputReactor p)) (\<lambda>found. case found of
     Inl err \<Rightarrow> ret (Inl (changed, err))
   | Inr (l, inputSchema) \<Rightarrow> (case inputFn inputSchema of
       Inl err \<Rightarrow> ret (Inl (changed, if list_ex is_validation err \<and> changed then [] else err))
     | Inr input \<Rightarrow> bindp (on_prog (p_ReactTo p l input)) (\<lambda>(reactToResult, err). handle_reaction p l changed reactToResult err)))"

text \<open>The loop panics when it would start for the \<open>n + 1\<close>-st time.\<close>

primrec accept_loop :: "('k, 'i, 'sc, 'f, 'd, 'h, 'x) program \<Rightarrow> ('sc option \<Rightarrow> ('k, 'i) flow_errs + 'i option) \<Rightarrow> nat \<Rightarrow> bool
    \<Rightarrow> ('k, 'i, 'f, 'd, 'h, 'x, ('k, 'i) accept_stop) mem_proc" where
  "accept_loop p inputFn 0 changed = panicp"
| "accept_loop p inputFn (Suc n) changed = bindp (accept_once p inputFn changed) (\<lambda>r. case r of
     Inl stop \<Rightarrow> ret stop | Inr _ \<Rightarrow> accept_loop p inputFn n True)"

text \<open>The deferred function: a new state token when something changed, an error when nothing did.\<close>

definition renew_token :: "(nat \<Rightarrow> string) \<Rightarrow> ('k, 'i, 'f, 'd, 'h, 'x, unit) mem_proc" where
  "renew_token newStateToken = mem_mod (\<lambda>m. m\<lparr>fm_prog := (fm_prog m)\<lparr>pw_root :=
     set_StateToken (newStateToken (fm_tokens m)) (pw_root (fm_prog m))\<rparr>, fm_tokens := Suc (fm_tokens m)\<rparr>)"

definition doAccept :: "('k, 'i, 'sc, 'f, 'd, 'h, 'x) program \<Rightarrow> (nat \<Rightarrow> string) \<Rightarrow> ('sc option \<Rightarrow> ('k, 'i) flow_errs + 'i option)
    \<Rightarrow> ('k, 'i, 'f, 'd, 'h, 'x, ('k, 'i) flow_errs) mem_proc" where
  "doAccept p newStateToken inputFn = bindp (accept_loop p inputFn MAX_LOOP False) (\<lambda>(changed, err).
     bindp (if changed then renew_token newStateToken else ret ()) (\<lambda>_.
     ret (if \<not> changed \<and> err = [] then [ErrNoChange] else err)))"

text \<open>A refusal that concerns the account is announced; the error itself is kept.\<close>

definition logAuthenticationBlockedErrorIfNeeded :: "('k, 'i, 'sc, 'f, 'd, 'h, 'x) program \<Rightarrow> ('k, 'i) flow_errs \<Rightarrow> ('k, 'i, 'f, 'd, 'h, 'x, ('k, 'i) flow_errs) mem_proc" where
  "logAuthenticationBlockedErrorIfNeeded p err =
     (if \<not> IsAPIError err then ret err
      else if AsAPIError_kind err \<notin> {AccountStatusKind, AccountLockoutKind, HookDisallowedKind} then ret err
      else bindp (getp cur_root) (\<lambda>root. case GetUserID (p_UseUser p) root of
        Panic \<Rightarrow> panicp
      | Err e \<Rightarrow> if ErrNoUserID \<in> set e \<or> ErrDifferentUserID \<in> set e
          then bindp (ignore_err (on_ctx (p_DispatchBlocked p None err))) (\<lambda>_. ret err)
          else ret (e @ err)
      | Ok userID \<Rightarrow> bindp (attempt (on_ctx (p_GetUser p userID))) (\<lambda>u. case u of
          Inl e \<Rightarrow> ret (e @ err)
        | Inr _ \<Rightarrow> bindp (ignore_err (on_ctx (p_DispatchBlocked p (Some userID) err))) (\<lambda>_. ret err))))"

definition accept :: "('k, 'i, 'sc, 'f, 'd, 'h, 'x) program \<Rightarrow> (nat \<Rightarrow> string) \<Rightarrow> ('sc option \<Rightarrow> ('k, 'i) flow_errs + 'i option)
    \<Rightarrow> ('k, 'i, 'f, 'd, 'h, 'x, ('k, 'i) flow_errs) mem_proc" where
  "accept p newStateToken inputFn = bindp (doAccept p newStateToken inputFn) (\<lambda>err.
     if err \<noteq> [] then logAuthenticationBlockedErrorIfNeeded p err else ret err)"

text \<open>The input made of a message: none without a message or without a schema.\<close>

definition message_input :: "('k, 'i, 'sc, 'f, 'd, 'h, 'x) program \<Rightarrow> string option \<Rightarrow> 'sc option \<Rightarrow> ('k, 'i) flow_errs + 'i option" where
  "message_input p rawMessage inputSchema = (case (rawMessage, inputSchema) of
     (Some msg, Some sc) \<Rightarrow> (case p_MakeInput p sc msg of Inl err \<Rightarrow> Inl err | Inr i \<Rightarrow> Inr (Some i))
   | _ \<Rightarrow> Inr None)"

definition Accept :: "('k, 'i, 'sc, 'f, 'd, 'h, 'x) program \<Rightarrow> (nat \<Rightarrow> string) \<Rightarrow> string option \<Rightarrow> ('k, 'i, 'f, 'd, 'h, 'x, ('k, 'i) flow_errs) mem_proc" where
  "Accept p newStateToken rawMessage = accept p newStateToken (message_input p rawMessage)"

definition AcceptSyntheticInput :: "('k, 'i, 'sc, 'f, 'd, 'h, 'x) program \<Rightarrow> (nat \<Rightarrow> string) \<Rightarrow> 'i \<Rightarrow> ('k, 'i, 'f, 'd, 'h, 'x, ('k, 'i) flow_errs) mem_proc" where
  "AcceptSyntheticInput p newStateToken input = accept p newStateToken (\<lambda>_. Inr (Some input))"

section \<open>Cookies and authentication info: \<^verbatim>\<open>cookie.go\<close>, \<^verbatim>\<open>authenticationinfo.go\<close>\<close>

text \<open>The variable \<^verbatim>\<open>cookies\<close> is a second component of the state.\<close>

definition with_var :: "('s, 'e, 'a) proc \<Rightarrow> ('s \<times> 'v, 'e, 'a) proc" where
  "with_var m = (\<lambda>(s, v). case m s of (r, s') \<Rightarrow> (r, s', v))"

definition collect_at :: "('k, 'i, 'sc, 'f, 'd, 'h, 'x) program \<Rightarrow> 'k \<Rightarrow> path
    \<Rightarrow> (('d, 'h, ('k, 'f, 'x) flow_mem) tx_state \<times> string list, ('k, 'i) flow_errs, unit) proc" where
  "collect_at p k w = (case p_CookieGetter p k of
     None \<Rightarrow> ret ()
   | Some GetCookies \<Rightarrow> bindp (getp (\<lambda>(s, _). cur_root s)) (\<lambda>root.
       bindp (with_var (on_ctx (GetCookies \<lparr>Root = root, Nearest = w\<rparr>))) (\<lambda>c.
       modp (\<lambda>(s, cookies). (s, cookies @ c)))))"

definition CollectCookies :: "('k, 'i, 'sc, 'f, 'd, 'h, 'x) program \<Rightarrow> ('k, 'i, 'f, 'd, 'h, 'x, string list) mem_proc" where
  "CollectCookies p = (\<lambda>s. case TraverseFlow (\<lambda>(s, _). cur_root s)
       \<lparr>tv_Intent = Some (collect_at p), tv_NodeSimple = Some (collect_at p)\<rparr> [] (s, []) of
     (Ok _, s', cookies) \<Rightarrow> (Ok cookies, s') | (Err e, s', _) \<Rightarrow> (Err e, s') | (Panic, s', _) \<Rightarrow> (Panic, s'))"

text \<open>The flows handed to the method are those of the caller, not replaced. The last one that has an entry counts; a
  later nil entry undoes it.\<close>

definition GetAuthenticationInfoEntry :: "('k, 'i, 'sc, 'f, 'd, 'h, 'x) program \<Rightarrow> 'k flow \<Rightarrow> 'x prog_ctx \<Rightarrow> string option" where
  "GetAuthenticationInfoEntry p root c = (let
     look = (\<lambda>k _ e. (Ok (), case p_AuthenticationInfo p k of None \<Rightarrow> e | Some get \<Rightarrow> get (NewFlows root) c));
     t = \<lparr>tv_Intent = Some look, tv_NodeSimple = Some look\<rparr> :: ('k, string option, unit) traverser
   in snd (TraverseFlow (\<lambda>_. root) t [] None))"

section \<open>The service: \<^verbatim>\<open>service.go\<close>\<close>

text \<open>\<open>sv_outer\<close> is the session object \<^verbatim>\<open>FeedInput\<close> loaded, with its context, while calls below it work on another
  one. \<open>sv_txs\<close> counts the transactions.\<close>

record ('k, 'f, 'd, 'x, 'r) flow_svc =
  sv_db :: 'd
  sv_mem :: "('k, 'f, 'x) flow_mem"
  sv_redis :: 'r
  sv_outer :: "FlowSession \<times> FlowSession"
  sv_txs :: nat

type_synonym ('k, 'i, 'f, 'd, 'x, 'r, 'a) flow_proc = "(('k, 'f, 'd, 'x, 'r) flow_svc, ('k, 'i) flow_errs, 'a) proc"

record ('k, 'i, 'sc, 'f, 'd, 'h, 'x, 'r) flow_env =
  en_program :: "('k, 'i, 'sc, 'f, 'd, 'h, 'x) program"
  en_store :: "('r, 'k) flow_store"
  en_newStateToken :: "nat \<Rightarrow> string"
  en_newFlowID :: "nat \<Rightarrow> string"
  en_faults :: "nat \<Rightarrow> ('k, 'i) flow_errs tx_faults"
  en_WillCommitTx :: "'h \<Rightarrow> ('k, 'i, 'd, 'h, 'x, unit) rw_proc"
  en_DidCommitTx :: "'h \<Rightarrow> ('k, 'i, 'd, 'h, 'x, unit) rw_proc"
  en_Groups :: "UIAuthenticationFlowGroup list"
  en_ResolveClient :: "string \<Rightarrow> AuthenticationFlowAllowlist option option"
  en_SetAuthenticationInfoInQuery :: "string \<Rightarrow> string \<Rightarrow> string"
  en_RecoveryCode :: "string option \<Rightarrow> string option"
  en_VerifyCode :: "string \<Rightarrow> 'x prog_ctx \<Rightarrow> (('k, 'i) flow_errs, FlowReference \<times> string) outcome \<times> 'x prog_ctx"

record 'k ServiceOutput =
  ou_Session :: FlowSession
  ou_SessionOutput :: SessionOutput
  ou_Flow :: "'k flow"
  ou_FlowReference :: "FlowReference option"
  ou_FlowAction :: "FlowAction option"
  ou_Cookies :: "string list"

text \<open>The service in parts: the store, the memory, transactions.\<close>

definition on_store :: "('r, ('k, 'i) flow_errs, 'a) proc \<Rightarrow> ('k, 'i, 'f, 'd, 'x, 'r, 'a) flow_proc" where
  "on_store m = (\<lambda>s. case m (sv_redis s) of (r, x) \<Rightarrow> (r, s\<lparr>sv_redis := x\<rparr>))"

definition sv_mod :: "(('k, 'f, 'x) flow_mem \<Rightarrow> ('k, 'f, 'x) flow_mem) \<Rightarrow> ('k, 'i, 'f, 'd, 'x, 'r, unit) flow_proc" where
  "sv_mod f = modp (\<lambda>s. s\<lparr>sv_mem := f (sv_mem s)\<rparr>)"

definition sv_root :: "('k, 'f, 'd, 'x, 'r) flow_svc \<Rightarrow> 'k flow" where
  "sv_root s = pw_root (fm_prog (sv_mem s))"

definition sv_session :: "('k, 'f, 'd, 'x, 'r) flow_svc \<Rightarrow> FlowSession" where
  "sv_session s = pc_session (pw_ctx (fm_prog (sv_mem s)))"

definition set_root :: "'k flow \<Rightarrow> ('k, 'i, 'f, 'd, 'x, 'r, unit) flow_proc" where
  "set_root w = sv_mod (\<lambda>m. m\<lparr>fm_prog := (fm_prog m)\<lparr>pw_root := w\<rparr>\<rparr>)"

definition set_session :: "FlowSession \<Rightarrow> ('k, 'i, 'f, 'd, 'x, 'r, unit) flow_proc" where
  "set_session session = sv_mod (\<lambda>m. m\<lparr>fm_prog := (fm_prog m)\<lparr>pw_ctx := (pw_ctx (fm_prog m))\<lparr>pc_session := session\<rparr>\<rparr>\<rparr>)"

text \<open>\<^verbatim>\<open>session.MakeContext\<close>: the values of the session now, and a pointer to it.\<close>

definition MakeContext :: "FlowSession \<Rightarrow> ('k, 'i, 'f, 'd, 'x, 'r, unit) flow_proc" where
  "MakeContext session = sv_mod (\<lambda>m. m\<lparr>fm_prog := (fm_prog m)\<lparr>pw_ctx :=
     (pw_ctx (fm_prog m))\<lparr>pc_context := session, pc_session := session\<rparr>\<rparr>\<rparr>)"

text \<open>The random string that comes next.\<close>

definition draw :: "(nat \<Rightarrow> string) \<Rightarrow> ('k, 'i, 'f, 'd, 'x, 'r, string) flow_proc" where
  "draw source = (\<lambda>s. let n = fm_tokens (sv_mem s) in (Ok (source n), s\<lparr>sv_mem := (sv_mem s)\<lparr>fm_tokens := Suc n\<rparr>\<rparr>))"

definition on_tx :: "(nat \<Rightarrow> ('d \<times> ('k, 'f, 'x) flow_mem, ('k, 'i) flow_errs, 'a) proc) \<Rightarrow> ('k, 'i, 'f, 'd, 'x, 'r, 'a) flow_proc" where
  "on_tx m = (\<lambda>s. case m (sv_txs s) (sv_db s, sv_mem s) of
     (r, db, mem) \<Rightarrow> (r, s\<lparr>sv_db := db, sv_mem := mem, sv_txs := Suc (sv_txs s)\<rparr>))"

definition Flow_ReadOnly :: "('k, 'i, 'sc, 'f, 'd, 'h, 'x, 'r) flow_env \<Rightarrow> ('k, 'i, 'f, 'd, 'h, 'x, 'a) mem_proc \<Rightarrow> ('k, 'i, 'f, 'd, 'x, 'r, 'a) flow_proc" where
  "Flow_ReadOnly e body = on_tx (\<lambda>n. ReadOnly (en_faults e n) (\<lambda>h. on_prog (en_DidCommitTx e h)) body)"

definition Flow_WithTx :: "('k, 'i, 'sc, 'f, 'd, 'h, 'x, 'r) flow_env \<Rightarrow> ('k, 'i, 'f, 'd, 'h, 'x, 'a) mem_proc \<Rightarrow> ('k, 'i, 'f, 'd, 'x, 'r, 'a) flow_proc" where
  "Flow_WithTx e body = on_tx (\<lambda>n. WithTx (en_faults e n) (\<lambda>h. on_prog (en_WillCommitTx e h)) (\<lambda>h. on_prog (en_DidCommitTx e h)) body)"

definition validateNewFlow :: "('k, 'i, 'sc, 'f, 'd, 'h, 'x, 'r) flow_env \<Rightarrow> FlowReference \<Rightarrow> SessionOptions \<Rightarrow> ('k, 'i) flow_errs" where
  "validateNewFlow e ref opts = (if so_ClientID opts = '''' then []
     else case en_ResolveClient e (so_ClientID opts) of
       None \<Rightarrow> []
     | Some allowlist \<Rightarrow> if \<not> CanCreateFlow (NewFlowAllowlist allowlist (en_Groups e)) ref then [ErrFlowNotAllowed] else [])"

definition getFlowAction :: "('k, 'i, 'sc, 'f, 'd, 'h, 'x, 'r) flow_env \<Rightarrow> ('k, 'i, 'f, 'd, 'h, 'x, FlowAction option) mem_proc" where
  "getFlowAction e = (let p = en_program e in
     bindp (attempt (FindInputReactor p)) (\<lambda>found. bindp (getp (fm_prog \<circ> tx_world)) (\<lambda>w. let root = pw_root w in case found of
       Inl err \<Rightarrow> if ErrEOF \<in> set err then (let
           redirectURI = fs_RedirectURI (pc_session (pw_ctx w));
           redirectURI = (case GetAuthenticationInfoEntry p root (pw_ctx w) of
             Some entry \<Rightarrow> en_SetAuthenticationInfoInQuery e redirectURI entry | None \<Rightarrow> redirectURI)
         in bindp (case p_EndOfFlowData p (Intent root) of
               Some OutputEndOfFlowData \<Rightarrow> on_ctx (OutputEndOfFlowData (NewFlows root) redirectURI)
             | None \<Rightarrow> ret (Some (DataFinishRedirectURI redirectURI))) (\<lambda>data.
            ret (Some \<lparr>fn_Type = ''finished'', fn_Identification = '''', fn_Authentication = '''', fn_Data = data\<rparr>)))
         else failp err
     | Inr (l, inputSchema) \<Rightarrow> (let
           flowAction = (case inputSchema of None \<Rightarrow> None | Some sc \<Rightarrow> p_FlowAction p sc);
           output = (case content_at root l of None \<Rightarrow> None | Some k \<Rightarrow> p_DataOutputer p k)
         in bindp (case output of
               Some OutputData \<Rightarrow> on_ctx (OutputData \<lparr>Root = root, Nearest = loc_path l\<rparr>)
             | None \<Rightarrow> ret None) (\<lambda>data.
            ret (map_option (\<lambda>a. a\<lparr>fn_Data := Some (case data of None \<Rightarrow> EmptyMapData | Some d \<Rightarrow> d)\<rparr>) flowAction))))))"

text \<open>\<^verbatim>\<open>flowAction, err = s.getFlowAction(...)\<close>: the variable is assigned in either case.\<close>

definition set_action :: "FlowAction option \<Rightarrow> ('k, 'i, 'f, 'd, 'h, 'x, unit) mem_proc" where
  "set_action a = mem_mod (\<lambda>m. m\<lparr>fm_action := a\<rparr>)"

definition assign_action :: "('k, 'i, 'sc, 'f, 'd, 'h, 'x, 'r) flow_env \<Rightarrow> ('k, 'i, 'f, 'd, 'h, 'x, unit) mem_proc" where
  "assign_action e = bindp (attempt (getFlowAction e)) (\<lambda>r. case r of
     Inl err \<Rightarrow> bindp (set_action None) (\<lambda>_. failp err) | Inr a \<Rightarrow> set_action a)"

text \<open>The closure the transactions run; \<open>resume\<close> is the reapplication of the run-effects, \<open>acceptFn\<close> one of the two
  \<^verbatim>\<open>Accept\<close>s. The end of the flow is reported as an error, so that the transaction rolls back.\<close>

definition accept_body :: "('k, 'i, 'sc, 'f, 'd, 'h, 'x, 'r) flow_env \<Rightarrow> bool \<Rightarrow> ('k, 'i, 'f, 'd, 'h, 'x, ('k, 'i) flow_errs) mem_proc
    \<Rightarrow> ('k, 'i, 'f, 'd, 'h, 'x, unit) mem_proc" where
  "accept_body e resume acceptFn = bindp (if resume then ApplyRunEffects (en_program e) else ret ()) (\<lambda>_.
     bindp acceptFn (\<lambda>err. let isEOF = ErrEOF \<in> set err in
     if err \<noteq> [] \<and> \<not> isEOF then failp err
     else bindp (assign_action e) (\<lambda>_. if isEOF then failp [ErrEOF] else ret ())))"

primrec patch_all :: "FlowSession list \<Rightarrow> ('k, 'i, 'f, 'd, 'x, 'r, unit) flow_proc" where
  "patch_all [] = ret ()"
| "patch_all (patch # patches) = bindp (getp sv_session) (\<lambda>session. bindp (set_session (PatchFrom patch session)) (\<lambda>_. patch_all patches))"

definition update_session :: "('k, 'i, 'sc, 'f, 'd, 'h, 'x, 'r) flow_env \<Rightarrow> time \<Rightarrow> ('k, 'i, 'f, 'd, 'x, 'r, unit) flow_proc" where
  "update_session e now = bindp (getp sv_session) (\<lambda>session. on_store (Flow_UpdateSession (en_store e) now session))"

definition run_delayed :: "('k, 'i, 'sc, 'f, 'd, 'h, 'x, 'r) flow_env \<Rightarrow> 'f \<Rightarrow> ('k, 'i, 'f, 'd, 'x, 'r, FlowSession option) flow_proc" where
  "run_delayed e f = (\<lambda>s. case p_Delayed (en_program e) f (sv_db s, fm_prog (sv_mem s)) of
     (r, db, w) \<Rightarrow> (r, s\<lparr>sv_db := db, sv_mem := (sv_mem s)\<lparr>fm_prog := w\<rparr>\<rparr>))"

text \<open>A delayed function that failed: the database is brought back to what the program saw, for the announcement.\<close>

definition delayed_failed :: "('k, 'i, 'sc, 'f, 'd, 'h, 'x, 'r) flow_env \<Rightarrow> ('k, 'i) flow_errs \<Rightarrow> ('k, 'i, 'f, 'd, 'x, 'r, unit) flow_proc" where
  "delayed_failed e err = Flow_ReadOnly e (bindp (attempt (ApplyRunEffects (en_program e))) (\<lambda>r. case r of
     Inl runEffectErr \<Rightarrow> failp (runEffectErr @ err)
   | Inr _ \<Rightarrow> bindp (logAuthenticationBlockedErrorIfNeeded (en_program e) err) (\<lambda>err.
       bindp (newAuthenticationFlowError (en_program e) err) failp)))"

primrec run_all_delayed :: "('k, 'i, 'sc, 'f, 'd, 'h, 'x, 'r) flow_env \<Rightarrow> time \<Rightarrow> 'f list \<Rightarrow> ('k, 'i, 'f, 'd, 'x, 'r, unit) flow_proc" where
  "run_all_delayed e now [] = ret ()"
| "run_all_delayed e now (f # fs) = bindp (attempt (run_delayed e f)) (\<lambda>r. case r of
     Inl err \<Rightarrow> delayed_failed e err
   | Inr None \<Rightarrow> run_all_delayed e now fs
   | Inr (Some updated) \<Rightarrow> bindp (getp sv_session) (\<lambda>session. bindp (set_session (PatchFrom updated session)) (\<lambda>_.
       bindp (update_session e now) (\<lambda>_. run_all_delayed e now fs))))"

definition processAcceptResult :: "('k, 'i, 'sc, 'f, 'd, 'h, 'x, 'r) flow_env \<Rightarrow> time \<Rightarrow> ('k, 'i, 'f, 'd, 'x, 'r, unit) flow_proc" where
  "processAcceptResult e now = bindp (getp (fm_result \<circ> sv_mem)) (\<lambda>res.
     bindp (case ar_BotProtection res of
         None \<Rightarrow> ret ()
       | Some outcome \<Rightarrow> bindp (getp sv_session) (\<lambda>session.
           bindp (set_session (SetBotProtectionVerificationResult (Some outcome) session)) (\<lambda>_. update_session e now))) (\<lambda>_.
     bindp (patch_all (ar_PendingSessionPatches res)) (\<lambda>_.
     bindp (if ar_PendingSessionPatches res \<noteq> [] then update_session e now else ret ()) (\<lambda>_.
     run_all_delayed e now (ar_DelayedOneTimeFunctions res)))))"

text \<open>The loop \<^verbatim>\<open>for shouldAccept\<close>: a program that pauses is run again after its delayed functions. Nothing in the engine
  bounds the number of rounds; \<open>fuel\<close> does here, and running out of it is the error \<open>OutOfFuel\<close>. The result is the
  error of the last round.\<close>

primrec accept_rounds :: "('k, 'i, 'sc, 'f, 'd, 'h, 'x, 'r) flow_env \<Rightarrow> time \<Rightarrow> nat \<Rightarrow> ('k, 'i, 'f, 'd, 'h, 'x, unit) mem_proc
    \<Rightarrow> ('k, 'i, 'f, 'd, 'x, 'r, ('k, 'i) flow_errs) flow_proc" where
  "accept_rounds e now 0 body = failp [OutOfFuel]"
| "accept_rounds e now (Suc fuel) body =
     bindp (sv_mod (\<lambda>m. m\<lparr>fm_result := NewAcceptResult\<rparr>)) (\<lambda>_.
     bindp (attempt (Flow_ReadOnly e body)) (\<lambda>r.
     bindp (processAcceptResult e now) (\<lambda>_. (case r of
         Inr _ \<Rightarrow> ret []
       | Inl err \<Rightarrow> if ErrPauseAndRetryAccept \<in> set err then accept_rounds e now fuel body else ret err))))"

definition store_flow :: "('k, 'i, 'sc, 'f, 'd, 'h, 'x, 'r) flow_env \<Rightarrow> time \<Rightarrow> ('k, 'i, 'f, 'd, 'x, 'r, unit) flow_proc" where
  "store_flow e now = bindp (getp sv_root) (\<lambda>flow. on_store (CreateFlow (en_store e) now flow))"

text \<open>The rest of \<^verbatim>\<open>createNewFlow\<close>, \<^verbatim>\<open>feedInput\<close> and \<^verbatim>\<open>feedSyntheticInput\<close>: the state is kept, and the answer is whether
  the flow is at its end.\<close>

definition keep_state :: "('k, 'i, 'sc, 'f, 'd, 'h, 'x, 'r) flow_env \<Rightarrow> time \<Rightarrow> ('k, 'i) flow_errs \<Rightarrow> ('k, 'i, 'f, 'd, 'x, 'r, bool) flow_proc" where
  "keep_state e now err = (let isEOF = ErrEOF \<in> set err in
     if err \<noteq> [] \<and> \<not> isEOF then failp err else bindp (store_flow e now) (\<lambda>_. ret isEOF))"

text \<open>A new flow is fed no message; that nothing changes is no error.\<close>

definition createNewFlow :: "('k, 'i, 'sc, 'f, 'd, 'h, 'x, 'r) flow_env \<Rightarrow> time \<Rightarrow> nat \<Rightarrow> 'k \<Rightarrow> ('k, 'i, 'f, 'd, 'x, 'r, bool) flow_proc" where
  "createNewFlow e now fuel publicFlow =
     bindp (draw (en_newStateToken e)) (\<lambda>token. bindp (getp sv_session) (\<lambda>session.
     bindp (set_root (NewFlow token (fs_FlowID session) publicFlow)) (\<lambda>_.
     bindp (sv_mod (\<lambda>m. m\<lparr>fm_action := None\<rparr>)) (\<lambda>_.
     bindp (accept_rounds e now fuel (accept_body e False (Accept (en_program e) (en_newStateToken e) None))) (\<lambda>err.
     keep_state e now (if ErrNoChange \<in> set err then [] else err))))))"

definition load_flow :: "('k, 'i, 'sc, 'f, 'd, 'h, 'x, 'r) flow_env \<Rightarrow> time \<Rightarrow> string \<Rightarrow> ('k, 'i, 'f, 'd, 'x, 'r, unit) flow_proc" where
  "load_flow e now stateToken = bindp (on_store (GetFlowByStateToken (en_store e) now stateToken)) set_root"

definition feed_with :: "('k, 'i, 'sc, 'f, 'd, 'h, 'x, 'r) flow_env \<Rightarrow> time \<Rightarrow> nat \<Rightarrow> string \<Rightarrow> ('k, 'i, 'f, 'd, 'h, 'x, ('k, 'i) flow_errs) mem_proc
    \<Rightarrow> ('k, 'i, 'f, 'd, 'x, 'r, bool) flow_proc" where
  "feed_with e now fuel stateToken acceptFn =
     bindp (load_flow e now stateToken) (\<lambda>_.
     bindp (sv_mod (\<lambda>m. m\<lparr>fm_action := None\<rparr>)) (\<lambda>_.
     bindp (accept_rounds e now fuel (accept_body e True acceptFn)) (\<lambda>err. keep_state e now err)))"

definition feedInput :: "('k, 'i, 'sc, 'f, 'd, 'h, 'x, 'r) flow_env \<Rightarrow> time \<Rightarrow> nat \<Rightarrow> string \<Rightarrow> string option \<Rightarrow> ('k, 'i, 'f, 'd, 'x, 'r, bool) flow_proc" where
  "feedInput e now fuel stateToken rawMessage = feed_with e now fuel stateToken (Accept (en_program e) (en_newStateToken e) rawMessage)"

definition feedSyntheticInput :: "('k, 'i, 'sc, 'f, 'd, 'h, 'x, 'r) flow_env \<Rightarrow> time \<Rightarrow> nat \<Rightarrow> string \<Rightarrow> 'i \<Rightarrow> ('k, 'i, 'f, 'd, 'x, 'r, bool) flow_proc" where
  "feedSyntheticInput e now fuel stateToken input = feed_with e now fuel stateToken (AcceptSyntheticInput (en_program e) (en_newStateToken e) input)"

definition finishFlow :: "('k, 'i, 'sc, 'f, 'd, 'h, 'x, 'r) flow_env \<Rightarrow> ('k, 'i, 'f, 'd, 'h, 'x, string list) mem_proc" where
  "finishFlow e = bindp (ApplyAllEffects (en_program e)) (\<lambda>_. CollectCookies (en_program e))"

text \<open>What the callers do with it: at the end of the flow its effects are committed, then the session and the mark of
  the flow are deleted. The flag of the answer is \<^verbatim>\<open>ErrEOF\<close>, returned beside the output.\<close>

definition conclude :: "('k, 'i, 'sc, 'f, 'd, 'h, 'x, 'r) flow_env \<Rightarrow> time \<Rightarrow> bool \<Rightarrow> ('k, 'i, 'f, 'd, 'x, 'r, 'k ServiceOutput \<times> bool) flow_proc" where
  "conclude e now isEOF = bindp (getp sv_session) (\<lambda>session. let sessionOutput = Session_ToOutput session in
     bindp (if isEOF then
         bindp (Flow_WithTx e (finishFlow e)) (\<lambda>cookies.
         bindp (getp sv_session) (\<lambda>session. bindp (on_store (Flow_DeleteSession (en_store e) now session)) (\<lambda>_.
         bindp (getp sv_root) (\<lambda>flow. bindp (on_store (DeleteFlow (en_store e) now flow)) (\<lambda>_. ret cookies)))))
       else ret []) (\<lambda>cookies.
     bindp (getp (\<lambda>s. \<lparr>ou_Session = sv_session s, ou_SessionOutput = sessionOutput, ou_Flow = sv_root s,
       ou_FlowReference = FindCurrentFlowReference (p_PublicFlow (en_program e)) (sv_root s), ou_FlowAction = fm_action (sv_mem s),
       ou_Cookies = cookies\<rparr>)) (\<lambda>output. ret (output, isEOF))))"

definition createNewFlowWithSession :: "('k, 'i, 'sc, 'f, 'd, 'h, 'x, 'r) flow_env \<Rightarrow> time \<Rightarrow> nat \<Rightarrow> 'k \<Rightarrow> ('k, 'i, 'f, 'd, 'x, 'r, 'k ServiceOutput \<times> bool) flow_proc" where
  "createNewFlowWithSession e now fuel publicFlow = bindp (createNewFlow e now fuel publicFlow) (conclude e now)"

definition getSessionAndUpdateContext :: "('k, 'i, 'sc, 'f, 'd, 'h, 'x, 'r) flow_env \<Rightarrow> time \<Rightarrow> string \<Rightarrow> ('k, 'i, 'f, 'd, 'x, 'r, unit) flow_proc" where
  "getSessionAndUpdateContext e now flowID = bindp (on_store (Flow_GetSession (en_store e) now flowID)) MakeContext"

definition new_session :: "('k, 'i, 'sc, 'f, 'd, 'h, 'x, 'r) flow_env \<Rightarrow> time \<Rightarrow> SessionOptions \<Rightarrow> ('k, 'i, 'f, 'd, 'x, 'r, unit) flow_proc" where
  "new_session e now opts = bindp (draw (en_newFlowID e)) (\<lambda>flowID. let session = NewSession flowID opts in
     bindp (MakeContext session) (\<lambda>_. on_store (Flow_CreateSession (en_store e) now session)))"

definition CreateNewFlow :: "('k, 'i, 'sc, 'f, 'd, 'h, 'x, 'r) flow_env \<Rightarrow> time \<Rightarrow> nat \<Rightarrow> 'k \<Rightarrow> SessionOptions \<Rightarrow> ('k, 'i, 'f, 'd, 'x, 'r, 'k ServiceOutput \<times> bool) flow_proc" where
  "CreateNewFlow e now fuel publicFlow opts = (case p_PublicFlow (en_program e) publicFlow of
     None \<Rightarrow> panicp
   | Some ref \<Rightarrow> (let err = validateNewFlow e ref opts in if err \<noteq> [] then failp err
       else bindp (new_session e now opts) (\<lambda>_. createNewFlowWithSession e now fuel publicFlow)))"

definition FeedSyntheticInput :: "('k, 'i, 'sc, 'f, 'd, 'h, 'x, 'r) flow_env \<Rightarrow> time \<Rightarrow> nat \<Rightarrow> string \<Rightarrow> 'i \<Rightarrow> ('k, 'i, 'f, 'd, 'x, 'r, 'k ServiceOutput \<times> bool) flow_proc" where
  "FeedSyntheticInput e now fuel stateToken input =
     bindp (load_flow e now stateToken) (\<lambda>_. bindp (getp sv_root) (\<lambda>flow.
     bindp (getSessionAndUpdateContext e now (FlowID flow)) (\<lambda>_.
     bindp (feedSyntheticInput e now fuel stateToken input) (conclude e now))))"

text \<open>Switching to another flow and rewriting the current one. Both start from the session object of \<^verbatim>\<open>FeedInput\<close>;
  \<^verbatim>\<open>FeedSyntheticInput\<close> loads one of its own.\<close>

definition save_outer :: "('k, 'i, 'f, 'd, 'x, 'r, unit) flow_proc" where
  "save_outer = modp (\<lambda>s. let c = pw_ctx (fm_prog (sv_mem s)) in s\<lparr>sv_outer := (pc_context c, pc_session c)\<rparr>)"

definition restore_outer :: "('k, 'i, 'f, 'd, 'x, 'r, unit) flow_proc" where
  "restore_outer = bindp (getp sv_outer) (\<lambda>(context, session). sv_mod (\<lambda>m. m\<lparr>fm_prog := (fm_prog m)\<lparr>pw_ctx :=
     (pw_ctx (fm_prog m))\<lparr>pc_context := context, pc_session := session\<rparr>\<rparr>\<rparr>))"

definition switchFlow :: "('k, 'i, 'sc, 'f, 'd, 'h, 'x, 'r) flow_env \<Rightarrow> time \<Rightarrow> nat \<Rightarrow> FlowReference \<Rightarrow> 'i \<Rightarrow> ('k, 'i, 'f, 'd, 'x, 'r, 'k ServiceOutput \<times> bool) flow_proc" where
  "switchFlow e now fuel ref input = (case p_InstantiateFlow (en_program e) ref '''' of
     None \<Rightarrow> failp [ErrUnknownFlow]
   | Some publicFlow \<Rightarrow>
       bindp restore_outer (\<lambda>_. bindp (attempt (createNewFlowWithSession e now fuel publicFlow)) (\<lambda>r. bindp save_outer (\<lambda>_. case r of
         Inl err \<Rightarrow> failp err
       | Inr (createOutput, isEOF) \<Rightarrow> if isEOF then failp [ErrEOF] else
           bindp (FeedSyntheticInput e now fuel (StateToken (ou_Flow createOutput)) input) (\<lambda>(output, isEOF).
             ret (if isEOF then output else output\<lparr>ou_Cookies := ou_Cookies createOutput @ ou_Cookies output\<rparr>, isEOF))))))"

definition rewriteFlow :: "('k, 'i, 'sc, 'f, 'd, 'h, 'x, 'r) flow_env \<Rightarrow> time \<Rightarrow> nat \<Rightarrow> 'k \<Rightarrow> 'k node list \<Rightarrow> 'i \<Rightarrow> ('k, 'i, 'f, 'd, 'x, 'r, 'k ServiceOutput \<times> bool) flow_proc" where
  "rewriteFlow e now fuel intent nodes input = bindp (draw (en_newStateToken e)) (\<lambda>token. bindp (getp sv_outer) (\<lambda>(_, session).
     let newFlow = set_Nodes nodes (NewFlow token (fs_FlowID session) intent) in
     bindp (on_store (CreateFlow (en_store e) now newFlow)) (\<lambda>_. FeedSyntheticInput e now fuel (StateToken newFlow) input)))"

definition is_special :: "('k, 'i) flow_errs \<Rightarrow> bool" where
  "is_special err \<longleftrightarrow> errors_As as_SwitchFlow err \<noteq> None \<or> errors_As as_RewriteFlow err \<noteq> None"

text \<open>The loop over special errors, with \<open>fuel\<close> for the rounds and \<open>n\<close> for the loop.\<close>

definition special_switch :: "('k, 'i, 'sc, 'f, 'd, 'h, 'x, 'r) flow_env \<Rightarrow> time \<Rightarrow> nat \<Rightarrow> ('k, 'i) flow_errs
    \<Rightarrow> ('k, 'i, 'f, 'd, 'x, 'r, ('k, 'i) flow_errs + ('k ServiceOutput \<times> bool)) flow_proc" where
  "special_switch e now fuel err = (case errors_As as_SwitchFlow err of
     Some (ref, i) \<Rightarrow> attempt (switchFlow e now fuel ref i) | None \<Rightarrow> ret (Inl err))"

definition special_rewrite :: "('k, 'i, 'sc, 'f, 'd, 'h, 'x, 'r) flow_env \<Rightarrow> time \<Rightarrow> nat \<Rightarrow> ('k, 'i) flow_errs + ('k ServiceOutput \<times> bool)
    \<Rightarrow> ('k, 'i, 'f, 'd, 'x, 'r, ('k, 'i) flow_errs + ('k ServiceOutput \<times> bool)) flow_proc" where
  "special_rewrite e now fuel r = (case r of
     Inl err \<Rightarrow> (case errors_As as_RewriteFlow err of
       Some (k, ns, i) \<Rightarrow> attempt (rewriteFlow e now fuel k ns i) | None \<Rightarrow> ret r)
   | Inr _ \<Rightarrow> ret r)"

primrec special_rounds :: "('k, 'i, 'sc, 'f, 'd, 'h, 'x, 'r) flow_env \<Rightarrow> time \<Rightarrow> nat \<Rightarrow> nat \<Rightarrow> ('k, 'i) flow_errs
    \<Rightarrow> ('k, 'i, 'f, 'd, 'x, 'r, 'k ServiceOutput \<times> bool) flow_proc" where
  "special_rounds e now fuel 0 err = failp [OutOfFuel]"
| "special_rounds e now fuel (Suc n) err = bindp (special_switch e now fuel err) (\<lambda>r. bindp (special_rewrite e now fuel r) (\<lambda>r. case r of
     Inl err \<Rightarrow> if is_special err then special_rounds e now fuel n err else failp err
   | Inr output \<Rightarrow> ret output))"

text \<open>Without a state token the message must carry the code of an account recovery, which names the flow to go on with.\<close>

definition ask_code :: "('k, 'i, 'sc, 'f, 'd, 'h, 'x, 'r) flow_env \<Rightarrow> string \<Rightarrow> ('k, 'i, 'f, 'd, 'x, 'r, FlowReference \<times> string) flow_proc" where
  "ask_code e code = (\<lambda>s. let w = fm_prog (sv_mem s) in case en_VerifyCode e code (pw_ctx w) of
     (r, c) \<Rightarrow> (r, s\<lparr>sv_mem := (sv_mem s)\<lparr>fm_prog := w\<lparr>pw_ctx := c\<rparr>\<rparr>\<rparr>))"

definition resolveStateTokenFromInput :: "('k, 'i, 'sc, 'f, 'd, 'h, 'x, 'r) flow_env \<Rightarrow> time \<Rightarrow> nat \<Rightarrow> string option \<Rightarrow> ('k, 'i, 'f, 'd, 'x, 'r, string) flow_proc" where
  "resolveStateTokenFromInput e now fuel rawMessage = (case en_RecoveryCode e rawMessage of
     None \<Rightarrow> failp [ErrFlowNotFound]
   | Some code \<Rightarrow>
       bindp (ask_code e code) (\<lambda>(ref, jsonPointer). case p_InstantiateFlow (en_program e) ref jsonPointer of
         None \<Rightarrow> failp [ErrUnknownFlow]
       | Some flow \<Rightarrow> bindp (CreateNewFlow e now fuel flow empty_options) (\<lambda>(newFlowOutput, isEOF).
           if isEOF then failp [ErrEOF] else ret (StateToken (ou_Flow newFlowOutput)))))"

definition FeedInput :: "('k, 'i, 'sc, 'f, 'd, 'h, 'x, 'r) flow_env \<Rightarrow> time \<Rightarrow> nat \<Rightarrow> string \<Rightarrow> string option \<Rightarrow> ('k, 'i, 'f, 'd, 'x, 'r, 'k ServiceOutput \<times> bool) flow_proc" where
  "FeedInput e now fuel stateToken rawMessage =
     bindp (if stateToken = '''' then resolveStateTokenFromInput e now fuel rawMessage else ret stateToken) (\<lambda>stateToken.
     bindp (load_flow e now stateToken) (\<lambda>_. bindp (getp sv_root) (\<lambda>flow.
     bindp (getSessionAndUpdateContext e now (FlowID flow)) (\<lambda>_.
     bindp (attempt (feedInput e now fuel stateToken rawMessage)) (\<lambda>r. case r of
       Inl err \<Rightarrow> if is_special err then bindp save_outer (\<lambda>_. special_rounds e now fuel fuel err) else failp err
     | Inr isEOF \<Rightarrow> conclude e now isEOF)))))"

definition Flow_Get :: "('k, 'i, 'sc, 'f, 'd, 'h, 'x, 'r) flow_env \<Rightarrow> time \<Rightarrow> string \<Rightarrow> ('k, 'i, 'f, 'd, 'x, 'r, 'k ServiceOutput) flow_proc" where
  "Flow_Get e now stateToken = bindp (load_flow e now stateToken) (\<lambda>_. bindp (getp sv_root) (\<lambda>flow.
     bindp (getSessionAndUpdateContext e now (FlowID flow)) (\<lambda>_.
     bindp (Flow_ReadOnly e (bindp (ApplyRunEffects (en_program e)) (\<lambda>_. getFlowAction e))) (\<lambda>flowAction.
     getp (\<lambda>s. \<lparr>ou_Session = sv_session s, ou_SessionOutput = Session_ToOutput (sv_session s), ou_Flow = sv_root s,
       ou_FlowReference = FindCurrentFlowReference (p_PublicFlow (en_program e)) (sv_root s), ou_FlowAction = flowAction,
       ou_Cookies = []\<rparr>)))))"

end
