(* ===== verification/FlowDemo.thy ===== *)
theory FlowDemo imports FlowEngine begin

text \<open>A small program for the engine: an intent that takes one input and appends a node, whose effect before the end writes 7
  and whose effect at the end writes 70.\<close>

datatype demo_content = DemoIntent | DemoNode

type_synonym demo_program = "(demo_content, unit, unit, unit, nat list, unit, unit) program"

definition demo_write :: "nat \<Rightarrow> (demo_content, unit, nat list, unit, unit, unit) rw_proc" where
  "demo_write n = (\<lambda>s. (Ok (), s\<lparr>tx_db := tx_db s @ [n]\<rparr>))"

definition demo_program :: demo_program where
  "demo_program = \<lparr>
     p_InputReactor = (\<lambda>k. k = DemoIntent),
     p_CanReactTo = (\<lambda>k flows. case flow_at (Root flows) (Nearest flows) of
       Some w \<Rightarrow> if Nodes w = [] then ret (Some ()) else failp [ErrEOF] | None \<Rightarrow> panicp),
     p_ReactTo = (\<lambda>l i. ret (Some (ReactNode (Simple DemoNode)), [])),
     p_EffectGetter = (\<lambda>k. case k of DemoIntent \<Rightarrow> None | DemoNode \<Rightarrow> Some (\<lambda>_. ret [RunEffect (demo_write 7), OnCommitEffect (demo_write 70)])),
     p_CookieGetter = (\<lambda>_. None),
     p_AuthenticationInfo = (\<lambda>_. None),
     p_DataOutputer = (\<lambda>_. None),
     p_EndOfFlowData = (\<lambda>_. None),
     p_PublicFlow = (\<lambda>_. Some \<lparr>fr_Type = ''login'', fr_Name = ''default''\<rparr>),
     p_UseUser = (\<lambda>_. None),
     p_MakeInput = (\<lambda>_ _. Inr ()),
     p_FlowAction = (\<lambda>_. None),
     p_InstantiateFlow = (\<lambda>_ _. None),
     p_Delayed = (\<lambda>_. ret None),
     p_GetUser = (\<lambda>_. ret ()),
     p_DispatchBlocked = (\<lambda>_ _. ret ())\<rparr>"

definition demo_env :: "(demo_content, unit, unit, unit, nat list, unit, unit, demo_content flow_map) flow_env" where
  "demo_env = \<lparr>
     en_program = demo_program,
     en_store = \<lparr>st_AppID = ''app'', st_redis = xm_redis, st_restore = id\<rparr>,
     en_newStateToken = (\<lambda>n. CHR ''s'' # replicate n CHR ''1''),
     en_newFlowID = (\<lambda>n. CHR ''f'' # replicate n CHR ''1''),
     en_faults = (\<lambda>_. \<lparr>tf_Open = None, tf_Conn = None, tf_Begin = None, tf_Commit = None, tf_Rollback = None\<rparr>),
     en_WillCommitTx = (\<lambda>_. ret ()),
     en_DidCommitTx = (\<lambda>_. ret ()),
     en_Groups = [],
     en_ResolveClient = (\<lambda>_. None),
     en_SetAuthenticationInfoInQuery = (\<lambda>u _. u),
     en_RecoveryCode = (\<lambda>_. None),
     en_VerifyCode = (\<lambda>_ c. (Panic, c))\<rparr>"

definition demo_mem :: "demo_content flow \<Rightarrow> (demo_content, unit, unit) flow_mem" where
  "demo_mem w = (let session = NewSession ''f'' empty_options in
     \<lparr>fm_prog = \<lparr>pw_root = w, pw_ctx = \<lparr>pc_context = session, pc_session = session, pc_rest = ()\<rparr>\<rparr>, fm_result = NewAcceptResult,
      fm_action = None, fm_tokens = 0\<rparr>)"

definition demo_tx :: "demo_content flow \<Rightarrow> (nat list, unit, (demo_content, unit, unit) flow_mem) tx_state" where
  "demo_tx w = \<lparr>tx_db = [], tx_hooks = [], tx_world = demo_mem w\<rparr>"

definition demo_svc :: "(demo_content, unit, nat list, unit, demo_content flow_map) flow_svc" where
  "demo_svc = \<lparr>sv_db = [], sv_mem = demo_mem (NewFlow '''' '''' DemoIntent), sv_redis = Map.empty,
     sv_outer = (NewSession '''' empty_options, NewSession '''' empty_options), sv_txs = 0\<rparr>"

text \<open>The flow ends when it is created; its last state is kept under \<open>s11\<close>.\<close>

lemma demo_flow_ends:
  "\<exists>out s. CreateNewFlow demo_env 0 2 DemoIntent empty_options demo_svc = (Ok (out, True), s) \<and> fs_FlowID (ou_Session out) = ''f'' \<and>
     sv_db s = [7, 70] \<and> (\<exists>w. xm_view 5 (sv_redis s) (redisFlowStateKey ''app'' ''s11'') = Some (FlowValue w) \<and> FlowID w = ''f'')"
proof -
  have "case CreateNewFlow demo_env 0 2 DemoIntent empty_options demo_svc of
      (Ok (out, b), s) \<Rightarrow> b \<and> fs_FlowID (ou_Session out) = ''f'' \<and> sv_db s = [7, 70] \<and>
        (case xm_view 5 (sv_redis s) (redisFlowStateKey ''app'' ''s11'') of Some (FlowValue w) \<Rightarrow> FlowID w = ''f'' | _ \<Rightarrow> False)
    | _ \<Rightarrow> False" (is "case ?r of (Ok (out, b), s) \<Rightarrow> ?P out b s | _ \<Rightarrow> False")
    by code_simp
  then show ?thesis by (auto split: prod.splits outcome.splits option.splits flow_value.splits)
qed

lemma demo_accepts:
  "case Accept demo_program (en_newStateToken demo_env) None (demo_tx (NewFlow ''s'' ''f'' DemoIntent)) of
     (r, s) \<Rightarrow> r = Ok [ErrEOF] \<and> tx_db s = [7] \<and> cur_root s = Flow ''f'' ''s'' DemoIntent [Simple DemoNode]"
  by code_simp

end
