(* ===== verification/FlowSafety.thy ===== *)
theory FlowSafety imports FlowDemo begin

text \<open>
  What the engine of authentication flows promises: nothing is written before the end of a flow, a flow that has
  ended stays ended, every step has a state token of its own.
\<close>

section \<open>Requests\<close>

datatype ('k, 'i) flow_request = CreateRequest 'k SessionOptions | FeedRequest string "string option" | SyntheticRequest string 'i | GetRequest string

text \<open>The flag says that the flow has ended.\<close>

fun serve :: "('k, 'i, 'sc, 'f, 'd, 'h, 'x, 'r) flow_env \<Rightarrow> time \<Rightarrow> nat \<Rightarrow> ('k, 'i) flow_request \<Rightarrow> ('k, 'i, 'f, 'd, 'x, 'r, 'k ServiceOutput \<times> bool) flow_proc" where
  "serve e now fuel (CreateRequest k opts) = CreateNewFlow e now fuel k opts"
| "serve e now fuel (FeedRequest token msg) = FeedInput e now fuel token msg"
| "serve e now fuel (SyntheticRequest token i) = FeedSyntheticInput e now fuel token i"
| "serve e now fuel (GetRequest token) = bindp (Flow_Get e now token) (\<lambda>output. ret (output, False))"

section \<open>Nothing is written before the end\<close>

text \<open>Delayed functions and what runs after a transaction may call anything but leave the database alone.\<close>

definition quiet :: "('k, 'i, 'sc, 'f, 'd, 'h, 'x, 'r) flow_env \<Rightarrow> bool" where
  "quiet e \<longleftrightarrow> (\<forall>h s. tx_db (snd (en_DidCommitTx e h s)) = tx_db s) \<and> (\<forall>f db w. fst (snd (p_Delayed (en_program e) f (db, w))) = db)"

definition same_db :: "('k, 'f, 'd, 'x, 'r) flow_svc \<Rightarrow> ('k, 'f, 'd, 'x, 'r) flow_svc \<Rightarrow> bool" where
  "same_db s s' \<longleftrightarrow> sv_db s' = sv_db s"

definition same_tx_db :: "('d, 'h, 'w) tx_state \<Rightarrow> ('d, 'h, 'w) tx_state \<Rightarrow> bool" where
  "same_tx_db s s' \<longleftrightarrow> tx_db s' = tx_db s"

lemma same_db_rel [simp]: "reflp same_db" "transp same_db" "reflp same_tx_db" "transp same_tx_db"
  by (auto simp: same_db_def same_tx_db_def intro: reflpI transpI)

lemma keeps_run_hooks: "reflp R \<Longrightarrow> transp R \<Longrightarrow> (\<And>h. keeps R (run h)) \<Longrightarrow> keeps R (run_hooks run hooks)"
  by (induction hooks) (auto intro!: keeps_intros)

lemma keeps_on_prog_db:
  assumes "\<And>s. tx_db (snd (m s)) = tx_db s"
  shows "keeps same_tx_db (on_prog m)"
  using assms unfolding keeps_def same_tx_db_def on_prog_def on_world_def
  by (auto split: prod.split) (metis snd_conv tx_state.select_convs(1))

lemma did_commit_db:
  assumes "\<And>h s. tx_db (snd (did h s)) = tx_db s"
  shows "keeps same_tx_db (run_did_commit (\<lambda>h. on_prog (did h)))"
proof -
  have hooks: "keeps same_tx_db (run_hooks (\<lambda>h. ignore_err (on_prog (did h))) hooks)" for hooks
    using assms by (intro keeps_run_hooks keeps_ignore_err keeps_on_prog_db) simp_all
  show ?thesis unfolding run_did_commit_def keeps_def
  proof
    fix s show "same_tx_db s (snd (run_hooks (\<lambda>h. ignore_err (on_prog (did h))) (tx_hooks s) s))"
      using hooks [of "tx_hooks s"] unfolding keeps_def by blast
  qed
qed

lemma did_commit_ret:
  "(\<And>h s. tx_db (snd (did h s)) = tx_db s) \<Longrightarrow> keeps same_tx_db (bindp (run_did_commit (\<lambda>h. on_prog (did h))) (\<lambda>_. ret x))"
  by (intro keeps_intros did_commit_db) simp_all

lemma ReadOnly_db:
  assumes "\<And>h s. tx_db (snd (did h s)) = tx_db s"
  shows "fst (snd (ReadOnly faults (\<lambda>h. on_prog (did h)) body (db, w))) = db"
proof -
  define r where "r = bindp (openTx faults) (\<lambda>_. bindp body (\<lambda>x. bindp (fault (tf_Rollback faults)) (\<lambda>_. ret x)))
    \<lparr>tx_db = db, tx_hooks = [], tx_world = w\<rparr>"
  have ro: "ReadOnly faults (\<lambda>h. on_prog (did h)) body (db, w) = (case fst r of
      Ok x \<Rightarrow> keep_tx (bindp (run_did_commit (\<lambda>h. on_prog (did h))) (\<lambda>_. ret x) ((snd r)\<lparr>tx_db := db\<rparr>)) | _ \<Rightarrow> leave_tx db r)"
    unfolding ReadOnly_def r_def Let_def by simp
  have "tx_db (snd (bindp (run_did_commit (\<lambda>h. on_prog (did h))) (\<lambda>_. ret x) ((snd r)\<lparr>tx_db := db\<rparr>))) = db" for x
    using keepsD [OF did_commit_ret [of did x, OF assms] prod.collapse [symmetric], of "(snd r)\<lparr>tx_db := db\<rparr>"]
    by (simp add: same_tx_db_def)
  then show ?thesis
    unfolding ro by (auto simp: keep_tx_def leave_tx_def split: outcome.split)
qed

lemma Flow_ReadOnly_quiet: "quiet e \<Longrightarrow> keeps same_db (Flow_ReadOnly e body)"
  using ReadOnly_db [of "en_DidCommitTx e" "en_faults e n" body db w for n db w]
  by (auto simp: keeps_def same_db_def Flow_ReadOnly_def on_tx_def quiet_def split: prod.split) (metis fst_conv snd_conv)

lemma run_delayed_quiet: "quiet e \<Longrightarrow> keeps same_db (run_delayed e f)"
  by (auto simp: keeps_def same_db_def run_delayed_def quiet_def split: prod.split) (metis fst_conv snd_conv)

lemma store_db: "keeps same_db (on_store m)" "keeps same_db (sv_mod f)" "keeps same_db (draw source)" "keeps same_db save_outer"
  by (auto simp: keeps_def same_db_def on_store_def sv_mod_def draw_def save_outer_def run_simps Let_def split: prod.split)

section \<open>Random strings are used once\<close>

definition tokens_up :: "('d, 'h, ('k, 'f, 'x) flow_mem) tx_state \<Rightarrow> ('d, 'h, ('k, 'f, 'x) flow_mem) tx_state \<Rightarrow> bool" where
  "tokens_up s s' \<longleftrightarrow> fm_tokens (tx_world s) \<le> fm_tokens (tx_world s')"

lemma tokens_up_rel [simp]: "reflp tokens_up" "transp tokens_up"
  by (auto simp: tokens_up_def intro: reflpI transpI)

lemma on_part_up: "keeps tokens_up (on_prog m)" "keeps tokens_up (on_ctx m')"
  by (auto simp: keeps_def tokens_up_def on_prog_def on_ctx_def on_world_def split: prod.split)

lemma mem_mod_up: "(\<And>m. fm_tokens m \<le> fm_tokens (f m)) \<Longrightarrow> keeps tokens_up (mem_mod f)"
  unfolding mem_mod_def by (rule keeps_modp) (simp add: tokens_up_def)

lemma upd_up: "keeps tokens_up (upd_root f)" "keeps tokens_up (upd_result g)" "keeps tokens_up (renew_token t)" "keeps tokens_up (set_action a)"
  unfolding upd_root_def upd_result_def renew_token_def set_action_def by (rule mem_mod_up, simp)+

lemmas upward = keeps_intros keeps_cases tokens_up_rel on_part_up upd_up

lemma visit_all_keeps:
  assumes "reflp R" "transp R" "\<And>l f k. tv_at t l = Some f \<Longrightarrow> keeps R (f k (loc_path l))"
  shows "keeps R (visit_all cur t ls)"
proof (induction ls)
  case (Cons l ls)
  have "keeps R (visit cur t l)"
  proof (cases "tv_at t l")
    case None
    with assms(1) show ?thesis by (simp add: visit_def keeps_ret)
  next
    case (Some f)
    then show ?thesis using assms(3) [OF Some] assms(1)
      by (auto simp: visit_def keeps_def run_simps reflpD split: option.split)
  qed
  with Cons assms show ?case by (auto intro!: keeps_intros)
qed (use assms in \<open>simp add: keeps_ret\<close>)

lemma TraverseFlow_keeps:
  assumes "reflp R" "transp R" "\<And>l f k. tv_at t l = Some f \<Longrightarrow> keeps R (f k (loc_path l))"
  shows "keeps R (TraverseFlow cur t p)"
proof -
  have "keeps R (visit_all cur t ls)" for ls by (rule visit_all_keeps) (fact assms)+
  with assms(1) show ?thesis
    by (auto simp: TraverseFlow_def traverseFlow_def keeps_def run_simps reflpD split: option.split)
qed

lemma tv_at_cases: "tv_at t l = Some f \<Longrightarrow> (\<exists>p. l = AtIntent p \<and> tv_Intent t = Some f) \<or> (\<exists>p n. l = AtNode p n \<and> tv_NodeSimple t = Some f)"
  by (cases l) auto

lemma get_effects_up: "keeps tokens_up (get_effects p k w)"
  unfolding get_effects_def by (intro upward)

lemma run_effects_up: "keeps tokens_up (run_run_effects effs)" "keeps tokens_up (run_commit_effects effs)"
  by (induction effs) (auto intro!: upward split: effect.split)

lemma apply_up: "keeps tokens_up (apply_run_node p k w)" "keeps tokens_up (apply_run_intent p k w)" "keeps tokens_up (apply_commit p k w)"
  unfolding apply_run_node_def apply_run_intent_def apply_commit_def
  by (intro upward get_effects_up run_effects_up)+

lemma ApplyRunEffects_up: "keeps tokens_up (ApplyRunEffects p)"
  unfolding ApplyRunEffects_def by (rule TraverseFlow_keeps) (auto dest!: tv_at_cases intro: apply_up)

lemma CanReactTo_up: "keeps tokens_up (CanReactTo_at p root l k)"
  unfolding CanReactTo_at_def by (intro upward)

lemma FindInputReactorFor_up:
  "keeps tokens_up (FindInputReactorForFlow p root w flow)" "keeps tokens_up (FindInputReactorForNode p root w n x)"
  by (induction p root w flow and p root w n x rule: FindInputReactorForFlow_FindInputReactorForNode.induct)
    (auto intro!: upward CanReactTo_up simp: Let_def)

lemma newAuthenticationFlowError_up: "keeps tokens_up (newAuthenticationFlowError p err)"
  by (auto simp: keeps_def newAuthenticationFlowError_def run_simps tokens_up_def split: option.split)

lemma FindInputReactor_up: "keeps tokens_up (FindInputReactor p)"
  unfolding FindInputReactor_def by (intro upward FindInputReactorFor_up newAuthenticationFlowError_up)

lemma take_result_up: "keeps tokens_up (take_result r)"
  by (cases r) (auto intro!: upward)

lemma appendNode_up: "keeps tokens_up (appendNode p w node)"
  unfolding appendNode_def TraverseNode_def
  by (intro upward visit_all_keeps) (auto dest!: tv_at_cases intro: apply_up)

lemma replaceNode_up: "keeps tokens_up (replaceNode w node)"
  unfolding replaceNode_def by (intro upward)

lemma handle_bot_protection_up: "keeps tokens_up (handle_bot_protection err)"
  unfolding handle_bot_protection_def
  by (auto intro!: upward split: option.split bot_protection_status.split)

lemma accept_once_up: "keeps tokens_up (accept_once p inputFn changed)"
  unfolding accept_once_def handle_reaction_def append_reaction_def replace_reaction_def
  by (intro upward FindInputReactor_up take_result_up appendNode_up replaceNode_up handle_bot_protection_up newAuthenticationFlowError_up)

lemma accept_loop_up: "keeps tokens_up (accept_loop p inputFn n changed)"
  by (induction n arbitrary: changed) (simp_all only: accept_loop.simps, (intro upward accept_once_up | assumption)+)

lemma log_up: "keeps tokens_up (logAuthenticationBlockedErrorIfNeeded p err)"
  unfolding logAuthenticationBlockedErrorIfNeeded_def by (intro upward) (auto intro!: upward split: outcome.split)

lemma accept_up: "keeps tokens_up (accept p t inputFn)"
  unfolding accept_def doAccept_def by (intro upward accept_loop_up log_up)

lemma Accept_up: "keeps tokens_up (Accept p t msg)" "keeps tokens_up (AcceptSyntheticInput p t i)"
  unfolding Accept_def AcceptSyntheticInput_def by (rule accept_up)+

lemma getFlowAction_up: "keeps tokens_up (getFlowAction e)"
  unfolding getFlowAction_def Let_def by (intro upward FindInputReactor_up)

lemma accept_body_up: "keeps tokens_up acceptFn \<Longrightarrow> keeps tokens_up (accept_body e resume acceptFn)"
  unfolding accept_body_def assign_action_def Let_def by (intro upward ApplyRunEffects_up getFlowAction_up)

lemma delayed_failed_body_up: "keeps tokens_up (bindp (attempt (ApplyRunEffects p)) (\<lambda>r. case r of
     Inl runEffectErr \<Rightarrow> failp (runEffectErr @ err)
   | Inr _ \<Rightarrow> bindp (logAuthenticationBlockedErrorIfNeeded p err) (\<lambda>err. bindp (newAuthenticationFlowError p err) failp)))"
  by (intro upward ApplyRunEffects_up log_up newAuthenticationFlowError_up)

lemma Get_body_up: "keeps tokens_up (bindp (ApplyRunEffects p) (\<lambda>_. getFlowAction e))"
  by (intro upward ApplyRunEffects_up getFlowAction_up)

lemma collect_at_up: "keeps (\<lambda>s s'. tokens_up (fst s) (fst s')) (collect_at p k w)"
proof -
  have rel: "reflp (\<lambda>s s'. tokens_up (fst s) (fst s'))" "transp (\<lambda>s s'. tokens_up (fst s) (fst s'))"
    by (auto simp: tokens_up_def intro: reflpI transpI)
  have "keeps (\<lambda>s s'. tokens_up (fst s) (fst s')) (with_var (on_ctx m))" for m
    using keepsD [OF on_part_up(2)] by (fastforce simp: with_var_def keeps_def split: prod.split)
  then show ?thesis unfolding collect_at_def
    by (intro keeps_intros keeps_cases rel) (auto simp: tokens_up_def)
qed

lemma CollectCookies_up: "keeps tokens_up (CollectCookies p)"
proof -
  let ?t = "\<lparr>tv_Intent = Some (collect_at p), tv_NodeSimple = Some (collect_at p)\<rparr>"
  have rel: "reflp (\<lambda>s s'. tokens_up (fst s) (fst s'))" "transp (\<lambda>s s'. tokens_up (fst s) (fst s'))"
    by (auto simp: tokens_up_def intro: reflpI transpI)
  have "keeps (\<lambda>s s'. tokens_up (fst s) (fst s')) (TraverseFlow (\<lambda>(s, _). cur_root s) ?t [])"
    by (rule TraverseFlow_keeps [OF rel]) (auto dest!: tv_at_cases intro: collect_at_up)
  from keepsD [OF this, of "(s, [])" for s] show ?thesis
    by (fastforce simp: keeps_def CollectCookies_def split: prod.split outcome.split)
qed

lemma finishFlow_up: "keeps tokens_up (finishFlow e)"
  unfolding finishFlow_def ApplyAllEffects_def
  by (intro upward ApplyRunEffects_up CollectCookies_up TraverseFlow_keeps) (auto dest!: tv_at_cases intro: apply_up)

text \<open>Transactions hand the memory on, whether they commit or not.\<close>

lemma keeps_fault: "reflp R \<Longrightarrow> keeps R (fault f)"
  unfolding fault_def by (intro keeps_cases keeps_intros)

lemma run_did_commit_up: "keeps tokens_up (run_did_commit (\<lambda>h. on_prog (did h)))"
proof -
  have hooks: "keeps tokens_up (run_hooks (\<lambda>h. ignore_err (on_prog (did h))) hooks)" for hooks
    by (intro keeps_run_hooks keeps_ignore_err upward)
  show ?thesis unfolding run_did_commit_def keeps_def
  proof
    fix s show "tokens_up s (snd (run_hooks (\<lambda>h. ignore_err (on_prog (did h))) (tx_hooks s) s))"
      using hooks [of "tx_hooks s"] unfolding keeps_def by blast
  qed
qed

lemma run_did_commit_ret_up:
  "fm_tokens (tx_world s) \<le> fm_tokens (tx_world (snd (bindp (run_did_commit (\<lambda>h. on_prog (did h))) (\<lambda>_. ret x) s)))"
proof -
  have "keeps tokens_up (bindp (run_did_commit (\<lambda>h. on_prog (did h))) (\<lambda>_. ret x))"
    by (intro upward run_did_commit_up)
  from keepsD [OF this prod.collapse [symmetric]] show ?thesis by (simp add: tokens_up_def)
qed

lemma commitTx_up: "keeps tokens_up (commitTx faults (\<lambda>h. on_prog (will h)) hooks)"
  unfolding commitTx_def by (intro upward keeps_run_hooks keeps_fault)

lemma ReadOnly_up:
  assumes "keeps tokens_up body"
  shows "fm_tokens w \<le> fm_tokens (snd (snd (ReadOnly faults (\<lambda>h. on_prog (did h)) body (db, w))))"
proof -
  define r where "r = bindp (openTx faults) (\<lambda>_. bindp body (\<lambda>x. bindp (fault (tf_Rollback faults)) (\<lambda>_. ret x)))
    \<lparr>tx_db = db, tx_hooks = [], tx_world = w\<rparr>"
  have ro: "ReadOnly faults (\<lambda>h. on_prog (did h)) body (db, w) = (case fst r of
      Ok x \<Rightarrow> keep_tx (bindp (run_did_commit (\<lambda>h. on_prog (did h))) (\<lambda>_. ret x) ((snd r)\<lparr>tx_db := db\<rparr>)) | _ \<Rightarrow> leave_tx db r)"
    unfolding ReadOnly_def r_def Let_def by simp
  have "keeps tokens_up (bindp (openTx faults) (\<lambda>_. bindp body (\<lambda>x. bindp (fault (tf_Rollback faults)) (\<lambda>_. ret x))))"
    unfolding openTx_def by (intro upward keeps_fault assms)
  from keepsD [OF this prod.collapse [symmetric], of "\<lparr>tx_db = db, tx_hooks = [], tx_world = w\<rparr>"] have 1: "fm_tokens w \<le> fm_tokens (tx_world (snd r))"
    by (simp add: tokens_up_def r_def)
  then have "fm_tokens w \<le> fm_tokens (tx_world (snd (bindp (run_did_commit (\<lambda>h. on_prog (did h))) (\<lambda>_. ret x) ((snd r)\<lparr>tx_db := db\<rparr>))))" for x
    by (rule order_trans [OF _ order_trans [OF _ run_did_commit_ret_up]]) simp
  with 1 show ?thesis unfolding ro by (auto simp: keep_tx_def leave_tx_def split: outcome.split)
qed

lemma WithTx_up:
  assumes "keeps tokens_up body"
  shows "fm_tokens w \<le> fm_tokens (snd (snd (WithTx faults (\<lambda>h. on_prog (will h)) (\<lambda>h. on_prog (did h)) body (db, w))))"
proof -
  define r where "r = bindp (openTx faults) (\<lambda>_. bindp body (\<lambda>x.
      bindp (\<lambda>s. commitTx faults (\<lambda>h. on_prog (will h)) (tx_hooks s) s) (\<lambda>_. ret x)))
    \<lparr>tx_db = db, tx_hooks = [], tx_world = w\<rparr>"
  have wt: "WithTx faults (\<lambda>h. on_prog (will h)) (\<lambda>h. on_prog (did h)) body (db, w) = (case fst r of
      Ok x \<Rightarrow> keep_tx (bindp (run_did_commit (\<lambda>h. on_prog (did h))) (\<lambda>_. ret x) (snd r)) | _ \<Rightarrow> leave_tx db r)"
    unfolding WithTx_def r_def Let_def by simp
  have commit: "keeps tokens_up (\<lambda>s. commitTx faults (\<lambda>h. on_prog (will h)) (tx_hooks s) s)"
    using commitTx_up [of faults will] unfolding keeps_def by blast
  have "keeps tokens_up (bindp (openTx faults) (\<lambda>_. bindp body (\<lambda>x.
      bindp (\<lambda>s. commitTx faults (\<lambda>h. on_prog (will h)) (tx_hooks s) s) (\<lambda>_. ret x))))"
    unfolding openTx_def by (intro upward keeps_fault assms commit)
  from keepsD [OF this prod.collapse [symmetric], of "\<lparr>tx_db = db, tx_hooks = [], tx_world = w\<rparr>"] have 1: "fm_tokens w \<le> fm_tokens (tx_world (snd r))"
    by (simp add: tokens_up_def r_def)
  then have "fm_tokens w \<le> fm_tokens (tx_world (snd (bindp (run_did_commit (\<lambda>h. on_prog (did h))) (\<lambda>_. ret x) (snd r))))" for x
    by (rule order_trans [OF _ order_trans [OF _ run_did_commit_ret_up]]) simp
  with 1 show ?thesis unfolding wt by (auto simp: keep_tx_def leave_tx_def split: outcome.split)
qed

section \<open>What every part of the engine keeps\<close>

text \<open>A relation that the primitive steps keep is kept by the engine up to the end of a flow; with the commit and the
  deletions, by every request.\<close>

locale engine_relation =
  fixes e :: "('k, 'i, 'sc, 'f, 'd, 'h, 'x, 'r) flow_env" and now :: time
    and R :: "('k, 'f, 'd, 'x, 'r) flow_svc \<Rightarrow> ('k, 'f, 'd, 'x, 'r) flow_svc \<Rightarrow> bool"
  assumes rel [simp]: "reflp R" "transp R"
    and mem: "(\<And>m. fm_tokens (f m) = fm_tokens m) \<Longrightarrow> keeps R (sv_mod f :: ('k, 'i, 'f, 'd, 'x, 'r, unit) flow_proc)"
    and drawn: "keeps R (draw source :: ('k, 'i, 'f, 'd, 'x, 'r, string) flow_proc)"
    and asked: "keeps R (ask_code e code)"
    and outer: "keeps R (save_outer :: ('k, 'i, 'f, 'd, 'x, 'r, unit) flow_proc)"
    and delayed: "keeps R (run_delayed e f')"
    and read_tx: "keeps tokens_up body \<Longrightarrow> keeps R (Flow_ReadOnly e (body :: ('k, 'i, 'f, 'd, 'h, 'x, unit) mem_proc))"
    and read_tx': "keeps tokens_up body' \<Longrightarrow> keeps R (Flow_ReadOnly e (body' :: ('k, 'i, 'f, 'd, 'h, 'x, FlowAction option) mem_proc))"
    and stored: "keeps R (on_store (CreateFlow (en_store e) now w) :: ('k, 'i, 'f, 'd, 'x, 'r, unit) flow_proc)"
      "keeps R (on_store (Flow_UpdateSession (en_store e) now session) :: ('k, 'i, 'f, 'd, 'x, 'r, unit) flow_proc)"
      "keeps R (on_store (GetFlowByStateToken (en_store e) now token) :: ('k, 'i, 'f, 'd, 'x, 'r, 'k flow) flow_proc)"
      "keeps R (on_store (Flow_GetSession (en_store e) now flowID) :: ('k, 'i, 'f, 'd, 'x, 'r, FlowSession) flow_proc)"
begin

lemmas kept = keeps_intros keeps_cases rel

lemma set_root_kept: "keeps R (set_root w :: ('k, 'i, 'f, 'd, 'x, 'r, unit) flow_proc)"
  unfolding set_root_def by (rule mem) simp

lemma set_session_kept: "keeps R (set_session w :: ('k, 'i, 'f, 'd, 'x, 'r, unit) flow_proc)"
  unfolding set_session_def by (rule mem) simp

lemma MakeContext_kept: "keeps R (MakeContext session :: ('k, 'i, 'f, 'd, 'x, 'r, unit) flow_proc)"
  unfolding MakeContext_def by (rule mem) simp

lemma restore_outer_kept: "keeps R (restore_outer :: ('k, 'i, 'f, 'd, 'x, 'r, unit) flow_proc)"
  unfolding restore_outer_def by (intro kept mem) simp

lemma update_session_kept: "keeps R (update_session e now)"
  unfolding update_session_def by (intro kept stored)

lemma patch_all_kept: "keeps R (patch_all patches :: ('k, 'i, 'f, 'd, 'x, 'r, unit) flow_proc)"
  by (induction patches) (simp_all only: patch_all.simps, (intro kept set_session_kept | assumption)+)

lemma run_all_delayed_kept: "keeps R (run_all_delayed e now fs)"
  by (induction fs) (auto intro!: kept set_session_kept delayed update_session_kept read_tx delayed_failed_body_up simp: delayed_failed_def)

lemma processAcceptResult_kept: "keeps R (processAcceptResult e now)"
  unfolding processAcceptResult_def
  by (intro kept set_session_kept update_session_kept patch_all_kept run_all_delayed_kept)

lemma accept_rounds_kept: "keeps tokens_up body \<Longrightarrow> keeps R (accept_rounds e now fuel body)"
  by (induction fuel) (auto intro!: kept mem read_tx processAcceptResult_kept)

lemma keep_state_kept: "keeps R (keep_state e now err)"
  unfolding keep_state_def store_flow_def Let_def by (intro kept stored)

lemma createNewFlow_kept: "keeps R (createNewFlow e now fuel k)"
  unfolding createNewFlow_def by (intro kept drawn set_root_kept mem accept_rounds_kept accept_body_up Accept_up keep_state_kept) simp

lemma load_flow_kept: "keeps R (load_flow e now token)"
  unfolding load_flow_def by (intro kept stored set_root_kept)

lemma feed_with_kept: "keeps tokens_up acceptFn \<Longrightarrow> keeps R (feed_with e now fuel token acceptFn)"
  unfolding feed_with_def by (intro kept load_flow_kept mem accept_rounds_kept accept_body_up keep_state_kept) simp_all

lemma context_kept: "keeps R (getSessionAndUpdateContext e now flowID)"
  unfolding getSessionAndUpdateContext_def by (intro kept stored MakeContext_kept)

lemma Flow_Get_kept: "keeps R (Flow_Get e now token)"
  unfolding Flow_Get_def by (intro kept load_flow_kept context_kept read_tx' Get_body_up)

end

locale engine_requests = engine_relation e now R
  for e :: "('k, 'i, 'sc, 'f, 'd, 'h, 'x, 'r) flow_env" and now :: time
    and R :: "('k, 'f, 'd, 'x, 'r) flow_svc \<Rightarrow> ('k, 'f, 'd, 'x, 'r) flow_svc \<Rightarrow> bool" +
  assumes write_tx: "keeps R (Flow_WithTx e (finishFlow e))"
    and created: "keeps R (new_session e now opts)"
    and deleted: "keeps R (on_store (Flow_DeleteSession (en_store e) now session) :: ('k, 'i, 'f, 'd, 'x, 'r, unit) flow_proc)"
      "keeps R (on_store (DeleteFlow (en_store e) now w) :: ('k, 'i, 'f, 'd, 'x, 'r, unit) flow_proc)"
begin

lemma conclude_kept: "keeps R (conclude e now isEOF)"
  unfolding conclude_def Let_def by (intro kept write_tx deleted)

lemma createNewFlowWithSession_kept: "keeps R (createNewFlowWithSession e now fuel k)"
  unfolding createNewFlowWithSession_def by (intro kept createNewFlow_kept conclude_kept)

lemma FeedSyntheticInput_kept: "keeps R (FeedSyntheticInput e now fuel token i)"
  unfolding FeedSyntheticInput_def feedSyntheticInput_def
  by (intro kept load_flow_kept context_kept feed_with_kept Accept_up conclude_kept)

lemma switchFlow_kept: "keeps R (switchFlow e now fuel ref i)"
  unfolding switchFlow_def
  by (intro kept restore_outer_kept createNewFlowWithSession_kept outer FeedSyntheticInput_kept)

lemma rewriteFlow_kept: "keeps R (rewriteFlow e now fuel k ns i)"
  unfolding rewriteFlow_def Let_def by (intro kept drawn stored FeedSyntheticInput_kept)

lemma special_rounds_kept: "keeps R (special_rounds e now fuel n err)"
  by (induction n arbitrary: err)
    (auto intro!: kept switchFlow_kept rewriteFlow_kept simp: special_switch_def special_rewrite_def)

lemma CreateNewFlow_kept: "keeps R (CreateNewFlow e now fuel k opts)"
  unfolding CreateNewFlow_def Let_def by (intro kept created createNewFlowWithSession_kept)

lemma FeedInput_kept: "keeps R (FeedInput e now fuel token msg)"
  unfolding FeedInput_def resolveStateTokenFromInput_def feedInput_def
  by (intro kept asked CreateNewFlow_kept load_flow_kept context_kept feed_with_kept Accept_up outer special_rounds_kept conclude_kept)

lemma serve_kept: "keeps R (serve e now fuel req)"
  by (cases req) (auto intro!: kept CreateNewFlow_kept FeedInput_kept FeedSyntheticInput_kept Flow_Get_kept)

end

text \<open>Up to the end of a flow the database stays as it is.\<close>

interpretation qd: engine_relation e now "\<lambda>s s'. quiet e \<longrightarrow> same_db s s'" for e now
proof (unfold_locales, goal_cases)
  case (3 f) then show ?case by (auto simp: keeps_def same_db_def sv_mod_def run_simps)
next
  case 4 then show ?case by (auto simp: keeps_def same_db_def draw_def Let_def)
next
  case 5 then show ?case by (auto simp: keeps_def same_db_def ask_code_def Let_def split: prod.split)
next
  case 6 then show ?case by (auto simp: keeps_def same_db_def save_outer_def run_simps Let_def)
next
  case 7 then show ?case using run_delayed_quiet by (fastforce simp: keeps_def)
next
  case 8 then show ?case using Flow_ReadOnly_quiet by (fastforce simp: keeps_def)
next
  case 9 then show ?case using Flow_ReadOnly_quiet by (fastforce simp: keeps_def)
qed (auto simp: reflp_def transp_def keeps_def same_db_def on_store_def split: prod.split)

text \<open>To Redis, every request is a sequence of commands; those on sessions of another flow than \<open>f\<close>, the ones that
  create a session among them, and all that create none.\<close>

inductive flow_command :: "('r, 'k) flow_store \<Rightarrow> string \<Rightarrow> time \<times> 'r \<Rightarrow> time \<times> 'r \<Rightarrow> bool" for st f where
  mark: "t \<le> now \<Longrightarrow> xr_SETEX (st_redis st) now (redisFlowKey (st_AppID st) flowID) v d r = (u, r') \<Longrightarrow> flow_command st f (t, r) (now, r')"
| state: "t \<le> now \<Longrightarrow> xr_SETEX (st_redis st) now (redisFlowStateKey (st_AppID st) token) v d r = (u, r') \<Longrightarrow> flow_command st f (t, r) (now, r')"
| create: "t \<le> now \<Longrightarrow> flowID \<noteq> f \<Longrightarrow> xr_SETEX (st_redis st) now (redisFlowSessionKey (st_AppID st) flowID) v d r = (u, r')
    \<Longrightarrow> flow_command st f (t, r) (now, r')"
| update: "t \<le> now \<Longrightarrow> xr_SETXX (st_redis st) now (redisFlowSessionKey (st_AppID st) flowID) v d r = (u, r') \<Longrightarrow> flow_command st f (t, r) (now, r')"
| delete: "t \<le> now \<Longrightarrow> xr_DEL (st_redis st) now k r = (u, r') \<Longrightarrow> flow_command st f (t, r) (now, r')"
| fetch: "t \<le> now \<Longrightarrow> xr_GET (st_redis st) now k r = (g, r') \<Longrightarrow> flow_command st f (t, r) (now, r')"

definition commanded :: "('k, 'i, 'sc, 'f, 'd, 'h, 'x, 'r) flow_env \<Rightarrow> time \<Rightarrow> string
    \<Rightarrow> ('k, 'f, 'd, 'x, 'r) flow_svc \<Rightarrow> ('k, 'f, 'd, 'x, 'r) flow_svc \<Rightarrow> bool" where
  "commanded e now f s s' \<longleftrightarrow> fm_tokens (sv_mem s) \<le> fm_tokens (sv_mem s') \<and>
     ((\<forall>n \<ge> fm_tokens (sv_mem s). en_newFlowID e n \<noteq> f) \<longrightarrow>
      (flow_command (en_store e) f)\<^sup>*\<^sup>* (now, sv_redis s) (now, sv_redis s'))"

lemma commanded_rel: "reflp (commanded e now f)" "transp (commanded e now f)"
  unfolding reflp_def transp_def commanded_def by (auto intro: rtranclp_trans order_trans)

text \<open>A program's delayed functions have no access to the counter and to the store.\<close>

lemma same_store_commanded:
  "sv_redis s' = sv_redis s \<Longrightarrow> fm_tokens (sv_mem s) \<le> fm_tokens (sv_mem s') \<Longrightarrow> commanded e now f s s'"
  by (simp add: commanded_def)

lemma store_call_commands:
  assumes "\<And>r u r'. c r = (u, r') \<Longrightarrow> flow_command (en_store e) f (now, r) (now, r')"
  shows "keeps (\<lambda>r r'. (flow_command (en_store e) f)\<^sup>*\<^sup>* (now, r) (now, r')) (store_call c)"
  using assms by (auto simp: keeps_def store_call_def split: prod.split sum.split)

lemma on_store_commanded:
  "keeps (\<lambda>r r'. (flow_command (en_store e) f)\<^sup>*\<^sup>* (now, r) (now, r')) m \<Longrightarrow> keeps (commanded e now f) (on_store m)"
  by (auto simp: keeps_def on_store_def commanded_def split: prod.split) (metis snd_conv)

lemma commands_rel: "reflp (\<lambda>r r'. (flow_command st f)\<^sup>*\<^sup>* (now, r) (now, r'))" "transp (\<lambda>r r'. (flow_command st f)\<^sup>*\<^sup>* (now, r) (now, r'))"
  by (auto simp: reflp_def transp_def intro: rtranclp_trans)

lemmas commanding = keeps_intros keeps_cases commands_rel store_call_commands

lemma store_commands:
  "keeps (\<lambda>r r'. (flow_command (en_store e) f)\<^sup>*\<^sup>* (now, r) (now, r')) (CreateFlow (en_store e) now w)"
  "keeps (\<lambda>r r'. (flow_command (en_store e) f)\<^sup>*\<^sup>* (now, r) (now, r')) (Flow_UpdateSession (en_store e) now session)"
  "keeps (\<lambda>r r'. (flow_command (en_store e) f)\<^sup>*\<^sup>* (now, r) (now, r')) (GetFlowByStateToken (en_store e) now token)"
  "keeps (\<lambda>r r'. (flow_command (en_store e) f)\<^sup>*\<^sup>* (now, r) (now, r')) (Flow_GetSession (en_store e) now flowID)"
  "keeps (\<lambda>r r'. (flow_command (en_store e) f)\<^sup>*\<^sup>* (now, r) (now, r')) (Flow_DeleteSession (en_store e) now session)"
  "keeps (\<lambda>r r'. (flow_command (en_store e) f)\<^sup>*\<^sup>* (now, r) (now, r')) (DeleteFlow (en_store e) now w)"
  "fs_FlowID session \<noteq> f \<Longrightarrow> keeps (\<lambda>r r'. (flow_command (en_store e) f)\<^sup>*\<^sup>* (now, r) (now, r')) (Flow_CreateSession (en_store e) now session)"
  unfolding CreateFlow_def Flow_UpdateSession_def GetFlowByStateToken_def Flow_GetSession_def Flow_DeleteSession_def DeleteFlow_def
    Flow_CreateSession_def Let_def
  by (auto intro!: commanding intro: flow_command.intros [OF order.refl] split: flow_value.split)

lemma new_session_commanded: "keeps (commanded e now f) (new_session e now opts)"
  by (auto simp: keeps_def commanded_def new_session_def draw_def MakeContext_def sv_mod_def on_store_def bindp_def run_simps Let_def
      Flow_CreateSession_def store_call_def NewSession_def split: prod.split sum.split
      intro!: r_into_rtranclp elim!: flow_command.create [OF order.refl, rotated])

interpretation cm: engine_requests e now "commanded e now f" for e now f
proof (unfold_locales, goal_cases)
  case (3 f) then show ?case by (auto simp: keeps_def sv_mod_def run_simps intro: same_store_commanded)
next
  case 4 then show ?case by (auto simp: keeps_def draw_def Let_def intro: same_store_commanded)
next
  case 5 then show ?case by (auto simp: keeps_def ask_code_def Let_def split: prod.split intro: same_store_commanded)
next
  case 6 then show ?case by (auto simp: keeps_def save_outer_def run_simps Let_def intro: same_store_commanded)
next
  case 7 then show ?case by (auto simp: keeps_def run_delayed_def split: prod.split intro: same_store_commanded)
next
  case (8 body) then show ?case
    by (auto simp: keeps_def Flow_ReadOnly_def on_tx_def split: prod.split intro!: same_store_commanded)
      (metis ReadOnly_up [unfolded keeps_def] snd_conv keeps_def)
next
  case (9 body) then show ?case
    by (auto simp: keeps_def Flow_ReadOnly_def on_tx_def split: prod.split intro!: same_store_commanded)
      (metis ReadOnly_up [unfolded keeps_def] snd_conv keeps_def)
next
  case 14 then show ?case
    by (auto simp: keeps_def Flow_WithTx_def on_tx_def split: prod.split intro!: same_store_commanded)
      (metis WithTx_up [OF finishFlow_up] snd_conv)
qed (rule commanded_rel on_store_commanded store_commands new_session_commanded)+

section \<open>The one write of a flow\<close>

text \<open>The transaction that finishes a flow, which went through.\<close>

definition committed :: "('k, 'i, 'sc, 'f, 'd, 'h, 'x, 'r) flow_env \<Rightarrow> 'd \<Rightarrow> 'd \<Rightarrow> bool" where
  "committed e db db' \<longleftrightarrow> (\<exists>n mem res mem'. WithTx (en_faults e n) (\<lambda>h. on_prog (en_WillCommitTx e h)) (\<lambda>h. on_prog (en_DidCommitTx e h))
     (finishFlow e) (db, mem :: ('k, 'f, 'x) flow_mem) = (res, db', mem') \<and> (\<forall>err. res \<noteq> Err err))"

text \<open>When a part has written, its result is \<open>good\<close>: one that nothing is done with any more.\<close>

definition writes_at_end :: "('k, 'i, 'sc, 'f, 'd, 'h, 'x, 'r) flow_env \<Rightarrow> ('a \<Rightarrow> bool) \<Rightarrow> ('k, 'i, 'f, 'd, 'x, 'r, 'a) flow_proc \<Rightarrow> bool" where
  "writes_at_end e good m \<longleftrightarrow> (quiet e \<longrightarrow> (\<forall>s r s'. m s = (r, s') \<longrightarrow> sv_db s' = sv_db s \<or>
     committed e (sv_db s) (sv_db s') \<and> (\<forall>x. r = Ok x \<longrightarrow> good x) \<and> (\<forall>err. r = Err err \<longrightarrow> \<not> is_special err)))"

lemma writes_at_endD:
  "writes_at_end e good m \<Longrightarrow> quiet e \<Longrightarrow> m s = (r, s') \<Longrightarrow> sv_db s' = sv_db s \<or>
     committed e (sv_db s) (sv_db s') \<and> (\<forall>x. r = Ok x \<longrightarrow> good x) \<and> (\<forall>err. r = Err err \<longrightarrow> \<not> is_special err)"
  unfolding writes_at_end_def by blast

lemma writes_at_end_quiet: "keeps (\<lambda>s s'. quiet e \<longrightarrow> same_db s s') m \<Longrightarrow> writes_at_end e good m"
  unfolding writes_at_end_def by (auto simp: same_db_def dest: keepsD)

text \<open>Going on after a part: from a good result nothing is written any more.\<close>

definition passes :: "('a \<Rightarrow> bool) \<Rightarrow> ('k, 'i, 'f, 'd, 'x, 'r, 'a) flow_proc \<Rightarrow> bool" where
  "passes good m \<longleftrightarrow> (\<forall>s r s'. m s = (r, s') \<longrightarrow> sv_db s' = sv_db s \<and> (\<forall>x. r = Ok x \<longrightarrow> good x) \<and> (\<forall>err. r = Err err \<longrightarrow> \<not> is_special err))"

lemma writes_at_end_bind:
  assumes "writes_at_end e good m" "\<And>x. writes_at_end e good' (f x)" "\<And>x. good x \<Longrightarrow> passes good' (f x)"
  shows "writes_at_end e good' (bindp m f)"
  unfolding writes_at_end_def
proof (intro impI allI)
  fix s r s' assume q: "quiet e" and run: "bindp m f s = (r, s')"
  obtain r1 s1 where m: "m s = (r1, s1)" by fastforce
  note first = writes_at_endD [OF assms(1) q m]
  show "sv_db s' = sv_db s \<or> committed e (sv_db s) (sv_db s') \<and> (\<forall>x. r = Ok x \<longrightarrow> good' x) \<and> (\<forall>err. r = Err err \<longrightarrow> \<not> is_special err)"
  proof (cases r1)
    case (Ok x)
    with run m have f: "f x s1 = (r, s')" by (simp add: bindp_run)
    show ?thesis
    proof (cases "sv_db s1 = sv_db s")
      case True
      with writes_at_endD [OF assms(2) q f] show ?thesis by simp
    next
      case False
      with first Ok have "good x" "committed e (sv_db s) (sv_db s1)" by auto
      with assms(3) [OF this(1)] f show ?thesis unfolding passes_def by metis
    qed
  qed (use run m first in \<open>auto simp: bindp_run\<close>)
qed

lemma writes_at_end_then:
  assumes "keeps (\<lambda>s s'. quiet e \<longrightarrow> same_db s s') m" "\<And>x. writes_at_end e good (f x)"
  shows "writes_at_end e good (bindp m f)"
  by (rule writes_at_end_bind [where good = "\<lambda>_. False"]) (use assms in \<open>simp_all add: writes_at_end_quiet\<close>)

lemma writes_at_end_attempt:
  assumes "writes_at_end e good m"
  shows "writes_at_end e (\<lambda>r. case r of Inl err \<Rightarrow> \<not> is_special err | Inr x \<Rightarrow> good x) (attempt m)"
  using assms unfolding writes_at_end_def attempt_def
  by (auto split: prod.splits outcome.splits; blast)

lemma is_special_simps [simp]: "\<not> is_special [FlowInfraError c]" "\<not> is_special [ErrEOF]" "\<not> is_special [OutOfFuel]"
  by (simp_all add: is_special_def errors_As_def map_filter_simps)

lemma store_call_Err: "on_store (store_call c) s = (Err err, s') \<Longrightarrow> \<not> is_special err \<and> sv_db s' = sv_db s"
  by (auto simp: on_store_def store_call_def split: prod.splits sum.splits)

lemma on_store_db: "on_store m s = (r, s') \<Longrightarrow> sv_db s' = sv_db s"
  by (auto simp: on_store_def split: prod.splits)

lemma conclude_writes: "writes_at_end e snd (conclude e now isEOF)"
proof (cases isEOF)
  case False
  have "keeps (\<lambda>s s'. quiet e \<longrightarrow> same_db s s') (conclude e now False)"
    unfolding conclude_def Let_def by (intro qd.kept) simp_all
  then show ?thesis using False by (simp add: writes_at_end_quiet)
next
  case True
  show ?thesis unfolding writes_at_end_def
  proof (intro impI allI)
    fix s r s' assume q: "quiet e" and run: "conclude e now isEOF s = (r, s')"
    obtain rt st where tx: "Flow_WithTx e (finishFlow e) s = (rt, st)" by fastforce
    then obtain db mem where w: "WithTx (en_faults e (sv_txs s)) (\<lambda>h. on_prog (en_WillCommitTx e h)) (\<lambda>h. on_prog (en_DidCommitTx e h))
        (finishFlow e) (sv_db s, sv_mem s) = (rt, db, mem)" and db: "sv_db st = db"
      by (auto simp: Flow_WithTx_def on_tx_def split: prod.splits)
    have ok: "committed e (sv_db s) (sv_db st)" if "\<forall>err. rt \<noteq> Err err"
      using w db that unfolding committed_def by blast
    show "sv_db s' = sv_db s \<or> committed e (sv_db s) (sv_db s') \<and> (\<forall>x. r = Ok x \<longrightarrow> snd x) \<and> (\<forall>err. r = Err err \<longrightarrow> \<not> is_special err)"
    proof (cases rt)
      case (Err err)
      with w have "db = sv_db s" by (auto dest: WithTx_Err)
      with run tx Err db True show ?thesis by (auto simp: conclude_def bindp_def run_simps split: prod.splits)
    next
      case Panic
      with run tx ok True show ?thesis by (auto simp: conclude_def bindp_def run_simps split: prod.splits)
    next
      case (Ok cookies)
      with run tx True have "sv_db s' = sv_db st \<and> (\<forall>x. r = Ok x \<longrightarrow> snd x) \<and> (\<forall>err. r = Err err \<longrightarrow> \<not> is_special err)"
        by (auto simp: conclude_def bindp_def run_simps Flow_DeleteSession_def DeleteFlow_def Let_def dest: on_store_db store_call_Err
            split: prod.splits outcome.splits) (metis on_store_db)+
      with ok Ok show ?thesis by auto
    qed
  qed
qed

lemma passes_intros:
  "good x \<Longrightarrow> passes good (ret x)" "\<not> is_special err \<Longrightarrow> passes good (failp err)"
  by (simp_all add: passes_def run_simps)

lemma passes_save: "passes good m \<Longrightarrow> passes good (bindp save_outer (\<lambda>_. m))"
  unfolding passes_def by (auto simp: save_outer_def bindp_def run_simps Let_def)

lemma new_session_quiet: "keeps (\<lambda>s s'. quiet e \<longrightarrow> same_db s s') (new_session e now opts)"
  by (auto simp: keeps_def same_db_def new_session_def draw_def MakeContext_def sv_mod_def on_store_def bindp_def run_simps Let_def
      split: prod.split outcome.split)

lemma createNewFlowWithSession_writes: "writes_at_end e snd (createNewFlowWithSession e now fuel k)"
  unfolding createNewFlowWithSession_def by (intro writes_at_end_then qd.createNewFlow_kept conclude_writes)

lemma FeedSyntheticInput_writes: "writes_at_end e snd (FeedSyntheticInput e now fuel token i)"
  unfolding FeedSyntheticInput_def feedSyntheticInput_def
  by (intro writes_at_end_then qd.kept qd.load_flow_kept qd.context_kept qd.feed_with_kept Accept_up conclude_writes)

lemma writes_at_end_case_prod: "(\<And>a b. writes_at_end e good (f a b)) \<Longrightarrow> writes_at_end e good (case x of (a, b) \<Rightarrow> f a b)"
  by (cases x) simp

lemma writes_at_end_fail: "writes_at_end e good (failp err)" "writes_at_end e good (ret x)" "writes_at_end e good panicp"
  by (simp_all add: writes_at_end_def run_simps)

lemma writes_at_end_sum:
  "(\<And>a. writes_at_end e good (f a)) \<Longrightarrow> (\<And>b. writes_at_end e good (g b)) \<Longrightarrow> writes_at_end e good (case x of Inl a \<Rightarrow> f a | Inr b \<Rightarrow> g b)"
  by (cases x) simp_all

lemma switchFlow_writes: "writes_at_end e snd (switchFlow e now fuel ref i)"
proof (cases "p_InstantiateFlow (en_program e) ref ''''")
  case None
  then show ?thesis by (simp add: switchFlow_def writes_at_end_fail)
next
  case (Some k)
  have feed: "writes_at_end e snd (bindp (FeedSyntheticInput e now fuel token i) (\<lambda>(output, isEOF).
      ret (if isEOF then output else output\<lparr>ou_Cookies := c @ ou_Cookies output\<rparr>, isEOF)))" for token c
    by (rule writes_at_end_bind [OF FeedSyntheticInput_writes]) (auto intro: writes_at_end_fail passes_intros)
  show ?thesis
    unfolding switchFlow_def Some option.case
    by (intro writes_at_end_then qd.restore_outer_kept writes_at_end_bind [OF writes_at_end_attempt [OF createNewFlowWithSession_writes]])
      (auto intro!: writes_at_end_then qd.outer writes_at_end_fail feed passes_save passes_intros split: sum.split)
qed

lemma rewriteFlow_writes: "writes_at_end e snd (rewriteFlow e now fuel k ns i)"
  unfolding rewriteFlow_def Let_def
  by (intro writes_at_end_then writes_at_end_case_prod qd.drawn qd.kept qd.stored FeedSyntheticInput_writes)

lemma special_switch_writes: "writes_at_end e (\<lambda>r. case r of Inl err \<Rightarrow> \<not> is_special err | Inr x \<Rightarrow> snd x) (special_switch e now fuel err)"
  unfolding special_switch_def
  by (auto intro!: writes_at_end_fail writes_at_end_attempt switchFlow_writes split: option.split)

lemma special_rewrite_writes: "writes_at_end e (\<lambda>r. case r of Inl err \<Rightarrow> \<not> is_special err | Inr x \<Rightarrow> snd x) (special_rewrite e now fuel r)"
  unfolding special_rewrite_def
  by (auto intro!: writes_at_end_fail writes_at_end_attempt rewriteFlow_writes split: option.split sum.split)

lemma special_rewrite_passes:
  "(case r of Inl err \<Rightarrow> \<not> is_special err | Inr x \<Rightarrow> snd x) \<Longrightarrow>
   passes (\<lambda>r. case r of Inl err \<Rightarrow> \<not> is_special err | Inr x \<Rightarrow> snd x) (special_rewrite e now fuel r)"
  by (auto simp: special_rewrite_def is_special_def passes_def run_simps split: sum.splits option.split)

lemma special_rounds_writes: "writes_at_end e snd (special_rounds e now fuel n err)"
proof (induction n arbitrary: err)
  case (Suc n)
  let ?good = "\<lambda>r. case r of Inl err \<Rightarrow> \<not> is_special err | Inr x \<Rightarrow> snd x"
  have last: "writes_at_end e snd (case r of Inl err \<Rightarrow> if is_special err then special_rounds e now fuel n err else failp err | Inr output \<Rightarrow> ret output)" for r
    using Suc by (auto intro: writes_at_end_fail split: sum.split)
  have stop: "passes snd (case r of Inl err \<Rightarrow> if is_special err then special_rounds e now fuel n err else failp err | Inr output \<Rightarrow> ret output)"
    if "?good r" for r
    using that by (auto intro: passes_intros split: sum.splits)
  have rest: "writes_at_end e snd (bindp (special_rewrite e now fuel r) (\<lambda>r. case r of
      Inl err \<Rightarrow> if is_special err then special_rounds e now fuel n err else failp err | Inr output \<Rightarrow> ret output))" for r
    by (rule writes_at_end_bind [OF special_rewrite_writes]) (fact last stop)+
  have pass: "passes snd (bindp (special_rewrite e now fuel r) (\<lambda>r. case r of
      Inl err \<Rightarrow> if is_special err then special_rounds e now fuel n err else failp err | Inr output \<Rightarrow> ret output))" if "?good r" for r
    using that by (auto simp: special_rewrite_def is_special_def passes_def run_simps split: sum.splits option.split)
  show ?case by (simp only: special_rounds.simps, rule writes_at_end_bind [OF special_switch_writes]) (fact rest pass)+
qed (simp add: writes_at_end_fail)

lemma CreateNewFlow_writes: "writes_at_end e snd (CreateNewFlow e now fuel k opts)"
  unfolding CreateNewFlow_def Let_def
  by (auto intro!: writes_at_end_fail writes_at_end_then new_session_quiet createNewFlowWithSession_writes split: option.split)

lemma resolve_writes: "writes_at_end e (\<lambda>_. False) (resolveStateTokenFromInput e now fuel msg)"
proof -
  have "writes_at_end e (\<lambda>_. False) (bindp (CreateNewFlow e now fuel k empty_options) (\<lambda>(newFlowOutput, isEOF).
      if isEOF then failp [ErrEOF] else ret (StateToken (ou_Flow newFlowOutput))))" for k
    by (rule writes_at_end_bind [OF CreateNewFlow_writes]) (auto intro: writes_at_end_fail simp: passes_def run_simps)
  then show ?thesis unfolding resolveStateTokenFromInput_def
    by (auto intro!: writes_at_end_fail writes_at_end_then qd.asked writes_at_end_case_prod split: option.split)
qed

lemma FeedInput_writes: "writes_at_end e snd (FeedInput e now fuel token msg)"
proof -
  have "writes_at_end e (\<lambda>_. False) (if token = '''' then resolveStateTokenFromInput e now fuel msg else ret token)"
    by (simp add: resolve_writes writes_at_end_fail)
  then show ?thesis unfolding FeedInput_def feedInput_def
    by (rule writes_at_end_bind)
      (auto intro!: writes_at_end_then writes_at_end_sum writes_at_end_fail qd.kept qd.load_flow_kept qd.context_kept qd.feed_with_kept qd.outer
        Accept_up special_rounds_writes conclude_writes simp: is_special_def)
qed


lemma demo_quiet: "quiet demo_env"
  by (simp add: quiet_def demo_env_def demo_program_def run_simps)


section \<open>What has ended stays ended\<close>

lemma flow_keys_apart [simp]:
  "redisFlowKey a f \<noteq> redisFlowSessionKey a g" "redisFlowStateKey a f \<noteq> redisFlowSessionKey a g"
  "redisFlowSessionKey a g \<noteq> redisFlowKey a f" "redisFlowSessionKey a g \<noteq> redisFlowStateKey a f"
  "redisFlowKey a f \<noteq> redisFlowStateKey a g" "redisFlowStateKey a g \<noteq> redisFlowKey a f"
  "redisFlowSessionKey a f = redisFlowSessionKey a g \<longleftrightarrow> f = g" "redisFlowStateKey a f = redisFlowStateKey a g \<longleftrightarrow> f = g"
  by (simp_all add: redisFlowKey_def redisFlowSessionKey_def redisFlowStateKey_def)

locale flow_history = flow_keys "st_redis (en_store e)" view
  for e :: "('k, 'i, 'sc, 'f, 'd, 'h, 'x, 'r) flow_env" and view :: "time \<Rightarrow> 'r \<Rightarrow> string \<Rightarrow> 'k flow_value option"
begin

abbreviation st :: "('r, 'k) flow_store" where "st \<equiv> en_store e"

definition no_session :: "string \<Rightarrow> time \<times> 'r \<Rightarrow> bool" where
  "no_session f h \<longleftrightarrow> (\<forall>u \<ge> fst h. view u (snd h) (redisFlowSessionKey (st_AppID st) f) = None)"

lemma command_later: "flow_command st f h h' \<Longrightarrow> fst h \<le> fst h'"
  by (induction rule: flow_command.induct) simp_all

lemma SETEX_other: "xr_SETEX (st_redis st) now k v d r = (u, r') \<Longrightarrow> now \<le> t \<Longrightarrow> k' \<noteq> k \<Longrightarrow> view t r' k' = view t r k'"
  using SETEX by blast

lemma SETXX_absent: "xr_SETXX (st_redis st) now k v d r = (u, r') \<Longrightarrow> now \<le> t \<Longrightarrow> view now r k' = None \<Longrightarrow> view t r' k' = view t r k'"
  using SETXX by blast

lemma DEL_absent: "xr_DEL (st_redis st) now k r = (u, r') \<Longrightarrow> now \<le> t \<Longrightarrow> view t r k' = None \<Longrightarrow> view t r' k' = None"
  using DEL by metis

lemma command_no_session: "flow_command st f h h' \<Longrightarrow> no_session f h \<Longrightarrow> no_session f h'"
proof (induction rule: flow_command.induct)
  case (mark t now flowID v d r u r')
  then show ?case by (auto simp: no_session_def SETEX_other [OF mark(2)])
next
  case (state t now token v d r u r')
  then show ?case by (auto simp: no_session_def SETEX_other [OF state(2)])
next
  case (create t now flowID v d r u r')
  then show ?case by (auto simp: no_session_def SETEX_other [OF create(3)])
next
  case (update t now flowID v d r u r')
  then show ?case by (auto simp: no_session_def SETXX_absent [OF update(2)])
next
  case (delete t now k r u r')
  then show ?case by (auto simp: no_session_def DEL_absent [OF delete(2)])
next
  case (fetch t now k r g r')
  then show ?case using GET [OF fetch(2)] by (auto simp: no_session_def)
qed

lemma commands_no_session: "(flow_command st f)\<^sup>*\<^sup>* h h' \<Longrightarrow> no_session f h \<Longrightarrow> no_session f h'"
  by (induction rule: rtranclp_induct) (auto intro: command_no_session)

lemma commands_later: "(flow_command st f)\<^sup>*\<^sup>* h h' \<Longrightarrow> fst h \<le> fst h'"
  by (induction rule: rtranclp_induct) (auto dest: command_later)

lemma GetSession_gone:
  assumes "no_session f (t, r)" "t \<le> now" and run: "Flow_GetSession st now f r = (res, r')"
  shows "r' = r \<and> (res = Err [ErrFlowNotFound] \<or> (\<exists>c. res = Err [FlowInfraError c]))"
proof -
  obtain g r1 where g: "xr_GET (st_redis st) now (redisFlowSessionKey (st_AppID st) f) r = (g, r1)" by fastforce
  have "view now r (redisFlowSessionKey (st_AppID st) f) = None" using assms(1,2) by (simp add: no_session_def)
  with GET [OF g] run g show ?thesis
    by (cases g) (auto simp: Flow_GetSession_def bindp_def store_call_def run_simps)
qed

lemma DeleteSession_gone:
  "Flow_DeleteSession st now session r = (Ok (), r') \<Longrightarrow> no_session (fs_FlowID session) (now, r')"
  by (auto simp: Flow_DeleteSession_def store_call_def no_session_def dest: DEL split: prod.splits sum.splits)

lemma DeleteFlow_gone: "DeleteFlow st now w r = (res, r') \<Longrightarrow> no_session f (now, r) \<Longrightarrow> no_session f (now, r')"
  by (auto simp: DeleteFlow_def store_call_def no_session_def DEL_absent split: prod.splits sum.splits)

text \<open>An answer that the flow has ended leaves no session of it.\<close>

definition ends_session :: "time \<Rightarrow> ('k, 'i, 'f, 'd, 'x, 'r, 'k ServiceOutput \<times> bool) flow_proc \<Rightarrow> bool" where
  "ends_session now m \<longleftrightarrow> (\<forall>s out s'. m s = (Ok (out, True), s') \<longrightarrow> no_session (fs_FlowID (ou_Session out)) (now, sv_redis s'))"

lemma ends_session_bind: "(\<And>x. ends_session now (f x)) \<Longrightarrow> ends_session now (bindp m f)"
  unfolding ends_session_def bindp_Ok by blast

lemma ends_session_fail: "ends_session now (failp err)" "ends_session now panicp"
  by (simp_all add: ends_session_def run_simps)

lemma on_store_run: "on_store m s = (res, s') \<Longrightarrow> m (sv_redis s) = (res, sv_redis s') \<and> sv_mem s' = sv_mem s"
  by (auto simp: on_store_def split: prod.splits)

lemma conclude_ends: "ends_session now (conclude e now isEOF)"
  unfolding ends_session_def
proof (intro allI impI)
  fix s out s' assume run: "conclude e now isEOF s = (Ok (out, True), s')"
  then have isEOF by (auto simp: conclude_def bindp_Ok run_simps Let_def)
  with run obtain s1 s2 where del: "on_store (Flow_DeleteSession (en_store e) now (sv_session s1)) s1
        = (Ok () :: (('k, 'i) flow_errs, unit) outcome, s2)"
      "on_store (DeleteFlow (en_store e) now (sv_root s2)) s2 = (Ok () :: (('k, 'i) flow_errs, unit) outcome, s')"
    and out: "ou_Session out = sv_session s'"
    by (auto simp: conclude_def bindp_Ok run_simps Let_def)
  from DeleteSession_gone [OF conjunct1 [OF on_store_run [OF del(1)]]]
  have "no_session (fs_FlowID (sv_session s1)) (now, sv_redis s2)" .
  from DeleteFlow_gone [OF conjunct1 [OF on_store_run [OF del(2)]] this]
  show "no_session (fs_FlowID (ou_Session out)) (now, sv_redis s')"
    using on_store_run [OF del(1)] on_store_run [OF del(2)] by (simp add: out sv_session_def)
qed

lemma FeedSyntheticInput_ends: "ends_session now (FeedSyntheticInput e now fuel token i)"
  unfolding FeedSyntheticInput_def by (intro ends_session_bind conclude_ends)

lemma createNewFlowWithSession_ends: "ends_session now (createNewFlowWithSession e now fuel k)"
  unfolding createNewFlowWithSession_def by (intro ends_session_bind conclude_ends)

lemma switchFlow_ends: "ends_session now (switchFlow e now fuel ref i)"
proof -
  have "ends_session now (bindp (FeedSyntheticInput e now fuel token i) (\<lambda>(output, isEOF).
      ret (if isEOF then output else output\<lparr>ou_Cookies := c @ ou_Cookies output\<rparr>, isEOF)))" for token c
    using FeedSyntheticInput_ends [of now fuel token i] by (auto simp: ends_session_def bindp_Ok run_simps)
  then show ?thesis unfolding switchFlow_def
    by (auto intro!: ends_session_bind [where m = restore_outer] ends_session_bind [where m = save_outer]
        ends_session_bind [where m = "attempt m" for m] ends_session_fail split: option.split sum.split)
qed

lemma rewriteFlow_ends: "ends_session now (rewriteFlow e now fuel k ns i)"
  unfolding rewriteFlow_def Let_def by (auto intro!: ends_session_bind FeedSyntheticInput_ends)

lemma special_rounds_ends:
  shows "ends_session now (special_rounds e now fuel n err)"
proof (induction n arbitrary: err)
  case (Suc n)
  show ?case unfolding ends_session_def
  proof (intro allI impI)
    fix s out s' assume "special_rounds e now fuel (Suc n) err s = (Ok (out, True), s')"
    then obtain r1 s1 r2 s2 where 1: "special_switch e now fuel err s = (Ok r1, s1)" and 2: "special_rewrite e now fuel r1 s1 = (Ok r2, s2)"
      and 3: "(case r2 of Inl err \<Rightarrow> if is_special err then special_rounds e now fuel n err else failp err | Inr output \<Rightarrow> ret output) s2 = (Ok (out, True), s')"
      by (auto simp: bindp_Ok)
    show "no_session (fs_FlowID (ou_Session out)) (now, sv_redis s')"
    proof (cases r2)
      case (Inl err)
      with 3 Suc show ?thesis by (auto simp: ends_session_def run_simps split: if_splits)
    next
      case (Inr x)
      with 3 have s': "r2 = Inr (out, True)" "s' = s2" by (auto simp: run_simps)
      show ?thesis
      proof (cases r1)
        case (Inl err1)
        with 2 s' rewriteFlow_ends show ?thesis
          by (auto simp: special_rewrite_def ends_session_def attempt_Ok run_simps split: option.splits)
      next
        case (Inr x)
        with 2 s' have "r1 = Inr (out, True)" "s1 = s'" by (auto simp: special_rewrite_def run_simps)
        with 1 switchFlow_ends show ?thesis
          by (auto simp: special_switch_def ends_session_def attempt_Ok run_simps split: option.splits)
      qed
    qed
  qed
qed (simp add: ends_session_fail)

lemma serve_ends: "ends_session now (serve e now fuel req)"
proof (cases req)
  case (CreateRequest k opts)
  show ?thesis unfolding CreateRequest serve.simps CreateNewFlow_def Let_def
    by (auto intro!: ends_session_bind ends_session_fail createNewFlowWithSession_ends split: option.split)
next
  case (FeedRequest token msg)
  show ?thesis unfolding FeedRequest serve.simps FeedInput_def
    by (auto intro!: ends_session_bind ends_session_fail conclude_ends special_rounds_ends split: sum.split)
next
  case (SyntheticRequest token i)
  show ?thesis by (simp add: SyntheticRequest FeedSyntheticInput_ends)
next
  case (GetRequest token)
  show ?thesis by (auto simp: GetRequest ends_session_def bindp_Ok run_simps)
qed

text \<open>Every request on a state of a flow without session is refused before anything happens.\<close>

lemma FlowID_map [simp]: "FlowID (map_flow g w) = FlowID w" "StateToken (map_flow g w) = StateToken w"
  by (cases w; simp)+

lemma load_flow_cases:
  assumes "load_flow e now token s = (res, s1)"
  shows "sv_redis s1 = sv_redis s \<and> sv_db s1 = sv_db s \<and>
    (res = Err [ErrFlowNotFound] \<or> (\<exists>c. res = Err [FlowInfraError c])
     \<or> res = Ok () \<and> (\<exists>w. view now (sv_redis s) (redisFlowStateKey (st_AppID st) token) = Some (FlowValue w) \<and> sv_root s1 = map_flow (st_restore st) w))"
proof -
  obtain g r1 where g: "xr_GET (st_redis st) now (redisFlowStateKey (st_AppID st) token) (sv_redis s) = (g, r1)" by fastforce
  from GET [OF g] have r1: "r1 = sv_redis s" and v: "\<And>v. g = Inr v \<Longrightarrow> view now (sv_redis s) (redisFlowStateKey (st_AppID st) token) = v" by auto
  show ?thesis
  proof (cases "\<exists>w. g = Inr (Some (FlowValue w))")
    case False
    with assms g r1 show ?thesis
      by (auto simp: load_flow_def GetFlowByStateToken_def bindp_def store_call_def on_store_def run_simps split: sum.splits option.splits flow_value.splits)
  next
    case True
    then obtain w where w: "g = Inr (Some (FlowValue w))" by blast
    obtain g2 r2 where g2: "xr_GET (st_redis st) now (redisFlowKey (st_AppID st) (FlowID w)) (sv_redis s) = (g2, r2)" by fastforce
    from GET [OF g2] have r2: "r2 = sv_redis s" by simp
    show ?thesis
      using assms g r1 w v [OF w] g2 r2
      by (auto simp: load_flow_def GetFlowByStateToken_def bindp_def store_call_def on_store_def run_simps set_root_def sv_mod_def sv_root_def Let_def
          split: sum.splits option.splits)
  qed
qed

lemma refused:
  assumes "no_session f (t, sv_redis s)" "t \<le> now"
    and "\<And>w. view now (sv_redis s) (redisFlowStateKey (st_AppID st) token) = Some (FlowValue w) \<Longrightarrow> FlowID w = f"
    and run: "bindp (load_flow e now token) (\<lambda>_. bindp (getp sv_root) (\<lambda>flow.
      bindp (getSessionAndUpdateContext e now (FlowID flow)) rest)) s = (res, s')"
  shows "(res = Err [ErrFlowNotFound] \<or> (\<exists>c. res = Err [FlowInfraError c])) \<and> sv_redis s' = sv_redis s \<and> sv_db s' = sv_db s"
proof -
  obtain r1 s1 where load: "load_flow e now token s = (r1, s1)" by fastforce
  note l = load_flow_cases [OF load]
  show ?thesis
  proof (cases "r1 = Ok ()")
    case False
    with l load run show ?thesis by (auto simp: bindp_def)
  next
    case True
    with l assms(3) have f: "FlowID (sv_root s1) = f" and r: "sv_redis s1 = sv_redis s" "sv_db s1 = sv_db s" by auto
    obtain r2 r' where "get": "(Flow_GetSession st now f (sv_redis s1) :: (('k, 'i) flow_errs, FlowSession) outcome \<times> 'r) = (r2, r')" by fastforce
    from GetSession_gone [OF _ assms(2) this] assms(1) r
    have "r' = sv_redis s" "r2 = Err [ErrFlowNotFound] \<or> (\<exists>c. r2 = Err [FlowInfraError c])" by auto
    with run load True f "get" r show ?thesis
      by (auto simp: bindp_def getSessionAndUpdateContext_def on_store_def run_simps)
  qed
qed

lemma ended:
  assumes "serve e now fuel req s = (Ok (out, True), s1)" "f = fs_FlowID (ou_Session out)"
    and "(flow_command st f)\<^sup>*\<^sup>* (now, sv_redis s1) (t, sv_redis s2)" "t \<le> later" "token \<noteq> ''''"
    and "\<And>w. view later (sv_redis s2) (redisFlowStateKey (st_AppID st) token) = Some (FlowValue w) \<Longrightarrow> FlowID w = f"
    and "req' \<in> {FeedRequest token msg, SyntheticRequest token i, GetRequest token}" "serve e later fuel' req' s2 = (res, s3)"
  shows "(res = Err [ErrFlowNotFound] \<or> (\<exists>c. res = Err [FlowInfraError c])) \<and> sv_redis s3 = sv_redis s2 \<and> sv_db s3 = sv_db s2"
proof -
  have "no_session f (now, sv_redis s1)"
    using serve_ends [of now fuel req] assms(1,2) unfolding ends_session_def by blast
  from commands_no_session [OF assms(3) this] have gone: "no_session f (t, sv_redis s2)" .
  note refuse = refused [OF gone assms(4) assms(6)]
  from assms(7) show ?thesis
  proof (elim insertE emptyE)
    assume req: "req' = FeedRequest token msg"
    show ?thesis
      by (rule refuse) (use assms(5,8) in \<open>simp_all add: req FeedInput_def\<close>)
  next
    assume req: "req' = SyntheticRequest token i"
    show ?thesis
      by (rule refuse) (use assms(8) in \<open>simp_all add: req FeedSyntheticInput_def\<close>)
  next
    assume req: "req' = GetRequest token"
    from assms(8) have "bindp (Flow_Get e later token) (\<lambda>output. ret (output, False)) s2 = (res, s3)" by (simp add: req)
    then show ?thesis unfolding Flow_Get_def bindp_assoc
      by (intro refuse) 
  qed
qed

end

interpretation fh: flow_history "e\<lparr>en_store := (en_store e)\<lparr>st_redis := xm_redis\<rparr>\<rparr>" xm_view for e
  by (simp add: flow_history_def xm.flow_keys_axioms)

text \<open>C8: an authentication flow that has ended stays ended. Once a request was answered that the flow has ended, then whatever
  commands other requests send to Redis, those that had loaded the flow before included, no state token of the
  flow is good for anything: the request is refused before it changes anything. The only commands left out create
  the session of a new flow under the ID of this one, which no request does.\<close>

theorem ended_flow_stays_ended:
  assumes "st_redis (en_store e) = xm_redis" "serve e now fuel req s = (Ok (out, True), s1)"
    and "(flow_command (en_store e) (fs_FlowID (ou_Session out)))\<^sup>*\<^sup>* (now, sv_redis s1) (t, sv_redis s2)" "t \<le> later" "token \<noteq> ''''"
    and "\<forall>w. xm_view later (sv_redis s2) (redisFlowStateKey (st_AppID (en_store e)) token) = Some (FlowValue w)
      \<longrightarrow> FlowID w = fs_FlowID (ou_Session out)"
    and "req' \<in> {FeedRequest token msg, SyntheticRequest token i, GetRequest token}" "serve e later fuel' req' s2 = (res, s3)"
  shows "(res = Err [ErrFlowNotFound] \<or> (\<exists>c. res = Err [FlowInfraError c])) \<and> sv_redis s3 = sv_redis s2 \<and> sv_db s3 = sv_db s2"
proof -
  have e: "e\<lparr>en_store := (en_store e)\<lparr>st_redis := xm_redis\<rparr>\<rparr> = e" using assms(1) by simp
  show ?thesis
    by (rule fh.ended [of e, unfolded e, OF assms(2) refl assms(3-5) _ assms(7,8)]) (use assms(6) in blast)
qed

lemma ended_flow_stays_ended_witness:
  "\<exists>out s1. CreateNewFlow demo_env 0 2 DemoIntent empty_options demo_svc = (Ok (out, True), s1) \<and>
     sv_db (snd (FeedInput demo_env 5 2 ''s11'' None s1)) = [7, 70]"
proof -
  obtain out s where s: "CreateNewFlow demo_env 0 2 DemoIntent empty_options demo_svc = (Ok (out, True), s)"
      "fs_FlowID (ou_Session out) = ''f''" "sv_db s = [7, 70]"
    and view: "\<exists>w. xm_view 5 (sv_redis s) (redisFlowStateKey ''app'' ''s11'') = Some (FlowValue w) \<and> FlowID w = ''f''"
    using demo_flow_ends by blast
  have store: "st_redis (en_store demo_env) = xm_redis" "st_AppID (en_store demo_env) = ''app''"
    by (simp_all add: demo_env_def)
  from ended_flow_stays_ended [OF store(1), of 0 2 "CreateRequest DemoIntent empty_options" demo_svc out s 0 s 5 "''s11''"
      "FeedRequest ''s11'' None" None "()" 2 "fst (FeedInput demo_env 5 2 ''s11'' None s)" "snd (FeedInput demo_env 5 2 ''s11'' None s)"]
  have "sv_db (snd (FeedInput demo_env 5 2 ''s11'' None s)) = [7, 70]"
    using s view store by auto
  with s(1) show ?thesis by blast
qed

end
