(* ===== verification/FlowReplay.thy ===== *)
theory FlowReplay imports FlowDemo begin

text \<open>
  The effects of a flow can be replayed: the database a request works on while it accepts an input is the one the next
  request gets by applying the run-effects of the tree that was kept.
\<close>

section \<open>The simple nodes of a tree\<close>

fun simples :: "'k flow \<Rightarrow> 'k list" and simples_node :: "'k node \<Rightarrow> 'k list" where
  "simples (Flow _ _ _ nodes) = concat (map simples_node nodes)"
| "simples_node (Simple k) = [k]"
| "simples_node (SubFlow w) = simples w"

lemma simples_sel: "simples w = concat (map simples_node (Nodes w))"
  by (cases w) simp

lemma simples_map: "simples (map_flow g w) = map g (simples w)" "simples_node (map_node g n) = map g (simples_node n)"
  by (induction w and n rule: simples_simples_node.induct) (auto simp: map_concat comp_def cong: map_cong)

fun loc_simple :: "'k flow \<Rightarrow> loc \<Rightarrow> 'k list" where
  "loc_simple root (AtIntent _) = []"
| "loc_simple root (AtNode p n) = (case content_at root (AtNode p n) of None \<Rightarrow> [] | Some k \<Rightarrow> [k])"

lemma flow_at_append: "flow_at root p = Some w \<Longrightarrow> flow_at root (p @ q) = flow_at w q"
  by (induction root p rule: flow_at.induct) (auto split: if_splits node.splits)

lemma flow_at_sub: "flow_at root p = Some w \<Longrightarrow> n < length (Nodes w) \<Longrightarrow> Nodes w ! n = SubFlow w' \<Longrightarrow> flow_at root (p @ [n]) = Some w'"
  by (simp add: flow_at_append)

lemma visits_simples:
  "flow_at root p = Some w \<Longrightarrow> concat (map (loc_simple root) (visits_flow first p w)) = simples w"
  "flow_at root p = Some w' \<Longrightarrow> drop n (Nodes w') = xs \<Longrightarrow> concat (map (loc_simple root) (visits_nodes first p n xs)) = concat (map simples_node xs)"
  "flow_at root p = Some w' \<Longrightarrow> n < length (Nodes w') \<Longrightarrow> Nodes w' ! n = x \<Longrightarrow> concat (map (loc_simple root) (visits_node first p n x)) = simples_node x"
proof (induction first p w and first p n xs and first p n x arbitrary: and w' and w' rule: visits_flow_visits_nodes_visits_node.induct)
  case (3 first p n x xs)
  then have n: "n < length (Nodes w')" by (metis drop_eq_Nil leI list.distinct(1))
  moreover from this 3 have "Nodes w' ! n = x" "drop (Suc n) (Nodes w') = xs"
    by (metis Cons_nth_drop_Suc list.inject)+
  ultimately show ?case using 3 by simp
qed (auto simp: flow_at_sub)

text \<open>Every content visited is there.\<close>

lemma visits_content:
  "flow_at root p = Some w \<Longrightarrow> l \<in> set (visits_flow first p w) \<Longrightarrow> content_at root l \<noteq> None"
  "flow_at root p = Some w' \<Longrightarrow> drop n (Nodes w') = xs \<Longrightarrow> l \<in> set (visits_nodes first p n xs) \<Longrightarrow> content_at root l \<noteq> None"
  "flow_at root p = Some w' \<Longrightarrow> n < length (Nodes w') \<Longrightarrow> Nodes w' ! n = x \<Longrightarrow> l \<in> set (visits_node first p n x) \<Longrightarrow> content_at root l \<noteq> None"
proof (induction first p w and first p n xs and first p n x arbitrary: and w' and w' rule: visits_flow_visits_nodes_visits_node.induct)
  case (3 first p n x xs)
  then have n: "n < length (Nodes w')" by (metis drop_eq_Nil leI list.distinct(1))
  moreover from this 3 have "Nodes w' ! n = x" "drop (Suc n) (Nodes w') = xs"
    by (metis Cons_nth_drop_Suc list.inject)+
  ultimately show ?case using 3 by auto
qed (auto simp: flow_at_sub split: if_splits)

text \<open>Trees of one shape are visited alike.\<close>

lemma Nodes_map [simp]: "Nodes (map_flow g w) = map (map_node g) (Nodes w)" and Intent_map [simp]: "Intent (map_flow g w) = g (Intent w)"
  by (cases w; simp)+

lemma flow_at_map: "flow_at (map_flow g w) p = map_option (map_flow g) (flow_at w p)"
  by (induction w p rule: flow_at.induct) (auto split: node.splits)

lemma content_at_map: "content_at (map_flow g w) l = map_option g (content_at w l)"
  by (cases l) (auto simp: flow_at_map split: option.splits node.splits)

lemma visits_map:
  "visits_flow first p (map_flow g w) = visits_flow first p w"
  "visits_nodes first p n (map (map_node g) xs) = visits_nodes first p n xs"
  "visits_node first p n (map_node g x) = visits_node first p n x"
  by (induction first p w and first p n xs and first p n x rule: visits_flow_visits_nodes_visits_node.induct) auto

section \<open>The end of a tree\<close>

text \<open>The flow at \<open>p\<close> is the last node of the last node \<dots> of the root.\<close>

fun rightmost :: "'k flow \<Rightarrow> path \<Rightarrow> bool" where
  "rightmost w [] = True"
| "rightmost w (i # p) = (Suc i = length (Nodes w) \<and> (case Nodes w ! i of SubFlow w' \<Rightarrow> rightmost w' p | Simple _ \<Rightarrow> False))"

lemma rightmost_map: "rightmost (map_flow g w) p = rightmost w p"
  by (induction w p rule: rightmost.induct) (auto split: node.splits)

lemma rightmost_flow_at: "rightmost w p \<Longrightarrow> flow_at w p \<noteq> None"
  by (induction w p rule: rightmost.induct) (auto split: node.splits)

lemma set_Nodes_sel [simp]: "Nodes (set_Nodes ns w) = ns" "FlowID (set_Nodes ns w) = FlowID w" "Intent (set_Nodes ns w) = Intent w"
  by (simp_all add: set_Nodes_def)

lemma last_replaced: "Suc i = length xs \<Longrightarrow> concat (map f (xs[i := x])) = concat (map f (butlast xs)) @ f x"
  by (cases xs rule: rev_cases) simp_all

lemma last_split: "Suc i = length xs \<Longrightarrow> concat (map f xs) = concat (map f (butlast xs)) @ f (xs ! i)"
  using last_replaced [of i xs f "xs ! i"] by simp

lemma simples_append: "rightmost w p \<Longrightarrow> simples (map_at p (\<lambda>w. set_Nodes (Nodes w @ [x]) w) w) = simples w @ simples_node x"
proof (induction p arbitrary: w)
  case (Cons i p)
  then obtain w' where i: "Suc i = length (Nodes w)" "Nodes w ! i = SubFlow w'" "rightmost w' p"
    by (auto split: node.splits)
  with Cons.IH [OF i(3)] show ?case
    by (simp add: simples_sel [of "set_Nodes _ w"] simples_sel [of w] last_replaced [OF i(1)] last_split [OF i(1)])
qed (simp add: simples_sel)

lemma flow_at_map_at: "flow_at w p = Some v \<Longrightarrow> flow_at (map_at p f w) p = Some (f v)"
  by (induction w p rule: flow_at.induct) (auto split: if_splits node.splits)

lemma simples_replace:
  assumes "rightmost w p" "flow_at w p = Some v" "Nodes v \<noteq> []" "map g (simples_node x) = map g (simples_node (last (Nodes v)))"
  shows "map g (simples (map_at p (\<lambda>w. set_Nodes ((Nodes w)[length (Nodes w) - 1 := x]) w) w)) = map g (simples w)"
  using assms
proof (induction p arbitrary: w)
  case Nil
  then obtain n where n: "Suc n = length (Nodes w)" by (metis flow_at.simps(1) length_greater_0_conv less_iff_Suc_add option.inject add_0)
  then have len: "length (Nodes w) - 1 = n" by linarith
  moreover have "last (Nodes w) = Nodes w ! n" using Nil len by (auto simp: last_conv_nth)
  ultimately have "length (Nodes w) - 1 = n" "last (Nodes w) = Nodes w ! n" by blast+
  moreover have "v = w" using Nil by simp
  ultimately show ?case using Nil(4) by (simp add: simples_sel last_replaced [OF n] last_split [OF n])
next
  case (Cons i p)
  then obtain w' where i: "Suc i = length (Nodes w)" "Nodes w ! i = SubFlow w'" "rightmost w' p"
    by (auto split: node.splits)
  with Cons show ?case
    by (simp add: simples_sel [of "set_Nodes _ w"] simples_sel [of w] last_replaced [OF i(1)] last_split [OF i(1)])
qed

section \<open>Programs whose effects can be replayed\<close>

text \<open>\<open>eff k\<close> is what the run-effects of a content \<open>k\<close> do to the database, nothing when there are none. Two trees are alike
  when they agree up to the effects of their contents; a tree is sound when its intents have no run-effects.\<close>

type_synonym ('k, 'i, 'd) db_effect = "('d \<Rightarrow> (('k, 'i) flow_errs, unit) outcome \<times> 'd) option"
type_synonym ('k, 'i, 'd) effect_of = "'k \<Rightarrow> ('k, 'i, 'd) db_effect"

definition run_eff :: "('k, 'i, 'd) db_effect \<Rightarrow> 'd \<Rightarrow> (('k, 'i) flow_errs, unit) outcome \<times> 'd" where
  "run_eff f db = (case f of None \<Rightarrow> (Ok (), db) | Some f \<Rightarrow> f db)"

fun sound :: "('k \<Rightarrow> 'e option) \<Rightarrow> 'k flow \<Rightarrow> bool" and sound_node :: "('k \<Rightarrow> 'e option) \<Rightarrow> 'k node \<Rightarrow> bool" where
  "sound eff (Flow _ _ intent nodes) = (eff intent = None \<and> list_all (sound_node eff) nodes)"
| "sound_node eff (Simple k) = True"
| "sound_node eff (SubFlow w) = sound eff w"

definition alike :: "('k, 'i, 'd) effect_of \<Rightarrow> 'k flow \<Rightarrow> 'k flow \<Rightarrow> bool" where
  "alike eff w w' \<longleftrightarrow> map_flow eff w' = map_flow eff w"

primrec run_effs :: "('k, 'i, 'd) db_effect list \<Rightarrow> 'd \<Rightarrow> (('k, 'i) flow_errs, unit) outcome \<times> 'd" where
  "run_effs [] db = (Ok (), db)"
| "run_effs (f # fs) db = (case run_eff f db of (Ok _, db') \<Rightarrow> run_effs fs db' | (Err err, db') \<Rightarrow> (Err err, db') | (Panic, db') \<Rightarrow> (Panic, db'))"

lemma run_effs_append: "run_effs (fs @ gs) db = (case run_effs fs db of (Ok _, db') \<Rightarrow> run_effs gs db' | (Err err, db') \<Rightarrow> (Err err, db') | (Panic, db') \<Rightarrow> (Panic, db'))"
  by (induction fs arbitrary: db) (auto split: prod.split outcome.split)

text \<open>The discipline the engine asks of its intents and nodes: run-effects depend on the node alone, only they write to the
  database, what reacts changes contents in place without changing their effects, a node is replaced by one with the
  same effects, and no effect pretends that the flow has ended.\<close>

fun node_of :: "('k, 'f) react_result \<Rightarrow> 'k node" where
  "node_of (ReactNode n) = n"
| "node_of (ReactNodeResult n _ _) = n"

definition reacts_in_place :: "('k, 'i, 'sc, 'f, 'd, 'h, 'x) program \<Rightarrow> ('k, 'i, 'd) effect_of \<Rightarrow> bool" where
  "reacts_in_place p eff \<longleftrightarrow> (\<forall>l i s r s'. p_ReactTo p l i s = (r, s') \<longrightarrow>
     tx_db s' = tx_db s \<and> alike eff (pw_root (tx_world s)) (pw_root (tx_world s')) \<and>
     (\<forall>res err. r = Ok (Some res, err) \<longrightarrow> sound_node eff (node_of res)) \<and>
     (\<forall>res err w. r = Ok (Some res, err) \<longrightarrow> ErrReplaceNode \<in> set err \<longrightarrow> flow_at (pw_root (tx_world s')) (loc_path l) = Some w \<longrightarrow>
        Nodes w \<noteq> [] \<longrightarrow> map eff (simples_node (node_of res)) = map eff (simples_node (last (Nodes w)))))"

definition replayable :: "('k, 'i, 'sc, 'f, 'd, 'h, 'x) program \<Rightarrow> ('k, 'i, 'd) effect_of \<Rightarrow> bool" where
  "replayable p eff \<longleftrightarrow>
     (\<forall>k w (s :: ('d, 'h, ('k, 'f, 'x) flow_mem) tx_state). case apply_run_node p k w s of (r, s') \<Rightarrow>
        (r, tx_db s') = run_eff (eff k) (tx_db s) \<and> alike eff (cur_root s) (cur_root s')) \<and>
     (\<forall>k w (s :: ('d, 'h, ('k, 'f, 'x) flow_mem) tx_state). eff k = None \<longrightarrow> (case apply_run_intent p k w s of (r, s') \<Rightarrow>
        r = Ok () \<and> tx_db s' = tx_db s \<and> alike eff (cur_root s) (cur_root s'))) \<and>
     (\<forall>k flows s. tx_db (snd (p_CanReactTo p k flows s)) = tx_db s) \<and>
     reacts_in_place p eff \<and>
     (\<forall>k db err. fst (run_eff (eff k) db) = Err err \<longrightarrow> err \<noteq> [] \<and> ErrEOF \<notin> set err) \<and>
     (\<forall>u s. tx_db (snd (p_GetUser p u s)) = tx_db s) \<and>
     (\<forall>u s err. fst (p_GetUser p u s) = Err err \<longrightarrow> ErrEOF \<notin> set err) \<and>
     (\<forall>u err s. tx_db (snd (p_DispatchBlocked p u err s)) = tx_db s)"

lemma alike_refl [simp]: "alike eff w w"
  by (simp add: alike_def)

lemma alike_trans: "alike eff w w' \<Longrightarrow> alike eff w' w'' \<Longrightarrow> alike eff w w''"
  by (simp add: alike_def)

lemma alike_simples: "alike eff w w' \<Longrightarrow> map eff (simples w') = map eff (simples w)"
  unfolding alike_def by (metis simples_map(1))

lemma alike_content:
  assumes "alike eff w w'" "content_at w l = Some k"
  shows "\<exists>k'. content_at w' l = Some k' \<and> eff k' = eff k"
proof -
  have "map_option eff (content_at w' l) = map_option eff (content_at w l)"
    using assms(1) unfolding alike_def by (metis content_at_map)
  then show ?thesis using assms(2) by auto
qed

lemma alike_visits: "alike eff w w' \<Longrightarrow> visits_flow first p w' = visits_flow first p w"
  unfolding alike_def by (metis visits_map(1))

lemma sound_map: "sound e (map_flow g w) = sound (e \<circ> g) w" "sound_node e (map_node g n) = sound_node (e \<circ> g) n"
  by (induction w and n rule: simples_simples_node.induct) (auto simp: list_all_iff)

lemma alike_sound: "alike eff w w' \<Longrightarrow> sound eff w' = sound eff w"
  unfolding alike_def using sound_map(1) [of id eff w] sound_map(1) [of id eff w'] by simp

lemma sound_sel: "sound eff w \<longleftrightarrow> eff (Intent w) = None \<and> list_all (sound_node eff) (Nodes w)"
  by (cases w) simp

lemma sound_flow_at: "sound eff w \<Longrightarrow> flow_at w q = Some v \<Longrightarrow> sound eff v"
  by (induction w q rule: flow_at.induct)
    (fastforce simp: sound_sel [of eff] list_all_length split: if_splits node.splits)+

lemma sound_map_at: "sound eff w \<Longrightarrow> (\<And>v. sound eff v \<Longrightarrow> sound eff (f v)) \<Longrightarrow> sound eff (map_at q f w)"
proof (induction q arbitrary: w)
  case (Cons i q)
  show ?case
  proof (cases "i < length (Nodes w)")
    case True
    with Cons.prems(1) have "sound_node eff (Nodes w ! i)" by (simp add: sound_sel [of eff w] list_all_length)
    show ?thesis
    proof (cases "Nodes w ! i")
      case (SubFlow w')
      with \<open>sound_node eff (Nodes w ! i)\<close> Cons have "sound eff (map_at q f w')" by simp
      with Cons.prems(1) True SubFlow show ?thesis
        by (auto simp: sound_sel [of eff "set_Nodes _ w"] sound_sel [of eff w] list_all_iff dest!: set_update_subset_insert [THEN subsetD])
    qed (use Cons.prems True in simp)
  qed (use Cons.prems in \<open>simp split: option.splits node.splits\<close>)
qed simp

lemma alike_rightmost: "alike eff w w' \<Longrightarrow> rightmost w' p = rightmost w p"
  unfolding alike_def by (metis rightmost_map)

lemma replayable_node:
  "replayable p eff \<Longrightarrow> apply_run_node p k w s = (r, s') \<Longrightarrow> (r, tx_db s') = run_eff (eff k) (tx_db s) \<and> alike eff (cur_root s) (cur_root s')"
  unfolding replayable_def by (metis (mono_tags, lifting) case_prod_conv)

lemma replayable_intent:
  "replayable p eff \<Longrightarrow> eff k = None \<Longrightarrow> apply_run_intent p k w s = (r, s') \<Longrightarrow> r = Ok () \<and> tx_db s' = tx_db s \<and> alike eff (cur_root s) (cur_root s')"
  unfolding replayable_def by (metis (mono_tags, lifting) case_prod_conv)

lemma replayable_react:
  assumes "replayable p eff" "p_ReactTo p l i s = (r, s')"
  shows "tx_db s' = tx_db s" "alike eff (pw_root (tx_world s)) (pw_root (tx_world s'))"
    "\<And>res err. r = Ok (Some res, err) \<Longrightarrow> sound_node eff (node_of res)"
    "\<And>res err w. r = Ok (Some res, err) \<Longrightarrow> ErrReplaceNode \<in> set err \<Longrightarrow> flow_at (pw_root (tx_world s')) (loc_path l) = Some w \<Longrightarrow>
      Nodes w \<noteq> [] \<Longrightarrow> map eff (simples_node (node_of res)) = map eff (simples_node (last (Nodes w)))"
proof -
  have "reacts_in_place p eff" using assms(1) by (simp add: replayable_def)
  note r = this [unfolded reacts_in_place_def, rule_format, OF assms(2)]
  show "tx_db s' = tx_db s" "alike eff (pw_root (tx_world s)) (pw_root (tx_world s'))" using r by blast+
  show "sound_node eff (node_of res)" if "r = Ok (Some res, err)" for res err using r that by blast
  show "map eff (simples_node (node_of res)) = map eff (simples_node (last (Nodes w)))"
    if "r = Ok (Some res, err)" "ErrReplaceNode \<in> set err" "flow_at (pw_root (tx_world s')) (loc_path l) = Some w" "Nodes w \<noteq> []" for res err w
    using r that by blast
qed

lemma visit_all_replays:
  assumes p: "replayable p eff" and t: "tv_NodeSimple t = Some (apply_run_node p)" "tv_Intent t = Some (apply_run_intent p) \<or> tv_Intent t = None"
    and ls: "\<forall>l \<in> set ls. content_at w l \<noteq> None"
    and intents: "tv_Intent t \<noteq> None \<Longrightarrow> sound eff w" and s: "alike eff w (cur_root s)" and run: "visit_all cur_root t ls s = (r, s')"
  shows "(r, tx_db s') = run_effs (map eff (concat (map (loc_simple w) ls))) (tx_db s) \<and> alike eff w (cur_root s')"
  using ls s run
proof (induction ls arbitrary: s)
  case Nil
  then show ?case by (simp add: run_simps)
next
  case (Cons l ls)
  then obtain k where k: "content_at w l = Some k" by auto
  with alike_content [OF Cons.prems(2)] obtain k' where k': "content_at (cur_root s) l = Some k'" "eff k' = eff k" by blast
  obtain r1 s1 where v: "visit cur_root t l s = (r1, s1)" by fastforce
  have first: "(r1, tx_db s1) = run_effs (map eff (loc_simple w l)) (tx_db s) \<and> alike eff w (cur_root s1)"
  proof (cases l)
    case (AtIntent q)
    with v k' t have ran: "(r1, s1) = (Ok (), s) \<or> tv_Intent t \<noteq> None \<and> apply_run_intent p k' q s = (r1, s1)"
      by (auto simp: visit_def run_simps)
    have "eff k' = None" if "tv_Intent t \<noteq> None"
      using sound_flow_at [OF intents [OF that], of q] k k' AtIntent by (auto simp: sound_sel split: option.splits)
    with ran replayable_intent [OF p, of k' q s r1 s1] AtIntent Cons.prems(2) show ?thesis by (auto intro: alike_trans)
  next
    case (AtNode q n)
    with v k' t have "apply_run_node p k' q s = (r1, s1)" by (auto simp: visit_def)
    from replayable_node [OF p this] AtNode Cons.prems(2) k k' show ?thesis
      by (auto intro: alike_trans split: prod.split outcome.split)
  qed
  show ?case
  proof (cases r1)
    case (Ok u)
    with Cons.prems(3) v have rest: "visit_all cur_root t ls s1 = (r, s')" by (simp add: bindp_run)
    from Cons.IH [OF _ _ this] Cons.prems(1) first have
      "(r, tx_db s') = run_effs (map eff (concat (map (loc_simple w) ls))) (tx_db s1)" "alike eff w (cur_root s')" by auto
    moreover have "run_effs (map eff (loc_simple w l)) (tx_db s) = (Ok (), tx_db s1)" using first Ok by auto
    ultimately show ?thesis by (simp add: run_effs_append)
  next
    case (Err err)
    then have "run_effs (map eff (loc_simple w l)) (tx_db s) = (Err err, tx_db s1)" using first by auto
    with Cons.prems(3) v Err first show ?thesis by (auto simp: bindp_run run_effs_append)
  next
    case Panic
    then have "run_effs (map eff (loc_simple w l)) (tx_db s) = (Panic, tx_db s1)" using first by auto
    with Cons.prems(3) v Panic first show ?thesis by (auto simp: bindp_run run_effs_append)
  qed
qed

lemma ApplyRunEffects_replays:
  assumes "replayable p eff" "sound eff (cur_root s)" "ApplyRunEffects p s = (r, s')"
  shows "(r, tx_db s') = run_effs (map eff (simples (cur_root s))) (tx_db s) \<and> alike eff (cur_root s) (cur_root s')"
proof -
  let ?w = "cur_root s"
  have run: "visit_all cur_root \<lparr>tv_Intent = Some (apply_run_intent p), tv_NodeSimple = Some (apply_run_node p)\<rparr> (visits_flow False [] ?w) s = (r, s')"
    using assms(3) by (simp add: ApplyRunEffects_def TraverseFlow_def traverseFlow_def)
  have "\<forall>l \<in> set (visits_flow False [] ?w). content_at ?w l \<noteq> None"
    using visits_content(1) [of ?w "[]" ?w] by auto
  from visit_all_replays [OF assms(1) _ _ this assms(2) alike_refl run] show ?thesis
    using visits_simples(1) [of ?w "[]" ?w] by simp
qed

section \<open>Accepting an input\<close>

definition same_state :: "('d, 'h, ('k, 'f, 'x) flow_mem) tx_state \<Rightarrow> ('d, 'h, ('k, 'f, 'x) flow_mem) tx_state \<Rightarrow> bool" where
  "same_state s s' \<longleftrightarrow> tx_db s' = tx_db s \<and> cur_root s' = cur_root s"

lemma same_state_rel [simp]: "reflp same_state" "transp same_state"
  by (auto simp: same_state_def intro: reflpI transpI)

lemma on_ctx_same: "(\<And>s. tx_db (snd (m s)) = tx_db s) \<Longrightarrow> keeps same_state (on_ctx m)"
  unfolding keeps_def same_state_def on_ctx_def on_world_def cur_root_def
  by (auto split: prod.split) (metis snd_conv tx_state.select_convs(1))

lemmas still = keeps_intros keeps_cases same_state_rel

lemma newAuthenticationFlowError_same: "keeps same_state (newAuthenticationFlowError p err)"
  by (auto simp: keeps_def newAuthenticationFlowError_def run_simps same_state_def split: option.split)

lemma FindInputReactorFor_same:
  assumes "\<And>k flows s. tx_db (snd (p_CanReactTo p k flows s)) = tx_db s"
  shows "keeps same_state (FindInputReactorForFlow p root w flow)" "keeps same_state (FindInputReactorForNode p root w n x)"
  using assms
  by (induction p root w flow and p root w n x rule: FindInputReactorForFlow_FindInputReactorForNode.induct)
    (auto intro!: still on_ctx_same simp: Let_def CanReactTo_at_def)

lemma FindInputReactor_same:
  "replayable p eff \<Longrightarrow> keeps same_state (FindInputReactor p)"
  unfolding FindInputReactor_def replayable_def by (intro still FindInputReactorFor_same newAuthenticationFlowError_same) blast

text \<open>Who reacts is at the end of the tree.\<close>

lemma CanReactTo_at_loc: "CanReactTo_at p root l k s = (Ok (l', sc), s') \<Longrightarrow> l' = l"
  by (auto simp: CanReactTo_at_def bindp_Ok run_simps)

lemma reactor_at_end:
  "FindInputReactorForFlow p root w flow s = (Ok (l, sc), s') \<Longrightarrow> \<exists>q. loc_path l = w @ q \<and> rightmost flow q"
  "FindInputReactorForNode p root w n x s = (Ok (l, sc), s') \<Longrightarrow> (\<exists>q flow. x = SubFlow flow \<and> loc_path l = w @ n # q \<and> rightmost flow q) \<or> loc_path l = w"
proof (induction p root w flow and p root w n x arbitrary: s s' and s s' rule: FindInputReactorForFlow_FindInputReactorForNode.induct)
  case (1 p root w flowID token intent nodes)
  let ?own = "CanReactTo_at p root (AtIntent w) intent"
  show ?case
  proof (cases "nodes = []")
    case True
    with 1(2) show ?thesis by (auto dest: CanReactTo_at_loc intro!: exI [of _ "[]"])
  next
    case False
    with 1(2) obtain r s1 where r: "attempt (FindInputReactorForNode p root w (length nodes - 1) (last nodes)) s = (Ok r, s1)"
      and rest: "(case r of Inr found \<Rightarrow> ret found | Inl err \<Rightarrow> if ErrEOF \<notin> set err then failp err else ?own) s1 = (Ok (l, sc), s')"
      by (auto simp: bindp_Ok)
    show ?thesis
    proof (cases r)
      case (Inl err)
      with rest show ?thesis by (auto simp: run_simps split: if_splits dest: CanReactTo_at_loc intro!: exI [of _ "[]"])
    next
      case (Inr found)
      with rest r have "FindInputReactorForNode p root w (length nodes - 1) (last nodes) s = (Ok (l, sc), s1)"
        by (auto simp: run_simps attempt_def split: prod.splits outcome.splits)
      with 1(1) [OF refl False] have "(\<exists>q flow. last nodes = SubFlow flow \<and> loc_path l = w @ (length nodes - 1) # q \<and> rightmost flow q) \<or> loc_path l = w"
        by blast
      then show ?thesis
      proof (elim disjE exE conjE)
        fix q flow assume "last nodes = SubFlow flow" "loc_path l = w @ (length nodes - 1) # q" "rightmost flow q"
        with False show ?thesis by (intro exI [of _ "(length nodes - 1) # q"]) (auto simp: last_conv_nth)
      qed (auto intro!: exI [of _ "[]"])
    qed
  qed
next
  case (2 p root w n k)
  then show ?case by (auto simp: run_simps split: if_splits dest: CanReactTo_at_loc)
next
  case (3 p root w n flow)
  then show ?case by fastforce
qed

lemma FindInputReactor_end: "FindInputReactor p s = (Ok (l, sc), s') \<Longrightarrow> rightmost (cur_root s) (loc_path l)"
proof -
  assume "FindInputReactor p s = (Ok (l, sc), s')"
  then obtain r s1 where 1: "attempt (FindInputReactorForFlow p (cur_root s) [] (cur_root s)) s = (Ok r, s1)"
    and 2: "(case r of Inr found \<Rightarrow> ret found | Inl err \<Rightarrow> bindp (newAuthenticationFlowError p err) failp) s1 = (Ok (l, sc), s')"
    by (auto simp: FindInputReactor_def bindp_Ok)
  from 2 have "r = Inr (l, sc)" by (auto simp: bindp_Ok run_simps split: sum.splits)
  with 1 have "FindInputReactorForFlow p (cur_root s) [] (cur_root s) s = (Ok (l, sc), s1)"
    by (auto simp: attempt_def split: prod.splits outcome.splits)
  from reactor_at_end(1) [OF this] show ?thesis by simp
qed

text \<open>The database is the one the effects of the tree lead to.\<close>

definition replayed :: "('k, 'i, 'd) effect_of \<Rightarrow> 'd \<Rightarrow> ('d, 'h, ('k, 'f, 'x) flow_mem) tx_state \<Rightarrow> bool" where
  "replayed eff db s \<longleftrightarrow> run_effs (map eff (simples (cur_root s))) db = (Ok (), tx_db s) \<and> sound eff (cur_root s)"

lemma replayed_same: "same_state s s' \<Longrightarrow> replayed eff db s \<Longrightarrow> replayed eff db s'"
  by (simp add: replayed_def same_state_def)

lemma keeps_same: "keeps same_state m \<Longrightarrow> m s = (r, s') \<Longrightarrow> replayed eff db s \<Longrightarrow> replayed eff db s'"
  by (rule replayed_same [OF keepsD [where R = same_state]])

lemma react_replayed:
  assumes "replayable p eff" "on_prog (p_ReactTo p l i) s = (r, s')"
  shows "tx_db s' = tx_db s \<and> alike eff (cur_root s) (cur_root s')"
proof -
  obtain s1 where "p_ReactTo p l i \<lparr>tx_db = tx_db s, tx_hooks = tx_hooks s, tx_world = fm_prog (tx_world s)\<rparr> = (r, s1)"
      "cur_root s' = pw_root (tx_world s1)" "tx_db s' = tx_db s1"
    using assms(2) by (auto simp: on_prog_def on_world_def cur_root_def split: prod.splits)
  from replayable_react [OF assms(1) this(1)] this(2,3) show ?thesis by (simp add: cur_root_def)
qed

lemma react_replaces:
  assumes "replayable p eff" "on_prog (p_ReactTo p l i) s = (Ok (Some res, err), s')" "ErrReplaceNode \<in> set err"
    and "flow_at (cur_root s') (loc_path l) = Some w" "Nodes w \<noteq> []"
  shows "map eff (simples_node (node_of res)) = map eff (simples_node (last (Nodes w)))"
proof -
  obtain s1 where "p_ReactTo p l i \<lparr>tx_db = tx_db s, tx_hooks = tx_hooks s, tx_world = fm_prog (tx_world s)\<rparr> = (Ok (Some res, err), s1)"
      "cur_root s' = pw_root (tx_world s1)"
    using assms(2) by (auto simp: on_prog_def on_world_def cur_root_def split: prod.splits)
  from replayable_react(4) [OF assms(1) this(1) refl assms(3)] this(2) assms(4,5) show ?thesis by simp
qed

lemma react_sound:
  assumes "replayable p eff" "on_prog (p_ReactTo p l i) s = (Ok (Some res, err), s')"
  shows "sound_node eff (node_of res)"
proof -
  obtain s1 where "p_ReactTo p l i \<lparr>tx_db = tx_db s, tx_hooks = tx_hooks s, tx_world = fm_prog (tx_world s)\<rparr> = (Ok (Some res, err), s1)"
    using assms(2) by (auto simp: on_prog_def on_world_def split: prod.splits)
  from replayable_react(3) [OF assms(1) this refl] show ?thesis .
qed

lemma sound_append: "sound eff w \<Longrightarrow> sound_node eff node \<Longrightarrow> sound eff (map_at q (\<lambda>w. set_Nodes (Nodes w @ [node]) w) w)"
  by (erule sound_map_at) (simp add: sound_sel [of eff])

lemma sound_replace: "sound eff w \<Longrightarrow> sound_node eff node \<Longrightarrow> sound eff (map_at q (\<lambda>w. set_Nodes ((Nodes w)[length (Nodes w) - 1 := node]) w) w)"
  by (erule sound_map_at) (auto simp: sound_sel [of eff] list_all_iff dest!: set_update_subset_insert [THEN subsetD])

lemma upd_result_same: "keeps same_state (upd_result f)"
  unfolding upd_result_def mem_mod_def by (rule keeps_modp) (simp add: same_state_def cur_root_def)

fun took :: "('k, 'f) react_result \<Rightarrow> ('d, 'h, ('k, 'f, 'x) flow_mem) tx_state \<Rightarrow> ('d, 'h, ('k, 'f, 'x) flow_mem) tx_state" where
  "took (ReactNode n) s = s"
| "took (ReactNodeResult n delayed updated) s = s\<lparr>tx_world := (tx_world s)\<lparr>fm_result := (let r = fm_result (tx_world s) in
     r\<lparr>ar_PendingSessionPatches := ar_PendingSessionPatches r @ opt_list updated,
       ar_DelayedOneTimeFunctions := ar_DelayedOneTimeFunctions r @ opt_list delayed\<rparr>)\<rparr>\<rparr>"

lemma take_result_run: "take_result r s = (Ok (node_of r), took r s)"
  by (cases r) (simp_all add: bindp_def run_simps upd_result_def mem_mod_def Let_def)

lemma took_same: "same_state s (took r s)"
  by (cases r) (simp_all add: same_state_def cur_root_def Let_def)

lemma handle_bot_protection_same: "keeps same_state (handle_bot_protection err)"
  unfolding handle_bot_protection_def
  by (auto intro!: still upd_result_same split: option.split bot_protection_status.split)

lemma replaceNode_replayed:
  assumes "replaceNode q node s = (Ok (), s')" "rightmost (cur_root s) q" "replayed eff db s"
    and "\<And>w. flow_at (cur_root s) q = Some w \<Longrightarrow> Nodes w \<noteq> [] \<Longrightarrow> map eff (simples_node node) = map eff (simples_node (last (Nodes w)))"
    and "sound_node eff node"
  shows "replayed eff db s'"
proof -
  from assms(1) obtain w where w: "flow_at (cur_root s) q = Some w" "Nodes w \<noteq> []"
    and run: "cur_root s' = map_at q (\<lambda>w. set_Nodes ((Nodes w)[length (Nodes w) - 1 := node]) w) (cur_root s)" "tx_db s' = tx_db s"
    by (auto simp: replaceNode_def run_simps upd_root_def mem_mod_def cur_root_def split: option.splits if_splits)
  have "sound eff (cur_root s')"
    using sound_replace [OF _ assms(5)] assms(3) run by (simp add: replayed_def)
  with simples_replace [OF assms(2) w assms(4) [OF w]] run assms(3) show ?thesis
    by (simp add: replayed_def)
qed

lemma run_effs_fail:
  "replayable p eff \<Longrightarrow> run_effs (map eff ks) db = (Err err, db') \<Longrightarrow> err \<noteq> [] \<and> ErrEOF \<notin> set err"
proof (induction ks arbitrary: db)
  case (Cons k ks)
  then have fail: "\<forall>db err. fst (run_eff (eff k) db) = Err err \<longrightarrow> err \<noteq> [] \<and> ErrEOF \<notin> set err" by (auto simp: replayable_def)
  obtain r d where "run_eff (eff k) db = (r, d)" by fastforce
  with Cons fail [rule_format, of db] show ?case by (cases r) auto
qed simp

lemma appendNode_replayed:
  assumes p: "replayable p eff" and run: "appendNode p q node s = (r, s')" and "rightmost (cur_root s) q" "replayed eff db s"
    and "sound_node eff node"
  shows "(r = Ok () \<longrightarrow> replayed eff db s') \<and> (\<forall>err. r = Err err \<longrightarrow> err \<noteq> [] \<and> ErrEOF \<notin> set err)"
proof -
  obtain w where w: "flow_at (cur_root s) q = Some w" using rightmost_flow_at [OF assms(3)] by auto
  let ?app = "\<lambda>w. set_Nodes (Nodes w @ [node]) w"
  let ?t = "\<lparr>tv_Intent = None, tv_NodeSimple = Some (apply_run_node p)\<rparr>"
  define s1 where "s1 = s\<lparr>tx_world := (tx_world s)\<lparr>fm_prog := (fm_prog (tx_world s))\<lparr>pw_root := map_at q ?app (cur_root s)\<rparr>\<rparr>\<rparr>"
  then have s1: "cur_root s1 = map_at q ?app (cur_root s)" "tx_db s1 = tx_db s" by (simp_all add: cur_root_def)
  have visit: "visit_all cur_root ?t (visits_node False q (length (Nodes w)) node) s1 = (r, s')"
    using run w by (simp add: appendNode_def TraverseNode_def upd_root_def mem_mod_def s1_def cur_root_def)
  have at: "flow_at (cur_root s1) q = Some (?app w)" using flow_at_map_at [OF w] s1(1) by simp
  have nth: "length (Nodes w) < length (Nodes (?app w))" "Nodes (?app w) ! length (Nodes w) = node" by simp_all
  have "\<forall>l \<in> set (visits_node False q (length (Nodes w)) node). content_at (cur_root s1) l \<noteq> None"
    using visits_content(3) [OF at nth] by blast
  from visit_all_replays [OF p _ _ this _ alike_refl visit] visits_simples(3) [OF at nth]
  have res: "(r, tx_db s') = run_effs (map eff (simples_node node)) (tx_db s1)" "alike eff (cur_root s1) (cur_root s')" by simp_all
  have "run_effs (map eff (simples (cur_root s1))) db = run_effs (map eff (simples_node node)) (tx_db s)"
    using assms(4) s1 simples_append [OF assms(3), of node] by (simp add: replayed_def run_effs_append)
  moreover have "map eff (simples (cur_root s')) = map eff (simples (cur_root s1))" using alike_simples [OF res(2)] .
  moreover have "sound eff (cur_root s')"
    using alike_sound [OF res(2)] sound_append [OF _ assms(5)] assms(4) s1(1) by (simp add: replayed_def)
  ultimately show ?thesis using res(1) s1(2) run_effs_fail [OF p] by (metis replayed_def)
qed

definition tree_failed :: "('k, 'i) flow_errs \<Rightarrow> bool" where
  "tree_failed err \<longleftrightarrow> err \<noteq> [] \<and> ErrEOF \<notin> set err"

text \<open>One round of the loop goes on, or stops with a tree that can be replayed, or an effect failed.\<close>

definition replayed_or_failed :: "('k, 'i, 'd) effect_of \<Rightarrow> 'd \<Rightarrow> ('k, 'i) accept_stop + unit \<Rightarrow> ('d, 'h, ('k, 'f, 'x) flow_mem) tx_state \<Rightarrow> bool" where
  "replayed_or_failed eff db r s \<longleftrightarrow> replayed eff db s \<or> (\<exists>changed err. r = Inl (changed, err) \<and> tree_failed err)"

lemma replace_reaction_replayed:
  fixes p :: "('k, 'i, 'sc, 'f, 'd, 'h, 'x) program" and r :: "('k, 'i) accept_stop + unit"
  assumes p: "replayable p eff" and react: "on_prog (p_ReactTo p l input) s0 = (Ok (rr, err), s)" "ErrReplaceNode \<in> set err"
    and right: "rightmost (cur_root s) (loc_path l)" and s: "replayed eff db s" and run: "replace_reaction l rr s = (Ok r, s')"
  shows "replayed eff db s'"
proof -
  from run obtain res where rr: "rr = Some res"
    by (cases rr) (auto simp: replace_reaction_def run_simps)
  from run rr have rep: "(replaceNode (loc_path l) (node_of res) :: ('k, 'i, 'f, 'd, 'h, 'x, unit) mem_proc) (took res s) = (Ok (), s')"
    by (auto simp: replace_reaction_def bindp_def take_result_run run_simps split: prod.splits outcome.splits)
  show ?thesis
  proof (rule replaceNode_replayed [OF rep _ replayed_same [OF took_same s]])
    show "sound_node eff (node_of res)" using react_sound [OF p react(1) [unfolded rr]] .
    show "rightmost (cur_root (took res s)) (loc_path l)" using right took_same [of s res] by (simp add: same_state_def)
    fix w assume "flow_at (cur_root (took res s)) (loc_path l) = Some w" "Nodes w \<noteq> []"
    then show "map eff (simples_node (node_of res)) = map eff (simples_node (last (Nodes w)))"
      using react_replaces [OF p react(1) [unfolded rr] react(2)] took_same [of s res] by (simp add: same_state_def)
  qed
qed

lemma append_reaction_replayed:
  assumes p: "replayable p eff" and react: "on_prog (p_ReactTo p l input) s0 = (Ok (rr, err0), s)"
    and right: "rightmost (cur_root s) (loc_path l)" and s: "replayed eff db s" "same_state s s1"
    and run: "append_reaction p l changed rr s1 = (Ok r, s')"
  shows "replayed_or_failed eff db r s'"
proof -
  from run obtain res where rr: "rr = Some res"
    by (cases rr) (auto simp: append_reaction_def run_simps)
  obtain ra s2 where ra: "appendNode p (loc_path l) (node_of res) (took res s1) = (ra, s2)" by fastforce
  with run rr have "s2 = s' \<and> (ra = Ok () \<and> r = Inr () \<or> (\<exists>err. ra = Err err \<and> r = Inl (changed, err)))"
    by (cases ra) (simp_all add: append_reaction_def bindp_def take_result_run run_simps attempt_def)
  moreover have "rightmost (cur_root (took res s1)) (loc_path l)" using right took_same [of s1 res] s(2) by (simp add: same_state_def)
  note appendNode_replayed [OF p ra this replayed_same [OF took_same replayed_same [OF s(2,1)]] react_sound [OF p react [unfolded rr]]]
  ultimately show ?thesis by (auto simp: replayed_or_failed_def tree_failed_def)
qed

lemma handle_reaction_replayed:
  assumes p: "replayable p eff" and react: "on_prog (p_ReactTo p l input) s0 = (Ok (rr, err), s)"
    and right: "rightmost (cur_root s) (loc_path l)" and s: "replayed eff db s"
    and run: "handle_reaction p l changed rr err s = (Ok r, s')"
  shows "replayed_or_failed eff db r s'"
proof (cases "ErrIncompatibleInput \<in> set err \<or> ErrSameNode \<in> set err \<or> ErrReplaceNode \<in> set err")
  case True
  with run s replace_reaction_replayed [OF p react _ right s] show ?thesis
    by (auto simp: handle_reaction_def replayed_or_failed_def run_simps split: if_splits)
next
  case False
  with run obtain handled s1 where bot: "handle_bot_protection err s = (Ok handled, s1)"
    and rest: "(case handled of Inl err \<Rightarrow> ret (Inl (True, err))
      | Inr err \<Rightarrow> if err \<noteq> [] then bindp (newAuthenticationFlowError p err) (\<lambda>err. ret (Inl (changed, err)))
          else append_reaction p l changed rr) s1 = (Ok r, s')"
    by (auto simp: handle_reaction_def bindp_Ok)
  have s1: "replayed eff db s1" "same_state s s1"
    using keeps_same [OF handle_bot_protection_same bot s] keepsD [OF handle_bot_protection_same bot] by simp_all
  then have right1: "rightmost (cur_root s1) (loc_path l)" using right by (simp add: same_state_def)
  show ?thesis
  proof (cases "handled = Inr []")
    case True
    with rest append_reaction_replayed [OF p react right s s1(2)] show ?thesis by simp
  next
    case False
    have "keeps same_state (case handled of Inl err \<Rightarrow> ret (Inl (True, err))
      | Inr err \<Rightarrow> bindp (newAuthenticationFlowError p err) (\<lambda>err. ret (Inl (changed, err))))"
      by (intro still newAuthenticationFlowError_same)
    from keeps_same [OF this _ s1(1)] rest False show ?thesis
      by (auto simp: replayed_or_failed_def split: sum.splits)
  qed
qed

lemma accept_once_replayed:
  assumes p: "replayable p eff" and s: "replayed eff db s" and run: "accept_once p inputFn changed s = (Ok r, s')"
  shows "replayed_or_failed eff db r s'"
proof -
  obtain found s1 where find: "attempt (FindInputReactor p) s = (Ok found, s1)"
    using run by (auto simp: accept_once_def bindp_Ok)
  have s1: "replayed eff db s1" "same_state s s1"
    using keepsD [OF keeps_attempt [OF FindInputReactor_same [OF p]] find] keeps_same [OF keeps_attempt [OF FindInputReactor_same [OF p]] find s]
    by simp_all
  show ?thesis
  proof (cases "\<exists>l sc input. found = Inr (l, sc) \<and> inputFn sc = Inr input")
    case False
    with run find s1 show ?thesis
      by (auto simp: accept_once_def replayed_or_failed_def bindp_run run_simps split: sum.splits)
  next
    case True
    then obtain l sc input where x: "found = Inr (l, sc)" "inputFn sc = Inr input" by blast
    with find have "FindInputReactor p s = (Ok (l, sc), s1)" by (auto simp: attempt_def split: prod.splits outcome.splits)
    from FindInputReactor_end [OF this] s1(2) have right: "rightmost (cur_root s1) (loc_path l)" by (simp add: same_state_def)
    obtain rr err2 s2 where react: "on_prog (p_ReactTo p l input) s1 = (Ok (rr, err2), s2)"
      and rest: "handle_reaction p l changed rr err2 s2 = (Ok r, s')"
      using run find x by (auto simp: accept_once_def bindp_run bindp_Ok)
    from react_replayed [OF p react] have db2: "tx_db s2 = tx_db s1" and al: "alike eff (cur_root s1) (cur_root s2)" by auto
    have "replayed eff db s2" using s1(1) db2 alike_simples [OF al] alike_sound [OF al] by (simp add: replayed_def)
    with handle_reaction_replayed [OF p react _ this rest] right alike_rightmost [OF al] show ?thesis by simp
  qed
qed

lemma accept_loop_replayed:
  assumes p: "replayable p eff"
  shows "replayed eff db s \<Longrightarrow> accept_loop p inputFn n changed s = (Ok (changed', err), s') \<Longrightarrow> replayed eff db s' \<or> tree_failed err"
proof (induction n arbitrary: changed s)
  case (Suc n)
  then obtain r s1 where once: "accept_once p inputFn changed s = (Ok r, s1)"
    and rest: "(case r of Inl stop \<Rightarrow> ret stop | Inr _ \<Rightarrow> accept_loop p inputFn n True) s1 = (Ok (changed', err), s')"
    by (auto simp: bindp_Ok)
  from accept_once_replayed [OF p Suc.prems(1) once] rest Suc.IH show ?case
    by (cases r) (auto simp: replayed_or_failed_def run_simps)
qed (simp add: run_simps)


section \<open>After the loop\<close>

lemma visit_all_error:
  assumes "\<And>l f k s err s'. tv_at t l = Some f \<Longrightarrow> f k (loc_path l) s = (Err err, s') \<Longrightarrow> Q err"
  shows "visit_all cur t ls s = (Err err, s') \<Longrightarrow> Q err"
proof (induction ls arbitrary: s)
  case (Cons l ls)
  then show ?case using assms
    by (auto simp: visit_def bindp_def run_simps split: prod.splits outcome.splits option.splits)
qed (simp add: run_simps)

lemma same_visitors_error:
  assumes "visit_all cur \<lparr>tv_Intent = Some look, tv_NodeSimple = Some look\<rparr> ls s = (Err err, s')"
    and "\<And>k p s err s'. look k p s = (Err err, s') \<Longrightarrow> Q err"
  shows "Q err"
  by (rule visit_all_error [OF _ assms(1)]) (auto dest: assms(2) elim!: tv_at.elims)

lemma GetUserID_error: "GetUserID use_user root = Err err \<Longrightarrow> ErrEOF \<notin> set err"
  by (auto simp: GetUserID_def Let_def TraverseFlow_def traverseFlow_def split: prod.splits if_splits outcome.splits option.splits
      dest!: same_visitors_error [where Q = "\<lambda>err. ErrEOF \<notin> set err"])

lemma logged_same:
  "replayable p eff \<Longrightarrow> keeps same_state (logAuthenticationBlockedErrorIfNeeded p err)"
  unfolding logAuthenticationBlockedErrorIfNeeded_def replayable_def
  by (intro still keeps_outcome on_ctx_same) blast+

lemma on_ctx_error: "on_ctx m s = (Err err, s') \<Longrightarrow> \<exists>s. fst (m s) = Err err"
  by (auto simp: on_ctx_def on_world_def split: prod.splits) (metis fst_conv)

lemma logged_fails:
  fixes p :: "('k, 'i, 'sc, 'f, 'd, 'h, 'x) program"
  assumes p: "replayable p eff" and err: "tree_failed err" and run: "logAuthenticationBlockedErrorIfNeeded p err s = (Ok err', s')"
  shows "tree_failed err'"
proof -
  have user: "\<And>u s e. fst (p_GetUser p u s) = Err e \<Longrightarrow> ErrEOF \<notin> set e" using p by (simp add: replayable_def)
  have more: "tree_failed (e @ err)" if "ErrEOF \<notin> set e" for e using that err by (simp add: tree_failed_def)
  show ?thesis
  proof (cases "\<not> IsAPIError err \<or> AsAPIError_kind err \<notin> {AccountStatusKind, AccountLockoutKind, HookDisallowedKind}")
    case True
    then have "err' = err" using run by (auto simp: logAuthenticationBlockedErrorIfNeeded_def run_simps split: if_splits)
    with err show ?thesis by simp
  next
    case False
    show ?thesis
    proof (cases "GetUserID (p_UseUser p) (cur_root s) :: (('k, 'i) flow_errs, string) outcome")
      case (Ok userID)
      obtain u s1 where u: "on_ctx (p_GetUser p userID) s = (u, s1)" by fastforce
      show ?thesis
      proof (cases u)
        case (Err e)
        with u on_ctx_error user have "ErrEOF \<notin> set e" by fastforce
        with Err u Ok False run more show ?thesis
          by (auto simp: logAuthenticationBlockedErrorIfNeeded_def bindp_def run_simps attempt_def)
      qed (use u Ok False run err in \<open>auto simp: logAuthenticationBlockedErrorIfNeeded_def bindp_def run_simps attempt_def
        split: prod.splits outcome.splits\<close>)
    next
      case (Err e)
      with False run err more [OF GetUserID_error [OF Err]] show ?thesis
        by (auto simp: logAuthenticationBlockedErrorIfNeeded_def bindp_def run_simps split: if_splits prod.splits outcome.splits)
    next
      case Panic
      with False run show ?thesis by (simp add: logAuthenticationBlockedErrorIfNeeded_def bindp_def run_simps)
    qed
  qed
qed


lemma simples_token [simp]: "simples (set_StateToken token w) = simples w"
  by (cases w) (simp add: set_StateToken_def)

lemma sound_token [simp]: "sound eff (set_StateToken token w) = sound eff w"
  by (cases w) (simp add: set_StateToken_def)

lemma doAccept_replayed:
  assumes p: "replayable p eff" and s: "replayed eff db s" and run: "doAccept p newToken inputFn s = (Ok err, s')"
  shows "replayed eff db s' \<or> tree_failed err"
proof -
  obtain r1 s1 where loop: "accept_loop p inputFn MAX_LOOP False s = (r1, s1)" by fastforce
  with run obtain changed err1 where r1: "r1 = Ok (changed, err1)" by (cases r1) (auto simp: doAccept_def bindp_def)
  with run loop have "err = err1 \<or> err1 = []" "tx_db s' = tx_db s1" "simples (cur_root s') = simples (cur_root s1)" "sound eff (cur_root s') = sound eff (cur_root s1)"
    by (auto simp: doAccept_def renew_token_def mem_mod_def cur_root_def bindp_def run_simps split: if_splits)
  with accept_loop_replayed [OF p s loop [unfolded r1]] show ?thesis by (auto simp: replayed_def tree_failed_def)
qed

lemma Accept_replayed:
  assumes p: "replayable p eff" and s: "replayed eff db s" and run: "accept p newToken inputFn s = (Ok err, s')"
  shows "replayed eff db s' \<or> tree_failed err"
proof -
  obtain err1 s1 where first: "doAccept p newToken inputFn s = (Ok err1, s1)"
    and rest: "(if err1 \<noteq> [] then logAuthenticationBlockedErrorIfNeeded p err1 else ret err1) s1 = (Ok err, s')"
    using run by (auto simp: accept_def bindp_Ok)
  show ?thesis
  proof (cases "err1 = []")
    case True
    with doAccept_replayed [OF p s first] rest show ?thesis by (auto simp: run_simps tree_failed_def)
  next
    case False
    with rest have "logAuthenticationBlockedErrorIfNeeded p err1 s1 = (Ok err, s')" by simp
    with doAccept_replayed [OF p s first] show ?thesis
      using logged_fails [OF p] keeps_same [OF logged_same [OF p]] by blast
  qed
qed


definition demo_effect :: "(demo_content, unit, nat list) effect_of" where
  "demo_effect k = (case k of DemoIntent \<Rightarrow> None | DemoNode \<Rightarrow> Some (\<lambda>db. (Ok (), db @ [7])))"

lemma demo_replayable: "replayable demo_program demo_effect"
  by (auto simp: replayable_def reacts_in_place_def alike_def demo_effect_def demo_program_def apply_run_node_def apply_run_intent_def
      get_effects_def bindp_def run_simps run_eff_def on_ctx_def on_prog_def on_world_def demo_write_def cur_root_def
      split: demo_content.splits prod.splits option.splits if_splits)


end
